(* ===== verification/Prelude.thy ===== *)
theory Prelude
  imports Main "HOL-Library.List_Lexorder" "HOL-Library.Char_ord" "HOL-Library.Product_Lexorder"
begin

section \<open>Shared vocabulary of the development\<close>

text \<open>
  What every component uses: \<open>Result\<close> values as sums, the \<open>?\<close>-style sequencing of
  fallible checks, machine integers with their saturating and checked operations, and the
  fact collections the component proofs are built on.

  Rust's \<open>Result<T, E>\<close> is the sum \<open>'e + 'a\<close>; \<open>Err e\<close> is \<open>Inl e\<close> and \<open>Ok x\<close> is
  \<open>Inr x\<close>.  Unsigned machine integers are \<open>nat\<close> and signed ones \<open>int\<close>; every operation
  of the source that can leave its width (\<open>checked_add\<close>, \<open>saturating_add\<close>, \<open>as\<close> casts)
  is one of the functions below, with the width written out.
\<close>

named_theorems check_simps \<open>the acceptance conditions of the validators\<close>
named_theorems store_simps \<open>lookup, size and entries of ordered maps after an update\<close>

subsection \<open>Results\<close>

type_synonym ('e, 'a) result = "'e + 'a"

abbreviation Ok :: "'a \<Rightarrow> ('e, 'a) result" where
  "Ok \<equiv> Inr"

abbreviation Err :: "'e \<Rightarrow> ('e, 'a) result" where
  "Err \<equiv> Inl"

definition and_then :: "('e, 'a) result \<Rightarrow> ('a \<Rightarrow> ('e, 'b) result) \<Rightarrow> ('e, 'b) result" where
  "and_then r f = (case r of Inl e \<Rightarrow> Inl e | Inr x \<Rightarrow> f x)"

definition map_err :: "('e \<Rightarrow> 'f) \<Rightarrow> ('e, 'a) result \<Rightarrow> ('f, 'a) result" where
  "map_err f r = (case r of Inl e \<Rightarrow> Inl (f e) | Inr x \<Rightarrow> Inr x)"

definition ok_or :: "'e \<Rightarrow> 'a option \<Rightarrow> ('e, 'a) result" where
  "ok_or e x = (case x of None \<Rightarrow> Inl e | Some y \<Rightarrow> Inr y)"

definition is_ok :: "('e, 'a) result \<Rightarrow> bool" where
  "is_ok r = (case r of Inl e \<Rightarrow> False | Inr x \<Rightarrow> True)"

definition ensure :: "bool \<Rightarrow> 'e \<Rightarrow> ('e, unit) result" where
  "ensure b e = (if b then Inr () else Inl e)"

text \<open>A block of statements each ended by \<open>?\<close>: the first error is the result.\<close>

fun run_checks :: "('e, unit) result list \<Rightarrow> ('e, unit) result" where
  "run_checks [] = Inr ()"
| "run_checks (r # rs) = (case r of Inl e \<Rightarrow> Inl e | Inr u \<Rightarrow> run_checks rs)"

lemma and_then_simps [simp]:
  "and_then (Inl e) f = Inl e"
  "and_then (Inr x) f = f x"
  by (simp_all add: and_then_def)

lemma map_err_simps [simp]:
  "map_err g (Inl e) = Inl (g e)"
  "map_err g (Inr x) = Inr x"
  by (simp_all add: map_err_def)

lemma ok_or_simps [simp]:
  "ok_or e None = Inl e"
  "ok_or e (Some y) = Inr y"
  by (simp_all add: ok_or_def)

lemma is_ok_simps [simp]:
  "is_ok (Inl e) = False"
  "is_ok (Inr x) = True"
  by (simp_all add: is_ok_def)

lemma and_then_eq_Inr [simp]:
  "and_then r f = Inr y \<longleftrightarrow> (\<exists>x. r = Inr x \<and> f x = Inr y)"
  by (cases r) auto

lemma map_err_eq_Inr [simp]: "map_err g r = Inr y \<longleftrightarrow> r = Inr y"
  by (cases r) auto

lemma ok_or_eq_Inr [simp]: "ok_or e x = Inr y \<longleftrightarrow> x = Some y"
  by (cases x) auto

lemma ensure_eq_Inr [simp]: "ensure b e = Inr u \<longleftrightarrow> b"
  by (simp add: ensure_def)

lemma ensure_eq_Inl [simp]: "ensure b e = Inl e' \<longleftrightarrow> \<not> b \<and> e' = e"
  by (auto simp add: ensure_def)

lemma is_ok_unit: "is_ok r \<longleftrightarrow> r = Inr ()"
  by (cases r) auto

lemma run_checks_Cons_ok [simp]:
  "run_checks (r # rs) = Inr u \<longleftrightarrow> r = Inr () \<and> run_checks rs = Inr ()"
  by (cases r) auto

declare run_checks.simps(2) [simp del]

lemma run_checks_step [simp]:
  "run_checks (Inl e # rs) = Inl e"
  "run_checks (Inr u # rs) = run_checks rs"
  by (simp_all add: run_checks.simps)

lemma run_checks_append_ok [simp]:
  "run_checks (rs @ rs') = Inr u \<longleftrightarrow> run_checks rs = Inr () \<and> run_checks rs' = Inr ()"
  by (induction rs) (auto simp: run_checks.simps(1))

lemma run_checks_map_ok [simp]:
  "run_checks (map f xs) = Inr u \<longleftrightarrow> (\<forall>x\<in>set xs. f x = Inr ())"
  by (induction xs) auto

lemma run_checks_Inl: "run_checks rs = Inl e \<Longrightarrow> Inl e \<in> set rs"
proof (induction rs)
  case (Cons r rs)
  then show ?case by (cases r) auto
qed simp

subsection \<open>Machine integers\<close>

definition u8_max :: nat where "u8_max = 255"
definition u16_max :: nat where "u16_max = 65535"
definition u32_max :: nat where "u32_max = 4294967295"
definition u64_max :: nat where "u64_max = 18446744073709551615"
definition i64_max :: int where "i64_max = 9223372036854775807"
definition i64_min :: int where "i64_min = - 9223372036854775808"

definition saturating_add :: "nat \<Rightarrow> nat \<Rightarrow> nat \<Rightarrow> nat" where
  "saturating_add lim a b = min (a + b) lim"

definition saturating_mul :: "nat \<Rightarrow> nat \<Rightarrow> nat \<Rightarrow> nat" where
  "saturating_mul lim a b = min (a * b) lim"

text \<open>Unsigned \<open>saturating_sub\<close> is the truncating subtraction of \<open>nat\<close>.\<close>

definition saturating_sub :: "nat \<Rightarrow> nat \<Rightarrow> nat" where
  "saturating_sub a b = a - b"

definition checked_add :: "nat \<Rightarrow> nat \<Rightarrow> nat \<Rightarrow> nat option" where
  "checked_add lim a b = (if a + b \<le> lim then Some (a + b) else None)"

definition i64_checked :: "int \<Rightarrow> int option" where
  "i64_checked x = (if i64_min \<le> x \<and> x \<le> i64_max then Some x else None)"

definition i64_saturating :: "int \<Rightarrow> int" where
  "i64_saturating x = max i64_min (min i64_max x)"

lemma checked_add_eq_Some [simp]:
  "checked_add lim a b = Some c \<longleftrightarrow> c = a + b \<and> a + b \<le> lim"
  by (auto simp: checked_add_def)

lemma checked_add_eq_None [simp]: "checked_add lim a b = None \<longleftrightarrow> lim < a + b"
  by (auto simp: checked_add_def)

lemma i64_saturating_in_range: "i64_min \<le> i64_saturating x \<and> i64_saturating x \<le> i64_max"
  by (simp add: i64_saturating_def i64_min_def i64_max_def)

lemma i64_saturating_id: "i64_min \<le> x \<Longrightarrow> x \<le> i64_max \<Longrightarrow> i64_saturating x = x"
  by (simp add: i64_saturating_def)

subsection \<open>Lists\<close>

text \<open>
  The two idioms by which the source rejects duplicates, sorting followed by a scan of
  adjacent pairs and insertion into a set, both accept exactly the distinct lists.
\<close>

fun adjacent_equal :: "'a list \<Rightarrow> bool" where
  "adjacent_equal (x # y # zs) \<longleftrightarrow> x = y \<or> adjacent_equal (y # zs)"
| "adjacent_equal _ \<longleftrightarrow> False"

lemma sorted_adjacent_equal_iff:
  fixes xs :: "'a::linorder list"
  shows "sorted xs \<Longrightarrow> adjacent_equal xs \<longleftrightarrow> \<not> distinct xs"
proof (induction xs rule: adjacent_equal.induct)
  case (1 x y zs)
  then have tail: "adjacent_equal (y # zs) \<longleftrightarrow> \<not> distinct (y # zs)" by simp
  have "x \<notin> set (y # zs)" if "x \<noteq> y"
    using that 1(2) by fastforce
  then show ?case using tail by auto
qed simp_all

lemma sort_adjacent_equal_iff [simp]: "adjacent_equal (sort xs) \<longleftrightarrow> \<not> distinct xs"
  by (simp add: sorted_adjacent_equal_iff)

lemma find_Some_in: "find P xs = Some x \<Longrightarrow> x \<in> set xs \<and> P x"
  by (induction xs) (auto split: if_splits)

end
