(* ===== verification/Ordered_Map.thy ===== *)
theory Ordered_Map
  imports Prelude
begin

section \<open>Ordered maps and sets\<close>

text \<open>
  The Council keeps its state in \<open>BTreeMap\<close> and \<open>BTreeSet\<close> values (and in \<open>HashMap\<close>
  and \<open>HashSet\<close> values whose iteration order no result depends on).  A \<open>bmap\<close> is the
  list of a map's entries in strictly increasing key order, which is what iterating over a
  \<open>BTreeMap\<close> yields; the type carries the ordering, so no lemma about a map needs it as a
  hypothesis.  A set is a map to \<open>unit\<close>, as in the Rust standard library.
\<close>

subsection \<open>Sorted association lists\<close>

fun raw_insert :: "'k::linorder \<Rightarrow> 'v \<Rightarrow> ('k \<times> 'v) list \<Rightarrow> ('k \<times> 'v) list" where
  "raw_insert k v [] = [(k, v)]"
| "raw_insert k v ((k', v') # xs) =
     (if k < k' then (k, v) # (k', v') # xs
      else if k = k' then (k, v) # xs
      else (k', v') # raw_insert k v xs)"

definition raw_remove :: "'k \<Rightarrow> ('k \<times> 'v) list \<Rightarrow> ('k \<times> 'v) list" where
  "raw_remove k xs = filter (\<lambda>p. fst p \<noteq> k) xs"

definition raw_update :: "('k \<Rightarrow> 'v \<Rightarrow> 'w) \<Rightarrow> ('k \<times> 'v) list \<Rightarrow> ('k \<times> 'w) list" where
  "raw_update f xs = map (\<lambda>p. (fst p, f (fst p) (snd p))) xs"

lemma keys_raw_insert: "set (map fst (raw_insert k v xs)) = insert k (set (map fst xs))"
proof (induction xs)
  case (Cons p xs)
  then show ?case by (cases p) (simp add: insert_commute)
qed simp

lemma sorted_raw_insert:
  "sorted_wrt (<) (map fst xs) \<Longrightarrow> sorted_wrt (<) (map fst (raw_insert k v xs))"
proof (induction xs)
  case (Cons p xs)
  obtain k' v' where p: "p = (k', v')" by (cases p)
  show ?case
  proof (cases "k' < k")
    case True
    with Cons p keys_raw_insert[of k v xs] show ?thesis by auto
  next
    case False
    with Cons p show ?thesis by fastforce
  qed
qed simp

lemma sorted_raw_remove:
  "sorted_wrt (<) (map fst xs) \<Longrightarrow> sorted_wrt (<) (map fst (raw_remove k xs))"
  by (induction xs) (auto simp: raw_remove_def)

lemma map_of_raw_insert:
  "sorted_wrt (<) (map fst xs) \<Longrightarrow> map_of (raw_insert k v xs) = (map_of xs)(k \<mapsto> v)"
proof (induction xs)
  case (Cons p xs)
  obtain k' v' where p: "p = (k', v')" by (cases p)
  show ?case using Cons unfolding p by (auto simp: fun_eq_iff)
qed simp

lemma map_of_raw_remove: "map_of (raw_remove k xs) = (map_of xs)(k := None)"
  by (induction xs) (auto simp: raw_remove_def)

lemma map_of_raw_update: "map_of (raw_update f xs) k = map_option (f k) (map_of xs k)"
  by (induction xs) (auto simp: raw_update_def)

lemma length_raw_insert:
  "sorted_wrt (<) (map fst xs) \<Longrightarrow>
   length (raw_insert k v xs) = (if map_of xs k = None then Suc (length xs) else length xs)"
proof (induction xs)
  case (Cons p xs)
  obtain k' v' where p: "p = (k', v')" by (cases p)
  have "map_of xs k = None" if "k < k'"
    using Cons.prems that unfolding p by (auto simp: map_of_eq_None_iff)
  with Cons show ?case unfolding p by auto
qed simp

lemma sorted_keys_distinct: "sorted_wrt (<) (ks :: 'k::linorder list) \<Longrightarrow> distinct ks"
  by (induction ks) auto

subsection \<open>The map type\<close>

typedef (overloaded) ('k, 'v) bmap = "{xs :: ('k::linorder \<times> 'v) list. sorted_wrt (<) (map fst xs)}"
  morphisms bm_entries Bmap
  by (rule exI[of _ "[]"]) simp

setup_lifting type_definition_bmap

lift_definition bm_empty :: "('k::linorder, 'v) bmap" is "[]"
  by simp

lift_definition bm_get :: "('k::linorder, 'v) bmap \<Rightarrow> 'k \<Rightarrow> 'v option" is "map_of" .

lift_definition bm_insert :: "'k::linorder \<Rightarrow> 'v \<Rightarrow> ('k, 'v) bmap \<Rightarrow> ('k, 'v) bmap" is raw_insert
  by (rule sorted_raw_insert)

lift_definition bm_remove :: "'k::linorder \<Rightarrow> ('k, 'v) bmap \<Rightarrow> ('k, 'v) bmap" is raw_remove
  by (rule sorted_raw_remove)

lift_definition bm_update :: "('k \<Rightarrow> 'v \<Rightarrow> 'w) \<Rightarrow> ('k::linorder, 'v) bmap \<Rightarrow> ('k, 'w) bmap" is raw_update
  by (simp add: raw_update_def comp_def)

definition bm_len :: "('k::linorder, 'v) bmap \<Rightarrow> nat" where
  "bm_len m = length (bm_entries m)"

definition bm_keys :: "('k::linorder, 'v) bmap \<Rightarrow> 'k list" where
  "bm_keys m = map fst (bm_entries m)"

definition bm_values :: "('k::linorder, 'v) bmap \<Rightarrow> 'v list" where
  "bm_values m = map snd (bm_entries m)"

definition bm_contains :: "('k::linorder, 'v) bmap \<Rightarrow> 'k \<Rightarrow> bool" where
  "bm_contains m k = (case bm_get m k of None \<Rightarrow> False | Some v \<Rightarrow> True)"

subsection \<open>Laws\<close>

lemma bm_entries_sorted: "sorted_wrt (<) (map fst (bm_entries m))"
  using bm_entries by auto

lemma bm_keys_sorted: "sorted_wrt (<) (bm_keys m)"
  by (simp add: bm_keys_def bm_entries_sorted)

lemma bm_keys_distinct: "distinct (bm_keys m)"
  by (rule sorted_keys_distinct[OF bm_keys_sorted])

lemma bm_get_map_of: "bm_get m k = map_of (bm_entries m) k"
  by transfer simp

lemma bm_get_empty [simp, store_simps]: "bm_get bm_empty k = None"
  by transfer simp

lemma bm_get_insert [simp, store_simps]:
  "bm_get (bm_insert k v m) k' = (if k' = k then Some v else bm_get m k')"
  by transfer (simp add: map_of_raw_insert)

lemma bm_get_remove [simp, store_simps]:
  "bm_get (bm_remove k m) k' = (if k' = k then None else bm_get m k')"
  by transfer (simp add: map_of_raw_remove)

lemma bm_get_update [simp, store_simps]:
  "bm_get (bm_update f m) k = map_option (f k) (bm_get m k)"
  by transfer (simp add: map_of_raw_update)

lemma bm_contains_iff [simp, store_simps]: "bm_contains m k \<longleftrightarrow> bm_get m k \<noteq> None"
  by (simp add: bm_contains_def split: option.split)

lemma bm_entries_empty [simp, store_simps]: "bm_entries bm_empty = []"
  by transfer simp

lemma bm_entries_insert [store_simps]: "bm_entries (bm_insert k v m) = raw_insert k v (bm_entries m)"
  by transfer simp

lemma bm_entries_remove [store_simps]: "bm_entries (bm_remove k m) = raw_remove k (bm_entries m)"
  by transfer simp

lemma bm_entries_update [store_simps]: "bm_entries (bm_update f m) = raw_update f (bm_entries m)"
  by transfer simp

lemma bm_len_empty [simp, store_simps]: "bm_len bm_empty = 0"
  by (simp add: bm_len_def)

lemma bm_len_insert [simp, store_simps]:
  "bm_len (bm_insert k v m) = (if bm_get m k = None then Suc (bm_len m) else bm_len m)"
  by (simp add: bm_len_def bm_entries_insert length_raw_insert bm_entries_sorted bm_get_map_of)

lemma bm_len_update [simp, store_simps]: "bm_len (bm_update f m) = bm_len m"
  by (simp add: bm_len_def bm_entries_update raw_update_def)

lemma bm_entries_iff: "(k, v) \<in> set (bm_entries m) \<longleftrightarrow> bm_get m k = Some v"
  using bm_keys_distinct[of m] by (simp add: bm_get_map_of bm_keys_def map_of_eq_Some_iff)

lemma bm_keys_iff: "k \<in> set (bm_keys m) \<longleftrightarrow> bm_get m k \<noteq> None"
  by (simp add: bm_keys_def bm_get_map_of map_of_eq_None_iff image_iff)

lemma bm_values_iff: "v \<in> set (bm_values m) \<longleftrightarrow> (\<exists>k. bm_get m k = Some v)"
  by (force simp: bm_values_def bm_entries_iff[symmetric])

lemma bm_key_set: "set (bm_keys m) = {k. bm_get m k \<noteq> None}"
  using bm_keys_iff[of _ m] by blast

lemma bm_len_card: "bm_len m = card {k. bm_get m k \<noteq> None}"
  using distinct_card[OF bm_keys_distinct, of m]
  by (simp only: bm_key_set) (simp add: bm_len_def bm_keys_def)

lemma finite_bm_dom [simp]: "finite {k. bm_get m k \<noteq> None}"
  using List.finite_set[of "bm_keys m"] by (simp only: bm_key_set)

lemma bm_len_remove [simp, store_simps]:
  "bm_len (bm_remove k m) = (if bm_get m k = None then bm_len m else bm_len m - 1)"
proof -
  have "{k'. bm_get (bm_remove k m) k' \<noteq> None} = {k'. bm_get m k' \<noteq> None} - {k}"
    by auto
  then show ?thesis by (simp add: bm_len_card card_Diff_singleton_if)
qed

lemma bm_len_zero [simp]: "bm_len m = 0 \<longleftrightarrow> m = bm_empty"
  by (metis bm_entries_empty bm_entries_inject bm_len_def length_0_conv)

lemma sorted_entries_eq:
  fixes xs ys :: "('k::linorder \<times> 'v) list"
  assumes "sorted_wrt (<) (map fst xs)" "sorted_wrt (<) (map fst ys)" "map_of xs = map_of ys"
  shows "xs = ys"
proof -
  have sx: "sorted (map fst xs)" "distinct (map fst xs)"
    and sy: "sorted (map fst ys)" "distinct (map fst ys)"
    using assms strict_sorted_iff by blast+
  have same: "set xs = set ys"
    using assms(3) sx(2) sy(2) by (metis map_of_inject_set)
  have "inj_on fst (set xs \<union> set ys)"
    using sx(2) same by (simp add: distinct_map)
  then show ?thesis
    using sx sy same by (blast intro: map_sorted_distinct_set_unique)
qed

lemma bm_eqI: "(\<And>k. bm_get m k = bm_get m' k) \<Longrightarrow> m = m'"
  by (metis (full_types) bm_entries_inject bm_entries_sorted bm_get_map_of ext sorted_entries_eq)

lemma bm_insert_same [simp]: "bm_get m k = Some v \<Longrightarrow> bm_insert k v m = m"
  by (rule bm_eqI) auto

lemma bm_remove_none [simp]: "bm_get m k = None \<Longrightarrow> bm_remove k m = m"
  by (rule bm_eqI) auto

lemma bm_update_id: "(\<And>k v. bm_get m k = Some v \<Longrightarrow> f k v = v) \<Longrightarrow> bm_update f m = m"
proof (rule bm_eqI)
  fix k
  assume "\<And>k v. bm_get m k = Some v \<Longrightarrow> f k v = v"
  then show "bm_get (bm_update f m) k = bm_get m k" by (cases "bm_get m k") auto
qed

lemma filter_values_card:
  "length (filter P (bm_values m)) = card {k. \<exists>v. bm_get m k = Some v \<and> P v}"
proof -
  let ?es = "filter (\<lambda>e. P (snd e)) (bm_entries m)"
  have "distinct (map fst ?es)"
    using bm_keys_distinct[of m] by (simp add: bm_keys_def distinct_map_filter)
  moreover have "set (map fst ?es) = {k. \<exists>v. bm_get m k = Some v \<and> P v}"
    by (force simp: bm_entries_iff[symmetric])
  ultimately have "card {k. \<exists>v. bm_get m k = Some v \<and> P v} = length ?es"
    by (metis distinct_card length_map)
  then show ?thesis by (simp add: bm_values_def filter_map comp_def)
qed

lemma finite_filter_values: "finite {k. \<exists>v. bm_get m k = Some v \<and> P v}"
  by (rule finite_subset[OF _ finite_bm_dom[of m]]) auto

lemma bm_entries_all_iff: "(\<forall>x\<in>set (bm_entries m). P x) \<longleftrightarrow> (\<forall>k v. bm_get m k = Some v \<longrightarrow> P (k, v))"
  by (metis bm_entries_iff surj_pair)

subsection \<open>Sets\<close>

type_synonym 'a bset = "('a, unit) bmap"

definition bs_empty :: "'a::linorder bset" where
  "bs_empty = bm_empty"

definition bs_insert :: "'a::linorder \<Rightarrow> 'a bset \<Rightarrow> 'a bset" where
  "bs_insert x s = bm_insert x () s"

definition bs_remove :: "'a::linorder \<Rightarrow> 'a bset \<Rightarrow> 'a bset" where
  "bs_remove x s = bm_remove x s"

definition bs_member :: "'a::linorder bset \<Rightarrow> 'a \<Rightarrow> bool" where
  "bs_member s x = bm_contains s x"

definition bs_len :: "'a::linorder bset \<Rightarrow> nat" where
  "bs_len s = bm_len s"

definition bs_elems :: "'a::linorder bset \<Rightarrow> 'a list" where
  "bs_elems s = bm_keys s"

definition bs_of_list :: "'a::linorder list \<Rightarrow> 'a bset" where
  "bs_of_list xs = fold bs_insert xs bs_empty"

definition bs_subset :: "'a::linorder bset \<Rightarrow> 'a bset \<Rightarrow> bool" where
  "bs_subset s t = list_all (bs_member t) (bs_elems s)"

lemma bs_member_empty [simp, store_simps]: "\<not> bs_member bs_empty x"
  by (simp add: bs_member_def bs_empty_def)

lemma bs_member_insert [simp, store_simps]: "bs_member (bs_insert y s) x \<longleftrightarrow> x = y \<or> bs_member s x"
  by (simp add: bs_member_def bs_insert_def)

lemma bs_member_remove [simp, store_simps]: "bs_member (bs_remove y s) x \<longleftrightarrow> x \<noteq> y \<and> bs_member s x"
  by (simp add: bs_member_def bs_remove_def)

lemma bs_elems_iff: "x \<in> set (bs_elems s) \<longleftrightarrow> bs_member s x"
  by (simp add: bs_elems_def bs_member_def bm_keys_iff)

lemma bs_elems_set: "set (bs_elems s) = {x. bs_member s x}"
  using bs_elems_iff by blast

lemma bs_elems_sorted: "sorted_wrt (<) (bs_elems s)"
  by (simp add: bs_elems_def bm_keys_sorted)

lemma bs_elems_distinct [simp]: "distinct (bs_elems s)"
  by (simp add: bs_elems_def bm_keys_distinct)

lemma bs_len_elems: "bs_len s = length (bs_elems s)"
  by (simp add: bs_len_def bs_elems_def bm_len_def bm_keys_def)

lemma bs_len_empty [simp, store_simps]: "bs_len bs_empty = 0"
  by (simp add: bs_len_def bs_empty_def)

lemma bs_len_insert [simp, store_simps]:
  "bs_len (bs_insert x s) = (if bs_member s x then bs_len s else Suc (bs_len s))"
  by (auto simp add: bs_len_def bs_insert_def bs_member_def)

lemma bs_len_remove [simp, store_simps]:
  "bs_len (bs_remove x s) = (if bs_member s x then bs_len s - 1 else bs_len s)"
  by (auto simp add: bs_len_def bs_remove_def bs_member_def)

lemma bs_len_zero: "bs_len s = 0 \<longleftrightarrow> (\<forall>x. \<not> bs_member s x)"
  using bs_elems_set[of s] by (simp add: bs_len_elems set_eq_iff flip: set_empty)

lemma bs_subset_iff [simp, store_simps]:
  "bs_subset s t \<longleftrightarrow> (\<forall>x. bs_member s x \<longrightarrow> bs_member t x)"
  by (simp add: bs_subset_def list_all_iff bs_elems_set)

lemma bs_eqI: "(\<And>x. bs_member s x = bs_member t x) \<Longrightarrow> s = (t :: 'a::linorder bset)"
  by (rule bm_eqI) (metis bm_contains_iff bs_member_def not_None_eq old.unit.exhaust)

lemma bs_insert_member [simp]: "bs_member s x \<Longrightarrow> bs_insert x s = s"
  by (rule bs_eqI) auto

lemma fold_bs_insert_member: "bs_member (fold bs_insert xs s) x \<longleftrightarrow> x \<in> set xs \<or> bs_member s x"
  by (induction xs arbitrary: s) auto

lemma bs_member_of_list [simp, store_simps]: "bs_member (bs_of_list xs) x \<longleftrightarrow> x \<in> set xs"
  by (simp add: bs_of_list_def fold_bs_insert_member)

lemma bs_len_of_list: "bs_len (bs_of_list xs) = card (set xs)"
proof -
  have "set (bs_elems (bs_of_list xs)) = set xs" by (simp add: bs_elems_set)
  then show ?thesis
    by (metis bs_elems_distinct bs_len_elems distinct_card)
qed

lemma bs_len_of_list_distinct: "bs_len (bs_of_list xs) = length xs \<longleftrightarrow> distinct xs"
  by (metis bs_len_of_list card_distinct distinct_card)

lemma bs_len_mono: "(\<And>x. bs_member s x \<Longrightarrow> bs_member t x) \<Longrightarrow> bs_len s \<le> bs_len t"
  by (metis bs_elems_distinct bs_elems_set bs_len_elems card_mono distinct_card
      List.finite_set mem_Collect_eq subsetI)

lemma bs_of_list_snoc: "bs_of_list (xs @ [x]) = bs_insert x (bs_of_list xs)"
  by (rule bs_eqI) auto

subsection \<open>The store contract\<close>

text \<open>
  What the components rely on when they keep a keyed table: the laws of lookup, insertion,
  removal and size.  The bounds and frame facts they use follow from the laws alone.
\<close>

locale keyed_store =
  fixes none :: 's
    and look :: "'s \<Rightarrow> 'k \<Rightarrow> 'v option"
    and put :: "'k \<Rightarrow> 'v \<Rightarrow> 's \<Rightarrow> 's"
    and drop_key :: "'k \<Rightarrow> 's \<Rightarrow> 's"
    and size_of :: "'s \<Rightarrow> nat"
  assumes look_none: "look none k = None"
    and look_put: "look (put k v s) k' = (if k' = k then Some v else look s k')"
    and look_drop: "look (drop_key k s) k' = (if k' = k then None else look s k')"
    and size_none: "size_of none = 0"
    and size_put: "size_of (put k v s) = (if look s k = None then Suc (size_of s) else size_of s)"
    and size_drop: "size_of (drop_key k s) = (if look s k = None then size_of s else size_of s - 1)"
begin

lemma put_frame: "k' \<noteq> k \<Longrightarrow> look (put k v s) k' = look s k'"
  by (simp add: look_put)

lemma put_bounded: "size_of s < n \<Longrightarrow> size_of (put k v s) \<le> n"
  by (simp add: size_put)

lemma put_known_bounded: "look s k \<noteq> None \<Longrightarrow> size_of s \<le> n \<Longrightarrow> size_of (put k v s) \<le> n"
  by (auto simp add: size_put)

lemma put_guarded_bounded:
  "size_of s \<le> n \<Longrightarrow> look s k \<noteq> None \<or> size_of s \<noteq> n \<Longrightarrow> size_of (put k v s) \<le> n"
  by (auto simp add: size_put)

lemma drop_bounded: "size_of s \<le> n \<Longrightarrow> size_of (drop_key k s) \<le> n"
  by (auto simp add: size_drop)

lemma size_grows: "size_of s \<le> size_of (put k v s)"
  by (simp add: size_put)

end

interpretation bstore: keyed_store bm_empty bm_get bm_insert bm_remove bm_len
  by unfold_locales simp_all

end
