(* ===== verification/Rust_Text.thy ===== *)
theory Rust_Text
  imports Ordered_Map
begin

section \<open>Strings\<close>

text \<open>
  A Rust \<open>String\<close> is its sequence of UTF-8 bytes: \<open>string\<close>, a list of \<open>char\<close> (bytes), so
  \<open>length\<close> is Rust's \<open>len()\<close> and the order of strings is the byte-wise lexicographic one.
  \<open>chars()\<close> decodes the bytes to Unicode scalar values, which the tests for control and
  white-space characters look at.  This theory holds the parts of the standard library's
  string interface the source uses.
\<close>

definition byte :: "char \<Rightarrow> nat" where
  "byte c = of_char c"

definition is_ascii_lowercase :: "char \<Rightarrow> bool" where
  "is_ascii_lowercase c \<longleftrightarrow> 97 \<le> byte c \<and> byte c \<le> 122"

definition is_ascii_uppercase :: "char \<Rightarrow> bool" where
  "is_ascii_uppercase c \<longleftrightarrow> 65 \<le> byte c \<and> byte c \<le> 90"

definition is_ascii_digit :: "char \<Rightarrow> bool" where
  "is_ascii_digit c \<longleftrightarrow> 48 \<le> byte c \<and> byte c \<le> 57"

definition is_ascii_alphanumeric :: "char \<Rightarrow> bool" where
  "is_ascii_alphanumeric c \<longleftrightarrow> is_ascii_lowercase c \<or> is_ascii_uppercase c \<or> is_ascii_digit c"

definition is_ascii_hexdigit :: "char \<Rightarrow> bool" where
  "is_ascii_hexdigit c \<longleftrightarrow>
     is_ascii_digit c \<or> (97 \<le> byte c \<and> byte c \<le> 102) \<or> (65 \<le> byte c \<and> byte c \<le> 70)"

definition is_ascii :: "string \<Rightarrow> bool" where
  "is_ascii s \<longleftrightarrow> list_all (\<lambda>c. byte c < 128) s"

lemmas ascii_defs = byte_def is_ascii_lowercase_def is_ascii_uppercase_def is_ascii_digit_def
  is_ascii_alphanumeric_def is_ascii_hexdigit_def

subsection \<open>Unicode scalar values\<close>

text \<open>
  Decoding of well-formed UTF-8, which every Rust string is; a truncated sequence, which no
  string contains, decodes to nothing.
\<close>

fun utf8_chars :: "string \<Rightarrow> nat list" where
  "utf8_chars [] = []"
| "utf8_chars (b # bs) =
     (if byte b < 128 then byte b # utf8_chars bs
      else if byte b < 224 then
        (case bs of
           c1 # r \<Rightarrow> ((byte b - 192) * 64 + (byte c1 - 128)) # utf8_chars r
         | _ \<Rightarrow> [])
      else if byte b < 240 then
        (case bs of
           c1 # c2 # r \<Rightarrow>
             ((byte b - 224) * 4096 + (byte c1 - 128) * 64 + (byte c2 - 128)) # utf8_chars r
         | _ \<Rightarrow> [])
      else
        (case bs of
           c1 # c2 # c3 # r \<Rightarrow>
             ((byte b - 240) * 262144 + (byte c1 - 128) * 4096 + (byte c2 - 128) * 64
              + (byte c3 - 128)) # utf8_chars r
         | _ \<Rightarrow> []))"

definition is_control :: "nat \<Rightarrow> bool" where
  "is_control n \<longleftrightarrow> n < 32 \<or> (127 \<le> n \<and> n < 160)"

definition is_whitespace :: "nat \<Rightarrow> bool" where
  "is_whitespace n \<longleftrightarrow>
     (9 \<le> n \<and> n \<le> 13) \<or> n = 32 \<or> n = 133 \<or> n = 160 \<or> n = 5760 \<or> (8192 \<le> n \<and> n \<le> 8202)
     \<or> n = 8232 \<or> n = 8233 \<or> n = 8239 \<or> n = 8287 \<or> n = 12288"

definition has_control :: "string \<Rightarrow> bool" where
  "has_control s \<longleftrightarrow> list_ex is_control (utf8_chars s)"

definition has_whitespace :: "string \<Rightarrow> bool" where
  "has_whitespace s \<longleftrightarrow> list_ex is_whitespace (utf8_chars s)"

text \<open>\<open>s.trim().is_empty()\<close>\<close>

definition is_blank :: "string \<Rightarrow> bool" where
  "is_blank s \<longleftrightarrow> list_all is_whitespace (utf8_chars s)"

lemma utf8_chars_ascii: "is_ascii s \<Longrightarrow> utf8_chars s = map byte s"
  by (induction s) (auto simp: is_ascii_def)

lemma has_control_ascii: "is_ascii s \<Longrightarrow> has_control s \<longleftrightarrow> list_ex (\<lambda>c. byte c < 32 \<or> byte c = 127) s"
  by (induction s) (auto simp: has_control_def is_ascii_def is_control_def)

subsection \<open>Searching and splitting\<close>

definition strip_prefix :: "string \<Rightarrow> string \<Rightarrow> string option" where
  "strip_prefix p s = (if take (length p) s = p then Some (drop (length p) s) else None)"

definition starts_with :: "string \<Rightarrow> string \<Rightarrow> bool" where
  "starts_with p s \<longleftrightarrow> take (length p) s = p"

fun contains_str :: "string \<Rightarrow> string \<Rightarrow> bool" where
  "contains_str p [] \<longleftrightarrow> p = []"
| "contains_str p (c # cs) \<longleftrightarrow> starts_with p (c # cs) \<or> contains_str p cs"

fun split_once :: "char \<Rightarrow> string \<Rightarrow> (string \<times> string) option" where
  "split_once d [] = None"
| "split_once d (c # cs) =
     (if c = d then Some ([], cs)
      else (case split_once d cs of None \<Rightarrow> None | Some (l, r) \<Rightarrow> Some (c # l, r)))"

lemma strip_prefix_eq_Some [simp]: "strip_prefix p s = Some r \<longleftrightarrow> s = p @ r"
  by (auto simp: strip_prefix_def) (metis append_take_drop_id)

lemma strip_prefix_append [simp]: "strip_prefix p (p @ r) = Some r"
  by simp

lemma strip_prefix_eq_None: "strip_prefix p s = None \<longleftrightarrow> (\<forall>r. s \<noteq> p @ r)"
  by (metis not_Some_eq strip_prefix_eq_Some)

text \<open>Two strings that differ at a common position are prefixes of no common string.\<close>

definition apart :: "string \<Rightarrow> string \<Rightarrow> bool" where
  "apart p q \<longleftrightarrow> list_ex (\<lambda>(a, b). a \<noteq> b) (zip p q)"

lemma apart_append: "apart p q \<Longrightarrow> p @ r \<noteq> q @ t"
proof (induction p arbitrary: q)
  case (Cons a p)
  then show ?case by (cases q) (auto simp: apart_def)
qed (simp add: apart_def)

lemma split_once_append: "d \<notin> set l \<Longrightarrow> split_once d (l @ d # r) = Some (l, r)"
  by (induction l) auto

lemma split_once_Some: "split_once d s = Some (l, r) \<Longrightarrow> s = l @ d # r \<and> d \<notin> set l"
  by (induction s arbitrary: l) (auto split: if_splits option.splits)

subsection \<open>Decimal numbers\<close>

definition digit_char :: "nat \<Rightarrow> char" where
  "digit_char d = char_of (48 + d)"

fun decimal :: "nat \<Rightarrow> string" where
  "decimal n = (if n < 10 then [digit_char n] else decimal (n div 10) @ [digit_char (n mod 10)])"

declare decimal.simps [simp del]

text \<open>The digit loop of \<open>from_str\<close> for an unsigned type with maximum \<open>lim\<close>.\<close>

fun parse_digits :: "nat \<Rightarrow> nat \<Rightarrow> string \<Rightarrow> nat option" where
  "parse_digits lim acc [] = Some acc"
| "parse_digits lim acc (c # cs) =
     (if is_ascii_digit c \<and> acc * 10 + (byte c - 48) \<le> lim
      then parse_digits lim (acc * 10 + (byte c - 48)) cs else None)"

text \<open>A leading \<open>+\<close> is accepted, as Rust does; no digits at all is an error.\<close>

definition parse_unsigned :: "nat \<Rightarrow> string \<Rightarrow> nat option" where
  "parse_unsigned lim s =
     (case s of
        [] \<Rightarrow> None
      | c # cs \<Rightarrow>
          if c = CHR ''+'' then (if cs = [] then None else parse_digits lim 0 cs)
          else parse_digits lim 0 (c # cs))"

lemma byte_digit_char: "d < 10 \<Longrightarrow> byte (digit_char d) = 48 + d"
  by (simp add: byte_def digit_char_def)

lemma is_digit_digit_char: "d < 10 \<Longrightarrow> is_ascii_digit (digit_char d)"
  by (simp add: is_ascii_digit_def byte_digit_char)

lemma parse_digits_append:
  "parse_digits lim acc (s @ t) =
     (case parse_digits lim acc s of None \<Rightarrow> None | Some v \<Rightarrow> parse_digits lim v t)"
  by (induction s arbitrary: acc) auto

lemma parse_digits_decimal: "n \<le> lim \<Longrightarrow> parse_digits lim 0 (decimal n) = Some n"
proof (induction n rule: decimal.induct)
  case (1 n)
  show ?case
  proof (cases "n < 10")
    case True
    then show ?thesis using "1.prems"
      by (subst decimal.simps) (simp add: is_digit_digit_char byte_digit_char)
  next
    case False
    have n: "n div 10 * 10 + n mod 10 = n" by simp
    from False 1 have "parse_digits lim 0 (decimal (n div 10)) = Some (n div 10)"
      by (metis div_le_dividend le_trans)
    with False "1.prems" n show ?thesis
      by (subst decimal.simps)
        (simp add: parse_digits_append is_digit_digit_char byte_digit_char)
  qed
qed

lemma decimal_digits: "c \<in> set (decimal n) \<Longrightarrow> is_ascii_digit c"
proof (induction n rule: decimal.induct)
  case (1 n)
  then show ?case
    by (subst (asm) decimal.simps) (auto split: if_splits simp: is_digit_digit_char)
qed

lemma decimal_nonempty [simp]: "decimal n \<noteq> []"
  by (subst decimal.simps) simp

lemma parse_unsigned_decimal:
  assumes "n \<le> lim"
  shows "parse_unsigned lim (decimal n) = Some n"
proof -
  obtain c cs where d: "decimal n = c # cs"
    by (cases "decimal n") auto
  have "is_ascii_digit c" using decimal_digits[of c n] d by simp
  then have "c \<noteq> CHR ''+''" by (auto simp: is_ascii_digit_def byte_def)
  with d parse_digits_decimal[OF assms] show ?thesis
    by (simp add: parse_unsigned_def)
qed

lemma parse_digits_bound: "parse_digits lim acc s = Some v \<Longrightarrow> acc \<le> lim \<Longrightarrow> v \<le> lim"
  by (induction s arbitrary: acc) (auto split: if_splits)

lemma parse_unsigned_bound: "parse_unsigned lim s = Some v \<Longrightarrow> v \<le> lim"
  by (auto simp: parse_unsigned_def split: list.splits if_splits dest: parse_digits_bound)

end
