(* ===== verification/Protocol_Validation.thy ===== *)
theory Protocol_Validation
  imports Rust_Text
begin

section \<open>Validation primitives (cthuwu-protocol: error.rs, validation.rs)\<close>

text \<open>
  The error values every untrusted-input check returns and the primitive checks: bounded
  text, bounded counts, uniqueness and the slug grammar.  The loops of the source are the
  recursive functions \<open>slug_loop\<close> and \<open>unique_loop\<close>; the lemmas give each check its
  acceptance condition, collected in \<open>check_simps\<close> for the validators built on them.
\<close>

subsection \<open>Errors\<close>

datatype validation_error_kind =
    VK_Empty
  | VK_TooLong nat nat
  | VK_TooMany nat nat
  | VK_InvalidFormat
  | VK_OutOfRange
  | VK_Unsupported
  | VK_Expired
  | VK_Replay
  | VK_NonMonotonicSequence
  | VK_SenderMismatch
  | VK_StaleIncarnation
  | VK_InvalidLifecycleTransition
  | VK_SignatureMissing
  | VK_SignatureInvalid

datatype validation_error =
  ValidationError (ve_field: string) (ve_kind: validation_error_kind)

type_synonym 'a validated = "(validation_error, 'a) result"

definition fail_with :: "string \<Rightarrow> validation_error_kind \<Rightarrow> 'a validated" where
  "fail_with field kind = Inl (ValidationError field kind)"

definition require :: "bool \<Rightarrow> string \<Rightarrow> validation_error_kind \<Rightarrow> unit validated" where
  "require b field kind = ensure b (ValidationError field kind)"

text \<open>\<open>Display\<close> for the two types.\<close>

fun kind_message :: "validation_error_kind \<Rightarrow> string" where
  "kind_message VK_Empty = ''must not be empty''"
| "kind_message (VK_TooLong lim actual) =
     ''is '' @ decimal actual @ '' bytes; maximum is '' @ decimal lim"
| "kind_message (VK_TooMany lim actual) =
     ''contains '' @ decimal actual @ '' entries; maximum is '' @ decimal lim"
| "kind_message VK_InvalidFormat = ''has an invalid format''"
| "kind_message VK_OutOfRange = ''is outside the permitted range''"
| "kind_message VK_Unsupported = ''is not supported''"
| "kind_message VK_Expired = ''has expired''"
| "kind_message VK_Replay = ''has already been processed''"
| "kind_message VK_NonMonotonicSequence = ''is not newer than the sender sequence''"
| "kind_message VK_SenderMismatch = ''does not match the authenticated sender''"
| "kind_message VK_StaleIncarnation = ''belongs to a stale Tentacle incarnation''"
| "kind_message VK_InvalidLifecycleTransition = ''is not a permitted lifecycle transition''"
| "kind_message VK_SignatureMissing = ''requires a signature''"
| "kind_message VK_SignatureInvalid = ''signature verification failed''"

definition error_message :: "validation_error \<Rightarrow> string" where
  "error_message e = ''invalid '' @ ve_field e @ '': '' @ kind_message (ve_kind e)"

lemma fail_with_neq_Inr [simp]: "fail_with f k \<noteq> Inr x"
  by (simp add: fail_with_def)

lemma require_eq_Inr [simp]: "require b f k = Inr u \<longleftrightarrow> b"
  by (simp add: require_def)

lemma require_eq_Inl: "require b f k = Inl e \<longleftrightarrow> \<not> b \<and> e = ValidationError f k"
  by (simp add: require_def)

subsection \<open>Text and counts\<close>

definition bounded_text :: "string \<Rightarrow> string \<Rightarrow> nat \<Rightarrow> unit validated" where
  "bounded_text field value lim =
     (if value = [] then fail_with field VK_Empty
      else if length value > lim then fail_with field (VK_TooLong lim (length value))
      else if has_control value then fail_with field VK_InvalidFormat
      else Inr ())"

definition bounded_optional_text :: "string \<Rightarrow> string option \<Rightarrow> nat \<Rightarrow> unit validated" where
  "bounded_optional_text field value lim =
     (case value of None \<Rightarrow> Inr () | Some v \<Rightarrow> bounded_text field v lim)"

definition bounded_count :: "string \<Rightarrow> nat \<Rightarrow> nat \<Rightarrow> unit validated" where
  "bounded_count field actual lim =
     (if actual > lim then fail_with field (VK_TooMany lim actual) else Inr ())"

definition good_text :: "nat \<Rightarrow> string \<Rightarrow> bool" where
  "good_text lim s \<longleftrightarrow> s \<noteq> [] \<and> length s \<le> lim \<and> \<not> has_control s"

lemma bounded_text_ok [simp, check_simps]: "bounded_text f s n = Inr u \<longleftrightarrow> good_text n s"
  by (auto simp: bounded_text_def good_text_def)

lemma bounded_optional_text_ok [simp, check_simps]:
  "bounded_optional_text f v n = Inr u \<longleftrightarrow> (\<forall>s. v = Some s \<longrightarrow> good_text n s)"
  by (cases v) (auto simp: bounded_optional_text_def)

lemma bounded_count_ok [simp, check_simps]: "bounded_count f n m = Inr u \<longleftrightarrow> n \<le> m"
  by (auto simp: bounded_count_def)

subsection \<open>Uniqueness\<close>

fun unique_loop :: "string \<Rightarrow> string bset \<Rightarrow> string list \<Rightarrow> unit validated" where
  "unique_loop field seen [] = Inr ()"
| "unique_loop field seen (v # vs) =
     (if bs_member seen v then fail_with field VK_InvalidFormat
      else unique_loop field (bs_insert v seen) vs)"

definition unique_text :: "string \<Rightarrow> string list \<Rightarrow> unit validated" where
  "unique_text field values = unique_loop field bs_empty values"

lemma unique_loop_ok:
  "unique_loop f seen vs = Inr u \<longleftrightarrow> distinct vs \<and> (\<forall>v\<in>set vs. \<not> bs_member seen v)"
  by (induction vs arbitrary: seen) auto

lemma unique_text_ok [simp, check_simps]: "unique_text f vs = Inr u \<longleftrightarrow> distinct vs"
  by (simp add: unique_text_def unique_loop_ok)

subsection \<open>Slugs\<close>

definition is_separator :: "char \<Rightarrow> bool" where
  "is_separator c \<longleftrightarrow> c = CHR ''_'' \<or> c = CHR ''-''"

definition slug_char :: "char \<Rightarrow> bool" where
  "slug_char c \<longleftrightarrow> is_ascii_lowercase c \<or> is_ascii_digit c \<or> is_separator c"

text \<open>The loop over \<open>value.bytes().enumerate()\<close>; \<open>prev\<close> is \<open>previous_separator\<close>.\<close>

fun slug_loop :: "nat \<Rightarrow> nat \<Rightarrow> bool \<Rightarrow> string \<Rightarrow> bool" where
  "slug_loop len index prev [] = True"
| "slug_loop len index prev (c # cs) =
     (if \<not> slug_char c \<or> (is_separator c \<and> (index = 0 \<or> index + 1 = len \<or> prev)) then False
      else slug_loop len (index + 1) (is_separator c) cs)"

definition validate_slug :: "string \<Rightarrow> string \<Rightarrow> nat \<Rightarrow> unit validated" where
  "validate_slug field value lim = run_checks [
     bounded_text field value lim,
     require (slug_loop (length value) 0 False value) field VK_InvalidFormat]"

text \<open>
  The grammar the loop decides: blocks of lower-case letters and digits joined by single
  separators.
\<close>

definition slug_grammar :: "string \<Rightarrow> bool" where
  "slug_grammar s \<longleftrightarrow>
     s \<noteq> [] \<and> (\<forall>c\<in>set s. slug_char c)
     \<and> \<not> is_separator (hd s) \<and> \<not> is_separator (last s)
     \<and> (\<forall>i. Suc i < length s \<longrightarrow> \<not> (is_separator (s ! i) \<and> is_separator (s ! Suc i)))"

lemma slug_char_ascii: "slug_char c \<Longrightarrow> 45 \<le> byte c \<and> byte c < 123"
  by (auto simp: slug_char_def is_separator_def ascii_defs)

lemma slug_no_control: "(\<forall>c\<in>set s. slug_char c) \<Longrightarrow> is_ascii s \<and> \<not> has_control s"
proof -
  assume s: "\<forall>c\<in>set s. slug_char c"
  have "is_ascii s"
    unfolding is_ascii_def list_all_iff using s slug_char_ascii by fastforce
  moreover have "\<not> list_ex (\<lambda>c. byte c < 32 \<or> byte c = 127) s"
    unfolding list_ex_iff using s slug_char_ascii by fastforce
  ultimately show ?thesis by (simp add: has_control_ascii)
qed

lemma slug_loop_iff:
  "slug_loop len index prev s \<longleftrightarrow>
     (\<forall>c\<in>set s. slug_char c)
     \<and> (\<forall>i < length s. is_separator (s ! i) \<longrightarrow>
          index + i \<noteq> 0 \<and> index + i + 1 \<noteq> len
          \<and> \<not> (if i = 0 then prev else is_separator (s ! (i - 1))))"
proof (induction s arbitrary: index prev)
  case (Cons c cs)
  show ?case
    by (auto simp: Cons.IH nth_Cons' less_Suc_eq_0_disj split: if_splits)
qed simp

lemma slug_ends:
  assumes "s \<noteq> []"
  shows "(\<forall>i < length s. is_separator (s ! i) \<longrightarrow> i \<noteq> 0 \<and> i + 1 \<noteq> length s)
    \<longleftrightarrow> \<not> is_separator (hd s) \<and> \<not> is_separator (last s)" (is "?all \<longleftrightarrow> ?ends")
proof
  assume ?all
  moreover have "0 < length s" "length s - 1 < length s" "length s - 1 + 1 = length s"
    using assms by (simp_all add: Suc_le_eq)
  ultimately show ?ends
    using assms by (metis hd_conv_nth last_conv_nth)
next
  assume e: ?ends
  show ?all
  proof (intro allI impI)
    fix i assume i: "i < length s" "is_separator (s ! i)"
    have "i \<noteq> 0" using e i assms by (metis hd_conv_nth)
    moreover have "i \<noteq> length s - 1" using e i assms by (metis last_conv_nth)
    ultimately show "i \<noteq> 0 \<and> i + 1 \<noteq> length s" by auto
  qed
qed

lemma slug_pairs:
  "(\<forall>i < length s. is_separator (s ! i) \<longrightarrow> \<not> (if i = 0 then False else is_separator (s ! (i - 1))))
    \<longleftrightarrow> (\<forall>i. Suc i < length s \<longrightarrow> \<not> (is_separator (s ! i) \<and> is_separator (s ! Suc i)))"
  (is "?prev \<longleftrightarrow> ?next")
proof
  assume p: ?prev
  show ?next using p by (metis diff_Suc_1 nat.distinct(1))
next
  assume n: ?next
  show ?prev
  proof (intro allI impI)
    fix i assume "i < length s" "is_separator (s ! i)"
    then show "\<not> (if i = 0 then False else is_separator (s ! (i - 1)))"
      using n by (cases i) auto
  qed
qed

lemma slug_loop_grammar:
  assumes "s \<noteq> []"
  shows "slug_loop (length s) 0 False s \<longleftrightarrow> slug_grammar s"
proof -
  have "slug_loop (length s) 0 False s \<longleftrightarrow> (\<forall>c\<in>set s. slug_char c)
    \<and> (\<forall>i < length s. is_separator (s ! i) \<longrightarrow> i \<noteq> 0 \<and> i + 1 \<noteq> length s)
    \<and> (\<forall>i < length s. is_separator (s ! i)
         \<longrightarrow> \<not> (if i = 0 then False else is_separator (s ! (i - 1))))"
    unfolding slug_loop_iff add_0_left by blast
  then show ?thesis
    unfolding slug_ends[OF assms] slug_pairs slug_grammar_def using assms by blast
qed

lemma validate_slug_ok [simp, check_simps]:
  "validate_slug f s n = Inr u \<longleftrightarrow> length s \<le> n \<and> slug_grammar s"
proof (cases "s = []")
  case True
  then show ?thesis by (simp add: validate_slug_def good_text_def slug_grammar_def)
next
  case False
  then show ?thesis
    using slug_no_control[of s]
    by (auto simp: validate_slug_def good_text_def slug_loop_grammar) (auto simp: slug_grammar_def)
qed

subsection \<open>Properties\<close>

text \<open>
  The byte loop of \<open>validate_slug\<close> decides exactly the slug grammar.  A value is accepted
  when it is blocks of lower-case letters and digits joined by single separators and fits the
  limit; every other value gets the first error that applies to it.
\<close>

theorem slug_validation_exact:
  "validate_slug field s n =
     (if s = [] then fail_with field VK_Empty
      else if n < length s then fail_with field (VK_TooLong n (length s))
      else if slug_grammar s then Inr ()
      else fail_with field VK_InvalidFormat)"
proof -
  have step: "run_checks (fail_with f k # cs) = fail_with f k" for f k and cs :: "unit validated list"
    by (simp add: fail_with_def)
  have "slug_grammar s \<Longrightarrow> \<not> has_control s"
    using slug_no_control by (simp add: slug_grammar_def)
  moreover have "s \<noteq> [] \<Longrightarrow> slug_loop (length s) 0 False s = slug_grammar s"
    by (rule slug_loop_grammar)
  ultimately show ?thesis
    by (auto simp: validate_slug_def bounded_text_def step require_def ensure_def fail_with_def)
qed

end
