(* ===== verification/Protocol_Ids.thy ===== *)
theory Protocol_Ids
  imports Protocol_Validation
begin

section \<open>Identifiers (cthuwu-protocol: ids.rs)\<close>

text \<open>
  The macro \<open>define_id!\<close> stamps out twelve newtypes over \<open>String\<close> that differ in their
  prefix and field name only.  The model is one polymorphic newtype \<open>'tag ident\<close>, with one
  empty tag type for each use of the macro, so identifiers of different namespaces have
  different types as in the source; the constructor \<open>new_id\<close> takes the macro's two
  literals.  Identifiers are ordered by their strings, as the derived \<open>Ord\<close> orders them.
\<close>

definition MAX_ID_BYTES :: nat where "MAX_ID_BYTES = 96"
definition MAX_SUFFIX_BYTES :: nat where "MAX_SUFFIX_BYTES = 64"

datatype 'tag ident = Ident (as_str: string)

instantiation ident :: (type) linorder
begin

definition less_eq_ident :: "'a ident \<Rightarrow> 'a ident \<Rightarrow> bool" where
  "less_eq_ident x y \<longleftrightarrow> as_str x \<le> as_str y"

definition less_ident :: "'a ident \<Rightarrow> 'a ident \<Rightarrow> bool" where
  "less_ident x y \<longleftrightarrow> as_str x < as_str y"

instance
  by standard (auto simp: less_eq_ident_def less_ident_def ident.expand)

end

typedecl cthulhu_tag
typedecl tentacle_tag
typedecl council_tag
typedecl session_tag
typedecl request_tag
typedecl lease_tag
typedecl proposal_tag
typedecl message_tag
typedecl incarnation_tag
typedecl propagation_tag
typedecl invitation_tag
typedecl acknowledgement_tag

type_synonym cthulhu_id = "cthulhu_tag ident"
type_synonym tentacle_id = "tentacle_tag ident"
type_synonym council_id = "council_tag ident"
type_synonym session_id = "session_tag ident"
type_synonym request_id = "request_tag ident"
type_synonym lease_id = "lease_tag ident"
type_synonym proposal_id = "proposal_tag ident"
type_synonym message_id = "message_tag ident"
type_synonym incarnation_id = "incarnation_tag ident"
type_synonym propagation_id = "propagation_tag ident"
type_synonym invitation_id = "invitation_tag ident"
type_synonym acknowledgement_id = "acknowledgement_tag ident"

subsection \<open>The prefix grammar\<close>

definition id_suffix :: "string \<Rightarrow> string \<Rightarrow> string option" where
  "id_suffix pre value =
     (case strip_prefix pre value of
        Some s \<Rightarrow> Some s
      | None \<Rightarrow> if pre = ''tentacle_'' then strip_prefix ''tentacle-'' value else None)"

definition validate_prefixed_id :: "string \<Rightarrow> string \<Rightarrow> string \<Rightarrow> unit validated" where
  "validate_prefixed_id field value pre =
     and_then (bounded_text field value MAX_ID_BYTES) (\<lambda>_.
       case id_suffix pre value of
         None \<Rightarrow> fail_with field VK_InvalidFormat
       | Some s \<Rightarrow> validate_slug field s MAX_SUFFIX_BYTES)"

definition new_id :: "string \<Rightarrow> string \<Rightarrow> string \<Rightarrow> 'tag ident validated" where
  "new_id pre field value =
     and_then (validate_prefixed_id field value pre) (\<lambda>_. Inr (Ident value))"

definition CthulhuId_new :: "string \<Rightarrow> cthulhu_id validated" where
  "CthulhuId_new = new_id ''cthulhu_'' ''cthulhuId''"
definition TentacleId_new :: "string \<Rightarrow> tentacle_id validated" where
  "TentacleId_new = new_id ''tentacle_'' ''tentacleId''"
definition CouncilId_new :: "string \<Rightarrow> council_id validated" where
  "CouncilId_new = new_id ''council_'' ''councilId''"
definition SessionId_new :: "string \<Rightarrow> session_id validated" where
  "SessionId_new = new_id ''session_'' ''sessionId''"
definition RequestId_new :: "string \<Rightarrow> request_id validated" where
  "RequestId_new = new_id ''request_'' ''requestId''"
definition LeaseId_new :: "string \<Rightarrow> lease_id validated" where
  "LeaseId_new = new_id ''lease_'' ''leaseId''"
definition ProposalId_new :: "string \<Rightarrow> proposal_id validated" where
  "ProposalId_new = new_id ''proposal_'' ''proposalId''"
definition MessageId_new :: "string \<Rightarrow> message_id validated" where
  "MessageId_new = new_id ''msg_'' ''messageId''"
definition IncarnationId_new :: "string \<Rightarrow> incarnation_id validated" where
  "IncarnationId_new = new_id ''incarnation_'' ''incarnationId''"
definition PropagationId_new :: "string \<Rightarrow> propagation_id validated" where
  "PropagationId_new = new_id ''propagation_'' ''propagationId''"
definition InvitationId_new :: "string \<Rightarrow> invitation_id validated" where
  "InvitationId_new = new_id ''invite_'' ''invitationId''"
definition AcknowledgementId_new :: "string \<Rightarrow> acknowledgement_id validated" where
  "AcknowledgementId_new = new_id ''ack_'' ''acknowledgementId''"

text \<open>The pairs of literals of the macro's twelve uses.\<close>

definition id_namespaces :: "(string \<times> string) list" where
  "id_namespaces =
     [(''cthulhu_'', ''cthulhuId''), (''tentacle_'', ''tentacleId''),
      (''council_'', ''councilId''), (''session_'', ''sessionId''),
      (''request_'', ''requestId''), (''lease_'', ''leaseId''),
      (''proposal_'', ''proposalId''), (''msg_'', ''messageId''),
      (''incarnation_'', ''incarnationId''), (''propagation_'', ''propagationId''),
      (''invite_'', ''invitationId''), (''ack_'', ''acknowledgementId'')]"

lemma id_suffix_eq_Some:
  "id_suffix pre s = Some r \<longleftrightarrow> s = pre @ r \<or> pre = ''tentacle_'' \<and> s = ''tentacle-'' @ r"
proof (cases "strip_prefix pre s")
  case None
  then have n: "s \<noteq> pre @ r" by (simp add: strip_prefix_eq_None)
  have "strip_prefix ''tentacle-'' s = Some r \<longleftrightarrow> s = ''tentacle-'' @ r" by (rule strip_prefix_eq_Some)
  with None n show ?thesis by (simp only: id_suffix_def) simp
next
  case (Some a)
  then have s: "s = pre @ a" by simp
  have "pre = ''tentacle_'' \<Longrightarrow> s \<noteq> ''tentacle-'' @ r"
    using s apart_append[of pre "''tentacle-''" a r] by (simp add: apart_def)
  moreover have "id_suffix pre s = Some r \<longleftrightarrow> s = pre @ r"
    using Some s by (simp only: id_suffix_def) auto
  ultimately show ?thesis by blast
qed

lemma new_id_ok:
  "new_id pre f s = Inr i \<longleftrightarrow>
     i = Ident s \<and> good_text MAX_ID_BYTES s
     \<and> (\<exists>r. (s = pre @ r \<or> pre = ''tentacle_'' \<and> s = ''tentacle-'' @ r)
            \<and> length r \<le> MAX_SUFFIX_BYTES \<and> slug_grammar r)"
  unfolding id_suffix_eq_Some[symmetric]
  by (cases "id_suffix pre s") (auto simp: new_id_def validate_prefixed_id_def)

subsection \<open>Content hashes, inbox and registry references\<close>

datatype content_hash = ContentHash (hash_str: string)

instantiation content_hash :: linorder
begin

definition less_eq_content_hash :: "content_hash \<Rightarrow> content_hash \<Rightarrow> bool" where
  "less_eq_content_hash x y \<longleftrightarrow> hash_str x \<le> hash_str y"

definition less_content_hash :: "content_hash \<Rightarrow> content_hash \<Rightarrow> bool" where
  "less_content_hash x y \<longleftrightarrow> hash_str x < hash_str y"

instance
  by standard (auto simp: less_eq_content_hash_def less_content_hash_def content_hash.expand)

end

definition lower_hex :: "string \<Rightarrow> bool" where
  "lower_hex s \<longleftrightarrow> list_all (\<lambda>c. is_ascii_hexdigit c \<and> \<not> is_ascii_uppercase c) s"

definition ContentHash_new :: "string \<Rightarrow> content_hash validated" where
  "ContentHash_new value =
     (case strip_prefix ''sha256:'' value of
        None \<Rightarrow> fail_with ''contentHash'' VK_InvalidFormat
      | Some hex \<Rightarrow>
          if length hex \<noteq> 64 \<or> \<not> lower_hex hex
          then fail_with ''contentHash'' VK_InvalidFormat
          else Inr (ContentHash value))"

datatype xmtp_inbox_ref = XmtpInboxRef (inbox_str: string)

definition MIN_HEX_BYTES :: nat where "MIN_HEX_BYTES = 12"
definition MAX_HEX_BYTES :: nat where "MAX_HEX_BYTES = 128"

definition XmtpInboxRef_new :: "string \<Rightarrow> xmtp_inbox_ref validated" where
  "XmtpInboxRef_new value =
     (if length value < MIN_HEX_BYTES \<or> length value > MAX_HEX_BYTES
         \<or> length value mod 2 \<noteq> 0 \<or> \<not> lower_hex value
      then fail_with ''xmtpInbox'' VK_InvalidFormat
      else Inr (XmtpInboxRef value))"

record registry_ref =
  rr_registry :: string
  rr_reference :: string

definition validate_registry_ref :: "registry_ref \<Rightarrow> unit validated" where
  "validate_registry_ref r = run_checks [
     validate_slug ''registry.registry'' (rr_registry r) 64,
     bounded_text ''registry.reference'' (rr_reference r) 256,
     require (\<not> (has_whitespace (rr_reference r)
                \<or> \<not> is_ascii (rr_reference r)
                \<or> contains_str ''..'' (rr_reference r)
                \<or> CHR 0x5C \<in> set (rr_reference r) \<or> CHR 0x00 \<in> set (rr_reference r)))
       ''registry.reference'' VK_InvalidFormat]"

definition RegistryRef_new :: "string \<Rightarrow> string \<Rightarrow> registry_ref validated" where
  "RegistryRef_new registry reference =
     (let v = \<lparr>rr_registry = registry, rr_reference = reference\<rparr>
      in and_then (validate_registry_ref v) (\<lambda>_. Inr v))"

lemma ContentHash_new_ok:
  "ContentHash_new s = Inr h \<longleftrightarrow>
     h = ContentHash s \<and> (\<exists>hex. s = ''sha256:'' @ hex \<and> length hex = 64 \<and> lower_hex hex)"
  by (auto simp: ContentHash_new_def split: option.splits if_splits)
     (auto simp: strip_prefix_def)

subsection \<open>Properties\<close>

lemma namespaces_apart:
  "\<forall>(p, f)\<in>set id_namespaces. \<forall>(q, g)\<in>set id_namespaces. p \<noteq> q \<longrightarrow> apart p q"
  "\<forall>(p, f)\<in>set id_namespaces. p \<noteq> ''tentacle_'' \<longrightarrow> apart p ''tentacle-'' \<and> apart ''tentacle-'' p"
  by code_simp+

lemma namespace_prefixes_apart:
  assumes "(p, f) \<in> set id_namespaces" "(q, g) \<in> set id_namespaces" "p \<noteq> q"
  shows "p @ r \<noteq> q @ t" "q = ''tentacle_'' \<Longrightarrow> p @ r \<noteq> ''tentacle-'' @ t"
proof -
  have "apart p q" using assms namespaces_apart(1) by blast
  then show "p @ r \<noteq> q @ t" by (rule apart_append)
next
  assume "q = ''tentacle_''"
  with assms namespaces_apart(2) have "apart p ''tentacle-''" by blast
  then show "p @ r \<noteq> ''tentacle-'' @ t" by (rule apart_append)
qed

text \<open>
  The twelve identifier namespaces are pairwise disjoint.  A string accepted as an
  identifier of one namespace is refused by the constructor of every other, the legacy
  \<open>tentacle-\<close> spelling included.
\<close>

theorem id_namespaces_disjoint:
  assumes "(p, f) \<in> set id_namespaces" "(q, g) \<in> set id_namespaces" "p \<noteq> q"
    and "new_id p f s = Inr (i :: 'a ident)"
  shows "new_id q g s \<noteq> (Inr j :: 'b ident validated)"
proof
  assume "new_id q g s = (Inr j :: 'b ident validated)"
  with assms(4) obtain r t where
    "s = p @ r \<or> p = ''tentacle_'' \<and> s = ''tentacle-'' @ r"
    "s = q @ t \<or> q = ''tentacle_'' \<and> s = ''tentacle-'' @ t"
    unfolding new_id_ok by blast
  then show False
    using namespace_prefixes_apart[OF assms(1,2,3), of r t]
      namespace_prefixes_apart[OF assms(2,1) not_sym[OF assms(3)], of t r] assms(3)
    by metis
qed

lemma one_is_slug: "slug_grammar ''one''"
  by (auto simp: slug_grammar_def slug_char_def is_separator_def ascii_defs less_Suc_eq)

theorem id_namespaces_disjoint_witness:
  "MessageId_new ''msg_one'' = Inr (Ident ''msg_one'')
   \<and> (\<forall>j. CouncilId_new ''msg_one'' \<noteq> Inr j) \<and> (\<forall>j. TentacleId_new ''msg_one'' \<noteq> Inr j)"
proof -
  have "MAX_SUFFIX_BYTES \<ge> 3" "good_text MAX_ID_BYTES ''msg_one''"
    by (simp_all add: MAX_SUFFIX_BYTES_def MAX_ID_BYTES_def good_text_def has_control_ascii is_ascii_def
        byte_def is_control_def)
  then have ok: "(new_id ''msg_'' ''messageId'' ''msg_one'' :: message_id validated) = Inr (Ident ''msg_one'')"
    unfolding new_id_ok using one_is_slug by (auto intro!: exI[of _ "''one''"])
  have m: "(''msg_'', ''messageId'') \<in> set id_namespaces"
    and c: "(''council_'', ''councilId'') \<in> set id_namespaces"
    and t: "(''tentacle_'', ''tentacleId'') \<in> set id_namespaces"
    by (simp_all add: id_namespaces_def)
  show ?thesis
    unfolding MessageId_new_def CouncilId_new_def TentacleId_new_def
    using ok id_namespaces_disjoint[OF m c _ ok] id_namespaces_disjoint[OF m t _ ok] by auto
qed

end
