(* ===== verification/Protocol_Time.thy ===== *)
theory Protocol_Time
  imports Protocol_Ids
begin

section \<open>Time and versions (cthuwu-protocol: time.rs, lib.rs)\<close>

text \<open>
  \<open>Timestamp\<close> is a newtype over \<open>i64\<close>: an \<open>int\<close>, with the constructors' range checks
  and the checked addition of the source.  \<open>ProtocolVersion\<close> is a pair of \<open>u16\<close> with its
  string form \<open>major.minor\<close>, ordered by major version first.
\<close>

definition COUNCIL_PROTOCOL_NAME :: string where "COUNCIL_PROTOCOL_NAME = ''cthuwu-council''"
definition MAX_ENVELOPE_BYTES :: nat where "MAX_ENVELOPE_BYTES = 65536"

subsection \<open>Timestamps\<close>

type_synonym timestamp = int

definition from_unix_seconds :: "int \<Rightarrow> timestamp validated" where
  "from_unix_seconds seconds =
     (if seconds < 0 then fail_with ''timestamp'' VK_OutOfRange else Inr seconds)"

definition timestamp_checked_add :: "timestamp \<Rightarrow> int \<Rightarrow> timestamp validated" where
  "timestamp_checked_add t seconds =
     and_then (ok_or (ValidationError ''timestamp'' VK_OutOfRange) (i64_checked (t + seconds)))
       from_unix_seconds"

lemma from_unix_seconds_ok [simp, check_simps]: "from_unix_seconds s = Inr t \<longleftrightarrow> t = s \<and> 0 \<le> s"
  by (auto simp: from_unix_seconds_def)

lemma timestamp_checked_add_ok:
  "timestamp_checked_add t s = Inr r \<longleftrightarrow> r = t + s \<and> 0 \<le> t + s \<and> t + s \<le> i64_max"
  by (auto simp: timestamp_checked_add_def i64_checked_def i64_min_def i64_max_def)

subsection \<open>Versions\<close>

datatype protocol_version = ProtocolVersion (pv_major: nat) (pv_minor: nat)

instantiation protocol_version :: linorder
begin

definition less_eq_protocol_version :: "protocol_version \<Rightarrow> protocol_version \<Rightarrow> bool" where
  "less_eq_protocol_version v w \<longleftrightarrow>
     pv_major v < pv_major w \<or> pv_major v = pv_major w \<and> pv_minor v \<le> pv_minor w"

definition less_protocol_version :: "protocol_version \<Rightarrow> protocol_version \<Rightarrow> bool" where
  "less_protocol_version v w \<longleftrightarrow>
     pv_major v < pv_major w \<or> pv_major v = pv_major w \<and> pv_minor v < pv_minor w"

instance
  by standard
    (auto simp: less_eq_protocol_version_def less_protocol_version_def protocol_version.expand)

end

definition V1_0 :: protocol_version where
  "V1_0 = ProtocolVersion 1 0"

definition require_supported :: "protocol_version \<Rightarrow> unit validated" where
  "require_supported v =
     (if v \<noteq> V1_0 then fail_with ''version'' VK_Unsupported else Inr ())"

definition print_version :: "protocol_version \<Rightarrow> string" where
  "print_version v = decimal (pv_major v) @ ''.'' @ decimal (pv_minor v)"

definition parse_version :: "string \<Rightarrow> protocol_version validated" where
  "parse_version value =
     (let err = ValidationError ''version'' VK_InvalidFormat in
      case split_once (CHR ''.'') value of
        None \<Rightarrow> Inl err
      | Some (major, minor) \<Rightarrow>
          if CHR ''.'' \<in> set minor \<or> major = [] \<or> minor = [] then Inl err
          else and_then (ok_or err (parse_unsigned u16_max major)) (\<lambda>ma.
               and_then (ok_or err (parse_unsigned u16_max minor)) (\<lambda>mi.
                 Inr (ProtocolVersion ma mi))))"

lemma require_supported_ok [simp, check_simps]: "require_supported v = Inr u \<longleftrightarrow> v = V1_0"
  by (auto simp: require_supported_def)

lemma dot_not_in_decimal [simp]: "CHR ''.'' \<notin> set (decimal n)"
  using decimal_digits[of "CHR ''.''" n] by (auto simp: is_ascii_digit_def byte_def)

text \<open>
  the wire form of a version round-trips.  Every version a \<open>ProtocolVersion\<close> can hold is
  printed to a string that parses back to it, and whatever parses is within the width of
  the two fields.
\<close>

theorem version_round_trip:
  assumes "pv_major v \<le> u16_max" "pv_minor v \<le> u16_max"
  shows "parse_version (print_version v) = Inr v
    \<and> (\<forall>s w. parse_version s = Inr w \<longrightarrow> pv_major w \<le> u16_max \<and> pv_minor w \<le> u16_max)"
proof
  have "split_once (CHR ''.'') (print_version v) = Some (decimal (pv_major v), decimal (pv_minor v))"
    unfolding print_version_def by (simp add: split_once_append)
  then show "parse_version (print_version v) = Inr v"
    using assms by (simp add: parse_version_def parse_unsigned_decimal)
  show "\<forall>s w. parse_version s = Inr w \<longrightarrow> pv_major w \<le> u16_max \<and> pv_minor w \<le> u16_max"
    by (auto simp: parse_version_def Let_def split: option.splits if_splits
        dest: parse_unsigned_bound)
qed

theorem version_round_trip_witness:
  "parse_version (print_version (ProtocolVersion 1 65535)) = Inr (ProtocolVersion 1 65535)"
  using version_round_trip[of "ProtocolVersion 1 65535"] by (simp add: u16_max_def)

end
