(* ===== verification/Protocol_Capability.thy ===== *)
theory Protocol_Capability
  imports Protocol_Time
begin

section \<open>Capabilities (cthuwu-protocol: capability.rs)\<close>

text \<open>
  The public routing claims of a Tentacle.  The enumerations derive \<open>Ord\<close>, which the
  duplicate check \<open>ensure_unique\<close> sorts by: each is an instance of \<open>linorder\<close> in the order
  of its declaration.
\<close>

definition MAX_PROTOCOL_VERSIONS :: nat where "MAX_PROTOCOL_VERSIONS = 8"
definition MAX_MODEL_CLASSES :: nat where "MAX_MODEL_CLASSES = 32"
definition MAX_TOOLS :: nat where "MAX_TOOLS = 64"
definition MAX_MEMORY_MODES :: nat where "MAX_MEMORY_MODES = 8"
definition MAX_PRIVACY_PROPERTIES :: nat where "MAX_PRIVACY_PROPERTIES = 16"
definition MAX_TRUST_MECHANISMS :: nat where "MAX_TRUST_MECHANISMS = 16"

datatype capability_name = CapabilityName (cap_str: string)

instantiation capability_name :: linorder
begin

definition less_eq_capability_name :: "capability_name \<Rightarrow> capability_name \<Rightarrow> bool" where
  "less_eq_capability_name x y \<longleftrightarrow> cap_str x \<le> cap_str y"

definition less_capability_name :: "capability_name \<Rightarrow> capability_name \<Rightarrow> bool" where
  "less_capability_name x y \<longleftrightarrow> cap_str x < cap_str y"

instance
  by standard (auto simp: less_eq_capability_name_def less_capability_name_def capability_name.expand)

end

definition CapabilityName_new :: "string \<Rightarrow> capability_name validated" where
  "CapabilityName_new value =
     and_then (validate_slug ''capabilityName'' value 64) (\<lambda>_. Inr (CapabilityName value))"

datatype memory_mode = MM_None | MM_Session | MM_LocalContact | MM_LocalSemantic

datatype privacy_property =
    NoCouncilContent | LocalMemoryOnly | NoRemoteInference | EphemeralSession
  | OperatorControlledRetention

datatype inference_location = IL_Local | IL_Remote | IL_Hybrid

datatype trust_mechanism =
    LocalAllowlist | OperatorAttestation | RegistryAssociation | RegistryReputation
  | CouncilMembership

datatype capability_visibility = CV_Private | CV_Council | CV_Public

fun memory_mode_rank :: "memory_mode \<Rightarrow> nat" where
  "memory_mode_rank MM_None = 0"
| "memory_mode_rank MM_Session = 1"
| "memory_mode_rank MM_LocalContact = 2"
| "memory_mode_rank MM_LocalSemantic = 3"

fun privacy_rank :: "privacy_property \<Rightarrow> nat" where
  "privacy_rank NoCouncilContent = 0"
| "privacy_rank LocalMemoryOnly = 1"
| "privacy_rank NoRemoteInference = 2"
| "privacy_rank EphemeralSession = 3"
| "privacy_rank OperatorControlledRetention = 4"

fun trust_rank :: "trust_mechanism \<Rightarrow> nat" where
  "trust_rank LocalAllowlist = 0"
| "trust_rank OperatorAttestation = 1"
| "trust_rank RegistryAssociation = 2"
| "trust_rank RegistryReputation = 3"
| "trust_rank CouncilMembership = 4"

lemma memory_mode_rank_inject [simp]: "memory_mode_rank m = memory_mode_rank m' \<longleftrightarrow> m = m'"
  by (cases m; cases m') simp_all

lemma privacy_rank_inject [simp]: "privacy_rank p = privacy_rank p' \<longleftrightarrow> p = p'"
  by (cases p; cases p') simp_all

lemma trust_rank_inject [simp]: "trust_rank t = trust_rank t' \<longleftrightarrow> t = t'"
  by (cases t; cases t') simp_all

instantiation memory_mode :: linorder
begin

definition less_eq_memory_mode :: "memory_mode \<Rightarrow> memory_mode \<Rightarrow> bool" where
  "less_eq_memory_mode x y \<longleftrightarrow> memory_mode_rank x \<le> memory_mode_rank y"

definition less_memory_mode :: "memory_mode \<Rightarrow> memory_mode \<Rightarrow> bool" where
  "less_memory_mode x y \<longleftrightarrow> memory_mode_rank x < memory_mode_rank y"

instance
  by standard (auto simp: less_eq_memory_mode_def less_memory_mode_def)

end

instantiation privacy_property :: linorder
begin

definition less_eq_privacy_property :: "privacy_property \<Rightarrow> privacy_property \<Rightarrow> bool" where
  "less_eq_privacy_property x y \<longleftrightarrow> privacy_rank x \<le> privacy_rank y"

definition less_privacy_property :: "privacy_property \<Rightarrow> privacy_property \<Rightarrow> bool" where
  "less_privacy_property x y \<longleftrightarrow> privacy_rank x < privacy_rank y"

instance
  by standard (auto simp: less_eq_privacy_property_def less_privacy_property_def)

end

instantiation trust_mechanism :: linorder
begin

definition less_eq_trust_mechanism :: "trust_mechanism \<Rightarrow> trust_mechanism \<Rightarrow> bool" where
  "less_eq_trust_mechanism x y \<longleftrightarrow> trust_rank x \<le> trust_rank y"

definition less_trust_mechanism :: "trust_mechanism \<Rightarrow> trust_mechanism \<Rightarrow> bool" where
  "less_trust_mechanism x y \<longleftrightarrow> trust_rank x < trust_rank y"

instance
  by standard (auto simp: less_eq_trust_mechanism_def less_trust_mechanism_def)

end

subsection \<open>Capacity and manifest\<close>

record capacity =
  max_concurrent_sessions :: nat
  available_sessions :: nat
  max_context_tokens :: nat

definition validate_capacity :: "capacity \<Rightarrow> unit validated" where
  "validate_capacity c =
     (if max_concurrent_sessions c = 0
         \<or> available_sessions c > max_concurrent_sessions c
         \<or> max_context_tokens c = 0
         \<or> max_context_tokens c > 100000000
      then fail_with ''capabilities.capacity'' VK_OutOfRange
      else Inr ())"

record capability_manifest =
  cm_schema_version :: protocol_version
  cm_protocol_versions :: "protocol_version list"
  cm_model_classes :: "capability_name list"
  cm_context_limit_tokens :: nat
  cm_tools :: "capability_name list"
  cm_memory_modes :: "memory_mode list"
  cm_privacy_properties :: "privacy_property list"
  cm_inference_location :: inference_location
  cm_capacity :: capacity
  cm_visibility :: capability_visibility
  cm_supported_trust_mechanisms :: "trust_mechanism list"

definition ensure_unique :: "string \<Rightarrow> 'a::linorder list \<Rightarrow> unit validated" where
  "ensure_unique field values = require (\<not> adjacent_equal (sort values)) field VK_InvalidFormat"

definition validate_manifest :: "capability_manifest \<Rightarrow> unit validated" where
  "validate_manifest m = run_checks
    ([require_supported (cm_schema_version m),
      require (cm_protocol_versions m \<noteq> []) ''capabilities.protocolVersions'' VK_Empty,
      bounded_count ''capabilities.protocolVersions'' (length (cm_protocol_versions m))
        MAX_PROTOCOL_VERSIONS]
     @ map require_supported (cm_protocol_versions m)
     @ [bounded_count ''capabilities.modelClasses'' (length (cm_model_classes m)) MAX_MODEL_CLASSES,
        bounded_count ''capabilities.tools'' (length (cm_tools m)) MAX_TOOLS,
        bounded_count ''capabilities.memoryModes'' (length (cm_memory_modes m)) MAX_MEMORY_MODES,
        bounded_count ''capabilities.privacyProperties'' (length (cm_privacy_properties m))
          MAX_PRIVACY_PROPERTIES,
        bounded_count ''capabilities.supportedTrustMechanisms''
          (length (cm_supported_trust_mechanisms m)) MAX_TRUST_MECHANISMS,
        require (\<not> (cm_context_limit_tokens m = 0 \<or> cm_context_limit_tokens m > 100000000))
          ''capabilities.contextLimitTokens'' VK_OutOfRange,
        ensure_unique ''capabilities.protocolVersions'' (cm_protocol_versions m),
        ensure_unique ''capabilities.modelClasses'' (cm_model_classes m),
        ensure_unique ''capabilities.tools'' (cm_tools m),
        ensure_unique ''capabilities.memoryModes'' (cm_memory_modes m),
        ensure_unique ''capabilities.privacyProperties'' (cm_privacy_properties m),
        ensure_unique ''capabilities.supportedTrustMechanisms'' (cm_supported_trust_mechanisms m),
        validate_capacity (cm_capacity m)])"

lemma ensure_unique_ok [simp, check_simps]: "ensure_unique f xs = Inr u \<longleftrightarrow> distinct xs"
  by (simp add: ensure_unique_def)

lemma validate_capacity_ok [simp, check_simps]:
  "validate_capacity c = Inr u \<longleftrightarrow>
     0 < max_concurrent_sessions c \<and> available_sessions c \<le> max_concurrent_sessions c
     \<and> 0 < max_context_tokens c \<and> max_context_tokens c \<le> 100000000"
  by (auto simp: validate_capacity_def)

text \<open>
  A manifest whose versions are distinct and all supported lists version 1.0 alone.
\<close>

lemma manifest_versions: "validate_manifest m = Inr () \<Longrightarrow> cm_protocol_versions m = [V1_0]"
proof -
  assume "validate_manifest m = Inr ()"
  then have "cm_protocol_versions m \<noteq> []" "distinct (cm_protocol_versions m)"
      "\<forall>v\<in>set (cm_protocol_versions m). v = V1_0"
    by (simp_all add: validate_manifest_def)
  then show ?thesis
    by (cases "cm_protocol_versions m") (auto, metis list.set_intros(1) list.exhaust)
qed

end
