(* ===== verification/Protocol_Tentacle.thy ===== *)
theory Protocol_Tentacle
  imports Protocol_Capability
begin

section \<open>Tentacles and their lifecycle (cthuwu-protocol: tentacle.rs)\<close>

text \<open>
  The record a Council keeps of one Tentacle, its validation, and the two operations that
  change it: a local lifecycle \<open>transition\<close> and \<open>apply_update\<close> of an authenticated update.
  Both mutate in place and return early on an error before the first assignment; the model
  returns the new record, or the error with the caller keeping the old one.
\<close>

record xmtp_endpoint =
  xe_inbox_id :: xmtp_inbox_ref
  xe_network :: string

definition validate_endpoint :: "xmtp_endpoint \<Rightarrow> unit validated" where
  "validate_endpoint e = validate_slug ''tentacle.xmtpEndpoint.network'' (xe_network e) 32"

record incarnation =
  inc_id :: incarnation_id
  inc_generation :: nat

definition validate_incarnation :: "incarnation \<Rightarrow> unit validated" where
  "validate_incarnation i =
     (if inc_generation i = 0
      then fail_with ''tentacle.incarnation.generation'' VK_OutOfRange else Inr ())"

datatype tentacle_lifecycle = TL_Starting | TL_Ready | TL_Draining | TL_Unavailable | TL_Stopped

fun can_transition_to :: "tentacle_lifecycle \<Rightarrow> tentacle_lifecycle \<Rightarrow> bool" where
  "can_transition_to TL_Starting next \<longleftrightarrow> next \<in> {TL_Ready, TL_Unavailable, TL_Stopped}"
| "can_transition_to TL_Ready next \<longleftrightarrow> next \<in> {TL_Draining, TL_Unavailable, TL_Stopped}"
| "can_transition_to TL_Draining next \<longleftrightarrow> next \<in> {TL_Unavailable, TL_Stopped}"
| "can_transition_to TL_Unavailable next \<longleftrightarrow> next \<in> {TL_Ready, TL_Stopped}"
| "can_transition_to TL_Stopped next \<longleftrightarrow> False"

datatype health_status = HS_Healthy | HS_Suspect | HS_Unavailable

record tentacle_health =
  th_status :: health_status
  th_observed_at :: timestamp

record tentacle =
  tn_id :: tentacle_id
  tn_owner :: cthulhu_id
  tn_xmtp_endpoint :: xmtp_endpoint
  tn_incarnation :: incarnation
  tn_lifecycle :: tentacle_lifecycle
  tn_capabilities :: capability_manifest
  tn_health :: tentacle_health
  tn_capacity :: capacity
  tn_current_load_per_mille :: nat
  tn_visibility :: capability_visibility
  tn_protocol_version :: protocol_version
  tn_last_heartbeat :: timestamp

record tentacle_lifecycle_update =
  tu_tentacle_id :: tentacle_id
  tu_owner :: cthulhu_id
  tu_incarnation :: incarnation
  tu_lifecycle :: tentacle_lifecycle
  tu_health :: tentacle_health
  tu_current_load_per_mille :: nat
  tu_last_heartbeat :: timestamp

definition validate_tentacle :: "tentacle \<Rightarrow> unit validated" where
  "validate_tentacle t = run_checks
    [validate_endpoint (tn_xmtp_endpoint t),
     validate_incarnation (tn_incarnation t),
     validate_manifest (tn_capabilities t),
     validate_capacity (tn_capacity t),
     require_supported (tn_protocol_version t),
     require (\<not> tn_current_load_per_mille t > 1000) ''tentacle.currentLoadPerMille'' VK_OutOfRange,
     require (\<not> tn_capacity t \<noteq> cm_capacity (tn_capabilities t)) ''tentacle.capacity'' VK_InvalidFormat,
     require (\<not> tn_visibility t \<noteq> cm_visibility (tn_capabilities t))
       ''tentacle.visibility'' VK_InvalidFormat,
     require (\<not> th_observed_at (tn_health t) > tn_last_heartbeat t)
       ''tentacle.health.observedAt'' VK_OutOfRange]"

definition validate_update :: "tentacle_lifecycle_update \<Rightarrow> unit validated" where
  "validate_update u = run_checks
    [validate_incarnation (tu_incarnation u),
     require (\<not> (tu_current_load_per_mille u > 1000
                \<or> th_observed_at (tu_health u) > tu_last_heartbeat u))
       ''tentacle.update'' VK_OutOfRange]"

definition transition :: "tentacle \<Rightarrow> tentacle_lifecycle \<Rightarrow> timestamp \<Rightarrow> tentacle validated" where
  "transition t next at =
     (if \<not> can_transition_to (tn_lifecycle t) next \<or> at < tn_last_heartbeat t
      then fail_with ''tentacle.lifecycle'' VK_InvalidLifecycleTransition
      else Inr (t\<lparr>tn_lifecycle := next, tn_last_heartbeat := at\<rparr>))"

text \<open>
  The middle of \<open>apply_update\<close>: which incarnation and lifecycle the update leads to, or the
  refusal of an illegal transition.
\<close>

definition update_lifecycle :: "tentacle \<Rightarrow> tentacle_lifecycle_update \<Rightarrow> tentacle validated" where
  "update_lifecycle t u =
     (if inc_generation (tu_incarnation u) > inc_generation (tn_incarnation t) then
        (if tu_lifecycle u \<noteq> TL_Starting
         then fail_with ''tentacle.update.lifecycle'' VK_InvalidLifecycleTransition
         else Inr (t\<lparr>tn_incarnation := tu_incarnation u, tn_lifecycle := tu_lifecycle u\<rparr>))
      else if tu_lifecycle u \<noteq> tn_lifecycle t then
        (if \<not> can_transition_to (tn_lifecycle t) (tu_lifecycle u)
         then fail_with ''tentacle.update.lifecycle'' VK_InvalidLifecycleTransition
         else Inr (t\<lparr>tn_lifecycle := tu_lifecycle u\<rparr>))
      else Inr t)"

definition stale_update :: "tentacle \<Rightarrow> tentacle_lifecycle_update \<Rightarrow> bool" where
  "stale_update t u \<longleftrightarrow>
     inc_generation (tu_incarnation u) < inc_generation (tn_incarnation t)
     \<or> (inc_generation (tu_incarnation u) = inc_generation (tn_incarnation t)
        \<and> inc_id (tu_incarnation u) \<noteq> inc_id (tn_incarnation t))
     \<or> tu_last_heartbeat u < tn_last_heartbeat t"

definition apply_update :: "tentacle \<Rightarrow> tentacle_lifecycle_update \<Rightarrow> tentacle validated" where
  "apply_update t u =
     and_then (validate_update u) (\<lambda>_.
       if tu_tentacle_id u \<noteq> tn_id t \<or> tu_owner u \<noteq> tn_owner t
       then fail_with ''tentacle.update.sender'' VK_SenderMismatch
       else if stale_update t u
       then fail_with ''tentacle.update.incarnation'' VK_StaleIncarnation
       else and_then (update_lifecycle t u) (\<lambda>t'.
         Inr (t'\<lparr>tn_health := tu_health u,
                 tn_current_load_per_mille := tu_current_load_per_mille u,
                 tn_last_heartbeat := tu_last_heartbeat u\<rparr>)))"

lemma validate_incarnation_ok [simp, check_simps]:
  "validate_incarnation i = Inr u \<longleftrightarrow> 0 < inc_generation i"
  by (auto simp: validate_incarnation_def)

lemma validate_endpoint_ok [simp, check_simps]:
  "validate_endpoint e = Inr u \<longleftrightarrow> length (xe_network e) \<le> 32 \<and> slug_grammar (xe_network e)"
  by (simp add: validate_endpoint_def)

lemma validate_update_ok [simp, check_simps]:
  "validate_update u = Inr x \<longleftrightarrow>
     0 < inc_generation (tu_incarnation u) \<and> tu_current_load_per_mille u \<le> 1000
     \<and> th_observed_at (tu_health u) \<le> tu_last_heartbeat u"
  by (auto simp: validate_update_def)

lemma validate_tentacle_ok [check_simps]:
  "validate_tentacle t = Inr u \<longleftrightarrow>
     validate_endpoint (tn_xmtp_endpoint t) = Inr ()
     \<and> 0 < inc_generation (tn_incarnation t)
     \<and> validate_manifest (tn_capabilities t) = Inr ()
     \<and> validate_capacity (tn_capacity t) = Inr ()
     \<and> tn_protocol_version t = V1_0
     \<and> tn_current_load_per_mille t \<le> 1000
     \<and> tn_capacity t = cm_capacity (tn_capabilities t)
     \<and> tn_visibility t = cm_visibility (tn_capabilities t)
     \<and> th_observed_at (tn_health t) \<le> tn_last_heartbeat t"
  by (simp add: validate_tentacle_def not_less del: validate_capacity_ok validate_endpoint_ok)

subsection \<open>What one accepted step does\<close>

lemma transition_ok [simp]:
  "transition t n a = Inr t' \<longleftrightarrow>
     can_transition_to (tn_lifecycle t) n \<and> tn_last_heartbeat t \<le> a
     \<and> t' = t\<lparr>tn_lifecycle := n, tn_last_heartbeat := a\<rparr>"
  by (auto simp: transition_def)

lemma apply_update_ok:
  "apply_update t u = Inr t' \<longleftrightarrow>
     validate_update u = Inr () \<and> tu_tentacle_id u = tn_id t \<and> tu_owner u = tn_owner t
     \<and> \<not> stale_update t u
     \<and> (if inc_generation (tn_incarnation t) < inc_generation (tu_incarnation u)
        then tu_lifecycle u = TL_Starting
        else tu_lifecycle u = tn_lifecycle t \<or> can_transition_to (tn_lifecycle t) (tu_lifecycle u))
     \<and> t' = t\<lparr>tn_incarnation := tu_incarnation u, tn_lifecycle := tu_lifecycle u,
              tn_health := tu_health u,
              tn_current_load_per_mille := tu_current_load_per_mille u,
              tn_last_heartbeat := tu_last_heartbeat u\<rparr>"
proof -
  have same: "\<not> stale_update t u \<Longrightarrow> \<not> inc_generation (tn_incarnation t) < inc_generation (tu_incarnation u)
    \<Longrightarrow> tu_incarnation u = tn_incarnation t"
    by (auto simp: stale_update_def)
  show ?thesis
    unfolding apply_update_def update_lifecycle_def
    by (auto split: if_splits dest: same)
qed

text \<open>
  The machine a Tentacle is: accepted updates and local transitions.  \<open>step_effect\<close> is what
  every step respects; it is reflexive and transitive, so every run respects it.
\<close>

inductive tentacle_step :: "tentacle \<Rightarrow> tentacle \<Rightarrow> bool" where
  step_update: "apply_update t u = Inr t' \<Longrightarrow> tentacle_step t t'"
| step_transition: "transition t n a = Inr t' \<Longrightarrow> tentacle_step t t'"

inductive_cases tentacle_stepE: "tentacle_step t t'"

definition step_effect :: "tentacle \<Rightarrow> tentacle \<Rightarrow> bool" where
  "step_effect t t' \<longleftrightarrow>
     tn_id t' = tn_id t \<and> tn_owner t' = tn_owner t
     \<and> tn_last_heartbeat t \<le> tn_last_heartbeat t'
     \<and> (inc_generation (tn_incarnation t) < inc_generation (tn_incarnation t')
        \<or> tn_incarnation t' = tn_incarnation t
          \<and> can_transition_to\<^sup>*\<^sup>* (tn_lifecycle t) (tn_lifecycle t'))"

lemma step_effect_refl: "step_effect t t"
  by (simp add: step_effect_def)

lemma step_effect_trans: "step_effect t t' \<Longrightarrow> step_effect t' t'' \<Longrightarrow> step_effect t t''"
  unfolding step_effect_def by (auto dest: order_trans)

lemma tentacle_step_effect: "tentacle_step t t' \<Longrightarrow> step_effect t t'"
proof (induction rule: tentacle_step.induct)
  case (step_update t u t')
  then show ?case
    by (cases "tu_incarnation u"; cases "tn_incarnation t")
      (auto simp: apply_update_ok stale_update_def step_effect_def split: if_splits)
next
  case (step_transition t n a t')
  then show ?case by (auto simp: step_effect_def)
qed

lemma tentacle_step_validate:
  "tentacle_step t t' \<Longrightarrow> validate_tentacle t = Inr () \<Longrightarrow> validate_tentacle t' = Inr ()"
  by (induction rule: tentacle_step.induct) (auto simp: apply_update_ok validate_tentacle_ok)

lemma tentacle_run_effect: "tentacle_step\<^sup>*\<^sup>* t t' \<Longrightarrow> step_effect t t'"
  by (induction rule: rtranclp_induct)
    (auto intro: step_effect_refl step_effect_trans tentacle_step_effect)

lemma tentacle_run_validate:
  "tentacle_step\<^sup>*\<^sup>* t t' \<Longrightarrow> validate_tentacle t = Inr () \<Longrightarrow> validate_tentacle t' = Inr ()"
  by (induction rule: rtranclp_induct) (auto intro: tentacle_step_validate)

lemma stopped_is_final: "can_transition_to\<^sup>*\<^sup>* TL_Stopped l \<Longrightarrow> l = TL_Stopped"
  by (induction rule: rtranclp_induct) auto

subsection \<open>Sample values\<close>

text \<open>The record the unit tests of the source start from.\<close>

definition home_capacity :: capacity where
  "home_capacity =
     \<lparr>max_concurrent_sessions = 4, available_sessions = 4, max_context_tokens = 16384\<rparr>"

definition home_manifest :: capability_manifest where
  "home_manifest =
     \<lparr>cm_schema_version = V1_0, cm_protocol_versions = [V1_0],
      cm_model_classes = [CapabilityName ''text-chat''], cm_context_limit_tokens = 16384,
      cm_tools = [], cm_memory_modes = [MM_LocalContact],
      cm_privacy_properties = [NoCouncilContent], cm_inference_location = IL_Local,
      cm_capacity = home_capacity, cm_visibility = CV_Council,
      cm_supported_trust_mechanisms = [LocalAllowlist]\<rparr>"

definition home_tentacle :: tentacle where
  "home_tentacle =
     \<lparr>tn_id = Ident ''tentacle_home'', tn_owner = Ident ''cthulhu_archivist'',
      tn_xmtp_endpoint = \<lparr>xe_inbox_id = XmtpInboxRef ''012345abcdef'', xe_network = ''dev''\<rparr>,
      tn_incarnation = \<lparr>inc_id = Ident ''incarnation_first'', inc_generation = 1\<rparr>,
      tn_lifecycle = TL_Starting, tn_capabilities = home_manifest,
      tn_health = \<lparr>th_status = HS_Healthy, th_observed_at = 100\<rparr>,
      tn_capacity = home_capacity, tn_current_load_per_mille = 0, tn_visibility = CV_Council,
      tn_protocol_version = V1_0, tn_last_heartbeat = 100\<rparr>"

lemma dev_is_slug: "slug_grammar ''dev''"
  by (auto simp: slug_grammar_def slug_char_def is_separator_def ascii_defs less_Suc_eq)

lemma home_manifest_valid: "validate_manifest home_manifest = Inr ()"
  by (simp add: validate_manifest_def home_manifest_def home_capacity_def MAX_PROTOCOL_VERSIONS_def
      MAX_MODEL_CLASSES_def MAX_TOOLS_def MAX_MEMORY_MODES_def MAX_PRIVACY_PROPERTIES_def
      MAX_TRUST_MECHANISMS_def run_checks.simps(1))

lemma home_tentacle_valid: "validate_tentacle home_tentacle = Inr ()"
  using home_manifest_valid
  by (simp add: validate_tentacle_ok home_tentacle_def home_manifest_def home_capacity_def dev_is_slug)

subsection \<open>Properties\<close>

text \<open>
  No update or transition, in any number and order, moves a Tentacle to another identity
  or owner, back in time, or to an older incarnation; within one incarnation it only moves
  along the lifecycle graph, so a stopped Tentacle stays stopped until a strictly newer
  incarnation announces itself.
\<close>

theorem tentacle_fencing:
  assumes "tentacle_step\<^sup>*\<^sup>* t t'"
  shows "tn_id t' = tn_id t \<and> tn_owner t' = tn_owner t
    \<and> tn_last_heartbeat t \<le> tn_last_heartbeat t'
    \<and> inc_generation (tn_incarnation t) \<le> inc_generation (tn_incarnation t')
    \<and> (inc_generation (tn_incarnation t') = inc_generation (tn_incarnation t) \<longrightarrow>
         tn_incarnation t' = tn_incarnation t
         \<and> can_transition_to\<^sup>*\<^sup>* (tn_lifecycle t) (tn_lifecycle t')
         \<and> (tn_lifecycle t = TL_Stopped \<longrightarrow> tn_lifecycle t' = TL_Stopped))"
  using tentacle_run_effect[OF assms] by (auto simp: step_effect_def dest: stopped_is_final)

lemma home_run:
  "tentacle_step\<^sup>*\<^sup>* home_tentacle (home_tentacle\<lparr>tn_lifecycle := TL_Stopped, tn_last_heartbeat := 105\<rparr>)"
proof -
  have "tentacle_step home_tentacle (home_tentacle\<lparr>tn_lifecycle := TL_Ready, tn_last_heartbeat := 101\<rparr>)"
    by (rule step_transition[of _ TL_Ready 101]) (simp add: home_tentacle_def)
  moreover have "tentacle_step (home_tentacle\<lparr>tn_lifecycle := TL_Ready, tn_last_heartbeat := 101\<rparr>)
      (home_tentacle\<lparr>tn_lifecycle := TL_Stopped, tn_last_heartbeat := 105\<rparr>)"
    by (rule step_transition[of _ TL_Stopped 105]) (simp add: home_tentacle_def)
  ultimately show ?thesis by (blast intro: rtranclp.intros)
qed

theorem tentacle_fencing_witness:
  "tn_id (home_tentacle\<lparr>tn_lifecycle := TL_Stopped, tn_last_heartbeat := 105\<rparr>) = tn_id home_tentacle
   \<and> can_transition_to\<^sup>*\<^sup>* (tn_lifecycle home_tentacle) TL_Stopped"
  using tentacle_fencing[OF home_run] by simp

text \<open>
  whatever sequence of updates and transitions a valid Tentacle record goes through, it
  still passes its own validation.
\<close>

theorem tentacle_run_valid:
  assumes "tentacle_step\<^sup>*\<^sup>* t t'" "validate_tentacle t = Inr ()"
  shows "validate_tentacle t' = Inr ()"
  using assms by (rule tentacle_run_validate)

theorem tentacle_run_valid_witness:
  "validate_tentacle (home_tentacle\<lparr>tn_lifecycle := TL_Stopped, tn_last_heartbeat := 105\<rparr>) = Inr ()"
  by (rule tentacle_run_valid[OF home_run home_tentacle_valid])

end
