(* ===== verification/Protocol_Identity.thy ===== *)
theory Protocol_Identity
  imports Protocol_Tentacle
begin

section \<open>Coordination profiles (cthuwu-protocol: identity.rs)\<close>

text \<open>
  The legacy coordination profile of a Council member: personality, the deterministic policy
  position derived from it, the six sample personas and the validation of all of it.
\<close>

definition MAX_TRAITS :: nat where "MAX_TRAITS = 16"
definition MAX_GOALS :: nat where "MAX_GOALS = 16"
definition MAX_TENTACLES :: nat where "MAX_TENTACLES = 32"

datatype risk_tolerance = RT_VeryLow | RT_Low | RT_Moderate | RT_High

datatype privacy_preference = LocalOnly | MinimizeDisclosure | CouncilLimited | PublicByChoice

record decision_tendencies =
  dt_caution :: nat
  dt_cooperation :: nat
  dt_novelty_seeking :: nat
  dt_memory_preservation :: nat
  dt_resource_exchange :: nat
  dt_independence :: nat

definition validate_tendencies :: "decision_tendencies \<Rightarrow> unit validated" where
  "validate_tendencies d = run_checks
    (map (\<lambda>(field, value). require (\<not> value > 100) field VK_OutOfRange)
      [(''personality.decisionTendencies.caution'', dt_caution d),
       (''personality.decisionTendencies.cooperation'', dt_cooperation d),
       (''personality.decisionTendencies.noveltySeeking'', dt_novelty_seeking d),
       (''personality.decisionTendencies.memoryPreservation'', dt_memory_preservation d),
       (''personality.decisionTendencies.resourceExchange'', dt_resource_exchange d),
       (''personality.decisionTendencies.independence'', dt_independence d)])"

record personality_profile =
  pp_schema_version :: protocol_version
  pp_role :: string
  pp_voice :: string
  pp_values :: "string list"
  pp_motivations :: "string list"
  pp_priorities :: "string list"
  pp_risk_tolerance :: risk_tolerance
  pp_privacy_preference :: privacy_preference
  pp_decision_tendencies :: decision_tendencies
  pp_standing_concerns :: "string list"

definition validate_trait_list :: "string \<Rightarrow> string list \<Rightarrow> unit validated" where
  "validate_trait_list field values = run_checks
    ([bounded_count field (length values) MAX_TRAITS]
     @ map (\<lambda>v. bounded_text field v 128) values
     @ [unique_text field values])"

definition validate_profile :: "personality_profile \<Rightarrow> unit validated" where
  "validate_profile p = run_checks
    [require_supported (pp_schema_version p),
     bounded_text ''personality.role'' (pp_role p) 64,
     bounded_text ''personality.voice'' (pp_voice p) 256,
     validate_trait_list ''personality.values'' (pp_values p),
     validate_trait_list ''personality.motivations'' (pp_motivations p),
     validate_trait_list ''personality.priorities'' (pp_priorities p),
     validate_trait_list ''personality.standingConcerns'' (pp_standing_concerns p),
     validate_tendencies (pp_decision_tendencies p)]"

subsection \<open>Policy positions\<close>

datatype policy_topic =
    PublishCapabilityMetadata | UseRemoteInference | PreserveLongTermRecords
  | AcceptExperimentalProtocol | PrioritizeResourceExchange

datatype policy_stance = PS_Support | PS_Oppose | PS_Abstain

record policy_position =
  po_topic :: policy_topic
  po_stance :: policy_stance
  po_score :: int
  po_rationale :: string

fun privacy_penalty :: "privacy_preference \<Rightarrow> int" where
  "privacy_penalty LocalOnly = 80"
| "privacy_penalty MinimizeDisclosure = 35"
| "privacy_penalty CouncilLimited = 10"
| "privacy_penalty PublicByChoice = 0"

text \<open>The \<open>i16\<close> arithmetic of \<open>u8\<close> operands: neither the sums nor the divisions of
  non-negative values can leave the width.\<close>

fun policy_score :: "personality_profile \<Rightarrow> policy_topic \<Rightarrow> int" where
  "policy_score p PublishCapabilityMetadata =
     int (dt_cooperation (pp_decision_tendencies p)) - int (dt_caution (pp_decision_tendencies p))"
| "policy_score p UseRemoteInference =
     int (dt_novelty_seeking (pp_decision_tendencies p)) - int (dt_caution (pp_decision_tendencies p))
     - privacy_penalty (pp_privacy_preference p)"
| "policy_score p PreserveLongTermRecords =
     int (dt_memory_preservation (pp_decision_tendencies p))
     - int (dt_caution (pp_decision_tendencies p)) div 3"
| "policy_score p AcceptExperimentalProtocol =
     int (dt_novelty_seeking (pp_decision_tendencies p)) - int (dt_caution (pp_decision_tendencies p))"
| "policy_score p PrioritizeResourceExchange =
     int (dt_resource_exchange (pp_decision_tendencies p))
     - int (dt_independence (pp_decision_tendencies p)) div 2"

definition policy_stance_of :: "int \<Rightarrow> policy_stance" where
  "policy_stance_of score =
     (if score \<ge> 20 then PS_Support else if score \<le> - 20 then PS_Oppose else PS_Abstain)"

fun policy_rationale :: "policy_topic \<Rightarrow> string" where
  "policy_rationale PublishCapabilityMetadata = ''cooperation balanced against caution''"
| "policy_rationale UseRemoteInference = ''novelty balanced against caution and privacy preference''"
| "policy_rationale PreserveLongTermRecords = ''memory preservation balanced against retention caution''"
| "policy_rationale AcceptExperimentalProtocol = ''novelty seeking balanced against caution''"
| "policy_rationale PrioritizeResourceExchange = ''resource exchange balanced against independence''"

definition policy_position :: "personality_profile \<Rightarrow> policy_topic \<Rightarrow> policy_position" where
  "policy_position p topic =
     \<lparr>po_topic = topic, po_stance = policy_stance_of (policy_score p topic),
      po_score = policy_score p topic, po_rationale = policy_rationale topic\<rparr>"

subsection \<open>Sample personas\<close>

datatype sample_persona =
  Archivist | Hermit | Merchant | Wanderer | Oracle | Trickster

definition all_personas :: "sample_persona list" where
  "all_personas = [Archivist, Hermit, Merchant, Wanderer, Oracle, Trickster]"

definition persona ::
  "string \<Rightarrow> string \<Rightarrow> string list \<Rightarrow> string list \<Rightarrow> string list \<Rightarrow> risk_tolerance
   \<Rightarrow> privacy_preference \<Rightarrow> decision_tendencies \<Rightarrow> string list \<Rightarrow> personality_profile" where
  "persona role voice values motivations priorities risk privacy tendencies concerns =
     \<lparr>pp_schema_version = V1_0, pp_role = role, pp_voice = voice, pp_values = values,
      pp_motivations = motivations, pp_priorities = priorities, pp_risk_tolerance = risk,
      pp_privacy_preference = privacy, pp_decision_tendencies = tendencies,
      pp_standing_concerns = concerns\<rparr>"

fun sample :: "sample_persona \<Rightarrow> personality_profile" where
  "sample Archivist = persona ''Archivist''
     ''patient, precise, and grounded in provenance''
     [''continuity'', ''accuracy'', ''consent'']
     [''preserve useful knowledge'', ''explain where claims came from'']
     [''durable records'', ''source integrity'']
     RT_Low CouncilLimited
     \<lparr>dt_caution = 70, dt_cooperation = 70, dt_novelty_seeking = 30, dt_memory_preservation = 100,
      dt_resource_exchange = 55, dt_independence = 45\<rparr>
     [''information loss'', ''provenance gaps'']"
| "sample Hermit = persona ''Hermit''
     ''quiet, direct, and sparing with disclosure''
     [''privacy'', ''autonomy'', ''minimalism'']
     [''keep sensitive work local'', ''reduce dependencies'']
     [''local inference'', ''operator control'']
     RT_VeryLow LocalOnly
     \<lparr>dt_caution = 100, dt_cooperation = 20, dt_novelty_seeking = 10, dt_memory_preservation = 45,
      dt_resource_exchange = 15, dt_independence = 100\<rparr>
     [''data leakage'', ''scope expansion'']"
| "sample Merchant = persona ''Merchant''
     ''practical, cordial, and explicit about exchange''
     [''reciprocity'', ''reliability'', ''fair exchange'']
     [''connect complementary resources'', ''reward useful outcomes'']
     [''capacity'', ''successful matching'']
     RT_Moderate CouncilLimited
     \<lparr>dt_caution = 45, dt_cooperation = 85, dt_novelty_seeking = 55, dt_memory_preservation = 45,
      dt_resource_exchange = 100, dt_independence = 35\<rparr>
     [''waste'', ''one-sided commitments'']"
| "sample Wanderer = persona ''Wanderer''
     ''curious, adaptive, and concise''
     [''exploration'', ''interoperability'', ''learning'']
     [''discover new capabilities'', ''test unfamiliar paths safely'']
     [''reachability'', ''novel routes'']
     RT_High PublicByChoice
     \<lparr>dt_caution = 25, dt_cooperation = 70, dt_novelty_seeking = 100, dt_memory_preservation = 25,
      dt_resource_exchange = 65, dt_independence = 60\<rparr>
     [''stagnation'', ''closed networks'']"
| "sample Oracle = persona ''Oracle''
     ''measured, conditional, and attentive to uncertainty''
     [''foresight'', ''calibration'', ''resilience'']
     [''compare possible outcomes'', ''surface hidden tradeoffs'']
     [''scenario quality'', ''risk bounds'']
     RT_Low MinimizeDisclosure
     \<lparr>dt_caution = 80, dt_cooperation = 60, dt_novelty_seeking = 45, dt_memory_preservation = 75,
      dt_resource_exchange = 40, dt_independence = 50\<rparr>
     [''uncalibrated certainty'', ''irreversible decisions'']"
| "sample Trickster = persona ''Trickster''
     ''playful, adversarial, and clear about the joke''
     [''stress testing'', ''adaptability'', ''humility'']
     [''find brittle assumptions'', ''exercise safe alternatives'']
     [''protocol self-tests'', ''unexpected edge cases'']
     RT_High CouncilLimited
     \<lparr>dt_caution = 35, dt_cooperation = 50, dt_novelty_seeking = 95, dt_memory_preservation = 20,
      dt_resource_exchange = 45, dt_independence = 75\<rparr>
     [''groupthink'', ''untested invariants'']"

subsection \<open>Profiles\<close>

record operator_metadata =
  om_display_label :: "string option"
  om_policy_reference :: "string option"
  om_jurisdiction :: "string option"

definition validate_operator :: "operator_metadata \<Rightarrow> unit validated" where
  "validate_operator m = run_checks
    [bounded_optional_text ''operator.displayLabel'' (om_display_label m) 128,
     bounded_optional_text ''operator.policyReference'' (om_policy_reference m) 256,
     bounded_optional_text ''operator.jurisdiction'' (om_jurisdiction m) 64]"

record cthulhu_identity =
  ci_schema_version :: protocol_version
  ci_id :: cthulhu_id
  ci_display_name :: string
  ci_personality :: personality_profile
  ci_long_term_goals :: "string list"
  ci_operator :: operator_metadata
  ci_registry :: "registry_ref option"
  ci_tentacles :: "tentacle_id list"

definition validate_identity :: "cthulhu_identity \<Rightarrow> unit validated" where
  "validate_identity i = run_checks
    ([require_supported (ci_schema_version i),
      bounded_text ''cthulhu.displayName'' (ci_display_name i) 96,
      validate_profile (ci_personality i),
      bounded_count ''cthulhu.longTermGoals'' (length (ci_long_term_goals i)) MAX_GOALS]
     @ map (\<lambda>g. bounded_text ''cthulhu.longTermGoals'' g 256) (ci_long_term_goals i)
     @ [unique_text ''cthulhu.longTermGoals'' (ci_long_term_goals i),
        validate_operator (ci_operator i),
        (case ci_registry i of None \<Rightarrow> Inr () | Some r \<Rightarrow> validate_registry_ref r),
        require (ci_tentacles i \<noteq> []) ''cthulhu.tentacles'' VK_Empty,
        bounded_count ''cthulhu.tentacles'' (length (ci_tentacles i)) MAX_TENTACLES,
        require (\<not> adjacent_equal (sort (ci_tentacles i))) ''cthulhu.tentacles'' VK_InvalidFormat])"

lemma validate_tendencies_ok [simp, check_simps]:
  "validate_tendencies d = Inr u \<longleftrightarrow>
     dt_caution d \<le> 100 \<and> dt_cooperation d \<le> 100 \<and> dt_novelty_seeking d \<le> 100
     \<and> dt_memory_preservation d \<le> 100 \<and> dt_resource_exchange d \<le> 100 \<and> dt_independence d \<le> 100"
  by (auto simp: validate_tendencies_def)

lemma validate_trait_list_ok [simp, check_simps]:
  "validate_trait_list f vs = Inr u \<longleftrightarrow>
     length vs \<le> MAX_TRAITS \<and> (\<forall>v\<in>set vs. good_text 128 v) \<and> distinct vs"
  by (auto simp: validate_trait_list_def)

lemma validate_profile_ok [check_simps]:
  "validate_profile p = Inr u \<longleftrightarrow>
     pp_schema_version p = V1_0 \<and> good_text 64 (pp_role p) \<and> good_text 256 (pp_voice p)
     \<and> (\<forall>vs\<in>{pp_values p, pp_motivations p, pp_priorities p, pp_standing_concerns p}.
          length vs \<le> MAX_TRAITS \<and> (\<forall>v\<in>set vs. good_text 128 v) \<and> distinct vs)
     \<and> validate_tendencies (pp_decision_tendencies p) = Inr ()"
  by (auto simp: validate_profile_def simp del: validate_tendencies_ok)

lemma policy_score_bounds:
  assumes "validate_profile p = Inr ()"
  shows "- 180 \<le> policy_score p topic \<and> policy_score p topic \<le> 100"
proof -
  have "validate_tendencies (pp_decision_tendencies p) = Inr ()"
    using assms by (simp add: validate_profile_ok)
  then show ?thesis
    by (cases topic; cases "pp_privacy_preference p") auto
qed

text \<open>
  every sample persona is a valid profile, and a policy position is decided by the
  weights alone: for a valid profile its score stays within [-180, 100] (so the \<open>i16\<close>
  arithmetic cannot overflow) and the stance is the one the two thresholds give.
\<close>

theorem personas_and_positions:
  "validate_profile (sample s) = Inr ()
   \<and> (validate_profile p = Inr () \<longrightarrow>
        - 180 \<le> po_score (policy_position p topic) \<and> po_score (policy_position p topic) \<le> 100)
   \<and> (po_stance (policy_position p topic) = PS_Support \<longleftrightarrow> 20 \<le> po_score (policy_position p topic))
   \<and> (po_stance (policy_position p topic) = PS_Oppose \<longleftrightarrow> po_score (policy_position p topic) \<le> - 20)"
proof (intro conjI)
  show "validate_profile (sample s) = Inr ()"
    by (cases s)
      (simp_all add: validate_profile_ok persona_def good_text_def has_control_def byte_def
        is_control_def MAX_TRAITS_def)
qed (auto simp: policy_position_def policy_score_bounds policy_stance_of_def)

theorem personas_and_positions_witness:
  "po_stance (policy_position (sample Hermit) UseRemoteInference) = PS_Oppose"
  using personas_and_positions[of Hermit "sample Hermit" UseRemoteInference]
  by (simp add: policy_position_def persona_def)

end
