(* ===== verification/Protocol_Messages.thy ===== *)
theory Protocol_Messages
  imports Protocol_Identity
begin

section \<open>Council messages (cthuwu-protocol: messages.rs)\<close>

text \<open>
  The twenty-eight message types with their payloads, the validation of each payload against
  the receiver's clock, and the binding of a payload to its authenticated sender.  The hash
  of a propagation item's provenance is SHA-256 over serde's JSON, neither of which is part
  of the repository: the hexadecimal digest of the material is the parameter \<open>digest\<close>.
\<close>

definition MAX_REQUIREMENTS :: nat where "MAX_REQUIREMENTS = 64"
definition MAX_PROVENANCE_DEPTH :: nat where "MAX_PROVENANCE_DEPTH = 32"
definition MAX_ARGUMENT_HASHES :: nat where "MAX_ARGUMENT_HASHES = 16"
definition MAX_ROUTE_WINDOW_SECONDS :: int where "MAX_ROUTE_WINDOW_SECONDS = 3600"
definition MAX_WIRE_LEASE_LIFETIME_SECONDS :: int where "MAX_WIRE_LEASE_LIFETIME_SECONDS = 24 * 60 * 60"
definition MAX_GOVERNANCE_LIFETIME_SECONDS :: int where
  "MAX_GOVERNANCE_LIFETIME_SECONDS = 31 * 24 * 60 * 60"
definition MAX_PROPAGATION_LIFETIME_SECONDS :: int where
  "MAX_PROPAGATION_LIFETIME_SECONDS = 30 * 24 * 60 * 60"
definition PROVENANCE_HASH_DOMAIN :: string where
  "PROVENANCE_HASH_DOMAIN = ''cthuwu-council-provenance-v1''"
definition MAX_FUTURE_CLOCK_SKEW_SECONDS :: int where "MAX_FUTURE_CLOCK_SKEW_SECONDS = 300"
definition MAX_ENVELOPE_LIFETIME_SECONDS :: int where "MAX_ENVELOPE_LIFETIME_SECONDS = 3600"

datatype message_type =
    MT_CouncilMemberAnnounce | MT_CouncilMemberWithdraw | MT_TentacleAnnounce
  | MT_TentacleCapabilities | MT_TentacleHeartbeat | MT_TentacleDraining | MT_TentacleWithdraw
  | MT_RouteRequest | MT_RouteOffer | MT_RouteReject | MT_RouteAward
  | MT_LeaseGrant | MT_LeaseRenew | MT_LeaseRelease | MT_LeaseRevoke | MT_LeaseExpired
  | MT_GovernanceProposal | MT_GovernanceArgument | MT_GovernanceVote | MT_GovernanceRatified
  | MT_GovernanceRejected
  | MT_PropagationInvite | MT_PropagationAccept | MT_PropagationReject | MT_PropagationAnnounce
  | MT_PropagationForward | MT_PropagationAck | MT_PropagationRevoke

fun message_type_str :: "message_type \<Rightarrow> string" where
  "message_type_str MT_CouncilMemberAnnounce = ''council.member.announce''"
| "message_type_str MT_CouncilMemberWithdraw = ''council.member.withdraw''"
| "message_type_str MT_TentacleAnnounce = ''tentacle.announce''"
| "message_type_str MT_TentacleCapabilities = ''tentacle.capabilities''"
| "message_type_str MT_TentacleHeartbeat = ''tentacle.heartbeat''"
| "message_type_str MT_TentacleDraining = ''tentacle.draining''"
| "message_type_str MT_TentacleWithdraw = ''tentacle.withdraw''"
| "message_type_str MT_RouteRequest = ''route.request''"
| "message_type_str MT_RouteOffer = ''route.offer''"
| "message_type_str MT_RouteReject = ''route.reject''"
| "message_type_str MT_RouteAward = ''route.award''"
| "message_type_str MT_LeaseGrant = ''lease.grant''"
| "message_type_str MT_LeaseRenew = ''lease.renew''"
| "message_type_str MT_LeaseRelease = ''lease.release''"
| "message_type_str MT_LeaseRevoke = ''lease.revoke''"
| "message_type_str MT_LeaseExpired = ''lease.expired''"
| "message_type_str MT_GovernanceProposal = ''governance.proposal''"
| "message_type_str MT_GovernanceArgument = ''governance.argument''"
| "message_type_str MT_GovernanceVote = ''governance.vote''"
| "message_type_str MT_GovernanceRatified = ''governance.ratified''"
| "message_type_str MT_GovernanceRejected = ''governance.rejected''"
| "message_type_str MT_PropagationInvite = ''propagation.invite''"
| "message_type_str MT_PropagationAccept = ''propagation.accept''"
| "message_type_str MT_PropagationReject = ''propagation.reject''"
| "message_type_str MT_PropagationAnnounce = ''propagation.announce''"
| "message_type_str MT_PropagationForward = ''propagation.forward''"
| "message_type_str MT_PropagationAck = ''propagation.ack''"
| "message_type_str MT_PropagationRevoke = ''propagation.revoke''"

subsection \<open>Membership and Tentacle payloads\<close>

record council_member_announce =
  ma_member :: cthulhu_identity

record council_member_withdraw =
  mw_cthulhu_id :: cthulhu_id
  mw_reason :: "string option"

record tentacle_announce =
  ta_tentacle :: tentacle

record tentacle_capabilities =
  tc_tentacle_id :: tentacle_id
  tc_owner :: cthulhu_id
  tc_incarnation :: incarnation
  tc_capabilities :: capability_manifest
  tc_observed_at :: timestamp

record tentacle_heartbeat =
  hb_update :: tentacle_lifecycle_update

record tentacle_draining =
  td_tentacle_id :: tentacle_id
  td_owner :: cthulhu_id
  td_incarnation :: incarnation
  td_effective_at :: timestamp

record tentacle_withdraw =
  tw_tentacle_id :: tentacle_id
  tw_owner :: cthulhu_id
  tw_incarnation :: incarnation
  tw_reason :: "string option"

datatype wire_user_reference = WU_XmtpInbox xmtp_inbox_ref | WU_Opaque string

fun validate_wire_user :: "wire_user_reference \<Rightarrow> unit validated" where
  "validate_wire_user (WU_XmtpInbox r) = Inr ()"
| "validate_wire_user (WU_Opaque value) = validate_slug ''userReference'' value 128"

subsection \<open>Routing payloads\<close>

record wire_trust_policy =
  wt_allowlisted_only :: bool
  wt_registry_association_required :: bool
  wt_accepted_mechanisms :: "trust_mechanism list"
  wt_accepted_registries :: "registry_ref list"

definition validate_wire_trust :: "wire_trust_policy \<Rightarrow> unit validated" where
  "validate_wire_trust p = run_checks
    ([bounded_count ''routing.trustPolicy.acceptedMechanisms'' (length (wt_accepted_mechanisms p)) 16,
      bounded_count ''routing.trustPolicy.acceptedRegistries'' (length (wt_accepted_registries p)) 16]
     @ map validate_registry_ref (wt_accepted_registries p))"

record routing_requirements =
  rq_protocol_versions :: "protocol_version list"
  rq_model_classes :: "capability_name list"
  rq_tools :: "capability_name list"
  rq_required_privacy :: "privacy_property list"
  rq_require_local_inference :: bool
  rq_preferred_cthulhu_id :: "cthulhu_id option"
  rq_preferred_tentacle_id :: "tentacle_id option"
  rq_affinity_tentacle_id :: "tentacle_id option"
  rq_user_owned_tentacle_id :: "tentacle_id option"
  rq_trust_policy :: wire_trust_policy
  rq_maximum_load_per_mille :: nat

fun versions_loop :: "protocol_version bset \<Rightarrow> protocol_version list \<Rightarrow> unit validated" where
  "versions_loop seen [] = Inr ()"
| "versions_loop seen (v # vs) =
     and_then (require_supported v) (\<lambda>_.
       if bs_member seen v then fail_with ''routing.protocolVersions'' VK_InvalidFormat
       else versions_loop (bs_insert v seen) vs)"

definition validate_requirements :: "routing_requirements \<Rightarrow> unit validated" where
  "validate_requirements r = run_checks
    [require (rq_protocol_versions r \<noteq> []) ''routing.protocolVersions'' VK_Empty,
     bounded_count ''routing.protocolVersions'' (length (rq_protocol_versions r)) 8,
     versions_loop bs_empty (rq_protocol_versions r),
     bounded_count ''routing.modelClasses'' (length (rq_model_classes r)) MAX_REQUIREMENTS,
     bounded_count ''routing.tools'' (length (rq_tools r)) MAX_REQUIREMENTS,
     bounded_count ''routing.requiredPrivacy'' (length (rq_required_privacy r)) 16,
     require (\<not> rq_maximum_load_per_mille r > 1000) ''routing.maximumLoadPerMille'' VK_OutOfRange,
     validate_wire_trust (rq_trust_policy r)]"

record route_request =
  qr_request_id :: request_id
  qr_session_id :: session_id
  qr_requester_cthulhu_id :: cthulhu_id
  qr_requester_tentacle_id :: tentacle_id
  qr_user_reference :: wire_user_reference
  qr_requirements :: routing_requirements
  qr_issued_at :: timestamp
  qr_expires_at :: timestamp

record route_offer =
  qo_request_id :: request_id
  qo_offering_cthulhu_id :: cthulhu_id
  qo_offering_tentacle_id :: tentacle_id
  qo_incarnation :: incarnation
  qo_available_sessions :: nat
  qo_current_load_per_mille :: nat
  qo_valid_until :: timestamp

datatype route_reject_reason =
    RR_MissingCapability | RR_PrivacyPolicy | RR_TrustPolicy | RR_Capacity | RR_Draining
  | RR_UnsupportedProtocol | RR_Expired | RR_LocalPolicy

record route_reject =
  qj_request_id :: request_id
  qj_rejecting_cthulhu_id :: cthulhu_id
  qj_rejecting_tentacle_id :: tentacle_id
  qj_reason :: route_reject_reason

record route_award =
  qa_request_id :: request_id
  qa_session_id :: session_id
  qa_lease_id :: lease_id
  qa_awarded_cthulhu_id :: cthulhu_id
  qa_awarded_tentacle_id :: tentacle_id
  qa_incarnation :: incarnation
  qa_generation :: nat
  qa_issuer_cthulhu_id :: cthulhu_id
  qa_issuer_tentacle_id :: tentacle_id

subsection \<open>Lease payloads\<close>

datatype wire_lease_status = WL_Granted | WL_Active | WL_Released | WL_Revoked | WL_Expired

record wire_lease =
  wl_lease_id :: lease_id
  wl_session_id :: session_id
  wl_user_reference :: wire_user_reference
  wl_assigned_cthulhu_id :: cthulhu_id
  wl_assigned_tentacle_id :: tentacle_id
  wl_incarnation :: incarnation
  wl_generation :: nat
  wl_issued_at :: timestamp
  wl_expires_at :: timestamp
  wl_renewal_deadline :: timestamp
  wl_routing_request_id :: request_id
  wl_issuer_cthulhu_id :: cthulhu_id
  wl_issuer_tentacle_id :: tentacle_id
  wl_status :: wire_lease_status

definition validate_wire_lease :: "wire_lease \<Rightarrow> unit validated" where
  "validate_wire_lease l = run_checks
    [validate_wire_user (wl_user_reference l),
     validate_incarnation (wl_incarnation l),
     require (\<not> (wl_generation l = 0
                \<or> wl_expires_at l \<le> wl_issued_at l
                \<or> i64_saturating (wl_expires_at l - wl_issued_at l) > MAX_WIRE_LEASE_LIFETIME_SECONDS
                \<or> wl_renewal_deadline l \<le> wl_issued_at l
                \<or> wl_renewal_deadline l > wl_expires_at l))
       ''lease'' VK_OutOfRange]"

record lease_grant =
  lg_lease :: wire_lease

record lease_renew =
  lr_lease_id :: lease_id
  lr_generation :: nat
  lr_renewing_cthulhu_id :: cthulhu_id
  lr_renewing_tentacle_id :: tentacle_id
  lr_incarnation :: incarnation
  lr_expires_at :: timestamp
  lr_renewal_deadline :: timestamp

record lease_release =
  ll_lease_id :: lease_id
  ll_generation :: nat
  ll_releasing_cthulhu_id :: cthulhu_id
  ll_releasing_tentacle_id :: tentacle_id
  ll_incarnation :: incarnation

record lease_revoke =
  lv_lease_id :: lease_id
  lv_generation :: nat
  lv_issuer_cthulhu_id :: cthulhu_id
  lv_reason :: string

record lease_expired =
  le_lease_id :: lease_id
  le_generation :: nat
  le_issuer_cthulhu_id :: cthulhu_id
  le_expired_at :: timestamp

subsection \<open>Governance payloads\<close>

datatype wire_document_kind = DK_Constitution | DK_Agenda | DK_Strategy | DK_Action

datatype bounded_action =
    BA_CapabilityRefresh "cthulhu_id option"
  | BA_ProtocolSelfTest "tentacle_id option"
  | BA_LocalResourceSummary cthulhu_id
  | BA_RoutingScenarioEvaluation content_hash

record wire_document =
  gd_kind :: wire_document_kind
  gd_version :: nat
  gd_hash :: content_hash
  gd_parent_hash :: "content_hash option"
  gd_title :: string
  gd_summary :: string
  gd_action :: "bounded_action option"

definition validate_wire_document :: "wire_document \<Rightarrow> unit validated" where
  "validate_wire_document d = run_checks
    [require (gd_version d \<noteq> 0) ''governance.document.version'' VK_OutOfRange,
     bounded_text ''governance.document.title'' (gd_title d) 160,
     bounded_text ''governance.document.summary'' (gd_summary d) 2048,
     require (\<not> (gd_kind d = DK_Action) \<noteq> (gd_action d \<noteq> None))
       ''governance.document.action'' VK_InvalidFormat,
     require (\<not> (gd_version d > 1 \<and> gd_parent_hash d = None))
       ''governance.document.parentHash'' VK_Empty]"

record governance_proposal =
  gp_proposal_id :: proposal_id
  gp_proposer_cthulhu_id :: cthulhu_id
  gp_document :: wire_document
  gp_deadline :: timestamp
  gp_quorum_basis_points :: nat
  gp_approval_basis_points :: nat

datatype argument_position = AP_Support | AP_Oppose | AP_Amend

record governance_argument =
  ga_proposal_id :: proposal_id
  ga_author_cthulhu_id :: cthulhu_id
  ga_position :: argument_position
  ga_summary :: string
  ga_evidence_hashes :: "content_hash list"
  ga_suggested_amendment_hash :: "content_hash option"

datatype wire_vote_choice = WV_Yes | WV_No | WV_Abstain

record governance_vote =
  gv_proposal_id :: proposal_id
  gv_voter_cthulhu_id :: cthulhu_id
  gv_choice :: wire_vote_choice
  gv_cast_at :: timestamp
  gv_replacement_sequence :: nat

record governance_ratified =
  gr_proposal_id :: proposal_id
  gr_document_hash :: content_hash
  gr_issuer_cthulhu_id :: cthulhu_id
  gr_ratified_at :: timestamp
  gr_yes_votes :: nat
  gr_no_votes :: nat
  gr_abstentions :: nat

datatype proposal_rejection_reason =
    PR_VoteFailed | PR_QuorumNotMet | PR_Expired | PR_CompetingParent | PR_InvalidProposal

record governance_rejected =
  gj_proposal_id :: proposal_id
  gj_document_hash :: content_hash
  gj_issuer_cthulhu_id :: cthulhu_id
  gj_rejected_at :: timestamp
  gj_reason :: proposal_rejection_reason

subsection \<open>Propagation items\<close>

datatype propagation_content_kind =
    CK_CouncilInvitation | CK_AgendaSummary | CK_ApprovedStrategy | CK_CapabilityRequest
  | CK_ResourceNeed | CK_ResourceOffer | CK_ProtocolUpgrade | CK_BoundedCampaign

datatype campaign_visibility = VIS_InvitedOnly | VIS_Council | VIS_Public

record propagation_policy =
  pc_policy_version :: protocol_version
  pc_maximum_depth :: nat
  pc_maximum_fan_out :: nat
  pc_visibility :: campaign_visibility

definition validate_policy :: "propagation_policy \<Rightarrow> unit validated" where
  "validate_policy p = run_checks
    [require_supported (pc_policy_version p),
     require (\<not> (pc_maximum_depth p = 0 \<or> pc_maximum_depth p > MAX_PROVENANCE_DEPTH
                \<or> pc_maximum_fan_out p = 0 \<or> pc_maximum_fan_out p > 64))
       ''propagation.policy'' VK_OutOfRange]"

record provenance_hop =
  ph_sender_cthulhu_id :: cthulhu_id
  ph_sender_tentacle_id :: tentacle_id
  ph_recipient_cthulhu_id :: cthulhu_id
  ph_message_id :: message_id
  ph_forwarded_at :: timestamp
  ph_payload_hash :: content_hash

record propagation_item =
  pi_propagation_id :: propagation_id
  pi_content_kind :: propagation_content_kind
  pi_payload_hash :: content_hash
  pi_origin_cthulhu_id :: cthulhu_id
  pi_parent_propagation_id :: "propagation_id option"
  pi_depth :: nat
  pi_path :: "cthulhu_id list"
  pi_provenance :: "provenance_hop list"
  pi_chain_hash :: content_hash
  pi_created_at :: timestamp
  pi_expires_at :: timestamp
  pi_policy :: propagation_policy

record hash_material =
  hm_domain :: string
  hm_propagation_id :: propagation_id
  hm_content_kind :: propagation_content_kind
  hm_payload_hash :: content_hash
  hm_origin_cthulhu_id :: cthulhu_id
  hm_parent_propagation_id :: "propagation_id option"
  hm_depth :: nat
  hm_path :: "cthulhu_id list"
  hm_provenance :: "provenance_hop list"
  hm_created_at :: timestamp
  hm_expires_at :: timestamp
  hm_policy :: propagation_policy

definition hash_material_of :: "propagation_item \<Rightarrow> hash_material" where
  "hash_material_of i =
     \<lparr>hm_domain = PROVENANCE_HASH_DOMAIN, hm_propagation_id = pi_propagation_id i,
      hm_content_kind = pi_content_kind i, hm_payload_hash = pi_payload_hash i,
      hm_origin_cthulhu_id = pi_origin_cthulhu_id i,
      hm_parent_propagation_id = pi_parent_propagation_id i, hm_depth = pi_depth i,
      hm_path = pi_path i, hm_provenance = pi_provenance i, hm_created_at = pi_created_at i,
      hm_expires_at = pi_expires_at i, hm_policy = pi_policy i\<rparr>"

definition calculated_chain_hash ::
  "(hash_material \<Rightarrow> string) \<Rightarrow> propagation_item \<Rightarrow> content_hash validated" where
  "calculated_chain_hash digest i = ContentHash_new (''sha256:'' @ digest (hash_material_of i))"

definition recompute_chain_hash ::
  "(hash_material \<Rightarrow> string) \<Rightarrow> propagation_item \<Rightarrow> propagation_item validated" where
  "recompute_chain_hash digest i =
     and_then (calculated_chain_hash digest i) (\<lambda>h. Inr (i\<lparr>pi_chain_hash := h\<rparr>))"

text \<open>The loop over the hops with its index, the previous time and the message IDs seen.\<close>

fun hop_loop ::
  "propagation_item \<Rightarrow> nat \<Rightarrow> timestamp option \<Rightarrow> message_id bset \<Rightarrow> provenance_hop list
   \<Rightarrow> unit validated" where
  "hop_loop i index previous seen [] = Inr ()"
| "hop_loop i index previous seen (hop # hops) =
     (if ph_sender_cthulhu_id hop \<noteq> pi_path i ! index
         \<or> ph_recipient_cthulhu_id hop \<noteq> pi_path i ! (index + 1)
         \<or> ph_sender_cthulhu_id hop = ph_recipient_cthulhu_id hop
         \<or> ph_payload_hash hop \<noteq> pi_payload_hash i
         \<or> ph_forwarded_at hop < pi_created_at i
         \<or> ph_forwarded_at hop \<ge> pi_expires_at i
         \<or> (case previous of None \<Rightarrow> False | Some p \<Rightarrow> ph_forwarded_at hop < p)
         \<or> bs_member seen (ph_message_id hop)
      then fail_with ''propagation.provenance'' VK_InvalidFormat
      else hop_loop i (index + 1) (Some (ph_forwarded_at hop))
             (bs_insert (ph_message_id hop) seen) hops)"

definition item_shape_ok :: "propagation_item \<Rightarrow> bool" where
  "item_shape_ok i \<longleftrightarrow>
     \<not> (pi_expires_at i \<le> pi_created_at i
        \<or> i64_saturating (pi_expires_at i - pi_created_at i) > MAX_PROPAGATION_LIFETIME_SECONDS
        \<or> pi_path i = []
        \<or> (case pi_path i of [] \<Rightarrow> None | p # ps \<Rightarrow> Some p) \<noteq> Some (pi_origin_cthulhu_id i)
        \<or> pi_depth i + 1 \<noteq> length (pi_path i)
        \<or> pi_depth i > pc_maximum_depth (pi_policy i)
        \<or> length (pi_provenance i) \<noteq> pi_depth i
        \<or> (pi_depth i = 0) \<noteq> (pi_parent_propagation_id i = None))"

definition validate_item :: "(hash_material \<Rightarrow> string) \<Rightarrow> propagation_item \<Rightarrow> unit validated" where
  "validate_item digest i = run_checks
    [validate_policy (pi_policy i),
     require (item_shape_ok i) ''propagation.item'' VK_InvalidFormat,
     bounded_count ''propagation.path'' (length (pi_path i)) (MAX_PROVENANCE_DEPTH + 1),
     bounded_count ''propagation.provenance'' (length (pi_provenance i)) MAX_PROVENANCE_DEPTH,
     require (bs_len (bs_of_list (pi_path i)) = length (pi_path i)) ''propagation.path''
       VK_InvalidFormat,
     hop_loop i 0 None bs_empty (pi_provenance i),
     and_then (calculated_chain_hash digest i) (\<lambda>h.
       require (h = pi_chain_hash i) ''propagation.chainHash'' VK_InvalidFormat)]"

subsection \<open>Propagation payloads\<close>

record propagation_invite =
  pv_invitation_id :: invitation_id
  pv_item :: propagation_item
  pv_inviter_cthulhu_id :: cthulhu_id
  pv_invitee_cthulhu_id :: cthulhu_id

record propagation_accept =
  pa_invitation_id :: invitation_id
  pa_propagation_id :: propagation_id
  pa_invitee_cthulhu_id :: cthulhu_id
  pa_accepted_at :: timestamp

record propagation_reject =
  pj_invitation_id :: invitation_id
  pj_propagation_id :: propagation_id
  pj_invitee_cthulhu_id :: cthulhu_id
  pj_reason :: string

record propagation_announce =
  pn_item :: propagation_item

record propagation_forward =
  pf_item :: propagation_item
  pf_from_cthulhu_id :: cthulhu_id
  pf_to_cthulhu_id :: cthulhu_id

datatype acknowledgement_outcome =
  AO_Delivered | AO_Accepted | AO_CapabilityMatched | AO_ResourceMatched

record propagation_ack =
  pk_acknowledgement_id :: acknowledgement_id
  pk_propagation_id :: propagation_id
  pk_acknowledged_message_id :: message_id
  pk_acknowledging_cthulhu_id :: cthulhu_id
  pk_outcome :: acknowledgement_outcome
  pk_outcome_reference_hash :: content_hash
  pk_acknowledged_at :: timestamp

record propagation_revoke =
  px_propagation_id :: propagation_id
  px_revoker_cthulhu_id :: cthulhu_id
  px_revoked_at :: timestamp
  px_reason :: string

datatype council_payload =
    CP_CouncilMemberAnnounce council_member_announce
  | CP_CouncilMemberWithdraw council_member_withdraw
  | CP_TentacleAnnounce tentacle_announce
  | CP_TentacleCapabilities tentacle_capabilities
  | CP_TentacleHeartbeat tentacle_heartbeat
  | CP_TentacleDraining tentacle_draining
  | CP_TentacleWithdraw tentacle_withdraw
  | CP_RouteRequest route_request
  | CP_RouteOffer route_offer
  | CP_RouteReject route_reject
  | CP_RouteAward route_award
  | CP_LeaseGrant lease_grant
  | CP_LeaseRenew lease_renew
  | CP_LeaseRelease lease_release
  | CP_LeaseRevoke lease_revoke
  | CP_LeaseExpired lease_expired
  | CP_GovernanceProposal governance_proposal
  | CP_GovernanceArgument governance_argument
  | CP_GovernanceVote governance_vote
  | CP_GovernanceRatified governance_ratified
  | CP_GovernanceRejected governance_rejected
  | CP_PropagationInvite propagation_invite
  | CP_PropagationAccept propagation_accept
  | CP_PropagationReject propagation_reject
  | CP_PropagationAnnounce propagation_announce
  | CP_PropagationForward propagation_forward
  | CP_PropagationAck propagation_ack
  | CP_PropagationRevoke propagation_revoke

end
