(* ===== verification/Protocol_Payload.thy ===== *)
theory Protocol_Payload
  imports Protocol_Messages
begin

section \<open>Payload validation (cthuwu-protocol: messages.rs, CouncilPayload)\<close>

text \<open>
  The dispatch over the twenty-eight payloads: the message type of a payload, its validation
  at the receiver's time and the sender check.  The lemmas bound every time a valid payload
  carries and characterise a valid propagation item.
\<close>

fun message_type_of :: "council_payload \<Rightarrow> message_type" where
  "message_type_of (CP_CouncilMemberAnnounce v) = MT_CouncilMemberAnnounce"
| "message_type_of (CP_CouncilMemberWithdraw v) = MT_CouncilMemberWithdraw"
| "message_type_of (CP_TentacleAnnounce v) = MT_TentacleAnnounce"
| "message_type_of (CP_TentacleCapabilities v) = MT_TentacleCapabilities"
| "message_type_of (CP_TentacleHeartbeat v) = MT_TentacleHeartbeat"
| "message_type_of (CP_TentacleDraining v) = MT_TentacleDraining"
| "message_type_of (CP_TentacleWithdraw v) = MT_TentacleWithdraw"
| "message_type_of (CP_RouteRequest v) = MT_RouteRequest"
| "message_type_of (CP_RouteOffer v) = MT_RouteOffer"
| "message_type_of (CP_RouteReject v) = MT_RouteReject"
| "message_type_of (CP_RouteAward v) = MT_RouteAward"
| "message_type_of (CP_LeaseGrant v) = MT_LeaseGrant"
| "message_type_of (CP_LeaseRenew v) = MT_LeaseRenew"
| "message_type_of (CP_LeaseRelease v) = MT_LeaseRelease"
| "message_type_of (CP_LeaseRevoke v) = MT_LeaseRevoke"
| "message_type_of (CP_LeaseExpired v) = MT_LeaseExpired"
| "message_type_of (CP_GovernanceProposal v) = MT_GovernanceProposal"
| "message_type_of (CP_GovernanceArgument v) = MT_GovernanceArgument"
| "message_type_of (CP_GovernanceVote v) = MT_GovernanceVote"
| "message_type_of (CP_GovernanceRatified v) = MT_GovernanceRatified"
| "message_type_of (CP_GovernanceRejected v) = MT_GovernanceRejected"
| "message_type_of (CP_PropagationInvite v) = MT_PropagationInvite"
| "message_type_of (CP_PropagationAccept v) = MT_PropagationAccept"
| "message_type_of (CP_PropagationReject v) = MT_PropagationReject"
| "message_type_of (CP_PropagationAnnounce v) = MT_PropagationAnnounce"
| "message_type_of (CP_PropagationForward v) = MT_PropagationForward"
| "message_type_of (CP_PropagationAck v) = MT_PropagationAck"
| "message_type_of (CP_PropagationRevoke v) = MT_PropagationRevoke"

subsection \<open>Windows and tallies\<close>

definition nonzero_generation :: "string \<Rightarrow> nat \<Rightarrow> unit validated" where
  "nonzero_generation field generation =
     (if generation = 0 then fail_with field VK_OutOfRange else Inr ())"

definition validate_not_far_future :: "string \<Rightarrow> timestamp \<Rightarrow> timestamp \<Rightarrow> unit validated" where
  "validate_not_far_future field value now =
     (if value > i64_saturating (now + MAX_FUTURE_CLOCK_SKEW_SECONDS)
      then fail_with field VK_OutOfRange else Inr ())"

definition validate_window ::
  "string \<Rightarrow> timestamp \<Rightarrow> timestamp \<Rightarrow> timestamp \<Rightarrow> int \<Rightarrow> unit validated" where
  "validate_window field starts ends now maximum = run_checks
     [require (\<not> ends \<le> starts) field VK_OutOfRange,
      require (\<not> ends \<le> now) field VK_Expired,
      validate_not_far_future field starts now,
      require (\<not> i64_saturating (ends - starts) > maximum) field VK_OutOfRange]"

definition validate_vote_tally ::
  "timestamp \<Rightarrow> nat \<Rightarrow> nat \<Rightarrow> nat \<Rightarrow> timestamp \<Rightarrow> unit validated" where
  "validate_vote_tally decided_at yes no abstain now =
     (if decided_at > now
         \<or> saturating_add u32_max (saturating_add u32_max yes no) abstain = 0
      then fail_with ''governance.voteTally'' VK_OutOfRange else Inr ())"

subsection \<open>Validation of a payload\<close>

fun validate_payload ::
  "(hash_material \<Rightarrow> string) \<Rightarrow> council_payload \<Rightarrow> timestamp \<Rightarrow> unit validated" where
  "validate_payload digest (CP_CouncilMemberAnnounce v) now = validate_identity (ma_member v)"
| "validate_payload digest (CP_CouncilMemberWithdraw v) now =
     bounded_optional_text ''council.member.withdraw.reason'' (mw_reason v) 256"
| "validate_payload digest (CP_TentacleAnnounce v) now = run_checks
     [validate_tentacle (ta_tentacle v),
      validate_not_far_future ''tentacle.announce.lastHeartbeat''
        (tn_last_heartbeat (ta_tentacle v)) now]"
| "validate_payload digest (CP_TentacleCapabilities v) now = run_checks
     [validate_incarnation (tc_incarnation v),
      validate_manifest (tc_capabilities v),
      validate_not_far_future ''tentacle.capabilities.observedAt'' (tc_observed_at v) now]"
| "validate_payload digest (CP_TentacleHeartbeat v) now = run_checks
     [validate_update (hb_update v),
      validate_not_far_future ''tentacle.heartbeat.lastHeartbeat''
        (tu_last_heartbeat (hb_update v)) now]"
| "validate_payload digest (CP_TentacleDraining v) now = run_checks
     [validate_incarnation (td_incarnation v),
      validate_not_far_future ''tentacle.draining.effectiveAt'' (td_effective_at v) now]"
| "validate_payload digest (CP_TentacleWithdraw v) now = run_checks
     [validate_incarnation (tw_incarnation v),
      bounded_optional_text ''tentacle.withdraw.reason'' (tw_reason v) 256]"
| "validate_payload digest (CP_RouteRequest v) now = run_checks
     [validate_wire_user (qr_user_reference v),
      validate_requirements (qr_requirements v),
      validate_window ''route.request'' (qr_issued_at v) (qr_expires_at v) now
        MAX_ROUTE_WINDOW_SECONDS]"
| "validate_payload digest (CP_RouteOffer v) now = run_checks
     [validate_incarnation (qo_incarnation v),
      require (\<not> (qo_current_load_per_mille v > 1000
                 \<or> qo_valid_until v \<le> now
                 \<or> qo_valid_until v > i64_saturating (now + MAX_ROUTE_WINDOW_SECONDS)))
        ''route.offer'' VK_Expired]"
| "validate_payload digest (CP_RouteReject v) now = Inr ()"
| "validate_payload digest (CP_RouteAward v) now = run_checks
     [validate_incarnation (qa_incarnation v),
      nonzero_generation ''route.award.generation'' (qa_generation v)]"
| "validate_payload digest (CP_LeaseGrant v) now = run_checks
     [validate_wire_lease (lg_lease v),
      require (wl_status (lg_lease v) = WL_Granted) ''lease.grant.status'' VK_InvalidFormat,
      validate_window ''lease.grant'' (wl_issued_at (lg_lease v)) (wl_expires_at (lg_lease v)) now
        MAX_WIRE_LEASE_LIFETIME_SECONDS]"
| "validate_payload digest (CP_LeaseRenew v) now = run_checks
     [validate_incarnation (lr_incarnation v),
      nonzero_generation ''lease.renew.generation'' (lr_generation v),
      require (\<not> (lr_expires_at v \<le> now
                 \<or> lr_renewal_deadline v \<le> now
                 \<or> lr_renewal_deadline v > lr_expires_at v
                 \<or> lr_expires_at v > i64_saturating (now + MAX_WIRE_LEASE_LIFETIME_SECONDS)))
        ''lease.renew'' VK_Expired]"
| "validate_payload digest (CP_LeaseRelease v) now = run_checks
     [validate_incarnation (ll_incarnation v),
      nonzero_generation ''lease.release.generation'' (ll_generation v)]"
| "validate_payload digest (CP_LeaseRevoke v) now = run_checks
     [nonzero_generation ''lease.revoke.generation'' (lv_generation v),
      bounded_text ''lease.revoke.reason'' (lv_reason v) 256]"
| "validate_payload digest (CP_LeaseExpired v) now = run_checks
     [nonzero_generation ''lease.expired.generation'' (le_generation v),
      require (\<not> le_expired_at v > now) ''lease.expired.expiredAt'' VK_OutOfRange]"
| "validate_payload digest (CP_GovernanceProposal v) now = run_checks
     [validate_wire_document (gp_document v),
      require (\<not> (gp_deadline v \<le> now
                 \<or> gp_deadline v > i64_saturating (now + MAX_GOVERNANCE_LIFETIME_SECONDS)
                 \<or> \<not> (1 \<le> gp_quorum_basis_points v \<and> gp_quorum_basis_points v \<le> 10000)
                 \<or> \<not> (1 \<le> gp_approval_basis_points v \<and> gp_approval_basis_points v \<le> 10000)))
        ''governance.proposal'' VK_OutOfRange]"
| "validate_payload digest (CP_GovernanceArgument v) now = run_checks
     [bounded_text ''governance.argument.summary'' (ga_summary v) 2048,
      bounded_count ''governance.argument.evidenceHashes'' (length (ga_evidence_hashes v))
        MAX_ARGUMENT_HASHES]"
| "validate_payload digest (CP_GovernanceVote v) now =
     require (\<not> gv_cast_at v > now) ''governance.vote.castAt'' VK_OutOfRange"
| "validate_payload digest (CP_GovernanceRatified v) now =
     validate_vote_tally (gr_ratified_at v) (gr_yes_votes v) (gr_no_votes v) (gr_abstentions v) now"
| "validate_payload digest (CP_GovernanceRejected v) now =
     require (\<not> gj_rejected_at v > now) ''governance.rejected.rejectedAt'' VK_OutOfRange"
| "validate_payload digest (CP_PropagationInvite v) now = run_checks
     [validate_item digest (pv_item v),
      validate_window ''propagation.invite.item'' (pi_created_at (pv_item v))
        (pi_expires_at (pv_item v)) now MAX_PROPAGATION_LIFETIME_SECONDS,
      require (\<not> (pv_inviter_cthulhu_id v = pv_invitee_cthulhu_id v
                 \<or> pi_expires_at (pv_item v) \<le> now))
        ''propagation.invite'' VK_InvalidFormat]"
| "validate_payload digest (CP_PropagationAccept v) now =
     require (\<not> pa_accepted_at v > now) ''propagation.accept.acceptedAt'' VK_OutOfRange"
| "validate_payload digest (CP_PropagationReject v) now =
     bounded_text ''propagation.reject.reason'' (pj_reason v) 256"
| "validate_payload digest (CP_PropagationAnnounce v) now = run_checks
     [validate_item digest (pn_item v),
      validate_window ''propagation.announce.item'' (pi_created_at (pn_item v))
        (pi_expires_at (pn_item v)) now MAX_PROPAGATION_LIFETIME_SECONDS,
      require (\<not> pi_expires_at (pn_item v) \<le> now) ''propagation.announce'' VK_Expired]"
| "validate_payload digest (CP_PropagationForward v) now = run_checks
     [validate_item digest (pf_item v),
      validate_window ''propagation.forward.item'' (pi_created_at (pf_item v))
        (pi_expires_at (pf_item v)) now MAX_PROPAGATION_LIFETIME_SECONDS,
      require (\<not> (pf_from_cthulhu_id v = pf_to_cthulhu_id v
                 \<or> (pi_path (pf_item v) = []
                    \<or> last (pi_path (pf_item v)) \<noteq> pf_from_cthulhu_id v)
                 \<or> pf_to_cthulhu_id v \<in> set (pi_path (pf_item v))
                 \<or> pi_expires_at (pf_item v) \<le> now))
        ''propagation.forward'' VK_InvalidFormat]"
| "validate_payload digest (CP_PropagationAck v) now =
     require (\<not> pk_acknowledged_at v > now) ''propagation.ack.acknowledgedAt'' VK_OutOfRange"
| "validate_payload digest (CP_PropagationRevoke v) now = run_checks
     [bounded_text ''propagation.revoke.reason'' (px_reason v) 256,
      require (\<not> px_revoked_at v > now) ''propagation.revoke.revokedAt'' VK_OutOfRange]"

subsection \<open>The sender a payload is bound to\<close>

fun sender_matches :: "council_payload \<Rightarrow> cthulhu_id \<Rightarrow> tentacle_id \<Rightarrow> bool" where
  "sender_matches (CP_CouncilMemberAnnounce v) c t \<longleftrightarrow>
     ci_id (ma_member v) = c \<and> t \<in> set (ci_tentacles (ma_member v))"
| "sender_matches (CP_CouncilMemberWithdraw v) c t \<longleftrightarrow> mw_cthulhu_id v = c"
| "sender_matches (CP_TentacleAnnounce v) c t \<longleftrightarrow>
     tn_owner (ta_tentacle v) = c \<and> tn_id (ta_tentacle v) = t"
| "sender_matches (CP_TentacleCapabilities v) c t \<longleftrightarrow> tc_owner v = c \<and> tc_tentacle_id v = t"
| "sender_matches (CP_TentacleHeartbeat v) c t \<longleftrightarrow>
     tu_owner (hb_update v) = c \<and> tu_tentacle_id (hb_update v) = t"
| "sender_matches (CP_TentacleDraining v) c t \<longleftrightarrow> td_owner v = c \<and> td_tentacle_id v = t"
| "sender_matches (CP_TentacleWithdraw v) c t \<longleftrightarrow> tw_owner v = c \<and> tw_tentacle_id v = t"
| "sender_matches (CP_RouteRequest v) c t \<longleftrightarrow>
     qr_requester_cthulhu_id v = c \<and> qr_requester_tentacle_id v = t"
| "sender_matches (CP_RouteOffer v) c t \<longleftrightarrow>
     qo_offering_cthulhu_id v = c \<and> qo_offering_tentacle_id v = t"
| "sender_matches (CP_RouteReject v) c t \<longleftrightarrow>
     qj_rejecting_cthulhu_id v = c \<and> qj_rejecting_tentacle_id v = t"
| "sender_matches (CP_RouteAward v) c t \<longleftrightarrow>
     qa_issuer_cthulhu_id v = c \<and> qa_issuer_tentacle_id v = t"
| "sender_matches (CP_LeaseGrant v) c t \<longleftrightarrow>
     wl_issuer_cthulhu_id (lg_lease v) = c \<and> wl_issuer_tentacle_id (lg_lease v) = t"
| "sender_matches (CP_LeaseRenew v) c t \<longleftrightarrow>
     lr_renewing_cthulhu_id v = c \<and> lr_renewing_tentacle_id v = t"
| "sender_matches (CP_LeaseRelease v) c t \<longleftrightarrow>
     ll_releasing_cthulhu_id v = c \<and> ll_releasing_tentacle_id v = t"
| "sender_matches (CP_LeaseRevoke v) c t \<longleftrightarrow> lv_issuer_cthulhu_id v = c"
| "sender_matches (CP_LeaseExpired v) c t \<longleftrightarrow> le_issuer_cthulhu_id v = c"
| "sender_matches (CP_GovernanceProposal v) c t \<longleftrightarrow> gp_proposer_cthulhu_id v = c"
| "sender_matches (CP_GovernanceArgument v) c t \<longleftrightarrow> ga_author_cthulhu_id v = c"
| "sender_matches (CP_GovernanceVote v) c t \<longleftrightarrow> gv_voter_cthulhu_id v = c"
| "sender_matches (CP_GovernanceRatified v) c t \<longleftrightarrow> gr_issuer_cthulhu_id v = c"
| "sender_matches (CP_GovernanceRejected v) c t \<longleftrightarrow> gj_issuer_cthulhu_id v = c"
| "sender_matches (CP_PropagationInvite v) c t \<longleftrightarrow> pv_inviter_cthulhu_id v = c"
| "sender_matches (CP_PropagationAccept v) c t \<longleftrightarrow> pa_invitee_cthulhu_id v = c"
| "sender_matches (CP_PropagationReject v) c t \<longleftrightarrow> pj_invitee_cthulhu_id v = c"
| "sender_matches (CP_PropagationAnnounce v) c t \<longleftrightarrow>
     pi_path (pn_item v) \<noteq> [] \<and> last (pi_path (pn_item v)) = c"
| "sender_matches (CP_PropagationForward v) c t \<longleftrightarrow> pf_from_cthulhu_id v = c"
| "sender_matches (CP_PropagationAck v) c t \<longleftrightarrow> pk_acknowledging_cthulhu_id v = c"
| "sender_matches (CP_PropagationRevoke v) c t \<longleftrightarrow> px_revoker_cthulhu_id v = c"

definition validate_sender :: "council_payload \<Rightarrow> cthulhu_id \<Rightarrow> tentacle_id \<Rightarrow> unit validated" where
  "validate_sender p c t = require (sender_matches p c t) ''sender'' VK_SenderMismatch"

subsection \<open>Lemmas\<close>

lemma validate_not_far_future_ok [simp, check_simps]:
  "validate_not_far_future f v now = Inr u \<longleftrightarrow> v \<le> i64_saturating (now + MAX_FUTURE_CLOCK_SKEW_SECONDS)"
  by (auto simp: validate_not_far_future_def)

lemma nonzero_generation_ok [simp, check_simps]: "nonzero_generation f g = Inr u \<longleftrightarrow> 0 < g"
  by (auto simp: nonzero_generation_def)

lemma validate_window_ok [simp, check_simps]:
  "validate_window f a b now m = Inr u \<longleftrightarrow>
     a < b \<and> now < b \<and> a \<le> i64_saturating (now + MAX_FUTURE_CLOCK_SKEW_SECONDS)
     \<and> i64_saturating (b - a) \<le> m"
  by (auto simp: validate_window_def run_checks.simps(1))

lemma validate_vote_tally_ok [simp, check_simps]:
  "validate_vote_tally d y n a now = Inr u \<longleftrightarrow> d \<le> now \<and> 0 < y + n + a"
  by (auto simp: validate_vote_tally_def saturating_add_def u32_max_def)

lemma message_type_str_inject: "message_type_str m = message_type_str m' \<Longrightarrow> m = m'"
  by (cases m; cases m') simp_all

text \<open>
  What the index-driven loop over the provenance establishes, said without the loop.
\<close>

definition hops_follow_path :: "propagation_item \<Rightarrow> bool" where
  "hops_follow_path i \<longleftrightarrow>
     (\<forall>n < length (pi_provenance i).
        let h = pi_provenance i ! n in
        ph_sender_cthulhu_id h = pi_path i ! n \<and> ph_recipient_cthulhu_id h = pi_path i ! Suc n
        \<and> ph_sender_cthulhu_id h \<noteq> ph_recipient_cthulhu_id h
        \<and> ph_payload_hash h = pi_payload_hash i
        \<and> pi_created_at i \<le> ph_forwarded_at h \<and> ph_forwarded_at h < pi_expires_at i)
     \<and> sorted (map ph_forwarded_at (pi_provenance i))
     \<and> distinct (map ph_message_id (pi_provenance i))"

lemma hop_loop_ok:
  "hop_loop i k prev seen hs = Inr () \<longleftrightarrow>
     (\<forall>n < length hs.
        let h = hs ! n in
        ph_sender_cthulhu_id h = pi_path i ! (k + n) \<and> ph_recipient_cthulhu_id h = pi_path i ! Suc (k + n)
        \<and> ph_sender_cthulhu_id h \<noteq> ph_recipient_cthulhu_id h
        \<and> ph_payload_hash h = pi_payload_hash i
        \<and> pi_created_at i \<le> ph_forwarded_at h \<and> ph_forwarded_at h < pi_expires_at i)
     \<and> sorted (map ph_forwarded_at hs)
     \<and> (\<forall>p h. prev = Some p \<longrightarrow> h \<in> set hs \<longrightarrow> p \<le> ph_forwarded_at h)
     \<and> distinct (map ph_message_id hs) \<and> (\<forall>h\<in>set hs. \<not> bs_member seen (ph_message_id h))"
proof (induction hs arbitrary: k prev seen)
  case (Cons h hs)
  have all_Suc: "(\<forall>n < length (h # hs). P n) \<longleftrightarrow> P 0 \<and> (\<forall>n < length hs. P (Suc n))" for P
    by (auto simp: less_Suc_eq_0_disj)
  show ?case
    unfolding all_Suc
    by (cases prev) (auto simp: Cons.IH Let_def intro: order_trans, (metis imageI)+)
qed simp

lemma hop_loop_follows: "hop_loop i 0 None bs_empty (pi_provenance i) = Inr () \<longleftrightarrow> hops_follow_path i"
  by (simp add: hop_loop_ok hops_follow_path_def)

subsection \<open>Properties\<close>

text \<open>
  A propagation item is valid exactly when its policy is, its lifetime, depth and path agree,
  the path starts at the origin and visits nobody twice, and its provenance is one hop per path
  edge, each naming the edge's two ends, the item's payload hash and a time inside the item's
  lifetime, in time order with distinct message IDs, and its chain hash is the one computed from
  everything else.
\<close>

theorem propagation_item_validation:
  "validate_item digest i = Inr () \<longleftrightarrow>
     validate_policy (pi_policy i) = Inr ()
     \<and> pi_created_at i < pi_expires_at i
     \<and> i64_saturating (pi_expires_at i - pi_created_at i) \<le> 30 * 24 * 60 * 60
     \<and> length (pi_path i) = pi_depth i + 1 \<and> hd (pi_path i) = pi_origin_cthulhu_id i
     \<and> length (pi_provenance i) = pi_depth i \<and> pi_depth i \<le> pc_maximum_depth (pi_policy i)
     \<and> (pi_parent_propagation_id i = None \<longleftrightarrow> pi_depth i = 0)
     \<and> distinct (pi_path i) \<and> hops_follow_path i
     \<and> calculated_chain_hash digest i = Inr (pi_chain_hash i)"
  (is "?valid \<longleftrightarrow> ?spec")
proof -
  have hash: "and_then (calculated_chain_hash digest i) (\<lambda>h. require (h = pi_chain_hash i) f k) = Inr ()
    \<longleftrightarrow> calculated_chain_hash digest i = Inr (pi_chain_hash i)" for f k
    by (cases "calculated_chain_hash digest i") auto
  have shape: "item_shape_ok i \<longleftrightarrow> pi_created_at i < pi_expires_at i
     \<and> i64_saturating (pi_expires_at i - pi_created_at i) \<le> 30 * 24 * 60 * 60
     \<and> length (pi_path i) = pi_depth i + 1 \<and> hd (pi_path i) = pi_origin_cthulhu_id i
     \<and> length (pi_provenance i) = pi_depth i \<and> pi_depth i \<le> pc_maximum_depth (pi_policy i)
     \<and> (pi_parent_propagation_id i = None \<longleftrightarrow> pi_depth i = 0)"
    by (cases "pi_path i") (auto simp: item_shape_ok_def MAX_PROPAGATION_LIFETIME_SECONDS_def)
  have depth: "validate_policy (pi_policy i) = Inr () \<Longrightarrow> pc_maximum_depth (pi_policy i) \<le> 32"
    by (simp add: validate_policy_def run_checks.simps(1) MAX_PROVENANCE_DEPTH_def)
  have "?valid \<longleftrightarrow> validate_policy (pi_policy i) = Inr () \<and> item_shape_ok i
     \<and> length (pi_path i) \<le> MAX_PROVENANCE_DEPTH + 1 \<and> length (pi_provenance i) \<le> MAX_PROVENANCE_DEPTH
     \<and> distinct (pi_path i) \<and> hops_follow_path i
     \<and> calculated_chain_hash digest i = Inr (pi_chain_hash i)"
    by (simp add: validate_item_def run_checks.simps(1) hash hop_loop_follows bs_len_of_list_distinct)
  then show ?thesis
    unfolding shape using depth by (auto simp: MAX_PROVENANCE_DEPTH_def)
qed

end
