(* ===== verification/Protocol_Signing.thy ===== *)
theory Protocol_Signing
  imports Protocol_Payload "HOL-Library.Word"
begin

unbundle bit_operations_syntax

section \<open>Signatures (cthuwu-protocol: signing.rs)\<close>

text \<open>
  The signature value and its validation, the two traits \<open>CouncilSigner\<close> and
  \<open>CouncilVerifier\<close> as the locale \<open>council_signing\<close>, and the deterministic FNV-1a signer of
  the repository's tests and simulator, which interprets it.  FNV-1a is kept at its width:
  64-bit words with wrapping multiplication.
\<close>

record signature =
  sg_algorithm :: string
  sg_key_id :: string
  sg_value :: string

definition validate_signature :: "signature \<Rightarrow> unit validated" where
  "validate_signature s = run_checks
    [validate_slug ''signature.algorithm'' (sg_algorithm s) 48,
     bounded_text ''signature.keyId'' (sg_key_id s) 128,
     bounded_text ''signature.value'' (sg_value s) 1024,
     require (\<not> (\<not> is_ascii (sg_key_id s) \<or> \<not> is_ascii (sg_value s)
                \<or> has_whitespace (sg_key_id s) \<or> has_whitespace (sg_value s)))
       ''signature'' VK_InvalidFormat]"

text \<open>A \<open>SignatureError\<close> is its message.\<close>

datatype signature_error = SignatureError string

subsection \<open>The traits\<close>

text \<open>
  What a caller of \<open>attach_signature\<close> and \<open>verify_signature\<close> relies on: a signer's own
  signatures verify under its identity, and nothing else does.
\<close>

locale council_signing =
  fixes signer :: cthulhu_id
    and sign :: "string \<Rightarrow> (signature_error, signature) result"
    and verify :: "cthulhu_id \<Rightarrow> string \<Rightarrow> signature \<Rightarrow> (signature_error, unit) result"
  assumes own_signatures_verify: "sign m = Inr s \<Longrightarrow> verify signer m s = Inr ()"
    and verified_are_own: "verify c m s = Inr () \<Longrightarrow> c = signer \<and> sign m = Inr s"
begin

lemma verify_iff: "verify c m s = Inr () \<longleftrightarrow> c = signer \<and> sign m = Inr s"
  using own_signatures_verify verified_are_own by auto

lemma verify_unique: "verify c m s = Inr () \<Longrightarrow> verify c' m s' = Inr () \<Longrightarrow> s = s' \<and> c = c'"
  by (auto simp: verify_iff)

end

subsection \<open>The deterministic test signer\<close>

record test_signer =
  ts_cthulhu_id :: cthulhu_id
  ts_key_id :: string
  ts_test_key :: string

definition fnv_offset :: "64 word" where "fnv_offset = 0xcbf29ce484222325"
definition fnv_prime :: "64 word" where "fnv_prime = 0x100000001b3"

definition fnv_step :: "char \<Rightarrow> 64 word \<Rightarrow> 64 word" where
  "fnv_step b v = (v XOR word_of_nat (byte b)) * fnv_prime"

definition fnv1a :: "string \<Rightarrow> 64 word" where
  "fnv1a bs = fold fnv_step bs fnv_offset"

definition hex_char :: "nat \<Rightarrow> char" where
  "hex_char d = (if d < 10 then char_of (48 + d) else char_of (87 + d))"

text \<open>\<open>format!("{value:016x}")\<close>\<close>

definition hex16 :: "64 word \<Rightarrow> string" where
  "hex16 w = map (\<lambda>i. hex_char (unat (drop_bit (4 * i) w AND 15))) (rev [0..<16])"

definition test_digest :: "test_signer \<Rightarrow> string \<Rightarrow> string" where
  "test_digest s message = hex16 (fnv1a (ts_test_key s @ message))"

definition test_sign :: "test_signer \<Rightarrow> string \<Rightarrow> (signature_error, signature) result" where
  "test_sign s canonical =
     Inr \<lparr>sg_algorithm = ''test-fnv1a64'', sg_key_id = ts_key_id s, sg_value = test_digest s canonical\<rparr>"

definition test_verify ::
  "test_signer \<Rightarrow> cthulhu_id \<Rightarrow> string \<Rightarrow> signature \<Rightarrow> (signature_error, unit) result" where
  "test_verify s sender canonical sg =
     (if sender \<noteq> ts_cthulhu_id s \<or> sg_algorithm sg \<noteq> ''test-fnv1a64''
         \<or> sg_key_id sg \<noteq> ts_key_id s \<or> sg_value sg \<noteq> test_digest s canonical
      then Inl (SignatureError ''deterministic test signature mismatch'')
      else Inr ())"

interpretation test_signing: council_signing "ts_cthulhu_id s" "test_sign s" "test_verify s"
  for s :: test_signer
  by unfold_locales (auto simp: test_sign_def test_verify_def split: if_splits)

lemma hex16_length [simp]: "length (hex16 w) = 16"
  by (simp add: hex16_def)

lemma hex16_nonempty [simp]: "hex16 w \<noteq> []"
  using hex16_length[of w] by fastforce

lemma hex_char_lower: "d < 16 \<Longrightarrow> 48 \<le> byte (hex_char d) \<and> byte (hex_char d) < 103"
  by (auto simp: hex_char_def byte_def)

lemma nibble_bound: "unat (w AND 15 :: 64 word) < 16"
proof -
  have "w AND 15 \<le> (15 :: 64 word)" by (rule word_and_le1)
  then show ?thesis by (simp add: word_le_nat_alt)
qed

lemma hex16_bytes: "c \<in> set (hex16 w) \<Longrightarrow> 48 \<le> byte c \<and> byte c < 103"
  using hex_char_lower nibble_bound by (auto simp: hex16_def)

lemma hex16_plain: "is_ascii (hex16 w)" "\<not> has_control (hex16 w)" "\<not> has_whitespace (hex16 w)"
proof -
  show a: "is_ascii (hex16 w)"
    unfolding is_ascii_def list_all_iff using hex16_bytes by force
  show "\<not> has_control (hex16 w)"
    unfolding has_control_ascii[OF a] list_ex_iff using hex16_bytes by force
  have "\<forall>c\<in>set (hex16 w). \<not> is_whitespace (byte c)"
    using hex16_bytes by (force simp: is_whitespace_def)
  then show "\<not> has_whitespace (hex16 w)"
    by (auto simp: has_whitespace_def utf8_chars_ascii[OF a] list_ex_iff)
qed

end
