(* ===== verification/Protocol_Envelope.thy ===== *)
theory Protocol_Envelope
  imports Protocol_Signing
begin

section \<open>Envelopes and replay protection (cthuwu-protocol: envelope.rs)\<close>

text \<open>
  The signed wire message, its validation at the receiver's time, JSON framing, signatures
  and the bounded replay guard.  serde's encoder and decoder are outside the repository:
  \<open>libs\<close> holds the encoder and the provenance digest, and decoding takes the JSON reader
  as an argument.
\<close>

record council_envelope =
  ev_protocol :: string
  ev_version :: protocol_version
  ev_message_id :: message_id
  ev_council_id :: council_id
  ev_sender_cthulhu_id :: cthulhu_id
  ev_sender_tentacle_id :: tentacle_id
  ev_sent_at :: timestamp
  ev_expires_at :: timestamp
  ev_sequence :: nat
  ev_payload :: council_payload
  ev_signature :: "signature option"

record libs =
  lib_digest :: "hash_material \<Rightarrow> string"
  lib_encode :: "council_envelope \<Rightarrow> string option"

definition new_envelope ::
  "message_id \<Rightarrow> council_id \<Rightarrow> cthulhu_id \<Rightarrow> tentacle_id \<Rightarrow> timestamp \<Rightarrow> timestamp \<Rightarrow> nat
   \<Rightarrow> council_payload \<Rightarrow> council_envelope" where
  "new_envelope m c sc st sent expires sequence payload =
     \<lparr>ev_protocol = COUNCIL_PROTOCOL_NAME, ev_version = V1_0, ev_message_id = m,
      ev_council_id = c, ev_sender_cthulhu_id = sc, ev_sender_tentacle_id = st,
      ev_sent_at = sent, ev_expires_at = expires, ev_sequence = sequence, ev_payload = payload,
      ev_signature = None\<rparr>"

definition envelope_message_type :: "council_envelope \<Rightarrow> message_type" where
  "envelope_message_type e = message_type_of (ev_payload e)"

subsection \<open>Validation\<close>

definition check_lifetime :: "council_envelope \<Rightarrow> unit validated" where
  "check_lifetime e =
     and_then (ok_or (ValidationError ''expiresAt'' VK_OutOfRange)
         (i64_checked (ev_expires_at e - ev_sent_at e))) (\<lambda>lifetime.
       require (\<not> (lifetime \<le> 0 \<or> lifetime > MAX_ENVELOPE_LIFETIME_SECONDS))
         ''expiresAt'' VK_OutOfRange)"

definition latest_sent_at :: "timestamp \<Rightarrow> timestamp" where
  "latest_sent_at now =
     (case i64_checked (now + MAX_FUTURE_CLOCK_SKEW_SECONDS) of None \<Rightarrow> i64_max | Some t \<Rightarrow> t)"

definition check_encoded_size :: "libs \<Rightarrow> council_envelope \<Rightarrow> unit validated" where
  "check_encoded_size L e =
     and_then (ok_or (ValidationError ''envelope'' VK_InvalidFormat) (lib_encode L e)) (\<lambda>bytes.
       require (\<not> length bytes > MAX_ENVELOPE_BYTES) ''envelope''
         (VK_TooLong MAX_ENVELOPE_BYTES (length bytes)))"

definition validate_envelope :: "libs \<Rightarrow> council_envelope \<Rightarrow> timestamp \<Rightarrow> unit validated" where
  "validate_envelope L e now = run_checks
    [require (ev_protocol e = COUNCIL_PROTOCOL_NAME) ''protocol'' VK_Unsupported,
     require_supported (ev_version e),
     require (ev_sequence e \<noteq> 0) ''sequence'' VK_OutOfRange,
     check_lifetime e,
     require (\<not> ev_expires_at e \<le> now) ''expiresAt'' VK_Expired,
     require (\<not> ev_sent_at e > latest_sent_at now) ''sentAt'' VK_OutOfRange,
     validate_payload (lib_digest L) (ev_payload e) now,
     validate_sender (ev_payload e) (ev_sender_cthulhu_id e) (ev_sender_tentacle_id e),
     (case ev_signature e of None \<Rightarrow> Inr () | Some s \<Rightarrow> validate_signature s),
     check_encoded_size L e]"

lemma latest_sent_at_saturates:
  "i64_min \<le> now \<Longrightarrow> latest_sent_at now = i64_saturating (now + MAX_FUTURE_CLOCK_SKEW_SECONDS)"
  by (auto simp: latest_sent_at_def i64_checked_def i64_saturating_def i64_min_def i64_max_def
      MAX_FUTURE_CLOCK_SKEW_SECONDS_def)

lemma check_lifetime_ok [simp, check_simps]:
  "check_lifetime e = Inr u \<longleftrightarrow>
     ev_sent_at e < ev_expires_at e
     \<and> ev_expires_at e - ev_sent_at e \<le> MAX_ENVELOPE_LIFETIME_SECONDS"
  by (auto simp: check_lifetime_def i64_checked_def i64_min_def i64_max_def
      MAX_ENVELOPE_LIFETIME_SECONDS_def)

lemma check_encoded_size_ok [simp, check_simps]:
  "check_encoded_size L e = Inr u \<longleftrightarrow>
     (\<exists>bytes. lib_encode L e = Some bytes \<and> length bytes \<le> MAX_ENVELOPE_BYTES)"
  by (cases "lib_encode L e") (auto simp: check_encoded_size_def)

lemma validate_envelope_ok [check_simps]:
  "validate_envelope L e now = Inr u \<longleftrightarrow>
     ev_protocol e = COUNCIL_PROTOCOL_NAME \<and> ev_version e = V1_0 \<and> 0 < ev_sequence e
     \<and> ev_sent_at e < ev_expires_at e
     \<and> ev_expires_at e - ev_sent_at e \<le> MAX_ENVELOPE_LIFETIME_SECONDS
     \<and> now < ev_expires_at e \<and> ev_sent_at e \<le> latest_sent_at now
     \<and> validate_payload (lib_digest L) (ev_payload e) now = Inr ()
     \<and> sender_matches (ev_payload e) (ev_sender_cthulhu_id e) (ev_sender_tentacle_id e)
     \<and> (\<forall>s. ev_signature e = Some s \<longrightarrow> validate_signature s = Inr ())
     \<and> check_encoded_size L e = Inr ()"
  by (cases "ev_signature e")
    (auto simp: validate_envelope_def validate_sender_def run_checks.simps(1)
      simp del: check_encoded_size_ok)

subsection \<open>JSON framing\<close>

datatype envelope_decode_error =
    DE_Oversized nat nat
  | DE_Json
  | DE_Validation validation_error

definition envelope_keys :: "string list" where
  "envelope_keys =
     [''protocol'', ''version'', ''messageId'', ''messageType'', ''councilId'',
      ''senderCthulhuId'', ''senderTentacleId'', ''sentAt'', ''expiresAt'', ''sequence'',
      ''payload'', ''signature'']"

text \<open>
  The JSON reader: parsing bytes to a value, the keys of an object, and the derived
  conversion of a value to an envelope.
\<close>

record 'j json_reader =
  jr_parse :: "string \<Rightarrow> 'j option"
  jr_object_keys :: "'j \<Rightarrow> string list option"
  jr_envelope :: "'j \<Rightarrow> council_envelope option"

definition deserialize_envelope :: "'j json_reader \<Rightarrow> 'j \<Rightarrow> council_envelope option" where
  "deserialize_envelope R v =
     (case jr_object_keys R v of
        None \<Rightarrow> None
      | Some keys \<Rightarrow>
          if length keys \<noteq> length envelope_keys \<or> list_ex (\<lambda>k. k \<notin> set keys) envelope_keys
          then None else jr_envelope R v)"

definition from_json_at ::
  "libs \<Rightarrow> 'j json_reader \<Rightarrow> string \<Rightarrow> timestamp \<Rightarrow> (envelope_decode_error, council_envelope) result" where
  "from_json_at L R bytes now =
     (if length bytes > MAX_ENVELOPE_BYTES
      then Inl (DE_Oversized MAX_ENVELOPE_BYTES (length bytes))
      else and_then (ok_or DE_Json (Option.bind (jr_parse R bytes) (deserialize_envelope R))) (\<lambda>e.
           and_then (map_err DE_Validation (validate_envelope L e now)) (\<lambda>_. Inr e)))"

definition to_json :: "libs \<Rightarrow> council_envelope \<Rightarrow> (envelope_decode_error, string) result" where
  "to_json L e =
     and_then (ok_or DE_Json (lib_encode L e)) (\<lambda>encoded.
       if length encoded > MAX_ENVELOPE_BYTES
       then Inl (DE_Oversized MAX_ENVELOPE_BYTES (length encoded))
       else Inr encoded)"

subsection \<open>Signatures\<close>

definition canonical_signing_bytes :: "libs \<Rightarrow> council_envelope \<Rightarrow> string option" where
  "canonical_signing_bytes L e = lib_encode L (e\<lparr>ev_signature := None\<rparr>)"

definition attach_signature ::
  "libs \<Rightarrow> cthulhu_id \<Rightarrow> (string \<Rightarrow> (signature_error, signature) result) \<Rightarrow> council_envelope
   \<Rightarrow> council_envelope validated" where
  "attach_signature L signer sign e =
     (if signer \<noteq> ev_sender_cthulhu_id e then fail_with ''signature.sender'' VK_SenderMismatch
      else and_then (ok_or (ValidationError ''signature'' VK_InvalidFormat)
                      (canonical_signing_bytes L e)) (\<lambda>canonical.
           and_then (map_err (\<lambda>_. ValidationError ''signature'' VK_SignatureInvalid)
                      (sign canonical)) (\<lambda>s.
           and_then (validate_signature s) (\<lambda>_.
             Inr (e\<lparr>ev_signature := Some s\<rparr>)))))"

definition verify_signature ::
  "libs \<Rightarrow> (cthulhu_id \<Rightarrow> string \<Rightarrow> signature \<Rightarrow> (signature_error, unit) result) \<Rightarrow> council_envelope
   \<Rightarrow> unit validated" where
  "verify_signature L verify e =
     and_then (ok_or (ValidationError ''signature'' VK_SignatureMissing) (ev_signature e)) (\<lambda>s.
     and_then (validate_signature s) (\<lambda>_.
     and_then (ok_or (ValidationError ''signature'' VK_InvalidFormat)
                (canonical_signing_bytes L e)) (\<lambda>canonical.
       map_err (\<lambda>_. ValidationError ''signature'' VK_SignatureInvalid)
         (verify (ev_sender_cthulhu_id e) canonical s))))"

lemma canonical_ignores_signature [simp]:
  "canonical_signing_bytes L (e\<lparr>ev_signature := x\<rparr>) = canonical_signing_bytes L e"
  by (simp add: canonical_signing_bytes_def)

context council_signing
begin

lemma attached_signature_verifies:
  "attach_signature L signer sign e = Inr e' \<Longrightarrow> verify_signature L verify e' = Inr ()"
  by (auto simp: attach_signature_def verify_signature_def split: if_splits
      dest: own_signatures_verify)

lemma verified_signature_is_own:
  assumes "verify_signature L verify e = Inr ()"
  shows "\<exists>canonical s. canonical_signing_bytes L e = Some canonical
    \<and> ev_signature e = Some s \<and> sign canonical = Inr s \<and> ev_sender_cthulhu_id e = signer"
  using assms verified_are_own by (fastforce simp: verify_signature_def)

end

subsection \<open>The replay guard\<close>

type_synonym sender_key = "council_id \<times> cthulhu_id \<times> tentacle_id"

record replay_guard =
  rg_max_messages :: nat
  rg_max_senders :: nat
  rg_seen :: "message_id bset"
  rg_highest :: "(sender_key, nat) bmap"

definition ReplayGuard_new :: "nat \<Rightarrow> nat \<Rightarrow> replay_guard validated" where
  "ReplayGuard_new max_messages max_senders =
     (if max_messages = 0 \<or> max_senders = 0 then fail_with ''replayGuard'' VK_OutOfRange
      else Inr \<lparr>rg_max_messages = max_messages, rg_max_senders = max_senders,
                rg_seen = bs_empty, rg_highest = bm_empty\<rparr>)"

definition sender_of :: "council_envelope \<Rightarrow> sender_key" where
  "sender_of e = (ev_council_id e, ev_sender_cthulhu_id e, ev_sender_tentacle_id e)"

definition check_and_record ::
  "libs \<Rightarrow> replay_guard \<Rightarrow> council_envelope \<Rightarrow> timestamp \<Rightarrow> replay_guard validated" where
  "check_and_record L g e now =
     and_then (run_checks
       [validate_envelope L e now,
        require (\<not> bs_member (rg_seen g) (ev_message_id e)) ''messageId'' VK_Replay,
        require (\<not> (case bm_get (rg_highest g) (sender_of e) of
                      None \<Rightarrow> False | Some highest \<Rightarrow> ev_sequence e \<le> highest))
          ''sequence'' VK_NonMonotonicSequence,
        require (bs_len (rg_seen g) \<noteq> rg_max_messages g) ''replayGuard.messages''
          (VK_TooMany (rg_max_messages g) (bs_len (rg_seen g) + 1)),
        require (\<not> (\<not> bm_contains (rg_highest g) (sender_of e)
                   \<and> bm_len (rg_highest g) = rg_max_senders g)) ''replayGuard.senders''
          (VK_TooMany (rg_max_senders g) (bm_len (rg_highest g) + 1))])
       (\<lambda>_. Inr (g\<lparr>rg_seen := bs_insert (ev_message_id e) (rg_seen g),
                   rg_highest := bm_insert (sender_of e) (ev_sequence e) (rg_highest g)\<rparr>))"

definition guard_contains :: "replay_guard \<Rightarrow> message_id \<Rightarrow> bool" where
  "guard_contains g m = bs_member (rg_seen g) m"

definition guard_len :: "replay_guard \<Rightarrow> nat" where
  "guard_len g = bs_len (rg_seen g)"

lemma check_and_record_ok:
  "check_and_record L g e now = Inr g' \<longleftrightarrow>
     validate_envelope L e now = Inr ()
     \<and> \<not> bs_member (rg_seen g) (ev_message_id e)
     \<and> (\<forall>h. bm_get (rg_highest g) (sender_of e) = Some h \<longrightarrow> h < ev_sequence e)
     \<and> bs_len (rg_seen g) \<noteq> rg_max_messages g
     \<and> (bm_get (rg_highest g) (sender_of e) \<noteq> None \<or> bm_len (rg_highest g) \<noteq> rg_max_senders g)
     \<and> g' = g\<lparr>rg_seen := bs_insert (ev_message_id e) (rg_seen g),
              rg_highest := bm_insert (sender_of e) (ev_sequence e) (rg_highest g)\<rparr>"
  by (auto simp: check_and_record_def run_checks.simps(1) split: option.splits)

definition guard_ok :: "replay_guard \<Rightarrow> bool" where
  "guard_ok g \<longleftrightarrow> bs_len (rg_seen g) \<le> rg_max_messages g \<and> bm_len (rg_highest g) \<le> rg_max_senders g"

lemma check_and_record_guard_ok:
  assumes "check_and_record L g e now = Inr g'" "guard_ok g"
  shows "guard_ok g'"
  using assms bstore.put_guarded_bounded[of "rg_highest g" "rg_max_senders g" "sender_of e" "ev_sequence e"]
  unfolding check_and_record_ok guard_ok_def by auto

text \<open>
  A stream of envelopes as they arrive: an accepted one changes the guard, a refused one
  does not.  The result holds the accepted envelopes in order.
\<close>

fun replay_run ::
  "libs \<Rightarrow> replay_guard \<Rightarrow> (council_envelope \<times> timestamp) list \<Rightarrow> replay_guard \<times> council_envelope list" where
  "replay_run L g [] = (g, [])"
| "replay_run L g ((e, now) # es) =
     (case check_and_record L g e now of
        Inl err \<Rightarrow> replay_run L g es
      | Inr g' \<Rightarrow> (let (g'', acc) = replay_run L g' es in (g'', e # acc)))"

lemma replay_run_fresh:
  assumes "replay_run L g es = (g', acc)" "e \<in> set acc"
  shows "\<not> bs_member (rg_seen g) (ev_message_id e)
    \<and> (\<forall>h. bm_get (rg_highest g) (sender_of e) = Some h \<longrightarrow> h < ev_sequence e)"
  using assms
proof (induction L g es arbitrary: g' acc rule: replay_run.induct)
  case (2 L g x now es)
  show ?case
  proof (cases "check_and_record L g x now")
    case (Inl err)
    with 2 show ?thesis by simp
  next
    case (Inr g1)
    then obtain acc1 where run: "replay_run L g1 es = (g', acc1)" and acc: "acc = x # acc1"
      using 2 by (auto split: prod.splits)
    note rec = Inr[unfolded check_and_record_ok]
    show ?thesis
    proof (cases "e \<in> set acc1")
      case True
      with 2(2)[OF Inr run] rec show ?thesis by (auto split: if_splits dest: less_trans)
    next
      case False
      with 2 acc rec show ?thesis by auto
    qed
  qed
qed simp

lemma replay_run_invariant:
  assumes "replay_run L g es = (g', acc)" "guard_ok g"
  shows "guard_ok g' \<and> rg_max_messages g' = rg_max_messages g \<and> rg_max_senders g' = rg_max_senders g
    \<and> bs_len (rg_seen g') = bs_len (rg_seen g) + length acc
    \<and> distinct (map ev_message_id acc)
    \<and> sorted_wrt (\<lambda>a b. sender_of a = sender_of b \<longrightarrow> ev_sequence a < ev_sequence b) acc"
  using assms
proof (induction L g es arbitrary: g' acc rule: replay_run.induct)
  case (2 L g x now es)
  show ?case
  proof (cases "check_and_record L g x now")
    case (Inl err)
    then have "replay_run L g es = (g', acc)" using 2(3) by simp
    then show ?thesis by (rule 2(1)[OF Inl _ 2(4)])
  next
    case (Inr g1)
    then obtain acc1 where run: "replay_run L g1 es = (g', acc1)" and acc: "acc = x # acc1"
      using 2(3) by (auto split: prod.splits)
    note IH = 2(2)[OF Inr run check_and_record_guard_ok[OF Inr 2(4)]]
    note rec = Inr[unfolded check_and_record_ok]
    have "\<forall>e\<in>set acc1. ev_message_id e \<noteq> ev_message_id x
        \<and> (sender_of x = sender_of e \<longrightarrow> ev_sequence x < ev_sequence e)"
      using replay_run_fresh[OF run] rec by (auto split: if_splits)
    moreover have "bs_len (rg_seen g1) = Suc (bs_len (rg_seen g))"
      "rg_max_messages g1 = rg_max_messages g" "rg_max_senders g1 = rg_max_senders g"
      using rec by auto
    ultimately show ?thesis using IH unfolding acc by auto
  qed
qed simp

lemma replay_run_accepts:
  assumes "replay_run L g es = (g', acc)"
  shows "(\<forall>e\<in>set acc. \<exists>now. (e, now) \<in> set es \<and> validate_envelope L e now = Inr ())
    \<and> (\<forall>m. bs_member (rg_seen g') m \<longleftrightarrow> bs_member (rg_seen g) m \<or> m \<in> ev_message_id ` set acc)"
  using assms
proof (induction L g es arbitrary: g' acc rule: replay_run.induct)
  case (2 L g x now es)
  show ?case
  proof (cases "check_and_record L g x now")
    case (Inl err)
    then have "replay_run L g es = (g', acc)" using 2(3) by simp
    from 2(1)[OF Inl this] show ?thesis by fastforce
  next
    case (Inr g1)
    then obtain acc1 where run: "replay_run L g1 es = (g', acc1)" and acc: "acc = x # acc1"
      using 2(3) by (auto split: prod.splits)
    have "\<forall>m. bs_member (rg_seen g1) m \<longleftrightarrow> m = ev_message_id x \<or> bs_member (rg_seen g) m"
      "validate_envelope L x now = Inr ()"
      using Inr[unfolded check_and_record_ok] by auto
    with 2(2)[OF Inr run] show ?thesis unfolding acc by fastforce
  qed
qed simp

lemma ReplayGuard_new_ok:
  "ReplayGuard_new m s = Inr g \<longleftrightarrow> 0 < m \<and> 0 < s
     \<and> g = \<lparr>rg_max_messages = m, rg_max_senders = s, rg_seen = bs_empty, rg_highest = bm_empty\<rparr>"
  by (auto simp: ReplayGuard_new_def)

subsection \<open>The window of an envelope\<close>

text \<open>
  When a payload is valid as far as the clock goes: from \<open>payload_opens\<close> on and before
  \<open>payload_closes\<close>.  A payload without such a bound gets the ends of the timestamps.
\<close>

fun payload_opens :: "council_payload \<Rightarrow> timestamp" where
  "payload_opens (CP_TentacleAnnounce v) = tn_last_heartbeat (ta_tentacle v) - 300"
| "payload_opens (CP_TentacleCapabilities v) = tc_observed_at v - 300"
| "payload_opens (CP_TentacleHeartbeat v) = tu_last_heartbeat (hb_update v) - 300"
| "payload_opens (CP_TentacleDraining v) = td_effective_at v - 300"
| "payload_opens (CP_RouteRequest v) = qr_issued_at v - 300"
| "payload_opens (CP_RouteOffer v) = qo_valid_until v - 3600"
| "payload_opens (CP_LeaseGrant v) = wl_issued_at (lg_lease v) - 300"
| "payload_opens (CP_LeaseRenew v) = lr_expires_at v - 86400"
| "payload_opens (CP_LeaseExpired v) = le_expired_at v"
| "payload_opens (CP_GovernanceProposal v) = gp_deadline v - 31 * 86400"
| "payload_opens (CP_GovernanceVote v) = gv_cast_at v"
| "payload_opens (CP_GovernanceRatified v) = gr_ratified_at v"
| "payload_opens (CP_GovernanceRejected v) = gj_rejected_at v"
| "payload_opens (CP_PropagationInvite v) = pi_created_at (pv_item v) - 300"
| "payload_opens (CP_PropagationAccept v) = pa_accepted_at v"
| "payload_opens (CP_PropagationAnnounce v) = pi_created_at (pn_item v) - 300"
| "payload_opens (CP_PropagationForward v) = pi_created_at (pf_item v) - 300"
| "payload_opens (CP_PropagationAck v) = pk_acknowledged_at v"
| "payload_opens (CP_PropagationRevoke v) = px_revoked_at v"
| "payload_opens _ = i64_min"

fun payload_closes :: "council_payload \<Rightarrow> timestamp" where
  "payload_closes (CP_RouteRequest v) = qr_expires_at v"
| "payload_closes (CP_RouteOffer v) = qo_valid_until v"
| "payload_closes (CP_LeaseGrant v) = wl_expires_at (lg_lease v)"
| "payload_closes (CP_LeaseRenew v) = lr_renewal_deadline v"
| "payload_closes (CP_GovernanceProposal v) = gp_deadline v"
| "payload_closes (CP_PropagationInvite v) = pi_expires_at (pv_item v)"
| "payload_closes (CP_PropagationAnnounce v) = pi_expires_at (pn_item v)"
| "payload_closes (CP_PropagationForward v) = pi_expires_at (pf_item v)"
| "payload_closes _ = i64_max + 1"

lemma saturated_bound:
  "0 \<le> m \<Longrightarrow> i64_min \<le> now \<Longrightarrow> v \<le> i64_saturating (now + m) \<longleftrightarrow> v \<le> i64_max \<and> v - m \<le> now"
  by (auto simp: i64_saturating_def i64_min_def i64_max_def)

lemma beyond_saturated:
  "0 \<le> m \<Longrightarrow> i64_min \<le> now \<Longrightarrow> i64_saturating (now + m) < v \<longleftrightarrow> i64_max < v \<or> now < v - m"
  using saturated_bound[of m now v] by linarith

lemma payload_moves:
  assumes "i64_min \<le> t" "t \<le> i64_max" "i64_min \<le> now" "now \<le> i64_max" "validate_payload digest p t = Inr ()"
  shows "validate_payload digest p now = Inr () \<longleftrightarrow> payload_opens p \<le> now \<and> now < payload_closes p"
  using assms
  by (cases p) (auto simp: run_checks.simps(1) saturated_bound beyond_saturated MAX_FUTURE_CLOCK_SKEW_SECONDS_def
    MAX_ROUTE_WINDOW_SECONDS_def MAX_WIRE_LEASE_LIFETIME_SECONDS_def MAX_GOVERNANCE_LIFETIME_SECONDS_def)

lemma validate_payload_window:
  assumes "i64_min \<le> now" "now \<le> i64_max"
  shows "validate_payload digest p now = Inr () \<longleftrightarrow>
     (\<exists>t. i64_min \<le> t \<and> t \<le> i64_max \<and> validate_payload digest p t = Inr ())
     \<and> payload_opens p \<le> now \<and> now < payload_closes p"
  using payload_moves[OF _ _ assms] assms by blast

lemma latest_sent_at_window:
  "i64_min \<le> now \<Longrightarrow> now \<le> i64_max \<Longrightarrow> s \<le> latest_sent_at now \<longleftrightarrow> s \<le> i64_max \<and> s - 300 \<le> now"
  by (auto simp: latest_sent_at_saturates MAX_FUTURE_CLOCK_SKEW_SECONDS_def saturated_bound)

lemma envelope_keys_exact:
  "length keys = length envelope_keys \<and> \<not> list_ex (\<lambda>k. k \<notin> set keys) envelope_keys
     \<longleftrightarrow> distinct keys \<and> set keys = set envelope_keys"
proof
  have d: "distinct envelope_keys" by (simp add: envelope_keys_def)
  assume "length keys = length envelope_keys \<and> \<not> list_ex (\<lambda>k. k \<notin> set keys) envelope_keys"
  then have sub: "set envelope_keys \<subseteq> set keys" and len: "length keys = card (set envelope_keys)"
    using d by (auto simp: list_ex_iff distinct_card)
  have "set envelope_keys = set keys" using sub len card_length[of keys] by (intro card_seteq) auto
  then show "distinct keys \<and> set keys = set envelope_keys" using len by (metis card_distinct)
next
  have d: "distinct envelope_keys" by (simp add: envelope_keys_def)
  assume "distinct keys \<and> set keys = set envelope_keys"
  then show "length keys = length envelope_keys \<and> \<not> list_ex (\<lambda>k. k \<notin> set keys) envelope_keys"
    using d by (metis distinct_card list_ex_iff)
qed

lemma decoded_envelope:
  "Option.bind (jr_parse R bytes) (deserialize_envelope R) = Some e \<longleftrightarrow>
     (\<exists>v keys. jr_parse R bytes = Some v \<and> jr_object_keys R v = Some keys \<and> jr_envelope R v = Some e
        \<and> distinct keys
        \<and> set keys = {''protocol'', ''version'', ''messageId'', ''messageType'', ''councilId'',
            ''senderCthulhuId'', ''senderTentacleId'', ''sentAt'', ''expiresAt'', ''sequence'',
            ''payload'', ''signature''})"
proof -
  have keys: "set envelope_keys = {''protocol'', ''version'', ''messageId'', ''messageType'', ''councilId'',
            ''senderCthulhuId'', ''senderTentacleId'', ''sentAt'', ''expiresAt'', ''sequence'',
            ''payload'', ''signature''}" by (simp add: envelope_keys_def)
  have "deserialize_envelope R v = Some e \<longleftrightarrow>
      (\<exists>keys. jr_object_keys R v = Some keys \<and> jr_envelope R v = Some e
        \<and> distinct keys \<and> set keys = set envelope_keys)" for v
    using envelope_keys_exact by (auto simp: deserialize_envelope_def split: option.split)
  then show ?thesis unfolding keys[symmetric] by (auto simp: bind_eq_Some_conv)
qed

subsection \<open>A sample envelope\<close>

definition draining_notice :: council_envelope where
  "draining_notice = new_envelope (Ident ''msg_one'') (Ident ''council_home'')
     (Ident ''cthulhu_archivist'') (Ident ''tentacle_home'') 100 200 1
     (CP_TentacleDraining \<lparr>td_tentacle_id = Ident ''tentacle_home'', td_owner = Ident ''cthulhu_archivist'',
        td_incarnation = \<lparr>inc_id = Ident ''incarnation_first'', inc_generation = 1\<rparr>,
        td_effective_at = 100\<rparr>)"

definition sample_libs :: libs where
  "sample_libs = \<lparr>lib_digest = (\<lambda>m. replicate 64 CHR ''0''),
     lib_encode = (\<lambda>e. if e = draining_notice then Some ''{}'' else None)\<rparr>"

definition sample_reader :: "council_envelope json_reader" where
  "sample_reader = \<lparr>jr_parse = (\<lambda>bytes. if bytes = ''{}'' then Some draining_notice else None),
     jr_object_keys = (\<lambda>v. Some envelope_keys), jr_envelope = Some\<rparr>"

lemma draining_notice_valid: "validate_envelope sample_libs draining_notice 150 = Inr ()"
  by (simp add: validate_envelope_ok sample_libs_def draining_notice_def new_envelope_def
      MAX_ENVELOPE_LIFETIME_SECONDS_def latest_sent_at_def i64_checked_def i64_saturating_def i64_min_def
      i64_max_def MAX_FUTURE_CLOCK_SKEW_SECONDS_def MAX_ENVELOPE_BYTES_def run_checks.simps(1)
      validate_incarnation_def)

lemma draining_notice_acceptance:
  "from_json_at sample_libs sample_reader ''{}'' 150 = Inr draining_notice"
  using draining_notice_valid
  by (simp add: from_json_at_def sample_reader_def deserialize_envelope_def MAX_ENVELOPE_BYTES_def
      envelope_keys_def)

lemma sample_codec: "lib_encode sample_libs e = Some bytes \<Longrightarrow> e = draining_notice \<and> bytes = ''{}''"
  by (auto simp: sample_libs_def split: if_splits)

definition test_key :: test_signer where
  "test_key = \<lparr>ts_cthulhu_id = Ident ''cthulhu_archivist'', ts_key_id = ''key-1'', ts_test_key = ''secret''\<rparr>"

lemma test_fnv_slug: "slug_grammar ''test-fnv1a64''"
  by (simp add: slug_grammar_def slug_char_def is_separator_def ascii_defs nth_Cons' less_Suc_eq)

lemma test_sign_valid:
  assumes "is_ascii (ts_key_id s)" "\<not> has_whitespace (ts_key_id s)" "good_text 128 (ts_key_id s)"
  shows "\<exists>sg. test_sign s m = Inr sg \<and> validate_signature sg = Inr ()"
  using assms test_fnv_slug hex16_plain
  by (auto simp: test_sign_def validate_signature_def run_checks.simps(1) test_digest_def good_text_def)

lemma test_key_plain:
  "is_ascii (ts_key_id test_key)" "\<not> has_whitespace (ts_key_id test_key)" "good_text 128 (ts_key_id test_key)"
proof -
  show a: "is_ascii (ts_key_id test_key)" by (simp add: test_key_def is_ascii_def byte_def)
  show "\<not> has_whitespace (ts_key_id test_key)"
    by (simp add: has_whitespace_def utf8_chars_ascii[OF a])
      (simp add: test_key_def byte_def is_whitespace_def)
  show "good_text 128 (ts_key_id test_key)"
    by (simp add: good_text_def has_control_ascii[OF a])
      (simp add: test_key_def byte_def is_control_def)
qed

subsection \<open>Properties\<close>

text \<open>
  C3: what the wire accepts, and when.  Bytes become an envelope at a time \<open>now\<close> exactly when they
  are at most 65536, parse to an object that has the twelve known keys and no others, each once, and
  the envelope names the Council protocol at version 1.0, has a positive sequence, a lifetime of at
  most an hour, a payload of its own sender that is valid at some time, a well-formed signature if it
  has one, and encodes within 65536 bytes again; and \<open>now\<close> lies in the envelope's window.  The window
  is one interval, read off the envelope: from 300 seconds before its sending or what the payload says
  to the earlier of the two ends, so an envelope refused for being late is never accepted again.
\<close>

theorem envelope_acceptance:
  assumes "i64_min \<le> now" "now \<le> i64_max"
  shows "from_json_at L R bytes now = Inr e \<longleftrightarrow>
     length bytes \<le> 65536
     \<and> (\<exists>v keys. jr_parse R bytes = Some v \<and> jr_object_keys R v = Some keys \<and> jr_envelope R v = Some e
          \<and> distinct keys
          \<and> set keys = {''protocol'', ''version'', ''messageId'', ''messageType'', ''councilId'',
              ''senderCthulhuId'', ''senderTentacleId'', ''sentAt'', ''expiresAt'', ''sequence'',
              ''payload'', ''signature''})
     \<and> ev_protocol e = ''cthuwu-council'' \<and> ev_version e = ProtocolVersion 1 0 \<and> 0 < ev_sequence e
     \<and> ev_sent_at e \<le> i64_max \<and> ev_sent_at e < ev_expires_at e \<and> ev_expires_at e - ev_sent_at e \<le> 3600
     \<and> (\<exists>t. i64_min \<le> t \<and> t \<le> i64_max \<and> validate_payload (lib_digest L) (ev_payload e) t = Inr ())
     \<and> sender_matches (ev_payload e) (ev_sender_cthulhu_id e) (ev_sender_tentacle_id e)
     \<and> (case ev_signature e of None \<Rightarrow> True | Some s \<Rightarrow> validate_signature s = Inr ())
     \<and> (\<exists>out. lib_encode L e = Some out \<and> length out \<le> 65536)
     \<and> max (ev_sent_at e - 300) (payload_opens (ev_payload e)) \<le> now
     \<and> now < min (ev_expires_at e) (payload_closes (ev_payload e))"
proof -
  have "from_json_at L R bytes now = Inr e \<longleftrightarrow>
      length bytes \<le> 65536 \<and> Option.bind (jr_parse R bytes) (deserialize_envelope R) = Some e
      \<and> validate_envelope L e now = Inr ()"
    by (auto simp: from_json_at_def MAX_ENVELOPE_BYTES_def)
  then show ?thesis
    using validate_payload_window[OF assms, of "lib_digest L" "ev_payload e"] latest_sent_at_window[OF assms, of "ev_sent_at e"] assms
    by (auto simp: validate_envelope_ok decoded_envelope MAX_ENVELOPE_LIFETIME_SECONDS_def MAX_ENVELOPE_BYTES_def
      COUNCIL_PROTOCOL_NAME_def V1_0_def split: option.splits)
qed

theorem envelope_acceptance_witness:
  "from_json_at sample_libs sample_reader ''{}'' 199 = Inr draining_notice
   \<and> from_json_at sample_libs sample_reader ''{}'' 200 \<noteq> Inr draining_notice"
proof -
  note window = envelope_acceptance[of _ sample_libs sample_reader "''{}''" draining_notice]
  have ends: "max (ev_sent_at draining_notice - 300) (payload_opens (ev_payload draining_notice)) = -200"
    "min (ev_expires_at draining_notice) (payload_closes (ev_payload draining_notice)) = 200"
    by (simp_all add: draining_notice_def new_envelope_def i64_max_def)
  have "from_json_at sample_libs sample_reader ''{}'' 199 = Inr draining_notice"
    using window[of 150] window[of 199] draining_notice_acceptance unfolding ends by (simp add: i64_min_def i64_max_def)
  moreover have "from_json_at sample_libs sample_reader ''{}'' 200 \<noteq> Inr draining_notice"
    using window[of 200] unfolding ends by (simp add: i64_min_def i64_max_def)
  ultimately show ?thesis by simp
qed

text \<open>
  An envelope that is valid at the receiver's time survives serialisation: it encodes, and
  the bytes are accepted as that same envelope, whenever the JSON reader inverts the encoder
  and reports the keys of the envelope.
\<close>

theorem envelope_json_round_trip:
  assumes reader: "\<And>e bytes. lib_encode L e = Some bytes \<Longrightarrow>
      \<exists>v. jr_parse R bytes = Some v \<and> jr_object_keys R v = Some envelope_keys \<and> jr_envelope R v = Some e"
    and valid: "validate_envelope L e now = Inr ()"
  shows "\<exists>bytes. to_json L e = Inr bytes \<and> from_json_at L R bytes now = Inr e"
proof -
  obtain bytes where enc: "lib_encode L e = Some bytes" and len: "length bytes \<le> MAX_ENVELOPE_BYTES"
    using valid by (auto simp: validate_envelope_ok)
  from reader[OF enc] have "Option.bind (jr_parse R bytes) (deserialize_envelope R) = Some e"
    by (auto simp: deserialize_envelope_def envelope_keys_def)
  with enc len valid show ?thesis
    by (intro exI[of _ bytes]) (simp add: to_json_def from_json_at_def)
qed

theorem envelope_json_round_trip_witness:
  "\<exists>bytes. to_json sample_libs draining_notice = Inr bytes
     \<and> from_json_at sample_libs sample_reader bytes 150 = Inr draining_notice"
  by (rule envelope_json_round_trip[OF _ draining_notice_valid])
    (auto simp: sample_reader_def dest!: sample_codec)

text \<open>
  The deterministic signer signs every envelope of its own Cthulhu that can be encoded:
  attaching the signature succeeds, changes nothing but the signature field, and the result
  verifies; and an envelope that verifies carries exactly the signature the signer gives its
  unsigned bytes, so changing any signed field to one with another digest is detected.
\<close>

theorem signature_round_trip:
  assumes "ts_cthulhu_id s = ev_sender_cthulhu_id e" "canonical_signing_bytes L e = Some canonical"
    "is_ascii (ts_key_id s)" "\<not> has_whitespace (ts_key_id s)" "good_text 128 (ts_key_id s)"
  shows "\<exists>e' sg. attach_signature L (ts_cthulhu_id s) (test_sign s) e = Inr e'
    \<and> e' = e\<lparr>ev_signature := Some sg\<rparr> \<and> verify_signature L (test_verify s) e' = Inr ()
    \<and> (\<forall>f. ev_signature f = Some sg \<and> verify_signature L (test_verify s) f = Inr () \<longrightarrow>
          ev_sender_cthulhu_id f = ev_sender_cthulhu_id e
          \<and> (\<exists>c. canonical_signing_bytes L f = Some c \<and> test_digest s c = test_digest s canonical))"
proof -
  obtain sg where sg: "test_sign s canonical = Inr sg" "validate_signature sg = Inr ()"
    using test_sign_valid assms(3-5) by blast
  then have attach: "attach_signature L (ts_cthulhu_id s) (test_sign s) e = Inr (e\<lparr>ev_signature := Some sg\<rparr>)"
    using assms(1,2) by (simp add: attach_signature_def)
  have "ev_sender_cthulhu_id f = ev_sender_cthulhu_id e
      \<and> (\<exists>c. canonical_signing_bytes L f = Some c \<and> test_digest s c = test_digest s canonical)"
    if "ev_signature f = Some sg" "verify_signature L (test_verify s) f = Inr ()" for f
    using test_signing.verified_signature_is_own[OF that(2)] that(1) sg(1) assms(1)
    by (auto simp: test_sign_def)
  with attach test_signing.attached_signature_verifies[OF attach] show ?thesis by blast
qed

theorem signature_round_trip_witness:
  "\<exists>e' sg. attach_signature sample_libs (Ident ''cthulhu_archivist'') (test_sign test_key) draining_notice = Inr e'
    \<and> e' = draining_notice\<lparr>ev_signature := Some sg\<rparr>
    \<and> verify_signature sample_libs (test_verify test_key) e' = Inr ()"
proof -
  have "canonical_signing_bytes sample_libs draining_notice = Some ''{}''"
    by (simp add: canonical_signing_bytes_def sample_libs_def draining_notice_def new_envelope_def)
  moreover have "ts_cthulhu_id test_key = ev_sender_cthulhu_id draining_notice"
    by (simp add: test_key_def draining_notice_def new_envelope_def)
  ultimately have "\<exists>e' sg. attach_signature sample_libs (ts_cthulhu_id test_key) (test_sign test_key) draining_notice = Inr e'
    \<and> e' = draining_notice\<lparr>ev_signature := Some sg\<rparr>
    \<and> verify_signature sample_libs (test_verify test_key) e' = Inr ()"
    using signature_round_trip[of test_key draining_notice sample_libs "''{}''"] test_key_plain by blast
  then show ?thesis by (simp add: test_key_def)
qed

text \<open>
  C4: over any stream of envelopes, a fresh replay guard accepts only envelopes that arrived and
  were valid when they did, none of them twice, with strictly increasing sequences per sender;
  it remembers exactly the accepted message IDs and never exceeds its two bounds.
\<close>

theorem replay_guard_run:
  assumes "ReplayGuard_new max_messages max_senders = Inr g" "replay_run L g es = (g', accepted)"
  shows "distinct (map ev_message_id accepted)
    \<and> sorted_wrt (\<lambda>a b. sender_of a = sender_of b \<longrightarrow> ev_sequence a < ev_sequence b) accepted
    \<and> (\<forall>e\<in>set accepted. \<exists>now. (e, now) \<in> set es \<and> validate_envelope L e now = Inr ())
    \<and> (\<forall>m. guard_contains g' m \<longleftrightarrow> m \<in> ev_message_id ` set accepted)
    \<and> guard_len g' = length accepted
    \<and> length accepted \<le> max_messages \<and> bm_len (rg_highest g') \<le> max_senders"
proof -
  note new = assms(1)[unfolded ReplayGuard_new_ok]
  then have "guard_ok g" by (simp add: guard_ok_def bm_len_empty)
  from replay_run_invariant[OF assms(2) this] replay_run_accepts[OF assms(2)] new
  show ?thesis by (auto simp: guard_ok_def guard_contains_def guard_len_def)
qed

theorem replay_guard_run_witness:
  "\<exists>g g'. ReplayGuard_new 10 10 = Inr g
     \<and> replay_run sample_libs g [(draining_notice, 150), (draining_notice, 151)] = (g', [draining_notice])
     \<and> guard_len g' = 1"
proof -
  let ?g = "\<lparr>rg_max_messages = 10, rg_max_senders = 10, rg_seen = bs_empty, rg_highest = bm_empty\<rparr>"
  let ?g' = "?g\<lparr>rg_seen := bs_insert (ev_message_id draining_notice) bs_empty,
                rg_highest := bm_insert (sender_of draining_notice) (ev_sequence draining_notice) bm_empty\<rparr>"
  have new: "ReplayGuard_new 10 10 = Inr ?g" by (simp add: ReplayGuard_new_ok)
  have "check_and_record sample_libs ?g draining_notice 150 = Inr ?g'"
    using draining_notice_valid by (simp add: check_and_record_ok bm_len_empty)
  moreover have "\<not> is_ok (check_and_record sample_libs ?g' draining_notice 151)"
    by (cases "check_and_record sample_libs ?g' draining_notice 151") (auto simp: check_and_record_ok)
  ultimately have "replay_run sample_libs ?g [(draining_notice, 150), (draining_notice, 151)]
      = (?g', [draining_notice])"
    by (auto split: sum.splits)
  with new replay_guard_run[OF new this] show ?thesis by fastforce
qed

end
