(* ===== verification/Council_Liveness.thy ===== *)
theory Council_Liveness
  imports Protocol_Payload
begin

section \<open>Clocks and liveness (cthuwu-council: clock.rs, liveness.rs)\<close>

text \<open>
  The injected clock is read as whole unsigned seconds: each operation takes the reading
  \<open>now\<close> it makes.  \<open>manual_clock\<close> is the clock of the tests and the simulator; the locale
  \<open>clock_source\<close> is the trait with what such a clock promises.  The tracker keeps the last
  record of every announced Tentacle; its operations return the result and the tracker as the
  source leaves it, errors included.
\<close>

subsection \<open>Clocks\<close>

record manual_clock =
  mc_now :: nat

definition clock_now :: "manual_clock \<Rightarrow> nat" where
  "clock_now c = mc_now c"

definition clock_set :: "nat \<Rightarrow> manual_clock \<Rightarrow> manual_clock" where
  "clock_set now c = c\<lparr>mc_now := now\<rparr>"

definition clock_advance :: "nat \<Rightarrow> manual_clock \<Rightarrow> manual_clock" where
  "clock_advance seconds c = c\<lparr>mc_now := saturating_add u64_max (mc_now c) seconds\<rparr>"

locale clock_source =
  fixes read_now :: "'c \<Rightarrow> nat"
    and advance :: "nat \<Rightarrow> 'c \<Rightarrow> 'c"
    and readable :: "'c \<Rightarrow> bool"
  assumes advance_readable: "readable c \<Longrightarrow> readable (advance n c)"
    and readable_width: "readable c \<Longrightarrow> read_now c \<le> u64_max"
    and advance_forward: "readable c \<Longrightarrow> read_now c \<le> read_now (advance n c)"
begin

lemma fold_advance_forward:
  "readable c \<Longrightarrow> readable (fold advance ns c) \<and> read_now c \<le> read_now (fold advance ns c)"
  by (induction ns arbitrary: c) (auto intro: advance_readable order_trans advance_forward)

end

interpretation manual: clock_source clock_now clock_advance "\<lambda>c. mc_now c \<le> u64_max"
  by unfold_locales (auto simp: clock_now_def clock_advance_def saturating_add_def)

subsection \<open>The tracker\<close>

definition MAX_FUTURE_HEARTBEAT_SKEW_SECONDS :: nat where
  "MAX_FUTURE_HEARTBEAT_SKEW_SECONDS = 300"

datatype liveness_error =
    LE_Invalid validation_error
  | LE_UnknownTentacle
  | LE_InvalidThresholds

record liveness_tracker =
  lt_suspect_after_seconds :: nat
  lt_unavailable_after_seconds :: nat
  lt_tentacles :: "(tentacle_id, tentacle) bmap"

definition LivenessTracker_new :: "nat \<Rightarrow> nat \<Rightarrow> (liveness_error, liveness_tracker) result" where
  "LivenessTracker_new suspect_after unavailable_after =
     (if suspect_after = 0 \<or> unavailable_after \<le> suspect_after then Inl LE_InvalidThresholds
      else Inr \<lparr>lt_suspect_after_seconds = suspect_after,
                lt_unavailable_after_seconds = unavailable_after, lt_tentacles = bm_empty\<rparr>)"

definition validate_heartbeat_time :: "nat \<Rightarrow> timestamp \<Rightarrow> (liveness_error, unit) result" where
  "validate_heartbeat_time now heartbeat =
     (if heartbeat < 0 then Inl (LE_Invalid (ValidationError ''heartbeat'' VK_OutOfRange))
      else if nat heartbeat > saturating_add u64_max now MAX_FUTURE_HEARTBEAT_SKEW_SECONDS
      then Inl (LE_Invalid (ValidationError ''heartbeat'' VK_OutOfRange))
      else Inr ())"

definition update_of :: "tentacle \<Rightarrow> tentacle_lifecycle_update" where
  "update_of t =
     \<lparr>tu_tentacle_id = tn_id t, tu_owner = tn_owner t, tu_incarnation = tn_incarnation t,
      tu_lifecycle = tn_lifecycle t, tu_health = tn_health t,
      tu_current_load_per_mille = tn_current_load_per_mille t,
      tu_last_heartbeat = tn_last_heartbeat t\<rparr>"

text \<open>
  A known Tentacle is updated in place, so its new record is stored before the closing
  validation is reported.
\<close>

definition announce ::
  "liveness_tracker \<Rightarrow> nat \<Rightarrow> tentacle \<Rightarrow> (liveness_error, unit) result \<times> liveness_tracker" where
  "announce k now announced =
     (case run_checks [map_err LE_Invalid (validate_tentacle announced),
                       validate_heartbeat_time now (tn_last_heartbeat announced)] of
        Inl e \<Rightarrow> (Inl e, k)
      | Inr _ \<Rightarrow>
          (case bm_get (lt_tentacles k) (tn_id announced) of
             None \<Rightarrow> (Inr (), k\<lparr>lt_tentacles := bm_insert (tn_id announced) announced (lt_tentacles k)\<rparr>)
           | Some current \<Rightarrow>
               (case apply_update current (update_of announced) of
                  Inl e \<Rightarrow> (Inl (LE_Invalid e), k)
                | Inr c \<Rightarrow>
                    (let c' = c\<lparr>tn_xmtp_endpoint := tn_xmtp_endpoint announced,
                                tn_capabilities := tn_capabilities announced,
                                tn_capacity := tn_capacity announced,
                                tn_visibility := tn_visibility announced,
                                tn_protocol_version := tn_protocol_version announced\<rparr>
                     in (map_err LE_Invalid (validate_tentacle c'),
                         k\<lparr>lt_tentacles := bm_insert (tn_id announced) c' (lt_tentacles k)\<rparr>)))))"

definition heartbeat ::
  "liveness_tracker \<Rightarrow> nat \<Rightarrow> tentacle_lifecycle_update
   \<Rightarrow> (liveness_error, unit) result \<times> liveness_tracker" where
  "heartbeat k now u =
     (case validate_heartbeat_time now (tu_last_heartbeat u) of
        Inl e \<Rightarrow> (Inl e, k)
      | Inr _ \<Rightarrow>
          (case bm_get (lt_tentacles k) (tu_tentacle_id u) of
             None \<Rightarrow> (Inl LE_UnknownTentacle, k)
           | Some current \<Rightarrow>
               (case apply_update current u of
                  Inl e \<Rightarrow> (Inl (LE_Invalid e), k)
                | Inr c \<Rightarrow>
                    (Inr (), k\<lparr>lt_tentacles := bm_insert (tu_tentacle_id u) c (lt_tentacles k)\<rparr>))))"

text \<open>\<open>as u64\<close> wraps a negative number.\<close>

definition as_u64 :: "int \<Rightarrow> nat" where
  "as_u64 x = nat (x mod 2 ^ 64)"

definition with_status :: "health_status \<Rightarrow> tentacle \<Rightarrow> tentacle" where
  "with_status s t = t\<lparr>tn_health := (tn_health t)\<lparr>th_status := s\<rparr>\<rparr>"

definition assess_tentacle :: "liveness_tracker \<Rightarrow> nat \<Rightarrow> tentacle \<Rightarrow> tentacle" where
  "assess_tentacle k now t =
     (if tn_lifecycle t = TL_Stopped then with_status HS_Unavailable t
      else
        let age = saturating_sub now (as_u64 (tn_last_heartbeat t)) in
        if age \<ge> lt_unavailable_after_seconds k then
          (let t' = with_status HS_Unavailable t in
           if tn_lifecycle t' \<noteq> TL_Unavailable \<and> can_transition_to (tn_lifecycle t') TL_Unavailable
           then t'\<lparr>tn_lifecycle := TL_Unavailable\<rparr> else t')
        else if age \<ge> lt_suspect_after_seconds k then with_status HS_Suspect t
        else t)"

definition assess :: "liveness_tracker \<Rightarrow> nat \<Rightarrow> liveness_tracker" where
  "assess k now = k\<lparr>lt_tentacles := bm_update (\<lambda>i t. assess_tentacle k now t) (lt_tentacles k)\<rparr>"

definition tracker_get :: "liveness_tracker \<Rightarrow> tentacle_id \<Rightarrow> tentacle option" where
  "tracker_get k i = bm_get (lt_tentacles k) i"

definition tracker_all :: "liveness_tracker \<Rightarrow> tentacle list" where
  "tracker_all k = bm_values (lt_tentacles k)"

subsection \<open>Assessment\<close>

lemma with_status_simps [simp]:
  "tn_id (with_status s t) = tn_id t" "tn_owner (with_status s t) = tn_owner t"
  "tn_incarnation (with_status s t) = tn_incarnation t"
  "tn_lifecycle (with_status s t) = tn_lifecycle t"
  "tn_last_heartbeat (with_status s t) = tn_last_heartbeat t"
  "th_status (tn_health (with_status s t)) = s"
  by (simp_all add: with_status_def)

lemma with_status_twice [simp]: "with_status s (with_status s' t) = with_status s t"
  by (simp add: with_status_def)

lemma with_status_lifecycle [simp]:
  "with_status s (t\<lparr>tn_lifecycle := l\<rparr>) = (with_status s t)\<lparr>tn_lifecycle := l\<rparr>"
  by (simp add: with_status_def)

lemma with_status_same: "th_status (tn_health t) = s \<Longrightarrow> with_status s t = t"
  by (cases t; cases "tn_health t") (simp add: with_status_def)

lemma as_u64_id [simp]: "0 \<le> x \<Longrightarrow> x \<le> i64_max \<Longrightarrow> as_u64 x = nat x"
  by (simp add: as_u64_def i64_max_def)

definition stale :: "liveness_tracker \<Rightarrow> nat \<Rightarrow> tentacle \<Rightarrow> bool" where
  "stale k now t \<longleftrightarrow> lt_unavailable_after_seconds k \<le> now - as_u64 (tn_last_heartbeat t)"

definition suspect :: "liveness_tracker \<Rightarrow> nat \<Rightarrow> tentacle \<Rightarrow> bool" where
  "suspect k now t \<longleftrightarrow> lt_suspect_after_seconds k \<le> now - as_u64 (tn_last_heartbeat t)"

lemma assess_status:
  "th_status (tn_health (assess_tentacle k now t)) =
     (if tn_lifecycle t = TL_Stopped \<or> stale k now t then HS_Unavailable
      else if suspect k now t then HS_Suspect else th_status (tn_health t))"
  by (simp add: assess_tentacle_def stale_def suspect_def saturating_sub_def Let_def with_status_def)

lemma assess_lifecycle:
  "tn_lifecycle (assess_tentacle k now t) =
     (if tn_lifecycle t \<noteq> TL_Stopped \<and> stale k now t then TL_Unavailable else tn_lifecycle t)"
  by (cases "tn_lifecycle t")
    (simp_all add: assess_tentacle_def stale_def saturating_sub_def Let_def with_status_def)

lemma assess_tentacle_closed:
  "assess_tentacle k now t =
     (if tn_lifecycle t = TL_Stopped then with_status HS_Unavailable t
      else if stale k now t then (with_status HS_Unavailable t)\<lparr>tn_lifecycle := TL_Unavailable\<rparr>
      else if suspect k now t then with_status HS_Suspect t else t)"
  by (cases "tn_lifecycle t")
    (simp_all add: assess_tentacle_def stale_def suspect_def saturating_sub_def Let_def with_status_def)

lemma assess_frame_simps [simp]:
  "tn_id (assess_tentacle k now t) = tn_id t" "tn_owner (assess_tentacle k now t) = tn_owner t"
  "tn_incarnation (assess_tentacle k now t) = tn_incarnation t"
  "tn_last_heartbeat (assess_tentacle k now t) = tn_last_heartbeat t"
  by (simp_all add: assess_tentacle_closed)

lemma assess_tentacle_idem: "assess_tentacle k now (assess_tentacle k now t) = assess_tentacle k now t"
proof -
  have "stale k now (with_status s t) = stale k now t" "suspect k now (with_status s t) = suspect k now t"
    "stale k now (with_status s t\<lparr>tn_lifecycle := l\<rparr>) = stale k now t" for s l
    by (simp_all add: stale_def suspect_def)
  then show ?thesis by (simp add: assess_tentacle_closed)
qed

lemma assess_validate: "validate_tentacle t = Inr () \<Longrightarrow> validate_tentacle (assess_tentacle k now t) = Inr ()"
  by (auto simp: assess_tentacle_closed validate_tentacle_ok with_status_def simp del: validate_capacity_ok)

lemma assess_step_effect: "step_effect t (assess_tentacle k now t)"
  by (cases "tn_lifecycle t") (auto simp: step_effect_def assess_lifecycle intro: r_into_rtranclp)

subsection \<open>The tracker as a state machine\<close>

definition tracked_ok :: "tentacle_id \<Rightarrow> tentacle \<Rightarrow> bool" where
  "tracked_ok i t \<longleftrightarrow> tn_id t = i \<and> validate_tentacle t = Inr () \<and> 0 \<le> tn_last_heartbeat t"

definition tracker_inv :: "liveness_tracker \<Rightarrow> bool" where
  "tracker_inv k \<longleftrightarrow>
     0 < lt_suspect_after_seconds k \<and> lt_suspect_after_seconds k < lt_unavailable_after_seconds k
     \<and> (\<forall>i t. bm_get (lt_tentacles k) i = Some t \<longrightarrow> tracked_ok i t)"

inductive tracker_step :: "liveness_tracker \<Rightarrow> liveness_tracker \<Rightarrow> bool" where
  step_announce: "announce k now t = (r, k') \<Longrightarrow> tracker_step k k'"
| step_heartbeat: "heartbeat k now u = (r, k') \<Longrightarrow> tracker_step k k'"
| step_assess: "tracker_step k (assess k now)"

lemma validate_heartbeat_time_ok:
  "validate_heartbeat_time now h = Inr u \<longleftrightarrow> 0 \<le> h \<and> nat h \<le> saturating_add u64_max now 300"
  by (auto simp: validate_heartbeat_time_def MAX_FUTURE_HEARTBEAT_SKEW_SECONDS_def)

lemma update_of_fields [simp]:
  "tu_tentacle_id (update_of t) = tn_id t" "tu_owner (update_of t) = tn_owner t"
  "tu_incarnation (update_of t) = tn_incarnation t" "tu_lifecycle (update_of t) = tn_lifecycle t"
  "tu_health (update_of t) = tn_health t"
  "tu_current_load_per_mille (update_of t) = tn_current_load_per_mille t"
  "tu_last_heartbeat (update_of t) = tn_last_heartbeat t"
  by (simp_all add: update_of_def)

text \<open>Once the update is accepted, the copied fields make the record the announced one.\<close>

lemma announced_record:
  assumes "apply_update c (update_of a) = Inr c'"
  shows "c'\<lparr>tn_xmtp_endpoint := tn_xmtp_endpoint a, tn_capabilities := tn_capabilities a,
            tn_capacity := tn_capacity a, tn_visibility := tn_visibility a,
            tn_protocol_version := tn_protocol_version a\<rparr> = a"
  using assms by (cases a; cases c) (auto simp: apply_update_ok)

lemma announce_cases:
  "announce k now a =
     (case run_checks [map_err LE_Invalid (validate_tentacle a),
                       validate_heartbeat_time now (tn_last_heartbeat a)] of
        Inl e \<Rightarrow> (Inl e, k)
      | Inr _ \<Rightarrow>
          (let stored = (Inr (), k\<lparr>lt_tentacles := bm_insert (tn_id a) a (lt_tentacles k)\<rparr>) in
           case bm_get (lt_tentacles k) (tn_id a) of
             None \<Rightarrow> stored
           | Some current \<Rightarrow>
               (case apply_update current (update_of a) of
                  Inl e \<Rightarrow> (Inl (LE_Invalid e), k)
                | Inr c \<Rightarrow> stored)))"
proof (cases "run_checks [map_err LE_Invalid (validate_tentacle a),
                          validate_heartbeat_time now (tn_last_heartbeat a)]")
  case (Inr u)
  then have "validate_tentacle a = Inr ()" by simp
  with Inr show ?thesis
    unfolding announce_def by (auto simp: announced_record Let_def split: option.splits sum.splits)
qed (simp add: announce_def)

lemma apply_update_effect: "apply_update t u = Inr t' \<Longrightarrow> step_effect t t'"
  by (rule tentacle_step_effect[OF step_update])

lemma apply_update_keeps:
  "apply_update t u = Inr t' \<Longrightarrow> validate_tentacle t = Inr () \<Longrightarrow> validate_tentacle t' = Inr ()"
  by (rule tentacle_step_validate[OF step_update])

text \<open>Every step stores, for each known Tentacle, a record that respects \<open>step_effect\<close>.\<close>

definition tracker_effect :: "liveness_tracker \<Rightarrow> liveness_tracker \<Rightarrow> bool" where
  "tracker_effect k k' \<longleftrightarrow>
     (\<forall>i t. bm_get (lt_tentacles k) i = Some t \<longrightarrow>
        (\<exists>t'. bm_get (lt_tentacles k') i = Some t' \<and> step_effect t t'))"

lemma tracker_effect_refl: "tracker_effect k k"
  by (auto simp: tracker_effect_def intro: step_effect_refl)

lemma tracker_effect_trans: "tracker_effect k k' \<Longrightarrow> tracker_effect k' k'' \<Longrightarrow> tracker_effect k k''"
  unfolding tracker_effect_def by (meson step_effect_trans)

lemma tracker_effect_insert:
  "(\<And>c. bm_get (lt_tentacles k) i = Some c \<Longrightarrow> step_effect c t)
    \<Longrightarrow> tracker_effect k (k\<lparr>lt_tentacles := bm_insert i t (lt_tentacles k)\<rparr>)"
  by (auto simp: tracker_effect_def intro: step_effect_refl)

lemma tracker_inv_insert:
  "tracker_inv k \<Longrightarrow> tracked_ok i t \<Longrightarrow> tracker_inv (k\<lparr>lt_tentacles := bm_insert i t (lt_tentacles k)\<rparr>)"
  by (auto simp: tracker_inv_def)

lemma announce_effect:
  assumes "announce k now a = (r, k')" "tracker_inv k"
  shows "tracker_inv k' \<and> tracker_effect k k'"
proof (cases "k' = k")
  case True
  then show ?thesis using assms tracker_effect_refl by simp
next
  case False
  then have stored: "k' = k\<lparr>lt_tentacles := bm_insert (tn_id a) a (lt_tentacles k)\<rparr>"
    and ok: "validate_tentacle a = Inr ()" "0 \<le> tn_last_heartbeat a"
    and upd: "\<And>c. bm_get (lt_tentacles k) (tn_id a) = Some c \<Longrightarrow>
        \<exists>c'. apply_update c (update_of a) = Inr c'"
    using assms(1) unfolding announce_cases
    by (auto simp: Let_def validate_heartbeat_time_ok split: sum.splits option.splits)
  have "step_effect c a" if "bm_get (lt_tentacles k) (tn_id a) = Some c" for c
  proof -
    from upd[OF that] obtain c' where c': "apply_update c (update_of a) = Inr c'" by blast
    have "step_effect c c'" using c' by (rule apply_update_effect)
    with c' show ?thesis by (auto simp: step_effect_def apply_update_ok)
  qed
  then show ?thesis
    unfolding stored using assms(2) ok
    by (auto intro!: tracker_effect_insert tracker_inv_insert simp: tracked_ok_def)
qed

lemma heartbeat_effect:
  assumes "heartbeat k now u = (r, k')" "tracker_inv k"
  shows "tracker_inv k' \<and> tracker_effect k k'"
proof (cases "k' = k")
  case True
  then show ?thesis using assms tracker_effect_refl by simp
next
  case False
  then obtain c c' where known: "bm_get (lt_tentacles k) (tu_tentacle_id u) = Some c"
    and upd: "apply_update c u = Inr c'" and time: "0 \<le> tu_last_heartbeat u"
    and stored: "k' = k\<lparr>lt_tentacles := bm_insert (tu_tentacle_id u) c' (lt_tentacles k)\<rparr>"
    using assms(1) by (auto simp: heartbeat_def validate_heartbeat_time_ok split: sum.splits option.splits)
  have "tracked_ok (tu_tentacle_id u) c" using assms(2) known by (simp add: tracker_inv_def)
  then have "tracked_ok (tu_tentacle_id u) c'"
    using upd time apply_update_keeps[OF upd] by (auto simp: tracked_ok_def apply_update_ok)
  then show ?thesis
    unfolding stored using assms(2) known apply_update_effect[OF upd]
    by (auto intro!: tracker_effect_insert tracker_inv_insert)
qed

lemma assess_effect:
  assumes "tracker_inv k"
  shows "tracker_inv (assess k now) \<and> tracker_effect k (assess k now)"
  using assms assess_step_effect
  by (auto simp: tracker_inv_def tracker_effect_def assess_def tracked_ok_def assess_validate)

lemma tracker_step_effect: "tracker_step k k' \<Longrightarrow> tracker_inv k \<Longrightarrow> tracker_inv k' \<and> tracker_effect k k'"
  by (induction rule: tracker_step.induct) (auto dest: announce_effect heartbeat_effect assess_effect)

lemma tracker_run_effect:
  assumes "tracker_step\<^sup>*\<^sup>* k k'" "tracker_inv k"
  shows "tracker_inv k' \<and> tracker_effect k k'"
  using assms
  by (induction rule: rtranclp_induct)
    (auto intro: tracker_effect_refl dest: tracker_step_effect tracker_effect_trans)

lemma new_tracker_inv: "LivenessTracker_new s u = Inr k \<Longrightarrow> tracker_inv k"
  by (auto simp: LivenessTracker_new_def tracker_inv_def split: if_splits)

subsection \<open>Properties\<close>

definition home_clock :: manual_clock where "home_clock = \<lparr>mc_now = 100\<rparr>"

definition home_tracker :: liveness_tracker where
  "home_tracker = \<lparr>lt_suspect_after_seconds = 10, lt_unavailable_after_seconds = 20, lt_tentacles = bm_empty\<rparr>"

lemma home_tracker_new: "LivenessTracker_new 10 20 = Inr home_tracker"
  by (simp add: LivenessTracker_new_def home_tracker_def)

lemma home_tracked: "announce home_tracker (clock_now home_clock) home_tentacle
    = (Inr (), home_tracker\<lparr>lt_tentacles := bm_insert (tn_id home_tentacle) home_tentacle bm_empty\<rparr>)"
proof -
  have "validate_heartbeat_time 100 (tn_last_heartbeat home_tentacle) = Inr ()"
    by (simp add: validate_heartbeat_time_ok home_tentacle_def saturating_add_def u64_max_def)
  then show ?thesis
    by (simp add: announce_def home_tentacle_valid home_tracker_def home_clock_def clock_now_def
        run_checks.simps(1))
qed

text \<open>
  C6: a tracker reached from a fresh one by announcements, heartbeats and assessments holds only
  valid records under their own IDs, never forgets a Tentacle, and fences it: whatever is sent
  later, its owner stays, its heartbeat and incarnation never go back, and within one
  incarnation it only moves along the lifecycle graph.
\<close>

theorem tracker_fencing:
  assumes "LivenessTracker_new s u = Inr k0" "tracker_step\<^sup>*\<^sup>* k0 k" "tracker_step\<^sup>*\<^sup>* k k'"
    and "tracker_get k i = Some t"
  shows "\<exists>t'. tracker_get k' i = Some t' \<and> tn_id t' = i \<and> validate_tentacle t' = Inr ()
    \<and> step_effect t t'"
proof -
  have "tracker_inv k" using tracker_run_effect[OF assms(2) new_tracker_inv[OF assms(1)]] by blast
  from tracker_run_effect[OF assms(3) this] assms(4) show ?thesis
    unfolding tracker_inv_def tracker_effect_def tracker_get_def tracked_ok_def by blast
qed

theorem tracker_fencing_witness:
  "\<exists>t'. tracker_get (assess (snd (announce home_tracker 100 home_tentacle)) 121) (tn_id home_tentacle) = Some t'
     \<and> step_effect home_tentacle t'"
proof -
  let ?k = "snd (announce home_tracker 100 home_tentacle)"
  have run: "tracker_step\<^sup>*\<^sup>* home_tracker ?k" "tracker_step\<^sup>*\<^sup>* ?k (assess ?k 121)"
    by (auto intro: r_into_rtranclp step_announce[OF prod.collapse[symmetric]] step_assess)
  have "tracker_get ?k (tn_id home_tentacle) = Some home_tentacle"
    using home_tracked by (simp add: home_clock_def clock_now_def tracker_get_def)
  from tracker_fencing[OF home_tracker_new run this] show ?thesis by blast
qed

definition announcement_accepted :: "liveness_tracker \<Rightarrow> nat \<Rightarrow> tentacle \<Rightarrow> bool" where
  "announcement_accepted k now a \<longleftrightarrow>
     validate_tentacle a = Inr () \<and> 0 \<le> tn_last_heartbeat a
     \<and> nat (tn_last_heartbeat a) \<le> min (now + 300) u64_max
     \<and> (case tracker_get k (tn_id a) of None \<Rightarrow> True | Some c \<Rightarrow> is_ok (apply_update c (update_of a)))"

text \<open>
  an announcement is atomic.  Either it succeeds and the tracker holds exactly the announced
  record, replacing a known one only as an accepted update of it, or it fails and the tracker is
  as before; the validation after the in-place update never fails.
\<close>

theorem announce_atomic:
  "is_ok (fst (announce k now a)) = announcement_accepted k now a
   \<and> snd (announce k now a) =
      (if announcement_accepted k now a
       then k\<lparr>lt_tentacles := bm_insert (tn_id a) a (lt_tentacles k)\<rparr> else k)"
proof (cases "run_checks [map_err LE_Invalid (validate_tentacle a),
                          validate_heartbeat_time now (tn_last_heartbeat a)]")
  case (Inl e)
  then have "\<not> (validate_tentacle a = Inr () \<and> validate_heartbeat_time now (tn_last_heartbeat a) = Inr ())"
    by (auto simp: run_checks.simps)
  then have "\<not> announcement_accepted k now a"
    by (auto simp: validate_heartbeat_time_ok saturating_add_def announcement_accepted_def)
  with Inl show ?thesis by (simp add: announce_cases)
next
  case (Inr u)
  then have "announcement_accepted k now a \<longleftrightarrow>
      (case tracker_get k (tn_id a) of None \<Rightarrow> True | Some c \<Rightarrow> is_ok (apply_update c (update_of a)))"
    by (simp add: validate_heartbeat_time_ok saturating_add_def announcement_accepted_def)
  with Inr show ?thesis
    by (simp add: announce_cases tracker_get_def Let_def split: option.splits sum.splits)
qed

text \<open>
  an assessment decides from the age of the last heartbeat alone.  It touches only status
  and lifecycle: a stopped or overdue Tentacle is unavailable, a late one is suspect, no
  Tentacle is revived, and assessing again at the same time changes nothing.
\<close>

theorem assessment_by_age:
  assumes "tracker_inv k" "tracker_get k i = Some t" "tn_last_heartbeat t \<le> i64_max"
  shows "\<exists>t'. tracker_get (assess k now) i = Some t'
    \<and> th_status (tn_health t') =
        (if tn_lifecycle t = TL_Stopped \<or> lt_unavailable_after_seconds k \<le> now - nat (tn_last_heartbeat t)
         then HS_Unavailable
         else if lt_suspect_after_seconds k \<le> now - nat (tn_last_heartbeat t) then HS_Suspect
         else th_status (tn_health t))
    \<and> tn_lifecycle t' =
        (if tn_lifecycle t \<noteq> TL_Stopped \<and> lt_unavailable_after_seconds k \<le> now - nat (tn_last_heartbeat t)
         then TL_Unavailable else tn_lifecycle t)
    \<and> t' = t\<lparr>tn_health := tn_health t', tn_lifecycle := tn_lifecycle t'\<rparr>
    \<and> assess (assess k now) now = assess k now"
proof -
  have "0 \<le> tn_last_heartbeat t" using assms(1,2) by (auto simp: tracker_inv_def tracker_get_def tracked_ok_def)
  then have age: "as_u64 (tn_last_heartbeat t) = nat (tn_last_heartbeat t)" using assms(3) by simp
  have get: "tracker_get (assess k now) i = Some (assess_tentacle k now t)"
    using assms(2) by (simp add: tracker_get_def assess_def)
  have frame: "assess_tentacle k now t = t\<lparr>tn_health := tn_health (assess_tentacle k now t),
      tn_lifecycle := tn_lifecycle (assess_tentacle k now t)\<rparr>"
    by (simp add: assess_tentacle_closed with_status_def)
  have "lt_suspect_after_seconds (assess k now) = lt_suspect_after_seconds k"
    "lt_unavailable_after_seconds (assess k now) = lt_unavailable_after_seconds k"
    by (simp_all add: assess_def)
  then have thresholds: "assess_tentacle (assess k now) now x = assess_tentacle k now x" for x
    by (auto simp: assess_tentacle_closed stale_def suspect_def)
  have "assess (assess k now) now = assess k now"
    unfolding assess_def[of "assess k now"] thresholds
    by (simp add: assess_def)
      (intro arg_cong[of _ _ "\<lambda>m. k\<lparr>lt_tentacles := m\<rparr>"] bm_update_id,
        auto simp: assess_tentacle_idem)
  with get frame show ?thesis
    using assess_status[of k now t] assess_lifecycle[of k now t]
    unfolding stale_def suspect_def age by blast
qed

theorem assessment_by_age_witness:
  "\<exists>k t'. tracker_get (assess k 121) (tn_id home_tentacle) = Some t' \<and> tn_lifecycle t' = TL_Unavailable"
proof -
  let ?k = "snd (announce home_tracker 100 home_tentacle)"
  have "tracker_step\<^sup>*\<^sup>* home_tracker ?k"
    by (auto intro: r_into_rtranclp step_announce[OF prod.collapse[symmetric]])
  then have inv: "tracker_inv ?k"
    using tracker_run_effect new_tracker_inv[OF home_tracker_new] by blast
  have get: "tracker_get ?k (tn_id home_tentacle) = Some home_tentacle"
    and sec: "lt_unavailable_after_seconds ?k = 20"
    using home_tracked by (simp_all add: home_clock_def clock_now_def tracker_get_def home_tracker_def)
  from assessment_by_age[OF inv get, of 121] sec show ?thesis
    by (auto simp: home_tentacle_def i64_max_def)
qed

end
