(* ===== verification/Council_Routing.thy ===== *)
theory Council_Routing
  imports Council_Liveness "HOL-Library.Multiset"
begin

section \<open>Routing (cthuwu-council: routing.rs)\<close>

text \<open>
  A routing request is matched against advertised candidates: hard requirements first, then a
  score, then a total order that makes the choice independent of the order of the candidates.
  Sets of the source are ordered sets; the score is an \<open>i64\<close>, an \<open>int\<close> here, with a lemma that
  bounds it; \<open>u32\<close> arithmetic saturates or wraps as written.
\<close>

definition MAX_ROUTING_REQUIREMENTS :: nat where "MAX_ROUTING_REQUIREMENTS = 64"
definition MAX_CANDIDATES :: nat where "MAX_CANDIDATES = 1024"
definition MAX_ADVERTISED_VALUES :: nat where "MAX_ADVERTISED_VALUES = 64"

datatype routing_error =
    RE_InvalidRequest string
  | RE_Expired
  | RE_TooManyCandidates
  | RE_DuplicateCandidate
  | RE_NoEligibleCandidate

definition valid_capability_label :: "string \<Rightarrow> bool" where
  "valid_capability_label value \<longleftrightarrow>
     value \<noteq> [] \<and> length value \<le> 128
     \<and> list_all (\<lambda>b. is_ascii_lowercase b \<or> is_ascii_digit b
          \<or> b = CHR ''-'' \<or> b = CHR ''_'' \<or> b = CHR ''.'' \<or> b = CHR '':'') value"

subsection \<open>Requests\<close>

record capability_requirements =
  cr_model_classes :: "string bset"
  cr_tools :: "string bset"
  cr_memory_modes :: "string bset"
  cr_privacy_properties :: "string bset"
  cr_protocol_versions :: "protocol_version bset"
  cr_require_local_inference :: bool
  cr_minimum_context_tokens :: nat

definition invalid_collection :: "nat \<Rightarrow> string bset \<Rightarrow> bool" where
  "invalid_collection lim values \<longleftrightarrow>
     bs_len values > lim \<or> list_ex (\<lambda>v. \<not> valid_capability_label v) (bs_elems values)"

definition validate_capability_requirements ::
  "capability_requirements \<Rightarrow> (routing_error, unit) result" where
  "validate_capability_requirements r = run_checks
     (map (\<lambda>collection. ensure (\<not> invalid_collection MAX_ROUTING_REQUIREMENTS collection)
             (RE_InvalidRequest ''capability requirement is invalid or unbounded''))
        [cr_model_classes r, cr_tools r, cr_memory_modes r, cr_privacy_properties r]
      @ [ensure (\<not> bs_len (cr_protocol_versions r) > 16)
           (RE_InvalidRequest ''too many protocol requirements''),
         ensure (\<not> (list_ex (\<lambda>v. \<not> is_ok (require_supported v)) (bs_elems (cr_protocol_versions r))
                   \<or> cr_minimum_context_tokens r > 100000000))
           (RE_InvalidRequest ''protocol or context requirement is outside its bounds'')])"

record trust_policy =
  tp_require_allowlisted :: bool
  tp_require_registry_association :: bool
  tp_minimum_reputation :: "int option"

record routing_request =
  rt_request_id :: request_id
  rt_session_id :: session_id
  rt_requirements :: capability_requirements
  rt_explicit_cthulhu :: "cthulhu_id option"
  rt_explicit_tentacle :: "tentacle_id option"
  rt_affinity_tentacle :: "tentacle_id option"
  rt_home_tentacle :: "tentacle_id option"
  rt_user_owned_tentacles :: "tentacle_id bset"
  rt_trust_policy :: trust_policy
  rt_maximum_load_percent :: nat
  rt_expires_at :: nat

definition validate_routing_request :: "routing_request \<Rightarrow> nat \<Rightarrow> (routing_error, unit) result" where
  "validate_routing_request r now = run_checks
     [validate_capability_requirements (rt_requirements r),
      ensure (\<not> rt_expires_at r \<le> now) RE_Expired,
      ensure (\<not> (rt_maximum_load_percent r > 100 \<or> bs_len (rt_user_owned_tentacles r) > 128))
        (RE_InvalidRequest ''routing limits are outside their bounds''),
      ensure (\<not> (case tp_minimum_reputation (rt_trust_policy r) of None \<Rightarrow> False
                 | Some v \<Rightarrow> \<not> (-1000 \<le> v \<and> v \<le> 1000)))
        (RE_InvalidRequest ''reputation requirement is outside its provenance scale'')]"

subsection \<open>Candidates\<close>

record route_candidate =
  rc_cthulhu_id :: cthulhu_id
  rc_tentacle_id :: tentacle_id
  rc_incarnation :: incarnation
  rc_endpoint :: string
  rc_health :: health_status
  rc_ready :: bool
  rc_model_classes :: "string bset"
  rc_tools :: "string bset"
  rc_memory_modes :: "string bset"
  rc_privacy_properties :: "string bset"
  rc_protocol_versions :: "protocol_version bset"
  rc_local_inference :: bool
  rc_context_tokens :: nat
  rc_capacity :: nat
  rc_current_load :: nat
  rc_allowlisted :: bool
  rc_registry_associated :: bool
  rc_selected_reputation :: int

fun memory_mode_label :: "memory_mode \<Rightarrow> string" where
  "memory_mode_label MM_None = ''none''"
| "memory_mode_label MM_Session = ''session''"
| "memory_mode_label MM_LocalContact = ''local-contact''"
| "memory_mode_label MM_LocalSemantic = ''local-semantic''"

fun privacy_label :: "privacy_property \<Rightarrow> string" where
  "privacy_label NoCouncilContent = ''no-council-content''"
| "privacy_label LocalMemoryOnly = ''local-memory-only''"
| "privacy_label NoRemoteInference = ''no-remote-inference''"
| "privacy_label EphemeralSession = ''ephemeral-session''"
| "privacy_label OperatorControlledRetention = ''operator-controlled-retention''"

text \<open>\<open>as u32\<close> keeps the low 32 bits.\<close>

definition as_u32 :: "nat \<Rightarrow> nat" where
  "as_u32 n = n mod 2 ^ 32"

definition load_from_ratio :: "tentacle \<Rightarrow> nat" where
  "load_from_ratio t =
     as_u32 (saturating_mul u64_max (max_concurrent_sessions (tn_capacity t))
               (tn_current_load_per_mille t) div 1000)"

definition from_tentacle :: "tentacle \<Rightarrow> bool \<Rightarrow> bool \<Rightarrow> int \<Rightarrow> route_candidate" where
  "from_tentacle t allowlisted registry_associated selected_reputation =
     (let cap = max_concurrent_sessions (tn_capacity t);
          load_from_capacity = saturating_sub cap (available_sessions (tn_capacity t));
          m = tn_capabilities t
      in \<lparr>rc_cthulhu_id = tn_owner t, rc_tentacle_id = tn_id t, rc_incarnation = tn_incarnation t,
          rc_endpoint = ''xmtp:'' @ xe_network (tn_xmtp_endpoint t) @ '':''
                        @ inbox_str (xe_inbox_id (tn_xmtp_endpoint t)),
          rc_health = th_status (tn_health t), rc_ready = (tn_lifecycle t = TL_Ready),
          rc_model_classes = bs_of_list (map cap_str (cm_model_classes m)),
          rc_tools = bs_of_list (map cap_str (cm_tools m)),
          rc_memory_modes = bs_of_list (map memory_mode_label (cm_memory_modes m)),
          rc_privacy_properties = bs_of_list (map privacy_label (cm_privacy_properties m)),
          rc_protocol_versions = bs_of_list (cm_protocol_versions m),
          rc_local_inference = (cm_inference_location m = IL_Local),
          rc_context_tokens = as_u32 (min (cm_context_limit_tokens m) u32_max),
          rc_capacity = cap,
          rc_current_load = min (max load_from_capacity (load_from_ratio t)) cap,
          rc_allowlisted = allowlisted, rc_registry_associated = registry_associated,
          rc_selected_reputation = selected_reputation\<rparr>)"

definition load_percent :: "route_candidate \<Rightarrow> nat" where
  "load_percent c =
     (if rc_capacity c = 0 then 100
      else min (saturating_mul u32_max (rc_current_load c) 100 div rc_capacity c) 100)"

subsection \<open>Evaluation\<close>

record candidate_explanation =
  ce_cthulhu_id :: cthulhu_id
  ce_tentacle_id :: tentacle_id
  ce_eligible :: bool
  ce_score :: int
  ce_reasons :: "string list"

definition push_if :: "bool \<Rightarrow> 'a \<Rightarrow> 'a list" where
  "push_if b x = (if b then [x] else [])"

definition advertised_failures :: "route_candidate \<Rightarrow> string list" where
  "advertised_failures c = concat
     (map (\<lambda>(values, label). push_if (invalid_collection MAX_ADVERTISED_VALUES values)
             (''advertised '' @ label @ '' are invalid or unbounded''))
        [(rc_model_classes c, ''model capabilities''), (rc_tools c, ''tools''),
         (rc_memory_modes c, ''memory modes''), (rc_privacy_properties c, ''privacy properties'')]
      @ [push_if (bs_len (rc_protocol_versions c) > 16
                  \<or> list_ex (\<lambda>v. \<not> is_ok (require_supported v)) (bs_elems (rc_protocol_versions c)))
           ''advertised protocol versions are invalid or unbounded'',
         push_if (rc_health c \<noteq> HS_Healthy \<or> \<not> rc_ready c) ''Tentacle is not healthy and ready'',
         push_if (length (rc_endpoint c) > 512 \<or> is_blank (rc_endpoint c)
                  \<or> \<not> starts_with ''xmtp:'' (rc_endpoint c) \<or> has_control (rc_endpoint c))
           ''endpoint is invalid'',
         push_if (rc_capacity c = 0 \<or> rc_capacity c > 1000000 \<or> rc_current_load c > rc_capacity c
                  \<or> rc_context_tokens c > 100000000
                  \<or> \<not> (-1000 \<le> rc_selected_reputation c \<and> rc_selected_reputation c \<le> 1000))
           ''capacity advertisement is invalid''])"

definition requirement_failures :: "routing_request \<Rightarrow> route_candidate \<Rightarrow> string list" where
  "requirement_failures r c =
     (let q = rt_requirements r; p = rt_trust_policy r in concat
     ([push_if (load_percent c > rt_maximum_load_percent r) ''load exceeds the request maximum'',
       push_if (cr_require_local_inference q \<and> \<not> rc_local_inference c)
         ''local inference is required'',
       push_if (rc_context_tokens c < cr_minimum_context_tokens q) ''context limit is too small'']
      @ map (\<lambda>(required, offered, label). push_if (\<not> bs_subset required offered)
               (''missing required '' @ label))
          [(cr_model_classes q, rc_model_classes c, ''model capability''),
           (cr_tools q, rc_tools c, ''tool''),
           (cr_memory_modes q, rc_memory_modes c, ''memory mode''),
           (cr_privacy_properties q, rc_privacy_properties c, ''privacy property'')]
      @ [push_if (\<not> bs_subset (cr_protocol_versions q) (rc_protocol_versions c))
           ''protocol version is incompatible'',
         push_if (tp_require_allowlisted p \<and> \<not> rc_allowlisted c)
           ''allowlist membership is required'',
         push_if (tp_require_registry_association p \<and> \<not> rc_registry_associated c)
           ''verified registry association is required'',
         push_if (case tp_minimum_reputation p of None \<Rightarrow> False
                  | Some minimum \<Rightarrow> rc_selected_reputation c < minimum)
           ''selected reputation signal is below policy'']))"

definition hard_failures :: "routing_request \<Rightarrow> route_candidate \<Rightarrow> string list" where
  "hard_failures r c = advertised_failures c @ requirement_failures r c"

definition clamp :: "int \<Rightarrow> int \<Rightarrow> int \<Rightarrow> int" where
  "clamp lo hi x = max lo (min hi x)"

definition headroom :: "route_candidate \<Rightarrow> nat" where
  "headroom c = min (saturating_sub (rc_capacity c) (rc_current_load c)) 10000"

text \<open>The contributions to the score in the order of the source, each with its reason if any.\<close>

definition score_parts :: "routing_request \<Rightarrow> route_candidate \<Rightarrow> (int \<times> string option) list" where
  "score_parts r c =
     [(if rt_explicit_tentacle r = Some (rc_tentacle_id c)
       then (1000000000000, Some ''explicit user Tentacle choice'')
       else if rt_explicit_cthulhu r = Some (rc_cthulhu_id c)
       then (500000000000, Some ''explicit user Cthulhu choice'')
       else (0, None)),
      (if rt_affinity_tentacle r = Some (rc_tentacle_id c)
       then (10000000000, Some ''valid session affinity'') else (0, None)),
      (if rt_home_tentacle r = Some (rc_tentacle_id c)
       then (1000000000, Some ''healthy home Tentacle'') else (0, None)),
      (if bs_member (rt_user_owned_tentacles r) (rc_tentacle_id c)
       then (100000000, Some ''user-owned Tentacle'') else (0, None)),
      (int (headroom c) * 100000, Some (''capacity headroom '' @ decimal (headroom c))),
      (int (min (bs_len (rc_protocol_versions c)) 16) * 10000, None),
      (if rc_registry_associated c then (5000, Some ''verified registry association'') else (0, None)),
      (if rc_allowlisted c then (5000, Some ''operator allowlist'') else (0, None)),
      (clamp (-1000) 1000 (rc_selected_reputation c) * 10, None),
      (int (saturating_sub 100 (load_percent c)),
       Some (''current load '' @ decimal (load_percent c) @ ''%''))]"

definition candidate_score :: "routing_request \<Rightarrow> route_candidate \<Rightarrow> int" where
  "candidate_score r c = sum_list (map fst (score_parts r c))"

definition evaluate_candidate :: "routing_request \<Rightarrow> route_candidate \<Rightarrow> candidate_explanation" where
  "evaluate_candidate r c =
     (if hard_failures r c \<noteq> []
      then \<lparr>ce_cthulhu_id = rc_cthulhu_id c, ce_tentacle_id = rc_tentacle_id c, ce_eligible = False,
            ce_score = 0, ce_reasons = hard_failures r c\<rparr>
      else \<lparr>ce_cthulhu_id = rc_cthulhu_id c, ce_tentacle_id = rc_tentacle_id c, ce_eligible = True,
            ce_score = candidate_score r c,
            ce_reasons = ''all hard requirements satisfied'' # List.map_filter snd (score_parts r c)\<rparr>)"

subsection \<open>The engine\<close>

record routing_decision =
  rd_request_id :: request_id
  rd_selected_cthulhu :: cthulhu_id
  rd_selected_tentacle :: tentacle_id
  rd_selected_incarnation :: incarnation
  rd_endpoint :: string
  rd_explanation :: "candidate_explanation list"

definition identity_of :: "route_candidate \<Rightarrow> cthulhu_id \<times> tentacle_id" where
  "identity_of c = (rc_cthulhu_id c, rc_tentacle_id c)"

fun identities_loop ::
  "(cthulhu_id \<times> tentacle_id) bset \<Rightarrow> route_candidate list \<Rightarrow> (routing_error, unit) result" where
  "identities_loop seen [] = Inr ()"
| "identities_loop seen (c # cs) =
     (if bs_member seen (identity_of c) then Inl RE_DuplicateCandidate
      else identities_loop (bs_insert (identity_of c) seen) cs)"

text \<open>The comparison: eligible before ineligible, higher score first, then the identity.\<close>

definition rank_of :: "candidate_explanation \<Rightarrow> bool \<times> int \<times> cthulhu_id \<times> tentacle_id" where
  "rank_of e = (\<not> ce_eligible e, - ce_score e, ce_cthulhu_id e, ce_tentacle_id e)"

definition route ::
  "routing_request \<Rightarrow> route_candidate list \<Rightarrow> nat \<Rightarrow> (routing_error, routing_decision) result" where
  "route r candidates now =
     and_then (run_checks
       [validate_routing_request r now,
        ensure (\<not> length candidates > MAX_CANDIDATES) RE_TooManyCandidates,
        identities_loop bs_empty candidates]) (\<lambda>_.
     let explanations = sort_key rank_of (map (evaluate_candidate r) candidates) in
     and_then (ok_or RE_NoEligibleCandidate (find ce_eligible explanations)) (\<lambda>selected.
       let c = the (find (\<lambda>c. rc_cthulhu_id c = ce_cthulhu_id selected
                             \<and> rc_tentacle_id c = ce_tentacle_id selected) candidates)
       in Inr \<lparr>rd_request_id = rt_request_id r, rd_selected_cthulhu = rc_cthulhu_id c,
               rd_selected_tentacle = rc_tentacle_id c, rd_selected_incarnation = rc_incarnation c,
               rd_endpoint = rc_endpoint c, rd_explanation = explanations\<rparr>))"

subsection \<open>Checks\<close>

lemma push_if_empty [simp]: "push_if b x = [] \<longleftrightarrow> \<not> b"
  by (simp add: push_if_def)

lemma identities_loop_ok:
  "identities_loop seen cs = Inr () \<longleftrightarrow>
     distinct (map identity_of cs) \<and> (\<forall>c\<in>set cs. \<not> bs_member seen (identity_of c))"
  by (induction cs arbitrary: seen) (auto, metis imageI)

lemma identities_loop_cases: "identities_loop seen cs = Inl e \<Longrightarrow> e = RE_DuplicateCandidate"
  by (induction cs arbitrary: seen) (auto split: if_splits)

definition eligible :: "routing_request \<Rightarrow> route_candidate \<Rightarrow> bool" where
  "eligible r c \<longleftrightarrow> hard_failures r c = []"

text \<open>The hard requirements an eligible candidate meets, said over the sets themselves.\<close>

definition advertisement_ok :: "route_candidate \<Rightarrow> bool" where
  "advertisement_ok c \<longleftrightarrow>
     (\<forall>values\<in>{rc_model_classes c, rc_tools c, rc_memory_modes c, rc_privacy_properties c}.
        bs_len values \<le> MAX_ADVERTISED_VALUES \<and> (\<forall>v. bs_member values v \<longrightarrow> valid_capability_label v))
     \<and> bs_len (rc_protocol_versions c) \<le> 16
     \<and> (\<forall>v. bs_member (rc_protocol_versions c) v \<longrightarrow> v = V1_0)
     \<and> rc_health c = HS_Healthy \<and> rc_ready c
     \<and> length (rc_endpoint c) \<le> 512 \<and> \<not> is_blank (rc_endpoint c)
     \<and> starts_with ''xmtp:'' (rc_endpoint c) \<and> \<not> has_control (rc_endpoint c)
     \<and> 0 < rc_capacity c \<and> rc_capacity c \<le> 1000000 \<and> rc_current_load c \<le> rc_capacity c
     \<and> rc_context_tokens c \<le> 100000000
     \<and> -1000 \<le> rc_selected_reputation c \<and> rc_selected_reputation c \<le> 1000"

definition requirements_met :: "routing_request \<Rightarrow> route_candidate \<Rightarrow> bool" where
  "requirements_met r c \<longleftrightarrow>
     load_percent c \<le> rt_maximum_load_percent r
     \<and> (cr_require_local_inference (rt_requirements r) \<longrightarrow> rc_local_inference c)
     \<and> cr_minimum_context_tokens (rt_requirements r) \<le> rc_context_tokens c
     \<and> (\<forall>v. bs_member (cr_model_classes (rt_requirements r)) v \<longrightarrow> bs_member (rc_model_classes c) v)
     \<and> (\<forall>v. bs_member (cr_tools (rt_requirements r)) v \<longrightarrow> bs_member (rc_tools c) v)
     \<and> (\<forall>v. bs_member (cr_memory_modes (rt_requirements r)) v \<longrightarrow> bs_member (rc_memory_modes c) v)
     \<and> (\<forall>v. bs_member (cr_privacy_properties (rt_requirements r)) v
            \<longrightarrow> bs_member (rc_privacy_properties c) v)
     \<and> (\<forall>v. bs_member (cr_protocol_versions (rt_requirements r)) v
            \<longrightarrow> bs_member (rc_protocol_versions c) v)
     \<and> (tp_require_allowlisted (rt_trust_policy r) \<longrightarrow> rc_allowlisted c)
     \<and> (tp_require_registry_association (rt_trust_policy r) \<longrightarrow> rc_registry_associated c)
     \<and> (\<forall>m. tp_minimum_reputation (rt_trust_policy r) = Some m \<longrightarrow> m \<le> rc_selected_reputation c)"

lemma invalid_collection_iff:
  "invalid_collection n s \<longleftrightarrow> \<not> (bs_len s \<le> n \<and> (\<forall>v. bs_member s v \<longrightarrow> valid_capability_label v))"
  by (auto simp: invalid_collection_def list_ex_iff bs_elems_set)

lemma unsupported_iff:
  "list_ex (\<lambda>v. \<not> is_ok (require_supported v)) (bs_elems s) \<longleftrightarrow> \<not> (\<forall>v. bs_member s v \<longrightarrow> v = V1_0)"
  by (auto simp: list_ex_iff bs_elems_set is_ok_unit)

lemma advertised_failures_none: "advertised_failures c = [] \<longleftrightarrow> advertisement_ok c"
  by (auto simp: advertised_failures_def advertisement_ok_def invalid_collection_iff unsupported_iff not_le)

lemma requirement_failures_none: "requirement_failures r c = [] \<longleftrightarrow> requirements_met r c"
  by (auto simp: requirement_failures_def requirements_met_def Let_def not_less split: option.splits)

lemma eligible_iff: "eligible r c \<longleftrightarrow> advertisement_ok c \<and> requirements_met r c"
  by (simp add: eligible_def hard_failures_def advertised_failures_none requirement_failures_none)

lemma evaluate_simps [simp]:
  "ce_cthulhu_id (evaluate_candidate r c) = rc_cthulhu_id c"
  "ce_tentacle_id (evaluate_candidate r c) = rc_tentacle_id c"
  "ce_eligible (evaluate_candidate r c) \<longleftrightarrow> eligible r c"
  "ce_score (evaluate_candidate r c) = (if eligible r c then candidate_score r c else 0)"
  by (simp_all add: evaluate_candidate_def eligible_def)

subsection \<open>The choice\<close>

text \<open>One eligible candidate is preferred to another by score, then by identity.\<close>

definition preference :: "routing_request \<Rightarrow> route_candidate \<Rightarrow> int \<times> cthulhu_id \<times> tentacle_id" where
  "preference r c = (- candidate_score r c, identity_of c)"

definition best :: "routing_request \<Rightarrow> route_candidate list \<Rightarrow> route_candidate \<Rightarrow> bool" where
  "best r cs c \<longleftrightarrow>
     c \<in> set cs \<and> eligible r c \<and> (\<forall>c'\<in>set cs. eligible r c' \<longrightarrow> preference r c \<le> preference r c')"

definition decision_for ::
  "routing_request \<Rightarrow> route_candidate list \<Rightarrow> route_candidate \<Rightarrow> routing_decision" where
  "decision_for r cs c =
     \<lparr>rd_request_id = rt_request_id r, rd_selected_cthulhu = rc_cthulhu_id c,
      rd_selected_tentacle = rc_tentacle_id c, rd_selected_incarnation = rc_incarnation c,
      rd_endpoint = rc_endpoint c,
      rd_explanation = sort_key rank_of (map (evaluate_candidate r) cs)\<rparr>"

lemma find_sorted_least:
  "sorted (map k xs) \<Longrightarrow> find P xs = Some x \<Longrightarrow> y \<in> set xs \<Longrightarrow> P y \<Longrightarrow> k x \<le> k y"
  by (induction xs) (auto split: if_splits)

lemma find_unique:
  "distinct (map k xs) \<Longrightarrow> x \<in> set xs \<Longrightarrow> (\<And>y. y \<in> set xs \<Longrightarrow> P y \<longleftrightarrow> k y = k x) \<Longrightarrow> find P xs = Some x"
  by (induction xs) (force split: if_splits)+

lemma find_candidate:
  assumes "distinct (map identity_of cs)" "c \<in> set cs"
  shows "find (\<lambda>c'. rc_cthulhu_id c' = rc_cthulhu_id c \<and> rc_tentacle_id c' = rc_tentacle_id c) cs = Some c"
  by (rule find_unique[OF assms(1,2)]) (auto simp: identity_of_def)

lemma best_unique:
  assumes "distinct (map identity_of cs)" "best r cs c" "best r cs c'"
  shows "c = c'"
proof -
  have "preference r c = preference r c'" using assms(2,3) unfolding best_def by (meson order_antisym)
  then have "identity_of c = identity_of c'" by (simp add: preference_def)
  with assms show ?thesis unfolding best_def by (auto simp: distinct_map dest: inj_onD)
qed

lemma first_explained_is_best:
  assumes "distinct (map identity_of cs)"
    and "find ce_eligible (sort_key rank_of (map (evaluate_candidate r) cs)) = Some e"
  shows "\<exists>c. best r cs c \<and> e = evaluate_candidate r c"
proof -
  let ?es = "sort_key rank_of (map (evaluate_candidate r) cs)"
  from find_Some_in[OF assms(2)] obtain c where c: "c \<in> set cs" "e = evaluate_candidate r c" "eligible r c"
    by auto
  have "preference r c \<le> preference r c'" if "c' \<in> set cs" "eligible r c'" for c'
  proof -
    have "rank_of e \<le> rank_of (evaluate_candidate r c')"
      by (rule find_sorted_least[OF _ assms(2)]) (auto simp: that)
    with c that show ?thesis by (auto simp: rank_of_def preference_def identity_of_def)
  qed
  with c show ?thesis by (auto simp: best_def)
qed

lemma route_ok:
  "route r cs now = Inr d \<longleftrightarrow>
     validate_routing_request r now = Inr () \<and> length cs \<le> MAX_CANDIDATES
     \<and> distinct (map identity_of cs) \<and> (\<exists>c. best r cs c \<and> d = decision_for r cs c)"
proof (cases "validate_routing_request r now = Inr () \<and> length cs \<le> MAX_CANDIDATES
     \<and> distinct (map identity_of cs)")
  case False
  then show ?thesis by (auto simp: route_def identities_loop_ok)
next
  case True
  let ?es = "sort_key rank_of (map (evaluate_candidate r) cs)"
  have checks: "run_checks [validate_routing_request r now,
        ensure (\<not> length cs > MAX_CANDIDATES) RE_TooManyCandidates, identities_loop bs_empty cs] = Inr ()"
    using True by (simp add: identities_loop_ok run_checks.simps(1))
  show ?thesis
  proof (cases "find ce_eligible ?es")
    case None
    then have "\<not> best r cs c" for c by (auto simp: find_None_iff best_def)
    with checks None show ?thesis by (simp add: route_def)
  next
    case (Some e)
    then obtain c where c: "best r cs c" "e = evaluate_candidate r c"
      using first_explained_is_best True by blast
    then have "find (\<lambda>c. rc_cthulhu_id c = ce_cthulhu_id e \<and> rc_tentacle_id c = ce_tentacle_id e) cs = Some c"
      using find_candidate True by (simp add: best_def)
    with checks Some have "route r cs now = Inr (decision_for r cs c)"
      by (simp add: route_def decision_for_def)
    moreover have "(\<exists>c'. best r cs c' \<and> d = decision_for r cs c') \<longleftrightarrow> d = decision_for r cs c"
      using c(1) True best_unique[of cs r _ c] by blast
    ultimately show ?thesis using True by auto
  qed
qed

definition routable :: "routing_request \<Rightarrow> route_candidate list \<Rightarrow> nat \<Rightarrow> bool" where
  "routable r cs now \<longleftrightarrow>
     validate_routing_request r now = Inr () \<and> length cs \<le> MAX_CANDIDATES
     \<and> distinct (map identity_of cs) \<and> (\<exists>c\<in>set cs. eligible r c)"

lemma route_progress:
  assumes "routable r cs now"
  shows "\<exists>c. best r cs c \<and> route r cs now = Inr (decision_for r cs c)"
proof -
  have "find ce_eligible (sort_key rank_of (map (evaluate_candidate r) cs)) \<noteq> None"
    using assms by (auto simp: find_None_iff routable_def)
  then obtain c where "best r cs c"
    using first_explained_is_best assms unfolding routable_def by blast
  then show ?thesis using assms by (auto simp: route_ok routable_def)
qed

lemma route_errors:
  assumes "\<not> routable r cs now"
  shows "route r cs now =
     (case validate_routing_request r now of
        Inl e \<Rightarrow> Inl e
      | Inr _ \<Rightarrow>
          if MAX_CANDIDATES < length cs then Inl RE_TooManyCandidates
          else if \<not> distinct (map identity_of cs) then Inl RE_DuplicateCandidate
          else Inl RE_NoEligibleCandidate)"
proof (cases "validate_routing_request r now")
  case (Inr u)
  have "identities_loop bs_empty cs = Inl RE_DuplicateCandidate" if "\<not> distinct (map identity_of cs)"
    using that identities_loop_ok[of bs_empty cs] identities_loop_cases[of bs_empty cs]
    by (cases "identities_loop bs_empty cs") auto
  moreover have "identities_loop bs_empty cs = Inr ()" if "distinct (map identity_of cs)"
    using that by (simp add: identities_loop_ok)
  moreover have "find ce_eligible (sort_key rank_of (map (evaluate_candidate r) cs)) = None"
    if "\<not> (\<exists>c\<in>set cs. eligible r c)"
    using that by (auto simp: find_None_iff)
  ultimately show ?thesis
    using Inr assms by (auto simp: route_def run_checks.simps ensure_def routable_def not_le)
qed (simp add: route_def)

subsection \<open>The score\<close>

definition choice_tier :: "routing_request \<Rightarrow> route_candidate \<Rightarrow> nat" where
  "choice_tier r c =
     (if rt_explicit_tentacle r = Some (rc_tentacle_id c) then 2
      else if rt_explicit_cthulhu r = Some (rc_cthulhu_id c) then 1 else 0)"

definition affinity_tier :: "routing_request \<Rightarrow> route_candidate \<Rightarrow> nat" where
  "affinity_tier r c = (if rt_affinity_tentacle r = Some (rc_tentacle_id c) then 1 else 0)"

definition minor_score :: "routing_request \<Rightarrow> route_candidate \<Rightarrow> int" where
  "minor_score r c = sum_list (map fst (drop 2 (score_parts r c)))"

lemma load_percent_bound: "load_percent c \<le> 100"
  by (simp add: load_percent_def)

lemma clamp_bounds: "lo \<le> hi \<Longrightarrow> lo \<le> clamp lo hi x \<and> clamp lo hi x \<le> hi"
  by (auto simp: clamp_def)

lemma minor_score_bounds: "- 10000 \<le> minor_score r c \<and> minor_score r c \<le> 2100180100"
proof -
  have "headroom c \<le> 10000" by (simp add: headroom_def)
  moreover have "min (bs_len (rc_protocol_versions c)) 16 \<le> 16" by simp
  moreover have "saturating_sub 100 (load_percent c) \<le> 100" by (simp add: saturating_sub_def)
  ultimately show ?thesis
    using clamp_bounds[of "-1000" 1000 "rc_selected_reputation c"]
    by (auto simp: minor_score_def score_parts_def simp del: min.bounded_iff)
qed

lemma score_tiers:
  "candidate_score r c =
     500000000000 * int (choice_tier r c) + 10000000000 * int (affinity_tier r c) + minor_score r c"
  by (simp add: candidate_score_def minor_score_def score_parts_def choice_tier_def affinity_tier_def)

lemma score_less_tier:
  assumes "choice_tier r c < choice_tier r c' \<or> choice_tier r c = choice_tier r c' \<and> affinity_tier r c < affinity_tier r c'"
  shows "candidate_score r c < candidate_score r c'"
proof -
  have "affinity_tier r x \<le> 1" for x by (simp add: affinity_tier_def)
  with assms show ?thesis
    using minor_score_bounds[of r c] minor_score_bounds[of r c'] unfolding score_tiers
    by (smt (verit) of_nat_1 of_nat_le_iff of_nat_less_iff zless_iff_Suc_zadd of_nat_Suc of_nat_add of_nat_0_le_iff)
qed

lemma rank_injective: "distinct (map identity_of cs) \<Longrightarrow> inj_on rank_of (evaluate_candidate r ` set cs)"
  by (auto simp: inj_on_def rank_of_def distinct_map identity_of_def)

lemma explanations_permute:
  assumes "mset cs = mset cs'" "distinct (map identity_of cs)"
  shows "sort_key rank_of (map (evaluate_candidate r) cs) = sort_key rank_of (map (evaluate_candidate r) cs')"
proof (rule sort_key_inj_key_eq)
  show "mset (map (evaluate_candidate r) cs) = mset (sort_key rank_of (map (evaluate_candidate r) cs'))"
    using assms(1) by (simp add: mset_map)
  show "inj_on rank_of (set (map (evaluate_candidate r) cs))" using rank_injective[OF assms(2)] by simp
qed simp

subsection \<open>Advertisements of valid Tentacles\<close>

text \<open>
  The newtypes inside a Tentacle record are built by their checked constructors.
\<close>

definition names_checked :: "tentacle \<Rightarrow> bool" where
  "names_checked t \<longleftrightarrow>
     is_ok (XmtpInboxRef_new (inbox_str (xe_inbox_id (tn_xmtp_endpoint t))))
     \<and> (\<forall>n\<in>set (cm_model_classes (tn_capabilities t)) \<union> set (cm_tools (tn_capabilities t)).
          is_ok (CapabilityName_new (cap_str n)))"

lemma slug_is_label:
  assumes "slug_grammar s" "length s \<le> 128"
  shows "valid_capability_label s"
proof -
  have "c \<in> set s \<Longrightarrow> is_ascii_lowercase c \<or> is_ascii_digit c \<or> c = CHR ''-'' \<or> c = CHR ''_''" for c
    using assms(1) by (auto simp: slug_grammar_def slug_char_def is_separator_def)
  then show ?thesis
    using assms by (auto simp: valid_capability_label_def slug_grammar_def list_all_iff)
qed

lemma enum_labels_valid:
  "valid_capability_label (memory_mode_label m)" "valid_capability_label (privacy_label p)"
  by (cases m; simp add: valid_capability_label_def ascii_defs)
    (cases p; simp add: valid_capability_label_def ascii_defs)

lemma checked_name_label:
  assumes "is_ok (CapabilityName_new (cap_str n))"
  shows "valid_capability_label (cap_str n)"
proof -
  have "slug_grammar (cap_str n) \<and> length (cap_str n) \<le> 64"
    using assms by (cases "CapabilityName_new (cap_str n)") (auto simp: CapabilityName_new_def)
  then show ?thesis by (intro slug_is_label) auto
qed

lemma checked_inbox:
  assumes "is_ok (XmtpInboxRef_new s)"
  shows "length s \<le> 128 \<and> (\<forall>c\<in>set s. 48 \<le> byte c \<and> byte c < 103)"
proof (cases "XmtpInboxRef_new s")
  case (Inr r)
  then have "length s \<le> 128" "lower_hex s"
    by (auto simp: XmtpInboxRef_new_def MAX_HEX_BYTES_def split: if_splits)
  then show ?thesis
    by (auto simp: lower_hex_def list_all_iff is_ascii_hexdigit_def is_ascii_digit_def is_ascii_uppercase_def)
qed (use assms in simp)

lemma card_image_length: "length xs \<le> n \<Longrightarrow> card (f ` set xs) \<le> n"
  by (metis card_length length_map list.set_map order_trans)

lemma endpoint_plain:
  assumes "slug_grammar net" "\<forall>c\<in>set inbox. 48 \<le> byte c \<and> byte c < 103"
  shows "starts_with ''xmtp:'' (''xmtp:'' @ net @ '':'' @ inbox)
    \<and> \<not> is_blank (''xmtp:'' @ net @ '':'' @ inbox) \<and> \<not> has_control (''xmtp:'' @ net @ '':'' @ inbox)"
proof -
  have bytes: "\<forall>c\<in>set (''xmtp:'' @ net @ '':'' @ inbox). 45 \<le> byte c \<and> byte c < 123"
    using assms slug_char_ascii by (auto simp: slug_grammar_def byte_def)
  then have ascii: "is_ascii (''xmtp:'' @ net @ '':'' @ inbox)"
    unfolding is_ascii_def list_all_iff by fastforce
  have "\<not> has_control (''xmtp:'' @ net @ '':'' @ inbox)"
    unfolding has_control_ascii[OF ascii] list_ex_iff using bytes by fastforce
  moreover have "\<not> is_blank (''xmtp:'' @ net @ '':'' @ inbox)"
    unfolding is_blank_def utf8_chars_ascii[OF ascii] by (simp add: is_whitespace_def byte_def)
  ultimately show ?thesis by (simp add: starts_with_def)
qed

lemma bounded_load:
  "cap \<le> 1000000 \<Longrightarrow> ld \<le> 1000 \<Longrightarrow> as_u32 (saturating_mul u64_max cap ld div 1000) = cap * ld div 1000"
proof -
  assume a: "cap \<le> 1000000" "ld \<le> 1000"
  then have p: "cap * ld \<le> 1000000 * 1000" by (rule mult_le_mono)
  then have "cap * ld div 1000 \<le> 1000000 * 1000 div 1000" by (rule div_le_mono)
  with p show ?thesis by (simp add: as_u32_def saturating_mul_def u64_max_def)
qed

lemma tentacle_advertises:
  assumes "validate_tentacle t = Inr ()" "names_checked t" "tn_lifecycle t = TL_Ready"
    "th_status (tn_health t) = HS_Healthy" "max_concurrent_sessions (tn_capacity t) \<le> 1000000"
    "-1000 \<le> rep" "rep \<le> 1000"
  shows "advertisement_ok (from_tentacle t a g rep)"
proof -
  let ?m = "tn_capabilities t" and ?e = "tn_xmtp_endpoint t"
  have m: "validate_manifest ?m = Inr ()" and e: "length (xe_network ?e) \<le> 32" "slug_grammar (xe_network ?e)"
    and cap: "0 < max_concurrent_sessions (tn_capacity t)"
    using assms(1) unfolding validate_tentacle_ok by auto
  have inbox: "length (inbox_str (xe_inbox_id ?e)) \<le> 128"
    "\<forall>c\<in>set (inbox_str (xe_inbox_id ?e)). 48 \<le> byte c \<and> byte c < 103"
    using checked_inbox assms(2) unfolding names_checked_def by blast+
  have labels: "\<forall>n\<in>set (cm_model_classes ?m) \<union> set (cm_tools ?m). valid_capability_label (cap_str n)"
    using checked_name_label assms(2) unfolding names_checked_def by blast
  have "length (cm_model_classes ?m) \<le> 64" "length (cm_tools ?m) \<le> 64" "length (cm_memory_modes ?m) \<le> 64"
    "length (cm_privacy_properties ?m) \<le> 64" "cm_context_limit_tokens ?m \<le> 100000000"
    using m by (simp_all add: validate_manifest_def MAX_MODEL_CLASSES_def MAX_TOOLS_def
        MAX_MEMORY_MODES_def MAX_PRIVACY_PROPERTIES_def del: validate_capacity_ok)
  with labels enum_labels_valid inbox e cap assms(3-7) endpoint_plain[OF e(2) inbox(2)]
  show ?thesis
    by (auto simp: advertisement_ok_def from_tentacle_def Let_def manifest_versions[OF m] bs_len_of_list
        card_image_length MAX_ADVERTISED_VALUES_def as_u32_def u32_max_def)
qed

subsection \<open>A sample request\<close>

definition any_requirements :: capability_requirements where
  "any_requirements =
     \<lparr>cr_model_classes = bs_empty, cr_tools = bs_empty, cr_memory_modes = bs_empty,
      cr_privacy_properties = bs_empty, cr_protocol_versions = bs_empty,
      cr_require_local_inference = False, cr_minimum_context_tokens = 0\<rparr>"

definition any_request :: routing_request where
  "any_request =
     \<lparr>rt_request_id = Ident ''request_one'', rt_session_id = Ident ''session_one'',
      rt_requirements = any_requirements, rt_explicit_cthulhu = None, rt_explicit_tentacle = None,
      rt_affinity_tentacle = None, rt_home_tentacle = None, rt_user_owned_tentacles = bs_empty,
      rt_trust_policy = \<lparr>tp_require_allowlisted = False, tp_require_registry_association = False,
                         tp_minimum_reputation = None\<rparr>,
      rt_maximum_load_percent = 100, rt_expires_at = 200\<rparr>"

definition ready_home :: tentacle where
  "ready_home = home_tentacle\<lparr>tn_lifecycle := TL_Ready\<rparr>"

definition home_candidate :: "bool \<Rightarrow> int \<Rightarrow> route_candidate" where
  "home_candidate registered rep = from_tentacle ready_home True registered rep"

definition other_candidate :: "bool \<Rightarrow> int \<Rightarrow> route_candidate" where
  "other_candidate registered rep = (home_candidate registered rep)\<lparr>rc_tentacle_id := Ident ''tentacle_other''\<rparr>"

lemma ready_home_valid: "validate_tentacle ready_home = Inr ()"
  using home_tentacle_valid by (auto simp: ready_home_def validate_tentacle_ok)

lemma ready_home_checked: "names_checked ready_home"
  by (simp add: names_checked_def ready_home_def home_tentacle_def home_manifest_def XmtpInboxRef_new_def
      MIN_HEX_BYTES_def MAX_HEX_BYTES_def lower_hex_def ascii_defs is_ok_unit CapabilityName_new_def
      and_then_def)
    (simp add: validate_slug_def bounded_text_def slug_char_def is_separator_def ascii_defs require_def
      ensure_def has_control_ascii is_ascii_def run_checks.simps)

lemma any_requirements_met: "requirements_met any_request c"
  by (simp add: requirements_met_def any_request_def any_requirements_def load_percent_bound)

lemma any_request_valid: "now < 200 \<Longrightarrow> validate_routing_request any_request now = Inr ()"
  by (simp add: validate_routing_request_def any_request_def any_requirements_def
      validate_capability_requirements_def invalid_collection_iff unsupported_iff run_checks.simps(1))

lemma home_candidate_ok:
  assumes "-1000 \<le> rep" "rep \<le> 1000"
  shows "advertisement_ok (home_candidate g rep)" "advertisement_ok (other_candidate g rep)"
proof -
  show "advertisement_ok (home_candidate g rep)"
    unfolding home_candidate_def
    by (rule tentacle_advertises[OF ready_home_valid ready_home_checked _ _ _ assms])
      (simp_all add: ready_home_def home_tentacle_def home_capacity_def)
  then show "advertisement_ok (other_candidate g rep)"
    by (simp add: other_candidate_def advertisement_ok_def)
qed

lemma sample_identities:
  "identity_of (home_candidate g rep) = (Ident ''cthulhu_archivist'', Ident ''tentacle_home'')"
  "identity_of (other_candidate g rep) = (Ident ''cthulhu_archivist'', Ident ''tentacle_other'')"
  by (simp_all add: identity_of_def home_candidate_def other_candidate_def from_tentacle_def ready_home_def
      home_tentacle_def Let_def)

lemma sample_routable:
  assumes "-1000 \<le> a" "a \<le> 1000"
  shows "routable any_request [home_candidate g a, other_candidate h b] 100"
  using home_candidate_ok(1)[OF assms]
  by (simp add: routable_def any_request_valid MAX_CANDIDATES_def sample_identities eligible_iff
      any_requirements_met)

subsection \<open>Properties\<close>

text \<open>
  C2: the engine answers with a decision exactly when the request is valid and unexpired, the
  candidates are few enough and distinct, and one of them meets every hard requirement; the
  decision names the eligible candidate with the highest score, ties broken by the least
  identity, with that candidate's own incarnation and endpoint.
\<close>

theorem route_selects_best:
  "route r cs now = Inr d \<longleftrightarrow>
     validate_routing_request r now = Inr () \<and> length cs \<le> 1024 \<and> distinct (map identity_of cs)
     \<and> (\<exists>c\<in>set cs. advertisement_ok c \<and> requirements_met r c
          \<and> (\<forall>c'\<in>set cs. advertisement_ok c' \<and> requirements_met r c' \<longrightarrow>
               candidate_score r c' < candidate_score r c
               \<or> candidate_score r c' = candidate_score r c \<and> identity_of c \<le> identity_of c')
          \<and> rd_request_id d = rt_request_id r
          \<and> (rd_selected_cthulhu d, rd_selected_tentacle d) = identity_of c
          \<and> rd_selected_incarnation d = rc_incarnation c \<and> rd_endpoint d = rc_endpoint c
          \<and> rd_explanation d = sort_key rank_of (map (evaluate_candidate r) cs))"
proof -
  have "d = decision_for r cs c \<longleftrightarrow> rd_request_id d = rt_request_id r
      \<and> (rd_selected_cthulhu d, rd_selected_tentacle d) = identity_of c
      \<and> rd_selected_incarnation d = rc_incarnation c \<and> rd_endpoint d = rc_endpoint c
      \<and> rd_explanation d = sort_key rank_of (map (evaluate_candidate r) cs)" for c
    by (cases d) (simp add: decision_for_def identity_of_def)
  moreover have "preference r c \<le> preference r c' \<longleftrightarrow> candidate_score r c' < candidate_score r c
      \<or> candidate_score r c' = candidate_score r c \<and> identity_of c \<le> identity_of c'" for c c'
    by (auto simp: preference_def)
  ultimately show ?thesis
    unfolding route_ok best_def eligible_iff MAX_CANDIDATES_def by blast
qed

theorem route_selects_best_witness:
  "\<exists>d. route any_request [home_candidate True 0, other_candidate True 0] 100 = Inr d
     \<and> validate_routing_request any_request 100 = Inr ()"
proof -
  obtain d where "route any_request [home_candidate True 0, other_candidate True 0] 100 = Inr d"
    using route_progress[OF sample_routable[of 0]] by fastforce
  then show ?thesis using route_selects_best by blast
qed

text \<open>
  The decision does not depend on the order in which candidates arrive; nor does any error.
\<close>

theorem route_order_independent:
  assumes "mset cs = mset cs'"
  shows "route r cs now = route r cs' now"
proof -
  have len: "length cs = length cs'" and sets: "set cs = set cs'"
    using assms mset_eq_length mset_eq_setD by blast+
  have dist: "distinct (map identity_of cs) = distinct (map identity_of cs')"
    using assms by (metis mset_eq_imp_distinct_iff mset_map)
  have same: "routable r cs now \<longleftrightarrow> routable r cs' now" by (simp add: routable_def len sets dist)
  show ?thesis
  proof (cases "routable r cs now")
    case True
    then obtain c where c: "best r cs c" "route r cs now = Inr (decision_for r cs c)"
      using route_progress by blast
    have "best r cs' c" using c(1) sets by (simp add: best_def)
    moreover have "decision_for r cs c = decision_for r cs' c"
      using explanations_permute[OF assms] True by (simp add: decision_for_def routable_def)
    ultimately have "route r cs' now = Inr (decision_for r cs c)"
      using True same by (auto simp: route_ok routable_def)
    with c show ?thesis by simp
  next
    case False
    then show ?thesis using same by (simp add: route_errors len dist)
  qed
qed

theorem route_order_independent_witness:
  "route any_request [home_candidate True 0, other_candidate True 0] 100
     = route any_request [other_candidate True 0, home_candidate True 0] 100"
  by (rule route_order_independent) simp

text \<open>
  Explicit choice and affinity are honoured before every other signal.  No eligible
  candidate stands in a higher tier than the selected one: the chosen Tentacle first, then the
  chosen Cthulhu, then the one with session affinity.
\<close>

theorem route_honours_choice:
  assumes "route r cs now = Inr d" "c' \<in> set cs" "eligible r c'"
  shows "\<exists>c\<in>set cs. identity_of c = (rd_selected_cthulhu d, rd_selected_tentacle d) \<and> eligible r c
    \<and> (choice_tier r c' < choice_tier r c
       \<or> choice_tier r c' = choice_tier r c \<and> affinity_tier r c' \<le> affinity_tier r c)"
proof -
  obtain c where c: "best r cs c" "d = decision_for r cs c" using assms(1) by (auto simp: route_ok)
  then have "\<not> candidate_score r c < candidate_score r c'"
    using assms(2,3) by (auto simp: best_def preference_def)
  then have "choice_tier r c' < choice_tier r c
       \<or> choice_tier r c' = choice_tier r c \<and> affinity_tier r c' \<le> affinity_tier r c"
    using score_less_tier[of r c c'] by linarith
  with c show ?thesis by (auto simp: best_def decision_for_def identity_of_def)
qed

theorem route_honours_choice_witness:
  "\<exists>d. route (any_request\<lparr>rt_explicit_tentacle := Some (Ident ''tentacle_other'')\<rparr>)
          [home_candidate True 1000, other_candidate False 0] 100 = Inr d
     \<and> rd_selected_tentacle d = Ident ''tentacle_other''"
proof -
  let ?r = "any_request\<lparr>rt_explicit_tentacle := Some (Ident ''tentacle_other'')\<rparr>"
  let ?o = "other_candidate False 0" and ?h = "home_candidate True 1000"
  have met: "requirements_met ?r c" for c
    using any_requirements_met[of c] by (simp add: requirements_met_def any_request_def)
  have el: "eligible ?r ?o" using home_candidate_ok(2)[of 0 False] met by (simp add: eligible_iff)
  then have "routable ?r [?h, ?o] 100"
    using any_request_valid[of 100]
    by (simp add: routable_def MAX_CANDIDATES_def sample_identities validate_routing_request_def any_request_def)
  then obtain d where d: "route ?r [?h, ?o] 100 = Inr d" using route_progress by blast
  have ids: "rc_tentacle_id ?o = Ident ''tentacle_other''" "rc_tentacle_id ?h = Ident ''tentacle_home''"
    using sample_identities by (auto simp: identity_of_def)
  have "choice_tier ?r ?o = 2" "choice_tier ?r ?h = 0" by (simp_all add: choice_tier_def ids any_request_def)
  with route_honours_choice[OF d _ el] d ids show ?thesis by (force simp: identity_of_def)
qed

lemma abs_partial_sum: "\<bar>sum_list (take n xs)\<bar> \<le> sum_list (map abs (xs :: int list))"
proof (induction xs arbitrary: n)
  case (Cons x xs)
  have "\<bar>sum_list (take (n - 1) xs)\<bar> \<le> sum_list (map abs xs)" by (rule Cons.IH)
  moreover have "0 \<le> sum_list (map abs xs)" by (rule sum_list_nonneg) auto
  ultimately show ?case by (cases n) auto
qed simp

lemma score_parts_total: "sum_list (map abs (map fst (score_parts r c))) \<le> 1012100190100"
proof -
  have "headroom c \<le> 10000" by (simp add: headroom_def)
  moreover have "min (bs_len (rc_protocol_versions c)) 16 \<le> 16" by simp
  moreover have "saturating_sub 100 (load_percent c) \<le> 100" by (simp add: saturating_sub_def)
  ultimately show ?thesis
    using clamp_bounds[of "-1000" 1000 "rc_selected_reputation c"]
    by (auto simp: score_parts_def simp del: min.bounded_iff)
qed

text \<open>
  the score never overflows its \<open>i64\<close>: every partial sum of the contributions stays below
  2 to the 40th, whatever the request and the candidate hold, and the load is a percentage.
\<close>

theorem score_fits_i64:
  "\<bar>sum_list (map fst (take n (score_parts r c)))\<bar> < 2 ^ 40
   \<and> \<bar>ce_score (evaluate_candidate r c)\<bar> < 2 ^ 40 \<and> load_percent c \<le> 100"
proof -
  have partial: "\<bar>sum_list (map fst (take n (score_parts r c)))\<bar> < 2 ^ 40" for n
    using abs_partial_sum[of n "map fst (score_parts r c)"] score_parts_total[of r c]
    by (simp add: take_map)
  moreover have "\<bar>candidate_score r c\<bar> < 2 ^ 40"
    using partial[of "length (score_parts r c)"] by (simp add: candidate_score_def)
  ultimately show ?thesis by (simp add: load_percent_bound)
qed

text \<open>
  a Tentacle that passes validation, is ready and healthy and offers at most a million
  sessions is always routable: the candidate made from it meets every hard requirement of a
  request that asks for nothing, at every load.
\<close>

theorem valid_tentacle_routable:
  assumes "validate_tentacle t = Inr ()" "names_checked t" "tn_lifecycle t = TL_Ready"
    "th_status (tn_health t) = HS_Healthy" "max_concurrent_sessions (tn_capacity t) \<le> 1000000"
    "-1000 \<le> rep" "rep \<le> 1000" "now < 200"
  shows "\<exists>d. route any_request [from_tentacle t a g rep] now = Inr d
    \<and> rd_selected_cthulhu d = tn_owner t \<and> rd_selected_tentacle d = tn_id t
    \<and> rd_selected_incarnation d = tn_incarnation t"
proof -
  let ?c = "from_tentacle t a g rep"
  have "eligible any_request ?c"
    using tentacle_advertises[OF assms(1-7)] by (simp add: eligible_iff any_requirements_met)
  then have "routable any_request [?c] now"
    using any_request_valid[OF assms(8)] by (simp add: routable_def MAX_CANDIDATES_def)
  then obtain c where "best any_request [?c] c" "route any_request [?c] now = Inr (decision_for any_request [?c] c)"
    using route_progress by blast
  then show ?thesis by (auto simp: best_def decision_for_def from_tentacle_def Let_def)
qed

theorem valid_tentacle_routable_witness:
  "\<exists>d. route any_request [home_candidate False 5] 100 = Inr d \<and> rd_selected_tentacle d = Ident ''tentacle_home''"
  using valid_tentacle_routable[OF ready_home_valid ready_home_checked, of 5 100 True False]
  by (auto simp: home_candidate_def ready_home_def home_tentacle_def home_capacity_def)

text \<open>
  Registry status does not outrank reputation.  Between two candidates that differ in
  identity, registry association and reputation alone, the unregistered one wins as soon as its
  reputation exceeds the other's by more than 500 points.
\<close>

theorem reputation_outweighs_registry:
  assumes "rc_registry_associated c" "\<not> rc_registry_associated c'"
    "c' = c\<lparr>rc_cthulhu_id := i, rc_tentacle_id := j, rc_registry_associated := False, rc_selected_reputation := b\<rparr>"
    "rt_explicit_tentacle r = None" "rt_explicit_cthulhu r = None" "rt_affinity_tentacle r = None"
    "rt_home_tentacle r = None" "rt_user_owned_tentacles r = bs_empty"
    "-1000 \<le> rc_selected_reputation c" "rc_selected_reputation c \<le> 1000" "-1000 \<le> b" "b \<le> 1000"
  shows "candidate_score r c < candidate_score r c' \<longleftrightarrow> rc_selected_reputation c + 500 < b"
proof -
  have "headroom c' = headroom c" "load_percent c' = load_percent c"
    using assms(3) by (simp_all add: headroom_def load_percent_def)
  then show ?thesis
    using assms by (simp add: candidate_score_def score_parts_def clamp_def) linarith
qed

theorem reputation_outweighs_registry_witness:
  "\<exists>d. route any_request [home_candidate True 0, other_candidate False 600] 100 = Inr d
     \<and> rd_selected_tentacle d = Ident ''tentacle_other''"
proof -
  let ?h = "home_candidate True 0" and ?o = "other_candidate False 600"
  have fields: "rc_registry_associated ?h" "rc_selected_reputation ?h = 0"
    "?o = ?h\<lparr>rc_cthulhu_id := rc_cthulhu_id ?o, rc_tentacle_id := rc_tentacle_id ?o,
            rc_registry_associated := False, rc_selected_reputation := 600\<rparr>"
    by (simp_all add: home_candidate_def other_candidate_def from_tentacle_def Let_def)
  have higher: "candidate_score any_request ?h < candidate_score any_request ?o"
    using reputation_outweighs_registry[OF fields(1) _ fields(3), of any_request] fields(2)
    by (simp add: any_request_def other_candidate_def home_candidate_def from_tentacle_def Let_def)
  have el: "eligible any_request ?o"
    using home_candidate_ok(2)[of 600 False] by (simp add: eligible_iff any_requirements_met)
  obtain c where c: "best any_request [?h, ?o] c"
      "route any_request [?h, ?o] 100 = Inr (decision_for any_request [?h, ?o] c)"
    using route_progress[OF sample_routable[of 0]] by fastforce
  have "c = ?o" using c(1) higher el by (auto simp: best_def preference_def)
  with c show ?thesis by (simp add: decision_for_def other_candidate_def)
qed

end
