(* ===== verification/Council_Lease.thy ===== *)
theory Council_Lease
  imports Council_Routing
begin

section \<open>Leases (cthuwu-council: lease.rs)\<close>

text \<open>
  A lease assigns a session to one incarnation of one Tentacle for a bounded time; each new
  lease of a session carries the next generation, which fences the older ones.  An operation
  that fails returns before its first assignment, so it is modelled as a result: the error, or
  the new manager with what the operation returns.
\<close>

definition MAX_LEASES :: nat where "MAX_LEASES = 16384"
definition MAX_SESSIONS :: nat where "MAX_SESSIONS = 16384"
definition MAX_LEASE_LIFETIME_SECONDS :: nat where "MAX_LEASE_LIFETIME_SECONDS = 24 * 60 * 60"

datatype lease_error =
    LS_Invalid string
  | LS_NotActive
  | LS_WrongAssignee
  | LS_StaleGeneration
  | LS_Expired
  | LS_NotYetActive
  | LS_ActiveLeaseExists
  | LS_NotFound

datatype user_reference = UR_XmtpInbox xmtp_inbox_ref | UR_Opaque string

fun validate_user_reference :: "user_reference \<Rightarrow> (lease_error, unit) result" where
  "validate_user_reference (UR_XmtpInbox r) = Inr ()"
| "validate_user_reference (UR_Opaque value) =
     (if value = [] \<or> length value > 256
         \<or> \<not> list_all (\<lambda>b. is_ascii_alphanumeric b
              \<or> b = CHR ''-'' \<or> b = CHR ''_'' \<or> b = CHR ''.'' \<or> b = CHR '':'') value
      then Inl (LS_Invalid ''invalid opaque user reference'') else Inr ())"

datatype lease_status = LS_Granted | LS_Active | LS_Released | LS_Revoked | LS_ExpiredStatus

record lease =
  ls_id :: lease_id
  ls_session_id :: session_id
  ls_user :: user_reference
  ls_assigned_cthulhu :: cthulhu_id
  ls_assigned_tentacle :: tentacle_id
  ls_tentacle_incarnation :: incarnation
  ls_generation :: nat
  ls_issued_at :: nat
  ls_expires_at :: nat
  ls_renewal_deadline :: nat
  ls_routing_request :: routing_request
  ls_issuer :: cthulhu_id
  ls_status :: lease_status

definition is_live :: "lease \<Rightarrow> bool" where
  "is_live l \<longleftrightarrow> ls_status l = LS_Granted \<or> ls_status l = LS_Active"

definition validate_lease :: "lease \<Rightarrow> (lease_error, unit) result" where
  "validate_lease l = run_checks
     [validate_user_reference (ls_user l),
      map_err (\<lambda>_. LS_Invalid ''Tentacle incarnation is invalid'')
        (validate_incarnation (ls_tentacle_incarnation l)),
      ensure (\<not> (ls_generation l = 0
                 \<or> ls_issued_at l \<ge> ls_expires_at l
                 \<or> saturating_sub (ls_expires_at l) (ls_issued_at l) > MAX_LEASE_LIFETIME_SECONDS
                 \<or> ls_renewal_deadline l \<le> ls_issued_at l
                 \<or> ls_renewal_deadline l > ls_expires_at l
                 \<or> rt_session_id (ls_routing_request l) \<noteq> ls_session_id l))
        (LS_Invalid ''lease bounds are inconsistent'')]"

record lease_manager =
  lm_leases :: "(lease_id, lease) bmap"
  lm_active_by_session :: "(session_id, lease_id) bmap"
  lm_generations :: "(session_id, nat) bmap"

definition lease_manager_default :: lease_manager where
  "lease_manager_default =
     \<lparr>lm_leases = bm_empty, lm_active_by_session = bm_empty, lm_generations = bm_empty\<rparr>"

record lease_timing =
  lt_issued_at :: nat
  lt_expires_at :: nat
  lt_renewal_deadline :: nat

record lease_renewal =
  rn_now :: nat
  rn_renewal_deadline :: nat
  rn_expires_at :: nat

subsection \<open>Granting\<close>

definition session_has_live_lease :: "lease_manager \<Rightarrow> session_id \<Rightarrow> bool" where
  "session_has_live_lease m s =
     (case Option.bind (bm_get (lm_active_by_session m) s) (bm_get (lm_leases m)) of
        None \<Rightarrow> False | Some l \<Rightarrow> is_live l)"

definition next_generation :: "lease_manager \<Rightarrow> session_id \<Rightarrow> nat option" where
  "next_generation m s =
     checked_add u64_max (case bm_get (lm_generations m) s of None \<Rightarrow> 0 | Some g \<Rightarrow> g) 1"

definition granted_lease ::
  "lease_id \<Rightarrow> routing_request \<Rightarrow> routing_decision \<Rightarrow> user_reference \<Rightarrow> cthulhu_id \<Rightarrow> lease_timing \<Rightarrow> nat
   \<Rightarrow> lease" where
  "granted_lease i request decision user issuer timing generation =
     \<lparr>ls_id = i, ls_session_id = rt_session_id request, ls_user = user,
      ls_assigned_cthulhu = rd_selected_cthulhu decision,
      ls_assigned_tentacle = rd_selected_tentacle decision,
      ls_tentacle_incarnation = rd_selected_incarnation decision, ls_generation = generation,
      ls_issued_at = lt_issued_at timing, ls_expires_at = lt_expires_at timing,
      ls_renewal_deadline = lt_renewal_deadline timing, ls_routing_request = request,
      ls_issuer = issuer, ls_status = LS_Granted\<rparr>"

definition store_lease :: "lease \<Rightarrow> lease_manager \<Rightarrow> lease_manager" where
  "store_lease l m =
     \<lparr>lm_leases = bm_insert (ls_id l) l (lm_leases m),
      lm_active_by_session = bm_insert (ls_session_id l) (ls_id l) (lm_active_by_session m),
      lm_generations = bm_insert (ls_session_id l) (ls_generation l) (lm_generations m)\<rparr>"

definition grant ::
  "lease_manager \<Rightarrow> lease_id \<Rightarrow> routing_request \<Rightarrow> routing_decision \<Rightarrow> user_reference \<Rightarrow> cthulhu_id
   \<Rightarrow> lease_timing \<Rightarrow> (lease_error, lease \<times> lease_manager) result" where
  "grant m i request decision user issuer timing =
     and_then (run_checks
       [ensure (\<not> bm_len (lm_leases m) \<ge> MAX_LEASES) (LS_Invalid ''lease store is full''),
        map_err (\<lambda>_. LS_Invalid ''routing request is invalid or expired'')
          (validate_routing_request request (lt_issued_at timing)),
        map_err (\<lambda>_. LS_Invalid ''routing decision incarnation is invalid'')
          (validate_incarnation (rd_selected_incarnation decision)),
        ensure (\<not> rt_request_id request \<noteq> rd_request_id decision)
          (LS_Invalid ''routing request and decision mismatch''),
        ensure (\<not> session_has_live_lease m (rt_session_id request)) LS_ActiveLeaseExists,
        ensure (\<not> bm_contains (lm_leases m) i) (LS_Invalid ''duplicate lease ID''),
        ensure (\<not> (bm_len (lm_generations m) \<ge> MAX_SESSIONS
                   \<and> \<not> bm_contains (lm_generations m) (rt_session_id request)))
          (LS_Invalid ''session generation store is full'')]) (\<lambda>_.
     and_then (ok_or (LS_Invalid ''lease generation overflow'')
                (next_generation m (rt_session_id request))) (\<lambda>generation.
     let l = granted_lease i request decision user issuer timing generation in
     and_then (validate_lease l) (\<lambda>_. Inr (l, store_lease l m))))"

subsection \<open>The operations of the assignee\<close>

definition verify_assignee ::
  "lease \<Rightarrow> tentacle_id \<Rightarrow> incarnation \<Rightarrow> nat \<Rightarrow> nat \<Rightarrow> (lease_error, unit) result" where
  "verify_assignee l t inc generation now = run_checks
     [ensure (\<not> generation \<noteq> ls_generation l) LS_StaleGeneration,
      ensure (\<not> (ls_assigned_tentacle l \<noteq> t \<or> ls_tentacle_incarnation l \<noteq> inc)) LS_WrongAssignee,
      ensure (\<not> now < ls_issued_at l) LS_NotYetActive,
      ensure (\<not> (now \<ge> ls_expires_at l \<or> now > ls_renewal_deadline l)) LS_Expired,
      ensure (\<not> \<not> is_live l) LS_NotActive]"

definition active_lease ::
  "lease_manager \<Rightarrow> lease_id \<Rightarrow> tentacle_id \<Rightarrow> incarnation \<Rightarrow> nat \<Rightarrow> nat \<Rightarrow> (lease_error, lease) result" where
  "active_lease m i t inc generation now =
     and_then (ok_or LS_NotFound (bm_get (lm_leases m) i)) (\<lambda>l.
     and_then (verify_assignee l t inc generation now) (\<lambda>_. Inr l))"

definition put_lease :: "lease_id \<Rightarrow> lease \<Rightarrow> lease_manager \<Rightarrow> lease_manager" where
  "put_lease i l m = m\<lparr>lm_leases := bm_insert i l (lm_leases m)\<rparr>"

definition unindex :: "session_id \<Rightarrow> lease_manager \<Rightarrow> lease_manager" where
  "unindex s m = m\<lparr>lm_active_by_session := bm_remove s (lm_active_by_session m)\<rparr>"

definition accept ::
  "lease_manager \<Rightarrow> lease_id \<Rightarrow> tentacle_id \<Rightarrow> incarnation \<Rightarrow> nat \<Rightarrow> nat
   \<Rightarrow> (lease_error, lease_manager) result" where
  "accept m i t inc generation now =
     and_then (active_lease m i t inc generation now) (\<lambda>l.
       if ls_status l \<noteq> LS_Granted then Inl LS_NotActive
       else Inr (put_lease i (l\<lparr>ls_status := LS_Active\<rparr>) m))"

definition renew ::
  "lease_manager \<Rightarrow> lease_id \<Rightarrow> tentacle_id \<Rightarrow> incarnation \<Rightarrow> nat \<Rightarrow> lease_renewal
   \<Rightarrow> (lease_error, lease_manager) result" where
  "renew m i t inc generation r =
     and_then (active_lease m i t inc generation (rn_now r)) (\<lambda>l.
       if ls_status l \<noteq> LS_Active
          \<or> rn_now r > ls_renewal_deadline l
          \<or> rn_renewal_deadline r \<le> rn_now r
          \<or> rn_expires_at r \<le> rn_renewal_deadline r
          \<or> saturating_sub (rn_expires_at r) (rn_now r) > MAX_LEASE_LIFETIME_SECONDS
       then Inl LS_Expired
       else Inr (put_lease i (l\<lparr>ls_renewal_deadline := rn_renewal_deadline r,
                              ls_expires_at := rn_expires_at r\<rparr>) m))"

definition release ::
  "lease_manager \<Rightarrow> lease_id \<Rightarrow> tentacle_id \<Rightarrow> incarnation \<Rightarrow> nat \<Rightarrow> nat
   \<Rightarrow> (lease_error, lease_manager) result" where
  "release m i t inc generation now =
     (let live = and_then (active_lease m i t inc generation now) (\<lambda>l.
        Inr (unindex (ls_session_id l) (put_lease i (l\<lparr>ls_status := LS_Released\<rparr>) m))) in
      case bm_get (lm_leases m) i of
        None \<Rightarrow> live
      | Some l \<Rightarrow>
          if ls_status l = LS_Released then
            (if generation \<noteq> ls_generation l then Inl LS_StaleGeneration
             else if ls_assigned_tentacle l \<noteq> t \<or> ls_tentacle_incarnation l \<noteq> inc
             then Inl LS_WrongAssignee else Inr m)
          else live)"

subsection \<open>The operations of the issuer\<close>

definition revoke :: "lease_manager \<Rightarrow> lease_id \<Rightarrow> (lease_error, lease_manager) result" where
  "revoke m i =
     and_then (ok_or LS_NotFound (bm_get (lm_leases m) i)) (\<lambda>l.
       if \<not> is_live l then Inl LS_NotActive
       else Inr (unindex (ls_session_id l) (put_lease i (l\<lparr>ls_status := LS_Revoked\<rparr>) m)))"

definition overdue :: "nat \<Rightarrow> lease \<Rightarrow> bool" where
  "overdue now l \<longleftrightarrow> is_live l \<and> (now \<ge> ls_expires_at l \<or> now > ls_renewal_deadline l)"

definition expire :: "lease_manager \<Rightarrow> nat \<Rightarrow> lease_id list \<times> lease_manager" where
  "expire m now =
     (let expired = filter (overdue now) (bm_values (lm_leases m)) in
      (map ls_id expired,
       m\<lparr>lm_leases := bm_update (\<lambda>i l. if overdue now l then l\<lparr>ls_status := LS_ExpiredStatus\<rparr> else l)
                       (lm_leases m),
         lm_active_by_session := fold (\<lambda>l. bm_remove (ls_session_id l)) expired (lm_active_by_session m)\<rparr>))"

definition failover ::
  "lease_manager \<Rightarrow> lease_id \<Rightarrow> lease_id \<Rightarrow> routing_decision \<Rightarrow> cthulhu_id \<Rightarrow> lease_timing
   \<Rightarrow> (lease_error, lease \<times> lease_manager) result" where
  "failover m old_id replacement_id decision issuer timing =
     and_then (ok_or LS_NotFound (bm_get (lm_leases m) old_id)) (\<lambda>old.
     and_then (revoke m old_id) (\<lambda>staged.
       grant staged replacement_id (ls_routing_request old) decision (ls_user old) issuer timing))"

definition authorize_work ::
  "lease_manager \<Rightarrow> session_id \<Rightarrow> tentacle_id \<Rightarrow> incarnation \<Rightarrow> nat \<Rightarrow> nat
   \<Rightarrow> (lease_error, lease) result" where
  "authorize_work m s t inc generation now =
     and_then (ok_or LS_NotActive (bm_get (lm_active_by_session m) s)) (\<lambda>i.
     and_then (ok_or LS_NotFound (bm_get (lm_leases m) i)) (\<lambda>l.
     and_then (verify_assignee l t inc generation now) (\<lambda>_.
       if ls_status l \<noteq> LS_Active then Inl LS_NotActive else Inr l)))"

definition lease_get :: "lease_manager \<Rightarrow> lease_id \<Rightarrow> lease option" where
  "lease_get m i = bm_get (lm_leases m) i"

subsection \<open>Revalidation of persisted state\<close>

type_synonym generation_index = "(session_id, nat bset) bmap"

definition index_generation :: "lease \<Rightarrow> generation_index \<Rightarrow> generation_index" where
  "index_generation l g =
     bm_insert (ls_session_id l)
       (bs_insert (ls_generation l)
          (case bm_get g (ls_session_id l) of None \<Rightarrow> bs_empty | Some s \<Rightarrow> s)) g"

fun leases_loop ::
  "lease_manager \<Rightarrow> generation_index \<Rightarrow> (lease_id \<times> lease) list
   \<Rightarrow> (lease_error, generation_index) result" where
  "leases_loop m g [] = Inr g"
| "leases_loop m g ((i, l) # rest) =
     and_then (run_checks
       [ensure (\<not> i \<noteq> ls_id l) (LS_Invalid ''lease map key and lease ID differ''),
        validate_lease l,
        map_err (\<lambda>_. LS_Invalid ''persisted routing request is invalid'')
          (validate_routing_request (ls_routing_request l) (ls_issued_at l)),
        ensure (\<not> (bm_get (lm_active_by_session m) (ls_session_id l) = Some i) \<noteq> is_live l)
          (LS_Invalid ''active lease index is inconsistent'')])
       (\<lambda>_. leases_loop m (index_generation l g) rest)"

definition check_index_entry :: "lease_manager \<Rightarrow> session_id \<times> lease_id \<Rightarrow> (lease_error, unit) result" where
  "check_index_entry m e =
     and_then (ok_or (LS_Invalid ''active lease index references a missing lease'')
                (bm_get (lm_leases m) (snd e))) (\<lambda>l.
       ensure (\<not> ls_session_id l \<noteq> fst e) (LS_Invalid ''active lease session is inconsistent''))"

definition check_generations :: "lease_manager \<Rightarrow> session_id \<times> nat bset \<Rightarrow> (lease_error, unit) result" where
  "check_generations m e =
     (let generations = bs_elems (snd e);
          maximum = (if generations = [] then 0 else last generations)
      in ensure (\<not> (maximum > MAX_LEASES
                   \<or> bm_get (lm_generations m) (fst e) \<noteq> Some maximum
                   \<or> length generations \<noteq> maximum
                   \<or> generations \<noteq> [1..<Suc maximum]))
           (LS_Invalid ''lease generation history is inconsistent''))"

definition validate_loaded_state :: "lease_manager \<Rightarrow> (lease_error, unit) result" where
  "validate_loaded_state m =
     and_then (ensure (\<not> (bm_len (lm_leases m) > MAX_LEASES
                         \<or> bm_len (lm_active_by_session m) > MAX_SESSIONS
                         \<or> bm_len (lm_generations m) > MAX_SESSIONS))
                (LS_Invalid ''persisted lease state is unbounded'')) (\<lambda>_.
     and_then (leases_loop m bm_empty (bm_entries (lm_leases m))) (\<lambda>by_session.
       run_checks
         (map (check_index_entry m) (bm_entries (lm_active_by_session m))
          @ [ensure (\<not> bm_len (lm_generations m) \<noteq> bm_len by_session)
               (LS_Invalid ''session generation index is inconsistent'')]
          @ map (check_generations m) (bm_entries by_session))))"

subsection \<open>Lease records\<close>

text \<open>All of \<open>validate_lease\<close> but the bound on the lifetime.\<close>

definition lease_shape :: "lease \<Rightarrow> bool" where
  "lease_shape l \<longleftrightarrow>
     validate_user_reference (ls_user l) = Inr () \<and> 0 < inc_generation (ls_tentacle_incarnation l)
     \<and> 0 < ls_generation l \<and> ls_issued_at l < ls_renewal_deadline l
     \<and> ls_renewal_deadline l \<le> ls_expires_at l
     \<and> rt_session_id (ls_routing_request l) = ls_session_id l"

definition lifetime :: "lease \<Rightarrow> nat" where
  "lifetime l = ls_expires_at l - ls_issued_at l"

lemma validate_lease_ok:
  "validate_lease l = Inr u \<longleftrightarrow> lease_shape l \<and> lifetime l \<le> MAX_LEASE_LIFETIME_SECONDS"
  by (auto simp: validate_lease_def lease_shape_def lifetime_def saturating_sub_def run_checks.simps(1))

lemma verify_assignee_ok [simp]:
  "verify_assignee l t inc g now = Inr u \<longleftrightarrow>
     g = ls_generation l \<and> ls_assigned_tentacle l = t \<and> ls_tentacle_incarnation l = inc
     \<and> ls_issued_at l \<le> now \<and> now < ls_expires_at l \<and> now \<le> ls_renewal_deadline l \<and> is_live l"
  by (auto simp: verify_assignee_def run_checks.simps(1))

text \<open>
  How an operation may change a stored lease: only its status and its two deadlines, and
  nothing at all once it is no longer live.
\<close>

definition same_core :: "lease \<Rightarrow> lease \<Rightarrow> bool" where
  "same_core l l' \<longleftrightarrow>
     ls_id l' = ls_id l \<and> ls_session_id l' = ls_session_id l \<and> ls_user l' = ls_user l
     \<and> ls_assigned_cthulhu l' = ls_assigned_cthulhu l \<and> ls_assigned_tentacle l' = ls_assigned_tentacle l
     \<and> ls_tentacle_incarnation l' = ls_tentacle_incarnation l \<and> ls_generation l' = ls_generation l
     \<and> ls_issued_at l' = ls_issued_at l \<and> ls_routing_request l' = ls_routing_request l
     \<and> ls_issuer l' = ls_issuer l"

definition evolves :: "lease \<Rightarrow> lease \<Rightarrow> bool" where
  "evolves l l' \<longleftrightarrow>
     same_core l l' \<and> (is_live l' \<longrightarrow> is_live l) \<and> (\<not> is_live l \<longrightarrow> l' = l)
     \<and> (lease_shape l \<longrightarrow> lease_shape l')"

lemma evolves_refl: "evolves l l"
  by (simp add: evolves_def same_core_def)

lemma same_core_trans: "same_core l l' \<Longrightarrow> same_core l' l'' \<Longrightarrow> same_core l l''"
  by (simp add: same_core_def)

lemma evolves_trans:
  assumes "evolves l l'" "evolves l' l''"
  shows "evolves l l''"
  using assms same_core_trans unfolding evolves_def by metis

lemma evolves_core:
  assumes "evolves l l'"
  shows "ls_id l' = ls_id l" "ls_session_id l' = ls_session_id l" "ls_generation l' = ls_generation l"
    "ls_issued_at l' = ls_issued_at l" "ls_routing_request l' = ls_routing_request l"
    "ls_assigned_tentacle l' = ls_assigned_tentacle l"
    "ls_tentacle_incarnation l' = ls_tentacle_incarnation l" "ls_assigned_cthulhu l' = ls_assigned_cthulhu l"
  using assms by (simp_all add: evolves_def same_core_def)

lemma evolves_status:
  assumes "is_live l"
  shows "evolves l (l\<lparr>ls_status := st\<rparr>)"
  using assms by (simp add: evolves_def same_core_def lease_shape_def)

lemma is_live_update [simp]:
  "is_live (l\<lparr>ls_status := st\<rparr>) \<longleftrightarrow> st = LS_Granted \<or> st = LS_Active"
  "is_live (l\<lparr>ls_renewal_deadline := d, ls_expires_at := e\<rparr>) \<longleftrightarrow> is_live l"
  by (auto simp: is_live_def)

subsection \<open>The invariant\<close>

definition leases_of :: "lease_manager \<Rightarrow> session_id \<Rightarrow> lease set" where
  "leases_of m s = {l. \<exists>i. bm_get (lm_leases m) i = Some l \<and> ls_session_id l = s}"

definition stored_ok :: "lease_manager \<Rightarrow> lease_id \<Rightarrow> lease \<Rightarrow> bool" where
  "stored_ok m i l \<longleftrightarrow>
     ls_id l = i \<and> lease_shape l
     \<and> validate_routing_request (ls_routing_request l) (ls_issued_at l) = Inr ()
     \<and> (bm_get (lm_active_by_session m) (ls_session_id l) = Some i \<longleftrightarrow> is_live l)"

definition index_ok :: "lease_manager \<Rightarrow> bool" where
  "index_ok m \<longleftrightarrow>
     (\<forall>s i. bm_get (lm_active_by_session m) s = Some i \<longrightarrow>
        (\<exists>l. bm_get (lm_leases m) i = Some l \<and> ls_session_id l = s))"

definition history_ok :: "lease_manager \<Rightarrow> session_id \<Rightarrow> bool" where
  "history_ok m s \<longleftrightarrow>
     (case bm_get (lm_generations m) s of
        None \<Rightarrow> leases_of m s = {}
      | Some g \<Rightarrow> 0 < g \<and> ls_generation ` leases_of m s = {1..g})"

definition fence_ok :: "lease_manager \<Rightarrow> bool" where
  "fence_ok m \<longleftrightarrow>
     (\<forall>i l. bm_get (lm_leases m) i = Some l \<longrightarrow> is_live l \<longrightarrow>
        bm_get (lm_generations m) (ls_session_id l) = Some (ls_generation l))"

definition lease_inv :: "lease_manager \<Rightarrow> bool" where
  "lease_inv m \<longleftrightarrow>
     bm_len (lm_leases m) \<le> MAX_LEASES \<and> bm_len (lm_generations m) \<le> MAX_SESSIONS
     \<and> (\<forall>i l. bm_get (lm_leases m) i = Some l \<longrightarrow> stored_ok m i l)
     \<and> index_ok m \<and> (\<forall>s. history_ok m s) \<and> fence_ok m"

lemma default_inv: "lease_inv lease_manager_default"
  by (simp add: lease_inv_def lease_manager_default_def index_ok_def history_ok_def leases_of_def
      fence_ok_def)

lemma indexed_live:
  assumes "lease_inv m" "bm_get (lm_active_by_session m) s = Some i"
  shows "\<exists>l. bm_get (lm_leases m) i = Some l \<and> ls_session_id l = s \<and> is_live l
    \<and> bm_get (lm_generations m) s = Some (ls_generation l)"
  using assms unfolding lease_inv_def index_ok_def fence_ok_def stored_ok_def by blast

lemma live_indexed:
  "lease_inv m \<Longrightarrow> bm_get (lm_leases m) i = Some l \<Longrightarrow> is_live l
    \<Longrightarrow> bm_get (lm_active_by_session m) (ls_session_id l) = Some i"
  unfolding lease_inv_def stored_ok_def by blast

subsection \<open>Changes to stored leases\<close>

text \<open>
  What accept, renew, release, revoke and expire have in common: every lease evolves, the index
  keeps exactly the entries whose lease is still live, the generations stay.
\<close>

definition advances :: "lease_manager \<Rightarrow> lease_manager \<Rightarrow> bool" where
  "advances m m' \<longleftrightarrow>
     (\<forall>i. rel_option evolves (bm_get (lm_leases m) i) (bm_get (lm_leases m') i))
     \<and> (\<forall>s i. bm_get (lm_active_by_session m') s = Some i \<longleftrightarrow>
            bm_get (lm_active_by_session m) s = Some i
            \<and> (\<exists>l. bm_get (lm_leases m') i = Some l \<and> is_live l))
     \<and> lm_generations m' = lm_generations m"

lemma advances_back:
  assumes "advances m m'" "bm_get (lm_leases m') i = Some l'"
  shows "\<exists>l. bm_get (lm_leases m) i = Some l \<and> evolves l l'"
proof -
  have "rel_option evolves (bm_get (lm_leases m) i) (Some l')" using assms unfolding advances_def by metis
  then show ?thesis by (cases "bm_get (lm_leases m) i") auto
qed

lemma advances_forth:
  assumes "advances m m'" "bm_get (lm_leases m) i = Some l"
  shows "\<exists>l'. bm_get (lm_leases m') i = Some l' \<and> evolves l l'"
proof -
  have "rel_option evolves (Some l) (bm_get (lm_leases m') i)" using assms unfolding advances_def by metis
  then show ?thesis by (cases "bm_get (lm_leases m') i") auto
qed

lemma generation_of_session:
  "g \<in> ls_generation ` leases_of m s \<longleftrightarrow>
     (\<exists>i l. bm_get (lm_leases m) i = Some l \<and> ls_session_id l = s \<and> ls_generation l = g)"
  by (auto simp: leases_of_def)

lemma advances_history:
  assumes "advances m m'"
  shows "ls_generation ` leases_of m' s = ls_generation ` leases_of m s"
proof (rule set_eqI)
  fix g
  show "g \<in> ls_generation ` leases_of m' s \<longleftrightarrow> g \<in> ls_generation ` leases_of m s"
  proof
    assume "g \<in> ls_generation ` leases_of m' s"
    then obtain i l' where l': "bm_get (lm_leases m') i = Some l'" "ls_session_id l' = s" "ls_generation l' = g"
      unfolding generation_of_session by blast
    obtain l where l: "bm_get (lm_leases m) i = Some l" "evolves l l'"
      using advances_back[OF assms l'(1)] by blast
    then show "g \<in> ls_generation ` leases_of m s"
      unfolding generation_of_session using l'(2,3) evolves_core(2,3)[OF l(2)] by auto
  next
    assume "g \<in> ls_generation ` leases_of m s"
    then obtain i l where l: "bm_get (lm_leases m) i = Some l" "ls_session_id l = s" "ls_generation l = g"
      unfolding generation_of_session by blast
    obtain l' where l': "bm_get (lm_leases m') i = Some l'" "evolves l l'"
      using advances_forth[OF assms l(1)] by blast
    then show "g \<in> ls_generation ` leases_of m' s"
      unfolding generation_of_session using l(2,3) evolves_core(2,3)[OF l'(2)] by auto
  qed
qed

lemma advances_len:
  assumes "advances m m'"
  shows "bm_len (lm_leases m') = bm_len (lm_leases m)"
proof -
  have "bm_get (lm_leases m') i = None \<longleftrightarrow> bm_get (lm_leases m) i = None" for i
    using advances_back[OF assms, of i] advances_forth[OF assms, of i]
    by (metis not_None_eq)
  then show ?thesis by (simp add: bm_len_card)
qed

lemma advances_inv:
  assumes "advances m m'" "lease_inv m"
  shows "lease_inv m'"
proof -
  have gens: "lm_generations m' = lm_generations m" using assms(1) by (simp add: advances_def)
  have index: "bm_get (lm_active_by_session m') s = Some i \<longleftrightarrow> bm_get (lm_active_by_session m) s = Some i
      \<and> (\<exists>l. bm_get (lm_leases m') i = Some l \<and> is_live l)" for s i
    using assms(1) by (simp add: advances_def)
  have stored: "stored_ok m' i l'" if l': "bm_get (lm_leases m') i = Some l'" for i l'
  proof -
    obtain l where l: "bm_get (lm_leases m) i = Some l" "evolves l l'"
      using advances_back[OF assms(1) l'] by blast
    then have "stored_ok m i l" using assms(2) by (simp add: lease_inv_def)
    then show ?thesis
      using l l' index[of "ls_session_id l" i] evolves_core[OF l(2)]
      unfolding stored_ok_def evolves_def by auto
  qed
  have "index_ok m'"
    unfolding index_ok_def
  proof (intro allI impI)
    fix s i assume "bm_get (lm_active_by_session m') s = Some i"
    then obtain l' where l': "bm_get (lm_leases m') i = Some l'" and act: "bm_get (lm_active_by_session m) s = Some i"
      using index by blast
    obtain l where "bm_get (lm_leases m) i = Some l" "ls_session_id l = s"
      using indexed_live[OF assms(2) act] by blast
    then show "\<exists>l. bm_get (lm_leases m') i = Some l \<and> ls_session_id l = s"
      using advances_back[OF assms(1) l'] l' evolves_core(2) by fastforce
  qed
  moreover have "history_ok m' s" for s
  proof -
    have "history_ok m s" using assms(2) by (simp add: lease_inv_def)
    moreover have "leases_of m' s = {} \<longleftrightarrow> leases_of m s = {}"
      using advances_history[OF assms(1), of s] by blast
    ultimately show ?thesis
      using advances_history[OF assms(1), of s] by (simp add: history_ok_def gens split: option.splits)
  qed
  moreover have "fence_ok m'"
    unfolding fence_ok_def gens
  proof (intro allI impI)
    fix i l' assume l': "bm_get (lm_leases m') i = Some l'" "is_live l'"
    obtain l where l: "bm_get (lm_leases m) i = Some l" "evolves l l'"
      using advances_back[OF assms(1) l'(1)] by blast
    then have "is_live l" using l'(2) by (simp add: evolves_def)
    with l assms(2) show "bm_get (lm_generations m) (ls_session_id l') = Some (ls_generation l')"
      using evolves_core[OF l(2)] by (simp add: lease_inv_def fence_ok_def)
  qed
  ultimately show ?thesis
    using assms(2) stored advances_len[OF assms(1)] by (simp add: lease_inv_def gens)
qed

subsection \<open>The operations advance the manager\<close>

lemma advances_refl:
  assumes "lease_inv m"
  shows "advances m m"
  unfolding advances_def using indexed_live[OF assms] by (metis evolves_refl option.rel_refl)

lemma put_fields [simp]:
  "lm_leases (put_lease i l m) = bm_insert i l (lm_leases m)"
  "lm_active_by_session (put_lease i l m) = lm_active_by_session m"
  "lm_generations (put_lease i l m) = lm_generations m"
  by (simp_all add: put_lease_def)

lemma unindex_fields [simp]:
  "lm_leases (unindex s m) = lm_leases m"
  "lm_active_by_session (unindex s m) = bm_remove s (lm_active_by_session m)"
  "lm_generations (unindex s m) = lm_generations m"
  by (simp_all add: unindex_def)

lemma put_live_advances:
  assumes "lease_inv m" "bm_get (lm_leases m) i = Some l" "evolves l l'" "is_live l'"
  shows "advances m (put_lease i l' m)"
  unfolding advances_def
proof (intro conjI allI)
  fix j show "rel_option evolves (bm_get (lm_leases m) j) (bm_get (lm_leases (put_lease i l' m)) j)"
    using assms(2,3) by (auto intro: option.rel_refl evolves_refl)
next
  fix s j
  show "bm_get (lm_active_by_session (put_lease i l' m)) s = Some j \<longleftrightarrow>
      bm_get (lm_active_by_session m) s = Some j
      \<and> (\<exists>k. bm_get (lm_leases (put_lease i l' m)) j = Some k \<and> is_live k)"
    using indexed_live[OF assms(1), of s j] assms(4) by auto
qed simp

lemma put_dead_advances:
  assumes "lease_inv m" "bm_get (lm_leases m) i = Some l" "evolves l l'" "is_live l" "\<not> is_live l'"
  shows "advances m (unindex (ls_session_id l) (put_lease i l' m))"
  unfolding advances_def
proof (intro conjI allI)
  fix j show "rel_option evolves (bm_get (lm_leases m) j)
      (bm_get (lm_leases (unindex (ls_session_id l) (put_lease i l' m))) j)"
    using assms(2,3) by (auto intro: option.rel_refl evolves_refl)
next
  fix s j
  show "bm_get (lm_active_by_session (unindex (ls_session_id l) (put_lease i l' m))) s = Some j \<longleftrightarrow>
      bm_get (lm_active_by_session m) s = Some j
      \<and> (\<exists>k. bm_get (lm_leases (unindex (ls_session_id l) (put_lease i l' m))) j = Some k \<and> is_live k)"
    using indexed_live[OF assms(1), of s j] live_indexed[OF assms(1,2,4)] assms(2,5) by auto
qed simp

lemma active_lease_ok:
  "active_lease m i t inc g now = Inr l \<longleftrightarrow>
     bm_get (lm_leases m) i = Some l \<and> verify_assignee l t inc g now = Inr ()"
  by (auto simp: active_lease_def simp del: verify_assignee_ok)

lemma accept_ok:
  "accept m i t inc g now = Inr m' \<longleftrightarrow>
     (\<exists>l. active_lease m i t inc g now = Inr l \<and> ls_status l = LS_Granted
        \<and> m' = put_lease i (l\<lparr>ls_status := LS_Active\<rparr>) m)"
  by (auto simp: accept_def)

lemma renew_ok:
  "renew m i t inc g r = Inr m' \<longleftrightarrow>
     (\<exists>l. active_lease m i t inc g (rn_now r) = Inr l \<and> ls_status l = LS_Active
        \<and> rn_now r < rn_renewal_deadline r \<and> rn_renewal_deadline r < rn_expires_at r
        \<and> rn_expires_at r - rn_now r \<le> MAX_LEASE_LIFETIME_SECONDS
        \<and> m' = put_lease i (l\<lparr>ls_renewal_deadline := rn_renewal_deadline r,
                              ls_expires_at := rn_expires_at r\<rparr>) m)"
proof (cases "active_lease m i t inc g (rn_now r)")
  case (Inr l)
  then have "rn_now r \<le> ls_renewal_deadline l" by (simp add: active_lease_ok)
  with Inr show ?thesis by (auto simp: renew_def saturating_sub_def not_less not_le)
qed (simp add: renew_def)

lemma release_ok:
  "release m i t inc g now = Inr m' \<longleftrightarrow>
     (\<exists>l. active_lease m i t inc g now = Inr l
        \<and> m' = unindex (ls_session_id l) (put_lease i (l\<lparr>ls_status := LS_Released\<rparr>) m))
     \<or> (\<exists>l. bm_get (lm_leases m) i = Some l \<and> ls_status l = LS_Released \<and> ls_generation l = g
          \<and> ls_assigned_tentacle l = t \<and> ls_tentacle_incarnation l = inc \<and> m' = m)"
proof (cases "\<exists>l. bm_get (lm_leases m) i = Some l \<and> ls_status l = LS_Released")
  case True
  then obtain l where l: "bm_get (lm_leases m) i = Some l" "ls_status l = LS_Released" by blast
  then have "\<not> is_live l" by (simp add: is_live_def)
  with l have "active_lease m i t inc g now \<noteq> Inr k" for k by (auto simp: active_lease_ok)
  with l show ?thesis by (auto simp: release_def Let_def)
next
  case False
  then have "release m i t inc g now = and_then (active_lease m i t inc g now) (\<lambda>l.
      Inr (unindex (ls_session_id l) (put_lease i (l\<lparr>ls_status := LS_Released\<rparr>) m)))"
    by (auto simp: release_def Let_def split: option.splits)
  then show ?thesis using False by auto
qed

lemma revoke_ok:
  "revoke m i = Inr m' \<longleftrightarrow>
     (\<exists>l. bm_get (lm_leases m) i = Some l \<and> is_live l
        \<and> m' = unindex (ls_session_id l) (put_lease i (l\<lparr>ls_status := LS_Revoked\<rparr>) m))"
  by (auto simp: revoke_def)

lemma accept_advances:
  assumes "accept m i t inc g now = Inr m'" "lease_inv m"
  shows "advances m m'"
  using assms put_live_advances[OF assms(2)] evolves_status
  by (auto simp: accept_ok active_lease_ok)

lemma renew_advances:
  assumes "renew m i t inc g r = Inr m'" "lease_inv m"
  shows "advances m m'"
proof -
  from assms(1) obtain l where l: "bm_get (lm_leases m) i = Some l" "is_live l" "ls_issued_at l \<le> rn_now r"
    and r: "rn_now r < rn_renewal_deadline r" "rn_renewal_deadline r < rn_expires_at r"
    and m': "m' = put_lease i (l\<lparr>ls_renewal_deadline := rn_renewal_deadline r,
                              ls_expires_at := rn_expires_at r\<rparr>) m"
    by (auto simp: renew_ok active_lease_ok)
  have "evolves l (l\<lparr>ls_renewal_deadline := rn_renewal_deadline r, ls_expires_at := rn_expires_at r\<rparr>)"
    using l r by (simp add: evolves_def same_core_def lease_shape_def)
  then show ?thesis unfolding m' using l by (intro put_live_advances[OF assms(2) l(1)]) auto
qed

lemma release_advances:
  assumes "release m i t inc g now = Inr m'" "lease_inv m"
  shows "advances m m'"
  using assms(1) advances_refl[OF assms(2)] put_dead_advances[OF assms(2)] evolves_status
  by (fastforce simp: release_ok active_lease_ok)

lemma revoke_advances:
  assumes "revoke m i = Inr m'" "lease_inv m"
  shows "advances m m'"
  using assms(1) put_dead_advances[OF assms(2)] evolves_status by (fastforce simp: revoke_ok)

lemma get_fold_remove:
  "bm_get (fold (\<lambda>l. bm_remove (f l)) ls m) k = (if k \<in> f ` set ls then None else bm_get m k)"
  by (induction ls arbitrary: m) auto

lemma expire_leases:
  "bm_get (lm_leases (snd (expire m now))) i =
     map_option (\<lambda>l. if overdue now l then l\<lparr>ls_status := LS_ExpiredStatus\<rparr> else l) (bm_get (lm_leases m) i)"
  by (simp add: expire_def Let_def)

lemma expire_index:
  "bm_get (lm_active_by_session (snd (expire m now))) s =
     (if \<exists>i l. bm_get (lm_leases m) i = Some l \<and> overdue now l \<and> ls_session_id l = s then None
      else bm_get (lm_active_by_session m) s)"
  by (auto simp: expire_def Let_def get_fold_remove bm_values_iff)

lemma expire_advances:
  assumes "lease_inv m"
  shows "advances m (snd (expire m now))"
  unfolding advances_def
proof (intro conjI allI)
  fix i show "rel_option evolves (bm_get (lm_leases m) i) (bm_get (lm_leases (snd (expire m now))) i)"
    unfolding expire_leases
    by (cases "bm_get (lm_leases m) i") (auto simp: overdue_def evolves_status evolves_refl)
next
  fix s i
  let ?over = "\<exists>j k. bm_get (lm_leases m) j = Some k \<and> overdue now k \<and> ls_session_id k = s"
  have over: "?over \<longleftrightarrow> overdue now l"
    if "bm_get (lm_active_by_session m) s = Some i" "bm_get (lm_leases m) i = Some l" "ls_session_id l = s" for l
    using that live_indexed[OF assms] by (metis option.inject overdue_def)
  show "bm_get (lm_active_by_session (snd (expire m now))) s = Some i \<longleftrightarrow>
      bm_get (lm_active_by_session m) s = Some i
      \<and> (\<exists>l. bm_get (lm_leases (snd (expire m now))) i = Some l \<and> is_live l)"
  proof (cases "bm_get (lm_active_by_session m) s = Some i")
    case True
    then obtain l where l: "bm_get (lm_leases m) i = Some l" "ls_session_id l = s" "is_live l"
      using indexed_live[OF assms] by blast
    show ?thesis
      unfolding expire_index over[OF True l(1,2)] expire_leases using True l by simp
  qed (simp add: expire_index)
next
  show "lm_generations (snd (expire m now)) = lm_generations m" by (simp add: expire_def Let_def)
qed

subsection \<open>Granting and failing over\<close>

lemma granted_fields [simp]:
  "ls_id (granted_lease i r d u iss t g) = i"
  "ls_session_id (granted_lease i r d u iss t g) = rt_session_id r"
  "ls_user (granted_lease i r d u iss t g) = u"
  "ls_assigned_cthulhu (granted_lease i r d u iss t g) = rd_selected_cthulhu d"
  "ls_assigned_tentacle (granted_lease i r d u iss t g) = rd_selected_tentacle d"
  "ls_tentacle_incarnation (granted_lease i r d u iss t g) = rd_selected_incarnation d"
  "ls_generation (granted_lease i r d u iss t g) = g"
  "ls_issued_at (granted_lease i r d u iss t g) = lt_issued_at t"
  "ls_expires_at (granted_lease i r d u iss t g) = lt_expires_at t"
  "ls_renewal_deadline (granted_lease i r d u iss t g) = lt_renewal_deadline t"
  "ls_routing_request (granted_lease i r d u iss t g) = r"
  "ls_status (granted_lease i r d u iss t g) = LS_Granted"
  "is_live (granted_lease i r d u iss t g)"
  by (simp_all add: granted_lease_def is_live_def)

definition generation_of :: "lease_manager \<Rightarrow> session_id \<Rightarrow> nat" where
  "generation_of m s = (case bm_get (lm_generations m) s of None \<Rightarrow> 0 | Some g \<Rightarrow> g)"

lemma grant_ok:
  "grant m i r d u iss t = Inr (l, m') \<longleftrightarrow>
     bm_len (lm_leases m) < MAX_LEASES
     \<and> validate_routing_request r (lt_issued_at t) = Inr ()
     \<and> 0 < inc_generation (rd_selected_incarnation d) \<and> rt_request_id r = rd_request_id d
     \<and> \<not> session_has_live_lease m (rt_session_id r) \<and> bm_get (lm_leases m) i = None
     \<and> (bm_len (lm_generations m) < MAX_SESSIONS \<or> bm_get (lm_generations m) (rt_session_id r) \<noteq> None)
     \<and> generation_of m (rt_session_id r) + 1 \<le> u64_max
     \<and> l = granted_lease i r d u iss t (generation_of m (rt_session_id r) + 1)
     \<and> validate_lease l = Inr () \<and> m' = store_lease l m"
proof -
  have gen: "next_generation m s = checked_add u64_max (generation_of m s) 1" for s
    by (simp add: next_generation_def generation_of_def)
  show ?thesis
    unfolding grant_def gen
    by (auto simp: run_checks.simps(1) Let_def not_le)
qed

lemma live_session:
  "lease_inv m \<Longrightarrow> bm_get (lm_leases m) i = Some l \<Longrightarrow> is_live l \<Longrightarrow> session_has_live_lease m (ls_session_id l)"
  using live_indexed by (simp add: session_has_live_lease_def)

lemma store_fields [simp]:
  "lm_leases (store_lease l m) = bm_insert (ls_id l) l (lm_leases m)"
  "lm_active_by_session (store_lease l m) = bm_insert (ls_session_id l) (ls_id l) (lm_active_by_session m)"
  "lm_generations (store_lease l m) = bm_insert (ls_session_id l) (ls_generation l) (lm_generations m)"
  by (simp_all add: store_lease_def)

lemma leases_of_store:
  assumes "bm_get (lm_leases m) (ls_id l) = None"
  shows "leases_of (store_lease l m) s = (if s = ls_session_id l then insert l (leases_of m s) else leases_of m s)"
proof -
  have "(\<exists>i. (i = ls_id l \<longrightarrow> x = l) \<and> (i \<noteq> ls_id l \<longrightarrow> bm_get (lm_leases m) i = Some x))
      \<longleftrightarrow> x = l \<or> (\<exists>i. bm_get (lm_leases m) i = Some x)" for x
    using assms by (metis option.distinct(1))
  then have "(\<exists>i. bm_get (lm_leases (store_lease l m)) i = Some x)
      \<longleftrightarrow> x = l \<or> (\<exists>i. bm_get (lm_leases m) i = Some x)" for x
    by (auto simp: if_splits)
  then show ?thesis unfolding leases_of_def by auto
qed

lemma grant_inv:
  assumes "grant m i r d u iss t = Inr (l, m')" "lease_inv m"
  shows "lease_inv m'"
proof -
  note g = assms(1)[unfolded grant_ok]
  let ?s = "rt_session_id r"
  have m': "m' = store_lease l m" and core: "ls_id l = i" "ls_session_id l = ?s" "is_live l"
      "ls_generation l = generation_of m ?s + 1" "ls_issued_at l = lt_issued_at t" "ls_routing_request l = r"
    and fresh: "bm_get (lm_leases m) i = None" and shape: "lease_shape l"
    using g by (auto simp: validate_lease_ok)
  have idle: "\<not> is_live k" if "bm_get (lm_leases m) j = Some k" "ls_session_id k = ?s" for j k
    using live_session[OF assms(2) that(1)] that(2) g by auto
  have "stored_ok m' j k" if "bm_get (lm_leases m') j = Some k" for j k
  proof (cases "j = i")
    case True
    then show ?thesis using that core shape g unfolding m' by (auto simp: stored_ok_def)
  next
    case False
    then have old: "bm_get (lm_leases m) j = Some k" using that core unfolding m' by simp
    then have "stored_ok m j k" using assms(2) by (simp add: lease_inv_def)
    then show ?thesis using False core idle[OF old] unfolding m' by (auto simp: stored_ok_def)
  qed
  moreover have "index_ok m'"
    unfolding index_ok_def
  proof (intro allI impI)
    fix s' j assume "bm_get (lm_active_by_session m') s' = Some j"
    then consider "s' = ?s" "j = i" | "s' \<noteq> ?s" "bm_get (lm_active_by_session m) s' = Some j"
      using core unfolding m' by (auto split: if_splits)
    then show "\<exists>k. bm_get (lm_leases m') j = Some k \<and> ls_session_id k = s'"
    proof cases
      case 1
      then show ?thesis using core unfolding m' by simp
    next
      case 2
      then obtain k where "bm_get (lm_leases m) j = Some k" "ls_session_id k = s'"
        using indexed_live[OF assms(2)] by blast
      then show ?thesis using fresh core unfolding m' by (cases "j = i") auto
    qed
  qed
  moreover have "history_ok m' s'" for s'
  proof -
    have old: "history_ok m s'" using assms(2) by (simp add: lease_inv_def)
    have upto: "{Suc 0..Suc n} = insert (Suc n) {Suc 0..n}" for n by auto
    show ?thesis
      using old fresh core unfolding m' history_ok_def leases_of_store[of m l, unfolded core, OF fresh]
      by (auto simp: generation_of_def upto split: option.splits)
  qed
  moreover have "fence_ok m'"
    unfolding fence_ok_def
  proof (intro allI impI)
    fix j k assume k: "bm_get (lm_leases m') j = Some k" "is_live k"
    show "bm_get (lm_generations m') (ls_session_id k) = Some (ls_generation k)"
    proof (cases "j = i")
      case True
      then show ?thesis using k core unfolding m' by auto
    next
      case False
      then have old: "bm_get (lm_leases m) j = Some k" using k core unfolding m' by simp
      then have "ls_session_id k \<noteq> ?s" using idle k(2) by blast
      with old k(2) assms(2) core show ?thesis unfolding m' by (simp add: lease_inv_def fence_ok_def)
    qed
  qed
  moreover have "bm_len (lm_leases m') \<le> MAX_LEASES" "bm_len (lm_generations m') \<le> MAX_SESSIONS"
    using g core assms(2) unfolding m' by (auto simp: lease_inv_def)
  ultimately show ?thesis by (simp add: lease_inv_def)
qed

lemma failover_ok:
  "failover m old_id i d iss t = Inr (l, m') \<longleftrightarrow>
     (\<exists>old staged. bm_get (lm_leases m) old_id = Some old \<and> revoke m old_id = Inr staged
        \<and> grant staged i (ls_routing_request old) d (ls_user old) iss t = Inr (l, m'))"
  by (auto simp: failover_def)

subsection \<open>Runs\<close>

inductive lease_op :: "lease_manager \<Rightarrow> lease_manager \<Rightarrow> bool" where
  op_grant: "grant m i r d u iss t = Inr (l, m') \<Longrightarrow> lease_op m m'"
| op_accept: "accept m i tn inc g now = Inr m' \<Longrightarrow> lease_op m m'"
| op_renew: "renew m i tn inc g rn = Inr m' \<Longrightarrow> lease_op m m'"
| op_release: "release m i tn inc g now = Inr m' \<Longrightarrow> lease_op m m'"
| op_revoke: "revoke m i = Inr m' \<Longrightarrow> lease_op m m'"
| op_expire: "lease_op m (snd (expire m now))"
| op_failover: "failover m old_id i d iss t = Inr (l, m') \<Longrightarrow> lease_op m m'"

text \<open>What every run respects: leases evolve and are never dropped, generations never go back.\<close>

definition lease_effect :: "lease_manager \<Rightarrow> lease_manager \<Rightarrow> bool" where
  "lease_effect m m' \<longleftrightarrow>
     (\<forall>i l. bm_get (lm_leases m) i = Some l \<longrightarrow> (\<exists>l'. bm_get (lm_leases m') i = Some l' \<and> evolves l l'))
     \<and> (\<forall>s. generation_of m s \<le> generation_of m' s)"

lemma lease_effect_generation: "lease_effect m m' \<Longrightarrow> generation_of m s \<le> generation_of m' s"
  by (simp add: lease_effect_def)

lemma lease_effect_refl: "lease_effect m m"
  by (auto simp: lease_effect_def intro: evolves_refl)

lemma lease_effect_trans:
  assumes "lease_effect m m'" "lease_effect m' m''"
  shows "lease_effect m m''"
  unfolding lease_effect_def
proof (intro conjI allI impI)
  fix i l assume "bm_get (lm_leases m) i = Some l"
  then show "\<exists>l'. bm_get (lm_leases m'') i = Some l' \<and> evolves l l'"
    using assms evolves_trans unfolding lease_effect_def by meson
next
  fix s show "generation_of m s \<le> generation_of m'' s"
    using assms le_trans unfolding lease_effect_def by blast
qed

lemma advances_effect: "advances m m' \<Longrightarrow> lease_effect m m'"
proof -
  assume a: "advances m m'"
  then have "lm_generations m' = lm_generations m" by (simp add: advances_def)
  then show ?thesis using advances_forth[OF a] by (simp add: lease_effect_def generation_of_def)
qed

lemma grant_effect:
  assumes "grant m i r d u iss t = Inr (l, m')"
  shows "lease_effect m m'"
  using assms evolves_refl by (auto simp: grant_ok lease_effect_def generation_of_def split: option.splits)

lemma lease_op_effect:
  "lease_op m m' \<Longrightarrow> lease_inv m \<Longrightarrow> lease_inv m' \<and> lease_effect m m'"
proof (induction rule: lease_op.induct)
  case (op_grant m i r d u iss t l m')
  then show ?case using grant_inv grant_effect by blast
next
  case (op_accept m i tn inc g now m')
  then show ?case using accept_advances advances_inv advances_effect by blast
next
  case (op_renew m i tn inc g rn m')
  then show ?case using renew_advances advances_inv advances_effect by blast
next
  case (op_release m i tn inc g now m')
  then show ?case using release_advances advances_inv advances_effect by blast
next
  case (op_revoke m i m')
  then show ?case using revoke_advances advances_inv advances_effect by blast
next
  case (op_expire m now)
  then show ?case using expire_advances advances_inv advances_effect by blast
next
  case (op_failover m old_id i d iss t l m')
  then show ?case
    unfolding failover_ok
    using revoke_advances advances_inv advances_effect grant_inv grant_effect lease_effect_trans by meson
qed

lemma lease_run_effect:
  assumes "lease_op\<^sup>*\<^sup>* m m'" "lease_inv m"
  shows "lease_inv m' \<and> lease_effect m m'"
  using assms
  by (induction rule: rtranclp_induct) (auto intro: lease_effect_refl dest: lease_op_effect lease_effect_trans)

lemma authorize_work_ok:
  "authorize_work m s t inc g now = Inr l \<longleftrightarrow>
     (\<exists>i. bm_get (lm_active_by_session m) s = Some i \<and> bm_get (lm_leases m) i = Some l)
     \<and> g = ls_generation l \<and> ls_assigned_tentacle l = t \<and> ls_tentacle_incarnation l = inc
     \<and> ls_issued_at l \<le> now \<and> now < ls_expires_at l \<and> now \<le> ls_renewal_deadline l
     \<and> ls_status l = LS_Active"
  by (auto simp: authorize_work_def is_live_def)

lemma authorized_is_current:
  assumes "authorize_work m s t inc g now = Inr l" "lease_inv m"
  shows "generation_of m s = g \<and> ls_session_id l = s"
  using assms indexed_live[OF assms(2), of s] by (fastforce simp: authorize_work_ok generation_of_def)

subsection \<open>What revalidation accepts\<close>

definition entry_ok :: "lease_manager \<Rightarrow> lease_id \<times> lease \<Rightarrow> bool" where
  "entry_ok m e \<longleftrightarrow> stored_ok m (fst e) (snd e) \<and> lifetime (snd e) \<le> MAX_LEASE_LIFETIME_SECONDS"

lemma leases_loop_ok:
  "leases_loop m g es = Inr g' \<longleftrightarrow>
     (\<forall>e\<in>set es. entry_ok m e) \<and> g' = fold (\<lambda>e. index_generation (snd e)) es g"
proof (induction m g es rule: leases_loop.induct)
  case (2 m g i l rest)
  have "run_checks
       [ensure (\<not> i \<noteq> ls_id l) (LS_Invalid ''lease map key and lease ID differ''),
        validate_lease l,
        map_err (\<lambda>_. LS_Invalid ''persisted routing request is invalid'')
          (validate_routing_request (ls_routing_request l) (ls_issued_at l)),
        ensure (\<not> (bm_get (lm_active_by_session m) (ls_session_id l) = Some i) \<noteq> is_live l)
          (LS_Invalid ''active lease index is inconsistent'')] = Inr () \<longleftrightarrow> entry_ok m (i, l)"
    by (auto simp: entry_ok_def stored_ok_def validate_lease_ok run_checks.simps(1))
  then show ?case using "2.IH" by (simp del: run_checks_Cons_ok)
qed auto

definition gens_at :: "generation_index \<Rightarrow> session_id \<Rightarrow> nat set" where
  "gens_at g s = (case bm_get g s of None \<Rightarrow> {} | Some S \<Rightarrow> {n. bs_member S n})"

lemma gens_at_index:
  "gens_at (index_generation l g) s = (if s = ls_session_id l then insert (ls_generation l) (gens_at g s) else gens_at g s)"
  by (auto simp: gens_at_def index_generation_def split: option.splits)

lemma gens_at_fold:
  "n \<in> gens_at (fold (\<lambda>e. index_generation (snd e)) es g) s \<longleftrightarrow>
     n \<in> gens_at g s \<or> (\<exists>e\<in>set es. ls_session_id (snd e) = s \<and> ls_generation (snd e) = n)"
proof (induction es arbitrary: g)
  case (Cons e es)
  show ?case by (simp add: Cons.IH gens_at_index) blast
qed simp

lemma dom_fold:
  "bm_get (fold (\<lambda>e. index_generation (snd e)) es g) s = None \<longleftrightarrow>
     bm_get g s = None \<and> (\<forall>e\<in>set es. ls_session_id (snd e) \<noteq> s)"
  by (induction es arbitrary: g) (auto simp: index_generation_def)

definition by_session :: "lease_manager \<Rightarrow> generation_index" where
  "by_session m = fold (\<lambda>e. index_generation (snd e)) (bm_entries (lm_leases m)) bm_empty"

lemma by_session_gens: "gens_at (by_session m) s = ls_generation ` leases_of m s"
proof (rule set_eqI)
  fix n
  have "n \<in> gens_at (by_session m) s \<longleftrightarrow>
      (\<exists>e\<in>set (bm_entries (lm_leases m)). ls_session_id (snd e) = s \<and> ls_generation (snd e) = n)"
    by (simp add: by_session_def gens_at_fold) (simp add: gens_at_def)
  then show "n \<in> gens_at (by_session m) s \<longleftrightarrow> n \<in> ls_generation ` leases_of m s"
    unfolding generation_of_session using bm_entries_iff[of _ _ "lm_leases m"] by fastforce
qed

lemma by_session_none: "bm_get (by_session m) s = None \<longleftrightarrow> leases_of m s = {}"
  by (simp add: by_session_def dom_fold bm_entries_all_iff) (auto simp: leases_of_def)

lemma elems_upto: "bs_elems S = [1..<Suc k] \<longleftrightarrow> {n. bs_member S n} = {1..k}"
proof
  assume "bs_elems S = [1..<Suc k]"
  then have "set (bs_elems S) = set [1..<Suc k]" by simp
  then show "{n. bs_member S n} = {1..k}"
    unfolding bs_elems_set set_upt atLeastLessThanSuc_atLeastAtMost .
next
  assume "{n. bs_member S n} = {1..k}"
  then have "set (bs_elems S) = set [1..<Suc k]"
    unfolding bs_elems_set set_upt atLeastLessThanSuc_atLeastAtMost .
  then show "bs_elems S = [1..<Suc k]"
    by (intro sorted_distinct_set_unique) (simp_all add: bs_elems_sorted strict_sorted_imp_sorted del: upt_Suc)
qed

lemma check_generations_ok:
  "check_generations m (s, S) = Inr () \<longleftrightarrow>
     (\<exists>k \<le> MAX_LEASES. bm_get (lm_generations m) s = Some k \<and> {n. bs_member S n} = {1..k})"
proof -
  have "check_generations m (s, S) = Inr () \<longleftrightarrow>
      (\<exists>k \<le> MAX_LEASES. bm_get (lm_generations m) s = Some k \<and> bs_elems S = [1..<Suc k])"
  proof
    assume "check_generations m (s, S) = Inr ()"
    then show "\<exists>k \<le> MAX_LEASES. bm_get (lm_generations m) s = Some k \<and> bs_elems S = [1..<Suc k]"
      by (auto simp: check_generations_def Let_def simp del: upt_Suc)
  next
    assume "\<exists>k \<le> MAX_LEASES. bm_get (lm_generations m) s = Some k \<and> bs_elems S = [1..<Suc k]"
    then obtain k where k: "k \<le> MAX_LEASES" "bm_get (lm_generations m) s = Some k" "bs_elems S = [1..<Suc k]"
      by blast
    moreover have "(if [1..<Suc k] = [] then 0 else last [1..<Suc k]) = k" by (cases k) auto
    ultimately show "check_generations m (s, S) = Inr ()"
      by (simp add: check_generations_def Let_def del: upt_Suc)
  qed
  then show ?thesis unfolding elems_upto .
qed

definition history_loadable :: "lease_manager \<Rightarrow> session_id \<Rightarrow> bool" where
  "history_loadable m s \<longleftrightarrow>
     history_ok m s \<and> (\<forall>g. bm_get (lm_generations m) s = Some g \<longrightarrow> g \<le> MAX_LEASES)"

lemma dom_eq_len:
  assumes "\<And>k. bm_get m k \<noteq> None \<Longrightarrow> bm_get m' k \<noteq> None"
  shows "bm_len m' = bm_len m \<longleftrightarrow> (\<forall>k. bm_get m' k \<noteq> None \<longrightarrow> bm_get m k \<noteq> None)"
proof -
  have sub: "{k. bm_get m k \<noteq> None} \<subseteq> {k. bm_get m' k \<noteq> None}" using assms by blast
  have "bm_len m' = bm_len m \<longleftrightarrow> {k. bm_get m k \<noteq> None} = {k. bm_get m' k \<noteq> None}"
    unfolding bm_len_card using card_subset_eq[OF finite_bm_dom sub] by metis
  then show ?thesis unfolding set_eq_iff mem_Collect_eq using assms by blast
qed

lemma histories_loadable:
  "bm_len (lm_generations m) = bm_len (by_session m)
     \<and> (\<forall>s S. bm_get (by_session m) s = Some S \<longrightarrow> check_generations m (s, S) = Inr ())
   \<longleftrightarrow> (\<forall>s. history_loadable m s)" (is "?checks \<longleftrightarrow> ?hist")
proof
  assume c: ?checks
  have some: "\<exists>k\<le>MAX_LEASES. bm_get (lm_generations m) s = Some k \<and> ls_generation ` leases_of m s = {1..k}"
    if "bm_get (by_session m) s \<noteq> None" for s
  proof -
    from that obtain S where S: "bm_get (by_session m) s = Some S" by blast
    then have "{n. bs_member S n} = ls_generation ` leases_of m s"
      using by_session_gens[of m s] by (simp add: gens_at_def)
    with c S show ?thesis by (metis check_generations_ok)
  qed
  then have imp: "\<And>s. bm_get (by_session m) s \<noteq> None \<Longrightarrow> bm_get (lm_generations m) s \<noteq> None" by force
  from dom_eq_len[of "by_session m" "lm_generations m", OF imp] c
  have dom: "\<forall>s. bm_get (lm_generations m) s \<noteq> None \<longrightarrow> bm_get (by_session m) s \<noteq> None" by simp
  show ?hist
  proof
    fix s
    show "history_loadable m s"
    proof (cases "bm_get (by_session m) s = None")
      case True
      then show ?thesis using dom by_session_none[of m s]
        by (cases "bm_get (lm_generations m) s") (auto simp: history_loadable_def history_ok_def)
    next
      case False
      then have "leases_of m s \<noteq> {}" by (simp add: by_session_none)
      moreover obtain k where k: "k \<le> MAX_LEASES" "bm_get (lm_generations m) s = Some k"
          "ls_generation ` leases_of m s = {1..k}"
        using some[OF False] by blast
      ultimately have "0 < k" by (cases k) auto
      with k show ?thesis by (simp add: history_loadable_def history_ok_def)
    qed
  qed
next
  assume h: ?hist
  have dom: "bm_get (by_session m) s \<noteq> None \<longleftrightarrow> bm_get (lm_generations m) s \<noteq> None" for s
    using spec[OF h, of s] by (auto simp: by_session_none history_loadable_def history_ok_def split: option.splits)
  then have "bm_len (lm_generations m) = bm_len (by_session m)" by (simp add: bm_len_card)
  moreover have "check_generations m (s, S) = Inr ()" if S: "bm_get (by_session m) s = Some S" for s S
  proof -
    have "{n. bs_member S n} = ls_generation ` leases_of m s"
      using by_session_gens[of m s] S by (simp add: gens_at_def)
    moreover obtain g where "bm_get (lm_generations m) s = Some g" using dom S by blast
    ultimately show ?thesis
      using spec[OF h, of s] by (simp add: check_generations_ok history_loadable_def history_ok_def)
  qed
  ultimately show ?checks by blast
qed

lemma check_index_ok:
  "check_index_entry m e = Inr () \<longleftrightarrow> (\<exists>l. bm_get (lm_leases m) (snd e) = Some l \<and> ls_session_id l = fst e)"
  by (auto simp: check_index_entry_def)

lemma loaded_iff:
  "validate_loaded_state m = Inr () \<longleftrightarrow>
     bm_len (lm_leases m) \<le> MAX_LEASES \<and> bm_len (lm_active_by_session m) \<le> MAX_SESSIONS
     \<and> bm_len (lm_generations m) \<le> MAX_SESSIONS
     \<and> (\<forall>i l. bm_get (lm_leases m) i = Some l \<longrightarrow> entry_ok m (i, l))
     \<and> index_ok m \<and> (\<forall>s. history_loadable m s)"
proof -
  have index: "(\<forall>e\<in>set (bm_entries (lm_active_by_session m)). check_index_entry m e = Inr ()) \<longleftrightarrow> index_ok m"
    unfolding bm_entries_all_iff check_index_ok index_ok_def by auto
  have "validate_loaded_state m = Inr () \<longleftrightarrow>
     bm_len (lm_leases m) \<le> MAX_LEASES \<and> bm_len (lm_active_by_session m) \<le> MAX_SESSIONS
     \<and> bm_len (lm_generations m) \<le> MAX_SESSIONS
     \<and> (\<forall>e\<in>set (bm_entries (lm_leases m)). entry_ok m e) \<and> index_ok m
     \<and> (bm_len (lm_generations m) = bm_len (by_session m)
       \<and> (\<forall>e\<in>set (bm_entries (by_session m)). check_generations m e = Inr ()))"
    unfolding validate_loaded_state_def by_session_def
    by (auto simp: leases_loop_ok index run_checks.simps(1) not_less)
  then show ?thesis unfolding bm_entries_all_iff histories_loadable .
qed

lemma expire_keeps_authorisation:
  assumes "lease_inv m"
  shows "authorize_work (snd (expire m now)) s t inc g now = Inr l \<longleftrightarrow> authorize_work m s t inc g now = Inr l"
proof
  assume "authorize_work (snd (expire m now)) s t inc g now = Inr l"
  note auth = this[unfolded authorize_work_ok]
  then obtain i where i: "bm_get (lm_active_by_session (snd (expire m now))) s = Some i"
    "bm_get (lm_leases (snd (expire m now))) i = Some l" by blast
  have act: "bm_get (lm_active_by_session m) s = Some i"
    using i(1) by (simp add: expire_index split: if_splits)
  obtain k where k: "bm_get (lm_leases m) i = Some k"
    "l = (if overdue now k then k\<lparr>ls_status := LS_ExpiredStatus\<rparr> else k)"
    using i(2) unfolding expire_leases by auto
  have "l = k" using k(2) auth by (auto split: if_splits)
  with act k(1) auth show "authorize_work m s t inc g now = Inr l" unfolding authorize_work_ok by blast
next
  assume "authorize_work m s t inc g now = Inr l"
  note auth = this[unfolded authorize_work_ok]
  then obtain i where i: "bm_get (lm_active_by_session m) s = Some i" "bm_get (lm_leases m) i = Some l" by blast
  have fine: "\<not> overdue now l" using auth by (simp add: overdue_def)
  have "\<not> overdue now k" if "bm_get (lm_leases m) j = Some k" "ls_session_id k = s" for j k
  proof
    assume o: "overdue now k"
    then have "bm_get (lm_active_by_session m) s = Some j"
      using live_indexed[OF assms that(1)] that(2) by (simp add: overdue_def)
    with i that(1) have "k = l" by simp
    with o fine show False by simp
  qed
  then have "bm_get (lm_active_by_session (snd (expire m now))) s = Some i"
    unfolding expire_index using i(1) by auto
  moreover have "bm_get (lm_leases (snd (expire m now))) i = Some l"
    unfolding expire_leases using i(2) fine by simp
  ultimately show "authorize_work (snd (expire m now)) s t inc g now = Inr l"
    unfolding authorize_work_ok using auth by blast
qed

lemma leases_of_card: "card (ls_generation ` leases_of m s) \<le> bm_len (lm_leases m)"
proof -
  let ?dom = "{i. bm_get (lm_leases m) i \<noteq> None}"
  have sub: "leases_of m s \<subseteq> (\<lambda>i. the (bm_get (lm_leases m) i)) ` ?dom"
    unfolding leases_of_def by force
  have "card (leases_of m s) \<le> card ?dom"
    using card_mono[OF finite_imageI[OF finite_bm_dom] sub] card_image_le[OF finite_bm_dom] le_trans by blast
  moreover have "card (ls_generation ` leases_of m s) \<le> card (leases_of m s)"
    using finite_subset[OF sub finite_imageI[OF finite_bm_dom]] by (rule card_image_le)
  ultimately show ?thesis by (simp add: bm_len_card)
qed

lemma inv_loadable:
  assumes "lease_inv m"
  shows "validate_loaded_state m = Inr () \<longleftrightarrow>
     (\<forall>i l. bm_get (lm_leases m) i = Some l \<longrightarrow> lifetime l \<le> MAX_LEASE_LIFETIME_SECONDS)"
proof -
  have hist: "history_loadable m s" for s
  proof -
    have ok: "history_ok m s" and len: "bm_len (lm_leases m) \<le> MAX_LEASES"
      using assms by (simp_all add: lease_inv_def)
    have "g \<le> MAX_LEASES" if "bm_get (lm_generations m) s = Some g" for g
      using leases_of_card[of m s] ok len that by (simp add: history_ok_def)
    with ok show ?thesis by (simp add: history_loadable_def)
  qed
  have sub: "{s. bm_get (lm_active_by_session m) s \<noteq> None} \<subseteq> {s. bm_get (lm_generations m) s \<noteq> None}"
    using indexed_live[OF assms] by fastforce
  have "bm_len (lm_active_by_session m) \<le> bm_len (lm_generations m)"
    unfolding bm_len_card by (rule card_mono[OF finite_bm_dom sub])
  then show ?thesis
    using assms hist unfolding loaded_iff lease_inv_def entry_ok_def by auto
qed

lemma run_inv: "lease_op\<^sup>*\<^sup>* lease_manager_default m \<Longrightarrow> lease_inv m"
  using lease_run_effect default_inv by blast

subsection \<open>A sample session\<close>

definition sample_decision :: routing_decision where
  "sample_decision =
     \<lparr>rd_request_id = Ident ''request_one'', rd_selected_cthulhu = Ident ''cthulhu_archivist'',
      rd_selected_tentacle = Ident ''tentacle_home'',
      rd_selected_incarnation = \<lparr>inc_id = Ident ''incarnation_first'', inc_generation = 1\<rparr>,
      rd_endpoint = ''xmtp:dev:012345abcdef'', rd_explanation = []\<rparr>"

definition day_lease :: "lease_id \<Rightarrow> nat \<Rightarrow> lease" where
  "day_lease i g = granted_lease i any_request sample_decision (UR_Opaque ''user-1'') (Ident ''cthulhu_archivist'')
     \<lparr>lt_issued_at = 100, lt_expires_at = 86500, lt_renewal_deadline = 86400\<rparr> g"

definition lease_one :: lease_id where "lease_one = Ident ''lease_one''"
definition lease_two :: lease_id where "lease_two = Ident ''lease_two''"

definition after_grant :: lease_manager where
  "after_grant = store_lease (day_lease lease_one 1) lease_manager_default"

definition after_accept :: lease_manager where
  "after_accept = put_lease lease_one ((day_lease lease_one 1)\<lparr>ls_status := LS_Active\<rparr>) after_grant"

definition after_renew :: lease_manager where
  "after_renew = put_lease lease_one ((day_lease lease_one 1)\<lparr>ls_status := LS_Active,
      ls_renewal_deadline := 100000, ls_expires_at := 150000\<rparr>) after_accept"

definition after_failover :: lease_manager where
  "after_failover = store_lease (day_lease lease_two 2) (unindex (Ident ''session_one'')
     (put_lease lease_one ((day_lease lease_one 1)\<lparr>ls_status := LS_Revoked\<rparr>) after_accept))"

lemma day_lease_valid: "0 < g \<Longrightarrow> validate_lease (day_lease i g) = Inr ()"
  by (simp add: validate_lease_ok lease_shape_def day_lease_def lifetime_def sample_decision_def any_request_def
      MAX_LEASE_LIFETIME_SECONDS_def) (simp add: ascii_defs)

lemma day_lease_fields [simp]:
  "ls_id (day_lease i g) = i" "ls_session_id (day_lease i g) = Ident ''session_one''"
  "ls_generation (day_lease i g) = g" "ls_issued_at (day_lease i g) = 100"
  "ls_expires_at (day_lease i g) = 86500" "ls_renewal_deadline (day_lease i g) = 86400"
  "ls_status (day_lease i g) = LS_Granted" "is_live (day_lease i g)"
  "ls_assigned_tentacle (day_lease i g) = Ident ''tentacle_home''"
  "ls_tentacle_incarnation (day_lease i g) = rd_selected_incarnation sample_decision"
  "ls_routing_request (day_lease i g) = any_request" "ls_user (day_lease i g) = UR_Opaque ''user-1''"
  by (simp_all add: day_lease_def sample_decision_def any_request_def)

lemma lease_ids [simp]: "lease_one \<noteq> lease_two" "lease_two \<noteq> lease_one"
  by (simp_all add: lease_one_def lease_two_def)

lemma sample_grant:
  "grant lease_manager_default lease_one any_request sample_decision (UR_Opaque ''user-1'')
     (Ident ''cthulhu_archivist'') \<lparr>lt_issued_at = 100, lt_expires_at = 86500, lt_renewal_deadline = 86400\<rparr>
   = Inr (day_lease lease_one 1, after_grant)"
  using day_lease_valid[of 1 lease_one] any_request_valid[of 100]
  by (simp add: grant_ok lease_manager_default_def MAX_LEASES_def MAX_SESSIONS_def sample_decision_def
      any_request_def session_has_live_lease_def generation_of_def u64_max_def day_lease_def after_grant_def)

lemma sample_accept:
  "accept after_grant lease_one (Ident ''tentacle_home'') (rd_selected_incarnation sample_decision) 1 200
   = Inr after_accept"
  by (simp add: accept_ok active_lease_ok after_grant_def after_accept_def)

lemma sample_renew:
  "renew after_accept lease_one (Ident ''tentacle_home'') (rd_selected_incarnation sample_decision) 1
     \<lparr>rn_now = 86000, rn_renewal_deadline = 100000, rn_expires_at = 150000\<rparr> = Inr after_renew"
  by (simp add: renew_ok active_lease_ok after_accept_def after_renew_def MAX_LEASE_LIFETIME_SECONDS_def)

lemma sample_failover:
  "failover after_accept lease_one lease_two sample_decision (Ident ''cthulhu_archivist'')
     \<lparr>lt_issued_at = 100, lt_expires_at = 86500, lt_renewal_deadline = 86400\<rparr>
   = Inr (day_lease lease_two 2, after_failover)"
proof -
  let ?staged = "unindex (Ident ''session_one'')
     (put_lease lease_one ((day_lease lease_one 1)\<lparr>ls_status := LS_Revoked\<rparr>) after_accept)"
  have get: "bm_get (lm_leases after_accept) lease_one = Some ((day_lease lease_one 1)\<lparr>ls_status := LS_Active\<rparr>)"
    by (simp add: after_accept_def)
  have "revoke after_accept lease_one = Inr ?staged"
    unfolding revoke_ok get by simp
  moreover have "grant ?staged lease_two any_request sample_decision (UR_Opaque ''user-1'') (Ident ''cthulhu_archivist'')
     \<lparr>lt_issued_at = 100, lt_expires_at = 86500, lt_renewal_deadline = 86400\<rparr> = Inr (day_lease lease_two 2, after_failover)"
    unfolding grant_ok
  proof (intro conjI)
    show "bm_len (lm_leases ?staged) < MAX_LEASES"
      by (simp add: after_accept_def after_grant_def lease_manager_default_def MAX_LEASES_def)
    show "\<not> session_has_live_lease ?staged (rt_session_id any_request)"
      by (simp add: session_has_live_lease_def any_request_def)
    show "bm_get (lm_leases ?staged) lease_two = None"
      by (simp add: after_accept_def after_grant_def lease_manager_default_def)
    have gen: "generation_of ?staged (rt_session_id any_request) = 1"
      by (simp add: generation_of_def after_accept_def after_grant_def any_request_def)
    show "day_lease lease_two 2 = granted_lease lease_two any_request sample_decision (UR_Opaque ''user-1'')
        (Ident ''cthulhu_archivist'') \<lparr>lt_issued_at = 100, lt_expires_at = 86500, lt_renewal_deadline = 86400\<rparr>
        (generation_of ?staged (rt_session_id any_request) + 1)"
      unfolding gen one_add_one by (rule day_lease_def)
    show "generation_of ?staged (rt_session_id any_request) + 1 \<le> u64_max"
      unfolding gen by (simp add: u64_max_def)
    show "bm_len (lm_generations ?staged) < MAX_SESSIONS
        \<or> bm_get (lm_generations ?staged) (rt_session_id any_request) \<noteq> None"
      by (simp add: after_accept_def after_grant_def any_request_def)
    show "validate_lease (day_lease lease_two 2) = Inr ()" by (rule day_lease_valid) simp
    show "after_failover = store_lease (day_lease lease_two 2) ?staged" by (simp only: after_failover_def)
  qed (simp_all add: any_request_valid sample_decision_def, simp add: any_request_def)
  ultimately show ?thesis unfolding failover_ok get by simp
qed

lemma sample_run:
  "lease_op\<^sup>*\<^sup>* lease_manager_default after_accept" "lease_op\<^sup>*\<^sup>* lease_manager_default after_renew"
  "lease_op\<^sup>*\<^sup>* after_accept after_failover"
proof -
  show a: "lease_op\<^sup>*\<^sup>* lease_manager_default after_accept"
    using op_grant[OF sample_grant] op_accept[OF sample_accept] by (meson converse_rtranclp_into_rtranclp r_into_rtranclp)
  show "lease_op\<^sup>*\<^sup>* lease_manager_default after_renew"
    using a op_renew[OF sample_renew] by (rule rtranclp.rtrancl_into_rtrancl)
  show "lease_op\<^sup>*\<^sup>* after_accept after_failover"
    using op_failover[OF sample_failover] by (rule r_into_rtranclp)
qed

subsection \<open>Properties\<close>

text \<open>
  C1: leases are fenced.  In every manager reached by any operations, work is authorised for the
  latest generation of its session only, under the one live lease the session has, inside its
  time window and for its own Tentacle and incarnation; so whatever happens later, no generation
  below the one reached now is ever authorised again.
\<close>

theorem lease_fencing:
  assumes "lease_op\<^sup>*\<^sup>* lease_manager_default m" "lease_op\<^sup>*\<^sup>* m m'"
    and "authorize_work m' s t inc g now = Inr l"
  shows "generation_of m s \<le> g \<and> g = generation_of m' s \<and> ls_session_id l = s \<and> ls_generation l = g
    \<and> ls_assigned_tentacle l = t \<and> ls_tentacle_incarnation l = inc
    \<and> ls_issued_at l \<le> now \<and> now < ls_expires_at l \<and> now \<le> ls_renewal_deadline l
    \<and> (\<forall>i l'. lease_get m' i = Some l' \<and> ls_session_id l' = s \<and> is_live l' \<longrightarrow> l' = l)"
proof -
  have inv: "lease_inv m'" and eff: "lease_effect m m'"
    using lease_run_effect[OF assms(2)] run_inv[OF assms(1)] by blast+
  note cur = authorized_is_current[OF assms(3) inv]
  have "l' = l" if "lease_get m' i = Some l'" "ls_session_id l' = s" "is_live l'" for i l'
    using live_indexed[OF inv] that assms(3) by (fastforce simp: lease_get_def authorize_work_ok)
  moreover have "generation_of m s \<le> generation_of m' s" using eff by (simp add: lease_effect_def)
  ultimately show ?thesis using assms(3) cur by (auto simp: authorize_work_ok)
qed

theorem lease_fencing_witness:
  "authorize_work after_accept (Ident ''session_one'') (Ident ''tentacle_home'')
     (rd_selected_incarnation sample_decision) 1 300 = Inr ((day_lease lease_one 1)\<lparr>ls_status := LS_Active\<rparr>)
   \<and> generation_of after_accept (Ident ''session_one'') = 1"
proof -
  have auth: "authorize_work after_accept (Ident ''session_one'') (Ident ''tentacle_home'')
     (rd_selected_incarnation sample_decision) 1 300 = Inr ((day_lease lease_one 1)\<lparr>ls_status := LS_Active\<rparr>)"
    by (simp add: authorize_work_ok after_accept_def after_grant_def)
  with lease_fencing[OF sample_run(1) rtranclp.rtrancl_refl auth] show ?thesis by simp
qed

text \<open>
  failover is atomic and fences the old assignee.  When it succeeds on a reachable manager,
  the old lease is revoked, the session, user and routing request carry over to a new granted
  lease of the next generation, every other lease is untouched, and the old generation is never
  authorised again, whatever is done afterwards.
\<close>

theorem failover_fences:
  assumes "lease_op\<^sup>*\<^sup>* lease_manager_default m" "failover m old_id i decision issuer timing = Inr (l, m')"
  shows "\<exists>old. lease_get m old_id = Some old \<and> is_live old
    \<and> lease_get m' old_id = Some (old\<lparr>ls_status := LS_Revoked\<rparr>)
    \<and> lease_get m' i = Some l \<and> ls_status l = LS_Granted \<and> i \<noteq> old_id
    \<and> ls_session_id l = ls_session_id old \<and> ls_user l = ls_user old
    \<and> ls_routing_request l = ls_routing_request old \<and> ls_generation l = ls_generation old + 1
    \<and> (\<forall>j. j \<noteq> i \<and> j \<noteq> old_id \<longrightarrow> lease_get m' j = lease_get m j)
    \<and> (\<forall>m'' t inc now. lease_op\<^sup>*\<^sup>* m' m'' \<longrightarrow>
          \<not> is_ok (authorize_work m'' (ls_session_id old) t inc (ls_generation old) now))"
proof -
  have inv: "lease_inv m" using run_inv[OF assms(1)] .
  from assms(2) obtain old staged where old: "bm_get (lm_leases m) old_id = Some old"
    and rev: "revoke m old_id = Inr staged"
    and gr: "grant staged i (ls_routing_request old) decision (ls_user old) issuer timing = Inr (l, m')"
    unfolding failover_ok by blast
  have live: "is_live old" and staged: "staged = unindex (ls_session_id old) (put_lease old_id (old\<lparr>ls_status := LS_Revoked\<rparr>) m)"
    using rev old by (auto simp: revoke_ok)
  have sess: "rt_session_id (ls_routing_request old) = ls_session_id old"
    using inv old by (auto simp: lease_inv_def stored_ok_def lease_shape_def)
  have gen: "generation_of staged (ls_session_id old) = ls_generation old"
    using inv old live unfolding staged by (simp add: lease_inv_def fence_ok_def generation_of_def)
  note g = gr[unfolded grant_ok sess gen]
  have fresh: "i \<noteq> old_id" using g unfolding staged by auto
  have new: "l = granted_lease i (ls_routing_request old) decision (ls_user old) issuer timing (ls_generation old + 1)"
    and m': "m' = store_lease l staged"
    using g by blast+
  have inv': "lease_inv m'" using revoke_advances[OF rev inv] advances_inv[OF _ inv] grant_inv[OF gr] by blast
  have later: "\<not> is_ok (authorize_work m'' (ls_session_id old) t inc (ls_generation old) now)"
    if "lease_op\<^sup>*\<^sup>* m' m''" for m'' t inc now
  proof
    assume "is_ok (authorize_work m'' (ls_session_id old) t inc (ls_generation old) now)"
    then obtain k where k: "authorize_work m'' (ls_session_id old) t inc (ls_generation old) now = Inr k"
      by (cases "authorize_work m'' (ls_session_id old) t inc (ls_generation old) now") auto
    have "lease_inv m''" "lease_effect m' m''" using lease_run_effect[OF that inv'] by blast+
    then have "generation_of m' (ls_session_id old) \<le> generation_of m'' (ls_session_id old)"
      "generation_of m'' (ls_session_id old) = ls_generation old"
      using authorized_is_current[OF k] lease_effect_generation by blast+
    then have "generation_of m' (ls_session_id old) \<le> ls_generation old" by simp
    moreover have "generation_of m' (ls_session_id old) = ls_generation old + 1"
      unfolding m' new using sess by (simp add: generation_of_def)
    ultimately show False by simp
  qed
  have "lease_get m' old_id = Some (old\<lparr>ls_status := LS_Revoked\<rparr>)" "lease_get m' i = Some l"
    "\<forall>j. j \<noteq> i \<and> j \<noteq> old_id \<longrightarrow> lease_get m' j = lease_get m j"
    unfolding m' new staged lease_get_def using fresh by simp_all
  then show ?thesis
    using old live fresh later sess unfolding lease_get_def by (intro exI[of _ old]) (simp add: new)
qed

theorem failover_fences_witness:
  "lease_get after_failover lease_two = Some (day_lease lease_two 2)
   \<and> \<not> is_ok (authorize_work after_failover (Ident ''session_one'') (Ident ''tentacle_home'')
         (rd_selected_incarnation sample_decision) 1 300)"
proof -
  obtain old where old: "lease_get after_accept lease_one = Some old"
    and f: "lease_get after_failover lease_two = Some (day_lease lease_two 2)"
    "\<forall>m'' t inc now. lease_op\<^sup>*\<^sup>* after_failover m'' \<longrightarrow>
       \<not> is_ok (authorize_work m'' (ls_session_id old) t inc (ls_generation old) now)"
    using failover_fences[OF sample_run(1) sample_failover] by blast
  have "ls_session_id old = Ident ''session_one''" "ls_generation old = 1"
    using old by (auto simp: lease_get_def after_accept_def)
  with f show ?thesis by (metis rtranclp.rtrancl_refl)
qed

text \<open>
  C15: revalidation of persisted state and the operations agree up to one bound.  A manager
  reached by any operations passes \<open>validate_loaded_state\<close>, indexes, generation history and
  record checks included, exactly when none of its leases spans more than a day from its issue.
\<close>

theorem reachable_reloads_iff:
  assumes "lease_op\<^sup>*\<^sup>* lease_manager_default m"
  shows "validate_loaded_state m = Inr () \<longleftrightarrow>
     (\<forall>i l. lease_get m i = Some l \<longrightarrow> ls_expires_at l - ls_issued_at l \<le> 24 * 60 * 60)"
  using inv_loadable[OF run_inv[OF assms]]
  by (simp add: lease_get_def lifetime_def MAX_LEASE_LIFETIME_SECONDS_def)

theorem reachable_reloads_iff_witness: "validate_loaded_state after_accept = Inr ()"
  unfolding reachable_reloads_iff[OF sample_run(1)]
  by (simp add: lease_get_def after_accept_def after_grant_def lease_manager_default_def)

text \<open>
  renewal breaks that bound.  Granting a one-day lease, accepting it and renewing it once
  within its window, all accepted, leads to a manager whose persisted state is refused.
\<close>

theorem renewal_breaks_reload:
  "\<exists>m m' r. lease_op\<^sup>*\<^sup>* lease_manager_default m \<and> validate_loaded_state m = Inr ()
     \<and> renew m lease_one (Ident ''tentacle_home'') (rd_selected_incarnation sample_decision) 1 r = Inr m'
     \<and> validate_loaded_state m' \<noteq> Inr ()"
proof -
  have "validate_loaded_state after_accept = Inr ()"
    unfolding inv_loadable[OF run_inv[OF sample_run(1)]]
    by (simp add: after_accept_def after_grant_def lease_manager_default_def lifetime_def MAX_LEASE_LIFETIME_SECONDS_def)
  moreover have "validate_loaded_state after_renew \<noteq> Inr ()"
    unfolding inv_loadable[OF run_inv[OF sample_run(2)]]
    by (auto simp: after_renew_def lifetime_def MAX_LEASE_LIFETIME_SECONDS_def)
  ultimately show ?thesis using sample_run(1) sample_renew by blast
qed

text \<open>
  The expiry sweep takes exactly what is overdue.  It reports the live leases past their
  expiry or renewal deadline, marks those expired and no others, leaves no overdue lease, and
  changes no authorisation that holds at the time of the sweep.
\<close>

theorem expire_exact:
  assumes "lease_op\<^sup>*\<^sup>* lease_manager_default m" "expire m now = (ids, m')"
  shows "set ids = {i. \<exists>l. lease_get m i = Some l \<and> overdue now l}
    \<and> (\<forall>i. lease_get m' i =
          map_option (\<lambda>l. if overdue now l then l\<lparr>ls_status := LS_ExpiredStatus\<rparr> else l) (lease_get m i))
    \<and> (\<forall>i l. lease_get m' i = Some l \<longrightarrow> \<not> overdue now l)
    \<and> (\<forall>s t inc g l. authorize_work m' s t inc g now = Inr l \<longleftrightarrow> authorize_work m s t inc g now = Inr l)"
proof -
  have inv: "lease_inv m" using run_inv[OF assms(1)] .
  have m': "m' = snd (expire m now)" and ids: "ids = map ls_id (filter (overdue now) (bm_values (lm_leases m)))"
    using assms(2) by (simp_all add: expire_def Let_def)
  have keyed: "ls_id l = i" if "bm_get (lm_leases m) i = Some l" for i l
    using inv that by (simp add: lease_inv_def stored_ok_def)
  have "set ids = {i. \<exists>l. lease_get m i = Some l \<and> overdue now l}"
    unfolding ids using keyed by (force simp: bm_values_iff lease_get_def)
  moreover have "authorize_work m' s t inc g now = Inr l \<longleftrightarrow> authorize_work m s t inc g now = Inr l" for s t inc g l
    unfolding m' by (rule expire_keeps_authorisation[OF inv])
  moreover have "\<forall>i. lease_get m' i =
      map_option (\<lambda>l. if overdue now l then l\<lparr>ls_status := LS_ExpiredStatus\<rparr> else l) (lease_get m i)"
    unfolding m' lease_get_def expire_leases by simp
  moreover have "\<not> overdue now l" if "lease_get m' i = Some l" for i l
  proof -
    from that obtain k where "l = (if overdue now k then k\<lparr>ls_status := LS_ExpiredStatus\<rparr> else k)"
      unfolding m' lease_get_def expire_leases map_option_eq_Some by metis
    then show ?thesis by (cases "overdue now k") (simp_all add: overdue_def)
  qed
  ultimately show ?thesis by blast
qed

theorem expire_exact_witness: "fst (expire after_accept 90000) = [lease_one]"
proof -
  have "set (fst (expire after_accept 90000)) = {i. \<exists>l. lease_get after_accept i = Some l \<and> overdue 90000 l}"
    using expire_exact[OF sample_run(1) prod.collapse[symmetric], of 90000] by blast
  also have "\<dots> = {lease_one}"
    by (auto simp: lease_get_def after_accept_def after_grant_def lease_manager_default_def overdue_def
        split: if_splits)
  finally have "set (fst (expire after_accept 90000)) = {lease_one}" .
  moreover have "length (fst (expire after_accept 90000)) \<le> 1"
  proof -
    have "length (bm_values (lm_leases after_accept)) = 1"
      by (simp add: after_accept_def after_grant_def lease_manager_default_def bm_values_def flip: bm_len_def)
    then show ?thesis
      by (simp add: expire_def Let_def) (metis length_filter_le)
  qed
  ultimately show ?thesis by (cases "fst (expire after_accept 90000)") auto
qed

text \<open>A persisted state whose live lease is not the latest of its session.\<close>

definition stale_first :: lease where
  "stale_first = (day_lease lease_one 1)\<lparr>ls_status := LS_Active\<rparr>"

definition released_second :: lease where
  "released_second = (day_lease lease_two 2)\<lparr>ls_status := LS_Released\<rparr>"

definition stale_state :: lease_manager where
  "stale_state =
     \<lparr>lm_leases = bm_insert lease_one stale_first (bm_insert lease_two released_second bm_empty),
      lm_active_by_session = bm_insert (Ident ''session_one'') lease_one bm_empty,
      lm_generations = bm_insert (Ident ''session_one'') 2 bm_empty\<rparr>"

lemma stale_leases: "leases_of stale_state s = (if s = Ident ''session_one'' then {stale_first, released_second} else {})"
proof -
  have get: "bm_get (lm_leases stale_state) i = (if i = lease_one then Some stale_first
      else if i = lease_two then Some released_second else None)" for i
    by (simp add: stale_state_def)
  have sess: "ls_session_id stale_first = Ident ''session_one''" "ls_session_id released_second = Ident ''session_one''"
    by (simp_all add: stale_first_def released_second_def)
  show ?thesis
    unfolding leases_of_def get using sess lease_ids by (auto split: if_splits intro: exI[of _ lease_one] exI[of _ lease_two])
qed

lemma stale_state_loads: "validate_loaded_state stale_state = Inr ()"
  unfolding loaded_iff
proof (intro conjI allI impI)
  fix i l assume "bm_get (lm_leases stale_state) i = Some l"
  then consider "i = lease_one" "l = stale_first" | "i = lease_two" "l = released_second"
    by (auto simp: stale_state_def split: if_splits)
  then show "entry_ok stale_state (i, l)"
    using day_lease_valid[of 1 lease_one] day_lease_valid[of 2 lease_two] any_request_valid[of 100]
    by cases (simp_all add: entry_ok_def stored_ok_def validate_lease_ok stale_first_def released_second_def
        stale_state_def lease_shape_def lifetime_def)
next
  fix s
  have "ls_generation ` {stale_first, released_second} = {1..2}"
    by (auto simp: stale_first_def released_second_def)
  then show "history_loadable stale_state s"
    unfolding history_loadable_def history_ok_def stale_leases
    by (simp add: stale_state_def MAX_LEASES_def)
qed (simp_all add: stale_state_def MAX_LEASES_def MAX_SESSIONS_def index_ok_def stale_first_def)

text \<open>
  The revalidation does not restore the fence.  A persisted state in which the first of two
  generations is still active and indexed while the second is released passes every check, and
  work is then authorised for the first generation.
\<close>

theorem reload_misses_fence:
  "\<exists>m s t inc l. validate_loaded_state m = Inr () \<and> generation_of m s = 2
     \<and> authorize_work m s t inc 1 300 = Inr l"
proof (intro exI conjI)
  show "validate_loaded_state stale_state = Inr ()" by (rule stale_state_loads)
  show "generation_of stale_state (Ident ''session_one'') = 2"
    by (simp add: generation_of_def stale_state_def)
  show "authorize_work stale_state (Ident ''session_one'') (Ident ''tentacle_home'')
      (rd_selected_incarnation sample_decision) 1 300 = Inr stale_first"
    by (simp add: authorize_work_ok stale_state_def stale_first_def)
qed

end
