(* ===== verification/Council_Rendezvous.thy ===== *)
theory Council_Rendezvous
  imports Council_Lease
begin

section \<open>Rendezvous (cthuwu-council: rendezvous.rs)\<close>

text \<open>
  The control-plane handoff: route a request over the offers, then grant the lease of the
  selected Tentacle.  The service is a trait with one implementation; the locale
  \<open>rendezvous_service\<close> states what its clients rely on, and the local implementation
  interprets it.
\<close>

record rendezvous_request =
  rz_id :: request_id
  rz_session_id :: session_id
  rz_user :: user_reference
  rz_routing :: routing_request
  rz_lease_id :: lease_id
  rz_lease_expires_at :: nat
  rz_renewal_deadline :: nat

record rendezvous_response =
  rs_decision :: routing_decision
  rs_lease :: lease
  rs_direct_xmtp_endpoint :: string

datatype rendezvous_error =
    RZ_Invalid string
  | RZ_Routing routing_error
  | RZ_Lease lease_error

record local_rendezvous =
  lv_issuer :: cthulhu_id
  lv_leases :: lease_manager

definition LocalRendezvous_new :: "cthulhu_id \<Rightarrow> local_rendezvous" where
  "LocalRendezvous_new issuer = \<lparr>lv_issuer = issuer, lv_leases = lease_manager_default\<rparr>"

definition rendezvous ::
  "local_rendezvous \<Rightarrow> rendezvous_request \<Rightarrow> route_candidate list \<Rightarrow> nat
   \<Rightarrow> (rendezvous_error, rendezvous_response \<times> local_rendezvous) result" where
  "rendezvous v q offers now =
     and_then (ensure (\<not> (rz_id q \<noteq> rt_request_id (rz_routing q)
                         \<or> rz_session_id q \<noteq> rt_session_id (rz_routing q)
                         \<or> rz_renewal_deadline q \<le> now
                         \<or> rz_lease_expires_at q \<le> rz_renewal_deadline q))
                (RZ_Invalid ''identifiers or lease timing do not match'')) (\<lambda>_.
     and_then (map_err RZ_Routing (route (rz_routing q) offers now)) (\<lambda>decision.
     and_then (map_err RZ_Lease
         (grant (lv_leases v) (rz_lease_id q) (rz_routing q) decision (rz_user q) (lv_issuer v)
            \<lparr>lt_issued_at = now, lt_expires_at = rz_lease_expires_at q,
             lt_renewal_deadline = rz_renewal_deadline q\<rparr>)) (\<lambda>(l, leases).
       Inr (\<lparr>rs_decision = decision, rs_lease = l, rs_direct_xmtp_endpoint = rd_endpoint decision\<rparr>,
            v\<lparr>lv_leases := leases\<rparr>))))"

lemma rendezvous_ok:
  "rendezvous v q offers now = Inr (resp, v') \<longleftrightarrow>
     rz_id q = rt_request_id (rz_routing q) \<and> rz_session_id q = rt_session_id (rz_routing q)
     \<and> now < rz_renewal_deadline q \<and> rz_renewal_deadline q < rz_lease_expires_at q
     \<and> route (rz_routing q) offers now = Inr (rs_decision resp)
     \<and> grant (lv_leases v) (rz_lease_id q) (rz_routing q) (rs_decision resp) (rz_user q) (lv_issuer v)
         \<lparr>lt_issued_at = now, lt_expires_at = rz_lease_expires_at q,
          lt_renewal_deadline = rz_renewal_deadline q\<rparr> = Inr (rs_lease resp, lv_leases v')
     \<and> rs_direct_xmtp_endpoint resp = rd_endpoint (rs_decision resp) \<and> lv_issuer v' = lv_issuer v"
  by (cases resp; cases v; cases v') (auto simp: rendezvous_def not_le)

subsection \<open>The service contract\<close>

locale rendezvous_service =
  fixes request_of :: "'s \<Rightarrow> rendezvous_request \<Rightarrow> route_candidate list \<Rightarrow> nat
      \<Rightarrow> (rendezvous_error, rendezvous_response \<times> 's) result"
    and leases_in :: "'s \<Rightarrow> lease_manager"
  assumes served_lease_stored: "request_of s q offers now = Inr (resp, s') \<Longrightarrow>
        lease_op (leases_in s) (leases_in s')
        \<and> lease_get (leases_in s') (rz_lease_id q) = Some (rs_lease resp)"
    and served_lease_fields: "request_of s q offers now = Inr (resp, s') \<Longrightarrow>
        ls_session_id (rs_lease resp) = rz_session_id q
        \<and> ls_assigned_tentacle (rs_lease resp) = rd_selected_tentacle (rs_decision resp)
        \<and> ls_tentacle_incarnation (rs_lease resp) = rd_selected_incarnation (rs_decision resp)
        \<and> ls_status (rs_lease resp) = LS_Granted \<and> ls_issued_at (rs_lease resp) = now
        \<and> now < ls_renewal_deadline (rs_lease resp)
        \<and> ls_renewal_deadline (rs_lease resp) < ls_expires_at (rs_lease resp)"
begin

text \<open>The selected Tentacle can take the lease up at once, and is then authorised for the session.\<close>

lemma served_lease_usable:
  assumes "request_of s q offers now = Inr (resp, s')" "lease_inv (leases_in s)"
  shows "\<exists>m. accept (leases_in s') (rz_lease_id q) (rd_selected_tentacle (rs_decision resp))
      (rd_selected_incarnation (rs_decision resp)) (ls_generation (rs_lease resp)) now = Inr m
    \<and> authorize_work m (rz_session_id q) (rd_selected_tentacle (rs_decision resp))
        (rd_selected_incarnation (rs_decision resp)) (ls_generation (rs_lease resp)) now
      = Inr ((rs_lease resp)\<lparr>ls_status := LS_Active\<rparr>)"
proof -
  note stored = served_lease_stored[OF assms(1)] and fields = served_lease_fields[OF assms(1)]
  let ?l = "rs_lease resp" and ?i = "rz_lease_id q"
  have inv: "lease_inv (leases_in s')" using lease_op_effect stored assms(2) by blast
  have live: "is_live ?l" using fields by (simp add: is_live_def)
  have get: "bm_get (lm_leases (leases_in s')) ?i = Some ?l" using stored by (simp add: lease_get_def)
  have act: "active_lease (leases_in s') ?i (rd_selected_tentacle (rs_decision resp))
      (rd_selected_incarnation (rs_decision resp)) (ls_generation ?l) now = Inr ?l"
    using get fields live by (simp add: active_lease_ok)
  have index: "bm_get (lm_active_by_session (leases_in s')) (rz_session_id q) = Some ?i"
    using live_indexed[OF inv get live] fields by simp
  show ?thesis
    using act fields index
    by (intro exI[of _ "put_lease ?i (?l\<lparr>ls_status := LS_Active\<rparr>) (leases_in s')"])
      (auto simp: accept_ok authorize_work_ok)
qed

end

interpretation local_service: rendezvous_service rendezvous lv_leases
proof unfold_locales
  fix v q offers now resp v'
  assume "rendezvous v q offers now = Inr (resp, v')"
  note ok = this[unfolded rendezvous_ok]
  then have op: "lease_op (lv_leases v) (lv_leases v')" by (blast intro: op_grant)
  note granted = ok[THEN conjunct2, THEN conjunct2, THEN conjunct2, THEN conjunct2, THEN conjunct2,
      THEN conjunct1, unfolded grant_ok]
  show "lease_op (lv_leases v) (lv_leases v')
      \<and> lease_get (lv_leases v') (rz_lease_id q) = Some (rs_lease resp)"
    using op granted by (auto simp: lease_get_def)
  show "ls_session_id (rs_lease resp) = rz_session_id q
      \<and> ls_assigned_tentacle (rs_lease resp) = rd_selected_tentacle (rs_decision resp)
      \<and> ls_tentacle_incarnation (rs_lease resp) = rd_selected_incarnation (rs_decision resp)
      \<and> ls_status (rs_lease resp) = LS_Granted \<and> ls_issued_at (rs_lease resp) = now
      \<and> now < ls_renewal_deadline (rs_lease resp)
      \<and> ls_renewal_deadline (rs_lease resp) < ls_expires_at (rs_lease resp)"
    using ok granted by simp
qed

text \<open>Requests served by one service, the refused ones included.\<close>

inductive rendezvous_step :: "local_rendezvous \<Rightarrow> local_rendezvous \<Rightarrow> bool" where
  step_request: "rendezvous v q offers now = Inr (resp, v') \<Longrightarrow> rendezvous_step v v'"
| step_leases: "lease_op (lv_leases v) m \<Longrightarrow> rendezvous_step v (v\<lparr>lv_leases := m\<rparr>)"

inductive_cases rendezvous_stepE: "rendezvous_step v v'"

lemma rendezvous_run_leases:
  "rendezvous_step\<^sup>*\<^sup>* v v' \<Longrightarrow> lease_op\<^sup>*\<^sup>* (lv_leases v) (lv_leases v')"
proof (induction rule: rtranclp_induct)
  case (step x y)
  have "lease_op (lv_leases x) (lv_leases y)"
    using step(2)
    by (rule rendezvous_stepE) (auto dest: local_service.served_lease_stored)
  with step(3) show ?case by (rule rtranclp.rtrancl_into_rtrancl)
qed simp

subsection \<open>A sample handoff\<close>

definition sample_rendezvous :: rendezvous_request where
  "sample_rendezvous =
     \<lparr>rz_id = Ident ''request_one'', rz_session_id = Ident ''session_one'', rz_user = UR_Opaque ''user-1'',
      rz_routing = any_request, rz_lease_id = lease_one, rz_lease_expires_at = 86500,
      rz_renewal_deadline = 86400\<rparr>"

definition sample_service :: local_rendezvous where
  "sample_service = LocalRendezvous_new (Ident ''cthulhu_archivist'')"

lemma sample_handoff:
  "\<exists>resp v'. rendezvous sample_service sample_rendezvous [home_candidate True 0] 100 = Inr (resp, v')"
proof -
  let ?cs = "[home_candidate True 0]"
  have el: "eligible any_request (home_candidate True 0)"
    using home_candidate_ok(1)[of 0 True] by (simp add: eligible_iff any_requirements_met)
  then have "routable any_request ?cs 100"
    using any_request_valid[of 100] by (simp add: routable_def MAX_CANDIDATES_def)
  then obtain c where c: "best any_request ?cs c" "route any_request ?cs 100 = Inr (decision_for any_request ?cs c)"
    using route_progress by blast
  let ?d = "decision_for any_request ?cs c"
  let ?t = "\<lparr>lt_issued_at = 100, lt_expires_at = 86500, lt_renewal_deadline = 86400\<rparr>"
  let ?l = "granted_lease lease_one any_request ?d (UR_Opaque ''user-1'') (Ident ''cthulhu_archivist'') ?t 1"
  have home: "c = home_candidate True 0" using c(1) by (simp add: best_def)
  have inc: "0 < inc_generation (rd_selected_incarnation ?d)"
    unfolding home by (simp add: decision_for_def home_candidate_def from_tentacle_def Let_def ready_home_def
        home_tentacle_def)
  have user: "validate_user_reference (UR_Opaque ''user-1'') = Inr ()" by (simp add: ascii_defs)
  have "validate_lease ?l = Inr ()"
    using inc user by (simp add: validate_lease_ok lease_shape_def lifetime_def MAX_LEASE_LIFETIME_SECONDS_def)
  then have "grant lease_manager_default lease_one any_request ?d (UR_Opaque ''user-1'')
      (Ident ''cthulhu_archivist'') ?t = Inr (?l, store_lease ?l lease_manager_default)"
    using inc any_request_valid[of 100]
    by (simp add: grant_ok lease_manager_default_def MAX_LEASES_def MAX_SESSIONS_def
        session_has_live_lease_def generation_of_def u64_max_def) (simp add: decision_for_def)
  then show ?thesis
    using c(2)
    by (simp add: rendezvous_def sample_rendezvous_def sample_service_def LocalRendezvous_new_def)
      (simp add: any_request_def)
qed

subsection \<open>Properties\<close>

text \<open>
  a rendezvous ends in a usable handoff.  When a reachable service answers, the endpoint it
  returns is that of an offered candidate which meets every requirement, the lease belongs to
  the requested session and that candidate's incarnation with the next generation, and the
  selected Tentacle can accept it at once and is then authorised for the session.
\<close>

theorem rendezvous_handoff:
  assumes "rendezvous_step\<^sup>*\<^sup>* (LocalRendezvous_new issuer) v" "rendezvous v q offers now = Inr (resp, v')"
  shows "\<exists>c\<in>set offers. eligible (rz_routing q) c
    \<and> rs_direct_xmtp_endpoint resp = rc_endpoint c
    \<and> ls_assigned_cthulhu (rs_lease resp) = rc_cthulhu_id c
    \<and> ls_assigned_tentacle (rs_lease resp) = rc_tentacle_id c
    \<and> ls_tentacle_incarnation (rs_lease resp) = rc_incarnation c
    \<and> ls_session_id (rs_lease resp) = rz_session_id q
    \<and> ls_generation (rs_lease resp) = generation_of (lv_leases v) (rz_session_id q) + 1
    \<and> (\<exists>m. accept (lv_leases v') (rz_lease_id q) (rc_tentacle_id c) (rc_incarnation c)
             (ls_generation (rs_lease resp)) now = Inr m
         \<and> is_ok (authorize_work m (rz_session_id q) (rc_tentacle_id c) (rc_incarnation c)
             (ls_generation (rs_lease resp)) now))"
proof -
  note ok = assms(2)[unfolded rendezvous_ok]
  have inv: "lease_inv (lv_leases v)"
    using run_inv rendezvous_run_leases[OF assms(1)] by (simp add: LocalRendezvous_new_def)
  obtain c where c: "best (rz_routing q) offers c" "rs_decision resp = decision_for (rz_routing q) offers c"
    using ok by (auto simp: route_ok)
  have granted: "ls_assigned_cthulhu (rs_lease resp) = rd_selected_cthulhu (rs_decision resp)"
    "ls_generation (rs_lease resp) = generation_of (lv_leases v) (rz_session_id q) + 1"
    using ok by (auto simp: grant_ok)
  have sel: "rd_selected_cthulhu (rs_decision resp) = rc_cthulhu_id c"
    "rd_selected_tentacle (rs_decision resp) = rc_tentacle_id c"
    "rd_selected_incarnation (rs_decision resp) = rc_incarnation c" "rd_endpoint (rs_decision resp) = rc_endpoint c"
    by (simp_all add: c(2) decision_for_def)
  have "is_ok (Inr x)" for x :: lease by simp
  with local_service.served_lease_usable[OF assms(2) inv] local_service.served_lease_fields[OF assms(2)]
    c(1) granted ok show ?thesis
    unfolding sel best_def by (intro bexI[of _ c]) auto
qed

theorem rendezvous_handoff_witness:
  "\<exists>resp v'. rendezvous sample_service sample_rendezvous [home_candidate True 0] 100 = Inr (resp, v')
     \<and> rs_direct_xmtp_endpoint resp = rc_endpoint (home_candidate True 0)
     \<and> ls_generation (rs_lease resp) = 1"
proof -
  obtain resp v' where r: "rendezvous sample_service sample_rendezvous [home_candidate True 0] 100 = Inr (resp, v')"
    using sample_handoff by blast
  from rendezvous_handoff[OF _ this[unfolded sample_service_def]] r show ?thesis
    by (fastforce simp: sample_service_def LocalRendezvous_new_def generation_of_def lease_manager_default_def)
qed

text \<open>
  A session is held exclusively.  After a rendezvous, as long as its lease is live, the
  service refuses every further rendezvous for the same session, whatever happened in between.
\<close>

theorem rendezvous_exclusive:
  assumes "rendezvous_step\<^sup>*\<^sup>* (LocalRendezvous_new issuer) v" "rendezvous v q offers now = Inr (resp, v')"
    and "rendezvous_step\<^sup>*\<^sup>* v' w" "lease_get (lv_leases w) (rz_lease_id q) = Some l" "is_live l"
    and "rz_session_id q' = rz_session_id q"
  shows "\<not> is_ok (rendezvous w q' offers' now')"
proof
  assume "is_ok (rendezvous w q' offers' now')"
  then obtain resp' w' where again: "rendezvous w q' offers' now' = Inr (resp', w')"
    by (cases "rendezvous w q' offers' now'") auto
  have inv: "lease_inv (lv_leases v)"
    using run_inv rendezvous_run_leases[OF assms(1)] by (simp add: LocalRendezvous_new_def)
  have stored: "lease_op (lv_leases v) (lv_leases v')"
    "bm_get (lm_leases (lv_leases v')) (rz_lease_id q) = Some (rs_lease resp)"
    using local_service.served_lease_stored[OF assms(2)] by (simp_all add: lease_get_def)
  then have inv': "lease_inv (lv_leases v')" using lease_op_effect inv by blast
  have "lease_inv (lv_leases w)" "lease_effect (lv_leases v') (lv_leases w)"
    using lease_run_effect[OF rendezvous_run_leases[OF assms(3)] inv'] by blast+
  moreover from this(2) have "evolves (rs_lease resp) l"
    using stored(2) assms(4) unfolding lease_effect_def lease_get_def by fastforce
  then have "ls_session_id l = rz_session_id q"
    using evolves_core(2) local_service.served_lease_fields[OF assms(2)] by fastforce
  ultimately have "session_has_live_lease (lv_leases w) (rz_session_id q)"
    using live_session[of "lv_leases w" "rz_lease_id q" l] assms(4,5) unfolding lease_get_def by simp
  then show False using again assms(6) unfolding rendezvous_ok grant_ok by simp
qed

theorem rendezvous_exclusive_witness:
  "\<exists>resp v'. rendezvous sample_service sample_rendezvous [home_candidate True 0] 100 = Inr (resp, v')
     \<and> \<not> is_ok (rendezvous v' (sample_rendezvous\<lparr>rz_lease_id := lease_two\<rparr>) [home_candidate True 0] 101)"
proof -
  obtain resp v' where r: "rendezvous sample_service sample_rendezvous [home_candidate True 0] 100 = Inr (resp, v')"
    using sample_handoff by blast
  have live: "lease_get (lv_leases v') (rz_lease_id sample_rendezvous) = Some (rs_lease resp)" "is_live (rs_lease resp)"
    using local_service.served_lease_stored[OF r] local_service.served_lease_fields[OF r] by (auto simp: is_live_def)
  have "\<not> is_ok (rendezvous v' (sample_rendezvous\<lparr>rz_lease_id := lease_two\<rparr>) [home_candidate True 0] 101)"
    by (rule rendezvous_exclusive[OF rtranclp.rtrancl_refl r[unfolded sample_service_def]
          rtranclp.rtrancl_refl live]) (simp add: sample_rendezvous_def)
  with r show ?thesis by blast
qed

end
