(* ===== verification/Council_Transport.thy ===== *)
theory Council_Transport
  imports Protocol_Envelope
begin

section \<open>The Council transport (cthuwu-council: transport.rs)\<close>

text \<open>
  The in-memory transport: it authenticates the sender, validates the envelope at its clock,
  bounds retention and the publish rate of each sender, suppresses replays and numbers what it
  keeps; subscribers page through it by cursor.  Its state is behind a mutex, so an operation is
  one step; \<open>publish\<close> returns its result and the state it leaves.  The official XMTP adapter is
  a boundary whose operations always fail.
\<close>

definition MAX_SUBSCRIPTION_BATCH :: nat where "MAX_SUBSCRIPTION_BATCH = 256"
definition SENDER_RATE_WINDOW_SECONDS :: int where "SENDER_RATE_WINDOW_SECONDS = 60"
definition MAX_MESSAGES_PER_SENDER_PER_WINDOW :: nat where "MAX_MESSAGES_PER_SENDER_PER_WINDOW = 128"

record authenticated_sender =
  as_cthulhu_id :: cthulhu_id
  as_tentacle_id :: tentacle_id

record published_message =
  pm_order :: nat
  pm_message_id :: message_id
  pm_envelope :: council_envelope

datatype transport_error =
    TE_Invalid validation_error
  | TE_SenderMismatch
  | TE_SignatureRejected
  | TE_RetentionLimit
  | TE_InvalidBatchSize
  | TE_StateUnavailable
  | TE_RateLimited
  | TE_ClockMovedBackwards
  | TE_XmtpAdapterUnavailable

record rate_window =
  rw_started_at :: int
  rw_messages :: nat

type_synonym verifier =
  "cthulhu_id \<Rightarrow> string \<Rightarrow> signature \<Rightarrow> (signature_error, unit) result"

record transport =
  tr_max_retained :: nat
  tr_required_verifier :: "verifier option"
  tr_next_order :: nat
  tr_replay_guard :: replay_guard
  tr_retained :: "published_message list"
  tr_sender_rates :: "(cthulhu_id \<times> tentacle_id, rate_window) bmap"

definition transport_new_local :: "nat \<Rightarrow> nat \<Rightarrow> (transport_error, transport) result" where
  "transport_new_local max_retained max_senders =
     (if max_retained = 0 then Inl TE_RetentionLimit
      else and_then (map_err TE_Invalid (ReplayGuard_new max_retained max_senders)) (\<lambda>g.
        Inr \<lparr>tr_max_retained = max_retained, tr_required_verifier = None, tr_next_order = 1,
             tr_replay_guard = g, tr_retained = [], tr_sender_rates = bm_empty\<rparr>))"

definition with_required_signatures :: "verifier \<Rightarrow> transport \<Rightarrow> transport" where
  "with_required_signatures v s = s\<lparr>tr_required_verifier := Some v\<rparr>"

text \<open>The clock's unsigned seconds, capped to the signed range.\<close>

definition transport_now :: "nat \<Rightarrow> timestamp" where
  "transport_now clock = int (min clock (nat i64_max))"

subsection \<open>Publishing\<close>

definition sender_key :: "authenticated_sender \<Rightarrow> cthulhu_id \<times> tentacle_id" where
  "sender_key a = (as_cthulhu_id a, as_tentacle_id a)"

definition rate_check :: "transport \<Rightarrow> cthulhu_id \<times> tentacle_id \<Rightarrow> timestamp \<Rightarrow> (transport_error, unit) result" where
  "rate_check s key now =
     (case bm_get (tr_sender_rates s) key of
        None \<Rightarrow> Inr ()
      | Some rate \<Rightarrow>
          if now < rw_started_at rate then Inl TE_ClockMovedBackwards
          else if now - rw_started_at rate < SENDER_RATE_WINDOW_SECONDS
                  \<and> rw_messages rate \<ge> MAX_MESSAGES_PER_SENDER_PER_WINDOW
          then Inl TE_RateLimited else Inr ())"

definition counted_rate :: "transport \<Rightarrow> cthulhu_id \<times> tentacle_id \<Rightarrow> timestamp \<Rightarrow> rate_window" where
  "counted_rate s key now =
     (let rate = (case bm_get (tr_sender_rates s) key of
                    None \<Rightarrow> \<lparr>rw_started_at = now, rw_messages = 0\<rparr> | Some rate \<Rightarrow> rate);
          rate' = (if now - rw_started_at rate \<ge> SENDER_RATE_WINDOW_SECONDS
                   then \<lparr>rw_started_at = now, rw_messages = 0\<rparr> else rate)
      in rate'\<lparr>rw_messages := rw_messages rate' + 1\<rparr>)"

definition admission ::
  "libs \<Rightarrow> transport \<Rightarrow> authenticated_sender \<Rightarrow> council_envelope \<Rightarrow> timestamp \<Rightarrow> (transport_error, unit) result" where
  "admission L s a e now = run_checks
     [ensure (\<not> (as_cthulhu_id a \<noteq> ev_sender_cthulhu_id e \<or> as_tentacle_id a \<noteq> ev_sender_tentacle_id e))
        TE_SenderMismatch,
      map_err TE_Invalid (validate_envelope L e now),
      (case tr_required_verifier s of
         None \<Rightarrow> Inr ()
       | Some v \<Rightarrow> map_err (\<lambda>_. TE_SignatureRejected) (verify_signature L v e)),
      ensure (\<not> length (tr_retained s) \<ge> tr_max_retained s) TE_RetentionLimit,
      rate_check s (sender_key a) now]"

definition publish ::
  "libs \<Rightarrow> transport \<Rightarrow> authenticated_sender \<Rightarrow> council_envelope \<Rightarrow> nat
   \<Rightarrow> (transport_error, published_message) result \<times> transport" where
  "publish L s a e clock =
     (let now = transport_now clock in
      case and_then (admission L s a e now)
             (\<lambda>_. map_err TE_Invalid (check_and_record L (tr_replay_guard s) e now)) of
        Inl err \<Rightarrow> (Inl err, s)
      | Inr g \<Rightarrow>
          (let s1 = s\<lparr>tr_replay_guard := g,
                      tr_sender_rates := bm_insert (sender_key a) (counted_rate s (sender_key a) now)
                                           (tr_sender_rates s)\<rparr>;
               published = \<lparr>pm_order = tr_next_order s, pm_message_id = ev_message_id e, pm_envelope = e\<rparr>
           in case checked_add u64_max (tr_next_order s) 1 of
                None \<Rightarrow> (Inl TE_RetentionLimit, s1)
              | Some n \<Rightarrow>
                  (Inr published, s1\<lparr>tr_next_order := n, tr_retained := tr_retained s @ [published]\<rparr>)))"

subsection \<open>Subscribing\<close>

definition subscribe ::
  "transport \<Rightarrow> council_id \<Rightarrow> nat \<Rightarrow> nat \<Rightarrow> (transport_error, published_message list) result" where
  "subscribe s council after_order lim =
     (if lim = 0 \<or> lim > MAX_SUBSCRIPTION_BATCH then Inl TE_InvalidBatchSize
      else Inr (take lim (filter (\<lambda>r. pm_order r > after_order \<and> ev_council_id (pm_envelope r) = council)
                            (tr_retained s))))"

definition xmtp_publish ::
  "authenticated_sender \<Rightarrow> council_envelope \<Rightarrow> (transport_error, published_message) result" where
  "xmtp_publish a e = Inl TE_XmtpAdapterUnavailable"

definition xmtp_subscribe ::
  "council_id \<Rightarrow> nat \<Rightarrow> nat \<Rightarrow> (transport_error, published_message list) result" where
  "xmtp_subscribe council after_order lim = Inl TE_XmtpAdapterUnavailable"

subsection \<open>Accepted messages\<close>

lemma admission_ok:
  "admission L s a e now = Inr u \<longleftrightarrow>
     as_cthulhu_id a = ev_sender_cthulhu_id e \<and> as_tentacle_id a = ev_sender_tentacle_id e
     \<and> validate_envelope L e now = Inr ()
     \<and> (\<forall>v. tr_required_verifier s = Some v \<longrightarrow> verify_signature L v e = Inr ())
     \<and> length (tr_retained s) < tr_max_retained s \<and> rate_check s (sender_key a) now = Inr ()"
  by (cases "tr_required_verifier s") (auto simp: admission_def run_checks.simps(1) not_le)

lemma rate_check_ok:
  "rate_check s key now = Inr u \<longleftrightarrow>
     (\<forall>r. bm_get (tr_sender_rates s) key = Some r \<longrightarrow>
        rw_started_at r \<le> now \<and> (now - rw_started_at r < 60 \<longrightarrow> rw_messages r < 128))"
  by (auto simp: rate_check_def SENDER_RATE_WINDOW_SECONDS_def MAX_MESSAGES_PER_SENDER_PER_WINDOW_def
      not_le split: option.splits)

text \<open>What a transport that has stored fewer than \<open>u64_max\<close> messages satisfies.\<close>

definition transport_inv :: "transport \<Rightarrow> bool" where
  "transport_inv s \<longleftrightarrow>
     map pm_order (tr_retained s) = [1..<tr_next_order s] \<and> 0 < tr_next_order s
     \<and> length (tr_retained s) \<le> tr_max_retained s
     \<and> (\<forall>m\<in>set (tr_retained s). pm_message_id m = ev_message_id (pm_envelope m))
     \<and> distinct (map pm_message_id (tr_retained s))
     \<and> (\<forall>i. guard_contains (tr_replay_guard s) i \<longleftrightarrow> i \<in> pm_message_id ` set (tr_retained s))
     \<and> (\<forall>k r. bm_get (tr_sender_rates s) k = Some r \<longrightarrow> rw_messages r \<le> 128)"

lemma inv_order: "transport_inv s \<Longrightarrow> tr_next_order s = Suc (length (tr_retained s))"
proof -
  assume "transport_inv s"
  then have "length (map pm_order (tr_retained s)) = tr_next_order s - 1" "0 < tr_next_order s"
    unfolding transport_inv_def by (metis length_upt)+
  then show ?thesis by simp
qed

definition accepted_state ::
  "transport \<Rightarrow> authenticated_sender \<Rightarrow> council_envelope \<Rightarrow> timestamp \<Rightarrow> replay_guard \<Rightarrow> published_message \<Rightarrow> transport" where
  "accepted_state s a e now g m =
     s\<lparr>tr_replay_guard := g,
       tr_sender_rates := bm_insert (sender_key a) (counted_rate s (sender_key a) now) (tr_sender_rates s),
       tr_next_order := tr_next_order s + 1, tr_retained := tr_retained s @ [m]\<rparr>"

definition message_for :: "transport \<Rightarrow> council_envelope \<Rightarrow> published_message" where
  "message_for s e = \<lparr>pm_order = tr_next_order s, pm_message_id = ev_message_id e, pm_envelope = e\<rparr>"

lemma publish_refused:
  assumes "\<not> (admission L s a e (transport_now clock) = Inr ()
      \<and> is_ok (check_and_record L (tr_replay_guard s) e (transport_now clock)))"
  shows "\<exists>err. publish L s a e clock = (Inl err, s)"
  using assms
  by (cases "admission L s a e (transport_now clock)";
      cases "check_and_record L (tr_replay_guard s) e (transport_now clock)")
    (simp_all add: publish_def Let_def)

lemma publish_accepted:
  assumes "admission L s a e (transport_now clock) = Inr ()"
    "check_and_record L (tr_replay_guard s) e (transport_now clock) = Inr g"
    "transport_inv s" "tr_max_retained s < u64_max"
  shows "publish L s a e clock
    = (Inr (message_for s e), accepted_state s a e (transport_now clock) g (message_for s e))"
proof -
  have "length (tr_retained s) < tr_max_retained s" using assms(1) by (simp add: admission_ok)
  then have "tr_next_order s + 1 \<le> u64_max" using inv_order[OF assms(3)] assms(4) by simp
  then show ?thesis
    using assms(1,2) by (simp add: publish_def Let_def checked_add_def message_for_def accepted_state_def)
qed

lemma publish_cases:
  assumes "publish L s a e clock = (r, s')" "transport_inv s" "tr_max_retained s < u64_max"
  shows "(\<exists>err. r = Inl err \<and> s' = s
        \<and> \<not> (admission L s a e (transport_now clock) = Inr ()
            \<and> is_ok (check_and_record L (tr_replay_guard s) e (transport_now clock))))
    \<or> (\<exists>g. admission L s a e (transport_now clock) = Inr ()
        \<and> check_and_record L (tr_replay_guard s) e (transport_now clock) = Inr g
        \<and> r = Inr (message_for s e) \<and> s' = accepted_state s a e (transport_now clock) g (message_for s e))"
proof (cases "admission L s a e (transport_now clock) = Inr ()
            \<and> is_ok (check_and_record L (tr_replay_guard s) e (transport_now clock))")
  case False
  then show ?thesis using publish_refused[OF False] assms(1) by auto
next
  case True
  then obtain g where "check_and_record L (tr_replay_guard s) e (transport_now clock) = Inr g"
    by (cases "check_and_record L (tr_replay_guard s) e (transport_now clock)") auto
  with publish_accepted[OF _ this assms(2,3)] True assms(1) show ?thesis by auto
qed

subsection \<open>Runs and their log\<close>

type_synonym publish_log = "((cthulhu_id \<times> tentacle_id) \<times> timestamp \<times> published_message) list"

inductive transport_run :: "libs \<Rightarrow> transport \<Rightarrow> transport \<Rightarrow> publish_log \<Rightarrow> bool" for L s0 where
  run_start: "transport_run L s0 s0 []"
| run_accepted: "transport_run L s0 s log \<Longrightarrow> publish L s a e clock = (Inr m, s') \<Longrightarrow>
    transport_run L s0 s' (log @ [(sender_key a, transport_now clock, m)])"
| run_refused: "transport_run L s0 s log \<Longrightarrow> publish L s a e clock = (Inl err, s') \<Longrightarrow>
    transport_run L s0 s' log"

definition times_of :: "cthulhu_id \<times> tentacle_id \<Rightarrow> publish_log \<Rightarrow> timestamp list" where
  "times_of k log = map (\<lambda>x. fst (snd x)) (filter (\<lambda>x. fst x = k) log)"

text \<open>
  The window of a sender against the times of its accepted messages: the last \<open>rw_messages\<close> lie
  in the window, the ones before it are earlier than its start, and the ones before the previous
  window more than a minute earlier.
\<close>

definition window_ok :: "rate_window \<Rightarrow> timestamp list \<Rightarrow> bool" where
  "window_ok r ts \<longleftrightarrow>
     rw_messages r \<le> 128 \<and> rw_messages r \<le> length ts
     \<and> (\<forall>i < length ts.
          (length ts \<le> i + rw_messages r \<longrightarrow> ts ! i < rw_started_at r + 60)
          \<and> (i + rw_messages r < length ts \<longrightarrow> ts ! i < rw_started_at r)
          \<and> (i + rw_messages r + 128 < length ts \<longrightarrow> ts ! i + 60 < rw_started_at r))"

definition spaced :: "timestamp list \<Rightarrow> bool" where
  "spaced ts \<longleftrightarrow> (\<forall>i j. i + 256 \<le> j \<longrightarrow> j < length ts \<longrightarrow> ts ! i + 60 < ts ! j)"

lemma spaced_append:
  assumes "spaced ts" "\<And>i. i + 256 \<le> length ts \<Longrightarrow> ts ! i + 60 < t"
  shows "spaced (ts @ [t])"
  unfolding spaced_def
proof (intro allI impI)
  fix i j assume ij: "i + 256 \<le> j" "j < length (ts @ [t])"
  show "(ts @ [t]) ! i + 60 < (ts @ [t]) ! j"
  proof (cases "j < length ts")
    case True
    then show ?thesis using assms(1) ij(1) by (simp add: spaced_def nth_append)
  next
    case False
    then have "j = length ts" using ij by simp
    then show ?thesis using assms(2)[of i] ij(1) by (auto simp: nth_append)
  qed
qed

lemma spaced_count:
  assumes "spaced ts"
  shows "length (filter (\<lambda>t. a \<le> t \<and> t \<le> a + 60) ts) \<le> 256"
proof (rule ccontr)
  let ?I = "{i. i < length ts \<and> a \<le> ts ! i \<and> ts ! i \<le> a + 60}"
  assume "\<not> ?thesis"
  then have card: "256 < card ?I" by (simp add: length_filter_conv_card)
  have fin: "finite ?I" by simp
  have ne: "?I \<noteq> {}" using card by force
  have "?I \<subseteq> {Min ?I..Max ?I}" using fin by auto
  then have "card ?I \<le> card {Min ?I..Max ?I}" by (intro card_mono) auto
  then have far: "Min ?I + 256 \<le> Max ?I" using card by simp
  have "Min ?I \<in> ?I" "Max ?I \<in> ?I" using Min_in[OF fin ne] Max_in[OF fin ne] by blast+
  then have "a \<le> ts ! Min ?I" "ts ! Max ?I \<le> a + 60" "Max ?I < length ts" by blast+
  moreover have "ts ! Min ?I + 60 < ts ! Max ?I" using assms far calculation(3) unfolding spaced_def by blast
  ultimately show False by simp
qed

lemma window_continues:
  assumes "window_ok r ts" "spaced ts" "rw_messages r < 128" "rw_started_at r \<le> t" "t < rw_started_at r + 60"
  shows "window_ok (r\<lparr>rw_messages := rw_messages r + 1\<rparr>) (ts @ [t]) \<and> spaced (ts @ [t])"
proof
  show "window_ok (r\<lparr>rw_messages := rw_messages r + 1\<rparr>) (ts @ [t])"
    unfolding window_ok_def
  proof (intro conjI allI impI)
    fix i assume i: "i < length (ts @ [t])"
      "i + rw_messages (r\<lparr>rw_messages := rw_messages r + 1\<rparr>) + 128 < length (ts @ [t])"
    then have "i < length ts" "i + rw_messages r + 128 < length ts" by auto
    then show "(ts @ [t]) ! i + 60 < rw_started_at (r\<lparr>rw_messages := rw_messages r + 1\<rparr>)"
      using assms(1) by (simp add: window_ok_def nth_append)
  next
    fix i assume i: "i < length (ts @ [t])"
      "i + rw_messages (r\<lparr>rw_messages := rw_messages r + 1\<rparr>) < length (ts @ [t])"
    then have "i < length ts" "i + rw_messages r < length ts" by auto
    then show "(ts @ [t]) ! i < rw_started_at (r\<lparr>rw_messages := rw_messages r + 1\<rparr>)"
      using assms(1) by (simp add: window_ok_def nth_append)
  next
    fix i assume i: "i < length (ts @ [t])"
    show "(ts @ [t]) ! i < rw_started_at (r\<lparr>rw_messages := rw_messages r + 1\<rparr>) + 60"
      if "length (ts @ [t]) \<le> i + rw_messages (r\<lparr>rw_messages := rw_messages r + 1\<rparr>)"
      using assms(1,5) i that by (auto simp: window_ok_def nth_append)
  qed (use assms(1,3) in \<open>auto simp: window_ok_def\<close>)
  show "spaced (ts @ [t])"
  proof (rule spaced_append[OF assms(2)])
    fix i assume i: "i + 256 \<le> length ts"
    then have "ts ! i + 60 < rw_started_at r" using assms(1,3) by (simp add: window_ok_def)
    with assms(4) show "ts ! i + 60 < t" by simp
  qed
qed

lemma window_restarts:
  assumes "window_ok r ts" "spaced ts" "rw_started_at r + 60 \<le> t"
  shows "window_ok \<lparr>rw_started_at = t, rw_messages = 1\<rparr> (ts @ [t]) \<and> spaced (ts @ [t])"
proof -
  have old: "ts ! i < t" if "i < length ts" for i
  proof (cases "i + rw_messages r < length ts")
    case True
    then have "ts ! i < rw_started_at r" using assms(1) that by (simp add: window_ok_def)
    with assms(3) show ?thesis by simp
  next
    case False
    then have "ts ! i < rw_started_at r + 60" using assms(1) that by (simp add: window_ok_def)
    with assms(3) show ?thesis by simp
  qed
  have older: "ts ! i + 60 < t" if "i + 128 < length ts" for i
  proof -
    have "i + rw_messages r < length ts" using that assms(1) by (simp add: window_ok_def)
    then have "ts ! i < rw_started_at r" using assms(1) by (simp add: window_ok_def)
    with assms(3) show ?thesis by simp
  qed
  have "window_ok \<lparr>rw_started_at = t, rw_messages = 1\<rparr> (ts @ [t])"
    unfolding window_ok_def
  proof (intro conjI allI impI)
    fix i assume "i < length (ts @ [t])" "i + rw_messages \<lparr>rw_started_at = t, rw_messages = 1\<rparr> + 128 < length (ts @ [t])"
    then show "(ts @ [t]) ! i + 60 < rw_started_at \<lparr>rw_started_at = t, rw_messages = 1\<rparr>"
      using older[of i] by (simp add: nth_append)
  next
    fix i assume "i < length (ts @ [t])" "i + rw_messages \<lparr>rw_started_at = t, rw_messages = 1\<rparr> < length (ts @ [t])"
    then show "(ts @ [t]) ! i < rw_started_at \<lparr>rw_started_at = t, rw_messages = 1\<rparr>"
      using old[of i] by (simp add: nth_append)
  next
    fix i assume "i < length (ts @ [t])"
    then show "(ts @ [t]) ! i < rw_started_at \<lparr>rw_started_at = t, rw_messages = 1\<rparr> + 60"
      using old[of i] by (cases "i < length ts") (auto simp: nth_append)
  qed auto
  moreover have "spaced (ts @ [t])" by (rule spaced_append[OF assms(2)]) (simp add: older)
  ultimately show ?thesis by blast
qed

lemma window_starts: "window_ok \<lparr>rw_started_at = t, rw_messages = 1\<rparr> [t] \<and> spaced [t]"
  by (simp add: window_ok_def spaced_def)

definition rates_ok :: "transport \<Rightarrow> publish_log \<Rightarrow> bool" where
  "rates_ok s log \<longleftrightarrow>
     (\<forall>k. spaced (times_of k log)
        \<and> (case bm_get (tr_sender_rates s) k of
             None \<Rightarrow> times_of k log = [] | Some r \<Rightarrow> window_ok r (times_of k log)))"

lemma counted_rate_ok:
  assumes "rates_ok s log" "rate_check s k now = Inr ()"
  shows "window_ok (counted_rate s k now) (times_of k log @ [now]) \<and> spaced (times_of k log @ [now])"
proof (cases "bm_get (tr_sender_rates s) k")
  case None
  then have "times_of k log = []" using assms(1) unfolding rates_ok_def by (metis option.simps(4))
  then show ?thesis
    using None window_starts[of now] by (simp add: counted_rate_def SENDER_RATE_WINDOW_SECONDS_def)
next
  case (Some r)
  have ok: "window_ok r (times_of k log)" "spaced (times_of k log)"
    using assms(1) Some unfolding rates_ok_def by (metis option.simps(5))+
  show ?thesis
  proof (cases "rw_started_at r + 60 \<le> now")
    case True
    then show ?thesis
      using window_restarts[OF ok True] Some
      by (simp add: counted_rate_def Let_def SENDER_RATE_WINDOW_SECONDS_def)
  next
    case False
    then have "rw_started_at r \<le> now" "rw_messages r < 128"
      using assms(2) Some by (auto simp: rate_check_ok)
    with False show ?thesis
      using window_continues[OF ok] Some
      by (simp add: counted_rate_def Let_def SENDER_RATE_WINDOW_SECONDS_def)
  qed
qed

subsection \<open>What every run keeps\<close>

definition log_ok :: "libs \<Rightarrow> transport \<Rightarrow> publish_log \<Rightarrow> bool" where
  "log_ok L s log \<longleftrightarrow>
     map (\<lambda>x. snd (snd x)) log = tr_retained s
     \<and> (\<forall>(k, t, m)\<in>set log.
          k = (ev_sender_cthulhu_id (pm_envelope m), ev_sender_tentacle_id (pm_envelope m))
          \<and> validate_envelope L (pm_envelope m) t = Inr ()
          \<and> (\<forall>v. tr_required_verifier s = Some v \<longrightarrow> verify_signature L v (pm_envelope m) = Inr ()))"

definition fresh_transport :: "transport \<Rightarrow> bool" where
  "fresh_transport s \<longleftrightarrow>
     tr_retained s = [] \<and> tr_next_order s = 1 \<and> tr_sender_rates s = bm_empty
     \<and> 0 < tr_max_retained s \<and> (\<forall>i. \<not> guard_contains (tr_replay_guard s) i)"

lemma new_transport_fresh:
  "transport_new_local m n = Inr s \<Longrightarrow> fresh_transport s \<and> tr_max_retained s = m
    \<and> tr_required_verifier s = None \<and> fresh_transport (with_required_signatures v s)
    \<and> tr_max_retained (with_required_signatures v s) = m"
  by (auto simp: transport_new_local_def fresh_transport_def with_required_signatures_def ReplayGuard_new_ok
      guard_contains_def split: if_splits)

lemma fresh_inv: "fresh_transport s \<Longrightarrow> transport_inv s \<and> log_ok L s [] \<and> rates_ok s []"
  by (auto simp: fresh_transport_def transport_inv_def log_ok_def rates_ok_def times_of_def spaced_def)

lemma accepted_keeps:
  assumes adm: "admission L s a e now = Inr ()"
    and rec: "check_and_record L (tr_replay_guard s) e now = Inr g"
    and inv: "transport_inv s" "log_ok L s log" "rates_ok s log"
    and m: "m = message_for s e" and s': "s' = accepted_state s a e now g m"
  shows "transport_inv s'" "log_ok L s' (log @ [(sender_key a, now, m)])"
    "rates_ok s' (log @ [(sender_key a, now, m)])"
proof -
  note m = m[unfolded message_for_def] and s' = s'[unfolded accepted_state_def]
  note g = rec[unfolded check_and_record_ok]
  have window: "window_ok (counted_rate s (sender_key a) now) (times_of (sender_key a) log @ [now])"
    "spaced (times_of (sender_key a) log @ [now])"
    using counted_rate_ok[OF inv(3)] adm by (simp_all add: admission_ok)
  then have "rw_messages (counted_rate s (sender_key a) now) \<le> 128" by (simp add: window_ok_def)
  moreover have "map pm_order (tr_retained s @ [m]) = [1..<Suc (tr_next_order s)]"
    using inv(1) m by (simp add: transport_inv_def)
  moreover have "ev_message_id e \<notin> pm_message_id ` set (tr_retained s)"
    using g inv(1) by (simp add: transport_inv_def guard_contains_def)
  ultimately show "transport_inv s'"
    using inv(1) adm g m unfolding transport_inv_def s'
    by (auto simp: admission_ok guard_contains_def simp del: upt_Suc)
  show "log_ok L s' (log @ [(sender_key a, now, m)])"
    using inv(2) adm m unfolding log_ok_def s' by (auto simp: admission_ok sender_key_def)
  show "rates_ok s' (log @ [(sender_key a, now, m)])"
    unfolding rates_ok_def
  proof
    fix k
    have times: "times_of k (log @ [(sender_key a, now, m)])
        = (if k = sender_key a then times_of k log @ [now] else times_of k log)"
      by (simp add: times_of_def)
    show "spaced (times_of k (log @ [(sender_key a, now, m)])) \<and>
        (case bm_get (tr_sender_rates s') k of
           None \<Rightarrow> times_of k (log @ [(sender_key a, now, m)]) = []
         | Some r \<Rightarrow> window_ok r (times_of k (log @ [(sender_key a, now, m)])))"
      unfolding times using window inv(3)[unfolded rates_ok_def, rule_format, of k] by (simp add: s')
  qed
qed

lemma run_keeps:
  assumes "transport_run L s0 s log" "fresh_transport s0" "tr_max_retained s0 < u64_max"
  shows "transport_inv s \<and> log_ok L s log \<and> rates_ok s log
    \<and> tr_max_retained s = tr_max_retained s0 \<and> tr_required_verifier s = tr_required_verifier s0"
  using assms
proof (induction rule: transport_run.induct)
  case run_start
  then show ?case using fresh_inv by blast
next
  case (run_accepted s log a e clock m s')
  note IH = run_accepted.IH[OF run_accepted.prems]
  have lim: "tr_max_retained s < u64_max" using IH run_accepted.prems by simp
  from publish_cases[OF run_accepted.hyps(2) _ lim] IH
  obtain g where g: "admission L s a e (transport_now clock) = Inr ()"
    "check_and_record L (tr_replay_guard s) e (transport_now clock) = Inr g"
    "m = message_for s e" "s' = accepted_state s a e (transport_now clock) g m"
    by auto
  have "transport_inv s" "log_ok L s log" "rates_ok s log" using IH by blast+
  from accepted_keeps[OF g(1,2) this g(3,4)] have
    "transport_inv s' \<and> log_ok L s' (log @ [(sender_key a, transport_now clock, m)])
     \<and> rates_ok s' (log @ [(sender_key a, transport_now clock, m)])" by blast
  moreover have "tr_max_retained s' = tr_max_retained s" "tr_required_verifier s' = tr_required_verifier s"
    by (simp_all add: g(4) accepted_state_def)
  ultimately show ?case using IH by simp
next
  case (run_refused s log a e clock err s')
  note IH = run_refused.IH[OF run_refused.prems]
  have lim: "tr_max_retained s < u64_max" using IH run_refused.prems by simp
  from publish_cases[OF run_refused.hyps(2) _ lim] IH have "s' = s" by auto
  with IH show ?case by simp
qed

subsection \<open>Paging\<close>

text \<open>A subscriber that asks for the next batch after the last message it has, until none comes.\<close>

fun drain :: "transport \<Rightarrow> council_id \<Rightarrow> nat \<Rightarrow> nat \<Rightarrow> nat \<Rightarrow> published_message list" where
  "drain s council after_order lim 0 = []"
| "drain s council after_order lim (Suc fuel) =
     (case subscribe s council after_order lim of
        Inl err \<Rightarrow> []
      | Inr batch \<Rightarrow>
          if batch = [] then []
          else batch @ drain s council (pm_order (last batch)) lim fuel)"

lemma filter_after_take:
  fixes f :: "'a \<Rightarrow> nat"
  assumes "sorted_wrt (<) (map f xs)" "take n xs \<noteq> []"
  shows "filter (\<lambda>x. f (last (take n xs)) < f x) xs = drop n xs"
proof -
  let ?a = "take n xs" and ?b = "drop n xs"
  have sorted: "sorted_wrt (<) (map f (?a @ ?b))" using assms(1) by simp
  then have cross: "\<forall>x\<in>set ?a. \<forall>y\<in>set ?b. f x < f y" and left: "sorted_wrt (<) (map f ?a)"
    unfolding map_append sorted_wrt_append by auto
  have "?a = butlast ?a @ [last ?a]" using assms(2) by simp
  then have "sorted_wrt (<) (map f (butlast ?a @ [last ?a]))" using left by metis
  then have "\<forall>x\<in>set (butlast ?a). f x < f (last ?a)" by (simp add: sorted_wrt_append)
  moreover have "set ?a \<subseteq> insert (last ?a) (set (butlast ?a))"
    using \<open>?a = butlast ?a @ [last ?a]\<close> by (metis Un_insert_right empty_set list.simps(15) order_refl set_append sup_bot.right_neutral)
  ultimately have "\<forall>x\<in>set ?a. \<not> f (last ?a) < f x" by fastforce
  then have "filter (\<lambda>x. f (last ?a) < f x) ?a = []" by (simp add: filter_empty_conv)
  moreover have "filter (\<lambda>x. f (last ?a) < f x) ?b = ?b"
    using cross last_in_set[OF assms(2)] by (simp add: filter_id_conv)
  ultimately show ?thesis by (metis append_Nil append_take_drop_id filter_append)
qed

lemma drain_rest:
  assumes "sorted_wrt (<) (map pm_order (tr_retained s))" "1 \<le> lim" "lim \<le> 256"
    and "length (filter (\<lambda>r. k < pm_order r \<and> ev_council_id (pm_envelope r) = c) (tr_retained s)) < fuel"
  shows "drain s c k lim fuel = filter (\<lambda>r. k < pm_order r \<and> ev_council_id (pm_envelope r) = c) (tr_retained s)"
  using assms(4)
proof (induction fuel arbitrary: k)
  case (Suc fuel)
  let ?xs = "filter (\<lambda>r. k < pm_order r \<and> ev_council_id (pm_envelope r) = c) (tr_retained s)"
  have sub: "subscribe s c k lim = Inr (take lim ?xs)"
    using assms(2,3) by (simp add: subscribe_def MAX_SUBSCRIPTION_BATCH_def)
  show ?case
  proof (cases "?xs = []")
    case True
    then show ?thesis using sub by simp
  next
    case False
    then have ne: "take lim ?xs \<noteq> []" using assms(2) by simp
    have sorted: "sorted_wrt (<) (map pm_order ?xs)"
      using assms(1) by (simp add: sorted_wrt_map sorted_wrt_filter)
    let ?k' = "pm_order (last (take lim ?xs))"
    have "last (take lim ?xs) \<in> set ?xs" using last_in_set[OF ne] in_set_takeD by fast
    then have later: "k < ?k'" by simp
    have rest: "filter (\<lambda>r. ?k' < pm_order r \<and> ev_council_id (pm_envelope r) = c) (tr_retained s) = drop lim ?xs"
    proof -
      have "filter (\<lambda>r. ?k' < pm_order r) ?xs = drop lim ?xs" by (rule filter_after_take[OF sorted ne])
      moreover have "filter (\<lambda>r. ?k' < pm_order r) ?xs
          = filter (\<lambda>r. ?k' < pm_order r \<and> ev_council_id (pm_envelope r) = c) (tr_retained s)"
        unfolding filter_filter by (rule filter_cong) (use later in auto)
      ultimately show ?thesis by simp
    qed
    have "length (drop lim ?xs) < fuel" using Suc.prems False assms(2) by (cases ?xs) auto
    then have "drain s c ?k' lim fuel = drop lim ?xs" using Suc.IH[of ?k'] rest by simp
    then show ?thesis using sub ne by simp
  qed
qed simp

subsection \<open>A sample run\<close>

definition sample_transport :: transport where
  "sample_transport =
     \<lparr>tr_max_retained = 10, tr_required_verifier = None, tr_next_order = 1,
      tr_replay_guard = \<lparr>rg_max_messages = 10, rg_max_senders = 10, rg_seen = bs_empty, rg_highest = bm_empty\<rparr>,
      tr_retained = [], tr_sender_rates = bm_empty\<rparr>"

definition sample_sender :: authenticated_sender where
  "sample_sender = \<lparr>as_cthulhu_id = Ident ''cthulhu_archivist'', as_tentacle_id = Ident ''tentacle_home''\<rparr>"

lemma sample_transport_new: "transport_new_local 10 10 = Inr sample_transport"
  by (simp add: transport_new_local_def ReplayGuard_new_def sample_transport_def)

lemma sample_publish:
  "\<exists>m s'. publish sample_libs sample_transport sample_sender draining_notice 150 = (Inr m, s')
     \<and> pm_envelope m = draining_notice \<and> tr_retained s' = [m] \<and> pm_order m = 1"
proof -
  have now: "transport_now 150 = 150" by (simp add: transport_now_def i64_max_def)
  have "admission sample_libs sample_transport sample_sender draining_notice 150 = Inr ()"
    using draining_notice_valid
    by (simp add: admission_ok sample_transport_def sample_sender_def rate_check_ok)
      (simp add: draining_notice_def new_envelope_def)
  moreover have "check_and_record sample_libs (tr_replay_guard sample_transport) draining_notice 150
      = Inr \<lparr>rg_max_messages = 10, rg_max_senders = 10,
             rg_seen = bs_insert (ev_message_id draining_notice) bs_empty,
             rg_highest = bm_insert (sender_of draining_notice) (ev_sequence draining_notice) bm_empty\<rparr>"
    using draining_notice_valid by (simp add: check_and_record_ok sample_transport_def)
  ultimately show ?thesis
    unfolding publish_def now Let_def
    by (simp add: sample_transport_def checked_add_def u64_max_def)
qed

subsection \<open>Properties\<close>

text \<open>
  C5: the transport keeps a faithful, ordered log.  Over any sequence of publish attempts the
  retained messages are exactly the accepted ones, numbered 1, 2, 3 and so on, within the
  retention limit and with pairwise distinct message IDs; each came from the sender its envelope
  names, was valid at the time it was accepted, and is verified wherever signatures are required.
\<close>

theorem transport_log:
  assumes "transport_new_local max_retained max_senders = Inr s0" "max_retained < u64_max"
    and "start = s0 \<or> start = with_required_signatures v s0" "transport_run L start s log"
  shows "map (\<lambda>x. snd (snd x)) log = tr_retained s
    \<and> map pm_order (tr_retained s) = [1..<Suc (length log)]
    \<and> length log \<le> max_retained \<and> distinct (map pm_message_id (tr_retained s))
    \<and> (\<forall>(key, now, m)\<in>set log.
         key = (ev_sender_cthulhu_id (pm_envelope m), ev_sender_tentacle_id (pm_envelope m))
         \<and> pm_message_id m = ev_message_id (pm_envelope m)
         \<and> validate_envelope L (pm_envelope m) now = Inr ()
         \<and> (start = with_required_signatures v s0 \<longrightarrow> verify_signature L v (pm_envelope m) = Inr ()))"
proof -
  have fresh: "fresh_transport start" "tr_max_retained start = max_retained"
    using assms(3) new_transport_fresh[OF assms(1), of v] by auto
  have keep: "transport_inv s" "log_ok L s log" "tr_max_retained s = max_retained"
    "tr_required_verifier s = tr_required_verifier start"
    using run_keeps[OF assms(4) fresh(1)] fresh(2) assms(2) by auto
  have retained: "map (\<lambda>x. snd (snd x)) log = tr_retained s" using keep(2) by (simp add: log_ok_def)
  then have len: "length (tr_retained s) = length log" by (metis length_map)
  have msgs: "m \<in> set (tr_retained s)" if "(k, t, m) \<in> set log" for k t m
    using that unfolding retained[symmetric] by force
  have ver: "start = with_required_signatures v s0 \<Longrightarrow> tr_required_verifier s = Some v"
    using keep(4) by (simp add: with_required_signatures_def)
  have "map pm_order (tr_retained s) = [1..<Suc (length log)]"
    using keep(1) inv_order[OF keep(1)] len by (simp add: transport_inv_def)
  moreover have "\<forall>(key, now, m)\<in>set log.
         key = (ev_sender_cthulhu_id (pm_envelope m), ev_sender_tentacle_id (pm_envelope m))
         \<and> pm_message_id m = ev_message_id (pm_envelope m)
         \<and> validate_envelope L (pm_envelope m) now = Inr ()
         \<and> (start = with_required_signatures v s0 \<longrightarrow> verify_signature L v (pm_envelope m) = Inr ())"
    using keep(1,2) ver msgs unfolding log_ok_def transport_inv_def by fastforce
  ultimately show ?thesis using retained len keep(1,3) by (simp add: transport_inv_def)
qed

theorem transport_log_witness:
  "\<exists>s m. transport_run sample_libs sample_transport s [(sender_key sample_sender, 150, m)]
     \<and> tr_retained s = [m] \<and> pm_order m = 1 \<and> validate_envelope sample_libs (pm_envelope m) 150 = Inr ()"
proof -
  obtain m s' where p: "publish sample_libs sample_transport sample_sender draining_notice 150 = (Inr m, s')"
    "tr_retained s' = [m]" "pm_order m = 1"
    using sample_publish by blast
  have now: "transport_now 150 = 150" by (simp add: transport_now_def i64_max_def)
  have run: "transport_run sample_libs sample_transport s' [(sender_key sample_sender, 150, m)]"
    using run_accepted[OF run_start p(1)] now by simp
  from transport_log[OF sample_transport_new _ _ run] p(2,3) run show ?thesis
    by (force simp: u64_max_def)
qed

text \<open>
  Publishing is atomic and exact.  In a reachable transport an attempt is accepted precisely
  when the sender is the envelope's own, the envelope is valid, verified where required, fresh
  for the replay guard, and both the retention and the rate bound leave room; a refused attempt
  changes nothing.
\<close>

theorem publish_atomic:
  assumes "transport_new_local max_retained max_senders = Inr s0" "max_retained < u64_max"
    and "start = s0 \<or> start = with_required_signatures v s0" "transport_run L start s log"
    and "publish L s a e clock = (r, s')"
  shows "(is_ok r \<longleftrightarrow>
      as_cthulhu_id a = ev_sender_cthulhu_id e \<and> as_tentacle_id a = ev_sender_tentacle_id e
      \<and> (start = with_required_signatures v s0 \<longrightarrow> verify_signature L v e = Inr ())
      \<and> length (tr_retained s) < max_retained \<and> rate_check s (sender_key a) (transport_now clock) = Inr ()
      \<and> is_ok (check_and_record L (tr_replay_guard s) e (transport_now clock)))
    \<and> (if is_ok r then \<exists>m. r = Inr m \<and> pm_envelope m = e \<and> tr_retained s' = tr_retained s @ [m]
       else s' = s)"
proof -
  have fresh: "fresh_transport start" "tr_max_retained start = max_retained"
    "tr_required_verifier start = (if start = with_required_signatures v s0 then Some v else None)"
    using assms(3) new_transport_fresh[OF assms(1), of v] by (auto simp: with_required_signatures_def)
  have keep: "transport_inv s" "tr_max_retained s = max_retained"
    "tr_required_verifier s = (if start = with_required_signatures v s0 then Some v else None)"
    using run_keeps[OF assms(4) fresh(1)] fresh assms(2) by auto
  have valid: "is_ok (check_and_record L (tr_replay_guard s) e now) \<Longrightarrow> validate_envelope L e now = Inr ()" for now
    by (cases "check_and_record L (tr_replay_guard s) e now") (auto simp: check_and_record_ok)
  have "(is_ok r \<longleftrightarrow> admission L s a e (transport_now clock) = Inr ()
      \<and> is_ok (check_and_record L (tr_replay_guard s) e (transport_now clock)))
    \<and> (if is_ok r then \<exists>m. r = Inr m \<and> pm_envelope m = e \<and> tr_retained s' = tr_retained s @ [m] else s' = s)"
    using publish_cases[OF assms(5) keep(1)] keep(2) assms(2)
    by (auto simp: message_for_def accepted_state_def)
  then show ?thesis
    using valid[of "transport_now clock"] keep(2,3) unfolding admission_ok by auto
qed

theorem publish_atomic_witness:
  "\<not> is_ok (fst (publish sample_libs sample_transport (sample_sender\<lparr>as_cthulhu_id := Ident ''cthulhu_other''\<rparr>)
        draining_notice 150))
   \<and> snd (publish sample_libs sample_transport (sample_sender\<lparr>as_cthulhu_id := Ident ''cthulhu_other''\<rparr>)
        draining_notice 150) = sample_transport"
proof -
  let ?a = "sample_sender\<lparr>as_cthulhu_id := Ident ''cthulhu_other''\<rparr>"
  have "as_cthulhu_id ?a \<noteq> ev_sender_cthulhu_id draining_notice"
    by (simp add: draining_notice_def new_envelope_def)
  with publish_atomic[OF sample_transport_new _ _ run_start prod.collapse[symmetric],
      of sample_transport undefined sample_libs ?a draining_notice 150]
  show ?thesis by (simp add: u64_max_def)
qed

text \<open>
  No sender floods a Council.  In every minute, at most 256 of the messages accepted over a
  whole run carry that minute's times and come from one sender: two windows of 128, however the
  attempts are timed and whatever the clock does inside a window.
\<close>

theorem sender_rate_bounded:
  assumes "transport_new_local max_retained max_senders = Inr s0" "max_retained < u64_max"
    and "transport_run L s0 s log"
  shows "length (filter (\<lambda>t. minute \<le> t \<and> t \<le> minute + 60) (times_of key log)) \<le> 256"
proof -
  have "rates_ok s log"
    using run_keeps[OF assms(3)] new_transport_fresh[OF assms(1)] assms(2) by blast
  then have "spaced (times_of key log)" unfolding rates_ok_def by blast
  then show ?thesis by (rule spaced_count)
qed

theorem sender_rate_bounded_witness:
  "\<exists>s m. transport_run sample_libs sample_transport s [(sender_key sample_sender, 150, m)]
     \<and> length (filter (\<lambda>t. 100 \<le> t \<and> t \<le> 160)
           (times_of (sender_key sample_sender) [(sender_key sample_sender, 150, m)])) \<le> 256"
proof -
  obtain m s' where p: "publish sample_libs sample_transport sample_sender draining_notice 150 = (Inr m, s')"
    using sample_publish by blast
  have "transport_now 150 = 150" by (simp add: transport_now_def i64_max_def)
  then have run: "transport_run sample_libs sample_transport s' [(sender_key sample_sender, 150, m)]"
    using run_accepted[OF run_start p] by simp
  from sender_rate_bounded[OF sample_transport_new _ run, of 100 "sender_key sample_sender"]
  have "length (filter (\<lambda>t. 100 \<le> t \<and> t \<le> 160)
           (times_of (sender_key sample_sender) [(sender_key sample_sender, 150, m)])) \<le> 256"
    by (simp add: u64_max_def)
  with run show ?thesis by blast
qed

text \<open>
  paging is complete.  Asking for batches of any allowed size, each after the last message of
  the one before, a subscriber receives every retained message of its Council exactly once and in
  order, and nothing of any other Council.
\<close>

theorem paging_complete:
  assumes "transport_new_local max_retained max_senders = Inr s0" "max_retained < u64_max"
    and "transport_run L s0 s log" "1 \<le> lim" "lim \<le> 256" "length log < fuel"
  shows "drain s council 0 lim fuel = filter (\<lambda>m. ev_council_id (pm_envelope m) = council) (tr_retained s)"
proof -
  have inv: "transport_inv s" "log_ok L s log"
    using run_keeps[OF assms(3)] new_transport_fresh[OF assms(1)] assms(2) by blast+
  then have orders: "map pm_order (tr_retained s) = [1..<tr_next_order s]"
    and len: "length (tr_retained s) = length log"
    by (simp add: transport_inv_def) (metis inv(2) length_map log_ok_def)
  have pos: "0 < pm_order m" if "m \<in> set (tr_retained s)" for m
  proof -
    have "pm_order m \<in> set (map pm_order (tr_retained s))" using that by simp
    then show ?thesis unfolding orders by simp
  qed
  have same: "filter (\<lambda>m. 0 < pm_order m \<and> ev_council_id (pm_envelope m) = council) (tr_retained s)
      = filter (\<lambda>m. ev_council_id (pm_envelope m) = council) (tr_retained s)"
    by (rule filter_cong) (auto simp: pos)
  have "length (filter (\<lambda>m. 0 < pm_order m \<and> ev_council_id (pm_envelope m) = council) (tr_retained s)) < fuel"
    using assms(6) len by (metis le_less_trans length_filter_le)
  from drain_rest[OF _ assms(4,5) this] show ?thesis
    unfolding same using orders by simp
qed

theorem paging_complete_witness:
  "\<exists>s m. transport_run sample_libs sample_transport s [(sender_key sample_sender, 150, m)]
     \<and> drain s (Ident ''council_home'') 0 1 5 = [m] \<and> drain s (Ident ''council_other'') 0 1 5 = []"
proof -
  obtain m s' where p: "publish sample_libs sample_transport sample_sender draining_notice 150 = (Inr m, s')"
    "pm_envelope m = draining_notice" "tr_retained s' = [m]"
    using sample_publish by blast
  have "transport_now 150 = 150" by (simp add: transport_now_def i64_max_def)
  then have run: "transport_run sample_libs sample_transport s' [(sender_key sample_sender, 150, m)]"
    using run_accepted[OF run_start p(1)] by simp
  have "ev_council_id draining_notice = Ident ''council_home''"
    by (simp add: draining_notice_def new_envelope_def)
  with paging_complete[OF sample_transport_new _ run, of 1 5] run p(2,3) show ?thesis
    by (auto simp: u64_max_def intro!: exI[of _ s'] exI[of _ m])
qed

end
