(* ===== verification/Council_Documents.thy ===== *)
theory Council_Documents
  imports Protocol_Ids
begin

section \<open>Governance documents (cthuwu-council: governance.rs)\<close>

text \<open>
  What a Council decides on: the four kinds of document with their validation, the closed set of
  actions, and content hashes.  The serde encoding of a document and SHA-256 (which gives the hex
  form of the digest) are the fields of \<open>gov_libs\<close>.
\<close>

definition MAX_MEMBERS :: nat where "MAX_MEMBERS = 4096"
definition MAX_MEMBERSHIP_SNAPSHOTS :: nat where "MAX_MEMBERSHIP_SNAPSHOTS = 16384"
definition MAX_OPEN_PROPOSALS :: nat where "MAX_OPEN_PROPOSALS = 1024"
definition MAX_PROPOSALS :: nat where "MAX_PROPOSALS = 16384"
definition MAX_DOCUMENT_BYTES :: nat where "MAX_DOCUMENT_BYTES = 64 * 1024"
definition GOV_MAX_TEXT_BYTES :: nat where "GOV_MAX_TEXT_BYTES = 16 * 1024"
definition GOV_MAX_SHORT_TEXT_BYTES :: nat where "GOV_MAX_SHORT_TEXT_BYTES = 512"
definition GOV_MAX_LIST_ITEMS :: nat where "GOV_MAX_LIST_ITEMS = 128"
definition MAX_ARGUMENTS :: nat where "MAX_ARGUMENTS = 512"
definition MAX_AMENDMENTS :: nat where "MAX_AMENDMENTS = 256"
definition MAX_PROPOSAL_LIFETIME_SECONDS :: int where
  "MAX_PROPOSAL_LIFETIME_SECONDS = 31 * 24 * 60 * 60"

datatype governance_error =
    GE_InvalidRules
  | GE_InvalidDocument string
  | GE_InvalidHash
  | GE_LimitExceeded string
  | GE_InvalidDeadline
  | GE_InvalidTimestamp
  | GE_NotMember
  | GE_NotEligible
  | GE_DuplicateProposal
  | GE_ProposalNotFound
  | GE_ProposalClosed
  | GE_VotingStillOpen
  | GE_ParentMismatch
  | GE_NotAnAction
  | GE_ActionNotRatified
  | GE_InvalidRatificationEvidence
  | GE_Serialization
  | GE_CorruptState string

subsection \<open>Text, tokens and hashes\<close>

definition gov_validate_text :: "string \<Rightarrow> nat \<Rightarrow> string \<Rightarrow> bool \<Rightarrow> (governance_error, unit) result" where
  "gov_validate_text value lim field single_line =
     (if is_blank value \<or> length value > lim \<or> CHR 0x00 \<in> set value
         \<or> (single_line \<and> (CHR 0x0D \<in> set value \<or> CHR 0x0A \<in> set value))
      then Inl (GE_InvalidDocument field) else Inr ())"

definition gov_validate_text_list :: "string list \<Rightarrow> string \<Rightarrow> bool \<Rightarrow> (governance_error, unit) result" where
  "gov_validate_text_list values field single_line =
     (if values = [] \<or> length values > GOV_MAX_LIST_ITEMS then Inl (GE_LimitExceeded field)
      else run_checks (map (\<lambda>v. gov_validate_text v GOV_MAX_TEXT_BYTES field single_line) values))"

definition gov_validate_token :: "string \<Rightarrow> string \<Rightarrow> (governance_error, unit) result" where
  "gov_validate_token value field =
     (if value = [] \<or> length value > 96
         \<or> \<not> list_all (\<lambda>c. is_ascii_alphanumeric c \<or> c = CHR ''_'' \<or> c = CHR ''-'' \<or> c = CHR ''.'') value
      then Inl (GE_InvalidDocument field) else Inr ())"

definition gov_validate_hash :: "string \<Rightarrow> (governance_error, unit) result" where
  "gov_validate_hash value =
     (case strip_prefix ''sha256:'' value of
        None \<Rightarrow> Inl GE_InvalidHash
      | Some hex \<Rightarrow> if length hex \<noteq> 64 \<or> \<not> lower_hex hex then Inl GE_InvalidHash else Inr ())"

definition gov_validate_hash_opt :: "string option \<Rightarrow> (governance_error, unit) result" where
  "gov_validate_hash_opt value = (case value of None \<Rightarrow> Inr () | Some v \<Rightarrow> gov_validate_hash v)"

subsection \<open>Documents\<close>

record constitution =
  con_version :: nat
  con_parent_hash :: "string option"
  con_principles :: "string list"
  con_security_invariants :: "string list"

definition validate_constitution :: "constitution \<Rightarrow> (governance_error, unit) result" where
  "validate_constitution c = run_checks
     [ensure (con_version c \<noteq> 0) (GE_InvalidDocument ''constitution version must be positive''),
      gov_validate_hash_opt (con_parent_hash c),
      gov_validate_text_list (con_principles c) ''principles'' False,
      gov_validate_text_list (con_security_invariants c) ''security invariants'' False]"

record agenda =
  ag_version :: nat
  ag_parent_hash :: "string option"
  ag_summary :: string
  ag_goals :: "string list"

definition validate_agenda :: "agenda \<Rightarrow> (governance_error, unit) result" where
  "validate_agenda a = run_checks
     [ensure (ag_version a \<noteq> 0) (GE_InvalidDocument ''agenda version must be positive''),
      gov_validate_hash_opt (ag_parent_hash a),
      gov_validate_text (ag_summary a) GOV_MAX_TEXT_BYTES ''agenda summary'' False,
      gov_validate_text_list (ag_goals a) ''agenda goals'' False]"

record strategy =
  st_agenda_hash :: string
  st_title :: string
  st_approach :: string
  st_tradeoffs :: "string list"

definition validate_strategy :: "strategy \<Rightarrow> (governance_error, unit) result" where
  "validate_strategy s = run_checks
     [gov_validate_hash (st_agenda_hash s),
      gov_validate_text (st_title s) GOV_MAX_SHORT_TEXT_BYTES ''strategy title'' True,
      gov_validate_text (st_approach s) GOV_MAX_TEXT_BYTES ''strategy approach'' False,
      gov_validate_text_list (st_tradeoffs s) ''strategy tradeoffs'' True]"

datatype self_test_suite =
  ST_EnvelopeValidation | ST_RoutingDeterminism | ST_LeaseGeneration | ST_PersistenceReplay

datatype resource_summary_field =
  RF_CapabilityClasses | RF_AvailableCapacity | RF_MemoryModes | RF_PrivacyProperties | RF_ProtocolVersions

datatype governance_action =
    GA_CapabilityRefresh "cthulhu_id option"
  | GA_ProtocolSelfTest self_test_suite
  | GA_LocalResourceSummary "resource_summary_field list"
  | GA_RoutingScenarioEvaluation string

fun validate_action :: "governance_action \<Rightarrow> (governance_error, unit) result" where
  "validate_action (GA_CapabilityRefresh target) = Inr ()"
| "validate_action (GA_ProtocolSelfTest suite) = Inr ()"
| "validate_action (GA_LocalResourceSummary fs) =
     (if fs = [] \<or> length fs > 16 then Inl (GE_LimitExceeded ''resource summary fields'')
      else if \<not> distinct fs then Inl (GE_InvalidDocument ''duplicate resource summary field'')
      else Inr ())"
| "validate_action (GA_RoutingScenarioEvaluation scenario) = gov_validate_token scenario ''scenario id''"

record action_document =
  ad_agenda_hash :: "string option"
  ad_action :: governance_action
  ad_rationale :: string

definition validate_action_document :: "action_document \<Rightarrow> (governance_error, unit) result" where
  "validate_action_document d = run_checks
     [gov_validate_hash_opt (ad_agenda_hash d),
      validate_action (ad_action d),
      gov_validate_text (ad_rationale d) GOV_MAX_TEXT_BYTES ''action rationale'' False]"

datatype governance_document =
    GD_Constitution constitution
  | GD_Agenda agenda
  | GD_Strategy strategy
  | GD_Action action_document

datatype document_kind = GK_Constitution | GK_Agenda | GK_Strategy | GK_Action

fun document_kind_of :: "governance_document \<Rightarrow> document_kind" where
  "document_kind_of (GD_Constitution c) = GK_Constitution"
| "document_kind_of (GD_Agenda a) = GK_Agenda"
| "document_kind_of (GD_Strategy s) = GK_Strategy"
| "document_kind_of (GD_Action d) = GK_Action"

fun document_parent_hash :: "governance_document \<Rightarrow> string option" where
  "document_parent_hash (GD_Constitution c) = con_parent_hash c"
| "document_parent_hash (GD_Agenda a) = ag_parent_hash a"
| "document_parent_hash (GD_Strategy s) = Some (st_agenda_hash s)"
| "document_parent_hash (GD_Action d) = ad_agenda_hash d"

fun validate_document_body :: "governance_document \<Rightarrow> (governance_error, unit) result" where
  "validate_document_body (GD_Constitution c) = validate_constitution c"
| "validate_document_body (GD_Agenda a) = validate_agenda a"
| "validate_document_body (GD_Strategy s) = validate_strategy s"
| "validate_document_body (GD_Action d) = validate_action_document d"

text \<open>\<open>gl_encode\<close> is \<open>serde_json::to_vec\<close>, \<open>gl_sha256\<close> the hex form of the SHA-256 digest.\<close>

record gov_libs =
  gl_encode :: "governance_document \<Rightarrow> string option"
  gl_sha256 :: "string \<Rightarrow> string"

definition validate_document :: "gov_libs \<Rightarrow> governance_document \<Rightarrow> (governance_error, unit) result" where
  "validate_document L d =
     and_then (validate_document_body d) (\<lambda>_.
     and_then (ok_or GE_Serialization (gl_encode L d)) (\<lambda>encoded.
       if length encoded > MAX_DOCUMENT_BYTES then Inl (GE_LimitExceeded ''document bytes'') else Inr ()))"

definition document_content_hash :: "gov_libs \<Rightarrow> governance_document \<Rightarrow> (governance_error, string) result" where
  "document_content_hash L d =
     and_then (validate_document L d) (\<lambda>_.
     and_then (ok_or GE_Serialization (gl_encode L d)) (\<lambda>encoded.
       Inr (''sha256:'' @ gl_sha256 L encoded)))"

text \<open>What SHA-256 in lower-case hex gives: 64 digits.\<close>

definition sha_hex :: "gov_libs \<Rightarrow> bool" where
  "sha_hex L \<longleftrightarrow> (\<forall>s. length (gl_sha256 L s) = 64 \<and> lower_hex (gl_sha256 L s))"

lemma gov_hash_ok: "sha_hex L \<Longrightarrow> gov_validate_hash (''sha256:'' @ gl_sha256 L s) = Inr ()"
  unfolding gov_validate_hash_def strip_prefix_append sha_hex_def by simp

lemma document_content_hash_ok:
  "document_content_hash L d = Inr h \<longleftrightarrow>
     validate_document L d = Inr ()
     \<and> (\<exists>encoded. gl_encode L d = Some encoded \<and> h = ''sha256:'' @ gl_sha256 L encoded)"
  by (auto simp: document_content_hash_def)

lemma document_hash_total:
  assumes "validate_document L d = Inr ()"
  obtains h where "document_content_hash L d = Inr h"
  using assms by (auto simp: document_content_hash_def validate_document_def)

lemma document_hash_valid: "sha_hex L \<Longrightarrow> document_content_hash L d = Inr h \<Longrightarrow> gov_validate_hash h = Inr ()"
  using gov_hash_ok by (force simp: document_content_hash_ok)

subsection \<open>Byte strings that are hashed\<close>

text \<open>\<open>u64::to_be_bytes\<close> and the length-prefixed fields of the two governance hashes.\<close>

fun be_bytes :: "nat \<Rightarrow> nat \<Rightarrow> string" where
  "be_bytes 0 n = []"
| "be_bytes (Suc k) n = char_of (n div 256 ^ k mod 256) # be_bytes k n"

definition hash_field :: "string \<Rightarrow> string" where
  "hash_field value = be_bytes 8 (length value) @ value"

definition hash_parent :: "string option \<Rightarrow> string" where
  "hash_parent parent = (case parent of None \<Rightarrow> [char_of (0::nat)] | Some p \<Rightarrow> char_of (1::nat) # hash_field p)"

definition membership_preimage ::
  "council_id \<Rightarrow> nat \<Rightarrow> string option \<Rightarrow> cthulhu_id list \<Rightarrow> string" where
  "membership_preimage council revision parent members =
     ''cthuwu-governance-membership-v1'' @ [CHR 0x00] @ hash_field (as_str council) @ be_bytes 8 revision
     @ hash_parent parent @ be_bytes 8 (length members) @ concat (map (\<lambda>m. hash_field (as_str m)) members)"

definition membership_snapshot_hash ::
  "gov_libs \<Rightarrow> council_id \<Rightarrow> nat \<Rightarrow> string option \<Rightarrow> cthulhu_id list \<Rightarrow> string" where
  "membership_snapshot_hash L council revision parent members =
     ''sha256:'' @ gl_sha256 L (membership_preimage council revision parent members)"

definition binding_preimage ::
  "council_id \<Rightarrow> nat \<Rightarrow> string option \<Rightarrow> proposal_id \<Rightarrow> nat \<Rightarrow> string \<Rightarrow> string" where
  "binding_preimage council index parent proposal revision membership_hash =
     ''cthuwu-governance-proposal-membership-v1'' @ [CHR 0x00] @ hash_field (as_str council)
     @ be_bytes 8 index @ hash_parent parent @ hash_field (as_str proposal) @ be_bytes 8 revision
     @ hash_field membership_hash"

definition proposal_membership_binding_hash ::
  "gov_libs \<Rightarrow> council_id \<Rightarrow> nat \<Rightarrow> string option \<Rightarrow> proposal_id \<Rightarrow> nat \<Rightarrow> string \<Rightarrow> string" where
  "proposal_membership_binding_hash L council index parent proposal revision membership_hash =
     ''sha256:'' @ gl_sha256 L (binding_preimage council index parent proposal revision membership_hash)"

subsection \<open>The preimages are unambiguous\<close>

lemma length_be_bytes [simp]: "length (be_bytes k n) = k"
  by (induction k) auto

lemma mod_div_digit:
  fixes x :: nat
  assumes "j < k"
  shows "x mod 256 ^ k div 256 ^ j mod 256 = x div 256 ^ j mod 256"
proof -
  obtain i where k: "k = j + Suc i" using less_imp_Suc_add[OF assms] by auto
  have "x mod (256 ^ j * 256 ^ Suc i) = 256 ^ j * (x div 256 ^ j mod 256 ^ Suc i) + x mod 256 ^ j"
    by (rule mod_mult2_eq)
  then have "x mod 256 ^ k div 256 ^ j = x div 256 ^ j mod 256 ^ Suc i"
    by (simp only: k power_add) simp
  moreover have "x div 256 ^ j mod 256 ^ Suc i mod 256 = x div 256 ^ j mod 256"
    by (rule mod_mod_cancel) simp
  ultimately show ?thesis by simp
qed

lemma be_bytes_mod: "j \<le> k \<Longrightarrow> be_bytes j (x mod 256 ^ k) = be_bytes j x"
  by (induction j) (simp_all add: mod_div_digit)

lemma be_bytes_inject: "m < 256 ^ k \<Longrightarrow> n < 256 ^ k \<Longrightarrow> be_bytes k m = be_bytes k n \<longleftrightarrow> m = n"
proof (induction k arbitrary: m n)
  case (Suc k)
  have small: "x div 256 ^ k < 256" if "x < 256 ^ Suc k" for x :: nat
    using that by (simp add: less_mult_imp_div_less mult.commute)
  have digit: "(char_of d :: char) = char_of e \<longleftrightarrow> d = e" if "d < 256" "e < 256" for d e :: nat
    using that by (metis mod_less of_char_of)
  show ?case
  proof
    assume "be_bytes (Suc k) m = be_bytes (Suc k) n"
    then have top: "m div 256 ^ k = n div 256 ^ k" and low: "be_bytes k m = be_bytes k n"
      using digit small[OF Suc.prems(1)] small[OF Suc.prems(2)] by auto
    from low have "be_bytes k (m mod 256 ^ k) = be_bytes k (n mod 256 ^ k)" by (simp add: be_bytes_mod)
    then have "m mod 256 ^ k = n mod 256 ^ k" using Suc.IH by simp
    with top show "m = n" by (metis div_mult_mod_eq)
  qed simp
qed simp

lemma hash_field_inject:
  assumes "length a < 256 ^ 8" "length b < 256 ^ 8"
  shows "hash_field a @ r = hash_field b @ s \<longleftrightarrow> a = b \<and> r = s"
proof
  assume "hash_field a @ r = hash_field b @ s"
  then have "be_bytes 8 (length a) = be_bytes 8 (length b)" "a @ r = b @ s"
    by (simp_all add: hash_field_def)
  moreover from this(1) have "length a = length b" using be_bytes_inject assms by blast
  ultimately show "a = b \<and> r = s" by simp
qed simp

lemma hash_parent_inject:
  assumes "\<And>p. a = Some p \<Longrightarrow> length p < 256 ^ 8" "\<And>p. b = Some p \<Longrightarrow> length p < 256 ^ 8"
  shows "hash_parent a @ r = hash_parent b @ s \<longleftrightarrow> a = b \<and> r = s"
  using assms
  by (cases a; cases b) (auto simp: hash_parent_def hash_field_inject)

lemma hash_members_inject:
  assumes "length xs = length ys" "\<forall>x\<in>set xs. length (as_str x) < 256 ^ 8" "\<forall>y\<in>set ys. length (as_str y) < 256 ^ 8"
    and "concat (map (\<lambda>m. hash_field (as_str m)) xs) = concat (map (\<lambda>m. hash_field (as_str m)) ys)"
  shows "xs = ys"
  using assms
proof (induction xs ys rule: list_induct2)
  case (Cons x xs y ys)
  then have "as_str x = as_str y
      \<and> concat (map (\<lambda>m. hash_field (as_str m)) xs) = concat (map (\<lambda>m. hash_field (as_str m)) ys)"
    using hash_field_inject[of "as_str x" "as_str y"] by simp
  with Cons show ?case by (simp add: ident.expand)
qed simp

end
