(* ===== verification/Council_Governance.thy ===== *)
theory Council_Governance
  imports Council_Documents
begin

section \<open>The governance engine (cthuwu-council: governance.rs)\<close>

text \<open>
  The engine: members with their hash-chained membership history, proposals with the log that
  binds each to the membership it opened under, votes, and the heads of the two linear document
  chains.  Hash maps are ordered maps here; no result of the engine depends on their order, only
  which of several errors of \<open>validate_loaded_state\<close> is reported first.  Times are signed seconds.
  A fallible operation returns the error or its result with the new engine; the code changes
  nothing before its last error.
\<close>

datatype proposal_status = GS_Open | GS_Ratified | GS_Rejected | GS_Expired | GS_ParentConflict

datatype gov_position = GP_Support | GP_Oppose

datatype vote_choice = VC_Support | VC_Oppose | VC_Abstain

record argument =
  ar_author :: cthulhu_id
  ar_position :: gov_position
  ar_text :: string
  ar_submitted_at :: int

record amendment_suggestion =
  am_author :: cthulhu_id
  am_text :: string
  am_submitted_at :: int

record vote_record =
  vr_choice :: vote_choice
  vr_cast_at :: int
  vr_revision :: nat

record proposal =
  pp_id :: proposal_id
  pp_council_id :: council_id
  pp_proposer :: cthulhu_id
  pp_document :: governance_document
  pp_document_hash :: string
  pp_created_at :: int
  pp_deadline :: int
  pp_status :: proposal_status
  pp_membership_revision :: nat
  pp_membership_hash :: string
  pp_binding_index :: nat
  pp_eligible_voters :: "cthulhu_id bset"
  pp_arguments :: "argument list"
  pp_amendments :: "amendment_suggestion list"
  pp_votes :: "(cthulhu_id, vote_record) bmap"

subsection \<open>Rules\<close>

record governance_rules =
  gr_quorum_bps :: nat
  gr_approval_bps :: nat
  gr_constitution_approval_bps :: nat
  gr_max_lifetime :: int

definition governance_rules_default :: governance_rules where
  "governance_rules_default =
     \<lparr>gr_quorum_bps = 5000, gr_approval_bps = 5001, gr_constitution_approval_bps = 6667,
      gr_max_lifetime = 7 * 24 * 60 * 60\<rparr>"

definition validate_rules :: "governance_rules \<Rightarrow> (governance_error, governance_rules) result" where
  "validate_rules r =
     (if gr_quorum_bps r = 0 \<or> gr_quorum_bps r > 10000
         \<or> gr_approval_bps r = 0 \<or> gr_approval_bps r > 10000
         \<or> gr_constitution_approval_bps r \<le> gr_approval_bps r
         \<or> gr_constitution_approval_bps r > 10000
      then Inl GE_InvalidRules
      else if gr_max_lifetime r \<le> 0 \<or> gr_max_lifetime r > MAX_PROPOSAL_LIFETIME_SECONDS
      then Inl GE_InvalidRules
      else Inr r)"

subsection \<open>Membership history and bindings\<close>

record document_head =
  dh_version :: nat
  dh_hash :: string
  dh_proposal_id :: proposal_id

record membership_snapshot =
  ms_revision :: nat
  ms_parent_hash :: "string option"
  ms_members :: "cthulhu_id list"
  ms_hash :: string

definition MembershipSnapshot_new ::
  "gov_libs \<Rightarrow> council_id \<Rightarrow> nat \<Rightarrow> string option \<Rightarrow> cthulhu_id bset \<Rightarrow> membership_snapshot" where
  "MembershipSnapshot_new L council revision parent members =
     \<lparr>ms_revision = revision, ms_parent_hash = parent, ms_members = bs_elems members,
      ms_hash = membership_snapshot_hash L council revision parent (bs_elems members)\<rparr>"

record membership_binding =
  mb_index :: nat
  mb_parent_hash :: "string option"
  mb_proposal_id :: proposal_id
  mb_membership_revision :: nat
  mb_membership_hash :: string
  mb_hash :: string

definition ProposalMembershipBinding_new ::
  "gov_libs \<Rightarrow> council_id \<Rightarrow> nat \<Rightarrow> string option \<Rightarrow> proposal_id \<Rightarrow> membership_snapshot \<Rightarrow> membership_binding" where
  "ProposalMembershipBinding_new L council index parent proposal m =
     \<lparr>mb_index = index, mb_parent_hash = parent, mb_proposal_id = proposal,
      mb_membership_revision = ms_revision m, mb_membership_hash = ms_hash m,
      mb_hash = proposal_membership_binding_hash L council index parent proposal (ms_revision m) (ms_hash m)\<rparr>"

definition last_opt :: "'a list \<Rightarrow> 'a option" where
  "last_opt xs = (if xs = [] then None else Some (last xs))"

definition get_at :: "'a list \<Rightarrow> nat \<Rightarrow> 'a option" where
  "get_at xs i = (if i < length xs then Some (xs ! i) else None)"

record gov_engine =
  ge_council_id :: council_id
  ge_rules :: governance_rules
  ge_members :: "cthulhu_id bset"
  ge_membership_history :: "membership_snapshot list"
  ge_proposal_log :: "membership_binding list"
  ge_proposals :: "(proposal_id, proposal) bmap"
  ge_constitution :: "document_head option"
  ge_agenda :: "document_head option"

definition GovernanceEngine_new ::
  "gov_libs \<Rightarrow> council_id \<Rightarrow> governance_rules \<Rightarrow> cthulhu_id list \<Rightarrow> (governance_error, gov_engine) result" where
  "GovernanceEngine_new L council rules member_ids =
     (let members = bs_of_list member_ids in
      and_then (ensure (\<not> (bs_len members = 0 \<or> bs_len members > MAX_MEMBERS))
                 (GE_LimitExceeded ''Council members'')) (\<lambda>_.
      and_then (validate_rules rules) (\<lambda>r.
        Inr \<lparr>ge_council_id = council, ge_rules = r, ge_members = members,
             ge_membership_history = [MembershipSnapshot_new L council 0 None members],
             ge_proposal_log = [], ge_proposals = bm_empty, ge_constitution = None, ge_agenda = None\<rparr>)))"

definition append_membership_snapshot ::
  "gov_libs \<Rightarrow> gov_engine \<Rightarrow> cthulhu_id bset \<Rightarrow> (governance_error, gov_engine) result" where
  "append_membership_snapshot L e members =
     and_then (run_checks
       [ensure (\<not> (bs_len members = 0 \<or> bs_len members > MAX_MEMBERS)) (GE_LimitExceeded ''Council members''),
        ensure (\<not> length (ge_membership_history e) \<ge> MAX_MEMBERSHIP_SNAPSHOTS)
          (GE_LimitExceeded ''membership snapshots'')]) (\<lambda>_.
     and_then (ok_or (GE_CorruptState ''membership history'') (last_opt (ge_membership_history e))) (\<lambda>parent.
     and_then (ok_or (GE_LimitExceeded ''membership revisions'')
                (checked_add u64_max (ms_revision parent) 1)) (\<lambda>revision.
       Inr (e\<lparr>ge_membership_history := ge_membership_history e
                @ [MembershipSnapshot_new L (ge_council_id e) revision (Some (ms_hash parent)) members]\<rparr>))))"

definition add_member :: "gov_libs \<Rightarrow> gov_engine \<Rightarrow> cthulhu_id \<Rightarrow> (governance_error, bool \<times> gov_engine) result" where
  "add_member L e member =
     (if bs_member (ge_members e) member then Inr (False, e)
      else if bs_len (ge_members e) \<ge> MAX_MEMBERS then Inl (GE_LimitExceeded ''Council members'')
      else let members = bs_insert member (ge_members e) in
        and_then (append_membership_snapshot L e members) (\<lambda>e'.
          Inr (True, e'\<lparr>ge_members := members\<rparr>)))"

definition remove_member :: "gov_libs \<Rightarrow> gov_engine \<Rightarrow> cthulhu_id \<Rightarrow> bool \<times> gov_engine" where
  "remove_member L e member =
     (if \<not> bs_member (ge_members e) member \<or> bs_len (ge_members e) = 1
         \<or> length (ge_membership_history e) \<ge> MAX_MEMBERSHIP_SNAPSHOTS
      then (False, e)
      else let members = bs_remove member (ge_members e) in
        (case append_membership_snapshot L e members of
           Inl err \<Rightarrow> (False, e)
         | Inr e' \<Rightarrow> (True, e'\<lparr>ge_members := members\<rparr>)))"

subsection \<open>Lineage\<close>

definition lineage_matches :: "document_head option \<Rightarrow> nat \<Rightarrow> string option \<Rightarrow> bool" where
  "lineage_matches current version parent =
     (case current of
        None \<Rightarrow> version = 1 \<and> parent = None
      | Some head \<Rightarrow> checked_add u64_max (dh_version head) 1 = Some version \<and> parent = Some (dh_hash head))"

fun validate_document_lineage :: "gov_engine \<Rightarrow> governance_document \<Rightarrow> (governance_error, unit) result" where
  "validate_document_lineage e (GD_Constitution c) =
     ensure (lineage_matches (ge_constitution e) (con_version c) (con_parent_hash c)) GE_ParentMismatch"
| "validate_document_lineage e (GD_Agenda a) =
     ensure (lineage_matches (ge_agenda e) (ag_version a) (ag_parent_hash a)) GE_ParentMismatch"
| "validate_document_lineage e (GD_Strategy s) =
     ensure (\<not> map_option dh_hash (ge_agenda e) \<noteq> Some (st_agenda_hash s)) GE_ParentMismatch"
| "validate_document_lineage e (GD_Action d) =
     ensure (\<not> (case ad_agenda_hash d of
                   None \<Rightarrow> False
                 | Some parent \<Rightarrow> map_option dh_hash (ge_agenda e) \<noteq> Some parent)) GE_ParentMismatch"

fun has_parent_conflict :: "gov_engine \<Rightarrow> governance_document \<Rightarrow> bool" where
  "has_parent_conflict e (GD_Constitution c) =
     (\<not> lineage_matches (ge_constitution e) (con_version c) (con_parent_hash c))"
| "has_parent_conflict e (GD_Agenda a) =
     (\<not> lineage_matches (ge_agenda e) (ag_version a) (ag_parent_hash a))"
| "has_parent_conflict e (GD_Strategy s) =
     (map_option dh_hash (ge_agenda e) \<noteq> Some (st_agenda_hash s))"
| "has_parent_conflict e (GD_Action d) =
     (case ad_agenda_hash d of
        None \<Rightarrow> False
      | Some parent \<Rightarrow> map_option dh_hash (ge_agenda e) \<noteq> Some parent)"

subsection \<open>Proposals\<close>

definition open_proposals :: "gov_engine \<Rightarrow> nat" where
  "open_proposals e = length (filter (\<lambda>p. pp_status p = GS_Open) (bm_values (ge_proposals e)))"

definition new_proposal ::
  "gov_engine \<Rightarrow> proposal_id \<Rightarrow> cthulhu_id \<Rightarrow> governance_document \<Rightarrow> string \<Rightarrow> int \<Rightarrow> int
   \<Rightarrow> membership_snapshot \<Rightarrow> nat \<Rightarrow> proposal" where
  "new_proposal e i proposer document document_hash created_at deadline membership index =
     \<lparr>pp_id = i, pp_council_id = ge_council_id e, pp_proposer = proposer, pp_document = document,
      pp_document_hash = document_hash, pp_created_at = created_at, pp_deadline = deadline,
      pp_status = GS_Open, pp_membership_revision = ms_revision membership,
      pp_membership_hash = ms_hash membership, pp_binding_index = index,
      pp_eligible_voters = ge_members e, pp_arguments = [], pp_amendments = [], pp_votes = bm_empty\<rparr>"

definition submit ::
  "gov_libs \<Rightarrow> gov_engine \<Rightarrow> proposal_id \<Rightarrow> cthulhu_id \<Rightarrow> governance_document \<Rightarrow> int \<Rightarrow> int
   \<Rightarrow> (governance_error, proposal \<times> gov_engine) result" where
  "submit L e i proposer document created_at deadline =
     and_then (run_checks
       [ensure (bs_member (ge_members e) proposer) GE_NotMember,
        ensure (\<not> bm_contains (ge_proposals e) i) GE_DuplicateProposal,
        ensure (\<not> bm_len (ge_proposals e) \<ge> MAX_PROPOSALS) (GE_LimitExceeded ''proposals''),
        ensure (\<not> open_proposals e \<ge> MAX_OPEN_PROPOSALS) (GE_LimitExceeded ''open proposals''),
        ensure (\<not> (created_at < 0 \<or> deadline \<le> created_at
                   \<or> deadline - created_at > gr_max_lifetime (ge_rules e))) GE_InvalidDeadline,
        validate_document L document,
        validate_document_lineage e document]) (\<lambda>_.
     and_then (document_content_hash L document) (\<lambda>document_hash.
     and_then (ok_or (GE_CorruptState ''membership history'') (last_opt (ge_membership_history e))) (\<lambda>membership.
     and_then (ensure (\<not> (length (ge_proposal_log e) \<noteq> bm_len (ge_proposals e)
                          \<or> length (ge_proposal_log e) \<ge> MAX_PROPOSALS))
                (GE_CorruptState ''proposal membership log'')) (\<lambda>_.
     let index = length (ge_proposal_log e);
         binding = ProposalMembershipBinding_new L (ge_council_id e) index
                     (map_option mb_hash (last_opt (ge_proposal_log e))) i membership;
         p = new_proposal e i proposer document document_hash created_at deadline membership index
     in Inr (p, e\<lparr>ge_proposal_log := ge_proposal_log e @ [binding],
                  ge_proposals := bm_insert i p (ge_proposals e)\<rparr>)))))"

definition open_proposal ::
  "gov_engine \<Rightarrow> proposal_id \<Rightarrow> cthulhu_id \<Rightarrow> int \<Rightarrow> (governance_error, proposal) result" where
  "open_proposal e i actor now =
     and_then (ok_or GE_ProposalNotFound (bm_get (ge_proposals e) i)) (\<lambda>p.
       if pp_status p \<noteq> GS_Open \<or> now \<ge> pp_deadline p then Inl GE_ProposalClosed
       else if now < pp_created_at p then Inl GE_InvalidTimestamp
       else if \<not> bs_member (pp_eligible_voters p) actor then Inl GE_NotEligible
       else Inr p)"

definition put_proposal :: "proposal_id \<Rightarrow> proposal \<Rightarrow> gov_engine \<Rightarrow> gov_engine" where
  "put_proposal i p e = e\<lparr>ge_proposals := bm_insert i p (ge_proposals e)\<rparr>"

definition add_argument ::
  "gov_engine \<Rightarrow> proposal_id \<Rightarrow> cthulhu_id \<Rightarrow> gov_position \<Rightarrow> string \<Rightarrow> int \<Rightarrow> (governance_error, gov_engine) result" where
  "add_argument e i author position text now =
     and_then (gov_validate_text text GOV_MAX_TEXT_BYTES ''argument'' False) (\<lambda>_.
     and_then (open_proposal e i author now) (\<lambda>p.
       if length (pp_arguments p) \<ge> MAX_ARGUMENTS then Inl (GE_LimitExceeded ''arguments'')
       else Inr (put_proposal i (p\<lparr>pp_arguments := pp_arguments p
              @ [\<lparr>ar_author = author, ar_position = position, ar_text = text, ar_submitted_at = now\<rparr>]\<rparr>) e)))"

definition suggest_amendment ::
  "gov_engine \<Rightarrow> proposal_id \<Rightarrow> cthulhu_id \<Rightarrow> string \<Rightarrow> int \<Rightarrow> (governance_error, gov_engine) result" where
  "suggest_amendment e i author text now =
     and_then (gov_validate_text text GOV_MAX_TEXT_BYTES ''amendment'' False) (\<lambda>_.
     and_then (open_proposal e i author now) (\<lambda>p.
       if length (pp_amendments p) \<ge> MAX_AMENDMENTS then Inl (GE_LimitExceeded ''amendments'')
       else Inr (put_proposal i (p\<lparr>pp_amendments := pp_amendments p
              @ [\<lparr>am_author = author, am_text = text, am_submitted_at = now\<rparr>]\<rparr>) e)))"

record vote_receipt =
  vo_replaced :: bool
  vo_revision :: nat

definition cast_vote ::
  "gov_engine \<Rightarrow> proposal_id \<Rightarrow> cthulhu_id \<Rightarrow> vote_choice \<Rightarrow> int
   \<Rightarrow> (governance_error, vote_receipt \<times> gov_engine) result" where
  "cast_vote e i voter choice now =
     and_then (open_proposal e i voter now) (\<lambda>p.
     let previous = bm_get (pp_votes p) voter in
     and_then (case previous of
                 None \<Rightarrow> Inr 0
               | Some r \<Rightarrow> ok_or (GE_LimitExceeded ''vote revisions'') (checked_add u32_max (vr_revision r) 1))
       (\<lambda>revision.
         Inr (\<lparr>vo_replaced = (previous \<noteq> None), vo_revision = revision\<rparr>,
              put_proposal i (p\<lparr>pp_votes := bm_insert voter
                 \<lparr>vr_choice = choice, vr_cast_at = now, vr_revision = revision\<rparr> (pp_votes p)\<rparr>) e)))"

subsection \<open>Tally\<close>

record tally =
  ta_support :: nat
  ta_oppose :: nat
  ta_abstain :: nat
  ta_participating :: nat
  ta_non_abstaining :: nat

fun count_vote :: "vote_choice \<Rightarrow> tally \<Rightarrow> tally" where
  "count_vote VC_Support t = t\<lparr>ta_support := ta_support t + 1\<rparr>"
| "count_vote VC_Oppose t = t\<lparr>ta_oppose := ta_oppose t + 1\<rparr>"
| "count_vote VC_Abstain t = t\<lparr>ta_abstain := ta_abstain t + 1\<rparr>"

definition tally_of :: "proposal \<Rightarrow> tally" where
  "tally_of p =
     (let t = fold count_vote (map vr_choice (bm_values (pp_votes p)))
                \<lparr>ta_support = 0, ta_oppose = 0, ta_abstain = 0, ta_participating = 0, ta_non_abstaining = 0\<rparr>
      in t\<lparr>ta_participating := ta_support t + ta_oppose t + ta_abstain t,
           ta_non_abstaining := ta_support t + ta_oppose t\<rparr>)"

definition ceil_bps :: "nat \<Rightarrow> nat \<Rightarrow> nat" where
  "ceil_bps count bps = (count * bps + 9999) div 10000"

definition threshold_for :: "gov_engine \<Rightarrow> proposal \<Rightarrow> nat" where
  "threshold_for e p =
     (if document_kind_of (pp_document p) = GK_Constitution
      then gr_constitution_approval_bps (ge_rules e) else gr_approval_bps (ge_rules e))"

subsection \<open>The chains\<close>

definition check_snapshot ::
  "gov_libs \<Rightarrow> council_id \<Rightarrow> nat \<Rightarrow> string option \<Rightarrow> membership_snapshot \<Rightarrow> (governance_error, unit) result" where
  "check_snapshot L council index expected s = run_checks
     [ensure (\<not> (ms_revision s \<noteq> index \<or> ms_parent_hash s \<noteq> expected \<or> ms_members s = []
                 \<or> length (ms_members s) > MAX_MEMBERS \<or> \<not> successively (<) (ms_members s)))
        (GE_CorruptState ''membership history''),
      gov_validate_hash (ms_hash s),
      gov_validate_hash_opt (ms_parent_hash s),
      ensure (\<not> ms_hash s \<noteq> membership_snapshot_hash L council (ms_revision s) (ms_parent_hash s) (ms_members s))
        (GE_CorruptState ''membership history hash'')]"

fun history_loop ::
  "gov_libs \<Rightarrow> council_id \<Rightarrow> nat \<Rightarrow> string option \<Rightarrow> membership_snapshot list \<Rightarrow> (governance_error, unit) result" where
  "history_loop L council index expected [] = Inr ()"
| "history_loop L council index expected (s # ss) =
     and_then (check_snapshot L council index expected s)
       (\<lambda>_. history_loop L council (index + 1) (Some (ms_hash s)) ss)"

definition validate_membership_history :: "gov_libs \<Rightarrow> gov_engine \<Rightarrow> (governance_error, unit) result" where
  "validate_membership_history L e =
     and_then (history_loop L (ge_council_id e) 0 None (ge_membership_history e)) (\<lambda>_.
     and_then (ok_or (GE_CorruptState ''membership history'') (last_opt (ge_membership_history e))) (\<lambda>current.
       ensure (\<not> (length (ms_members current) \<noteq> bs_len (ge_members e)
                  \<or> \<not> list_all (bs_member (ge_members e)) (ms_members current)))
         (GE_CorruptState ''current membership'')))"

definition check_binding ::
  "gov_libs \<Rightarrow> gov_engine \<Rightarrow> nat \<Rightarrow> string option \<Rightarrow> proposal_id bset \<Rightarrow> membership_binding
   \<Rightarrow> (governance_error, unit) result" where
  "check_binding L e index expected seen b =
     and_then (ok_or (GE_CorruptState ''proposal membership binding'')
                (get_at (ge_membership_history e) (mb_membership_revision b))) (\<lambda>membership.
     and_then (ensure (\<not> (mb_index b \<noteq> index \<or> mb_parent_hash b \<noteq> expected
                          \<or> mb_membership_hash b \<noteq> ms_hash membership
                          \<or> bs_member seen (mb_proposal_id b)))
                (GE_CorruptState ''proposal membership binding'')) (\<lambda>_.
     and_then (ok_or (GE_CorruptState ''proposal membership binding'')
                (bm_get (ge_proposals e) (mb_proposal_id b))) (\<lambda>p. run_checks
       [ensure (\<not> (pp_binding_index p \<noteq> mb_index b
                   \<or> pp_membership_revision p \<noteq> mb_membership_revision b
                   \<or> pp_membership_hash p \<noteq> mb_membership_hash b))
          (GE_CorruptState ''proposal membership binding''),
        ensure (\<not> mb_hash b \<noteq> proposal_membership_binding_hash L (ge_council_id e) (mb_index b) (mb_parent_hash b)
                               (mb_proposal_id b) (mb_membership_revision b) (mb_membership_hash b))
          (GE_CorruptState ''proposal membership binding hash'')])))"

fun log_loop ::
  "gov_libs \<Rightarrow> gov_engine \<Rightarrow> nat \<Rightarrow> string option \<Rightarrow> proposal_id bset \<Rightarrow> membership_binding list
   \<Rightarrow> (governance_error, unit) result" where
  "log_loop L e index expected seen [] = Inr ()"
| "log_loop L e index expected seen (b # bs) =
     and_then (check_binding L e index expected seen b)
       (\<lambda>_. log_loop L e (index + 1) (Some (mb_hash b)) (bs_insert (mb_proposal_id b) seen) bs)"

definition validate_proposal_log :: "gov_libs \<Rightarrow> gov_engine \<Rightarrow> (governance_error, unit) result" where
  "validate_proposal_log L e =
     and_then (ensure (\<not> length (ge_proposal_log e) \<noteq> bm_len (ge_proposals e))
                (GE_CorruptState ''proposal membership log''))
       (\<lambda>_. log_loop L e 0 None bs_empty (ge_proposal_log e))"

definition proposal_membership_is_valid :: "gov_engine \<Rightarrow> proposal \<Rightarrow> bool" where
  "proposal_membership_is_valid e p =
     (case get_at (ge_proposal_log e) (pp_binding_index p) of
        None \<Rightarrow> False
      | Some b \<Rightarrow>
          if mb_index b \<noteq> pp_binding_index p \<or> mb_proposal_id b \<noteq> pp_id p
             \<or> mb_membership_revision b \<noteq> pp_membership_revision p
             \<or> mb_membership_hash b \<noteq> pp_membership_hash p
          then False
          else (case get_at (ge_membership_history e) (mb_membership_revision b) of
                  None \<Rightarrow> False
                | Some s \<Rightarrow>
                    ms_revision s = pp_membership_revision p \<and> ms_hash s = pp_membership_hash p
                    \<and> length (ms_members s) = bs_len (pp_eligible_voters p)
                    \<and> list_all (bs_member (pp_eligible_voters p)) (ms_members s)))"

definition vote_in_window :: "proposal \<Rightarrow> cthulhu_id \<times> vote_record \<Rightarrow> bool" where
  "vote_in_window p v \<longleftrightarrow>
     bs_member (pp_eligible_voters p) (fst v) \<and> vr_cast_at (snd v) \<ge> pp_created_at p
     \<and> vr_cast_at (snd v) < pp_deadline p"

subsection \<open>Finalization and authorization\<close>

record finalization =
  fz_status :: proposal_status
  fz_tally :: tally
  fz_quorum_needed :: nat
  fz_threshold_bps :: nat

definition outcome_of :: "gov_engine \<Rightarrow> proposal \<Rightarrow> proposal_status" where
  "outcome_of e p =
     (let t = tally_of p in
      if has_parent_conflict e (pp_document p) then GS_ParentConflict
      else if ta_participating t < ceil_bps (bs_len (pp_eligible_voters p)) (gr_quorum_bps (ge_rules e)) then GS_Expired
      else if ta_non_abstaining t = 0 then GS_Rejected
      else if ta_support t * 10000 \<ge> ta_non_abstaining t * threshold_for e p then GS_Ratified
      else GS_Rejected)"

fun move_head :: "proposal_id \<Rightarrow> proposal \<Rightarrow> governance_document \<Rightarrow> gov_engine \<Rightarrow> gov_engine" where
  "move_head i p (GD_Constitution c) e =
     e\<lparr>ge_constitution := Some \<lparr>dh_version = con_version c, dh_hash = pp_document_hash p, dh_proposal_id = i\<rparr>\<rparr>"
| "move_head i p (GD_Agenda a) e =
     e\<lparr>ge_agenda := Some \<lparr>dh_version = ag_version a, dh_hash = pp_document_hash p, dh_proposal_id = i\<rparr>\<rparr>"
| "move_head i p (GD_Strategy s) e = e"
| "move_head i p (GD_Action d) e = e"

definition finalize ::
  "gov_libs \<Rightarrow> gov_engine \<Rightarrow> proposal_id \<Rightarrow> int \<Rightarrow> (governance_error, finalization \<times> gov_engine) result" where
  "finalize L e i now =
     and_then (ok_or GE_ProposalNotFound (bm_get (ge_proposals e) i)) (\<lambda>p.
     and_then (run_checks
       [ensure (\<not> pp_status p \<noteq> GS_Open) GE_ProposalClosed,
        ensure (\<not> now < pp_deadline p) GE_VotingStillOpen,
        ensure (\<not> (\<not> is_ok (validate_membership_history L e) \<or> \<not> is_ok (validate_proposal_log L e)
                   \<or> \<not> proposal_membership_is_valid e p
                   \<or> \<not> list_all (vote_in_window p) (bm_entries (pp_votes p))))
          GE_InvalidRatificationEvidence]) (\<lambda>_.
     let status = outcome_of e p;
         e1 = (if status = GS_Ratified then move_head i p (pp_document p) e else e)
     in Inr (\<lparr>fz_status = status, fz_tally = tally_of p,
              fz_quorum_needed = ceil_bps (bs_len (pp_eligible_voters p)) (gr_quorum_bps (ge_rules e)),
              fz_threshold_bps = threshold_for e p\<rparr>,
             put_proposal i (p\<lparr>pp_status := status\<rparr>) e1)))"

definition competing_proposals :: "gov_engine \<Rightarrow> proposal_id \<Rightarrow> (governance_error, proposal_id list) result" where
  "competing_proposals e i =
     and_then (ok_or GE_ProposalNotFound (bm_get (ge_proposals e) i)) (\<lambda>p.
       Inr (sort (map pp_id (filter (\<lambda>q.
              pp_id q \<noteq> pp_id p \<and> pp_status q = GS_Open
              \<and> document_kind_of (pp_document q) = document_kind_of (pp_document p)
              \<and> document_parent_hash (pp_document q) = document_parent_hash (pp_document p))
            (bm_values (ge_proposals e))))))"

definition has_valid_ratification_evidence :: "gov_libs \<Rightarrow> gov_engine \<Rightarrow> proposal \<Rightarrow> bool" where
  "has_valid_ratification_evidence L e p =
     (if \<not> is_ok (validate_rules (ge_rules e)) \<or> \<not> proposal_membership_is_valid e p
         \<or> (case document_content_hash L (pp_document p) of
              Inr h \<Rightarrow> h \<noteq> pp_document_hash p | Inl err \<Rightarrow> True)
         \<or> list_ex (\<lambda>v. \<not> vote_in_window p v) (bm_entries (pp_votes p))
      then False
      else let t = tally_of p in
        ta_participating t \<ge> ceil_bps (bs_len (pp_eligible_voters p)) (gr_quorum_bps (ge_rules e))
        \<and> ta_non_abstaining t > 0
        \<and> ta_support t * 10000 \<ge> ta_non_abstaining t * threshold_for e p)"

datatype local_policy_decision = LP_Allow | LP_Deny string

record action_authorization =
  aa_authorized :: bool
  aa_reason :: string

definition authorize_action ::
  "gov_libs \<Rightarrow> gov_engine \<Rightarrow> proposal_id \<Rightarrow> (governance_action \<Rightarrow> local_policy_decision)
   \<Rightarrow> (governance_error, action_authorization) result" where
  "authorize_action L e i policy =
     and_then (ok_or GE_ProposalNotFound (bm_get (ge_proposals e) i)) (\<lambda>p.
     and_then (run_checks
       [ensure (\<not> pp_status p \<noteq> GS_Ratified) GE_ActionNotRatified,
        ensure (\<not> (\<not> is_ok (validate_membership_history L e) \<or> \<not> is_ok (validate_proposal_log L e)
                   \<or> \<not> has_valid_ratification_evidence L e p)) GE_InvalidRatificationEvidence]) (\<lambda>_.
       case pp_document p of
         GD_Action d \<Rightarrow>
           (case policy (ad_action d) of
              LP_Allow \<Rightarrow> Inr \<lparr>aa_authorized = True,
                             aa_reason = ''ratified by the Council and allowed by local operator policy''\<rparr>
            | LP_Deny reason \<Rightarrow>
                and_then (gov_validate_text reason GOV_MAX_SHORT_TEXT_BYTES ''local policy reason'' False)
                  (\<lambda>_. Inr \<lparr>aa_authorized = False, aa_reason = reason\<rparr>))
       | _ \<Rightarrow> Inl GE_NotAnAction))"

subsection \<open>Loaded state\<close>

definition validate_loaded_head ::
  "gov_engine \<Rightarrow> document_head option \<Rightarrow> document_kind \<Rightarrow> (governance_error, unit) result" where
  "validate_loaded_head e head kind =
     (case head of
        None \<Rightarrow> Inr ()
      | Some h \<Rightarrow>
          and_then (gov_validate_hash (dh_hash h)) (\<lambda>_.
          and_then (ok_or (GE_CorruptState ''document head proposal'')
                     (bm_get (ge_proposals e) (dh_proposal_id h))) (\<lambda>p.
          and_then (case pp_document p of
                      GD_Constitution d \<Rightarrow>
                        if kind = GK_Constitution then Inr (con_version d)
                        else Inl (GE_CorruptState ''document head kind'')
                    | GD_Agenda d \<Rightarrow>
                        if kind = GK_Agenda then Inr (ag_version d)
                        else Inl (GE_CorruptState ''document head kind'')
                    | _ \<Rightarrow> Inl (GE_CorruptState ''document head kind'')) (\<lambda>version.
            ensure (\<not> (pp_status p \<noteq> GS_Ratified \<or> pp_document_hash p \<noteq> dh_hash h \<or> version \<noteq> dh_version h))
              (GE_CorruptState ''document head mismatch'')))))"

definition in_window :: "proposal \<Rightarrow> cthulhu_id \<Rightarrow> int \<Rightarrow> bool" where
  "in_window p author at \<longleftrightarrow>
     \<not> (\<not> bs_member (pp_eligible_voters p) author \<or> at < pp_created_at p \<or> at \<ge> pp_deadline p)"

definition check_argument :: "proposal \<Rightarrow> argument \<Rightarrow> (governance_error, unit) result" where
  "check_argument p a = run_checks
     [ensure (in_window p (ar_author a) (ar_submitted_at a)) (GE_CorruptState ''argument metadata''),
      gov_validate_text (ar_text a) GOV_MAX_TEXT_BYTES ''argument'' False]"

definition check_amendment :: "proposal \<Rightarrow> amendment_suggestion \<Rightarrow> (governance_error, unit) result" where
  "check_amendment p a = run_checks
     [ensure (in_window p (am_author a) (am_submitted_at a)) (GE_CorruptState ''amendment metadata''),
      gov_validate_text (am_text a) GOV_MAX_TEXT_BYTES ''amendment'' False]"

definition check_vote :: "proposal \<Rightarrow> cthulhu_id \<times> vote_record \<Rightarrow> (governance_error, unit) result" where
  "check_vote p v =
     ensure (in_window p (fst v) (vr_cast_at (snd v))) (GE_CorruptState ''vote metadata'')"

definition check_proposal ::
  "gov_libs \<Rightarrow> gov_engine \<Rightarrow> int \<Rightarrow> proposal_id \<times> proposal \<Rightarrow> (governance_error, unit) result" where
  "check_proposal L e now kp =
     (let p = snd kp in
      and_then (run_checks
        [ensure (\<not> (fst kp \<noteq> pp_id p \<or> pp_council_id p \<noteq> ge_council_id e
                    \<or> bs_len (pp_eligible_voters p) = 0 \<or> bs_len (pp_eligible_voters p) > MAX_MEMBERS
                    \<or> \<not> bs_member (pp_eligible_voters p) (pp_proposer p)
                    \<or> pp_created_at p < 0 \<or> pp_deadline p \<le> pp_created_at p
                    \<or> pp_deadline p - pp_created_at p > gr_max_lifetime (ge_rules e)
                    \<or> length (pp_arguments p) > MAX_ARGUMENTS \<or> length (pp_amendments p) > MAX_AMENDMENTS
                    \<or> bm_len (pp_votes p) > bs_len (pp_eligible_voters p)
                    \<or> (pp_status p \<noteq> GS_Open \<and> pp_deadline p > now)))
           (GE_CorruptState ''proposal metadata''),
         ensure (proposal_membership_is_valid e p) (GE_CorruptState ''proposal membership basis''),
         validate_document L (pp_document p)]) (\<lambda>_.
      and_then (document_content_hash L (pp_document p)) (\<lambda>h. run_checks
        ([ensure (\<not> h \<noteq> pp_document_hash p) (GE_CorruptState ''document hash''),
          ensure (\<not> (pp_status p = GS_Ratified \<and> \<not> has_valid_ratification_evidence L e p))
            (GE_CorruptState ''ratification evidence'')]
         @ map (check_argument p) (pp_arguments p) @ map (check_amendment p) (pp_amendments p)
         @ map (check_vote p) (bm_entries (pp_votes p))))))"

definition gov_validate_loaded_state :: "gov_libs \<Rightarrow> gov_engine \<Rightarrow> int \<Rightarrow> (governance_error, unit) result" where
  "gov_validate_loaded_state L e now =
     and_then (ensure (\<not> (now < 0 \<or> bs_len (ge_members e) = 0 \<or> bs_len (ge_members e) > MAX_MEMBERS
                 \<or> ge_membership_history e = [] \<or> length (ge_membership_history e) > MAX_MEMBERSHIP_SNAPSHOTS
                 \<or> length (ge_proposal_log e) > MAX_PROPOSALS \<or> bm_len (ge_proposals e) > MAX_PROPOSALS))
                (GE_CorruptState ''top-level bounds'')) (\<lambda>_.
     and_then (validate_rules (ge_rules e)) (\<lambda>_. run_checks
       ([validate_membership_history L e,
         validate_proposal_log L e,
         ensure (\<not> open_proposals e > MAX_OPEN_PROPOSALS) (GE_CorruptState ''open proposal bound'')]
        @ map (check_proposal L e now) (bm_entries (ge_proposals e))
        @ [validate_loaded_head e (ge_constitution e) GK_Constitution,
           validate_loaded_head e (ge_agenda e) GK_Agenda])))"

end
