(* ===== verification/Governance_Invariant.thy ===== *)
theory Governance_Invariant
  imports Council_Governance
begin

section \<open>The invariant of the governance engine\<close>

text \<open>
  Every reachable engine holds two hash chains (the membership history and the log of proposal
  bindings), proposals bound to the membership they opened under, and ratified proposals only
  with the votes that justify them.  From this follow the properties of reloading, finalization,
  authorization and of the membership commitment.
\<close>

subsection \<open>Engines that can be reached\<close>

inductive gov_step :: "gov_libs \<Rightarrow> gov_engine \<Rightarrow> gov_engine \<Rightarrow> bool" for L where
  step_add_member: "add_member L e member = Inr (b, e') \<Longrightarrow> gov_step L e e'"
| step_remove_member: "remove_member L e member = (b, e') \<Longrightarrow> gov_step L e e'"
| step_submit: "submit L e i proposer document created_at deadline = Inr (p, e') \<Longrightarrow> gov_step L e e'"
| step_argument: "add_argument e i author position text now = Inr e' \<Longrightarrow> gov_step L e e'"
| step_amendment: "suggest_amendment e i author text now = Inr e' \<Longrightarrow> gov_step L e e'"
| step_vote: "cast_vote e i voter choice now = Inr (r, e') \<Longrightarrow> gov_step L e e'"
| step_finalize: "finalize L e i now = Inr (f, e') \<Longrightarrow> gov_step L e e'"

definition gov_reachable :: "gov_libs \<Rightarrow> gov_engine \<Rightarrow> bool" where
  "gov_reachable L e \<longleftrightarrow>
     (\<exists>council rules members e0. GovernanceEngine_new L council rules members = Inr e0 \<and> (gov_step L)\<^sup>*\<^sup>* e0 e)"

subsection \<open>Hash chains\<close>

definition chain_parent :: "('a \<Rightarrow> string) \<Rightarrow> 'a list \<Rightarrow> nat \<Rightarrow> string option" where
  "chain_parent h xs j = (if j = 0 then None else Some (h (xs ! (j - 1))))"

lemma chain_parent_append [simp]: "j \<le> length xs \<Longrightarrow> chain_parent h (xs @ ys) j = chain_parent h xs j"
  by (auto simp: chain_parent_def nth_append)

lemma chain_parent_Suc [simp]: "chain_parent h xs (Suc j) = Some (h (xs ! j))"
  by (simp add: chain_parent_def)

lemma chain_parent_0 [simp]: "chain_parent h xs 0 = None"
  by (simp add: chain_parent_def)

lemma last_opt_chain: "map_option h (last_opt xs) = chain_parent h xs (length xs)"
  by (cases xs rule: rev_cases) (simp_all add: last_opt_def chain_parent_def nth_append)

lemma all_less_append1:
  "(\<forall>j < length (xs @ [x]). P j) \<longleftrightarrow> (\<forall>j < length xs. P j) \<and> P (length xs)"
  by (auto simp: less_Suc_eq)

lemma all_less_Suc_shift: "(\<forall>j < Suc n. P j) \<longleftrightarrow> P 0 \<and> (\<forall>j < n. P (Suc j))"
  using less_Suc_eq_0_disj by auto

definition snapshot_ok :: "gov_libs \<Rightarrow> council_id \<Rightarrow> nat \<Rightarrow> string option \<Rightarrow> membership_snapshot \<Rightarrow> bool" where
  "snapshot_ok L c j parent s \<longleftrightarrow>
     ms_revision s = j \<and> ms_parent_hash s = parent \<and> ms_members s \<noteq> [] \<and> length (ms_members s) \<le> MAX_MEMBERS
     \<and> sorted_wrt (<) (ms_members s) \<and> ms_hash s = membership_snapshot_hash L c j parent (ms_members s)"

definition chain_ok :: "gov_libs \<Rightarrow> council_id \<Rightarrow> membership_snapshot list \<Rightarrow> bool" where
  "chain_ok L c ss \<longleftrightarrow> (\<forall>j < length ss. snapshot_ok L c j (chain_parent ms_hash ss j) (ss ! j))"

lemma chain_ok_append:
  "chain_ok L c (ss @ [s]) \<longleftrightarrow> chain_ok L c ss \<and> snapshot_ok L c (length ss) (chain_parent ms_hash ss (length ss)) s"
  unfolding chain_ok_def all_less_append1 by (simp add: nth_append)

lemma membership_hash_valid: "sha_hex L \<Longrightarrow> gov_validate_hash (membership_snapshot_hash L c r p ms) = Inr ()"
  unfolding membership_snapshot_hash_def by (rule gov_hash_ok)

lemma history_loop_iff:
  assumes "sha_hex L" "gov_validate_hash_opt ex = Inr ()"
  shows "history_loop L c n ex ss = Inr () \<longleftrightarrow>
    (\<forall>j < length ss. snapshot_ok L c (n + j) (if j = 0 then ex else Some (ms_hash (ss ! (j - 1)))) (ss ! j))"
  using assms(2)
proof (induction ss arbitrary: n ex)
  case (Cons s ss)
  have head: "check_snapshot L c n ex s = Inr () \<longleftrightarrow> snapshot_ok L c n ex s"
    using Cons.prems membership_hash_valid[OF assms(1)]
    by (auto simp: check_snapshot_def snapshot_ok_def run_checks.simps(1) not_less
        successively_iff_sorted_wrt_strong[OF less_trans])
  have tail: "history_loop L c (n + 1) (Some (ms_hash s)) ss = Inr () \<longleftrightarrow>
      (\<forall>j < length ss. snapshot_ok L c (n + 1 + j) (if j = 0 then Some (ms_hash s) else Some (ms_hash (ss ! (j - 1)))) (ss ! j))"
    if "snapshot_ok L c n ex s"
    using that membership_hash_valid[OF assms(1)]
    by (intro Cons.IH) (simp add: snapshot_ok_def gov_validate_hash_opt_def)
  have step: "history_loop L c n ex (s # ss) = Inr () \<longleftrightarrow>
      check_snapshot L c n ex s = Inr () \<and> history_loop L c (n + 1) (Some (ms_hash s)) ss = Inr ()" by simp
  have "(if j = 0 then Some (ms_hash s) else Some (ms_hash (ss ! (j - 1)))) = Some (ms_hash ((s # ss) ! j))" for j
    by (cases j) auto
  then show ?case unfolding step head using tail
    by (cases "snapshot_ok L c n ex s") (auto simp: all_less_Suc_shift)
qed simp

lemma validate_history_iff:
  assumes "sha_hex L"
  shows "validate_membership_history L e = Inr () \<longleftrightarrow>
    chain_ok L (ge_council_id e) (ge_membership_history e) \<and> ge_membership_history e \<noteq> []
    \<and> length (ms_members (last (ge_membership_history e))) = bs_len (ge_members e)
    \<and> (\<forall>m\<in>set (ms_members (last (ge_membership_history e))). bs_member (ge_members e) m)"
proof -
  have "history_loop L (ge_council_id e) 0 None (ge_membership_history e) = Inr () \<longleftrightarrow>
      chain_ok L (ge_council_id e) (ge_membership_history e)"
    using history_loop_iff[OF assms, of None "ge_council_id e" 0]
    by (simp add: chain_ok_def chain_parent_def gov_validate_hash_opt_def)
  then show ?thesis
    by (auto simp: validate_membership_history_def last_opt_def list_all_iff)
qed

subsection \<open>The log of bindings\<close>

definition binding_ok :: "gov_libs \<Rightarrow> gov_engine \<Rightarrow> nat \<Rightarrow> bool" where
  "binding_ok L e j \<longleftrightarrow> (let b = ge_proposal_log e ! j in
     mb_index b = j \<and> mb_parent_hash b = chain_parent mb_hash (ge_proposal_log e) j
     \<and> mb_membership_revision b < length (ge_membership_history e)
     \<and> mb_membership_hash b = ms_hash (ge_membership_history e ! mb_membership_revision b)
     \<and> mb_hash b = proposal_membership_binding_hash L (ge_council_id e) j (mb_parent_hash b)
                      (mb_proposal_id b) (mb_membership_revision b) (mb_membership_hash b)
     \<and> (\<exists>p. bm_get (ge_proposals e) (mb_proposal_id b) = Some p \<and> pp_binding_index p = j
            \<and> pp_membership_revision p = mb_membership_revision b
            \<and> pp_membership_hash p = mb_membership_hash b))"

lemma get_at_eq_Some [simp]: "get_at xs i = Some x \<longleftrightarrow> i < length xs \<and> x = xs ! i"
  by (auto simp: get_at_def)

lemma check_binding_iff:
  assumes "n < length (ge_proposal_log e)"
    and seen: "bs_member seen (mb_proposal_id (ge_proposal_log e ! n)) \<Longrightarrow> \<not> binding_ok L e n"
  shows "check_binding L e n (chain_parent mb_hash (ge_proposal_log e) n) seen (ge_proposal_log e ! n) = Inr ()
    \<longleftrightarrow> binding_ok L e n \<and> \<not> bs_member seen (mb_proposal_id (ge_proposal_log e ! n))"
proof -
  let ?b = "ge_proposal_log e ! n"
  have "check_binding L e n (chain_parent mb_hash (ge_proposal_log e) n) seen ?b = Inr () \<longleftrightarrow>
      (mb_membership_revision ?b < length (ge_membership_history e)
       \<and> mb_index ?b = n \<and> mb_parent_hash ?b = chain_parent mb_hash (ge_proposal_log e) n
       \<and> mb_membership_hash ?b = ms_hash (ge_membership_history e ! mb_membership_revision ?b)
       \<and> \<not> bs_member seen (mb_proposal_id ?b)
       \<and> (\<exists>p. bm_get (ge_proposals e) (mb_proposal_id ?b) = Some p
            \<and> pp_binding_index p = mb_index ?b
            \<and> pp_membership_revision p = mb_membership_revision ?b
            \<and> pp_membership_hash p = mb_membership_hash ?b
            \<and> mb_hash ?b = proposal_membership_binding_hash L (ge_council_id e) (mb_index ?b) (mb_parent_hash ?b)
                (mb_proposal_id ?b) (mb_membership_revision ?b) (mb_membership_hash ?b)))"
    unfolding check_binding_def and_then_eq_Inr ok_or_eq_Inr get_at_eq_Some run_checks_Cons_ok
      run_checks.simps(1) ensure_eq_Inr de_Morgan_disj not_not by blast
  then show ?thesis unfolding binding_ok_def Let_def by metis
qed

lemma log_loop_iff:
  assumes "n \<le> length (ge_proposal_log e)" "\<forall>j < n. binding_ok L e j"
  shows "log_loop L e n (chain_parent mb_hash (ge_proposal_log e) n)
      (bs_of_list (map mb_proposal_id (take n (ge_proposal_log e)))) (drop n (ge_proposal_log e)) = Inr ()
    \<longleftrightarrow> (\<forall>j < length (ge_proposal_log e). n \<le> j \<longrightarrow> binding_ok L e j)"
  using assms
proof (induction "length (ge_proposal_log e) - n" arbitrary: n)
  case 0
  then show ?case by auto
next
  case (Suc k)
  let ?log = "ge_proposal_log e"
  let ?seen = "bs_of_list (map mb_proposal_id (take n ?log))"
  have n: "n < length ?log" using Suc.hyps(2) by simp
  have clash: "\<not> bs_member ?seen (mb_proposal_id (?log ! n))" if "binding_ok L e n"
  proof
    assume "bs_member ?seen (mb_proposal_id (?log ! n))"
    then obtain j where j: "j < n" "mb_proposal_id (?log ! j) = mb_proposal_id (?log ! n)"
      using n by (auto simp: in_set_conv_nth)
    then show False using that Suc.prems(2) by (fastforce simp: binding_ok_def Let_def)
  qed
  have d: "drop n ?log = ?log ! n # drop (Suc n) ?log" using n by (simp add: Cons_nth_drop_Suc)
  have t: "bs_insert (mb_proposal_id (?log ! n)) ?seen = bs_of_list (map mb_proposal_id (take (Suc n) ?log))"
    using n by (simp add: take_Suc_conv_app_nth bs_of_list_snoc)
  have step: "log_loop L e n (chain_parent mb_hash ?log n) ?seen (drop n ?log) = Inr () \<longleftrightarrow>
      binding_ok L e n \<and> log_loop L e (Suc n) (chain_parent mb_hash ?log (Suc n))
        (bs_of_list (map mb_proposal_id (take (Suc n) ?log))) (drop (Suc n) ?log) = Inr ()"
    unfolding d using clash check_binding_iff[OF n, of ?seen L] t by (auto simp: t)
  have "log_loop L e (Suc n) (chain_parent mb_hash ?log (Suc n))
        (bs_of_list (map mb_proposal_id (take (Suc n) ?log))) (drop (Suc n) ?log) = Inr ()
      \<longleftrightarrow> (\<forall>j < length ?log. Suc n \<le> j \<longrightarrow> binding_ok L e j)" if "binding_ok L e n"
    using that Suc n by (intro Suc.hyps(1)) (auto simp: less_Suc_eq)
  then show ?case unfolding step using n by (metis Suc_leI le_neq_implies_less le_refl le_SucI less_imp_le Suc_le_lessD)
qed

lemma validate_log_iff:
  "validate_proposal_log L e = Inr () \<longleftrightarrow>
     length (ge_proposal_log e) = bm_len (ge_proposals e) \<and> (\<forall>j < length (ge_proposal_log e). binding_ok L e j)"
  using log_loop_iff[of 0 e L] by (auto simp: validate_proposal_log_def bs_of_list_def)

subsection \<open>Counting\<close>

lemma open_proposals_card:
  "open_proposals e = card {i. \<exists>p. bm_get (ge_proposals e) i = Some p \<and> pp_status p = GS_Open}"
  unfolding open_proposals_def by (rule filter_values_card)

definition voters_for :: "proposal \<Rightarrow> vote_choice \<Rightarrow> cthulhu_id set" where
  "voters_for p c = {v. \<exists>r. bm_get (pp_votes p) v = Some r \<and> vr_choice r = c}"

lemma fold_count_vote:
  "fold count_vote cs t = t\<lparr>ta_support := ta_support t + length (filter (\<lambda>c. c = VC_Support) cs),
     ta_oppose := ta_oppose t + length (filter (\<lambda>c. c = VC_Oppose) cs),
     ta_abstain := ta_abstain t + length (filter (\<lambda>c. c = VC_Abstain) cs)\<rparr>"
proof (induction cs arbitrary: t)
  case (Cons c cs)
  then show ?case by (cases c) simp_all
qed simp

lemma tally_of_cards:
  "ta_support (tally_of p) = card (voters_for p VC_Support)"
  "ta_oppose (tally_of p) = card (voters_for p VC_Oppose)"
  "ta_abstain (tally_of p) = card (voters_for p VC_Abstain)"
  "ta_participating (tally_of p) = card (voters_for p VC_Support) + card (voters_for p VC_Oppose) + card (voters_for p VC_Abstain)"
  "ta_non_abstaining (tally_of p) = card (voters_for p VC_Support) + card (voters_for p VC_Oppose)"
  by (simp_all add: tally_of_def fold_count_vote filter_map comp_def filter_values_card voters_for_def Let_def)

lemma ceil_bps_le: "ceil_bps n bps \<le> k \<longleftrightarrow> n * bps \<le> k * 10000"
proof -
  have "ceil_bps n bps \<le> k \<longleftrightarrow> n * bps + 9999 < Suc k * 10000"
    unfolding ceil_bps_def by (subst div_less_iff_less_mult[symmetric]) auto
  then show ?thesis by (simp add: less_Suc_eq_le)
qed

subsection \<open>The invariant\<close>

definition carried :: "governance_rules \<Rightarrow> proposal \<Rightarrow> bool" where
  "carried r p \<longleftrightarrow> (let t = tally_of p in
     ta_participating t \<ge> ceil_bps (bs_len (pp_eligible_voters p)) (gr_quorum_bps r)
     \<and> ta_non_abstaining t > 0
     \<and> ta_support t * 10000 \<ge> ta_non_abstaining t *
         (if document_kind_of (pp_document p) = GK_Constitution
          then gr_constitution_approval_bps r else gr_approval_bps r))"

definition proposal_ok :: "gov_libs \<Rightarrow> gov_engine \<Rightarrow> proposal_id \<Rightarrow> proposal \<Rightarrow> bool" where
  "proposal_ok L e i p \<longleftrightarrow>
     pp_id p = i \<and> pp_council_id p = ge_council_id e \<and> bs_member (pp_eligible_voters p) (pp_proposer p)
     \<and> 0 \<le> pp_created_at p \<and> pp_created_at p < pp_deadline p
     \<and> pp_deadline p - pp_created_at p \<le> gr_max_lifetime (ge_rules e)
     \<and> length (pp_arguments p) \<le> MAX_ARGUMENTS \<and> length (pp_amendments p) \<le> MAX_AMENDMENTS
     \<and> pp_binding_index p < length (ge_proposal_log e)
     \<and> mb_proposal_id (ge_proposal_log e ! pp_binding_index p) = i
     \<and> pp_membership_revision p < length (ge_membership_history e)
     \<and> bs_elems (pp_eligible_voters p) = ms_members (ge_membership_history e ! pp_membership_revision p)
     \<and> document_content_hash L (pp_document p) = Inr (pp_document_hash p)
     \<and> (\<forall>a\<in>set (pp_arguments p). check_argument p a = Inr ())
     \<and> (\<forall>a\<in>set (pp_amendments p). check_amendment p a = Inr ())
     \<and> (\<forall>v r. bm_get (pp_votes p) v = Some r \<longrightarrow> vote_in_window p (v, r))
     \<and> (pp_status p = GS_Ratified \<longrightarrow> carried (ge_rules e) p)"

definition head_ok :: "gov_engine \<Rightarrow> document_kind \<Rightarrow> document_head \<Rightarrow> bool" where
  "head_ok e kind h \<longleftrightarrow> (\<exists>p. bm_get (ge_proposals e) (dh_proposal_id h) = Some p
     \<and> pp_status p = GS_Ratified \<and> pp_document_hash p = dh_hash h
     \<and> (case pp_document p of
          GD_Constitution c \<Rightarrow> kind = GK_Constitution \<and> con_version c = dh_version h
        | GD_Agenda a \<Rightarrow> kind = GK_Agenda \<and> ag_version a = dh_version h
        | _ \<Rightarrow> False))"

definition heads_ok :: "gov_engine \<Rightarrow> bool" where
  "heads_ok e \<longleftrightarrow>
     (\<forall>h. ge_constitution e = Some h \<longrightarrow> head_ok e GK_Constitution h)
     \<and> (\<forall>h. ge_agenda e = Some h \<longrightarrow> head_ok e GK_Agenda h)"

definition membership_ok :: "gov_libs \<Rightarrow> gov_engine \<Rightarrow> bool" where
  "membership_ok L e \<longleftrightarrow>
     ge_membership_history e \<noteq> [] \<and> length (ge_membership_history e) \<le> MAX_MEMBERSHIP_SNAPSHOTS
     \<and> chain_ok L (ge_council_id e) (ge_membership_history e)
     \<and> ms_members (last (ge_membership_history e)) = bs_elems (ge_members e)"

definition log_ok :: "gov_libs \<Rightarrow> gov_engine \<Rightarrow> bool" where
  "log_ok L e \<longleftrightarrow>
     length (ge_proposal_log e) = bm_len (ge_proposals e) \<and> length (ge_proposal_log e) \<le> MAX_PROPOSALS
     \<and> (\<forall>j < length (ge_proposal_log e). binding_ok L e j)"

definition gov_inv :: "gov_libs \<Rightarrow> gov_engine \<Rightarrow> bool" where
  "gov_inv L e \<longleftrightarrow>
     validate_rules (ge_rules e) = Inr (ge_rules e) \<and> membership_ok L e \<and> log_ok L e
     \<and> open_proposals e \<le> MAX_OPEN_PROPOSALS
     \<and> (\<forall>i p. bm_get (ge_proposals e) i = Some p \<longrightarrow> proposal_ok L e i p) \<and> heads_ok e"

lemma validate_rules_same: "validate_rules r = Inr r' \<Longrightarrow> r' = r"
  by (auto simp: validate_rules_def split: if_splits)

lemma membership_last:
  assumes "membership_ok L e"
  shows "snapshot_ok L (ge_council_id e) (length (ge_membership_history e) - 1)
      (chain_parent ms_hash (ge_membership_history e) (length (ge_membership_history e) - 1))
      (last (ge_membership_history e))"
  using assms by (simp add: membership_ok_def chain_ok_def last_conv_nth)

lemma members_bounded: "membership_ok L e \<Longrightarrow> 0 < bs_len (ge_members e) \<and> bs_len (ge_members e) \<le> MAX_MEMBERS"
  using membership_last[of L e] by (auto simp: membership_ok_def snapshot_ok_def bs_len_elems)

lemma initial_inv:
  assumes "GovernanceEngine_new L council rules ids = Inr e"
  shows "gov_inv L e"
proof -
  let ?m = "bs_of_list ids"
  have r: "validate_rules rules = Inr rules" and e: "0 < bs_len ?m" "bs_len ?m \<le> MAX_MEMBERS"
    "e = \<lparr>ge_council_id = council, ge_rules = rules, ge_members = ?m,
          ge_membership_history = [MembershipSnapshot_new L council 0 None ?m],
          ge_proposal_log = [], ge_proposals = bm_empty, ge_constitution = None, ge_agenda = None\<rparr>"
    using assms by (auto simp: GovernanceEngine_new_def Let_def dest: validate_rules_same)
  have "snapshot_ok L council 0 None (MembershipSnapshot_new L council 0 None ?m)"
    using e by (auto simp: snapshot_ok_def MembershipSnapshot_new_def bs_elems_sorted bs_len_elems)
  then have "membership_ok L e"
    by (simp add: e membership_ok_def MAX_MEMBERSHIP_SNAPSHOTS_def chain_ok_def MembershipSnapshot_new_def)
  then show ?thesis
    using r by (simp add: gov_inv_def e log_ok_def heads_ok_def open_proposals_def bm_values_def)
qed

subsection \<open>Membership changes\<close>

lemma append_snapshot_Inr:
  "append_membership_snapshot L e members = Inr e' \<longleftrightarrow>
     0 < bs_len members \<and> bs_len members \<le> MAX_MEMBERS
     \<and> length (ge_membership_history e) < MAX_MEMBERSHIP_SNAPSHOTS \<and> ge_membership_history e \<noteq> []
     \<and> ms_revision (last (ge_membership_history e)) + 1 \<le> u64_max
     \<and> e' = e\<lparr>ge_membership_history := ge_membership_history e
          @ [MembershipSnapshot_new L (ge_council_id e) (ms_revision (last (ge_membership_history e)) + 1)
               (Some (ms_hash (last (ge_membership_history e)))) members]\<rparr>"
  by (auto simp: append_membership_snapshot_def last_opt_def run_checks.simps(1) not_le)

definition grown_history :: "gov_libs \<Rightarrow> gov_engine \<Rightarrow> cthulhu_id bset \<Rightarrow> membership_snapshot list" where
  "grown_history L e members = ge_membership_history e
     @ [MembershipSnapshot_new L (ge_council_id e) (length (ge_membership_history e))
          (Some (ms_hash (last (ge_membership_history e)))) members]"

definition with_membership :: "gov_libs \<Rightarrow> gov_engine \<Rightarrow> cthulhu_id bset \<Rightarrow> gov_engine" where
  "with_membership L e members =
     e\<lparr>ge_membership_history := grown_history L e members, ge_members := members\<rparr>"

lemma append_snapshot_ok:
  assumes "membership_ok L e"
  shows "append_membership_snapshot L e members = Inr e' \<longleftrightarrow>
     0 < bs_len members \<and> bs_len members \<le> MAX_MEMBERS
     \<and> length (ge_membership_history e) < MAX_MEMBERSHIP_SNAPSHOTS
     \<and> e' = e\<lparr>ge_membership_history := grown_history L e members\<rparr>"
proof -
  have ne: "ge_membership_history e \<noteq> []" using assms by (simp add: membership_ok_def)
  have rev: "ms_revision (last (ge_membership_history e)) + 1 = length (ge_membership_history e)"
    using membership_last[OF assms] ne by (cases "ge_membership_history e") (simp_all add: snapshot_ok_def)
  have len: "length (ge_membership_history e) \<le> u64_max"
    using assms by (simp add: membership_ok_def MAX_MEMBERSHIP_SNAPSHOTS_def u64_max_def)
  show ?thesis
    unfolding append_snapshot_Inr rev grown_history_def using ne len by blast
qed

lemma with_membership_inv:
  assumes inv: "gov_inv L e" and m: "0 < bs_len members" "bs_len members \<le> MAX_MEMBERS"
    and room: "length (ge_membership_history e) < MAX_MEMBERSHIP_SNAPSHOTS"
  shows "gov_inv L (with_membership L e members)"
proof -
  let ?e = "with_membership L e members" and ?h = "ge_membership_history e"
  have mem: "membership_ok L e" using inv by (simp add: gov_inv_def)
  then have ne: "?h \<noteq> []" by (simp add: membership_ok_def)
  then have par: "chain_parent ms_hash ?h (length ?h) = Some (ms_hash (last ?h))"
    by (simp add: chain_parent_def last_conv_nth)
  have "membership_ok L ?e"
    using mem m room
    by (auto simp: membership_ok_def with_membership_def grown_history_def chain_ok_append par snapshot_ok_def
        MembershipSnapshot_new_def bs_elems_sorted bs_len_elems)
  moreover have "binding_ok L ?e j" if "binding_ok L e j" for j
    using that by (auto simp: binding_ok_def Let_def with_membership_def grown_history_def nth_append)
  moreover have "proposal_ok L ?e i p" if "proposal_ok L e i p" for i p
    using that by (simp add: proposal_ok_def with_membership_def grown_history_def nth_append)
  moreover have "head_ok ?e k h \<longleftrightarrow> head_ok e k h" for k h by (simp add: head_ok_def with_membership_def)
  moreover have "ge_proposal_log ?e = ge_proposal_log e" "ge_proposals ?e = ge_proposals e"
    "ge_rules ?e = ge_rules e" "ge_constitution ?e = ge_constitution e" "ge_agenda ?e = ge_agenda e"
    by (simp_all add: with_membership_def)
  ultimately show ?thesis using inv by (simp add: gov_inv_def log_ok_def heads_ok_def open_proposals_def)
qed

lemma add_member_result:
  assumes "membership_ok L e"
  shows "add_member L e member = Inr (b, e') \<longleftrightarrow>
    (if bs_member (ge_members e) member then \<not> b \<and> e' = e
     else b \<and> bs_len (ge_members e) < MAX_MEMBERS
       \<and> length (ge_membership_history e) < MAX_MEMBERSHIP_SNAPSHOTS
       \<and> e' = with_membership L e (bs_insert member (ge_members e)))"
  by (simp add: add_member_def Let_def append_snapshot_ok[OF assms] with_membership_def not_le) blast

lemma remove_member_result:
  assumes "membership_ok L e"
  shows "remove_member L e member =
    (if bs_member (ge_members e) member \<and> bs_len (ge_members e) \<noteq> 1
        \<and> length (ge_membership_history e) < MAX_MEMBERSHIP_SNAPSHOTS
     then (True, with_membership L e (bs_remove member (ge_members e))) else (False, e))"
proof (cases "bs_member (ge_members e) member \<and> bs_len (ge_members e) \<noteq> 1
        \<and> length (ge_membership_history e) < MAX_MEMBERSHIP_SNAPSHOTS")
  case True
  then have "append_membership_snapshot L e (bs_remove member (ge_members e))
      = Inr (e\<lparr>ge_membership_history := grown_history L e (bs_remove member (ge_members e))\<rparr>)"
    using members_bounded[OF assms] by (auto simp: append_snapshot_ok[OF assms])
  with True show ?thesis by (simp add: remove_member_def Let_def with_membership_def)
qed (auto simp: remove_member_def)

subsection \<open>Submissions\<close>

definition submitted :: "gov_libs \<Rightarrow> gov_engine \<Rightarrow> proposal_id \<Rightarrow> proposal \<Rightarrow> gov_engine" where
  "submitted L e i p = e\<lparr>
     ge_proposal_log := ge_proposal_log e
       @ [ProposalMembershipBinding_new L (ge_council_id e) (length (ge_proposal_log e))
            (chain_parent mb_hash (ge_proposal_log e) (length (ge_proposal_log e))) i (last (ge_membership_history e))],
     ge_proposals := bm_insert i p (ge_proposals e)\<rparr>"

lemma submit_result:
  assumes "membership_ok L e" "log_ok L e"
  shows "submit L e i proposer d t0 t1 = Inr (p, e') \<longleftrightarrow>
     bs_member (ge_members e) proposer \<and> bm_get (ge_proposals e) i = None
     \<and> bm_len (ge_proposals e) < MAX_PROPOSALS \<and> open_proposals e < MAX_OPEN_PROPOSALS
     \<and> 0 \<le> t0 \<and> t0 < t1 \<and> t1 - t0 \<le> gr_max_lifetime (ge_rules e)
     \<and> validate_document_lineage e d = Inr ()
     \<and> (\<exists>h. document_content_hash L d = Inr h
          \<and> p = new_proposal e i proposer d h t0 t1 (last (ge_membership_history e)) (length (ge_proposal_log e)))
     \<and> e' = submitted L e i p"
proof -
  have facts: "ge_membership_history e \<noteq> []" "length (ge_proposal_log e) = bm_len (ge_proposals e)"
    using assms by (simp_all add: membership_ok_def log_ok_def)
  have last: "last_opt (ge_membership_history e) = Some (last (ge_membership_history e))"
    using facts(1) by (simp add: last_opt_def)
  have valid: "validate_document L d = Inr ()" if "document_content_hash L d = Inr h" for h
    using that by (simp add: document_content_hash_ok)
  show ?thesis
    unfolding submit_def and_then_eq_Inr run_checks_Cons_ok run_checks.simps(1) ensure_eq_Inr bm_contains_iff
      last ok_or_eq_Inr Let_def submitted_def last_opt_chain
    using facts(2) by (auto simp: not_le dest: valid)
qed

definition same_core :: "proposal \<Rightarrow> proposal \<Rightarrow> bool" where
  "same_core p q \<longleftrightarrow> pp_id q = pp_id p \<and> pp_council_id q = pp_council_id p \<and> pp_proposer q = pp_proposer p
     \<and> pp_document q = pp_document p \<and> pp_document_hash q = pp_document_hash p
     \<and> pp_created_at q = pp_created_at p \<and> pp_deadline q = pp_deadline p
     \<and> pp_membership_revision q = pp_membership_revision p \<and> pp_membership_hash q = pp_membership_hash p
     \<and> pp_binding_index q = pp_binding_index p \<and> pp_eligible_voters q = pp_eligible_voters p"

lemma submitted_sel [simp]:
  "ge_council_id (submitted L e i p) = ge_council_id e" "ge_rules (submitted L e i p) = ge_rules e"
  "ge_members (submitted L e i p) = ge_members e"
  "ge_membership_history (submitted L e i p) = ge_membership_history e"
  "ge_constitution (submitted L e i p) = ge_constitution e" "ge_agenda (submitted L e i p) = ge_agenda e"
  "ge_proposals (submitted L e i p) = bm_insert i p (ge_proposals e)"
  by (simp_all add: submitted_def)

lemma proposal_ok_log_grows:
  "proposal_ok L e i p \<Longrightarrow> ge_proposal_log e' = ge_proposal_log e @ bs \<Longrightarrow> ge_council_id e' = ge_council_id e \<Longrightarrow>
   ge_rules e' = ge_rules e \<Longrightarrow> ge_membership_history e' = ge_membership_history e \<Longrightarrow> proposal_ok L e' i p"
  by (simp add: proposal_ok_def nth_append)

lemma open_after_insert:
  assumes "bm_get (ge_proposals e) i = None" "ge_proposals e' = bm_insert i p (ge_proposals e)"
  shows "open_proposals e' \<le> open_proposals e + 1"
proof -
  have "{k. \<exists>q. bm_get (ge_proposals e') k = Some q \<and> pp_status q = GS_Open}
      \<subseteq> insert i {k. \<exists>q. bm_get (ge_proposals e) k = Some q \<and> pp_status q = GS_Open}"
    by (auto simp: assms(2) split: if_splits)
  then have "open_proposals e' \<le> card (insert i {k. \<exists>q. bm_get (ge_proposals e) k = Some q \<and> pp_status q = GS_Open})"
    unfolding open_proposals_card by (intro card_mono) (simp_all add: finite_filter_values)
  also have "\<dots> \<le> open_proposals e + 1"
    unfolding open_proposals_card by (simp add: card_insert_if finite_filter_values)
  finally show ?thesis .
qed

lemma submit_inv:
  assumes inv: "gov_inv L e" and sub: "submit L e i proposer d t0 t1 = Inr (p, e')"
  shows "gov_inv L e'"
proof -
  let ?log = "ge_proposal_log e" and ?h = "ge_membership_history e"
  have mem: "membership_ok L e" and log: "log_ok L e" using inv by (simp_all add: gov_inv_def)
  note r = submit_result[OF mem log, of i proposer d t0 t1 p e', THEN iffD1, OF sub]
  then obtain h where h: "document_content_hash L d = Inr h"
    "p = new_proposal e i proposer d h t0 t1 (last ?h) (length ?log)" and e': "e' = submitted L e i p"
    and none: "bm_get (ge_proposals e) i = None" by blast
  have ne: "?h \<noteq> []" and last: "ms_members (last ?h) = bs_elems (ge_members e)"
    using mem by (simp_all add: membership_ok_def)
  have rev: "ms_revision (last ?h) = length ?h - 1" using membership_last[OF mem] by (simp add: snapshot_ok_def)
  have nth: "?h ! (length ?h - 1) = last ?h" using ne by (simp add: last_conv_nth)
  have len: "length ?log = bm_len (ge_proposals e)" using log by (simp add: log_ok_def)
  have grows: "ge_proposal_log e' = ?log @ [ProposalMembershipBinding_new L (ge_council_id e) (length ?log)
            (chain_parent mb_hash ?log (length ?log)) i (last ?h)]"
    unfolding e' by (simp add: submitted_def)
  have "binding_ok L e' j" if "binding_ok L e j" "j < length ?log" for j
  proof -
    have "mb_proposal_id (?log ! j) \<noteq> i" using that(1) none by (auto simp: binding_ok_def Let_def)
    then show ?thesis
      using that unfolding binding_ok_def grows by (auto simp: Let_def nth_append e')
  qed
  moreover have "binding_ok L e' (length ?log)"
    using ne unfolding binding_ok_def grows
    by (simp add: e' ProposalMembershipBinding_new_def h(2) new_proposal_def rev nth[simplified])
  moreover have "length (ge_proposal_log e') = Suc (length ?log)" "length (ge_proposal_log e') = bm_len (ge_proposals e')"
    "length (ge_proposal_log e') \<le> MAX_PROPOSALS"
    using r len none unfolding grows by (simp_all add: e')
  ultimately have "log_ok L e'"
    using log len unfolding log_ok_def by (metis less_Suc_eq)
  moreover have "proposal_ok L e' i p"
    using r ne last h(1) unfolding proposal_ok_def grows
    by (simp add: e' h(2) new_proposal_def ProposalMembershipBinding_new_def rev nth[simplified])
  moreover have "proposal_ok L e' k q" if "proposal_ok L e k q" for k q
    using proposal_ok_log_grows[OF that grows] by (simp add: e')
  moreover have "open_proposals e' \<le> MAX_OPEN_PROPOSALS"
    using open_after_insert[OF none, of e' p] r by (simp add: e')
  moreover have "head_ok e' k q" if "head_ok e k q" for k q
    using that none by (auto simp: head_ok_def e')
  ultimately show ?thesis
    using inv by (auto simp: gov_inv_def membership_ok_def heads_ok_def e')
qed

subsection \<open>Changes of one proposal\<close>

lemma put_proposal_sel [simp]:
  "ge_council_id (put_proposal i p e) = ge_council_id e" "ge_rules (put_proposal i p e) = ge_rules e"
  "ge_members (put_proposal i p e) = ge_members e"
  "ge_membership_history (put_proposal i p e) = ge_membership_history e"
  "ge_proposal_log (put_proposal i p e) = ge_proposal_log e"
  "ge_constitution (put_proposal i p e) = ge_constitution e" "ge_agenda (put_proposal i p e) = ge_agenda e"
  "ge_proposals (put_proposal i p e) = bm_insert i p (ge_proposals e)"
  by (simp_all add: put_proposal_def)

lemma same_core_refl [simp]: "same_core p p"
  by (simp add: same_core_def)

lemma same_core_updates [simp]:
  "same_core p (p\<lparr>pp_arguments := a\<rparr>)" "same_core p (p\<lparr>pp_amendments := b\<rparr>)"
  "same_core p (p\<lparr>pp_votes := v\<rparr>)" "same_core p (p\<lparr>pp_status := st\<rparr>)"
  by (simp_all add: same_core_def)

lemma open_after_put:
  assumes "bm_get (ge_proposals e) i = Some p" "pp_status q = GS_Open \<Longrightarrow> pp_status p = GS_Open"
  shows "open_proposals (put_proposal i q e) \<le> open_proposals e"
  unfolding open_proposals_card using assms
  by (intro card_mono) (auto simp: finite_filter_values split: if_splits)

text \<open>Replacing a proposal by one with the same core keeps the invariant, whatever the heads are.\<close>

lemma put_inv:
  assumes inv: "gov_inv L e" and p: "bm_get (ge_proposals e) i = Some p" and core: "same_core p q"
    and q: "proposal_ok L e i q" and opens: "pp_status q = GS_Open \<Longrightarrow> pp_status p = GS_Open"
    and heads: "heads_ok (put_proposal i q (e\<lparr>ge_constitution := c, ge_agenda := a\<rparr>))"
  shows "gov_inv L (put_proposal i q (e\<lparr>ge_constitution := c, ge_agenda := a\<rparr>))" (is "gov_inv L ?e")
proof -
  have log: "log_ok L e" and mem: "membership_ok L e" using inv by (simp_all add: gov_inv_def)
  have "binding_ok L ?e j" if "binding_ok L e j" for j
    using that p core by (auto simp: binding_ok_def Let_def same_core_def)
  then have "log_ok L ?e" using log p by (simp add: log_ok_def)
  moreover have "membership_ok L ?e" using mem by (simp add: membership_ok_def)
  moreover have "proposal_ok L ?e k r \<longleftrightarrow> proposal_ok L e k r" for k r by (simp add: proposal_ok_def)
  moreover have "open_proposals ?e \<le> open_proposals e"
    using open_after_put[of "e\<lparr>ge_constitution := c, ge_agenda := a\<rparr>" i p q] p opens
    by (simp add: open_proposals_def)
  ultimately show ?thesis using inv q heads by (auto simp: gov_inv_def)
qed

lemma put_inv_same_heads:
  assumes inv: "gov_inv L e" and p: "bm_get (ge_proposals e) i = Some p" and core: "same_core p q"
    and q: "proposal_ok L e i q" and st: "pp_status q = pp_status p"
  shows "gov_inv L (put_proposal i q e)"
proof -
  have "head_ok (put_proposal i q e) k h" if "head_ok e k h" for k h
    using that p core st by (auto simp: head_ok_def same_core_def)
  then have "heads_ok (put_proposal i q e)" using inv by (simp add: gov_inv_def heads_ok_def)
  then show ?thesis
    using put_inv[OF inv p core q, where c = "ge_constitution e" and a = "ge_agenda e"] st by simp
qed

lemma open_proposal_ok:
  "open_proposal e i actor now = Inr p \<longleftrightarrow>
     bm_get (ge_proposals e) i = Some p \<and> pp_status p = GS_Open \<and> pp_created_at p \<le> now
     \<and> now < pp_deadline p \<and> bs_member (pp_eligible_voters p) actor"
proof (cases "bm_get (ge_proposals e) i")
  case (Some q)
  then show ?thesis by (cases "q = p") (auto simp: open_proposal_def)
qed (simp add: open_proposal_def)

lemma inv_proposal: "gov_inv L e \<Longrightarrow> bm_get (ge_proposals e) i = Some p \<Longrightarrow> proposal_ok L e i p"
  by (simp add: gov_inv_def)

lemma window_updates [simp]:
  "check_argument (p\<lparr>pp_arguments := x\<rparr>) a = check_argument p a"
  "check_argument (p\<lparr>pp_amendments := y\<rparr>) a = check_argument p a"
  "check_argument (p\<lparr>pp_votes := z\<rparr>) a = check_argument p a"
  "check_argument (p\<lparr>pp_status := st\<rparr>) a = check_argument p a"
  "check_amendment (p\<lparr>pp_arguments := x\<rparr>) b = check_amendment p b"
  "check_amendment (p\<lparr>pp_amendments := y\<rparr>) b = check_amendment p b"
  "check_amendment (p\<lparr>pp_votes := z\<rparr>) b = check_amendment p b"
  "check_amendment (p\<lparr>pp_status := st\<rparr>) b = check_amendment p b"
  "vote_in_window (p\<lparr>pp_arguments := x\<rparr>) v = vote_in_window p v"
  "vote_in_window (p\<lparr>pp_amendments := y\<rparr>) v = vote_in_window p v"
  "vote_in_window (p\<lparr>pp_votes := z\<rparr>) v = vote_in_window p v"
  "vote_in_window (p\<lparr>pp_status := st\<rparr>) v = vote_in_window p v"
  by (simp_all add: check_argument_def check_amendment_def in_window_def vote_in_window_def)

lemma carried_updates [simp]:
  "carried r (p\<lparr>pp_arguments := x\<rparr>) = carried r p" "carried r (p\<lparr>pp_amendments := y\<rparr>) = carried r p"
  "carried r (p\<lparr>pp_status := st\<rparr>) = carried r p"
  by (simp_all add: carried_def tally_of_def)

lemma argument_inv:
  assumes inv: "gov_inv L e" and op: "add_argument e i author position text now = Inr e'"
  shows "gov_inv L e'"
proof -
  from op obtain p where p: "open_proposal e i author now = Inr p" "length (pp_arguments p) < MAX_ARGUMENTS"
    and body: "gov_validate_text text GOV_MAX_TEXT_BYTES ''argument'' False = Inr ()"
    and e': "e' = put_proposal i (p\<lparr>pp_arguments := pp_arguments p
              @ [\<lparr>ar_author = author, ar_position = position, ar_text = text, ar_submitted_at = now\<rparr>]\<rparr>) e"
    by (auto simp: add_argument_def not_le split: if_splits)
  then have g: "bm_get (ge_proposals e) i = Some p" by (simp add: open_proposal_ok)
  show ?thesis unfolding e'
    by (rule put_inv_same_heads[OF inv g])
      (use inv_proposal[OF inv g] p body in
        \<open>auto simp: proposal_ok_def open_proposal_ok check_argument_def in_window_def run_checks.simps(1)\<close>)
qed

lemma amendment_inv:
  assumes inv: "gov_inv L e" and op: "suggest_amendment e i author text now = Inr e'"
  shows "gov_inv L e'"
proof -
  from op obtain p where p: "open_proposal e i author now = Inr p" "length (pp_amendments p) < MAX_AMENDMENTS"
    and body: "gov_validate_text text GOV_MAX_TEXT_BYTES ''amendment'' False = Inr ()"
    and e': "e' = put_proposal i (p\<lparr>pp_amendments := pp_amendments p
              @ [\<lparr>am_author = author, am_text = text, am_submitted_at = now\<rparr>]\<rparr>) e"
    by (auto simp: suggest_amendment_def not_le split: if_splits)
  then have g: "bm_get (ge_proposals e) i = Some p" by (simp add: open_proposal_ok)
  show ?thesis unfolding e'
    by (rule put_inv_same_heads[OF inv g])
      (use inv_proposal[OF inv g] p body in
        \<open>auto simp: proposal_ok_def open_proposal_ok check_amendment_def in_window_def run_checks.simps(1)\<close>)
qed

lemma cast_vote_result:
  "cast_vote e i voter choice now = Inr (r, e') \<longleftrightarrow>
     (\<exists>p. open_proposal e i voter now = Inr p
        \<and> vo_revision r = (case bm_get (pp_votes p) voter of None \<Rightarrow> 0 | Some v \<Rightarrow> vr_revision v + 1)
        \<and> vo_revision r \<le> u32_max \<and> vo_replaced r = (bm_get (pp_votes p) voter \<noteq> None)
        \<and> e' = put_proposal i (p\<lparr>pp_votes := bm_insert voter
             \<lparr>vr_choice = choice, vr_cast_at = now, vr_revision = vo_revision r\<rparr> (pp_votes p)\<rparr>) e)"
proof -
  have "and_then (case bm_get (pp_votes p) voter of
                 None \<Rightarrow> Inr 0
               | Some r \<Rightarrow> ok_or (GE_LimitExceeded ''vote revisions'') (checked_add u32_max (vr_revision r) 1))
       (\<lambda>revision.
         Inr (\<lparr>vo_replaced = (bm_get (pp_votes p) voter \<noteq> None), vo_revision = revision\<rparr>,
              put_proposal i (p\<lparr>pp_votes := bm_insert voter
                 \<lparr>vr_choice = choice, vr_cast_at = now, vr_revision = revision\<rparr> (pp_votes p)\<rparr>) e)) = Inr (r, e')
    \<longleftrightarrow> vo_revision r = (case bm_get (pp_votes p) voter of None \<Rightarrow> 0 | Some v \<Rightarrow> vr_revision v + 1)
        \<and> vo_revision r \<le> u32_max \<and> vo_replaced r = (bm_get (pp_votes p) voter \<noteq> None)
        \<and> e' = put_proposal i (p\<lparr>pp_votes := bm_insert voter
             \<lparr>vr_choice = choice, vr_cast_at = now, vr_revision = vo_revision r\<rparr> (pp_votes p)\<rparr>) e" for p
    by (cases r; cases "bm_get (pp_votes p) voter") auto
  then show ?thesis unfolding cast_vote_def Let_def and_then_eq_Inr by blast
qed

lemma vote_inv:
  assumes inv: "gov_inv L e" and op: "cast_vote e i voter choice now = Inr (r, e')"
  shows "gov_inv L e'"
proof -
  from op obtain p where p: "open_proposal e i voter now = Inr p"
    and e': "e' = put_proposal i (p\<lparr>pp_votes := bm_insert voter
             \<lparr>vr_choice = choice, vr_cast_at = now, vr_revision = vo_revision r\<rparr> (pp_votes p)\<rparr>) e"
    unfolding cast_vote_result by blast
  then have g: "bm_get (ge_proposals e) i = Some p" by (simp add: open_proposal_ok)
  show ?thesis unfolding e'
    by (rule put_inv_same_heads[OF inv g])
      (use inv_proposal[OF inv g] p in \<open>auto simp: proposal_ok_def open_proposal_ok vote_in_window_def\<close>)
qed

subsection \<open>Finalization\<close>

lemma inv_membership_valid:
  assumes inv: "gov_inv L e" and p: "bm_get (ge_proposals e) i = Some p"
  shows "proposal_membership_is_valid e p"
proof -
  have ok: "proposal_ok L e i p" using inv p by (rule inv_proposal)
  then have "binding_ok L e (pp_binding_index p)" using inv by (simp add: gov_inv_def log_ok_def proposal_ok_def)
  then have b: "mb_index (ge_proposal_log e ! pp_binding_index p) = pp_binding_index p"
    "mb_membership_revision (ge_proposal_log e ! pp_binding_index p) = pp_membership_revision p"
    "mb_membership_hash (ge_proposal_log e ! pp_binding_index p) = pp_membership_hash p"
    "ms_hash (ge_membership_history e ! pp_membership_revision p) = pp_membership_hash p"
    using ok p by (auto simp: binding_ok_def Let_def proposal_ok_def)
  have "ms_revision (ge_membership_history e ! pp_membership_revision p) = pp_membership_revision p"
    using ok inv by (simp add: proposal_ok_def gov_inv_def membership_ok_def chain_ok_def snapshot_ok_def)
  moreover have "list_all (bs_member (pp_eligible_voters p)) (bs_elems (pp_eligible_voters p))"
    by (simp add: list_all_iff bs_elems_set)
  ultimately show ?thesis
    using ok b by (simp add: proposal_membership_is_valid_def get_at_def proposal_ok_def bs_len_elems)
qed

lemma inv_chains_valid:
  assumes "sha_hex L" "gov_inv L e"
  shows "validate_membership_history L e = Inr ()" "validate_proposal_log L e = Inr ()"
proof -
  have "\<forall>m\<in>set (bs_elems (ge_members e)). bs_member (ge_members e) m" by (simp add: bs_elems_set)
  then show "validate_membership_history L e = Inr ()"
    using assms(2) by (simp add: validate_history_iff[OF assms(1)] gov_inv_def membership_ok_def bs_len_elems)
  show "validate_proposal_log L e = Inr ()"
    using assms(2) by (simp add: validate_log_iff gov_inv_def log_ok_def)
qed

lemma inv_votes_in_window:
  "gov_inv L e \<Longrightarrow> bm_get (ge_proposals e) i = Some p \<Longrightarrow> \<forall>x\<in>set (bm_entries (pp_votes p)). vote_in_window p x"
  by (drule (1) inv_proposal) (simp add: proposal_ok_def bm_entries_all_iff)

definition finalization_of :: "gov_engine \<Rightarrow> proposal \<Rightarrow> finalization" where
  "finalization_of e p = \<lparr>fz_status = outcome_of e p, fz_tally = tally_of p,
     fz_quorum_needed = ceil_bps (bs_len (pp_eligible_voters p)) (gr_quorum_bps (ge_rules e)),
     fz_threshold_bps = threshold_for e p\<rparr>"

definition finalized :: "gov_engine \<Rightarrow> proposal_id \<Rightarrow> proposal \<Rightarrow> gov_engine" where
  "finalized e i p = put_proposal i (p\<lparr>pp_status := outcome_of e p\<rparr>)
     (if outcome_of e p = GS_Ratified then move_head i p (pp_document p) e else e)"

lemma finalize_result:
  assumes "sha_hex L" "gov_inv L e"
  shows "finalize L e i now = Inr (f, e') \<longleftrightarrow>
     (\<exists>p. bm_get (ge_proposals e) i = Some p \<and> pp_status p = GS_Open \<and> pp_deadline p \<le> now
        \<and> f = finalization_of e p \<and> e' = finalized e i p)"
proof -
  have ev: "\<not> (\<not> is_ok (validate_membership_history L e) \<or> \<not> is_ok (validate_proposal_log L e)
                   \<or> \<not> proposal_membership_is_valid e p
                   \<or> \<not> list_all (vote_in_window p) (bm_entries (pp_votes p)))"
    if "bm_get (ge_proposals e) i = Some p" for p
    using inv_chains_valid[OF assms] inv_membership_valid[OF assms(2) that] inv_votes_in_window[OF assms(2) that]
    by (simp add: list_all_iff)
  show ?thesis
  proof (cases "bm_get (ge_proposals e) i")
    case None
    then show ?thesis by (simp add: finalize_def)
  next
    case (Some p)
    show ?thesis
      unfolding finalize_def Some ok_or_simps and_then_simps and_then_eq_Inr run_checks_Cons_ok run_checks.simps(1)
        ensure_eq_Inr finalization_of_def finalized_def Let_def using ev[OF Some] by auto
  qed
qed

lemma outcome_ratified: "outcome_of e p = GS_Ratified \<longleftrightarrow> \<not> has_parent_conflict e (pp_document p) \<and> carried (ge_rules e) p"
  by (auto simp: outcome_of_def carried_def threshold_for_def Let_def not_less)

lemma outcome_not_open: "outcome_of e p \<noteq> GS_Open"
  by (simp add: outcome_of_def Let_def)

lemma move_head_heads:
  "move_head i p d e = e\<lparr>ge_constitution := ge_constitution (move_head i p d e), ge_agenda := ge_agenda (move_head i p d e)\<rparr>"
  by (cases d) simp_all

lemma finalized_inv:
  assumes inv: "gov_inv L e" and p: "bm_get (ge_proposals e) i = Some p" "pp_status p = GS_Open"
  shows "gov_inv L (finalized e i p)"
proof -
  let ?st = "outcome_of e p" and ?q = "p\<lparr>pp_status := outcome_of e p\<rparr>"
  let ?e1 = "if ?st = GS_Ratified then move_head i p (pp_document p) e else e"
  have ok: "proposal_ok L e i p" using inv p(1) by (rule inv_proposal)
  have q: "proposal_ok L e i ?q" using ok by (auto simp: proposal_ok_def outcome_ratified)
  have e1: "?e1 = e\<lparr>ge_constitution := ge_constitution ?e1, ge_agenda := ge_agenda ?e1\<rparr>"
    using move_head_heads[of i p "pp_document p" e] by simp
  have old: "head_ok (put_proposal i ?q ?e1) k h" if h: "head_ok e k h" for k h
  proof -
    have "dh_proposal_id h \<noteq> i" using h p by (auto simp: head_ok_def)
    moreover have "ge_proposals ?e1 = ge_proposals e" by (cases "pp_document p") simp_all
    ultimately show ?thesis using h by (simp add: head_ok_def)
  qed
  have "heads_ok (put_proposal i ?q ?e1)"
  proof (cases "?st = GS_Ratified")
    case False
    then show ?thesis using old inv by (simp add: gov_inv_def heads_ok_def)
  next
    case True
    have new: "ge_proposals (move_head i p (pp_document p) e) = ge_proposals e" by (cases "pp_document p") simp_all
    show ?thesis
    proof (cases "pp_document p")
      case (GD_Constitution c)
      then show ?thesis using old inv True by (auto simp: gov_inv_def heads_ok_def) (auto simp: head_ok_def)
    next
      case (GD_Agenda a)
      then show ?thesis using old inv True by (auto simp: gov_inv_def heads_ok_def) (auto simp: head_ok_def)
    qed (use old inv True in \<open>simp_all add: gov_inv_def heads_ok_def\<close>)
  qed
  then show ?thesis
    unfolding finalized_def
    using put_inv[OF inv p(1) _ q, where c = "ge_constitution ?e1" and a = "ge_agenda ?e1"] outcome_not_open e1
    by simp
qed

lemma gov_step_inv:
  assumes "sha_hex L" "gov_inv L e" "gov_step L e e'"
  shows "gov_inv L e'"
proof -
  have mem: "membership_ok L e" using assms(2) by (simp add: gov_inv_def)
  note b = members_bounded[OF mem]
  from assms(3) show ?thesis
  proof cases
    case (step_add_member member b)
    then show ?thesis using with_membership_inv[OF assms(2)] assms(2)
      by (auto simp: add_member_result[OF mem] split: if_splits)
  next
    case (step_remove_member member b)
    then show ?thesis using with_membership_inv[OF assms(2), of "bs_remove member (ge_members e)"] assms(2) \<open>0 < _ \<and> _\<close>
      by (auto simp: remove_member_result[OF mem] split: if_splits)
  next
    case (step_finalize i now f)
    then show ?thesis using finalized_inv[OF assms(2)] by (auto simp: finalize_result[OF assms(1,2)])
  next
    case step_submit
    then show ?thesis by (rule submit_inv[OF assms(2)])
  next
    case step_argument
    then show ?thesis by (rule argument_inv[OF assms(2)])
  next
    case step_amendment
    then show ?thesis by (rule amendment_inv[OF assms(2)])
  next
    case step_vote
    then show ?thesis by (rule vote_inv[OF assms(2)])
  qed
qed

lemma gov_reachable_inv:
  assumes "sha_hex L" "gov_reachable L e"
  shows "gov_inv L e"
proof -
  obtain council rules ids e0 where s: "GovernanceEngine_new L council rules ids = Inr e0" "(gov_step L)\<^sup>*\<^sup>* e0 e"
    using assms(2) unfolding gov_reachable_def by blast
  from s(2) show ?thesis
    by (induction rule: rtranclp_induct) (use initial_inv[OF s(1)] gov_step_inv[OF assms(1)] in blast)+
qed

subsection \<open>Reloading\<close>

lemma inv_evidence:
  assumes inv: "gov_inv L e" and p: "bm_get (ge_proposals e) i = Some p"
  shows "has_valid_ratification_evidence L e p \<longleftrightarrow> carried (ge_rules e) p"
proof -
  have "list_ex (\<lambda>v. \<not> vote_in_window p v) (bm_entries (pp_votes p)) = False"
    using inv_votes_in_window[OF assms] by (simp add: list_ex_iff)
  moreover have "is_ok (validate_rules (ge_rules e))" using inv by (simp add: gov_inv_def)
  moreover have "document_content_hash L (pp_document p) = Inr (pp_document_hash p)"
    using inv_proposal[OF assms] by (simp add: proposal_ok_def)
  ultimately show ?thesis
    using inv_membership_valid[OF assms]
    by (simp add: has_valid_ratification_evidence_def carried_def threshold_for_def Let_def)
qed

lemma votes_bounded:
  assumes "gov_inv L e" "bm_get (ge_proposals e) i = Some p"
  shows "bm_len (pp_votes p) \<le> bs_len (pp_eligible_voters p)"
proof -
  have "{v. bm_get (pp_votes p) v \<noteq> None} \<subseteq> {v. bm_get (pp_eligible_voters p) v \<noteq> None}"
    using inv_proposal[OF assms] by (auto simp: proposal_ok_def vote_in_window_def bs_member_def)
  then show ?thesis unfolding bs_len_def bm_len_card by (intro card_mono finite_bm_dom)
qed

lemma inv_eligible:
  assumes inv: "gov_inv L e" and p: "bm_get (ge_proposals e) i = Some p"
  shows "0 < bs_len (pp_eligible_voters p)" "bs_len (pp_eligible_voters p) \<le> MAX_MEMBERS"
    "set (ms_members (ge_membership_history e ! pp_membership_revision p)) = {m. bs_member (pp_eligible_voters p) m}"
  using inv_proposal[OF assms] inv
  by (auto simp: proposal_ok_def gov_inv_def membership_ok_def chain_ok_def snapshot_ok_def bs_len_elems bs_elems_set)
    (metis bs_elems_set mem_Collect_eq)+

lemma check_proposal_inv:
  assumes inv: "gov_inv L e" and p: "bm_get (ge_proposals e) i = Some p"
  shows "check_proposal L e now (i, p) = Inr () \<longleftrightarrow> (pp_status p \<noteq> GS_Open \<longrightarrow> pp_deadline p \<le> now)"
proof -
  have ok: "proposal_ok L e i p" using assms by (rule inv_proposal)
  then have valid: "validate_document L (pp_document p) = Inr ()"
    by (auto simp: proposal_ok_def document_content_hash_ok)
  have "check_vote p x = Inr ()" if "x \<in> set (bm_entries (pp_votes p))" for x
    using inv_votes_in_window[OF assms] that by (auto simp: check_vote_def in_window_def vote_in_window_def)
  then show ?thesis
    using ok valid inv_membership_valid[OF assms] inv_evidence[OF assms] votes_bounded[OF assms] inv_eligible[OF assms]
    by (auto simp: check_proposal_def Let_def run_checks.simps(1) proposal_ok_def not_less)
qed

lemma inv_heads_load:
  assumes "sha_hex L" "gov_inv L e"
  shows "validate_loaded_head e (ge_constitution e) GK_Constitution = Inr ()"
    "validate_loaded_head e (ge_agenda e) GK_Agenda = Inr ()"
proof -
  have ok: "validate_loaded_head e (Some h) k = Inr ()" if h: "head_ok e k h" for h k
  proof -
    obtain p where p: "bm_get (ge_proposals e) (dh_proposal_id h) = Some p" "pp_document_hash p = dh_hash h"
      using h by (auto simp: head_ok_def)
    then have "gov_validate_hash (dh_hash h) = Inr ()"
      using document_hash_valid[OF assms(1)] inv_proposal[OF assms(2) p(1)] by (metis proposal_ok_def)
    then show ?thesis
      using h p by (cases "pp_document p") (auto simp: validate_loaded_head_def head_ok_def)
  qed
  have none: "validate_loaded_head e None k = Inr ()" for k by (simp add: validate_loaded_head_def)
  have heads: "heads_ok e" using assms(2) by (simp add: gov_inv_def)
  show "validate_loaded_head e (ge_constitution e) GK_Constitution = Inr ()"
    using heads ok none by (cases "ge_constitution e") (simp_all add: heads_ok_def)
  show "validate_loaded_head e (ge_agenda e) GK_Agenda = Inr ()"
    using heads ok none by (cases "ge_agenda e") (simp_all add: heads_ok_def)
qed

lemma reload_iff:
  assumes "sha_hex L" "gov_inv L e"
  shows "gov_validate_loaded_state L e now = Inr () \<longleftrightarrow>
    0 \<le> now \<and> (\<forall>i p. bm_get (ge_proposals e) i = Some p \<longrightarrow> pp_status p \<noteq> GS_Open \<longrightarrow> pp_deadline p \<le> now)"
proof -
  have mem: "membership_ok L e" and log: "log_ok L e" using assms(2) by (simp_all add: gov_inv_def)
  have all: "(\<forall>x\<in>set (bm_entries (ge_proposals e)). check_proposal L e now x = Inr ()) \<longleftrightarrow>
      (\<forall>i p. bm_get (ge_proposals e) i = Some p \<longrightarrow> pp_status p \<noteq> GS_Open \<longrightarrow> pp_deadline p \<le> now)"
    unfolding bm_entries_all_iff using check_proposal_inv[OF assms(2)] by blast
  have rest: "validate_rules (ge_rules e) = Inr (ge_rules e)" "\<not> MAX_OPEN_PROPOSALS < open_proposals e"
    using assms(2) by (simp_all add: gov_inv_def not_less)
  have bounds: "\<not> (bs_len (ge_members e) = 0 \<or> bs_len (ge_members e) > MAX_MEMBERS
                 \<or> ge_membership_history e = [] \<or> length (ge_membership_history e) > MAX_MEMBERSHIP_SNAPSHOTS
                 \<or> length (ge_proposal_log e) > MAX_PROPOSALS \<or> bm_len (ge_proposals e) > MAX_PROPOSALS)"
    using members_bounded[OF mem] mem log by (simp add: membership_ok_def log_ok_def)
  show ?thesis
    unfolding gov_validate_loaded_state_def rest(1) and_then_eq_Inr and_then_simps run_checks_Cons_ok
      run_checks_append_ok run_checks_map_ok all ensure_eq_Inr run_checks.simps(1)
      inv_chains_valid[OF assms] inv_heads_load[OF assms]
    using rest(2) bounds by (simp add: not_less)
qed

end
