(* ===== verification/Governance_Assembly.thy ===== *)
theory Governance_Assembly
  imports Governance_Invariant
begin

section \<open>What governance promises\<close>

text \<open>
  The abstract assembly: a set of members, ballots with an electorate and one standing choice per
  voter, and the heads of the two document chains.  It knows no hash chains, no evidence checks,
  no vote revisions and no limits.  The engine implements it: every step of a reachable engine is
  a step of the assembly or leaves it as it is.  Properties of the assembly, such as that ratified
  constitutions form one linear chain, then hold of the engine.
\<close>

record ballot =
  bl_document :: governance_document
  bl_hash :: string
  bl_opens :: int
  bl_closes :: int
  bl_electorate :: "cthulhu_id set"
  bl_votes :: "cthulhu_id \<Rightarrow> vote_choice option"
  bl_status :: proposal_status

record assembly =
  sm_members :: "cthulhu_id set"
  sm_ballots :: "proposal_id \<Rightarrow> ballot option"
  sm_constitution :: "(nat \<times> string) option"
  sm_agenda :: "(nat \<times> string) option"

subsection \<open>The rules of the assembly\<close>

fun follows :: "(nat \<times> string) option \<Rightarrow> nat \<Rightarrow> string option \<Rightarrow> bool" where
  "follows None version parent \<longleftrightarrow> version = 1 \<and> parent = None"
| "follows (Some (v, h)) version parent \<longleftrightarrow> version = v + 1 \<and> version \<le> u64_max \<and> parent = Some h"

fun fits :: "assembly \<Rightarrow> governance_document \<Rightarrow> bool" where
  "fits s (GD_Constitution c) \<longleftrightarrow> follows (sm_constitution s) (con_version c) (con_parent_hash c)"
| "fits s (GD_Agenda a) \<longleftrightarrow> follows (sm_agenda s) (ag_version a) (ag_parent_hash a)"
| "fits s (GD_Strategy d) \<longleftrightarrow> map_option snd (sm_agenda s) = Some (st_agenda_hash d)"
| "fits s (GD_Action d) \<longleftrightarrow> ad_agenda_hash d = None \<or> map_option snd (sm_agenda s) = ad_agenda_hash d"

definition choices :: "ballot \<Rightarrow> vote_choice \<Rightarrow> nat" where
  "choices b c = card {v. bl_votes b v = Some c}"

definition threshold_bps :: "governance_rules \<Rightarrow> governance_document \<Rightarrow> nat" where
  "threshold_bps r d =
     (if document_kind_of d = GK_Constitution then gr_constitution_approval_bps r else gr_approval_bps r)"

text \<open>Quorum over the electorate, approval over the votes that take a side.\<close>

definition passes :: "governance_rules \<Rightarrow> ballot \<Rightarrow> bool" where
  "passes r b \<longleftrightarrow>
     card (bl_electorate b) * gr_quorum_bps r \<le> card (dom (bl_votes b)) * 10000
     \<and> 0 < choices b VC_Support + choices b VC_Oppose
     \<and> (choices b VC_Support + choices b VC_Oppose) * threshold_bps r (bl_document b) \<le> choices b VC_Support * 10000"

definition verdict :: "governance_rules \<Rightarrow> assembly \<Rightarrow> ballot \<Rightarrow> proposal_status" where
  "verdict r s b =
     (if \<not> fits s (bl_document b) then GS_ParentConflict
      else if card (dom (bl_votes b)) * 10000 < card (bl_electorate b) * gr_quorum_bps r then GS_Expired
      else if passes r b then GS_Ratified else GS_Rejected)"

definition cast :: "ballot \<Rightarrow> cthulhu_id \<Rightarrow> vote_choice \<Rightarrow> ballot" where
  "cast b v c = b\<lparr>bl_votes := (bl_votes b)(v \<mapsto> c)\<rparr>"

fun enact :: "governance_document \<Rightarrow> string \<Rightarrow> assembly \<Rightarrow> assembly" where
  "enact (GD_Constitution c) h s = s\<lparr>sm_constitution := Some (con_version c, h)\<rparr>"
| "enact (GD_Agenda a) h s = s\<lparr>sm_agenda := Some (ag_version a, h)\<rparr>"
| "enact (GD_Strategy d) h s = s"
| "enact (GD_Action d) h s = s"

inductive assembly_step :: "gov_libs \<Rightarrow> governance_rules \<Rightarrow> assembly \<Rightarrow> assembly \<Rightarrow> bool" for L r where
  join: "m \<notin> sm_members s \<Longrightarrow> assembly_step L r s (s\<lparr>sm_members := insert m (sm_members s)\<rparr>)"
| leave: "m \<in> sm_members s \<Longrightarrow> sm_members s \<noteq> {m} \<Longrightarrow>
    assembly_step L r s (s\<lparr>sm_members := sm_members s - {m}\<rparr>)"
| open_ballot: "sm_ballots s i = None \<Longrightarrow> proposer \<in> sm_members s \<Longrightarrow> fits s d \<Longrightarrow>
    document_content_hash L d = Inr h \<Longrightarrow> 0 \<le> t0 \<Longrightarrow> t0 < t1 \<Longrightarrow> t1 - t0 \<le> gr_max_lifetime r \<Longrightarrow>
    assembly_step L r s (s\<lparr>sm_ballots := (sm_ballots s)(i \<mapsto>
      \<lparr>bl_document = d, bl_hash = h, bl_opens = t0, bl_closes = t1, bl_electorate = sm_members s,
       bl_votes = Map.empty, bl_status = GS_Open\<rparr>)\<rparr>)"
| cast_ballot: "sm_ballots s i = Some b \<Longrightarrow> bl_status b = GS_Open \<Longrightarrow> bl_opens b \<le> now \<Longrightarrow> now < bl_closes b \<Longrightarrow>
    v \<in> bl_electorate b \<Longrightarrow>
    assembly_step L r s (s\<lparr>sm_ballots := (sm_ballots s)(i \<mapsto> cast b v c)\<rparr>)"
| close_ballot: "sm_ballots s i = Some b \<Longrightarrow> bl_status b = GS_Open \<Longrightarrow> bl_closes b \<le> now \<Longrightarrow>
    assembly_step L r s
      ((if verdict r s b = GS_Ratified then enact (bl_document b) (bl_hash b) s else s)
         \<lparr>sm_ballots := (sm_ballots s)(i \<mapsto> b\<lparr>bl_status := verdict r s b\<rparr>)\<rparr>)"

definition new_assembly :: "cthulhu_id set \<Rightarrow> assembly" where
  "new_assembly ms = \<lparr>sm_members = ms, sm_ballots = Map.empty, sm_constitution = None, sm_agenda = None\<rparr>"

subsection \<open>The engine as an assembly\<close>

definition ballot_of :: "proposal \<Rightarrow> ballot" where
  "ballot_of p = \<lparr>bl_document = pp_document p, bl_hash = pp_document_hash p, bl_opens = pp_created_at p,
     bl_closes = pp_deadline p, bl_electorate = {m. bs_member (pp_eligible_voters p) m},
     bl_votes = (\<lambda>v. map_option vr_choice (bm_get (pp_votes p) v)), bl_status = pp_status p\<rparr>"

definition head_of :: "document_head \<Rightarrow> nat \<times> string" where
  "head_of h = (dh_version h, dh_hash h)"

definition assembly_of :: "gov_engine \<Rightarrow> assembly" where
  "assembly_of e = \<lparr>sm_members = {m. bs_member (ge_members e) m},
     sm_ballots = (\<lambda>i. map_option ballot_of (bm_get (ge_proposals e) i)),
     sm_constitution = map_option head_of (ge_constitution e), sm_agenda = map_option head_of (ge_agenda e)\<rparr>"

lemma assembly_of_sel [simp]:
  "sm_members (assembly_of e) = {m. bs_member (ge_members e) m}"
  "sm_ballots (assembly_of e) i = map_option ballot_of (bm_get (ge_proposals e) i)"
  "sm_constitution (assembly_of e) = map_option head_of (ge_constitution e)"
  "sm_agenda (assembly_of e) = map_option head_of (ge_agenda e)"
  by (simp_all add: assembly_of_def)

lemma ballot_of_sel [simp]:
  "bl_document (ballot_of p) = pp_document p" "bl_hash (ballot_of p) = pp_document_hash p"
  "bl_opens (ballot_of p) = pp_created_at p" "bl_closes (ballot_of p) = pp_deadline p"
  "bl_electorate (ballot_of p) = {m. bs_member (pp_eligible_voters p) m}" "bl_status (ballot_of p) = pp_status p"
  "bl_votes (ballot_of p) v = map_option vr_choice (bm_get (pp_votes p) v)"
  by (simp_all add: ballot_of_def)

lemma assembly_eqI:
  "sm_members s = sm_members t \<Longrightarrow> (\<And>i. sm_ballots s i = sm_ballots t i) \<Longrightarrow>
   sm_constitution s = sm_constitution t \<Longrightarrow> sm_agenda s = sm_agenda t \<Longrightarrow> s = (t :: assembly)"
  by (cases s; cases t) (simp add: fun_eq_iff)

lemma follows_lineage: "lineage_matches cur v par \<longleftrightarrow> follows (map_option head_of cur) v par"
  by (cases cur) (auto simp: lineage_matches_def head_of_def)

lemma agenda_hash: "map_option snd (map_option head_of cur) = map_option dh_hash cur"
  by (cases cur) (simp_all add: head_of_def)

lemma fits_lineage: "validate_document_lineage e d = Inr () \<longleftrightarrow> fits (assembly_of e) d"
  by (cases d) (auto simp: follows_lineage agenda_hash split: option.splits)

lemma fits_conflict: "has_parent_conflict e d \<longleftrightarrow> \<not> fits (assembly_of e) d"
  by (cases d) (auto simp: follows_lineage agenda_hash split: option.splits)

lemma card_members: "card {m. bs_member s m} = bs_len s"
  by (simp add: bs_elems_set[symmetric] distinct_card bs_len_elems)

lemma choices_of: "choices (ballot_of p) c = card (voters_for p c)"
  by (simp add: choices_def voters_for_def)

lemma voters_split: "dom (bl_votes (ballot_of p)) = voters_for p VC_Support \<union> voters_for p VC_Oppose \<union> voters_for p VC_Abstain"
proof -
  have "c = VC_Support \<or> c = VC_Oppose \<or> c = VC_Abstain" for c by (cases c) auto
  then show ?thesis by (auto simp: voters_for_def dom_def)
qed

lemma finite_voters [simp]: "finite (voters_for p c)"
  unfolding voters_for_def by (rule finite_filter_values)

lemma participating_card: "ta_participating (tally_of p) = card (dom (bl_votes (ballot_of p)))"
proof -
  have "voters_for p VC_Support \<inter> voters_for p VC_Oppose = {}"
    "(voters_for p VC_Support \<union> voters_for p VC_Oppose) \<inter> voters_for p VC_Abstain = {}"
    by (auto simp: voters_for_def)
  then show ?thesis by (simp add: tally_of_cards voters_split card_Un_disjoint)
qed

lemma carried_passes: "carried r p \<longleftrightarrow> passes r (ballot_of p)"
  by (auto simp: carried_def passes_def Let_def ceil_bps_le card_members participating_card
      tally_of_cards choices_of threshold_bps_def)

lemma outcome_verdict: "outcome_of e p = verdict (ge_rules e) (assembly_of e) (ballot_of p)"
proof -
  have "(ta_participating (tally_of p) < ceil_bps (bs_len (pp_eligible_voters p)) (gr_quorum_bps (ge_rules e)))
      \<longleftrightarrow> card (dom (bl_votes (ballot_of p))) * 10000 < bs_len (pp_eligible_voters p) * gr_quorum_bps (ge_rules e)"
    using ceil_bps_le[of "bs_len (pp_eligible_voters p)" "gr_quorum_bps (ge_rules e)" "ta_participating (tally_of p)"]
    by (simp add: participating_card not_le[symmetric])
  then show ?thesis
    by (auto simp: outcome_of_def verdict_def passes_def Let_def fits_conflict card_members threshold_for_def
        threshold_bps_def tally_of_cards(1,5) choices_of not_less)
qed

subsection \<open>Simulation\<close>

lemma assembly_with_membership:
  "assembly_of (with_membership L e members) = (assembly_of e)\<lparr>sm_members := {m. bs_member members m}\<rparr>"
  by (rule assembly_eqI) (simp_all add: with_membership_def)

lemma assembly_put:
  "assembly_of (put_proposal i p e) = (assembly_of e)\<lparr>sm_ballots := (sm_ballots (assembly_of e))(i \<mapsto> ballot_of p)\<rparr>"
  by (rule assembly_eqI) simp_all

lemma assembly_put_same:
  assumes "bm_get (ge_proposals e) i = Some p" "ballot_of q = ballot_of p"
  shows "assembly_of (put_proposal i q e) = assembly_of e"
  by (rule assembly_eqI) (simp_all add: assms)

lemma assembly_submitted:
  "assembly_of (submitted L e i p) = (assembly_of e)\<lparr>sm_ballots := (sm_ballots (assembly_of e))(i \<mapsto> ballot_of p)\<rparr>"
  by (rule assembly_eqI) simp_all

lemma assembly_move_head:
  "assembly_of (move_head i p (pp_document p) e) = enact (pp_document p) (pp_document_hash p) (assembly_of e)"
  by (cases "pp_document p"; intro assembly_eqI) (simp_all add: head_of_def)

lemma ballot_of_vote:
  "ballot_of (p\<lparr>pp_votes := bm_insert v \<lparr>vr_choice = c, vr_cast_at = now, vr_revision = n\<rparr> (pp_votes p)\<rparr>)
     = cast (ballot_of p) v c"
  by (simp add: ballot_of_def cast_def fun_eq_iff)

lemma assembly_finalized:
  "assembly_of (finalized e i p) =
     (if outcome_of e p = GS_Ratified then enact (pp_document p) (pp_document_hash p) (assembly_of e) else assembly_of e)
       \<lparr>sm_ballots := (sm_ballots (assembly_of e))(i \<mapsto> (ballot_of p)\<lparr>bl_status := outcome_of e p\<rparr>)\<rparr>"
proof -
  have "ballot_of (p\<lparr>pp_status := st\<rparr>) = (ballot_of p)\<lparr>bl_status := st\<rparr>" for st by (simp add: ballot_of_def)
  moreover have "sm_ballots (enact d h s) = sm_ballots s" for d h s by (cases d) simp_all
  ultimately show ?thesis by (simp add: finalized_def assembly_put assembly_move_head)
qed

lemma add_member_outcome:
  assumes "membership_ok L e" "add_member L e m = Inr (b, e')"
  shows "e' = e \<or> \<not> bs_member (ge_members e) m \<and> e' = with_membership L e (bs_insert m (ge_members e))"
  using assms(2) unfolding add_member_result[OF assms(1)] by (simp split: if_splits)

lemma remove_member_outcome:
  assumes "membership_ok L e" "remove_member L e m = (b, e')"
  shows "e' = e \<or> bs_member (ge_members e) m \<and> bs_len (ge_members e) \<noteq> 1
           \<and> e' = with_membership L e (bs_remove m (ge_members e))"
  using assms(2) unfolding remove_member_result[OF assms(1)] by (simp split: if_splits)

lemma step_simulated:
  assumes sha: "sha_hex L" and inv: "gov_inv L e" and step: "gov_step L e e'"
  shows "assembly_step L (ge_rules e) (assembly_of e) (assembly_of e') \<or> assembly_of e' = assembly_of e"
proof -
  have mem: "membership_ok L e" and log: "log_ok L e" using inv by (simp_all add: gov_inv_def)
  from step show ?thesis
  proof cases
    case (step_add_member m b)
    then consider "e' = e" | "\<not> bs_member (ge_members e) m" "e' = with_membership L e (bs_insert m (ge_members e))"
      using add_member_outcome[OF mem] by blast
    then show ?thesis
    proof cases
      case 2
      moreover have "{k. bs_member (bs_insert m (ge_members e)) k} = insert m (sm_members (assembly_of e))" by auto
      ultimately show ?thesis
        using join[of m "assembly_of e" L "ge_rules e"] by (simp add: assembly_with_membership)
    qed simp
  next
    case (step_remove_member m b)
    then consider "e' = e" | "bs_member (ge_members e) m" "bs_len (ge_members e) \<noteq> 1"
        "e' = with_membership L e (bs_remove m (ge_members e))"
      using remove_member_outcome[OF mem] by blast
    then show ?thesis
    proof cases
      case 2
      then have "sm_members (assembly_of e) \<noteq> {m}" using card_members[of "ge_members e"] by force
      moreover have "{k. bs_member (bs_remove m (ge_members e)) k} = sm_members (assembly_of e) - {m}" by auto
      ultimately show ?thesis
        using 2 leave[of m "assembly_of e" L "ge_rules e"] by (simp add: assembly_with_membership)
    qed simp
  next
    case (step_submit i proposer d t0 t1 p)
    note r = submit_result[OF mem log, THEN iffD1, OF this]
    then obtain h where h: "document_content_hash L d = Inr h"
      "p = new_proposal e i proposer d h t0 t1 (last (ge_membership_history e)) (length (ge_proposal_log e))"
      and e': "e' = submitted L e i p" by blast
    have "ballot_of p = \<lparr>bl_document = d, bl_hash = h, bl_opens = t0, bl_closes = t1,
        bl_electorate = sm_members (assembly_of e), bl_votes = Map.empty, bl_status = GS_Open\<rparr>"
      by (simp add: h(2) ballot_of_def new_proposal_def fun_eq_iff)
    then show ?thesis
      using open_ballot[of "assembly_of e" i proposer d L h t0 t1 "ge_rules e"] r h(1) e'
      by (simp add: assembly_submitted fits_lineage)
  next
    case (step_argument i author position t now)
    then obtain p where "open_proposal e i author now = Inr p"
      "e' = put_proposal i (p\<lparr>pp_arguments := pp_arguments p
         @ [\<lparr>ar_author = author, ar_position = position, ar_text = t, ar_submitted_at = now\<rparr>]\<rparr>) e"
      by (auto simp: add_argument_def split: if_splits)
    then show ?thesis by (simp add: assembly_put_same open_proposal_ok ballot_of_def)
  next
    case (step_amendment i author t now)
    then obtain p where "open_proposal e i author now = Inr p"
      "e' = put_proposal i (p\<lparr>pp_amendments := pp_amendments p
         @ [\<lparr>am_author = author, am_text = t, am_submitted_at = now\<rparr>]\<rparr>) e"
      by (auto simp: suggest_amendment_def split: if_splits)
    then show ?thesis by (simp add: assembly_put_same open_proposal_ok ballot_of_def)
  next
    case (step_vote i v c now r)
    then obtain p where p: "open_proposal e i v now = Inr p"
      "e' = put_proposal i (p\<lparr>pp_votes := bm_insert v
         \<lparr>vr_choice = c, vr_cast_at = now, vr_revision = vo_revision r\<rparr> (pp_votes p)\<rparr>) e"
      unfolding cast_vote_result by blast
    then show ?thesis
      using cast_ballot[of "assembly_of e" i "ballot_of p" now v L "ge_rules e" c]
      by (simp add: open_proposal_ok assembly_put ballot_of_vote)
  next
    case (step_finalize i now f)
    then obtain p where p: "bm_get (ge_proposals e) i = Some p" "pp_status p = GS_Open" "pp_deadline p \<le> now"
      and e': "e' = finalized e i p" by (auto simp: finalize_result[OF sha inv])
    have "assembly_step L (ge_rules e) (assembly_of e) (assembly_of (finalized e i p))"
      using close_ballot[of "assembly_of e" i "ballot_of p" now L "ge_rules e"] p
      unfolding assembly_finalized outcome_verdict ballot_of_sel assembly_of_sel by simp
    then show ?thesis unfolding e' by blast
  qed
qed

lemma move_head_rules [simp]: "ge_rules (move_head i p d e) = ge_rules e"
  by (cases d) simp_all

lemma step_rules:
  assumes "sha_hex L" "gov_inv L e" "gov_step L e e'"
  shows "ge_rules e' = ge_rules e"
proof -
  have mem: "membership_ok L e" and log: "log_ok L e" using assms(2) by (simp_all add: gov_inv_def)
  from assms(3) show ?thesis
  proof cases
    case step_add_member
    from add_member_outcome[OF mem this] show ?thesis by (auto simp: with_membership_def)
  next
    case step_remove_member
    from remove_member_outcome[OF mem this] show ?thesis by (auto simp: with_membership_def)
  next
    case step_submit
    then show ?thesis using submit_result[OF mem log] by (metis submitted_sel(2))
  next
    case step_finalize
    then show ?thesis by (auto simp: finalize_result[OF assms(1,2)] finalized_def)
  next
    case step_vote
    then show ?thesis by (auto simp: cast_vote_result)
  qed (auto simp: add_argument_def suggest_amendment_def split: if_splits)
qed

lemma run_simulated:
  assumes sha: "sha_hex L" and init: "GovernanceEngine_new L council rules ids = Inr e0"
    and run: "(gov_step L)\<^sup>*\<^sup>* e0 e"
  shows "gov_inv L e \<and> ge_rules e = rules \<and> (assembly_step L rules)\<^sup>*\<^sup>* (new_assembly (set ids)) (assembly_of e)"
  using run
proof (induction rule: rtranclp_induct)
  case base
  have e0: "ge_members e0 = bs_of_list ids" "ge_proposals e0 = bm_empty" "ge_rules e0 = rules"
    "ge_constitution e0 = None" "ge_agenda e0 = None"
    using init by (auto simp: GovernanceEngine_new_def Let_def dest: validate_rules_same)
  have "assembly_of e0 = new_assembly (set ids)" by (rule assembly_eqI) (simp_all add: e0 new_assembly_def)
  then show ?case using initial_inv[OF init] e0(3) by simp
next
  case (step e e')
  then have inv: "gov_inv L e" and r: "ge_rules e = rules" by blast+
  from step_simulated[OF sha inv step.hyps(2)] step.IH step_rules[OF sha inv step.hyps(2)]
    gov_step_inv[OF sha inv step.hyps(2)]
  show ?case unfolding r by (metis rtranclp.rtrancl_into_rtrancl)
qed

subsection \<open>Linear document chains\<close>

fun lineage_of :: "governance_document \<Rightarrow> (document_kind \<times> nat \<times> string option) option" where
  "lineage_of (GD_Constitution c) = Some (GK_Constitution, con_version c, con_parent_hash c)"
| "lineage_of (GD_Agenda a) = Some (GK_Agenda, ag_version a, ag_parent_hash a)"
| "lineage_of (GD_Strategy d) = None"
| "lineage_of (GD_Action d) = None"

fun assembly_head :: "assembly \<Rightarrow> document_kind \<Rightarrow> (nat \<times> string) option" where
  "assembly_head s GK_Constitution = sm_constitution s"
| "assembly_head s GK_Agenda = sm_agenda s"
| "assembly_head s GK_Strategy = None"
| "assembly_head s GK_Action = None"

definition enacted :: "assembly \<Rightarrow> document_kind \<Rightarrow> proposal_id set" where
  "enacted s kind = {i. \<exists>b. sm_ballots s i = Some b \<and> bl_status b = GS_Ratified \<and> document_kind_of (bl_document b) = kind}"

definition hash_at :: "assembly \<Rightarrow> proposal_id \<Rightarrow> string" where
  "hash_at s i = bl_hash (the (sm_ballots s i))"

definition linear_chain :: "assembly \<Rightarrow> document_kind \<Rightarrow> proposal_id list \<Rightarrow> bool" where
  "linear_chain s kind ids \<longleftrightarrow>
     distinct ids \<and> set ids = enacted s kind
     \<and> (\<forall>k < length ids. \<exists>b. sm_ballots s (ids ! k) = Some b
           \<and> lineage_of (bl_document b) = Some (kind, k + 1, chain_parent (hash_at s) ids k))
     \<and> assembly_head s kind = (if ids = [] then None else Some (length ids, hash_at s (last ids)))"

lemma linear_chain_frame:
  assumes chain: "linear_chain s kind ids" and same: "enacted s' kind = enacted s kind"
    and ballots: "\<And>i. i \<in> enacted s kind \<Longrightarrow> sm_ballots s' i = sm_ballots s i"
    and head: "assembly_head s' kind = assembly_head s kind"
  shows "linear_chain s' kind ids"
proof -
  have b: "sm_ballots s' i = sm_ballots s i" if "i \<in> set ids" for i
    using that chain ballots by (simp add: linear_chain_def)
  then have h: "hash_at s' i = hash_at s i" if "i \<in> set ids" for i using that by (simp add: hash_at_def)
  have "chain_parent (hash_at s') ids k = chain_parent (hash_at s) ids k" if "k < length ids" for k
    using that h by (simp add: chain_parent_def)
  moreover have "hash_at s' (last ids) = hash_at s (last ids)" if "ids \<noteq> []" using that h by simp
  moreover have "sm_ballots s' (ids ! k) = sm_ballots s (ids ! k)" if "k < length ids" for k using that b by simp
  ultimately show ?thesis using chain same head by (auto simp: linear_chain_def)
qed

lemma chain_extends:
  assumes chain: "linear_chain s kind ids" and b: "sm_ballots s i = Some b" "bl_status b = GS_Open"
    and fit: "fits s (bl_document b)" and kind: "document_kind_of (bl_document b) = kind"
    and k: "kind = GK_Constitution \<or> kind = GK_Agenda"
    and s': "s' = (enact (bl_document b) (bl_hash b) s)\<lparr>sm_ballots := (sm_ballots s)(i \<mapsto> b\<lparr>bl_status := GS_Ratified\<rparr>)\<rparr>"
  shows "linear_chain s' kind (ids @ [i])"
proof -
  have new: "i \<notin> set ids" using chain b by (auto simp: linear_chain_def enacted_def)
  have ballots: "sm_ballots s' j = (if j = i then Some (b\<lparr>bl_status := GS_Ratified\<rparr>) else sm_ballots s j)" for j
    by (simp add: s')
  have h: "hash_at s' j = hash_at s j" for j using b by (simp add: hash_at_def ballots)
  then have hs: "hash_at s' = hash_at s" by blast
  have hi: "hash_at s i = bl_hash b" using b by (simp add: hash_at_def)
  have "enacted s' kind = insert i (enacted s kind)"
    using b kind by (auto simp: enacted_def ballots split: if_splits)
  moreover have lin: "lineage_of (bl_document b) = Some (kind, length ids + 1, chain_parent (hash_at s) ids (length ids))"
    using fit kind k chain
    by (cases "bl_document b"; cases "ids = []")
      (auto simp: linear_chain_def chain_parent_def last_conv_nth)
  moreover have "assembly_head s' kind = Some (length ids + 1, bl_hash b)"
    using lin kind k by (cases "bl_document b") (auto simp: s')
  moreover have "\<exists>c. sm_ballots s' ((ids @ [i]) ! j) = Some c
      \<and> lineage_of (bl_document c) = Some (kind, j + 1, chain_parent (hash_at s) (ids @ [i]) j)"
    if "j < length (ids @ [i])" for j
  proof (cases "j < length ids")
    case True
    then have "ids ! j \<noteq> i" using new by auto
    then show ?thesis using True chain by (simp add: linear_chain_def ballots nth_append)
  next
    case False
    then have "j = length ids" using that by simp
    then show ?thesis using lin by (simp add: ballots)
  qed
  ultimately show ?thesis
    using chain new unfolding linear_chain_def hs by (simp add: hi)
qed

lemma verdict_ratified_fits: "verdict r s b = GS_Ratified \<Longrightarrow> fits s (bl_document b) \<and> passes r b"
  by (auto simp: verdict_def split: if_splits)

lemma chain_step:
  assumes step: "assembly_step L r s s'" and chain: "linear_chain s kind ids"
    and k: "kind = GK_Constitution \<or> kind = GK_Agenda"
  shows "\<exists>new. linear_chain s' kind (ids @ new)"
proof -
  have frame: "\<exists>new. linear_chain s' kind (ids @ new)"
    if "enacted s' kind = enacted s kind" "\<And>i. i \<in> enacted s kind \<Longrightarrow> sm_ballots s' i = sm_ballots s i"
      "assembly_head s' kind = assembly_head s kind"
    using linear_chain_frame[OF chain that] by (intro exI[of _ "[]"]) simp
  from step show ?thesis
  proof cases
    case (close_ballot i b now)
    show ?thesis
    proof (cases "verdict r s b = GS_Ratified \<and> document_kind_of (bl_document b) = kind")
      case True
      then have "s' = (enact (bl_document b) (bl_hash b) s)\<lparr>sm_ballots := (sm_ballots s)(i \<mapsto> b\<lparr>bl_status := GS_Ratified\<rparr>)\<rparr>"
        using close_ballot by simp
      then show ?thesis
        using chain_extends[OF chain close_ballot(2,3) _ _ k] verdict_ratified_fits True by blast
    next
      case False
      have "enacted s' kind = enacted s kind"
        using False close_ballot by (auto simp: enacted_def split: if_splits)
      moreover have "assembly_head s' kind = assembly_head s kind"
        using False close_ballot k by (cases "bl_document b") auto
      ultimately show ?thesis using close_ballot by (intro frame) (auto simp: enacted_def)
    qed
  next
    case (join m)
    then show ?thesis using k by (intro frame) (auto simp: enacted_def)
  next
    case (leave m)
    then show ?thesis using k by (intro frame) (auto simp: enacted_def)
  next
    case (open_ballot i proposer d h t0 t1)
    then show ?thesis using k by (intro frame) (auto simp: enacted_def split: if_splits)
  next
    case (cast_ballot i b now v c)
    then show ?thesis using k by (intro frame) (auto simp: enacted_def cast_def split: if_splits)
  qed
qed

lemma chain_run:
  assumes "(assembly_step L r)\<^sup>*\<^sup>* s s'" "linear_chain s kind ids" "kind = GK_Constitution \<or> kind = GK_Agenda"
  shows "\<exists>new. linear_chain s' kind (ids @ new)"
  using assms(1)
proof (induction rule: rtranclp_induct)
  case base
  show ?case using assms(2) by (intro exI[of _ "[]"]) simp
next
  case (step s s')
  then obtain new where "linear_chain s kind (ids @ new)" by blast
  from chain_step[OF step.hyps(2) this assms(3)] show ?case by (metis append.assoc)
qed

lemma chain_starts:
  "kind = GK_Constitution \<or> kind = GK_Agenda \<Longrightarrow> linear_chain (new_assembly ms) kind []"
  by (auto simp: linear_chain_def enacted_def new_assembly_def)

end
