(* ===== verification/Governance_Properties.thy ===== *)
theory Governance_Properties
  imports Governance_Assembly
begin

section \<open>Properties of governance\<close>

text \<open>
  What the engine guarantees, over everything reachable from a new engine by its operations:
  revalidation of its own state, refinement of the assembly, linear chains, final decisions,
  authorization of actions, and the commitment that the membership hash chain makes.
\<close>

subsection \<open>Closed proposals\<close>

lemma step_keeps_closed:
  assumes "sha_hex L" "gov_inv L e" "gov_step L e e'" "bm_get (ge_proposals e) i = Some p" "pp_status p \<noteq> GS_Open"
  shows "bm_get (ge_proposals e') i = Some p"
proof -
  have mem: "membership_ok L e" and log: "log_ok L e" using assms(2) by (simp_all add: gov_inv_def)
  from assms(3) show ?thesis
  proof cases
    case step_add_member
    from add_member_outcome[OF mem this] show ?thesis using assms(4) by (auto simp: with_membership_def)
  next
    case step_remove_member
    from remove_member_outcome[OF mem this] show ?thesis using assms(4) by (auto simp: with_membership_def)
  next
    case (step_submit j proposer d t0 t1 q)
    then have "bm_get (ge_proposals e) j = None" "e' = submitted L e j q" using submit_result[OF mem log] by blast+
    then show ?thesis using assms(4) by auto
  next
    case (step_argument j author position t now)
    then obtain q x where "open_proposal e j author now = Inr q" "e' = put_proposal j (q\<lparr>pp_arguments := x\<rparr>) e"
      by (auto simp: add_argument_def split: if_splits)
    then show ?thesis using assms(4,5) by (auto simp: open_proposal_ok)
  next
    case (step_amendment j author t now)
    then obtain q x where "open_proposal e j author now = Inr q" "e' = put_proposal j (q\<lparr>pp_amendments := x\<rparr>) e"
      by (auto simp: suggest_amendment_def split: if_splits)
    then show ?thesis using assms(4,5) by (auto simp: open_proposal_ok)
  next
    case (step_vote j v c now r)
    then obtain q x where "open_proposal e j v now = Inr q" "e' = put_proposal j (q\<lparr>pp_votes := x\<rparr>) e"
      unfolding cast_vote_result by blast
    then show ?thesis using assms(4,5) by (auto simp: open_proposal_ok)
  next
    case (step_finalize j now f)
    then obtain q where q: "bm_get (ge_proposals e) j = Some q" "pp_status q = GS_Open" "e' = finalized e j q"
      by (auto simp: finalize_result[OF assms(1,2)])
    then have "i \<noteq> j" using assms(4,5) by auto
    moreover have "ge_proposals (move_head j q d e) = ge_proposals e" for d by (cases d) simp_all
    ultimately show ?thesis using assms(4) q(3) by (simp add: finalized_def)
  qed
qed

lemma gov_run_inv:
  assumes "sha_hex L" "gov_inv L e" "(gov_step L)\<^sup>*\<^sup>* e e'"
  shows "gov_inv L e'"
  using assms(3) by (induction rule: rtranclp_induct) (use assms gov_step_inv in blast)+

lemma run_keeps_closed:
  assumes "sha_hex L" "gov_inv L e" "(gov_step L)\<^sup>*\<^sup>* e e'" "bm_get (ge_proposals e) i = Some p" "pp_status p \<noteq> GS_Open"
  shows "bm_get (ge_proposals e') i = Some p"
  using assms(3)
proof (induction rule: rtranclp_induct)
  case (step y z)
  then show ?case using step_keeps_closed[OF assms(1) gov_run_inv[OF assms(1,2)]] assms(5) by blast
qed (rule assms(4))

subsection \<open>A Council of one\<close>

text \<open>The run behind the witnesses: one member submits a document, supports it and closes the vote.\<close>

definition solo :: cthulhu_id where "solo = Ident ''cthulhu_solo''"
definition first_proposal :: proposal_id where "first_proposal = Ident ''proposal_first''"

definition plain_libs :: gov_libs where
  "plain_libs = \<lparr>gl_encode = (\<lambda>d. Some []), gl_sha256 = (\<lambda>s. replicate 64 CHR ''0'')\<rparr>"

definition solo_start :: gov_engine where
  "solo_start = \<lparr>ge_council_id = Ident ''council_solo'', ge_rules = governance_rules_default,
     ge_members = bs_of_list [solo],
     ge_membership_history = [MembershipSnapshot_new plain_libs (Ident ''council_solo'') 0 None (bs_of_list [solo])],
     ge_proposal_log = [], ge_proposals = bm_empty, ge_constitution = None, ge_agenda = None\<rparr>"

definition founding :: governance_document where
  "founding = GD_Constitution \<lparr>con_version = 1, con_parent_hash = None,
     con_principles = [''be kind''], con_security_invariants = [''no keys in messages'']\<rparr>"

definition self_test :: governance_document where
  "self_test = GD_Action \<lparr>ad_agenda_hash = None, ad_action = GA_ProtocolSelfTest ST_LeaseGeneration,
     ad_rationale = ''check the fences''\<rparr>"

lemma plain_sha: "sha_hex plain_libs"
  by (simp add: sha_hex_def plain_libs_def lower_hex_def ascii_defs list_all_iff)

lemma solo_new: "GovernanceEngine_new plain_libs (Ident ''council_solo'') governance_rules_default [solo] = Inr solo_start"
  by (simp add: GovernanceEngine_new_def solo_start_def governance_rules_default_def validate_rules_def
      bs_len_of_list MAX_MEMBERS_def MAX_PROPOSAL_LIFETIME_SECONDS_def Let_def)

lemma solo_inv: "gov_inv plain_libs solo_start"
  by (rule initial_inv[OF solo_new])

lemma plain_valid:
  "document_content_hash plain_libs founding = Inr (''sha256:'' @ replicate 64 CHR ''0'')"
  "document_content_hash plain_libs self_test = Inr (''sha256:'' @ replicate 64 CHR ''0'')"
  by (simp_all add: document_content_hash_def validate_document_def founding_def self_test_def plain_libs_def
      validate_constitution_def validate_action_document_def gov_validate_text_list_def gov_validate_text_def
      gov_validate_hash_opt_def is_blank_def is_whitespace_def byte_def
      GOV_MAX_LIST_ITEMS_def GOV_MAX_TEXT_BYTES_def MAX_DOCUMENT_BYTES_def)

definition solo_proposal :: "governance_document \<Rightarrow> proposal" where
  "solo_proposal d = new_proposal solo_start first_proposal solo d (''sha256:'' @ replicate 64 CHR ''0'') 10 20
        (last (ge_membership_history solo_start)) 0"

definition solo_submitted :: "governance_document \<Rightarrow> gov_engine" where
  "solo_submitted d = submitted plain_libs solo_start first_proposal
     (solo_proposal d)"

lemma solo_submit:
  assumes "d = founding \<or> d = self_test"
  shows "submit plain_libs solo_start first_proposal solo d 10 20 =
    Inr (solo_proposal d, solo_submitted d)"
proof -
  have mem: "membership_ok plain_libs solo_start" and log: "log_ok plain_libs solo_start"
    using solo_inv by (simp_all add: gov_inv_def)
  have "validate_document_lineage solo_start d = Inr ()"
    using assms by (auto simp: founding_def self_test_def solo_start_def lineage_matches_def)
  moreover have "document_content_hash plain_libs d = Inr (''sha256:'' @ replicate 64 CHR ''0'')"
    using assms plain_valid by auto
  ultimately show ?thesis
    unfolding submit_result[OF mem log] solo_submitted_def solo_proposal_def
    by (simp add: solo_start_def open_proposals_def bm_values_def MAX_PROPOSALS_def MAX_OPEN_PROPOSALS_def
        governance_rules_default_def)
qed

definition solo_ballot :: "governance_document \<Rightarrow> proposal" where
  "solo_ballot d = (solo_proposal d)
     \<lparr>pp_votes := bm_insert solo \<lparr>vr_choice = VC_Support, vr_cast_at = 12, vr_revision = 0\<rparr> bm_empty\<rparr>"

definition solo_voted :: "governance_document \<Rightarrow> gov_engine" where
  "solo_voted d = put_proposal first_proposal (solo_ballot d) (solo_submitted d)"

lemma solo_vote:
  "cast_vote (solo_submitted d) first_proposal solo VC_Support 12
     = Inr (\<lparr>vo_replaced = False, vo_revision = 0\<rparr>, solo_voted d)"
proof -
  let ?p = "solo_proposal d"
  have p: "pp_votes ?p = bm_empty" "pp_status ?p = GS_Open" "pp_created_at ?p = 10" "pp_deadline ?p = 20"
    "bs_member (pp_eligible_voters ?p) solo" by (simp_all add: solo_proposal_def new_proposal_def solo_start_def)
  have "open_proposal (solo_submitted d) first_proposal solo 12 = Inr ?p"
    unfolding open_proposal_ok by (simp add: solo_submitted_def p)
  then show ?thesis
    unfolding cast_vote_result by (simp add: solo_voted_def solo_ballot_def p)
qed

lemma solo_passes: "passes governance_rules_default (ballot_of (solo_ballot d))"
proof -
  have v: "bl_votes (ballot_of (solo_ballot d)) = [solo \<mapsto> VC_Support]"
    by (simp add: solo_ballot_def fun_eq_iff)
  have "{v. bs_member (bs_of_list [solo]) v} = {solo}" by auto
  then have el: "card (bl_electorate (ballot_of (solo_ballot d))) = 1"
    by (simp add: solo_ballot_def solo_proposal_def new_proposal_def solo_start_def)
  have "{v. [solo \<mapsto> VC_Support] v = Some VC_Support} = {solo}" by auto
  moreover have "{v. [solo \<mapsto> VC_Support] v = Some VC_Oppose} = {}" by auto
  ultimately have "choices (ballot_of (solo_ballot d)) VC_Support = 1" "choices (ballot_of (solo_ballot d)) VC_Oppose = 0"
    unfolding choices_def v by simp_all
  then show ?thesis
    unfolding passes_def el v by (simp add: threshold_bps_def governance_rules_default_def)
qed

definition solo_done :: "governance_document \<Rightarrow> gov_engine" where
  "solo_done d = finalized (solo_voted d) first_proposal (solo_ballot d)"

lemma solo_run:
  assumes "d = founding \<or> d = self_test"
  shows "(gov_step plain_libs)\<^sup>*\<^sup>* solo_start (solo_voted d)" "gov_step plain_libs (solo_voted d) (solo_done d)"
    "bm_get (ge_proposals (solo_done d)) first_proposal = Some ((solo_ballot d)\<lparr>pp_status := GS_Ratified\<rparr>)"
proof -
  have "gov_step plain_libs solo_start (solo_submitted d)" using solo_submit[OF assms] by (rule step_submit)
  moreover have "gov_step plain_libs (solo_submitted d) (solo_voted d)" using solo_vote by (rule step_vote)
  ultimately show run: "(gov_step plain_libs)\<^sup>*\<^sup>* solo_start (solo_voted d)" by simp
  have inv: "gov_inv plain_libs (solo_voted d)" by (rule gov_run_inv[OF plain_sha solo_inv run])
  have got: "bm_get (ge_proposals (solo_voted d)) first_proposal = Some (solo_ballot d)"
    "pp_status (solo_ballot d) = GS_Open" "pp_deadline (solo_ballot d) = 20"
    by (simp_all add: solo_voted_def solo_ballot_def solo_proposal_def new_proposal_def)
  then have "finalize plain_libs (solo_voted d) first_proposal 20
      = Inr (finalization_of (solo_voted d) (solo_ballot d), solo_done d)"
    unfolding finalize_result[OF plain_sha inv] solo_done_def by simp
  then show "gov_step plain_libs (solo_voted d) (solo_done d)" by (rule step_finalize)
  have rules: "ge_rules (solo_voted d) = governance_rules_default"
    by (simp add: solo_voted_def solo_submitted_def solo_start_def)
  have doc: "pp_document (solo_ballot d) = d" by (simp add: solo_ballot_def solo_proposal_def new_proposal_def)
  have "fits (assembly_of (solo_voted d)) d"
    using assms by (auto simp: founding_def self_test_def solo_voted_def solo_submitted_def solo_start_def)
  then have "outcome_of (solo_voted d) (solo_ballot d) = GS_Ratified"
    using solo_passes[of d] by (simp add: outcome_ratified fits_conflict doc carried_passes rules)
  then show "bm_get (ge_proposals (solo_done d)) first_proposal = Some ((solo_ballot d)\<lparr>pp_status := GS_Ratified\<rparr>)"
    by (simp add: solo_done_def finalized_def)
qed

lemma solo_reachable:
  assumes "d = founding \<or> d = self_test"
  shows "gov_reachable plain_libs (solo_voted d)" "gov_reachable plain_libs (solo_done d)"
proof -
  show "gov_reachable plain_libs (solo_voted d)"
    unfolding gov_reachable_def using solo_new solo_run(1)[OF assms] by blast
  show "gov_reachable plain_libs (solo_done d)"
    unfolding gov_reachable_def using solo_new rtranclp.rtrancl_into_rtrancl[OF solo_run(1,2)[OF assms]] by blast
qed

subsection \<open>Properties\<close>

text \<open>
  C7: the engine implements the assembly.  Along every run from a new engine, an operation either
  is a step of the assembly (a member joins or leaves, a ballot opens under the members of that
  moment, a voter's standing choice is replaced, a ballot closes with the verdict that quorum and
  approval give) or leaves the assembly as it is; evidence checks, revisions and hash chains never
  change an outcome.
\<close>

theorem governance_refines:
  assumes "sha_hex L" "GovernanceEngine_new L council rules ids = Inr e0" "(gov_step L)\<^sup>*\<^sup>* e0 e" "gov_step L e e'"
  shows "assembly_of e0 = new_assembly (set ids)
    \<and> (assembly_step L rules (assembly_of e) (assembly_of e') \<or> assembly_of e' = assembly_of e)"
proof -
  have "ge_members e0 = bs_of_list ids" "ge_proposals e0 = bm_empty" "ge_constitution e0 = None" "ge_agenda e0 = None"
    using assms(2) by (auto simp: GovernanceEngine_new_def Let_def)
  then have "assembly_of e0 = new_assembly (set ids)" by (intro assembly_eqI) (simp_all add: new_assembly_def)
  moreover have "gov_inv L e" "ge_rules e = rules" using run_simulated[OF assms(1-3)] by blast+
  ultimately show ?thesis using step_simulated[OF assms(1) _ assms(4)] by blast
qed

theorem governance_refines_witness:
  "assembly_step plain_libs governance_rules_default (assembly_of (solo_voted founding)) (assembly_of (solo_done founding))"
proof -
  have "bm_get (ge_proposals (solo_voted founding)) first_proposal = Some (solo_ballot founding)"
    "pp_status (solo_ballot founding) = GS_Open"
    by (simp_all add: solo_voted_def solo_ballot_def solo_proposal_def new_proposal_def)
  then have "sm_ballots (assembly_of (solo_done founding)) first_proposal
      \<noteq> sm_ballots (assembly_of (solo_voted founding)) first_proposal"
    using solo_run(3)[of founding] by (auto simp: ballot_of_def)
  then show ?thesis
    using governance_refines[OF plain_sha solo_new solo_run(1,2), of founding] by metis
qed

text \<open>
  C8: ratified constitutions never fork, and neither do agendas.  The ratified documents of a kind
  form one list with versions 1, 2, 3 and so on, each naming the hash of the one before as its
  parent; the head is the last of them, and later states only append to the list.
\<close>

theorem governance_chain:
  assumes "sha_hex L" "gov_reachable L e" "(gov_step L)\<^sup>*\<^sup>* e e'" "kind = GK_Constitution \<or> kind = GK_Agenda"
  shows "\<exists>ids new. linear_chain (assembly_of e) kind ids \<and> linear_chain (assembly_of e') kind (ids @ new)"
proof -
  obtain council rules ms e0 where init: "GovernanceEngine_new L council rules ms = Inr e0" "(gov_step L)\<^sup>*\<^sup>* e0 e"
    using assms(2) unfolding gov_reachable_def by blast
  note run = run_simulated[OF assms(1) init(1)]
  obtain ids where ids: "linear_chain (assembly_of e) kind ids"
    using chain_run[OF _ chain_starts[OF assms(4)] assms(4)] run[OF init(2)] by fastforce
  have "(assembly_step L rules)\<^sup>*\<^sup>* (assembly_of e) (assembly_of e')"
    using assms(3)
  proof (induction rule: rtranclp_induct)
    case (step y z)
    then have "(gov_step L)\<^sup>*\<^sup>* e0 y" using init(2) by simp
    then have "gov_inv L y" "ge_rules y = rules" using run by blast+
    then show ?case
      using step_simulated[OF assms(1) _ step.hyps(2)] step.IH by (metis rtranclp.rtrancl_into_rtrancl)
  qed simp
  with ids chain_run[OF _ ids assms(4)] show ?thesis by blast
qed

theorem governance_chain_witness:
  "linear_chain (assembly_of (solo_done founding)) GK_Constitution [first_proposal]"
proof -
  let ?s = "assembly_of (solo_done founding)"
  have doc: "document_kind_of (pp_document (solo_ballot founding)) = GK_Constitution"
    by (simp add: solo_ballot_def solo_proposal_def new_proposal_def founding_def)
  have got: "bm_get (ge_proposals (solo_done founding)) i
      = (if i = first_proposal then Some ((solo_ballot founding)\<lparr>pp_status := GS_Ratified\<rparr>) else None)" for i
  proof (cases "i = first_proposal")
    case False
    have "ge_proposals (move_head a q d e) = ge_proposals e" for a q d e by (cases d) simp_all
    then show ?thesis
      using False by (simp add: solo_done_def finalized_def solo_voted_def solo_submitted_def solo_start_def)
  qed (use solo_run(3) in simp)
  obtain ids where ids: "linear_chain ?s GK_Constitution ids"
    using governance_chain[OF plain_sha solo_reachable(2) rtranclp.rtrancl_refl, of founding] by blast
  have "enacted ?s GK_Constitution = {first_proposal}"
    using doc by (auto simp: enacted_def got ballot_of_def split: if_splits)
  then have "set ids = {first_proposal}" "distinct ids" using ids by (simp_all add: linear_chain_def)
  moreover from this have "length ids = 1" by (metis card_1_singleton_iff distinct_card One_nat_def)
  ultimately have "ids = [first_proposal]" by (cases ids) auto
  with ids show ?thesis by simp
qed

text \<open>
  C9: a decision is final and justified.  A closed proposal is never changed again, whatever is
  done later; a ratified one was carried: at least the quorum of the members at its opening voted,
  and support reached the threshold of its kind among the votes that took a side.
\<close>

theorem decision_final:
  assumes "sha_hex L" "gov_reachable L e" "bm_get (ge_proposals e) i = Some p" "pp_status p \<noteq> GS_Open"
    and "(gov_step L)\<^sup>*\<^sup>* e e'"
  shows "bm_get (ge_proposals e') i = Some p
    \<and> set (ms_members (ge_membership_history e ! pp_membership_revision p)) = bl_electorate (ballot_of p)
    \<and> dom (bl_votes (ballot_of p)) \<subseteq> bl_electorate (ballot_of p)
    \<and> (pp_status p = GS_Ratified \<longrightarrow> passes (ge_rules e) (ballot_of p))"
proof -
  have inv: "gov_inv L e" using assms(1,2) by (rule gov_reachable_inv)
  have ok: "proposal_ok L e i p" using inv assms(3) by (rule inv_proposal)
  have "dom (bl_votes (ballot_of p)) \<subseteq> bl_electorate (ballot_of p)"
    using ok by (auto simp: proposal_ok_def vote_in_window_def)
  moreover have "pp_status p = GS_Ratified \<longrightarrow> passes (ge_rules e) (ballot_of p)"
    using ok by (simp add: proposal_ok_def carried_passes)
  ultimately show ?thesis
    using run_keeps_closed[OF assms(1) inv assms(5,3,4)] inv_eligible(3)[OF inv assms(3)] by simp
qed

theorem decision_final_witness:
  "bm_get (ge_proposals (solo_done founding)) first_proposal = Some ((solo_ballot founding)\<lparr>pp_status := GS_Ratified\<rparr>)
   \<and> passes (ge_rules (solo_done founding)) (ballot_of ((solo_ballot founding)\<lparr>pp_status := GS_Ratified\<rparr>))"
  using decision_final[OF plain_sha solo_reachable(2) solo_run(3) _ rtranclp.rtrancl_refl, of founding] by simp

text \<open>
  C10: an action is authorised by two consents.  In every reachable engine the answer is yes exactly
  when the proposal is a ratified action and the local operator's policy allows that action;
  without ratification there is no answer but an error.
\<close>

theorem action_needs_both:
  assumes "sha_hex L" "gov_reachable L e"
  shows "((\<exists>a. authorize_action L e i policy = Inr a \<and> aa_authorized a) \<longleftrightarrow>
      (\<exists>p d. bm_get (ge_proposals e) i = Some p \<and> pp_status p = GS_Ratified
         \<and> pp_document p = GD_Action d \<and> policy (ad_action d) = LP_Allow))
    \<and> (is_ok (authorize_action L e i policy) \<longrightarrow>
      (\<exists>p. bm_get (ge_proposals e) i = Some p \<and> pp_status p = GS_Ratified \<and> passes (ge_rules e) (ballot_of p)))"
proof -
  have inv: "gov_inv L e" using assms by (rule gov_reachable_inv)
  show ?thesis
  proof (cases "bm_get (ge_proposals e) i")
    case None
    then show ?thesis by (simp add: authorize_action_def)
  next
    case (Some p)
    show ?thesis
    proof (cases "pp_status p = GS_Ratified")
      case False
      then show ?thesis using Some by (auto simp: authorize_action_def ensure_def)
    next
      case True
      have "carried (ge_rules e) p" using inv_proposal[OF inv Some] True by (simp add: proposal_ok_def)
      then have "has_valid_ratification_evidence L e p" "passes (ge_rules e) (ballot_of p)"
        using inv_evidence[OF inv Some] by (simp_all add: carried_passes)
      then show ?thesis
        using Some True inv_chains_valid[OF assms(1) inv]
        by (cases "pp_document p")
          (auto simp: authorize_action_def ensure_def run_checks.simps(1) split: local_policy_decision.splits)
    qed
  qed
qed

theorem action_needs_both_witness:
  "\<exists>a. authorize_action plain_libs (solo_done self_test) first_proposal (\<lambda>_. LP_Allow) = Inr a \<and> aa_authorized a"
proof -
  have "pp_document ((solo_ballot self_test)\<lparr>pp_status := GS_Ratified\<rparr>) = self_test"
    by (simp add: solo_ballot_def solo_proposal_def new_proposal_def)
  with action_needs_both[OF plain_sha solo_reachable(2), of self_test first_proposal "\<lambda>_. LP_Allow"] solo_run(3)[of self_test]
  show ?thesis unfolding self_test_def by auto
qed

text \<open>
  C11: persisted governance state reloads.  Every reachable engine passes \<open>validate_loaded_state\<close>,
  all its chains, proposals, votes and heads included, exactly at the times that lie after the
  deadlines of its closed proposals.
\<close>

theorem governance_reload:
  assumes "sha_hex L" "gov_reachable L e"
  shows "gov_validate_loaded_state L e now = Inr () \<longleftrightarrow>
    0 \<le> now \<and> (\<forall>i p. bm_get (ge_proposals e) i = Some p \<longrightarrow> pp_status p \<noteq> GS_Open \<longrightarrow> pp_deadline p \<le> now)"
  by (rule reload_iff[OF assms(1) gov_reachable_inv[OF assms]])

theorem governance_reload_witness:
  "gov_validate_loaded_state plain_libs (solo_done founding) 19 \<noteq> Inr ()"
proof -
  have "pp_deadline ((solo_ballot founding)\<lparr>pp_status := GS_Ratified\<rparr>) = 20"
    by (simp add: solo_ballot_def solo_proposal_def new_proposal_def)
  with governance_reload[OF plain_sha solo_reachable(2), of founding 19] solo_run(3)[of founding]
  show ?thesis by fastforce
qed

subsection \<open>The membership commitment\<close>

definition snapshot_preimage :: "council_id \<Rightarrow> membership_snapshot \<Rightarrow> string" where
  "snapshot_preimage c s = membership_preimage c (ms_revision s) (ms_parent_hash s) (ms_members s)"

definition short_ids :: "membership_snapshot list \<Rightarrow> bool" where
  "short_ids ss \<longleftrightarrow> (\<forall>s\<in>set ss. \<forall>m\<in>set (ms_members s). length (as_str m) \<le> MAX_ID_BYTES)"

lemma snapshot_preimage_inject:
  assumes s: "snapshot_ok L c j pj s" "j < 256 ^ 8" "\<forall>m\<in>set (ms_members s). length (as_str m) \<le> MAX_ID_BYTES"
    and t: "snapshot_ok L c k pk t" "k < 256 ^ 8" "\<forall>m\<in>set (ms_members t). length (as_str m) \<le> MAX_ID_BYTES"
    and p: "\<And>x. pj = Some x \<Longrightarrow> length x < 256 ^ 8" "\<And>x. pk = Some x \<Longrightarrow> length x < 256 ^ 8"
    and eq: "snapshot_preimage c s = snapshot_preimage c t"
  shows "s = t \<and> j = k \<and> pj = pk"
proof -
  let ?ms = "\<lambda>u. concat (map (\<lambda>m. hash_field (as_str m)) (ms_members u))"
  from eq s(1) t(1) have "be_bytes 8 j @ hash_parent pj @ be_bytes 8 (length (ms_members s)) @ ?ms s
      = be_bytes 8 k @ hash_parent pk @ be_bytes 8 (length (ms_members t)) @ ?ms t"
    by (simp add: snapshot_preimage_def membership_preimage_def snapshot_ok_def)
  then have jk: "be_bytes 8 j = be_bytes 8 k"
    and rest: "hash_parent pj @ be_bytes 8 (length (ms_members s)) @ ?ms s
      = hash_parent pk @ be_bytes 8 (length (ms_members t)) @ ?ms t"
    by (auto simp: append_eq_append_conv)
  from rest have par: "pj = pk" and tail: "be_bytes 8 (length (ms_members s)) @ ?ms s = be_bytes 8 (length (ms_members t)) @ ?ms t"
    using hash_parent_inject[OF p] by blast+
  then have n: "be_bytes 8 (length (ms_members s)) = be_bytes 8 (length (ms_members t))" and body: "?ms s = ?ms t"
    by (auto simp: append_eq_append_conv)
  have small: "length (ms_members s) < 256 ^ 8" "length (ms_members t) < 256 ^ 8"
    using s(1) t(1) by (simp_all add: snapshot_ok_def MAX_MEMBERS_def)
  have len: "length (ms_members s) = length (ms_members t)" using n be_bytes_inject[OF small] by blast
  have "ms_members s = ms_members t"
    by (rule hash_members_inject[OF len _ _ body]) (use s(3) t(3) in \<open>force simp: MAX_ID_BYTES_def\<close>)+
  moreover have "j = k" using jk be_bytes_inject[OF s(2) t(2)] by blast
  ultimately show ?thesis using s(1) t(1) par by (cases s; cases t) (simp add: snapshot_ok_def)
qed

lemma chain_hash_length:
  assumes "sha_hex L" "chain_ok L c ss" "j < length ss" "chain_parent ms_hash ss j = Some x"
  shows "length x < 256 ^ 8"
proof -
  from assms(4) obtain i where "j = Suc i" "x = ms_hash (ss ! i)" by (cases j) (simp_all add: chain_parent_def)
  then have "x = membership_snapshot_hash L c i (chain_parent ms_hash ss i) (ms_members (ss ! i))"
    using assms(2,3) by (simp add: chain_ok_def snapshot_ok_def)
  then show ?thesis using assms(1) by (simp add: membership_snapshot_hash_def sha_hex_def)
qed

lemma chain_commits:
  assumes sha: "sha_hex L" and c1: "chain_ok L c h1" "length h1 \<le> 256 ^ 8" "short_ids h1"
    and c2: "chain_ok L c h2" "length h2 \<le> 256 ^ 8" "short_ids h2"
    and last: "chain_parent ms_hash h1 (length h1) = chain_parent ms_hash h2 (length h2)"
  shows "h1 = h2 \<or> (\<exists>s\<in>set h1. \<exists>t\<in>set h2. snapshot_preimage c s \<noteq> snapshot_preimage c t
           \<and> gl_sha256 L (snapshot_preimage c s) = gl_sha256 L (snapshot_preimage c t))"
  using assms
proof (induction h1 arbitrary: h2 rule: rev_induct)
  case Nil
  then show ?case by (cases h2 rule: rev_cases) (simp_all add: chain_parent_def)
next
  case (snoc s h1)
  then obtain t h where h2: "h2 = h @ [t]" by (cases h2 rule: rev_cases) (simp_all add: chain_parent_def)
  have s: "snapshot_ok L c (length h1) (chain_parent ms_hash h1 (length h1)) s"
    and t: "snapshot_ok L c (length h) (chain_parent ms_hash h (length h)) t"
    using snoc.prems(2,5) by (simp_all add: h2 chain_ok_append)
  have "ms_hash s = ms_hash t" using snoc.prems(8) by (simp add: h2 chain_parent_def nth_append)
  then have sha: "gl_sha256 L (snapshot_preimage c s) = gl_sha256 L (snapshot_preimage c t)"
    using s t by (simp add: snapshot_ok_def membership_snapshot_hash_def snapshot_preimage_def)
  show ?case
  proof (cases "snapshot_preimage c s = snapshot_preimage c t")
    case False
    then show ?thesis using sha by (auto simp: h2)
  next
    case True
    have p1: "length x < 256 ^ 8" if "chain_parent ms_hash h1 (length h1) = Some x" for x
      using chain_hash_length[OF snoc.prems(1) snoc.prems(2), of "length h1" x] that by simp
    have p2: "length x < 256 ^ 8" if "chain_parent ms_hash h (length h) = Some x" for x
      using chain_hash_length[OF snoc.prems(1) snoc.prems(5), of "length h" x] that by (simp add: h2)
    have "s = t \<and> length h1 = length h \<and> chain_parent ms_hash h1 (length h1) = chain_parent ms_hash h (length h)"
      by (rule snapshot_preimage_inject[OF s _ _ t _ _ p1 p2 True])
        (use snoc.prems(3,4,6,7) in \<open>simp_all add: h2 short_ids_def\<close>)
    then have st: "s = t" and par: "chain_parent ms_hash h1 (length h1) = chain_parent ms_hash h (length h)" by blast+
    have "h1 = h \<or> (\<exists>s\<in>set h1. \<exists>t\<in>set h. snapshot_preimage c s \<noteq> snapshot_preimage c t
           \<and> gl_sha256 L (snapshot_preimage c s) = gl_sha256 L (snapshot_preimage c t))"
      by (rule snoc.IH[OF snoc.prems(1) _ _ _ _ _ _ par])
        (use snoc.prems(2-7) in \<open>simp_all add: h2 chain_ok_append short_ids_def\<close>)
    then show ?thesis unfolding h2 st by auto
  qed
qed

text \<open>
  the last membership hash commits to the whole history.  If two engines of one Council pass the
  check of their membership histories and end in the same snapshot hash, then the histories are
  equal, revision by revision and member by member, or two of their snapshots are a collision of
  SHA-256.
\<close>

theorem membership_commitment:
  assumes "sha_hex L" "validate_membership_history L e = Inr ()" "validate_membership_history L e' = Inr ()"
    and "ge_council_id e = c" "ge_council_id e' = c"
    and "ms_hash (last (ge_membership_history e)) = ms_hash (last (ge_membership_history e'))"
    and "short_ids (ge_membership_history e)" "short_ids (ge_membership_history e')"
    and "length (ge_membership_history e) \<le> MAX_MEMBERSHIP_SNAPSHOTS"
    and "length (ge_membership_history e') \<le> MAX_MEMBERSHIP_SNAPSHOTS"
  shows "ge_membership_history e = ge_membership_history e'
    \<or> (\<exists>s\<in>set (ge_membership_history e). \<exists>t\<in>set (ge_membership_history e').
          snapshot_preimage c s \<noteq> snapshot_preimage c t
          \<and> gl_sha256 L (snapshot_preimage c s) = gl_sha256 L (snapshot_preimage c t))"
proof -
  note v = assms(2,3)[unfolded validate_history_iff[OF assms(1)] assms(4,5)]
  then have "chain_parent ms_hash (ge_membership_history e) (length (ge_membership_history e))
      = chain_parent ms_hash (ge_membership_history e') (length (ge_membership_history e'))"
    using assms(6) by (simp add: chain_parent_def last_conv_nth)
  with v show ?thesis
    using chain_commits[OF assms(1) _ _ assms(7) _ _ assms(8)] assms(9,10)
    by (simp add: MAX_MEMBERSHIP_SNAPSHOTS_def)
qed

theorem membership_commitment_witness:
  "ge_membership_history (solo_done founding) = ge_membership_history solo_start
    \<or> (\<exists>s\<in>set (ge_membership_history (solo_done founding)). \<exists>t\<in>set (ge_membership_history solo_start).
          snapshot_preimage (Ident ''council_solo'') s \<noteq> snapshot_preimage (Ident ''council_solo'') t
          \<and> gl_sha256 plain_libs (snapshot_preimage (Ident ''council_solo'') s)
            = gl_sha256 plain_libs (snapshot_preimage (Ident ''council_solo'') t))"
proof -
  have same: "ge_membership_history (move_head i p d e) = ge_membership_history e"
    "ge_council_id (move_head i p d e) = ge_council_id e" for i p d e by (cases d; simp)+
  then have h: "ge_membership_history (solo_done founding) = ge_membership_history solo_start"
    "ge_council_id (solo_done founding) = Ident ''council_solo''"
    by (simp_all add: solo_done_def finalized_def solo_voted_def solo_submitted_def) (simp add: solo_start_def)
  have "short_ids (ge_membership_history solo_start)" "length (ge_membership_history solo_start) \<le> MAX_MEMBERSHIP_SNAPSHOTS"
    "ge_council_id solo_start = Ident ''council_solo''"
    by (simp_all add: short_ids_def solo_start_def MembershipSnapshot_new_def bs_elems_set solo_def MAX_ID_BYTES_def
        MAX_MEMBERSHIP_SNAPSHOTS_def)
  then show ?thesis
    using membership_commitment[OF plain_sha inv_chains_valid(1)[OF plain_sha gov_reachable_inv[OF plain_sha solo_reachable(2)]]
        inv_chains_valid(1)[OF plain_sha solo_inv] h(2)] h(1) by simp
qed

end
