(* ===== verification/Propagation_Types.thy ===== *)
theory Propagation_Types
  imports Protocol_Ids
begin

section \<open>Propagation campaigns (cthuwu-council: propagation.rs)\<close>

text \<open>
  What travels through a Council: typed payloads, strategies and policies of a campaign, candidate
  profiles, items with their provenance, acknowledgements, outcomes and credits, with the validation
  of each.  The serde encodings and SHA-256 (as lower-case hex) are the fields of \<open>prop_libs\<close>.
\<close>

definition MAX_CAMPAIGNS :: nat where "MAX_CAMPAIGNS = 256"
definition MAX_ITEMS :: nat where "MAX_ITEMS = 16384"
definition MAX_ACKNOWLEDGEMENTS :: nat where "MAX_ACKNOWLEDGEMENTS = 16384"
definition PROP_MAX_CANDIDATES :: nat where "PROP_MAX_CANDIDATES = 4096"
definition MAX_LOCAL_RULES :: nat where "MAX_LOCAL_RULES = 16384"
definition MAX_LOCAL_POLICY_EVENTS :: nat where "MAX_LOCAL_POLICY_EVENTS = 16384"
definition MAX_DEPTH :: nat where "MAX_DEPTH = 16"
definition MAX_FAN_OUT :: nat where "MAX_FAN_OUT = 64"
definition MAX_RATE_LIMIT :: nat where "MAX_RATE_LIMIT = 128"
definition MAX_CAMPAIGN_LIFETIME_SECONDS :: int where
  "MAX_CAMPAIGN_LIFETIME_SECONDS = 30 * 24 * 60 * 60"
definition MAX_RATE_WINDOW_SECONDS :: int where "MAX_RATE_WINDOW_SECONDS = 24 * 60 * 60"
definition PROP_MAX_TEXT_BYTES :: nat where "PROP_MAX_TEXT_BYTES = 4 * 1024"
definition PROP_MAX_SHORT_TEXT_BYTES :: nat where "PROP_MAX_SHORT_TEXT_BYTES = 256"
definition PROP_MAX_LIST_ITEMS :: nat where "PROP_MAX_LIST_ITEMS = 64"
definition MAX_PROVENANCE_HOPS :: nat where "MAX_PROVENANCE_HOPS = MAX_DEPTH"
definition MAX_CREDIT_PER_OUTCOME :: nat where "MAX_CREDIT_PER_OUTCOME = 5"
definition MAX_CREDIT_PER_CTHULHU_PER_CAMPAIGN :: nat where
  "MAX_CREDIT_PER_CTHULHU_PER_CAMPAIGN = 20"
definition MAX_TOTAL_CAMPAIGN_CREDIT :: nat where "MAX_TOTAL_CAMPAIGN_CREDIT = 512"

datatype propagation_error =
    PE_MalformedIdentifier string
  | PE_InvalidPolicy string
  | PE_InvalidPayload string
  | PE_InvalidHash
  | PE_LimitExceeded string
  | PE_InvalidTimestamp
  | PE_InvalidExpiry
  | PE_DuplicateCampaign
  | PE_CampaignNotFound
  | PE_ItemNotFound
  | PE_AcknowledgementNotFound
  | PE_CampaignExpired
  | PE_CampaignRevoked
  | PE_SenderMismatch
  | PE_ParentNotAccepted
  | PE_MessageIdConflict
  | PE_CandidateUnknown
  | PE_CandidateProfileInUse
  | PE_StrategyRejected
  | PE_VisibilityDenied
  | PE_DepthExceeded
  | PE_FanOutExceeded
  | PE_RateLimited
  | PE_OptedOut
  | PE_Blocked
  | PE_SelfReferral
  | PE_ReferralLoop
  | PE_DuplicateDelivery
  | PE_PolicyMismatch
  | PE_PayloadHashMismatch
  | PE_ForgedProvenance
  | PE_ConflictingResponse
  | PE_AcknowledgementConflict
  | PE_FakeAcknowledgement
  | PE_DuplicateOutcome
  | PE_DuplicateCreditEvidence
  | PE_InvalidCreditEvidence
  | PE_InapplicableOutcome
  | PE_CreditCapReached
  | PE_Serialization
  | PE_CorruptState string

subsection \<open>Outcome identifiers\<close>

typedecl outcome_tag

type_synonym outcome_id = "outcome_tag ident"
type_synonym campaign_id = propagation_id
type_synonym item_id = message_id

definition starts_with_sep :: "string \<Rightarrow> bool" where
  "starts_with_sep s = (case s of [] \<Rightarrow> False | c # cs \<Rightarrow> c = CHR ''_'' \<or> c = CHR ''-'')"

definition OutcomeId_parse :: "string \<Rightarrow> (propagation_error, outcome_id) result" where
  "OutcomeId_parse value =
     (case strip_prefix ''outcome_'' value of
        None \<Rightarrow> Inl (PE_MalformedIdentifier ''OutcomeId'')
      | Some suffix \<Rightarrow>
          if suffix = [] \<or> length suffix > 64
             \<or> starts_with_sep suffix \<or> starts_with_sep (rev suffix)
             \<or> contains_str ''__'' suffix \<or> contains_str ''--'' suffix
             \<or> \<not> list_all (\<lambda>c. is_ascii_lowercase c \<or> is_ascii_digit c \<or> c = CHR ''_'' \<or> c = CHR ''-'') suffix
          then Inl (PE_MalformedIdentifier ''OutcomeId'')
          else Inr (Ident value))"

subsection \<open>Text, tokens, tags and hashes\<close>

definition prop_validate_hash :: "string \<Rightarrow> (propagation_error, unit) result" where
  "prop_validate_hash value =
     (case strip_prefix ''sha256:'' value of
        None \<Rightarrow> Inl PE_InvalidHash
      | Some hex \<Rightarrow> if length hex \<noteq> 64 \<or> \<not> lower_hex hex then Inl PE_InvalidHash else Inr ())"

definition prop_validate_text :: "string \<Rightarrow> nat \<Rightarrow> string \<Rightarrow> bool \<Rightarrow> (propagation_error, unit) result" where
  "prop_validate_text value lim field single_line =
     (if is_blank value \<or> length value > lim \<or> CHR 0x00 \<in> set value
         \<or> (single_line \<and> (CHR 0x0D \<in> set value \<or> CHR 0x0A \<in> set value))
      then Inl (PE_InvalidPayload field) else Inr ())"

definition prop_validate_token :: "string \<Rightarrow> string \<Rightarrow> (propagation_error, unit) result" where
  "prop_validate_token value field =
     (if value = [] \<or> length value > 96 \<or> contains_str ''..'' value
         \<or> \<not> list_all (\<lambda>c. is_ascii_alphanumeric c \<or> c = CHR ''_'' \<or> c = CHR ''-''
                          \<or> c = CHR ''.'' \<or> c = CHR '':'') value
      then Inl (PE_InvalidPayload field) else Inr ())"

fun tags_loop :: "string \<Rightarrow> string bset \<Rightarrow> string list \<Rightarrow> (propagation_error, unit) result" where
  "tags_loop field unique [] = Inr ()"
| "tags_loop field unique (v # vs) =
     and_then (prop_validate_token v field) (\<lambda>_.
       if bs_member unique v then Inl (PE_InvalidPayload field)
       else tags_loop field (bs_insert v unique) vs)"

definition prop_validate_tags :: "string list \<Rightarrow> string \<Rightarrow> (propagation_error, unit) result" where
  "prop_validate_tags values field =
     (if values = [] \<or> length values > PROP_MAX_LIST_ITEMS then Inl (PE_LimitExceeded field)
      else tags_loop field bs_empty values)"

lemma tags_loop_ok:
  "tags_loop field unique vs = Inr () \<longleftrightarrow>
     distinct vs \<and> (\<forall>v\<in>set vs. prop_validate_token v field = Inr () \<and> \<not> bs_member unique v)"
  by (induction vs arbitrary: unique) auto

lemma prop_validate_tags_ok [check_simps]:
  "prop_validate_tags vs field = Inr () \<longleftrightarrow>
     vs \<noteq> [] \<and> length vs \<le> PROP_MAX_LIST_ITEMS \<and> distinct vs
     \<and> (\<forall>v\<in>set vs. prop_validate_token v field = Inr ())"
  by (auto simp: prop_validate_tags_def tags_loop_ok)

subsection \<open>Payloads\<close>

datatype prop_payload =
    PP_CouncilInvitation council_id string
  | PP_AgendaSummary string string
  | PP_ApprovedStrategy string string
  | PP_CapabilityRequest "string list" string
  | PP_ResourceNeed "string list" string
  | PP_ResourceOffer "string list" string
  | PP_ProtocolUpgrade string string string
  | PP_BoundedCampaign string string

definition payload_summary_ok :: "string \<Rightarrow> (propagation_error, unit) result" where
  "payload_summary_ok summary = prop_validate_text summary PROP_MAX_TEXT_BYTES ''payload summary'' False"

fun validate_prop_payload_body :: "prop_payload \<Rightarrow> (propagation_error, unit) result" where
  "validate_prop_payload_body (PP_CouncilInvitation council summary) = payload_summary_ok summary"
| "validate_prop_payload_body (PP_AgendaSummary agenda_hash summary) =
     run_checks [payload_summary_ok summary, prop_validate_hash agenda_hash]"
| "validate_prop_payload_body (PP_ApprovedStrategy strategy_hash summary) =
     run_checks [payload_summary_ok summary, prop_validate_hash strategy_hash]"
| "validate_prop_payload_body (PP_CapabilityRequest capability_tags summary) =
     run_checks [payload_summary_ok summary, prop_validate_tags capability_tags ''capability tags'']"
| "validate_prop_payload_body (PP_ResourceNeed categories summary) =
     run_checks [payload_summary_ok summary, prop_validate_tags categories ''resource categories'']"
| "validate_prop_payload_body (PP_ResourceOffer categories summary) =
     run_checks [payload_summary_ok summary, prop_validate_tags categories ''resource categories'']"
| "validate_prop_payload_body (PP_ProtocolUpgrade version artifact_hash summary) =
     run_checks [payload_summary_ok summary, prop_validate_token version ''protocol version'',
                 prop_validate_hash artifact_hash]"
| "validate_prop_payload_body (PP_BoundedCampaign name summary) =
     run_checks [prop_validate_text name PROP_MAX_SHORT_TEXT_BYTES ''campaign name'' True,
                 payload_summary_ok summary]"

datatype prop_visibility = PV_CouncilMembers | PV_InvitedBranches | PV_PublicMetadata

datatype prop_strategy =
    PS_BreadthFirst
  | PS_DepthLimited nat
  | PS_TrustedBranchOnly
  | PS_CapabilityTargeted string
  | PS_GeographicOrLatencyAware "string option" nat
  | PS_ReputationThresholded nat "string list"

fun validate_prop_strategy :: "prop_strategy \<Rightarrow> (propagation_error, unit) result" where
  "validate_prop_strategy PS_BreadthFirst = Inr ()"
| "validate_prop_strategy PS_TrustedBranchOnly = Inr ()"
| "validate_prop_strategy (PS_DepthLimited depth) =
     (if depth > 0 \<and> depth \<le> MAX_DEPTH then Inr () else Inl (PE_InvalidPolicy ''strategy depth''))"
| "validate_prop_strategy (PS_CapabilityTargeted capability) =
     prop_validate_token capability ''target capability''"
| "validate_prop_strategy (PS_GeographicOrLatencyAware preferred_region max_latency_ms) =
     (if max_latency_ms = 0 \<or> max_latency_ms > 60000 then Inl (PE_InvalidPolicy ''latency bound'')
      else case preferred_region of
             None \<Rightarrow> Inr ()
           | Some region \<Rightarrow> prop_validate_token region ''preferred region'')"
| "validate_prop_strategy (PS_ReputationThresholded minimum_bps accepted_sources) =
     (if minimum_bps > 10000 then Inl (PE_InvalidPolicy ''reputation threshold'')
      else prop_validate_tags accepted_sources ''reputation sources'')"

record prop_policy =
  po_version :: nat
  po_max_depth :: nat
  po_max_fan_out :: nat
  po_rate_limit :: nat
  po_rate_window :: int
  po_visibility :: prop_visibility

definition validate_prop_policy :: "prop_policy \<Rightarrow> (propagation_error, unit) result" where
  "validate_prop_policy p =
     (if po_version p = 0
         \<or> po_max_depth p = 0 \<or> po_max_depth p > MAX_DEPTH
         \<or> po_max_fan_out p = 0 \<or> po_max_fan_out p > MAX_FAN_OUT
         \<or> po_rate_limit p = 0 \<or> po_rate_limit p > MAX_RATE_LIMIT
         \<or> po_rate_window p \<le> 0 \<or> po_rate_window p > MAX_RATE_WINDOW_SECONDS
      then Inl (PE_InvalidPolicy ''bounds'') else Inr ())"

subsection \<open>Candidates, provenance and items\<close>

record reputation_signal =
  rs_source :: string
  rs_value_bps :: nat
  rs_observed_at :: int

record candidate_profile =
  cp_cthulhu_id :: cthulhu_id
  cp_trusted :: bool
  cp_council_memberships :: "council_id list"
  cp_capability_tags :: "string list"
  cp_region :: "string option"
  cp_latency_ms :: "nat option"
  cp_reputation_signals :: "reputation_signal list"

definition check_signal :: "reputation_signal \<Rightarrow> (propagation_error, unit) result" where
  "check_signal s = run_checks
     [prop_validate_token (rs_source s) ''reputation source'',
      ensure (\<not> (rs_value_bps s > 10000 \<or> rs_observed_at s < 0)) (PE_InvalidPolicy ''reputation signal'')]"

definition validate_candidate :: "candidate_profile \<Rightarrow> (propagation_error, unit) result" where
  "validate_candidate p = run_checks
     ([ensure (\<not> length (cp_council_memberships p) > PROP_MAX_LIST_ITEMS) (PE_LimitExceeded ''Council memberships''),
       ensure (\<not> bs_len (bs_of_list (cp_council_memberships p)) \<noteq> length (cp_council_memberships p))
         (PE_InvalidPolicy ''duplicate Council membership''),
       (if cp_capability_tags p \<noteq> [] then prop_validate_tags (cp_capability_tags p) ''candidate capabilities''
        else Inr ()),
       (case cp_region p of None \<Rightarrow> Inr () | Some region \<Rightarrow> prop_validate_token region ''candidate region''),
       ensure (\<not> (case cp_latency_ms p of None \<Rightarrow> False | Some latency \<Rightarrow> latency > 60000))
         (PE_InvalidPolicy ''candidate latency''),
       ensure (\<not> length (cp_reputation_signals p) > PROP_MAX_LIST_ITEMS) (PE_LimitExceeded ''reputation signals'')]
      @ map check_signal (cp_reputation_signals p))"

record prop_hop =
  hp_item_id :: item_id
  hp_sender :: cthulhu_id
  hp_recipient :: cthulhu_id
  hp_sent_at :: int
  hp_policy_generation :: nat
  hp_sender_profile_hash :: string
  hp_recipient_profile_hash :: string

record prop_provenance =
  pr_root :: cthulhu_id
  pr_hops :: "prop_hop list"
  pr_chain_hash :: string

datatype item_status = IS_Pending | IS_Accepted | IS_Rejected | IS_Acknowledged

record prop_item =
  it_id :: item_id
  it_campaign_id :: campaign_id
  it_parent_item_id :: "item_id option"
  it_sender :: cthulhu_id
  it_recipient :: cthulhu_id
  it_depth :: nat
  it_policy_version :: nat
  it_payload_hash :: string
  it_created_at :: int
  it_expires_at :: int
  it_provenance :: prop_provenance
  it_status :: item_status

abbreviation it_hops :: "prop_item \<Rightarrow> prop_hop list" where
  "it_hops i \<equiv> pr_hops (it_provenance i)"

datatype contribution_outcome =
    CO_SuccessfulIntroduction
  | CO_UsefulCapabilityReferral
  | CO_AcknowledgedDownstreamDelivery
  | CO_CompletedResourceMatch

record acknowledgement =
  ak_id :: acknowledgement_id
  ak_item_id :: item_id
  ak_actor :: cthulhu_id
  ak_outcome :: contribution_outcome
  ak_evidence_hash :: string
  ak_acknowledged_at :: int

record rate_record =
  rr_item_id :: item_id
  rr_campaign_id :: campaign_id
  rr_sender :: cthulhu_id
  rr_sent_at :: int

datatype policy_event_kind =
    EV_OptOut cthulhu_id bool
  | EV_Block cthulhu_id cthulhu_id bool

record policy_event =
  pv_generation :: nat
  pv_event :: policy_event_kind

record prop_explanation =
  px_allowed :: bool
  px_reasons :: "string list"
  px_depth :: nat
  px_remaining_fan_out :: nat

datatype delivery_result =
    DR_Created prop_item prop_explanation
  | DR_ReplaySuppressed prop_item

record outcome_claim =
  oc_id :: outcome_id
  oc_campaign_id :: campaign_id
  oc_item_id :: item_id
  oc_acknowledgement_id :: acknowledgement_id
  oc_contributor :: cthulhu_id
  oc_beneficiary :: cthulhu_id
  oc_outcome :: contribution_outcome
  oc_evidence_hash :: string
  oc_occurred_at :: int

record contribution_credit =
  cc_campaign_id :: campaign_id
  cc_cthulhu_id :: cthulhu_id
  cc_points :: nat
  cc_credited_outcomes :: nat

record proposed_credit =
  pc_points :: nat
  pc_reason :: string

record credit_explanation =
  ce_awarded_points :: nat
  ce_reason :: string
  ce_direct_contributor_only :: bool
  ce_contributor_campaign_total :: nat

subsection \<open>Encodings and hashes\<close>

text \<open>
  \<open>serde_json::to_vec\<close> of a payload, of a profile and of the material of a chain hash (campaign,
  payload hash, policy version, hops), and the hex form of the SHA-256 digest.
\<close>

record prop_libs =
  pl_payload :: "prop_payload \<Rightarrow> string option"
  pl_profile :: "candidate_profile \<Rightarrow> string option"
  pl_chain :: "campaign_id \<times> string \<times> nat \<times> prop_hop list \<Rightarrow> string option"
  pl_sha256 :: "string \<Rightarrow> string"

definition validate_prop_payload :: "prop_libs \<Rightarrow> prop_payload \<Rightarrow> (propagation_error, unit) result" where
  "validate_prop_payload L p =
     and_then (validate_prop_payload_body p) (\<lambda>_.
     and_then (ok_or PE_Serialization (pl_payload L p)) (\<lambda>bytes.
       if length bytes > 16 * 1024 then Inl (PE_LimitExceeded ''serialized payload'') else Inr ()))"

definition payload_content_hash :: "prop_libs \<Rightarrow> prop_payload \<Rightarrow> (propagation_error, string) result" where
  "payload_content_hash L p =
     and_then (validate_prop_payload L p) (\<lambda>_.
     and_then (ok_or PE_Serialization (pl_payload L p)) (\<lambda>bytes.
       Inr (''sha256:'' @ pl_sha256 L bytes)))"

definition provenance_hash ::
  "prop_libs \<Rightarrow> campaign_id \<Rightarrow> string \<Rightarrow> nat \<Rightarrow> prop_hop list \<Rightarrow> (propagation_error, string) result" where
  "provenance_hash L campaign payload_hash version hops =
     and_then (ok_or PE_Serialization (pl_chain L (campaign, payload_hash, version, hops))) (\<lambda>bytes.
       Inr (''sha256:'' @ pl_sha256 L bytes))"

definition profile_hash :: "prop_libs \<Rightarrow> candidate_profile \<Rightarrow> (propagation_error, string) result" where
  "profile_hash L p =
     and_then (validate_candidate p) (\<lambda>_.
     and_then (ok_or PE_Serialization (pl_profile L p)) (\<lambda>bytes.
       Inr (''sha256:'' @ pl_sha256 L bytes)))"

definition prop_sha_hex :: "prop_libs \<Rightarrow> bool" where
  "prop_sha_hex L \<longleftrightarrow> (\<forall>s. length (pl_sha256 L s) = 64 \<and> lower_hex (pl_sha256 L s))"

lemma prop_hash_ok: "prop_sha_hex L \<Longrightarrow> prop_validate_hash (''sha256:'' @ pl_sha256 L s) = Inr ()"
  unfolding prop_validate_hash_def strip_prefix_append prop_sha_hex_def by simp

subsection \<open>Campaigns\<close>

record campaign =
  ca_id :: campaign_id
  ca_council_id :: council_id
  ca_root :: cthulhu_id
  ca_payload :: prop_payload
  ca_payload_hash :: string
  ca_strategy :: prop_strategy
  ca_policy :: prop_policy
  ca_created_at :: int
  ca_expires_at :: int
  ca_revoked_at :: "int option"
  ca_revocation_reason :: "string option"

definition validate_campaign :: "prop_libs \<Rightarrow> campaign \<Rightarrow> (propagation_error, unit) result" where
  "validate_campaign L c =
     and_then (run_checks
       [validate_prop_payload L (ca_payload c),
        validate_prop_strategy (ca_strategy c),
        validate_prop_policy (ca_policy c),
        prop_validate_hash (ca_payload_hash c)]) (\<lambda>_.
     and_then (payload_content_hash L (ca_payload c)) (\<lambda>h. run_checks
       [ensure (\<not> h \<noteq> ca_payload_hash c) PE_PayloadHashMismatch,
        ensure (\<not> (ca_created_at c < 0 \<or> ca_expires_at c \<le> ca_created_at c
                    \<or> ca_expires_at c - ca_created_at c > MAX_CAMPAIGN_LIFETIME_SECONDS)) PE_InvalidExpiry,
        (case ca_revoked_at c of
           Some revoked_at \<Rightarrow>
             and_then (ensure (\<not> revoked_at < ca_created_at c) PE_InvalidTimestamp) (\<lambda>_.
             and_then (ok_or (PE_InvalidPolicy ''missing revocation reason'') (ca_revocation_reason c)) (\<lambda>reason.
               prop_validate_text reason PROP_MAX_SHORT_TEXT_BYTES ''revocation reason'' False))
         | None \<Rightarrow>
             ensure (ca_revocation_reason c = None)
               (PE_InvalidPolicy ''revocation reason without revocation''))]))"

definition is_revoked :: "campaign \<Rightarrow> bool" where
  "is_revoked c \<longleftrightarrow> ca_revoked_at c \<noteq> None"

subsection \<open>Incentives\<close>

type_synonym incentive_model = "campaign \<Rightarrow> prop_item \<Rightarrow> outcome_claim \<Rightarrow> proposed_credit"

fun outcome_credit :: "contribution_outcome \<Rightarrow> nat \<times> string" where
  "outcome_credit CO_SuccessfulIntroduction = (1, ''accepted and acknowledged direct introduction'')"
| "outcome_credit CO_UsefulCapabilityReferral = (3, ''acknowledged capability referral'')"
| "outcome_credit CO_AcknowledgedDownstreamDelivery = (2, ''authenticated downstream acknowledgement'')"
| "outcome_credit CO_CompletedResourceMatch = (5, ''acknowledged useful resource match'')"

definition SafeOutcomeCredit :: incentive_model where
  "SafeOutcomeCredit campaign item claim =
     (case outcome_credit (oc_outcome claim) of (points, reason) \<Rightarrow> \<lparr>pc_points = points, pc_reason = reason\<rparr>)"

fun outcome_applies :: "prop_payload \<Rightarrow> contribution_outcome \<Rightarrow> bool" where
  "outcome_applies payload CO_SuccessfulIntroduction =
     (case payload of PP_CouncilInvitation _ _ \<Rightarrow> True | _ \<Rightarrow> False)"
| "outcome_applies payload CO_UsefulCapabilityReferral =
     (case payload of PP_CapabilityRequest _ _ \<Rightarrow> True | _ \<Rightarrow> False)"
| "outcome_applies payload CO_AcknowledgedDownstreamDelivery = True"
| "outcome_applies payload CO_CompletedResourceMatch =
     (case payload of PP_ResourceNeed _ _ \<Rightarrow> True | PP_ResourceOffer _ _ \<Rightarrow> True | _ \<Rightarrow> False)"

definition validate_outcome_kind :: "prop_payload \<Rightarrow> contribution_outcome \<Rightarrow> (propagation_error, unit) result" where
  "validate_outcome_kind payload outcome = ensure (outcome_applies payload outcome) PE_InapplicableOutcome"

definition reputation_value :: "candidate_profile \<Rightarrow> string list \<Rightarrow> nat" where
  "reputation_value p accepted_sources =
     fold max (map rs_value_bps (filter (\<lambda>s. rs_source s \<in> set accepted_sources) (cp_reputation_signals p))) 0"

end
