(* ===== verification/Council_Propagation.thy ===== *)
theory Council_Propagation
  imports Propagation_Types
begin

section \<open>The propagation engine (cthuwu-council: propagation.rs)\<close>

text \<open>
  The engine's state and its operations.  Every operation checks first and changes the state last,
  so a refused call has no effect: the result is an error or the answer with the new state.  The
  maps of the source are hash maps; no result depends on their iteration order except which error
  a corrupt persisted state is refused with, and iteration is modelled in key order.
\<close>

subsection \<open>State\<close>

record prop_engine =
  pe_campaigns :: "(campaign_id, campaign) bmap"
  pe_items :: "(item_id, prop_item) bmap"
  pe_acks :: "(acknowledgement_id, acknowledgement) bmap"
  pe_profiles :: "(cthulhu_id, candidate_profile) bmap"
  pe_opted_out :: "cthulhu_id bset"
  pe_blocked :: "(cthulhu_id \<times> cthulhu_id) bset"
  pe_generation :: nat
  pe_events :: "policy_event list"
  pe_rates :: "rate_record list"
  pe_outcomes :: "(outcome_id, outcome_claim) bmap"
  pe_used_acks :: "acknowledgement_id bset"
  pe_credits :: "contribution_credit list"

definition PropagationEngine_default :: prop_engine where
  "PropagationEngine_default =
     \<lparr>pe_campaigns = bm_empty, pe_items = bm_empty, pe_acks = bm_empty, pe_profiles = bm_empty,
      pe_opted_out = bs_empty, pe_blocked = bs_empty, pe_generation = 0, pe_events = [], pe_rates = [],
      pe_outcomes = bm_empty, pe_used_acks = bs_empty, pe_credits = []\<rparr>"

subsection \<open>Hop validators\<close>

type_synonym hop_validator =
  "campaign \<Rightarrow> prop_item option \<Rightarrow> cthulhu_id \<Rightarrow> cthulhu_id \<Rightarrow> int \<Rightarrow> (propagation_error, string) result"

definition parent_accepted :: "prop_item \<Rightarrow> bool" where
  "parent_accepted i \<longleftrightarrow> it_status i = IS_Accepted \<or> it_status i = IS_Acknowledged"

definition StrictHopValidator :: "prop_libs \<Rightarrow> hop_validator" where
  "StrictHopValidator L c parent sender recipient now =
     and_then (run_checks
       [validate_campaign L c,
        ensure (\<not> is_revoked c) PE_CampaignRevoked,
        ensure (\<not> (now < ca_created_at c \<or> now \<ge> ca_expires_at c)) PE_CampaignExpired,
        (case parent of
           None \<Rightarrow> ensure (sender = ca_root c) PE_SenderMismatch
         | Some p \<Rightarrow>
             if it_recipient p \<noteq> sender then Inl PE_SenderMismatch
             else ensure (parent_accepted p) PE_ParentNotAccepted)])
       (\<lambda>_. Inr ''campaign and authenticated hop policy validated locally'')"

definition NoAdditionalHopPolicy :: hop_validator where
  "NoAdditionalHopPolicy c parent sender recipient now = Inr ''no additional local propagation restriction''"

subsection \<open>Campaigns, candidates and local rules\<close>

definition create_campaign ::
  "prop_libs \<Rightarrow> prop_engine \<Rightarrow> campaign_id \<Rightarrow> council_id \<Rightarrow> cthulhu_id \<Rightarrow> prop_payload \<Rightarrow> prop_strategy
   \<Rightarrow> prop_policy \<Rightarrow> int \<Rightarrow> int \<Rightarrow> (propagation_error, campaign \<times> prop_engine) result" where
  "create_campaign L e i council root payload strategy policy created_at expires_at =
     and_then (run_checks
       [ensure (\<not> bm_contains (pe_campaigns e) i) PE_DuplicateCampaign,
        ensure (\<not> bm_len (pe_campaigns e) \<ge> MAX_CAMPAIGNS) (PE_LimitExceeded ''campaigns''),
        validate_prop_payload L payload]) (\<lambda>_.
     and_then (payload_content_hash L payload) (\<lambda>payload_hash.
     let c = \<lparr>ca_id = i, ca_council_id = council, ca_root = root, ca_payload = payload,
              ca_payload_hash = payload_hash, ca_strategy = strategy, ca_policy = policy,
              ca_created_at = created_at, ca_expires_at = expires_at, ca_revoked_at = None,
              ca_revocation_reason = None\<rparr>
     in and_then (validate_campaign L c) (\<lambda>_.
          Inr (c, e\<lparr>pe_campaigns := bm_insert i c (pe_campaigns e)\<rparr>))))"

definition on_path :: "prop_item \<Rightarrow> cthulhu_id \<Rightarrow> bool" where
  "on_path i c \<longleftrightarrow> list_ex (\<lambda>h. hp_sender h = c \<or> hp_recipient h = c) (it_hops i)"

definition profile_in_use :: "prop_engine \<Rightarrow> cthulhu_id \<Rightarrow> bool" where
  "profile_in_use e c \<longleftrightarrow>
     list_ex (\<lambda>i. on_path i c) (bm_values (pe_items e))"

definition register_candidate ::
  "prop_engine \<Rightarrow> candidate_profile \<Rightarrow> (propagation_error, prop_engine) result" where
  "register_candidate e p =
     and_then (run_checks
       [validate_candidate p,
        ensure (\<not> ((case bm_get (pe_profiles e) (cp_cthulhu_id p) of None \<Rightarrow> False | Some q \<Rightarrow> q \<noteq> p)
                   \<and> profile_in_use e (cp_cthulhu_id p))) PE_CandidateProfileInUse,
        ensure (\<not> (bm_len (pe_profiles e) \<ge> PROP_MAX_CANDIDATES
                   \<and> \<not> bm_contains (pe_profiles e) (cp_cthulhu_id p))) (PE_LimitExceeded ''candidate profiles'')])
       (\<lambda>_. Inr (e\<lparr>pe_profiles := bm_insert (cp_cthulhu_id p) p (pe_profiles e)\<rparr>))"

definition next_policy_generation :: "prop_engine \<Rightarrow> (propagation_error, nat) result" where
  "next_policy_generation e =
     and_then (ensure (\<not> length (pe_events e) \<ge> MAX_LOCAL_POLICY_EVENTS) (PE_LimitExceeded ''local policy events''))
       (\<lambda>_. ok_or (PE_LimitExceeded ''local policy generation'') (checked_add u64_max (pe_generation e) 1))"

definition set_opt_out ::
  "prop_engine \<Rightarrow> cthulhu_id \<Rightarrow> bool \<Rightarrow> (propagation_error, prop_engine) result" where
  "set_opt_out e c opted_out =
     (if bs_member (pe_opted_out e) c = opted_out then Inr e
      else and_then (next_policy_generation e) (\<lambda>generation.
        let log = e\<lparr>pe_events := pe_events e @ [\<lparr>pv_generation = generation, pv_event = EV_OptOut c opted_out\<rparr>],
                    pe_generation := generation\<rparr>
        in if opted_out
           then (if bs_len (pe_opted_out e) \<ge> MAX_LOCAL_RULES \<and> \<not> bs_member (pe_opted_out e) c
                 then Inl (PE_LimitExceeded ''opt-out rules'')
                 else Inr (log\<lparr>pe_opted_out := bs_insert c (pe_opted_out e)\<rparr>))
           else Inr (log\<lparr>pe_opted_out := bs_remove c (pe_opted_out e)\<rparr>)))"

definition set_blocked ::
  "prop_engine \<Rightarrow> cthulhu_id \<Rightarrow> cthulhu_id \<Rightarrow> bool \<Rightarrow> (propagation_error, prop_engine) result" where
  "set_blocked e owner target is_blocked =
     (if owner = target then Inl PE_SelfReferral
      else if bs_member (pe_blocked e) (owner, target) = is_blocked then Inr e
      else and_then (next_policy_generation e) (\<lambda>generation.
        let log = e\<lparr>pe_events := pe_events e @ [\<lparr>pv_generation = generation, pv_event = EV_Block owner target is_blocked\<rparr>],
                    pe_generation := generation\<rparr>
        in if is_blocked
           then (if bs_len (pe_blocked e) \<ge> MAX_LOCAL_RULES \<and> \<not> bs_member (pe_blocked e) (owner, target)
                 then Inl (PE_LimitExceeded ''block rules'')
                 else Inr (log\<lparr>pe_blocked := bs_insert (owner, target) (pe_blocked e)\<rparr>))
           else Inr (log\<lparr>pe_blocked := bs_remove (owner, target) (pe_blocked e)\<rparr>)))"

subsection \<open>Strategies\<close>

text \<open>The explanation that \<open>strategy_allows\<close> appends to the reasons is its result here.\<close>

fun strategy_reason ::
  "prop_strategy \<Rightarrow> candidate_profile \<Rightarrow> nat \<Rightarrow> (propagation_error, string) result" where
  "strategy_reason PS_BreadthFirst p depth = Inr ''breadth-first candidate ordered by stable Cthulhu ID''"
| "strategy_reason (PS_DepthLimited limit) p depth =
     (if depth > limit then Inl PE_DepthExceeded
      else Inr (''depth '' @ decimal depth @ '' is within strategy limit '' @ decimal limit))"
| "strategy_reason PS_TrustedBranchOnly p depth =
     (if \<not> cp_trusted p then Inl PE_StrategyRejected
      else Inr ''recipient is in the locally trusted branch set'')"
| "strategy_reason (PS_CapabilityTargeted capability) p depth =
     (if capability \<notin> set (cp_capability_tags p) then Inl PE_StrategyRejected
      else Inr (''recipient advertises required capability '' @ capability))"
| "strategy_reason (PS_GeographicOrLatencyAware preferred_region max_latency_ms) p depth =
     and_then (ok_or PE_StrategyRejected (cp_latency_ms p)) (\<lambda>latency.
       if latency > max_latency_ms
          \<or> (case preferred_region of None \<Rightarrow> False | Some region \<Rightarrow> cp_region p \<noteq> Some region)
       then Inl PE_StrategyRejected
       else Inr (''recipient location and '' @ decimal latency @ ''ms latency satisfy local bounds''))"
| "strategy_reason (PS_ReputationThresholded minimum_bps accepted_sources) p depth =
     (let v = reputation_value p accepted_sources in
      if v < minimum_bps then Inl PE_StrategyRejected
      else Inr (''selected provenance-bearing reputation signal '' @ decimal v @ ''bps meets threshold''))"

definition strategy_allows ::
  "campaign \<Rightarrow> candidate_profile \<Rightarrow> nat \<Rightarrow> (propagation_error, string) result" where
  "strategy_allows c p depth = strategy_reason (ca_strategy c) p depth"

definition is_trusted :: "prop_engine \<Rightarrow> cthulhu_id \<Rightarrow> bool" where
  "is_trusted e c = (case bm_get (pe_profiles e) c of None \<Rightarrow> False | Some p \<Rightarrow> cp_trusted p)"

definition branch_is_trusted :: "prop_engine \<Rightarrow> prop_item \<Rightarrow> bool" where
  "branch_is_trusted e i \<longleftrightarrow>
     list_all (\<lambda>h. is_trusted e (hp_sender h) \<and> is_trusted e (hp_recipient h)) (it_hops i)"

definition validate_depth_and_strategy ::
  "prop_engine \<Rightarrow> campaign \<Rightarrow> prop_item option \<Rightarrow> cthulhu_id \<Rightarrow> nat \<Rightarrow> (propagation_error, string) result" where
  "validate_depth_and_strategy e c parent recipient depth =
     (if depth = 0 \<or> depth > po_max_depth (ca_policy c) \<or> depth > MAX_PROVENANCE_HOPS then Inl PE_DepthExceeded
      else if (case parent of None \<Rightarrow> False | Some p \<Rightarrow> on_path p recipient) then Inl PE_ReferralLoop
      else and_then (ok_or PE_CandidateUnknown (bm_get (pe_profiles e) recipient)) (\<lambda>p.
        if po_visibility (ca_policy c) = PV_CouncilMembers \<and> ca_council_id c \<notin> set (cp_council_memberships p)
        then Inl PE_VisibilityDenied
        else if ca_strategy c = PS_TrustedBranchOnly
                \<and> (\<not> cp_trusted p
                   \<or> (case parent of None \<Rightarrow> False | Some i \<Rightarrow> \<not> branch_is_trusted e i))
        then Inl PE_StrategyRejected
        else strategy_allows c p depth))"

subsection \<open>Items\<close>

fun item_hops_loop ::
  "campaign \<Rightarrow> prop_hop option \<Rightarrow> cthulhu_id bset \<Rightarrow> prop_hop list \<Rightarrow> (propagation_error, unit) result" where
  "item_hops_loop c previous seen [] = Inr ()"
| "item_hops_loop c previous seen (hop # hops) =
     and_then (run_checks
       [prop_validate_hash (hp_sender_profile_hash hop),
        prop_validate_hash (hp_recipient_profile_hash hop),
        ensure (\<not> (hp_sent_at hop < ca_created_at c \<or> hp_sent_at hop \<ge> ca_expires_at c
                   \<or> bs_member seen (hp_recipient hop))) PE_ForgedProvenance,
        (case previous of
           None \<Rightarrow> Inr ()
         | Some p \<Rightarrow>
             ensure (\<not> (hp_recipient p \<noteq> hp_sender hop
                        \<or> hp_recipient_profile_hash p \<noteq> hp_sender_profile_hash hop
                        \<or> hp_policy_generation p > hp_policy_generation hop)) PE_ForgedProvenance)])
       (\<lambda>_. item_hops_loop c (Some hop) (bs_insert (hp_recipient hop) seen) hops)"

definition first_hop :: "prop_item \<Rightarrow> prop_hop option" where
  "first_hop i = (if it_hops i = [] then None else Some (hd (it_hops i)))"

definition last_hop :: "prop_item \<Rightarrow> prop_hop option" where
  "last_hop i = (if it_hops i = [] then None else Some (last (it_hops i)))"

definition check_parent :: "prop_engine \<Rightarrow> prop_item \<Rightarrow> (propagation_error, unit) result" where
  "check_parent e i =
     (case it_parent_item_id i of
        Some parent_id \<Rightarrow>
          and_then (ok_or PE_ItemNotFound (bm_get (pe_items e) parent_id)) (\<lambda>parent.
            ensure (\<not> (it_campaign_id parent \<noteq> it_campaign_id i
                       \<or> it_recipient parent \<noteq> it_sender i
                       \<or> it_hops parent \<noteq> butlast (it_hops i))) PE_ForgedProvenance)
      | None \<Rightarrow> ensure (it_depth i = 1) PE_ForgedProvenance)"

definition validate_item_value ::
  "prop_libs \<Rightarrow> prop_engine \<Rightarrow> prop_item \<Rightarrow> int \<Rightarrow> (propagation_error, unit) result" where
  "validate_item_value L e i now =
     and_then (ok_or PE_CampaignNotFound (bm_get (pe_campaigns e) (it_campaign_id i))) (\<lambda>c.
     and_then (run_checks
       [ensure (\<not> (it_policy_version i \<noteq> po_version (ca_policy c) \<or> it_payload_hash i \<noteq> ca_payload_hash c
                   \<or> it_expires_at i \<noteq> ca_expires_at c)) PE_PolicyMismatch,
        ensure (\<not> (now < it_created_at i \<or> now \<ge> it_expires_at i)) PE_CampaignExpired,
        ensure (\<not> (it_depth i \<noteq> length (it_hops i) \<or> it_depth i = 0
                   \<or> it_depth i > po_max_depth (ca_policy c))) PE_DepthExceeded,
        ensure (\<not> pr_root (it_provenance i) \<noteq> ca_root c) PE_ForgedProvenance]) (\<lambda>_.
     and_then (ok_or PE_ForgedProvenance (first_hop i)) (\<lambda>hop1.
     and_then (ok_or PE_ForgedProvenance (last_hop i)) (\<lambda>hopn.
     and_then (ensure (\<not> (hp_sender hop1 \<noteq> ca_root c \<or> hp_item_id hopn \<noteq> it_id i
                          \<or> hp_sender hopn \<noteq> it_sender i \<or> hp_recipient hopn \<noteq> it_recipient i
                          \<or> hp_sent_at hopn \<noteq> it_created_at i
                          \<or> hp_policy_generation hopn > pe_generation e)) PE_ForgedProvenance) (\<lambda>_.
     and_then (ok_or PE_CandidateUnknown (bm_get (pe_profiles e) (it_sender i))) (\<lambda>sender_profile.
     and_then (ok_or PE_CandidateUnknown (bm_get (pe_profiles e) (it_recipient i))) (\<lambda>recipient_profile.
     and_then (profile_hash L sender_profile) (\<lambda>sender_hash.
     and_then (if sender_hash \<noteq> hp_sender_profile_hash hopn then Inl PE_ForgedProvenance else Inr ()) (\<lambda>_.
     and_then (profile_hash L recipient_profile) (\<lambda>recipient_hash.
     and_then (run_checks
       [ensure (\<not> recipient_hash \<noteq> hp_recipient_profile_hash hopn) PE_ForgedProvenance,
        item_hops_loop c None (bs_insert (ca_root c) bs_empty) (it_hops i),
        check_parent e i]) (\<lambda>_.
     and_then (provenance_hash L (ca_id c) (ca_payload_hash c) (po_version (ca_policy c)) (it_hops i)) (\<lambda>expected.
       ensure (\<not> expected \<noteq> pr_chain_hash (it_provenance i)) PE_ForgedProvenance))))))))))))"

definition campaign_sends :: "prop_engine \<Rightarrow> campaign_id \<Rightarrow> cthulhu_id \<Rightarrow> nat" where
  "campaign_sends e c sender =
     length (filter (\<lambda>i. it_campaign_id i = c \<and> it_sender i = sender) (bm_values (pe_items e)))"

definition recent_sends :: "prop_engine \<Rightarrow> campaign \<Rightarrow> cthulhu_id \<Rightarrow> int \<Rightarrow> nat" where
  "recent_sends e c sender now =
     length (filter (\<lambda>r. rr_campaign_id r = ca_id c \<and> rr_sender r = sender
                         \<and> rr_sent_at r > now - po_rate_window (ca_policy c) \<and> rr_sent_at r \<le> now) (pe_rates e))"

definition ancestor_blocked :: "prop_engine \<Rightarrow> prop_item option \<Rightarrow> cthulhu_id \<Rightarrow> bool" where
  "ancestor_blocked e parent recipient \<longleftrightarrow>
     (case parent of
        None \<Rightarrow> False
      | Some p \<Rightarrow> list_ex (\<lambda>h. bs_member (pe_blocked e) (recipient, hp_sender h)
                                  \<or> bs_member (pe_blocked e) (recipient, hp_recipient h)) (it_hops p))"

definition parent_of :: "prop_engine \<Rightarrow> item_id option \<Rightarrow> (propagation_error, prop_item option) result" where
  "parent_of e parent_id =
     (case parent_id of
        None \<Rightarrow> Inr None
      | Some i \<Rightarrow> and_then (ok_or PE_ItemNotFound (bm_get (pe_items e) i)) (\<lambda>p. Inr (Some p)))"

definition child_depth :: "prop_item option \<Rightarrow> nat" where
  "child_depth parent = (case parent of None \<Rightarrow> 1 | Some p \<Rightarrow> saturating_add u8_max (it_depth p) 1)"

definition parent_hops :: "prop_item option \<Rightarrow> prop_hop list" where
  "parent_hops parent = (case parent of None \<Rightarrow> [] | Some p \<Rightarrow> it_hops p)"

definition send_guards ::
  "prop_engine \<Rightarrow> campaign \<Rightarrow> prop_item option \<Rightarrow> cthulhu_id \<Rightarrow> cthulhu_id \<Rightarrow> (propagation_error, unit) result" where
  "send_guards e c parent sender recipient = run_checks
     [ensure (\<not> (bs_member (pe_opted_out e) sender \<or> bs_member (pe_opted_out e) recipient)) PE_OptedOut,
      ensure (\<not> (bs_member (pe_blocked e) (sender, recipient)
                 \<or> bs_member (pe_blocked e) (recipient, sender))) PE_Blocked,
      ensure (\<not> ancestor_blocked e parent recipient) PE_Blocked,
      ensure (\<not> (case parent of
                   None \<Rightarrow> False
                 | Some p \<Rightarrow> it_campaign_id p \<noteq> ca_id c \<or> it_policy_version p \<noteq> po_version (ca_policy c)
                            \<or> it_payload_hash p \<noteq> ca_payload_hash c)) PE_PolicyMismatch]"

definition send_limits ::
  "prop_engine \<Rightarrow> campaign \<Rightarrow> prop_item option \<Rightarrow> cthulhu_id \<Rightarrow> cthulhu_id \<Rightarrow> int
   \<Rightarrow> (propagation_error, unit) result" where
  "send_limits e c parent sender recipient now = run_checks
     [ensure (\<not> list_ex (\<lambda>i. it_campaign_id i = ca_id c \<and> it_recipient i = recipient) (bm_values (pe_items e)))
        PE_DuplicateDelivery,
      ensure (\<not> campaign_sends e (ca_id c) sender \<ge> po_max_fan_out (ca_policy c)) PE_FanOutExceeded,
      ensure (\<not> recent_sends e c sender now \<ge> po_rate_limit (ca_policy c)) PE_RateLimited,
      ensure (\<not> list_ex (\<lambda>h. hp_sender h = recipient \<or> hp_recipient h = recipient) (parent_hops parent))
        PE_ReferralLoop,
      ensure (\<not> (parent = None \<and> sender \<noteq> ca_root c)) PE_SenderMismatch]"

definition new_item ::
  "campaign \<Rightarrow> item_id option \<Rightarrow> item_id \<Rightarrow> cthulhu_id \<Rightarrow> cthulhu_id \<Rightarrow> nat \<Rightarrow> int \<Rightarrow> prop_hop list \<Rightarrow> string
   \<Rightarrow> prop_item" where
  "new_item c parent_id i sender recipient depth now hops chain_hash =
     \<lparr>it_id = i, it_campaign_id = ca_id c, it_parent_item_id = parent_id, it_sender = sender,
      it_recipient = recipient, it_depth = depth, it_policy_version = po_version (ca_policy c),
      it_payload_hash = ca_payload_hash c, it_created_at = now, it_expires_at = ca_expires_at c,
      it_provenance = \<lparr>pr_root = ca_root c, pr_hops = hops, pr_chain_hash = chain_hash\<rparr>,
      it_status = IS_Pending\<rparr>"

definition send_with_validator ::
  "prop_libs \<Rightarrow> prop_engine \<Rightarrow> campaign_id \<Rightarrow> item_id option \<Rightarrow> item_id \<Rightarrow> cthulhu_id \<Rightarrow> cthulhu_id \<Rightarrow> int
   \<Rightarrow> hop_validator \<Rightarrow> (propagation_error, delivery_result \<times> prop_engine) result" where
  "send_with_validator L e campaign_id parent_id i sender recipient now validator =
     (case bm_get (pe_items e) i of
        Some existing \<Rightarrow>
          if it_campaign_id existing = campaign_id \<and> it_parent_item_id existing = parent_id
             \<and> it_sender existing = sender \<and> it_recipient existing = recipient
          then Inr (DR_ReplaySuppressed existing, e)
          else Inl PE_MessageIdConflict
      | None \<Rightarrow>
          and_then (run_checks
            [ensure (\<not> bm_len (pe_items e) \<ge> MAX_ITEMS) (PE_LimitExceeded ''propagation items''),
             ensure (\<not> sender = recipient) PE_SelfReferral]) (\<lambda>_.
          and_then (ok_or PE_CampaignNotFound (bm_get (pe_campaigns e) campaign_id)) (\<lambda>c.
          and_then (parent_of e parent_id) (\<lambda>parent.
          and_then (StrictHopValidator L c parent sender recipient now) (\<lambda>strict_reason.
          and_then (validator c parent sender recipient now) (\<lambda>local_reason.
          and_then (run_checks
            [prop_validate_text local_reason PROP_MAX_SHORT_TEXT_BYTES ''local policy explanation'' False,
             send_guards e c parent sender recipient]) (\<lambda>_.
          let depth = child_depth parent in
          and_then (validate_depth_and_strategy e c parent recipient depth) (\<lambda>strategy_text.
          and_then (ok_or PE_CandidateUnknown (bm_get (pe_profiles e) sender)) (\<lambda>sender_profile.
          and_then (ok_or PE_CandidateUnknown (bm_get (pe_profiles e) recipient)) (\<lambda>recipient_profile.
          and_then (profile_hash L sender_profile) (\<lambda>sender_hash.
          and_then (profile_hash L recipient_profile) (\<lambda>recipient_hash.
          and_then (send_limits e c parent sender recipient now) (\<lambda>_.
          let hops = parent_hops parent
                @ [\<lparr>hp_item_id = i, hp_sender = sender, hp_recipient = recipient, hp_sent_at = now,
                    hp_policy_generation = pe_generation e, hp_sender_profile_hash = sender_hash,
                    hp_recipient_profile_hash = recipient_hash\<rparr>] in
          and_then (provenance_hash L (ca_id c) (ca_payload_hash c) (po_version (ca_policy c)) hops) (\<lambda>chain_hash.
          let item = new_item c parent_id i sender recipient depth now hops chain_hash in
          and_then (validate_item_value L e item now) (\<lambda>_.
            Inr (DR_Created item
                   \<lparr>px_allowed = True,
                    px_reasons = [strict_reason, local_reason, strategy_text,
                      ''duplicate, loop, depth, fan-out, rate, opt-out, and blocking checks passed''],
                    px_depth = depth,
                    px_remaining_fan_out =
                      po_max_fan_out (ca_policy c) - campaign_sends e (ca_id c) sender mod 65536 - 1\<rparr>,
                 e\<lparr>pe_items := bm_insert i item (pe_items e),
                   pe_rates := pe_rates e
                     @ [\<lparr>rr_item_id = i, rr_campaign_id = ca_id c, rr_sender = sender, rr_sent_at = now\<rparr>]\<rparr>))))))))))))))))"

definition send_initial ::
  "prop_libs \<Rightarrow> prop_engine \<Rightarrow> campaign_id \<Rightarrow> item_id \<Rightarrow> cthulhu_id \<Rightarrow> cthulhu_id \<Rightarrow> int
   \<Rightarrow> (propagation_error, delivery_result \<times> prop_engine) result" where
  "send_initial L e campaign_id i sender recipient now =
     send_with_validator L e campaign_id None i sender recipient now NoAdditionalHopPolicy"

definition forward ::
  "prop_libs \<Rightarrow> prop_engine \<Rightarrow> item_id \<Rightarrow> item_id \<Rightarrow> cthulhu_id \<Rightarrow> cthulhu_id \<Rightarrow> int
   \<Rightarrow> (propagation_error, delivery_result \<times> prop_engine) result" where
  "forward L e parent_id i sender recipient now =
     and_then (ok_or PE_ItemNotFound (bm_get (pe_items e) parent_id)) (\<lambda>parent.
       send_with_validator L e (it_campaign_id parent) (Some parent_id) i sender recipient now
         NoAdditionalHopPolicy)"

subsection \<open>Responses, acknowledgements and revocation\<close>

definition live_campaign_item ::
  "prop_engine \<Rightarrow> item_id \<Rightarrow> (propagation_error, prop_item) result" where
  "live_campaign_item e i =
     and_then (ok_or PE_ItemNotFound (bm_get (pe_items e) i)) (\<lambda>item.
     and_then (ok_or PE_CampaignNotFound (bm_get (pe_campaigns e) (it_campaign_id item))) (\<lambda>c.
       if is_revoked c then Inl PE_CampaignRevoked else Inr item))"

definition put_item :: "item_id \<Rightarrow> prop_item \<Rightarrow> prop_engine \<Rightarrow> prop_engine" where
  "put_item i item e = e\<lparr>pe_items := bm_insert i item (pe_items e)\<rparr>"

definition respond ::
  "prop_engine \<Rightarrow> item_id \<Rightarrow> cthulhu_id \<Rightarrow> bool \<Rightarrow> int
   \<Rightarrow> (propagation_error, item_status \<times> prop_engine) result" where
  "respond e i recipient accept now =
     and_then (live_campaign_item e i) (\<lambda>item.
       if it_recipient item \<noteq> recipient then Inl PE_SenderMismatch
       else if now < it_created_at item \<or> now \<ge> it_expires_at item then Inl PE_CampaignExpired
       else let desired = (if accept then IS_Accepted else IS_Rejected) in
         if it_status item = IS_Pending then Inr (desired, put_item i (item\<lparr>it_status := desired\<rparr>) e)
         else if it_status item = desired then Inr (desired, e)
         else Inl PE_ConflictingResponse)"

definition acknowledge_outcome ::
  "prop_engine \<Rightarrow> item_id \<Rightarrow> acknowledgement_id \<Rightarrow> cthulhu_id \<Rightarrow> contribution_outcome \<Rightarrow> string \<Rightarrow> int
   \<Rightarrow> (propagation_error, acknowledgement \<times> prop_engine) result" where
  "acknowledge_outcome e i ack_id recipient outcome evidence_hash now =
     and_then (prop_validate_hash evidence_hash) (\<lambda>_.
       case bm_get (pe_acks e) ack_id of
         Some existing \<Rightarrow>
           if ak_item_id existing = i \<and> ak_actor existing = recipient \<and> ak_outcome existing = outcome
              \<and> ak_evidence_hash existing = evidence_hash
           then Inr (existing, e) else Inl PE_AcknowledgementConflict
       | None \<Rightarrow>
           if bm_len (pe_acks e) \<ge> MAX_ACKNOWLEDGEMENTS then Inl (PE_LimitExceeded ''acknowledgements'')
           else and_then (live_campaign_item e i) (\<lambda>item.
             if it_recipient item \<noteq> recipient then Inl PE_FakeAcknowledgement
             else if it_status item \<noteq> IS_Accepted \<or> now < it_created_at item \<or> now \<ge> it_expires_at item
             then Inl PE_FakeAcknowledgement
             else let ack = \<lparr>ak_id = ack_id, ak_item_id = i, ak_actor = recipient, ak_outcome = outcome,
                             ak_evidence_hash = evidence_hash, ak_acknowledged_at = now\<rparr>
                  in Inr (ack, (put_item i (item\<lparr>it_status := IS_Acknowledged\<rparr>) e)
                                 \<lparr>pe_acks := bm_insert ack_id ack (pe_acks e)\<rparr>)))"

definition acknowledge ::
  "prop_libs \<Rightarrow> prop_engine \<Rightarrow> item_id \<Rightarrow> acknowledgement_id \<Rightarrow> cthulhu_id \<Rightarrow> int
   \<Rightarrow> (propagation_error, acknowledgement \<times> prop_engine) result" where
  "acknowledge L e i ack_id recipient now =
     acknowledge_outcome e i ack_id recipient CO_AcknowledgedDownstreamDelivery
       (''sha256:'' @ pl_sha256 L (''delivery:'' @ as_str i)) now"

definition revoke_campaign ::
  "prop_engine \<Rightarrow> campaign_id \<Rightarrow> cthulhu_id \<Rightarrow> string \<Rightarrow> int \<Rightarrow> (propagation_error, prop_engine) result" where
  "revoke_campaign e campaign_id root reason now =
     and_then (prop_validate_text reason PROP_MAX_SHORT_TEXT_BYTES ''revocation reason'' False) (\<lambda>_.
     and_then (ok_or PE_CampaignNotFound (bm_get (pe_campaigns e) campaign_id)) (\<lambda>c.
       if ca_root c \<noteq> root then Inl PE_SenderMismatch
       else if now < ca_created_at c then Inl PE_InvalidTimestamp
       else if ca_revoked_at c = None
       then Inr (e\<lparr>pe_campaigns := bm_insert campaign_id
              (c\<lparr>ca_revoked_at := Some now, ca_revocation_reason := Some reason\<rparr>) (pe_campaigns e)\<rparr>)
       else Inr e))"

definition explain_item ::
  "prop_libs \<Rightarrow> prop_engine \<Rightarrow> item_id \<Rightarrow> int \<Rightarrow> (propagation_error, prop_explanation) result" where
  "explain_item L e i now =
     and_then (live_campaign_item e i) (\<lambda>item.
     and_then (validate_item_value L e item now) (\<lambda>_.
     and_then (ok_or PE_CampaignNotFound (bm_get (pe_campaigns e) (it_campaign_id item))) (\<lambda>c.
       Inr \<lparr>px_allowed = True,
            px_reasons = [''payload hash, policy version, provenance chain, sender continuity, expiry, and path uniqueness validated''],
            px_depth = it_depth item,
            px_remaining_fan_out = saturating_sub (po_max_fan_out (ca_policy c))
              (campaign_sends e (it_campaign_id item) (it_sender item) mod 65536)\<rparr>)))"

subsection \<open>Credit\<close>

definition same_credit :: "outcome_claim \<Rightarrow> contribution_credit \<Rightarrow> bool" where
  "same_credit claim c \<longleftrightarrow> cc_campaign_id c = oc_campaign_id claim \<and> cc_cthulhu_id c = oc_contributor claim"

definition campaign_points :: "prop_engine \<Rightarrow> campaign_id \<Rightarrow> nat" where
  "campaign_points e c =
     fold (\<lambda>p total. saturating_add u16_max total p)
       (map cc_points (filter (\<lambda>x. cc_campaign_id x = c) (pe_credits e))) 0"

definition existing_points :: "prop_engine \<Rightarrow> outcome_claim \<Rightarrow> nat" where
  "existing_points e claim = (case find (same_credit claim) (pe_credits e) of None \<Rightarrow> 0 | Some c \<Rightarrow> cc_points c)"

definition awarded_points :: "prop_engine \<Rightarrow> outcome_claim \<Rightarrow> nat \<Rightarrow> nat" where
  "awarded_points e claim proposed =
     min (min (min proposed MAX_CREDIT_PER_OUTCOME)
            (saturating_sub MAX_CREDIT_PER_CTHULHU_PER_CAMPAIGN (existing_points e claim)))
         (saturating_sub MAX_TOTAL_CAMPAIGN_CREDIT (campaign_points e (oc_campaign_id claim)))"

fun add_credit :: "outcome_claim \<Rightarrow> nat \<Rightarrow> contribution_credit list \<Rightarrow> contribution_credit list" where
  "add_credit claim awarded [] =
     [\<lparr>cc_campaign_id = oc_campaign_id claim, cc_cthulhu_id = oc_contributor claim,
       cc_points = awarded, cc_credited_outcomes = 1\<rparr>]"
| "add_credit claim awarded (c # cs) =
     (if same_credit claim c
      then c\<lparr>cc_points := saturating_add u16_max (cc_points c) awarded,
             cc_credited_outcomes := saturating_add u16_max (cc_credited_outcomes c) 1\<rparr> # cs
      else c # add_credit claim awarded cs)"

definition claim_fits :: "outcome_claim \<Rightarrow> prop_item \<Rightarrow> acknowledgement \<Rightarrow> bool" where
  "claim_fits claim item ack \<longleftrightarrow>
     \<not> (it_campaign_id item \<noteq> oc_campaign_id claim \<or> it_sender item \<noteq> oc_contributor claim
        \<or> it_recipient item \<noteq> oc_beneficiary claim \<or> ak_item_id ack \<noteq> it_id item
        \<or> ak_actor ack \<noteq> oc_beneficiary claim \<or> ak_outcome ack \<noteq> oc_outcome claim
        \<or> ak_evidence_hash ack \<noteq> oc_evidence_hash claim)"

definition record_outcome ::
  "prop_engine \<Rightarrow> outcome_claim \<Rightarrow> incentive_model
   \<Rightarrow> (propagation_error, credit_explanation \<times> prop_engine) result" where
  "record_outcome e claim model =
     and_then (run_checks
       [prop_validate_hash (oc_evidence_hash claim),
        ensure (\<not> bm_contains (pe_outcomes e) (oc_id claim)) PE_DuplicateOutcome,
        ensure (\<not> bs_member (pe_used_acks e) (oc_acknowledgement_id claim)) PE_DuplicateCreditEvidence,
        ensure (\<not> oc_contributor claim = oc_beneficiary claim) PE_SelfReferral]) (\<lambda>_.
     and_then (ok_or PE_CampaignNotFound (bm_get (pe_campaigns e) (oc_campaign_id claim))) (\<lambda>c.
     and_then (ensure (\<not> (is_revoked c \<or> oc_occurred_at claim \<ge> ca_expires_at c)) PE_CampaignRevoked) (\<lambda>_.
     and_then (ok_or PE_ItemNotFound (bm_get (pe_items e) (oc_item_id claim))) (\<lambda>item.
     and_then (ok_or PE_AcknowledgementNotFound (bm_get (pe_acks e) (oc_acknowledgement_id claim))) (\<lambda>ack.
     and_then (run_checks
       [ensure (\<not> (\<not> claim_fits claim item ack \<or> it_status item \<noteq> IS_Acknowledged
                   \<or> oc_occurred_at claim < ak_acknowledged_at ack)) PE_InvalidCreditEvidence,
        validate_outcome_kind (ca_payload c) (oc_outcome claim)]) (\<lambda>_.
     let proposed = model c item claim in
     and_then (prop_validate_text (pc_reason proposed) PROP_MAX_SHORT_TEXT_BYTES ''credit reason'' False) (\<lambda>_.
     let awarded = awarded_points e claim (pc_points proposed) in
       if awarded = 0 then Inl PE_CreditCapReached
       else Inr (\<lparr>ce_awarded_points = awarded,
                  ce_reason = pc_reason proposed @ ''; no ancestor or recruitment-count credit was assigned'',
                  ce_direct_contributor_only = True,
                  ce_contributor_campaign_total = existing_points e claim + awarded\<rparr>,
                 e\<lparr>pe_credits := add_credit claim awarded (pe_credits e),
                   pe_used_acks := bs_insert (oc_acknowledgement_id claim) (pe_used_acks e),
                   pe_outcomes := bm_insert (oc_id claim) claim (pe_outcomes e)\<rparr>))))))))"

subsection \<open>Ranking\<close>

definition rank_candidates ::
  "prop_engine \<Rightarrow> campaign_id \<Rightarrow> item_id option \<Rightarrow> (propagation_error, cthulhu_id list) result" where
  "rank_candidates e campaign_id parent_id =
     and_then (ok_or PE_CampaignNotFound (bm_get (pe_campaigns e) campaign_id)) (\<lambda>c.
     and_then (parent_of e parent_id) (\<lambda>parent.
     let depth = child_depth parent;
         candidates = filter (\<lambda>p. is_ok (strategy_allows c p depth)) (bm_values (pe_profiles e));
         ranked = (case ca_strategy c of
             PS_GeographicOrLatencyAware _ _ \<Rightarrow>
               sort_key (\<lambda>p. (case cp_latency_ms p of None \<Rightarrow> u32_max | Some l \<Rightarrow> l, cp_cthulhu_id p)) candidates
           | PS_ReputationThresholded _ accepted_sources \<Rightarrow>
               sort_key (\<lambda>p. (- int (reputation_value p accepted_sources), cp_cthulhu_id p)) candidates
           | _ \<Rightarrow> sort_key cp_cthulhu_id candidates)
     in Inr (map cp_cthulhu_id ranked)))"

end
