(* ===== verification/Propagation_Reload.thy ===== *)
theory Propagation_Reload
  imports Council_Propagation
begin

section \<open>Revalidation of persisted propagation state (cthuwu-council: propagation.rs)\<close>

text \<open>
  \<open>validate_loaded_state_with_policy\<close>: the item graph, the replay of the local policy history, the
  fan-out and rate bounds, acknowledgements, outcomes and credits of a state read back from disk.
\<close>

subsection \<open>Items and fan-out\<close>

type_synonym send_key = "campaign_id \<times> cthulhu_id"

definition bump :: "send_key \<Rightarrow> (send_key, nat) bmap \<Rightarrow> (send_key, nat) bmap" where
  "bump k m = bm_insert k ((case bm_get m k of None \<Rightarrow> 0 | Some n \<Rightarrow> n) + 1) m"

definition clamped_now :: "prop_item \<Rightarrow> int \<Rightarrow> int" where
  "clamped_now i now = max (min now (i64_saturating (it_expires_at i - 1))) (it_created_at i)"

fun loaded_items_loop ::
  "prop_libs \<Rightarrow> prop_engine \<Rightarrow> int \<Rightarrow> (campaign_id \<times> cthulhu_id) bset \<Rightarrow> (send_key, nat) bmap
   \<Rightarrow> (item_id \<times> prop_item) list \<Rightarrow> (propagation_error, (send_key, nat) bmap) result" where
  "loaded_items_loop L e now recipients fan_out [] = Inr fan_out"
| "loaded_items_loop L e now recipients fan_out (x # xs) =
     (let i = snd x; k = (it_campaign_id i, it_recipient i) in
      and_then (run_checks
        [ensure (\<not> fst x \<noteq> it_id i) (PE_CorruptState ''item map key''),
         validate_item_value L e i (clamped_now i now),
         ensure (\<not> bs_member recipients k) PE_DuplicateDelivery]) (\<lambda>_.
        loaded_items_loop L e now (bs_insert k recipients) (bump (it_campaign_id i, it_sender i) fan_out) xs))"

definition check_fan_out :: "prop_engine \<Rightarrow> send_key \<times> nat \<Rightarrow> (propagation_error, unit) result" where
  "check_fan_out e x =
     and_then (ok_or PE_CampaignNotFound (bm_get (pe_campaigns e) (fst (fst x)))) (\<lambda>c.
       ensure (\<not> snd x > po_max_fan_out (ca_policy c)) (PE_CorruptState ''fan-out bound''))"

subsection \<open>The local policy history\<close>

type_synonym local_rules = "cthulhu_id bset \<times> (cthulhu_id \<times> cthulhu_id) bset"

text \<open>The returned flag says whether the event changed anything.\<close>

fun policy_event_effect ::
  "policy_event_kind \<Rightarrow> local_rules \<Rightarrow> (propagation_error, bool \<times> local_rules) result" where
  "policy_event_effect (EV_OptOut c enabled) (opted_out, blocked) =
     (if enabled then Inr (\<not> bs_member opted_out c, bs_insert c opted_out, blocked)
      else Inr (bs_member opted_out c, bs_remove c opted_out, blocked))"
| "policy_event_effect (EV_Block owner target enabled) (opted_out, blocked) =
     (if owner = target then Inl (PE_CorruptState ''self block rule'')
      else if enabled then Inr (\<not> bs_member blocked (owner, target), opted_out, bs_insert (owner, target) blocked)
      else Inr (bs_member blocked (owner, target), opted_out, bs_remove (owner, target) blocked))"

definition apply_policy_event ::
  "policy_event \<Rightarrow> local_rules \<Rightarrow> (propagation_error, local_rules) result" where
  "apply_policy_event ev rules =
     and_then (policy_event_effect (pv_event ev) rules) (\<lambda>(changed, rules').
       if \<not> changed \<or> bs_len (fst rules') > MAX_LOCAL_RULES \<or> bs_len (snd rules') > MAX_LOCAL_RULES
       then Inl (PE_CorruptState ''local policy event'') else Inr rules')"

fun replay_history ::
  "nat \<Rightarrow> policy_event list \<Rightarrow> local_rules \<Rightarrow> (propagation_error, local_rules) result" where
  "replay_history index [] rules = Inr rules"
| "replay_history index (ev # evs) rules =
     (if pv_generation ev \<noteq> index + 1 then Inl (PE_CorruptState ''local policy generation'')
      else and_then (apply_policy_event ev rules) (replay_history (index + 1) evs))"

fun replay_upto ::
  "nat \<Rightarrow> policy_event list \<Rightarrow> local_rules \<Rightarrow> (propagation_error, policy_event list \<times> local_rules) result" where
  "replay_upto generation [] rules = Inr ([], rules)"
| "replay_upto generation (ev # evs) rules =
     (if pv_generation ev \<le> generation
      then and_then (apply_policy_event ev rules) (replay_upto generation evs)
      else Inr (ev # evs, rules))"

definition item_generation :: "prop_item \<Rightarrow> nat" where
  "item_generation i = (case last_hop i of None \<Rightarrow> u64_max | Some h \<Rightarrow> hp_policy_generation h)"

definition ancestors_blocked_by :: "local_rules \<Rightarrow> prop_item option \<Rightarrow> cthulhu_id \<Rightarrow> bool" where
  "ancestors_blocked_by rules parent recipient \<longleftrightarrow>
     (case parent of
        None \<Rightarrow> False
      | Some p \<Rightarrow> list_ex (\<lambda>h. bs_member (snd rules) (recipient, hp_sender h)
                                  \<or> bs_member (snd rules) (recipient, hp_recipient h)) (it_hops p))"

definition validate_loaded_item_policy ::
  "prop_engine \<Rightarrow> prop_item \<Rightarrow> hop_validator \<Rightarrow> local_rules \<Rightarrow> (propagation_error, unit) result" where
  "validate_loaded_item_policy e i validator rules =
     and_then (ok_or PE_CampaignNotFound (bm_get (pe_campaigns e) (it_campaign_id i))) (\<lambda>c.
     and_then (ensure (\<not> (case ca_revoked_at c of None \<Rightarrow> False | Some revoked_at \<Rightarrow> it_created_at i \<ge> revoked_at))
                PE_CampaignRevoked) (\<lambda>_.
     and_then (parent_of e (it_parent_item_id i)) (\<lambda>parent.
     and_then (run_checks
       [(case parent of
           None \<Rightarrow> ensure (it_sender i = ca_root c) PE_SenderMismatch
         | Some p \<Rightarrow> if it_recipient p \<noteq> it_sender i then Inl PE_SenderMismatch
                    else ensure (parent_accepted p) PE_ParentNotAccepted),
        ensure (\<not> (bs_member (fst rules) (it_sender i) \<or> bs_member (fst rules) (it_recipient i))) PE_OptedOut,
        ensure (\<not> (bs_member (snd rules) (it_sender i, it_recipient i)
                   \<or> bs_member (snd rules) (it_recipient i, it_sender i))) PE_Blocked,
        ensure (\<not> ancestors_blocked_by rules parent (it_recipient i)) PE_Blocked]) (\<lambda>_.
     and_then (validate_depth_and_strategy e c parent (it_recipient i) (it_depth i)) (\<lambda>_.
     and_then (validator c parent (it_sender i) (it_recipient i) (it_created_at i)) (\<lambda>local_reason.
       prop_validate_text local_reason PROP_MAX_SHORT_TEXT_BYTES ''local policy explanation'' False))))))"

fun loaded_policy_loop ::
  "prop_engine \<Rightarrow> hop_validator \<Rightarrow> policy_event list \<Rightarrow> local_rules \<Rightarrow> prop_item list
   \<Rightarrow> (propagation_error, unit) result" where
  "loaded_policy_loop e validator evs rules [] = Inr ()"
| "loaded_policy_loop e validator evs rules (i # is) =
     and_then (ok_or PE_ForgedProvenance (last_hop i)) (\<lambda>hop.
       if hp_policy_generation hop > pe_generation e then Inl PE_ForgedProvenance
       else and_then (replay_upto (hp_policy_generation hop) evs rules) (\<lambda>(evs', rules').
         and_then (validate_loaded_item_policy e i validator rules') (\<lambda>_.
           loaded_policy_loop e validator evs' rules' is)))"

definition validate_loaded_policy_history ::
  "prop_engine \<Rightarrow> hop_validator \<Rightarrow> (propagation_error, unit) result" where
  "validate_loaded_policy_history e validator =
     and_then (ensure (\<not> pe_generation e \<noteq> length (pe_events e)) (PE_CorruptState ''local policy generation'')) (\<lambda>_.
     and_then (replay_history 0 (pe_events e) (bs_empty, bs_empty)) (\<lambda>rules.
     and_then (ensure (\<not> (fst rules \<noteq> pe_opted_out e \<or> snd rules \<noteq> pe_blocked e)) (PE_CorruptState ''local policy state'')) (\<lambda>_.
       loaded_policy_loop e validator (pe_events e) (bs_empty, bs_empty)
         (sort_key (\<lambda>i. (item_generation i, it_id i)) (bm_values (pe_items e))))))"

subsection \<open>Rate records\<close>

fun loaded_rates_loop ::
  "prop_engine \<Rightarrow> item_id bset \<Rightarrow> (send_key, int list) bmap \<Rightarrow> rate_record list
   \<Rightarrow> (propagation_error, item_id bset \<times> (send_key, int list) bmap) result" where
  "loaded_rates_loop e ids groups [] = Inr (ids, groups)"
| "loaded_rates_loop e ids groups (r # rs) =
     and_then (ok_or (PE_CorruptState ''rate item'') (bm_get (pe_items e) (rr_item_id r))) (\<lambda>i.
       if bs_member ids (rr_item_id r) \<or> rr_campaign_id r \<noteq> it_campaign_id i \<or> rr_sender r \<noteq> it_sender i
          \<or> rr_sent_at r \<noteq> it_created_at i
       then Inl (PE_CorruptState ''rate record'')
       else let k = (rr_campaign_id r, rr_sender r) in
         loaded_rates_loop e (bs_insert (rr_item_id r) ids)
           (bm_insert k ((case bm_get groups k of None \<Rightarrow> [] | Some ts \<Rightarrow> ts) @ [rr_sent_at r]) groups) rs)"

text \<open>
  The two-pointer scan over a sender's sorted send times.  In the source the inner loop would index
  out of bounds if \<open>left\<close> ran past the end; lemma \<open>advance_left_stops\<close> shows that it stops at \<open>right\<close>
  at the latest when the window is positive.
\<close>

function advance_left :: "int list \<Rightarrow> int \<Rightarrow> nat \<Rightarrow> nat" where
  "advance_left ts bound left =
     (if left < length ts \<and> ts ! left \<le> bound then advance_left ts bound (left + 1) else left)"
  by pat_completeness auto

termination advance_left
  by (relation "measure (\<lambda>(ts, bound, left). length ts - left)") auto

declare advance_left.simps [simp del]

fun rate_scan :: "int list \<Rightarrow> int \<Rightarrow> nat \<Rightarrow> nat \<Rightarrow> nat list \<Rightarrow> (propagation_error, unit) result" where
  "rate_scan ts window lim left [] = Inr ()"
| "rate_scan ts window lim left (right # rs) =
     (let left' = advance_left ts (i64_saturating (ts ! right - window)) left in
      if right - left' + 1 > lim then Inl (PE_CorruptState ''rate bound'')
      else rate_scan ts window lim left' rs)"

definition check_rate_group :: "prop_engine \<Rightarrow> send_key \<times> int list \<Rightarrow> (propagation_error, unit) result" where
  "check_rate_group e x =
     and_then (ok_or PE_CampaignNotFound (bm_get (pe_campaigns e) (fst (fst x)))) (\<lambda>c.
       let ts = sort (snd x) in
       rate_scan ts (po_rate_window (ca_policy c)) (po_rate_limit (ca_policy c)) 0 [0..<length ts])"

definition check_rates :: "prop_engine \<Rightarrow> (propagation_error, unit) result" where
  "check_rates e =
     and_then (loaded_rates_loop e bs_empty bm_empty (pe_rates e)) (\<lambda>(ids, groups).
     and_then (ensure (\<not> bs_len ids \<noteq> bm_len (pe_items e)) (PE_CorruptState ''missing rate record'')) (\<lambda>_.
       run_checks (map (check_rate_group e) (bm_entries groups))))"

subsection \<open>Acknowledgements, outcomes and credits\<close>

fun loaded_acks_loop ::
  "prop_engine \<Rightarrow> item_id bset \<Rightarrow> (acknowledgement_id \<times> acknowledgement) list
   \<Rightarrow> (propagation_error, item_id bset) result" where
  "loaded_acks_loop e seen [] = Inr seen"
| "loaded_acks_loop e seen (x # xs) =
     (let a = snd x in
      and_then (ensure (\<not> fst x \<noteq> ak_id a) (PE_CorruptState ''acknowledgement map key'')) (\<lambda>_.
      and_then (ok_or PE_ItemNotFound (bm_get (pe_items e) (ak_item_id a))) (\<lambda>i.
      and_then (prop_validate_hash (ak_evidence_hash a)) (\<lambda>_.
        if bs_member seen (ak_item_id a) \<or> ak_actor a \<noteq> it_recipient i
           \<or> ak_acknowledged_at a < it_created_at i \<or> ak_acknowledged_at a \<ge> it_expires_at i
           \<or> it_status i \<noteq> IS_Acknowledged
        then Inl PE_FakeAcknowledgement
        else loaded_acks_loop e (bs_insert (ak_item_id a) seen) xs))))"

definition check_acks :: "prop_engine \<Rightarrow> (propagation_error, unit) result" where
  "check_acks e =
     and_then (loaded_acks_loop e bs_empty (bm_entries (pe_acks e))) (\<lambda>seen.
       run_checks (map (\<lambda>i. ensure (\<not> (it_status i = IS_Acknowledged) \<noteq> bs_member seen (it_id i))
                              (PE_CorruptState ''item acknowledgement state'')) (bm_values (pe_items e))))"

fun loaded_outcomes_loop ::
  "prop_engine \<Rightarrow> acknowledgement_id bset \<Rightarrow> (outcome_id \<times> outcome_claim) list
   \<Rightarrow> (propagation_error, acknowledgement_id bset) result" where
  "loaded_outcomes_loop e used [] = Inr used"
| "loaded_outcomes_loop e used (x # xs) =
     (let claim = snd x in
      and_then (ensure (\<not> (fst x \<noteq> oc_id claim \<or> oc_contributor claim = oc_beneficiary claim))
                 (PE_CorruptState ''outcome metadata'')) (\<lambda>_.
      and_then (ok_or PE_CampaignNotFound (bm_get (pe_campaigns e) (oc_campaign_id claim))) (\<lambda>c.
      and_then (ok_or PE_ItemNotFound (bm_get (pe_items e) (oc_item_id claim))) (\<lambda>i.
      and_then (ok_or PE_AcknowledgementNotFound (bm_get (pe_acks e) (oc_acknowledgement_id claim))) (\<lambda>a.
      and_then (run_checks
        [ensure (\<not> (bs_member used (oc_acknowledgement_id claim) \<or> \<not> claim_fits claim i a
                    \<or> oc_occurred_at claim < ak_acknowledged_at a \<or> oc_occurred_at claim \<ge> ca_expires_at c
                    \<or> (case ca_revoked_at c of None \<Rightarrow> False | Some revoked_at \<Rightarrow> oc_occurred_at claim \<ge> revoked_at)))
           PE_InvalidCreditEvidence,
         prop_validate_hash (oc_evidence_hash claim),
         validate_outcome_kind (ca_payload c) (oc_outcome claim)]) (\<lambda>_.
        loaded_outcomes_loop e (bs_insert (oc_acknowledgement_id claim) used) xs))))))"

definition check_outcomes :: "prop_engine \<Rightarrow> (propagation_error, unit) result" where
  "check_outcomes e =
     and_then (loaded_outcomes_loop e bs_empty (bm_entries (pe_outcomes e))) (\<lambda>used.
       ensure (\<not> used \<noteq> pe_used_acks e) (PE_CorruptState ''used acknowledgements''))"

definition credited_claims :: "prop_engine \<Rightarrow> campaign_id \<Rightarrow> cthulhu_id \<Rightarrow> nat" where
  "credited_claims e c contributor =
     length (filter (\<lambda>x. oc_campaign_id x = c \<and> oc_contributor x = contributor) (bm_values (pe_outcomes e)))"

fun loaded_credits_loop ::
  "prop_engine \<Rightarrow> send_key bset \<Rightarrow> contribution_credit list \<Rightarrow> (propagation_error, unit) result" where
  "loaded_credits_loop e keys [] = Inr ()"
| "loaded_credits_loop e keys (c # cs) =
     (let k = (cc_campaign_id c, cc_cthulhu_id c); n = credited_claims e (fst k) (snd k) in
      if cc_points c = 0 \<or> cc_points c > MAX_CREDIT_PER_CTHULHU_PER_CAMPAIGN \<or> bs_member keys k
      then Inl (PE_CorruptState ''credit bounds'')
      else if n \<noteq> cc_credited_outcomes c \<or> cc_points c > n * MAX_CREDIT_PER_OUTCOME
      then Inl (PE_CorruptState ''credit evidence'')
      else loaded_credits_loop e (bs_insert k keys) cs)"

definition check_credit_cap :: "prop_engine \<Rightarrow> campaign_id \<Rightarrow> (propagation_error, unit) result" where
  "check_credit_cap e c =
     ensure (\<not> campaign_points e c > MAX_TOTAL_CAMPAIGN_CREDIT) (PE_CorruptState ''campaign credit cap'')"

subsection \<open>The whole state\<close>

definition loaded_bounds :: "prop_engine \<Rightarrow> int \<Rightarrow> bool" where
  "loaded_bounds e now \<longleftrightarrow>
     \<not> (now < 0
        \<or> bm_len (pe_campaigns e) > MAX_CAMPAIGNS \<or> bm_len (pe_items e) > MAX_ITEMS
        \<or> bm_len (pe_acks e) > MAX_ACKNOWLEDGEMENTS \<or> bm_len (pe_profiles e) > PROP_MAX_CANDIDATES
        \<or> bs_len (pe_opted_out e) > MAX_LOCAL_RULES \<or> bs_len (pe_blocked e) > MAX_LOCAL_RULES
        \<or> length (pe_events e) > MAX_LOCAL_POLICY_EVENTS \<or> length (pe_rates e) > MAX_ITEMS
        \<or> bm_len (pe_outcomes e) > MAX_ACKNOWLEDGEMENTS \<or> bs_len (pe_used_acks e) > MAX_ACKNOWLEDGEMENTS
        \<or> length (pe_credits e) > PROP_MAX_CANDIDATES * MAX_CAMPAIGNS)"

definition check_campaign_entry :: "prop_libs \<Rightarrow> campaign_id \<times> campaign \<Rightarrow> (propagation_error, unit) result" where
  "check_campaign_entry L x = run_checks
     [ensure (\<not> fst x \<noteq> ca_id (snd x)) (PE_CorruptState ''campaign map key''), validate_campaign L (snd x)]"

definition check_profile_entry :: "cthulhu_id \<times> candidate_profile \<Rightarrow> (propagation_error, unit) result" where
  "check_profile_entry x = run_checks
     [ensure (\<not> fst x \<noteq> cp_cthulhu_id (snd x)) (PE_CorruptState ''candidate map key''), validate_candidate (snd x)]"

definition validate_loaded_state_with_policy ::
  "prop_libs \<Rightarrow> prop_engine \<Rightarrow> int \<Rightarrow> hop_validator \<Rightarrow> (propagation_error, unit) result" where
  "validate_loaded_state_with_policy L e now validator =
     and_then (run_checks
       ([ensure (loaded_bounds e now) (PE_LimitExceeded ''persisted state'')]
        @ map (check_campaign_entry L) (bm_entries (pe_campaigns e))
        @ map check_profile_entry (bm_entries (pe_profiles e))
        @ [ensure (\<not> list_ex (\<lambda>(owner, target). owner = target) (bs_elems (pe_blocked e)))
             (PE_CorruptState ''self block rule'')])) (\<lambda>_.
     and_then (loaded_items_loop L e now bs_empty bm_empty (bm_entries (pe_items e))) (\<lambda>fan_out. run_checks
       ([validate_loaded_policy_history e validator]
        @ map (check_fan_out e) (bm_entries fan_out)
        @ [check_rates e, check_acks e, check_outcomes e, loaded_credits_loop e bs_empty (pe_credits e)]
        @ map (check_credit_cap e) (bm_keys (pe_campaigns e)))))"

definition prop_validate_loaded_state ::
  "prop_libs \<Rightarrow> prop_engine \<Rightarrow> int \<Rightarrow> (propagation_error, unit) result" where
  "prop_validate_loaded_state L e now = validate_loaded_state_with_policy L e now NoAdditionalHopPolicy"

end
