(* ===== verification/Propagation_Invariant.thy ===== *)
theory Propagation_Invariant
  imports Propagation_Reload
begin

section \<open>Items of the propagation engine\<close>

text \<open>
  What holds of every engine that is reached through the operations: declarative forms of the
  validators, the relation \<open>grows\<close> that every step satisfies (campaigns, used profiles and the
  provenance of items are never rewritten), and what items keep under it.
\<close>

subsection \<open>What the validators accept\<close>

definition revocation_ok :: "campaign \<Rightarrow> bool" where
  "revocation_ok c \<longleftrightarrow>
     (case ca_revoked_at c of
        None \<Rightarrow> ca_revocation_reason c = None
      | Some t \<Rightarrow> ca_created_at c \<le> t
          \<and> (\<exists>reason. ca_revocation_reason c = Some reason
               \<and> prop_validate_text reason PROP_MAX_SHORT_TEXT_BYTES ''revocation reason'' False = Inr ()))"

lemma validate_campaign_ok [check_simps]:
  "validate_campaign L c = Inr () \<longleftrightarrow>
     validate_prop_payload L (ca_payload c) = Inr () \<and> validate_prop_strategy (ca_strategy c) = Inr ()
     \<and> validate_prop_policy (ca_policy c) = Inr () \<and> prop_validate_hash (ca_payload_hash c) = Inr ()
     \<and> payload_content_hash L (ca_payload c) = Inr (ca_payload_hash c)
     \<and> 0 \<le> ca_created_at c \<and> ca_created_at c < ca_expires_at c
     \<and> ca_expires_at c - ca_created_at c \<le> MAX_CAMPAIGN_LIFETIME_SECONDS \<and> revocation_ok c"
  by (cases "ca_revoked_at c")
    (auto simp: validate_campaign_def revocation_ok_def run_checks.simps(1) not_less not_le)

lemma validate_prop_policy_ok [check_simps]:
  "validate_prop_policy p = Inr () \<longleftrightarrow>
     0 < po_version p \<and> 0 < po_max_depth p \<and> po_max_depth p \<le> MAX_DEPTH
     \<and> 0 < po_max_fan_out p \<and> po_max_fan_out p \<le> MAX_FAN_OUT
     \<and> 0 < po_rate_limit p \<and> po_rate_limit p \<le> MAX_RATE_LIMIT
     \<and> 0 < po_rate_window p \<and> po_rate_window p \<le> MAX_RATE_WINDOW_SECONDS"
  by (auto simp: validate_prop_policy_def)

definition hop_link :: "prop_hop \<Rightarrow> prop_hop \<Rightarrow> bool" where
  "hop_link p h \<longleftrightarrow> hp_recipient p = hp_sender h \<and> hp_recipient_profile_hash p = hp_sender_profile_hash h
     \<and> hp_policy_generation p \<le> hp_policy_generation h"

definition hop_ok :: "campaign \<Rightarrow> prop_hop \<Rightarrow> bool" where
  "hop_ok c h \<longleftrightarrow> prop_validate_hash (hp_sender_profile_hash h) = Inr ()
     \<and> prop_validate_hash (hp_recipient_profile_hash h) = Inr ()
     \<and> ca_created_at c \<le> hp_sent_at h \<and> hp_sent_at h < ca_expires_at c"

lemma item_hops_loop_Some:
  "item_hops_loop c (Some p) seen hops = Inr () \<longleftrightarrow>
     (\<forall>h\<in>set hops. hop_ok c h \<and> \<not> bs_member seen (hp_recipient h))
     \<and> distinct (map hp_recipient hops) \<and> successively hop_link (p # hops)"
proof (induction hops arbitrary: p seen)
  case (Cons h hops)
  show ?case
    by (auto simp: Cons.IH hop_ok_def hop_link_def run_checks.simps(1) not_less not_le image_iff)
qed simp

lemma item_hops_loop_None:
  "item_hops_loop c None seen hops = Inr () \<longleftrightarrow>
     (\<forall>h\<in>set hops. hop_ok c h \<and> \<not> bs_member seen (hp_recipient h))
     \<and> distinct (map hp_recipient hops) \<and> successively hop_link hops"
  by (cases hops) (auto simp: item_hops_loop_Some hop_ok_def run_checks.simps(1) not_less not_le image_iff)

lemma item_hops_loop_root:
  "item_hops_loop c None (bs_insert r bs_empty) hops = Inr () \<longleftrightarrow>
     (\<forall>h\<in>set hops. hop_ok c h) \<and> distinct (r # map hp_recipient hops) \<and> successively hop_link hops"
  unfolding item_hops_loop_None by (simp add: image_iff) metis

definition hops_ok :: "campaign \<Rightarrow> prop_hop list \<Rightarrow> bool" where
  "hops_ok c hops \<longleftrightarrow> hops \<noteq> [] \<and> hp_sender (hd hops) = ca_root c
     \<and> (\<forall>h\<in>set hops. hop_ok c h) \<and> distinct (ca_root c # map hp_recipient hops)
     \<and> successively hop_link hops"

definition parent_ok :: "prop_engine \<Rightarrow> prop_item \<Rightarrow> bool" where
  "parent_ok e i \<longleftrightarrow>
     (case it_parent_item_id i of
        None \<Rightarrow> it_depth i = 1
      | Some j \<Rightarrow> (\<exists>p. bm_get (pe_items e) j = Some p \<and> it_campaign_id p = it_campaign_id i
                     \<and> it_recipient p = it_sender i \<and> it_hops p = butlast (it_hops i)))"

lemma check_parent_ok [simp]: "check_parent e i = Inr () \<longleftrightarrow> parent_ok e i"
  by (cases "it_parent_item_id i") (auto simp: check_parent_def parent_ok_def)

definition item_fits :: "prop_libs \<Rightarrow> prop_engine \<Rightarrow> campaign \<Rightarrow> prop_item \<Rightarrow> bool" where
  "item_fits L e c i \<longleftrightarrow>
     it_policy_version i = po_version (ca_policy c) \<and> it_payload_hash i = ca_payload_hash c
     \<and> it_expires_at i = ca_expires_at c \<and> it_depth i = length (it_hops i)
     \<and> it_depth i \<le> po_max_depth (ca_policy c) \<and> pr_root (it_provenance i) = ca_root c
     \<and> hops_ok c (it_hops i)
     \<and> hp_item_id (last (it_hops i)) = it_id i \<and> hp_sender (last (it_hops i)) = it_sender i
     \<and> hp_recipient (last (it_hops i)) = it_recipient i \<and> hp_sent_at (last (it_hops i)) = it_created_at i
     \<and> hp_policy_generation (last (it_hops i)) \<le> pe_generation e
     \<and> (\<exists>sp. bm_get (pe_profiles e) (it_sender i) = Some sp
          \<and> profile_hash L sp = Inr (hp_sender_profile_hash (last (it_hops i))))
     \<and> (\<exists>rp. bm_get (pe_profiles e) (it_recipient i) = Some rp
          \<and> profile_hash L rp = Inr (hp_recipient_profile_hash (last (it_hops i))))
     \<and> parent_ok e i
     \<and> provenance_hash L (ca_id c) (ca_payload_hash c) (po_version (ca_policy c)) (it_hops i)
         = Inr (pr_chain_hash (it_provenance i))"

lemma first_last_hop [simp]:
  "first_hop i = Some h \<longleftrightarrow> it_hops i \<noteq> [] \<and> h = hd (it_hops i)"
  "last_hop i = Some h \<longleftrightarrow> it_hops i \<noteq> [] \<and> h = last (it_hops i)"
  by (auto simp: first_hop_def last_hop_def)

lemma if_Inr_eq: "(if b then Inl x else Inr ()) = Inr u \<longleftrightarrow> \<not> b"
  by simp

lemma validate_item_value_ok:
  "validate_item_value L e i now = Inr () \<longleftrightarrow>
     (\<exists>c. bm_get (pe_campaigns e) (it_campaign_id i) = Some c \<and> item_fits L e c i)
     \<and> it_created_at i \<le> now \<and> now < it_expires_at i"
  unfolding validate_item_value_def and_then_eq_Inr ok_or_eq_Inr run_checks_Cons_ok run_checks.simps(1)
    ensure_eq_Inr first_last_hop check_parent_ok item_hops_loop_root if_Inr_eq
  by (auto simp: item_fits_def hops_ok_def)

subsection \<open>What is never rewritten\<close>

definition same_campaign :: "campaign \<Rightarrow> campaign \<Rightarrow> bool" where
  "same_campaign c c' \<longleftrightarrow>
     (\<exists>t r. c' = c\<lparr>ca_revoked_at := t, ca_revocation_reason := r\<rparr>) \<and> (is_revoked c \<longrightarrow> c' = c)"

definition status_path :: "item_status \<Rightarrow> item_status \<Rightarrow> bool" where
  "status_path s s' \<longleftrightarrow> s' = s \<or> s = IS_Pending \<or> (s = IS_Accepted \<and> s' = IS_Acknowledged)"

definition same_item :: "prop_item \<Rightarrow> prop_item \<Rightarrow> bool" where
  "same_item i i' \<longleftrightarrow> (\<exists>s. i' = i\<lparr>it_status := s\<rparr> \<and> status_path (it_status i) s)"

definition keeps :: "('a \<Rightarrow> 'a \<Rightarrow> bool) \<Rightarrow> ('k::linorder, 'a) bmap \<Rightarrow> ('k, 'a) bmap \<Rightarrow> bool" where
  "keeps R m m' \<longleftrightarrow> (\<forall>k v. bm_get m k = Some v \<longrightarrow> (\<exists>v'. bm_get m' k = Some v' \<and> R v v'))"

definition grows :: "prop_engine \<Rightarrow> prop_engine \<Rightarrow> bool" where
  "grows e e' \<longleftrightarrow>
     keeps same_campaign (pe_campaigns e) (pe_campaigns e')
     \<and> keeps same_item (pe_items e) (pe_items e')
     \<and> keeps (=) (pe_acks e) (pe_acks e') \<and> keeps (=) (pe_outcomes e) (pe_outcomes e')
     \<and> keeps (\<lambda>_ _. True) (pe_profiles e) (pe_profiles e')
     \<and> (\<forall>k p. bm_get (pe_profiles e) k = Some p \<longrightarrow> profile_in_use e k \<longrightarrow> bm_get (pe_profiles e') k = Some p)
     \<and> (\<exists>evs. pe_events e' = pe_events e @ evs) \<and> pe_generation e \<le> pe_generation e'"

lemma keepsD: "keeps R m m' \<Longrightarrow> bm_get m k = Some v \<Longrightarrow> \<exists>v'. bm_get m' k = Some v' \<and> R v v'"
  by (auto simp: keeps_def)

lemma keeps_eqD: "keeps (=) m m' \<Longrightarrow> bm_get m k = Some v \<Longrightarrow> bm_get m' k = Some v"
  by (auto simp: keeps_def)

lemma keeps_refl [intro, simp]: "(\<And>v. R v v) \<Longrightarrow> keeps R m m"
  by (auto simp: keeps_def)

lemma keeps_trans: "(\<And>x y z. R x y \<Longrightarrow> R y z \<Longrightarrow> R x z) \<Longrightarrow> keeps R m1 m2 \<Longrightarrow> keeps R m2 m3 \<Longrightarrow> keeps R m1 m3"
  unfolding keeps_def by metis

lemma keeps_insert: "(\<And>v. R v v) \<Longrightarrow> (\<And>w. bm_get m k = Some w \<Longrightarrow> R w v) \<Longrightarrow> keeps R m (bm_insert k v m)"
  by (auto simp: keeps_def)

lemma same_campaign_refl [simp]: "same_campaign c c"
  by (auto simp: same_campaign_def intro!: exI[of _ "ca_revoked_at c"] exI[of _ "ca_revocation_reason c"])

lemma same_campaign_trans: "same_campaign c d \<Longrightarrow> same_campaign d f \<Longrightarrow> same_campaign c f"
  unfolding same_campaign_def by clarsimp metis

lemma same_campaign_sel:
  assumes "same_campaign c c'"
  shows "ca_id c' = ca_id c" "ca_council_id c' = ca_council_id c" "ca_root c' = ca_root c"
    "ca_payload c' = ca_payload c" "ca_payload_hash c' = ca_payload_hash c"
    "ca_strategy c' = ca_strategy c" "ca_policy c' = ca_policy c"
    "ca_created_at c' = ca_created_at c" "ca_expires_at c' = ca_expires_at c"
  using assms by (auto simp: same_campaign_def)

lemma status_path_refl [simp]: "status_path s s"
  by (simp add: status_path_def)

lemma status_path_trans: "status_path a b \<Longrightarrow> status_path b c \<Longrightarrow> status_path a c"
  by (auto simp: status_path_def)

lemma same_item_refl [simp]: "same_item i i"
  by (auto simp: same_item_def intro!: exI[of _ "it_status i"])

lemma same_item_status [simp]: "same_item i (i\<lparr>it_status := s\<rparr>) \<longleftrightarrow> status_path (it_status i) s"
  by (cases i) (auto simp: same_item_def)

lemma same_item_trans: "same_item i j \<Longrightarrow> same_item j k \<Longrightarrow> same_item i k"
  unfolding same_item_def by clarsimp (metis status_path_trans)

lemma same_item_sel:
  assumes "same_item i i'"
  shows "it_id i' = it_id i" "it_campaign_id i' = it_campaign_id i" "it_parent_item_id i' = it_parent_item_id i"
    "it_sender i' = it_sender i" "it_recipient i' = it_recipient i" "it_depth i' = it_depth i"
    "it_policy_version i' = it_policy_version i" "it_payload_hash i' = it_payload_hash i"
    "it_created_at i' = it_created_at i" "it_expires_at i' = it_expires_at i"
    "it_provenance i' = it_provenance i" "status_path (it_status i) (it_status i')"
  using assms by (auto simp: same_item_def)

lemma same_item_on_path: "same_item i i' \<Longrightarrow> on_path i' = on_path i"
  by (simp add: on_path_def same_item_sel fun_eq_iff)

lemma same_item_accepted: "same_item i i' \<Longrightarrow> parent_accepted i \<Longrightarrow> parent_accepted i'"
  using same_item_sel(12)[of i i'] by (auto simp: parent_accepted_def status_path_def)

lemma in_use_iff:
  "profile_in_use e c \<longleftrightarrow> (\<exists>k i. bm_get (pe_items e) k = Some i \<and> on_path i c)"
  unfolding profile_in_use_def list_ex_iff by (metis bm_values_iff)

lemma grows_refl [simp]: "grows e e"
  by (auto simp: grows_def)

lemma grows_sel:
  assumes "grows e e'"
  shows "keeps same_campaign (pe_campaigns e) (pe_campaigns e')"
    "keeps same_item (pe_items e) (pe_items e')"
    "keeps (=) (pe_acks e) (pe_acks e')" "keeps (=) (pe_outcomes e) (pe_outcomes e')"
    "keeps (\<lambda>_ _. True) (pe_profiles e) (pe_profiles e')"
    "\<And>k p. bm_get (pe_profiles e) k = Some p \<Longrightarrow> profile_in_use e k \<Longrightarrow> bm_get (pe_profiles e') k = Some p"
    "\<exists>evs. pe_events e' = pe_events e @ evs" "pe_generation e \<le> pe_generation e'"
  using assms unfolding grows_def by simp_all

lemma in_use_grows:
  assumes "grows e e'" "profile_in_use e c"
  shows "profile_in_use e' c"
proof -
  obtain k i where i: "bm_get (pe_items e) k = Some i" "on_path i c" using assms(2) unfolding in_use_iff by blast
  obtain i' where "bm_get (pe_items e') k = Some i'" "same_item i i'" using keepsD[OF grows_sel(2)[OF assms(1)] i(1)] by blast
  then show ?thesis using i(2) same_item_on_path unfolding in_use_iff by metis
qed

lemma grows_trans:
  assumes "grows e1 e2" "grows e2 e3"
  shows "grows e1 e3"
proof -
  note a = grows_sel[OF assms(1)] and b = grows_sel[OF assms(2)]
  have "\<exists>evs. pe_events e3 = pe_events e1 @ evs" using a(7) b(7) by auto
  then show ?thesis
    unfolding grows_def
    using keeps_trans[OF same_campaign_trans a(1) b(1)] keeps_trans[OF same_item_trans a(2) b(2)]
      keeps_trans[OF _ a(3) b(3)] keeps_trans[OF _ a(4) b(4)] keeps_trans[OF _ a(5) b(5)]
      a(6) b(6)[OF _ in_use_grows[OF assms(1)]] order_trans[OF a(8) b(8)] by simp
qed

subsection \<open>Items under growth\<close>

definition rules_at :: "prop_engine \<Rightarrow> nat \<Rightarrow> (propagation_error, local_rules) result" where
  "rules_at e g = replay_history 0 (take g (pe_events e)) (bs_empty, bs_empty)"

definition admitted :: "prop_engine \<Rightarrow> campaign \<Rightarrow> prop_item \<Rightarrow> bool" where
  "admitted e c i \<longleftrightarrow>
     (\<exists>parent rules x. parent_of e (it_parent_item_id i) = Inr parent
        \<and> (case parent of None \<Rightarrow> it_sender i = ca_root c
                        | Some p \<Rightarrow> it_recipient p = it_sender i \<and> parent_accepted p)
        \<and> rules_at e (item_generation i) = Inr rules
        \<and> \<not> bs_member (fst rules) (it_sender i) \<and> \<not> bs_member (fst rules) (it_recipient i)
        \<and> \<not> bs_member (snd rules) (it_sender i, it_recipient i)
        \<and> \<not> bs_member (snd rules) (it_recipient i, it_sender i)
        \<and> \<not> ancestors_blocked_by rules parent (it_recipient i)
        \<and> validate_depth_and_strategy e c parent (it_recipient i) (it_depth i) = Inr x)"

definition path_profiles_kept :: "prop_engine \<Rightarrow> prop_engine \<Rightarrow> prop_item \<Rightarrow> bool" where
  "path_profiles_kept e e' i \<longleftrightarrow>
     (\<forall>k p. on_path i k \<longrightarrow> bm_get (pe_profiles e) k = Some p \<longrightarrow> bm_get (pe_profiles e') k = Some p)"

lemma parent_ok_grows:
  "parent_ok e i \<Longrightarrow> keeps same_item (pe_items e) (pe_items e') \<Longrightarrow> same_item i i' \<Longrightarrow> parent_ok e' i'"
proof (cases "it_parent_item_id i")
  case (Some j)
  assume parent: "parent_ok e i" and items: "keeps same_item (pe_items e) (pe_items e')" and i: "same_item i i'"
  obtain p where p: "bm_get (pe_items e) j = Some p" "it_campaign_id p = it_campaign_id i"
      "it_recipient p = it_sender i" "it_hops p = butlast (it_hops i)"
    using parent Some by (auto simp: parent_ok_def)
  obtain p' where "bm_get (pe_items e') j = Some p'" "same_item p p'" using keepsD[OF items p(1)] by blast
  then show ?thesis using p Some by (simp add: parent_ok_def same_item_sel[OF i] same_item_sel)
qed (simp add: parent_ok_def same_item_sel)

lemma fits_last_on_path:
  "item_fits L e c i \<Longrightarrow> on_path i (it_sender i) \<and> on_path i (it_recipient i)"
  unfolding item_fits_def hops_ok_def on_path_def list_ex_iff by (intro conjI bexI[of _ "last (it_hops i)"]) simp_all

lemma item_fits_grows:
  assumes fits: "item_fits L e c i" and c: "same_campaign c c'" and i: "same_item i i'"
    and items: "keeps same_item (pe_items e) (pe_items e')" and profiles: "path_profiles_kept e e' i"
    and generation: "pe_generation e \<le> pe_generation e'"
  shows "item_fits L e' c' i'"
proof -
  have "hops_ok c' (it_hops i')" using fits same_item_sel[OF i] same_campaign_sel[OF c]
    by (auto simp: item_fits_def hops_ok_def hop_ok_def)
  moreover have "parent_ok e' i'" using fits parent_ok_grows[OF _ items i] by (simp add: item_fits_def)
  moreover have "bm_get (pe_profiles e') k = Some p"
    if "bm_get (pe_profiles e) k = Some p" "k = it_sender i \<or> k = it_recipient i" for k p
    using that profiles fits_last_on_path[OF fits] unfolding path_profiles_kept_def by blast
  ultimately show ?thesis
    using fits generation same_item_sel[OF i] same_campaign_sel[OF c] unfolding item_fits_def by fastforce
qed

lemma depth_and_strategy_ok:
  "validate_depth_and_strategy e c parent r d = Inr x \<longleftrightarrow>
     0 < d \<and> d \<le> po_max_depth (ca_policy c) \<and> d \<le> MAX_PROVENANCE_HOPS
     \<and> (\<forall>q. parent = Some q \<longrightarrow> \<not> on_path q r)
     \<and> (\<exists>p. bm_get (pe_profiles e) r = Some p
          \<and> (po_visibility (ca_policy c) = PV_CouncilMembers \<longrightarrow> ca_council_id c \<in> set (cp_council_memberships p))
          \<and> (ca_strategy c = PS_TrustedBranchOnly \<longrightarrow> cp_trusted p)
          \<and> (\<forall>q. ca_strategy c = PS_TrustedBranchOnly \<longrightarrow> parent = Some q \<longrightarrow> branch_is_trusted e q)
          \<and> strategy_allows c p d = Inr x)"
  unfolding validate_depth_and_strategy_def by (cases parent) (auto simp: not_less)

lemma strategy_allows_same: "same_campaign c c' \<Longrightarrow> strategy_allows c' = strategy_allows c"
  by (simp add: strategy_allows_def same_campaign_sel fun_eq_iff)

lemma trusted_kept:
  "is_trusted e k \<Longrightarrow> (\<And>p. bm_get (pe_profiles e) k = Some p \<Longrightarrow> bm_get (pe_profiles e') k = Some p) \<Longrightarrow> is_trusted e' k"
  by (auto simp: is_trusted_def split: option.splits)

lemma branch_trusted_kept:
  assumes "branch_is_trusted e q" "it_provenance q' = it_provenance q"
    and kept: "\<And>k p. on_path q k \<Longrightarrow> bm_get (pe_profiles e) k = Some p \<Longrightarrow> bm_get (pe_profiles e') k = Some p"
  shows "branch_is_trusted e' q'"
  unfolding branch_is_trusted_def list_all_iff assms(2)
proof (intro ballI conjI)
  fix h assume h: "h \<in> set (it_hops q)"
  then have "is_trusted e (hp_sender h)" "is_trusted e (hp_recipient h)"
    using assms(1) by (simp_all add: branch_is_trusted_def list_all_iff)
  moreover have "on_path q (hp_sender h)" "on_path q (hp_recipient h)"
    using h by (auto simp: on_path_def list_ex_iff)
  ultimately show "is_trusted e' (hp_sender h)" "is_trusted e' (hp_recipient h)"
    using trusted_kept kept by blast+
qed

lemma depth_strategy_kept:
  assumes ok: "validate_depth_and_strategy e c parent r d = Inr x" and c: "same_campaign c c'"
    and parent: "rel_option same_item parent parent'"
    and kept: "\<And>k p. k = r \<or> (\<exists>q. parent = Some q \<and> on_path q k) \<Longrightarrow> bm_get (pe_profiles e) k = Some p
                 \<Longrightarrow> bm_get (pe_profiles e') k = Some p"
  shows "validate_depth_and_strategy e' c' parent' r d = Inr x"
proof -
  have old: "\<exists>q. parent = Some q \<and> same_item q q'" if "parent' = Some q'" for q'
    using parent that by (cases parent) auto
  have path: "\<not> on_path q' r" if "parent' = Some q'" for q'
    using old[OF that] ok same_item_on_path unfolding depth_and_strategy_ok by metis
  have branch: "branch_is_trusted e' q'" if q': "parent' = Some q'" and "ca_strategy c = PS_TrustedBranchOnly" for q'
  proof -
    obtain q where q: "parent = Some q" "same_item q q'" using old[OF q'] by blast
    then have "branch_is_trusted e q" using ok that(2) unfolding depth_and_strategy_ok by blast
    then show ?thesis using branch_trusted_kept same_item_sel(11)[OF q(2)] kept q(1) by metis
  qed
  show ?thesis
    using ok kept[of r] path branch
    unfolding depth_and_strategy_ok same_campaign_sel[OF c] strategy_allows_same[OF c] by metis
qed

lemma replay_history_append:
  "replay_history n (xs @ ys) rules = and_then (replay_history n xs rules) (replay_history (n + length xs) ys)"
proof (induction xs arbitrary: n rules)
  case (Cons x xs)
  show ?case by (cases "apply_policy_event x rules") (simp_all add: Cons.IH)
qed simp

lemma rules_at_grows: "pe_events e' = pe_events e @ evs \<Longrightarrow> g \<le> length (pe_events e) \<Longrightarrow> rules_at e' g = rules_at e g"
  by (simp add: rules_at_def)

lemma item_generation_last: "it_hops i \<noteq> [] \<Longrightarrow> item_generation i = hp_policy_generation (last (it_hops i))"
  by (simp add: item_generation_def last_hop_def)

lemma parent_of_ok:
  "parent_of e pid = Inr parent \<longleftrightarrow>
     (case pid of None \<Rightarrow> parent = None | Some j \<Rightarrow> \<exists>p. bm_get (pe_items e) j = Some p \<and> parent = Some p)"
  by (cases pid) (auto simp: parent_of_def)

lemma parent_of_kept:
  "parent_of e pid = Inr parent \<Longrightarrow> keeps same_item (pe_items e) (pe_items e')
   \<Longrightarrow> \<exists>parent'. parent_of e' pid = Inr parent' \<and> rel_option same_item parent parent'"
  by (cases pid) (fastforce simp: parent_of_ok dest: keepsD)+

lemma parent_path:
  assumes "parent_ok e i" "parent_of e (it_parent_item_id i) = Inr (Some q)" "on_path q k"
  shows "on_path i k"
proof -
  have "it_hops q = butlast (it_hops i)"
    using assms(1,2) by (cases "it_parent_item_id i") (auto simp: parent_ok_def parent_of_ok)
  then show ?thesis using assms(3) by (auto simp: on_path_def list_ex_iff dest: in_set_butlastD)
qed

lemma ancestors_blocked_same:
  "rel_option same_item parent parent' \<Longrightarrow> ancestors_blocked_by rules parent' r = ancestors_blocked_by rules parent r"
  by (cases parent; cases parent') (simp_all add: ancestors_blocked_by_def same_item_sel)

lemma admitted_grows:
  assumes ad: "admitted e c i" and fits: "item_fits L e c i" and c: "same_campaign c c'" and i: "same_item i i'"
    and items: "keeps same_item (pe_items e) (pe_items e')" and profiles: "path_profiles_kept e e' i"
    and events: "pe_events e' = pe_events e @ evs" "pe_generation e = length (pe_events e)"
  shows "admitted e' c' i'"
proof -
  note sel = same_item_sel[OF i] same_campaign_sel[OF c]
  obtain parent rules x where a: "parent_of e (it_parent_item_id i) = Inr parent"
      "case parent of None \<Rightarrow> it_sender i = ca_root c
                    | Some p \<Rightarrow> it_recipient p = it_sender i \<and> parent_accepted p"
      "rules_at e (item_generation i) = Inr rules"
      "\<not> bs_member (fst rules) (it_sender i)" "\<not> bs_member (fst rules) (it_recipient i)"
      "\<not> bs_member (snd rules) (it_sender i, it_recipient i)"
      "\<not> bs_member (snd rules) (it_recipient i, it_sender i)"
      "\<not> ancestors_blocked_by rules parent (it_recipient i)"
      "validate_depth_and_strategy e c parent (it_recipient i) (it_depth i) = Inr x"
    using ad unfolding admitted_def by blast
  obtain parent' where p': "parent_of e' (it_parent_item_id i) = Inr parent'" "rel_option same_item parent parent'"
    using parent_of_kept[OF a(1) items] by blast
  have "item_generation i \<le> length (pe_events e)"
    using fits events(2) by (simp add: item_fits_def hops_ok_def item_generation_last)
  moreover have "item_generation i' = item_generation i" by (simp add: item_generation_def last_hop_def sel)
  ultimately have rules: "rules_at e' (item_generation i') = Inr rules"
    using rules_at_grows[OF events(1)] a(3) by simp
  have linked: "case parent' of None \<Rightarrow> it_sender i' = ca_root c'
                    | Some p \<Rightarrow> it_recipient p = it_sender i' \<and> parent_accepted p"
    using a(2) p'(2) by (cases parent; cases parent') (simp_all add: sel same_item_sel same_item_accepted)
  have kept: "bm_get (pe_profiles e') k = Some p"
    if "k = it_recipient i \<or> (\<exists>q. parent = Some q \<and> on_path q k)" "bm_get (pe_profiles e) k = Some p" for k p
  proof -
    have "on_path i k"
      using that(1) fits_last_on_path[OF fits] parent_path[of e i] a(1) fits by (auto simp: item_fits_def)
    then show ?thesis using profiles that(2) by (simp add: path_profiles_kept_def)
  qed
  have "validate_depth_and_strategy e' c' parent' (it_recipient i') (it_depth i') = Inr x"
    unfolding sel by (rule depth_strategy_kept[OF a(9) c p'(2)]) (rule kept)
  then show ?thesis
    unfolding admitted_def
    using p' rules linked a(4-8) ancestors_blocked_same[OF p'(2)] by (auto simp: sel)
qed

end
