(* ===== verification/Propagation_Steps.thy ===== *)
theory Propagation_Steps
  imports Propagation_Invariant
begin

section \<open>Reachable propagation engines\<close>

text \<open>
  The step relation of the engine, what each operation does to the state when it succeeds, and the
  invariant \<open>prop_inv\<close> of everything reachable.
\<close>

subsection \<open>The invariant\<close>

definition entries_ok :: "prop_libs \<Rightarrow> prop_engine \<Rightarrow> bool" where
  "entries_ok L e \<longleftrightarrow>
     (\<forall>k c. bm_get (pe_campaigns e) k = Some c \<longrightarrow> ca_id c = k \<and> validate_campaign L c = Inr ())
     \<and> (\<forall>k p. bm_get (pe_profiles e) k = Some p \<longrightarrow> cp_cthulhu_id p = k \<and> validate_candidate p = Inr ())
     \<and> bm_len (pe_campaigns e) \<le> MAX_CAMPAIGNS \<and> bm_len (pe_profiles e) \<le> PROP_MAX_CANDIDATES
     \<and> bm_len (pe_items e) \<le> MAX_ITEMS \<and> bm_len (pe_acks e) \<le> MAX_ACKNOWLEDGEMENTS"

definition rules_ok :: "prop_engine \<Rightarrow> bool" where
  "rules_ok e \<longleftrightarrow>
     pe_generation e = length (pe_events e) \<and> length (pe_events e) \<le> MAX_LOCAL_POLICY_EVENTS
     \<and> replay_history 0 (pe_events e) (bs_empty, bs_empty) = Inr (pe_opted_out e, pe_blocked e)
     \<and> bs_len (pe_opted_out e) \<le> MAX_LOCAL_RULES \<and> bs_len (pe_blocked e) \<le> MAX_LOCAL_RULES
     \<and> (\<forall>k. \<not> bs_member (pe_blocked e) (k, k))"

definition items_ok :: "prop_libs \<Rightarrow> prop_engine \<Rightarrow> bool" where
  "items_ok L e \<longleftrightarrow>
     (\<forall>k i. bm_get (pe_items e) k = Some i \<longrightarrow> it_id i = k
        \<and> (\<exists>c. bm_get (pe_campaigns e) (it_campaign_id i) = Some c \<and> item_fits L e c i \<and> admitted e c i))"

definition deliveries_ok :: "prop_engine \<Rightarrow> bool" where
  "deliveries_ok e \<longleftrightarrow>
     (\<forall>k l i j. bm_get (pe_items e) k = Some i \<longrightarrow> bm_get (pe_items e) l = Some j
        \<longrightarrow> it_campaign_id i = it_campaign_id j \<longrightarrow> it_recipient i = it_recipient j \<longrightarrow> k = l)
     \<and> (\<forall>k i c. bm_get (pe_items e) k = Some i \<longrightarrow> bm_get (pe_campaigns e) (it_campaign_id i) = Some c
        \<longrightarrow> campaign_sends e (it_campaign_id i) (it_sender i) \<le> po_max_fan_out (ca_policy c))"

definition records_ok :: "prop_engine \<Rightarrow> bool" where
  "records_ok e \<longleftrightarrow>
     distinct (map rr_item_id (pe_rates e))
     \<and> (\<forall>k. k \<in> rr_item_id ` set (pe_rates e) \<longleftrightarrow> bm_get (pe_items e) k \<noteq> None)
     \<and> (\<forall>r\<in>set (pe_rates e). \<exists>i. bm_get (pe_items e) (rr_item_id r) = Some i \<and> rr_campaign_id r = it_campaign_id i
          \<and> rr_sender r = it_sender i \<and> rr_sent_at r = it_created_at i)"

definition ack_ok :: "prop_engine \<Rightarrow> acknowledgement \<Rightarrow> bool" where
  "ack_ok e a \<longleftrightarrow> prop_validate_hash (ak_evidence_hash a) = Inr ()
     \<and> (\<exists>i. bm_get (pe_items e) (ak_item_id a) = Some i \<and> ak_actor a = it_recipient i
          \<and> it_created_at i \<le> ak_acknowledged_at a \<and> ak_acknowledged_at a < it_expires_at i
          \<and> it_status i = IS_Acknowledged)"

definition acks_ok :: "prop_engine \<Rightarrow> bool" where
  "acks_ok e \<longleftrightarrow>
     (\<forall>k a. bm_get (pe_acks e) k = Some a \<longrightarrow> ak_id a = k \<and> ack_ok e a)
     \<and> (\<forall>k l a b. bm_get (pe_acks e) k = Some a \<longrightarrow> bm_get (pe_acks e) l = Some b
        \<longrightarrow> ak_item_id a = ak_item_id b \<longrightarrow> k = l)
     \<and> (\<forall>k i. bm_get (pe_items e) k = Some i \<longrightarrow> it_status i = IS_Acknowledged
        \<longrightarrow> (\<exists>l a. bm_get (pe_acks e) l = Some a \<and> ak_item_id a = k))"

definition claim_ok :: "prop_engine \<Rightarrow> outcome_claim \<Rightarrow> bool" where
  "claim_ok e x \<longleftrightarrow> oc_contributor x \<noteq> oc_beneficiary x \<and> prop_validate_hash (oc_evidence_hash x) = Inr ()
     \<and> (\<exists>c i a. bm_get (pe_campaigns e) (oc_campaign_id x) = Some c \<and> bm_get (pe_items e) (oc_item_id x) = Some i
          \<and> bm_get (pe_acks e) (oc_acknowledgement_id x) = Some a \<and> claim_fits x i a
          \<and> ak_acknowledged_at a \<le> oc_occurred_at x \<and> oc_occurred_at x < ca_expires_at c
          \<and> outcome_applies (ca_payload c) (oc_outcome x))"

definition outcomes_ok :: "prop_engine \<Rightarrow> bool" where
  "outcomes_ok e \<longleftrightarrow>
     (\<forall>k x. bm_get (pe_outcomes e) k = Some x \<longrightarrow> oc_id x = k \<and> claim_ok e x)
     \<and> (\<forall>k l x y. bm_get (pe_outcomes e) k = Some x \<longrightarrow> bm_get (pe_outcomes e) l = Some y
        \<longrightarrow> oc_acknowledgement_id x = oc_acknowledgement_id y \<longrightarrow> k = l)
     \<and> (\<forall>a. bs_member (pe_used_acks e) a \<longleftrightarrow>
          (\<exists>k x. bm_get (pe_outcomes e) k = Some x \<and> oc_acknowledgement_id x = a))"

definition credit_key :: "contribution_credit \<Rightarrow> send_key" where
  "credit_key c = (cc_campaign_id c, cc_cthulhu_id c)"

definition claim_key :: "outcome_claim \<Rightarrow> send_key" where
  "claim_key x = (oc_campaign_id x, oc_contributor x)"

definition credit_ok :: "prop_engine \<Rightarrow> contribution_credit \<Rightarrow> bool" where
  "credit_ok e c \<longleftrightarrow> 0 < cc_points c \<and> cc_points c \<le> MAX_CREDIT_PER_CTHULHU_PER_CAMPAIGN
     \<and> cc_credited_outcomes c = credited_claims e (cc_campaign_id c) (cc_cthulhu_id c)
     \<and> cc_points c \<le> cc_credited_outcomes c * MAX_CREDIT_PER_OUTCOME
     \<and> cc_credited_outcomes c \<le> cc_points c"

definition total_points :: "prop_engine \<Rightarrow> campaign_id \<Rightarrow> nat" where
  "total_points e c = sum_list (map cc_points (filter (\<lambda>x. cc_campaign_id x = c) (pe_credits e)))"

definition credits_ok :: "prop_engine \<Rightarrow> bool" where
  "credits_ok e \<longleftrightarrow>
     distinct (map credit_key (pe_credits e)) \<and> (\<forall>c\<in>set (pe_credits e). credit_ok e c)
     \<and> (\<forall>k. k \<in> credit_key ` set (pe_credits e) \<longleftrightarrow>
          (\<exists>j x. bm_get (pe_outcomes e) j = Some x \<and> claim_key x = k))
     \<and> (\<forall>c. total_points e c \<le> MAX_TOTAL_CAMPAIGN_CREDIT)"

definition prop_inv :: "prop_libs \<Rightarrow> prop_engine \<Rightarrow> bool" where
  "prop_inv L e \<longleftrightarrow> entries_ok L e \<and> rules_ok e \<and> items_ok L e \<and> deliveries_ok e \<and> records_ok e \<and> acks_ok e
     \<and> outcomes_ok e \<and> credits_ok e"

lemma default_prop_inv: "prop_inv L PropagationEngine_default"
  by (simp add: prop_inv_def entries_ok_def rules_ok_def items_ok_def deliveries_ok_def records_ok_def acks_ok_def
      outcomes_ok_def credits_ok_def total_points_def PropagationEngine_default_def)

subsection \<open>What the operations do\<close>

definition logged :: "policy_event_kind \<Rightarrow> cthulhu_id bset \<Rightarrow> (cthulhu_id \<times> cthulhu_id) bset \<Rightarrow> prop_engine \<Rightarrow> prop_engine" where
  "logged ev opted blocked e =
     e\<lparr>pe_events := pe_events e @ [\<lparr>pv_generation = pe_generation e + 1, pv_event = ev\<rparr>],
       pe_generation := pe_generation e + 1, pe_opted_out := opted, pe_blocked := blocked\<rparr>"

inductive prop_step :: "prop_libs \<Rightarrow> prop_engine \<Rightarrow> int \<Rightarrow> prop_engine \<Rightarrow> bool" for L e now where
  campaign: "create_campaign L e i council root payload strategy policy now expires_at = Inr (c, e')
     \<Longrightarrow> prop_step L e now e'"
| candidate: "register_candidate e p = Inr e' \<Longrightarrow> prop_step L e now e'"
| opt_out: "set_opt_out e c flag = Inr e' \<Longrightarrow> prop_step L e now e'"
| block: "set_blocked e owner target flag = Inr e' \<Longrightarrow> prop_step L e now e'"
| send: "send_with_validator L e campaign_id parent_id i sender recipient now validator = Inr (d, e')
     \<Longrightarrow> prop_step L e now e'"
| respond: "respond e i recipient accept now = Inr (s, e') \<Longrightarrow> prop_step L e now e'"
| acknowledge: "acknowledge_outcome e i ack_id recipient outcome evidence_hash now = Inr (a, e')
     \<Longrightarrow> prop_step L e now e'"
| revoke: "revoke_campaign e campaign_id root reason now = Inr e' \<Longrightarrow> prop_step L e now e'"
| outcome: "record_outcome e claim model = Inr (x, e') \<Longrightarrow> prop_step L e now e'"

text \<open>\<open>send_initial\<close>, \<open>forward\<close> and \<open>acknowledge\<close> are instances of these steps.\<close>

lemma forward_step: "forward L e parent_id i sender recipient now = Inr (d, e') \<Longrightarrow> prop_step L e now e'"
  by (auto simp: forward_def intro: prop_step.send)

inductive prop_reachable :: "prop_libs \<Rightarrow> prop_engine \<Rightarrow> bool" for L where
  start: "prop_reachable L PropagationEngine_default"
| step: "prop_reachable L e \<Longrightarrow> prop_step L e now e' \<Longrightarrow> prop_reachable L e'"

lemma create_campaign_result:
  assumes "create_campaign L e i council root payload strategy policy created_at expires_at = Inr (c, e')"
  shows "e' = e\<lparr>pe_campaigns := bm_insert i c (pe_campaigns e)\<rparr>" "bm_get (pe_campaigns e) i = None"
    "bm_len (pe_campaigns e) < MAX_CAMPAIGNS" "ca_id c = i" "validate_campaign L c = Inr ()"
    "\<not> is_revoked c" "ca_root c = root" "ca_policy c = policy" "ca_created_at c = created_at"
  using assms by (auto simp: create_campaign_def Let_def is_revoked_def run_checks.simps(1) not_le)

lemma register_candidate_result:
  assumes "register_candidate e p = Inr e'"
  shows "e' = e\<lparr>pe_profiles := bm_insert (cp_cthulhu_id p) p (pe_profiles e)\<rparr>" "validate_candidate p = Inr ()"
    "\<And>q. bm_get (pe_profiles e) (cp_cthulhu_id p) = Some q \<Longrightarrow> profile_in_use e (cp_cthulhu_id p) \<Longrightarrow> q = p"
    "bm_get (pe_profiles e) (cp_cthulhu_id p) \<noteq> None \<or> bm_len (pe_profiles e) < PROP_MAX_CANDIDATES"
  using assms by (auto simp: register_candidate_def run_checks.simps(1) not_le)

lemma next_generation_ok:
  "next_policy_generation e = Inr g \<longleftrightarrow>
     length (pe_events e) < MAX_LOCAL_POLICY_EVENTS \<and> g = pe_generation e + 1 \<and> pe_generation e + 1 \<le> u64_max"
  by (auto simp: next_policy_generation_def not_le)

lemma set_opt_out_result:
  assumes "set_opt_out e c flag = Inr e'" "bs_len (pe_opted_out e) \<le> MAX_LOCAL_RULES"
    "bs_len (pe_blocked e) \<le> MAX_LOCAL_RULES"
  shows "e' = e \<or> (\<exists>ev opted blocked. e' = logged ev opted blocked e \<and> length (pe_events e) < MAX_LOCAL_POLICY_EVENTS
    \<and> apply_policy_event \<lparr>pv_generation = pe_generation e + 1, pv_event = ev\<rparr> (pe_opted_out e, pe_blocked e)
       = Inr (opted, blocked) \<and> blocked = pe_blocked e)"
proof (cases "bs_member (pe_opted_out e) c = flag")
  case False
  have "e' = logged (EV_OptOut c flag)
      (if flag then bs_insert c (pe_opted_out e) else bs_remove c (pe_opted_out e)) (pe_blocked e) e"
    using assms(1) False by (cases flag) (auto simp: set_opt_out_def Let_def logged_def next_generation_ok split: if_splits)
  moreover have "length (pe_events e) < MAX_LOCAL_POLICY_EVENTS"
      "flag \<Longrightarrow> bs_len (pe_opted_out e) < MAX_LOCAL_RULES"
    using assms(1) False by (auto simp: set_opt_out_def Let_def next_generation_ok split: if_splits)
  ultimately show ?thesis
    using False assms(2,3)
    by (intro disjI2 exI[of _ "EV_OptOut c flag"]
        exI[of _ "if flag then bs_insert c (pe_opted_out e) else bs_remove c (pe_opted_out e)"]
        exI[of _ "pe_blocked e"]) (cases flag; auto simp: apply_policy_event_def)
qed (use assms(1) in \<open>simp add: set_opt_out_def\<close>)

lemma set_blocked_result:
  assumes "set_blocked e owner target flag = Inr e'" "bs_len (pe_opted_out e) \<le> MAX_LOCAL_RULES"
    "bs_len (pe_blocked e) \<le> MAX_LOCAL_RULES"
  shows "e' = e \<or> (\<exists>ev opted blocked. e' = logged ev opted blocked e \<and> length (pe_events e) < MAX_LOCAL_POLICY_EVENTS
    \<and> apply_policy_event \<lparr>pv_generation = pe_generation e + 1, pv_event = ev\<rparr> (pe_opted_out e, pe_blocked e)
       = Inr (opted, blocked) \<and> (\<forall>k. bs_member blocked (k, k) \<longrightarrow> bs_member (pe_blocked e) (k, k)))"
proof (cases "bs_member (pe_blocked e) (owner, target) = flag")
  case False
  have distinct: "owner \<noteq> target" using assms(1) by (auto simp: set_blocked_def)
  have "e' = logged (EV_Block owner target flag) (pe_opted_out e)
      (if flag then bs_insert (owner, target) (pe_blocked e) else bs_remove (owner, target) (pe_blocked e)) e"
    using assms(1) False distinct
    by (cases flag) (auto simp: set_blocked_def Let_def logged_def next_generation_ok split: if_splits)
  moreover have "length (pe_events e) < MAX_LOCAL_POLICY_EVENTS"
      "flag \<Longrightarrow> bs_len (pe_blocked e) < MAX_LOCAL_RULES"
    using assms(1) False distinct by (auto simp: set_blocked_def Let_def next_generation_ok split: if_splits)
  ultimately show ?thesis
    using False assms(2,3) distinct
    by (intro disjI2 exI[of _ "EV_Block owner target flag"] exI[of _ "pe_opted_out e"]
        exI[of _ "if flag then bs_insert (owner, target) (pe_blocked e) else bs_remove (owner, target) (pe_blocked e)"])
      (cases flag; auto simp: apply_policy_event_def)
qed (use assms(1) in \<open>simp add: set_blocked_def split: if_splits\<close>)

text \<open>What has been established when an item is created.\<close>

definition with_item :: "item_id \<Rightarrow> prop_item \<Rightarrow> prop_engine \<Rightarrow> prop_engine" where
  "with_item i item e =
     e\<lparr>pe_items := bm_insert i item (pe_items e),
       pe_rates := pe_rates e @ [\<lparr>rr_item_id = i, rr_campaign_id = it_campaign_id item,
                                  rr_sender = it_sender item, rr_sent_at = it_created_at item\<rparr>]\<rparr>"

record sending =
  sg_campaign :: campaign
  sg_parent :: "prop_item option"
  sg_item :: prop_item
  sg_hop :: prop_hop

definition sent :: "prop_libs \<Rightarrow> prop_engine \<Rightarrow> campaign_id \<Rightarrow> item_id option \<Rightarrow> item_id \<Rightarrow> cthulhu_id \<Rightarrow> cthulhu_id
    \<Rightarrow> int \<Rightarrow> sending \<Rightarrow> bool" where
  "sent L e campaign_id parent_id i sender recipient now g \<longleftrightarrow>
     bm_get (pe_items e) i = None \<and> bm_len (pe_items e) < MAX_ITEMS \<and> sender \<noteq> recipient
     \<and> bm_get (pe_campaigns e) campaign_id = Some (sg_campaign g) \<and> parent_of e parent_id = Inr (sg_parent g)
     \<and> \<not> is_revoked (sg_campaign g)
     \<and> ca_created_at (sg_campaign g) \<le> now \<and> now < ca_expires_at (sg_campaign g)
     \<and> (case sg_parent g of None \<Rightarrow> sender = ca_root (sg_campaign g)
                          | Some p \<Rightarrow> it_recipient p = sender \<and> parent_accepted p)
     \<and> send_guards e (sg_campaign g) (sg_parent g) sender recipient = Inr ()
     \<and> (\<exists>x. validate_depth_and_strategy e (sg_campaign g) (sg_parent g) recipient (child_depth (sg_parent g)) = Inr x)
     \<and> send_limits e (sg_campaign g) (sg_parent g) sender recipient now = Inr ()
     \<and> hp_item_id (sg_hop g) = i \<and> hp_sender (sg_hop g) = sender \<and> hp_recipient (sg_hop g) = recipient
     \<and> hp_sent_at (sg_hop g) = now \<and> hp_policy_generation (sg_hop g) = pe_generation e
     \<and> (\<exists>chain_hash. sg_item g = new_item (sg_campaign g) parent_id i sender recipient (child_depth (sg_parent g)) now
          (parent_hops (sg_parent g) @ [sg_hop g]) chain_hash)
     \<and> validate_item_value L e (sg_item g) now = Inr ()"

lemma strict_hop_ok:
  "StrictHopValidator L c parent sender recipient now = Inr r \<longleftrightarrow>
     r = ''campaign and authenticated hop policy validated locally''
     \<and> validate_campaign L c = Inr () \<and> \<not> is_revoked c \<and> ca_created_at c \<le> now \<and> now < ca_expires_at c
     \<and> (case parent of None \<Rightarrow> sender = ca_root c | Some p \<Rightarrow> it_recipient p = sender \<and> parent_accepted p)"
  by (cases parent) (auto simp: StrictHopValidator_def run_checks.simps(1))

lemma send_replayed:
  "bm_get (pe_items e) i = Some x \<Longrightarrow>
   send_with_validator L e campaign_id parent_id i sender recipient now validator =
     (if it_campaign_id x = campaign_id \<and> it_parent_item_id x = parent_id \<and> it_sender x = sender
         \<and> it_recipient x = recipient
      then Inr (DR_ReplaySuppressed x, e) else Inl PE_MessageIdConflict)"
  by (simp add: send_with_validator_def)

lemma send_created:
  assumes "send_with_validator L e campaign_id parent_id i sender recipient now validator = Inr (d, e')"
    "bm_get (pe_items e) i = None"
  obtains g x where "sent L e campaign_id parent_id i sender recipient now g" "e' = with_item i (sg_item g) e"
    "d = DR_Created (sg_item g) x"
proof -
  from assms obtain c parent hop chain_hash x u where s: "bm_len (pe_items e) < MAX_ITEMS" "sender \<noteq> recipient"
      "bm_get (pe_campaigns e) campaign_id = Some c" "parent_of e parent_id = Inr parent"
      "StrictHopValidator L c parent sender recipient now = Inr u"
      "send_guards e c parent sender recipient = Inr ()"
      "\<exists>x. validate_depth_and_strategy e c parent recipient (child_depth parent) = Inr x"
      "send_limits e c parent sender recipient now = Inr ()"
      "hp_item_id hop = i \<and> hp_sender hop = sender \<and> hp_recipient hop = recipient
       \<and> hp_sent_at hop = now \<and> hp_policy_generation hop = pe_generation e"
      "validate_item_value L e (new_item c parent_id i sender recipient (child_depth parent) now
          (parent_hops parent @ [hop]) chain_hash) now = Inr ()"
      "d = DR_Created (new_item c parent_id i sender recipient (child_depth parent) now
          (parent_hops parent @ [hop]) chain_hash) x"
      "e' = with_item i (new_item c parent_id i sender recipient (child_depth parent) now
          (parent_hops parent @ [hop]) chain_hash) e"
    unfolding send_with_validator_def Let_def with_item_def
    by (fastforce simp: run_checks.simps(1) not_le new_item_def)
  let ?g = "\<lparr>sg_campaign = c, sg_parent = parent, sg_item = new_item c parent_id i sender recipient (child_depth parent) now
          (parent_hops parent @ [hop]) chain_hash, sg_hop = hop\<rparr>"
  show ?thesis
    by (rule that[of ?g x]) (use s assms(2) in \<open>auto simp: sent_def strict_hop_ok split: option.splits\<close>)
qed

lemma live_campaign_item_ok [simp]:
  "live_campaign_item e i = Inr item \<longleftrightarrow>
     bm_get (pe_items e) i = Some item
     \<and> (\<exists>c. bm_get (pe_campaigns e) (it_campaign_id item) = Some c \<and> \<not> is_revoked c)"
  by (auto simp: live_campaign_item_def)

lemma respond_result:
  assumes "respond e i recipient accept now = Inr (s, e')"
  shows "\<exists>item. bm_get (pe_items e) i = Some item \<and> it_recipient item = recipient
    \<and> it_created_at item \<le> now \<and> now < it_expires_at item
    \<and> s = (if accept then IS_Accepted else IS_Rejected)
    \<and> (it_status item = s \<and> e' = e
       \<or> it_status item = IS_Pending \<and> e' = put_item i (item\<lparr>it_status := s\<rparr>) e)"
  using assms by (auto simp: respond_def Let_def not_less not_le split: if_splits)

lemma acknowledge_result:
  assumes "acknowledge_outcome e i k recipient outcome evidence_hash now = Inr (a, e')"
  shows "e' = e \<and> bm_get (pe_acks e) k = Some a
    \<or> (\<exists>item. bm_get (pe_items e) i = Some item \<and> it_recipient item = recipient \<and> it_status item = IS_Accepted
         \<and> it_created_at item \<le> now \<and> now < it_expires_at item \<and> bm_get (pe_acks e) k = None
         \<and> bm_len (pe_acks e) < MAX_ACKNOWLEDGEMENTS \<and> prop_validate_hash evidence_hash = Inr ()
         \<and> a = \<lparr>ak_id = k, ak_item_id = i, ak_actor = recipient, ak_outcome = outcome,
                 ak_evidence_hash = evidence_hash, ak_acknowledged_at = now\<rparr>
         \<and> e' = (put_item i (item\<lparr>it_status := IS_Acknowledged\<rparr>) e)\<lparr>pe_acks := bm_insert k a (pe_acks e)\<rparr>)"
  using assms by (cases "bm_get (pe_acks e) k") (auto simp: acknowledge_outcome_def Let_def not_less not_le split: if_splits)

lemma revoke_result:
  assumes "revoke_campaign e k root reason now = Inr e'"
  shows "\<exists>c. bm_get (pe_campaigns e) k = Some c \<and> ca_root c = root \<and> ca_created_at c \<le> now
    \<and> prop_validate_text reason PROP_MAX_SHORT_TEXT_BYTES ''revocation reason'' False = Inr ()
    \<and> (is_revoked c \<and> e' = e
       \<or> \<not> is_revoked c
         \<and> e' = e\<lparr>pe_campaigns := bm_insert k (c\<lparr>ca_revoked_at := Some now, ca_revocation_reason := Some reason\<rparr>)
                   (pe_campaigns e)\<rparr>)"
  using assms by (auto simp: revoke_campaign_def is_revoked_def split: if_splits)

definition with_outcome :: "outcome_claim \<Rightarrow> nat \<Rightarrow> prop_engine \<Rightarrow> prop_engine" where
  "with_outcome claim awarded e =
     e\<lparr>pe_credits := add_credit claim awarded (pe_credits e),
       pe_used_acks := bs_insert (oc_acknowledgement_id claim) (pe_used_acks e),
       pe_outcomes := bm_insert (oc_id claim) claim (pe_outcomes e)\<rparr>"

lemma outcome_result:
  assumes "record_outcome e claim model = Inr (x, e')"
  obtains c item ack where
    "e' = with_outcome claim (ce_awarded_points x) e"
    "bm_get (pe_campaigns e) (oc_campaign_id claim) = Some c" "\<not> is_revoked c"
    "bm_get (pe_items e) (oc_item_id claim) = Some item"
    "bm_get (pe_acks e) (oc_acknowledgement_id claim) = Some ack"
    "bm_get (pe_outcomes e) (oc_id claim) = None" "\<not> bs_member (pe_used_acks e) (oc_acknowledgement_id claim)"
    "claim_fits claim item ack" "it_status item = IS_Acknowledged"
    "oc_contributor claim \<noteq> oc_beneficiary claim" "prop_validate_hash (oc_evidence_hash claim) = Inr ()"
    "ak_acknowledged_at ack \<le> oc_occurred_at claim" "oc_occurred_at claim < ca_expires_at c"
    "outcome_applies (ca_payload c) (oc_outcome claim)"
    "ce_awarded_points x = awarded_points e claim (pc_points (model c item claim))" "0 < ce_awarded_points x"
    "ce_contributor_campaign_total x = existing_points e claim + ce_awarded_points x"
  using assms
  by (auto simp: record_outcome_def Let_def with_outcome_def validate_outcome_kind_def run_checks.simps(1) not_less not_le
      split: if_splits)

subsection \<open>Every step only adds\<close>

lemma grows_with_item: "bm_get (pe_items e) i = None \<Longrightarrow> grows e (with_item i item e)"
  by (auto simp: grows_def with_item_def intro: keeps_insert)

lemma grows_put_item:
  "bm_get (pe_items e) i = Some item \<Longrightarrow> status_path (it_status item) s \<Longrightarrow> grows e (put_item i (item\<lparr>it_status := s\<rparr>) e)"
  by (auto simp: grows_def put_item_def intro: keeps_insert)

lemma grows_put_ack:
  "bm_get (pe_items e) i = Some item \<Longrightarrow> status_path (it_status item) s \<Longrightarrow> bm_get (pe_acks e) k = None
   \<Longrightarrow> grows e ((put_item i (item\<lparr>it_status := s\<rparr>) e)\<lparr>pe_acks := bm_insert k a (pe_acks e)\<rparr>)"
  by (auto simp: grows_def put_item_def intro: keeps_insert)

lemma grows_campaigns:
  "(\<And>w. bm_get (pe_campaigns e) k = Some w \<Longrightarrow> same_campaign w c)
   \<Longrightarrow> grows e (e\<lparr>pe_campaigns := bm_insert k c (pe_campaigns e)\<rparr>)"
  by (auto simp: grows_def intro: keeps_insert)

lemma grows_profiles:
  "(\<And>q. bm_get (pe_profiles e) k = Some q \<Longrightarrow> profile_in_use e k \<Longrightarrow> q = p)
   \<Longrightarrow> grows e (e\<lparr>pe_profiles := bm_insert k p (pe_profiles e)\<rparr>)"
  by (auto simp: grows_def intro: keeps_insert)

lemma grows_logged: "grows e (logged ev opted blocked e)"
  by (auto simp: grows_def logged_def)

lemma grows_outcome: "bm_get (pe_outcomes e) (oc_id claim) = None \<Longrightarrow> grows e (with_outcome claim awarded e)"
  by (auto simp: grows_def with_outcome_def intro: keeps_insert)

lemma revoked_same:
  "\<not> is_revoked c \<Longrightarrow> same_campaign c (c\<lparr>ca_revoked_at := Some now, ca_revocation_reason := Some reason\<rparr>)"
  by (auto simp: same_campaign_def)

lemma step_grows:
  assumes "prop_step L e now e'" "rules_ok e"
  shows "grows e e'"
  using assms(1)
proof cases
  case campaign
  then show ?thesis using create_campaign_result(1,2) grows_campaigns by fastforce
next
  case candidate
  then show ?thesis using register_candidate_result(1,3) grows_profiles by metis
next
  case opt_out
  then show ?thesis using set_opt_out_result assms(2) grows_logged unfolding rules_ok_def by (metis grows_refl)
next
  case block
  then show ?thesis using set_blocked_result assms(2) grows_logged unfolding rules_ok_def by (metis grows_refl)
next
  case (send campaign_id parent_id i sender recipient validator d)
  show ?thesis
  proof (cases "bm_get (pe_items e) i")
    case None
    then show ?thesis using send_created[OF send None] grows_with_item by metis
  qed (use send in \<open>simp add: send_replayed split: if_splits\<close>)
next
  case respond
  then show ?thesis using respond_result grows_put_item grows_refl by (metis status_path_def)
next
  case (acknowledge i k recipient outcome evidence_hash a)
  then show ?thesis
    using acknowledge_result[OF acknowledge] grows_put_ack[of e i _ IS_Acknowledged k a] by (auto simp: status_path_def)
next
  case (revoke k root reason)
  obtain c where c: "bm_get (pe_campaigns e) k = Some c" "is_revoked c \<and> e' = e
      \<or> \<not> is_revoked c \<and> e' = e\<lparr>pe_campaigns := bm_insert k (c\<lparr>ca_revoked_at := Some now,
            ca_revocation_reason := Some reason\<rparr>) (pe_campaigns e)\<rparr>"
    using revoke_result[OF revoke] by blast
  then show ?thesis using grows_campaigns[of e k] revoked_same[of c] by auto
next
  case outcome
  then show ?thesis using outcome_result grows_outcome by metis
qed

subsection \<open>Preservation\<close>

definition same_items :: "prop_engine \<Rightarrow> prop_engine \<Rightarrow> bool" where
  "same_items e e' \<longleftrightarrow>
     keeps same_item (pe_items e) (pe_items e') \<and> (\<forall>k. bm_get (pe_items e) k = None \<longrightarrow> bm_get (pe_items e') k = None)"

lemma same_items_back:
  assumes "same_items e e'" "bm_get (pe_items e') k = Some i'"
  obtains i where "bm_get (pe_items e) k = Some i" "same_item i i'"
proof -
  obtain i where i: "bm_get (pe_items e) k = Some i" using assms by (cases "bm_get (pe_items e) k") (auto simp: same_items_def)
  moreover have "same_item i i'" using assms keepsD[OF _ i] by (fastforce simp: same_items_def)
  ultimately show ?thesis by (rule that)
qed

lemma same_items_eq: "pe_items e' = pe_items e \<Longrightarrow> same_items e e'"
  by (simp add: same_items_def)

lemma same_items_put:
  "bm_get (pe_items e) i = Some item \<Longrightarrow> status_path (it_status item) s
   \<Longrightarrow> pe_items e' = bm_insert i (item\<lparr>it_status := s\<rparr>) (pe_items e) \<Longrightarrow> same_items e e'"
  by (auto simp: same_items_def intro: keeps_insert)

lemma sends_card:
  "campaign_sends e c s = card {k. \<exists>i. bm_get (pe_items e) k = Some i \<and> it_campaign_id i = c \<and> it_sender i = s}"
  unfolding campaign_sends_def by (rule filter_values_card)

lemma sends_same:
  assumes "same_items e e'"
  shows "campaign_sends e' c s = campaign_sends e c s"
proof -
  have "(\<exists>i. bm_get (pe_items e') k = Some i \<and> it_campaign_id i = c \<and> it_sender i = s)
      \<longleftrightarrow> (\<exists>i. bm_get (pe_items e) k = Some i \<and> it_campaign_id i = c \<and> it_sender i = s)" for k
  proof
    assume "\<exists>i. bm_get (pe_items e') k = Some i \<and> it_campaign_id i = c \<and> it_sender i = s"
    then show "\<exists>i. bm_get (pe_items e) k = Some i \<and> it_campaign_id i = c \<and> it_sender i = s"
      using same_items_back[OF assms] by (metis same_item_sel(2,4))
  next
    assume "\<exists>i. bm_get (pe_items e) k = Some i \<and> it_campaign_id i = c \<and> it_sender i = s"
    then show "\<exists>i. bm_get (pe_items e') k = Some i \<and> it_campaign_id i = c \<and> it_sender i = s"
      using assms keepsD unfolding same_items_def by (metis same_item_sel(2,4))
  qed
  then show ?thesis by (simp add: sends_card)
qed

lemma rules_ok_logged:
  assumes "rules_ok e" "length (pe_events e) < MAX_LOCAL_POLICY_EVENTS"
    "apply_policy_event \<lparr>pv_generation = pe_generation e + 1, pv_event = ev\<rparr> (pe_opted_out e, pe_blocked e)
       = Inr (opted, blocked)"
    "\<And>k. bs_member blocked (k, k) \<Longrightarrow> bs_member (pe_blocked e) (k, k)"
  shows "rules_ok (logged ev opted blocked e)"
proof -
  have "bs_len opted \<le> MAX_LOCAL_RULES \<and> bs_len blocked \<le> MAX_LOCAL_RULES"
    using assms(3) by (auto simp: apply_policy_event_def split: if_splits)
  then show ?thesis using assms by (auto simp: rules_ok_def logged_def replay_history_append)
qed

lemma path_in_use: "bm_get (pe_items e) k = Some i \<Longrightarrow> on_path i c \<Longrightarrow> profile_in_use e c"
  unfolding in_use_iff by blast

lemma grows_path_kept: "grows e e' \<Longrightarrow> bm_get (pe_items e) k = Some i \<Longrightarrow> path_profiles_kept e e' i"
  unfolding path_profiles_kept_def using grows_sel(6) path_in_use by metis

lemma item_kept:
  assumes inv: "items_ok L e" "rules_ok e" and g: "grows e e'"
    and old: "bm_get (pe_items e) k = Some i" and i: "same_item i i'"
  shows "it_id i' = k \<and> (\<exists>c. bm_get (pe_campaigns e') (it_campaign_id i') = Some c \<and> item_fits L e' c i' \<and> admitted e' c i')"
proof -
  obtain c where c: "bm_get (pe_campaigns e) (it_campaign_id i) = Some c" "item_fits L e c i" "admitted e c i" "it_id i = k"
    using inv(1) old unfolding items_ok_def by blast
  obtain c' where c': "bm_get (pe_campaigns e') (it_campaign_id i) = Some c'" "same_campaign c c'"
    using keepsD[OF grows_sel(1)[OF g] c(1)] by blast
  obtain evs where evs: "pe_events e' = pe_events e @ evs" using grows_sel(7)[OF g] by blast
  have gen: "pe_generation e = length (pe_events e)" using inv(2) by (simp add: rules_ok_def)
  note kept = grows_sel(2)[OF g] grows_path_kept[OF g old]
  show ?thesis
    using item_fits_grows[OF c(2) c'(2) i kept grows_sel(8)[OF g]]
      admitted_grows[OF c(3,2) c'(2) i kept evs gen] c(4) c'(1) same_item_sel[OF i] by simp
qed

lemma items_ok_grows:
  assumes "items_ok L e" "rules_ok e" "grows e e'" "same_items e e'"
  shows "items_ok L e'"
  unfolding items_ok_def
proof (intro allI impI)
  fix k i' assume "bm_get (pe_items e') k = Some i'"
  then obtain i where "bm_get (pe_items e) k = Some i" "same_item i i'" by (rule same_items_back[OF assms(4)])
  then show "it_id i' = k \<and> (\<exists>c. bm_get (pe_campaigns e') (it_campaign_id i') = Some c \<and> item_fits L e' c i' \<and> admitted e' c i')"
    by (rule item_kept[OF assms(1-3)])
qed

lemma deliveries_ok_grows:
  assumes inv: "deliveries_ok e" "items_ok L e" and g: "grows e e'" and same: "same_items e e'"
  shows "deliveries_ok e'"
  unfolding deliveries_ok_def
proof (intro conjI allI impI)
  fix k l i' j'
  assume get: "bm_get (pe_items e') k = Some i'" "bm_get (pe_items e') l = Some j'"
    and eq: "it_campaign_id i' = it_campaign_id j'" "it_recipient i' = it_recipient j'"
  obtain i where i: "bm_get (pe_items e) k = Some i" "same_item i i'" using get(1) by (rule same_items_back[OF same])
  obtain j where j: "bm_get (pe_items e) l = Some j" "same_item j j'" using get(2) by (rule same_items_back[OF same])
  show "k = l" using inv(1) i j eq same_item_sel[OF i(2)] same_item_sel[OF j(2)] unfolding deliveries_ok_def by metis
next
  fix k i' c'
  assume get: "bm_get (pe_items e') k = Some i'" "bm_get (pe_campaigns e') (it_campaign_id i') = Some c'"
  obtain i where i: "bm_get (pe_items e) k = Some i" "same_item i i'" using get(1) by (rule same_items_back[OF same])
  obtain c where c: "bm_get (pe_campaigns e) (it_campaign_id i) = Some c" using inv(2) i(1) unfolding items_ok_def by blast
  have "same_campaign c c'" using keepsD[OF grows_sel(1)[OF g] c] get(2) same_item_sel[OF i(2)] by auto
  then show "campaign_sends e' (it_campaign_id i') (it_sender i') \<le> po_max_fan_out (ca_policy c')"
    using inv(1) i(1) c same_item_sel[OF i(2)] unfolding deliveries_ok_def sends_same[OF same] by (simp add: same_campaign_sel)
qed

lemma rates_ok_grows:
  assumes "records_ok e" "same_items e e'" "pe_rates e' = pe_rates e"
  shows "records_ok e'"
proof -
  have dom: "bm_get (pe_items e') k \<noteq> None \<longleftrightarrow> bm_get (pe_items e) k \<noteq> None" for k
    using assms(2) keepsD[of same_item "pe_items e" "pe_items e'" k] unfolding same_items_def
    by (cases "bm_get (pe_items e) k") auto
  have "\<exists>i. bm_get (pe_items e') (rr_item_id r) = Some i \<and> rr_campaign_id r = it_campaign_id i
          \<and> rr_sender r = it_sender i \<and> rr_sent_at r = it_created_at i" if r: "r \<in> set (pe_rates e)" for r
  proof -
    obtain i where i: "bm_get (pe_items e) (rr_item_id r) = Some i" "rr_campaign_id r = it_campaign_id i"
        "rr_sender r = it_sender i" "rr_sent_at r = it_created_at i"
      using assms(1) r unfolding records_ok_def by blast
    moreover obtain i' where "bm_get (pe_items e') (rr_item_id r) = Some i'" "same_item i i'"
      using keepsD[OF _ i(1)] assms(2) unfolding same_items_def by blast
    ultimately show ?thesis by (simp add: same_item_sel)
  qed
  then show ?thesis using assms(1,3) dom unfolding records_ok_def by simp
qed

lemma ack_ok_kept:
  assumes "ack_ok e a" "keeps same_item (pe_items e) (pe_items e')"
  shows "ack_ok e' a"
proof -
  obtain i where i: "bm_get (pe_items e) (ak_item_id a) = Some i" "it_status i = IS_Acknowledged"
      "ak_actor a = it_recipient i" "it_created_at i \<le> ak_acknowledged_at a" "ak_acknowledged_at a < it_expires_at i"
    using assms(1) unfolding ack_ok_def by blast
  obtain i' where "bm_get (pe_items e') (ak_item_id a) = Some i'" "same_item i i'"
    using keepsD[OF assms(2) i(1)] by blast
  moreover from this(2) have "it_status i' = IS_Acknowledged" using same_item_sel(12)[of i i'] i(2) by (auto simp: status_path_def)
  ultimately show ?thesis using assms(1) i by (simp add: ack_ok_def same_item_sel)
qed

lemma claim_ok_grows:
  assumes "claim_ok e x" "grows e e'"
  shows "claim_ok e' x"
proof -
  obtain c i a where x: "bm_get (pe_campaigns e) (oc_campaign_id x) = Some c" "bm_get (pe_items e) (oc_item_id x) = Some i"
      "bm_get (pe_acks e) (oc_acknowledgement_id x) = Some a" "claim_fits x i a"
      "ak_acknowledged_at a \<le> oc_occurred_at x" "oc_occurred_at x < ca_expires_at c"
      "outcome_applies (ca_payload c) (oc_outcome x)"
    using assms(1) unfolding claim_ok_def by blast
  obtain c' where c: "bm_get (pe_campaigns e') (oc_campaign_id x) = Some c'" "same_campaign c c'"
    using keepsD[OF grows_sel(1)[OF assms(2)] x(1)] by blast
  obtain i' where i: "bm_get (pe_items e') (oc_item_id x) = Some i'" "same_item i i'"
    using keepsD[OF grows_sel(2)[OF assms(2)] x(2)] by blast
  have "bm_get (pe_acks e') (oc_acknowledgement_id x) = Some a" by (rule keeps_eqD[OF grows_sel(3)[OF assms(2)] x(3)])
  then show ?thesis
    using assms(1) c i x(4-7) unfolding claim_ok_def
    by (auto simp: claim_fits_def same_item_sel[OF i(2)] same_campaign_sel[OF c(2)])
qed

lemma outcomes_ok_grows:
  assumes "outcomes_ok e" "grows e e'" "pe_outcomes e' = pe_outcomes e" "pe_used_acks e' = pe_used_acks e"
  shows "outcomes_ok e'"
proof -
  have "claim_ok e x \<Longrightarrow> claim_ok e' x" for x using claim_ok_grows assms(2) by blast
  then show ?thesis using assms(1) unfolding outcomes_ok_def assms(3,4) by blast
qed

lemma credits_ok_same:
  assumes "credits_ok e" "pe_outcomes e' = pe_outcomes e" "pe_credits e' = pe_credits e"
  shows "credits_ok e'"
proof -
  have "credit_ok e' = credit_ok e" "total_points e' = total_points e"
    by (simp_all add: fun_eq_iff credit_ok_def credited_claims_def total_points_def assms(2,3))
  then show ?thesis using assms(1) unfolding credits_ok_def by (simp add: assms(2,3))
qed

lemma acks_ok_same:
  assumes "acks_ok e" "same_items e e'" "pe_acks e' = pe_acks e"
    and acked: "\<And>k i. bm_get (pe_items e') k = Some i \<Longrightarrow> it_status i = IS_Acknowledged
        \<Longrightarrow> \<exists>j. bm_get (pe_items e) k = Some j \<and> it_status j = IS_Acknowledged"
  shows "acks_ok e'"
proof -
  have "keeps same_item (pe_items e) (pe_items e')" using assms(2) by (simp add: same_items_def)
  then have "ack_ok e a \<Longrightarrow> ack_ok e' a" for a by (rule ack_ok_kept[rotated])
  then show ?thesis using assms(1) acked unfolding acks_ok_def assms(3) by blast
qed

subsection \<open>A new item\<close>

lemma with_item_sel [simp]:
  "pe_campaigns (with_item i item e) = pe_campaigns e" "pe_acks (with_item i item e) = pe_acks e"
  "pe_profiles (with_item i item e) = pe_profiles e" "pe_opted_out (with_item i item e) = pe_opted_out e"
  "pe_blocked (with_item i item e) = pe_blocked e" "pe_generation (with_item i item e) = pe_generation e"
  "pe_events (with_item i item e) = pe_events e" "pe_outcomes (with_item i item e) = pe_outcomes e"
  "pe_used_acks (with_item i item e) = pe_used_acks e" "pe_credits (with_item i item e) = pe_credits e"
  "pe_items (with_item i item e) = bm_insert i item (pe_items e)"
  by (simp_all add: with_item_def)

lemma new_item_sel [simp]:
  "it_id (new_item c pid i s r d now hops h) = i" "it_campaign_id (new_item c pid i s r d now hops h) = ca_id c"
  "it_parent_item_id (new_item c pid i s r d now hops h) = pid" "it_sender (new_item c pid i s r d now hops h) = s"
  "it_recipient (new_item c pid i s r d now hops h) = r" "it_depth (new_item c pid i s r d now hops h) = d"
  "it_created_at (new_item c pid i s r d now hops h) = now"
  "it_expires_at (new_item c pid i s r d now hops h) = ca_expires_at c"
  "it_hops (new_item c pid i s r d now hops h) = hops" "it_status (new_item c pid i s r d now hops h) = IS_Pending"
  by (simp_all add: new_item_def)

lemma send_guards_ok:
  "send_guards e c parent sender recipient = Inr () \<longleftrightarrow>
     \<not> bs_member (pe_opted_out e) sender \<and> \<not> bs_member (pe_opted_out e) recipient
     \<and> \<not> bs_member (pe_blocked e) (sender, recipient) \<and> \<not> bs_member (pe_blocked e) (recipient, sender)
     \<and> \<not> ancestor_blocked e parent recipient
     \<and> (\<forall>p. parent = Some p \<longrightarrow> it_campaign_id p = ca_id c \<and> it_policy_version p = po_version (ca_policy c)
              \<and> it_payload_hash p = ca_payload_hash c)"
  by (cases parent) (auto simp: send_guards_def run_checks.simps(1))

lemma list_ex_values: "list_ex P (bm_values m) \<longleftrightarrow> (\<exists>k v. bm_get m k = Some v \<and> P v)"
  unfolding list_ex_iff by (metis bm_values_iff)

lemma send_limits_ok:
  "send_limits e c parent sender recipient now = Inr () \<longleftrightarrow>
     (\<forall>k i. bm_get (pe_items e) k = Some i \<longrightarrow> it_campaign_id i = ca_id c \<longrightarrow> it_recipient i \<noteq> recipient)
     \<and> campaign_sends e (ca_id c) sender < po_max_fan_out (ca_policy c)
     \<and> recent_sends e c sender now < po_rate_limit (ca_policy c)
     \<and> (\<forall>h\<in>set (parent_hops parent). hp_sender h \<noteq> recipient \<and> hp_recipient h \<noteq> recipient)
     \<and> (parent = None \<longrightarrow> sender = ca_root c)"
  unfolding send_limits_def list_ex_values by (auto simp: run_checks.simps(1) not_le list_ex_iff)

lemma ancestor_blocked_rules: "ancestors_blocked_by (opted, pe_blocked e) parent r = ancestor_blocked e parent r"
  by (cases parent) (simp_all add: ancestors_blocked_by_def ancestor_blocked_def)

text \<open>The facts of \<open>sent\<close> under the invariant: the campaign is stored under the identifier it carries.\<close>

lemma sent_facts:
  assumes "sent L e campaign_id parent_id i sender recipient now g" "entries_ok L e"
  shows "ca_id (sg_campaign g) = campaign_id" "bm_get (pe_campaigns e) campaign_id = Some (sg_campaign g)"
    "item_fits L e (sg_campaign g) (sg_item g)" "it_id (sg_item g) = i" "it_campaign_id (sg_item g) = campaign_id"
    "it_sender (sg_item g) = sender" "it_recipient (sg_item g) = recipient" "it_created_at (sg_item g) = now"
    "it_parent_item_id (sg_item g) = parent_id" "it_status (sg_item g) = IS_Pending"
    "it_depth (sg_item g) = child_depth (sg_parent g)"
    "it_hops (sg_item g) = parent_hops (sg_parent g) @ [sg_hop g]"
proof -
  show id: "ca_id (sg_campaign g) = campaign_id" and "bm_get (pe_campaigns e) campaign_id = Some (sg_campaign g)"
    using assms by (simp_all add: sent_def entries_ok_def)
  obtain h where item: "sg_item g = new_item (sg_campaign g) parent_id i sender recipient (child_depth (sg_parent g)) now
          (parent_hops (sg_parent g) @ [sg_hop g]) h" using assms(1) unfolding sent_def by blast
  show "it_id (sg_item g) = i" "it_campaign_id (sg_item g) = campaign_id"
    "it_sender (sg_item g) = sender" "it_recipient (sg_item g) = recipient" "it_created_at (sg_item g) = now"
    "it_parent_item_id (sg_item g) = parent_id" "it_status (sg_item g) = IS_Pending"
    "it_depth (sg_item g) = child_depth (sg_parent g)"
    "it_hops (sg_item g) = parent_hops (sg_parent g) @ [sg_hop g]"
    by (simp_all add: item id)
  show "item_fits L e (sg_campaign g) (sg_item g)"
    using assms(1) id unfolding sent_def validate_item_value_ok by (auto simp: item)
qed

lemma sent_admitted:
  assumes s: "sent L e campaign_id parent_id i sender recipient now g" and inv: "entries_ok L e" "rules_ok e"
  shows "admitted e (sg_campaign g) (sg_item g)"
proof -
  note f = sent_facts[OF s inv(1)]
  have "item_generation (sg_item g) = length (pe_events e)"
    using s inv(2) by (simp add: item_generation_last f(12) sent_def rules_ok_def)
  then have "rules_at e (item_generation (sg_item g)) = Inr (pe_opted_out e, pe_blocked e)"
    using inv(2) by (simp add: rules_at_def rules_ok_def)
  then show ?thesis
    unfolding admitted_def f
    using s unfolding sent_def send_guards_ok
    by (intro exI[of _ "sg_parent g"] exI[of _ "(pe_opted_out e, pe_blocked e)"]) (simp add: ancestor_blocked_rules)
qed

lemma sent_items_ok:
  assumes s: "sent L e campaign_id parent_id i sender recipient now g" and inv: "entries_ok L e" "rules_ok e" "items_ok L e"
  shows "items_ok L (with_item i (sg_item g) e)"
  unfolding items_ok_def
proof (intro allI impI)
  let ?e = "with_item i (sg_item g) e"
  note f = sent_facts[OF s inv(1)]
  have free: "bm_get (pe_items e) i = None" using s by (simp add: sent_def)
  have g: "grows e ?e" using grows_with_item[OF free] .
  fix k x assume get: "bm_get (pe_items ?e) k = Some x"
  show "it_id x = k \<and> (\<exists>c. bm_get (pe_campaigns ?e) (it_campaign_id x) = Some c \<and> item_fits L ?e c x \<and> admitted ?e c x)"
  proof (cases "k = i")
    case False
    then have "bm_get (pe_items e) k = Some x" using get by simp
    then show ?thesis using item_kept[OF inv(3,2) g] same_item_refl by blast
  next
    case True
    then have x: "x = sg_item g" using get by simp
    have "path_profiles_kept e ?e x" by (simp add: path_profiles_kept_def)
    then show ?thesis
      using item_fits_grows[OF f(3) same_campaign_refl same_item_refl grows_sel(2)[OF g]]
        admitted_grows[OF sent_admitted[OF s inv(1,2)] f(3) same_campaign_refl same_item_refl grows_sel(2)[OF g], of "[]"]
        inv(2) f True by (simp add: x rules_ok_def)
  qed
qed

lemma sends_with_item:
  assumes "bm_get (pe_items e) i = None"
  shows "campaign_sends (with_item i item e) c s
    = campaign_sends e c s + (if it_campaign_id item = c \<and> it_sender item = s then 1 else 0)"
proof -
  let ?K = "{k. \<exists>x. bm_get (pe_items e) k = Some x \<and> it_campaign_id x = c \<and> it_sender x = s}"
  have fin: "finite ?K" by (rule finite_filter_values)
  have "{k. \<exists>x. bm_get (pe_items (with_item i item e)) k = Some x \<and> it_campaign_id x = c \<and> it_sender x = s}
      = (if it_campaign_id item = c \<and> it_sender item = s then insert i ?K else ?K)"
    using assms by (auto split: if_splits)
  moreover have "i \<notin> ?K" using assms by simp
  ultimately show ?thesis using fin by (simp add: sends_card)
qed

lemma sent_deliveries_ok:
  assumes s: "sent L e campaign_id parent_id i sender recipient now g" and inv: "entries_ok L e" "deliveries_ok e" "items_ok L e"
  shows "deliveries_ok (with_item i (sg_item g) e)"
  unfolding deliveries_ok_def
proof (intro conjI allI impI)
  note f = sent_facts[OF s inv(1)]
  let ?e = "with_item i (sg_item g) e"
  have free: "bm_get (pe_items e) i = None" using s by (simp add: sent_def)
  have limits: "send_limits e (sg_campaign g) (sg_parent g) sender recipient now = Inr ()" using s by (simp add: sent_def)
  have fresh: "it_recipient x \<noteq> recipient" if "bm_get (pe_items e) k = Some x" "it_campaign_id x = campaign_id" for k x
    using limits that f(1) unfolding send_limits_ok by auto
  fix k l x y
  assume get: "bm_get (pe_items ?e) k = Some x" "bm_get (pe_items ?e) l = Some y"
    and eq: "it_campaign_id x = it_campaign_id y" "it_recipient x = it_recipient y"
  show "k = l"
  proof (cases "k = i \<or> l = i")
    case True
    then show ?thesis using get eq fresh[of k x] fresh[of l y] f(5,7) by (auto split: if_splits)
  next
    case False
    then have "bm_get (pe_items e) k = Some x" "bm_get (pe_items e) l = Some y" using get by simp_all
    then show ?thesis using inv(2) eq unfolding deliveries_ok_def by blast
  qed
next
  note f = sent_facts[OF s inv(1)]
  let ?e = "with_item i (sg_item g) e"
  have free: "bm_get (pe_items e) i = None" using s by (simp add: sent_def)
  fix k x c
  assume get: "bm_get (pe_items ?e) k = Some x" "bm_get (pe_campaigns ?e) (it_campaign_id x) = Some c"
  have "send_limits e (sg_campaign g) (sg_parent g) sender recipient now = Inr ()" using s by (simp add: sent_def)
  then have room: "campaign_sends e campaign_id sender < po_max_fan_out (ca_policy (sg_campaign g))"
    using f(1) unfolding send_limits_ok by auto
  show "campaign_sends ?e (it_campaign_id x) (it_sender x) \<le> po_max_fan_out (ca_policy c)"
  proof (cases "it_campaign_id x = campaign_id \<and> it_sender x = sender")
    case True
    then show ?thesis using get(2) room f(2,5,6) sends_with_item[OF free] by simp
  next
    case False
    then have "bm_get (pe_items e) k = Some x" using get(1) f(5,6) by (auto split: if_splits)
    then have "campaign_sends e (it_campaign_id x) (it_sender x) \<le> po_max_fan_out (ca_policy c)"
      using inv(2) get(2) unfolding deliveries_ok_def with_item_sel by blast
    then show ?thesis using False f(5,6) sends_with_item[OF free] by auto
  qed
qed

lemma sent_records_ok:
  assumes "records_ok e" "bm_get (pe_items e) i = None"
  shows "records_ok (with_item i item e)"
proof -
  have new: "i \<notin> rr_item_id ` set (pe_rates e)" using assms unfolding records_ok_def by blast
  have "\<exists>x. bm_get (pe_items (with_item i item e)) (rr_item_id r) = Some x \<and> rr_campaign_id r = it_campaign_id x
          \<and> rr_sender r = it_sender x \<and> rr_sent_at r = it_created_at x" if "r \<in> set (pe_rates e)" for r
    using assms(1) that new unfolding records_ok_def with_item_sel bm_get_insert by (metis imageI)
  then show ?thesis
    using assms(1) new unfolding records_ok_def with_item_def by (auto simp: with_item_def)
qed

lemma sent_acks_ok:
  assumes "acks_ok e" "bm_get (pe_items e) i = None" "it_status item = IS_Pending"
  shows "acks_ok (with_item i item e)"
proof -
  have "keeps same_item (pe_items e) (pe_items (with_item i item e))"
    using assms(2) by (auto intro: keeps_insert)
  then have "ack_ok e a \<Longrightarrow> ack_ok (with_item i item e) a" for a by (rule ack_ok_kept[rotated])
  then show ?thesis using assms unfolding acks_ok_def by auto
qed

lemma sent_inv:
  assumes s: "sent L e campaign_id parent_id i sender recipient now g" and inv: "prop_inv L e"
  shows "prop_inv L (with_item i (sg_item g) e)"
proof -
  have free: "bm_get (pe_items e) i = None" "bm_len (pe_items e) < MAX_ITEMS" using s by (simp_all add: sent_def)
  note i = inv[unfolded prop_inv_def]
  have "entries_ok L (with_item i (sg_item g) e)" "rules_ok (with_item i (sg_item g) e)"
    using i free by (simp_all add: entries_ok_def rules_ok_def)
  moreover have "outcomes_ok (with_item i (sg_item g) e)"
    using i outcomes_ok_grows[OF _ grows_with_item[OF free(1)]] by simp
  moreover have "credits_ok (with_item i (sg_item g) e)" using i credits_ok_same[of e "with_item i (sg_item g) e"] by simp
  moreover have "acks_ok (with_item i (sg_item g) e)"
    using i sent_acks_ok[OF _ free(1)] sent_facts(10)[OF s] by blast
  ultimately show ?thesis
    unfolding prop_inv_def
    using i sent_items_ok[OF s] sent_deliveries_ok[OF s] sent_records_ok[OF _ free(1)] by blast
qed

end
