(* ===== verification/Propagation_Reachable.thy ===== *)
theory Propagation_Reachable
  imports Propagation_Steps
begin

section \<open>The invariant holds of every reachable propagation engine\<close>

text \<open>
  Preservation of \<open>prop_inv\<close> by the operations that create no item, the arithmetic of credits, and
  the invariant of reachable engines.
\<close>

subsection \<open>Campaigns, profiles and rules\<close>

lemma frame_inv:
  assumes inv: "prop_inv L e" and g: "grows e e'" and items: "pe_items e' = pe_items e"
    and frame: "pe_acks e' = pe_acks e" "pe_rates e' = pe_rates e" "pe_outcomes e' = pe_outcomes e"
      "pe_used_acks e' = pe_used_acks e" "pe_credits e' = pe_credits e"
    and new: "entries_ok L e'" "rules_ok e'"
  shows "prop_inv L e'"
proof -
  have same: "same_items e e'" by (rule same_items_eq[OF items])
  note i = inv[unfolded prop_inv_def]
  have "acks_ok e'" by (rule acks_ok_same[OF _ same frame(1)]) (use i items in simp_all)
  then show ?thesis
    unfolding prop_inv_def
    using new i items_ok_grows[OF _ _ g same] deliveries_ok_grows[OF _ _ g same] rates_ok_grows[OF _ same frame(2)]
      outcomes_ok_grows[OF _ g frame(3,4)] credits_ok_same[OF _ frame(3,5)] by blast
qed

lemma campaign_inv:
  assumes "prop_inv L e" "create_campaign L e i council root payload strategy policy now expires_at = Inr (c, e')"
  shows "prop_inv L e'"
proof -
  note r = create_campaign_result[OF assms(2)]
  have "grows e e'" unfolding r(1) by (rule grows_campaigns) (simp add: r(2))
  then show ?thesis
    by (rule frame_inv[OF assms(1)])
      (use assms(1) r in \<open>auto simp: prop_inv_def entries_ok_def rules_ok_def\<close>)
qed

lemma candidate_inv:
  assumes "prop_inv L e" "register_candidate e p = Inr e'"
  shows "prop_inv L e'"
proof -
  note r = register_candidate_result[OF assms(2)]
  have "grows e e'" unfolding r(1) by (rule grows_profiles) (rule r(3))
  moreover have "entries_ok L e'"
    using assms(1) r(1,2) r(4) by (auto simp: prop_inv_def entries_ok_def)
  ultimately show ?thesis
    by (intro frame_inv[OF assms(1)]) (use assms(1) r(1) in \<open>simp_all add: prop_inv_def rules_ok_def\<close>)
qed

lemma logged_inv:
  assumes "prop_inv L e" "rules_ok (logged ev opted blocked e)"
  shows "prop_inv L (logged ev opted blocked e)"
  by (rule frame_inv[OF assms(1) grows_logged])
    (use assms in \<open>simp_all add: logged_def prop_inv_def entries_ok_def\<close>)

lemma opt_out_inv:
  assumes "prop_inv L e" "set_opt_out e c flag = Inr e'"
  shows "prop_inv L e'"
proof -
  have r: "rules_ok e" using assms(1) by (simp add: prop_inv_def)
  then have "bs_len (pe_opted_out e) \<le> MAX_LOCAL_RULES" "bs_len (pe_blocked e) \<le> MAX_LOCAL_RULES"
    by (simp_all add: rules_ok_def)
  from set_opt_out_result[OF assms(2) this] show ?thesis
    using assms(1) logged_inv[OF assms(1) rules_ok_logged[OF r]] by auto
qed

lemma block_inv:
  assumes "prop_inv L e" "set_blocked e owner target flag = Inr e'"
  shows "prop_inv L e'"
proof -
  have r: "rules_ok e" using assms(1) by (simp add: prop_inv_def)
  then have "bs_len (pe_opted_out e) \<le> MAX_LOCAL_RULES" "bs_len (pe_blocked e) \<le> MAX_LOCAL_RULES"
    by (simp_all add: rules_ok_def)
  from set_blocked_result[OF assms(2) this] show ?thesis
    using assms(1) logged_inv[OF assms(1) rules_ok_logged[OF r]] by auto
qed

lemma revoke_inv:
  assumes "prop_inv L e" "revoke_campaign e k root reason now = Inr e'"
  shows "prop_inv L e'"
proof -
  obtain c where c: "bm_get (pe_campaigns e) k = Some c" "ca_created_at c \<le> now"
      "prop_validate_text reason PROP_MAX_SHORT_TEXT_BYTES ''revocation reason'' False = Inr ()"
      "is_revoked c \<and> e' = e \<or> \<not> is_revoked c \<and> e' = e\<lparr>pe_campaigns := bm_insert k
          (c\<lparr>ca_revoked_at := Some now, ca_revocation_reason := Some reason\<rparr>) (pe_campaigns e)\<rparr>"
    using revoke_result[OF assms(2)] by blast
  show ?thesis
  proof (cases "e' = e")
    case False
    let ?c = "c\<lparr>ca_revoked_at := Some now, ca_revocation_reason := Some reason\<rparr>"
    have new: "\<not> is_revoked c" "e' = e\<lparr>pe_campaigns := bm_insert k ?c (pe_campaigns e)\<rparr>" using c(4) False by auto
    have "ca_id c = k \<and> validate_campaign L c = Inr ()"
      using assms(1) c(1) by (simp add: prop_inv_def entries_ok_def)
    then have "ca_id ?c = k \<and> validate_campaign L ?c = Inr ()"
      using c(2,3) by (simp add: validate_campaign_ok revocation_ok_def)
    then have "entries_ok L e'" using assms(1) c(1) unfolding prop_inv_def entries_ok_def new(2) by auto
    moreover have "grows e e'" unfolding new(2) by (rule grows_campaigns) (simp add: c(1) revoked_same[OF new(1)])
    ultimately show ?thesis
      by (intro frame_inv[OF assms(1)]) (use assms(1) new(2) in \<open>simp_all add: prop_inv_def rules_ok_def\<close>)
  qed (use assms(1) in simp)
qed

subsection \<open>Responses and acknowledgements\<close>

lemma put_item_sel [simp]:
  "pe_campaigns (put_item i x e) = pe_campaigns e" "pe_acks (put_item i x e) = pe_acks e"
  "pe_profiles (put_item i x e) = pe_profiles e" "pe_opted_out (put_item i x e) = pe_opted_out e"
  "pe_blocked (put_item i x e) = pe_blocked e" "pe_generation (put_item i x e) = pe_generation e"
  "pe_events (put_item i x e) = pe_events e" "pe_outcomes (put_item i x e) = pe_outcomes e"
  "pe_used_acks (put_item i x e) = pe_used_acks e" "pe_credits (put_item i x e) = pe_credits e"
  "pe_rates (put_item i x e) = pe_rates e" "pe_items (put_item i x e) = bm_insert i x (pe_items e)"
  by (simp_all add: put_item_def)

lemma status_inv:
  assumes inv: "prop_inv L e" and old: "bm_get (pe_items e) i = Some item" and path: "status_path (it_status item) s"
    and items: "pe_items e' = bm_insert i (item\<lparr>it_status := s\<rparr>) (pe_items e)" and g: "grows e e'"
    and frame: "pe_campaigns e' = pe_campaigns e" "pe_profiles e' = pe_profiles e" "pe_opted_out e' = pe_opted_out e"
      "pe_blocked e' = pe_blocked e" "pe_generation e' = pe_generation e" "pe_events e' = pe_events e"
      "pe_outcomes e' = pe_outcomes e" "pe_used_acks e' = pe_used_acks e" "pe_credits e' = pe_credits e"
      "pe_rates e' = pe_rates e"
    and acks: "acks_ok e'" "bm_len (pe_acks e') \<le> MAX_ACKNOWLEDGEMENTS"
  shows "prop_inv L e'"
proof -
  note i = inv[unfolded prop_inv_def]
  have same: "same_items e e'" by (rule same_items_put[OF old path items])
  have "rules_ok e'" "entries_ok L e'"
    using i frame acks(2) old by (simp_all add: rules_ok_def entries_ok_def items)
  then show ?thesis
    unfolding prop_inv_def
    using i acks(1) items_ok_grows[OF _ _ g same] deliveries_ok_grows[OF _ _ g same] rates_ok_grows[OF _ same frame(10)]
      outcomes_ok_grows[OF _ g frame(7,8)] credits_ok_same[OF _ frame(7,9)] by blast
qed

lemma respond_inv:
  assumes "prop_inv L e" "respond e i recipient accept now = Inr (s, e')"
  shows "prop_inv L e'"
proof (cases "e' = e")
  case False
  obtain item where item: "bm_get (pe_items e) i = Some item" "it_status item = IS_Pending"
      "s = (if accept then IS_Accepted else IS_Rejected)" "e' = put_item i (item\<lparr>it_status := s\<rparr>) e"
    using respond_result[OF assms(2)] False by blast
  have path: "status_path (it_status item) s" by (simp add: status_path_def item(2))
  have not_acked: "s \<noteq> IS_Acknowledged" by (simp add: item(3))
  have "acks_ok e'"
    by (rule acks_ok_same[OF _ same_items_put[OF item(1) path]])
      (use assms(1) not_acked in \<open>auto simp: prop_inv_def item(4) split: if_splits\<close>)
  then show ?thesis
    using assms(1) by (intro status_inv[OF assms(1) item(1) path])
      (use grows_put_item[OF item(1) path] in \<open>simp_all add: item(4) prop_inv_def entries_ok_def\<close>)
qed (use assms(1) in simp)

lemma acknowledge_inv:
  assumes "prop_inv L e" "acknowledge_outcome e i k recipient outcome evidence_hash now = Inr (a, e')"
  shows "prop_inv L e'"
proof (cases "e' = e")
  case False
  let ?item = "\<lambda>x. x\<lparr>it_status := IS_Acknowledged\<rparr>"
  obtain item where item: "bm_get (pe_items e) i = Some item" "it_recipient item = recipient" "it_status item = IS_Accepted"
      "it_created_at item \<le> now" "now < it_expires_at item" "bm_get (pe_acks e) k = None"
      "bm_len (pe_acks e) < MAX_ACKNOWLEDGEMENTS" "prop_validate_hash evidence_hash = Inr ()"
      and a: "a = \<lparr>ak_id = k, ak_item_id = i, ak_actor = recipient, ak_outcome = outcome,
                    ak_evidence_hash = evidence_hash, ak_acknowledged_at = now\<rparr>"
      and e': "e' = (put_item i (item\<lparr>it_status := IS_Acknowledged\<rparr>) e)\<lparr>pe_acks := bm_insert k a (pe_acks e)\<rparr>"
    using acknowledge_result[OF assms(2)] False by blast
  have path: "status_path (it_status item) IS_Acknowledged" by (simp add: status_path_def item(3))
  have inv: "acks_ok e" using assms(1) by (simp add: prop_inv_def)
  have keep: "keeps same_item (pe_items e) (pe_items e')"
    using item(1) path by (auto simp: e' intro: keeps_insert)
  have fresh: "ak_item_id b \<noteq> i" if "bm_get (pe_acks e) l = Some b" for l b
  proof
    assume "ak_item_id b = i"
    then have "it_status item = IS_Acknowledged" using inv that item(1) unfolding acks_ok_def ack_ok_def by fastforce
    then show False using item(3) by simp
  qed
  have "ack_ok e' a" using item(1,2,4,5,8) by (simp add: ack_ok_def a e')
  moreover have "ak_id b = l \<and> ack_ok e' b" if "bm_get (pe_acks e) l = Some b" for l b
    using inv that ack_ok_kept[OF _ keep] unfolding acks_ok_def by blast
  ultimately have "\<forall>l b. bm_get (pe_acks e') l = Some b \<longrightarrow> ak_id b = l \<and> ack_ok e' b"
    by (auto simp: e' a)
  moreover have "\<forall>l m b c. bm_get (pe_acks e') l = Some b \<longrightarrow> bm_get (pe_acks e') m = Some c
      \<longrightarrow> ak_item_id b = ak_item_id c \<longrightarrow> l = m"
  proof (intro allI impI)
    fix l m b c
    assume get: "bm_get (pe_acks e') l = Some b" "bm_get (pe_acks e') m = Some c" and eq: "ak_item_id b = ak_item_id c"
    show "l = m"
    proof (cases "l = k \<or> m = k")
      case True
      then show ?thesis using get eq fresh[of l b] fresh[of m c] by (auto simp: e' a split: if_splits)
    next
      case False
      then show ?thesis using get eq inv unfolding acks_ok_def by (auto simp: e')
    qed
  qed
  moreover have "\<forall>l x. bm_get (pe_items e') l = Some x \<longrightarrow> it_status x = IS_Acknowledged
      \<longrightarrow> (\<exists>m b. bm_get (pe_acks e') m = Some b \<and> ak_item_id b = l)"
  proof (intro allI impI)
    fix l x assume get: "bm_get (pe_items e') l = Some x" "it_status x = IS_Acknowledged"
    show "\<exists>m b. bm_get (pe_acks e') m = Some b \<and> ak_item_id b = l"
    proof (cases "l = i")
      case True
      then show ?thesis by (intro exI[of _ k] exI[of _ a]) (simp add: e' a)
    next
      case False
      then have "bm_get (pe_items e) l = Some x" using get(1) by (simp add: e')
      then obtain m b where "bm_get (pe_acks e) m = Some b" "ak_item_id b = l"
        using inv get(2) unfolding acks_ok_def by blast
      moreover from this have "m \<noteq> k" using item(6) by auto
      ultimately show ?thesis by (intro exI[of _ m] exI[of _ b]) (simp add: e')
    qed
  qed
  ultimately have "acks_ok e'" unfolding acks_ok_def by blast
  moreover have "grows e e'" unfolding e' by (rule grows_put_ack[OF item(1) path item(6)])
  ultimately show ?thesis
    by (intro status_inv[OF assms(1) item(1) path]) (use item(6,7) in \<open>simp_all add: e'\<close>)
qed (use assms(1) in simp)

subsection \<open>Credits\<close>

lemma same_credit_key: "same_credit claim c \<longleftrightarrow> credit_key c = claim_key claim"
  by (auto simp: same_credit_def credit_key_def claim_key_def)

definition raised :: "nat \<Rightarrow> contribution_credit \<Rightarrow> contribution_credit" where
  "raised awarded c = c\<lparr>cc_points := cc_points c + awarded, cc_credited_outcomes := cc_credited_outcomes c + 1\<rparr>"

definition first_credit :: "outcome_claim \<Rightarrow> nat \<Rightarrow> contribution_credit" where
  "first_credit claim awarded =
     \<lparr>cc_campaign_id = oc_campaign_id claim, cc_cthulhu_id = oc_contributor claim,
      cc_points = awarded, cc_credited_outcomes = 1\<rparr>"

lemma add_credit_absent:
  "claim_key claim \<notin> credit_key ` set cs \<Longrightarrow> add_credit claim awarded cs = cs @ [first_credit claim awarded]"
  by (induction cs) (auto simp: same_credit_key first_credit_def)

lemma add_credit_present:
  assumes "claim_key claim \<notin> credit_key ` set xs" "credit_key c = claim_key claim"
    "cc_points c + awarded \<le> u16_max" "cc_credited_outcomes c + 1 \<le> u16_max"
  shows "add_credit claim awarded (xs @ c # ys) = xs @ raised awarded c # ys"
  using assms(1) by (induction xs) (use assms(2-4) in \<open>auto simp: same_credit_key raised_def saturating_add_def\<close>)

lemma existing_split:
  obtains (absent) "claim_key claim \<notin> credit_key ` set (pe_credits e)" "existing_points e claim = 0"
  | (present) xs c ys where "pe_credits e = xs @ c # ys" "claim_key claim \<notin> credit_key ` set xs"
      "credit_key c = claim_key claim" "existing_points e claim = cc_points c"
proof (cases "find (same_credit claim) (pe_credits e)")
  case None
  then show ?thesis
    by (intro absent) (simp_all add: existing_points_def, auto simp: find_None_iff same_credit_key image_iff)
next
  case (Some c)
  then obtain i where i: "i < length (pe_credits e)" "same_credit claim (pe_credits e ! i)" "c = pe_credits e ! i"
      "\<And>j. j < i \<Longrightarrow> \<not> same_credit claim (pe_credits e ! j)"
    unfolding find_Some_iff by blast
  have "claim_key claim \<notin> credit_key ` set (take i (pe_credits e))"
    using i(1) i(4)[unfolded same_credit_key] by (force simp: set_conv_nth)
  then show ?thesis
    using i(1-3) by (intro present[of "take i (pe_credits e)" c "drop (Suc i) (pe_credits e)"])
      (simp_all add: id_take_nth_drop[symmetric] same_credit_key existing_points_def Some)
qed

lemma fold_saturating: "acc + sum_list xs \<le> u16_max \<Longrightarrow> fold (\<lambda>p total. saturating_add u16_max total p) xs acc = acc + sum_list xs"
  by (induction xs arbitrary: acc) (simp_all add: saturating_add_def)

lemma campaign_points_total:
  assumes "credits_ok e"
  shows "campaign_points e c = total_points e c"
proof -
  have "total_points e c \<le> MAX_TOTAL_CAMPAIGN_CREDIT" using assms by (simp add: credits_ok_def)
  then have "total_points e c \<le> u16_max" by (simp add: MAX_TOTAL_CAMPAIGN_CREDIT_def u16_max_def)
  then show ?thesis unfolding campaign_points_def total_points_def by (subst fold_saturating) simp_all
qed

lemma awarded_bounds:
  assumes "credits_ok e" "0 < awarded_points e claim proposed"
  shows "awarded_points e claim proposed \<le> MAX_CREDIT_PER_OUTCOME"
    "existing_points e claim + awarded_points e claim proposed \<le> MAX_CREDIT_PER_CTHULHU_PER_CAMPAIGN"
    "total_points e (oc_campaign_id claim) + awarded_points e claim proposed \<le> MAX_TOTAL_CAMPAIGN_CREDIT"
  using assms(2) campaign_points_total[OF assms(1)] by (auto simp: awarded_points_def saturating_sub_def)

lemma claims_card:
  "credited_claims e c s = card {k. \<exists>x. bm_get (pe_outcomes e) k = Some x \<and> claim_key x = (c, s)}"
  unfolding credited_claims_def filter_values_card by (simp add: claim_key_def)

lemma with_outcome_sel [simp]:
  "pe_campaigns (with_outcome x n e) = pe_campaigns e" "pe_items (with_outcome x n e) = pe_items e"
  "pe_acks (with_outcome x n e) = pe_acks e" "pe_profiles (with_outcome x n e) = pe_profiles e"
  "pe_opted_out (with_outcome x n e) = pe_opted_out e" "pe_blocked (with_outcome x n e) = pe_blocked e"
  "pe_generation (with_outcome x n e) = pe_generation e" "pe_events (with_outcome x n e) = pe_events e"
  "pe_rates (with_outcome x n e) = pe_rates e"
  "pe_outcomes (with_outcome x n e) = bm_insert (oc_id x) x (pe_outcomes e)"
  "pe_used_acks (with_outcome x n e) = bs_insert (oc_acknowledgement_id x) (pe_used_acks e)"
  "pe_credits (with_outcome x n e) = add_credit x n (pe_credits e)"
  by (simp_all add: with_outcome_def)

lemma claims_with_outcome:
  assumes "bm_get (pe_outcomes e) (oc_id claim) = None"
  shows "credited_claims (with_outcome claim n e) c s = credited_claims e c s + (if claim_key claim = (c, s) then 1 else 0)"
proof -
  let ?K = "{k. \<exists>x. bm_get (pe_outcomes e) k = Some x \<and> claim_key x = (c, s)}"
  have "finite ?K" by (rule finite_filter_values)
  moreover have "{k. \<exists>x. bm_get (pe_outcomes (with_outcome claim n e)) k = Some x \<and> claim_key x = (c, s)}
      = (if claim_key claim = (c, s) then insert (oc_id claim) ?K else ?K)"
    using assms by (auto split: if_splits)
  moreover have "oc_id claim \<notin> ?K" using assms by simp
  ultimately show ?thesis by (simp add: claims_card)
qed

lemma credit_ok_other:
  assumes "credit_ok e c" "credit_key c \<noteq> claim_key claim" "bm_get (pe_outcomes e) (oc_id claim) = None"
  shows "credit_ok (with_outcome claim n e) c"
proof -
  have "claim_key claim \<noteq> (cc_campaign_id c, cc_cthulhu_id c)" using assms(2) by (auto simp: credit_key_def)
  then have "credited_claims (with_outcome claim n e) (cc_campaign_id c) (cc_cthulhu_id c)
      = credited_claims e (cc_campaign_id c) (cc_cthulhu_id c)"
    by (simp add: claims_with_outcome[OF assms(3)])
  then show ?thesis using assms(1) unfolding credit_ok_def by metis
qed

lemma keys_with_outcome:
  assumes "bm_get (pe_outcomes e) (oc_id claim) = None"
  shows "(\<exists>j x. bm_get (pe_outcomes (with_outcome claim n e)) j = Some x \<and> claim_key x = k)
    \<longleftrightarrow> claim_key claim = k \<or> (\<exists>j x. bm_get (pe_outcomes e) j = Some x \<and> claim_key x = k)"
  using assms by (auto; metis option.distinct(1))

lemma outcome_credits_ok:
  assumes inv: "credits_ok e" and new: "bm_get (pe_outcomes e) (oc_id claim) = None"
    and n: "0 < n" "n \<le> MAX_CREDIT_PER_OUTCOME" "existing_points e claim + n \<le> MAX_CREDIT_PER_CTHULHU_PER_CAMPAIGN"
      "total_points e (oc_campaign_id claim) + n \<le> MAX_TOTAL_CAMPAIGN_CREDIT"
  shows "credits_ok (with_outcome claim n e)"
proof (cases rule: existing_split[of claim e])
  case absent
  let ?e = "with_outcome claim n e" and ?c = "first_credit claim n"
  have credits: "pe_credits ?e = pe_credits e @ [?c]" using add_credit_absent[OF absent(1)] by simp
  have key: "credit_key ?c = claim_key claim" by (simp add: first_credit_def credit_key_def claim_key_def)
  have "credited_claims e (oc_campaign_id claim) (oc_contributor claim) = 0"
  proof -
    have "{k. \<exists>x. bm_get (pe_outcomes e) k = Some x \<and> claim_key x = claim_key claim} = {}"
      using inv absent(1) unfolding credits_ok_def by blast
    then have "{k. \<exists>x. bm_get (pe_outcomes e) k = Some x
        \<and> claim_key x = (oc_campaign_id claim, oc_contributor claim)} = {}" by (simp only: claim_key_def[of claim])
    then show ?thesis unfolding claims_card by (simp only: card.empty)
  qed
  then have "credited_claims ?e (oc_campaign_id claim) (oc_contributor claim) = 1"
    unfolding claims_with_outcome[OF new] by (simp add: claim_key_def)
  then have "credit_ok ?e ?c" using n absent(2) by (simp add: credit_ok_def first_credit_def)
  moreover have "credit_ok ?e c" if c: "c \<in> set (pe_credits e)" for c
  proof (rule credit_ok_other[OF _ _ new])
    show "credit_ok e c" using inv c by (simp add: credits_ok_def)
    show "credit_key c \<noteq> claim_key claim" using absent(1) c by (metis imageI)
  qed
  moreover have "total_points ?e c \<le> MAX_TOTAL_CAMPAIGN_CREDIT" for c
    using inv n(4) unfolding total_points_def credits credits_ok_def by (auto simp: first_credit_def)
  ultimately show ?thesis
    using inv absent(1) keys_with_outcome[OF new] unfolding credits_ok_def credits by (auto simp: key)
next
  case (present xs c ys)
  let ?e = "with_outcome claim n e" and ?c = "raised n c"
  have c: "credit_ok e c" using inv present(1) by (simp add: credits_ok_def)
  have "cc_points c + n \<le> u16_max" "cc_credited_outcomes c + 1 \<le> u16_max"
    using n(3) c present(4) by (simp_all add: credit_ok_def MAX_CREDIT_PER_CTHULHU_PER_CAMPAIGN_def u16_max_def)
  then have credits: "pe_credits ?e = xs @ ?c # ys"
    using add_credit_present[OF present(2,3)] present(1) by simp
  have key: "credit_key ?c = claim_key claim" using present(3) by (simp add: raised_def credit_key_def)
  have cc: "cc_campaign_id c = oc_campaign_id claim" "cc_cthulhu_id c = oc_contributor claim"
    using present(3) by (simp_all add: credit_key_def claim_key_def)
  have "credit_ok ?e ?c"
    using c n present(4) unfolding credit_ok_def claims_with_outcome[OF new]
    by (auto simp: raised_def cc claim_key_def MAX_CREDIT_PER_OUTCOME_def)
  moreover have "credit_ok ?e d" if d: "d \<in> set xs \<union> set ys" for d
  proof (rule credit_ok_other[OF _ _ new])
    show "credit_ok e d" using inv d present(1) by (auto simp: credits_ok_def)
    have "distinct (map credit_key (xs @ c # ys))" using inv present(1) by (simp add: credits_ok_def)
    then show "credit_key d \<noteq> claim_key claim" using d present(3) by (force simp: image_iff)
  qed
  moreover have "total_points ?e k \<le> MAX_TOTAL_CAMPAIGN_CREDIT" for k
  proof -
    have "total_points e k \<le> MAX_TOTAL_CAMPAIGN_CREDIT" using inv by (simp add: credits_ok_def)
    then show ?thesis using n(4) unfolding total_points_def credits present(1) by (auto simp: raised_def cc)
  qed
  moreover have keys: "map credit_key (pe_credits ?e) = map credit_key (pe_credits e)"
    unfolding credits using present(1,3) key by simp
  moreover have "k \<in> credit_key ` set (pe_credits ?e)
      \<longleftrightarrow> (\<exists>j x. bm_get (pe_outcomes ?e) j = Some x \<and> claim_key x = k)" for k
  proof -
    have mem: "claim_key claim \<in> credit_key ` set (pe_credits e)"
      using present(1,3) by (metis image_eqI in_set_conv_decomp)
    have "credit_key ` set (pe_credits ?e) = credit_key ` set (pe_credits e)" using keys by (metis set_map)
    moreover have "k \<in> credit_key ` set (pe_credits e)
        \<longleftrightarrow> (\<exists>j x. bm_get (pe_outcomes e) j = Some x \<and> claim_key x = k)" using inv unfolding credits_ok_def by blast
    ultimately show ?thesis unfolding keys_with_outcome[OF new] using mem by metis
  qed
  moreover have "set (pe_credits ?e) = insert ?c (set xs \<union> set ys)" unfolding credits by auto
  ultimately show ?thesis using inv unfolding credits_ok_def by simp
qed

lemma outcomes_ok_add:
  assumes inv: "outcomes_ok e" and new: "bm_get (pe_outcomes e) (oc_id claim) = None"
    and store: "pe_outcomes e' = bm_insert (oc_id claim) claim (pe_outcomes e)"
      "pe_used_acks e' = bs_insert (oc_acknowledgement_id claim) (pe_used_acks e)"
    and claims: "claim_ok e' claim" "\<And>y. claim_ok e y \<Longrightarrow> claim_ok e' y"
    and fresh: "\<And>k y. bm_get (pe_outcomes e) k = Some y \<Longrightarrow> oc_acknowledgement_id y \<noteq> oc_acknowledgement_id claim"
  shows "outcomes_ok e'"
  unfolding outcomes_ok_def
proof (intro conjI allI impI)
  fix k x assume get: "bm_get (pe_outcomes e') k = Some x"
  have old: "oc_id x = k \<and> claim_ok e x" if "bm_get (pe_outcomes e) k = Some x"
    using inv that unfolding outcomes_ok_def by blast
  show "oc_id x = k" "claim_ok e' x"
    using get old claims by (auto simp: store(1) split: if_splits)
next
  fix k l x y
  assume get: "bm_get (pe_outcomes e') k = Some x" "bm_get (pe_outcomes e') l = Some y"
    and eq: "oc_acknowledgement_id x = oc_acknowledgement_id y"
  show "k = l"
  proof (cases "k = oc_id claim \<or> l = oc_id claim")
    case True
    then show ?thesis using get eq fresh[of k x] fresh[of l y] by (auto simp: store(1) split: if_splits)
  next
    case False
    then show ?thesis using get eq inv unfolding outcomes_ok_def store(1) by auto
  qed
next
  fix a
  have "bs_member (pe_used_acks e) a \<longleftrightarrow> (\<exists>k x. bm_get (pe_outcomes e) k = Some x \<and> oc_acknowledgement_id x = a)"
    using inv unfolding outcomes_ok_def by blast
  moreover have "(\<exists>k x. bm_get (pe_outcomes e') k = Some x \<and> oc_acknowledgement_id x = a)
      \<longleftrightarrow> oc_acknowledgement_id claim = a \<or> (\<exists>k x. bm_get (pe_outcomes e) k = Some x \<and> oc_acknowledgement_id x = a)"
    using new by (auto simp: store(1); metis option.distinct(1))
  ultimately show "bs_member (pe_used_acks e') a
      \<longleftrightarrow> (\<exists>k x. bm_get (pe_outcomes e') k = Some x \<and> oc_acknowledgement_id x = a)"
    by (auto simp: store(2))
qed

lemma outcome_inv:
  assumes "prop_inv L e" "record_outcome e claim model = Inr (x, e')"
  shows "prop_inv L e'"
proof -
  obtain c item ack where r: "e' = with_outcome claim (ce_awarded_points x) e"
    "bm_get (pe_campaigns e) (oc_campaign_id claim) = Some c" "bm_get (pe_items e) (oc_item_id claim) = Some item"
    "bm_get (pe_acks e) (oc_acknowledgement_id claim) = Some ack" "bm_get (pe_outcomes e) (oc_id claim) = None"
    "\<not> bs_member (pe_used_acks e) (oc_acknowledgement_id claim)" "claim_fits claim item ack"
    "oc_contributor claim \<noteq> oc_beneficiary claim" "prop_validate_hash (oc_evidence_hash claim) = Inr ()"
    "ak_acknowledged_at ack \<le> oc_occurred_at claim" "oc_occurred_at claim < ca_expires_at c"
    "outcome_applies (ca_payload c) (oc_outcome claim)"
    "ce_awarded_points x = awarded_points e claim (pc_points (model c item claim))" "0 < ce_awarded_points x"
    by (rule outcome_result[OF assms(2)])
  note i = assms(1)[unfolded prop_inv_def]
  have g: "grows e e'" unfolding r(1) by (rule grows_outcome[OF r(5)])
  have same: "same_items e e'" by (rule same_items_eq) (simp add: r(1))
  have "claim_ok e claim" unfolding claim_ok_def using r by blast
  then have "claim_ok e' claim" by (rule claim_ok_grows[OF _ g])
  moreover have "claim_ok e y \<Longrightarrow> claim_ok e' y" for y by (rule claim_ok_grows[OF _ g])
  moreover have "oc_acknowledgement_id y \<noteq> oc_acknowledgement_id claim" if "bm_get (pe_outcomes e) k = Some y" for k y
    using i r(6) that unfolding outcomes_ok_def by blast
  ultimately have "outcomes_ok e'" using i r(5) by (intro outcomes_ok_add[of e claim e']) (auto simp: r(1))
  moreover have "credits_ok e'"
    unfolding r(1) using i r(13,14) awarded_bounds[of e claim] by (intro outcome_credits_ok[OF _ r(5)]) auto
  moreover have "acks_ok e'" by (rule acks_ok_same[OF _ same]) (use i r(1) in simp_all)
  moreover have "rules_ok e'" "entries_ok L e'" using i by (simp_all add: r(1) rules_ok_def entries_ok_def)
  moreover have "records_ok e'" using i rates_ok_grows[OF _ same] by (simp add: r(1))
  ultimately show ?thesis
    unfolding prop_inv_def using i items_ok_grows[OF _ _ g same] deliveries_ok_grows[OF _ _ g same] by blast
qed

subsection \<open>Reachable engines\<close>

lemma send_inv:
  assumes "prop_inv L e" "send_with_validator L e campaign_id parent_id i sender recipient now validator = Inr (d, e')"
  shows "prop_inv L e'"
proof (cases "bm_get (pe_items e) i")
  case None
  from assms(2) None obtain g x where "sent L e campaign_id parent_id i sender recipient now g"
      "e' = with_item i (sg_item g) e" "d = DR_Created (sg_item g) x"
    by (rule send_created)
  then show ?thesis using sent_inv assms(1) by blast
qed (use assms in \<open>simp add: send_replayed split: if_splits\<close>)

lemma step_inv: "prop_inv L e \<Longrightarrow> prop_step L e now e' \<Longrightarrow> prop_inv L e'"
  by (erule prop_step.cases)
    (blast intro: campaign_inv candidate_inv opt_out_inv block_inv send_inv respond_inv acknowledge_inv revoke_inv
      outcome_inv)+

lemma prop_reachable_inv: "prop_reachable L e \<Longrightarrow> prop_inv L e"
  by (induction rule: prop_reachable.induct) (auto intro: default_prop_inv step_inv)

end
