(* ===== verification/Propagation_Loading.thy ===== *)
theory Propagation_Loading
  imports Propagation_Reachable
begin

section \<open>Which propagation states reload\<close>

text \<open>
  The rate scan and the replay of the policy history against their specifications, and the exact
  condition under which the state of a reachable engine passes its own revalidation.
\<close>

subsection \<open>The two-pointer rate scan\<close>

abbreviation upto_bound :: "int list \<Rightarrow> int \<Rightarrow> nat" where
  "upto_bound ts b \<equiv> length (takeWhile (\<lambda>t. t \<le> b) ts)"

definition window_floor :: "int \<Rightarrow> int \<Rightarrow> int" where
  "window_floor window t = i64_saturating (t - window)"

lemma window_floor_mono: "s \<le> t \<Longrightarrow> window_floor w s \<le> window_floor w t"
  by (auto simp: window_floor_def i64_saturating_def)

lemma window_floor_less: "0 < w \<Longrightarrow> 0 \<le> t \<Longrightarrow> window_floor w t < t"
  by (auto simp: window_floor_def i64_saturating_def i64_min_def)

lemma window_floor_exact: "0 \<le> t \<Longrightarrow> t \<le> i64_max \<Longrightarrow> 0 < w \<Longrightarrow> w \<le> MAX_RATE_WINDOW_SECONDS \<Longrightarrow> window_floor w t = t - w"
  by (simp add: window_floor_def i64_saturating_def i64_min_def MAX_RATE_WINDOW_SECONDS_def)

lemma upto_bound_index: "i < upto_bound ts b \<Longrightarrow> i < length ts \<and> ts ! i \<le> b"
  by (metis (mono_tags, lifting) length_takeWhile_le nth_mem order_less_le_trans set_takeWhileD takeWhile_nth)

lemma advance_left_spec: "left \<le> upto_bound ts b \<Longrightarrow> advance_left ts b left = upto_bound ts b"
proof (induction ts b left rule: advance_left.induct)
  case (1 ts b left)
  show ?case
  proof (cases "left < length ts \<and> ts ! left \<le> b")
    case True
    have "left \<noteq> upto_bound ts b" using True nth_length_takeWhile[of "\<lambda>t. t \<le> b" ts] by auto
    then have "left + 1 \<le> upto_bound ts b" using "1.prems" by simp
    then show ?thesis using "1.IH" True by (subst advance_left.simps) simp
  next
    case False
    then have "left = upto_bound ts b" using "1.prems" upto_bound_index[where i = left and ts = ts and b = b] by force
    then show ?thesis using False by (subst advance_left.simps) auto
  qed
qed

lemma upto_bound_mono: "b \<le> b' \<Longrightarrow> upto_bound ts b \<le> upto_bound ts b'"
  by (induction ts) auto

lemma upto_bound_le: "r < length ts \<Longrightarrow> b < ts ! r \<Longrightarrow> upto_bound ts b \<le> r"
  using upto_bound_index[where i = r and ts = ts and b = b] by force

lemma advance_left_stops:
  "left \<le> upto_bound ts b \<Longrightarrow> r < length ts \<Longrightarrow> b < ts ! r \<Longrightarrow> advance_left ts b left \<le> r"
  by (simp add: advance_left_spec upto_bound_le)

lemma rate_scan_from:
  assumes "sorted ts" "r \<le> length ts" "r < length ts \<Longrightarrow> left \<le> upto_bound ts (window_floor w (ts ! r))"
  shows "rate_scan ts w lim left [r..<length ts] = Inr ()
    \<longleftrightarrow> (\<forall>k. r \<le> k \<and> k < length ts \<longrightarrow> k - upto_bound ts (window_floor w (ts ! k)) + 1 \<le> lim)"
  using assms(2,3)
proof (induction "length ts - r" arbitrary: r left)
  case (Suc n)
  then have r: "r < length ts" by simp
  let ?l = "upto_bound ts (window_floor w (ts ! r))"
  have left: "advance_left ts (i64_saturating (ts ! r - w)) left = ?l"
    using advance_left_spec[OF Suc.prems(2)[OF r]] by (simp only: window_floor_def)
  have "?l \<le> upto_bound ts (window_floor w (ts ! Suc r))" if "Suc r < length ts"
    using that assms(1) by (intro upto_bound_mono window_floor_mono) (simp add: sorted_iff_nth_mono)
  then have "rate_scan ts w lim ?l [Suc r..<length ts] = Inr ()
      \<longleftrightarrow> (\<forall>k. Suc r \<le> k \<and> k < length ts \<longrightarrow> k - upto_bound ts (window_floor w (ts ! k)) + 1 \<le> lim)"
    using Suc.hyps(1)[of "Suc r" ?l] Suc.hyps(2) r by simp
  moreover have "(\<forall>k. r \<le> k \<and> k < length ts \<longrightarrow> P k) \<longleftrightarrow> P r \<and> (\<forall>k. Suc r \<le> k \<and> k < length ts \<longrightarrow> P k)" for P
    using r by (metis Suc_leD le_antisym not_less_eq_eq order_refl)
  ultimately show ?case unfolding upt_conv_Cons[OF r] rate_scan.simps left Let_def by (simp add: not_less)
qed simp

lemma sorted_upto_filter: "sorted (ts :: int list) \<Longrightarrow> upto_bound ts b = length (filter (\<lambda>t. t \<le> b) ts)"
proof (induction ts)
  case (Cons t ts)
  then have "filter (\<lambda>x. x \<le> b) ts = []" if "\<not> t \<le> b" using that by (force simp: filter_empty_conv)
  with Cons show ?case by auto
qed simp

text \<open>The number of sends in the window that ends at \<open>t\<close>.\<close>

definition window_count :: "int \<Rightarrow> int list \<Rightarrow> int \<Rightarrow> nat" where
  "window_count w ts t = length (filter (\<lambda>s. window_floor w t < s \<and> s \<le> t) ts)"

lemma window_count_upto:
  assumes "sorted ts" "window_floor w t < t"
  shows "window_count w ts t = upto_bound ts t - upto_bound ts (window_floor w t)"
proof -
  have "length (filter (\<lambda>s. s \<le> t) ts) = length (filter (\<lambda>s. s \<le> window_floor w t) ts) + window_count w ts t"
    using assms(2) unfolding window_count_def by (induction ts) auto
  then show ?thesis using assms(1) by (simp add: sorted_upto_filter)
qed

lemma rate_scan_exact:
  assumes w: "0 < w" and nonneg: "\<forall>t\<in>set ts. 0 \<le> t"
  shows "rate_scan (sort ts) w lim 0 [0..<length (sort ts)] = Inr ()
    \<longleftrightarrow> (\<forall>t\<in>set ts. window_count w ts t \<le> lim)"
proof -
  let ?ts = "sort ts"
  have floor: "window_floor w t < t" if "t \<in> set ts" for t using nonneg that w by (simp add: window_floor_less)
  have count: "window_count w ts t = upto_bound ?ts t - upto_bound ?ts (window_floor w t)" if "t \<in> set ts" for t
  proof -
    have "window_count w ts t = window_count w ?ts t" by (simp add: window_count_def filter_sort)
    then show ?thesis using window_count_upto[OF sorted_sort floor[OF that]] by simp
  qed
  have "(\<forall>k < length ?ts. k - upto_bound ?ts (window_floor w (?ts ! k)) + 1 \<le> lim)
      \<longleftrightarrow> (\<forall>t\<in>set ts. window_count w ts t \<le> lim)"
  proof
    assume scan: "\<forall>k < length ?ts. k - upto_bound ?ts (window_floor w (?ts ! k)) + 1 \<le> lim"
    show "\<forall>t\<in>set ts. window_count w ts t \<le> lim"
    proof
      fix t assume t: "t \<in> set ts"
      then obtain j where j: "j < length ?ts" "?ts ! j = t" by (metis in_set_conv_nth set_sort)
      have "j < upto_bound ?ts t"
      proof (rule ccontr)
        assume "\<not> j < upto_bound ?ts t"
        then have le: "upto_bound ?ts t \<le> j" by simp
        then have "?ts ! upto_bound ?ts t \<le> t" using j by (metis sorted_nth_mono sorted_sort)
        moreover have "\<not> ?ts ! upto_bound ?ts t \<le> t"
          using nth_length_takeWhile[of "\<lambda>s. s \<le> t" ?ts] le j(1) by linarith
        ultimately show False by simp
      qed
      then have r: "upto_bound ?ts t - 1 < upto_bound ?ts t" "j \<le> upto_bound ?ts t - 1" by linarith+
      then have bound: "upto_bound ?ts t - 1 < length ?ts" "?ts ! (upto_bound ?ts t - 1) \<le> t"
        using upto_bound_index by blast+
      then have "?ts ! (upto_bound ?ts t - 1) = t" using r(2) j by (metis antisym sorted_nth_mono sorted_sort)
      then show "window_count w ts t \<le> lim" using scan[rule_format, OF bound(1)] count[OF t] r(1) by simp
    qed
  next
    assume counts: "\<forall>t\<in>set ts. window_count w ts t \<le> lim"
    show "\<forall>k < length ?ts. k - upto_bound ?ts (window_floor w (?ts ! k)) + 1 \<le> lim"
    proof (intro allI impI)
      fix k assume k: "k < length ?ts"
      then have t: "?ts ! k \<in> set ts" by (metis nth_mem set_sort)
      have "k < upto_bound ?ts (?ts ! k)"
      proof (rule ccontr)
        assume "\<not> k < upto_bound ?ts (?ts ! k)"
        then have le: "upto_bound ?ts (?ts ! k) \<le> k" by simp
        then have "?ts ! upto_bound ?ts (?ts ! k) \<le> ?ts ! k" using k by (metis sorted_nth_mono sorted_sort)
        moreover have "\<not> ?ts ! upto_bound ?ts (?ts ! k) \<le> ?ts ! k"
          using nth_length_takeWhile[of "\<lambda>s. s \<le> ?ts ! k" ?ts] le k by linarith
        ultimately show False by simp
      qed
      moreover have "upto_bound ?ts (window_floor w (?ts ! k)) \<le> k" by (rule upto_bound_le[OF k floor[OF t]])
      ultimately show "k - upto_bound ?ts (window_floor w (?ts ! k)) + 1 \<le> lim"
        using counts count[OF t] t by fastforce
    qed
  qed
  then show ?thesis using rate_scan_from[OF sorted_sort, of 0 ts 0 w lim] by simp
qed

subsection \<open>The loops over items, rates, acknowledgements, outcomes and credits\<close>

definition recipient_key :: "prop_item \<Rightarrow> send_key" where
  "recipient_key i = (it_campaign_id i, it_recipient i)"

definition send_key_of :: "prop_item \<Rightarrow> send_key" where
  "send_key_of i = (it_campaign_id i, it_sender i)"

lemma loaded_items_ok:
  "loaded_items_loop L e now recipients fan xs = Inr fan' \<longleftrightarrow>
     (\<forall>x\<in>set xs. fst x = it_id (snd x) \<and> validate_item_value L e (snd x) (clamped_now (snd x) now) = Inr ()
        \<and> \<not> bs_member recipients (recipient_key (snd x)))
     \<and> distinct (map (recipient_key \<circ> snd) xs) \<and> fan' = fold (\<lambda>x. bump (send_key_of (snd x))) xs fan"
proof (induction xs arbitrary: recipients fan)
  case (Cons x xs)
  show ?case
    unfolding loaded_items_loop.simps Let_def and_then_eq_Inr Cons.IH
    by (auto simp: recipient_key_def[symmetric] send_key_of_def[symmetric] run_checks.simps(1) image_iff comp_def)
qed auto

lemma get_bump: "bm_get (bump k m) j = (if j = k then Some ((case bm_get m k of None \<Rightarrow> 0 | Some n \<Rightarrow> n) + 1) else bm_get m j)"
  by (simp add: bump_def)

lemma get_fold_bump:
  "bm_get (fold (\<lambda>x. bump (f x)) xs m) k =
     (if filter (\<lambda>x. f x = k) xs = [] then bm_get m k
      else Some ((case bm_get m k of None \<Rightarrow> 0 | Some n \<Rightarrow> n) + length (filter (\<lambda>x. f x = k) xs)))"
proof (induction xs arbitrary: m)
  case (Cons x xs)
  show ?case unfolding fold.simps comp_apply Cons.IH get_bump by (auto split: option.split)
qed simp

definition record_ok :: "prop_engine \<Rightarrow> rate_record \<Rightarrow> bool" where
  "record_ok e r \<longleftrightarrow> (\<exists>i. bm_get (pe_items e) (rr_item_id r) = Some i \<and> rr_campaign_id r = it_campaign_id i
     \<and> rr_sender r = it_sender i \<and> rr_sent_at r = it_created_at i)"

definition group_rate :: "rate_record \<Rightarrow> (send_key, int list) bmap \<Rightarrow> (send_key, int list) bmap" where
  "group_rate r g = bm_insert (rr_campaign_id r, rr_sender r)
     ((case bm_get g (rr_campaign_id r, rr_sender r) of None \<Rightarrow> [] | Some ts \<Rightarrow> ts) @ [rr_sent_at r]) g"

lemma loaded_rates_Cons:
  "loaded_rates_loop e ids groups (r # rs) = Inr z \<longleftrightarrow>
     record_ok e r \<and> \<not> bs_member ids (rr_item_id r)
     \<and> loaded_rates_loop e (bs_insert (rr_item_id r) ids) (group_rate r groups) rs = Inr z"
  by (cases "bm_get (pe_items e) (rr_item_id r)") (auto simp: record_ok_def group_rate_def Let_def)

lemma loaded_rates_ok:
  "loaded_rates_loop e ids groups rs = Inr (ids', groups') \<longleftrightarrow>
     (\<forall>r\<in>set rs. \<not> bs_member ids (rr_item_id r) \<and> record_ok e r) \<and> distinct (map rr_item_id rs)
     \<and> ids' = fold (\<lambda>r. bs_insert (rr_item_id r)) rs ids \<and> groups' = fold group_rate rs groups"
  by (induction rs arbitrary: ids groups) (auto simp: loaded_rates_Cons image_iff simp del: loaded_rates_loop.simps(2))

definition rate_key :: "rate_record \<Rightarrow> send_key" where
  "rate_key r = (rr_campaign_id r, rr_sender r)"

lemma get_fold_groups:
  "bm_get (fold group_rate rs m) k =
     (if filter (\<lambda>r. rate_key r = k) rs = [] then bm_get m k
      else Some ((case bm_get m k of None \<Rightarrow> [] | Some ts \<Rightarrow> ts)
                 @ map rr_sent_at (filter (\<lambda>r. rate_key r = k) rs)))"
proof (induction rs arbitrary: m)
  case (Cons r rs)
  show ?case
    unfolding fold.simps comp_apply Cons.IH
    by (auto simp: rate_key_def group_rate_def split: option.split)
qed simp

lemma loaded_acks_Cons:
  "loaded_acks_loop e seen (x # xs) = Inr z \<longleftrightarrow>
     fst x = ak_id (snd x) \<and> ack_ok e (snd x) \<and> \<not> bs_member seen (ak_item_id (snd x))
     \<and> loaded_acks_loop e (bs_insert (ak_item_id (snd x)) seen) xs = Inr z"
  by (cases "bm_get (pe_items e) (ak_item_id (snd x))") (auto simp: ack_ok_def Let_def)

lemma loaded_acks_ok:
  "loaded_acks_loop e seen xs = Inr seen' \<longleftrightarrow>
     (\<forall>x\<in>set xs. fst x = ak_id (snd x) \<and> ack_ok e (snd x) \<and> \<not> bs_member seen (ak_item_id (snd x)))
     \<and> distinct (map (ak_item_id \<circ> snd) xs) \<and> seen' = fold (\<lambda>x. bs_insert (ak_item_id (snd x))) xs seen"
  by (induction xs arbitrary: seen) (auto simp: loaded_acks_Cons image_iff simp del: loaded_acks_loop.simps(2))

definition claim_timely :: "prop_engine \<Rightarrow> outcome_claim \<Rightarrow> bool" where
  "claim_timely e x \<longleftrightarrow>
     (\<forall>c t. bm_get (pe_campaigns e) (oc_campaign_id x) = Some c \<longrightarrow> ca_revoked_at c = Some t \<longrightarrow> oc_occurred_at x < t)"

lemma loaded_outcomes_Cons:
  "loaded_outcomes_loop e used (x # xs) = Inr z \<longleftrightarrow>
     fst x = oc_id (snd x) \<and> claim_ok e (snd x) \<and> claim_timely e (snd x)
     \<and> \<not> bs_member used (oc_acknowledgement_id (snd x))
     \<and> loaded_outcomes_loop e (bs_insert (oc_acknowledgement_id (snd x)) used) xs = Inr z"
  unfolding loaded_outcomes_loop.simps Let_def and_then_eq_Inr ok_or_eq_Inr
  by (auto simp: claim_ok_def claim_timely_def validate_outcome_kind_def run_checks.simps(1) not_less not_le
      split: option.splits)

lemma loaded_outcomes_ok:
  "loaded_outcomes_loop e used xs = Inr used' \<longleftrightarrow>
     (\<forall>x\<in>set xs. fst x = oc_id (snd x) \<and> claim_ok e (snd x) \<and> claim_timely e (snd x)
        \<and> \<not> bs_member used (oc_acknowledgement_id (snd x)))
     \<and> distinct (map (oc_acknowledgement_id \<circ> snd) xs)
     \<and> used' = fold (\<lambda>x. bs_insert (oc_acknowledgement_id (snd x))) xs used"
  by (induction xs arbitrary: used) (auto simp: loaded_outcomes_Cons image_iff simp del: loaded_outcomes_loop.simps(2))

lemma fold_insert_member: "bs_member (fold (\<lambda>x. bs_insert (f x)) xs s) y \<longleftrightarrow> y \<in> f ` set xs \<or> bs_member s y"
  by (induction xs arbitrary: s) auto

lemma loaded_credits_ok:
  "loaded_credits_loop e keys cs = Inr () \<longleftrightarrow>
     (\<forall>c\<in>set cs. 0 < cc_points c \<and> cc_points c \<le> MAX_CREDIT_PER_CTHULHU_PER_CAMPAIGN \<and> \<not> bs_member keys (credit_key c)
        \<and> cc_credited_outcomes c = credited_claims e (cc_campaign_id c) (cc_cthulhu_id c)
        \<and> cc_points c \<le> credited_claims e (cc_campaign_id c) (cc_cthulhu_id c) * MAX_CREDIT_PER_OUTCOME)
     \<and> distinct (map credit_key cs)"
proof (induction cs arbitrary: keys)
  case (Cons c cs)
  show ?case by (auto simp: Let_def Cons.IH credit_key_def image_iff not_le)
qed simp

subsection \<open>Replaying the policy history\<close>

lemma replay_generations:
  "replay_history n evs rules = Inr fin \<Longrightarrow> k < length evs \<Longrightarrow> pv_generation (evs ! k) = n + k + 1"
proof (induction evs arbitrary: n rules k)
  case (Cons ev evs)
  then obtain rules' where "pv_generation ev = n + 1" "replay_history (n + 1) evs rules' = Inr fin"
    by (auto split: if_splits)
  then show ?case using Cons.IH[of "n + 1" rules' "k - 1"] Cons.prems(2) by (cases k) auto
qed simp

lemma replay_upto_take:
  "replay_history n evs rules = Inr fin \<Longrightarrow> n \<le> g \<Longrightarrow>
   \<exists>r. replay_history n (take (g - n) evs) rules = Inr r \<and> replay_upto g evs rules = Inr (drop (g - n) evs, r)"
proof (induction evs arbitrary: n rules)
  case (Cons ev evs)
  from Cons.prems(1) obtain rules' where gen: "pv_generation ev = n + 1"
    and app: "apply_policy_event ev rules = Inr rules'" and rest: "replay_history (n + 1) evs rules' = Inr fin"
    by (auto split: if_splits)
  show ?case
  proof (cases "n + 1 \<le> g")
    case True
    then have "g - n = Suc (g - (n + 1))" by simp
    then show ?thesis using Cons.IH[OF rest True] gen app True by auto
  next
    case False
    then have "g = n" using Cons.prems(2) by simp
    then show ?thesis using gen by simp
  qed
qed simp

lemma replay_upto_rules:
  assumes "replay_history 0 (pe_events e) (bs_empty, bs_empty) = Inr fin" "rules_at e g0 = Inr rules"
    "g0 \<le> g" "g \<le> length (pe_events e)"
  shows "\<exists>r. rules_at e g = Inr r \<and> replay_upto g (drop g0 (pe_events e)) rules = Inr (drop g (pe_events e), r)"
proof -
  have full: "replay_history g0 (drop g0 (pe_events e)) rules = Inr fin"
    using assms(1,2) replay_history_append[of 0 "take g0 (pe_events e)" "drop g0 (pe_events e)" "(bs_empty, bs_empty)"]
      assms(3,4) by (simp add: rules_at_def)
  have split: "take g (pe_events e) = take g0 (pe_events e) @ take (g - g0) (drop g0 (pe_events e))"
    using assms(3) by (metis le_add_diff_inverse take_add)
  obtain r where r: "replay_history g0 (take (g - g0) (drop g0 (pe_events e))) rules = Inr r"
      "replay_upto g (drop g0 (pe_events e)) rules = Inr (drop (g - g0) (drop g0 (pe_events e)), r)"
    using replay_upto_take[OF full assms(3)] by blast
  have "rules_at e g = Inr r"
    using assms(2-4) r(1) unfolding rules_at_def split replay_history_append by (cases "g0 = length (pe_events e)") simp_all
  then show ?thesis using r(2) assms(3) by simp
qed

definition item_timely :: "prop_engine \<Rightarrow> prop_item \<Rightarrow> bool" where
  "item_timely e i \<longleftrightarrow>
     (\<forall>c t. bm_get (pe_campaigns e) (it_campaign_id i) = Some c \<longrightarrow> ca_revoked_at c = Some t \<longrightarrow> it_created_at i < t)"

lemma no_additional_text:
  "prop_validate_text ''no additional local propagation restriction'' PROP_MAX_SHORT_TEXT_BYTES
     ''local policy explanation'' False = Inr ()"
  by code_simp

lemma loaded_item_policy_iff:
  assumes "bm_get (pe_campaigns e) (it_campaign_id i) = Some c" "admitted e c i"
    "rules_at e (item_generation i) = Inr rules"
  shows "validate_loaded_item_policy e i NoAdditionalHopPolicy rules = Inr () \<longleftrightarrow> item_timely e i"
proof -
  obtain parent x where a: "parent_of e (it_parent_item_id i) = Inr parent"
      "case parent of None \<Rightarrow> it_sender i = ca_root c
                    | Some p \<Rightarrow> it_recipient p = it_sender i \<and> parent_accepted p"
      "\<not> bs_member (fst rules) (it_sender i)" "\<not> bs_member (fst rules) (it_recipient i)"
      "\<not> bs_member (snd rules) (it_sender i, it_recipient i)"
      "\<not> bs_member (snd rules) (it_recipient i, it_sender i)"
      "\<not> ancestors_blocked_by rules parent (it_recipient i)"
      "validate_depth_and_strategy e c parent (it_recipient i) (it_depth i) = Inr x"
    using assms(2,3) unfolding admitted_def by auto
  have timely: "item_timely e i \<longleftrightarrow> \<not> (case ca_revoked_at c of None \<Rightarrow> False | Some t \<Rightarrow> it_created_at i \<ge> t)"
    by (auto simp: item_timely_def assms(1) split: option.splits)
  show ?thesis
    unfolding validate_loaded_item_policy_def timely assms(1) ok_or_simps and_then_simps a(1)
    using a(2-) by (cases parent) (auto simp: run_checks.simps(1) NoAdditionalHopPolicy_def no_additional_text)
qed

lemma loaded_policy_loop_iff:
  assumes history: "replay_history 0 (pe_events e) (bs_empty, bs_empty) = Inr fin" "pe_generation e = length (pe_events e)"
    and start: "rules_at e g0 = Inr rules" "g0 \<le> length (pe_events e)"
    and sorted: "sorted (map item_generation is)" "\<forall>i\<in>set is. g0 \<le> item_generation i"
    and items: "\<forall>i\<in>set is. it_hops i \<noteq> [] \<and> item_generation i \<le> pe_generation e
        \<and> (\<exists>c. bm_get (pe_campaigns e) (it_campaign_id i) = Some c \<and> admitted e c i)"
  shows "loaded_policy_loop e NoAdditionalHopPolicy (drop g0 (pe_events e)) rules is = Inr ()
    \<longleftrightarrow> (\<forall>i\<in>set is. item_timely e i)"
  using start sorted items
proof (induction "is" arbitrary: g0 rules)
  case (Cons i "is")
  let ?g = "item_generation i"
  have i: "it_hops i \<noteq> []" "?g \<le> length (pe_events e)" "g0 \<le> ?g" using Cons.prems history(2) by auto
  then have gen: "hp_policy_generation (last (it_hops i)) = ?g" by (simp add: item_generation_last)
  obtain c where c: "bm_get (pe_campaigns e) (it_campaign_id i) = Some c" "admitted e c i" using Cons.prems by auto
  obtain r where r: "rules_at e ?g = Inr r"
      "replay_upto ?g (drop g0 (pe_events e)) rules = Inr (drop ?g (pe_events e), r)"
    using replay_upto_rules[OF history(1) Cons.prems(1) i(3,2)] by blast
  have "loaded_policy_loop e NoAdditionalHopPolicy (drop ?g (pe_events e)) r is = Inr ()
      \<longleftrightarrow> (\<forall>i\<in>set is. item_timely e i)"
    using Cons.prems by (intro Cons.IH[OF r(1) i(2)]) auto
  then show ?case
    using i(1,2) gen r(2) loaded_item_policy_iff[OF c r(1)] history(2)
    by (simp add: last_hop_def)
qed simp

subsection \<open>The reload condition\<close>

definition sends_of :: "prop_engine \<Rightarrow> send_key \<Rightarrow> int list" where
  "sends_of e k = map rr_sent_at (filter (\<lambda>r. rate_key r = k) (pe_rates e))"

definition rates_within :: "prop_engine \<Rightarrow> bool" where
  "rates_within e \<longleftrightarrow>
     (\<forall>r\<in>set (pe_rates e). \<forall>c. bm_get (pe_campaigns e) (rr_campaign_id r) = Some c
        \<longrightarrow> window_count (po_rate_window (ca_policy c)) (sends_of e (rate_key r)) (rr_sent_at r)
              \<le> po_rate_limit (ca_policy c))"

definition timely :: "prop_engine \<Rightarrow> bool" where
  "timely e \<longleftrightarrow> (\<forall>k i. bm_get (pe_items e) k = Some i \<longrightarrow> item_timely e i)
     \<and> (\<forall>k x. bm_get (pe_outcomes e) k = Some x \<longrightarrow> claim_timely e x)"

lemma inv_campaign:
  assumes "prop_inv L e" "bm_get (pe_campaigns e) k = Some c"
  shows "ca_id c = k" "0 \<le> ca_created_at c" "0 < po_rate_window (ca_policy c)" "0 < po_max_fan_out (ca_policy c)"
    "po_rate_window (ca_policy c) \<le> MAX_RATE_WINDOW_SECONDS" "validate_campaign L c = Inr ()"
  using assms unfolding prop_inv_def entries_ok_def by (auto simp: check_simps)

lemma inv_item:
  assumes "prop_inv L e" "bm_get (pe_items e) k = Some i"
  obtains c where "bm_get (pe_campaigns e) (it_campaign_id i) = Some c" "item_fits L e c i" "admitted e c i" "it_id i = k"
  using assms unfolding prop_inv_def items_ok_def by blast

lemma fits_times:
  assumes "item_fits L e c i"
  shows "ca_created_at c \<le> it_created_at i" "it_created_at i < it_expires_at i" "it_expires_at i = ca_expires_at c"
    "it_hops i \<noteq> []"
proof -
  have "last (it_hops i) \<in> set (it_hops i)" "hops_ok c (it_hops i)" using assms by (auto simp: item_fits_def hops_ok_def)
  then have "hop_ok c (last (it_hops i))" by (simp add: hops_ok_def)
  then show "ca_created_at c \<le> it_created_at i" "it_created_at i < it_expires_at i" "it_expires_at i = ca_expires_at c"
    "it_hops i \<noteq> []"
    using assms by (auto simp: item_fits_def hop_ok_def hops_ok_def)
qed

lemma clamped_in_window:
  "0 \<le> it_created_at i \<Longrightarrow> it_created_at i < it_expires_at i
   \<Longrightarrow> it_created_at i \<le> clamped_now i now \<and> clamped_now i now < it_expires_at i"
  by (auto simp: clamped_now_def i64_saturating_def i64_min_def)

lemma item_loads:
  assumes "prop_inv L e" "bm_get (pe_items e) k = Some i"
  shows "validate_item_value L e i (clamped_now i now) = Inr ()"
proof -
  obtain c where c: "bm_get (pe_campaigns e) (it_campaign_id i) = Some c" "item_fits L e c i"
    using inv_item[OF assms] by blast
  then show ?thesis
    unfolding validate_item_value_ok
    using clamped_in_window[of i now] fits_times[OF c(2)] inv_campaign(2)[OF assms(1) c(1)] by force
qed

lemma distinct_entries:
  assumes "\<And>k l v w. bm_get m k = Some v \<Longrightarrow> bm_get m l = Some w \<Longrightarrow> f v = f w \<Longrightarrow> k = l"
  shows "distinct (map (f \<circ> snd) (bm_entries m))"
proof -
  have "distinct (bm_entries m)" using bm_keys_distinct[of m] by (simp add: bm_keys_def distinct_map)
  moreover have "inj_on (f \<circ> snd) (set (bm_entries m))"
  proof (rule inj_onI)
    fix x y assume xy: "x \<in> set (bm_entries m)" "y \<in> set (bm_entries m)" "(f \<circ> snd) x = (f \<circ> snd) y"
    then have get: "bm_get m (fst x) = Some (snd x)" "bm_get m (fst y) = Some (snd y)"
      by (simp_all add: bm_entries_iff[symmetric])
    then have "fst x = fst y" using assms xy(3) by (metis comp_apply)
    then show "x = y" using get by (simp add: prod_eq_iff)
  qed
  ultimately show ?thesis by (simp add: distinct_map)
qed

lemma items_loop_inv:
  assumes inv: "prop_inv L e"
  shows "\<exists>fan. loaded_items_loop L e now bs_empty bm_empty (bm_entries (pe_items e)) = Inr fan
    \<and> (\<forall>x\<in>set (bm_entries fan). check_fan_out e x = Inr ())"
proof -
  let ?fan = "fold (\<lambda>x. bump (send_key_of (snd x))) (bm_entries (pe_items e)) bm_empty"
  have "distinct (map (recipient_key \<circ> snd) (bm_entries (pe_items e)))"
    using inv by (intro distinct_entries) (auto simp: prop_inv_def deliveries_ok_def recipient_key_def)
  moreover have "it_id i = k" if "bm_get (pe_items e) k = Some i" for k i using inv_item[OF inv that] by blast
  ultimately have "loaded_items_loop L e now bs_empty bm_empty (bm_entries (pe_items e)) = Inr ?fan"
    unfolding loaded_items_ok bm_entries_all_iff using item_loads[OF inv] by auto
  moreover have "check_fan_out e (k, n) = Inr ()" if get: "bm_get ?fan k = Some n" for k n
  proof -
    let ?xs = "filter (\<lambda>x. send_key_of (snd x) = k) (bm_entries (pe_items e))"
    have xs: "?xs \<noteq> []" and n: "n = length ?xs"
      using get get_fold_bump[of "\<lambda>x. send_key_of (snd x)" "bm_entries (pe_items e)" bm_empty k] by (auto split: if_splits)
    have "n = campaign_sends e (fst k) (snd k)"
      unfolding n campaign_sends_def bm_values_def filter_map by (simp add: comp_def send_key_of_def prod_eq_iff)
    moreover obtain x where "x \<in> set ?xs" using xs by (metis list.set_sel(1))
    then have x: "bm_get (pe_items e) (fst x) = Some (snd x)" "k = send_key_of (snd x)"
      by (auto simp: bm_entries_iff[symmetric])
    moreover obtain c where "bm_get (pe_campaigns e) (it_campaign_id (snd x)) = Some c" using inv_item[OF inv x(1)] by blast
    ultimately show ?thesis
      using inv x unfolding prop_inv_def deliveries_ok_def by (auto simp: check_fan_out_def send_key_of_def not_less)
  qed
  ultimately show ?thesis unfolding bm_entries_all_iff by blast
qed

lemma record_item:
  assumes "prop_inv L e" "r \<in> set (pe_rates e)"
  obtains i c where "bm_get (pe_items e) (rr_item_id r) = Some i" "bm_get (pe_campaigns e) (rr_campaign_id r) = Some c"
    "rr_campaign_id r = it_campaign_id i" "rr_sender r = it_sender i" "rr_sent_at r = it_created_at i" "0 \<le> rr_sent_at r"
proof -
  obtain i where i: "bm_get (pe_items e) (rr_item_id r) = Some i" "rr_campaign_id r = it_campaign_id i"
      "rr_sender r = it_sender i" "rr_sent_at r = it_created_at i"
    using assms unfolding prop_inv_def records_ok_def by blast
  obtain c where c: "bm_get (pe_campaigns e) (it_campaign_id i) = Some c" "item_fits L e c i"
    using inv_item[OF assms(1) i(1)] by blast
  show ?thesis
    by (rule that[OF i(1)]) (use i c fits_times[OF c(2)] inv_campaign(2)[OF assms(1) c(1)] in auto)
qed

lemma check_rates_inv:
  assumes inv: "prop_inv L e"
  shows "check_rates e = Inr () \<longleftrightarrow> rates_within e"
proof -
  let ?ids = "fold (\<lambda>r. bs_insert (rr_item_id r)) (pe_rates e) bs_empty" and ?groups = "fold group_rate (pe_rates e) bm_empty"
  have rates: "records_ok e" using inv by (simp add: prop_inv_def)
  have loop: "loaded_rates_loop e bs_empty bm_empty (pe_rates e) = Inr (?ids, ?groups)"
    using rates unfolding loaded_rates_ok by (simp add: records_ok_def record_ok_def)
  have "bs_member ?ids k \<longleftrightarrow> bm_get (pe_items e) k \<noteq> None" for k
    using rates by (simp add: fold_insert_member records_ok_def)
  then have len: "bs_len ?ids = bm_len (pe_items e)"
    by (metis (mono_tags, lifting) Collect_cong bm_contains_iff bm_len_card bs_len_def bs_member_def)
  have group: "bm_get ?groups k = (if filter (\<lambda>r. rate_key r = k) (pe_rates e) = [] then None else Some (sends_of e k))" for k
    by (simp add: get_fold_groups sends_of_def)
  have scan: "check_rate_group e (rate_key r, sends_of e (rate_key r)) = Inr () \<longleftrightarrow>
      (\<forall>c. bm_get (pe_campaigns e) (rr_campaign_id r) = Some c \<longrightarrow> (\<forall>t\<in>set (sends_of e (rate_key r)).
         window_count (po_rate_window (ca_policy c)) (sends_of e (rate_key r)) t \<le> po_rate_limit (ca_policy c)))"
    if r: "r \<in> set (pe_rates e)" for r
  proof -
    obtain c where c: "bm_get (pe_campaigns e) (rr_campaign_id r) = Some c" using record_item[OF inv r] by blast
    have "0 \<le> rr_sent_at q" if "q \<in> set (pe_rates e)" for q by (rule record_item[OF inv that])
    then have "\<forall>t\<in>set (sends_of e (rate_key r)). 0 \<le> t" by (auto simp: sends_of_def)
    then show ?thesis
      using rate_scan_exact[OF inv_campaign(3)[OF inv c]] c by (simp add: check_rate_group_def rate_key_def Let_def)
  qed
  have "check_rates e = Inr () \<longleftrightarrow> (\<forall>k ts. bm_get ?groups k = Some ts \<longrightarrow> check_rate_group e (k, ts) = Inr ())"
    unfolding check_rates_def loop and_then_simps prod.case by (simp add: len bm_entries_all_iff)
  also have "\<dots> \<longleftrightarrow> (\<forall>r\<in>set (pe_rates e). check_rate_group e (rate_key r, sends_of e (rate_key r)) = Inr ())"
    unfolding group by (auto simp: filter_empty_conv simp del: split_paired_All split: if_splits)
  also have "\<dots> \<longleftrightarrow> rates_within e"
  proof
    assume ok: "\<forall>r\<in>set (pe_rates e). check_rate_group e (rate_key r, sends_of e (rate_key r)) = Inr ()"
    show "rates_within e"
      unfolding rates_within_def
    proof (intro ballI allI impI)
      fix r c assume r: "r \<in> set (pe_rates e)" and c: "bm_get (pe_campaigns e) (rr_campaign_id r) = Some c"
      have "rr_sent_at r \<in> set (sends_of e (rate_key r))" using r by (simp add: sends_of_def)
      then show "window_count (po_rate_window (ca_policy c)) (sends_of e (rate_key r)) (rr_sent_at r)
          \<le> po_rate_limit (ca_policy c)"
        using scan[OF r] ok r c by blast
    qed
  next
    assume within: "rates_within e"
    show "\<forall>r\<in>set (pe_rates e). check_rate_group e (rate_key r, sends_of e (rate_key r)) = Inr ()"
    proof
      fix r assume r: "r \<in> set (pe_rates e)"
      have "window_count (po_rate_window (ca_policy c)) (sends_of e (rate_key r)) t \<le> po_rate_limit (ca_policy c)"
        if c: "bm_get (pe_campaigns e) (rr_campaign_id r) = Some c" and t: "t \<in> set (sends_of e (rate_key r))" for c t
      proof -
        obtain q where q: "q \<in> set (pe_rates e)" "rate_key q = rate_key r" "t = rr_sent_at q"
          using t by (auto simp: sends_of_def)
        then have "rr_campaign_id q = rr_campaign_id r" by (simp add: rate_key_def)
        then show ?thesis using within q c unfolding rates_within_def by metis
      qed
      then show "check_rate_group e (rate_key r, sends_of e (rate_key r)) = Inr ()" using scan[OF r] by blast
    qed
  qed
  finally show ?thesis .
qed

lemma sorted_map_fst:
  fixes f :: "'a \<Rightarrow> 'b::linorder" and g :: "'a \<Rightarrow> 'c::linorder"
  shows "sorted (map (\<lambda>x. (f x, g x)) xs) \<Longrightarrow> sorted (map f xs)"
  by (induction xs) (auto simp: less_eq_prod_def)

lemma entries_image: "y \<in> (\<lambda>x. f (snd x)) ` set (bm_entries m) \<longleftrightarrow> (\<exists>k v. bm_get m k = Some v \<and> f v = y)"
  by (force simp: bm_entries_iff[symmetric])

lemma policy_history_inv:
  assumes inv: "prop_inv L e"
  shows "validate_loaded_policy_history e NoAdditionalHopPolicy = Inr ()
    \<longleftrightarrow> (\<forall>k i. bm_get (pe_items e) k = Some i \<longrightarrow> item_timely e i)"
proof -
  let ?is = "sort_key (\<lambda>i. (item_generation i, it_id i)) (bm_values (pe_items e))"
  have rules: "pe_generation e = length (pe_events e)"
      "replay_history 0 (pe_events e) (bs_empty, bs_empty) = Inr (pe_opted_out e, pe_blocked e)"
    using inv by (simp_all add: prop_inv_def rules_ok_def)
  have sorted: "sorted (map item_generation ?is)" by (rule sorted_map_fst[of _ it_id]) simp
  have items: "it_hops i \<noteq> [] \<and> item_generation i \<le> pe_generation e
      \<and> (\<exists>c. bm_get (pe_campaigns e) (it_campaign_id i) = Some c \<and> admitted e c i)" if i: "i \<in> set ?is" for i
  proof -
    obtain k where k: "bm_get (pe_items e) k = Some i" using i by (auto simp: bm_values_iff)
    obtain c where c: "bm_get (pe_campaigns e) (it_campaign_id i) = Some c" "item_fits L e c i" "admitted e c i"
      using inv_item[OF inv k] by blast
    have hops: "it_hops i \<noteq> []" by (rule fits_times(4)[OF c(2)])
    then have "item_generation i \<le> pe_generation e" using c(2) by (simp add: item_generation_last item_fits_def)
    then show ?thesis using c hops by blast
  qed
  have start: "rules_at e 0 = Inr (bs_empty, bs_empty)" by (simp add: rules_at_def)
  have "loaded_policy_loop e NoAdditionalHopPolicy (drop 0 (pe_events e)) (bs_empty, bs_empty) ?is = Inr ()
      \<longleftrightarrow> (\<forall>i\<in>set ?is. item_timely e i)"
    by (rule loaded_policy_loop_iff[OF rules(2,1) start _ sorted]) (use items in blast)+
  then show ?thesis
    unfolding validate_loaded_policy_history_def using rules by (auto simp: bm_values_iff)
qed

lemma check_acks_inv:
  assumes inv: "prop_inv L e"
  shows "check_acks e = Inr ()"
proof -
  have acks: "acks_ok e" using inv by (simp add: prop_inv_def)
  let ?seen = "fold (\<lambda>x. bs_insert (ak_item_id (snd x))) (bm_entries (pe_acks e)) bs_empty"
  have "distinct (map (ak_item_id \<circ> snd) (bm_entries (pe_acks e)))"
    using acks by (intro distinct_entries) (simp add: acks_ok_def)
  then have loop: "loaded_acks_loop e bs_empty (bm_entries (pe_acks e)) = Inr ?seen"
    using acks unfolding loaded_acks_ok bm_entries_all_iff by (simp add: acks_ok_def)
  have seen: "bs_member ?seen k \<longleftrightarrow> (\<exists>l a. bm_get (pe_acks e) l = Some a \<and> ak_item_id a = k)" for k
    unfolding fold_insert_member entries_image by simp
  have "it_status i = IS_Acknowledged \<longleftrightarrow> bs_member ?seen (it_id i)" if i: "i \<in> set (bm_values (pe_items e))" for i
  proof -
    obtain k where k: "bm_get (pe_items e) k = Some i" using i by (auto simp: bm_values_iff)
    have "it_id i = k" using inv_item[OF inv k] by blast
    moreover have "it_status i = IS_Acknowledged"
      if "bm_get (pe_acks e) l = Some a" "ak_item_id a = k" for l a
      using acks that k unfolding acks_ok_def ack_ok_def by fastforce
    ultimately show ?thesis using acks k unfolding seen acks_ok_def by blast
  qed
  then show ?thesis unfolding check_acks_def loop by simp
qed

lemma check_outcomes_inv:
  assumes inv: "prop_inv L e"
  shows "check_outcomes e = Inr () \<longleftrightarrow> (\<forall>k x. bm_get (pe_outcomes e) k = Some x \<longrightarrow> claim_timely e x)"
proof -
  have out: "outcomes_ok e" using inv by (simp add: prop_inv_def)
  let ?used = "fold (\<lambda>x. bs_insert (oc_acknowledgement_id (snd x))) (bm_entries (pe_outcomes e)) bs_empty"
  have "distinct (map (oc_acknowledgement_id \<circ> snd) (bm_entries (pe_outcomes e)))"
    using out by (intro distinct_entries) (simp add: outcomes_ok_def)
  then have loop: "loaded_outcomes_loop e bs_empty (bm_entries (pe_outcomes e)) = Inr u
      \<longleftrightarrow> u = ?used \<and> (\<forall>k x. bm_get (pe_outcomes e) k = Some x \<longrightarrow> claim_timely e x)" for u
    using out unfolding loaded_outcomes_ok bm_entries_all_iff by (auto simp: outcomes_ok_def)
  have "bs_member ?used k \<longleftrightarrow> (\<exists>l x. bm_get (pe_outcomes e) l = Some x \<and> oc_acknowledgement_id x = k)" for k
    unfolding fold_insert_member entries_image by simp
  then have "?used = pe_used_acks e" using out by (intro bs_eqI) (simp add: outcomes_ok_def)
  then show ?thesis unfolding check_outcomes_def by (simp add: loop)
qed

lemma check_credits_inv:
  assumes inv: "prop_inv L e"
  shows "loaded_credits_loop e bs_empty (pe_credits e) = Inr ()" "check_credit_cap e c = Inr ()"
proof -
  have credits: "credits_ok e" using inv by (simp add: prop_inv_def)
  show "loaded_credits_loop e bs_empty (pe_credits e) = Inr ()"
    using credits unfolding loaded_credits_ok credits_ok_def credit_ok_def by (metis bs_member_empty)
  show "check_credit_cap e c = Inr ()"
    using credits campaign_points_total[OF credits, of c] by (simp add: check_credit_cap_def credits_ok_def not_less)
qed

lemma inj_dom_len:
  assumes "\<And>k v. bm_get m k = Some v \<Longrightarrow> bm_get m' (f v) \<noteq> None"
    and "\<And>k l v w. bm_get m k = Some v \<Longrightarrow> bm_get m l = Some w \<Longrightarrow> f v = f w \<Longrightarrow> k = l"
  shows "bm_len m \<le> bm_len m'"
proof -
  have "distinct (map (f \<circ> snd) (bm_entries m))" using assms(2) by (rule distinct_entries)
  then have "bm_len m = card ((f \<circ> snd) ` set (bm_entries m))"
    by (metis bm_len_def distinct_card length_map list.set_map)
  also have "\<dots> \<le> card {k. bm_get m' k \<noteq> None}"
    by (rule card_mono[OF finite_bm_dom]) (use assms(1) bm_entries_iff in fastforce)
  finally show ?thesis by (simp add: bm_len_card)
qed

lemma inv_bounds:
  assumes inv: "prop_inv L e"
  shows "loaded_bounds e now \<longleftrightarrow> 0 \<le> now"
proof -
  have rates: "records_ok e" and out: "outcomes_ok e" and credits: "credits_ok e" using inv by (simp_all add: prop_inv_def)
  have "length (pe_rates e) = card (rr_item_id ` set (pe_rates e))"
    using rates unfolding records_ok_def by (metis distinct_card length_map list.set_map)
  also have "rr_item_id ` set (pe_rates e) = {k. bm_get (pe_items e) k \<noteq> None}"
    using rates unfolding records_ok_def by blast
  finally have r: "length (pe_rates e) = bm_len (pe_items e)" by (simp add: bm_len_card)
  have o: "bm_len (pe_outcomes e) \<le> bm_len (pe_acks e)"
    using out by (intro inj_dom_len[of _ _ oc_acknowledgement_id]) (fastforce simp: outcomes_ok_def claim_ok_def)+
  have u: "bs_len (pe_used_acks e) \<le> bm_len (pe_acks e)"
  proof -
    have "{k. bm_get (pe_used_acks e) k \<noteq> None} \<subseteq> {k. bm_get (pe_acks e) k \<noteq> None}"
    proof
      fix k assume "k \<in> {k. bm_get (pe_used_acks e) k \<noteq> None}"
      then have "bs_member (pe_used_acks e) k" by (simp add: bs_member_def)
      then obtain j x where "bm_get (pe_outcomes e) j = Some x" "oc_acknowledgement_id x = k"
        using out unfolding outcomes_ok_def by blast
      then show "k \<in> {k. bm_get (pe_acks e) k \<noteq> None}" using out unfolding outcomes_ok_def claim_ok_def by fastforce
    qed
    then show ?thesis unfolding bs_len_def bm_len_card by (rule card_mono[OF finite_bm_dom])
  qed
  have c: "length (pe_credits e) \<le> bm_len (pe_outcomes e)"
  proof -
    have "length (pe_credits e) = card (credit_key ` set (pe_credits e))"
      using credits unfolding credits_ok_def by (metis distinct_card length_map list.set_map)
    also have "credit_key ` set (pe_credits e) \<subseteq> claim_key ` set (bm_values (pe_outcomes e))"
      using credits unfolding credits_ok_def by (metis bm_values_iff image_eqI subsetI)
    then have "card (credit_key ` set (pe_credits e)) \<le> length (bm_values (pe_outcomes e))"
      by (meson List.finite_set card_image_le card_length card_mono finite_imageI order_trans)
    finally show ?thesis by (simp add: bm_values_def bm_len_def)
  qed
  show ?thesis
    using inv r o u c
    by (auto simp: loaded_bounds_def prop_inv_def entries_ok_def rules_ok_def MAX_ACKNOWLEDGEMENTS_def
        PROP_MAX_CANDIDATES_def MAX_CAMPAIGNS_def not_less)
qed

lemma prop_reload_iff:
  assumes inv: "prop_inv L e"
  shows "prop_validate_loaded_state L e now = Inr () \<longleftrightarrow> 0 \<le> now \<and> timely e \<and> rates_within e"
proof -
  obtain fan where fan: "loaded_items_loop L e now bs_empty bm_empty (bm_entries (pe_items e)) = Inr fan"
      "\<forall>x\<in>set (bm_entries fan). check_fan_out e x = Inr ()"
    using items_loop_inv[OF inv] by blast
  have entries: "\<forall>x\<in>set (bm_entries (pe_campaigns e)). check_campaign_entry L x = Inr ()"
      "\<forall>x\<in>set (bm_entries (pe_profiles e)). check_profile_entry x = Inr ()"
    using inv unfolding bm_entries_all_iff
    by (simp_all add: check_campaign_entry_def check_profile_entry_def run_checks.simps(1) prop_inv_def entries_ok_def)
  have self: "\<not> list_ex (\<lambda>(owner, target). owner = target) (bs_elems (pe_blocked e))"
    using inv by (auto simp: prop_inv_def rules_ok_def list_ex_iff bs_elems_set)
  show ?thesis
    unfolding prop_validate_loaded_state_def validate_loaded_state_with_policy_def
    using fan entries self check_credits_inv[OF inv] check_acks_inv[OF inv]
    by (simp add: inv_bounds[OF inv] policy_history_inv[OF inv] check_rates_inv[OF inv] check_outcomes_inv[OF inv]
        timely_def run_checks.simps(1)) blast
qed

end
