(* ===== verification/Propagation_History.thy ===== *)
theory Propagation_History
  imports Propagation_Loading
begin

section \<open>Histories of a propagation engine\<close>

text \<open>
  Three views of a run that the properties speak about: the path of an item found by following its
  parent references, the opt-out and block rules read off the event log, and runs whose clock does
  not go back.
\<close>

subsection \<open>Paths\<close>

text \<open>The items from the campaign's first hop to \<open>k\<close>, following at most \<open>n\<close> parent references.\<close>

fun ancestry :: "prop_engine \<Rightarrow> nat \<Rightarrow> item_id \<Rightarrow> item_id list option" where
  "ancestry e 0 k = None"
| "ancestry e (Suc n) k =
     (case bm_get (pe_items e) k of
        None \<Rightarrow> None
      | Some i \<Rightarrow>
          (case it_parent_item_id i of
             None \<Rightarrow> Some [k]
           | Some j \<Rightarrow> map_option (\<lambda>path. path @ [k]) (ancestry e n j)))"

lemma ancestry_hops:
  assumes inv: "prop_inv L e"
  shows "bm_get (pe_items e) k = Some i \<Longrightarrow> length (it_hops i) = n
    \<Longrightarrow> ancestry e n k = Some (map hp_item_id (it_hops i))"
proof (induction n arbitrary: k i)
  case 0
  then show ?case using inv_item[OF inv 0(1)] fits_times(4) by (metis length_0_conv)
next
  case (Suc n)
  obtain c where fits: "item_fits L e c i" and id: "it_id i = k" by (rule inv_item[OF inv Suc.prems(1)])
  have hops: "it_hops i \<noteq> []" "hp_item_id (last (it_hops i)) = k" "parent_ok e i" "it_depth i = length (it_hops i)"
    using fits id by (simp_all add: item_fits_def hops_ok_def)
  show ?case
  proof (cases "it_parent_item_id i")
    case None
    then have "length (it_hops i) = 1" using hops(3,4) by (simp add: parent_ok_def)
    then obtain h where "it_hops i = [h]" by (auto simp: length_Suc_conv)
    then show ?thesis using None Suc.prems hops(2) by simp
  next
    case (Some j)
    then obtain p where p: "bm_get (pe_items e) j = Some p" "it_hops p = butlast (it_hops i)"
      using hops(3) by (auto simp: parent_ok_def)
    then have "ancestry e n j = Some (map hp_item_id (butlast (it_hops i)))" using Suc by simp
    moreover have "map hp_item_id (it_hops i) = map hp_item_id (butlast (it_hops i)) @ [k]"
      using hops(1,2) by (metis append_butlast_last_id list.simps(8) list.simps(9) map_append)
    ultimately show ?thesis using Some Suc.prems(1) by simp
  qed
qed

subsection \<open>Rules from the log\<close>

text \<open>The last event that sets a rule decides it; without one it is off.\<close>

definition logged_flag :: "(policy_event_kind \<Rightarrow> bool option) \<Rightarrow> policy_event list \<Rightarrow> bool" where
  "logged_flag sets evs = fold (\<lambda>ev b. case sets (pv_event ev) of None \<Rightarrow> b | Some x \<Rightarrow> x) evs False"

fun sets_opt_out :: "cthulhu_id \<Rightarrow> policy_event_kind \<Rightarrow> bool option" where
  "sets_opt_out c (EV_OptOut d flag) = (if d = c then Some flag else None)"
| "sets_opt_out c (EV_Block _ _ _) = None"

fun sets_block :: "cthulhu_id \<Rightarrow> cthulhu_id \<Rightarrow> policy_event_kind \<Rightarrow> bool option" where
  "sets_block owner target (EV_Block a b flag) = (if a = owner \<and> b = target then Some flag else None)"
| "sets_block owner target (EV_OptOut _ _) = None"

definition opted_out_in :: "policy_event list \<Rightarrow> cthulhu_id \<Rightarrow> bool" where
  "opted_out_in evs c = logged_flag (sets_opt_out c) evs"

definition blocks_in :: "policy_event list \<Rightarrow> cthulhu_id \<Rightarrow> cthulhu_id \<Rightarrow> bool" where
  "blocks_in evs owner target = logged_flag (sets_block owner target) evs"

lemma replay_flags:
  "replay_history n evs rules = Inr rules' \<Longrightarrow>
     (bs_member (fst rules') c
        \<longleftrightarrow> fold (\<lambda>ev b. case sets_opt_out c (pv_event ev) of None \<Rightarrow> b | Some x \<Rightarrow> x) evs (bs_member (fst rules) c))
     \<and> (bs_member (snd rules') (o1, t1)
        \<longleftrightarrow> fold (\<lambda>ev b. case sets_block o1 t1 (pv_event ev) of None \<Rightarrow> b | Some x \<Rightarrow> x) evs (bs_member (snd rules) (o1, t1)))"
proof (induction evs arbitrary: n rules)
  case (Cons ev evs)
  obtain r where r: "apply_policy_event ev rules = Inr r" "replay_history (n + 1) evs r = Inr rules'"
    using Cons.prems by (auto split: if_splits)
  have "bs_member (fst r) c
      = (case sets_opt_out c (pv_event ev) of None \<Rightarrow> bs_member (fst rules) c | Some x \<Rightarrow> x)"
    "bs_member (snd r) (o1, t1)
      = (case sets_block o1 t1 (pv_event ev) of None \<Rightarrow> bs_member (snd rules) (o1, t1) | Some x \<Rightarrow> x)"
    using r(1) unfolding apply_policy_event_def
    by (cases rules; cases "pv_event ev"; force split: if_splits)+
  then show ?case using Cons.IH[OF r(2)] by simp
qed simp

lemma rules_at_log:
  assumes "rules_at e g = Inr rules"
  shows "bs_member (fst rules) c \<longleftrightarrow> opted_out_in (take g (pe_events e)) c"
    "bs_member (snd rules) (o1, t1) \<longleftrightarrow> blocks_in (take g (pe_events e)) o1 t1"
  using replay_flags[OF assms[unfolded rules_at_def]]
  by (simp_all add: opted_out_in_def blocks_in_def logged_flag_def)

lemma state_log:
  assumes "rules_ok e"
  shows "bs_member (pe_opted_out e) c \<longleftrightarrow> opted_out_in (pe_events e) c"
    "bs_member (pe_blocked e) (o1, t1) \<longleftrightarrow> blocks_in (pe_events e) o1 t1"
  using rules_at_log[of e "length (pe_events e)" "(pe_opted_out e, pe_blocked e)"] assms
  by (simp_all add: rules_ok_def rules_at_def)

subsection \<open>Runs from a state\<close>

inductive prop_run :: "prop_libs \<Rightarrow> prop_engine \<Rightarrow> prop_engine \<Rightarrow> bool" for L e where
  stay: "prop_run L e e"
| on: "prop_run L e e' \<Longrightarrow> prop_step L e' now e'' \<Longrightarrow> prop_run L e e''"

lemma prop_run_reachable: "prop_run L e e' \<Longrightarrow> prop_reachable L e \<Longrightarrow> prop_reachable L e'"
  by (induction rule: prop_run.induct) (auto intro: prop_reachable.step)

lemma reachable_rules: "prop_reachable L e \<Longrightarrow> rules_ok e"
  using prop_reachable_inv by (auto simp: prop_inv_def)

lemma prop_run_grows: "prop_run L e e' \<Longrightarrow> prop_reachable L e \<Longrightarrow> grows e e'"
proof (induction rule: prop_run.induct)
  case (on e' now e'')
  then show ?case using step_grows[OF on(2)] reachable_rules prop_run_reachable grows_trans by blast
qed simp

subsection \<open>Runs whose clock does not go back\<close>

inductive prop_clocked :: "prop_libs \<Rightarrow> int \<Rightarrow> prop_engine \<Rightarrow> bool" for L where
  start: "prop_clocked L 0 PropagationEngine_default"
| step: "prop_clocked L t e \<Longrightarrow> t \<le> now \<Longrightarrow> now \<le> i64_max \<Longrightarrow> prop_step L e now e' \<Longrightarrow> prop_clocked L now e'"

lemma clocked_reachable: "prop_clocked L t e \<Longrightarrow> prop_reachable L e"
  by (induction rule: prop_clocked.induct) (auto intro: prop_reachable.intros)

lemma clocked_range: "prop_clocked L t e \<Longrightarrow> 0 \<le> t \<and> t \<le> i64_max"
  by (induction rule: prop_clocked.induct) (auto simp: i64_max_def)

lemma window_count_append:
  "window_count w (ts @ [s]) t = window_count w ts t + (if window_floor w t < s \<and> s \<le> t then 1 else 0)"
  by (simp add: window_count_def)

text \<open>What a step does to the rate records.\<close>

lemma step_rates:
  assumes "prop_step L e now e'" "entries_ok L e"
  shows "pe_rates e' = pe_rates e
    \<or> (\<exists>c r. bm_get (pe_campaigns e) (rr_campaign_id r) = Some c \<and> ca_id c = rr_campaign_id r \<and> rr_sent_at r = now
        \<and> pe_rates e' = pe_rates e @ [r] \<and> recent_sends e c (rr_sender r) now < po_rate_limit (ca_policy c)
        \<and> pe_campaigns e' = pe_campaigns e)"
  using assms(1)
proof cases
  case (send campaign_id parent_id i sender recipient validator d)
  show ?thesis
  proof (cases "bm_get (pe_items e) i")
    case None
    from send None obtain g x where s: "sent L e campaign_id parent_id i sender recipient now g" "e' = with_item i (sg_item g) e"
      by (rule send_created)
    note f = sent_facts[OF s(1) assms(2)]
    have "recent_sends e (sg_campaign g) sender now < po_rate_limit (ca_policy (sg_campaign g))"
      using s(1) by (auto simp: sent_def send_limits_ok)
    then show ?thesis using f s(2)
      by (intro disjI2 exI[of _ "sg_campaign g"] exI[of _ "\<lparr>rr_item_id = i, rr_campaign_id = campaign_id, rr_sender = sender, rr_sent_at = now\<rparr>"])
        (simp add: with_item_def)
  qed (use send in \<open>auto simp: send_replayed split: if_splits\<close>)
next
  case (campaign i council root payload strategy policy expires_at c)
  then show ?thesis using create_campaign_result(1) by fastforce
next
  case (candidate p)
  then show ?thesis using register_candidate_result(1) by fastforce
next
  case (opt_out c flag)
  then show ?thesis by (auto simp: set_opt_out_def Let_def split: if_splits)
next
  case (block owner target flag)
  then show ?thesis by (auto simp: set_blocked_def Let_def split: if_splits)
next
  case (respond i recipient accept s)
  then show ?thesis using respond_result by fastforce
next
  case (acknowledge i ack_id recipient outcome evidence_hash a)
  then show ?thesis using acknowledge_result by fastforce
next
  case (revoke campaign_id root reason)
  then show ?thesis using revoke_result by fastforce
next
  case (outcome claim model x)
  then obtain n where "e' = with_outcome claim n e" using outcome_result by metis
  then show ?thesis by simp
qed

text \<open>Every sender stays within the rate limit in every window that ends at one of its sends.\<close>

lemma clocked_rates:
  "prop_clocked L t e \<Longrightarrow> rates_within e \<and> (\<forall>r\<in>set (pe_rates e). rr_sent_at r \<le> t)"
proof (induction rule: prop_clocked.induct)
  case start
  show ?case by (simp add: rates_within_def PropagationEngine_default_def)
next
  case (step t e now e')
  have inv: "prop_inv L e" using step.hyps(1) clocked_reachable prop_reachable_inv by blast
  have g: "grows e e'" using step_grows[OF step.hyps(4)] inv by (simp add: prop_inv_def)
  have old: "window_count (po_rate_window (ca_policy c)) (sends_of e (rate_key r)) (rr_sent_at r) \<le> po_rate_limit (ca_policy c)"
    if r: "r \<in> set (pe_rates e)" and c: "bm_get (pe_campaigns e') (rr_campaign_id r) = Some c" for r c
  proof -
    obtain c0 where "bm_get (pe_campaigns e) (rr_campaign_id r) = Some c0" by (rule record_item[OF inv r])
    moreover from this have "ca_policy c = ca_policy c0"
      using keepsD[OF grows_sel(1)[OF g]] c same_campaign_sel(7) by fastforce
    ultimately show ?thesis using step.IH r unfolding rates_within_def by metis
  qed
  have "entries_ok L e" using inv by (simp add: prop_inv_def)
  from step_rates[OF step.hyps(4) this] show ?case
  proof (elim disjE exE conjE)
    assume same: "pe_rates e' = pe_rates e"
    then have "sends_of e' = sends_of e" by (simp add: sends_of_def fun_eq_iff)
    then show ?thesis using same old step.IH step.hyps(2) unfolding rates_within_def by fastforce
  next
    fix c r
    assume c: "bm_get (pe_campaigns e) (rr_campaign_id r) = Some c" "ca_id c = rr_campaign_id r" and r: "rr_sent_at r = now"
      and rates: "pe_rates e' = pe_rates e @ [r]" and room: "recent_sends e c (rr_sender r) now < po_rate_limit (ca_policy c)"
      and camps: "pe_campaigns e' = pe_campaigns e"
    have "0 \<le> now" using step.hyps(2) clocked_range[OF step.hyps(1)] by simp
    then have floor: "window_floor (po_rate_window (ca_policy c)) now = now - po_rate_window (ca_policy c)"
      using step.hyps(3) inv_campaign[OF inv c(1)] by (intro window_floor_exact) simp_all
    have sends: "sends_of e' k = sends_of e k @ (if rate_key r = k then [now] else [])" for k
      using r by (simp add: sends_of_def rates)
    have "window_count (po_rate_window (ca_policy c)) (sends_of e (rate_key r)) now = recent_sends e c (rr_sender r) now"
      unfolding window_count_def sends_of_def recent_sends_def filter_map filter_filter length_map floor
      by (rule arg_cong[where f = length], rule filter_cong) (auto simp: rate_key_def c(2))
    then have now_ok: "window_count (po_rate_window (ca_policy c)) (sends_of e' (rate_key r)) now \<le> po_rate_limit (ca_policy c)"
      using room by (simp add: sends window_count_append)
    have "window_count (po_rate_window (ca_policy d)) (sends_of e' (rate_key s)) (rr_sent_at s) \<le> po_rate_limit (ca_policy d)"
      if s: "s \<in> set (pe_rates e)" and d: "bm_get (pe_campaigns e') (rr_campaign_id s) = Some d" for s d
    proof (cases "rate_key s = rate_key r \<and> rr_sent_at s = now")
      case True
      then have "d = c" using d c(1) camps by (simp add: rate_key_def)
      then show ?thesis using True now_ok by simp
    next
      case False
      have "rr_sent_at s \<le> now" using step.IH s step.hyps(2) by fastforce
      then have "window_count (po_rate_window (ca_policy d)) (sends_of e' (rate_key s)) (rr_sent_at s)
          = window_count (po_rate_window (ca_policy d)) (sends_of e (rate_key s)) (rr_sent_at s)"
        using False by (auto simp: sends window_count_append)
      then show ?thesis using old[OF s d] by simp
    qed
    then have "rates_within e'"
      unfolding rates_within_def rates using now_ok c(1) r camps by auto
    moreover have "rr_sent_at s \<le> now" if "s \<in> set (pe_rates e')" for s
      using that step.IH step.hyps(2) r unfolding rates by fastforce
    ultimately show ?thesis by blast
  qed
qed

end
