(* ===== verification/Propagation_Properties.thy ===== *)
theory Propagation_Properties
  imports Propagation_History
begin

section \<open>Properties of the propagation engine\<close>

subsection \<open>A sample run\<close>

text \<open>
  The run behind the witnesses: a root creates a campaign, registers itself and one candidate, sends
  it an item, and the candidate accepts and acknowledges it.
\<close>

definition flat_libs :: prop_libs where
  "flat_libs = \<lparr>pl_payload = (\<lambda>_. Some ''payload''), pl_profile = (\<lambda>_. Some ''profile''),
     pl_chain = (\<lambda>_. Some ''chain''), pl_sha256 = (\<lambda>_. replicate 64 (CHR ''0''))\<rparr>"

definition root_id :: cthulhu_id where "root_id = Ident ''cthulhu_r''"
definition peer_id :: cthulhu_id where "peer_id = Ident ''cthulhu_p''"
definition drive_id :: campaign_id where "drive_id = Ident ''propagation_c''"
definition notice_id :: item_id where "notice_id = Ident ''msg_i''"
definition receipt_id :: acknowledgement_id where "receipt_id = Ident ''ack_a''"

definition plain_profile :: "cthulhu_id \<Rightarrow> candidate_profile" where
  "plain_profile c = \<lparr>cp_cthulhu_id = c, cp_trusted = True, cp_council_memberships = [], cp_capability_tags = [],
     cp_region = None, cp_latency_ms = None, cp_reputation_signals = []\<rparr>"

definition drive_policy :: prop_policy where
  "drive_policy = \<lparr>po_version = 1, po_max_depth = 2, po_max_fan_out = 2, po_rate_limit = 1, po_rate_window = 60,
     po_visibility = PV_PublicMetadata\<rparr>"

definition flat_hash :: string where
  "flat_hash = ''sha256:'' @ replicate 64 (CHR ''0'')"

definition drive :: campaign where
  "drive = \<lparr>ca_id = drive_id, ca_council_id = Ident ''council_c'', ca_root = root_id,
     ca_payload = PP_BoundedCampaign ''n'' ''s'', ca_payload_hash = flat_hash,
     ca_strategy = PS_BreadthFirst, ca_policy = drive_policy, ca_created_at = 10, ca_expires_at = 1000,
     ca_revoked_at = None, ca_revocation_reason = None\<rparr>"

definition drive_ready :: prop_engine where
  "drive_ready = PropagationEngine_default
     \<lparr>pe_campaigns := bm_insert drive_id drive bm_empty,
      pe_profiles := bm_insert peer_id (plain_profile peer_id) (bm_insert root_id (plain_profile root_id) bm_empty)\<rparr>"

definition notice_hop :: prop_hop where
  "notice_hop = \<lparr>hp_item_id = notice_id, hp_sender = root_id, hp_recipient = peer_id, hp_sent_at = 20,
     hp_policy_generation = 0, hp_sender_profile_hash = flat_hash,
     hp_recipient_profile_hash = flat_hash\<rparr>"

definition notice :: prop_item where
  "notice = new_item drive None notice_id root_id peer_id 1 20 [notice_hop] flat_hash"

definition notice_sent :: prop_engine where
  "notice_sent = with_item notice_id notice drive_ready"

definition notice_accepted :: prop_engine where
  "notice_accepted = put_item notice_id (notice\<lparr>it_status := IS_Accepted\<rparr>) notice_sent"

definition receipt :: acknowledgement where
  "receipt = \<lparr>ak_id = receipt_id, ak_item_id = notice_id, ak_actor = peer_id,
     ak_outcome = CO_AcknowledgedDownstreamDelivery, ak_evidence_hash = flat_hash, ak_acknowledged_at = 40\<rparr>"

definition notice_acked :: prop_engine where
  "notice_acked = (put_item notice_id (notice\<lparr>it_status := IS_Acknowledged\<rparr>) notice_accepted)
     \<lparr>pe_acks := bm_insert receipt_id receipt bm_empty\<rparr>"

definition delivered :: outcome_claim where
  "delivered = \<lparr>oc_id = Ident ''outcome_o'', oc_campaign_id = drive_id, oc_item_id = notice_id,
     oc_acknowledgement_id = receipt_id, oc_contributor = root_id, oc_beneficiary = peer_id,
     oc_outcome = CO_AcknowledgedDownstreamDelivery, oc_evidence_hash = flat_hash, oc_occurred_at = 50\<rparr>"

lemma flat_sha: "prop_sha_hex flat_libs"
  by (simp add: prop_sha_hex_def flat_libs_def lower_hex_def list_all_iff) code_simp

lemma short_texts:
  "prop_validate_text ''n'' n f b = (if 1 \<le> n then Inr () else Inl (PE_InvalidPayload f))"
  "prop_validate_text ''s'' n f b = (if 1 \<le> n then Inr () else Inl (PE_InvalidPayload f))"
proof -
  have "\<not> is_blank ''n''" "\<not> is_blank ''s''" by code_simp+
  then show "prop_validate_text ''n'' n f b = (if 1 \<le> n then Inr () else Inl (PE_InvalidPayload f))"
    "prop_validate_text ''s'' n f b = (if 1 \<le> n then Inr () else Inl (PE_InvalidPayload f))"
    by (auto simp: prop_validate_text_def)
qed

lemma payload_valid:
  "validate_prop_payload flat_libs (PP_BoundedCampaign ''n'' ''s'') = Inr ()"
  "payload_content_hash flat_libs (PP_BoundedCampaign ''n'' ''s'') = Inr flat_hash"
  by (simp_all add: payload_content_hash_def validate_prop_payload_def short_texts payload_summary_ok_def flat_libs_def
      flat_hash_def run_checks.simps(1) PROP_MAX_SHORT_TEXT_BYTES_def PROP_MAX_TEXT_BYTES_def)

lemma flat_hash_valid: "prop_validate_hash flat_hash = Inr ()"
  by code_simp

lemma drive_valid: "validate_campaign flat_libs drive = Inr ()"
  by (simp add: validate_campaign_ok validate_prop_policy_ok drive_def drive_policy_def payload_valid flat_hash_valid
      revocation_ok_def MAX_DEPTH_def MAX_FAN_OUT_def MAX_RATE_LIMIT_def MAX_RATE_WINDOW_SECONDS_def
      MAX_CAMPAIGN_LIFETIME_SECONDS_def)

lemma plain_valid_profile: "validate_candidate (plain_profile c) = Inr ()"
  by (simp add: validate_candidate_def plain_profile_def bs_of_list_def run_checks.simps(1))

lemma plain_profile_hash: "profile_hash flat_libs (plain_profile c) = Inr flat_hash"
  by (simp add: profile_hash_def plain_valid_profile flat_libs_def flat_hash_def)

lemma sample_ids [simp]: "root_id \<noteq> peer_id" "peer_id \<noteq> root_id"
  by (simp_all add: root_id_def peer_id_def)

lemma drive_create:
  "create_campaign flat_libs PropagationEngine_default drive_id (Ident ''council_c'') root_id
     (PP_BoundedCampaign ''n'' ''s'') PS_BreadthFirst drive_policy 10 1000
   = Inr (drive, PropagationEngine_default\<lparr>pe_campaigns := bm_insert drive_id drive bm_empty\<rparr>)"
  using drive_valid
  by (simp add: create_campaign_def payload_valid run_checks.simps(1) PropagationEngine_default_def MAX_CAMPAIGNS_def
      drive_def Let_def)

lemma drive_ready_clocked: "prop_clocked flat_libs 10 drive_ready"
proof -
  let ?e1 = "PropagationEngine_default\<lparr>pe_campaigns := bm_insert drive_id drive bm_empty\<rparr>"
  let ?e2 = "?e1\<lparr>pe_profiles := bm_insert root_id (plain_profile root_id) bm_empty\<rparr>"
  have "register_candidate ?e1 (plain_profile root_id) = Inr ?e2" "register_candidate ?e2 (plain_profile peer_id) = Inr drive_ready"
    by (simp_all add: register_candidate_def plain_valid_profile run_checks.simps(1) drive_ready_def
        PropagationEngine_default_def PROP_MAX_CANDIDATES_def) (simp_all add: plain_profile_def)
  then have s: "prop_step flat_libs ?e1 10 ?e2" "prop_step flat_libs ?e2 10 drive_ready" by (blast intro: prop_step.candidate)+
  have "prop_step flat_libs PropagationEngine_default 10 ?e1" by (rule prop_step.campaign[OF drive_create])
  then have "prop_clocked flat_libs 10 ?e1"
    by (rule prop_clocked.step[OF prop_clocked.start, rotated 2]) (simp_all add: i64_max_def)
  then have "prop_clocked flat_libs 10 ?e2" by (rule prop_clocked.step[OF _ _ _ s(1)]) (simp_all add: i64_max_def)
  then show ?thesis by (rule prop_clocked.step[OF _ _ _ s(2)]) (simp_all add: i64_max_def)
qed

lemmas drive_ready_reachable = clocked_reachable[OF drive_ready_clocked]

lemma ready_sel [simp]:
  "pe_items drive_ready = bm_empty" "pe_rates drive_ready = []" "pe_generation drive_ready = 0"
  "pe_opted_out drive_ready = bs_empty" "pe_blocked drive_ready = bs_empty" "pe_acks drive_ready = bm_empty"
  "bm_get (pe_campaigns drive_ready) k = (if k = drive_id then Some drive else None)"
  "bm_get (pe_profiles drive_ready) c = (if c = root_id \<or> c = peer_id then Some (plain_profile c) else None)"
  by (simp_all add: drive_ready_def PropagationEngine_default_def)

lemma drive_sel [simp]:
  "ca_id drive = drive_id" "ca_root drive = root_id" "ca_strategy drive = PS_BreadthFirst" "ca_policy drive = drive_policy"
  "ca_created_at drive = 10" "ca_expires_at drive = 1000" "\<not> is_revoked drive" "ca_revoked_at drive = None"
  by (simp_all add: drive_def is_revoked_def)

lemma drive_policy_sel [simp]:
  "po_version drive_policy = 1" "po_max_depth drive_policy = 2" "po_max_fan_out drive_policy = 2"
  "po_rate_limit drive_policy = 1" "po_rate_window drive_policy = 60" "po_visibility drive_policy = PV_PublicMetadata"
  by (simp_all add: drive_policy_def)

lemma flat_chain: "provenance_hash flat_libs c h v hops = Inr flat_hash"
  by (simp add: provenance_hash_def flat_libs_def flat_hash_def)

lemma notice_value: "validate_item_value flat_libs drive_ready notice 20 = Inr ()"
proof -
  have "hops_ok drive [notice_hop]"
    by (simp add: hops_ok_def hop_ok_def notice_hop_def flat_hash_valid)
  then have "item_fits flat_libs drive_ready drive notice"
    by (simp add: item_fits_def notice_def new_item_def notice_hop_def plain_profile_hash flat_chain parent_ok_def)
  then show ?thesis by (simp add: validate_item_value_ok notice_def)
qed

lemma notice_send:
  "\<exists>x. send_with_validator flat_libs drive_ready drive_id None notice_id root_id peer_id 20 NoAdditionalHopPolicy
     = Inr (DR_Created notice x, notice_sent)"
proof -
  have strict: "StrictHopValidator flat_libs drive None root_id peer_id 20
      = Inr ''campaign and authenticated hop policy validated locally''"
    using strict_hop_ok[of flat_libs drive None root_id peer_id 20] drive_valid by simp
  have limits: "send_limits drive_ready drive None root_id peer_id 20 = Inr ()"
    by (simp add: send_limits_ok campaign_sends_def recent_sends_def bm_values_def parent_hops_def)
  have guards: "send_guards drive_ready drive None root_id peer_id = Inr ()"
    by (simp add: send_guards_ok ancestor_blocked_def)
  have depth: "validate_depth_and_strategy drive_ready drive None peer_id 1
      = Inr ''breadth-first candidate ordered by stable Cthulhu ID''"
    by (simp add: validate_depth_and_strategy_def MAX_PROVENANCE_HOPS_def MAX_DEPTH_def strategy_allows_def)
  show ?thesis
    using strict limits guards depth notice_value[unfolded notice_def notice_hop_def]
    by (simp add: send_with_validator_def parent_of_def NoAdditionalHopPolicy_def no_additional_text child_depth_def
        parent_hops_def plain_profile_hash flat_chain run_checks.simps(1) MAX_ITEMS_def Let_def
        notice_sent_def with_item_def notice_def notice_hop_def)
qed

lemma notice_sent_step: "prop_step flat_libs drive_ready 20 notice_sent"
  using notice_send by (blast intro: prop_step.send)

lemmas notice_sent_reachable = prop_reachable.step[OF drive_ready_reachable notice_sent_step]

lemma notice_sel [simp]:
  "it_id notice = notice_id" "it_campaign_id notice = drive_id" "it_parent_item_id notice = None"
  "it_sender notice = root_id" "it_recipient notice = peer_id" "it_depth notice = 1" "it_created_at notice = 20"
  "it_expires_at notice = 1000" "it_hops notice = [notice_hop]" "it_status notice = IS_Pending"
  by (simp_all add: notice_def)

lemma notice_sent_sel [simp]:
  "bm_get (pe_items notice_sent) k = (if k = notice_id then Some notice else None)"
  "bm_get (pe_campaigns notice_sent) c = (if c = drive_id then Some drive else None)"
  "pe_acks notice_sent = bm_empty" "pe_outcomes notice_sent = bm_empty" "pe_used_acks notice_sent = bs_empty"
  "pe_credits notice_sent = []" "pe_events notice_sent = []"
  "pe_rates notice_sent = [\<lparr>rr_item_id = notice_id, rr_campaign_id = drive_id, rr_sender = root_id, rr_sent_at = 20\<rparr>]"
  by (simp_all add: notice_sent_def) (simp_all add: drive_ready_def PropagationEngine_default_def with_item_def)

lemma notice_accept: "respond notice_sent notice_id peer_id True 30 = Inr (IS_Accepted, notice_accepted)"
  by (simp add: respond_def live_campaign_item_def notice_accepted_def)

lemma notice_acknowledge:
  "acknowledge_outcome notice_accepted notice_id receipt_id peer_id CO_AcknowledgedDownstreamDelivery flat_hash 40
   = Inr (receipt, notice_acked)"
  by (simp add: acknowledge_outcome_def live_campaign_item_def notice_acked_def notice_accepted_def flat_hash_valid
      receipt_def MAX_ACKNOWLEDGEMENTS_def Let_def)

lemma notice_acked_reachable: "prop_reachable flat_libs notice_acked"
proof -
  have "prop_step flat_libs notice_sent 30 notice_accepted" by (rule prop_step.respond[OF notice_accept])
  moreover have "prop_step flat_libs notice_accepted 40 notice_acked" by (rule prop_step.acknowledge[OF notice_acknowledge])
  ultimately show ?thesis using notice_sent_reachable by (blast intro: prop_reachable.step)
qed

lemma delivered_recorded:
  "\<exists>x e'. record_outcome notice_acked delivered SafeOutcomeCredit = Inr (x, e')"
proof -
  have "\<not> is_blank ''authenticated downstream acknowledgement''" by code_simp
  then have reason: "prop_validate_text ''authenticated downstream acknowledgement'' PROP_MAX_SHORT_TEXT_BYTES ''credit reason'' False
      = Inr ()" by (simp add: prop_validate_text_def PROP_MAX_SHORT_TEXT_BYTES_def)
  have awarded: "awarded_points notice_acked delivered 2 = 2"
    by (simp add: awarded_points_def existing_points_def campaign_points_def notice_acked_def notice_accepted_def
        saturating_sub_def MAX_CREDIT_PER_OUTCOME_def MAX_CREDIT_PER_CTHULHU_PER_CAMPAIGN_def MAX_TOTAL_CAMPAIGN_CREDIT_def)
  have reads: "bm_get (pe_items notice_acked) notice_id = Some (notice\<lparr>it_status := IS_Acknowledged\<rparr>)"
    "bm_get (pe_acks notice_acked) receipt_id = Some receipt" "bm_get (pe_campaigns notice_acked) drive_id = Some drive"
    "pe_outcomes notice_acked = bm_empty" "pe_used_acks notice_acked = bs_empty"
    by (simp_all add: notice_acked_def notice_accepted_def)
  have kind: "validate_outcome_kind (ca_payload drive) CO_AcknowledgedDownstreamDelivery = Inr ()"
    by (simp add: validate_outcome_kind_def)
  show ?thesis
    using awarded unfolding delivered_def
    by (simp add: record_outcome_def reads kind run_checks.simps(1) flat_hash_valid Let_def claim_fits_def receipt_def
        SafeOutcomeCredit_def reason)
qed

subsection \<open>Deliveries\<close>

text \<open>
  C12: Following the parent references of a stored item ends at a delivery of the campaign's root after
  exactly as many steps as its depth, at most 16, and visits the items its provenance records; its
  hops run from the root over pairwise different recipients to the item's own, within the depth of
  the campaign; no sender exceeds the fan-out, and nobody is sent a campaign twice.
\<close>

theorem delivery_tree:
  assumes "prop_reachable L e" "bm_get (pe_items e) k = Some i"
  shows "ancestry e (it_depth i) k = Some (map hp_item_id (it_hops i)) \<and> it_depth i \<le> 16
    \<and> (\<exists>c. bm_get (pe_campaigns e) (it_campaign_id i) = Some c \<and> hp_sender (hd (it_hops i)) = ca_root c
         \<and> distinct (ca_root c # map hp_recipient (it_hops i)) \<and> hp_recipient (last (it_hops i)) = it_recipient i
         \<and> it_depth i \<le> po_max_depth (ca_policy c)
         \<and> campaign_sends e (it_campaign_id i) (it_sender i) \<le> po_max_fan_out (ca_policy c))
    \<and> (\<forall>l j. bm_get (pe_items e) l = Some j \<longrightarrow> it_campaign_id j = it_campaign_id i
         \<longrightarrow> it_recipient j = it_recipient i \<longrightarrow> l = k)"
proof -
  have inv: "prop_inv L e" using assms(1) by (rule prop_reachable_inv)
  then have del: "deliveries_ok e" by (simp add: prop_inv_def)
  obtain c where c: "bm_get (pe_campaigns e) (it_campaign_id i) = Some c" "item_fits L e c i"
    by (rule inv_item[OF inv assms(2)])
  have "it_depth i = length (it_hops i)" "it_depth i \<le> po_max_depth (ca_policy c)" "hops_ok c (it_hops i)"
    "hp_recipient (last (it_hops i)) = it_recipient i"
    using c(2) by (simp_all add: item_fits_def)
  moreover have "po_max_depth (ca_policy c) \<le> 16"
    using inv_campaign(6)[OF inv c(1)] by (simp add: validate_campaign_ok validate_prop_policy_ok MAX_DEPTH_def)
  moreover have "campaign_sends e (it_campaign_id i) (it_sender i) \<le> po_max_fan_out (ca_policy c)"
    "\<forall>l j. bm_get (pe_items e) l = Some j \<longrightarrow> it_campaign_id j = it_campaign_id i \<longrightarrow> it_recipient j = it_recipient i \<longrightarrow> l = k"
    using del assms(2) c(1) unfolding deliveries_ok_def by blast+
  ultimately show ?thesis
    using ancestry_hops[OF inv assms(2)] c(1) unfolding hops_ok_def by auto
qed

theorem delivery_tree_witness:
  "ancestry notice_sent 1 notice_id = Some [notice_id]"
  using delivery_tree[OF notice_sent_reachable, of notice_id notice] by (simp add: notice_hop_def)

text \<open>
  C13: The rules in force when an item was sent, read off the event log up to the generation its last
  hop carries, let it pass: neither end had opted out, neither blocked the other, the recipient
  blocked nobody on the path, and the item's parent had been accepted.
\<close>

theorem propagation_consent:
  assumes "prop_reachable L e" "bm_get (pe_items e) k = Some i" "evs = take (item_generation i) (pe_events e)"
  shows "item_generation i \<le> length (pe_events e)
    \<and> \<not> opted_out_in evs (it_sender i) \<and> \<not> opted_out_in evs (it_recipient i)
    \<and> \<not> blocks_in evs (it_sender i) (it_recipient i) \<and> \<not> blocks_in evs (it_recipient i) (it_sender i)
    \<and> (\<forall>h\<in>set (butlast (it_hops i)). \<not> blocks_in evs (it_recipient i) (hp_sender h)
         \<and> \<not> blocks_in evs (it_recipient i) (hp_recipient h))
    \<and> (\<forall>j p. it_parent_item_id i = Some j \<longrightarrow> bm_get (pe_items e) j = Some p \<longrightarrow> parent_accepted p)"
proof -
  have inv: "prop_inv L e" using assms(1) by (rule prop_reachable_inv)
  obtain c where fits: "item_fits L e c i" and ad: "admitted e c i" by (rule inv_item[OF inv assms(2)])
  obtain parent rules where a: "parent_of e (it_parent_item_id i) = Inr parent"
      "\<forall>p. parent = Some p \<longrightarrow> parent_accepted p" "rules_at e (item_generation i) = Inr rules"
      "\<not> bs_member (fst rules) (it_sender i)" "\<not> bs_member (fst rules) (it_recipient i)"
      "\<not> bs_member (snd rules) (it_sender i, it_recipient i)"
      "\<not> bs_member (snd rules) (it_recipient i, it_sender i)"
      "\<not> ancestors_blocked_by rules parent (it_recipient i)"
    using ad unfolding admitted_def by (auto split: option.splits)
  note log = rules_at_log[OF a(3), folded assms(3)]
  have path: "\<not> blocks_in evs (it_recipient i) (hp_sender h) \<and> \<not> blocks_in evs (it_recipient i) (hp_recipient h)"
    if h: "h \<in> set (butlast (it_hops i))" for h
  proof (cases "it_parent_item_id i")
    case None
    then have "length (it_hops i) = 1" using fits by (simp add: item_fits_def parent_ok_def)
    then have "butlast (it_hops i) = []" by (cases "it_hops i") simp_all
    then show ?thesis using h by simp
  next
    case (Some j)
    then obtain p where "parent = Some p" "it_hops p = butlast (it_hops i)"
      using a(1) fits by (auto simp: parent_of_ok item_fits_def parent_ok_def)
    then show ?thesis using a(8) h by (auto simp: ancestors_blocked_by_def list_ex_iff log)
  qed
  have accepted: "parent_accepted p" if "it_parent_item_id i = Some j" "bm_get (pe_items e) j = Some p" for j p
    using a(1,2) that by (simp add: parent_of_ok)
  have "item_generation i \<le> length (pe_events e)"
    using fits inv by (simp add: item_fits_def hops_ok_def item_generation_last prop_inv_def rules_ok_def)
  then show ?thesis using a(4-7) path accepted by (auto simp: log)
qed

theorem propagation_consent_witness:
  "\<not> opted_out_in [] root_id \<and> \<not> blocks_in [] root_id peer_id"
  using propagation_consent[OF notice_sent_reachable, of notice_id notice "[]"] by simp

text \<open>
  Sending is idempotent: once an item has been created, the same call made later, whatever
  happened in between and whichever local policy is asked, changes nothing and answers with the
  stored item, which differs from the created one at most in its status; the identifier with any
  other campaign, parent, sender or recipient is a conflict.
\<close>

theorem send_replay:
  assumes "prop_reachable L e" "prop_run L e1 e2"
    and "send_with_validator L e campaign_id parent_id i sender recipient now validator = Inr (DR_Created item x, e1)"
  shows "(\<exists>item'. same_item item item'
        \<and> send_with_validator L e2 campaign_id parent_id i sender recipient later validator2
            = Inr (DR_ReplaySuppressed item', e2))
    \<and> (\<forall>c p s r. (c, p, s, r) \<noteq> (campaign_id, parent_id, sender, recipient)
        \<longrightarrow> send_with_validator L e2 c p i s r later validator2 = Inl PE_MessageIdConflict)"
proof -
  have none: "bm_get (pe_items e) i = None"
    using assms(3) by (cases "bm_get (pe_items e) i") (auto simp: send_replayed split: if_splits)
  from assms(3) none obtain g y where g: "sent L e campaign_id parent_id i sender recipient now g"
      "e1 = with_item i (sg_item g) e" "DR_Created item x = DR_Created (sg_item g) y"
    by (rule send_created)
  have "entries_ok L e" using prop_reachable_inv[OF assms(1)] by (simp add: prop_inv_def)
  note f = sent_facts[OF g(1) this]
  have item: "item = sg_item g" and get: "bm_get (pe_items e1) i = Some item" using g by simp_all
  have "prop_reachable L e1" using assms(1,3) by (blast intro: prop_reachable.step prop_step.send)
  then have "grows e1 e2" using prop_run_grows assms(2) by blast
  then obtain item' where "bm_get (pe_items e2) i = Some item'" "same_item item item'"
    using keepsD[OF grows_sel(2) get] by blast
  then show ?thesis
    using f by (auto simp: send_replayed same_item_sel item)
qed

theorem send_replay_witness:
  "\<exists>item'. send_with_validator flat_libs notice_sent drive_id None notice_id root_id peer_id 30 NoAdditionalHopPolicy
     = Inr (DR_ReplaySuppressed item', notice_sent)"
proof -
  obtain x where "send_with_validator flat_libs drive_ready drive_id None notice_id root_id peer_id 20 NoAdditionalHopPolicy
      = Inr (DR_Created notice x, notice_sent)" using notice_send by blast
  from send_replay[OF drive_ready_reachable prop_run.stay this] show ?thesis by blast
qed

subsection \<open>Credit\<close>

text \<open>Recording raises the contributor's points by what was awarded.\<close>

lemma existing_with_outcome:
  assumes inv: "credits_ok e" and room: "existing_points e claim + n \<le> u16_max"
  shows "existing_points (with_outcome claim n e) claim = existing_points e claim + n"
proof (cases rule: existing_split[of claim e])
  case absent
  have "find (same_credit claim) (pe_credits e) = None"
    using absent(1) by (metis find_None_iff same_credit_key imageI)
  moreover have "find P (xs @ [y]) = (case find P xs of None \<Rightarrow> if P y then Some y else None | Some z \<Rightarrow> Some z)" for P :: "contribution_credit \<Rightarrow> bool" and xs y
    by (induction xs) auto
  ultimately show ?thesis
    using absent by (simp add: with_outcome_def existing_points_def add_credit_absent first_credit_def same_credit_def)
next
  case (present xs c ys)
  have "credit_ok e c" using inv present(1) by (simp add: credits_ok_def)
  then have "cc_credited_outcomes c + 1 \<le> u16_max"
    by (simp add: credit_ok_def u16_max_def MAX_CREDIT_PER_CTHULHU_PER_CAMPAIGN_def)
  then have "pe_credits (with_outcome claim n e) = xs @ raised n c # ys"
    using add_credit_present[OF present(2,3)] present(1,4) room by (simp add: with_outcome_def)
  moreover have "find P (xs @ y # ys) = Some y" if "P y" "\<forall>x\<in>set xs. \<not> P x" for P and y :: contribution_credit
    using that(2) by (induction xs) (auto simp: that(1))
  moreover have "\<forall>x\<in>set xs. \<not> same_credit claim x" using present(2) by (metis same_credit_key imageI)
  moreover have "same_credit claim (raised n c)" using present(3) by (simp add: same_credit_key raised_def credit_key_def)
  ultimately show ?thesis using present(4) by (simp add: existing_points_def[of "with_outcome claim n e"] raised_def)
qed

text \<open>
  Whatever an incentive model proposes, a recorded outcome is worth one to five points to the
  direct contributor, the reported total is the stored one and at most 20, the campaign's total is
  at most 512, and no later outcome can be recorded under the same identifier or with the same
  acknowledgement.
\<close>

theorem credits_bounded:
  assumes "prop_reachable L e" "record_outcome e claim model = Inr (x, e')" "prop_run L e' e2"
  shows "1 \<le> ce_awarded_points x \<and> ce_awarded_points x \<le> 5
    \<and> existing_points e' claim = existing_points e claim + ce_awarded_points x
    \<and> ce_contributor_campaign_total x = existing_points e' claim \<and> existing_points e' claim \<le> 20
    \<and> total_points e' (oc_campaign_id claim) \<le> 512
    \<and> (\<forall>claim2 model2. oc_id claim2 = oc_id claim \<or> oc_acknowledgement_id claim2 = oc_acknowledgement_id claim
         \<longrightarrow> \<not> is_ok (record_outcome e2 claim2 model2))"
proof -
  have inv: "credits_ok e" using prop_reachable_inv[OF assms(1)] by (simp add: prop_inv_def)
  have reach: "prop_reachable L e'" using assms(1,2) by (blast intro: prop_reachable.step prop_step.outcome)
  then have inv': "credits_ok e'" "outcomes_ok e'" using prop_reachable_inv by (auto simp: prop_inv_def)
  from assms(2) obtain c item where r: "e' = with_outcome claim (ce_awarded_points x) e"
      "ce_awarded_points x = awarded_points e claim (pc_points (model c item claim))" "0 < ce_awarded_points x"
      "ce_contributor_campaign_total x = existing_points e claim + ce_awarded_points x"
    by (rule outcome_result) blast
  note b = awarded_bounds[OF inv r(3)[unfolded r(2)], folded r(2)]
  have "existing_points e' claim = existing_points e claim + ce_awarded_points x"
    unfolding r(1) using b(2) by (intro existing_with_outcome[OF inv])
      (simp add: MAX_CREDIT_PER_CTHULHU_PER_CAMPAIGN_def u16_max_def)
  moreover have "total_points e' (oc_campaign_id claim) \<le> 512"
    using inv'(1) by (simp add: credits_ok_def MAX_TOTAL_CAMPAIGN_CREDIT_def)
  moreover have "\<not> is_ok (record_outcome e2 claim2 model2)"
    if again: "oc_id claim2 = oc_id claim \<or> oc_acknowledgement_id claim2 = oc_acknowledgement_id claim" for claim2 model2
  proof -
    have "bm_get (pe_outcomes e') (oc_id claim) = Some claim" by (simp add: r(1))
    then have stored: "bm_get (pe_outcomes e2) (oc_id claim) = Some claim"
      using keeps_eqD grows_sel(4) prop_run_grows[OF assms(3) reach] by metis
    have "outcomes_ok e2" using prop_reachable_inv[OF prop_run_reachable[OF assms(3) reach]] by (simp add: prop_inv_def)
    then have "bs_member (pe_used_acks e2) (oc_acknowledgement_id claim)" using stored unfolding outcomes_ok_def by blast
    then have "record_outcome e2 claim2 model2 \<noteq> Inr y" for y
      using again stored by (auto simp: record_outcome_def run_checks.simps(1))
    then show ?thesis by (cases "record_outcome e2 claim2 model2") auto
  qed
  ultimately show ?thesis
    using b r(3,4) by (simp add: MAX_CREDIT_PER_OUTCOME_def MAX_CREDIT_PER_CTHULHU_PER_CAMPAIGN_def)
qed

theorem credits_bounded_witness:
  "\<exists>e'. existing_points e' delivered \<le> 20 \<and> \<not> is_ok (record_outcome e' delivered SafeOutcomeCredit)"
proof -
  obtain x e' where r: "record_outcome notice_acked delivered SafeOutcomeCredit = Inr (x, e')"
    using delivered_recorded by blast
  from credits_bounded[OF notice_acked_reachable r prop_run.stay] show ?thesis by blast
qed

subsection \<open>Reloading\<close>

text \<open>
  C14: The state of a reachable engine passes its own revalidation after a restart at exactly the
  times that are not negative, if no item and no recorded outcome is dated at or after the
  revocation of its campaign and every sender is within its rate in every window that ends at one of
  its sends; everything else the revalidation checks is an invariant of the operations.
\<close>

theorem propagation_reload:
  assumes "prop_reachable L e"
  shows "prop_validate_loaded_state L e now = Inr () \<longleftrightarrow> 0 \<le> now \<and> timely e \<and> rates_within e"
  using assms by (intro prop_reload_iff prop_reachable_inv)

theorem propagation_reload_witness:
  "prop_validate_loaded_state flat_libs PropagationEngine_default 0 = Inr ()"
  using propagation_reload[OF prop_reachable.start, of flat_libs 0]
  by (simp add: timely_def rates_within_def PropagationEngine_default_def)

text \<open>
  C16: A revocation at or before the time of one of the campaign's items, the same second included,
  is accepted, and from then on the persisted state is refused at every load, whatever else happens.
\<close>

theorem revocation_breaks_reload:
  assumes "prop_reachable L e" "revoke_campaign e k root reason now = Inr e'" "prop_run L e' e2"
    and "bm_get (pe_campaigns e) k = Some c" "\<not> is_revoked c"
    and "bm_get (pe_items e) j = Some i" "it_campaign_id i = k" "now \<le> it_created_at i"
  shows "\<not> is_ok (prop_validate_loaded_state L e2 later)"
proof -
  have reach: "prop_reachable L e'" using assms(1,2) by (blast intro: prop_reachable.step prop_step.revoke)
  then have reach2: "prop_reachable L e2" using assms(3) by (rule prop_run_reachable[rotated])
  have g: "grows e' e2" using prop_run_grows assms(3) reach by blast
  obtain d where d: "bm_get (pe_campaigns e') k = Some d" "ca_revoked_at d = Some now" and items: "pe_items e' = pe_items e"
    using revoke_result[OF assms(2)] assms(4,5) by auto
  obtain d2 where d2: "bm_get (pe_campaigns e2) k = Some d2" "same_campaign d d2"
    using keepsD[OF grows_sel(1)[OF g] d(1)] by blast
  have "ca_revoked_at d2 = Some now" using d2(2) d(2) by (auto simp: same_campaign_def is_revoked_def)
  moreover have "bm_get (pe_items e') j = Some i" using assms(6) items by simp
  then obtain i2 where i2: "bm_get (pe_items e2) j = Some i2" "same_item i i2"
    using keepsD[OF grows_sel(2)[OF g]] by blast
  ultimately have "\<not> item_timely e2 i2"
    using d2(1) assms(7,8) by (simp add: item_timely_def same_item_sel[OF i2(2)])
  then have "\<not> timely e2" using i2(1) unfolding timely_def by blast
  then have "prop_validate_loaded_state L e2 later \<noteq> Inr ()" using prop_reload_iff prop_reachable_inv[OF reach2] by blast
  then show ?thesis by (cases "prop_validate_loaded_state L e2 later") auto
qed

theorem revocation_breaks_reload_witness:
  "\<exists>e'. revoke_campaign notice_sent drive_id root_id ''s'' 20 = Inr e'
      \<and> \<not> is_ok (prop_validate_loaded_state flat_libs e' 21)"
proof -
  have "\<exists>e'. revoke_campaign notice_sent drive_id root_id ''s'' 20 = Inr e'"
    by (simp add: revoke_campaign_def short_texts PROP_MAX_SHORT_TEXT_BYTES_def)
  then obtain e' where r: "revoke_campaign notice_sent drive_id root_id ''s'' 20 = Inr e'" ..
  have "\<not> is_ok (prop_validate_loaded_state flat_libs e' 21)"
    by (rule revocation_breaks_reload[OF notice_sent_reachable r prop_run.stay, of drive notice_id notice]) simp_all
  with r show ?thesis by blast
qed

subsection \<open>Rates\<close>

text \<open>
  On a clock that does not go back, no sender of a campaign ever has more sends in a window of
  the campaign's length than its rate limit allows, whichever of its sends the window ends at; so
  the rate check of the revalidation never refuses the state.
\<close>

theorem prop_rate_bounded:
  assumes "prop_clocked L t e" "bm_get (pe_campaigns e) k = Some c" "r \<in> set (pe_rates e)" "rr_campaign_id r = k"
  shows "recent_sends e c (rr_sender r) (rr_sent_at r) \<le> po_rate_limit (ca_policy c) \<and> check_rates e = Inr ()"
proof -
  have inv: "prop_inv L e" using assms(1) by (intro prop_reachable_inv clocked_reachable)
  have within: "rates_within e" and le: "rr_sent_at r \<le> t" using clocked_rates[OF assms(1)] assms(3) by blast+
  obtain i where "0 \<le> rr_sent_at r" by (rule record_item[OF inv assms(3)])
  then have floor: "window_floor (po_rate_window (ca_policy c)) (rr_sent_at r) = rr_sent_at r - po_rate_window (ca_policy c)"
    using le clocked_range[OF assms(1)] inv_campaign[OF inv assms(2)] by (intro window_floor_exact) simp_all
  have "recent_sends e c (rr_sender r) (rr_sent_at r)
      = window_count (po_rate_window (ca_policy c)) (sends_of e (rate_key r)) (rr_sent_at r)"
    unfolding window_count_def sends_of_def recent_sends_def filter_map filter_filter length_map floor
    by (rule arg_cong[where f = length], rule filter_cong)
      (auto simp: rate_key_def assms(4) inv_campaign(1)[OF inv assms(2)])
  then show ?thesis using within assms(2-4) check_rates_inv[OF inv] by (auto simp: rates_within_def)
qed

theorem prop_rate_bounded_witness:
  "check_rates notice_sent = Inr ()"
proof -
  have "prop_clocked flat_libs 20 notice_sent"
    by (rule prop_clocked.step[OF drive_ready_clocked _ _ notice_sent_step]) (simp_all add: i64_max_def)
  from prop_rate_bounded[OF this, of drive_id drive] show ?thesis by simp
qed

text \<open>
  The two-pointer scan over a sender's sorted send times, whose inner loop ends because it
  advances, accepts exactly the lists that have at most \<open>lim\<close> elements in every window of length
  \<open>w\<close> that ends at an element.
\<close>

theorem rate_scan_windows:
  assumes "0 < w" "w \<le> MAX_RATE_WINDOW_SECONDS" "\<forall>t\<in>set ts. 0 \<le> t \<and> t \<le> i64_max"
  shows "rate_scan (sort ts) w lim 0 [0..<length (sort ts)] = Inr ()
    \<longleftrightarrow> (\<forall>t\<in>set ts. length (filter (\<lambda>s. t - w < s \<and> s \<le> t) ts) \<le> lim)"
  using rate_scan_exact[of w ts lim] assms by (simp add: window_count_def window_floor_exact)

theorem rate_scan_windows_witness:
  "rate_scan (sort [40, 1, 30]) 20 2 0 [0..<length (sort [40, 1, 30 :: int])] = Inr ()"
  by (subst rate_scan_windows) (simp_all add: MAX_RATE_WINDOW_SECONDS_def i64_max_def)

subsection \<open>Ranking\<close>

definition rank_key :: "prop_engine \<Rightarrow> prop_strategy \<Rightarrow> cthulhu_id \<Rightarrow> int \<times> cthulhu_id" where
  "rank_key e strategy c =
     (case bm_get (pe_profiles e) c of
        None \<Rightarrow> (0, c)
      | Some p \<Rightarrow> (case strategy of
            PS_GeographicOrLatencyAware _ _ \<Rightarrow> int (case cp_latency_ms p of None \<Rightarrow> u32_max | Some l \<Rightarrow> l)
          | PS_ReputationThresholded _ sources \<Rightarrow> - int (reputation_value p sources)
          | _ \<Rightarrow> 0, c))"

lemma sorted_map_key: "(\<And>x y. x \<in> set xs \<Longrightarrow> y \<in> set xs \<Longrightarrow> f x \<le> f y \<Longrightarrow> g x \<le> g y) \<Longrightarrow> sorted (map f xs) \<Longrightarrow> sorted (map g xs)"
  by (induction xs) auto

text \<open>
  The ranking lists every registered candidate the campaign's strategy allows, and no other,
  once each, the nearest first, the most reputable first or by identifier, with ties broken by
  identifier.
\<close>

theorem ranking_complete:
  assumes "prop_reachable L e" "rank_candidates e k parent_id = Inr ids"
    and "bm_get (pe_campaigns e) k = Some c" "parent_of e parent_id = Inr parent"
  shows "distinct ids \<and> sorted (map (rank_key e (ca_strategy c)) ids)
    \<and> set ids = {r. \<exists>p. bm_get (pe_profiles e) r = Some p \<and> is_ok (strategy_allows c p (child_depth parent))}"
proof -
  let ?cands = "filter (\<lambda>p. is_ok (strategy_allows c p (child_depth parent))) (bm_values (pe_profiles e))"
  define ranked where "ranked = (case ca_strategy c of
             PS_GeographicOrLatencyAware _ _ \<Rightarrow>
               sort_key (\<lambda>p. (case cp_latency_ms p of None \<Rightarrow> u32_max | Some l \<Rightarrow> l, cp_cthulhu_id p)) ?cands
           | PS_ReputationThresholded _ accepted_sources \<Rightarrow>
               sort_key (\<lambda>p. (- int (reputation_value p accepted_sources), cp_cthulhu_id p)) ?cands
           | _ \<Rightarrow> sort_key cp_cthulhu_id ?cands)"
  have ids: "ids = map cp_cthulhu_id ranked"
    using assms(2-4) by (simp add: rank_candidates_def ranked_def Let_def)
  have key: "cp_cthulhu_id p = r" if "bm_get (pe_profiles e) r = Some p" for r p
    using prop_reachable_inv[OF assms(1)] that by (simp add: prop_inv_def entries_ok_def)
  have own: "bm_get (pe_profiles e) (cp_cthulhu_id p) = Some p" if "p \<in> set (bm_values (pe_profiles e))" for p
    using that key by (auto simp: bm_values_iff)
  have set: "set ranked = set ?cands" by (simp add: ranked_def split: prop_strategy.split)
  have "distinct (map cp_cthulhu_id (bm_values (pe_profiles e)))"
    using distinct_entries[of "pe_profiles e" cp_cthulhu_id] key
    by (simp add: bm_values_def)
  then have "distinct (map cp_cthulhu_id ?cands)" by (rule distinct_map_filter)
  then have "distinct ?cands" "inj_on cp_cthulhu_id (set ?cands)" by (simp_all only: distinct_map)
  then have "distinct ids"
    unfolding ids distinct_map set by (simp add: ranked_def split: prop_strategy.split)
  moreover have "sorted (map (rank_key e (ca_strategy c)) ids)"
  proof -
    have get: "bm_get (pe_profiles e) (cp_cthulhu_id p) = Some p" if "p \<in> set ranked" for p
      using own that by (simp add: set)
    have simple: "sorted (map (\<lambda>p. rank_key e (ca_strategy c) (cp_cthulhu_id p)) ranked)"
      if "ranked = sort_key cp_cthulhu_id ?cands" "\<And>p. p \<in> set ranked \<Longrightarrow> rank_key e (ca_strategy c) (cp_cthulhu_id p) = (0, cp_cthulhu_id p)"
    proof (rule sorted_map_key[where f = cp_cthulhu_id])
      show "sorted (map cp_cthulhu_id ranked)" unfolding that(1) by (rule sorted_sort_key)
    qed (simp add: that(2))
    have "sorted (map (\<lambda>p. rank_key e (ca_strategy c) (cp_cthulhu_id p)) ranked)"
    proof (cases "ca_strategy c")
      case (PS_GeographicOrLatencyAware region latency)
      let ?f = "\<lambda>p. (case cp_latency_ms p of None \<Rightarrow> u32_max | Some l \<Rightarrow> l, cp_cthulhu_id p)"
      have r: "ranked = sort_key ?f ?cands" by (simp add: ranked_def PS_GeographicOrLatencyAware)
      show ?thesis
      proof (rule sorted_map_key[where f = ?f])
        show "sorted (map ?f ranked)" unfolding r by (rule sorted_sort_key)
      qed (simp add: rank_key_def get PS_GeographicOrLatencyAware less_eq_prod_def)
    next
      case (PS_ReputationThresholded bps sources)
      let ?f = "\<lambda>p. (- int (reputation_value p sources), cp_cthulhu_id p)"
      have r: "ranked = sort_key ?f ?cands" by (simp add: ranked_def PS_ReputationThresholded)
      show ?thesis
      proof (rule sorted_map_key[where f = ?f])
        show "sorted (map ?f ranked)" unfolding r by (rule sorted_sort_key)
      qed (simp add: rank_key_def get PS_ReputationThresholded less_eq_prod_def)
    qed (rule simple, simp add: ranked_def, simp add: rank_key_def get)+
    then show ?thesis by (simp add: ids comp_def)
  qed
  moreover have "set ids = {r. \<exists>p. bm_get (pe_profiles e) r = Some p \<and> is_ok (strategy_allows c p (child_depth parent))}"
    unfolding ids set_map set using own key by (auto simp: bm_values_iff image_iff)
  ultimately show ?thesis by blast
qed

theorem ranking_complete_witness:
  "\<exists>ids. rank_candidates drive_ready drive_id None = Inr ids \<and> set ids = {root_id, peer_id}"
proof -
  obtain ids where r: "rank_candidates drive_ready drive_id None = Inr ids"
    by (simp add: rank_candidates_def parent_of_def Let_def)
  have "set ids = {root_id, peer_id}"
    using ranking_complete[OF drive_ready_reachable r, of drive None]
    by (auto simp: parent_of_def strategy_allows_def split: if_splits)
  with r show ?thesis by blast
qed

end
