(* ===== verification/Hex_Text.thy ===== *)
theory Hex_Text
  imports Rust_Text "HOL-Library.Word"
begin

unbundle bit_operations_syntax

section \<open>Bytes and their hexadecimal text\<close>

text \<open>
  Byte arrays at their width and the lower-case hexadecimal text the source writes for them, with
  the nibble arithmetic every reader of that text rests on.
\<close>

type_synonym bytes = "8 word list"

definition zero_bytes :: "nat \<Rightarrow> bytes" where
  "zero_bytes n = replicate n 0"

definition hex_digit :: "nat \<Rightarrow> char" where
  "hex_digit n = (if n < 10 then char_of (48 + n) else char_of (87 + n))"

definition hex_byte :: "8 word \<Rightarrow> string" where
  "hex_byte b = [hex_digit (unat (drop_bit 4 b)), hex_digit (unat (b AND 15))]"

definition encode_hex :: "bytes \<Rightarrow> string" where
  "encode_hex bs = concat (map hex_byte bs)"

definition is_lower_hex :: "char \<Rightarrow> bool" where
  "is_lower_hex c \<longleftrightarrow> is_ascii_digit c \<or> 97 \<le> byte c \<and> byte c \<le> 102"

lemma byte_inject: "byte c = byte d \<longleftrightarrow> c = d"
  by (simp add: byte_def)

lemma byte_hex_digit: "n < 16 \<Longrightarrow> byte (hex_digit n) = (if n < 10 then 48 + n else 87 + n)"
  by (simp add: byte_def hex_digit_def)

lemma nibbles: "push_bit 4 (drop_bit 4 b) OR (b AND 15) = (b :: 8 word)"
proof -
  have "(15 :: 8 word) = mask 4" by (simp add: mask_eq_exp_minus_1)
  then have "b AND 15 = take_bit 4 b" by (simp add: take_bit_eq_mask)
  then show ?thesis
    by (simp add: bit_eq_iff bit_or_iff bit_push_bit_iff bit_drop_bit_eq bit_take_bit_iff) (metis le_add_diff_inverse not_le add.commute)
qed

lemma nibble_bounds: "unat (drop_bit 4 b) < 16" "unat (b AND 15) < 16" for b :: "8 word"
proof -
  have "unat b < 256" using unsigned_less[of b] by simp
  moreover have "unat (drop_bit 4 b) = unat b div 16"
    by (simp add: drop_bit_eq_div unat_div_distrib)
  ultimately show "unat (drop_bit 4 b) < 16" by simp
  have "unat (b AND 15) \<le> unat (15 :: 8 word)" by (metis word_and_le1 word_le_nat_alt)
  then show "unat (b AND 15) < 16" by simp
qed

lemma low_nibble_bits: "unat (w :: 8 word) < 16 \<Longrightarrow> bit w n \<Longrightarrow> n < 4"
proof -
  assume "unat w < 16" "bit w n"
  moreover from this(1) have "take_bit 4 (unat w) = unat w" by (simp add: take_bit_nat_eq_self)
  then have "unat (take_bit 4 w) = unat w" by (simp add: unsigned_take_bit_eq)
  then have "take_bit 4 w = w" by (simp only: word_unat_eq_iff)
  ultimately show "n < 4" by (metis bit_take_bit_iff)
qed

lemma hex_byte_nibbles:
  assumes "unat a < 16" "unat b < 16"
  shows "hex_byte (push_bit 4 a OR b) = [hex_digit (unat a), hex_digit (unat b)]"
proof -
  have "(15 :: 8 word) = mask 4" by (simp add: mask_eq_exp_minus_1)
  then have low: "(push_bit 4 a OR b) AND 15 = take_bit 4 (push_bit 4 a OR b)" by (simp add: take_bit_eq_mask)
  have "drop_bit 4 (push_bit 4 a OR b) = a"
    using low_nibble_bits[OF assms(1)] low_nibble_bits[OF assms(2)]
    by (auto simp: bit_eq_iff bit_drop_bit_eq bit_or_iff bit_push_bit_iff)
  moreover have "take_bit 4 (push_bit 4 a OR b) = b"
    using low_nibble_bits[OF assms(2)]
    by (auto simp: bit_eq_iff bit_take_bit_iff bit_or_iff bit_push_bit_iff)
  ultimately show ?thesis by (simp add: hex_byte_def low)
qed

lemma nibbles_value:
  assumes "unat a < 16" "unat b < 16"
  shows "unat (push_bit 4 a OR b :: 8 word) = 16 * unat a + unat b"
proof -
  have "\<not> bit b n" if "4 \<le> n" for n using low_nibble_bits[OF assms(2)] that by (meson leD)
  then have "push_bit 4 a AND b = 0"
    by (intro bit_word_eqI) (auto simp: bit_and_iff bit_push_bit_iff)
  then have "push_bit 4 a OR b = push_bit 4 a + b" by (simp add: disjunctive_add_eq_or)
  also have "\<dots> = word_of_nat (16 * unat a + unat b)" by (simp add: push_bit_eq_mult mult.commute)
  finally have "unat (push_bit 4 a OR b) = take_bit 8 (16 * unat a + unat b)"
    by (simp only: unsigned_of_nat) simp
  then show ?thesis using assms by (simp add: take_bit_nat_eq_self)
qed

lemma encode_hex_length: "length (encode_hex bs) = 2 * length bs"
  by (induction bs) (simp_all add: encode_hex_def hex_byte_def)

lemma hex_digit_lower: "n < 16 \<Longrightarrow> is_lower_hex (hex_digit n)"
  by (simp add: is_lower_hex_def is_ascii_digit_def byte_hex_digit)

lemma encode_hex_lower: "list_all is_lower_hex (encode_hex bs)"
  by (auto simp: encode_hex_def hex_byte_def list_all_iff hex_digit_lower nibble_bounds)

lemma encode_hex_append [simp]: "encode_hex (a @ b) = encode_hex a @ encode_hex b"
  by (simp add: encode_hex_def)

end
