(* ===== verification/Registry_Types.thy ===== *)
theory Registry_Types
  imports Protocol_Ids Hex_Text
begin

unbundle bit_operations_syntax

section \<open>Registry values (cthuwu-council: registry.rs)\<close>

text \<open>
  Chain addresses and agent identifiers with their text forms, and the public records of a registry
  with their validation.  Addresses are bytes at their width, so the nibble arithmetic of the parser
  is that of the source.
\<close>

definition MAX_ENDPOINTS :: nat where "MAX_ENDPOINTS = 32"
definition MAX_AGENTS :: nat where "MAX_AGENTS = 4096"
definition MAX_CAPABILITY_REFS :: nat where "MAX_CAPABILITY_REFS = 64"
definition MAX_SIGNALS :: nat where "MAX_SIGNALS = 64"
definition MAX_REFERENCE_LENGTH :: nat where "MAX_REFERENCE_LENGTH = 512"
definition MAX_AGENT_URI_LENGTH :: nat where "MAX_AGENT_URI_LENGTH = 8192"
definition LOCAL_REGISTRY_SCHEMA_VERSION :: nat where "LOCAL_REGISTRY_SCHEMA_VERSION = 2"
definition U256_MAX_DECIMAL :: string where
  "U256_MAX_DECIMAL = ''115792089237316195423570985008687907853269984665640564039457584007913129639935''"

datatype registry_error =
    RE_Invalid string
  | RE_NotFound
  | RE_StaleUpdate
  | RE_BackendUnavailable string
  | RE_DeploymentMismatch string
  | RE_ReadOnly

definition validate_label :: "string \<Rightarrow> string \<Rightarrow> nat \<Rightarrow> (registry_error, unit) result" where
  "validate_label value name maximum =
     ensure (\<not> (is_blank value \<or> length value > maximum \<or> has_control value)) (RE_Invalid name)"

subsection \<open>Addresses\<close>

datatype evm_address = EvmAddress (addr_bytes: "8 word list")

definition ADDRESS_ZERO :: evm_address where
  "ADDRESS_ZERO = EvmAddress (replicate 20 0)"

definition address_is_zero :: "evm_address \<Rightarrow> bool" where
  "address_is_zero a \<longleftrightarrow> a = ADDRESS_ZERO"

text \<open>The arrays of the source have 20 bytes.\<close>

definition address_wf :: "evm_address \<Rightarrow> bool" where
  "address_wf a \<longleftrightarrow> length (addr_bytes a) = 20"

definition decode_hex_digit :: "char \<Rightarrow> (registry_error, 8 word) result" where
  "decode_hex_digit c =
     (let value = byte c in
      if 48 \<le> value \<and> value \<le> 57 then Inr (word_of_nat (value - 48))
      else if 97 \<le> value \<and> value \<le> 102 then Inr (word_of_nat (value - 97 + 10))
      else if 65 \<le> value \<and> value \<le> 70 then Inr (word_of_nat (value - 65 + 10))
      else Inl (RE_Invalid ''address contains a non-hexadecimal digit''))"

fun decode_pairs :: "string \<Rightarrow> (registry_error, 8 word list) result" where
  "decode_pairs (h # l # cs) =
     and_then (decode_hex_digit h) (\<lambda>high.
     and_then (decode_hex_digit l) (\<lambda>low.
     and_then (decode_pairs cs) (\<lambda>bytes. Inr ((push_bit 4 high OR low) # bytes))))"
| "decode_pairs _ = Inr []"

definition parse_address :: "string \<Rightarrow> (registry_error, evm_address) result" where
  "parse_address value =
     (case strip_prefix ''0x'' value of
        None \<Rightarrow> Inl (RE_Invalid ''address must start with 0x'')
      | Some encoded \<Rightarrow>
          if length encoded \<noteq> 40
          then Inl (RE_Invalid ''address must contain exactly 40 hexadecimal digits'')
          else and_then (decode_pairs encoded) (\<lambda>bytes. Inr (EvmAddress bytes)))"

definition print_address :: "evm_address \<Rightarrow> string" where
  "print_address a = ''0x'' @ encode_hex (addr_bytes a)"

lemma decode_hex_digit_hex [simp]: "n < 16 \<Longrightarrow> decode_hex_digit (hex_digit n) = Inr (word_of_nat n)"
  by (simp add: decode_hex_digit_def byte_hex_digit Let_def)

lemma decode_pairs_print: "decode_pairs (encode_hex bs) = Inr bs"
  by (induction bs) (simp_all add: encode_hex_def hex_byte_def nibble_bounds nibbles)

lemma parse_print_address: "address_wf a \<Longrightarrow> parse_address (print_address a) = Inr a"
  unfolding parse_address_def print_address_def strip_prefix_append
  by (simp add: address_wf_def encode_hex_length decode_pairs_print)

lemma decode_pairs_length: "decode_pairs s = Inr bs \<Longrightarrow> length bs = length s div 2"
  by (induction s arbitrary: bs rule: decode_pairs.induct) auto

lemma parse_address_wf: "parse_address s = Inr a \<Longrightarrow> address_wf a"
  by (auto simp: parse_address_def address_wf_def split: option.splits if_splits dest: decode_pairs_length)

lemma decode_hex_digit_ok: "(\<exists>d. decode_hex_digit c = Inr d) \<longleftrightarrow> is_ascii_hexdigit c"
  by (auto simp: decode_hex_digit_def Let_def is_ascii_hexdigit_def is_ascii_digit_def)

lemma decode_pairs_ok: "even (length s) \<Longrightarrow> (\<exists>bs. decode_pairs s = Inr bs) \<longleftrightarrow> list_all is_ascii_hexdigit s"
proof (induction s rule: decode_pairs.induct)
  case (1 h l cs)
  then show ?case using decode_hex_digit_ok[of h] decode_hex_digit_ok[of l] by auto
qed auto

lemma parse_address_ok:
  "(\<exists>a. parse_address s = Inr a) \<longleftrightarrow> (\<exists>h. s = ''0x'' @ h \<and> length h = 40 \<and> list_all is_ascii_hexdigit h)"
proof (cases "strip_prefix ''0x'' s")
  case None
  then have "\<nexists>a. parse_address s = Inr a" unfolding parse_address_def None by simp
  with None show ?thesis unfolding strip_prefix_eq_None by blast
next
  case (Some h)
  then have s: "s = ''0x'' @ h" by simp
  show ?thesis
    using decode_pairs_ok[of h] unfolding s parse_address_def strip_prefix_append by auto
qed

subsection \<open>Agent identifiers\<close>

datatype erc8004_agent_id = Erc8004AgentId (agent_str: string)

definition Erc8004AgentId_new :: "string \<Rightarrow> (registry_error, erc8004_agent_id) result" where
  "Erc8004AgentId_new value =
     (if value = [] \<or> length value > length U256_MAX_DECIMAL
         \<or> \<not> list_all is_ascii_digit value
         \<or> length value > 1 \<and> starts_with ''0'' value
         \<or> length value = length U256_MAX_DECIMAL \<and> value > U256_MAX_DECIMAL
      then Inl (RE_Invalid ''ERC-8004 agent ID must be a canonical uint256 decimal string'')
      else Inr (Erc8004AgentId value))"

text \<open>The number a string of digits denotes.\<close>

definition digits_value :: "string \<Rightarrow> nat" where
  "digits_value s = foldl (\<lambda>a c. a * 10 + (byte c - 48)) 0 s"

lemma digits_value_foldl:
  "foldl (\<lambda>a c. a * 10 + (byte c - 48)) n s = n * 10 ^ length s + digits_value s"
proof (induction s arbitrary: n)
  case (Cons c s)
  have "digits_value (c # s) = (byte c - 48) * 10 ^ length s + digits_value s"
    using Cons.IH[of "byte c - 48"] by (simp add: digits_value_def)
  then show ?case using Cons.IH[of "n * 10 + (byte c - 48)"] by (simp add: algebra_simps)
qed (simp add: digits_value_def)

lemma digits_value_simps [simp]:
  "digits_value [] = 0"
  "digits_value (c # s) = (byte c - 48) * 10 ^ length s + digits_value s"
  "digits_value (s @ [c]) = digits_value s * 10 + (byte c - 48)"
  using digits_value_foldl[of "byte c - 48" s] by (simp_all add: digits_value_def)

lemma digits_value_bound: "list_all is_ascii_digit s \<Longrightarrow> digits_value s < 10 ^ length s"
proof (induction s)
  case (Cons c s)
  then have "byte c - 48 \<le> 9" and s: "digits_value s < 10 ^ length s" by (auto simp: is_ascii_digit_def)
  then have "(byte c - 48) * 10 ^ length s \<le> 9 * 10 ^ length s" by (intro mult_le_mono1)
  with s have "(byte c - 48) * 10 ^ length s + digits_value s < 9 * 10 ^ length s + 10 ^ length s"
    by (rule add_le_less_mono[rotated])
  then show ?case by simp
qed simp

lemma decimal_value: "digits_value (decimal n) = n"
  by (induction n rule: decimal.induct) (subst decimal.simps, simp add: byte_digit_char)

lemma decimal_hd: "n \<noteq> 0 \<Longrightarrow> hd (decimal n) \<noteq> CHR ''0''"
proof (induction n rule: decimal.induct)
  case (1 n)
  have "digit_char n = CHR ''0'' \<Longrightarrow> n < 10 \<Longrightarrow> n = 0"
    using byte_digit_char[of n] by (simp add: byte_def)
  with 1 show ?case by (subst decimal.simps) auto
qed

lemma digit_char_value: "is_ascii_digit c \<Longrightarrow> digit_char (byte c - 48) = c"
  by (simp add: is_ascii_digit_def byte_def digit_char_def)

lemma digits_value_pos: "s \<noteq> [] \<Longrightarrow> list_all is_ascii_digit s \<Longrightarrow> hd s \<noteq> CHR ''0'' \<Longrightarrow> digits_value s \<ge> 10 ^ (length s - 1)"
proof (cases s)
  case (Cons c t)
  assume "list_all is_ascii_digit s" "hd s \<noteq> CHR ''0''"
  with Cons have "byte c \<ge> 48" "byte c \<noteq> byte (CHR ''0'')"
    unfolding byte_inject by (simp_all add: is_ascii_digit_def)
  then have "1 \<le> byte c - 48" by (simp add: byte_def)
  then have "1 * 10 ^ length t \<le> (byte c - 48) * 10 ^ length t" by (rule mult_le_mono1)
  then have "10 ^ length t \<le> (byte c - 48) * 10 ^ length t + digits_value t" by (simp only: mult_1 trans_le_add1)
  with Cons show ?thesis by simp
qed simp

lemma decimal_of_digits:
  assumes "s \<noteq> []" "list_all is_ascii_digit s" "length s > 1 \<longrightarrow> hd s \<noteq> CHR ''0''"
  shows "decimal (digits_value s) = s"
  using assms
proof (induction s rule: rev_induct)
  case (snoc c s)
  then have c: "is_ascii_digit c" and d: "byte c - 48 < 10" by (auto simp: is_ascii_digit_def)
  show ?case
  proof (cases "s = []")
    case True
    with c d show ?thesis by (subst decimal.simps) (simp add: digit_char_value)
  next
    case False
    with snoc have hd: "hd s \<noteq> CHR ''0''" and digits: "list_all is_ascii_digit s" by auto
    then have s: "decimal (digits_value s) = s" "digits_value s \<ge> 10 ^ (length s - 1)"
      using False snoc.IH digits_value_pos by blast+
    moreover from s(2) have "digits_value s \<ge> 1" by (meson le_trans one_le_numeral one_le_power)
    ultimately show ?thesis
      using c d by (subst decimal.simps) (simp add: digit_char_value)
  qed
qed simp

lemma digits_less_iff:
  "length s = length t \<Longrightarrow> list_all is_ascii_digit s \<Longrightarrow> list_all is_ascii_digit t \<Longrightarrow>
   s < t \<longleftrightarrow> digits_value s < digits_value t"
proof (induction s t rule: list_induct2)
  case (Cons c s d t)
  define m where "m = (10 :: nat) ^ length t"
  have b: "digits_value s < m" "digits_value t < m"
    using Cons.prems Cons.hyps digits_value_bound[of s] digits_value_bound[of t] by (auto simp: m_def)
  have order: "c < d \<longleftrightarrow> byte c < byte d" by (simp add: byte_def less_char_def)
  have digits: "48 \<le> byte c" "48 \<le> byte d" using Cons by (auto simp: is_ascii_digit_def)
  have step: "x < y \<Longrightarrow> x * m + u < y * m + v" if "u < m" for x y u v :: nat
  proof -
    assume "x < y"
    then have "Suc x * m \<le> y * m" by (intro mult_le_mono1) simp
    with that show ?thesis by simp
  qed
  show ?case
  proof (cases "c = d")
    case True
    then show ?thesis using Cons by simp
  next
    case False
    then have "byte c < byte d \<or> byte d < byte c" by (metis byte_inject linorder_neqE)
    then show ?thesis
    proof
      assume less: "byte c < byte d"
      with digits have "byte c - 48 < byte d - 48" by linarith
      from step[OF b(1) this] less order Cons.hyps show ?thesis by (simp add: m_def)
    next
      assume less: "byte d < byte c"
      with digits have "byte d - 48 < byte c - 48" by linarith
      from step[OF b(2) this] less order Cons.hyps False show ?thesis
        by (simp add: m_def not_less[symmetric] order_less_not_sym)
    qed
  qed
qed simp

lemma max_decimal: "length U256_MAX_DECIMAL = 78" "list_all is_ascii_digit U256_MAX_DECIMAL"
  "digits_value U256_MAX_DECIMAL = 2 ^ 256 - 1"
  by (simp_all add: U256_MAX_DECIMAL_def is_ascii_digit_def byte_def)

text \<open>The accepted spellings are exactly the decimal numerals of the 256-bit numbers.\<close>

lemma agent_id_new_iff: "Erc8004AgentId_new s = Inr a \<longleftrightarrow> a = Erc8004AgentId s \<and> (\<exists>n < 2 ^ 256. s = decimal n)"
proof -
  have start: "starts_with ''0'' s \<longleftrightarrow> hd s = CHR ''0''" if "s \<noteq> []"
    using that by (cases s) (auto simp: starts_with_def strip_prefix_def)
  let ?shape = "s \<noteq> [] \<and> list_all is_ascii_digit s \<and> (length s > 1 \<longrightarrow> hd s \<noteq> CHR ''0'')"
  have size: "length s \<le> 78 \<and> \<not> (length s = 78 \<and> s > U256_MAX_DECIMAL) \<longleftrightarrow> digits_value s < 2 ^ 256" if sh: ?shape
  proof -
    consider "length s < 78" | "length s = 78" | "length s > 78" by linarith
    then show ?thesis
    proof cases
      case 1
      have "digits_value s < 10 ^ length s" using sh digits_value_bound by blast
      also have "\<dots> \<le> 10 ^ 77" using 1 by (intro power_increasing) simp_all
      also have "\<dots> \<le> (2 :: nat) ^ 256" by simp
      finally show ?thesis using 1 by simp
    next
      case 2
      then show ?thesis
        using digits_less_iff[of U256_MAX_DECIMAL s] sh max_decimal by auto
    next
      case 3
      have "(2 :: nat) ^ 256 \<le> 10 ^ 78" by simp
      also have "\<dots> \<le> 10 ^ (length s - 1)" using 3 by (intro power_increasing) simp_all
      also have "\<dots> \<le> digits_value s" using sh 3 by (intro digits_value_pos) auto
      finally show ?thesis using 3 by simp
    qed
  qed
  have canonical: "?shape \<longleftrightarrow> (\<exists>n. s = decimal n)"
  proof
    assume "\<exists>n. s = decimal n"
    then obtain n where n: "s = decimal n" ..
    have "hd s \<noteq> CHR ''0'' \<or> length s = 1" using decimal_hd[of n] n by (cases "n = 0") (simp_all add: decimal.simps[of 0])
    with n show ?shape by (auto simp: list_all_iff decimal_digits)
  qed (metis decimal_of_digits)
  have val: "(\<exists>n < 2 ^ 256. s = decimal n) \<longleftrightarrow> (\<exists>n. s = decimal n) \<and> digits_value s < 2 ^ 256"
    by (metis decimal_value)
  show ?thesis
    unfolding val canonical[symmetric] using size start
    by (cases "s = []") (auto simp: Erc8004AgentId_new_def max_decimal(1))
qed

end
