(* ===== verification/Council_Registry.thy ===== *)
theory Council_Registry
  imports Registry_Types Ordered_Map
begin

section \<open>Registry views: the local registry (cthuwu-council: registry.rs)\<close>

text \<open>
  The public record of a registered Tentacle and its validation, the contract \<open>AgentRegistry\<close>
  that the local and the chain registry both offer, and the local registry with its persisted
  forms: the current schema and the migration of the first one.
\<close>

instantiation xmtp_inbox_ref :: linorder
begin

definition less_eq_xmtp_inbox_ref :: "xmtp_inbox_ref \<Rightarrow> xmtp_inbox_ref \<Rightarrow> bool" where
  "less_eq_xmtp_inbox_ref x y \<longleftrightarrow> inbox_str x \<le> inbox_str y"

definition less_xmtp_inbox_ref :: "xmtp_inbox_ref \<Rightarrow> xmtp_inbox_ref \<Rightarrow> bool" where
  "less_xmtp_inbox_ref x y \<longleftrightarrow> inbox_str x < inbox_str y"

instance
  by standard (auto simp: less_eq_xmtp_inbox_ref_def less_xmtp_inbox_ref_def xmtp_inbox_ref.expand)

end

subsection \<open>Registered Tentacles\<close>

record registry_endpoint =
  re_tentacle_id :: tentacle_id
  re_xmtp_inbox :: xmtp_inbox_ref
  re_active :: bool

record trust_signal =
  sg_provenance :: string
  sg_kind :: string
  sg_value :: int
  sg_observed_at :: nat
  sg_evidence_ref :: "string option"

record registered_tentacle =
  rt_id :: tentacle_id
  rt_display_name :: string
  rt_registry_ref :: "registry_ref option"
  rt_endpoints :: "registry_endpoint list"
  rt_capability_refs :: "string list"
  rt_trust_signals :: "trust_signal list"
  rt_active :: bool
  rt_metadata_version :: nat

definition validate_trust_signal :: "trust_signal \<Rightarrow> (registry_error, unit) result" where
  "validate_trust_signal s = run_checks [
     validate_label (sg_provenance s) ''trust provenance'' 128,
     validate_label (sg_kind s) ''trust signal kind'' 64,
     ensure (-1000 \<le> sg_value s \<and> sg_value s \<le> 1000) (RE_Invalid ''trust value is out of bounds''),
     ensure (case sg_evidence_ref s of None \<Rightarrow> True | Some v \<Rightarrow> length v \<le> MAX_REFERENCE_LENGTH)
       (RE_Invalid ''trust evidence reference is too long'')]"

fun endpoints_loop :: "tentacle_id \<Rightarrow> xmtp_inbox_ref bset \<Rightarrow> registry_endpoint list \<Rightarrow> (registry_error, unit) result" where
  "endpoints_loop tid inboxes [] = Inr ()"
| "endpoints_loop tid inboxes (e # es) =
     (if re_tentacle_id e \<noteq> tid
      then Inl (RE_Invalid ''registry endpoint belongs to a different Tentacle'')
      else if bs_member inboxes (re_xmtp_inbox e) then Inl (RE_Invalid ''duplicate registry endpoint'')
      else endpoints_loop tid (bs_insert (re_xmtp_inbox e) inboxes) es)"

definition validate_registered_tentacle :: "registered_tentacle \<Rightarrow> (registry_error, unit) result" where
  "validate_registered_tentacle t = run_checks ([
     validate_label (rt_display_name t) ''display name'' 128,
     ensure (rt_metadata_version t \<noteq> 0) (RE_Invalid ''metadata version must be positive''),
     (case rt_registry_ref t of
        None \<Rightarrow> Inr ()
      | Some r \<Rightarrow> map_err (\<lambda>_. RE_Invalid ''registry reference is invalid'') (validate_registry_ref r)),
     ensure (length (rt_endpoints t) \<le> MAX_ENDPOINTS) (RE_Invalid ''too many registered endpoints''),
     ensure (length (rt_capability_refs t) \<le> MAX_CAPABILITY_REFS)
       (RE_Invalid ''too many capability references''),
     ensure (length (rt_trust_signals t) \<le> MAX_SIGNALS) (RE_Invalid ''too many trust signals''),
     endpoints_loop (rt_id t) bs_empty (rt_endpoints t)]
     @ map (\<lambda>r. validate_label r ''capability reference'' MAX_REFERENCE_LENGTH) (rt_capability_refs t)
     @ map validate_trust_signal (rt_trust_signals t))"

lemma endpoints_loop_ok:
  "endpoints_loop tid seen es = Inr () \<longleftrightarrow>
     (\<forall>e\<in>set es. re_tentacle_id e = tid \<and> \<not> bs_member seen (re_xmtp_inbox e))
     \<and> distinct (map re_xmtp_inbox es)"
proof (induction es arbitrary: seen)
  case (Cons e es)
  have "re_xmtp_inbox e \<in> re_xmtp_inbox ` set es \<longleftrightarrow> (\<exists>x\<in>set es. re_xmtp_inbox x = re_xmtp_inbox e)" by (metis image_iff)
  then show ?case by (simp add: Cons.IH) blast
qed simp

lemma validate_registered_ok:
  "validate_registered_tentacle t = Inr () \<Longrightarrow>
     (\<forall>e\<in>set (rt_endpoints t). re_tentacle_id e = rt_id t)
     \<and> distinct (map re_xmtp_inbox (rt_endpoints t)) \<and> rt_metadata_version t > 0"
  by (simp add: validate_registered_tentacle_def endpoints_loop_ok)

subsection \<open>The registry contract\<close>

text \<open>
  Whatever holds the records, every query of \<open>AgentRegistry\<close> is a reading of \<open>resolve\<close>, and a
  resolved record is a valid record of the identity asked for.
\<close>

definition association_of :: "registered_tentacle \<Rightarrow> tentacle_id \<Rightarrow> xmtp_inbox_ref \<Rightarrow> bool" where
  "association_of record tid inbox \<longleftrightarrow>
     rt_active record
     \<and> list_ex (\<lambda>e. re_active e \<and> re_tentacle_id e = tid \<and> re_xmtp_inbox e = inbox) (rt_endpoints record)"

locale agent_registry =
  fixes sound :: "'s \<Rightarrow> bool"
    and resolve :: "'s \<Rightarrow> tentacle_id \<Rightarrow> (registry_error, registered_tentacle) result"
    and endpoints :: "'s \<Rightarrow> tentacle_id \<Rightarrow> (registry_error, registry_endpoint list) result"
    and verify_endpoint_association :: "'s \<Rightarrow> tentacle_id \<Rightarrow> tentacle_id \<Rightarrow> xmtp_inbox_ref \<Rightarrow> (registry_error, bool) result"
    and is_active :: "'s \<Rightarrow> tentacle_id \<Rightarrow> (registry_error, bool) result"
  assumes resolve_id: "sound s \<Longrightarrow> resolve s i = Inr t \<Longrightarrow> rt_id t = i"
    and resolve_valid: "sound s \<Longrightarrow> resolve s i = Inr t \<Longrightarrow> validate_registered_tentacle t = Inr ()"
    and endpoints_eq: "endpoints s i = and_then (resolve s i) (\<lambda>t. Inr (rt_endpoints t))"
    and active_eq: "is_active s i = and_then (resolve s i) (\<lambda>t. Inr (rt_active t))"
    and verify_eq: "verify_endpoint_association s i tid inbox =
          (if i \<noteq> tid then Inr False else and_then (resolve s i) (\<lambda>t. Inr (association_of t tid inbox)))"
begin

lemma verified_iff:
  "verify_endpoint_association s i tid inbox = Inr True \<longleftrightarrow>
     i = tid \<and> is_active s i = Inr True
     \<and> (\<exists>es. endpoints s i = Inr es \<and> (\<exists>e\<in>set es. re_active e \<and> re_tentacle_id e = tid \<and> re_xmtp_inbox e = inbox))"
  by (cases "resolve s i")
     (auto simp: verify_eq active_eq endpoints_eq association_of_def list_ex_iff)

lemma endpoints_owned:
  "sound s \<Longrightarrow> endpoints s i = Inr es \<Longrightarrow>
     distinct (map re_xmtp_inbox es) \<and> (\<forall>e\<in>set es. re_tentacle_id e = i)"
  using resolve_id resolve_valid validate_registered_ok by (fastforce simp: endpoints_eq)

lemma verified_exact:
  "sound s \<Longrightarrow> verify_endpoint_association s i tid inbox = Inr True \<longleftrightarrow>
     i = tid \<and> is_active s i = Inr True
     \<and> (\<exists>es. endpoints s i = Inr es \<and> (\<exists>e\<in>set es. re_active e \<and> re_xmtp_inbox e = inbox))"
  using endpoints_owned verified_iff by blast

end

subsection \<open>The local registry\<close>

record legacy_migration =
  lm_source_schema_version :: nat
  lm_legacy_cthulhu_ids :: "cthulhu_id list"

record local_registry =
  lr_tentacles :: "(tentacle_id, registered_tentacle) bmap"
  lr_migration :: "legacy_migration option"

definition default_local_registry :: local_registry where
  "default_local_registry = \<lparr>lr_tentacles = bm_empty, lr_migration = None\<rparr>"

definition registry_records :: "local_registry \<Rightarrow> registered_tentacle list" where
  "registry_records r = bm_values (lr_tentacles r)"

text \<open>The inboxes of one record enter the owners; an inbox already owned is refused.\<close>

fun owners_loop :: "tentacle_id \<Rightarrow> (xmtp_inbox_ref, tentacle_id) bmap \<Rightarrow> registry_endpoint list \<Rightarrow>
    (registry_error, (xmtp_inbox_ref, tentacle_id) bmap) result" where
  "owners_loop tid owners [] = Inr owners"
| "owners_loop tid owners (e # es) =
     (if bm_get owners (re_xmtp_inbox e) \<noteq> None
      then Inl (RE_Invalid ''XMTP endpoint association must be unique'')
      else owners_loop tid (bm_insert (re_xmtp_inbox e) tid owners) es)"

fun registry_loop :: "(xmtp_inbox_ref, tentacle_id) bmap \<Rightarrow> (tentacle_id \<times> registered_tentacle) list \<Rightarrow>
    (registry_error, unit) result" where
  "registry_loop owners [] = Inr ()"
| "registry_loop owners ((key, agent) # rest) =
     (if key \<noteq> rt_id agent then Inl (RE_Invalid ''registry key and Tentacle ID differ'')
      else and_then (validate_registered_tentacle agent) (\<lambda>_.
           and_then (owners_loop (rt_id agent) owners (rt_endpoints agent)) (\<lambda>owners'.
           registry_loop owners' rest)))"

definition validate_migration :: "local_registry \<Rightarrow> (registry_error, unit) result" where
  "validate_migration r =
     (case lr_migration r of
        None \<Rightarrow> Inr ()
      | Some m \<Rightarrow> run_checks [
          ensure (\<not> (lm_source_schema_version m \<noteq> 1
                     \<or> lm_legacy_cthulhu_ids m = [] \<and> lr_tentacles r \<noteq> bm_empty))
            (RE_Invalid ''legacy registry migration provenance is invalid''),
          ensure (bs_len (bs_of_list (lm_legacy_cthulhu_ids m)) = length (lm_legacy_cthulhu_ids m))
            (RE_Invalid ''legacy registry migration provenance contains duplicates'')])"

definition validate_loaded_registry :: "local_registry \<Rightarrow> (registry_error, unit) result" where
  "validate_loaded_registry r = run_checks [
     ensure (bm_len (lr_tentacles r) \<le> MAX_AGENTS) (RE_Invalid ''too many registered Tentacles''),
     validate_migration r,
     registry_loop bm_empty (bm_entries (lr_tentacles r))]"

definition local_resolve :: "local_registry \<Rightarrow> tentacle_id \<Rightarrow> (registry_error, registered_tentacle) result" where
  "local_resolve r i = ok_or RE_NotFound (bm_get (lr_tentacles r) i)"

definition shares_inbox :: "registered_tentacle \<Rightarrow> registered_tentacle \<Rightarrow> bool" where
  "shares_inbox other agent \<longleftrightarrow>
     rt_id other \<noteq> rt_id agent
     \<and> list_ex (\<lambda>existing. list_ex (\<lambda>incoming. re_xmtp_inbox existing = re_xmtp_inbox incoming) (rt_endpoints agent))
         (rt_endpoints other)"

definition register_or_update :: "registered_tentacle \<Rightarrow> local_registry \<Rightarrow> (registry_error, local_registry) result" where
  "register_or_update agent r =
     and_then (validate_registered_tentacle agent) (\<lambda>_.
     if bm_len (lr_tentacles r) \<ge> MAX_AGENTS \<and> \<not> bm_contains (lr_tentacles r) (rt_id agent)
     then Inl (RE_Invalid ''too many registered Tentacles'')
     else if (case bm_get (lr_tentacles r) (rt_id agent) of
                None \<Rightarrow> False | Some current \<Rightarrow> rt_metadata_version current \<ge> rt_metadata_version agent)
     then Inl RE_StaleUpdate
     else if list_ex (\<lambda>other. shares_inbox other agent) (bm_values (lr_tentacles r))
     then Inl (RE_Invalid ''XMTP inbox is already associated with another Tentacle'')
     else Inr (r\<lparr>lr_tentacles := bm_insert (rt_id agent) agent (lr_tentacles r)\<rparr>))"

definition local_endpoints :: "local_registry \<Rightarrow> tentacle_id \<Rightarrow> (registry_error, registry_endpoint list) result" where
  "local_endpoints r i = and_then (local_resolve r i) (\<lambda>t. Inr (rt_endpoints t))"

definition local_capability_references :: "local_registry \<Rightarrow> tentacle_id \<Rightarrow> (registry_error, string list) result" where
  "local_capability_references r i = and_then (local_resolve r i) (\<lambda>t. Inr (rt_capability_refs t))"

definition local_trust_signals :: "local_registry \<Rightarrow> tentacle_id \<Rightarrow> (registry_error, trust_signal list) result" where
  "local_trust_signals r i = and_then (local_resolve r i) (\<lambda>t. Inr (rt_trust_signals t))"

definition local_verify_endpoint_association ::
    "local_registry \<Rightarrow> tentacle_id \<Rightarrow> tentacle_id \<Rightarrow> xmtp_inbox_ref \<Rightarrow> (registry_error, bool) result" where
  "local_verify_endpoint_association r i tid inbox =
     (if i \<noteq> tid then Inr False
      else and_then (local_resolve r i) (\<lambda>t. Inr (association_of t tid inbox)))"

definition local_is_active :: "local_registry \<Rightarrow> tentacle_id \<Rightarrow> (registry_error, bool) result" where
  "local_is_active r i = and_then (local_resolve r i) (\<lambda>t. Inr (rt_active t))"

subsection \<open>Persisted forms\<close>

record local_registry_v2 =
  w2_schema_version :: nat
  w2_tentacles :: "(tentacle_id, registered_tentacle) bmap"
  w2_migration :: "legacy_migration option"

record legacy_cthulhu_v1 =
  lc_id :: cthulhu_id
  lc_display_name :: string
  lc_registry_ref :: "registry_ref option"
  lc_endpoints :: "registry_endpoint list"
  lc_capability_refs :: "string list"
  lc_trust_signals :: "trust_signal list"
  lc_active :: bool
  lc_metadata_version :: nat

datatype local_registry_wire =
    Wire_V2 local_registry_v2
  | Wire_V1 "(cthulhu_id, legacy_cthulhu_v1) bmap"

definition save_registry :: "local_registry \<Rightarrow> local_registry_wire" where
  "save_registry r = Wire_V2 \<lparr>w2_schema_version = LOCAL_REGISTRY_SCHEMA_VERSION,
     w2_tentacles = lr_tentacles r, w2_migration = lr_migration r\<rparr>"

definition migrated_tentacle :: "legacy_cthulhu_v1 \<Rightarrow> tentacle_id \<Rightarrow> registered_tentacle" where
  "migrated_tentacle agent i = \<lparr>rt_id = i, rt_display_name = lc_display_name agent,
     rt_registry_ref = lc_registry_ref agent, rt_endpoints = lc_endpoints agent,
     rt_capability_refs = lc_capability_refs agent, rt_trust_signals = lc_trust_signals agent,
     rt_active = lc_active agent, rt_metadata_version = lc_metadata_version agent\<rparr>"

fun migrate_loop :: "(tentacle_id, registered_tentacle) bmap \<Rightarrow> cthulhu_id list \<Rightarrow>
    (cthulhu_id \<times> legacy_cthulhu_v1) list \<Rightarrow>
    (registry_error, (tentacle_id, registered_tentacle) bmap \<times> cthulhu_id list) result" where
  "migrate_loop tentacles ids [] = Inr (tentacles, ids)"
| "migrate_loop tentacles ids ((key, agent) # rest) =
     (if key \<noteq> lc_id agent then Inl (RE_Invalid ''legacy registry key and Cthulhu ID differ'')
      else case lc_endpoints agent of
        [e] \<Rightarrow>
          (let i = re_tentacle_id e; migrated = migrated_tentacle agent i in
           and_then (validate_registered_tentacle migrated) (\<lambda>_.
           if bm_get tentacles i \<noteq> None
           then Inl (RE_Invalid ''legacy registry maps multiple coordination profiles to one Tentacle'')
           else migrate_loop (bm_insert i migrated tentacles) (ids @ [key]) rest))
      | _ \<Rightarrow> Inl (RE_Invalid ''legacy Cthulhu registry records require exactly one Tentacle for migration''))"

definition migrate_v1 :: "(cthulhu_id, legacy_cthulhu_v1) bmap \<Rightarrow> (registry_error, local_registry) result" where
  "migrate_v1 agents =
     (if bm_len agents > MAX_AGENTS then Inl (RE_Invalid ''too many legacy registered agents'')
      else and_then (migrate_loop bm_empty [] (bm_entries agents)) (\<lambda>(tentacles, ids).
        let registry = \<lparr>lr_tentacles = tentacles,
              lr_migration = Some \<lparr>lm_source_schema_version = 1, lm_legacy_cthulhu_ids = sort ids\<rparr>\<rparr> in
        and_then (validate_loaded_registry registry) (\<lambda>_. Inr registry)))"

definition load_registry :: "local_registry_wire \<Rightarrow> (registry_error, local_registry) result" where
  "load_registry w =
     (case w of
        Wire_V2 v \<Rightarrow>
          if w2_schema_version v \<noteq> LOCAL_REGISTRY_SCHEMA_VERSION
          then Inl (RE_Invalid ''unsupported LocalRegistry schema version'')
          else (let registry = \<lparr>lr_tentacles = w2_tentacles v, lr_migration = w2_migration v\<rparr> in
                and_then (validate_loaded_registry registry) (\<lambda>_. Inr registry))
      | Wire_V1 agents \<Rightarrow> migrate_v1 agents)"

end
