(* ===== verification/Registry_Invariant.thy ===== *)
theory Registry_Invariant
  imports Council_Registry
begin

section \<open>The invariant of the local registry\<close>

text \<open>
  What validation of the loaded state checks, as a predicate on the table; that registration keeps
  it; and from which migrations the state a registry reaches can be loaded again.
\<close>

definition inboxes_of :: "registered_tentacle \<Rightarrow> xmtp_inbox_ref set" where
  "inboxes_of t = re_xmtp_inbox ` set (rt_endpoints t)"

definition registry_inv :: "local_registry \<Rightarrow> bool" where
  "registry_inv r \<longleftrightarrow>
     bm_len (lr_tentacles r) \<le> MAX_AGENTS
     \<and> (\<forall>k t. bm_get (lr_tentacles r) k = Some t \<longrightarrow> rt_id t = k \<and> validate_registered_tentacle t = Inr ())
     \<and> (\<forall>k t k' t'. bm_get (lr_tentacles r) k = Some t \<longrightarrow> bm_get (lr_tentacles r) k' = Some t' \<longrightarrow>
          k \<noteq> k' \<longrightarrow> inboxes_of t \<inter> inboxes_of t' = {})"

definition migration_ok :: "local_registry \<Rightarrow> bool" where
  "migration_ok r \<longleftrightarrow>
     (case lr_migration r of
        None \<Rightarrow> True
      | Some m \<Rightarrow> lm_source_schema_version m = 1 \<and> distinct (lm_legacy_cthulhu_ids m)
                  \<and> (lm_legacy_cthulhu_ids m = [] \<longrightarrow> lr_tentacles r = bm_empty))"

lemma owners_loop_ok:
  "owners_loop tid owners es = Inr out \<longleftrightarrow>
     (\<forall>e\<in>set es. bm_get owners (re_xmtp_inbox e) = None) \<and> distinct (map re_xmtp_inbox es)
     \<and> out = fold (\<lambda>e. bm_insert (re_xmtp_inbox e) tid) es owners"
proof (induction es arbitrary: owners)
  case (Cons e es)
  have "re_xmtp_inbox e \<in> re_xmtp_inbox ` set es \<longleftrightarrow> (\<exists>x\<in>set es. re_xmtp_inbox x = re_xmtp_inbox e)" by (metis image_iff)
  then show ?case by (simp add: Cons.IH) blast
qed auto

lemma owned_inboxes:
  "bm_get (fold (\<lambda>e. bm_insert (re_xmtp_inbox e) tid) es owners) i = None \<longleftrightarrow>
     bm_get owners i = None \<and> i \<notin> re_xmtp_inbox ` set es"
  by (induction es arbitrary: owners) auto

lemma registry_loop_ok:
  "registry_loop owners xs = Inr () \<longleftrightarrow>
     (\<forall>(k, t)\<in>set xs. rt_id t = k \<and> validate_registered_tentacle t = Inr ()
        \<and> (\<forall>i\<in>inboxes_of t. bm_get owners i = None))
     \<and> sorted_wrt (\<lambda>x y. inboxes_of (snd x) \<inter> inboxes_of (snd y) = {}) xs"
proof (induction xs arbitrary: owners)
  case (Cons x xs)
  obtain k t where x: "x = (k, t)" by fastforce
  have "registry_loop owners (x # xs) = Inr () \<longleftrightarrow>
      rt_id t = k \<and> validate_registered_tentacle t = Inr ()
      \<and> (\<forall>i\<in>inboxes_of t. bm_get owners i = None)
      \<and> registry_loop (fold (\<lambda>e. bm_insert (re_xmtp_inbox e) (rt_id t)) (rt_endpoints t) owners) xs = Inr ()"
    using validate_registered_ok[of t] by (auto simp: x owners_loop_ok inboxes_of_def)
  then show ?case
    unfolding Cons.IH owned_inboxes x inboxes_of_def[symmetric] by (simp add: disjoint_iff) fastforce
qed simp

lemma sorted_wrt_pairwise:
  assumes "\<And>x y. R x y \<Longrightarrow> R y x" "distinct xs"
  shows "sorted_wrt R xs \<longleftrightarrow> (\<forall>x\<in>set xs. \<forall>y\<in>set xs. x \<noteq> y \<longrightarrow> R x y)"
  using assms by (induction xs) auto

lemma distinct_bm_entries: "distinct (bm_entries m)"
  using bm_keys_distinct[of m] unfolding bm_keys_def by (simp add: distinct_map)

lemma registry_entries_ok:
  "registry_loop bm_empty (bm_entries (lr_tentacles r)) = Inr () \<longleftrightarrow>
     (\<forall>k t. bm_get (lr_tentacles r) k = Some t \<longrightarrow> rt_id t = k \<and> validate_registered_tentacle t = Inr ())
     \<and> (\<forall>k t k' t'. bm_get (lr_tentacles r) k = Some t \<longrightarrow> bm_get (lr_tentacles r) k' = Some t' \<longrightarrow>
          k \<noteq> k' \<longrightarrow> inboxes_of t \<inter> inboxes_of t' = {})"
proof -
  have "sorted_wrt (\<lambda>x y. inboxes_of (snd x) \<inter> inboxes_of (snd y) = {}) (bm_entries (lr_tentacles r))
      \<longleftrightarrow> (\<forall>k t k' t'. bm_get (lr_tentacles r) k = Some t \<longrightarrow> bm_get (lr_tentacles r) k' = Some t' \<longrightarrow>
            (k, t) \<noteq> (k', t') \<longrightarrow> inboxes_of t \<inter> inboxes_of t' = {})"
    by (subst sorted_wrt_pairwise) (simp_all add: distinct_bm_entries bm_entries_all_iff Int_commute)
  moreover have "(\<forall>k t k' t'. bm_get m k = Some t \<longrightarrow> bm_get m k' = Some t' \<longrightarrow> (k, t) \<noteq> (k', t') \<longrightarrow> P t t')
      \<longleftrightarrow> (\<forall>k t k' t'. bm_get m k = Some t \<longrightarrow> bm_get m k' = Some t' \<longrightarrow> k \<noteq> k' \<longrightarrow> P t t')"
    for m :: "(tentacle_id, registered_tentacle) bmap" and P
    by (metis option.inject prod.inject)
  ultimately show ?thesis
    unfolding registry_loop_ok bm_entries_all_iff by (simp only: split_conv bm_get_empty) simp
qed

lemma validate_loaded_registry_ok:
  "validate_loaded_registry r = Inr () \<longleftrightarrow> registry_inv r \<and> migration_ok r"
proof -
  have "validate_migration r = Inr () \<longleftrightarrow> migration_ok r"
    by (cases "lr_migration r")
       (auto simp: validate_migration_def migration_ok_def bs_len_of_list_distinct)
  then show ?thesis
    by (auto simp: validate_loaded_registry_def registry_entries_ok registry_inv_def)
qed

subsection \<open>Registration\<close>

lemma shares_inbox_iff:
  "shares_inbox other agent \<longleftrightarrow> rt_id other \<noteq> rt_id agent \<and> inboxes_of other \<inter> inboxes_of agent \<noteq> {}"
  by (auto simp: shares_inbox_def list_ex_iff inboxes_of_def)

lemma register_ok:
  "register_or_update agent r = Inr r' \<longleftrightarrow>
     validate_registered_tentacle agent = Inr ()
     \<and> (bm_len (lr_tentacles r) < MAX_AGENTS \<or> bm_get (lr_tentacles r) (rt_id agent) \<noteq> None)
     \<and> (\<forall>t. bm_get (lr_tentacles r) (rt_id agent) = Some t \<longrightarrow> rt_metadata_version t < rt_metadata_version agent)
     \<and> (\<forall>k t. bm_get (lr_tentacles r) k = Some t \<longrightarrow> rt_id t \<noteq> rt_id agent \<longrightarrow> inboxes_of t \<inter> inboxes_of agent = {})
     \<and> r' = r\<lparr>lr_tentacles := bm_insert (rt_id agent) agent (lr_tentacles r)\<rparr>"
proof -
  have "list_ex (\<lambda>other. shares_inbox other agent) (bm_values (lr_tentacles r)) \<longleftrightarrow>
      \<not> (\<forall>k t. bm_get (lr_tentacles r) k = Some t \<longrightarrow> rt_id t \<noteq> rt_id agent \<longrightarrow> inboxes_of t \<inter> inboxes_of agent = {})"
    by (simp add: list_ex_iff shares_inbox_iff Bex_def bm_values_iff) blast
  then show ?thesis
    unfolding register_or_update_def
    by (auto simp: not_le split: option.splits)
qed

lemma register_inv:
  assumes "registry_inv r" "register_or_update agent r = Inr r'"
  shows "registry_inv r'"
proof -
  have other: "inboxes_of t \<inter> inboxes_of agent = {}"
    if "bm_get (lr_tentacles r) k = Some t" "k \<noteq> rt_id agent" for k t
    using assms that unfolding register_ok registry_inv_def by blast
  then have other': "inboxes_of agent \<inter> inboxes_of t = {}"
    if "bm_get (lr_tentacles r) k = Some t" "k \<noteq> rt_id agent" for k t
    using that by blast
  show ?thesis
    using assms other other' unfolding register_ok registry_inv_def
    by (simp add: bm_len_insert) (metis Suc_leI option.distinct(1) option.inject)
qed

definition register_step :: "registered_tentacle \<Rightarrow> local_registry \<Rightarrow> local_registry" where
  "register_step agent r = (case register_or_update agent r of Inl e \<Rightarrow> r | Inr r' \<Rightarrow> r')"

definition register_run :: "registered_tentacle list \<Rightarrow> local_registry \<Rightarrow> local_registry" where
  "register_run agents r = fold register_step agents r"

lemma register_run_simps [simp]:
  "register_run [] r = r"
  "register_run (a # as) r = register_run as (register_step a r)"
  by (simp_all add: register_run_def)

lemma register_step_cases:
  obtains "register_step a r = r" | r' where "register_or_update a r = Inr r'" "register_step a r = r'"
  by (cases "register_or_update a r") (auto simp: register_step_def)

lemma register_step_inv: "registry_inv r \<Longrightarrow> registry_inv (register_step a r)"
  by (rule register_step_cases[of a r]) (auto dest: register_inv)

lemma register_run_inv: "registry_inv r \<Longrightarrow> registry_inv (register_run as r)"
  by (induction as arbitrary: r) (simp_all add: register_step_inv)

lemma register_step_migration: "lr_migration (register_step a r) = lr_migration r"
  by (rule register_step_cases[of a r]) (auto simp: register_ok)

lemma register_run_migration: "lr_migration (register_run as r) = lr_migration r"
  by (induction as arbitrary: r) (simp_all add: register_step_migration)

definition newer :: "registered_tentacle \<Rightarrow> registered_tentacle \<Rightarrow> bool" where
  "newer t t' \<longleftrightarrow> t' = t \<or> rt_metadata_version t < rt_metadata_version t'"

lemma newer_trans: "newer t t' \<Longrightarrow> newer t' t'' \<Longrightarrow> newer t t''"
  by (auto simp: newer_def)

lemma register_step_newer:
  "bm_get (lr_tentacles r) k = Some t \<Longrightarrow> \<exists>t'. bm_get (lr_tentacles (register_step a r)) k = Some t' \<and> newer t t'"
  by (rule register_step_cases[of a r]) (auto simp: register_ok newer_def)

lemma register_run_newer:
  "bm_get (lr_tentacles r) k = Some t \<Longrightarrow> \<exists>t'. bm_get (lr_tentacles (register_run as r)) k = Some t' \<and> newer t t'"
proof (induction as arbitrary: r t)
  case (Cons a as)
  then show ?case using register_step_newer newer_trans by (metis register_run_simps(2))
qed (simp add: newer_def)

lemma load_registry_valid: "load_registry w = Inr r \<Longrightarrow> validate_loaded_registry r = Inr ()"
  by (auto simp: load_registry_def migrate_v1_def Let_def split: local_registry_wire.splits if_splits)

lemma load_saved: "load_registry (save_registry r) = Inr r' \<longleftrightarrow> r' = r \<and> validate_loaded_registry r = Inr ()"
  by (cases r) (auto simp: load_registry_def save_registry_def Let_def)

interpretation local: agent_registry registry_inv local_resolve local_endpoints
    local_verify_endpoint_association local_is_active
  by unfold_locales
    (auto simp: local_resolve_def local_endpoints_def local_is_active_def
      local_verify_endpoint_association_def registry_inv_def)

end
