(* ===== verification/Registry_Chain.thy ===== *)
theory Registry_Chain
  imports Council_Registry
begin

section \<open>Registry views: the chain registry (cthuwu-council: registry.rs)\<close>

text \<open>
  The read-only adapter of the ERC-8004 registries.  The backend is a parameter: a record of what
  it answers during one call, which the adapter checks before it uses it.
\<close>

definition BASE_MAINNET_CHAIN_ID :: nat where "BASE_MAINNET_CHAIN_ID = 8453"
definition BASE_IDENTITY_REGISTRY_ADDRESS :: string where
  "BASE_IDENTITY_REGISTRY_ADDRESS = ''0x8004A169FB4a3325136EB29fA0ceB6D2e539a432''"
definition BASE_REPUTATION_REGISTRY_ADDRESS :: string where
  "BASE_REPUTATION_REGISTRY_ADDRESS = ''0x8004BAa17C55a88189AE136b182e5fdA19dE9b63''"
definition BASE_IDENTITY_IMPLEMENTATION_ADDRESS :: string where
  "BASE_IDENTITY_IMPLEMENTATION_ADDRESS = ''0x7274e874CA62410a93Bd8bf61c69d8045E399c02''"
definition BASE_REPUTATION_IMPLEMENTATION_ADDRESS :: string where
  "BASE_REPUTATION_IMPLEMENTATION_ADDRESS = ''0x16e0FA7f7C56B9a767E34B192B51f921BE31dA34''"
definition ERC8004_IDENTITY_CONTRACT_VERSION :: string where
  "ERC8004_IDENTITY_CONTRACT_VERSION = ''2.0.0''"
definition ERC8004_REPUTATION_CONTRACT_VERSION :: string where
  "ERC8004_REPUTATION_CONTRACT_VERSION = ''2.0.0''"
definition CTHUWU_ALLEGIANCE_VALUE :: string where "CTHUWU_ALLEGIANCE_VALUE = ''uwu-tentacle-v1''"
definition CTHUWU_PROTOCOL_VALUE :: string where "CTHUWU_PROTOCOL_VALUE = ''1''"

record erc8004_binding =
  eb_tentacle_id :: tentacle_id
  eb_agent_id :: erc8004_agent_id
  eb_tentacle_wallet :: evm_address

definition validate_erc8004_binding :: "erc8004_binding \<Rightarrow> (registry_error, unit) result" where
  "validate_erc8004_binding b =
     ensure (\<not> address_is_zero (eb_tentacle_wallet b)) (RE_Invalid ''persisted Tentacle wallet must be nonzero'')"

datatype erc8004_interface_revision = RegistrationV1 | UnsupportedRevision

record erc8004_interface_support =
  is_owner_of :: bool
  is_agent_uri :: bool
  is_get_agent_wallet :: bool
  is_get_metadata :: bool
  is_get_version :: bool
  is_is_authorized_or_owner :: bool
  is_register :: bool
  is_set_agent_uri :: bool
  is_set_metadata :: bool
  is_set_agent_wallet :: bool
  is_unset_agent_wallet :: bool
  is_registered_event :: bool
  is_uri_updated_event :: bool
  is_metadata_set_event :: bool
  is_transfer_event :: bool

definition support_is_complete :: "erc8004_interface_support \<Rightarrow> bool" where
  "support_is_complete s \<longleftrightarrow>
     is_owner_of s \<and> is_agent_uri s \<and> is_get_agent_wallet s \<and> is_get_metadata s \<and> is_get_version s
     \<and> is_is_authorized_or_owner s \<and> is_register s \<and> is_set_agent_uri s \<and> is_set_metadata s
     \<and> is_set_agent_wallet s \<and> is_unset_agent_wallet s \<and> is_registered_event s
     \<and> is_uri_updated_event s \<and> is_metadata_set_event s \<and> is_transfer_event s"

record erc8004_deployment_observation =
  do_chain_id :: nat
  do_identity_registry :: evm_address
  do_reputation_registry :: evm_address
  do_identity_proxy_implementation :: "evm_address option"
  do_reputation_proxy_implementation :: "evm_address option"
  do_identity_proxy_code_bytes :: nat
  do_reputation_proxy_code_bytes :: nat
  do_identity_implementation_code_bytes :: nat
  do_reputation_implementation_code_bytes :: nat
  do_interface_revision :: erc8004_interface_revision
  do_identity_contract_version :: string
  do_reputation_contract_version :: string
  do_interface_support :: erc8004_interface_support
  do_reputation_identity_registry :: evm_address

record erc8004_agent_snapshot =
  as_agent_id :: erc8004_agent_id
  as_tentacle_id :: tentacle_id
  as_owner :: evm_address
  as_agent_uri :: string
  as_agent_wallet :: evm_address
  as_wallet_is_authorized :: bool
  as_allegiance :: string
  as_protocol :: string
  as_metadata_tentacle_id :: "string option"
  as_display_name :: string
  as_endpoints :: "registry_endpoint list"
  as_capability_refs :: "string list"
  as_trust_signals :: "trust_signal list"
  as_observed_block :: nat

datatype erc8004_agent_wallet_status = WS_Verified | WS_Missing | WS_Unexpected

datatype erc8004_control_status = CS_Owner | CS_ApprovedOperator | CS_NotAuthorized

definition snapshot_record :: "erc8004_agent_snapshot \<Rightarrow> registered_tentacle" where
  "snapshot_record s = \<lparr>rt_id = as_tentacle_id s, rt_display_name = as_display_name s,
     rt_registry_ref = None, rt_endpoints = as_endpoints s, rt_capability_refs = as_capability_refs s,
     rt_trust_signals = as_trust_signals s, rt_active = False, rt_metadata_version = as_observed_block s\<rparr>"

definition validate_agent_snapshot :: "erc8004_agent_snapshot \<Rightarrow> (registry_error, unit) result" where
  "validate_agent_snapshot s = run_checks [
     ensure (\<not> address_is_zero (as_owner s)) (RE_Invalid ''ERC-8004 owner must be nonzero''),
     ensure (\<not> (length (as_agent_uri s) > MAX_AGENT_URI_LENGTH \<or> has_control (as_agent_uri s)))
       (RE_Invalid ''ERC-8004 agent URI is invalid''),
     ensure (\<not> (length (as_allegiance s) > 256 \<or> length (as_protocol s) > 32
                \<or> (case as_metadata_tentacle_id s of None \<Rightarrow> False | Some v \<Rightarrow> length v > 96)))
       (RE_Invalid ''ERC-8004 metadata is oversized''),
     ensure (case as_metadata_tentacle_id s of None \<Rightarrow> True | Some v \<Rightarrow> v = as_str (as_tentacle_id s))
       (RE_Invalid ''ERC-8004 Tentacle metadata does not match the selected Tentacle''),
     ensure (as_observed_block s \<noteq> 0) (RE_Invalid ''ERC-8004 observation block must be positive''),
     validate_registered_tentacle (snapshot_record s)]"

definition declares_tentacle_allegiance :: "erc8004_agent_snapshot \<Rightarrow> bool" where
  "declares_tentacle_allegiance s \<longleftrightarrow> as_allegiance s = CTHUWU_ALLEGIANCE_VALUE"

definition declares_supported_protocol :: "erc8004_agent_snapshot \<Rightarrow> bool" where
  "declares_supported_protocol s \<longleftrightarrow> as_protocol s = CTHUWU_PROTOCOL_VALUE"

definition agent_wallet_status :: "erc8004_agent_snapshot \<Rightarrow> evm_address \<Rightarrow> erc8004_agent_wallet_status" where
  "agent_wallet_status s expected =
     (if address_is_zero (as_agent_wallet s) then WS_Missing
      else if as_agent_wallet s = expected then WS_Verified else WS_Unexpected)"

subsection \<open>The adapter\<close>

record erc8004_backend =
  be_deployment :: "(registry_error, erc8004_deployment_observation) result"
  be_read_agent :: "erc8004_agent_id \<Rightarrow> evm_address \<Rightarrow> (registry_error, erc8004_agent_snapshot) result"

type_synonym erc8004_bindings = "(tentacle_id, erc8004_binding) bmap"

definition verify_canonical_deployment :: "erc8004_deployment_observation \<Rightarrow> (registry_error, unit) result" where
  "verify_canonical_deployment d =
     and_then (parse_address BASE_IDENTITY_REGISTRY_ADDRESS) (\<lambda>identity.
     and_then (parse_address BASE_REPUTATION_REGISTRY_ADDRESS) (\<lambda>reputation.
     and_then (parse_address BASE_IDENTITY_IMPLEMENTATION_ADDRESS) (\<lambda>identity_implementation.
     and_then (parse_address BASE_REPUTATION_IMPLEMENTATION_ADDRESS) (\<lambda>reputation_implementation.
     run_checks [
       ensure (do_chain_id d = BASE_MAINNET_CHAIN_ID)
         (RE_DeploymentMismatch ''RPC chain is not Base mainnet 8453''),
       ensure (do_identity_registry d = identity \<and> do_reputation_registry d = reputation)
         (RE_DeploymentMismatch ''registry address is not the canonical Base deployment''),
       ensure (do_identity_proxy_code_bytes d \<noteq> 0 \<and> do_reputation_proxy_code_bytes d \<noteq> 0)
         (RE_DeploymentMismatch ''canonical registry proxy has no deployed code''),
       ensure (do_identity_proxy_implementation d = Some identity_implementation
               \<and> do_reputation_proxy_implementation d = Some reputation_implementation
               \<and> do_identity_implementation_code_bytes d \<noteq> 0
               \<and> do_reputation_implementation_code_bytes d \<noteq> 0)
         (RE_DeploymentMismatch
            ''canonical registry proxy implementation does not match the pinned deployment''),
       ensure (do_interface_revision d = RegistrationV1
               \<and> do_identity_contract_version d = ERC8004_IDENTITY_CONTRACT_VERSION
               \<and> do_reputation_contract_version d = ERC8004_REPUTATION_CONTRACT_VERSION
               \<and> support_is_complete (do_interface_support d))
         (RE_DeploymentMismatch
            ''registry does not expose the pinned ERC-8004 registration-v1 interface''),
       ensure (do_reputation_identity_registry d = identity)
         (RE_DeploymentMismatch
            ''Reputation Registry is bound to a different Identity Registry'')]))))"

definition chain_registry_new :: "erc8004_backend \<Rightarrow> (registry_error, erc8004_bindings) result" where
  "chain_registry_new be =
     and_then (be_deployment be) (\<lambda>d.
     and_then (verify_canonical_deployment d) (\<lambda>_. Inr bm_empty))"

definition chain_bind :: "erc8004_binding \<Rightarrow> erc8004_bindings \<Rightarrow> (registry_error, erc8004_bindings) result" where
  "chain_bind b bindings =
     and_then (validate_erc8004_binding b) (\<lambda>_.
     if bm_contains bindings (eb_tentacle_id b)
     then Inl (RE_Invalid ''Tentacle already has a persisted ERC-8004 binding'')
     else if list_ex (\<lambda>other. eb_agent_id other = eb_agent_id b) (bm_values bindings)
     then Inl (RE_Invalid ''ERC-8004 agent ID is already bound to another Tentacle'')
     else Inr (bm_insert (eb_tentacle_id b) b bindings))"

fun bind_loop :: "erc8004_binding list \<Rightarrow> erc8004_bindings \<Rightarrow> (registry_error, erc8004_bindings) result" where
  "bind_loop [] bindings = Inr bindings"
| "bind_loop (b # bs) bindings = and_then (chain_bind b bindings) (bind_loop bs)"

definition chain_with_bindings :: "erc8004_backend \<Rightarrow> erc8004_binding list \<Rightarrow> (registry_error, erc8004_bindings) result" where
  "chain_with_bindings be bs = and_then (chain_registry_new be) (bind_loop bs)"

definition chain_agent_id :: "erc8004_bindings \<Rightarrow> tentacle_id \<Rightarrow> erc8004_agent_id option" where
  "chain_agent_id bindings i = map_option eb_agent_id (bm_get bindings i)"

definition chain_read_agent :: "erc8004_backend \<Rightarrow> erc8004_bindings \<Rightarrow> tentacle_id \<Rightarrow>
    (registry_error, erc8004_agent_snapshot) result" where
  "chain_read_agent be bindings i =
     and_then (be_deployment be) (\<lambda>d.
     and_then (verify_canonical_deployment d) (\<lambda>_.
     and_then (ok_or RE_NotFound (bm_get bindings i)) (\<lambda>b.
     and_then (be_read_agent be (eb_agent_id b) (eb_tentacle_wallet b)) (\<lambda>s.
     and_then (validate_agent_snapshot s) (\<lambda>_.
     if as_agent_id s \<noteq> eb_agent_id b \<or> as_tentacle_id s \<noteq> i
     then Inl (RE_Invalid ''ERC-8004 backend returned a different bound identity'')
     else Inr s)))))"

definition chain_control_status :: "erc8004_backend \<Rightarrow> erc8004_bindings \<Rightarrow> tentacle_id \<Rightarrow>
    (registry_error, erc8004_control_status) result" where
  "chain_control_status be bindings i =
     and_then (ok_or RE_NotFound (bm_get bindings i)) (\<lambda>b.
     and_then (chain_read_agent be bindings i) (\<lambda>s. Inr
       (if as_owner s = eb_tentacle_wallet b then CS_Owner
        else if as_wallet_is_authorized s then CS_ApprovedOperator
        else CS_NotAuthorized)))"

definition chain_reference :: "evm_address \<Rightarrow> erc8004_agent_id \<Rightarrow> string" where
  "chain_reference identity agent =
     ''eip155:'' @ decimal BASE_MAINNET_CHAIN_ID @ '':'' @ print_address identity @ '':'' @ agent_str agent"

definition chain_active :: "erc8004_agent_snapshot \<Rightarrow> erc8004_binding \<Rightarrow> bool" where
  "chain_active s b \<longleftrightarrow>
     declares_tentacle_allegiance s \<and> agent_wallet_status s (eb_tentacle_wallet b) = WS_Verified"

definition chain_record :: "erc8004_agent_snapshot \<Rightarrow> erc8004_binding \<Rightarrow> registry_ref \<Rightarrow> registered_tentacle" where
  "chain_record s b reference = \<lparr>rt_id = as_tentacle_id s, rt_display_name = as_display_name s,
     rt_registry_ref = Some reference, rt_endpoints = as_endpoints s,
     rt_capability_refs = as_capability_refs s, rt_trust_signals = as_trust_signals s,
     rt_active = chain_active s b, rt_metadata_version = as_observed_block s\<rparr>"

definition chain_registered_tentacle :: "erc8004_backend \<Rightarrow> erc8004_bindings \<Rightarrow> tentacle_id \<Rightarrow>
    (registry_error, registered_tentacle) result" where
  "chain_registered_tentacle be bindings i =
     and_then (chain_read_agent be bindings i) (\<lambda>s.
     and_then (ok_or RE_NotFound (bm_get bindings i)) (\<lambda>b.
     and_then (parse_address BASE_IDENTITY_REGISTRY_ADDRESS) (\<lambda>identity.
     and_then (map_err (\<lambda>_. RE_Invalid ''ERC-8004 registry reference is invalid'')
                 (RegistryRef_new ''erc-8004'' (chain_reference identity (as_agent_id s)))) (\<lambda>reference.
     let record = chain_record s b reference in
     and_then (validate_registered_tentacle record) (\<lambda>_. Inr record)))))"

text \<open>The trait's operations; a view is the backend's answers with the bindings.\<close>

type_synonym chain_view = "erc8004_backend \<times> erc8004_bindings"

definition chain_resolve :: "chain_view \<Rightarrow> tentacle_id \<Rightarrow> (registry_error, registered_tentacle) result" where
  "chain_resolve v i = chain_registered_tentacle (fst v) (snd v) i"

definition chain_register_or_update :: "registered_tentacle \<Rightarrow> chain_view \<Rightarrow> (registry_error, chain_view) result" where
  "chain_register_or_update agent v = Inl RE_ReadOnly"

definition chain_endpoints :: "chain_view \<Rightarrow> tentacle_id \<Rightarrow> (registry_error, registry_endpoint list) result" where
  "chain_endpoints v i = and_then (chain_resolve v i) (\<lambda>t. Inr (rt_endpoints t))"

definition chain_capability_references :: "chain_view \<Rightarrow> tentacle_id \<Rightarrow> (registry_error, string list) result" where
  "chain_capability_references v i = and_then (chain_resolve v i) (\<lambda>t. Inr (rt_capability_refs t))"

definition chain_trust_signals :: "chain_view \<Rightarrow> tentacle_id \<Rightarrow> (registry_error, trust_signal list) result" where
  "chain_trust_signals v i = and_then (chain_resolve v i) (\<lambda>t. Inr (rt_trust_signals t))"

definition chain_verify_endpoint_association ::
    "chain_view \<Rightarrow> tentacle_id \<Rightarrow> tentacle_id \<Rightarrow> xmtp_inbox_ref \<Rightarrow> (registry_error, bool) result" where
  "chain_verify_endpoint_association v i tid inbox =
     (if i \<noteq> tid then Inr False
      else and_then (chain_resolve v i) (\<lambda>t. Inr (association_of t tid inbox)))"

definition chain_is_active :: "chain_view \<Rightarrow> tentacle_id \<Rightarrow> (registry_error, bool) result" where
  "chain_is_active v i = and_then (chain_resolve v i) (\<lambda>t. Inr (rt_active t))"

subsection \<open>What a read establishes\<close>

lemma chain_read_ok:
  "chain_read_agent be bindings i = Inr s \<longleftrightarrow>
     (\<exists>d b. be_deployment be = Inr d \<and> verify_canonical_deployment d = Inr () \<and> bm_get bindings i = Some b
        \<and> be_read_agent be (eb_agent_id b) (eb_tentacle_wallet b) = Inr s
        \<and> validate_agent_snapshot s = Inr () \<and> as_agent_id s = eb_agent_id b \<and> as_tentacle_id s = i)"
  by (auto simp: chain_read_agent_def)

lemma parse_base_identity: "\<exists>a. parse_address BASE_IDENTITY_REGISTRY_ADDRESS = Inr a \<and> address_wf a"
proof -
  have "\<exists>a. parse_address BASE_IDENTITY_REGISTRY_ADDRESS = Inr a"
    unfolding parse_address_ok BASE_IDENTITY_REGISTRY_ADDRESS_def
    by (intro exI[of _ "''8004A169FB4a3325136EB29fA0ceB6D2e539a432''"]) (simp add: ascii_defs)
  then show ?thesis using parse_address_wf by blast
qed

definition reference_char :: "char \<Rightarrow> bool" where
  "reference_char c \<longleftrightarrow> 48 \<le> byte c \<and> byte c < 123 \<and> byte c \<noteq> 92"

lemma no_dots: "\<forall>c\<in>set s. reference_char c \<Longrightarrow> \<not> contains_str ''..'' s"
proof (induction s)
  case (Cons c s)
  then have "c \<noteq> CHR ''.''" by (auto simp: reference_char_def byte_def)
  with Cons show ?case by (auto simp: starts_with_def strip_prefix_def)
qed (simp add: starts_with_def strip_prefix_def)

lemma reference_chars_valid:
  assumes chars: "\<forall>c\<in>set s. reference_char c" and s: "s \<noteq> []" "length s \<le> 256"
  shows "RegistryRef_new ''erc-8004'' s = Inr \<lparr>rr_registry = ''erc-8004'', rr_reference = s\<rparr>"
proof -
  have ascii: "is_ascii s" using chars by (auto simp: is_ascii_def list_all_iff reference_char_def)
  then have utf8: "utf8_chars s = map byte s" by (rule utf8_chars_ascii)
  have special: "CHR 0x5C \<notin> set s" "CHR 0x00 \<notin> set s"
    using chars by (auto simp: reference_char_def byte_def)
  have plain: "\<not> is_control (byte c)" "\<not> is_whitespace (byte c)" if "c \<in> set s" for c
    using chars that by (auto simp: reference_char_def is_control_def is_whitespace_def)
  have slug: "validate_slug ''registry.registry'' ''erc-8004'' 64 = Inr ()"
    by (simp add: slug_grammar_def slug_char_def is_separator_def ascii_defs less_Suc_eq_0_disj) auto
  have "good_text 256 s" "\<not> has_whitespace s"
    using s plain by (auto simp: good_text_def has_control_def has_whitespace_def is_blank_def utf8 list_ex_iff list_all_iff neq_Nil_conv)
  with ascii special slug no_dots[OF chars] show ?thesis
    by (simp add: RegistryRef_new_def validate_registry_ref_def Let_def)
qed

lemma hex_digit_reference: "n < 16 \<Longrightarrow> reference_char (hex_digit n)"
  by (simp add: reference_char_def byte_hex_digit)

lemma print_address_chars: "c \<in> set (print_address a) \<Longrightarrow> reference_char c"
  by (auto simp: print_address_def encode_hex_def hex_byte_def hex_digit_reference nibble_bounds)
     (simp_all add: reference_char_def byte_def)

lemma decimal_length:
  assumes "n < 2 ^ 256"
  shows "length (decimal n) \<le> 78"
proof -
  have "\<exists>a. Erc8004AgentId_new (decimal n) = Inr a" unfolding agent_id_new_iff using assms by blast
  then show ?thesis by (auto simp: Erc8004AgentId_new_def max_decimal(1) split: if_splits)
qed

lemma chain_reference_valid:
  assumes "address_wf identity" "agent_str agent = decimal n" "n < 2 ^ 256"
  shows "\<exists>r. RegistryRef_new ''erc-8004'' (chain_reference identity agent) = Inr r \<and> validate_registry_ref r = Inr ()"
proof -
  have num: "reference_char c" if "c \<in> set (decimal k)" for c k
    using decimal_digits[OF that] by (simp add: reference_char_def is_ascii_digit_def)
  have "length (decimal BASE_MAINNET_CHAIN_ID) \<le> 4"
    by (simp add: BASE_MAINNET_CHAIN_ID_def decimal.simps)
  moreover have "length (print_address identity) = 42"
    using assms(1) by (simp add: print_address_def encode_hex_length address_wf_def)
  ultimately have "length (chain_reference identity agent) \<le> 256"
    using decimal_length[OF assms(3)] assms(2) by (simp add: chain_reference_def)
  moreover have "\<forall>c\<in>set (chain_reference identity agent). reference_char c"
    using print_address_chars num assms(2)
    by (auto simp: chain_reference_def) (simp_all add: reference_char_def byte_def)
  ultimately have "RegistryRef_new ''erc-8004'' (chain_reference identity agent)
      = Inr \<lparr>rr_registry = ''erc-8004'', rr_reference = chain_reference identity agent\<rparr>"
    by (intro reference_chars_valid) (auto simp: chain_reference_def)
  then show ?thesis by (auto simp: RegistryRef_new_def Let_def)
qed

text \<open>Bindings hold identifiers their constructor accepted.\<close>

definition bindings_ok :: "erc8004_bindings \<Rightarrow> bool" where
  "bindings_ok bindings \<longleftrightarrow>
     (\<forall>i b. bm_get bindings i = Some b \<longrightarrow> (\<exists>s. Erc8004AgentId_new s = Inr (eb_agent_id b)))"

lemma snapshot_validates: "validate_agent_snapshot s = Inr () \<Longrightarrow> validate_registry_ref r = Inr () \<Longrightarrow>
   validate_registered_tentacle (chain_record s b r) = Inr ()"
  by (simp add: validate_agent_snapshot_def validate_registered_tentacle_def snapshot_record_def chain_record_def)

text \<open>Once the snapshot has been read, building the record cannot fail.\<close>

lemma chain_resolve_total:
  assumes "bindings_ok bindings" "chain_read_agent be bindings i = Inr s"
  obtains b r where "bm_get bindings i = Some b" "chain_resolve (be, bindings) i = Inr (chain_record s b r)"
proof -
  from assms(2) obtain b where b: "bm_get bindings i = Some b" "as_agent_id s = eb_agent_id b"
    "validate_agent_snapshot s = Inr ()"
    unfolding chain_read_ok by blast
  with assms(1) obtain n where n: "n < 2 ^ 256" "agent_str (as_agent_id s) = decimal n"
    unfolding bindings_ok_def agent_id_new_iff by (metis erc8004_agent_id.sel)
  obtain identity where identity: "parse_address BASE_IDENTITY_REGISTRY_ADDRESS = Inr identity" "address_wf identity"
    using parse_base_identity by blast
  obtain r where r: "RegistryRef_new ''erc-8004'' (chain_reference identity (as_agent_id s)) = Inr r"
    "validate_registry_ref r = Inr ()"
    using chain_reference_valid[OF identity(2) n(2,1)] by blast
  have "chain_resolve (be, bindings) i = Inr (chain_record s b r)"
    using assms(2) b(1) identity(1) r snapshot_validates[OF b(3) r(2)]
    by (simp add: chain_resolve_def chain_registered_tentacle_def Let_def)
  with b(1) show thesis by (rule that)
qed

lemma chain_resolve_read: "chain_resolve (be, bindings) i = Inr t \<Longrightarrow> \<exists>s. chain_read_agent be bindings i = Inr s"
  by (auto simp: chain_resolve_def chain_registered_tentacle_def)

lemma bind_ok:
  "chain_bind b bindings = Inr bindings' \<longleftrightarrow>
     \<not> address_is_zero (eb_tentacle_wallet b) \<and> bm_get bindings (eb_tentacle_id b) = None
     \<and> (\<forall>i other. bm_get bindings i = Some other \<longrightarrow> eb_agent_id other \<noteq> eb_agent_id b)
     \<and> bindings' = bm_insert (eb_tentacle_id b) b bindings"
  unfolding chain_bind_def validate_erc8004_binding_def
  by (auto simp: list_ex_iff bm_values_iff)

text \<open>Bindings are keyed by their own Tentacle, hold nonzero wallets, and no agent is bound twice.\<close>

definition bindings_inv :: "erc8004_bindings \<Rightarrow> bool" where
  "bindings_inv bindings \<longleftrightarrow>
     (\<forall>i b. bm_get bindings i = Some b \<longrightarrow> eb_tentacle_id b = i \<and> \<not> address_is_zero (eb_tentacle_wallet b))
     \<and> (\<forall>i b j c. bm_get bindings i = Some b \<longrightarrow> bm_get bindings j = Some c \<longrightarrow> eb_agent_id b = eb_agent_id c \<longrightarrow> i = j)"

lemma bind_inv: "bindings_inv bindings \<Longrightarrow> chain_bind b bindings = Inr bindings' \<Longrightarrow> bindings_inv bindings'"
  unfolding bind_ok bindings_inv_def by (simp split: if_splits) metis

lemma bind_loop_inv:
  "bindings_inv bindings \<Longrightarrow> bind_loop bs bindings = Inr bindings' \<Longrightarrow> bindings_inv bindings'"
proof (induction bs arbitrary: bindings)
  case (Cons b bs)
  then show ?case using bind_inv by (auto simp only: bind_loop.simps and_then_eq_Inr)
qed simp

lemma with_bindings_inv: "chain_with_bindings be bs = Inr bindings \<Longrightarrow> bindings_inv bindings"
  using bind_loop_inv[of bm_empty bs bindings]
  by (auto simp: chain_with_bindings_def chain_registry_new_def bindings_inv_def)

lemma bind_loop_ids:
  "bind_loop bs bindings = Inr bindings' \<Longrightarrow> bm_get bindings' i = Some b \<Longrightarrow> b \<in> set bs \<or> bm_get bindings i = Some b"
proof (induction bs arbitrary: bindings)
  case (Cons x bs)
  then obtain bindings1 where "chain_bind x bindings = Inr bindings1" "bind_loop bs bindings1 = Inr bindings'"
    by auto
  with Cons show ?case unfolding bind_ok by (fastforce split: if_splits)
qed simp

lemma with_bindings_ok:
  "chain_with_bindings be bs = Inr bindings \<Longrightarrow> \<forall>b\<in>set bs. \<exists>s. Erc8004AgentId_new s = Inr (eb_agent_id b) \<Longrightarrow>
     bindings_ok bindings"
  using bind_loop_ids[of bs bm_empty bindings]
  by (auto simp: chain_with_bindings_def chain_registry_new_def bindings_ok_def)

lemma chain_record_active: "rt_active (chain_record s b r) = chain_active s b"
  by (simp add: chain_record_def)

interpretation chain: agent_registry "\<lambda>_. True" chain_resolve chain_endpoints
    chain_verify_endpoint_association chain_is_active
  by unfold_locales
    (auto simp: chain_resolve_def chain_registered_tentacle_def chain_read_ok chain_record_def Let_def
      chain_endpoints_def chain_is_active_def chain_verify_endpoint_association_def)

end
