(* ===== verification/Registry_Properties.thy ===== *)
theory Registry_Properties
  imports Registry_Invariant Registry_Chain
begin

section \<open>Properties of the registry views\<close>

text \<open>
  The text forms of chain addresses and agents, ownership and persistence of the local registry,
  and when the chain registry reports a Tentacle active.
\<close>

subsection \<open>Concrete values\<close>

definition lone_id :: tentacle_id where "lone_id = Ident ''tentacle_lone''"
definition lone_inbox :: xmtp_inbox_ref where "lone_inbox = XmtpInboxRef ''0a1b2c3d4e5f''"

definition lone_endpoint :: registry_endpoint where
  "lone_endpoint = \<lparr>re_tentacle_id = lone_id, re_xmtp_inbox = lone_inbox, re_active = True\<rparr>"

definition lone_tentacle :: registered_tentacle where
  "lone_tentacle = \<lparr>rt_id = lone_id, rt_display_name = ''lone'', rt_registry_ref = None,
     rt_endpoints = [lone_endpoint], rt_capability_refs = [], rt_trust_signals = [], rt_active = True,
     rt_metadata_version = 1\<rparr>"

definition empty_migrated :: local_registry where
  "empty_migrated = \<lparr>lr_tentacles = bm_empty,
     lr_migration = Some \<lparr>lm_source_schema_version = 1, lm_legacy_cthulhu_ids = []\<rparr>\<rparr>"

lemma lone_valid: "validate_registered_tentacle lone_tentacle = Inr ()"
proof -
  have "utf8_chars ''lone'' = map byte ''lone''"
    by (rule utf8_chars_ascii) (simp add: is_ascii_def byte_def)
  then have "validate_label ''lone'' ''display name'' 128 = Inr ()"
    by (simp add: validate_label_def is_blank_def has_control_def is_whitespace_def is_control_def byte_def)
  then show ?thesis
    by (simp add: validate_registered_tentacle_def lone_tentacle_def lone_endpoint_def
        MAX_ENDPOINTS_def MAX_CAPABILITY_REFS_def MAX_SIGNALS_def ensure_def run_checks.simps(1))
qed

lemma empty_migrated_load: "load_registry (Wire_V1 bm_empty) = Inr empty_migrated"
  by (simp add: load_registry_def migrate_v1_def Let_def validate_loaded_registry_ok registry_inv_def
      migration_ok_def empty_migrated_def)

lemma lone_registered:
  "register_or_update lone_tentacle (r\<lparr>lr_tentacles := bm_empty\<rparr>)
     = Inr (r\<lparr>lr_tentacles := bm_insert lone_id lone_tentacle bm_empty\<rparr>)"
  unfolding register_ok using lone_valid by (simp add: MAX_AGENTS_def) (simp add: lone_tentacle_def)

subsection \<open>Text forms\<close>

text \<open>
  the text form of an agent identifier is exact.  A string is accepted iff it is the decimal
  numeral of a number below \<open>2 ^ 256\<close>, so the length test and the textual comparison with the
  largest number decide the numeric bound, and no number has two accepted spellings.
\<close>

theorem agent_id_exact:
  "((\<exists>a. Erc8004AgentId_new s = Inr a) \<longleftrightarrow> (\<exists>!n. n < 2 ^ 256 \<and> s = decimal n))
   \<and> (Erc8004AgentId_new s = Inr a \<longrightarrow> agent_str a = s)"
  unfolding agent_id_new_iff by (auto, metis decimal_value)

theorem agent_id_exact_witness:
  "\<exists>a. Erc8004AgentId_new ''42'' = Inr a \<and> agent_str a = ''42''"
proof -
  have n: "decimal 42 = ''42''" by code_simp
  have "Erc8004AgentId_new ''42'' = Inr (Erc8004AgentId ''42'')"
    unfolding agent_id_new_iff by (intro conjI refl exI[of _ 42]) (simp_all add: n)
  with agent_id_exact[of "''42''"] show ?thesis by blast
qed

text \<open>
  Addresses survive their text form.  Exactly the strings of \<open>0x\<close> and forty hexadecimal digits
  are read, in either case; a read address has twenty bytes, and printing it and reading the
  result again gives the same address.
\<close>

theorem address_round_trip:
  "((\<exists>a. parse_address s = Inr a) \<longleftrightarrow> (\<exists>h. s = ''0x'' @ h \<and> length h = 40 \<and> list_all is_ascii_hexdigit h))
   \<and> (\<forall>a. parse_address s = Inr a \<longrightarrow> address_wf a \<and> parse_address (print_address a) = Inr a)"
  using parse_address_ok parse_address_wf parse_print_address by blast

theorem address_round_trip_witness:
  "\<exists>a. parse_address BASE_IDENTITY_REGISTRY_ADDRESS = Inr a \<and> address_wf a
     \<and> parse_address (print_address a) = Inr a"
  using address_round_trip[of BASE_IDENTITY_REGISTRY_ADDRESS] parse_base_identity by blast

subsection \<open>The local registry\<close>

text \<open>
  C24: ownership and freshness in the local registry.  After any registrations on a registry that was
  loaded, an inbox verifies for at most one Tentacle; every record that was present is still
  there, valid and under its own identity, and it is unchanged or has a greater version.
\<close>

theorem registry_ownership:
  assumes "load_registry w = Inr start" "r = register_run agents start"
  shows "(\<forall>i j inbox. local_verify_endpoint_association r i i inbox = Inr True \<longrightarrow>
            local_verify_endpoint_association r j j inbox = Inr True \<longrightarrow> i = j)
         \<and> (\<forall>i t. local_resolve start i = Inr t \<longrightarrow>
            (\<exists>t'. local_resolve r i = Inr t' \<and> rt_id t' = i \<and> validate_registered_tentacle t' = Inr ()
                  \<and> (t' = t \<or> rt_metadata_version t < rt_metadata_version t')))"
proof -
  have start: "registry_inv start"
    using load_registry_valid[OF assms(1)] unfolding validate_loaded_registry_ok by blast
  then have inv: "registry_inv r" unfolding assms(2) by (rule register_run_inv)
  have owner: "\<exists>t. bm_get (lr_tentacles r) i = Some t \<and> inbox \<in> inboxes_of t"
    if "local_verify_endpoint_association r i i inbox = Inr True" for i inbox
    using that unfolding local.verified_exact[OF inv]
    by (auto simp: local_endpoints_def local_resolve_def inboxes_of_def)
  have "i = j" if "local_verify_endpoint_association r i i inbox = Inr True"
    "local_verify_endpoint_association r j j inbox = Inr True" for i j inbox
    using owner[OF that(1)] owner[OF that(2)] inv unfolding registry_inv_def by blast
  moreover have "\<exists>t'. local_resolve r i = Inr t' \<and> newer t t'" if "local_resolve start i = Inr t" for i t
    using register_run_newer[of start i t agents] that by (auto simp: local_resolve_def assms(2))
  ultimately show ?thesis
    using local.resolve_id[OF inv] local.resolve_valid[OF inv] unfolding newer_def by metis
qed

lemma lone_run:
  "register_run [lone_tentacle] empty_migrated
     = empty_migrated\<lparr>lr_tentacles := bm_insert lone_id lone_tentacle bm_empty\<rparr>"
proof -
  have "register_or_update lone_tentacle empty_migrated
      = Inr (empty_migrated\<lparr>lr_tentacles := bm_insert lone_id lone_tentacle bm_empty\<rparr>)"
    using lone_registered[of empty_migrated] by (simp add: empty_migrated_def)
  then show ?thesis by (simp add: register_step_def)
qed

theorem registry_ownership_witness:
  "{j. local_verify_endpoint_association (register_run [lone_tentacle] empty_migrated) j j lone_inbox = Inr True}
     = {lone_id}"
proof -
  have "local_verify_endpoint_association (register_run [lone_tentacle] empty_migrated) lone_id lone_id lone_inbox
      = Inr True"
    unfolding lone_run
    by (simp add: local_verify_endpoint_association_def local_resolve_def association_of_def
        lone_tentacle_def lone_endpoint_def)
  with registry_ownership[OF empty_migrated_load refl, of "[lone_tentacle]"] show ?thesis by blast
qed

text \<open>
  C25: what the local registry persists can be loaded, with one exception.  After any registrations
  on a registry that was loaded, saving and loading gives the registry back exactly, unless it
  began as the migration of a legacy registry without agents and now holds a Tentacle: then the
  saved registry is refused.
\<close>

theorem registry_reload:
  assumes "load_registry w = Inr start" "r = register_run agents start"
  shows "load_registry (save_registry r) = Inr r
     \<longleftrightarrow> \<not> ((\<exists>m. lr_migration start = Some m \<and> lm_legacy_cthulhu_ids m = []) \<and> lr_tentacles r \<noteq> bm_empty)"
proof -
  have start: "registry_inv start" "migration_ok start"
    using load_registry_valid[OF assms(1)] unfolding validate_loaded_registry_ok by blast+
  then have "registry_inv r" unfolding assms(2) by (intro register_run_inv)
  moreover have "migration_ok r \<longleftrightarrow>
      \<not> ((\<exists>m. lr_migration start = Some m \<and> lm_legacy_cthulhu_ids m = []) \<and> lr_tentacles r \<noteq> bm_empty)"
    using start(2) by (auto simp: migration_ok_def assms(2) register_run_migration split: option.splits)
  ultimately show ?thesis unfolding load_saved validate_loaded_registry_ok by blast
qed

theorem registry_reload_witness:
  "load_registry (save_registry (register_run [] empty_migrated)) = Inr (register_run [] empty_migrated)
   \<and> load_registry (save_registry (register_run [lone_tentacle] empty_migrated))
       \<noteq> Inr (register_run [lone_tentacle] empty_migrated)"
proof
  show "load_registry (save_registry (register_run [] empty_migrated)) = Inr (register_run [] empty_migrated)"
    unfolding registry_reload[OF empty_migrated_load refl] by (simp add: empty_migrated_def)
  have "lr_tentacles (register_run [lone_tentacle] empty_migrated) \<noteq> bm_empty"
    unfolding lone_run by (simp flip: bm_len_zero)
  then show "load_registry (save_registry (register_run [lone_tentacle] empty_migrated))
       \<noteq> Inr (register_run [lone_tentacle] empty_migrated)"
    unfolding registry_reload[OF empty_migrated_load refl] by (simp add: empty_migrated_def)
qed

text \<open>The refusal of the exception, on its smallest instance.\<close>

theorem empty_migration_unloadable:
  "\<exists>r. register_or_update lone_tentacle empty_migrated = Inr r
     \<and> load_registry (save_registry r) = Inl (RE_Invalid ''legacy registry migration provenance is invalid'')"
proof -
  let ?r = "empty_migrated\<lparr>lr_tentacles := bm_insert lone_id lone_tentacle bm_empty\<rparr>"
  have "register_or_update lone_tentacle empty_migrated = Inr ?r"
    using lone_registered[of empty_migrated] by (simp add: empty_migrated_def)
  moreover have "bm_insert lone_id lone_tentacle bm_empty \<noteq> bm_empty" by (simp flip: bm_len_zero)
  then have "load_registry (save_registry ?r) = Inl (RE_Invalid ''legacy registry migration provenance is invalid'')"
    by (simp add: load_registry_def save_registry_def Let_def validate_loaded_registry_def
        validate_migration_def empty_migrated_def MAX_AGENTS_def ensure_def)
  ultimately show ?thesis by blast
qed

subsection \<open>The chain registry\<close>

definition identity_address :: evm_address where
  "identity_address = EvmAddress [0x80, 0x04, 0xA1, 0x69, 0xFB, 0x4a, 0x33, 0x25, 0x13, 0x6E, 0xB2, 0x9f,
     0xA0, 0xce, 0xB6, 0xD2, 0xe5, 0x39, 0xa4, 0x32]"
definition reputation_address :: evm_address where
  "reputation_address = EvmAddress [0x80, 0x04, 0xBA, 0xa1, 0x7C, 0x55, 0xa8, 0x81, 0x89, 0xAE, 0x13, 0x6b,
     0x18, 0x2e, 0x5f, 0xdA, 0x19, 0xdE, 0x9b, 0x63]"
definition identity_code_address :: evm_address where
  "identity_code_address = EvmAddress [0x72, 0x74, 0xe8, 0x74, 0xCA, 0x62, 0x41, 0x0a, 0x93, 0xBd, 0x8b, 0xf6,
     0x1c, 0x69, 0xd8, 0x04, 0x5E, 0x39, 0x9c, 0x02]"
definition reputation_code_address :: evm_address where
  "reputation_code_address = EvmAddress [0x16, 0xe0, 0xFA, 0x7f, 0x7C, 0x56, 0xB9, 0xa7, 0x67, 0xE3, 0x4B, 0x19,
     0x2B, 0x51, 0xf9, 0x21, 0xBE, 0x31, 0xdA, 0x34]"

lemma base_addresses:
  "parse_address BASE_IDENTITY_REGISTRY_ADDRESS = Inr identity_address"
  "parse_address BASE_REPUTATION_REGISTRY_ADDRESS = Inr reputation_address"
  "parse_address BASE_IDENTITY_IMPLEMENTATION_ADDRESS = Inr identity_code_address"
  "parse_address BASE_REPUTATION_IMPLEMENTATION_ADDRESS = Inr reputation_code_address"
  by (code_simp)+

definition full_support :: erc8004_interface_support where
  "full_support = \<lparr>is_owner_of = True, is_agent_uri = True, is_get_agent_wallet = True,
     is_get_metadata = True, is_get_version = True, is_is_authorized_or_owner = True, is_register = True,
     is_set_agent_uri = True, is_set_metadata = True, is_set_agent_wallet = True,
     is_unset_agent_wallet = True, is_registered_event = True, is_uri_updated_event = True,
     is_metadata_set_event = True, is_transfer_event = True\<rparr>"

definition base_deployment :: erc8004_deployment_observation where
  "base_deployment = \<lparr>do_chain_id = 8453, do_identity_registry = identity_address,
     do_reputation_registry = reputation_address,
     do_identity_proxy_implementation = Some identity_code_address,
     do_reputation_proxy_implementation = Some reputation_code_address,
     do_identity_proxy_code_bytes = 1, do_reputation_proxy_code_bytes = 1,
     do_identity_implementation_code_bytes = 1, do_reputation_implementation_code_bytes = 1,
     do_interface_revision = RegistrationV1, do_identity_contract_version = ''2.0.0'',
     do_reputation_contract_version = ''2.0.0'', do_interface_support = full_support,
     do_reputation_identity_registry = identity_address\<rparr>"

definition lone_wallet :: evm_address where "lone_wallet = EvmAddress (replicate 20 7)"

definition lone_binding :: erc8004_binding where
  "lone_binding = \<lparr>eb_tentacle_id = lone_id, eb_agent_id = Erc8004AgentId ''42'', eb_tentacle_wallet = lone_wallet\<rparr>"

definition lone_snapshot :: erc8004_agent_snapshot where
  "lone_snapshot = \<lparr>as_agent_id = Erc8004AgentId ''42'', as_tentacle_id = lone_id,
     as_owner = EvmAddress (replicate 20 9), as_agent_uri = [], as_agent_wallet = lone_wallet,
     as_wallet_is_authorized = False, as_allegiance = CTHUWU_ALLEGIANCE_VALUE, as_protocol = [],
     as_metadata_tentacle_id = None, as_display_name = ''lone'', as_endpoints = [lone_endpoint],
     as_capability_refs = [], as_trust_signals = [], as_observed_block = 1\<rparr>"

definition lone_backend :: erc8004_backend where
  "lone_backend = \<lparr>be_deployment = Inr base_deployment, be_read_agent = (\<lambda>_ _. Inr lone_snapshot)\<rparr>"

lemma replicated_nonzero: "w \<noteq> 0 \<Longrightarrow> \<not> address_is_zero (EvmAddress (replicate 20 w))"
  by (simp add: address_is_zero_def ADDRESS_ZERO_def)

lemma base_deployment_ok: "verify_canonical_deployment base_deployment = Inr ()"
  by (simp add: verify_canonical_deployment_def base_addresses base_deployment_def BASE_MAINNET_CHAIN_ID_def
      ERC8004_IDENTITY_CONTRACT_VERSION_def ERC8004_REPUTATION_CONTRACT_VERSION_def
      support_is_complete_def full_support_def ensure_def run_checks.simps(1))

lemma agent_42: "Erc8004AgentId_new ''42'' = Inr (Erc8004AgentId ''42'')"
  by code_simp

lemma lone_bindings:
  "chain_with_bindings lone_backend [lone_binding] = Inr (bm_insert lone_id lone_binding bm_empty)"
proof -
  have "chain_bind lone_binding bm_empty = Inr (bm_insert lone_id lone_binding bm_empty)"
    unfolding bind_ok
    by (simp add: lone_binding_def lone_wallet_def replicated_nonzero)
  then show ?thesis
    by (simp add: chain_with_bindings_def chain_registry_new_def lone_backend_def base_deployment_ok)
qed

lemma lone_snapshot_ok: "validate_agent_snapshot lone_snapshot = Inr ()"
proof -
  have "snapshot_record lone_snapshot = lone_tentacle\<lparr>rt_active := False\<rparr>"
    by (simp add: snapshot_record_def lone_snapshot_def lone_tentacle_def)
  moreover have "validate_registered_tentacle (lone_tentacle\<lparr>rt_active := False\<rparr>) = Inr ()"
    using lone_valid by (simp add: validate_registered_tentacle_def)
  ultimately show ?thesis
    by (simp add: validate_agent_snapshot_def)
       (simp add: lone_snapshot_def replicated_nonzero MAX_AGENT_URI_LENGTH_def
         has_control_def CTHUWU_ALLEGIANCE_VALUE_def)
qed

text \<open>
  The deployment the adapter trusts is pinned.  An observation is accepted iff it reports
  chain 8453, deployed code behind both proxies, the complete pinned interface in version 2.0.0,
  and the four canonical addresses, with the reputation registry bound to the identity registry.
\<close>

theorem deployment_pinned:
  "verify_canonical_deployment d = Inr () \<longleftrightarrow>
     do_chain_id d = 8453
     \<and> do_identity_registry d = identity_address \<and> do_reputation_registry d = reputation_address
     \<and> do_reputation_identity_registry d = identity_address
     \<and> do_identity_proxy_implementation d = Some identity_code_address
     \<and> do_reputation_proxy_implementation d = Some reputation_code_address
     \<and> 0 < do_identity_proxy_code_bytes d \<and> 0 < do_reputation_proxy_code_bytes d
     \<and> 0 < do_identity_implementation_code_bytes d \<and> 0 < do_reputation_implementation_code_bytes d
     \<and> do_interface_revision d = RegistrationV1 \<and> do_interface_support d = full_support
     \<and> do_identity_contract_version d = ''2.0.0'' \<and> do_reputation_contract_version d = ''2.0.0''"
proof -
  have "support_is_complete s \<longleftrightarrow> s = full_support" for s
    by (cases s) (auto simp: support_is_complete_def full_support_def)
  then show ?thesis
    by (auto simp: verify_canonical_deployment_def base_addresses BASE_MAINNET_CHAIN_ID_def
        ERC8004_IDENTITY_CONTRACT_VERSION_def ERC8004_REPUTATION_CONTRACT_VERSION_def)
qed

text \<open>
  C26: when the chain registry reports a Tentacle active.  With bindings its constructor accepted,
  it does so iff the backend's deployment is the canonical one and the snapshot read for the
  bound agent and wallet is valid, is of that agent and Tentacle, declares the exact allegiance
  and has the bound wallet as its verified wallet; a snapshot that was read never fails later.
\<close>

theorem chain_active_exact:
  assumes "chain_with_bindings be0 bs = Inr bindings"
    and "\<forall>b\<in>set bs. \<exists>s. Erc8004AgentId_new s = Inr (eb_agent_id b)"
  shows "chain_is_active (be, bindings) i = Inr True \<longleftrightarrow>
     (\<exists>d b s. bm_get bindings i = Some b \<and> be_deployment be = Inr d
        \<and> verify_canonical_deployment d = Inr ()
        \<and> be_read_agent be (eb_agent_id b) (eb_tentacle_wallet b) = Inr s
        \<and> validate_agent_snapshot s = Inr () \<and> as_agent_id s = eb_agent_id b \<and> as_tentacle_id s = i
        \<and> as_allegiance s = CTHUWU_ALLEGIANCE_VALUE \<and> as_agent_wallet s = eb_tentacle_wallet b)"
    (is "_ \<longleftrightarrow> ?active")
proof -
  have ok: "bindings_ok bindings" using assms by (rule with_bindings_ok)
  have inv: "bindings_inv bindings" using assms(1) by (rule with_bindings_inv)
  have active: "chain_active s b \<longleftrightarrow>
      as_allegiance s = CTHUWU_ALLEGIANCE_VALUE \<and> as_agent_wallet s = eb_tentacle_wallet b"
    if "bm_get bindings i = Some b" for s b
    using inv that by (auto simp: bindings_inv_def chain_active_def declares_tentacle_allegiance_def agent_wallet_status_def)
  have read: "chain_is_active (be, bindings) i = Inr True \<longleftrightarrow>
      (\<exists>s b. chain_read_agent be bindings i = Inr s \<and> bm_get bindings i = Some b \<and> chain_active s b)"
  proof (cases "chain_read_agent be bindings i")
    case (Inl e)
    then show ?thesis using chain_resolve_read[of be bindings i] by (auto simp: chain_is_active_def)
  next
    case (Inr s)
    obtain b r where "bm_get bindings i = Some b" "chain_resolve (be, bindings) i = Inr (chain_record s b r)"
      using ok Inr by (rule chain_resolve_total)
    with Inr show ?thesis by (simp add: chain_is_active_def chain_record_active)
  qed
  show ?thesis
  proof
    assume "chain_is_active (be, bindings) i = Inr True"
    then obtain s b where "chain_read_agent be bindings i = Inr s" "bm_get bindings i = Some b" "chain_active s b"
      unfolding read by (elim exE conjE)
    then show ?active unfolding chain_read_ok using active by (elim exE conjE) (intro exI conjI, auto)
  next
    assume ?active
    then obtain d b s where
      "be_deployment be = Inr d" "verify_canonical_deployment d = Inr ()" "bm_get bindings i = Some b"
      "be_read_agent be (eb_agent_id b) (eb_tentacle_wallet b) = Inr s" "validate_agent_snapshot s = Inr ()"
      "as_agent_id s = eb_agent_id b" "as_tentacle_id s = i" "chain_active s b"
      using active by (elim exE conjE) simp
    moreover from this have "chain_read_agent be bindings i = Inr s"
      unfolding chain_read_ok by (intro exI conjI)
    ultimately show "chain_is_active (be, bindings) i = Inr True" unfolding read by (intro exI conjI)
  qed
qed

theorem chain_active_exact_witness:
  "chain_is_active (lone_backend, bm_insert lone_id lone_binding bm_empty) lone_id = Inr True
   \<and> chain_is_active (lone_backend\<lparr>be_deployment := Inr (base_deployment\<lparr>do_chain_id := 1\<rparr>)\<rparr>,
        bm_insert lone_id lone_binding bm_empty) lone_id \<noteq> Inr True"
proof -
  have ids: "\<forall>b\<in>set [lone_binding]. \<exists>s. Erc8004AgentId_new s = Inr (eb_agent_id b)"
    using agent_42 by (auto simp: lone_binding_def)
  note exact = chain_active_exact[OF lone_bindings ids]
  have "lone_backend\<lparr>be_deployment := Inr d\<rparr> = \<lparr>be_deployment = Inr d, be_read_agent = (\<lambda>_ _. Inr lone_snapshot)\<rparr>" for d
    by (simp add: lone_backend_def)
  moreover have "verify_canonical_deployment (base_deployment\<lparr>do_chain_id := 1\<rparr>) \<noteq> Inr ()"
    by (simp add: verify_canonical_deployment_def base_addresses BASE_MAINNET_CHAIN_ID_def)
  ultimately show ?thesis
    unfolding exact
    by (simp add: lone_backend_def base_deployment_ok lone_snapshot_ok)
       (simp add: lone_snapshot_def lone_binding_def)
qed

end
