(* ===== verification/Bot_Base.thy ===== *)
theory Bot_Base
  imports Hex_Text
begin

section \<open>Shared vocabulary of the bot (cthuwu)\<close>

text \<open>
  The errors of the bot are messages; its checks are \<open>ensure!\<close> and \<open>bail!\<close>.  Signed timestamps are
  \<open>i64\<close> values.
\<close>

type_synonym 'a fallible = "(string, 'a) result"

definition i64_checked_add :: "int \<Rightarrow> int \<Rightarrow> int option" where
  "i64_checked_add a b = i64_checked (a + b)"

definition lower_hex_text :: "nat \<Rightarrow> string \<Rightarrow> bool" where
  "lower_hex_text n s \<longleftrightarrow> length s = n \<and> list_all is_lower_hex s"

lemma encode_hex_text: "length bs = n \<Longrightarrow> lower_hex_text (2 * n) (encode_hex bs)"
  by (simp add: lower_hex_text_def encode_hex_length encode_hex_lower)

lemma if_both_Inr: "(if c then Inr a else Inr b) = Inr x \<longleftrightarrow> x = (if c then a else b)"
  by auto

end
