(* ===== verification/Bot_Economics.thy ===== *)
theory Bot_Economics
  imports Bot_Base
begin

section \<open>Token economics (cthuwu: economics.rs)\<close>

text \<open>
  Normalised economic observations, the local policy that turns them into effects, emergency
  spending, transaction records and revenue shares.  Errors are the messages of \<open>ensure!\<close>.  The
  fields are \<open>u16\<close>, \<open>u32\<close> and \<open>u64\<close> values; sums and products are formed in the wider type of the
  source, and \<open>as u16\<close> is \<open>mod 65536\<close>.
\<close>

definition TOKEN_ECONOMICS_SCHEMA_VERSION :: nat where "TOKEN_ECONOMICS_SCHEMA_VERSION = 1"
definition NORMALIZED_ECONOMIC_MAX :: nat where "NORMALIZED_ECONOMIC_MAX = 10000"
definition BASE_CHAIN_ID :: nat where "BASE_CHAIN_ID = 8453"
definition DEFAULT_PROPAGATION_MINIMUM_STAKE_BPS :: nat where "DEFAULT_PROPAGATION_MINIMUM_STAKE_BPS = 100"

text \<open>The loop over named values, each to stay below the normal maximum.\<close>

fun within_normal :: "string \<Rightarrow> (string \<times> nat) list \<Rightarrow> unit fallible" where
  "within_normal what [] = Inr ()"
| "within_normal what ((name, value) # rest) =
     (if value \<le> NORMALIZED_ECONOMIC_MAX then within_normal what rest
      else Inl (what @ '' '' @ name @ '' exceeds 10000 basis points''))"

lemma within_normal_ok [check_simps]:
  "within_normal what vs = Inr () \<longleftrightarrow> (\<forall>v\<in>set vs. snd v \<le> NORMALIZED_ECONOMIC_MAX)"
  by (induction vs rule: within_normal.induct) auto

definition multiply_basis_points :: "nat \<Rightarrow> nat \<Rightarrow> nat" where
  "multiply_basis_points left right =
     ((left * right + NORMALIZED_ECONOMIC_MAX div 2) div NORMALIZED_ECONOMIC_MAX) mod 65536"

subsection \<open>Snapshots, policies and effects\<close>

record economic_snapshot =
  es_balance :: nat
  es_stake :: nat
  es_reward :: nat
  es_trustworthy :: bool

definition validate_snapshot :: "economic_snapshot \<Rightarrow> unit fallible" where
  "validate_snapshot s = within_normal ''normalized token''
     [(''balance'', es_balance s), (''stake'', es_stake s), (''reward'', es_reward s)]"

record economic_policy =
  ep_schema_version :: nat
  ep_wealth :: nat
  ep_influence :: nat
  ep_growth :: nat
  ep_engagement :: nat
  ep_starvation_relief :: nat
  ep_emergency_rate :: nat
  ep_max_emergency :: nat
  ep_propagation_stake :: nat

definition economic_policy_default :: economic_policy where
  "economic_policy_default =
     \<lparr>ep_schema_version = TOKEN_ECONOMICS_SCHEMA_VERSION, ep_wealth = NORMALIZED_ECONOMIC_MAX,
      ep_influence = NORMALIZED_ECONOMIC_MAX, ep_growth = NORMALIZED_ECONOMIC_MAX,
      ep_engagement = NORMALIZED_ECONOMIC_MAX, ep_starvation_relief = NORMALIZED_ECONOMIC_MAX,
      ep_emergency_rate = NORMALIZED_ECONOMIC_MAX, ep_max_emergency = NORMALIZED_ECONOMIC_MAX,
      ep_propagation_stake = DEFAULT_PROPAGATION_MINIMUM_STAKE_BPS\<rparr>"

definition validate_economic_policy :: "economic_policy \<Rightarrow> unit fallible" where
  "validate_economic_policy p = run_checks
     [ensure (ep_schema_version p = TOKEN_ECONOMICS_SCHEMA_VERSION)
        (''unsupported token-economic policy schema version '' @ decimal (ep_schema_version p)),
      within_normal ''token-economic''
        [(''wealth sensitivity'', ep_wealth p), (''influence sensitivity'', ep_influence p),
         (''growth sensitivity'', ep_growth p), (''engagement sensitivity'', ep_engagement p),
         (''starvation-relief sensitivity'', ep_starvation_relief p),
         (''emergency relief rate'', ep_emergency_rate p),
         (''maximum emergency expenditure'', ep_max_emergency p),
         (''propagation minimum stake'', ep_propagation_stake p)],
      ensure (ep_emergency_rate p > 0) ''emergency relief per expenditure must be positive'']"

fun appetite_checks :: "(string \<times> nat) list \<Rightarrow> unit fallible" where
  "appetite_checks [] = Inr ()"
| "appetite_checks ((name, value) # rest) =
     (if value \<le> 100 then appetite_checks rest else Inl (''Nature '' @ name @ '' appetite exceeds 100''))"

definition with_nature_appetites ::
  "economic_policy \<Rightarrow> nat \<Rightarrow> nat \<Rightarrow> nat \<Rightarrow> nat \<Rightarrow> economic_policy fallible" where
  "with_nature_appetites p engagement growth wealth influence =
     and_then (appetite_checks [(''engagement'', engagement), (''growth'', growth), (''wealth'', wealth),
                                (''influence'', influence)]) (\<lambda>_.
       let q = p\<lparr>ep_engagement := engagement * 100, ep_growth := growth * 100, ep_wealth := wealth * 100,
                 ep_influence := influence * 100, ep_starvation_relief := wealth * 100\<rparr>
       in and_then (validate_economic_policy q) (\<lambda>_. Inr q))"

record economic_effects =
  ef_wealth :: nat
  ef_influence :: nat
  ef_growth :: nat
  ef_engagement :: nat
  ef_starvation_relief :: nat
  ef_propagation_eligible :: bool

definition validate_effects :: "economic_effects \<Rightarrow> unit fallible" where
  "validate_effects f = within_normal ''token-economic''
     [(''wealth adjustment'', ef_wealth f), (''influence adjustment'', ef_influence f),
      (''growth adjustment'', ef_growth f), (''engagement adjustment'', ef_engagement f),
      (''starvation relief'', ef_starvation_relief f)]"

definition effects_of :: "economic_policy \<Rightarrow> economic_snapshot \<Rightarrow> economic_effects" where
  "effects_of p s =
     \<lparr>ef_wealth = multiply_basis_points (es_balance s) (ep_wealth p),
      ef_influence = multiply_basis_points (es_stake s) (ep_influence p),
      ef_growth = multiply_basis_points (es_reward s) (ep_growth p),
      ef_engagement = multiply_basis_points (es_balance s) (ep_engagement p),
      ef_starvation_relief = multiply_basis_points (es_balance s) (ep_starvation_relief p),
      ef_propagation_eligible = es_stake s \<ge> ep_propagation_stake p\<rparr>"

definition effects :: "economic_policy \<Rightarrow> economic_snapshot \<Rightarrow> economic_effects fallible" where
  "effects p s =
     and_then (run_checks
       [validate_economic_policy p, validate_snapshot s,
        ensure (es_trustworthy s) ''token-economic observation is unavailable or unverified''])
       (\<lambda>_. Inr (effects_of p s))"

subsection \<open>Provenance and recorded observations\<close>

datatype holder_role =
    HR_TentacleTreasury | HR_OperatorAcolyte | HR_ParentTentacle | HR_ChildTentacle | HR_CouncilMember

record economic_provenance =
  op_holder :: bytes
  op_role :: holder_role
  op_chain_id :: nat
  op_token_contract :: bytes
  op_observed_at :: nat
  op_block :: "nat option"
  op_configuration :: bytes

definition validate_provenance :: "economic_provenance \<Rightarrow> unit fallible" where
  "validate_provenance v = run_checks
     [ensure (op_holder v \<noteq> zero_bytes 20) ''economic holder address cannot be zero'',
      ensure (op_token_contract v \<noteq> zero_bytes 20) ''economic token contract cannot be zero'',
      ensure (op_chain_id v = BASE_CHAIN_ID) ''economic observation must be bound to Base chain id 8453'',
      ensure (op_observed_at v > 0) ''economic observation timestamp must be positive'',
      ensure (op_configuration v \<noteq> zero_bytes 32) ''economic configuration identity cannot be zero'']"

definition base_provenance ::
  "bytes \<Rightarrow> holder_role \<Rightarrow> bytes \<Rightarrow> nat \<Rightarrow> nat option \<Rightarrow> bytes \<Rightarrow> economic_provenance fallible" where
  "base_provenance holder role token_contract observed_at block configuration =
     (let v = \<lparr>op_holder = holder, op_role = role, op_chain_id = BASE_CHAIN_ID,
               op_token_contract = token_contract, op_observed_at = observed_at, op_block = block,
               op_configuration = configuration\<rparr>
      in and_then (validate_provenance v) (\<lambda>_. Inr v))"

record recorded_economics =
  re_snapshot :: economic_snapshot
  re_policy :: economic_policy
  re_effects :: economic_effects
  re_provenance :: "economic_provenance option"

definition RecordedTokenEconomics_new ::
  "economic_snapshot \<Rightarrow> economic_policy \<Rightarrow> recorded_economics fallible" where
  "RecordedTokenEconomics_new s p =
     and_then (effects p s) (\<lambda>f.
       Inr \<lparr>re_snapshot = s, re_policy = p, re_effects = f, re_provenance = None\<rparr>)"

definition new_with_provenance ::
  "economic_snapshot \<Rightarrow> economic_policy \<Rightarrow> economic_provenance \<Rightarrow> recorded_economics fallible" where
  "new_with_provenance s p v =
     and_then (validate_provenance v) (\<lambda>_.
     and_then (effects p s) (\<lambda>f.
       Inr \<lparr>re_snapshot = s, re_policy = p, re_effects = f, re_provenance = Some v\<rparr>))"

definition validate_recorded :: "recorded_economics \<Rightarrow> unit fallible" where
  "validate_recorded r =
     and_then (run_checks
       [validate_snapshot (re_snapshot r), validate_economic_policy (re_policy r), validate_effects (re_effects r),
        (case re_provenance r of None \<Rightarrow> Inr () | Some v \<Rightarrow> validate_provenance v)]) (\<lambda>_.
     and_then (effects (re_policy r) (re_snapshot r)) (\<lambda>f.
       ensure (re_effects r = f)
         ''recorded token-economic effects do not match their snapshot and policy''))"

subsection \<open>Emergency spending\<close>

record emergency_requirement =
  eq_threshold :: nat
  eq_shortfall :: nat
  eq_required :: nat
  eq_relief :: nat
  eq_fully_funded :: bool

definition div_ceil :: "nat \<Rightarrow> nat \<Rightarrow> nat" where
  "div_ceil a b = a div b + (if a mod b > 0 then 1 else 0)"

definition requirement_of :: "recorded_economics \<Rightarrow> nat \<Rightarrow> nat \<Rightarrow> emergency_requirement" where
  "requirement_of r current threshold =
     (let shortfall = threshold - current;
          rate = ep_emergency_rate (re_policy r);
          needed = min (div_ceil (shortfall * NORMALIZED_ECONOMIC_MAX) rate) NORMALIZED_ECONOMIC_MAX mod 65536;
          available = min (es_balance (re_snapshot r)) (ep_max_emergency (re_policy r));
          required = min needed available
      in \<lparr>eq_threshold = threshold, eq_shortfall = shortfall, eq_required = required,
          eq_relief = min (multiply_basis_points required rate) shortfall,
          eq_fully_funded = needed \<le> available\<rparr>)"

definition emergency_survival_requirement ::
  "recorded_economics \<Rightarrow> nat \<Rightarrow> nat \<Rightarrow> emergency_requirement option fallible" where
  "emergency_survival_requirement r current base =
     and_then (run_checks
       [validate_recorded r,
        ensure (current \<le> NORMALIZED_ECONOMIC_MAX) ''current survival score exceeds its bound'',
        ensure (base \<le> NORMALIZED_ECONOMIC_MAX) ''base survival threshold exceeds its bound'']) (\<lambda>_.
       let threshold = saturating_sub base (ef_starvation_relief (re_effects r)) in
       if current \<ge> threshold then Inr None else Inr (Some (requirement_of r current threshold)))"

subsection \<open>Transaction records\<close>

datatype economic_action = EA_EmergencySurvivalBurn | EA_PropagationStake | EA_ParentRevenueShare
  | EA_OperatorReward | EA_RecruitmentReward

datatype tx_progress =
    TX_IntentCreated
  | TX_Signed bytes
  | TX_Submitted bytes
  | TX_Confirmed bytes nat
  | TX_Reverted bytes nat

record transaction_record =
  tr_action_id :: bytes
  tr_kind :: economic_action
  tr_chain_id :: nat
  tr_token_contract :: bytes
  tr_from :: bytes
  tr_to :: bytes
  tr_amount_raw :: bytes
  tr_created_at :: nat
  tr_progress :: tx_progress

fun validate_progress :: "tx_progress \<Rightarrow> unit fallible" where
  "validate_progress TX_IntentCreated = Inr ()"
| "validate_progress (TX_Signed h) = ensure (h \<noteq> zero_bytes 32) ''transaction hash cannot be zero''"
| "validate_progress (TX_Submitted h) = ensure (h \<noteq> zero_bytes 32) ''transaction hash cannot be zero''"
| "validate_progress (TX_Confirmed h block) = run_checks
     [ensure (h \<noteq> zero_bytes 32) ''transaction hash cannot be zero'',
      ensure (block > 0) ''transaction block number must be positive'']"
| "validate_progress (TX_Reverted h block) = run_checks
     [ensure (h \<noteq> zero_bytes 32) ''transaction hash cannot be zero'',
      ensure (block > 0) ''transaction block number must be positive'']"

definition validate_transaction :: "transaction_record \<Rightarrow> unit fallible" where
  "validate_transaction t = run_checks
     [ensure (tr_action_id t \<noteq> zero_bytes 32) ''economic action id cannot be zero'',
      ensure (tr_chain_id t = BASE_CHAIN_ID) ''economic action must use Base'',
      ensure (tr_token_contract t \<noteq> zero_bytes 20) ''token contract cannot be zero'',
      ensure (tr_from t \<noteq> zero_bytes 20) ''transaction sender cannot be zero'',
      ensure (tr_to t \<noteq> zero_bytes 20) ''transaction recipient cannot be zero'',
      ensure (tr_amount_raw t \<noteq> zero_bytes 32) ''transaction amount must be positive'',
      ensure (tr_created_at t > 0) ''transaction creation timestamp must be positive'',
      validate_progress (tr_progress t)]"

definition transaction_intent ::
  "bytes \<Rightarrow> economic_action \<Rightarrow> bytes \<Rightarrow> bytes \<Rightarrow> bytes \<Rightarrow> bytes \<Rightarrow> nat \<Rightarrow> transaction_record fallible" where
  "transaction_intent action_id kind token_contract sender recipient amount created_at =
     (let t = \<lparr>tr_action_id = action_id, tr_kind = kind, tr_chain_id = BASE_CHAIN_ID,
               tr_token_contract = token_contract, tr_from = sender, tr_to = recipient,
               tr_amount_raw = amount, tr_created_at = created_at, tr_progress = TX_IntentCreated\<rparr>
      in and_then (validate_transaction t) (\<lambda>_. Inr t))"

definition transaction_confirmed :: "transaction_record \<Rightarrow> bool" where
  "transaction_confirmed t \<longleftrightarrow> (case tr_progress t of TX_Confirmed _ _ \<Rightarrow> True | _ \<Rightarrow> False)"

definition burn_intent ::
  "emergency_requirement \<Rightarrow> bytes \<Rightarrow> bytes \<Rightarrow> bytes \<Rightarrow> bytes \<Rightarrow> bytes \<Rightarrow> nat \<Rightarrow> transaction_record fallible" where
  "burn_intent q action_id token_contract treasury vault amount created_at =
     and_then (run_checks
       [ensure (eq_required q > 0) ''emergency survival does not require an expenditure'',
        ensure (eq_fully_funded q) ''emergency survival expenditure is not fully funded''])
       (\<lambda>_. transaction_intent action_id EA_EmergencySurvivalBurn token_contract treasury vault amount created_at)"

subsection \<open>Revenue shares\<close>

record mlm_policy =
  ml_parent :: nat
  ml_operator :: nat
  ml_recruitment :: nat

definition mlm_policy_default :: mlm_policy where
  "mlm_policy_default = \<lparr>ml_parent = 1500, ml_operator = 1000, ml_recruitment = 500\<rparr>"

definition validate_mlm_policy :: "mlm_policy \<Rightarrow> unit fallible" where
  "validate_mlm_policy p =
     ensure (ml_parent p + ml_operator p + ml_recruitment p \<le> NORMALIZED_ECONOMIC_MAX)
       ''MLM revenue shares exceed gross revenue''"

record mlm_distribution =
  md_gross :: nat
  md_parent :: nat
  md_operator :: nat
  md_recruitment :: nat
  md_child :: nat

definition validate_distribution :: "mlm_distribution \<Rightarrow> unit fallible" where
  "validate_distribution d =
     ensure (md_parent d + md_operator d + md_recruitment d + md_child d = md_gross d)
       ''MLM revenue distribution does not conserve gross revenue''"

definition revenue_share :: "nat \<Rightarrow> nat \<Rightarrow> nat" where
  "revenue_share gross bps =
     (let v = gross * bps div NORMALIZED_ECONOMIC_MAX in if v \<le> u64_max then v else u64_max)"

definition distribute :: "mlm_policy \<Rightarrow> nat \<Rightarrow> mlm_distribution fallible" where
  "distribute p gross =
     and_then (validate_mlm_policy p) (\<lambda>_.
       let parent = revenue_share gross (ml_parent p);
           operator = revenue_share gross (ml_operator p);
           recruitment = revenue_share gross (ml_recruitment p);
           d = \<lparr>md_gross = gross, md_parent = parent, md_operator = operator, md_recruitment = recruitment,
                md_child = saturating_sub (saturating_sub (saturating_sub gross parent) operator) recruitment\<rparr>
       in and_then (validate_distribution d) (\<lambda>_. Inr d))"

subsection \<open>Score adjustment\<close>

definition apply_score_adjustment :: "nat \<Rightarrow> nat \<Rightarrow> nat fallible" where
  "apply_score_adjustment base adjustment =
     and_then (run_checks
       [ensure (base \<le> NORMALIZED_ECONOMIC_MAX) ''base scale score exceeds its bound'',
        ensure (adjustment \<le> NORMALIZED_ECONOMIC_MAX) ''economic score adjustment exceeds its bound'']) (\<lambda>_.
       let room = NORMALIZED_ECONOMIC_MAX - base
       in Inr (saturating_add u16_max base (multiply_basis_points room adjustment)))"

end
