(* ===== verification/Economics_Properties.thy ===== *)
theory Economics_Properties
  imports Bot_Economics
begin

section \<open>Properties of token economics\<close>

text \<open>
  Bounds of the basis-point arithmetic, recorded observations, emergency spending, revenue shares
  and score adjustments.
\<close>

lemma basis_points_exact:
  assumes "a \<le> NORMALIZED_ECONOMIC_MAX" "b \<le> NORMALIZED_ECONOMIC_MAX"
  shows "multiply_basis_points a b = (a * b + 5000) div 10000" "multiply_basis_points a b \<le> a"
    "multiply_basis_points a b \<le> b"
proof -
  have ab: "a * b \<le> a * 10000" "a * b \<le> 10000 * b"
    using assms by (auto simp: NORMALIZED_ECONOMIC_MAX_def intro: mult_le_mono)
  then have le: "(a * b + 5000) div 10000 \<le> a" "(a * b + 5000) div 10000 \<le> b" by linarith+
  moreover from le(1) assms(1) have "(a * b + 5000) div 10000 < 65536" by (simp add: NORMALIZED_ECONOMIC_MAX_def)
  ultimately show "multiply_basis_points a b = (a * b + 5000) div 10000"
    "multiply_basis_points a b \<le> a" "multiply_basis_points a b \<le> b"
    by (simp_all add: multiply_basis_points_def NORMALIZED_ECONOMIC_MAX_def)
qed

lemma validate_snapshot_ok:
  "validate_snapshot s = Inr () \<longleftrightarrow>
     es_balance s \<le> NORMALIZED_ECONOMIC_MAX \<and> es_stake s \<le> NORMALIZED_ECONOMIC_MAX \<and> es_reward s \<le> NORMALIZED_ECONOMIC_MAX"
  by (simp add: validate_snapshot_def within_normal_ok)

lemma validate_economic_policy_ok:
  "validate_economic_policy p = Inr () \<longleftrightarrow>
     ep_schema_version p = TOKEN_ECONOMICS_SCHEMA_VERSION \<and> 0 < ep_emergency_rate p
     \<and> (\<forall>v\<in>{ep_wealth p, ep_influence p, ep_growth p, ep_engagement p, ep_starvation_relief p,
            ep_emergency_rate p, ep_max_emergency p, ep_propagation_stake p}. v \<le> NORMALIZED_ECONOMIC_MAX)"
  by (auto simp: validate_economic_policy_def within_normal_ok)

lemma validate_effects_ok:
  "validate_effects f = Inr () \<longleftrightarrow>
     (\<forall>v\<in>{ef_wealth f, ef_influence f, ef_growth f, ef_engagement f, ef_starvation_relief f}. v \<le> NORMALIZED_ECONOMIC_MAX)"
  by (auto simp: validate_effects_def within_normal_ok)

lemma effects_ok:
  "effects p s = Inr f \<longleftrightarrow>
     validate_economic_policy p = Inr () \<and> validate_snapshot s = Inr () \<and> es_trustworthy s \<and> f = effects_of p s"
  by (auto simp: effects_def)

lemma effects_of_valid:
  "validate_economic_policy p = Inr () \<Longrightarrow> validate_snapshot s = Inr () \<Longrightarrow> validate_effects (effects_of p s) = Inr ()"
  unfolding validate_effects_ok validate_economic_policy_ok validate_snapshot_ok effects_of_def
  using basis_points_exact(2) by (auto intro: order_trans)

lemma validate_recorded_ok:
  "validate_recorded r = Inr () \<longleftrightarrow>
     validate_economic_policy (re_policy r) = Inr () \<and> validate_snapshot (re_snapshot r) = Inr ()
     \<and> es_trustworthy (re_snapshot r) \<and> re_effects r = effects_of (re_policy r) (re_snapshot r)
     \<and> (\<forall>v. re_provenance r = Some v \<longrightarrow> validate_provenance v = Inr ())"
  using effects_of_valid by (auto simp: validate_recorded_def effects_ok split: option.splits)

lemma with_provenance_ok:
  "new_with_provenance s p v = Inr r \<longleftrightarrow>
     validate_provenance v = Inr () \<and> validate_economic_policy p = Inr () \<and> validate_snapshot s = Inr ()
     \<and> es_trustworthy s
     \<and> r = \<lparr>re_snapshot = s, re_policy = p, re_effects = effects_of p s, re_provenance = Some v\<rparr>"
  by (auto simp: new_with_provenance_def effects_ok)

subsection \<open>Score adjustment\<close>

lemma adjusted_score:
  assumes "base \<le> NORMALIZED_ECONOMIC_MAX" "a \<le> NORMALIZED_ECONOMIC_MAX"
  shows "apply_score_adjustment base a = Inr (base + ((10000 - base) * a + 5000) div 10000)"
    "base + ((10000 - base) * a + 5000) div 10000 \<le> 10000"
proof -
  have room: "10000 - base \<le> NORMALIZED_ECONOMIC_MAX" by (simp add: NORMALIZED_ECONOMIC_MAX_def)
  note bp = basis_points_exact[OF room assms(2)]
  show le: "base + ((10000 - base) * a + 5000) div 10000 \<le> 10000"
    using bp(1,2) assms(1) unfolding NORMALIZED_ECONOMIC_MAX_def by linarith
  then show "apply_score_adjustment base a = Inr (base + ((10000 - base) * a + 5000) div 10000)"
    using bp(1) assms
    by (simp add: apply_score_adjustment_def Let_def saturating_add_def u16_max_def NORMALIZED_ECONOMIC_MAX_def)
qed

lemma apply_score_adjustment_Inr:
  "apply_score_adjustment base a = Inr s \<Longrightarrow> base \<le> 10000 \<and> a \<le> 10000 \<and> s \<le> 10000"
  using adjusted_score[of base a]
  by (auto simp: apply_score_adjustment_def NORMALIZED_ECONOMIC_MAX_def)

lemma adjusted_mono:
  fixes b b' a a' :: nat
  assumes "b \<le> b'" "b' \<le> 10000" "a \<le> a'" "a' \<le> 10000"
  shows "b + ((10000 - b) * a + 5000) div 10000 \<le> b' + ((10000 - b') * a' + 5000) div 10000"
proof -
  define d where "d = b' - b"
  have split: "10000 - b = (10000 - b') + d" using assms by (simp add: d_def)
  have "(10000 - b') * a \<le> (10000 - b') * a'" using assms(3) by (rule mult_le_mono2)
  moreover have "d * a \<le> d * 10000" using assms by (intro mult_le_mono2) simp
  ultimately have "(10000 - b') * a + d * a \<le> (10000 - b') * a' + d * 10000" by (rule add_le_mono)
  then have "(10000 - b) * a + 5000 \<le> ((10000 - b') * a' + 5000) + d * 10000"
    unfolding split add_mult_distrib by linarith
  then have "((10000 - b) * a + 5000) div 10000 \<le> (((10000 - b') * a' + 5000) + d * 10000) div 10000"
    by (rule div_le_mono)
  also have "\<dots> = ((10000 - b') * a' + 5000) div 10000 + d" by simp
  finally show ?thesis using assms(1) by (simp add: d_def)
qed

text \<open>
  Score adjustment is total, bounded and monotone on valid scores.  It returns a score that is
  at least the base and at most full credit, keeps the base at no adjustment, gives full credit at
  the largest one, and never gives less for a greater base or a greater adjustment.
\<close>

theorem score_adjustment_monotone:
  assumes "base \<le> base'" "base' \<le> 10000" "a \<le> a'" "a' \<le> 10000"
  shows "\<exists>s s'. apply_score_adjustment base a = Inr s \<and> apply_score_adjustment base' a' = Inr s'
     \<and> base \<le> s \<and> s \<le> s' \<and> s' \<le> 10000
     \<and> apply_score_adjustment base 0 = Inr base \<and> apply_score_adjustment base 10000 = Inr 10000"
proof -
  have b: "base \<le> NORMALIZED_ECONOMIC_MAX" "base' \<le> NORMALIZED_ECONOMIC_MAX"
    "a \<le> NORMALIZED_ECONOMIC_MAX" "a' \<le> NORMALIZED_ECONOMIC_MAX"
    "(0::nat) \<le> NORMALIZED_ECONOMIC_MAX" "10000 \<le> NORMALIZED_ECONOMIC_MAX"
    using assms by (simp_all add: NORMALIZED_ECONOMIC_MAX_def)
  have "((10000 - base) * 10000 + 5000) div 10000 = 10000 - base" by (simp add: div_add1_eq)
  then show ?thesis
    using adjusted_score[OF b(1,3)] adjusted_score[OF b(2,4)] adjusted_score[OF b(1,5)] adjusted_score[OF b(1,6)]
      adjusted_mono[OF assms] assms by auto
qed

theorem score_adjustment_monotone_witness:
  "\<exists>s s'. apply_score_adjustment 4000 2500 = Inr s \<and> apply_score_adjustment 6000 5000 = Inr s' \<and> 4000 \<le> s \<and> s \<le> s'"
  using score_adjustment_monotone[of 4000 6000 2500 5000] by auto

subsection \<open>Recorded observations\<close>

text \<open>
  what is recorded is well formed.  With provenance, a recorded observation exists iff the
  provenance, the policy and the snapshot are valid and the snapshot is trustworthy; it then
  validates, and each of its effects is at most the balance, stake or reward it comes from.  The
  policy of any Nature's appetites is valid whenever the policy it starts from is.
\<close>

theorem recorded_well_formed:
  "((\<exists>r. new_with_provenance s p v = Inr r) \<longleftrightarrow>
      validate_provenance v = Inr () \<and> validate_economic_policy p = Inr () \<and> validate_snapshot s = Inr ()
      \<and> es_trustworthy s)
   \<and> (\<forall>r. new_with_provenance s p v = Inr r \<longrightarrow>
        validate_recorded r = Inr () \<and> ef_wealth (re_effects r) \<le> es_balance s
        \<and> ef_engagement (re_effects r) \<le> es_balance s \<and> ef_starvation_relief (re_effects r) \<le> es_balance s
        \<and> ef_influence (re_effects r) \<le> es_stake s \<and> ef_growth (re_effects r) \<le> es_reward s)
   \<and> (\<forall>e g w i q. validate_economic_policy p = Inr () \<longrightarrow>
        (with_nature_appetites p e g w i = Inr q \<longrightarrow> validate_economic_policy q = Inr ())
        \<and> ((\<exists>q. with_nature_appetites p e g w i = Inr q) \<longleftrightarrow> e \<le> 100 \<and> g \<le> 100 \<and> w \<le> 100 \<and> i \<le> 100))"
proof (intro conjI allI impI)
  fix r assume "new_with_provenance s p v = Inr r"
  then have ok: "validate_provenance v = Inr ()" "validate_economic_policy p = Inr ()" "validate_snapshot s = Inr ()"
    "es_trustworthy s" and r: "r = \<lparr>re_snapshot = s, re_policy = p, re_effects = effects_of p s, re_provenance = Some v\<rparr>"
    by (simp_all add: with_provenance_ok)
  show "validate_recorded r = Inr ()" using ok by (simp add: validate_recorded_ok r)
  show "ef_wealth (re_effects r) \<le> es_balance s" "ef_engagement (re_effects r) \<le> es_balance s"
    "ef_starvation_relief (re_effects r) \<le> es_balance s" "ef_influence (re_effects r) \<le> es_stake s"
    "ef_growth (re_effects r) \<le> es_reward s"
    using ok(2,3) basis_points_exact(2)
    by (simp_all add: r effects_of_def validate_economic_policy_ok validate_snapshot_ok)
next
  fix e g w i assume "validate_economic_policy p = Inr ()"
  then show "(\<exists>q. with_nature_appetites p e g w i = Inr q) \<longleftrightarrow> e \<le> 100 \<and> g \<le> 100 \<and> w \<le> 100 \<and> i \<le> 100"
    by (auto simp: with_nature_appetites_def Let_def validate_economic_policy_ok NORMALIZED_ECONOMIC_MAX_def)
qed (auto simp: with_provenance_ok with_nature_appetites_def Let_def)

definition sample_snapshot :: economic_snapshot where
  "sample_snapshot = \<lparr>es_balance = 5000, es_stake = 200, es_reward = 0, es_trustworthy = True\<rparr>"

definition sample_provenance :: economic_provenance where
  "sample_provenance = \<lparr>op_holder = replicate 20 1, op_role = HR_TentacleTreasury, op_chain_id = 8453,
     op_token_contract = replicate 20 2, op_observed_at = 1, op_block = None, op_configuration = replicate 32 3\<rparr>"

lemma sample_provenance_ok: "validate_provenance sample_provenance = Inr ()"
  by (simp add: validate_provenance_def sample_provenance_def zero_bytes_def BASE_CHAIN_ID_def ensure_def
      run_checks.simps(1))

lemma sample_observation_valid:
  "validate_economic_policy economic_policy_default = Inr ()" "validate_snapshot sample_snapshot = Inr ()"
  "es_trustworthy sample_snapshot"
  by (simp_all add: validate_economic_policy_ok validate_snapshot_ok economic_policy_default_def sample_snapshot_def
      NORMALIZED_ECONOMIC_MAX_def DEFAULT_PROPAGATION_MINIMUM_STAKE_BPS_def)

theorem recorded_well_formed_witness:
  "\<exists>r. new_with_provenance sample_snapshot economic_policy_default sample_provenance = Inr r
     \<and> validate_recorded r = Inr () \<and> ef_wealth (re_effects r) \<le> 5000"
proof -
  note sound = recorded_well_formed[of sample_snapshot economic_policy_default sample_provenance]
  have "\<exists>r. new_with_provenance sample_snapshot economic_policy_default sample_provenance = Inr r"
    using sound sample_provenance_ok sample_observation_valid by blast
  then show ?thesis using sound by (fastforce simp: sample_snapshot_def)
qed

subsection \<open>Emergency spending\<close>

lemma ceiling_covers:
  assumes "0 < (rate :: nat)"
  shows "needed \<ge> div_ceil (s * 10000) rate \<longleftrightarrow> needed * rate \<ge> s * 10000"
proof -
  have "div_ceil a rate \<le> n \<longleftrightarrow> a \<le> n * rate" for a n
  proof
    assume le: "div_ceil a rate \<le> n"
    have "a = a div rate * rate + a mod rate" by simp
    also have "\<dots> \<le> a div rate * rate + (if a mod rate > 0 then 1 else 0) * rate"
      using mod_less_divisor[OF assms, of a] by (intro add_left_mono) auto
    also have "\<dots> = div_ceil a rate * rate" by (simp add: div_ceil_def add_mult_distrib)
    also have "\<dots> \<le> n * rate" using le by (rule mult_le_mono1)
    finally show "a \<le> n * rate" .
  next
    assume le: "a \<le> n * rate"
    show "div_ceil a rate \<le> n"
    proof (cases "a mod rate = 0")
      case True
      then show ?thesis using div_le_mono[OF le, of rate] assms by (simp add: div_ceil_def)
    next
      case False
      with le have "a div rate * rate < n * rate" by (metis div_mult_mod_eq le_neq_implies_less less_add_same_cancel1
            less_le_trans not_gr_zero)
      then show ?thesis by (simp add: div_ceil_def)
    qed
  qed
  then show ?thesis .
qed

lemma requirement_relief:
  assumes "validate_economic_policy (re_policy r) = Inr ()" "0 < s" "s \<le> 10000"
    and "q = requirement_of r current (current + s)" "eq_fully_funded q"
  shows "eq_relief q = min s (ep_emergency_rate (re_policy r))"
proof -
  define rate where "rate = ep_emergency_rate (re_policy r)"
  have rate: "0 < rate" "rate \<le> 10000"
    using assms(1) by (simp_all add: validate_economic_policy_ok rate_def NORMALIZED_ECONOMIC_MAX_def)
  define needed where "needed = min (div_ceil (s * 10000) rate) 10000"
  have funded: "eq_relief q = min (multiply_basis_points needed rate) s"
    using assms(4,5) by (auto simp: requirement_of_def Let_def rate_def[symmetric] needed_def NORMALIZED_ECONOMIC_MAX_def)
  have bp: "multiply_basis_points needed rate = (needed * rate + 5000) div 10000"
    using rate by (intro basis_points_exact) (simp_all add: needed_def NORMALIZED_ECONOMIC_MAX_def)
  show ?thesis
  proof (cases "s \<le> rate")
    case True
    then have "div_ceil (s * 10000) rate \<le> 10000" using rate by (subst ceiling_covers) simp_all
    then have "s * 10000 \<le> needed * rate" using ceiling_covers[OF rate(1), of s needed] by (simp add: needed_def)
    then have "s \<le> (needed * rate + 5000) div 10000" by linarith
    with True funded bp show ?thesis by (simp add: rate_def)
  next
    case False
    then have "\<not> div_ceil (s * 10000) rate \<le> 10000" using rate by (subst ceiling_covers) simp_all
    then have "needed = 10000" by (simp add: needed_def)
    with False funded bp show ?thesis by (simp add: rate_def)
  qed
qed

text \<open>
  what an emergency requirement promises.  There is none iff the score reaches the threshold
  lowered by the starvation relief; otherwise the shortfall is the exact difference, the
  expenditure is available, and the expected relief is at most the shortfall.  A requirement called
  fully funded relieves the smaller of the shortfall and the relief rate: it covers the shortfall
  only when the rate is at least as large.
\<close>

theorem emergency_relief:
  assumes "validate_recorded r = Inr ()" "current \<le> 10000" "base \<le> 10000"
  shows "\<exists>out. emergency_survival_requirement r current base = Inr out
     \<and> (case out of
          None \<Rightarrow> base - ef_starvation_relief (re_effects r) \<le> current
        | Some q \<Rightarrow>
            eq_threshold q = base - ef_starvation_relief (re_effects r)
            \<and> current + eq_shortfall q = eq_threshold q \<and> 0 < eq_shortfall q
            \<and> eq_required q \<le> es_balance (re_snapshot r) \<and> eq_required q \<le> ep_max_emergency (re_policy r)
            \<and> eq_relief q \<le> eq_shortfall q
            \<and> (eq_fully_funded q \<longrightarrow> eq_relief q = min (eq_shortfall q) (ep_emergency_rate (re_policy r))))"
proof -
  define threshold where "threshold = base - ef_starvation_relief (re_effects r)"
  have out: "emergency_survival_requirement r current base =
      Inr (if threshold \<le> current then None else Some (requirement_of r current threshold))"
    using assms by (simp add: emergency_survival_requirement_def saturating_sub_def threshold_def Let_def
        NORMALIZED_ECONOMIC_MAX_def ensure_def run_checks.simps(1))
  have policy: "validate_economic_policy (re_policy r) = Inr ()" using assms(1) by (simp add: validate_recorded_ok)
  show ?thesis
  proof (cases "threshold \<le> current")
    case True
    with out show ?thesis by (simp add: threshold_def)
  next
    case False
    let ?q = "requirement_of r current threshold"
    have "eq_fully_funded ?q \<longrightarrow> eq_relief ?q = min (threshold - current) (ep_emergency_rate (re_policy r))"
      using requirement_relief[OF policy, of "threshold - current" ?q current] False assms(3)
      by (auto simp: threshold_def)
    moreover have "eq_threshold ?q = threshold" "eq_shortfall ?q = threshold - current"
      "eq_required ?q \<le> es_balance (re_snapshot r)" "eq_required ?q \<le> ep_max_emergency (re_policy r)"
      "eq_relief ?q \<le> eq_shortfall ?q"
      by (simp_all add: requirement_of_def Let_def)
    ultimately show ?thesis using False out by (simp add: threshold_def)
  qed
qed

definition thin_relief :: recorded_economics where
  "thin_relief = (let p = economic_policy_default\<lparr>ep_emergency_rate := 1000, ep_starvation_relief := 0\<rparr>;
     s = \<lparr>es_balance = 10000, es_stake = 0, es_reward = 0, es_trustworthy = True\<rparr> in
     \<lparr>re_snapshot = s, re_policy = p, re_effects = effects_of p s, re_provenance = None\<rparr>)"

lemma thin_relief_ok: "validate_recorded thin_relief = Inr ()"
  by (simp add: validate_recorded_ok thin_relief_def Let_def validate_economic_policy_ok validate_snapshot_ok
      economic_policy_default_def NORMALIZED_ECONOMIC_MAX_def DEFAULT_PROPAGATION_MINIMUM_STAKE_BPS_def)

text \<open>A fully funded requirement that leaves four fifths of the shortfall.\<close>

theorem emergency_relief_witness:
  "\<exists>q. emergency_survival_requirement thin_relief 0 5000 = Inr (Some q)
     \<and> eq_fully_funded q \<and> eq_shortfall q = 5000 \<and> eq_relief q = 1000"
proof -
  have none: "ef_starvation_relief (re_effects thin_relief) = 0"
    by (simp add: thin_relief_def Let_def effects_of_def multiply_basis_points_def NORMALIZED_ECONOMIC_MAX_def)
  obtain out where out: "emergency_survival_requirement thin_relief 0 5000 = Inr out"
    and facts: "case out of None \<Rightarrow> 5000 - ef_starvation_relief (re_effects thin_relief) \<le> 0
       | Some q \<Rightarrow> eq_threshold q = 5000 - ef_starvation_relief (re_effects thin_relief)
            \<and> 0 + eq_shortfall q = eq_threshold q \<and> 0 < eq_shortfall q
            \<and> eq_required q \<le> es_balance (re_snapshot thin_relief) \<and> eq_required q \<le> ep_max_emergency (re_policy thin_relief)
            \<and> eq_relief q \<le> eq_shortfall q
            \<and> (eq_fully_funded q \<longrightarrow> eq_relief q = min (eq_shortfall q) (ep_emergency_rate (re_policy thin_relief)))"
    using emergency_relief[OF thin_relief_ok, of 0 5000] by auto
  with none obtain q where q: "out = Some q" "eq_shortfall q = 5000" by (cases out) auto
  have "q = requirement_of thin_relief 0 5000"
    using out q none thin_relief_ok
    by (simp add: emergency_survival_requirement_def saturating_sub_def Let_def split: if_splits)
  then have "eq_fully_funded q"
    by (simp add: requirement_of_def Let_def thin_relief_def div_ceil_def economic_policy_default_def
        NORMALIZED_ECONOMIC_MAX_def)
  with facts q out show ?thesis by (auto simp: thin_relief_def Let_def)
qed

subsection \<open>Revenue shares\<close>

lemma revenue_share_exact:
  "bps \<le> 10000 \<Longrightarrow> gross \<le> u64_max \<Longrightarrow> revenue_share gross bps = gross * bps div 10000"
proof -
  assume "bps \<le> 10000" "gross \<le> u64_max"
  then have "gross * bps \<le> gross * 10000" by (intro mult_le_mono2)
  then have "gross * bps div 10000 \<le> gross" by linarith
  with \<open>gross \<le> u64_max\<close> show ?thesis by (simp add: revenue_share_def Let_def NORMALIZED_ECONOMIC_MAX_def)
qed

text \<open>
  Revenue is distributed exactly.  For a valid policy, and for no other, any gross amount is
  split: parent, operator and recruiter receive their share rounded down, the child keeps the
  rest, nothing is lost, and the child's part is at least its proportion.
\<close>

theorem distribution_conserves:
  assumes "gross \<le> u64_max"
  shows "((\<exists>d. distribute p gross = Inr d) \<longleftrightarrow> ml_parent p + ml_operator p + ml_recruitment p \<le> 10000)
     \<and> (\<forall>d. distribute p gross = Inr d \<longrightarrow>
          md_parent d = gross * ml_parent p div 10000 \<and> md_operator d = gross * ml_operator p div 10000
          \<and> md_recruitment d = gross * ml_recruitment p div 10000
          \<and> md_parent d + md_operator d + md_recruitment d + md_child d = gross
          \<and> gross * (10000 - (ml_parent p + ml_operator p + ml_recruitment p)) div 10000 \<le> md_child d)"
proof (cases "ml_parent p + ml_operator p + ml_recruitment p \<le> 10000")
  case False
  then show ?thesis by (simp add: distribute_def validate_mlm_policy_def NORMALIZED_ECONOMIC_MAX_def)
next
  case True
  let ?a = "ml_parent p" and ?b = "ml_operator p" and ?c = "ml_recruitment p"
  define rest where "rest = 10000 - (?a + ?b + ?c)"
  have shares: "revenue_share gross ?a = gross * ?a div 10000" "revenue_share gross ?b = gross * ?b div 10000"
    "revenue_share gross ?c = gross * ?c div 10000"
    using True assms revenue_share_exact by simp_all
  have total: "gross * ?a + gross * ?b + gross * ?c + gross * rest = gross * 10000"
    using True by (simp add: rest_def flip: add_mult_distrib2)
  then have fits: "gross * ?a div 10000 + gross * ?b div 10000 + gross * ?c div 10000 + gross * rest div 10000 \<le> gross"
    by linarith
  have "distribute p gross = Inr \<lparr>md_gross = gross, md_parent = gross * ?a div 10000, md_operator = gross * ?b div 10000,
      md_recruitment = gross * ?c div 10000,
      md_child = gross - gross * ?a div 10000 - gross * ?b div 10000 - gross * ?c div 10000\<rparr>"
    using True shares fits
    by (simp add: distribute_def validate_mlm_policy_def NORMALIZED_ECONOMIC_MAX_def Let_def validate_distribution_def
        saturating_sub_def)
  moreover have "gross * rest div 10000 \<le> gross - gross * ?a div 10000 - gross * ?b div 10000 - gross * ?c div 10000"
    using fits by linarith
  ultimately show ?thesis using True fits by (simp add: rest_def[symmetric])
qed

theorem distribution_conserves_witness:
  "\<exists>d. distribute mlm_policy_default 999 = Inr d
     \<and> md_parent d + md_operator d + md_recruitment d + md_child d = 999 \<and> 699 \<le> md_child d"
proof -
  have "(999 :: nat) \<le> u64_max" by (simp add: u64_max_def)
  from distribution_conserves[OF this, of mlm_policy_default] show ?thesis
    by (auto simp: mlm_policy_default_def)
qed

end
