(* ===== verification/Bot_Nature.thy ===== *)
theory Bot_Nature
  imports Bot_Base
begin

section \<open>The Nature of a Tentacle (cthuwu: personality.rs)\<close>

text \<open>
  The seven sliders and the Sacred Ban, their validation, adjustment and inheritance, and the signed
  envelope they are kept in.  The operating system's randomness is the sequence of bytes it will
  deliver, consumed from the front; that it delivers no more is the failure of \<open>getrandom\<close>.
  The encoders of \<open>serde_json\<close>, SHA-256 and HMAC are parameters, in one record.
\<close>

definition NATURE_SCHEMA_VERSION :: nat where "NATURE_SCHEMA_VERSION = 1"
definition NATURE_ENVELOPE_VERSION :: nat where "NATURE_ENVELOPE_VERSION = 1"
definition NATURE_ID_BYTES :: nat where "NATURE_ID_BYTES = 16"
definition NATURE_ID_HEX_BYTES :: nat where "NATURE_ID_HEX_BYTES = NATURE_ID_BYTES * 2"
definition MIN_SIGNING_KEY_BYTES :: nat where "MIN_SIGNING_KEY_BYTES = 32"
definition MAX_SIGNING_KEY_BYTES :: nat where "MAX_SIGNING_KEY_BYTES = 4 * 1024"
definition HMAC_ALGORITHM :: string where "HMAC_ALGORITHM = ''hmac-sha256''"
definition NATURE_SIGNATURE_DOMAIN :: string where "NATURE_SIGNATURE_DOMAIN = ''cthuwu-nature-envelope-v1''"
definition TRAIT_COUNT :: nat where "TRAIT_COUNT = 7"

datatype nature_trait = Engagement | Growth | Wealth | Influence | Cooperation | Stability | Transparency

definition NatureTrait_ALL :: "nature_trait list" where
  "NatureTrait_ALL = [Engagement, Growth, Wealth, Influence, Cooperation, Stability, Transparency]"

fun trait_str :: "nature_trait \<Rightarrow> string" where
  "trait_str Engagement = ''engagement''"
| "trait_str Growth = ''growth''"
| "trait_str Wealth = ''wealth''"
| "trait_str Influence = ''influence''"
| "trait_str Cooperation = ''cooperation''"
| "trait_str Stability = ''stability''"
| "trait_str Transparency = ''transparency''"

datatype sacred_ban = Recruitment | Spawning | Governance | Profit | MemorySharing

definition SacredBan_ALL :: "sacred_ban list" where
  "SacredBan_ALL = [Recruitment, Spawning, Governance, Profit, MemorySharing]"

fun ban_str :: "sacred_ban \<Rightarrow> string" where
  "ban_str Recruitment = ''recruitment''"
| "ban_str Spawning = ''spawning''"
| "ban_str Governance = ''governance''"
| "ban_str Profit = ''profit''"
| "ban_str MemorySharing = ''memory sharing''"

fun ban_index :: "sacred_ban \<Rightarrow> nat" where
  "ban_index Recruitment = 0"
| "ban_index Spawning = 1"
| "ban_index Governance = 2"
| "ban_index Profit = 3"
| "ban_index MemorySharing = 4"

definition ban_from_index :: "nat \<Rightarrow> sacred_ban fallible" where
  "ban_from_index i =
     (if i < length SacredBan_ALL then Inr (SacredBan_ALL ! i)
      else Inl ''Sacred Ban index is out of range'')"

datatype mutation_mode = MM_Close | MM_Drift | MM_Radical

definition mutation_from_percentile :: "nat \<Rightarrow> mutation_mode fallible" where
  "mutation_from_percentile p =
     (if p \<le> 69 then Inr MM_Close
      else if p \<le> 89 then Inr MM_Drift
      else if p \<le> 99 then Inr MM_Radical
      else Inl ''mutation percentile must be between 0 and 99'')"

subsection \<open>Randomness\<close>

definition fill_bytes :: "string \<Rightarrow> nat \<Rightarrow> bytes \<Rightarrow> (bytes \<times> bytes) fallible" where
  "fill_bytes what n rng = (if length rng < n then Inl what else Inr (take n rng, drop n rng))"

definition u32_from_le_bytes :: "bytes \<Rightarrow> nat" where
  "u32_from_le_bytes bs = foldr (\<lambda>b acc. unat b + 256 * acc) bs 0"

definition uniform_zone :: "nat \<Rightarrow> nat" where
  "uniform_zone upper = u32_max - u32_max mod upper"

text \<open>The loop draws again until the candidate lies in the zone; it consumes four bytes each time.\<close>

function uniform_loop :: "nat \<Rightarrow> bytes \<Rightarrow> (nat \<times> bytes) fallible" where
  "uniform_loop upper rng =
     (case fill_bytes ''generating Nature randomness'' 4 rng of
        Inl e \<Rightarrow> Inl e
      | Inr (drawn, rng') \<Rightarrow>
          let candidate = u32_from_le_bytes drawn in
          if candidate < uniform_zone upper then Inr (candidate mod upper, rng')
          else uniform_loop upper rng')"
  by auto
termination
  by (relation "measure (\<lambda>(upper, rng). length rng)") (auto simp: fill_bytes_def split: if_splits)

declare uniform_loop.simps [simp del]

definition secure_uniform :: "nat \<Rightarrow> bytes \<Rightarrow> (nat \<times> bytes) fallible" where
  "secure_uniform upper rng =
     (if upper = 0 then Inl ''random range must not be empty'' else uniform_loop upper rng)"

definition random_slider :: "bytes \<Rightarrow> (nat \<times> bytes) fallible" where
  "random_slider rng = and_then (secure_uniform 101 rng) (\<lambda>(v, rng). Inr (v mod 256, rng))"

definition random_nature_id :: "bytes \<Rightarrow> (string \<times> bytes) fallible" where
  "random_nature_id rng =
     and_then (fill_bytes ''generating Nature identifier'' NATURE_ID_BYTES rng) (\<lambda>(bs, rng).
       Inr (encode_hex bs, rng))"

definition vary :: "nat \<Rightarrow> nat \<Rightarrow> bytes \<Rightarrow> (nat \<times> bytes) fallible" where
  "vary v maximum_delta rng =
     and_then (secure_uniform (maximum_delta * 2 + 1) rng) (\<lambda>(u, rng).
       let delta = int u - int maximum_delta
       in Inr (nat (min (max (int v + delta) 0) 100), rng))"

definition force_distance :: "nat \<Rightarrow> nat \<Rightarrow> nat \<Rightarrow> bytes \<Rightarrow> (nat \<times> bytes) fallible" where
  "force_distance v minimum_delta maximum_delta rng =
     and_then (secure_uniform (maximum_delta - minimum_delta + 1) rng) (\<lambda>(u, rng).
       let delta = minimum_delta + u mod 256
       in Inr (if v \<le> 50 then min (saturating_add u8_max v delta) 100 else saturating_sub v delta, rng))"

definition random_ban :: "bytes \<Rightarrow> (sacred_ban \<times> bytes) fallible" where
  "random_ban rng =
     and_then (secure_uniform (length SacredBan_ALL) rng) (\<lambda>(i, rng).
     and_then (ban_from_index i) (\<lambda>b. Inr (b, rng)))"

definition random_ban_other_than :: "sacred_ban \<Rightarrow> bytes \<Rightarrow> (sacred_ban \<times> bytes) fallible" where
  "random_ban_other_than ban rng =
     and_then (secure_uniform (length SacredBan_ALL - 1) rng) (\<lambda>(u, rng).
       let offset = u + 1 in
       and_then (ban_from_index ((ban_index ban + offset) mod length SacredBan_ALL)) (\<lambda>b. Inr (b, rng)))"

definition random_mutation :: "bytes \<Rightarrow> (mutation_mode \<times> bytes) fallible" where
  "random_mutation rng =
     and_then (secure_uniform 100 rng) (\<lambda>(p, rng).
     and_then (mutation_from_percentile (p mod 256)) (\<lambda>m. Inr (m, rng)))"

subsection \<open>Natures\<close>

record tentacle_nature =
  na_schema_version :: nat
  na_id :: string
  na_generation :: nat
  na_parent_id :: "string option"
  na_engagement :: nat
  na_growth :: nat
  na_wealth :: nat
  na_influence :: nat
  na_cooperation :: nat
  na_stability :: nat
  na_transparency :: nat
  na_sacred_ban :: sacred_ban

fun nature_value :: "tentacle_nature \<Rightarrow> nature_trait \<Rightarrow> nat" where
  "nature_value n Engagement = na_engagement n"
| "nature_value n Growth = na_growth n"
| "nature_value n Wealth = na_wealth n"
| "nature_value n Influence = na_influence n"
| "nature_value n Cooperation = na_cooperation n"
| "nature_value n Stability = na_stability n"
| "nature_value n Transparency = na_transparency n"

fun set_value :: "nature_trait \<Rightarrow> nat \<Rightarrow> tentacle_nature \<Rightarrow> tentacle_nature" where
  "set_value Engagement v n = n\<lparr>na_engagement := v\<rparr>"
| "set_value Growth v n = n\<lparr>na_growth := v\<rparr>"
| "set_value Wealth v n = n\<lparr>na_wealth := v\<rparr>"
| "set_value Influence v n = n\<lparr>na_influence := v\<rparr>"
| "set_value Cooperation v n = n\<lparr>na_cooperation := v\<rparr>"
| "set_value Stability v n = n\<lparr>na_stability := v\<rparr>"
| "set_value Transparency v n = n\<lparr>na_transparency := v\<rparr>"

definition validate_nature_id :: "string \<Rightarrow> unit fallible" where
  "validate_nature_id s =
     ensure (\<not> (length s \<noteq> NATURE_ID_HEX_BYTES \<or> \<not> list_all is_lower_hex s))
       ''Nature identifier must be 32 lowercase hexadecimal characters''"

definition validate_lineage :: "tentacle_nature \<Rightarrow> unit fallible" where
  "validate_lineage n =
     (case na_parent_id n of
        None \<Rightarrow> ensure (na_generation n = 0) ''non-founder Nature must identify its parent''
      | Some p \<Rightarrow>
          if na_generation n = 0 then Inl ''founder Nature must not identify a parent''
          else and_then (validate_nature_id p) (\<lambda>_.
            ensure (p \<noteq> na_id n) ''Nature cannot identify itself as its parent''))"

definition validate_nature :: "tentacle_nature \<Rightarrow> unit fallible" where
  "validate_nature n = run_checks ([
     ensure (na_schema_version n = NATURE_SCHEMA_VERSION)
       (''unsupported Nature schema version '' @ decimal (na_schema_version n)),
     validate_nature_id (na_id n),
     validate_lineage n]
     @ map (\<lambda>t. ensure (nature_value n t \<le> 100)
         (''Nature trait '' @ trait_str t @ '' must be between 0 and 100'')) NatureTrait_ALL)"

definition random_with_lineage :: "nat \<Rightarrow> string option \<Rightarrow> bytes \<Rightarrow> (tentacle_nature \<times> bytes) fallible" where
  "random_with_lineage generation parent rng =
     and_then (random_nature_id rng) (\<lambda>(i, rng).
     and_then (random_slider rng) (\<lambda>(en, rng).
     and_then (random_slider rng) (\<lambda>(gr, rng).
     and_then (random_slider rng) (\<lambda>(we, rng).
     and_then (random_slider rng) (\<lambda>(inf, rng).
     and_then (random_slider rng) (\<lambda>(co, rng).
     and_then (random_slider rng) (\<lambda>(st, rng).
     and_then (random_slider rng) (\<lambda>(tr, rng).
     and_then (random_ban rng) (\<lambda>(ban, rng).
     let n = \<lparr>na_schema_version = NATURE_SCHEMA_VERSION, na_id = i, na_generation = generation,
           na_parent_id = parent, na_engagement = en, na_growth = gr, na_wealth = we, na_influence = inf,
           na_cooperation = co, na_stability = st, na_transparency = tr, na_sacred_ban = ban\<rparr>
     in and_then (validate_nature n) (\<lambda>_. Inr (n, rng)))))))))))"

definition nature_random :: "bytes \<Rightarrow> (tentacle_nature \<times> bytes) fallible" where
  "nature_random = random_with_lineage 0 None"

definition nature_reroll :: "tentacle_nature \<Rightarrow> bytes \<Rightarrow> (tentacle_nature \<times> bytes) fallible" where
  "nature_reroll n rng =
     and_then (validate_nature n) (\<lambda>_. random_with_lineage (na_generation n) (na_parent_id n) rng)"

subsection \<open>Inheritance\<close>

fun vary_loop :: "nat \<Rightarrow> nature_trait list \<Rightarrow> tentacle_nature \<Rightarrow> bytes \<Rightarrow> (tentacle_nature \<times> bytes) fallible" where
  "vary_loop d [] n rng = Inr (n, rng)"
| "vary_loop d (t # ts) n rng =
     and_then (vary (nature_value n t) d rng) (\<lambda>(v, rng). vary_loop d ts (set_value t v n) rng)"

fun resample_loop :: "nature_trait list \<Rightarrow> tentacle_nature \<Rightarrow> bytes \<Rightarrow> (tentacle_nature \<times> bytes) fallible" where
  "resample_loop [] n rng = Inr (n, rng)"
| "resample_loop (t # ts) n rng =
     and_then (random_slider rng) (\<lambda>(v, rng). resample_loop ts (set_value t v n) rng)"

definition random_trait :: "bytes \<Rightarrow> (nature_trait \<times> bytes) fallible" where
  "random_trait rng =
     and_then (secure_uniform TRAIT_COUNT rng) (\<lambda>(i, rng). Inr (NatureTrait_ALL ! i, rng))"

definition inherit_close :: "tentacle_nature \<Rightarrow> bytes \<Rightarrow> (tentacle_nature \<times> bytes) fallible" where
  "inherit_close child rng = vary_loop 10 NatureTrait_ALL child rng"

definition inherit_drift :: "tentacle_nature \<Rightarrow> tentacle_nature \<Rightarrow> bytes \<Rightarrow> (tentacle_nature \<times> bytes) fallible" where
  "inherit_drift parent child rng =
     and_then (vary_loop 35 NatureTrait_ALL child rng) (\<lambda>(child, rng).
     and_then (random_trait rng) (\<lambda>(anchor, rng).
     and_then (force_distance (nature_value parent anchor) 11 35 rng) (\<lambda>(v, rng).
     let child = set_value anchor v child in
     and_then (secure_uniform 2 rng) (\<lambda>(coin, rng).
     if coin = 1
     then and_then (random_ban_other_than (na_sacred_ban parent) rng) (\<lambda>(ban, rng).
            Inr (child\<lparr>na_sacred_ban := ban\<rparr>, rng))
     else Inr (child, rng)))))"

definition inherit_radical :: "tentacle_nature \<Rightarrow> tentacle_nature \<Rightarrow> bytes \<Rightarrow> (tentacle_nature \<times> bytes) fallible" where
  "inherit_radical parent child rng =
     and_then (resample_loop NatureTrait_ALL child rng) (\<lambda>(child, rng).
     and_then (random_trait rng) (\<lambda>(anchor, rng).
     let child = set_value anchor (if nature_value parent anchor \<le> 50 then 100 else 0) child in
     and_then (random_ban_other_than (na_sacred_ban parent) rng) (\<lambda>(ban, rng).
       Inr (child\<lparr>na_sacred_ban := ban\<rparr>, rng))))"

fun mutate :: "mutation_mode \<Rightarrow> tentacle_nature \<Rightarrow> tentacle_nature \<Rightarrow> bytes \<Rightarrow> (tentacle_nature \<times> bytes) fallible" where
  "mutate MM_Close parent child rng = inherit_close child rng"
| "mutate MM_Drift parent child rng = inherit_drift parent child rng"
| "mutate MM_Radical parent child rng = inherit_radical parent child rng"

definition inherit_with_mode :: "mutation_mode \<Rightarrow> tentacle_nature \<Rightarrow> bytes \<Rightarrow> (tentacle_nature \<times> bytes) fallible" where
  "inherit_with_mode mode n rng =
     and_then (validate_nature n) (\<lambda>_.
     and_then (ok_or ''Nature generation overflow'' (checked_add u64_max (na_generation n) 1)) (\<lambda>generation.
     and_then (random_nature_id rng) (\<lambda>(i, rng).
     let child = n\<lparr>na_id := i, na_generation := generation, na_parent_id := Some (na_id n)\<rparr> in
     and_then (mutate mode n child rng) (\<lambda>(child, rng).
     and_then (validate_nature child) (\<lambda>_. Inr (child, rng))))))"

definition nature_inherit :: "tentacle_nature \<Rightarrow> bytes \<Rightarrow> ((tentacle_nature \<times> mutation_mode) \<times> bytes) fallible" where
  "nature_inherit n rng =
     and_then (random_mutation rng) (\<lambda>(mode, rng).
     and_then (inherit_with_mode mode n rng) (\<lambda>(child, rng). Inr ((child, mode), rng)))"

subsection \<open>Adjustment and text\<close>

text \<open>The slider and the delta are added as \<open>i16\<close> values.\<close>

definition nature_adjust :: "nature_trait \<Rightarrow> int \<Rightarrow> tentacle_nature \<Rightarrow> (nat \<times> tentacle_nature) fallible" where
  "nature_adjust t delta n =
     and_then (validate_nature n) (\<lambda>_.
       let adjusted = int (nature_value n t) + delta in
       if \<not> (-32768 \<le> adjusted \<and> adjusted \<le> 32767) then Inl ''Nature adjustment overflow''
       else if \<not> (0 \<le> adjusted \<and> adjusted \<le> 100) then Inl ''Nature adjustment would leave the 0-100 range''
       else Inr (nat adjusted, set_value t (nat adjusted) n))"

definition nature_render :: "tentacle_nature \<Rightarrow> string" where
  "nature_render n =
     ''Nature '' @ na_id n @ '' (generation '' @ decimal (na_generation n) @ '')'' @ [CHR 0x0A, CHR 0x0A]
     @ ''Appetites'' @ [CHR 0x0A] @ ''- engagement: '' @ decimal (na_engagement n)
     @ [CHR 0x0A] @ ''- growth: '' @ decimal (na_growth n)
     @ [CHR 0x0A] @ ''- wealth: '' @ decimal (na_wealth n)
     @ [CHR 0x0A] @ ''- influence: '' @ decimal (na_influence n) @ [CHR 0x0A, CHR 0x0A]
     @ ''Methods'' @ [CHR 0x0A] @ ''- cooperation: '' @ decimal (na_cooperation n)
     @ [CHR 0x0A] @ ''- stability: '' @ decimal (na_stability n)
     @ [CHR 0x0A] @ ''- transparency: '' @ decimal (na_transparency n) @ [CHR 0x0A, CHR 0x0A]
     @ ''Sacred Ban: '' @ ban_str (na_sacred_ban n)"

subsection \<open>Digests and the signed envelope\<close>

record nature_crypto =
  nc_canonical :: "tentacle_nature \<Rightarrow> bytes"
  nc_envelope :: "nat \<Rightarrow> string \<Rightarrow> tentacle_nature \<Rightarrow> bytes"
  nc_sha256 :: "bytes \<Rightarrow> bytes"
  nc_hmac :: "bytes \<Rightarrow> bytes \<Rightarrow> bytes"

definition nature_fingerprint :: "nature_crypto \<Rightarrow> tentacle_nature \<Rightarrow> string fallible" where
  "nature_fingerprint cr n =
     and_then (validate_nature n) (\<lambda>_. Inr (encode_hex (nc_sha256 cr (nc_canonical cr n))))"

definition StateSigner_new :: "bytes \<Rightarrow> bytes fallible" where
  "StateSigner_new key =
     (if MIN_SIGNING_KEY_BYTES \<le> length key \<and> length key \<le> MAX_SIGNING_KEY_BYTES then Inr key
      else Inl ''state signing key must be 32-4096 bytes'')"

definition validate_signature_domain :: "string \<Rightarrow> unit fallible" where
  "validate_signature_domain d =
     ensure (\<not> (d = [] \<or> length d > 64
                \<or> \<not> list_all (\<lambda>c. is_ascii_lowercase c \<or> is_ascii_digit c \<or> c = CHR ''-'') d))
       ''invalid state-signature domain''"

definition text_bytes :: "string \<Rightarrow> bytes" where
  "text_bytes s = map (\<lambda>c. word_of_nat (byte c)) s"

definition signed_message :: "string \<Rightarrow> bytes \<Rightarrow> bytes" where
  "signed_message domain payload = text_bytes domain @ 0 # payload"

definition signer_sign :: "nature_crypto \<Rightarrow> bytes \<Rightarrow> string \<Rightarrow> bytes \<Rightarrow> string fallible" where
  "signer_sign cr key domain payload =
     and_then (validate_signature_domain domain) (\<lambda>_.
       Inr (encode_hex (nc_hmac cr key (signed_message domain payload))))"

definition decode_nibble :: "char \<Rightarrow> 8 word fallible" where
  "decode_nibble c =
     (if 48 \<le> byte c \<and> byte c \<le> 57 then Inr (word_of_nat (byte c - 48))
      else if 97 \<le> byte c \<and> byte c \<le> 102 then Inr (word_of_nat (byte c - 97 + 10))
      else Inl ''signature is not canonical lowercase hexadecimal'')"

fun decode_hex_loop :: "string \<Rightarrow> bytes fallible" where
  "decode_hex_loop (h # l # cs) =
     and_then (decode_nibble h) (\<lambda>high.
     and_then (decode_nibble l) (\<lambda>low.
     and_then (decode_hex_loop cs) (\<lambda>bs. Inr ((push_bit 4 high OR low) # bs))))"
| "decode_hex_loop _ = Inr []"

definition decode_hex_32 :: "string \<Rightarrow> bytes fallible" where
  "decode_hex_32 s =
     (if length s \<noteq> 64 then Inl ''signature must contain 64 hexadecimal characters'' else decode_hex_loop s)"

definition signer_verify :: "nature_crypto \<Rightarrow> bytes \<Rightarrow> string \<Rightarrow> bytes \<Rightarrow> string \<Rightarrow> unit fallible" where
  "signer_verify cr key domain payload signature =
     and_then (validate_signature_domain domain) (\<lambda>_.
     and_then (map_err (\<lambda>_. ''state signature is malformed'') (decode_hex_32 signature)) (\<lambda>given.
       ensure (given = nc_hmac cr key (signed_message domain payload)) ''state signature verification failed''))"

record signed_nature_envelope =
  sn_envelope_version :: nat
  sn_algorithm :: string
  sn_nature :: tentacle_nature
  sn_signature :: string

definition canonical_nature_envelope :: "nature_crypto \<Rightarrow> tentacle_nature \<Rightarrow> bytes" where
  "canonical_nature_envelope cr n = nc_envelope cr NATURE_ENVELOPE_VERSION HMAC_ALGORITHM n"

text \<open>The envelope \<open>save\<close> writes, and the Nature \<open>load\<close> takes out of the envelope it read.\<close>

definition seal_nature :: "nature_crypto \<Rightarrow> bytes \<Rightarrow> tentacle_nature \<Rightarrow> signed_nature_envelope fallible" where
  "seal_nature cr key n =
     and_then (validate_nature n) (\<lambda>_.
     and_then (signer_sign cr key NATURE_SIGNATURE_DOMAIN (canonical_nature_envelope cr n)) (\<lambda>s.
       Inr \<lparr>sn_envelope_version = NATURE_ENVELOPE_VERSION, sn_algorithm = HMAC_ALGORITHM,
            sn_nature = n, sn_signature = s\<rparr>))"

definition open_nature :: "nature_crypto \<Rightarrow> bytes \<Rightarrow> signed_nature_envelope \<Rightarrow> tentacle_nature fallible" where
  "open_nature cr key e =
     and_then (run_checks [
       ensure (sn_envelope_version e = NATURE_ENVELOPE_VERSION)
         (''unsupported Nature envelope version '' @ decimal (sn_envelope_version e)),
       ensure (sn_algorithm e = HMAC_ALGORITHM) ''unsupported Nature signature algorithm'',
       validate_nature (sn_nature e),
       signer_verify cr key NATURE_SIGNATURE_DOMAIN (canonical_nature_envelope cr (sn_nature e)) (sn_signature e)])
     (\<lambda>_. Inr (sn_nature e))"

end
