(* ===== verification/Nature_Properties.thy ===== *)
theory Nature_Properties
  imports Bot_Nature
begin

section \<open>Properties of Natures\<close>

text \<open>
  The uniform draw, the mutation bands of inheritance, adjustment, and the signed envelope.
\<close>

subsection \<open>The uniform draw\<close>

definition drawn_from :: "nat \<Rightarrow> nat \<Rightarrow> bytes \<Rightarrow> bytes \<Rightarrow> bool" where
  "drawn_from k v rest rng \<longleftrightarrow>
     (\<exists>rejected good. rng = concat rejected @ good @ rest
        \<and> (\<forall>b\<in>set rejected. length b = 4 \<and> uniform_zone k \<le> u32_from_le_bytes b)
        \<and> length good = 4 \<and> u32_from_le_bytes good < uniform_zone k \<and> v = u32_from_le_bytes good mod k)"

lemma blocks_split:
  "rng = concat rejected @ good @ rest \<Longrightarrow> length good = 4 \<Longrightarrow> \<forall>b\<in>set rejected. length b = 4 \<Longrightarrow>
   4 \<le> length rng \<and> (rejected = [] \<and> good = take 4 rng \<and> rest = drop 4 rng
     \<or> (\<exists>rejected'. rejected = take 4 rng # rejected' \<and> drop 4 rng = concat rejected' @ good @ rest))"
  by (cases rejected) auto

lemma drawn_here:
  assumes "4 \<le> length rng" "u32_from_le_bytes (take 4 rng) < uniform_zone k"
  shows "drawn_from k v rest rng \<longleftrightarrow> v = u32_from_le_bytes (take 4 rng) mod k \<and> rest = drop 4 rng"
proof
  assume "drawn_from k v rest rng"
  then obtain rejected good where f: "rng = concat rejected @ good @ rest"
    "\<forall>b\<in>set rejected. length b = 4 \<and> uniform_zone k \<le> u32_from_le_bytes b"
    "length good = 4" "v = u32_from_le_bytes good mod k"
    unfolding drawn_from_def by blast
  have blocks: "\<forall>b\<in>set rejected. length b = 4" using f(2) by blast
  have "good = take 4 rng \<and> rest = drop 4 rng"
    using blocks_split[OF f(1,3) blocks] f(2) assms(2) by (metis list.set_intros(1) not_le)
  with f(4) show "v = u32_from_le_bytes (take 4 rng) mod k \<and> rest = drop 4 rng" by blast
next
  assume "v = u32_from_le_bytes (take 4 rng) mod k \<and> rest = drop 4 rng"
  with assms show "drawn_from k v rest rng"
    unfolding drawn_from_def by (intro exI[of _ "[]"] exI[of _ "take 4 rng"]) simp
qed

lemma drawn_later:
  assumes "4 \<le> length rng" "uniform_zone k \<le> u32_from_le_bytes (take 4 rng)"
  shows "drawn_from k v rest rng \<longleftrightarrow> drawn_from k v rest (drop 4 rng)"
proof
  assume "drawn_from k v rest rng"
  then obtain rejected good where f: "rng = concat rejected @ good @ rest"
    "\<forall>b\<in>set rejected. length b = 4 \<and> uniform_zone k \<le> u32_from_le_bytes b"
    "length good = 4" "u32_from_le_bytes good < uniform_zone k" "v = u32_from_le_bytes good mod k"
    unfolding drawn_from_def by blast
  have blocks: "\<forall>b\<in>set rejected. length b = 4" using f(2) by blast
  obtain rejected' where "rejected = take 4 rng # rejected'" "drop 4 rng = concat rejected' @ good @ rest"
    using blocks_split[OF f(1,3) blocks] f(4) assms(2) by (metis not_le)
  with f show "drawn_from k v rest (drop 4 rng)"
    unfolding drawn_from_def by (intro exI[of _ rejected'] exI[of _ good]) simp
next
  assume "drawn_from k v rest (drop 4 rng)"
  then obtain rejected good where f: "drop 4 rng = concat rejected @ good @ rest"
    "\<forall>b\<in>set rejected. length b = 4 \<and> uniform_zone k \<le> u32_from_le_bytes b"
    "length good = 4" "u32_from_le_bytes good < uniform_zone k" "v = u32_from_le_bytes good mod k"
    unfolding drawn_from_def by blast
  have "rng = concat (take 4 rng # rejected) @ good @ rest"
    using f(1) by (metis append.assoc append_take_drop_id concat.simps(2))
  with f assms show "drawn_from k v rest rng"
    unfolding drawn_from_def by (intro exI[of _ "take 4 rng # rejected"] exI[of _ good]) simp
qed

lemma drawn_long: "drawn_from k v rest rng \<Longrightarrow> 4 \<le> length rng"
  unfolding drawn_from_def by (elim exE conjE) simp

lemma uniform_loop_Inr: "uniform_loop k rng = Inr (v, rest) \<longleftrightarrow> drawn_from k v rest rng"
proof (induction k rng rule: uniform_loop.induct)
  case (1 k rng)
  show ?case
  proof (cases "length rng < 4")
    case True
    then show ?thesis
      using drawn_long[of k v rest rng] by (subst uniform_loop.simps) (auto simp: fill_bytes_def)
  next
    case False
    then have fill: "fill_bytes ''generating Nature randomness'' 4 rng = Inr (take 4 rng, drop 4 rng)"
      by (simp add: fill_bytes_def)
    show ?thesis
      using False fill drawn_here[of rng k v rest] drawn_later[of rng k v rest] "1.IH"[OF fill refl refl]
      by (subst uniform_loop.simps) (auto simp: Let_def not_less)
  qed
qed

lemma secure_uniform_bound: "secure_uniform k rng = Inr (v, rest) \<Longrightarrow> v < k"
  by (auto simp: secure_uniform_def uniform_loop_Inr drawn_from_def split: if_splits)

lemma zone_multiple: "uniform_zone k = (u32_max div k) * k"
  by (metis div_mult_mod_eq diff_add_inverse2 uniform_zone_def)

lemma residue_count:
  assumes "r < k"
  shows "card {c. c < q * k \<and> c mod k = r} = q"
proof -
  have "{c. c < q * k \<and> c mod k = r} = (\<lambda>i. i * k + r) ` {..<q}"
  proof (intro set_eqI iffI)
    fix c assume "c \<in> {c. c < q * k \<and> c mod k = r}"
    then have "c div k < q" "c = c div k * k + r"
      by (auto simp: less_mult_imp_div_less div_mult_mod_eq)
    then show "c \<in> (\<lambda>i. i * k + r) ` {..<q}" by blast
  next
    fix c assume "c \<in> (\<lambda>i. i * k + r) ` {..<q}"
    then obtain i where i: "i < q" "c = i * k + r" by blast
    then have "Suc i * k \<le> q * k" by (intro mult_le_mono1) simp
    with i assms show "c \<in> {c. c < q * k \<and> c mod k = r}" by simp
  qed
  moreover have "inj_on (\<lambda>i. i * k + r) {..<q}" using assms by (auto simp: inj_on_def)
  ultimately show ?thesis by (simp add: card_image)
qed

text \<open>
  C35: the draw below a bound is the first acceptable block and is unbiased.  It returns exactly
  when the random bytes contain, after four-byte blocks that are all outside the zone, one inside
  it, and the result is that block modulo the bound; every result has the same number of
  acceptable blocks.
\<close>

theorem uniform_unbiased:
  assumes "0 < k"
  shows "(secure_uniform k rng = Inr (v, rest) \<longleftrightarrow>
           (\<exists>rejected good. rng = concat rejected @ good @ rest
              \<and> (\<forall>b\<in>set rejected. length b = 4 \<and> uniform_zone k \<le> u32_from_le_bytes b)
              \<and> length good = 4 \<and> u32_from_le_bytes good < uniform_zone k \<and> v = u32_from_le_bytes good mod k))
         \<and> (\<forall>r<k. card {c. c < uniform_zone k \<and> c mod k = r} = u32_max div k)"
  using assms residue_count[of _ k "u32_max div k"]
  by (simp add: secure_uniform_def uniform_loop_Inr drawn_from_def zone_multiple)

theorem uniform_unbiased_witness:
  "secure_uniform 100 [255, 255, 255, 255, 7, 1, 0, 0] = Inr (63, [])
   \<and> card {c. c < uniform_zone 100 \<and> c mod 100 = 63} = u32_max div 100"
proof -
  have "\<exists>rejected good. [255, 255, 255, 255, 7, 1, 0, 0 :: 8 word] = concat rejected @ good @ []
      \<and> (\<forall>b\<in>set rejected. length b = 4 \<and> uniform_zone 100 \<le> u32_from_le_bytes b)
      \<and> length good = 4 \<and> u32_from_le_bytes good < uniform_zone 100 \<and> 63 = u32_from_le_bytes good mod 100"
    by (intro exI[of _ "[[255, 255, 255, 255]]"] exI[of _ "[7, 1, 0, 0]"])
       (simp add: u32_from_le_bytes_def uniform_zone_def u32_max_def)
  with uniform_unbiased[of 100 "[255, 255, 255, 255, 7, 1, 0, 0]" 63 "[]"] show ?thesis by simp
qed

subsection \<open>Inheritance\<close>

lemma nature_value_set [simp]: "nature_value (set_value t v n) t' = (if t' = t then v else nature_value n t')"
  by (cases t; cases t') simp_all

lemma set_value_frame [simp]:
  "na_schema_version (set_value t v n) = na_schema_version n" "na_id (set_value t v n) = na_id n"
  "na_generation (set_value t v n) = na_generation n" "na_parent_id (set_value t v n) = na_parent_id n"
  "na_sacred_ban (set_value t v n) = na_sacred_ban n"
  by (cases t; simp)+

lemma nature_value_frame [simp]:
  "nature_value (n\<lparr>na_id := i\<rparr>) t = nature_value n t"
  "nature_value (n\<lparr>na_generation := g\<rparr>) t = nature_value n t"
  "nature_value (n\<lparr>na_parent_id := p\<rparr>) t = nature_value n t"
  "nature_value (n\<lparr>na_sacred_ban := b\<rparr>) t = nature_value n t"
  by (cases t; simp)+

definition same_identity :: "tentacle_nature \<Rightarrow> tentacle_nature \<Rightarrow> bool" where
  "same_identity n n' \<longleftrightarrow>
     na_schema_version n' = na_schema_version n \<and> na_id n' = na_id n \<and> na_generation n' = na_generation n
     \<and> na_parent_id n' = na_parent_id n"

definition distance :: "nat \<Rightarrow> nat \<Rightarrow> nat" where
  "distance v w = (v - w) + (w - v)"

lemma vary_distance:
  assumes "vary v d rng = Inr (w, rest)" "v \<le> 100"
  shows "distance v w \<le> d \<and> w \<le> 100"
proof -
  from assms obtain u where u: "u < d * 2 + 1" "w = nat (min (max (int v + (int u - int d)) 0) 100)"
    by (auto simp: vary_def Let_def dest: secure_uniform_bound)
  with assms(2) show ?thesis by (simp add: distance_def) linarith
qed

lemma force_distance_far:
  assumes "force_distance v 11 35 rng = Inr (w, rest)" "v \<le> 100"
  shows "11 \<le> distance v w \<and> distance v w \<le> 35 \<and> w \<le> 100"
proof -
  from assms(1) obtain u where "secure_uniform 25 rng = Inr (u, rest)" and
    w: "w = (if v \<le> 50 then min (saturating_add u8_max v (11 + u mod 256)) 100 else saturating_sub v (11 + u mod 256))"
    by (auto simp: force_distance_def Let_def)
  from this(1) have "u < 25" by (rule secure_uniform_bound)
  with assms(2) show ?thesis unfolding w by (simp add: distance_def saturating_add_def saturating_sub_def u8_max_def) linarith
qed

lemma vary_loop_values:
  "vary_loop d ts n rng = Inr (n', rest) \<Longrightarrow> distinct ts \<Longrightarrow> \<forall>t. nature_value n t \<le> 100 \<Longrightarrow>
   same_identity n n' \<and> na_sacred_ban n' = na_sacred_ban n
   \<and> (\<forall>t. distance (nature_value n t) (nature_value n' t) \<le> d \<and> nature_value n' t \<le> 100)
   \<and> (\<forall>t. t \<notin> set ts \<longrightarrow> nature_value n' t = nature_value n t)"
proof (induction ts arbitrary: n rng)
  case (Cons t ts)
  then obtain v rng' where v: "vary (nature_value n t) d rng = Inr (v, rng')"
    "vary_loop d ts (set_value t v n) rng' = Inr (n', rest)" by auto
  then have far: "distance (nature_value n t) v \<le> d" "v \<le> 100" using vary_distance Cons.prems(3) by blast+
  with Cons.IH[OF v(2)] Cons.prems have ih: "same_identity (set_value t v n) n'"
    "na_sacred_ban n' = na_sacred_ban n" "\<And>s. nature_value n' s \<le> 100"
    "\<And>s. distance (if s = t then v else nature_value n s) (nature_value n' s) \<le> d"
    "\<And>s. s \<notin> set ts \<Longrightarrow> nature_value n' s = (if s = t then v else nature_value n s)"
    by auto
  have "distance (nature_value n s) (nature_value n' s) \<le> d" for s
    using far ih(4)[of s] ih(5)[of s] Cons.prems(2) by (cases "s = t") auto
  with ih show ?case by (auto simp: same_identity_def)
qed (simp add: same_identity_def distance_def)

lemma resample_loop_values:
  "resample_loop ts n rng = Inr (n', rest) \<Longrightarrow> \<forall>t. nature_value n t \<le> 100 \<Longrightarrow>
   same_identity n n' \<and> na_sacred_ban n' = na_sacred_ban n \<and> (\<forall>t. nature_value n' t \<le> 100)"
proof (induction ts arbitrary: n rng)
  case (Cons t ts)
  then obtain u v rng' where v: "secure_uniform 101 rng = Inr (u, rng')" "v = u mod 256"
    "resample_loop ts (set_value t v n) rng' = Inr (n', rest)" by (auto simp: random_slider_def)
  then have "v \<le> 100" using secure_uniform_bound[OF v(1)] by simp
  with Cons.IH[OF v(3)] Cons.prems show ?case by (auto simp: same_identity_def)
qed (simp add: same_identity_def)

lemma ban_count: "length SacredBan_ALL = 5"
  by (simp add: SacredBan_ALL_def)

lemma other_ban:
  assumes "random_ban_other_than b rng = Inr (b', rest)"
  shows "b' \<noteq> b"
proof -
  from assms obtain u where "secure_uniform 4 rng = Inr (u, rest)"
    and b': "ban_from_index ((ban_index b + (u + 1)) mod 5) = Inr b'"
    by (auto simp: random_ban_other_than_def ban_count Let_def)
  from this(1) have "u < 4" by (rule secure_uniform_bound)
  then consider "u = 0" | "u = 1" | "u = 2" | "u = 3" by linarith
  then show ?thesis
    using b' by cases (cases b; auto simp: ban_from_index_def SacredBan_ALL_def)+
qed

lemma validate_nature_values: "validate_nature n = Inr () \<Longrightarrow> nature_value n t \<le> 100"
  by (cases t) (simp_all add: validate_nature_def NatureTrait_ALL_def)

lemma mutate_bands:
  assumes "mutate mode parent child rng = Inr (child', rest)" "\<forall>t. nature_value child t = nature_value parent t"
    "\<forall>t. nature_value parent t \<le> 100" "na_sacred_ban child = na_sacred_ban parent"
  shows "same_identity child child' \<and>
     (case mode of
        MM_Close \<Rightarrow> (\<forall>t. distance (nature_value parent t) (nature_value child' t) \<le> 10)
                    \<and> na_sacred_ban child' = na_sacred_ban parent
      | MM_Drift \<Rightarrow> (\<forall>t. distance (nature_value parent t) (nature_value child' t) \<le> 35)
                    \<and> (\<exists>t. 11 \<le> distance (nature_value parent t) (nature_value child' t))
      | MM_Radical \<Rightarrow> (\<exists>t. 50 \<le> distance (nature_value parent t) (nature_value child' t))
                    \<and> na_sacred_ban child' \<noteq> na_sacred_ban parent)"
proof (cases mode)
  case MM_Close
  with assms show ?thesis
    using vary_loop_values[of 10 NatureTrait_ALL child rng child' rest]
    by (simp add: inherit_close_def NatureTrait_ALL_def)
next
  case MM_Drift
  with assms(1) obtain c rng1 anchor rng2 v rng3 where
    c: "vary_loop 35 NatureTrait_ALL child rng = Inr (c, rng1)"
    and v: "force_distance (nature_value parent anchor) 11 35 rng2 = Inr (v, rng3)"
    and child': "same_identity (set_value anchor v c) child'"
      "\<And>t. nature_value child' t = nature_value (set_value anchor v c) t"
    by (auto simp: inherit_drift_def Let_def same_identity_def split: if_splits)
  have "11 \<le> distance (nature_value parent anchor) v" "distance (nature_value parent anchor) v \<le> 35"
    using force_distance_far[OF v] assms(3) by blast+
  moreover have "same_identity child c" "\<forall>t. distance (nature_value parent t) (nature_value c t) \<le> 35"
    using vary_loop_values[OF c] assms by (simp_all add: NatureTrait_ALL_def)
  ultimately show ?thesis
    using MM_Drift child' by (auto simp: same_identity_def intro: exI[of _ anchor])
next
  case MM_Radical
  with assms(1) obtain c rng1 anchor ban rng3 where
    c: "resample_loop NatureTrait_ALL child rng = Inr (c, rng1)"
    and ban: "random_ban_other_than (na_sacred_ban parent) rng3 = Inr (ban, rest)"
    and child': "child' = (set_value anchor (if nature_value parent anchor \<le> 50 then 100 else 0) c)\<lparr>na_sacred_ban := ban\<rparr>"
    by (auto simp: inherit_radical_def Let_def)
  have "50 \<le> distance (nature_value parent anchor) (nature_value child' anchor)"
    using spec[OF assms(3), of anchor] by (simp add: child' distance_def) linarith
  moreover have "same_identity child c" using resample_loop_values[OF c] assms by simp
  ultimately show ?thesis
    using MM_Radical other_ban[OF ban] by (auto simp: child' same_identity_def intro: exI[of _ anchor])
qed

text \<open>
  C34: inheritance stays in the band it selected.  A child is a valid Nature of the next generation
  under its parent's identifier; a close child keeps the Sacred Ban and every slider within 10
  points, a drifting one keeps every slider within 35 and moves one by 11 or more, and a radical
  one moves a slider by 50 or more and has another ban.
\<close>

theorem inherit_bands:
  assumes "inherit_with_mode mode parent rng = Inr (child, rest)"
  shows "validate_nature child = Inr () \<and> na_generation child = na_generation parent + 1
     \<and> na_parent_id child = Some (na_id parent) \<and> na_id child \<noteq> na_id parent
     \<and> (case mode of
          MM_Close \<Rightarrow> (\<forall>t. distance (nature_value parent t) (nature_value child t) \<le> 10)
                      \<and> na_sacred_ban child = na_sacred_ban parent
        | MM_Drift \<Rightarrow> (\<forall>t. distance (nature_value parent t) (nature_value child t) \<le> 35)
                      \<and> (\<exists>t. 11 \<le> distance (nature_value parent t) (nature_value child t))
        | MM_Radical \<Rightarrow> (\<exists>t. 50 \<le> distance (nature_value parent t) (nature_value child t))
                      \<and> na_sacred_ban child \<noteq> na_sacred_ban parent)"
proof -
  from assms obtain i rng1 where ok: "validate_nature parent = Inr ()" "validate_nature child = Inr ()"
    and m: "mutate mode parent (parent\<lparr>na_id := i, na_generation := na_generation parent + 1,
                na_parent_id := Some (na_id parent)\<rparr>) rng1 = Inr (child, rest)"
    by (auto simp: inherit_with_mode_def Let_def)
  note bands = mutate_bands[OF m]
  then have "na_generation child = na_generation parent + 1" "na_parent_id child = Some (na_id parent)"
    using validate_nature_values[OF ok(1)] by (simp_all add: same_identity_def)
  moreover from this have "na_id child \<noteq> na_id parent"
    using ok(2) by (auto simp: validate_nature_def validate_lineage_def)
  ultimately show ?thesis using bands validate_nature_values[OF ok(1)] ok(2) by simp
qed

definition founder :: tentacle_nature where
  "founder = \<lparr>na_schema_version = 1, na_id = replicate 32 CHR ''a'', na_generation = 0, na_parent_id = None,
     na_engagement = 50, na_growth = 50, na_wealth = 50, na_influence = 50, na_cooperation = 50,
     na_stability = 50, na_transparency = 50, na_sacred_ban = Profit\<rparr>"

definition founder_child :: tentacle_nature where
  "founder_child = \<lparr>na_schema_version = 1, na_id = replicate 32 CHR ''0'', na_generation = 1,
     na_parent_id = Some (replicate 32 CHR ''a''), na_engagement = 100, na_growth = 0, na_wealth = 0,
     na_influence = 0, na_cooperation = 0, na_stability = 0, na_transparency = 0,
     na_sacred_ban = MemorySharing\<rparr>"

lemma founder_valid: "validate_nature founder = Inr ()"
  by code_simp

lemma zero_draw: "0 < k \<Longrightarrow> k \<le> u32_max \<Longrightarrow> secure_uniform k (0 # 0 # 0 # 0 # rest) = Inr (0, rest)"
  unfolding secure_uniform_def
  by (subst uniform_loop.simps)
     (simp add: fill_bytes_def u32_from_le_bytes_def zone_multiple div_greater_zero_iff)

lemma hex_of_zeros: "encode_hex (replicate n 0) = replicate (2 * n) (CHR ''0'')"
proof -
  have "hex_byte 0 = [CHR ''0'', CHR ''0'']" by code_simp
  then show ?thesis by (induction n) (simp_all add: encode_hex_def)
qed

lemma zero_id: "random_nature_id (replicate 16 0 @ rest) = Inr (replicate 32 CHR ''0'', rest)"
  using hex_of_zeros[of 16] by (simp add: random_nature_id_def fill_bytes_def NATURE_ID_BYTES_def)

lemma zero_slider: "random_slider (0 # 0 # 0 # 0 # rest) = Inr (0, rest)"
  by (simp add: random_slider_def zero_draw u32_max_def)

lemma founder_resampled:
  "resample_loop NatureTrait_ALL n (concat (replicate 7 [0, 0, 0, 0]) @ rest)
     = Inr (n\<lparr>na_engagement := 0, na_growth := 0, na_wealth := 0, na_influence := 0, na_cooperation := 0,
             na_stability := 0, na_transparency := 0\<rparr>, rest)"
  by (simp add: NatureTrait_ALL_def zero_slider numeral_eq_Suc)

lemma founder_inherits:
  "inherit_with_mode MM_Radical founder
     (replicate 16 0 @ concat (replicate 7 [0, 0, 0, 0]) @ [0, 0, 0, 0, 0, 0, 0, 0]) = Inr (founder_child, [])"
proof -
  have "validate_nature founder_child = Inr ()" by code_simp
  then show ?thesis
    by (simp add: inherit_with_mode_def founder_valid zero_id founder_resampled inherit_radical_def
        random_trait_def random_ban_other_than_def zero_draw u32_max_def TRAIT_COUNT_def ban_count
        ban_from_index_def Let_def u64_max_def)
       (simp add: founder_def founder_child_def NatureTrait_ALL_def SacredBan_ALL_def)
qed

theorem inherit_bands_witness:
  "na_generation founder_child = 1 \<and> (\<exists>t. 50 \<le> distance (nature_value founder t) (nature_value founder_child t))
   \<and> na_sacred_ban founder_child \<noteq> Profit"
  using inherit_bands[OF founder_inherits] by (simp add: founder_def)

subsection \<open>Adjustment\<close>

text \<open>
  An operator's adjustment is exact.  It succeeds iff the Nature is valid and the slider stays
  within 0 and 100; it then moves that slider only, reports its new value, and the result is
  valid.
\<close>

theorem adjust_exact:
  "nature_adjust t delta n = Inr (v, n') \<longleftrightarrow>
     validate_nature n = Inr () \<and> int v = int (nature_value n t) + delta \<and> v \<le> 100
     \<and> n' = set_value t v n \<and> validate_nature n' = Inr ()"
proof -
  have "validate_lineage (set_value t v n) = validate_lineage n" for v
    by (cases "na_parent_id n") (simp_all add: validate_lineage_def)
  then have "validate_nature (set_value t v n) = Inr ()" if "validate_nature n = Inr ()" "v \<le> 100" for v
    using that by (simp add: validate_nature_def NatureTrait_ALL_def)
  moreover define m where "m = int (nature_value n t) + delta"
  have "int v = m \<longleftrightarrow> 0 \<le> m \<and> v = nat m" by auto
  ultimately show ?thesis
    unfolding nature_adjust_def Let_def m_def[symmetric] by auto
qed

subsection \<open>The signed envelope\<close>

lemma decode_nibble_hex: "n < 16 \<Longrightarrow> decode_nibble (hex_digit n) = Inr (word_of_nat n)"
  by (simp add: decode_nibble_def byte_hex_digit)

lemma decode_encode_hex: "decode_hex_loop (encode_hex bs) = Inr bs"
  by (induction bs) (simp_all add: encode_hex_def hex_byte_def decode_nibble_hex nibble_bounds nibbles)

lemma decode_nibble_Inr:
  assumes "decode_nibble c = Inr w"
  shows "unat w < 16 \<and> hex_digit (unat w) = c"
proof -
  define k where "k = (if byte c \<le> 57 then byte c - 48 else byte c - 97 + 10)"
  have k: "w = word_of_nat k" "k < 16" "byte c = (if k < 10 then 48 + k else 87 + k)"
    using assms unfolding decode_nibble_def k_def by (auto simp del: of_nat_diff of_nat_add split: if_splits)
  have "unat (word_of_nat k :: 8 word) = k" using k(2) by (simp add: unat_of_nat take_bit_nat_eq_self)
  with k show ?thesis by (metis byte_hex_digit byte_inject)
qed

lemma encode_decode_hex: "decode_hex_loop s = Inr bs \<Longrightarrow> even (length s) \<Longrightarrow> encode_hex bs = s"
proof (induction s arbitrary: bs rule: decode_hex_loop.induct)
  case (1 h l cs)
  then obtain a b bs' where "decode_nibble h = Inr a" "decode_nibble l = Inr b" "decode_hex_loop cs = Inr bs'"
    "bs = (push_bit 4 a OR b) # bs'" by auto
  with 1 decode_nibble_Inr hex_byte_nibbles show ?case by (simp add: encode_hex_def)
qed (simp_all add: encode_hex_def)

lemma decode_hex_32_iff: "length h = 32 \<Longrightarrow> decode_hex_32 s = Inr h \<longleftrightarrow> s = encode_hex h"
  using encode_decode_hex[of s h] by (auto simp: decode_hex_32_def decode_encode_hex encode_hex_length)

lemma nature_domain_valid: "validate_signature_domain NATURE_SIGNATURE_DOMAIN = Inr ()"
  by code_simp

text \<open>
  C36: the signed envelope is a faithful and unique record of a Nature.  With a MAC of 32 bytes,
  opening an envelope yields a Nature iff the envelope is exactly the one sealing that Nature
  produces; so a sealed valid Nature opens to itself, and no other spelling of the signature,
  version or algorithm is accepted.
\<close>

theorem nature_envelope:
  assumes mac: "\<forall>k m. length (nc_hmac cr k m) = 32"
  shows "open_nature cr key e = Inr n \<longleftrightarrow> seal_nature cr key n = Inr e"
proof -
  let ?mac = "\<lambda>n. nc_hmac cr key (signed_message NATURE_SIGNATURE_DOMAIN (canonical_nature_envelope cr n))"
  have verify: "signer_verify cr key NATURE_SIGNATURE_DOMAIN (canonical_nature_envelope cr m) s = Inr ()
      \<longleftrightarrow> s = encode_hex (?mac m)" for m s
    using decode_hex_32_iff[of "?mac m" s] mac by (auto simp: signer_verify_def nature_domain_valid)
  have seal: "seal_nature cr key n = Inr e \<longleftrightarrow> validate_nature n = Inr ()
      \<and> e = \<lparr>sn_envelope_version = NATURE_ENVELOPE_VERSION, sn_algorithm = HMAC_ALGORITHM, sn_nature = n,
             sn_signature = encode_hex (?mac n)\<rparr>"
    by (auto simp: seal_nature_def signer_sign_def nature_domain_valid)
  show ?thesis unfolding seal by (cases e) (auto simp: open_nature_def verify)
qed

definition flat_crypto :: nature_crypto where
  "flat_crypto = \<lparr>nc_canonical = (\<lambda>n. text_bytes (na_id n)), nc_envelope = (\<lambda>v a n. text_bytes (a @ na_id n)),
     nc_sha256 = (\<lambda>m. replicate 32 (word_of_nat (length m))),
     nc_hmac = (\<lambda>k m. replicate 32 (word_of_nat (length k + length m)))\<rparr>"

theorem nature_envelope_witness:
  "\<exists>e. seal_nature flat_crypto (replicate 32 1) founder = Inr e
     \<and> open_nature flat_crypto (replicate 32 1) e = Inr founder"
proof -
  have "\<exists>e. seal_nature flat_crypto (replicate 32 1) founder = Inr e"
    by (simp add: seal_nature_def founder_valid signer_sign_def nature_domain_valid)
  moreover have "\<forall>k m. length (nc_hmac flat_crypto k m) = 32" by (simp add: flat_crypto_def)
  ultimately show ?thesis using nature_envelope by blast
qed

end
