(* ===== verification/Scales_Metrics.thy ===== *)
theory Scales_Metrics
  imports Bot_Economics Bot_Nature
begin

section \<open>Metrics of an evaluation period (cthuwu: scales.rs)\<close>

text \<open>
  The counters of one evaluation period with their validation, and every operation that records an
  observation in them.  An operation of the source that assigns before its last check returns the
  metrics it leaves behind together with its result.
\<close>

definition METRICS_SCHEMA_VERSION :: nat where "METRICS_SCHEMA_VERSION = 1"
definition SCORE_MAX :: nat where "SCORE_MAX = 10000"
definition MAX_CONVERSATION_DEPTH_SAMPLE :: nat where "MAX_CONVERSATION_DEPTH_SAMPLE = 1000"
definition MAX_RESPONSE_TIME_MS_SAMPLE :: nat where "MAX_RESPONSE_TIME_MS_SAMPLE = 86400000"
definition STRESS_PENALTY_PER_EVENT :: nat where "STRESS_PENALTY_PER_EVENT = 100"
definition MAX_STRESS_PENALTY :: nat where "MAX_STRESS_PENALTY = 1000"

datatype evaluation_period = Daily | Weekly

fun duration_seconds :: "evaluation_period \<Rightarrow> int" where
  "duration_seconds Daily = 86400"
| "duration_seconds Weekly = 7 * 86400"

fun period_days :: "evaluation_period \<Rightarrow> nat" where
  "period_days Daily = 1"
| "period_days Weekly = 7"

record engagement_metrics =
  em_conversations :: nat
  em_depth_total :: nat
  em_returning :: nat
  em_samples :: nat
  em_response_total :: nat
  em_bonus_total :: nat

definition engagement_default :: engagement_metrics where
  "engagement_default = \<lparr>em_conversations = 0, em_depth_total = 0, em_returning = 0, em_samples = 0,
     em_response_total = 0, em_bonus_total = 0\<rparr>"

definition validate_engagement :: "engagement_metrics \<Rightarrow> unit fallible" where
  "validate_engagement e = run_checks [
     ensure (em_returning e \<le> em_conversations e) ''returning conversations cannot exceed all conversations'',
     ensure (em_samples e \<le> em_conversations e) ''response-time samples cannot exceed all conversations'',
     ensure (em_depth_total e \<le> em_conversations e * MAX_CONVERSATION_DEPTH_SAMPLE)
       ''conversation depth total exceeds its bound'',
     ensure (em_response_total e \<le> em_samples e * MAX_RESPONSE_TIME_MS_SAMPLE)
       ''response-time total exceeds its bound'',
     ensure (em_bonus_total e \<le> em_conversations e * SCORE_MAX)
       ''engagement token-bonus total exceeds its bound'']"

record growth_metrics =
  gm_children :: nat
  gm_acolytes :: nat
  gm_contribution :: nat
  gm_operator_reward :: nat
  gm_recruitment_reward :: nat

definition growth_default :: growth_metrics where
  "growth_default = \<lparr>gm_children = 0, gm_acolytes = 0, gm_contribution = 0, gm_operator_reward = 0,
     gm_recruitment_reward = 0\<rparr>"

record wealth_metrics =
  wm_revenue :: nat
  wm_samples :: nat
  wm_efficiency_total :: nat
  wm_parent_share :: nat

definition wealth_default :: wealth_metrics where
  "wealth_default = \<lparr>wm_revenue = 0, wm_samples = 0, wm_efficiency_total = 0, wm_parent_share = 0\<rparr>"

definition average_efficiency :: "wealth_metrics \<Rightarrow> nat" where
  "average_efficiency w =
     (if wm_samples w = 0 then 0 else min (wm_efficiency_total w div wm_samples w) SCORE_MAX)"

definition validate_wealth :: "wealth_metrics \<Rightarrow> unit fallible" where
  "validate_wealth w =
     ensure (wm_efficiency_total w \<le> wm_samples w * SCORE_MAX) ''efficiency total exceeds its bound''"

record influence_metrics =
  im_participation :: nat
  im_points :: nat

definition influence_default :: influence_metrics where
  "influence_default = \<lparr>im_participation = 0, im_points = 0\<rparr>"

record scored_availability =
  sa_engagement :: bool
  sa_growth :: bool
  sa_wealth :: bool
  sa_influence :: bool

definition for_economic_layer :: "bool \<Rightarrow> scored_availability" where
  "for_economic_layer enabled =
     \<lparr>sa_engagement = True, sa_growth = True, sa_wealth = enabled, sa_influence = True\<rparr>"

definition active_scales :: "scored_availability \<Rightarrow> bool list" where
  "active_scales a = [sa_engagement a, sa_growth a, sa_wealth a, sa_influence a]"

definition is_restriction_of :: "scored_availability \<Rightarrow> scored_availability \<Rightarrow> bool" where
  "is_restriction_of a previous \<longleftrightarrow>
     (\<not> sa_engagement a \<or> sa_engagement previous) \<and> (\<not> sa_growth a \<or> sa_growth previous)
     \<and> (\<not> sa_wealth a \<or> sa_wealth previous) \<and> (\<not> sa_influence a \<or> sa_influence previous)"

definition validate_availability :: "scored_availability \<Rightarrow> bool \<Rightarrow> unit fallible" where
  "validate_availability a enabled = run_checks [
     ensure (list_ex (\<lambda>b. b) (active_scales a)) ''at least one scale must remain available for scoring'',
     ensure (enabled \<or> \<not> sa_wealth a) ''wealth cannot be scored while the economic layer is disabled'']"

record tentacle_metrics =
  tm_schema_version :: nat
  tm_nature_id :: string
  tm_fingerprint :: string
  tm_epoch :: nat
  tm_period :: evaluation_period
  tm_started :: int
  tm_ends :: int
  tm_engagement :: engagement_metrics
  tm_growth :: growth_metrics
  tm_wealth :: "wealth_metrics option"
  tm_influence :: influence_metrics
  tm_availability :: scored_availability
  tm_stress :: nat
  tm_economics :: "recorded_economics option"

definition TentacleMetrics_new ::
    "nature_crypto \<Rightarrow> evaluation_period \<Rightarrow> int \<Rightarrow> bool \<Rightarrow> tentacle_nature \<Rightarrow> nat \<Rightarrow> tentacle_metrics fallible" where
  "TentacleMetrics_new cr period started enabled nature epoch =
     and_then (validate_nature nature) (\<lambda>_.
     and_then (ensure (epoch > 0) ''awakening epoch must be positive'') (\<lambda>_.
     and_then (ok_or ''evaluation period end overflows its timestamp''
                 (i64_checked_add started (duration_seconds period))) (\<lambda>ends.
     and_then (nature_fingerprint cr nature) (\<lambda>fingerprint.
     Inr \<lparr>tm_schema_version = METRICS_SCHEMA_VERSION, tm_nature_id = na_id nature, tm_fingerprint = fingerprint,
          tm_epoch = epoch, tm_period = period, tm_started = started, tm_ends = ends,
          tm_engagement = engagement_default, tm_growth = growth_default,
          tm_wealth = (if enabled then Some wealth_default else None), tm_influence = influence_default,
          tm_availability = for_economic_layer enabled, tm_stress = 0, tm_economics = None\<rparr>))))"

definition economic_layer_enabled :: "tentacle_metrics \<Rightarrow> bool" where
  "economic_layer_enabled m \<longleftrightarrow> tm_wealth m \<noteq> None"

text \<open>The scales a recorded observation needs; the rule appears in two checks of the source.\<close>

definition economics_scored :: "recorded_economics \<Rightarrow> scored_availability \<Rightarrow> bool" where
  "economics_scored r a \<longleftrightarrow>
     sa_wealth a \<and> (es_reward (re_snapshot r) = 0 \<or> sa_growth a) \<and> (es_stake (re_snapshot r) = 0 \<or> sa_influence a)"

definition validate_metrics :: "tentacle_metrics \<Rightarrow> unit fallible" where
  "validate_metrics m = run_checks [
     ensure (tm_schema_version m = METRICS_SCHEMA_VERSION)
       (''unsupported metrics schema version '' @ decimal (tm_schema_version m)),
     ensure (lower_hex_text 32 (tm_nature_id m)) ''metrics Nature ID is invalid'',
     ensure (lower_hex_text 64 (tm_fingerprint m)) ''metrics Nature fingerprint is invalid'',
     ensure (tm_epoch m > 0) ''metrics awakening epoch is invalid'',
     ensure (i64_checked_add (tm_started m) (duration_seconds (tm_period m)) = Some (tm_ends m))
       ''metrics evaluation period has invalid bounds'',
     validate_engagement (tm_engagement m),
     (case tm_wealth m of None \<Rightarrow> Inr () | Some w \<Rightarrow> validate_wealth w),
     validate_availability (tm_availability m) (economic_layer_enabled m),
     (case tm_economics m of
        None \<Rightarrow> Inr ()
      | Some r \<Rightarrow> run_checks [
          validate_recorded r,
          ensure (economic_layer_enabled m \<and> economics_scored r (tm_availability m))
            ''token economics must enable every observed economic scale''])]"

subsection \<open>Operations\<close>

definition restrict_scored_scales :: "scored_availability \<Rightarrow> tentacle_metrics \<Rightarrow> tentacle_metrics fallible" where
  "restrict_scored_scales a m =
     and_then (run_checks [
       validate_availability a (economic_layer_enabled m),
       (case tm_economics m of
          None \<Rightarrow> Inr ()
        | Some r \<Rightarrow> ensure (economics_scored r a) ''active token-economic scales cannot be disabled''),
       ensure (is_restriction_of a (tm_availability m))
         ''scored-scale availability can only be restricted within an evaluation period''])
     (\<lambda>_. Inr (m\<lparr>tm_availability := a\<rparr>))"

definition observed_without_economics :: "tentacle_metrics \<Rightarrow> bool" where
  "observed_without_economics m \<longleftrightarrow>
     tm_engagement m \<noteq> engagement_default \<or> tm_growth m \<noteq> growth_default
     \<or> tm_influence m \<noteq> influence_default
     \<or> (case tm_wealth m of None \<Rightarrow> False | Some w \<Rightarrow> w \<noteq> wealth_default)"

definition has_behavior_observations :: "tentacle_metrics \<Rightarrow> bool" where
  "has_behavior_observations m \<longleftrightarrow> observed_without_economics m \<or> tm_economics m \<noteq> None"

definition rebind_empty_period ::
    "nature_crypto \<Rightarrow> tentacle_nature \<Rightarrow> nat \<Rightarrow> tentacle_metrics \<Rightarrow> tentacle_metrics \<times> unit fallible" where
  "rebind_empty_period cr nature epoch m =
     (case run_checks [
        ensure (\<not> has_behavior_observations m) ''an observed metrics period cannot be rebound to another Nature'',
        validate_nature nature,
        ensure (epoch > 0) ''awakening epoch must be positive''] of
        Inl e \<Rightarrow> (m, Inl e)
      | Inr _ \<Rightarrow>
          (let m1 = m\<lparr>tm_nature_id := na_id nature\<rparr> in
           case nature_fingerprint cr nature of
             Inl e \<Rightarrow> (m1, Inl e)
           | Inr fingerprint \<Rightarrow>
               (let m2 = m1\<lparr>tm_fingerprint := fingerprint, tm_epoch := epoch\<rparr> in (m2, validate_metrics m2))))"

definition record_conversation_with_bonus ::
    "nat \<Rightarrow> bool \<Rightarrow> nat option \<Rightarrow> nat \<Rightarrow> tentacle_metrics \<Rightarrow> tentacle_metrics" where
  "record_conversation_with_bonus depth returning response bonus m =
     (let e = tm_engagement m in
      if em_conversations e = u32_max then m
      else m\<lparr>tm_engagement := e\<lparr>
        em_conversations := em_conversations e + 1,
        em_depth_total := saturating_add u64_max (em_depth_total e) (min depth MAX_CONVERSATION_DEPTH_SAMPLE),
        em_returning := (if returning then em_returning e + 1 else em_returning e),
        em_samples := (case response of None \<Rightarrow> em_samples e | Some _ \<Rightarrow> em_samples e + 1),
        em_response_total := (case response of None \<Rightarrow> em_response_total e
          | Some t \<Rightarrow> saturating_add u64_max (em_response_total e) (min t MAX_RESPONSE_TIME_MS_SAMPLE)),
        em_bonus_total := saturating_add u64_max (em_bonus_total e) (min bonus SCORE_MAX)\<rparr>\<rparr>)"

definition record_conversation :: "nat \<Rightarrow> bool \<Rightarrow> nat option \<Rightarrow> tentacle_metrics \<Rightarrow> tentacle_metrics" where
  "record_conversation depth returning response m =
     record_conversation_with_bonus depth returning response 0 m"

definition record_growth :: "nat \<Rightarrow> nat \<Rightarrow> nat \<Rightarrow> tentacle_metrics \<Rightarrow> tentacle_metrics" where
  "record_growth children acolytes points m =
     (let g = tm_growth m in m\<lparr>tm_growth := g\<lparr>
        gm_children := saturating_add u32_max (gm_children g) children,
        gm_acolytes := saturating_add u32_max (gm_acolytes g) acolytes,
        gm_contribution := saturating_add u64_max (gm_contribution g) points\<rparr>\<rparr>)"

definition record_economic_result :: "nat \<Rightarrow> nat \<Rightarrow> tentacle_metrics \<Rightarrow> tentacle_metrics fallible" where
  "record_economic_result revenue efficiency m =
     and_then (ok_or ''the optional economic layer is disabled'' (tm_wealth m)) (\<lambda>w.
     if wm_samples w = u32_max then Inr m
     else Inr (m\<lparr>tm_wealth := Some (w\<lparr>
        wm_revenue := saturating_add u64_max (wm_revenue w) revenue,
        wm_samples := wm_samples w + 1,
        wm_efficiency_total := saturating_add u64_max (wm_efficiency_total w) (min efficiency SCORE_MAX)\<rparr>)\<rparr>))"

definition record_mlm_distribution :: "mlm_distribution \<Rightarrow> tentacle_metrics \<Rightarrow> tentacle_metrics \<times> unit fallible" where
  "record_mlm_distribution d m =
     (case and_then (validate_distribution d) (\<lambda>_. ok_or ''the economic layer is disabled'' (tm_wealth m)) of
        Inl e \<Rightarrow> (m, Inl e)
      | Inr w \<Rightarrow>
          (let g = tm_growth m;
               m' = m\<lparr>
                 tm_wealth := Some (w\<lparr>
                   wm_revenue := saturating_add u64_max (wm_revenue w) (md_child d),
                   wm_parent_share := saturating_add u64_max (wm_parent_share w) (md_parent d)\<rparr>),
                 tm_growth := g\<lparr>
                   gm_operator_reward := saturating_add u64_max (gm_operator_reward g) (md_operator d),
                   gm_recruitment_reward := saturating_add u64_max (gm_recruitment_reward g) (md_recruitment d)\<rparr>\<rparr>
           in (m', validate_metrics m')))"

definition record_token_economic_snapshot ::
    "economic_snapshot \<Rightarrow> economic_policy \<Rightarrow> tentacle_metrics \<Rightarrow> economic_effects fallible" where
  "record_token_economic_snapshot s p m =
     Inl ''node token economics require cryptographically bound observation provenance''"

definition apply_token_economic_observation ::
    "recorded_economics \<Rightarrow> tentacle_metrics \<Rightarrow> tentacle_metrics \<times> economic_effects fallible" where
  "apply_token_economic_observation r m =
     (let m' = m\<lparr>
        tm_wealth := (case tm_wealth m of None \<Rightarrow> Some wealth_default | Some w \<Rightarrow> Some w),
        tm_availability := \<lparr>sa_engagement = True, sa_growth = True, sa_wealth = True, sa_influence = True\<rparr>,
        tm_economics := Some r\<rparr>
      in (m', and_then (validate_metrics m') (\<lambda>_. Inr (re_effects r))))"

definition record_node_observation ::
    "economic_snapshot \<Rightarrow> economic_policy \<Rightarrow> economic_provenance \<Rightarrow> tentacle_metrics \<Rightarrow>
     tentacle_metrics \<times> economic_effects fallible" where
  "record_node_observation s p v m =
     (case new_with_provenance s p v of
        Inl e \<Rightarrow> (m, Inl e)
      | Inr r \<Rightarrow> apply_token_economic_observation r m)"

definition record_influence :: "nat \<Rightarrow> nat \<Rightarrow> tentacle_metrics \<Rightarrow> tentacle_metrics" where
  "record_influence participation points m =
     (let i = tm_influence m in m\<lparr>tm_influence := i\<lparr>
        im_participation := saturating_add u32_max (im_participation i) participation,
        im_points := saturating_add u64_max (im_points i) points\<rparr>\<rparr>)"

definition record_nature_adjustment_stress :: "tentacle_metrics \<Rightarrow> tentacle_metrics" where
  "record_nature_adjustment_stress m = m\<lparr>tm_stress := saturating_add u32_max (tm_stress m) 1\<rparr>"

end
