(* ===== verification/Scales_Judgment.thy ===== *)
theory Scales_Judgment
  imports Scales_Metrics
begin

section \<open>Judgments (cthuwu: scales.rs)\<close>

text \<open>
  Targets, thresholds and policies, the normalisation of a Nature's appetites into weights, the
  scores of the four scales, and the judgment of an evaluation period with its validation.
\<close>

definition JUDGMENT_SCHEMA_VERSION :: nat where "JUDGMENT_SCHEMA_VERSION = 2"
definition JUDGMENT_POLICY_SCHEMA_VERSION :: nat where "JUDGMENT_POLICY_SCHEMA_VERSION = 1"
definition LEGACY_ADVISORY_JUDGMENT_SCHEMA_VERSION :: nat where "LEGACY_ADVISORY_JUDGMENT_SCHEMA_VERSION = 1"
definition PROPAGATION_RIGHTS_MIN_SCORE :: nat where "PROPAGATION_RIGHTS_MIN_SCORE = 8000"
definition SURVIVAL_MIN_SCORE :: nat where "SURVIVAL_MIN_SCORE = 5500"
definition STARVATION_WARNING_MIN_SCORE :: nat where "STARVATION_WARNING_MIN_SCORE = 3000"
definition DAILY_PROPAGATION_MIN_CONVERSATIONS :: nat where "DAILY_PROPAGATION_MIN_CONVERSATIONS = 0"
definition DAILY_PROPAGATION_MIN_RETURNING_CONVERSATIONS :: nat where
  "DAILY_PROPAGATION_MIN_RETURNING_CONVERSATIONS = 0"
definition WEEKLY_PROPAGATION_MIN_CONVERSATIONS :: nat where "WEEKLY_PROPAGATION_MIN_CONVERSATIONS = 0"
definition WEEKLY_PROPAGATION_MIN_RETURNING_CONVERSATIONS :: nat where
  "WEEKLY_PROPAGATION_MIN_RETURNING_CONVERSATIONS = 0"

subsection \<open>Targets, thresholds and policies\<close>

record metric_targets =
  mt_depth :: nat
  mt_full_credit :: nat
  mt_zero_credit :: nat
  mt_children :: nat
  mt_acolytes :: nat
  mt_contribution :: nat
  mt_revenue :: nat
  mt_efficiency :: nat
  mt_participation :: nat
  mt_points :: nat

definition targets_for_period :: "evaluation_period \<Rightarrow> metric_targets" where
  "targets_for_period period =
     (let days = period_days period in
      \<lparr>mt_depth = 8, mt_full_credit = 3000, mt_zero_credit = 120000, mt_children = days,
       mt_acolytes = 2 * days, mt_contribution = 100 * days, mt_revenue = 1000000 * days,
       mt_efficiency = 8000, mt_participation = days, mt_points = 100 * days\<rparr>)"

definition validate_targets :: "metric_targets \<Rightarrow> unit fallible" where
  "validate_targets t = run_checks [
     ensure (mt_depth t > 0 \<and> mt_depth t \<le> MAX_CONVERSATION_DEPTH_SAMPLE)
       ''average-conversation-depth target is invalid'',
     ensure (mt_full_credit t < mt_zero_credit t \<and> mt_zero_credit t \<le> MAX_RESPONSE_TIME_MS_SAMPLE)
       ''response-time targets are invalid'',
     ensure (mt_children t > 0) ''children target must be positive'',
     ensure (mt_acolytes t > 0) ''acolyte target must be positive'',
     ensure (mt_contribution t > 0) ''network-contribution target must be positive'',
     ensure (mt_revenue t > 0) ''revenue target must be positive'',
     ensure (mt_efficiency t > 0 \<and> mt_efficiency t \<le> SCORE_MAX) ''efficiency target is invalid'',
     ensure (mt_participation t > 0) ''governance target must be positive'',
     ensure (mt_points t > 0) ''sibling-influence target must be positive'']"

record judgment_thresholds =
  jt_propagation :: nat
  jt_survival :: nat
  jt_starvation :: nat

definition thresholds_default :: judgment_thresholds where
  "thresholds_default = \<lparr>jt_propagation = PROPAGATION_RIGHTS_MIN_SCORE, jt_survival = SURVIVAL_MIN_SCORE,
     jt_starvation = STARVATION_WARNING_MIN_SCORE\<rparr>"

definition validate_thresholds :: "judgment_thresholds \<Rightarrow> unit fallible" where
  "validate_thresholds t =
     ensure (jt_propagation t \<le> SCORE_MAX \<and> jt_propagation t > jt_survival t \<and> jt_survival t > jt_starvation t)
       ''judgment thresholds must be strictly descending and within the score range''"

datatype judgment_outcome = PropagationRights | Survival | StarvationWarning | Dormant | Death

definition classify_with_relief :: "judgment_thresholds \<Rightarrow> nat \<Rightarrow> nat \<Rightarrow> judgment_outcome fallible" where
  "classify_with_relief t score relief =
     and_then (run_checks [
       validate_thresholds t,
       ensure (score \<le> SCORE_MAX) ''judgment score exceeds its bound'',
       ensure (relief \<le> SCORE_MAX) ''economic starvation relief exceeds its bound'']) (\<lambda>_.
     let survival_min = min (max (saturating_sub (jt_survival t) relief) 1) (jt_propagation t - 1);
         starvation_min = min (saturating_sub (jt_starvation t) relief) (survival_min - 1)
     in Inr (if score \<ge> jt_propagation t then PropagationRights
             else if score \<ge> survival_min then Survival
             else if score \<ge> starvation_min then StarvationWarning
             else Dormant))"

definition classify :: "judgment_thresholds \<Rightarrow> nat \<Rightarrow> judgment_outcome fallible" where
  "classify t score = classify_with_relief t score 0"

record judgment_policy =
  jp_schema_version :: nat
  jp_period :: evaluation_period
  jp_targets :: metric_targets
  jp_thresholds :: judgment_thresholds
  jp_min_conversations :: nat
  jp_min_returning :: nat

definition policy_for_period :: "evaluation_period \<Rightarrow> judgment_policy" where
  "policy_for_period period =
     \<lparr>jp_schema_version = JUDGMENT_POLICY_SCHEMA_VERSION, jp_period = period,
      jp_targets = targets_for_period period, jp_thresholds = thresholds_default,
      jp_min_conversations = (case period of Daily \<Rightarrow> DAILY_PROPAGATION_MIN_CONVERSATIONS
                              | Weekly \<Rightarrow> WEEKLY_PROPAGATION_MIN_CONVERSATIONS),
      jp_min_returning = (case period of Daily \<Rightarrow> DAILY_PROPAGATION_MIN_RETURNING_CONVERSATIONS
                          | Weekly \<Rightarrow> WEEKLY_PROPAGATION_MIN_RETURNING_CONVERSATIONS)\<rparr>"

definition validate_judgment_policy :: "judgment_policy \<Rightarrow> unit fallible" where
  "validate_judgment_policy p = run_checks [
     ensure (jp_schema_version p = JUDGMENT_POLICY_SCHEMA_VERSION)
       (''unsupported judgment-policy schema version '' @ decimal (jp_schema_version p)),
     validate_targets (jp_targets p),
     validate_thresholds (jp_thresholds p),
     ensure (jp_min_returning p \<le> jp_min_conversations p)
       ''propagation returning-conversation evidence floor is invalid'']"

subsection \<open>Weights\<close>

text \<open>With nothing to weigh, the active scales share equally; the first of them take the remainder.\<close>

fun equal_shares :: "nat \<Rightarrow> nat \<Rightarrow> bool list \<Rightarrow> nat list" where
  "equal_shares base remainder [] = []"
| "equal_shares base remainder (enabled # rest) =
     (if \<not> enabled then 0 # equal_shares base remainder rest
      else if remainder > 0 then (base + 1) # equal_shares base (remainder - 1) rest
      else base # equal_shares base remainder rest)"

definition quotients :: "nat \<Rightarrow> nat list \<Rightarrow> bool list \<Rightarrow> nat list" where
  "quotients whole values active =
     map2 (\<lambda>v b. if \<not> b then 0
                else let q = v * SCORE_MAX div whole in if q \<le> u16_max then q else SCORE_MAX) values active"

definition remainders :: "nat \<Rightarrow> nat list \<Rightarrow> bool list \<Rightarrow> nat list" where
  "remainders whole values active = map2 (\<lambda>v b. if b then v * SCORE_MAX mod whole else 0) values active"

text \<open>
  \<open>max_by_key\<close> keeps the last maximal element; the key is the remainder and then the reversed
  index, so the greatest remainder wins and the lower index on a tie.
\<close>

definition award_key_le :: "nat list \<Rightarrow> nat \<Rightarrow> nat \<Rightarrow> bool" where
  "award_key_le rs i j \<longleftrightarrow> rs ! i < rs ! j \<or> rs ! i = rs ! j \<and> j \<le> i"

fun max_by_key :: "nat list \<Rightarrow> nat list \<Rightarrow> nat option" where
  "max_by_key rs [] = None"
| "max_by_key rs (i # is) =
     Some (fold (\<lambda>j best. if award_key_le rs best j then j else best) is i)"

fun award_loop :: "nat \<Rightarrow> bool list \<Rightarrow> nat list \<Rightarrow> bool list \<Rightarrow> nat list \<Rightarrow> nat list" where
  "award_loop 0 active rs awarded result = result"
| "award_loop (Suc remainder) active rs awarded result =
     (case max_by_key rs (filter (\<lambda>i. active ! i \<and> \<not> awarded ! i) [0..<4]) of
        None \<Rightarrow> result
      | Some i \<Rightarrow> award_loop remainder active rs (awarded[i := True]) (result[i := result ! i + 1]))"

definition normalize_weights :: "nat list \<Rightarrow> bool list \<Rightarrow> nat list" where
  "normalize_weights values active =
     (let active_count = length (filter (\<lambda>b. b) active);
          whole = sum_list (map2 (\<lambda>v b. if b then v else 0) values active) in
      if whole = 0
      then equal_shares (SCORE_MAX div active_count) (SCORE_MAX mod active_count) active
      else (let result = quotients whole values active in
            award_loop (SCORE_MAX - sum_list result) active (remainders whole values active)
              (replicate 4 False) result))"

record scale_weights =
  sw_engagement :: nat
  sw_growth :: nat
  sw_wealth :: nat
  sw_influence :: nat

definition weights_total :: "scale_weights \<Rightarrow> nat" where
  "weights_total w =
     saturating_add u16_max (saturating_add u16_max (saturating_add u16_max (sw_engagement w) (sw_growth w))
       (sw_wealth w)) (sw_influence w)"

fun weights_loop :: "(string \<times> nat \<times> bool) list \<Rightarrow> unit fallible" where
  "weights_loop [] = Inr ()"
| "weights_loop ((name, weight, active) # rest) =
     (if active \<or> weight = 0 then weights_loop rest
      else Inl (''unavailable '' @ name @ '' scale must have zero weight''))"

definition validate_weights :: "scale_weights \<Rightarrow> scored_availability \<Rightarrow> bool \<Rightarrow> unit fallible" where
  "validate_weights w a enabled = run_checks [
     validate_availability a enabled,
     ensure (weights_total w = SCORE_MAX) ''scale weights must total 10000 basis points'',
     ensure (enabled \<or> sw_wealth w = 0) ''wealth cannot be weighted while the economic layer is disabled'',
     weights_loop [(''engagement'', sw_engagement w, sa_engagement a), (''growth'', sw_growth w, sa_growth a),
       (''wealth'', sw_wealth w, sa_wealth a), (''influence'', sw_influence w, sa_influence a)]]"

definition weights_with_availability ::
    "tentacle_nature \<Rightarrow> scored_availability \<Rightarrow> bool \<Rightarrow> scale_weights fallible" where
  "weights_with_availability n a enabled =
     and_then (validate_nature n) (\<lambda>_.
     and_then (validate_availability a enabled) (\<lambda>_.
     let normalized = normalize_weights [na_engagement n, na_growth n, na_wealth n, na_influence n] (active_scales a);
         w = \<lparr>sw_engagement = normalized ! 0, sw_growth = normalized ! 1, sw_wealth = normalized ! 2,
              sw_influence = normalized ! 3\<rparr> in
     and_then (validate_weights w a enabled) (\<lambda>_. Inr w)))"

definition weights_from_nature :: "tentacle_nature \<Rightarrow> bool \<Rightarrow> scale_weights fallible" where
  "weights_from_nature n enabled = weights_with_availability n (for_economic_layer enabled) enabled"

subsection \<open>Scores\<close>

record scale_scores =
  sc_engagement :: nat
  sc_growth :: nat
  sc_wealth :: "nat option"
  sc_influence :: nat
  sc_before_stress :: nat
  sc_stress_penalty :: nat
  sc_total :: nat

fun scores_loop :: "(string \<times> nat) list \<Rightarrow> unit fallible" where
  "scores_loop [] = Inr ()"
| "scores_loop ((name, score) # rest) =
     (if score \<le> SCORE_MAX then scores_loop rest else Inl (name @ '' score exceeds its bound''))"

definition validate_scores :: "scale_scores \<Rightarrow> unit fallible" where
  "validate_scores s = run_checks [
     scores_loop [(''engagement'', sc_engagement s), (''growth'', sc_growth s), (''influence'', sc_influence s),
       (''weighted total before stress'', sc_before_stress s), (''stress penalty'', sc_stress_penalty s),
       (''total'', sc_total s)],
     (case sc_wealth s of None \<Rightarrow> Inr () | Some w \<Rightarrow> ensure (w \<le> SCORE_MAX) ''wealth score exceeds its bound''),
     ensure (sc_stress_penalty s \<le> MAX_STRESS_PENALTY) ''stress penalty exceeds its bound'',
     ensure (sc_total s = saturating_sub (sc_before_stress s) (sc_stress_penalty s))
       ''final score does not apply its recorded stress penalty'']"

definition u128_max :: nat where "u128_max = 340282366920938463463374607431768211455"

definition ratio_score :: "nat \<Rightarrow> nat \<Rightarrow> nat" where
  "ratio_score numerator denominator =
     (if denominator = 0 then 0
      else min (saturating_add u128_max (saturating_mul u128_max numerator SCORE_MAX) (denominator div 2)
                div denominator) SCORE_MAX)"

definition component_score :: "(nat \<times> nat) list \<Rightarrow> nat" where
  "component_score parts =
     min ((sum_list (map (\<lambda>(score, weight). score * weight) parts) + SCORE_MAX div 2) div SCORE_MAX) SCORE_MAX"

definition response_time_score :: "nat \<Rightarrow> nat \<Rightarrow> nat \<Rightarrow> nat \<Rightarrow> nat" where
  "response_time_score ms samples full_credit zero_credit =
     (if samples = 0 then 0
      else let full = samples * full_credit; zero = samples * zero_credit in
        if ms \<le> full then SCORE_MAX
        else if ms \<ge> zero then 0
        else ratio_score (zero - ms) (zero - full))"

definition score_engagement :: "engagement_metrics \<Rightarrow> metric_targets \<Rightarrow> nat fallible" where
  "score_engagement e t =
     (let depth = ratio_score (em_depth_total e) (em_conversations e * mt_depth t);
          returns = ratio_score (em_returning e) (em_conversations e);
          response = response_time_score (em_response_total e) (em_samples e) (mt_full_credit t) (mt_zero_credit t);
          base = component_score [(depth, 4000), (returns, 3500), (response, 2500)];
          bonus = (if em_conversations e = 0 then 0
                   else min (em_bonus_total e div em_conversations e) SCORE_MAX)
      in apply_score_adjustment base bonus)"

definition score_growth :: "growth_metrics \<Rightarrow> metric_targets \<Rightarrow> nat" where
  "score_growth g t =
     (let reward = ratio_score (gm_operator_reward g + gm_recruitment_reward g) (mt_revenue t) in
      component_score [
        (ratio_score (gm_children g) (mt_children t), 2500),
        (ratio_score (gm_acolytes g) (mt_acolytes t), 2000),
        (ratio_score (gm_contribution g) (mt_contribution t), 2500),
        (reward, 3000)])"

definition score_wealth :: "wealth_metrics \<Rightarrow> metric_targets \<Rightarrow> nat" where
  "score_wealth w t = component_score [
     (ratio_score (wm_revenue w + wm_parent_share w) (mt_revenue t), 6000),
     (ratio_score (average_efficiency w) (mt_efficiency t), 4000)]"

definition primary_token_wealth_score :: "nat \<Rightarrow> nat \<Rightarrow> nat" where
  "primary_token_wealth_score balance operational =
     min ((balance * 8000 + operational * 2000 + 5000) div 10000) SCORE_MAX"

definition score_influence :: "influence_metrics \<Rightarrow> metric_targets \<Rightarrow> nat" where
  "score_influence i t = component_score [
     (ratio_score (im_participation i) (mt_participation t), 5000),
     (ratio_score (im_points i) (mt_points t), 5000)]"

definition effect_or_zero :: "(economic_effects \<Rightarrow> nat) \<Rightarrow> recorded_economics option \<Rightarrow> nat" where
  "effect_or_zero f r = (case r of None \<Rightarrow> 0 | Some x \<Rightarrow> f (re_effects x))"

text \<open>\<open>u16::try_from\<close> of the event count falls back to the largest \<open>u16\<close>.\<close>

definition stress_penalty :: "nat \<Rightarrow> nat" where
  "stress_penalty events =
     min (saturating_mul u16_max (if events \<le> u16_max then events else u16_max) STRESS_PENALTY_PER_EVENT)
       MAX_STRESS_PENALTY"

definition weighted_total :: "scale_weights \<Rightarrow> nat \<Rightarrow> nat \<Rightarrow> nat \<Rightarrow> nat \<Rightarrow> nat" where
  "weighted_total w engagement growth wealth influence =
     min ((engagement * sw_engagement w + growth * sw_growth w + wealth * sw_wealth w + influence * sw_influence w
           + SCORE_MAX div 2) div SCORE_MAX) SCORE_MAX"

definition score_metrics :: "tentacle_metrics \<Rightarrow> metric_targets \<Rightarrow> scale_weights \<Rightarrow> scale_scores fallible" where
  "score_metrics m t w =
     and_then (validate_targets t) (\<lambda>_.
     and_then (score_engagement (tm_engagement m) t) (\<lambda>engagement_base.
     and_then (apply_score_adjustment engagement_base (effect_or_zero ef_engagement (tm_economics m))) (\<lambda>engagement.
     and_then (apply_score_adjustment (score_growth (tm_growth m) t) (effect_or_zero ef_growth (tm_economics m))) (\<lambda>growth.
     let wealth = (case tm_wealth m of
           None \<Rightarrow> None
         | Some x \<Rightarrow> Some (case tm_economics m of
               None \<Rightarrow> score_wealth x t
             | Some r \<Rightarrow> primary_token_wealth_score (ef_wealth (re_effects r)) (score_wealth x t))) in
     and_then (apply_score_adjustment (score_influence (tm_influence m) t) (effect_or_zero ef_influence (tm_economics m))) (\<lambda>influence.
     let before = weighted_total w engagement growth (case wealth of None \<Rightarrow> 0 | Some x \<Rightarrow> x) influence;
         penalty = stress_penalty (tm_stress m);
         scores = \<lparr>sc_engagement = engagement, sc_growth = growth, sc_wealth = wealth, sc_influence = influence,
           sc_before_stress = before, sc_stress_penalty = penalty, sc_total = saturating_sub before penalty\<rparr> in
     and_then (validate_scores scores) (\<lambda>_. Inr scores))))))"

subsection \<open>Evidence\<close>

record propagation_evidence =
  pe_conversations :: nat
  pe_returning :: nat
  pe_required_conversations :: nat
  pe_required_returning :: nat
  pe_stake :: nat
  pe_required_stake :: nat
  pe_stake_eligible :: bool
  pe_eligible :: bool

text \<open>Observed stake, required stake and eligibility; also what a history record is checked against.\<close>

definition stake_evidence :: "tentacle_metrics \<Rightarrow> nat \<times> nat \<times> bool" where
  "stake_evidence m =
     (case tm_economics m of
        None \<Rightarrow> (0, 0, \<not> economic_layer_enabled m)
      | Some r \<Rightarrow> (es_stake (re_snapshot r), ep_propagation_stake (re_policy r),
                   ef_propagation_eligible (re_effects r)))"

definition evidence_from_metrics :: "tentacle_metrics \<Rightarrow> judgment_policy \<Rightarrow> propagation_evidence" where
  "evidence_from_metrics m p =
     (let e = tm_engagement m; (stake, required, eligible) = stake_evidence m in
      \<lparr>pe_conversations = em_conversations e, pe_returning = em_returning e,
       pe_required_conversations = jp_min_conversations p, pe_required_returning = jp_min_returning p,
       pe_stake = stake, pe_required_stake = required, pe_stake_eligible = eligible,
       pe_eligible = (em_conversations e \<ge> jp_min_conversations p \<and> em_returning e \<ge> jp_min_returning p
                      \<and> eligible)\<rparr>)"

definition validate_evidence :: "propagation_evidence \<Rightarrow> judgment_policy \<Rightarrow> unit fallible" where
  "validate_evidence v p = run_checks [
     ensure (pe_returning v \<le> pe_conversations v) ''propagation evidence has more returns than conversations'',
     ensure (pe_required_conversations v = jp_min_conversations p \<and> pe_required_returning v = jp_min_returning p)
       ''propagation evidence disagrees with its judgment policy'',
     ensure (pe_stake v \<le> SCORE_MAX \<and> pe_required_stake v \<le> SCORE_MAX)
       ''propagation stake evidence exceeds its normalized bound'',
     ensure (pe_stake_eligible v \<longleftrightarrow> pe_required_stake v = 0 \<or> pe_stake v \<ge> pe_required_stake v)
       ''propagation stake eligibility is inconsistent'',
     ensure (pe_eligible v \<longleftrightarrow> pe_conversations v \<ge> pe_required_conversations v
               \<and> pe_returning v \<ge> pe_required_returning v \<and> pe_stake_eligible v)
       ''propagation evidence eligibility is inconsistent'']"

subsection \<open>Judgments\<close>

datatype evaluation_status = PartialSnapshot | Final

datatype decision_execution =
    AdvisorySnapshotOnly
  | AuthenticatedOperatorConfirmationRequired
  | PartialObservationOnly
  | AutomaticLifecycleActionRequired

record scale_judgment =
  jd_schema_version :: nat
  jd_metrics_schema_version :: nat
  jd_period :: evaluation_period
  jd_started :: int
  jd_ends :: int
  jd_evaluated_at :: int
  jd_status :: evaluation_status
  jd_policy :: judgment_policy
  jd_availability :: scored_availability
  jd_weights :: scale_weights
  jd_scores :: scale_scores
  jd_evidence :: propagation_evidence
  jd_relief :: nat
  jd_outcome :: judgment_outcome
  jd_execution :: decision_execution

definition evidence_outcome :: "judgment_outcome \<Rightarrow> propagation_evidence \<Rightarrow> judgment_outcome" where
  "evidence_outcome score_outcome v =
     (if score_outcome = PropagationRights \<and> \<not> pe_eligible v then Survival else score_outcome)"

definition execution_of :: "evaluation_status \<Rightarrow> decision_execution" where
  "execution_of status =
     (case status of Final \<Rightarrow> AutomaticLifecycleActionRequired | PartialSnapshot \<Rightarrow> PartialObservationOnly)"

definition evaluate_internal ::
    "nature_crypto \<Rightarrow> tentacle_metrics \<Rightarrow> tentacle_nature \<Rightarrow> int \<Rightarrow> judgment_policy \<Rightarrow> evaluation_status \<Rightarrow>
     scale_judgment fallible" where
  "evaluate_internal cr m n at p status =
     and_then (validate_metrics m) (\<lambda>_.
     and_then (validate_nature n) (\<lambda>_.
     and_then (nature_fingerprint cr n) (\<lambda>fingerprint.
     and_then (run_checks [
       ensure (tm_nature_id m = na_id n \<and> tm_fingerprint m = fingerprint)
         ''metrics are bound to a different signed Nature'',
       validate_judgment_policy p,
       ensure (jp_period p = tm_period m) ''judgment policy and metrics use different evaluation periods'',
       (case status of
          Final \<Rightarrow> ensure (at \<ge> tm_ends m) ''cannot finalize an evaluation period before it closes''
        | PartialSnapshot \<Rightarrow> ensure (tm_started m \<le> at \<and> at < tm_ends m)
            ''a partial snapshot must fall within its open evaluation period''),
       ensure (\<not> economic_layer_enabled m
               \<or> (case tm_economics m of None \<Rightarrow> False | Some r \<Rightarrow> re_provenance r \<noteq> None))
         ''economic evaluation blocked: provenance-bound token data is missing'']) (\<lambda>_.
     and_then (weights_with_availability n (tm_availability m) (economic_layer_enabled m)) (\<lambda>weights.
     and_then (score_metrics m (jp_targets p) weights) (\<lambda>scores.
     let evidence = evidence_from_metrics m p;
         relief = effect_or_zero ef_starvation_relief (tm_economics m) in
     and_then (classify_with_relief (jp_thresholds p) (sc_total scores) relief) (\<lambda>score_outcome.
     Inr \<lparr>jd_schema_version = JUDGMENT_SCHEMA_VERSION, jd_metrics_schema_version = tm_schema_version m,
          jd_period = tm_period m, jd_started = tm_started m, jd_ends = tm_ends m, jd_evaluated_at = at,
          jd_status = status, jd_policy = p, jd_availability = tm_availability m, jd_weights = weights,
          jd_scores = scores, jd_evidence = evidence, jd_relief = relief,
          jd_outcome = evidence_outcome score_outcome evidence, jd_execution = execution_of status\<rparr>)))))))"

definition evaluate_with_policy ::
    "nature_crypto \<Rightarrow> tentacle_metrics \<Rightarrow> tentacle_nature \<Rightarrow> int \<Rightarrow> judgment_policy \<Rightarrow> scale_judgment fallible" where
  "evaluate_with_policy cr m n at p = evaluate_internal cr m n at p Final"

definition evaluate_snapshot_with_policy ::
    "nature_crypto \<Rightarrow> tentacle_metrics \<Rightarrow> tentacle_nature \<Rightarrow> int \<Rightarrow> judgment_policy \<Rightarrow> scale_judgment fallible" where
  "evaluate_snapshot_with_policy cr m n at p = evaluate_internal cr m n at p PartialSnapshot"

definition evaluate :: "nature_crypto \<Rightarrow> tentacle_metrics \<Rightarrow> tentacle_nature \<Rightarrow> int \<Rightarrow> scale_judgment fallible" where
  "evaluate cr m n at = evaluate_with_policy cr m n at (policy_for_period (tm_period m))"

definition evaluate_snapshot :: "nature_crypto \<Rightarrow> tentacle_metrics \<Rightarrow> tentacle_nature \<Rightarrow> int \<Rightarrow> scale_judgment fallible" where
  "evaluate_snapshot cr m n at = evaluate_snapshot_with_policy cr m n at (policy_for_period (tm_period m))"

definition validate_disposition :: "scale_judgment \<Rightarrow> unit fallible" where
  "validate_disposition j =
     (if jd_schema_version j = JUDGMENT_SCHEMA_VERSION then
        (case jd_status j of
           Final \<Rightarrow> run_checks [
             ensure (jd_evaluated_at j \<ge> jd_ends j) ''final judgment predates the end of its evaluation period'',
             ensure (jd_execution j = AutomaticLifecycleActionRequired)
               ''final judgment must require automatic lifecycle execution'']
         | PartialSnapshot \<Rightarrow> run_checks [
             ensure (jd_started j \<le> jd_evaluated_at j \<and> jd_evaluated_at j < jd_ends j)
               ''partial judgment must fall within its open evaluation period'',
             ensure (jd_execution j = PartialObservationOnly)
               ''partial judgment cannot execute before the period closes''])
      else if jd_schema_version j = LEGACY_ADVISORY_JUDGMENT_SCHEMA_VERSION then
        (case jd_status j of
           Final \<Rightarrow> run_checks [
             ensure (jd_evaluated_at j \<ge> jd_ends j)
               ''legacy final judgment predates the end of its evaluation period'',
             ensure (jd_execution j = AuthenticatedOperatorConfirmationRequired)
               ''legacy final judgment must preserve its operator-confirmation disposition'']
         | PartialSnapshot \<Rightarrow> run_checks [
             ensure (jd_started j \<le> jd_evaluated_at j \<and> jd_evaluated_at j < jd_ends j)
               ''legacy partial judgment must fall within its open evaluation period'',
             ensure (jd_execution j = AdvisorySnapshotOnly)
               ''legacy partial judgment must preserve its observation-only disposition''])
      else Inl (''unsupported judgment schema version '' @ decimal (jd_schema_version j)))"

definition validate_judgment :: "scale_judgment \<Rightarrow> unit fallible" where
  "validate_judgment j =
     and_then (run_checks [
       ensure (jd_schema_version j = LEGACY_ADVISORY_JUDGMENT_SCHEMA_VERSION
               \<or> jd_schema_version j = JUDGMENT_SCHEMA_VERSION)
         (''unsupported judgment schema version '' @ decimal (jd_schema_version j)),
       ensure (jd_metrics_schema_version j = METRICS_SCHEMA_VERSION)
         ''unsupported metrics schema referenced by judgment'',
       ensure (i64_checked_add (jd_started j) (duration_seconds (jd_period j)) = Some (jd_ends j))
         ''judgment evaluation period has invalid bounds'',
       validate_disposition j,
       ensure (jp_period (jd_policy j) = jd_period j) ''judgment policy and judgment use different periods'',
       validate_judgment_policy (jd_policy j),
       validate_availability (jd_availability j) (sc_wealth (jd_scores j) \<noteq> None),
       validate_weights (jd_weights j) (jd_availability j) (sc_wealth (jd_scores j) \<noteq> None),
       validate_scores (jd_scores j),
       validate_evidence (jd_evidence j) (jd_policy j)]) (\<lambda>_.
     and_then (classify_with_relief (jp_thresholds (jd_policy j)) (sc_total (jd_scores j)) (jd_relief j)) (\<lambda>score_outcome.
     let expected = evidence_outcome score_outcome (jd_evidence j) in
     ensure (jd_outcome j = expected \<or> jd_outcome j = Death \<and> expected = Dormant)
       ''judgment outcome does not match its score, thresholds, and evidence floor''))"

end
