(* ===== verification/Scales_Weights.thy ===== *)
theory Scales_Weights
  imports Scales_Judgment
begin

section \<open>The apportionment of weights\<close>

text \<open>
  The weights of the four scales are an apportionment by largest remainders: they use up the whole
  score, each is the quota rounded down or up, and a scale that is inactive or has no appetite has
  no weight.
\<close>

lemma award_key_le_refl: "award_key_le rs i i"
  by (simp add: award_key_le_def)

lemma award_key_le_trans: "award_key_le rs i j \<Longrightarrow> award_key_le rs j k \<Longrightarrow> award_key_le rs i k"
  by (auto simp: award_key_le_def)

lemma award_key_le_linear: "award_key_le rs i j \<or> award_key_le rs j i"
  by (auto simp: award_key_le_def)

lemma fold_max_key:
  "fold (\<lambda>j best. if award_key_le rs best j then j else best) is i = b \<Longrightarrow>
     b \<in> set (i # is) \<and> (\<forall>j\<in>set (i # is). award_key_le rs j b)"
proof (induction "is" arbitrary: i)
  case (Cons j js)
  define i' where "i' = (if award_key_le rs i j then j else i)"
  have "fold (\<lambda>j best. if award_key_le rs best j then j else best) js i' = b"
    using Cons.prems by (simp add: i'_def)
  from Cons.IH[OF this] have b: "b \<in> set (i' # js)" "\<forall>k\<in>set (i' # js). award_key_le rs k b" by blast+
  moreover have "award_key_le rs i i'" "award_key_le rs j i'"
    using award_key_le_linear[of rs i j] award_key_le_refl by (auto simp: i'_def)
  ultimately have "award_key_le rs i b" "award_key_le rs j b"
    using award_key_le_trans by (meson list.set_intros(1))+
  with b show ?case by (auto simp: i'_def split: if_splits)
qed (simp add: award_key_le_refl)

lemma max_by_key_Some: "max_by_key rs is = Some b \<Longrightarrow> b \<in> set is \<and> (\<forall>j\<in>set is. award_key_le rs j b)"
proof (cases "is")
  case (Cons i js)
  assume "max_by_key rs is = Some b"
  with Cons have "fold (\<lambda>j best. if award_key_le rs best j then j else best) js i = b" by simp
  from fold_max_key[OF this] Cons show ?thesis by auto
qed simp

lemma max_by_key_None: "max_by_key rs is = None \<longleftrightarrow> is = []"
  by (cases "is") simp_all

text \<open>The scales still waiting for a point of the remainder.\<close>

definition waiting :: "bool list \<Rightarrow> nat list \<Rightarrow> bool list \<Rightarrow> nat set" where
  "waiting active rs awarded = {i. i < 4 \<and> active ! i \<and> \<not> awarded ! i \<and> 0 < rs ! i}"

lemma finite_waiting [simp]: "finite (waiting active rs awarded)"
  by (simp add: waiting_def)

lemma waiting_awarded:
  "length awarded = 4 \<Longrightarrow> i < 4 \<Longrightarrow> waiting active rs (awarded[i := True]) = waiting active rs awarded - {i}"
  by (auto simp: waiting_def nth_list_update)

lemma award_loop_awards:
  "length awarded = 4 \<Longrightarrow> length result = 4 \<Longrightarrow> k \<le> card (waiting active rs awarded) \<Longrightarrow>
   \<exists>S \<subseteq> waiting active rs awarded. card S = k
     \<and> award_loop k active rs awarded result = map (\<lambda>i. result ! i + (if i \<in> S then 1 else 0)) [0..<4]
     \<and> (\<forall>i\<in>S. \<forall>j<4. active ! j \<and> \<not> awarded ! j \<and> j \<notin> S \<longrightarrow> award_key_le rs j i)"
proof (induction k arbitrary: awarded result)
  case 0
  have "result = map (\<lambda>i. result ! i + (if i \<in> {} then 1 else 0)) [0..<4]"
    using 0 by (simp add: list_eq_iff_nth_eq)
  then show ?case by (intro exI[of _ "{}"]) simp
next
  case (Suc k)
  let ?c = "filter (\<lambda>i. active ! i \<and> \<not> awarded ! i) [0..<4]"
  have "waiting active rs awarded \<noteq> {}" using Suc.prems(3) by force
  then obtain j where j: "j \<in> set ?c" "0 < rs ! j" by (auto simp: waiting_def)
  then obtain i where i: "max_by_key rs ?c = Some i"
    by (metis max_by_key_None list.set(1) empty_iff option.exhaust)
  have best: "\<forall>j<4. active ! j \<and> \<not> awarded ! j \<longrightarrow> award_key_le rs j i" "i \<in> set ?c"
    using max_by_key_Some[OF i] by auto
  with j have "i \<in> waiting active rs awarded" by (auto simp: waiting_def award_key_le_def)
  then have w: "i < 4" "i \<in> waiting active rs awarded" by (simp_all add: waiting_def)
  have "k \<le> card (waiting active rs (awarded[i := True]))"
    using Suc.prems w by (simp add: waiting_awarded card_Diff_singleton_if)
  with Suc.IH[of "awarded[i := True]" "result[i := result ! i + 1]"] Suc.prems obtain S where
    S: "S \<subseteq> waiting active rs (awarded[i := True])" "card S = k"
      "award_loop k active rs (awarded[i := True]) (result[i := result ! i + 1])
        = map (\<lambda>j. result[i := result ! i + 1] ! j + (if j \<in> S then 1 else 0)) [0..<4]"
      "\<forall>i'\<in>S. \<forall>j<4. active ! j \<and> \<not> awarded[i := True] ! j \<and> j \<notin> S \<longrightarrow> award_key_le rs j i'"
    by auto
  have new: "i \<notin> S" "S \<subseteq> waiting active rs awarded"
    using S(1) Suc.prems(1) w by (auto simp: waiting_awarded)
  have "map (\<lambda>j. result[i := result ! i + 1] ! j + (if j \<in> S then 1 else 0)) [0..<4]
      = map (\<lambda>j. result ! j + (if j \<in> insert i S then 1 else 0)) [0..<4]"
    using new(1) Suc.prems(2) w(1) by (auto simp: nth_list_update)
  moreover have "finite S" using new(2) finite_waiting by (rule finite_subset)
  moreover have "\<forall>i'\<in>insert i S. \<forall>j<4. active ! j \<and> \<not> awarded ! j \<and> j \<notin> insert i S \<longrightarrow> award_key_le rs j i'"
    using best(1) S(4) Suc.prems(1) by (auto simp: nth_list_update)
  ultimately show ?case
    using S(1-3) i w new by (intro exI[of _ "insert i S"]) simp
qed

subsection \<open>Quotas\<close>

definition active_sum :: "nat list \<Rightarrow> bool list \<Rightarrow> nat" where
  "active_sum values active = sum_list (map2 (\<lambda>v b. if b then v else 0) values active)"

lemma map2_nth: "length xs = 4 \<Longrightarrow> length ys = 4 \<Longrightarrow> map2 f xs ys = map (\<lambda>i. f (xs ! i) (ys ! i)) [0..<4]"
  by (simp add: list_eq_iff_nth_eq)

lemma sum_list_upt: "sum_list (map f [0..<n]) = (\<Sum>i<n. f i)" for f :: "nat \<Rightarrow> nat"
  by (simp add: interv_sum_list_conv_sum_set_nat lessThan_atLeast0)

lemma active_sum_eq:
  "length values = 4 \<Longrightarrow> length active = 4 \<Longrightarrow>
   active_sum values active = (\<Sum>i<4. if active ! i then values ! i else 0)"
  by (simp add: active_sum_def map2_nth sum_list_upt)

lemma value_le_sum:
  "length values = 4 \<Longrightarrow> length active = 4 \<Longrightarrow> i < 4 \<Longrightarrow> active ! i \<Longrightarrow> values ! i \<le> active_sum values active"
  unfolding active_sum_eq
  by (rule order_trans[OF _ member_le_sum[of i]]) auto

lemma quotients_nth:
  assumes "length values = 4" "length active = 4" "0 < active_sum values active" "i < 4"
  shows "quotients (active_sum values active) values active ! i
     = (if active ! i then values ! i * 10000 div active_sum values active else 0)"
proof -
  let ?W = "active_sum values active"
  have "values ! i * 10000 div ?W \<le> 10000" if "active ! i"
  proof -
    have "values ! i * 10000 \<le> ?W * 10000" using value_le_sum[OF assms(1,2,4) that] by (rule mult_le_mono1)
    then have "values ! i * 10000 div ?W \<le> ?W * 10000 div ?W" by (rule div_le_mono)
    with assms(3) show ?thesis by simp
  qed
  with assms show ?thesis by (auto simp: quotients_def SCORE_MAX_def Let_def u16_max_def)
qed

lemma remainders_nth:
  "length values = 4 \<Longrightarrow> length active = 4 \<Longrightarrow> i < 4 \<Longrightarrow>
   remainders w values active ! i = (if active ! i then values ! i * 10000 mod w else 0)"
  by (simp add: remainders_def SCORE_MAX_def)

lemma quotients_length: "length values = 4 \<Longrightarrow> length active = 4 \<Longrightarrow> length (quotients w values active) = 4"
  by (simp add: quotients_def)

text \<open>What the quotas leave over is at most the number of scales with a remainder.\<close>

lemma remainder_bound:
  assumes "length values = 4" "length active = 4" "0 < active_sum values active"
  defines "W \<equiv> active_sum values active"
  shows "sum_list (quotients W values active) \<le> 10000"
    and "10000 - sum_list (quotients W values active)
           \<le> card (waiting active (remainders W values active) (replicate 4 False))"
proof -
  let ?q = "\<lambda>i. if active ! i then values ! i * 10000 div W else 0"
  let ?r = "\<lambda>i. if active ! i then values ! i * 10000 mod W else 0"
  let ?N = "waiting active (remainders W values active) (replicate 4 False)"
  have W: "0 < W" using assms(3) by (simp add: W_def)
  have sum: "sum_list (quotients W values active) = (\<Sum>i<4. ?q i)"
    using quotients_nth[OF assms(1-3)] quotients_length[OF assms(1,2)]
    unfolding W_def by (simp add: sum_list_sum_nth lessThan_atLeast0)
  have "(\<Sum>i<4. ?q i) * W + (\<Sum>i<4. ?r i) = (\<Sum>i<4. (if active ! i then values ! i else 0) * 10000)"
    unfolding sum_distrib_right sum.distrib[symmetric] by (rule sum.cong) auto
  also have "\<dots> = W * 10000"
    unfolding W_def active_sum_eq[OF assms(1,2)] sum_distrib_right ..
  finally have total: "(\<Sum>i<4. ?q i) * W + (\<Sum>i<4. ?r i) = 10000 * W" by (simp add: mult.commute)
  then have "(\<Sum>i<4. ?q i) * W \<le> 10000 * W" by linarith
  with W have le: "(\<Sum>i<4. ?q i) \<le> 10000" by simp
  then show "sum_list (quotients W values active) \<le> 10000" by (simp only: sum)
  have N: "?N = {i. i < 4 \<and> 0 < ?r i}"
    using assms(1,2) by (auto simp: waiting_def remainders_nth)
  have "(\<Sum>i<4. ?r i) = (\<Sum>i\<in>?N. ?r i)"
    by (rule sum.mono_neutral_right) (auto simp: N)
  also have "\<dots> \<le> (\<Sum>i\<in>?N. W)" using W by (intro sum_mono) (simp add: less_imp_le)
  also have "\<dots> = card ?N * W" by simp
  finally have "10000 * W \<le> (\<Sum>i<4. ?q i) * W + card ?N * W" using total by linarith
  then have "10000 * W \<le> ((\<Sum>i<4. ?q i) + card ?N) * W" by (simp only: add_mult_distrib)
  with W have "10000 \<le> (\<Sum>i<4. ?q i) + card ?N" by simp
  then show "10000 - sum_list (quotients W values active) \<le> card ?N" unfolding sum by linarith
qed

subsection \<open>Equal shares\<close>

lemma equal_shares_length: "length (equal_shares b r active) = length active"
  by (induction b r active rule: equal_shares.induct) simp_all

lemma equal_shares_inactive: "i < length active \<Longrightarrow> \<not> active ! i \<Longrightarrow> equal_shares b r active ! i = 0"
  by (induction b r active arbitrary: i rule: equal_shares.induct) (auto simp: nth_Cons split: nat.splits)

lemma equal_shares_sum:
  "r \<le> length (filter (\<lambda>b. b) active) \<Longrightarrow>
   sum_list (equal_shares b r active) = b * length (filter (\<lambda>b. b) active) + r"
  by (induction b r active rule: equal_shares.induct) (auto simp: Suc_le_eq)

text \<open>The first active scales get the remainder, one each.\<close>

lemma equal_shares_nth:
  "i < length active \<Longrightarrow> active ! i \<Longrightarrow>
   equal_shares b r active ! i = b + (if length (filter (\<lambda>b. b) (take i active)) < r then 1 else 0)"
  by (induction b r active arbitrary: i rule: equal_shares.induct) (auto simp: nth_Cons split: nat.splits)

subsection \<open>The weights\<close>

lemma weights_shared:
  assumes "length values = 4" "length active = 4" "list_ex (\<lambda>b. b) active" "active_sum values active = 0"
  defines "n \<equiv> length (filter (\<lambda>b. b) active)" and "w \<equiv> normalize_weights values active"
  shows "length w = 4" "sum_list w = 10000" "\<And>i. i < 4 \<Longrightarrow> \<not> active ! i \<Longrightarrow> w ! i = 0"
    "\<And>i. i < 4 \<Longrightarrow> active ! i \<Longrightarrow>
       w ! i = 10000 div n + (if length (filter (\<lambda>b. b) (take i active)) < 10000 mod n then 1 else 0)"
proof -
  have w: "w = equal_shares (10000 div n) (10000 mod n) active"
    using assms(4) by (simp add: w_def normalize_weights_def Let_def active_sum_def SCORE_MAX_def n_def)
  have "0 < n" using assms(3) by (auto simp: n_def list_ex_iff filter_empty_conv)
  then have "10000 mod n \<le> n" by (simp add: less_imp_le)
  then have "sum_list w = 10000 div n * n + 10000 mod n" by (simp only: w equal_shares_sum n_def)
  then show "sum_list w = 10000" by simp
  show "length w = 4" "\<And>i. i < 4 \<Longrightarrow> \<not> active ! i \<Longrightarrow> w ! i = 0"
    "\<And>i. i < 4 \<Longrightarrow> active ! i \<Longrightarrow>
       w ! i = 10000 div n + (if length (filter (\<lambda>b. b) (take i active)) < 10000 mod n then 1 else 0)"
    using assms(2) by (simp_all add: w equal_shares_length equal_shares_inactive equal_shares_nth)
qed

lemma weights_apportion:
  assumes "length values = 4" "length active = 4" "0 < active_sum values active"
  defines "W \<equiv> active_sum values active" and "w \<equiv> normalize_weights values active"
  shows "length w = 4" "sum_list w = 10000" "\<And>i. i < 4 \<Longrightarrow> \<not> active ! i \<Longrightarrow> w ! i = 0"
    "\<And>i. i < 4 \<Longrightarrow> active ! i \<Longrightarrow>
       w ! i = values ! i * 10000 div W
       \<or> w ! i = values ! i * 10000 div W + 1 \<and> 0 < values ! i * 10000 mod W"
    "\<And>i j. i < 4 \<Longrightarrow> j < 4 \<Longrightarrow> active ! i \<Longrightarrow> active ! j \<Longrightarrow>
       w ! i = values ! i * 10000 div W + 1 \<Longrightarrow> w ! j = values ! j * 10000 div W \<Longrightarrow>
       values ! j * 10000 mod W < values ! i * 10000 mod W
       \<or> values ! j * 10000 mod W = values ! i * 10000 mod W \<and> i < j"
proof -
  let ?q = "quotients W values active" and ?rs = "remainders W values active"
  note bound = remainder_bound[OF assms(1-3), folded W_def]
  obtain S where S: "S \<subseteq> waiting active ?rs (replicate 4 False)" "card S = 10000 - sum_list ?q"
    "award_loop (10000 - sum_list ?q) active ?rs (replicate 4 False) ?q
      = map (\<lambda>i. ?q ! i + (if i \<in> S then 1 else 0)) [0..<4]"
    "\<forall>i\<in>S. \<forall>j<4. active ! j \<and> \<not> replicate 4 False ! j \<and> j \<notin> S \<longrightarrow> award_key_le ?rs j i"
    using award_loop_awards[of "replicate 4 False" ?q, OF _ quotients_length[OF assms(1,2)] bound(2)] by auto
  have w: "w = map (\<lambda>i. ?q ! i + (if i \<in> S then 1 else 0)) [0..<4]"
    using assms(3) S(3) by (simp add: w_def normalize_weights_def Let_def W_def[symmetric] SCORE_MAX_def
        active_sum_def[symmetric])
  have inS: "i < 4 \<and> active ! i \<and> 0 < values ! i * 10000 mod W" if "i \<in> S" for i
    using S(1) that assms(1,2) by (auto simp: waiting_def remainders_nth split: if_splits)
  have "(\<Sum>i<4. if i \<in> S then 1 else 0 :: nat) = card S"
    using inS by (subst sum.inter_restrict[symmetric]) (auto intro!: arg_cong[of _ _ card])
  moreover have "(\<Sum>i<4. ?q ! i) = sum_list ?q"
    by (simp add: sum_list_sum_nth quotients_length[OF assms(1,2)] lessThan_atLeast0)
  ultimately show "sum_list w = 10000"
    unfolding w sum_list_upt sum.distrib using S(2) bound(1) by simp
  note q = quotients_nth[OF assms(1-3), folded W_def]
  show "length w = 4" "\<And>i. i < 4 \<Longrightarrow> \<not> active ! i \<Longrightarrow> w ! i = 0"
    "\<And>i. i < 4 \<Longrightarrow> active ! i \<Longrightarrow>
       w ! i = values ! i * 10000 div W
       \<or> w ! i = values ! i * 10000 div W + 1 \<and> 0 < values ! i * 10000 mod W"
    using inS q by (auto simp: w)
  fix i j
  assume ij: "i < 4" "j < 4" "active ! i" "active ! j"
    and up: "w ! i = values ! i * 10000 div W + 1" and down: "w ! j = values ! j * 10000 div W"
  then have S_ij: "i \<in> S" "j \<notin> S" using q by (auto simp: w split: if_splits)
  then have "award_key_le ?rs j i" using S(4) ij by simp
  moreover have "i \<noteq> j" using S_ij by auto
  ultimately show "values ! j * 10000 mod W < values ! i * 10000 mod W
       \<or> values ! j * 10000 mod W = values ! i * 10000 mod W \<and> i < j"
    using ij by (auto simp: award_key_le_def remainders_nth[OF assms(1,2)])
qed

lemma weights_spec:
  assumes "length values = 4" "length active = 4" "list_ex (\<lambda>b. b) active"
  shows "length (normalize_weights values active) = 4" "sum_list (normalize_weights values active) = 10000"
    "\<And>i. i < 4 \<Longrightarrow> \<not> active ! i \<Longrightarrow> normalize_weights values active ! i = 0"
  using weights_shared(1-3)[OF assms] weights_apportion(1-3)[OF assms(1,2)] by (cases "active_sum values active = 0"; simp)+

end
