(* ===== verification/Scales_Soundness.thy ===== *)
theory Scales_Soundness
  imports Scales_Weights Economics_Properties
begin

section \<open>Soundness of metrics and judgments\<close>

text \<open>
  The operations on metrics as steps and the invariant their validation states; that scoring,
  weighing and classification cannot fail once the inputs are valid; and when exactly an evaluation
  yields a judgment, which then validates.
\<close>

subsection \<open>Steps on metrics\<close>

datatype metrics_op =
    Op_Restrict scored_availability
  | Op_Rebind tentacle_nature nat
  | Op_Conversation nat bool "nat option" nat
  | Op_Growth nat nat nat
  | Op_EconomicResult nat nat
  | Op_Mlm mlm_distribution
  | Op_Observation economic_snapshot economic_policy economic_provenance
  | Op_Influence nat nat
  | Op_Stress

definition or_unchanged :: "tentacle_metrics \<Rightarrow> tentacle_metrics fallible \<Rightarrow> tentacle_metrics" where
  "or_unchanged m r = (case r of Inl e \<Rightarrow> m | Inr m' \<Rightarrow> m')"

fun metrics_step :: "nature_crypto \<Rightarrow> metrics_op \<Rightarrow> tentacle_metrics \<Rightarrow> tentacle_metrics" where
  "metrics_step cr (Op_Restrict a) m = or_unchanged m (restrict_scored_scales a m)"
| "metrics_step cr (Op_Rebind n epoch) m = fst (rebind_empty_period cr n epoch m)"
| "metrics_step cr (Op_Conversation d r t b) m = record_conversation_with_bonus d r t b m"
| "metrics_step cr (Op_Growth c a p) m = record_growth c a p m"
| "metrics_step cr (Op_EconomicResult r e) m = or_unchanged m (record_economic_result r e m)"
| "metrics_step cr (Op_Mlm d) m = fst (record_mlm_distribution d m)"
| "metrics_step cr (Op_Observation s p v) m = fst (record_node_observation s p v m)"
| "metrics_step cr (Op_Influence g p) m = record_influence g p m"
| "metrics_step cr Op_Stress m = record_nature_adjustment_stress m"

definition metrics_run :: "nature_crypto \<Rightarrow> metrics_op list \<Rightarrow> tentacle_metrics \<Rightarrow> tentacle_metrics" where
  "metrics_run cr ops m = fold (metrics_step cr) ops m"

lemma metrics_run_simps [simp]:
  "metrics_run cr [] m = m"
  "metrics_run cr (op # ops) m = metrics_run cr ops (metrics_step cr op m)"
  by (simp_all add: metrics_run_def)

text \<open>What validation checks, as one predicate.\<close>

definition economics_ok :: "tentacle_metrics \<Rightarrow> bool" where
  "economics_ok m \<longleftrightarrow> (\<forall>r. tm_economics m = Some r \<longrightarrow>
     validate_recorded r = Inr () \<and> tm_wealth m \<noteq> None \<and> economics_scored r (tm_availability m))"

lemma validate_metrics_ok:
  "validate_metrics m = Inr () \<longleftrightarrow>
     tm_schema_version m = METRICS_SCHEMA_VERSION \<and> lower_hex_text 32 (tm_nature_id m)
     \<and> lower_hex_text 64 (tm_fingerprint m) \<and> tm_epoch m > 0
     \<and> i64_checked_add (tm_started m) (duration_seconds (tm_period m)) = Some (tm_ends m)
     \<and> validate_engagement (tm_engagement m) = Inr () \<and> (\<forall>w. tm_wealth m = Some w \<longrightarrow> validate_wealth w = Inr ())
     \<and> validate_availability (tm_availability m) (tm_wealth m \<noteq> None) = Inr () \<and> economics_ok m"
  by (cases "tm_wealth m"; cases "tm_economics m")
     (auto simp: validate_metrics_def economics_ok_def economic_layer_enabled_def)

lemma validate_engagement_ok:
  "validate_engagement e = Inr () \<longleftrightarrow>
     em_returning e \<le> em_conversations e \<and> em_samples e \<le> em_conversations e
     \<and> em_depth_total e \<le> em_conversations e * MAX_CONVERSATION_DEPTH_SAMPLE
     \<and> em_response_total e \<le> em_samples e * MAX_RESPONSE_TIME_MS_SAMPLE
     \<and> em_bonus_total e \<le> em_conversations e * SCORE_MAX"
  by (simp add: validate_engagement_def)

lemma saturating_sample: "x \<le> n * k \<Longrightarrow> saturating_add lim x (min y k) \<le> n * k + k"
  by (simp add: saturating_add_def)

lemma conversation_valid:
  "validate_metrics m = Inr () \<Longrightarrow> validate_metrics (record_conversation_with_bonus d r t b m) = Inr ()"
  unfolding record_conversation_with_bonus_def Let_def
  by (cases t) (auto simp: validate_metrics_ok validate_engagement_ok economics_ok_def add.commute
      intro: saturating_sample[simplified add.commute] le_SucI)

lemma fingerprint_hex:
  assumes "\<forall>m. length (nc_sha256 cr m) = 32"
  shows "nature_fingerprint cr n = Inr f \<Longrightarrow> lower_hex_text 64 f"
  using encode_hex_text[of "nc_sha256 cr (nc_canonical cr n)" 32] assms by (auto simp: nature_fingerprint_def)

lemma nature_id_hex: "validate_nature n = Inr () \<Longrightarrow> lower_hex_text 32 (na_id n)"
  by (simp add: validate_nature_def validate_nature_id_def NATURE_ID_HEX_BYTES_def NATURE_ID_BYTES_def
      lower_hex_text_def)

lemma rebind_valid:
  assumes "\<forall>m. length (nc_sha256 cr m) = 32" "validate_metrics m = Inr ()"
  shows "validate_metrics (fst (rebind_empty_period cr n epoch m)) = Inr ()"
proof (cases "\<not> has_behavior_observations m \<and> validate_nature n = Inr () \<and> epoch > 0")
  case True
  then obtain f where f: "nature_fingerprint cr n = Inr f" by (simp add: nature_fingerprint_def)
  then have "fst (rebind_empty_period cr n epoch m)
      = m\<lparr>tm_nature_id := na_id n, tm_fingerprint := f, tm_epoch := epoch\<rparr>"
    using True by (simp add: rebind_empty_period_def Let_def ensure_def run_checks.simps(1))
  then show ?thesis
    using assms(2) nature_id_hex True fingerprint_hex[OF assms(1) f] by (simp add: validate_metrics_ok economics_ok_def)
next
  case False
  then show ?thesis
    using assms(2)
    by (cases "run_checks [ensure (\<not> has_behavior_observations m) ''an observed metrics period cannot be rebound to another Nature'',
          validate_nature n, ensure (epoch > 0) ''awakening epoch must be positive'']")
       (auto simp: rebind_empty_period_def)
qed

lemma observation_applied:
  assumes "validate_metrics m = Inr ()" "new_with_provenance s p v = Inr r"
  shows "validate_metrics (fst (apply_token_economic_observation r m)) = Inr ()"
proof -
  have "validate_recorded r = Inr ()"
    using assms(2) recorded_well_formed[of s p v] by blast
  then show ?thesis
    using assms(1)
    by (auto simp: apply_token_economic_observation_def Let_def validate_metrics_ok economics_ok_def
        economics_scored_def validate_availability_def active_scales_def validate_wealth_def wealth_default_def
        split: option.splits)
qed

lemma restrict_ok:
  "restrict_scored_scales a m = Inr m' \<longleftrightarrow>
     validate_availability a (tm_wealth m \<noteq> None) = Inr ()
     \<and> (\<forall>r. tm_economics m = Some r \<longrightarrow> economics_scored r a)
     \<and> is_restriction_of a (tm_availability m) \<and> m' = m\<lparr>tm_availability := a\<rparr>"
  by (cases "tm_economics m") (auto simp: restrict_scored_scales_def economic_layer_enabled_def)

lemma economic_result_ok:
  "record_economic_result revenue e m = Inr m' \<longleftrightarrow>
     (\<exists>w. tm_wealth m = Some w \<and>
        m' = (if wm_samples w = u32_max then m else m\<lparr>tm_wealth := Some (w\<lparr>
          wm_revenue := saturating_add u64_max (wm_revenue w) revenue, wm_samples := wm_samples w + 1,
          wm_efficiency_total := saturating_add u64_max (wm_efficiency_total w) (min e SCORE_MAX)\<rparr>)\<rparr>))"
  by (cases "tm_wealth m") (simp_all only: record_economic_result_def ok_or_simps and_then_simps if_both_Inr, simp_all)

lemma or_unchanged_cases:
  "(\<And>m'. r = Inr m' \<Longrightarrow> P m') \<Longrightarrow> P m \<Longrightarrow> P (or_unchanged m r)"
  by (cases r) (simp_all add: or_unchanged_def)

lemma metrics_step_valid:
  assumes "\<forall>m. length (nc_sha256 cr m) = 32" "validate_metrics m = Inr ()"
  shows "validate_metrics (metrics_step cr op m) = Inr ()"
proof (cases op)
  case (Op_Restrict a)
  have "validate_metrics m' = Inr ()" if "restrict_scored_scales a m = Inr m'" for m'
    using that assms(2) unfolding restrict_ok by (auto simp: validate_metrics_ok economics_ok_def)
  with Op_Restrict assms(2) show ?thesis by (auto intro: or_unchanged_cases)
next
  case (Op_EconomicResult rev e)
  have wealth: "validate_wealth w = Inr () \<Longrightarrow> validate_wealth (w\<lparr>wm_revenue := x, wm_samples := wm_samples w + 1,
      wm_efficiency_total := saturating_add u64_max (wm_efficiency_total w) (min e SCORE_MAX)\<rparr>) = Inr ()" for w x
    using saturating_sample[of "wm_efficiency_total w" "wm_samples w" SCORE_MAX]
    by (simp add: validate_wealth_def add.commute)
  have "validate_metrics m' = Inr ()" if step: "record_economic_result rev e m = Inr m'" for m'
  proof -
    from step obtain w where "tm_wealth m = Some w" and m': "m' = (if wm_samples w = u32_max then m
        else m\<lparr>tm_wealth := Some (w\<lparr>wm_revenue := saturating_add u64_max (wm_revenue w) rev,
          wm_samples := wm_samples w + 1,
          wm_efficiency_total := saturating_add u64_max (wm_efficiency_total w) (min e SCORE_MAX)\<rparr>)\<rparr>)"
      unfolding economic_result_ok by blast
    with wealth assms(2) show ?thesis
      by (cases "wm_samples w = u32_max") (simp_all add: validate_metrics_ok economics_ok_def)
  qed
  with Op_EconomicResult assms(2) show ?thesis by (auto intro: or_unchanged_cases)
next
  case (Op_Mlm d)
  with assms(2) show ?thesis
    by (cases "validate_distribution d"; cases "tm_wealth m")
       (simp_all add: record_mlm_distribution_def Let_def validate_metrics_ok economics_ok_def validate_wealth_def)
next
  case (Op_Observation s p v)
  then show ?thesis
    using assms(2) observation_applied by (cases "new_with_provenance s p v") (auto simp: record_node_observation_def)
qed (use assms in \<open>simp_all add: conversation_valid rebind_valid record_growth_def record_influence_def
      record_nature_adjustment_stress_def Let_def validate_metrics_ok economics_ok_def\<close>)

lemma metrics_run_valid:
  "\<forall>m. length (nc_sha256 cr m) = 32 \<Longrightarrow> validate_metrics m = Inr () \<Longrightarrow> validate_metrics (metrics_run cr ops m) = Inr ()"
  by (induction ops arbitrary: m) (simp_all add: metrics_step_valid)

lemma new_metrics_valid:
  assumes "\<forall>m. length (nc_sha256 cr m) = 32" "TentacleMetrics_new cr period started enabled n epoch = Inr m"
  shows "validate_metrics m = Inr ()"
  using assms(2) nature_id_hex[of n] fingerprint_hex[OF assms(1), of n]
  by (auto simp: TentacleMetrics_new_def validate_metrics_ok validate_engagement_ok engagement_default_def
      validate_wealth_def wealth_default_def validate_availability_def for_economic_layer_def active_scales_def
      economics_ok_def split: if_splits)

subsection \<open>Scoring cannot fail\<close>

lemma ratio_score_bound: "ratio_score a b \<le> 10000"
proof (cases "b = 0")
  case False
  then show ?thesis unfolding ratio_score_def SCORE_MAX_def by (simp only: if_False min.cobounded2)
qed (simp add: ratio_score_def)

lemma component_score_bound: "component_score ps \<le> 10000"
  unfolding component_score_def SCORE_MAX_def by (rule min.cobounded2)

lemma response_time_bound: "response_time_score c d e f \<le> 10000"
  using ratio_score_bound[of "d * f - c" "d * f - d * e"] by (simp add: response_time_score_def Let_def SCORE_MAX_def)

lemma score_bounds:
  "score_growth g t \<le> 10000" "score_wealth w t \<le> 10000" "score_influence i t \<le> 10000"
  "primary_token_wealth_score x y \<le> 10000" "weighted_total ws u v q z \<le> 10000" "stress_penalty k \<le> 1000"
  unfolding score_growth_def score_wealth_def score_influence_def primary_token_wealth_score_def weighted_total_def
    stress_penalty_def Let_def SCORE_MAX_def MAX_STRESS_PENALTY_def
  by (rule component_score_bound min.cobounded2)+

lemma adjustment_total:
  "base \<le> 10000 \<Longrightarrow> a \<le> 10000 \<Longrightarrow> \<exists>s. apply_score_adjustment base a = Inr s \<and> s \<le> 10000"
  using adjusted_score[of base a] by (simp add: NORMALIZED_ECONOMIC_MAX_def)

lemma score_engagement_total: "\<exists>s. score_engagement e t = Inr s \<and> s \<le> 10000"
  unfolding score_engagement_def Let_def
  by (intro adjustment_total component_score_bound) (simp add: SCORE_MAX_def)

lemma effect_bounds:
  assumes "economics_ok m"
  shows "effect_or_zero ef_engagement (tm_economics m) \<le> 10000" "effect_or_zero ef_growth (tm_economics m) \<le> 10000"
    "effect_or_zero ef_influence (tm_economics m) \<le> 10000"
    "effect_or_zero ef_starvation_relief (tm_economics m) \<le> 10000"
proof -
  have "validate_effects (re_effects r) = Inr ()" if "tm_economics m = Some r" for r
    using assms that effects_of_valid by (auto simp: economics_ok_def validate_recorded_ok)
  then show "effect_or_zero ef_engagement (tm_economics m) \<le> 10000" "effect_or_zero ef_growth (tm_economics m) \<le> 10000"
    "effect_or_zero ef_influence (tm_economics m) \<le> 10000"
    "effect_or_zero ef_starvation_relief (tm_economics m) \<le> 10000"
    by (auto simp: effect_or_zero_def validate_effects_ok NORMALIZED_ECONOMIC_MAX_def split: option.splits)
qed

lemma scores_loop_ok: "scores_loop xs = Inr () \<longleftrightarrow> (\<forall>x\<in>set xs. snd x \<le> SCORE_MAX)"
  by (induction xs rule: scores_loop.induct) auto

lemma score_metrics_total:
  assumes "validate_targets t = Inr ()" "economics_ok m"
  shows "\<exists>s. score_metrics m t w = Inr s \<and> validate_scores s = Inr () \<and> sc_total s \<le> 10000
     \<and> (sc_wealth s = None \<longleftrightarrow> tm_wealth m = None)"
proof -
  note bounds = score_bounds(1,2,3,4) effect_bounds[OF assms(2)]
  obtain e0 where e0: "score_engagement (tm_engagement m) t = Inr e0" "e0 \<le> 10000"
    using score_engagement_total by blast
  obtain e where e: "apply_score_adjustment e0 (effect_or_zero ef_engagement (tm_economics m)) = Inr e" "e \<le> 10000"
    using adjustment_total[OF e0(2) bounds(5)] by blast
  obtain g where g: "apply_score_adjustment (score_growth (tm_growth m) t) (effect_or_zero ef_growth (tm_economics m)) = Inr g"
    "g \<le> 10000" using adjustment_total[OF bounds(1,6)] by blast
  obtain i where i: "apply_score_adjustment (score_influence (tm_influence m) t)
      (effect_or_zero ef_influence (tm_economics m)) = Inr i" "i \<le> 10000"
    using adjustment_total[OF bounds(3,7)] by blast
  define wealth where "wealth = (case tm_wealth m of None \<Rightarrow> None
    | Some x \<Rightarrow> Some (case tm_economics m of None \<Rightarrow> score_wealth x t
        | Some r \<Rightarrow> primary_token_wealth_score (ef_wealth (re_effects r)) (score_wealth x t)))"
  have wealth: "wealth = None \<longleftrightarrow> tm_wealth m = None" "\<forall>x. wealth = Some x \<longrightarrow> x \<le> 10000"
    using bounds by (auto simp: wealth_def split: option.splits)
  define before where "before = weighted_total w e g (case wealth of None \<Rightarrow> 0 | Some x \<Rightarrow> x) i"
  define s where "s = \<lparr>sc_engagement = e, sc_growth = g, sc_wealth = wealth, sc_influence = i,
    sc_before_stress = before, sc_stress_penalty = stress_penalty (tm_stress m),
    sc_total = saturating_sub before (stress_penalty (tm_stress m))\<rparr>"
  have before: "before \<le> 10000" unfolding before_def by (rule score_bounds(5))
  have valid: "validate_scores s = Inr ()"
    using e g i wealth before score_bounds(6)[of "tm_stress m"]
    by (cases wealth) (simp_all add: s_def validate_scores_def scores_loop_ok SCORE_MAX_def MAX_STRESS_PENALTY_def
        saturating_sub_def)
  then have "score_metrics m t w = Inr s"
    using assms(1) e0 e g i by (simp add: score_metrics_def Let_def wealth_def[symmetric] before_def[symmetric] s_def[symmetric])
  with valid wealth before show ?thesis by (simp add: s_def saturating_sub_def)
qed

lemma weights_total_valid:
  assumes "validate_nature n = Inr ()" "validate_availability a enabled = Inr ()"
  shows "\<exists>w. weights_with_availability n a enabled = Inr w \<and> validate_weights w a enabled = Inr ()"
proof -
  let ?vs = "[na_engagement n, na_growth n, na_wealth n, na_influence n]"
  define ws where "ws = normalize_weights ?vs (active_scales a)"
  have active: "length (active_scales a) = 4" "list_ex (\<lambda>b. b) (active_scales a)" "enabled \<or> \<not> sa_wealth a"
    using assms(2) by (simp_all add: validate_availability_def active_scales_def)
  note apportioned = weights_spec[of ?vs, OF _ active(1,2), folded ws_def, simplified]
  then have inactive: "\<forall>i. i < 4 \<longrightarrow> \<not> active_scales a ! i \<longrightarrow> ws ! i = 0" by blast
  have off: "sa_engagement a \<or> ws ! 0 = 0" "sa_growth a \<or> ws ! 1 = 0" "sa_wealth a \<or> ws ! 2 = 0"
    "sa_influence a \<or> ws ! 3 = 0"
    using inactive[THEN spec, of 0] inactive[THEN spec, of 1] inactive[THEN spec, of 2] inactive[THEN spec, of 3]
    by (auto simp: active_scales_def)
  obtain x y z u where ws: "ws = [x, y, z, u]"
    using apportioned(1) by (auto simp: length_Suc_conv numeral_eq_Suc)
  then have "x + y + z + u = 10000" using apportioned(2) by simp
  then have "validate_weights \<lparr>sw_engagement = ws ! 0, sw_growth = ws ! 1, sw_wealth = ws ! 2, sw_influence = ws ! 3\<rparr> a enabled = Inr ()"
    using assms(2) off active(3)
    by (auto simp: validate_weights_def weights_total_def saturating_add_def u16_max_def SCORE_MAX_def ws)
  then show ?thesis
    using assms by (simp add: weights_with_availability_def Let_def ws_def[symmetric])
qed

definition survival_floor :: "judgment_thresholds \<Rightarrow> nat \<Rightarrow> nat" where
  "survival_floor t relief = min (max (saturating_sub (jt_survival t) relief) 1) (jt_propagation t - 1)"

definition starvation_floor :: "judgment_thresholds \<Rightarrow> nat \<Rightarrow> nat" where
  "starvation_floor t relief = min (saturating_sub (jt_starvation t) relief) (survival_floor t relief - 1)"

lemma classify_Inr:
  "classify_with_relief t s r = Inr oc \<longleftrightarrow>
     validate_thresholds t = Inr () \<and> s \<le> 10000 \<and> r \<le> 10000
     \<and> oc = (if jt_propagation t \<le> s then PropagationRights else if survival_floor t r \<le> s then Survival
             else if starvation_floor t r \<le> s then StarvationWarning else Dormant)"
  unfolding classify_with_relief_def Let_def survival_floor_def[symmetric] starvation_floor_def[symmetric] SCORE_MAX_def
  by auto

lemma classify_total:
  "validate_thresholds t = Inr () \<Longrightarrow> s \<le> 10000 \<Longrightarrow> r \<le> 10000 \<Longrightarrow> \<exists>oc. classify_with_relief t s r = Inr oc"
  by (simp add: classify_Inr)

lemma validate_economics_scores: "validate_metrics m = Inr () \<Longrightarrow> economics_ok m"
  by (simp add: validate_metrics_ok)

subsection \<open>Evaluation\<close>

definition evaluable :: "nature_crypto \<Rightarrow> tentacle_metrics \<Rightarrow> tentacle_nature \<Rightarrow> int \<Rightarrow> judgment_policy \<Rightarrow> evaluation_status \<Rightarrow> bool" where
  "evaluable cr m n at p status \<longleftrightarrow>
     validate_metrics m = Inr () \<and> validate_nature n = Inr ()
     \<and> tm_nature_id m = na_id n \<and> nature_fingerprint cr n = Inr (tm_fingerprint m)
     \<and> validate_judgment_policy p = Inr () \<and> jp_period p = tm_period m
     \<and> (case status of Final \<Rightarrow> tm_ends m \<le> at | PartialSnapshot \<Rightarrow> tm_started m \<le> at \<and> at < tm_ends m)
     \<and> (tm_wealth m \<noteq> None \<longrightarrow> (\<exists>r. tm_economics m = Some r \<and> re_provenance r \<noteq> None))"

lemma evaluate_internal_ok:
  "evaluate_internal cr m n at p status = Inr j \<longleftrightarrow>
     evaluable cr m n at p status \<and> (\<exists>w s oc.
        weights_with_availability n (tm_availability m) (economic_layer_enabled m) = Inr w
        \<and> score_metrics m (jp_targets p) w = Inr s
        \<and> classify_with_relief (jp_thresholds p) (sc_total s) (effect_or_zero ef_starvation_relief (tm_economics m)) = Inr oc
        \<and> j = \<lparr>jd_schema_version = JUDGMENT_SCHEMA_VERSION, jd_metrics_schema_version = tm_schema_version m,
             jd_period = tm_period m, jd_started = tm_started m, jd_ends = tm_ends m, jd_evaluated_at = at,
             jd_status = status, jd_policy = p, jd_availability = tm_availability m, jd_weights = w,
             jd_scores = s, jd_evidence = evidence_from_metrics m p,
             jd_relief = effect_or_zero ef_starvation_relief (tm_economics m),
             jd_outcome = evidence_outcome oc (evidence_from_metrics m p), jd_execution = execution_of status\<rparr>)"
proof -
  have econ: "(\<not> economic_layer_enabled m \<or> (case tm_economics m of None \<Rightarrow> False | Some r \<Rightarrow> re_provenance r \<noteq> None))
      \<longleftrightarrow> (tm_wealth m \<noteq> None \<longrightarrow> (\<exists>r. tm_economics m = Some r \<and> re_provenance r \<noteq> None))"
    by (auto simp: economic_layer_enabled_def split: option.splits)
  show ?thesis
    unfolding evaluate_internal_def evaluable_def econ Let_def
    by (cases status; cases "nature_fingerprint cr n") auto
qed

lemma evaluable_total:
  assumes "evaluable cr m n at p status"
  shows "\<exists>j. evaluate_internal cr m n at p status = Inr j"
proof -
  have ok: "validate_metrics m = Inr ()" "validate_nature n = Inr ()" "validate_judgment_policy p = Inr ()"
    using assms by (simp_all add: evaluable_def)
  then have t: "validate_targets (jp_targets p) = Inr ()" "validate_thresholds (jp_thresholds p) = Inr ()"
    by (simp_all add: validate_judgment_policy_def)
  have "validate_availability (tm_availability m) (economic_layer_enabled m) = Inr ()"
    using ok(1) by (simp add: validate_metrics_ok economic_layer_enabled_def)
  then obtain w where w: "weights_with_availability n (tm_availability m) (economic_layer_enabled m) = Inr w"
    using weights_total_valid[OF ok(2)] by blast
  obtain s where s: "score_metrics m (jp_targets p) w = Inr s" "sc_total s \<le> 10000"
    using score_metrics_total[OF t(1) validate_economics_scores[OF ok(1)]] by blast
  obtain oc where "classify_with_relief (jp_thresholds p) (sc_total s)
      (effect_or_zero ef_starvation_relief (tm_economics m)) = Inr oc"
    using classify_total[OF t(2) s(2) effect_bounds(4)[OF validate_economics_scores[OF ok(1)]]] by blast
  with w s(1) assms show ?thesis unfolding evaluate_internal_ok by blast
qed

lemma evidence_valid:
  assumes "validate_metrics m = Inr ()" "tm_wealth m \<noteq> None \<longrightarrow> tm_economics m \<noteq> None"
  shows "validate_evidence (evidence_from_metrics m p) p = Inr ()"
proof (cases "tm_economics m")
  case None
  with assms show ?thesis
    by (simp add: validate_evidence_def evidence_from_metrics_def stake_evidence_def Let_def economic_layer_enabled_def
        validate_metrics_ok validate_engagement_ok)
next
  case (Some r)
  then have "validate_recorded r = Inr ()" using assms(1) by (simp add: validate_metrics_ok economics_ok_def)
  then have "es_stake (re_snapshot r) \<le> SCORE_MAX" "ep_propagation_stake (re_policy r) \<le> SCORE_MAX"
    "ef_propagation_eligible (re_effects r) \<longleftrightarrow> es_stake (re_snapshot r) \<ge> ep_propagation_stake (re_policy r)"
    by (auto simp: validate_recorded_ok validate_snapshot_ok validate_economic_policy_ok SCORE_MAX_def
        NORMALIZED_ECONOMIC_MAX_def effects_of_def)
  with Some assms(1) show ?thesis
    by (auto simp: validate_evidence_def evidence_from_metrics_def stake_evidence_def Let_def
        validate_metrics_ok validate_engagement_ok)
qed

lemma judgment_validates:
  assumes "evaluate_internal cr m n at p status = Inr j"
  shows "validate_judgment j = Inr ()"
proof -
  from assms obtain w s oc where ev: "evaluable cr m n at p status"
    and w: "weights_with_availability n (tm_availability m) (economic_layer_enabled m) = Inr w"
    and s: "score_metrics m (jp_targets p) w = Inr s"
    and oc: "classify_with_relief (jp_thresholds p) (sc_total s) (effect_or_zero ef_starvation_relief (tm_economics m)) = Inr oc"
    and j: "j = \<lparr>jd_schema_version = JUDGMENT_SCHEMA_VERSION, jd_metrics_schema_version = tm_schema_version m,
             jd_period = tm_period m, jd_started = tm_started m, jd_ends = tm_ends m, jd_evaluated_at = at,
             jd_status = status, jd_policy = p, jd_availability = tm_availability m, jd_weights = w,
             jd_scores = s, jd_evidence = evidence_from_metrics m p,
             jd_relief = effect_or_zero ef_starvation_relief (tm_economics m),
             jd_outcome = evidence_outcome oc (evidence_from_metrics m p), jd_execution = execution_of status\<rparr>"
    unfolding evaluate_internal_ok by blast
  have ok: "validate_metrics m = Inr ()" "validate_nature n = Inr ()" "validate_judgment_policy p = Inr ()"
    "jp_period p = tm_period m" "tm_wealth m \<noteq> None \<longrightarrow> tm_economics m \<noteq> None"
    using ev by (auto simp: evaluable_def)
  have targets: "validate_targets (jp_targets p) = Inr ()" using ok(3) by (simp add: validate_judgment_policy_def)
  have scores: "validate_scores s = Inr ()" "sc_wealth s = None \<longleftrightarrow> tm_wealth m = None"
    using score_metrics_total[OF targets validate_economics_scores[OF ok(1)], of w] s by auto
  have availability: "validate_availability (tm_availability m) (tm_wealth m \<noteq> None) = Inr ()"
    using ok(1) by (simp add: validate_metrics_ok)
  then have weights: "validate_weights w (tm_availability m) (tm_wealth m \<noteq> None) = Inr ()"
    using weights_total_valid[OF ok(2) availability] w unfolding economic_layer_enabled_def by force
  have disposition: "validate_disposition j = Inr ()"
    using ev by (cases status) (auto simp: validate_disposition_def j evaluable_def execution_of_def)
  show ?thesis
    using disposition ok weights availability scores evidence_valid[OF ok(1,5)] oc
    by (simp add: validate_judgment_def j Let_def JUDGMENT_SCHEMA_VERSION_def validate_metrics_ok)
qed

end
