(* ===== verification/Scales_History.thy ===== *)
theory Scales_History
  imports Scales_Soundness Ordered_Map
begin

section \<open>The evolution history (cthuwu: scales.rs)\<close>

text \<open>
  History records with their identifier and validation, the lookup catalog, and the journal.  A
  journal is the sequence of the records its lines decode to, or nothing when there is no file; the
  canonical encoding that is hashed and the length of a record's line are parameters.  File access,
  permissions and the atomic replacement of the file are not modelled.
\<close>

definition EVOLUTION_HISTORY_SCHEMA_VERSION :: nat where "EVOLUTION_HISTORY_SCHEMA_VERSION = 2"
definition LEGACY_ADVISORY_HISTORY_SCHEMA_VERSION :: nat where "LEGACY_ADVISORY_HISTORY_SCHEMA_VERSION = 1"
definition MAX_HISTORY_LINE_BYTES :: nat where "MAX_HISTORY_LINE_BYTES = 512 * 1024"

record history_record =
  hr_schema_version :: nat
  hr_judgment_id :: string
  hr_nature_id :: string
  hr_fingerprint :: string
  hr_epoch :: nat
  hr_metrics :: tentacle_metrics
  hr_judgment :: scale_judgment

record history_codec =
  hc_canonical :: "nat \<Rightarrow> string \<Rightarrow> string \<Rightarrow> nat \<Rightarrow> tentacle_metrics \<Rightarrow> scale_judgment \<Rightarrow> bytes"
  hc_sha256 :: "bytes \<Rightarrow> bytes"
  hc_line :: "history_record \<Rightarrow> nat"

definition compute_judgment_id :: "history_codec \<Rightarrow> history_record \<Rightarrow> string" where
  "compute_judgment_id c r = encode_hex (hc_sha256 c (hc_canonical c (hr_schema_version r) (hr_nature_id r)
     (hr_fingerprint r) (hr_epoch r) (hr_metrics r) (hr_judgment r)))"

definition validate_binding :: "history_record \<Rightarrow> unit fallible" where
  "validate_binding r =
     (let m = hr_metrics r; j = hr_judgment r; v = jd_evidence j in run_checks [
       ensure (jd_status j = Final \<and> jd_evaluated_at j = tm_ends m)
         ''evolution history accepts only deterministic final judgments evaluated at period end'',
       ensure (tm_schema_version m = jd_metrics_schema_version j \<and> tm_period m = jd_period j
               \<and> tm_started m = jd_started j \<and> tm_ends m = jd_ends j)
         ''evolution-history metrics and judgment refer to different periods'',
       ensure (economic_layer_enabled m \<longleftrightarrow> sc_wealth (jd_scores j) \<noteq> None)
         ''evolution-history metrics and judgment disagree about the economic layer'',
       ensure (hr_schema_version r = EVOLUTION_HISTORY_SCHEMA_VERSION \<longrightarrow>
               \<not> economic_layer_enabled m
               \<or> (case tm_economics m of None \<Rightarrow> False | Some e \<Rightarrow> re_provenance e \<noteq> None))
         ''economic evolution history requires provenance-bound node data'',
       ensure (tm_availability m = jd_availability j)
         ''evolution-history metrics and judgment disagree about scored-scale availability'',
       ensure (em_conversations (tm_engagement m) = pe_conversations v
               \<and> em_returning (tm_engagement m) = pe_returning v)
         ''evolution-history metrics and judgment disagree about propagation evidence'',
       ensure (jd_relief j = effect_or_zero ef_starvation_relief (tm_economics m))
         ''evolution-history metrics and judgment disagree about economic starvation relief'',
       ensure ((pe_stake v, pe_required_stake v, pe_stake_eligible v) = stake_evidence m)
         ''evolution-history metrics and judgment disagree about propagation stake evidence'',
       ensure (tm_nature_id m = hr_nature_id r \<and> tm_fingerprint m = hr_fingerprint r \<and> tm_epoch m = hr_epoch r)
         ''evolution-history Nature binding is inconsistent''])"

definition validate_history_record :: "history_codec \<Rightarrow> history_record \<Rightarrow> unit fallible" where
  "validate_history_record c r = run_checks [
     ensure (hr_schema_version r = LEGACY_ADVISORY_HISTORY_SCHEMA_VERSION
             \<or> hr_schema_version r = EVOLUTION_HISTORY_SCHEMA_VERSION)
       (''unsupported evolution-history schema version '' @ decimal (hr_schema_version r)),
     ensure (hr_schema_version r = EVOLUTION_HISTORY_SCHEMA_VERSION
               \<and> jd_schema_version (hr_judgment r) = JUDGMENT_SCHEMA_VERSION
             \<or> hr_schema_version r = LEGACY_ADVISORY_HISTORY_SCHEMA_VERSION
               \<and> jd_schema_version (hr_judgment r) = LEGACY_ADVISORY_JUDGMENT_SCHEMA_VERSION)
       ''evolution-history and judgment schema generations do not match'',
     ensure (lower_hex_text 32 (hr_nature_id r))
       ''evolution-history nature ID must be 32 lowercase hexadecimal characters'',
     ensure (lower_hex_text 64 (hr_fingerprint r)) ''evolution-history Nature fingerprint is invalid'',
     ensure (hr_epoch r > 0) ''evolution-history awakening epoch is invalid'',
     ensure (lower_hex_text 64 (hr_judgment_id r) \<and> hr_judgment_id r = compute_judgment_id c r)
       ''evolution-history judgment ID is invalid'',
     validate_metrics (hr_metrics r),
     validate_judgment (hr_judgment r),
     validate_binding r]"

definition EvolutionHistoryRecord_new ::
    "history_codec \<Rightarrow> nature_crypto \<Rightarrow> tentacle_nature \<Rightarrow> tentacle_metrics \<Rightarrow> scale_judgment \<Rightarrow> history_record fallible" where
  "EvolutionHistoryRecord_new c cr n m j =
     and_then (validate_nature n) (\<lambda>_.
     and_then (nature_fingerprint cr n) (\<lambda>fingerprint.
     and_then (ensure (tm_nature_id m = na_id n \<and> tm_fingerprint m = fingerprint)
                 ''evolution-history metrics are bound to a different Nature'') (\<lambda>_.
     let r = \<lparr>hr_schema_version = EVOLUTION_HISTORY_SCHEMA_VERSION, hr_judgment_id = [], hr_nature_id = na_id n,
              hr_fingerprint = tm_fingerprint m, hr_epoch = tm_epoch m, hr_metrics = m, hr_judgment = j\<rparr>;
         r' = r\<lparr>hr_judgment_id := compute_judgment_id c r\<rparr>
     in and_then (validate_history_record c r') (\<lambda>_. Inr r'))))"

definition authorizes_automatic_lifecycle :: "history_record \<Rightarrow> bool" where
  "authorizes_automatic_lifecycle r \<longleftrightarrow>
     hr_schema_version r = EVOLUTION_HISTORY_SCHEMA_VERSION
     \<and> jd_schema_version (hr_judgment r) = JUDGMENT_SCHEMA_VERSION
     \<and> jd_execution (hr_judgment r) = AutomaticLifecycleActionRequired"

definition has_same_period_key :: "history_record \<Rightarrow> history_record \<Rightarrow> bool" where
  "has_same_period_key r r' \<longleftrightarrow>
     hr_fingerprint r = hr_fingerprint r' \<and> hr_epoch r = hr_epoch r'
     \<and> tm_period (hr_metrics r) = tm_period (hr_metrics r')
     \<and> tm_started (hr_metrics r) = tm_started (hr_metrics r') \<and> tm_ends (hr_metrics r) = tm_ends (hr_metrics r')"

subsection \<open>The catalog\<close>

record history_catalog =
  ca_index :: "(string, history_record) bmap"
  ca_last :: "history_record option"
  ca_count :: nat

definition catalog_new :: history_catalog where
  "catalog_new = \<lparr>ca_index = bm_empty, ca_last = None, ca_count = 0\<rparr>"

definition catalog_insert :: "history_record \<Rightarrow> history_catalog \<Rightarrow> history_catalog fallible" where
  "catalog_insert r k =
     (if bm_contains (ca_index k) (hr_judgment_id r)
      then Inl ''evolution history contains a duplicate judgment ID''
      else and_then (ok_or ''evolution history record count overflowed'' (checked_add u64_max (ca_count k) 1)) (\<lambda>n.
        Inr \<lparr>ca_index = bm_insert (hr_judgment_id r) r (ca_index k), ca_last = Some r, ca_count = n\<rparr>))"

definition catalog_get :: "history_codec \<Rightarrow> history_catalog \<Rightarrow> string \<Rightarrow> history_record option fallible" where
  "catalog_get c k i =
     and_then (ensure (lower_hex_text 64 i) ''history lookup judgment ID must be lowercase SHA-256 hex'') (\<lambda>_.
       case bm_get (ca_index k) i of
         None \<Rightarrow> Inr None
       | Some r \<Rightarrow> and_then (run_checks [
            ensure (hc_line c r \<le> MAX_HISTORY_LINE_BYTES) ''indexed evolution-history record exceeds its line bound'',
            validate_history_record c r,
            ensure (hr_judgment_id r = i) ''indexed judgment record identity mismatch'']) (\<lambda>_. Inr (Some r)))"

subsection \<open>The journal\<close>

text \<open>One line of the scan: its length with the newline, its record, and its place after the last.\<close>

definition check_line :: "history_codec \<Rightarrow> int option \<Rightarrow> history_record \<Rightarrow> unit fallible" where
  "check_line c previous_end r = run_checks [
     ensure (hc_line c r + 1 \<le> MAX_HISTORY_LINE_BYTES) ''evolution-history record exceeds its line bound'',
     validate_history_record c r,
     (case previous_end of
        None \<Rightarrow> Inr ()
      | Some e \<Rightarrow> ensure (tm_started (hr_metrics r) \<ge> e) ''evolution history periods are reordered or overlapping'')]"

fun scan_history :: "history_codec \<Rightarrow> (history_record \<Rightarrow> 's \<Rightarrow> 's fallible) \<Rightarrow> int option \<Rightarrow> history_record list \<Rightarrow> 's \<Rightarrow> 's fallible" where
  "scan_history c visit previous_end [] s = Inr s"
| "scan_history c visit previous_end (r # rs) s =
     and_then (check_line c previous_end r) (\<lambda>_.
     and_then (visit r s) (\<lambda>s'. scan_history c visit (Some (tm_ends (hr_metrics r))) rs s'))"

definition journal_catalog :: "history_codec \<Rightarrow> history_record list option \<Rightarrow> history_catalog fallible" where
  "journal_catalog c journal =
     (case journal of None \<Rightarrow> Inr catalog_new | Some rs \<Rightarrow> scan_history c catalog_insert None rs catalog_new)"

definition append_visit :: "history_record \<Rightarrow> history_record \<Rightarrow> history_catalog \<times> bool \<Rightarrow> (history_catalog \<times> bool) fallible" where
  "append_visit new existing s =
     and_then (catalog_insert existing (fst s)) (\<lambda>k.
     if has_same_period_key existing new
     then and_then (ensure (hr_judgment_id existing = hr_judgment_id new \<and> existing = new)
            ''evolution history conflicts with an existing judgment for the same Nature period'') (\<lambda>_. Inr (k, True))
     else Inr (k, snd s))"

definition append_history :: "history_codec \<Rightarrow> history_record \<Rightarrow> history_record list option \<Rightarrow> history_record list option fallible" where
  "append_history c r journal =
     and_then (validate_history_record c r) (\<lambda>_.
     and_then (case journal of None \<Rightarrow> Inr (catalog_new, False)
               | Some rs \<Rightarrow> scan_history c (append_visit r) None rs (catalog_new, False)) (\<lambda>(k, already_present).
     if already_present then Inr journal
     else and_then (catalog_get c k (hr_judgment_id r)) (\<lambda>found.
       and_then (run_checks [
         ensure (found = None) ''evolution history reuses a judgment ID for another period'',
         (case ca_last k of
            None \<Rightarrow> Inr ()
          | Some previous \<Rightarrow> ensure (tm_started (hr_metrics r) \<ge> tm_ends (hr_metrics previous))
              ''evolution history periods must be monotonic and non-overlapping''),
         ensure (hc_line c r + 1 \<le> MAX_HISTORY_LINE_BYTES) ''evolution-history record exceeds its line bound''])
       (\<lambda>_. Inr (Some (case journal of None \<Rightarrow> [r] | Some rs \<Rightarrow> rs @ [r]))))))"

end
