(* ===== verification/Scales_Properties.thy ===== *)
theory Scales_Properties
  imports Scales_Soundness
begin

section \<open>Properties of the scales\<close>

text \<open>
  What the metrics, the weights, the classification and the judgment of an evaluation period
  guarantee.
\<close>

subsection \<open>Concrete values\<close>

definition plain_nature :: tentacle_nature where
  "plain_nature = \<lparr>na_schema_version = 1, na_id = replicate 32 CHR ''a'', na_generation = 0, na_parent_id = None,
     na_engagement = 50, na_growth = 30, na_wealth = 0, na_influence = 20, na_cooperation = 50,
     na_stability = 50, na_transparency = 50, na_sacred_ban = Profit\<rparr>"

definition plain_crypto :: nature_crypto where
  "plain_crypto = \<lparr>nc_canonical = (\<lambda>n. text_bytes (na_id n)), nc_envelope = (\<lambda>v a n. text_bytes (a @ na_id n)),
     nc_sha256 = (\<lambda>m. replicate 32 (word_of_nat (length m))), nc_hmac = (\<lambda>k m. replicate 32 0)\<rparr>"

lemma plain_hash: "\<forall>m. length (nc_sha256 plain_crypto m) = 32"
  by (simp add: plain_crypto_def)

lemma plain_nature_valid: "validate_nature plain_nature = Inr ()"
  by code_simp

lemma plain_metrics_new:
  "\<exists>m. TentacleMetrics_new plain_crypto Daily 0 False plain_nature 1 = Inr m"
  by (simp add: TentacleMetrics_new_def plain_nature_valid nature_fingerprint_def i64_checked_add_def
      i64_checked_def i64_min_def i64_max_def ensure_def)

subsection \<open>Metrics\<close>

text \<open>
  C28: metrics are always valid.  With a hash of 32 bytes, the metrics of a new period validate, and
  so do they after any sequence of restrictions, rebindings and observations, including those
  that were refused.
\<close>

theorem metrics_always_valid:
  assumes "\<forall>m. length (nc_sha256 cr m) = 32"
    and "TentacleMetrics_new cr period started enabled n epoch = Inr m"
  shows "validate_metrics (metrics_run cr ops m) = Inr ()"
  using assms by (intro metrics_run_valid new_metrics_valid)

theorem metrics_always_valid_witness:
  "\<exists>m. TentacleMetrics_new plain_crypto Daily 0 False plain_nature 1 = Inr m
     \<and> validate_metrics (metrics_run plain_crypto [Op_Conversation 3 True (Some 100) 0, Op_Stress] m) = Inr ()"
  using plain_metrics_new metrics_always_valid[OF plain_hash] by blast

lemma is_restriction_refl: "is_restriction_of a a"
  by (simp add: is_restriction_of_def)

lemma is_restriction_trans: "is_restriction_of a b \<Longrightarrow> is_restriction_of b c \<Longrightarrow> is_restriction_of a c"
  by (auto simp: is_restriction_of_def)

fun is_observation :: "metrics_op \<Rightarrow> bool" where
  "is_observation (Op_Observation s p v) = True"
| "is_observation _ = False"

lemma step_restricts:
  assumes "\<not> is_observation op"
  shows "is_restriction_of (tm_availability (metrics_step cr op m)) (tm_availability m)"
proof (cases op)
  case (Op_Restrict a)
  then show ?thesis
    by (simp, intro or_unchanged_cases[where P = "\<lambda>x. is_restriction_of (tm_availability x) (tm_availability m)"])
       (auto simp: restrict_ok is_restriction_refl)
next
  case (Op_EconomicResult r e)
  then show ?thesis
    by (simp, intro or_unchanged_cases[where P = "\<lambda>x. is_restriction_of (tm_availability x) (tm_availability m)"])
       (auto simp: economic_result_ok is_restriction_refl split: if_splits)
next
  case (Op_Rebind n epoch)
  then show ?thesis
    by (auto simp: rebind_empty_period_def Let_def is_restriction_refl split: sum.splits)
next
  case (Op_Mlm d)
  then show ?thesis
    by (auto simp: record_mlm_distribution_def Let_def is_restriction_refl split: sum.splits)
next
  case (Op_Conversation d r t b)
  then show ?thesis by (simp add: record_conversation_with_bonus_def Let_def is_restriction_refl)
qed (use assms in \<open>simp_all add: record_growth_def record_influence_def record_nature_adjustment_stress_def Let_def
      is_restriction_refl\<close>)

text \<open>
  how the scored scales change within a period.  Without a node observation they are only ever
  restricted, whatever is recorded; a node observation that succeeds makes all four scales count
  again, also those a restriction had removed before.
\<close>

theorem scored_scales:
  "(list_all (\<lambda>op. \<not> is_observation op) ops \<longrightarrow>
      is_restriction_of (tm_availability (metrics_run cr ops m)) (tm_availability m))
   \<and> (\<forall>s p v e. snd (record_node_observation s p v m) = Inr e \<longrightarrow>
        tm_availability (metrics_step cr (Op_Observation s p v) m) = for_economic_layer True)"
proof (intro conjI impI allI)
  assume "list_all (\<lambda>op. \<not> is_observation op) ops"
  then show "is_restriction_of (tm_availability (metrics_run cr ops m)) (tm_availability m)"
  proof (induction ops arbitrary: m)
    case (Cons op ops)
    then have "is_restriction_of (tm_availability (metrics_run cr ops (metrics_step cr op m))) (tm_availability (metrics_step cr op m))"
      "is_restriction_of (tm_availability (metrics_step cr op m)) (tm_availability m)"
      by (simp_all add: step_restricts)
    then show ?case unfolding metrics_run_simps by (rule is_restriction_trans)
  qed (simp add: is_restriction_refl)
next
  fix s p v e assume "snd (record_node_observation s p v m) = Inr e"
  then show "tm_availability (metrics_step cr (Op_Observation s p v) m) = for_economic_layer True"
    by (cases "new_with_provenance s p v")
       (simp_all add: record_node_observation_def apply_token_economic_observation_def Let_def for_economic_layer_def)
qed

text \<open>Engagement is removed from the scored scales and counts again after an observation.\<close>

definition without_engagement :: scored_availability where
  "without_engagement = \<lparr>sa_engagement = False, sa_growth = True, sa_wealth = False, sa_influence = True\<rparr>"

lemma sample_observed: "validate_metrics m = Inr () \<Longrightarrow>
    \<exists>e. snd (record_node_observation sample_snapshot economic_policy_default sample_provenance m) = Inr e"
proof -
  assume m: "validate_metrics m = Inr ()"
  obtain r where r: "new_with_provenance sample_snapshot economic_policy_default sample_provenance = Inr r"
    using sample_provenance_ok sample_observation_valid by (simp add: with_provenance_ok)
  from observation_applied[OF m r] show ?thesis
    by (simp add: record_node_observation_def r apply_token_economic_observation_def Let_def)
qed

theorem scored_scales_witness:
  "\<exists>m. TentacleMetrics_new plain_crypto Daily 0 False plain_nature 1 = Inr m
     \<and> \<not> sa_engagement (tm_availability (metrics_run plain_crypto [Op_Restrict without_engagement] m))
     \<and> sa_engagement (tm_availability (metrics_run plain_crypto [Op_Restrict without_engagement,
         Op_Observation sample_snapshot economic_policy_default sample_provenance] m))"
proof -
  obtain m where m: "TentacleMetrics_new plain_crypto Daily 0 False plain_nature 1 = Inr m"
    using plain_metrics_new by blast
  let ?m = "metrics_step plain_crypto (Op_Restrict without_engagement) m"
  have "restrict_scored_scales without_engagement m = Inr (m\<lparr>tm_availability := without_engagement\<rparr>)"
    using m by (auto simp: restrict_ok TentacleMetrics_new_def validate_availability_def active_scales_def
        without_engagement_def is_restriction_of_def for_economic_layer_def)
  then have "tm_availability ?m = without_engagement" by (simp add: or_unchanged_def)
  moreover have "validate_metrics ?m = Inr ()"
    using metrics_step_valid[OF plain_hash new_metrics_valid[OF plain_hash m]] .
  then obtain e where "snd (record_node_observation sample_snapshot economic_policy_default sample_provenance ?m) = Inr e"
    using sample_observed by blast
  then have "tm_availability (metrics_step plain_crypto (Op_Observation sample_snapshot economic_policy_default sample_provenance) ?m)
      = for_economic_layer True"
    using scored_scales[of "[]" plain_crypto ?m] by blast
  ultimately show ?thesis
    using m by (auto simp: without_engagement_def for_economic_layer_def simp del: metrics_step.simps)
qed

subsection \<open>Weights\<close>

text \<open>
  C30: the weights are an apportionment by largest remainders.  When a scale is active the four
  weights use up exactly 10000 and an inactive scale has none.  When some active scale has an appetite,
  every active weight is its quota rounded down, or up if the quota is not whole; a scale that is
  rounded up has a greater remainder than each that is not, or the same one and stands before it.
  When none has, the active scales share equally and the first of them take the rest, one point each.
  So the weights are determined.
\<close>

theorem weights_apportioned:
  assumes "length values = 4" "length active = 4" "list_ex (\<lambda>b. b) active"
  shows "let w = normalize_weights values active; whole = active_sum values active;
           n = length (filter (\<lambda>b. b) active); rest = (\<lambda>i. values ! i * 10000 mod whole);
           down = (\<lambda>i. values ! i * 10000 div whole) in
     sum_list w = 10000 \<and> (\<forall>i<4. \<not> active ! i \<longrightarrow> w ! i = 0)
     \<and> (if whole = 0
        then \<forall>i<4. active ! i \<longrightarrow>
               w ! i = 10000 div n + (if length (filter (\<lambda>b. b) (take i active)) < 10000 mod n then 1 else 0)
        else (\<forall>i<4. active ! i \<longrightarrow> w ! i = down i \<or> w ! i = down i + 1 \<and> 0 < rest i)
          \<and> (\<forall>i<4. \<forall>j<4. active ! i \<and> active ! j \<and> w ! i = down i + 1 \<and> w ! j = down j \<longrightarrow>
               rest j < rest i \<or> rest j = rest i \<and> i < j))"
  using weights_shared(2-4)[OF assms] weights_apportion(2-5)[OF assms(1,2)]
  by (cases "active_sum values active = 0") (simp_all add: Let_def)

theorem weights_apportioned_witness:
  "normalize_weights [1, 1, 7, 1] [True, True, False, True] = [3334, 3333, 0, 3333]"
proof -
  let ?w = "normalize_weights [1, 1, 7, 1] [True, True, False, True]"
  have W: "active_sum [1, 1, 7, 1] [True, True, False, True] = 3" by (simp add: active_sum_def)
  have all: "(\<forall>i<4. P i) \<longleftrightarrow> P 0 \<and> P 1 \<and> P 2 \<and> P 3" for P :: "nat \<Rightarrow> bool"
    by (auto simp: numeral_eq_Suc less_Suc_eq)
  have len: "length ?w = 4" by (rule weights_spec(1)) simp_all
  have "sum_list ?w = 10000 \<and> ?w ! 2 = 0 \<and> (\<forall>i<4. i \<noteq> 2 \<longrightarrow> ?w ! i = 3333 \<or> ?w ! i = 3334)
    \<and> (\<forall>i<4. \<forall>j<4. i \<noteq> 2 \<and> j \<noteq> 2 \<and> ?w ! i = 3334 \<and> ?w ! j = 3333 \<longrightarrow> i < j)"
    using weights_apportioned[of "[1, 1, 7, 1]" "[True, True, False, True]"]
    unfolding all Let_def W by simp
  moreover obtain a b c d where w: "?w = [a, b, c, d]"
    using len by (auto simp: length_Suc_conv numeral_eq_Suc)
  ultimately show ?thesis unfolding all w by auto
qed

subsection \<open>Classification\<close>

fun outcome_rank :: "judgment_outcome \<Rightarrow> nat" where
  "outcome_rank PropagationRights = 3"
| "outcome_rank Survival = 2"
| "outcome_rank StarvationWarning = 1"
| "outcome_rank Dormant = 0"
| "outcome_rank Death = 0"

lemma floors_antimono:
  assumes "r \<le> r'"
  shows "survival_floor t r' \<le> survival_floor t r" "starvation_floor t r' \<le> starvation_floor t r"
proof -
  have "x - r' \<le> x - r" for x using assms by simp
  then show s: "survival_floor t r' \<le> survival_floor t r"
    unfolding survival_floor_def saturating_sub_def by (intro min.mono max.mono order_refl)
  from \<open>\<And>x. x - r' \<le> x - r\<close> show "starvation_floor t r' \<le> starvation_floor t r"
    unfolding starvation_floor_def saturating_sub_def by (intro min.mono diff_le_mono s)
qed

lemma floors_ordered:
  assumes "validate_thresholds t = Inr ()"
  shows "0 < survival_floor t r" "survival_floor t r < jt_propagation t" "starvation_floor t r < survival_floor t r"
proof -
  have "1 < jt_propagation t" using assms by (simp add: validate_thresholds_def)
  then show s: "0 < survival_floor t r" "survival_floor t r < jt_propagation t"
    unfolding survival_floor_def by linarith+
  then show "starvation_floor t r < survival_floor t r" unfolding starvation_floor_def by linarith
qed

text \<open>
  Classification is total and monotone.  It succeeds iff the thresholds are valid and score
  and relief are in range; a greater score or more relief never gives a worse outcome; propagation
  rights are given iff the score reaches their threshold, which no relief lowers; and a score of
  zero never survives, whatever the relief.
\<close>

theorem classification_monotone:
  assumes "classify_with_relief t score relief = Inr oc" "score \<le> score'" "score' \<le> 10000"
    and "relief \<le> relief'" "relief' \<le> 10000"
  shows "\<exists>oc'. classify_with_relief t score' relief' = Inr oc' \<and> outcome_rank oc \<le> outcome_rank oc'
     \<and> (oc' = PropagationRights \<longleftrightarrow> jt_propagation t \<le> score')
     \<and> (score' = 0 \<longrightarrow> outcome_rank oc' \<le> 1)"
proof -
  have valid: "validate_thresholds t = Inr ()" using assms(1) by (simp add: classify_Inr)
  then obtain oc' where oc': "classify_with_relief t score' relief' = Inr oc'"
    using classify_total assms(3,5) by blast
  note floors = floors_antimono[OF assms(4), of t] floors_ordered[OF valid, of relief] floors_ordered[OF valid, of relief']
  have "outcome_rank oc \<le> outcome_rank oc'"
    using assms(1,2) oc' floors unfolding classify_Inr by (auto split: if_splits)
  moreover have "oc' = PropagationRights \<longleftrightarrow> jt_propagation t \<le> score'"
    using oc' unfolding classify_Inr by auto
  moreover have "score' = 0 \<longrightarrow> outcome_rank oc' \<le> 1"
    using oc' floors unfolding classify_Inr by auto
  ultimately show ?thesis using oc' by blast
qed

theorem classification_monotone_witness:
  "\<exists>oc'. classify_with_relief thresholds_default 6000 2000 = Inr oc' \<and> 1 \<le> outcome_rank oc'"
proof -
  have "classify_with_relief thresholds_default 4000 0 = Inr StarvationWarning"
    by (simp add: classify_Inr survival_floor_def starvation_floor_def thresholds_default_def validate_thresholds_def
        PROPAGATION_RIGHTS_MIN_SCORE_def SURVIVAL_MIN_SCORE_def STARVATION_WARNING_MIN_SCORE_def SCORE_MAX_def
        saturating_sub_def)
  from classification_monotone[OF this, of 6000 2000] show ?thesis by auto
qed

subsection \<open>Judgments\<close>

text \<open>
  C27: evaluation is decided by its inputs alone and its judgment validates.  It yields a judgment
  iff metrics, Nature and policy are valid and bound to each other, the time fits the status, and
  an enabled economic layer has an observation with provenance; the judgment then passes its own
  validation and carries the execution of its status.
\<close>

theorem judgment_sound:
  "((\<exists>j. evaluate_internal cr m n at p status = Inr j) \<longleftrightarrow>
      validate_metrics m = Inr () \<and> validate_nature n = Inr ()
      \<and> tm_nature_id m = na_id n \<and> nature_fingerprint cr n = Inr (tm_fingerprint m)
      \<and> validate_judgment_policy p = Inr () \<and> jp_period p = tm_period m
      \<and> (case status of Final \<Rightarrow> tm_ends m \<le> at | PartialSnapshot \<Rightarrow> tm_started m \<le> at \<and> at < tm_ends m)
      \<and> (tm_wealth m \<noteq> None \<longrightarrow> (\<exists>r. tm_economics m = Some r \<and> re_provenance r \<noteq> None)))
   \<and> (\<forall>j. evaluate_internal cr m n at p status = Inr j \<longrightarrow>
        validate_judgment j = Inr () \<and> jd_execution j = execution_of status)"
proof -
  have "(\<exists>j. evaluate_internal cr m n at p status = Inr j) \<longleftrightarrow> evaluable cr m n at p status"
    using evaluable_total evaluate_internal_ok by blast
  moreover have "jd_execution j = execution_of status" if "evaluate_internal cr m n at p status = Inr j" for j
    using that by (auto simp: evaluate_internal_ok)
  ultimately show ?thesis using judgment_validates unfolding evaluable_def by blast
qed

lemma daily_policy_valid: "validate_judgment_policy (policy_for_period Daily) = Inr ()"
  by (simp add: validate_judgment_policy_def policy_for_period_def validate_targets_def targets_for_period_def Let_def
      validate_thresholds_def thresholds_default_def PROPAGATION_RIGHTS_MIN_SCORE_def SURVIVAL_MIN_SCORE_def
      STARVATION_WARNING_MIN_SCORE_def SCORE_MAX_def MAX_CONVERSATION_DEPTH_SAMPLE_def MAX_RESPONSE_TIME_MS_SAMPLE_def
      ensure_def run_checks.simps(1) DAILY_PROPAGATION_MIN_CONVERSATIONS_def
      DAILY_PROPAGATION_MIN_RETURNING_CONVERSATIONS_def)

theorem judgment_sound_witness:
  "\<exists>m j. TentacleMetrics_new plain_crypto Daily 0 False plain_nature 1 = Inr m
     \<and> evaluate_internal plain_crypto m plain_nature 86400 (policy_for_period Daily) Final = Inr j
     \<and> validate_judgment j = Inr () \<and> jd_execution j = AutomaticLifecycleActionRequired"
proof -
  obtain m where m: "TentacleMetrics_new plain_crypto Daily 0 False plain_nature 1 = Inr m"
    using plain_metrics_new by blast
  note sound = judgment_sound[of plain_crypto m plain_nature 86400 "policy_for_period Daily" Final]
  have "\<exists>j. evaluate_internal plain_crypto m plain_nature 86400 (policy_for_period Daily) Final = Inr j"
    using sound new_metrics_valid[OF plain_hash m] plain_nature_valid daily_policy_valid m
    by (auto simp: TentacleMetrics_new_def policy_for_period_def i64_checked_add_def i64_checked_def split: if_splits)
  then show ?thesis using m sound by (auto simp: execution_of_def)
qed

text \<open>
  C29: propagation needs evidence.  A judgment of propagation rights has a score at the
  threshold, the conversations the policy asks for, and, with the economic layer, an observed
  stake with provenance that reaches the policy's minimum; starvation relief does not enter.
\<close>

theorem propagation_needs_evidence:
  assumes "evaluate_internal cr m n at p status = Inr j" "jd_outcome j = PropagationRights"
  shows "jt_propagation (jp_thresholds p) \<le> sc_total (jd_scores j)
     \<and> jp_min_conversations p \<le> em_conversations (tm_engagement m)
     \<and> jp_min_returning p \<le> em_returning (tm_engagement m)
     \<and> (tm_wealth m = None \<or> (\<exists>r. tm_economics m = Some r \<and> re_provenance r \<noteq> None
          \<and> ep_propagation_stake (re_policy r) \<le> es_stake (re_snapshot r)))"
proof -
  from assms(1) obtain w s oc where ev: "evaluable cr m n at p status" and s: "jd_scores j = s"
    and oc: "classify_with_relief (jp_thresholds p) (sc_total s) (effect_or_zero ef_starvation_relief (tm_economics m)) = Inr oc"
    and j: "jd_outcome j = evidence_outcome oc (evidence_from_metrics m p)"
    by (auto simp: evaluate_internal_ok)
  have rights: "oc = PropagationRights" "pe_eligible (evidence_from_metrics m p)"
    using assms(2) j by (auto simp: evidence_outcome_def split: if_splits)
  then have "jt_propagation (jp_thresholds p) \<le> sc_total s"
    using oc unfolding classify_Inr by (auto split: if_splits)
  moreover have "ep_propagation_stake (re_policy r) \<le> es_stake (re_snapshot r)" if "tm_economics m = Some r" for r
  proof -
    have "re_effects r = effects_of (re_policy r) (re_snapshot r)"
      using ev that by (simp add: evaluable_def validate_metrics_ok economics_ok_def validate_recorded_ok)
    then have "ef_propagation_eligible (re_effects r) \<longleftrightarrow> ep_propagation_stake (re_policy r) \<le> es_stake (re_snapshot r)"
      by (simp add: effects_of_def)
    then show ?thesis
      using rights(2) that by (simp add: evidence_from_metrics_def stake_evidence_def Let_def)
  qed
  moreover have "jp_min_conversations p \<le> em_conversations (tm_engagement m)"
    "jp_min_returning p \<le> em_returning (tm_engagement m)"
    using rights(2) by (cases "stake_evidence m"; simp add: evidence_from_metrics_def Let_def)+
  ultimately show ?thesis using ev s unfolding evaluable_def by blast
qed

lemma plain_weights: "weights_with_availability plain_nature (for_economic_layer False) False
   = Inr \<lparr>sw_engagement = 5000, sw_growth = 3000, sw_wealth = 0, sw_influence = 2000\<rparr>"
proof -
  have fields: "na_engagement plain_nature = 50" "na_growth plain_nature = 30" "na_wealth plain_nature = 0"
    "na_influence plain_nature = 20"
    by (simp_all add: plain_nature_def)
  have "active_scales (for_economic_layer False) = [True, True, False, True]"
    by (simp add: active_scales_def for_economic_layer_def)
  moreover have "normalize_weights [50, 30, 0, 20] [True, True, False, True] = [5000, 3000, 0, 2000]"
    by (simp add: normalize_weights_def quotients_def Let_def SCORE_MAX_def u16_max_def)
  ultimately show ?thesis
    by (simp add: weights_with_availability_def plain_nature_valid fields Let_def validate_weights_def
        validate_availability_def weights_total_def saturating_add_def u16_max_def SCORE_MAX_def for_economic_layer_def ensure_def)
qed

definition lenient_policy :: judgment_policy where
  "lenient_policy = (policy_for_period Daily)\<lparr>jp_thresholds := \<lparr>jt_propagation = 5000, jt_survival = 2, jt_starvation = 1\<rparr>\<rparr>"

lemma lenient_policy_valid: "validate_judgment_policy lenient_policy = Inr ()"
  using daily_policy_valid
  by (simp add: lenient_policy_def validate_judgment_policy_def policy_for_period_def validate_thresholds_def SCORE_MAX_def)

text \<open>One conversation that reaches every target.\<close>

lemma lively_metrics:
  "\<exists>m. evaluable plain_crypto m plain_nature 86400 lenient_policy Final
     \<and> tm_engagement m = \<lparr>em_conversations = 1, em_depth_total = 8, em_returning = 1, em_samples = 1,
          em_response_total = 100, em_bonus_total = 0\<rparr>
     \<and> tm_growth m = growth_default \<and> tm_influence m = influence_default \<and> tm_economics m = None
     \<and> tm_wealth m = None \<and> tm_stress m = 0 \<and> tm_availability m = for_economic_layer False"
proof -
  obtain m0 where new: "TentacleMetrics_new plain_crypto Daily 0 False plain_nature 1 = Inr m0"
    using plain_metrics_new by blast
  define m where "m = record_conversation_with_bonus 8 True (Some 100) 0 m0"
  have m0: "tm_engagement m0 = engagement_default" "tm_growth m0 = growth_default" "tm_wealth m0 = None"
    "tm_influence m0 = influence_default" "tm_availability m0 = for_economic_layer False" "tm_economics m0 = None"
    "tm_stress m0 = 0" "tm_period m0 = Daily" "tm_ends m0 = 86400" "tm_nature_id m0 = na_id plain_nature"
    "nature_fingerprint plain_crypto plain_nature = Inr (tm_fingerprint m0)"
    using new by (auto simp: TentacleMetrics_new_def i64_checked_add_def i64_checked_def split: if_splits)
  have "validate_metrics (metrics_step plain_crypto (Op_Conversation 8 True (Some 100) 0) m0) = Inr ()"
    by (rule metrics_step_valid[OF plain_hash new_metrics_valid[OF plain_hash new]])
  then have "evaluable plain_crypto m plain_nature 86400 lenient_policy Final"
    using m0 plain_nature_valid lenient_policy_valid
    by (simp add: evaluable_def m_def record_conversation_with_bonus_def Let_def lenient_policy_def policy_for_period_def)
  then show ?thesis
    using m0 by (intro exI[of _ m]) (simp add: m_def record_conversation_with_bonus_def Let_def engagement_default_def
      u32_max_def saturating_add_def u64_max_def MAX_CONVERSATION_DEPTH_SAMPLE_def MAX_RESPONSE_TIME_MS_SAMPLE_def)
qed

lemma lively_scores:
  "score_engagement \<lparr>em_conversations = 1, em_depth_total = 8, em_returning = 1, em_samples = 1,
     em_response_total = 100, em_bonus_total = 0\<rparr> (jp_targets lenient_policy) = Inr 10000"
  "score_growth growth_default (jp_targets lenient_policy) = 0"
  "score_influence influence_default (jp_targets lenient_policy) = 0"
proof -
  show "score_engagement \<lparr>em_conversations = 1, em_depth_total = 8, em_returning = 1, em_samples = 1,
     em_response_total = 100, em_bonus_total = 0\<rparr> (jp_targets lenient_policy) = Inr 10000"
    by (simp add: score_engagement_def lenient_policy_def policy_for_period_def targets_for_period_def Let_def
       ratio_score_def component_score_def response_time_score_def apply_score_adjustment_def multiply_basis_points_def
       saturating_add_def saturating_mul_def u128_max_def u16_max_def SCORE_MAX_def NORMALIZED_ECONOMIC_MAX_def ensure_def)
  have none: "ratio_score 0 d = 0" if "d \<le> u128_max" for d
    using that by (simp add: ratio_score_def saturating_add_def saturating_mul_def div_eq_0_iff)
  show "score_growth growth_default (jp_targets lenient_policy) = 0"
    "score_influence influence_default (jp_targets lenient_policy) = 0"
    by (simp_all add: score_growth_def growth_default_def score_influence_def influence_default_def none
       lenient_policy_def policy_for_period_def targets_for_period_def component_score_def u128_max_def SCORE_MAX_def)
qed

theorem propagation_needs_evidence_witness:
  "\<exists>m j. evaluate_internal plain_crypto m plain_nature 86400 lenient_policy Final = Inr j
     \<and> jd_outcome j = PropagationRights \<and> 5000 \<le> sc_total (jd_scores j)"
proof -
  obtain m where ev: "evaluable plain_crypto m plain_nature 86400 lenient_policy Final"
    and engagement: "tm_engagement m = \<lparr>em_conversations = 1, em_depth_total = 8, em_returning = 1, em_samples = 1,
       em_response_total = 100, em_bonus_total = 0\<rparr>"
    and same: "tm_growth m = growth_default" "tm_influence m = influence_default" "tm_economics m = None"
      "tm_wealth m = None" "tm_stress m = 0" "tm_availability m = for_economic_layer False"
    using lively_metrics by blast
  obtain j where j: "evaluate_internal plain_crypto m plain_nature 86400 lenient_policy Final = Inr j"
    using evaluable_total[OF ev] by blast
  then obtain w s oc where w: "weights_with_availability plain_nature (tm_availability m) (economic_layer_enabled m) = Inr w"
    and s: "score_metrics m (jp_targets lenient_policy) w = Inr s"
    and oc: "classify_with_relief (jp_thresholds lenient_policy) (sc_total s) (effect_or_zero ef_starvation_relief (tm_economics m)) = Inr oc"
    and out: "jd_scores j = s" "jd_outcome j = evidence_outcome oc (evidence_from_metrics m lenient_policy)"
    by (auto simp: evaluate_internal_ok)
  have "w = \<lparr>sw_engagement = 5000, sw_growth = 3000, sw_wealth = 0, sw_influence = 2000\<rparr>"
    using w same plain_weights by (simp add: economic_layer_enabled_def)
  then have "sc_total s = 5000"
    using s same engagement lively_scores
    by (auto simp: score_metrics_def Let_def apply_score_adjustment_def effect_or_zero_def multiply_basis_points_def
       weighted_total_def stress_penalty_def saturating_add_def saturating_mul_def saturating_sub_def
       SCORE_MAX_def NORMALIZED_ECONOMIC_MAX_def u16_max_def STRESS_PENALTY_PER_EVENT_def MAX_STRESS_PENALTY_def)
  moreover have "pe_eligible (evidence_from_metrics m lenient_policy)"
    using same engagement
    by (simp add: evidence_from_metrics_def stake_evidence_def economic_layer_enabled_def Let_def lenient_policy_def
       policy_for_period_def DAILY_PROPAGATION_MIN_CONVERSATIONS_def DAILY_PROPAGATION_MIN_RETURNING_CONVERSATIONS_def)
  ultimately have rights: "jd_outcome j = PropagationRights"
    using oc out same by (auto simp: classify_Inr evidence_outcome_def lenient_policy_def)
  show ?thesis using propagation_needs_evidence[OF j rights] j rights by (auto simp: lenient_policy_def)
qed

end
