(* ===== verification/History_Properties.thy ===== *)
theory History_Properties
  imports Scales_History Scales_Properties
begin

section \<open>Properties of the evolution history\<close>

text \<open>
  Which judgments can be recorded, what an accepted journal contains, and what appending to it
  preserves.
\<close>

subsection \<open>Records\<close>

lemma binding_of_evaluation:
  assumes "evaluate_internal cr m n (tm_ends m) p Final = Inr j"
    and "hr_metrics r = m" "hr_judgment r = j" "hr_schema_version r = EVOLUTION_HISTORY_SCHEMA_VERSION"
    and "hr_nature_id r = tm_nature_id m" "hr_fingerprint r = tm_fingerprint m" "hr_epoch r = tm_epoch m"
  shows "validate_binding r = Inr ()"
proof -
  from assms(1) obtain w s oc where ev: "evaluable cr m n (tm_ends m) p Final"
    and s: "score_metrics m (jp_targets p) w = Inr s"
    and j: "jd_schema_version j = JUDGMENT_SCHEMA_VERSION" "jd_metrics_schema_version j = tm_schema_version m"
      "jd_period j = tm_period m" "jd_started j = tm_started m" "jd_ends j = tm_ends m"
      "jd_evaluated_at j = tm_ends m" "jd_status j = Final" "jd_availability j = tm_availability m"
      "jd_scores j = s" "jd_evidence j = evidence_from_metrics m p"
      "jd_relief j = effect_or_zero ef_starvation_relief (tm_economics m)"
    by (auto simp: evaluate_internal_ok)
  have targets: "validate_targets (jp_targets p) = Inr ()" "economics_ok m"
    using ev by (simp_all add: evaluable_def validate_judgment_policy_def validate_metrics_ok)
  have "sc_wealth s = None \<longleftrightarrow> tm_wealth m = None"
    using score_metrics_total[OF targets, of w] s by auto
  then have wealth: "economic_layer_enabled m \<longleftrightarrow> sc_wealth s \<noteq> None" by (simp add: economic_layer_enabled_def)
  have provenance: "\<not> economic_layer_enabled m \<or> (case tm_economics m of None \<Rightarrow> False | Some e \<Rightarrow> re_provenance e \<noteq> None)"
    using ev by (auto simp: evaluable_def economic_layer_enabled_def)
  have stake: "(pe_stake v, pe_required_stake v, pe_stake_eligible v) = stake_evidence m"
    "pe_conversations v = em_conversations (tm_engagement m)" "pe_returning v = em_returning (tm_engagement m)"
    if "v = evidence_from_metrics m p" for v
    using that by (cases "stake_evidence m"; simp add: evidence_from_metrics_def Let_def)+
  show ?thesis
    using provenance wealth stake[OF refl]
    by (cases "tm_economics m") (auto simp: validate_binding_def Let_def assms(2-) j)
qed

text \<open>
  C31: a final judgment at the end of its period can always be recorded.  With hashes of 32 bytes,
  the judgment an evaluation gives at period end and its metrics make a history record that
  validates, carries the identifier of its own content and authorises the automatic lifecycle.
\<close>

theorem judgment_recordable:
  assumes "\<forall>b. length (nc_sha256 cr b) = 32" "\<forall>b. length (hc_sha256 c b) = 32"
    and "evaluate_internal cr m n (tm_ends m) p Final = Inr j"
  shows "\<exists>r. EvolutionHistoryRecord_new c cr n m j = Inr r \<and> validate_history_record c r = Inr ()
     \<and> hr_judgment_id r = compute_judgment_id c r \<and> authorizes_automatic_lifecycle r"
proof -
  have ev: "evaluable cr m n (tm_ends m) p Final" and j: "jd_schema_version j = JUDGMENT_SCHEMA_VERSION"
    "jd_execution j = AutomaticLifecycleActionRequired"
    using assms(3) by (auto simp: evaluate_internal_ok execution_of_def)
  have m: "validate_metrics m = Inr ()" "validate_nature n = Inr ()" "tm_nature_id m = na_id n"
    "nature_fingerprint cr n = Inr (tm_fingerprint m)"
    using ev by (simp_all add: evaluable_def)
  define r0 where "r0 = \<lparr>hr_schema_version = EVOLUTION_HISTORY_SCHEMA_VERSION, hr_judgment_id = [],
    hr_nature_id = na_id n, hr_fingerprint = tm_fingerprint m, hr_epoch = tm_epoch m, hr_metrics = m, hr_judgment = j\<rparr>"
  define r where "r = r0\<lparr>hr_judgment_id := compute_judgment_id c r0\<rparr>"
  have id: "hr_judgment_id r = compute_judgment_id c r" by (simp add: r_def compute_judgment_id_def)
  have sel: "hr_schema_version r = EVOLUTION_HISTORY_SCHEMA_VERSION" "hr_nature_id r = na_id n"
    "hr_fingerprint r = tm_fingerprint m" "hr_epoch r = tm_epoch m" "hr_metrics r = m" "hr_judgment r = j"
    by (simp_all add: r_def r0_def)
  have binding: "validate_binding r = Inr ()"
    using assms(3) sel m(3) by (intro binding_of_evaluation) simp_all
  have hex: "lower_hex_text 64 (hr_judgment_id r)"
    unfolding id compute_judgment_id_def using assms(2) encode_hex_text[of _ 32] by simp
  have "validate_history_record c r = Inr ()"
    using m binding hex j judgment_validates[OF assms(3)] id
    by (simp add: validate_history_record_def sel validate_metrics_ok)
  moreover from this have "EvolutionHistoryRecord_new c cr n m j = Inr r"
    using m by (simp add: EvolutionHistoryRecord_new_def Let_def r0_def[symmetric] r_def[symmetric])
  ultimately show ?thesis
    using id j by (auto simp: authorizes_automatic_lifecycle_def sel)
qed

definition plain_codec :: history_codec where
  "plain_codec = \<lparr>hc_canonical = (\<lambda>v i f e m j. text_bytes f @ [word_of_int (tm_started m)]),
     hc_sha256 = (\<lambda>b. replicate 32 (last (0 # b))), hc_line = (\<lambda>r. 100)\<rparr>"

lemma plain_codec_hash: "\<forall>b. length (hc_sha256 plain_codec b) = 32"
  by (simp add: plain_codec_def)

lemma plain_judgment:
  "\<exists>m j. TentacleMetrics_new plain_crypto Daily 0 False plain_nature 1 = Inr m \<and> tm_ends m = 86400
     \<and> evaluate_internal plain_crypto m plain_nature (tm_ends m) (policy_for_period Daily) Final = Inr j"
proof -
  obtain m where m: "TentacleMetrics_new plain_crypto Daily 0 False plain_nature 1 = Inr m"
    using plain_metrics_new by blast
  then have ends: "tm_ends m = 86400"
    by (auto simp: TentacleMetrics_new_def i64_checked_add_def i64_checked_def split: if_splits)
  have "evaluable plain_crypto m plain_nature (tm_ends m) (policy_for_period Daily) Final"
    using new_metrics_valid[OF plain_hash m] plain_nature_valid daily_policy_valid m
    by (auto simp: evaluable_def TentacleMetrics_new_def policy_for_period_def)
  then show ?thesis using m ends evaluable_total by blast
qed

theorem judgment_recordable_witness:
  "\<exists>m j r. EvolutionHistoryRecord_new plain_codec plain_crypto plain_nature m j = Inr r
     \<and> authorizes_automatic_lifecycle r"
  using plain_judgment judgment_recordable[OF plain_hash plain_codec_hash] by blast

subsection \<open>Journals\<close>

fun lines_ok :: "history_codec \<Rightarrow> int option \<Rightarrow> history_record list \<Rightarrow> bool" where
  "lines_ok c previous_end [] \<longleftrightarrow> True"
| "lines_ok c previous_end (r # rs) \<longleftrightarrow>
     check_line c previous_end r = Inr () \<and> lines_ok c (Some (tm_ends (hr_metrics r))) rs"

fun visit_all :: "(history_record \<Rightarrow> 's \<Rightarrow> 's fallible) \<Rightarrow> history_record list \<Rightarrow> 's \<Rightarrow> 's fallible" where
  "visit_all visit [] s = Inr s"
| "visit_all visit (r # rs) s = and_then (visit r s) (visit_all visit rs)"

lemma scan_history_ok:
  "scan_history c visit previous_end rs s = Inr s' \<longleftrightarrow>
     lines_ok c previous_end rs \<and> visit_all visit rs s = Inr s'"
  by (induction rs arbitrary: previous_end s) auto

definition ids :: "history_record list \<Rightarrow> string list" where
  "ids rs = map hr_judgment_id rs"

lemma catalog_insert_ok:
  "catalog_insert r k = Inr k' \<longleftrightarrow>
     bm_get (ca_index k) (hr_judgment_id r) = None \<and> ca_count k + 1 \<le> u64_max
     \<and> k' = \<lparr>ca_index = bm_insert (hr_judgment_id r) r (ca_index k), ca_last = Some r, ca_count = ca_count k + 1\<rparr>"
  by (auto simp: catalog_insert_def)

lemma catalog_visits:
  "visit_all catalog_insert rs k = Inr k' \<Longrightarrow>
     distinct (ids rs) \<and> (\<forall>i\<in>set (ids rs). bm_get (ca_index k) i = None)
     \<and> ca_count k' = ca_count k + length rs \<and> (rs \<noteq> [] \<longrightarrow> ca_last k' = Some (last rs))
     \<and> (rs = [] \<longrightarrow> k' = k)
     \<and> (\<forall>i r. bm_get (ca_index k') i = Some r \<longleftrightarrow>
          r \<in> set rs \<and> hr_judgment_id r = i \<or> bm_get (ca_index k) i = Some r)"
proof (induction rs arbitrary: k)
  case (Cons r rs)
  define k1 where "k1 = \<lparr>ca_index = bm_insert (hr_judgment_id r) r (ca_index k), ca_last = Some r, ca_count = ca_count k + 1\<rparr>"
  have new: "bm_get (ca_index k) (hr_judgment_id r) = None" and rest: "visit_all catalog_insert rs k1 = Inr k'"
    using Cons.prems by (auto simp: catalog_insert_ok k1_def)
  from Cons.IH[OF rest] show ?case
    using new by (auto simp: k1_def ids_def split: if_splits)
qed (simp add: ids_def)

lemma catalog_visits_total:
  "distinct (ids rs) \<Longrightarrow> \<forall>i\<in>set (ids rs). bm_get (ca_index k) i = None \<Longrightarrow> ca_count k + length rs \<le> u64_max \<Longrightarrow>
     \<exists>k'. visit_all catalog_insert rs k = Inr k'"
proof (induction rs arbitrary: k)
  case (Cons r rs)
  define k1 where "k1 = \<lparr>ca_index = bm_insert (hr_judgment_id r) r (ca_index k), ca_last = Some r, ca_count = ca_count k + 1\<rparr>"
  have "catalog_insert r k = Inr k1" using Cons.prems by (simp add: catalog_insert_ok k1_def ids_def)
  moreover have "hr_judgment_id r \<notin> set (ids rs)" "distinct (ids rs)" using Cons.prems(1) by (simp_all add: ids_def)
  then have "\<exists>k'. visit_all catalog_insert rs k1 = Inr k'"
    using Cons.prems(2,3) by (intro Cons.IH) (auto simp: k1_def ids_def[of "r # rs"] ids_def[symmetric])
  ultimately show ?case by simp
qed simp

lemma append_visit_ok:
  "append_visit new e (k, b) = Inr s \<longleftrightarrow>
     (\<exists>k1. catalog_insert e k = Inr k1 \<and> (has_same_period_key e new \<longrightarrow> e = new)
        \<and> s = (k1, b \<or> has_same_period_key e new))"
  by (auto simp: append_visit_def)

lemma append_visits:
  "visit_all (append_visit new) rs (k, b) = Inr (k', b') \<longleftrightarrow>
     visit_all catalog_insert rs k = Inr k' \<and> (\<forall>e\<in>set rs. has_same_period_key e new \<longrightarrow> e = new)
     \<and> b' = (b \<or> (\<exists>e\<in>set rs. has_same_period_key e new))"
proof (induction rs arbitrary: k b)
  case (Cons e rs)
  have "visit_all (append_visit new) (e # rs) (k, b) = Inr (k', b') \<longleftrightarrow>
      (\<exists>k1. catalog_insert e k = Inr k1 \<and> (has_same_period_key e new \<longrightarrow> e = new)
         \<and> visit_all (append_visit new) rs (k1, b \<or> has_same_period_key e new) = Inr (k', b'))"
    by (auto simp: append_visit_ok)
  also have "\<dots> \<longleftrightarrow> (\<exists>k1. catalog_insert e k = Inr k1 \<and> (has_same_period_key e new \<longrightarrow> e = new)
       \<and> visit_all catalog_insert rs k1 = Inr k' \<and> (\<forall>e\<in>set rs. has_same_period_key e new \<longrightarrow> e = new)
       \<and> b' = ((b \<or> has_same_period_key e new) \<or> (\<exists>e\<in>set rs. has_same_period_key e new)))"
    by (simp only: Cons.IH)
  also have "\<dots> \<longleftrightarrow> visit_all catalog_insert (e # rs) k = Inr k'
       \<and> (\<forall>e\<in>set (e # rs). has_same_period_key e new \<longrightarrow> e = new)
       \<and> b' = (b \<or> (\<exists>e\<in>set (e # rs). has_same_period_key e new))"
    by auto
  finally show ?case .
qed auto

lemma period_key_self: "has_same_period_key r r"
  by (simp add: has_same_period_key_def)

lemma lines_ok_append:
  "lines_ok c previous_end (rs @ [r]) \<longleftrightarrow>
     lines_ok c previous_end rs
     \<and> check_line c (if rs = [] then previous_end else Some (tm_ends (hr_metrics (last rs)))) r = Inr ()"
  by (induction rs arbitrary: previous_end) auto

lemma check_line_ok:
  "check_line c e r = Inr () \<longleftrightarrow> hc_line c r + 1 \<le> MAX_HISTORY_LINE_BYTES \<and> validate_history_record c r = Inr ()
     \<and> (\<forall>x. e = Some x \<longrightarrow> x \<le> tm_started (hr_metrics r))"
  by (cases e) (simp_all add: check_line_def)

lemma record_id_text: "validate_history_record c r = Inr () \<Longrightarrow> lower_hex_text 64 (hr_judgment_id r)"
proof -
  assume "validate_history_record c r = Inr ()"
  then have "lower_hex_text 64 (hr_judgment_id r) \<and> hr_judgment_id r = compute_judgment_id c r"
    unfolding validate_history_record_def run_checks_Cons_ok ensure_eq_Inr by (elim conjE, intro conjI)
  then show ?thesis ..
qed

lemma record_period: "validate_history_record c r = Inr () \<Longrightarrow> tm_started (hr_metrics r) < tm_ends (hr_metrics r)"
proof -
  assume "validate_history_record c r = Inr ()"
  then have "i64_checked_add (tm_started (hr_metrics r)) (duration_seconds (tm_period (hr_metrics r))) = Some (tm_ends (hr_metrics r))"
    by (simp add: validate_history_record_def validate_metrics_ok)
  then show ?thesis
    by (cases "tm_period (hr_metrics r)") (auto simp: i64_checked_add_def i64_checked_def split: if_splits)
qed

lemma lines_spaced:
  "lines_ok c e rs \<Longrightarrow>
     sorted_wrt (\<lambda>a b. tm_ends (hr_metrics a) \<le> tm_started (hr_metrics b)) rs
     \<and> (\<forall>r\<in>set rs. \<forall>x. e = Some x \<longrightarrow> x \<le> tm_started (hr_metrics r))"
proof (induction rs arbitrary: e)
  case (Cons r rs)
  then have ih: "sorted_wrt (\<lambda>a b. tm_ends (hr_metrics a) \<le> tm_started (hr_metrics b)) rs"
    "\<forall>s\<in>set rs. tm_ends (hr_metrics r) \<le> tm_started (hr_metrics s)"
    by auto
  have r: "validate_history_record c r = Inr ()" "\<forall>x. e = Some x \<longrightarrow> x \<le> tm_started (hr_metrics r)"
    using Cons.prems by (simp_all add: check_line_ok)
  have "x \<le> tm_started (hr_metrics s)" if "s \<in> set rs" "e = Some x" for s x
    using that ih(2) r(2) record_period[OF r(1)] by force
  with ih r(2) show ?case by auto
qed simp

lemma lines_valid: "lines_ok c e rs \<Longrightarrow> r \<in> set rs \<Longrightarrow> validate_history_record c r = Inr () \<and> hc_line c r < MAX_HISTORY_LINE_BYTES"
  by (induction rs arbitrary: e) (auto simp: check_line_ok)

text \<open>
  C32: what an accepted journal holds.  Every record validates, the evaluation periods follow one
  another without overlap, no identifier occurs twice, and the catalog built from it finds each
  record under its identifier and no record under any other.
\<close>

theorem journal_catalog_exact:
  assumes "journal_catalog c (Some rs) = Inr k"
  shows "(\<forall>r\<in>set rs. validate_history_record c r = Inr ())
     \<and> sorted_wrt (\<lambda>a b. tm_ends (hr_metrics a) \<le> tm_started (hr_metrics b)) rs
     \<and> distinct (map hr_judgment_id rs) \<and> ca_count k = length rs
     \<and> (\<forall>r\<in>set rs. catalog_get c k (hr_judgment_id r) = Inr (Some r))
     \<and> (\<forall>i r. catalog_get c k i = Inr (Some r) \<longrightarrow> r \<in> set rs \<and> hr_judgment_id r = i)"
proof -
  have lines: "lines_ok c None rs" and visits: "visit_all catalog_insert rs catalog_new = Inr k"
    using assms by (simp_all add: journal_catalog_def scan_history_ok)
  note cat = catalog_visits[OF visits]
  have get: "bm_get (ca_index k) i = Some r \<longleftrightarrow> r \<in> set rs \<and> hr_judgment_id r = i" for i r
    using cat by (simp add: catalog_new_def)
  have "catalog_get c k (hr_judgment_id r) = Inr (Some r)" if "r \<in> set rs" for r
  proof -
    have r: "validate_history_record c r = Inr ()" "hc_line c r \<le> MAX_HISTORY_LINE_BYTES"
      using lines_valid[OF lines that] by simp_all
    with record_id_text[OF r(1)] get[of "hr_judgment_id r" r] that show ?thesis by (simp add: catalog_get_def)
  qed
  moreover have "r \<in> set rs \<and> hr_judgment_id r = i" if "catalog_get c k i = Inr (Some r)" for i r
    using that get[of i] by (auto simp: catalog_get_def split: option.splits)
  ultimately show ?thesis
    using lines_valid[OF lines] lines_spaced[OF lines] cat by (simp add: ids_def catalog_new_def)
qed

lemma append_history_ok:
  "append_history c r journal = Inr journal' \<longleftrightarrow> validate_history_record c r = Inr ()
     \<and> (\<exists>k b. (case journal of None \<Rightarrow> Inr (catalog_new, False)
          | Some rs \<Rightarrow> scan_history c (append_visit r) None rs (catalog_new, False)) = Inr (k, b)
        \<and> (b \<and> journal' = journal \<or> \<not> b \<and> catalog_get c k (hr_judgment_id r) = Inr None
          \<and> (\<forall>p. ca_last k = Some p \<longrightarrow> tm_ends (hr_metrics p) \<le> tm_started (hr_metrics r))
          \<and> hc_line c r + 1 \<le> MAX_HISTORY_LINE_BYTES
          \<and> journal' = Some (case journal of None \<Rightarrow> [r] | Some rs \<Rightarrow> rs @ [r])))"
proof -
  have last: "(case x of None \<Rightarrow> Inr () | Some p \<Rightarrow> ensure (b p) e) = Inr () \<longleftrightarrow> (\<forall>p. x = Some p \<longrightarrow> b p)"
    for x :: "history_record option" and b and e :: string
    by (cases x) simp_all
  have branch: "(if b then Inr journal else X) = Inr journal' \<longleftrightarrow> b \<and> journal' = journal \<or> \<not> b \<and> X = Inr journal'"
    for b and X :: "history_record list option fallible"
    by auto
  have checked: "and_then C (\<lambda>_. Inr y) = Inr journal' \<longleftrightarrow> C = Inr () \<and> journal' = y"
    for C :: "unit fallible" and y :: "history_record list option"
    by (cases C) auto
  have found: "(\<exists>x. G = Inr x \<and> x = None \<and> P) \<longleftrightarrow> G = Inr None \<and> P"
    for G :: "history_record option fallible" and P
    by auto
  have unit: "(\<exists>x. V = Inr x \<and> P) \<longleftrightarrow> V = Inr () \<and> P" for V :: "unit fallible" and P
    by auto
  have inject: "Inr x = Inr journal' \<longleftrightarrow> journal' = x" for x :: "history_record list option"
    by auto
  show ?thesis
    unfolding append_history_def and_then_eq_Inr split_paired_Ex prod.case branch checked run_checks_Cons_ok
      run_checks.simps(1) ensure_eq_Inr last found simp_thms conj_assoc unit inject by (rule TrueI)
qed

lemma catalog_fresh:
  assumes "visit_all catalog_insert rs catalog_new = Inr k" and "catalog_get c k i = Inr None"
  shows "i \<notin> set (ids rs)"
proof
  assume "i \<in> set (ids rs)"
  then obtain e where "e \<in> set rs" "hr_judgment_id e = i" by (auto simp: ids_def)
  then have "bm_get (ca_index k) i = Some e" using catalog_visits[OF assms(1)] by blast
  with assms(2) show False by (auto simp: catalog_get_def)
qed

lemma append_result:
  assumes "append_history c r journal = Inr journal'"
  defines "rs \<equiv> (case journal of None \<Rightarrow> [] | Some rs \<Rightarrow> rs)"
  shows "validate_history_record c r = Inr () \<and> lines_ok c None rs
     \<and> (\<exists>k. visit_all catalog_insert rs catalog_new = Inr k)
     \<and> (\<forall>e\<in>set rs. has_same_period_key e r \<longrightarrow> e = r)
     \<and> (if r \<in> set rs then journal' = journal
        else journal' = Some (rs @ [r]) \<and> lines_ok c None (rs @ [r]) \<and> hr_judgment_id r \<notin> set (ids rs))"
proof -
  from assms(1) obtain k b where valid: "validate_history_record c r = Inr ()"
    and scan: "(case journal of None \<Rightarrow> Inr (catalog_new, False)
        | Some rs \<Rightarrow> scan_history c (append_visit r) None rs (catalog_new, False)) = Inr (k, b)"
    and rest: "b \<and> journal' = journal \<or> \<not> b \<and> catalog_get c k (hr_judgment_id r) = Inr None
        \<and> (\<forall>p. ca_last k = Some p \<longrightarrow> tm_ends (hr_metrics p) \<le> tm_started (hr_metrics r))
        \<and> hc_line c r + 1 \<le> MAX_HISTORY_LINE_BYTES
        \<and> journal' = Some (case journal of None \<Rightarrow> [r] | Some rs \<Rightarrow> rs @ [r])"
    using append_history_ok by blast
  have lines: "lines_ok c None rs" and visits: "visit_all catalog_insert rs catalog_new = Inr k"
    and same: "\<forall>e\<in>set rs. has_same_period_key e r \<longrightarrow> e = r" and b: "b \<longleftrightarrow> (\<exists>e\<in>set rs. has_same_period_key e r)"
    using scan by (auto simp: rs_def scan_history_ok append_visits split: option.splits)
  note cat = catalog_visits[OF visits]
  have present: "b \<longleftrightarrow> r \<in> set rs" using b same period_key_self by blast
  show ?thesis
  proof (cases b)
    case True
    then show ?thesis using rest present valid lines visits same by auto
  next
    case False
    then have found: "catalog_get c k (hr_judgment_id r) = Inr None"
      and after: "\<forall>p. ca_last k = Some p \<longrightarrow> tm_ends (hr_metrics p) \<le> tm_started (hr_metrics r)"
      and room: "hc_line c r + 1 \<le> MAX_HISTORY_LINE_BYTES"
      using rest by blast+
    have fresh: "hr_judgment_id r \<notin> set (ids rs)" by (rule catalog_fresh[OF visits found])
    have "check_line c (if rs = [] then None else Some (tm_ends (hr_metrics (last rs)))) r = Inr ()"
      unfolding check_line_ok using room valid after cat by simp
    then have "lines_ok c None (rs @ [r])" using lines by (simp only: lines_ok_append)
    moreover have "journal' = Some (rs @ [r])" using rest False by (auto simp: rs_def split: option.splits)
    ultimately show ?thesis using False present valid lines visits same fresh by auto
  qed
qed

text \<open>
  C33: appending to the journal is safe and idempotent.  When it succeeds, the journal is unchanged
  and already holds the record, or is extended by exactly that record; the result is a journal the
  catalog accepts; and appending the record once more changes nothing.
\<close>

theorem append_idempotent:
  assumes "append_history c r journal = Inr journal'"
    and "(case journal of None \<Rightarrow> 0 | Some rs \<Rightarrow> length rs) < u64_max"
  shows "(journal' = journal \<or> journal' = Some ((case journal of None \<Rightarrow> [] | Some rs \<Rightarrow> rs) @ [r]))
     \<and> (\<exists>rs k. journal' = Some rs \<and> r \<in> set rs \<and> journal_catalog c journal' = Inr k)
     \<and> append_history c r journal' = Inr journal'"
proof -
  define rs where "rs = (case journal of None \<Rightarrow> [] | Some rs \<Rightarrow> rs)"
  note result = append_result[OF assms(1), folded rs_def]
  then obtain k where visits: "visit_all catalog_insert rs catalog_new = Inr k" by blast
  note cat = catalog_visits[OF visits]
  have bound: "length rs < u64_max" using assms(2) by (auto simp: rs_def split: option.splits)
  obtain rs' where j': "journal' = Some rs'" "r \<in> set rs'" "lines_ok c None rs'" "distinct (ids rs')"
    "length rs' \<le> u64_max" "\<forall>e\<in>set rs'. has_same_period_key e r \<longrightarrow> e = r"
    "rs' = rs \<and> journal' = journal \<or> rs' = rs @ [r]"
  proof (cases "r \<in> set rs")
    case True
    then have "journal = Some rs" by (auto simp: rs_def split: option.splits)
    with True result cat bound show thesis by (intro that[of rs]) auto
  next
    case False
    with result cat bound show thesis by (intro that[of "rs @ [r]"]) (auto simp: ids_def)
  qed
  obtain k' where k': "visit_all catalog_insert rs' catalog_new = Inr k'"
    using catalog_visits_total[of rs' catalog_new] j' by (auto simp: catalog_new_def)
  have "journal_catalog c journal' = Inr k'"
    using j' k' by (simp add: journal_catalog_def scan_history_ok)
  moreover have "scan_history c (append_visit r) None rs' (catalog_new, False) = Inr (k', True)"
    using j' k' period_key_self by (auto simp: scan_history_ok append_visits)
  then have "append_history c r journal' = Inr journal'"
    using result j' by (simp add: append_history_def)
  ultimately show ?thesis using j' by (auto simp: rs_def)
qed

theorem append_idempotent_witness:
  "\<exists>r. append_history plain_codec r None = Inr (Some [r])
     \<and> append_history plain_codec r (Some [r]) = Inr (Some [r])"
proof -
  obtain r where r: "validate_history_record plain_codec r = Inr ()"
    using plain_judgment judgment_recordable[OF plain_hash plain_codec_hash] by blast
  with record_id_text[OF r] have first: "append_history plain_codec r None = Inr (Some [r])"
    by (simp add: append_history_def catalog_get_def catalog_new_def plain_codec_def MAX_HISTORY_LINE_BYTES_def
        ensure_def run_checks.simps(1))
  from append_idempotent[OF this] show ?thesis using first by (auto simp: u64_max_def)
qed

theorem journal_catalog_exact_witness:
  "\<exists>r k. journal_catalog plain_codec (Some [r]) = Inr k
     \<and> catalog_get plain_codec k (hr_judgment_id r) = Inr (Some r)"
proof -
  obtain r where r: "validate_history_record plain_codec r = Inr ()"
    using plain_judgment judgment_recordable[OF plain_hash plain_codec_hash] by blast
  have line: "lines_ok plain_codec None [r]"
    using r by (simp add: check_line_ok plain_codec_def MAX_HISTORY_LINE_BYTES_def)
  obtain k where "visit_all catalog_insert [r] catalog_new = Inr k"
    using catalog_visits_total[of "[r]" catalog_new] by (auto simp: ids_def catalog_new_def u64_max_def)
  with line have "journal_catalog plain_codec (Some [r]) = Inr k"
    unfolding journal_catalog_def option.case scan_history_ok by (rule conjI)
  with journal_catalog_exact[OF this] show ?thesis by auto
qed

end
