(* ===== verification/Token_Units.thy ===== *)
theory Token_Units
  imports Hex_Text
begin

section \<open>Addresses and amounts (cthuwu: token\_eye.rs)\<close>

text \<open>
  The 20-byte addresses and the 32-byte big-endian amounts of the token view, with their text forms
  and their byte-wise arithmetic.  Both are ordered as their byte arrays are, lexicographically.
\<close>

datatype token_eye_error =
    EYE_InvalidAddress string
  | EYE_InvalidQuantity string
  | EYE_InvalidEndpoint string
  | EYE_InvalidTierPolicy string
  | EYE_InvalidResponse string
  | EYE_Http string
  | EYE_HttpStatus nat
  | EYE_Rpc int string
  | EYE_Transport string
  | EYE_EconomicDataUnavailable string

subsection \<open>Hexadecimal digits\<close>

definition eye_nibble :: "char \<Rightarrow> 8 word option" where
  "eye_nibble c =
     (let value = byte c in
      if 48 \<le> value \<and> value \<le> 57 then Some (word_of_nat (value - 48))
      else if 97 \<le> value \<and> value \<le> 102 then Some (word_of_nat (value - 97 + 10))
      else if 65 \<le> value \<and> value \<le> 70 then Some (word_of_nat (value - 65 + 10))
      else None)"

fun decode_hex_pairs :: "string \<Rightarrow> (string, bytes) result" where
  "decode_hex_pairs (h # l # cs) =
     and_then (ok_or ''value contains a non-hexadecimal digit'' (eye_nibble h)) (\<lambda>high.
     and_then (ok_or ''value contains a non-hexadecimal digit'' (eye_nibble l)) (\<lambda>low.
     and_then (decode_hex_pairs cs) (\<lambda>bytes. Inr ((push_bit 4 high OR low) # bytes))))"
| "decode_hex_pairs _ = Inr []"

definition decode_hex_exact :: "string \<Rightarrow> nat \<Rightarrow> (string, bytes) result" where
  "decode_hex_exact encoded width =
     (if length encoded \<noteq> width * 2 then Inl ''hexadecimal value has the wrong length''
      else decode_hex_pairs encoded)"

text \<open>
  The loop from the right end: \<open>source\<close> is what is left of the digits, last digit first, and
  \<open>index\<close> the position last written.
\<close>

fun decode_right_loop :: "string \<Rightarrow> nat \<Rightarrow> bytes \<Rightarrow> (string, bytes) result" where
  "decode_right_loop [] index out = Inr out"
| "decode_right_loop [l] index out =
     (if index = 0 then Inl ''hexadecimal value exceeds destination width''
      else and_then (ok_or ''value contains a non-hexadecimal digit'' (eye_nibble l)) (\<lambda>low.
           Inr (out[index - 1 := push_bit 4 0 OR low])))"
| "decode_right_loop (l # h # rest) index out =
     (if index = 0 then Inl ''hexadecimal value exceeds destination width''
      else and_then (ok_or ''value contains a non-hexadecimal digit'' (eye_nibble l)) (\<lambda>low.
           and_then (ok_or ''value contains a non-hexadecimal digit'' (eye_nibble h)) (\<lambda>high.
           decode_right_loop rest (index - 1) (out[index - 1 := push_bit 4 high OR low]))))"

definition decode_hex_right_aligned :: "string \<Rightarrow> bytes \<Rightarrow> (string, bytes) result" where
  "decode_hex_right_aligned encoded out = decode_right_loop (rev encoded) (length out) out"

subsection \<open>Addresses\<close>

datatype address = Address (address_bytes: bytes)

instantiation address :: linorder
begin

definition less_eq_address :: "address \<Rightarrow> address \<Rightarrow> bool" where
  "less_eq_address a b \<longleftrightarrow> address_bytes a \<le> address_bytes b"

definition less_address :: "address \<Rightarrow> address \<Rightarrow> bool" where
  "less_address a b \<longleftrightarrow> address_bytes a < address_bytes b"

instance
  by standard (auto simp: less_eq_address_def less_address_def address.expand)

end

definition Address_from_str :: "string \<Rightarrow> (token_eye_error, address) result" where
  "Address_from_str value =
     (if \<not> starts_with ''0x'' value then Inl (EYE_InvalidAddress ''address must start with lowercase 0x'')
      else let encoded = drop 2 value in
        if length encoded \<noteq> 40
        then Inl (EYE_InvalidAddress ''address must contain exactly 40 hexadecimal digits'')
        else and_then (map_err EYE_InvalidAddress (decode_hex_exact encoded 20)) (\<lambda>bytes. Inr (Address bytes)))"

definition Address_print :: "address \<Rightarrow> string" where
  "Address_print a = ''0x'' @ encode_hex (address_bytes a)"

subsection \<open>Amounts\<close>

datatype u256 = U256 (u256_bytes: bytes)

instantiation u256 :: linorder
begin

definition less_eq_u256 :: "u256 \<Rightarrow> u256 \<Rightarrow> bool" where
  "less_eq_u256 a b \<longleftrightarrow> u256_bytes a \<le> u256_bytes b"

definition less_u256 :: "u256 \<Rightarrow> u256 \<Rightarrow> bool" where
  "less_u256 a b \<longleftrightarrow> u256_bytes a < u256_bytes b"

instance
  by standard (auto simp: less_eq_u256_def less_u256_def u256.expand)

end

definition U256_ZERO :: u256 where
  "U256_ZERO = U256 (zero_bytes 32)"

text \<open>The \<open>to_be_bytes\<close> and \<open>from_be_bytes\<close> of the standard library.\<close>

fun be_array :: "nat \<Rightarrow> nat \<Rightarrow> bytes" where
  "be_array 0 n = []"
| "be_array (Suc k) n = be_array k (n div 256) @ [word_of_nat (n mod 256)]"

definition be_value :: "bytes \<Rightarrow> nat" where
  "be_value bs = foldl (\<lambda>v b. v * 256 + unat b) 0 bs"

definition U256_from_u64 :: "nat \<Rightarrow> u256" where
  "U256_from_u64 n = U256 (zero_bytes 24 @ be_array 8 n)"

definition U256_is_zero :: "u256 \<Rightarrow> bool" where
  "U256_is_zero a \<longleftrightarrow> a = U256_ZERO"

definition U256_from_quantity :: "string \<Rightarrow> (token_eye_error, u256) result" where
  "U256_from_quantity value =
     (if \<not> starts_with ''0x'' value then Inl (EYE_InvalidQuantity ''quantity must start with lowercase 0x'')
      else let encoded = drop 2 value in
        if encoded = [] then Inl (EYE_InvalidQuantity ''quantity must contain at least one hexadecimal digit'')
        else if length encoded > 64 then Inl (EYE_InvalidQuantity ''quantity exceeds 256 bits'')
        else if length encoded > 1 \<and> starts_with ''0'' encoded
        then Inl (EYE_InvalidQuantity ''quantity must not contain leading zero digits'')
        else and_then (map_err EYE_InvalidQuantity (decode_hex_right_aligned encoded (zero_bytes 32)))
               (\<lambda>bytes. Inr (U256 bytes)))"

definition U256_from_abi_word :: "string \<Rightarrow> (token_eye_error, u256) result" where
  "U256_from_abi_word value =
     (if \<not> starts_with ''0x'' value
      then Inl (EYE_InvalidResponse ''balance result must start with lowercase 0x'')
      else let encoded = drop 2 value in
        if length encoded \<noteq> 64 then Inl (EYE_InvalidResponse ''balance result must be one 32-byte ABI word'')
        else and_then (map_err EYE_InvalidResponse (decode_hex_exact encoded 32)) (\<lambda>bytes. Inr (U256 bytes)))"

definition U256_to_quantity :: "u256 \<Rightarrow> string" where
  "U256_to_quantity a =
     (case dropWhile (\<lambda>b. b = 0) (u256_bytes a) of
        [] \<Rightarrow> ''0x0''
      | first # rest \<Rightarrow> ''0x''
          @ (if first < 16 then [hex_digit (unat first)] else hex_byte first) @ concat (map hex_byte rest))"

definition U256_to_abi_word :: "u256 \<Rightarrow> string" where
  "U256_to_abi_word a = ''0x'' @ concat (map hex_byte (u256_bytes a))"

definition U256_saturating_to_u64 :: "u256 \<Rightarrow> nat" where
  "U256_saturating_to_u64 a =
     (if list_ex (\<lambda>b. b \<noteq> 0) (take 24 (u256_bytes a)) then u64_max else be_value (drop 24 (u256_bytes a)))"

definition U256_checked_to_u64 :: "u256 \<Rightarrow> nat option" where
  "U256_checked_to_u64 a =
     (if \<not> list_ex (\<lambda>b. b \<noteq> 0) (take 24 (u256_bytes a)) then Some (be_value (drop 24 (u256_bytes a))) else None)"

text \<open>
  Multiplication runs from the last byte to the first, so its loop reads the bytes in reverse; the
  result is the product's bytes, least first, and the carry that is left.  \<open>width\<close> is the modulus of
  the integers it computes with.
\<close>

fun mul_loop :: "nat \<Rightarrow> nat \<Rightarrow> nat \<Rightarrow> bytes \<Rightarrow> bytes \<times> nat" where
  "mul_loop width multiplier carry [] = ([], carry)"
| "mul_loop width multiplier carry (b # bs) =
     (let v = (unat b * multiplier + carry) mod width;
          (product, left) = mul_loop width multiplier (v div 256) bs
      in (word_of_nat (v mod 256) # product, left))"

definition checked_mul :: "nat \<Rightarrow> u256 \<Rightarrow> nat \<Rightarrow> u256 option" where
  "checked_mul width a multiplier =
     (let (product, carry) = mul_loop width multiplier 0 (rev (u256_bytes a)) in
      if carry = 0 then Some (U256 (rev product)) else None)"

definition U256_checked_mul_u64 :: "u256 \<Rightarrow> nat \<Rightarrow> u256 option" where
  "U256_checked_mul_u64 a multiplier = checked_mul (2 ^ 128) a multiplier"

definition U256_checked_mul_small :: "u256 \<Rightarrow> nat \<Rightarrow> u256 option" where
  "U256_checked_mul_small a multiplier = checked_mul (2 ^ 16) a multiplier"

fun div_loop :: "nat \<Rightarrow> nat \<Rightarrow> bytes \<Rightarrow> bytes" where
  "div_loop divisor remainder [] = []"
| "div_loop divisor remainder (b # bs) =
     (let dividend = remainder * 256 + unat b
      in word_of_nat (dividend div divisor) # div_loop divisor (dividend mod divisor) bs)"

definition U256_div_small :: "u256 \<Rightarrow> nat \<Rightarrow> u256" where
  "U256_div_small a divisor = U256 (div_loop divisor 0 (u256_bytes a))"

definition U256_checked_mul_basis_points :: "u256 \<Rightarrow> nat \<Rightarrow> u256 option" where
  "U256_checked_mul_basis_points a basis_points =
     map_option (\<lambda>product. U256_div_small product 10000) (U256_checked_mul_u64 a basis_points)"

fun div_tens :: "nat \<Rightarrow> u256 \<Rightarrow> u256" where
  "div_tens 0 a = a"
| "div_tens (Suc n) a = div_tens n (U256_div_small a 10)"

definition U256_whole_units :: "u256 \<Rightarrow> nat \<Rightarrow> nat" where
  "U256_whole_units a decimals = U256_saturating_to_u64 (div_tens decimals a)"

fun mul_tens :: "nat \<Rightarrow> u256 \<Rightarrow> u256 option" where
  "mul_tens 0 a = Some a"
| "mul_tens (Suc n) a = Option.bind (U256_checked_mul_small a 10) (mul_tens n)"

definition U256_power_of_ten :: "nat \<Rightarrow> u256 option" where
  "U256_power_of_ten exponent = mul_tens exponent (U256_from_u64 1)"

end
