(* ===== verification/Token_Observance.thy ===== *)
theory Token_Observance
  imports Token_Units
begin

section \<open>The local view of balances (cthuwu: token\_eye.rs)\<close>

text \<open>
  What one Tentacle knows of the balances it has read: the last successful read of each holder, the
  reputation tier computed from all of them, and the last failed read.  Times are seconds, durations
  are nanoseconds, as \<open>Duration\<close> resolves them.  The maps are the source's hash maps; no result
  depends on their order.  A contract read is two critical sections around a network call, so the
  operations on the shared view are given one by one and composed in \<open>eye_run\<close>.
\<close>

type_synonym duration = nat

definition from_secs :: "nat \<Rightarrow> duration" where
  "from_secs s = s * 1000000000"

definition MIN_FAILURE_BACKOFF :: duration where
  "MIN_FAILURE_BACKOFF = from_secs 1"

definition MAX_FAILURE_BACKOFF :: duration where
  "MAX_FAILURE_BACKOFF = from_secs 30"

subsection \<open>Tiers\<close>

datatype reputation_tier = RT_Whale | RT_Elder | RT_Acolyte | RT_Initiate | RT_Unproven

fun tier_priority :: "reputation_tier \<Rightarrow> nat" where
  "tier_priority RT_Unproven = 0"
| "tier_priority RT_Initiate = 1"
| "tier_priority RT_Acolyte = 2"
| "tier_priority RT_Elder = 3"
| "tier_priority RT_Whale = 4"

definition tier_meets :: "reputation_tier \<Rightarrow> reputation_tier \<Rightarrow> bool" where
  "tier_meets tier minimum \<longleftrightarrow> tier_priority tier \<ge> tier_priority minimum"

record tier_policy =
  whale_basis_points :: nat
  elder_basis_points :: nat
  acolyte_minimum :: u256

definition TierPolicy_new :: "nat \<Rightarrow> nat \<Rightarrow> u256 \<Rightarrow> (token_eye_error, tier_policy) result" where
  "TierPolicy_new whale elder acolyte =
     (if whale > elder \<or> elder > 10000
      then Inl (EYE_InvalidTierPolicy ''percentiles must satisfy whale <= elder <= 10000 basis points'')
      else Inr \<lparr>whale_basis_points = whale, elder_basis_points = elder, acolyte_minimum = acolyte\<rparr>)"

definition TierPolicy_default :: tier_policy where
  "TierPolicy_default =
     \<lparr>whale_basis_points = 100, elder_basis_points = 1000, acolyte_minimum = U256_from_u64 1000000000000000000\<rparr>"

definition falls_within_percentile :: "nat \<Rightarrow> nat \<Rightarrow> nat \<Rightarrow> bool" where
  "falls_within_percentile larger population basis_points \<longleftrightarrow>
     basis_points \<noteq> 0 \<and> population * basis_points \<ge> 10000 \<and> larger * 10000 < population * basis_points"

text \<open>
  \<open>partition_point\<close> of the standard library is the length of the longest prefix the predicate holds
  on, when the list is partitioned by it; the list here is sorted in descending order.
\<close>

definition partition_point :: "('a \<Rightarrow> bool) \<Rightarrow> 'a list \<Rightarrow> nat" where
  "partition_point p xs = length (takeWhile p xs)"

definition classify_balance :: "u256 \<Rightarrow> u256 list \<Rightarrow> tier_policy \<Rightarrow> reputation_tier" where
  "classify_balance balance descending policy =
     (if U256_is_zero balance then RT_Unproven
      else if balance < acolyte_minimum policy then RT_Initiate
      else let larger = partition_point (\<lambda>candidate. candidate > balance) descending;
               population = length descending in
        if falls_within_percentile larger population (whale_basis_points policy) then RT_Whale
        else if falls_within_percentile larger population (elder_basis_points policy) then RT_Elder
        else RT_Acolyte)"

subsection \<open>Observations\<close>

datatype observation_freshness = OF_Fresh | OF_Cached | OF_Stale | OF_Unknown

record balance_observation =
  bo_holder :: address
  bo_balance :: "u256 option"
  bo_observed_at :: "nat option"
  bo_tier :: reputation_tier
  bo_freshness :: observation_freshness
  bo_error :: "token_eye_error option"

record operational_observation =
  oo_holder :: address
  oo_balance :: u256
  oo_observed_at :: nat
  oo_tier :: reputation_tier
  oo_freshness :: observation_freshness

definition require_operational :: "balance_observation \<Rightarrow> (token_eye_error, operational_observation) result" where
  "require_operational ob =
     (if bo_freshness ob = OF_Fresh \<or> bo_freshness ob = OF_Cached then
        and_then (ok_or (EYE_EconomicDataUnavailable ''current observation has no balance'') (bo_balance ob)) (\<lambda>balance.
        and_then (ok_or (EYE_EconomicDataUnavailable ''current observation has no timestamp'') (bo_observed_at ob)) (\<lambda>at.
        case bo_error ob of
          Some error \<Rightarrow> Inl error
        | None \<Rightarrow> Inr \<lparr>oo_holder = bo_holder ob, oo_balance = balance, oo_observed_at = at,
                       oo_tier = bo_tier ob, oo_freshness = bo_freshness ob\<rparr>))
      else if bo_freshness ob = OF_Stale
      then Inl (EYE_EconomicDataUnavailable ''token balance is stale after an RPC failure'')
      else Inl (EYE_EconomicDataUnavailable ''token balance is unknown''))"

definition unknown_observation :: "address \<Rightarrow> token_eye_error option \<Rightarrow> balance_observation" where
  "unknown_observation holder error =
     \<lparr>bo_holder = holder, bo_balance = None, bo_observed_at = None, bo_tier = RT_Unproven,
      bo_freshness = OF_Unknown, bo_error = error\<rparr>"

subsection \<open>The view\<close>

record failed_refresh =
  failed_at :: nat
  failed_error :: token_eye_error

record token_observance =
  eye_balances :: "(address, u256) bmap"
  eye_last_seen :: "(address, nat) bmap"
  eye_tiers :: "(address, reputation_tier) bmap"
  eye_interval :: duration
  eye_policy :: tier_policy
  eye_failed :: "(address, failed_refresh) bmap"

definition Observance_with_policy :: "duration \<Rightarrow> tier_policy \<Rightarrow> token_observance" where
  "Observance_with_policy interval policy =
     \<lparr>eye_balances = bm_empty, eye_last_seen = bm_empty, eye_tiers = bm_empty, eye_interval = interval,
      eye_policy = policy, eye_failed = bm_empty\<rparr>"

definition Observance_new :: "duration \<Rightarrow> token_observance" where
  "Observance_new interval = Observance_with_policy interval TierPolicy_default"

definition eligible_balances :: "token_observance \<Rightarrow> u256 list" where
  "eligible_balances s =
     rev (sort (filter (\<lambda>balance. \<not> U256_is_zero balance \<and> balance \<ge> acolyte_minimum (eye_policy s))
                 (bm_values (eye_balances s))))"

definition recompute_tiers :: "token_observance \<Rightarrow> token_observance" where
  "recompute_tiers s =
     (let eligible = eligible_balances s in
      s\<lparr>eye_tiers := fold (\<lambda>(holder, balance) tiers.
                          bm_insert holder (classify_balance balance eligible (eye_policy s)) tiers)
                       (bm_entries (eye_balances s)) bm_empty\<rparr>)"

definition set_observation_interval :: "token_observance \<Rightarrow> duration \<Rightarrow> token_observance" where
  "set_observation_interval s interval = s\<lparr>eye_interval := interval\<rparr>"

definition set_tier_policy :: "token_observance \<Rightarrow> tier_policy \<Rightarrow> token_observance" where
  "set_tier_policy s policy = recompute_tiers (s\<lparr>eye_policy := policy\<rparr>)"

definition is_refresh_due :: "token_observance \<Rightarrow> address \<Rightarrow> nat \<Rightarrow> bool" where
  "is_refresh_due s holder now =
     (case bm_get (eye_last_seen s) holder of
        None \<Rightarrow> True
      | Some seen \<Rightarrow> from_secs (now - seen) \<ge> eye_interval s)"

definition tier_for :: "token_observance \<Rightarrow> address \<Rightarrow> reputation_tier" where
  "tier_for s holder = (case bm_get (eye_tiers s) holder of None \<Rightarrow> RT_Unproven | Some tier \<Rightarrow> tier)"

definition cached :: "token_observance \<Rightarrow> address \<Rightarrow> nat \<Rightarrow> balance_observation" where
  "cached s holder now =
     (case bm_get (eye_balances s) holder of
        None \<Rightarrow> unknown_observation holder None
      | Some balance \<Rightarrow>
          \<lparr>bo_holder = holder, bo_balance = Some balance, bo_observed_at = bm_get (eye_last_seen s) holder,
           bo_tier = tier_for s holder,
           bo_freshness = (if is_refresh_due s holder now then OF_Stale else OF_Cached), bo_error = None\<rparr>)"

definition failed_observation :: "token_observance \<Rightarrow> address \<Rightarrow> token_eye_error \<Rightarrow> balance_observation" where
  "failed_observation s holder error =
     (case bm_get (eye_balances s) holder of
        None \<Rightarrow> unknown_observation holder (Some error)
      | Some balance \<Rightarrow>
          \<lparr>bo_holder = holder, bo_balance = Some balance, bo_observed_at = bm_get (eye_last_seen s) holder,
           bo_tier = tier_for s holder, bo_freshness = OF_Stale, bo_error = Some error\<rparr>)"

definition failure_backoff :: "token_observance \<Rightarrow> duration" where
  "failure_backoff s = min (max (eye_interval s) MIN_FAILURE_BACKOFF) MAX_FAILURE_BACKOFF"

definition backed_off :: "token_observance \<Rightarrow> address \<Rightarrow> nat \<Rightarrow> balance_observation option" where
  "backed_off s holder now =
     (case bm_get (eye_failed s) holder of
        None \<Rightarrow> None
      | Some failed \<Rightarrow>
          if from_secs (now - failed_at failed) \<ge> failure_backoff s then None
          else Some (failed_observation s holder (failed_error failed)))"

definition record_balance :: "token_observance \<Rightarrow> address \<Rightarrow> u256 \<Rightarrow> nat \<Rightarrow> token_observance" where
  "record_balance s holder balance observed_at =
     recompute_tiers (s\<lparr>eye_balances := bm_insert holder balance (eye_balances s),
                        eye_last_seen := bm_insert holder observed_at (eye_last_seen s),
                        eye_failed := bm_remove holder (eye_failed s)\<rparr>)"

definition forget :: "token_observance \<Rightarrow> address \<Rightarrow> token_observance" where
  "forget s holder =
     recompute_tiers (s\<lparr>eye_balances := bm_remove holder (eye_balances s),
                        eye_last_seen := bm_remove holder (eye_last_seen s),
                        eye_tiers := bm_remove holder (eye_tiers s),
                        eye_failed := bm_remove holder (eye_failed s)\<rparr>)"

definition apply_refresh ::
  "token_observance \<Rightarrow> address \<Rightarrow> nat \<Rightarrow> (token_eye_error, u256) result \<Rightarrow> token_observance \<times> balance_observation" where
  "apply_refresh s holder now outcome =
     (case outcome of
        Inr balance \<Rightarrow>
          let s' = record_balance s holder balance now in
          (s', \<lparr>bo_holder = holder, bo_balance = Some balance, bo_observed_at = Some now,
                bo_tier = tier_for s' holder, bo_freshness = OF_Fresh, bo_error = None\<rparr>)
      | Inl error \<Rightarrow>
          let s' = s\<lparr>eye_failed := bm_insert holder \<lparr>failed_at = now, failed_error = error\<rparr> (eye_failed s)\<rparr> in
          (s', failed_observation s' holder error))"

subsection \<open>Reading through the view\<close>

text \<open>
  The first critical section of an observation: the answer it gives at once, or \<open>None\<close> when the
  balance has to be read from the chain.
\<close>

definition look :: "token_observance \<Rightarrow> address \<Rightarrow> nat \<Rightarrow> balance_observation option" where
  "look s holder now =
     (if \<not> is_refresh_due s holder now then Some (cached s holder now)
      else backed_off s holder now)"

text \<open>An observation that nothing interleaves with; \<open>balance_of\<close> is the transport.\<close>

definition observe ::
  "token_observance \<Rightarrow> (address \<Rightarrow> (token_eye_error, u256) result) \<Rightarrow> address \<Rightarrow> nat
     \<Rightarrow> token_observance \<times> balance_observation" where
  "observe s balance_of holder now =
     (case look s holder now of
        Some observation \<Rightarrow> (s, observation)
      | None \<Rightarrow> apply_refresh s holder now (balance_of holder))"

definition observe_fresh ::
  "token_observance \<Rightarrow> (address \<Rightarrow> (token_eye_error, u256) result) \<Rightarrow> address \<Rightarrow> nat
     \<Rightarrow> token_observance \<times> balance_observation" where
  "observe_fresh s balance_of holder now = apply_refresh s holder now (balance_of holder)"

definition observe_required ::
  "token_observance \<Rightarrow> (address \<Rightarrow> (token_eye_error, u256) result) \<Rightarrow> address \<Rightarrow> nat
     \<Rightarrow> token_observance \<times> (token_eye_error, operational_observation) result" where
  "observe_required s balance_of holder now =
     (let (s', observation) = observe s balance_of holder now in (s', require_operational observation))"

definition observe_fresh_required ::
  "token_observance \<Rightarrow> (address \<Rightarrow> (token_eye_error, u256) result) \<Rightarrow> address \<Rightarrow> nat
     \<Rightarrow> token_observance \<times> (token_eye_error, operational_observation) result" where
  "observe_fresh_required s balance_of holder now =
     (let (s', observation) = observe_fresh s balance_of holder now in (s', require_operational observation))"

text \<open>
  The critical sections in whatever order tasks reach them: \<open>Look\<close> is the first section of an
  observation, \<open>Land\<close> the second, with what the transport answered.  The direct operations on the view
  are events as well.
\<close>

datatype eye_event =
    Look address nat
  | Land address nat "(token_eye_error, u256) result"
  | RecordBalance address u256 nat
  | Forget address
  | SetInterval duration
  | SetTierPolicy tier_policy

fun eye_step :: "token_observance \<Rightarrow> eye_event \<Rightarrow> token_observance \<times> balance_observation option" where
  "eye_step s (Look holder now) = (s, look s holder now)"
| "eye_step s (Land holder now outcome) = (let (s', observation) = apply_refresh s holder now outcome in (s', Some observation))"
| "eye_step s (RecordBalance holder balance observed_at) = (record_balance s holder balance observed_at, None)"
| "eye_step s (Forget holder) = (forget s holder, None)"
| "eye_step s (SetInterval interval) = (set_observation_interval s interval, None)"
| "eye_step s (SetTierPolicy policy) = (set_tier_policy s policy, None)"

definition eye_run :: "token_observance \<Rightarrow> eye_event list \<Rightarrow> token_observance" where
  "eye_run s es = foldl (\<lambda>s e. fst (eye_step s e)) s es"

end
