(* ===== verification/Token_Arithmetic.thy ===== *)
theory Token_Arithmetic
  imports Token_Units
begin

section \<open>Amounts denote numbers\<close>

text \<open>
  The 32 bytes of an amount denote a number below \<open>2 ^ 256\<close>; every byte-wise operation is the
  operation on numbers, and the order of the byte arrays is the order of the numbers.
\<close>

subsection \<open>Big-endian values\<close>

lemma unat_byte: "unat (b :: 8 word) < 256"
  using unsigned_less[of b] by simp

lemma unat_byte_le: "unat (b :: 8 word) \<le> 255"
  using unat_byte[of b] by simp

lemma unat_of_byte [simp]: "unat (word_of_nat n :: 8 word) = n mod 256"
  by (simp add: unsigned_of_nat take_bit_eq_mod)

lemma be_value_foldl: "foldl (\<lambda>v b. v * 256 + unat b) n bs = n * 256 ^ length bs + be_value bs"
  for bs :: bytes
proof (induction bs arbitrary: n)
  case (Cons b bs)
  have "be_value (b # bs) = unat b * 256 ^ length bs + be_value bs"
    using Cons.IH[of "unat b"] by (simp add: be_value_def)
  then show ?case using Cons.IH[of "n * 256 + unat b"] by (simp add: algebra_simps)
qed (simp add: be_value_def)

lemma be_value_simps [simp]:
  "be_value [] = 0"
  "be_value (b # bs) = unat b * 256 ^ length bs + be_value bs"
  "be_value (bs @ cs) = be_value bs * 256 ^ length cs + be_value cs"
  using be_value_foldl[of "unat b" bs] be_value_foldl[of "be_value bs" cs]
  by (simp_all add: be_value_def)

lemma be_value_bound: "be_value bs < 256 ^ length bs"
proof (induction bs)
  case (Cons b bs)
  have "unat b * 256 ^ length bs \<le> 255 * 256 ^ length bs" by (intro mult_le_mono1 unat_byte_le)
  with Cons.IH have "unat b * 256 ^ length bs + be_value bs < 255 * 256 ^ length bs + 256 ^ length bs"
    by (rule add_le_less_mono[rotated])
  then show ?case by simp
qed simp

lemma be_value_zero [simp]: "be_value (zero_bytes n) = 0"
  by (induction n) (simp_all add: zero_bytes_def)

lemma zero_bytes_length [simp]: "length (zero_bytes n) = n"
  by (simp add: zero_bytes_def)

lemma be_value_pad [simp]: "be_value (zero_bytes n @ bs) = be_value bs"
  by simp

lemma be_array_length [simp]: "length (be_array k n) = k"
  by (induction k n rule: be_array.induct) simp_all

lemma be_value_be_array: "be_value (be_array k n) = n mod 256 ^ k"
proof (induction k n rule: be_array.induct)
  case (2 k n)
  then show ?case by (simp add: mod_mult2_eq add.commute mult.commute)
qed simp

lemma be_value_less:
  "length a = length b \<Longrightarrow> (be_value a < be_value b \<longleftrightarrow> a < b) \<and> (be_value a = be_value b \<longleftrightarrow> a = b)"
proof (induction a b rule: list_induct2)
  case (Cons x xs y ys)
  define m where "m = (256 :: nat) ^ length ys"
  have b: "be_value xs < m" "be_value ys < m" using be_value_bound[of xs] be_value_bound[of ys] Cons by (simp_all add: m_def)
  have v: "be_value (x # xs) = unat x * m + be_value xs" "be_value (y # ys) = unat y * m + be_value ys"
    using Cons.hyps by (simp_all add: m_def)
  have step: "i < j \<Longrightarrow> i * m + u < j * m + w" if "u < m" for i j u w :: nat
  proof -
    assume "i < j"
    then have "Suc i * m \<le> j * m" by (intro mult_le_mono1) simp
    with that show ?thesis by simp
  qed
  have "unat x = unat y \<longleftrightarrow> x = y" by (rule word_eq_iff_unsigned[symmetric])
  moreover have "unat x < unat y \<longleftrightarrow> x < y" by (simp add: word_less_nat_alt)
  ultimately show ?case
    using step[OF b(1), of "unat x" "unat y" "be_value ys"] step[OF b(2), of "unat y" "unat x" "be_value xs"]
      Cons.IH Cons.hyps unfolding v by (cases "unat x" "unat y" rule: linorder_cases) auto
qed simp

lemma be_value_inject: "length a = length b \<Longrightarrow> be_value a = be_value b \<Longrightarrow> a = b"
  using be_value_less by blast

subsection \<open>The loops\<close>

lemma mul_loop_value:
  "carry \<le> m \<Longrightarrow> 256 * m < width \<Longrightarrow> mul_loop width m carry bs = (p, c) \<Longrightarrow>
     length p = length bs \<and> be_value (rev p) + c * 256 ^ length bs = be_value (rev bs) * m + carry"
proof (induction bs arbitrary: carry p c)
  case (Cons b bs)
  define v where "v = unat b * m + carry"
  have "unat b * m \<le> 255 * m" by (intro mult_le_mono1 unat_byte_le)
  with Cons.prems(1) have bound: "v \<le> 256 * m" unfolding v_def by linarith
  then have "v mod width = v" "v div 256 \<le> m" using Cons.prems(2) by simp_all
  then obtain p' where p': "mul_loop width m (v div 256) bs = (p', c)" "p = word_of_nat (v mod 256) # p'"
    using Cons.prems(3) by (auto simp: v_def[symmetric] split: prod.splits)
  have ih: "length p' = length bs" "be_value (rev p') + c * 256 ^ length bs = be_value (rev bs) * m + v div 256"
    using Cons.IH[OF \<open>v div 256 \<le> m\<close> Cons.prems(2) p'(1)] by auto
  have "be_value (rev p) + c * 256 ^ length (b # bs)
      = 256 * (be_value (rev p') + c * 256 ^ length bs) + v mod 256"
    by (simp add: p'(2))
  also have "\<dots> = 256 * (be_value (rev bs) * m) + v"
    unfolding ih(2) by (simp add: algebra_simps)
  finally show ?case using ih(1) p'(2) by (simp add: v_def algebra_simps)
qed simp

lemma div_loop_length [simp]: "length (div_loop d r bs) = length bs"
  by (induction d r bs rule: div_loop.induct) (simp_all add: Let_def)

lemma div_loop_value:
  "r < d \<Longrightarrow> be_value (div_loop d r bs) = (r * 256 ^ length bs + be_value bs) div d"
proof (induction bs arbitrary: r)
  case (Cons b bs)
  define n where "n = r * 256 + unat b"
  have "r * 256 + unat b < (r + 1) * 256" using unat_byte[of b] by (simp only: distrib_right mult_1)
  also have "\<dots> \<le> d * 256" using Cons.prems by (intro mult_le_mono1) simp
  finally have "n < d * 256" by (simp add: n_def)
  then have "n div d < 256" using Cons.prems by (simp add: less_mult_imp_div_less mult.commute)
  then have q: "unat (word_of_nat (n div d) :: 8 word) = n div d" by simp
  have "(n * 256 ^ length bs + be_value bs) div d
      = ((n div d) * 256 ^ length bs * d + ((n mod d) * 256 ^ length bs + be_value bs)) div d"
  proof -
    have "n * 256 ^ length bs = ((n div d) * d + n mod d) * 256 ^ length bs" by simp
    also have "\<dots> = (n div d) * 256 ^ length bs * d + (n mod d) * 256 ^ length bs"
      by (simp only: distrib_right mult.assoc mult.commute[of d])
    finally show ?thesis by (simp only: add.assoc)
  qed
  also have "\<dots> = (n div d) * 256 ^ length bs + ((n mod d) * 256 ^ length bs + be_value bs) div d"
    using Cons.prems by (simp add: add.commute)
  finally show ?case
    using Cons.IH[of "n mod d"] Cons.prems q by (simp add: n_def[symmetric] Let_def) (simp add: n_def algebra_simps)
qed simp

subsection \<open>The operations\<close>

definition u256_wf :: "u256 \<Rightarrow> bool" where
  "u256_wf a \<longleftrightarrow> length (u256_bytes a) = 32"

definition u256_value :: "u256 \<Rightarrow> nat" where
  "u256_value a = be_value (u256_bytes a)"

lemma pow_256: "(256 :: nat) ^ 32 = 2 ^ 256" "(256 :: nat) ^ 24 * 256 ^ 8 = 2 ^ 256"
  by simp_all

lemma u256_bound: "u256_wf a \<Longrightarrow> u256_value a < 2 ^ 256"
  using be_value_bound[of "u256_bytes a"] unfolding u256_wf_def u256_value_def by (simp only: pow_256)

lemma u256_order:
  assumes "u256_wf a" "u256_wf b"
  shows "a < b \<longleftrightarrow> u256_value a < u256_value b" "a \<le> b \<longleftrightarrow> u256_value a \<le> u256_value b"
    "a = b \<longleftrightarrow> u256_value a = u256_value b"
proof -
  have len: "length (u256_bytes a) = length (u256_bytes b)" using assms by (simp add: u256_wf_def)
  show "a < b \<longleftrightarrow> u256_value a < u256_value b"
    using be_value_less[OF len] by (simp add: less_u256_def u256_value_def)
  show "a = b \<longleftrightarrow> u256_value a = u256_value b"
    using be_value_less[OF len] by (auto simp: u256_value_def u256.expand)
  show "a \<le> b \<longleftrightarrow> u256_value a \<le> u256_value b"
    using be_value_less[OF len] be_value_less[OF len[symmetric]]
    unfolding less_eq_u256_def u256_value_def not_less[symmetric] by simp
qed

lemma zero_value: "u256_wf U256_ZERO" "u256_value U256_ZERO = 0"
  by (simp_all add: U256_ZERO_def u256_wf_def u256_value_def)

lemma is_zero_value: "u256_wf a \<Longrightarrow> U256_is_zero a \<longleftrightarrow> u256_value a = 0"
  using u256_order(3)[OF _ zero_value(1)] by (simp add: U256_is_zero_def zero_value(2))

lemma from_u64_value: "n \<le> u64_max \<Longrightarrow> u256_wf (U256_from_u64 n) \<and> u256_value (U256_from_u64 n) = n"
  by (simp add: U256_from_u64_def u256_wf_def u256_value_def be_value_be_array u64_max_def)

lemma checked_mul_value:
  assumes "u256_wf a" "256 * m < width"
  shows "(case checked_mul width a m of
            None \<Rightarrow> 2 ^ 256 \<le> u256_value a * m
          | Some b \<Rightarrow> u256_wf b \<and> u256_value b = u256_value a * m)"
proof -
  obtain p c where loop: "mul_loop width m 0 (rev (u256_bytes a)) = (p, c)" by (cases "mul_loop width m 0 (rev (u256_bytes a))")
  have spec: "length p = 32" "be_value (rev p) + c * 2 ^ 256 = u256_value a * m"
    using mul_loop_value[OF _ assms(2) loop] assms(1)
    unfolding u256_wf_def u256_value_def by (simp_all only: pow_256 length_rev rev_rev_ident add_0_right le0)
  show ?thesis
  proof (cases "c = 0")
    case True
    then show ?thesis using spec by (simp add: checked_mul_def loop u256_wf_def u256_value_def)
  next
    case False
    then have "1 * 2 ^ 256 \<le> c * (2 :: nat) ^ 256" by (intro mult_le_mono1) simp
    then have "2 ^ 256 \<le> u256_value a * m" unfolding spec(2)[symmetric] by (simp only: mult_1 trans_le_add2)
    with False show ?thesis by (simp add: checked_mul_def loop)
  qed
qed

lemma checked_mul_u64_value:
  assumes "u256_wf a" "m \<le> u64_max"
  shows "(case U256_checked_mul_u64 a m of
            None \<Rightarrow> 2 ^ 256 \<le> u256_value a * m
          | Some b \<Rightarrow> u256_wf b \<and> u256_value b = u256_value a * m)"
  unfolding U256_checked_mul_u64_def
  using assms by (intro checked_mul_value) (simp_all add: u64_max_def)

lemma div_small_value:
  "u256_wf a \<Longrightarrow> 0 < d \<Longrightarrow> u256_wf (U256_div_small a d) \<and> u256_value (U256_div_small a d) = u256_value a div d"
  by (simp add: U256_div_small_def u256_wf_def u256_value_def div_loop_value)

lemma mul_basis_points_value:
  assumes "u256_wf a" "bps \<le> u16_max"
  shows "(case U256_checked_mul_basis_points a bps of
            None \<Rightarrow> 2 ^ 256 \<le> u256_value a * bps
          | Some b \<Rightarrow> u256_wf b \<and> u256_value b = u256_value a * bps div 10000)"
  using checked_mul_u64_value[OF assms(1), of bps] assms(2) div_small_value[of _ 10000]
  by (cases "U256_checked_mul_u64 a bps") (auto simp: U256_checked_mul_basis_points_def u16_max_def u64_max_def)

lemma div_tens_value: "u256_wf a \<Longrightarrow> u256_wf (div_tens n a) \<and> u256_value (div_tens n a) = u256_value a div 10 ^ n"
  by (induction n arbitrary: a) (simp_all add: div_small_value div_mult2_eq[symmetric])

lemma low_bytes_value:
  assumes "u256_wf a"
  shows "(\<not> list_ex (\<lambda>b. b \<noteq> 0) (take 24 (u256_bytes a)) \<longleftrightarrow> u256_value a \<le> u64_max)
     \<and> (u256_value a \<le> u64_max \<longrightarrow> be_value (drop 24 (u256_bytes a)) = u256_value a)"
proof -
  let ?hi = "take 24 (u256_bytes a)" and ?lo = "drop 24 (u256_bytes a)"
  have len: "length ?hi = 24" "length ?lo = 8" using assms by (simp_all add: u256_wf_def)
  have split: "u256_value a = be_value ?hi * 256 ^ 8 + be_value ?lo"
    using be_value_simps(3)[of ?hi ?lo] len(2) by (simp add: u256_value_def)
  have "be_value ?lo < 256 ^ 8" using be_value_bound[of ?lo] len(2) by simp
  moreover have "\<not> list_ex (\<lambda>b. b \<noteq> 0) ?hi \<longleftrightarrow> ?hi = zero_bytes 24"
    using len(1) by (auto simp: list_ex_iff zero_bytes_def intro: replicate_eqI)
  moreover have "?hi = zero_bytes 24 \<longleftrightarrow> be_value ?hi = 0"
    using be_value_less[of ?hi "zero_bytes 24"] len(1) by auto
  ultimately show ?thesis unfolding split by (cases "be_value ?hi") (auto simp: u64_max_def)
qed

lemma saturating_to_u64_value: "u256_wf a \<Longrightarrow> U256_saturating_to_u64 a = min (u256_value a) u64_max"
  using low_bytes_value[of a] by (auto simp: U256_saturating_to_u64_def)

lemma checked_to_u64_value:
  "u256_wf a \<Longrightarrow> U256_checked_to_u64 a = (if u256_value a \<le> u64_max then Some (u256_value a) else None)"
  using low_bytes_value[of a] by (auto simp: U256_checked_to_u64_def)

lemma whole_units_value: "u256_wf a \<Longrightarrow> U256_whole_units a n = min (u256_value a div 10 ^ n) u64_max"
  by (simp add: U256_whole_units_def saturating_to_u64_value div_tens_value)

lemma mul_tens_value:
  "u256_wf a \<Longrightarrow> 0 < u256_value a \<Longrightarrow>
     (case mul_tens n a of
        None \<Rightarrow> 2 ^ 256 \<le> u256_value a * 10 ^ n
      | Some b \<Rightarrow> u256_wf b \<and> u256_value b = u256_value a * 10 ^ n)"
proof (induction n arbitrary: a)
  case (Suc n)
  have step: "(case U256_checked_mul_small a 10 of
            None \<Rightarrow> 2 ^ 256 \<le> u256_value a * 10
          | Some b \<Rightarrow> u256_wf b \<and> u256_value b = u256_value a * 10)"
    unfolding U256_checked_mul_small_def by (rule checked_mul_value[OF Suc.prems(1)]) simp
  show ?case
  proof (cases "U256_checked_mul_small a 10")
    case None
    then have "2 ^ 256 * 1 \<le> (u256_value a * 10) * 10 ^ n" using step by (intro mult_le_mono) simp_all
    with None show ?thesis by (simp only: mul_tens.simps bind.simps option.case mult_1_right power_Suc mult.assoc)
  next
    case (Some b)
    then have b: "u256_wf b" "u256_value b = u256_value a * 10" using step by simp_all
    have "0 < u256_value b" using b(2) Suc.prems(2) by simp
    from Suc.IH[OF b(1) this] show ?thesis
      unfolding mul_tens.simps Some bind.simps b(2) power_Suc mult.assoc .
  qed
qed simp

lemma power_of_ten_value:
  "(case U256_power_of_ten n of
      None \<Rightarrow> 2 ^ 256 \<le> (10 :: nat) ^ n
    | Some b \<Rightarrow> u256_wf b \<and> u256_value b = 10 ^ n)"
proof -
  have one: "u256_wf (U256_from_u64 1)" "u256_value (U256_from_u64 1) = 1"
    using from_u64_value[of 1] by (simp_all add: u64_max_def)
  show ?thesis
    using mul_tens_value[of "U256_from_u64 1" n] one unfolding U256_power_of_ten_def by (simp only: mult_1 zero_less_one simp_thms)
qed

end
