(* ===== verification/Token_Text.thy ===== *)
theory Token_Text
  imports Token_Arithmetic
begin

section \<open>The text of an amount\<close>

text \<open>
  A quantity is the hexadecimal numeral of its number: which strings are read, to which number, and
  that printing a number and reading it again gives it back.
\<close>

definition digit_value :: "char \<Rightarrow> nat" where
  "digit_value c = (case eye_nibble c of None \<Rightarrow> 0 | Some w \<Rightarrow> unat w)"

text \<open>The number of a string of digits, last digit first.\<close>

fun right_value :: "string \<Rightarrow> nat" where
  "right_value [] = 0"
| "right_value (c # cs) = digit_value c + 16 * right_value cs"

lemma right_value_append: "right_value (cs @ ds) = right_value cs + 16 ^ length cs * right_value ds"
  by (induction cs) (simp_all add: algebra_simps)

lemma eye_nibble_Some:
  "eye_nibble c = Some w \<Longrightarrow> is_ascii_hexdigit c \<and> unat w < 16 \<and> digit_value c = unat w"
  by (auto simp: digit_value_def eye_nibble_def Let_def is_ascii_hexdigit_def is_ascii_digit_def
      unsigned_of_nat take_bit_nat_eq_self simp del: of_nat_diff of_nat_add split: if_splits)

lemma eye_nibble_iff: "(\<exists>w. eye_nibble c = Some w) \<longleftrightarrow> is_ascii_hexdigit c"
  by (auto simp: eye_nibble_def Let_def is_ascii_hexdigit_def is_ascii_digit_def)

lemma eye_nibble_None: "eye_nibble c = None \<longleftrightarrow> \<not> is_ascii_hexdigit c"
  using eye_nibble_iff[of c] by (cases "eye_nibble c") auto

lemma eye_nibble_hex [simp]: "n < 16 \<Longrightarrow> eye_nibble (hex_digit n) = Some (word_of_nat n)"
  by (simp add: eye_nibble_def byte_hex_digit Let_def)

lemma digit_value_hex [simp]: "n < 16 \<Longrightarrow> digit_value (hex_digit n) = n"
  by (simp add: digit_value_def)

subsection \<open>Reading\<close>

lemma zero_bytes_Suc: "zero_bytes (Suc n) = zero_bytes n @ [0]"
  by (simp add: zero_bytes_def replicate_append_same)

lemma zero_bytes_update: "(zero_bytes (Suc n) @ tail)[n := x] = zero_bytes n @ x # tail"
  unfolding zero_bytes_Suc by (simp add: list_update_append)

lemma decode_right_value:
  "length cs \<le> 2 * n \<Longrightarrow> list_all is_ascii_hexdigit cs \<Longrightarrow>
     \<exists>bs. decode_right_loop cs n (zero_bytes n @ tail) = Inr bs \<and> length bs = n + length tail
        \<and> be_value bs = right_value cs * 256 ^ length tail + be_value tail"
proof (induction cs arbitrary: n tail rule: induct_list012)
  case 1
  then show ?case by simp
next
  case (2 l)
  then obtain k where n: "n = Suc k" by (cases n) auto
  obtain w where w: "eye_nibble l = Some w" using 2 eye_nibble_iff[of l] by auto
  then show ?case
    using eye_nibble_Some[OF w] zero_bytes_update[of k tail w] by (simp add: n)
next
  case (3 l h rest)
  from 3(3) obtain k where n: "n = Suc k" by (cases n) auto
  obtain low high where w: "eye_nibble l = Some low" "eye_nibble h = Some high"
    using 3(4) eye_nibble_iff[of l] eye_nibble_iff[of h] by auto
  define b where "b = push_bit 4 high OR low"
  have b: "unat b = 16 * unat high + unat low"
    using eye_nibble_Some[OF w(1)] eye_nibble_Some[OF w(2)] by (simp add: b_def nibbles_value)
  obtain bs where bs: "decode_right_loop rest k (zero_bytes k @ b # tail) = Inr bs" "length bs = k + length (b # tail)"
    "be_value bs = right_value rest * 256 ^ length (b # tail) + be_value (b # tail)"
    using 3(1)[of k "b # tail"] 3(3,4) n by auto
  have "decode_right_loop (l # h # rest) n (zero_bytes n @ tail) = Inr bs"
    using bs(1) w zero_bytes_update[of k tail b] by (simp add: n b_def)
  moreover have "be_value bs = right_value (l # h # rest) * 256 ^ length tail + be_value tail"
    using bs(3) b eye_nibble_Some[OF w(1)] eye_nibble_Some[OF w(2)] by (simp add: algebra_simps)
  ultimately show ?case using bs(2) n by (intro exI[of _ bs] conjI) simp_all
qed

lemma decode_right_rejects:
  "\<not> list_all is_ascii_hexdigit cs \<Longrightarrow> \<exists>e. decode_right_loop cs n out = Inl e"
proof (induction cs n out rule: decode_right_loop.induct)
  case (2 l n out)
  then show ?case using eye_nibble_None[of l] by auto
next
  case (3 l h rest n out)
  then show ?case
    using eye_nibble_None[of l] eye_nibble_None[of h] by (cases "eye_nibble l"; cases "eye_nibble h") auto
qed simp

definition canonical_digits :: "string \<Rightarrow> bool" where
  "canonical_digits ds \<longleftrightarrow> ds \<noteq> [] \<and> length ds \<le> 64 \<and> list_all is_ascii_hexdigit ds
     \<and> (length ds > 1 \<longrightarrow> hd ds \<noteq> CHR ''0'')"

lemma from_quantity_value:
  "U256_from_quantity s = Inr a \<longleftrightarrow>
     (\<exists>ds. s = ''0x'' @ ds \<and> canonical_digits ds \<and> u256_wf a \<and> u256_value a = right_value (rev ds))"
proof (cases "\<exists>ds. s = ''0x'' @ ds")
  case False
  then have "\<not> starts_with ''0x'' s" unfolding starts_with_def by (metis append_take_drop_id)
  with False show ?thesis by (auto simp: U256_from_quantity_def)
next
  case True
  then obtain ds where s: "s = ''0x'' @ ds" ..
  have start: "starts_with ''0x'' s" unfolding starts_with_def s strip_prefix_append by simp
  have zero: "starts_with ''0'' ds \<longleftrightarrow> hd ds = CHR ''0''" if "ds \<noteq> []"
    using that by (cases ds) (auto simp: starts_with_def strip_prefix_def)
  let ?read = "decode_right_loop (rev ds) 32 (zero_bytes 32)"
  have read: "U256_from_quantity s = Inr a \<longleftrightarrow>
      ds \<noteq> [] \<and> length ds \<le> 64 \<and> (length ds > 1 \<longrightarrow> hd ds \<noteq> CHR ''0'') \<and> ?read = Inr (u256_bytes a)"
    unfolding U256_from_quantity_def using start zero
    by (auto simp: s decode_hex_right_aligned_def Let_def)
  have "?read = Inr (u256_bytes a) \<longleftrightarrow> list_all is_ascii_hexdigit ds \<and> u256_wf a \<and> u256_value a = right_value (rev ds)"
    if len: "length ds \<le> 64"
  proof (cases "list_all is_ascii_hexdigit ds")
    case True
    then obtain bs where bs: "?read = Inr bs" "length bs = 32" "be_value bs = right_value (rev ds)"
      using decode_right_value[of "rev ds" 32 "[]"] len by auto
    then show ?thesis
      using True be_value_inject[of bs "u256_bytes a"] by (auto simp: u256_wf_def u256_value_def)
  next
    case False
    then show ?thesis using decode_right_rejects[of "rev ds" 32 "zero_bytes 32"] by auto
  qed
  then have "U256_from_quantity s = Inr a \<longleftrightarrow>
      canonical_digits ds \<and> u256_wf a \<and> u256_value a = right_value (rev ds)"
    unfolding read canonical_digits_def by (cases "length ds \<le> 64") (simp_all only: simp_thms, blast)
  then show ?thesis by (simp add: s)
qed

subsection \<open>Printing\<close>

lemma hexdigit_hex: "n < 16 \<Longrightarrow> is_ascii_hexdigit (hex_digit n)"
  using eye_nibble_iff[of "hex_digit n"] by simp

lemma byte_nibbles_value: "16 * unat (drop_bit 4 b) + unat (b AND 15) = unat (b :: 8 word)"
  using nibbles_value[OF nibble_bounds(1) nibble_bounds(2), of b b] nibbles[of b] by simp

lemma encode_hex_digits: "list_all is_ascii_hexdigit (encode_hex bs)"
  by (auto simp: encode_hex_def hex_byte_def list_all_iff hexdigit_hex nibble_bounds)

lemma sixteen_squared: "(16 :: nat) ^ (n * 2) = 256 ^ n" "(16 :: nat) ^ (2 * n) = 256 ^ n"
  by (simp_all add: power_mult power_mult_distrib[symmetric] power2_eq_square mult.commute[of n])

lemma encode_hex_value: "right_value (rev (encode_hex bs)) = be_value bs"
proof (induction bs)
  case (Cons b bs)
  have "rev (encode_hex (b # bs)) = rev (encode_hex bs) @ [hex_digit (unat (b AND 15)), hex_digit (unat (drop_bit 4 b))]"
    by (simp add: encode_hex_def hex_byte_def)
  then show ?case
    using Cons byte_nibbles_value[of b]
    by (simp add: right_value_append encode_hex_length nibble_bounds sixteen_squared algebra_simps)
qed (simp add: encode_hex_def)

lemma hex_digit_zero: "n < 16 \<Longrightarrow> hex_digit n = CHR ''0'' \<longleftrightarrow> n = 0"
proof -
  assume "n < 16"
  moreover have "byte (CHR ''0'') = 48" by (simp add: byte_def)
  moreover have "hex_digit n = CHR ''0'' \<longleftrightarrow> byte (hex_digit n) = byte (CHR ''0'')" by (simp only: byte_inject)
  ultimately show "hex_digit n = CHR ''0'' \<longleftrightarrow> n = 0" by (simp add: byte_hex_digit)
qed

lemma to_quantity_digits:
  assumes "u256_wf a"
  shows "\<exists>ds. U256_to_quantity a = ''0x'' @ ds \<and> canonical_digits ds \<and> right_value (rev ds) = u256_value a"
proof (cases "dropWhile (\<lambda>b. b = 0) (u256_bytes a)")
  case Nil
  then have "\<forall>b\<in>set (u256_bytes a). b = 0" by simp
  then have "u256_bytes a = zero_bytes 32"
    using assms unfolding u256_wf_def zero_bytes_def by (metis replicate_eqI)
  then have "u256_value a = 0" by (simp add: u256_value_def)
  moreover have "U256_to_quantity a = ''0x'' @ ''0''" unfolding U256_to_quantity_def Nil by simp
  moreover have "canonical_digits ''0''" "right_value (rev ''0'') = 0"
    by (simp_all add: canonical_digits_def is_ascii_hexdigit_def is_ascii_digit_def byte_def
        digit_value_def eye_nibble_def)
  ultimately show ?thesis by metis
next
  case (Cons b bs)
  have b: "b \<noteq> 0" using Cons by (metis (mono_tags) hd_dropWhile list.sel(1) list.distinct(1))
  have len: "length (b # bs) \<le> 32" using assms length_dropWhile_le[of "\<lambda>b. b = 0" "u256_bytes a"] Cons by (simp add: u256_wf_def)
  have "takeWhile (\<lambda>b. b = 0) (u256_bytes a) = zero_bytes (length (takeWhile (\<lambda>b. b = 0) (u256_bytes a)))"
    unfolding zero_bytes_def by (rule replicate_eqI) (auto dest: set_takeWhileD)
  then have "u256_bytes a = zero_bytes (length (takeWhile (\<lambda>b. b = 0) (u256_bytes a))) @ b # bs"
    by (metis Cons takeWhile_dropWhile_id)
  then have val: "u256_value a = be_value (b # bs)" unfolding u256_value_def by (metis be_value_pad)
  define ds where "ds = (if b < 16 then [hex_digit (unat b)] else hex_byte b) @ encode_hex bs"
  have printed: "U256_to_quantity a = ''0x'' @ ds" by (simp add: U256_to_quantity_def Cons ds_def encode_hex_def)
  have small: "b < 16 \<longleftrightarrow> unat b < 16" by (simp add: word_less_nat_alt)
  have nz: "unat b \<noteq> 0" using b by (simp add: unat_eq_0)
  have high: "0 < unat (drop_bit 4 b)" if "\<not> unat b < 16"
    using that byte_nibbles_value[of b] nibble_bounds(2)[of b] by linarith
  have canonical: "canonical_digits ds"
    using len encode_hex_digits[of bs] small high nz nibble_bounds[of b]
    by (auto simp: canonical_digits_def ds_def hex_byte_def encode_hex_length hexdigit_hex hex_digit_zero)
  have "right_value (rev ds) = be_value (b # bs)"
    using small byte_nibbles_value[of b]
    by (auto simp: ds_def right_value_append encode_hex_length sixteen_squared encode_hex_value hex_byte_def nibble_bounds)
  with printed canonical val show ?thesis by auto
qed

lemma from_to_quantity:
  assumes "u256_wf a"
  shows "U256_from_quantity (U256_to_quantity a) = Inr a"
  unfolding from_quantity_value using to_quantity_digits[OF assms] assms by metis

lemma decode_encode_pairs: "decode_hex_pairs (encode_hex bs) = Inr bs"
proof (induction bs)
  case (Cons b bs)
  have "(word_of_nat (unat (drop_bit 4 b)) :: 8 word) = drop_bit 4 b" "(word_of_nat (unat (b AND 15)) :: 8 word) = b AND 15"
    by (simp_all add: word_eq_iff_unsigned unsigned_of_nat)
  then show ?case using Cons nibbles[of b]
    by (simp add: encode_hex_def hex_byte_def nibble_bounds)
qed (simp add: encode_hex_def)

lemma abi_word_round_trip: "u256_wf a \<Longrightarrow> U256_from_abi_word (U256_to_abi_word a) = Inr a"
  by (simp add: U256_from_abi_word_def U256_to_abi_word_def starts_with_def encode_hex_def[symmetric]
      decode_hex_exact_def encode_hex_length u256_wf_def decode_encode_pairs)

lemma eye_address_round_trip: "length (address_bytes a) = 20 \<Longrightarrow> Address_from_str (Address_print a) = Inr a"
  by (simp add: Address_from_str_def Address_print_def starts_with_def decode_hex_exact_def encode_hex_length
      decode_encode_pairs)

end
