(* ===== verification/Token_Transport.thy ===== *)
theory Token_Transport
  imports Token_Observance Token_Text
begin

section \<open>Balances over JSON-RPC (cthuwu: token\_eye.rs)\<close>

text \<open>
  The requests the live transport sends and how it reads the answers.  Posting a request and decoding
  JSON are third-party code: \<open>post\<close> is the body an endpoint answers with, \<open>decode\<close> reads a body as a
  response and \<open>as_u64\<close> reads an identifier of it.
\<close>

definition BALANCE_OF_SELECTOR :: string where
  "BALANCE_OF_SELECTOR = ''70a08231''"

definition encode_balance_of_call :: "address \<Rightarrow> string" where
  "encode_balance_of_call holder =
     ''0x'' @ BALANCE_OF_SELECTOR @ ''000000000000000000000000'' @ encode_hex (address_bytes holder)"

text \<open>A request with its method and its parameters: the target contract and the call data, on the latest block.\<close>

datatype rpc_params = NoParams | EthCall string string string

record rpc_request =
  rq_jsonrpc :: string
  rq_id :: nat
  rq_method :: string
  rq_params :: rpc_params

definition balance_of_rpc_request :: "nat \<Rightarrow> address \<Rightarrow> address \<Rightarrow> rpc_request" where
  "balance_of_rpc_request i contract holder =
     \<lparr>rq_jsonrpc = ''2.0'', rq_id = i, rq_method = ''eth_call'',
      rq_params = EthCall (Address_print contract) (encode_balance_of_call holder) ''latest''\<rparr>"

definition chain_id_rpc_request :: "nat \<Rightarrow> rpc_request" where
  "chain_id_rpc_request i =
     \<lparr>rq_jsonrpc = ''2.0'', rq_id = i, rq_method = ''eth_chainId'', rq_params = NoParams\<rparr>"

record 'v rpc_response =
  rs_jsonrpc :: string
  rs_id :: 'v
  rs_result :: "string option"
  rs_error :: "(int \<times> string) option"

text \<open>The first \<open>n\<close> characters of a string, with the bytes that encode each.\<close>

fun limit_chars :: "nat \<Rightarrow> string \<Rightarrow> string" where
  "limit_chars 0 s = []"
| "limit_chars (Suc n) [] = []"
| "limit_chars (Suc n) (b # bs) =
     (let more = (if byte b < 128 then 0 else if byte b < 224 then 1 else if byte b < 240 then 2 else 3)
      in b # take more bs @ limit_chars n (drop more bs))"

definition parse_balance_of_rpc_response ::
  "('b \<Rightarrow> 'v rpc_response option) \<Rightarrow> ('v \<Rightarrow> nat option) \<Rightarrow> 'b \<Rightarrow> nat \<Rightarrow> (token_eye_error, u256) result" where
  "parse_balance_of_rpc_response decode as_u64 body expected =
     and_then (ok_or (EYE_InvalidResponse ''response is not valid JSON-RPC'') (decode body)) (\<lambda>response.
     if rs_jsonrpc response \<noteq> ''2.0'' then Inl (EYE_InvalidResponse ''jsonrpc version must be 2.0'')
     else if as_u64 (rs_id response) \<noteq> Some expected
     then Inl (EYE_InvalidResponse ''response id does not match request id'')
     else case rs_error response of
       Some (code, message) \<Rightarrow> Inl (EYE_Rpc code (limit_chars 512 message))
     | None \<Rightarrow>
         and_then (ok_or (EYE_InvalidResponse ''response has neither a result nor an error'') (rs_result response))
           U256_from_abi_word)"

definition parse_chain_id_rpc_response ::
  "('b \<Rightarrow> 'v rpc_response option) \<Rightarrow> ('v \<Rightarrow> nat option) \<Rightarrow> 'b \<Rightarrow> nat \<Rightarrow> (token_eye_error, nat) result" where
  "parse_chain_id_rpc_response decode as_u64 body expected =
     and_then (ok_or (EYE_InvalidResponse ''response is not valid JSON-RPC'') (decode body)) (\<lambda>response.
     if rs_jsonrpc response \<noteq> ''2.0'' then Inl (EYE_InvalidResponse ''jsonrpc version must be 2.0'')
     else if as_u64 (rs_id response) \<noteq> Some expected
     then Inl (EYE_InvalidResponse ''response id does not match request id'')
     else case rs_error response of
       Some (code, message) \<Rightarrow> Inl (EYE_Rpc code (limit_chars 512 message))
     | None \<Rightarrow>
         and_then (ok_or (EYE_InvalidResponse ''response has neither a result nor an error'') (rs_result response)) (\<lambda>quantity.
         and_then (U256_from_quantity quantity) (\<lambda>n.
         ok_or (EYE_InvalidResponse ''chain id exceeds 64 bits'') (U256_checked_to_u64 n))))"

text \<open>The transport's own state: the next request identifier, which wraps, and the expected chain.\<close>

record rpc_transport =
  tr_next_id :: nat
  tr_expected_chain :: "nat option"

definition next_request_id :: "rpc_transport \<Rightarrow> rpc_transport \<times> nat" where
  "next_request_id t = (t\<lparr>tr_next_id := (tr_next_id t + 1) mod (u64_max + 1)\<rparr>, tr_next_id t)"

definition verify_chain ::
  "(rpc_request \<Rightarrow> (token_eye_error, 'b) result) \<Rightarrow> ('b \<Rightarrow> 'v rpc_response option) \<Rightarrow> ('v \<Rightarrow> nat option)
     \<Rightarrow> rpc_transport \<Rightarrow> rpc_transport \<times> (token_eye_error, unit) result" where
  "verify_chain post decode as_u64 t =
     (case tr_expected_chain t of
        None \<Rightarrow> (t, Inr ())
      | Some expected \<Rightarrow>
          let (t, i) = next_request_id t in
          (t, and_then (post (chain_id_rpc_request i)) (\<lambda>body.
              and_then (parse_chain_id_rpc_response decode as_u64 body i) (\<lambda>actual.
              if actual \<noteq> expected
              then Inl (EYE_Transport (''RPC endpoint reported chain id '' @ decimal actual @ '', expected '' @ decimal expected))
              else Inr ()))))"

definition rpc_balance_of ::
  "(rpc_request \<Rightarrow> (token_eye_error, 'b) result) \<Rightarrow> ('b \<Rightarrow> 'v rpc_response option) \<Rightarrow> ('v \<Rightarrow> nat option)
     \<Rightarrow> rpc_transport \<Rightarrow> address \<Rightarrow> address \<Rightarrow> rpc_transport \<times> (token_eye_error, u256) result" where
  "rpc_balance_of post decode as_u64 t contract holder =
     (case verify_chain post decode as_u64 t of
        (t, Inl e) \<Rightarrow> (t, Inl e)
      | (t, Inr _) \<Rightarrow>
          let (t, i) = next_request_id t in
          (t, and_then (post (balance_of_rpc_request i contract holder)) (\<lambda>body.
              parse_balance_of_rpc_response decode as_u64 body i)))"

subsection \<open>What an answered balance implies\<close>

lemma decode_pairs_wf: "decode_hex_pairs s = Inr bs \<Longrightarrow> even (length s) \<Longrightarrow> length bs = length s div 2"
  by (induction s arbitrary: bs rule: decode_hex_pairs.induct) auto

lemma from_abi_word_wf: "U256_from_abi_word s = Inr a \<Longrightarrow> u256_wf a"
  by (auto simp: U256_from_abi_word_def decode_hex_exact_def u256_wf_def Let_def map_err_def
      dest: decode_pairs_wf split: if_splits sum.splits)

lemma parse_balance_ok:
  "parse_balance_of_rpc_response decode as_u64 body i = Inr a \<longleftrightarrow>
     (\<exists>r w. decode body = Some r \<and> rs_jsonrpc r = ''2.0'' \<and> as_u64 (rs_id r) = Some i \<and> rs_error r = None
        \<and> rs_result r = Some w \<and> U256_from_abi_word w = Inr a)"
proof (cases "decode body")
  case (Some r)
  then show ?thesis by (cases "rs_error r"; cases "rs_result r") (auto simp: parse_balance_of_rpc_response_def split: prod.splits)
qed (simp add: parse_balance_of_rpc_response_def)

lemma parse_chain_ok:
  "parse_chain_id_rpc_response decode as_u64 body i = Inr c \<longleftrightarrow>
     (\<exists>r q a. decode body = Some r \<and> rs_jsonrpc r = ''2.0'' \<and> as_u64 (rs_id r) = Some i \<and> rs_error r = None
        \<and> rs_result r = Some q \<and> U256_from_quantity q = Inr a \<and> U256_checked_to_u64 a = Some c)"
proof (cases "decode body")
  case (Some r)
  then show ?thesis by (cases "rs_error r"; cases "rs_result r") (auto simp: parse_chain_id_rpc_response_def split: prod.splits)
qed (simp add: parse_chain_id_rpc_response_def)

lemma rpc_balance_ok:
  assumes "tr_expected_chain t = Some chain" "tr_next_id t \<le> u64_max"
  shows "snd (rpc_balance_of post decode as_u64 t contract holder) = Inr a \<longleftrightarrow>
     (let i = tr_next_id t; j = (i + 1) mod (u64_max + 1) in
      (\<exists>body. post (chain_id_rpc_request i) = Inr body \<and> parse_chain_id_rpc_response decode as_u64 body i = Inr chain)
      \<and> (\<exists>body. post (balance_of_rpc_request j contract holder) = Inr body
           \<and> parse_balance_of_rpc_response decode as_u64 body j = Inr a))"
proof -
  define i where "i = tr_next_id t"
  define checked where "checked = and_then (post (chain_id_rpc_request i)) (\<lambda>body.
              and_then (parse_chain_id_rpc_response decode as_u64 body i) (\<lambda>actual.
              if actual \<noteq> chain
              then Inl (EYE_Transport (''RPC endpoint reported chain id '' @ decimal actual @ '', expected '' @ decimal chain))
              else Inr ()))"
  have verify: "verify_chain post decode as_u64 t = (t\<lparr>tr_next_id := (i + 1) mod (u64_max + 1)\<rparr>, checked)"
    by (simp add: verify_chain_def assms(1) next_request_id_def i_def checked_def)
  have "checked = Inr () \<longleftrightarrow> (\<exists>body. post (chain_id_rpc_request i) = Inr body
      \<and> parse_chain_id_rpc_response decode as_u64 body i = Inr chain)"
    by (auto simp: checked_def split: if_splits)
  then show ?thesis
    by (cases checked) (auto simp: rpc_balance_of_def verify next_request_id_def Let_def i_def[symmetric])
qed

end
