(* ===== verification/Token_View.thy ===== *)
theory Token_View
  imports Token_Observance Token_Arithmetic
begin

section \<open>What the view knows\<close>

text \<open>
  The view is compared with the log of what happened to it: \<open>recorded\<close> is the balance and time the
  log's last entry for a holder left, and the tier of a holder is a count over recorded balances.
\<close>

subsection \<open>Tiers by counting\<close>

lemma fold_insert_entries:
  "distinct (map fst xs) \<Longrightarrow>
     bm_get (fold (\<lambda>(k, v) m. bm_insert k (f v) m) xs m) k
       = (case map_of xs k of None \<Rightarrow> bm_get m k | Some v \<Rightarrow> Some (f v))"
  by (induction xs arbitrary: m) (auto split: option.splits simp: map_of_eq_None_iff[symmetric])

lemma recompute_frame [simp]:
  "eye_balances (recompute_tiers s) = eye_balances s"
  "eye_last_seen (recompute_tiers s) = eye_last_seen s"
  "eye_interval (recompute_tiers s) = eye_interval s"
  "eye_policy (recompute_tiers s) = eye_policy s"
  "eye_failed (recompute_tiers s) = eye_failed s"
  by (simp_all add: recompute_tiers_def Let_def)

lemma eligible_recompute [simp]: "eligible_balances (recompute_tiers s) = eligible_balances s"
  by (simp add: eligible_balances_def)

definition tiers_current :: "token_observance \<Rightarrow> bool" where
  "tiers_current s \<longleftrightarrow>
     (\<forall>h. bm_get (eye_tiers s) h
        = map_option (\<lambda>b. classify_balance b (eligible_balances s) (eye_policy s)) (bm_get (eye_balances s) h))"

lemma recompute_current: "tiers_current (recompute_tiers s)"
proof -
  have "bm_get (eye_tiers (recompute_tiers s)) h
      = (case map_of (bm_entries (eye_balances s)) h of None \<Rightarrow> None
         | Some b \<Rightarrow> Some (classify_balance b (eligible_balances s) (eye_policy s)))" for h
    by (simp add: recompute_tiers_def Let_def fold_insert_entries bm_keys_distinct[unfolded bm_keys_def] split: option.split)
  then show ?thesis
    by (auto simp: tiers_current_def bm_get_map_of[of "eye_balances s"] split: option.splits)
qed

lemma partition_count:
  fixes xs :: "'a::linorder list"
  assumes "sorted (rev xs)"
  shows "partition_point (\<lambda>c. c > b) xs = length (filter (\<lambda>c. c > b) xs)"
  using assms
proof (induction xs)
  case (Cons x xs)
  then have "sorted (rev xs)" "\<forall>y\<in>set xs. y \<le> x" by (auto simp: sorted_append)
  moreover from this(2) have "x \<le> b \<Longrightarrow> filter (\<lambda>c. c > b) xs = []" by (auto simp: filter_empty_conv)
  ultimately show ?case using Cons.IH by (auto simp: partition_point_def)
qed (simp add: partition_point_def)

definition eligible_holders :: "tier_policy \<Rightarrow> (address \<Rightarrow> u256 option) \<Rightarrow> address set" where
  "eligible_holders policy balances =
     {h. \<exists>b. balances h = Some b \<and> b \<noteq> U256_ZERO \<and> acolyte_minimum policy \<le> b}"

definition richer_holders :: "tier_policy \<Rightarrow> (address \<Rightarrow> u256 option) \<Rightarrow> u256 \<Rightarrow> address set" where
  "richer_holders policy balances b =
     {h. \<exists>c. balances h = Some c \<and> c \<noteq> U256_ZERO \<and> acolyte_minimum policy \<le> c \<and> b < c}"

text \<open>The tier of a balance by its place among the recorded holders.\<close>

definition counted_tier :: "tier_policy \<Rightarrow> (address \<Rightarrow> u256 option) \<Rightarrow> u256 \<Rightarrow> reputation_tier" where
  "counted_tier policy balances b =
     (let population = card (eligible_holders policy balances);
          richer = card (richer_holders policy balances b);
          top = (\<lambda>bps. 10000 \<le> population * bps \<and> richer * 10000 < population * bps) in
      if b = U256_ZERO then RT_Unproven
      else if b < acolyte_minimum policy then RT_Initiate
      else if top (whale_basis_points policy) then RT_Whale
      else if top (elder_basis_points policy) then RT_Elder
      else RT_Acolyte)"

lemma classify_counted:
  "classify_balance b (eligible_balances s) (eye_policy s) = counted_tier (eye_policy s) (bm_get (eye_balances s)) b"
proof -
  let ?p = "\<lambda>balance. \<not> U256_is_zero balance \<and> balance \<ge> acolyte_minimum (eye_policy s)"
  have len: "length (eligible_balances s) = card (eligible_holders (eye_policy s) (bm_get (eye_balances s)))"
    by (simp add: eligible_balances_def filter_values_card eligible_holders_def U256_is_zero_def)
  have "partition_point (\<lambda>c. c > b) (eligible_balances s) = length (filter (\<lambda>c. c > b) (eligible_balances s))"
    by (rule partition_count) (simp add: eligible_balances_def)
  also have "\<dots> = length (filter (\<lambda>c. c > b) (filter ?p (bm_values (eye_balances s))))"
    by (simp only: eligible_balances_def rev_filter[symmetric] length_rev filter_sort length_sort)
  also have "\<dots> = card (richer_holders (eye_policy s) (bm_get (eye_balances s)) b)"
    by (simp add: filter_values_card richer_holders_def U256_is_zero_def conj_ac)
  finally show ?thesis
    by (auto simp: classify_balance_def counted_tier_def falls_within_percentile_def len Let_def U256_is_zero_def)
qed

lemma eligible_finite: "finite {h. balances h \<noteq> None} \<Longrightarrow> finite (eligible_holders policy balances) \<and> finite (richer_holders policy balances b)"
  by (auto simp: eligible_holders_def richer_holders_def elim: rev_finite_subset)

lemma counted_tier_mono:
  assumes "finite {h. balances h \<noteq> None}" "u256_wf b" "u256_wf b'" "b \<le> b'"
  shows "tier_meets (counted_tier policy balances b') (counted_tier policy balances b)"
proof (cases "b = U256_ZERO \<or> b < acolyte_minimum policy")
  case True
  have "b' \<noteq> U256_ZERO" if "b \<noteq> U256_ZERO"
    using that assms zero_value u256_order(2)[of b b'] u256_order(3)[of b U256_ZERO] by auto
  with True show ?thesis by (auto simp: counted_tier_def tier_meets_def Let_def)
next
  case False
  have "richer_holders policy balances b' \<subseteq> richer_holders policy balances b"
    using assms(4) by (auto simp: richer_holders_def)
  then have "card (richer_holders policy balances b') \<le> card (richer_holders policy balances b)"
    using eligible_finite[OF assms(1)] by (intro card_mono) auto
  then have richer: "card (richer_holders policy balances b) * 10000 < x \<Longrightarrow> card (richer_holders policy balances b') * 10000 < x" for x
    by linarith
  have b': "b' \<noteq> U256_ZERO" "\<not> b' < acolyte_minimum policy"
    using False assms zero_value u256_order(2)[of b b'] u256_order(3)[of b U256_ZERO] by auto
  show ?thesis using richer False b' by (simp add: counted_tier_def tier_meets_def Let_def)
qed

subsection \<open>The log\<close>

text \<open>The balance and the time a holder's entries leave, first entry first.\<close>

fun recorded_step :: "address \<Rightarrow> (u256 \<times> nat) option \<Rightarrow> eye_event \<Rightarrow> (u256 \<times> nat) option" where
  "recorded_step h r (Land h' now (Inr b)) = (if h' = h then Some (b, now) else r)"
| "recorded_step h r (RecordBalance h' b at) = (if h' = h then Some (b, at) else r)"
| "recorded_step h r (Forget h') = (if h' = h then None else r)"
| "recorded_step h r _ = r"

definition recorded :: "eye_event list \<Rightarrow> address \<Rightarrow> (u256 \<times> nat) option" where
  "recorded es h = foldl (recorded_step h) None es"

lemma recorded_simps [simp]:
  "recorded [] h = None"
  "recorded (es @ [e]) h = recorded_step h (recorded es h) e"
  by (simp_all add: recorded_def)

lemma eye_run_snoc [simp]:
  "eye_run s [] = s"
  "eye_run s (es @ [e]) = fst (eye_step (eye_run s es) e)"
  by (simp_all add: eye_run_def)

definition knows :: "token_observance \<Rightarrow> (address \<Rightarrow> (u256 \<times> nat) option) \<Rightarrow> bool" where
  "knows s r \<longleftrightarrow> (\<forall>h. bm_get (eye_balances s) h = map_option fst (r h))
     \<and> (\<forall>h. bm_get (eye_last_seen s) h = map_option snd (r h)) \<and> tiers_current s"

lemma tiers_current_failed [simp]: "tiers_current (s\<lparr>eye_failed := f\<rparr>) = tiers_current s"
  by (simp add: tiers_current_def eligible_balances_def)

lemma tiers_current_interval [simp]: "tiers_current (s\<lparr>eye_interval := i\<rparr>) = tiers_current s"
  by (simp add: tiers_current_def eligible_balances_def)

lemma knows_step: "knows s r \<Longrightarrow> knows (fst (eye_step s e)) (\<lambda>h. recorded_step h (r h) e)"
proof (induction s e rule: eye_step.induct)
  case (2 s holder now outcome)
  then show ?case
    by (cases outcome) (auto simp: knows_def apply_refresh_def record_balance_def Let_def recompute_current)
qed (auto simp: knows_def record_balance_def forget_def set_observation_interval_def set_tier_policy_def recompute_current)

lemma new_knows: "knows (Observance_with_policy interval policy) (\<lambda>h. None)"
  by (simp add: knows_def Observance_with_policy_def tiers_current_def)

lemma run_knows: "knows (eye_run (Observance_with_policy interval policy) es) (recorded es)"
proof (induction es rule: rev_induct)
  case (snoc e es)
  then show ?case using knows_step[OF snoc, of e] by simp
qed (simp add: new_knows)

lemma run_tier:
  assumes "knows s r"
  shows "tier_for s h = (case r h of None \<Rightarrow> RT_Unproven
           | Some (b, at) \<Rightarrow> counted_tier (eye_policy s) (\<lambda>h. map_option fst (r h)) b)"
proof -
  have bal: "bm_get (eye_balances s) = (\<lambda>h. map_option fst (r h))" using assms by (auto simp: knows_def)
  have "bm_get (eye_tiers s) h = map_option (counted_tier (eye_policy s) (\<lambda>h. map_option fst (r h))) (map_option fst (r h))"
    using assms unfolding knows_def tiers_current_def classify_counted bal by simp
  then show ?thesis by (cases "r h") (auto simp: tier_for_def)
qed

lemma finite_recorded: "knows s r \<Longrightarrow> finite {h. map_option fst (r h) \<noteq> None}"
  using finite_bm_dom[of "eye_balances s"] by (simp add: knows_def)

subsection \<open>What an operation may rely on\<close>

lemma require_operational_ok:
  "require_operational ob = Inr p \<longleftrightarrow>
     (bo_freshness ob = OF_Fresh \<or> bo_freshness ob = OF_Cached) \<and> bo_error ob = None
     \<and> bo_balance ob = Some (oo_balance p) \<and> bo_observed_at ob = Some (oo_observed_at p)
     \<and> oo_holder p = bo_holder ob \<and> oo_tier p = bo_tier ob \<and> oo_freshness p = bo_freshness ob"
  by (cases p) (auto simp: require_operational_def split: option.splits)

lemma failed_not_operational: "require_operational (failed_observation s h e) \<noteq> Inr p"
  by (auto simp: require_operational_ok failed_observation_def unknown_observation_def split: option.splits)

lemma look_operational:
  assumes "knows s r"
  shows "(\<exists>ob. look s h now = Some ob \<and> require_operational ob = Inr p) \<longleftrightarrow>
     (\<exists>b at. r h = Some (b, at) \<and> from_secs (now - at) < eye_interval s
        \<and> p = \<lparr>oo_holder = h, oo_balance = b, oo_observed_at = at, oo_tier = tier_for s h, oo_freshness = OF_Cached\<rparr>)"
proof (cases "is_refresh_due s h now")
  case True
  then have "look s h now = Some ob \<Longrightarrow> \<exists>e. ob = failed_observation s h e" for ob
    by (auto simp: look_def backed_off_def split: option.splits if_splits)
  moreover have "r h = Some (b, at) \<Longrightarrow> \<not> from_secs (now - at) < eye_interval s" for b at
    using True assms by (auto simp: is_refresh_due_def knows_def split: option.splits)
  ultimately show ?thesis using failed_not_operational by blast
next
  case False
  then obtain b at where r: "r h = Some (b, at)" "from_secs (now - at) < eye_interval s"
    using assms by (auto simp: is_refresh_due_def knows_def split: option.splits)
  then show ?thesis using False assms
    by (cases p) (auto simp: look_def cached_def knows_def require_operational_ok)
qed

lemma land_operational:
  "require_operational (snd (apply_refresh s h now outcome)) = Inr p \<longleftrightarrow>
     (\<exists>b. outcome = Inr b \<and> p = \<lparr>oo_holder = h, oo_balance = b, oo_observed_at = now,
        oo_tier = tier_for (fst (apply_refresh s h now outcome)) h, oo_freshness = OF_Fresh\<rparr>)"
proof (cases outcome)
  case (Inl e)
  then show ?thesis by (simp add: apply_refresh_def Let_def failed_not_operational)
next
  case (Inr b)
  then show ?thesis by (cases p) (auto simp: apply_refresh_def Let_def require_operational_ok)
qed

end
