(* ===== verification/Token_Governance.thy ===== *)
theory Token_Governance
  imports Token_Observance
begin

section \<open>Token-weighted ballots (cthuwu: token\_gov.rs)\<close>

text \<open>
  One ballot box per proposal: a policy, the ballots cast and the weight that has taken part.  Weights
  are basis points in 16 bits; the arithmetic between them is done in 64 bits and clamped back, as
  written out below.
\<close>

datatype token_governance_error =
    TGE_InvalidProposalId string
  | TGE_InvalidPolicy string
  | TGE_WeightOutOfRange string nat
  | TGE_DuplicateBallot address
  | TGE_TierBelowMinimum reputation_tier reputation_tier
  | TGE_EligibleWeightExceeded
  | TGE_OutcomeHasNoApplication
  | TGE_InvalidApplication string

definition NORMALIZED_WEIGHT_MAX_BPS :: nat where
  "NORMALIZED_WEIGHT_MAX_BPS = 10000"

subsection \<open>Proposals\<close>

datatype token_proposal_id = TokenProposalId (proposal_bytes: bytes)

fun proposal_pairs :: "string \<Rightarrow> (token_governance_error, bytes) result" where
  "proposal_pairs (h # l # cs) =
     and_then (ok_or (TGE_InvalidProposalId ''proposal id contains a non-hexadecimal digit'') (eye_nibble h)) (\<lambda>high.
     and_then (ok_or (TGE_InvalidProposalId ''proposal id contains a non-hexadecimal digit'') (eye_nibble l)) (\<lambda>low.
     and_then (proposal_pairs cs) (\<lambda>bytes. Inr ((push_bit 4 high OR low) # bytes))))"
| "proposal_pairs _ = Inr []"

definition TokenProposalId_from_str :: "string \<Rightarrow> (token_governance_error, token_proposal_id) result" where
  "TokenProposalId_from_str value =
     (let encoded = (case strip_prefix ''0x'' value of None \<Rightarrow> value | Some rest \<Rightarrow> rest) in
      if length encoded \<noteq> 64
      then Inl (TGE_InvalidProposalId ''proposal id must contain exactly 64 hexadecimal digits'')
      else and_then (proposal_pairs encoded) (\<lambda>bytes. Inr (TokenProposalId bytes)))"

definition TokenProposalId_print :: "token_proposal_id \<Rightarrow> string" where
  "TokenProposalId_print p = ''0x'' @ encode_hex (proposal_bytes p)"

datatype governance_subject =
    SUB_NatureAdjustment | SUB_CouncilPolicy | SUB_EconomicPolicy | SUB_SkillPropagationPriority
  | SUB_LifecyclePolicy | SUB_RevenueSharePolicy | SUB_SpawnPolicy

datatype ballot_choice = BC_Yes | BC_No | BC_Abstain

subsection \<open>Policy\<close>

definition validate_normalized :: "string \<Rightarrow> nat \<Rightarrow> (token_governance_error, unit) result" where
  "validate_normalized field value =
     (if value > NORMALIZED_WEIGHT_MAX_BPS then Inl (TGE_WeightOutOfRange field value) else Inr ())"

record tier_vote_multipliers =
  whale_bps :: nat
  elder_bps :: nat
  acolyte_bps :: nat
  initiate_bps :: nat
  unproven_bps :: nat

definition multiplier_for_tier :: "tier_vote_multipliers \<Rightarrow> reputation_tier \<Rightarrow> nat" where
  "multiplier_for_tier m tier =
     (case tier of RT_Whale \<Rightarrow> whale_bps m | RT_Elder \<Rightarrow> elder_bps m | RT_Acolyte \<Rightarrow> acolyte_bps m
      | RT_Initiate \<Rightarrow> initiate_bps m | RT_Unproven \<Rightarrow> unproven_bps m)"

definition TierVoteMultipliers_default :: tier_vote_multipliers where
  "TierVoteMultipliers_default =
     \<lparr>whale_bps = 20000, elder_bps = 15000, acolyte_bps = 10000, initiate_bps = 7500, unproven_bps = 5000\<rparr>"

record token_governance_policy =
  quorum_bps :: nat
  approval_bps :: nat
  minimum_tier :: reputation_tier
  nature_tier_scale_bps :: nat
  tier_multipliers :: tier_vote_multipliers

definition TokenGovernancePolicy_default :: token_governance_policy where
  "TokenGovernancePolicy_default =
     \<lparr>quorum_bps = 0, approval_bps = 5001, minimum_tier = RT_Unproven,
      nature_tier_scale_bps = NORMALIZED_WEIGHT_MAX_BPS, tier_multipliers = TierVoteMultipliers_default\<rparr>"

definition validate_token_policy :: "token_governance_policy \<Rightarrow> (token_governance_error, token_governance_policy) result" where
  "validate_token_policy p =
     and_then (run_checks [validate_normalized ''quorum'' (quorum_bps p),
                           validate_normalized ''approval'' (approval_bps p),
                           validate_normalized ''Nature tier scale'' (nature_tier_scale_bps p)])
       (\<lambda>_. Inr p)"

definition with_nature_cooperation ::
  "token_governance_policy \<Rightarrow> nat \<Rightarrow> (token_governance_error, token_governance_policy) result" where
  "with_nature_cooperation p cooperation =
     (if cooperation > 100
      then Inl (TGE_InvalidPolicy ''Nature cooperation must be between 0 and 100'')
      else validate_token_policy (p\<lparr>nature_tier_scale_bps := (100 - cooperation) * 100\<rparr>))"

text \<open>
  The interpolation is signed: Rust's integer division truncates towards zero, which for a positive
  divisor is the quotient of the magnitude with the sign put back.
\<close>

definition interpolate_multiplier :: "nat \<Rightarrow> nat \<Rightarrow> nat" where
  "interpolate_multiplier full_strength_bps nature_scale_bps =
     (let delta = int full_strength_bps - 10000;
          scaled = delta * int nature_scale_bps;
          interpolated = 10000 + sgn scaled * (\<bar>scaled\<bar> div 10000)
      in nat (max 0 (min interpolated (int u16_max))))"

definition scaled_multiplier :: "token_governance_policy \<Rightarrow> reputation_tier \<Rightarrow> nat" where
  "scaled_multiplier p tier =
     interpolate_multiplier (multiplier_for_tier (tier_multipliers p) tier) (nature_tier_scale_bps p)"

definition apply_multiplier :: "nat \<Rightarrow> nat \<Rightarrow> nat" where
  "apply_multiplier weight_bps multiplier_bps = min (weight_bps * multiplier_bps div NORMALIZED_WEIGHT_MAX_BPS) u16_max"

definition ceil_basis_points :: "nat \<Rightarrow> nat \<Rightarrow> nat" where
  "ceil_basis_points value rate_bps =
     (let rounded = saturating_add u64_max (value * rate_bps) (10000 - 1) div 10000
      in if rounded \<le> u16_max then rounded else u16_max)"

subsection \<open>Ballots\<close>

record token_ballot =
  tb_voter :: address
  tb_tier :: reputation_tier
  tb_holding :: nat
  tb_effective :: nat
  tb_choice :: ballot_choice

record governance_tally =
  gt_ballot_count :: nat
  gt_yes_holding :: nat
  gt_no_holding :: nat
  gt_abstain_holding :: nat
  gt_participating_holding :: nat
  gt_yes_effective :: nat
  gt_no_effective :: nat
  gt_abstain_effective :: nat
  gt_participating_effective :: nat

datatype governance_outcome = GO_Approved | GO_Rejected | GO_QuorumNotMet | GO_NoDecisiveWeight

datatype binding_disposition =
    BD_ApplyApprovedProposal | BD_PreserveAfterRejection | BD_PreserveWithoutQuorum
  | BD_PreserveWithoutDecisiveWeight

record governance_result =
  gr_proposal_id :: token_proposal_id
  gr_subject :: governance_subject
  gr_tally :: governance_tally
  gr_quorum_required :: nat
  gr_quorum_met :: bool
  gr_approval_achieved :: nat
  gr_approval_required :: nat
  gr_outcome :: governance_outcome
  gr_disposition :: binding_disposition

record token_ballot_box =
  bx_proposal_id :: token_proposal_id
  bx_subject :: governance_subject
  bx_eligible :: nat
  bx_policy :: token_governance_policy
  bx_ballots :: "(address, token_ballot) bmap"
  bx_participating :: nat

definition BallotBox_new ::
  "token_proposal_id \<Rightarrow> governance_subject \<Rightarrow> nat \<Rightarrow> token_governance_policy
     \<Rightarrow> (token_governance_error, token_ballot_box) result" where
  "BallotBox_new proposal subject eligible policy =
     and_then (validate_normalized ''eligible weight'' eligible) (\<lambda>_.
     and_then (validate_token_policy policy) (\<lambda>policy.
     Inr \<lparr>bx_proposal_id = proposal, bx_subject = subject, bx_eligible = eligible, bx_policy = policy,
          bx_ballots = bm_empty, bx_participating = 0\<rparr>))"

definition BallotBox_from_hex_id ::
  "string \<Rightarrow> governance_subject \<Rightarrow> nat \<Rightarrow> token_governance_policy
     \<Rightarrow> (token_governance_error, token_ballot_box) result" where
  "BallotBox_from_hex_id proposal subject eligible policy =
     and_then (TokenProposalId_from_str proposal) (\<lambda>proposal. BallotBox_new proposal subject eligible policy)"

definition cast_ballot ::
  "token_ballot_box \<Rightarrow> address \<Rightarrow> reputation_tier \<Rightarrow> nat \<Rightarrow> ballot_choice
     \<Rightarrow> (token_governance_error, token_ballot_box \<times> token_ballot) result" where
  "cast_ballot bx voter tier holding choice =
     and_then (validate_normalized ''ballot holding weight'' holding) (\<lambda>_.
     if bm_contains (bx_ballots bx) voter then Inl (TGE_DuplicateBallot voter)
     else if \<not> tier_meets tier (minimum_tier (bx_policy bx))
     then Inl (TGE_TierBelowMinimum tier (minimum_tier (bx_policy bx)))
     else and_then (ok_or TGE_EligibleWeightExceeded (checked_add u16_max (bx_participating bx) holding)) (\<lambda>next.
     if next > bx_eligible bx then Inl TGE_EligibleWeightExceeded
     else let ballot = \<lparr>tb_voter = voter, tb_tier = tier, tb_holding = holding,
                        tb_effective = apply_multiplier holding (scaled_multiplier (bx_policy bx) tier),
                        tb_choice = choice\<rparr>
          in Inr (bx\<lparr>bx_ballots := bm_insert voter ballot (bx_ballots bx), bx_participating := next\<rparr>, ballot)))"

definition tally_ballot :: "token_ballot \<Rightarrow> governance_tally \<Rightarrow> governance_tally" where
  "tally_ballot b t =
     (case tb_choice b of
        BC_Yes \<Rightarrow> t\<lparr>gt_yes_holding := saturating_add u16_max (gt_yes_holding t) (tb_holding b),
                   gt_yes_effective := saturating_add u16_max (gt_yes_effective t) (tb_effective b)\<rparr>
      | BC_No \<Rightarrow> t\<lparr>gt_no_holding := saturating_add u16_max (gt_no_holding t) (tb_holding b),
                  gt_no_effective := saturating_add u16_max (gt_no_effective t) (tb_effective b)\<rparr>
      | BC_Abstain \<Rightarrow> t\<lparr>gt_abstain_holding := saturating_add u16_max (gt_abstain_holding t) (tb_holding b),
                       gt_abstain_effective := saturating_add u16_max (gt_abstain_effective t) (tb_effective b)\<rparr>)"

definition tally_default :: "nat \<Rightarrow> governance_tally" where
  "tally_default n =
     \<lparr>gt_ballot_count = n, gt_yes_holding = 0, gt_no_holding = 0, gt_abstain_holding = 0,
      gt_participating_holding = 0, gt_yes_effective = 0, gt_no_effective = 0, gt_abstain_effective = 0,
      gt_participating_effective = 0\<rparr>"

definition box_tally :: "token_ballot_box \<Rightarrow> governance_tally" where
  "box_tally bx =
     (let t = fold tally_ballot (bm_values (bx_ballots bx)) (tally_default (min (bm_len (bx_ballots bx)) u64_max)) in
      t\<lparr>gt_participating_holding :=
          saturating_add u16_max (saturating_add u16_max (gt_yes_holding t) (gt_no_holding t)) (gt_abstain_holding t),
        gt_participating_effective :=
          saturating_add u16_max (saturating_add u16_max (gt_yes_effective t) (gt_no_effective t)) (gt_abstain_effective t)\<rparr>)"

definition box_result :: "token_ballot_box \<Rightarrow> governance_result" where
  "box_result bx =
     (let t = box_tally bx;
          quorum = ceil_basis_points (bx_eligible bx) (quorum_bps (bx_policy bx));
          met = gt_participating_holding t \<ge> quorum;
          decisive = saturating_add u16_max (gt_yes_effective t) (gt_no_effective t);
          achieved = (if decisive = 0 then 0
                      else let share = gt_yes_effective t * 10000 div decisive
                           in if share \<le> u16_max then share else NORMALIZED_WEIGHT_MAX_BPS);
          outcome = (if \<not> met then GO_QuorumNotMet
                     else if decisive = 0 then GO_NoDecisiveWeight
                     else if achieved \<ge> approval_bps (bx_policy bx) then GO_Approved
                     else GO_Rejected);
          disposition = (case outcome of
                           GO_Approved \<Rightarrow> BD_ApplyApprovedProposal
                         | GO_Rejected \<Rightarrow> BD_PreserveAfterRejection
                         | GO_QuorumNotMet \<Rightarrow> BD_PreserveWithoutQuorum
                         | GO_NoDecisiveWeight \<Rightarrow> BD_PreserveWithoutDecisiveWeight)
      in \<lparr>gr_proposal_id = bx_proposal_id bx, gr_subject = bx_subject bx, gr_tally = t,
          gr_quorum_required = quorum, gr_quorum_met = met, gr_approval_achieved = achieved,
          gr_approval_required = approval_bps (bx_policy bx), gr_outcome = outcome,
          gr_disposition = disposition\<rparr>)"

subsection \<open>Application\<close>

datatype application_progress =
    AP_Pending
  | AP_Applied nat bytes
  | AP_Failed nat nat

record application_record =
  ar_proposal_id :: token_proposal_id
  ar_subject :: governance_subject
  ar_payload_hash :: bytes
  ar_decided_at :: nat
  ar_progress :: application_progress

definition requires_application :: "governance_result \<Rightarrow> bool" where
  "requires_application r \<longleftrightarrow> gr_disposition r = BD_ApplyApprovedProposal"

definition make_application_record ::
  "governance_result \<Rightarrow> bytes \<Rightarrow> nat \<Rightarrow> (token_governance_error, application_record) result" where
  "make_application_record r payload_hash decided_at =
     (if \<not> requires_application r then Inl TGE_OutcomeHasNoApplication
      else if payload_hash = zero_bytes 32
      then Inl (TGE_InvalidApplication ''proposal payload hash cannot be zero'')
      else if decided_at = 0 then Inl (TGE_InvalidApplication ''decision timestamp must be positive'')
      else Inr \<lparr>ar_proposal_id = gr_proposal_id r, ar_subject = gr_subject r, ar_payload_hash = payload_hash,
                ar_decided_at = decided_at, ar_progress = AP_Pending\<rparr>)"

definition validate_application :: "application_record \<Rightarrow> (token_governance_error, unit) result" where
  "validate_application r =
     run_checks
       [ensure (ar_payload_hash r \<noteq> zero_bytes 32) (TGE_InvalidApplication ''proposal payload hash cannot be zero''),
        ensure (ar_decided_at r \<noteq> 0) (TGE_InvalidApplication ''decision timestamp must be positive''),
        (case ar_progress r of
           AP_Pending \<Rightarrow> Inr ()
         | AP_Applied at hash \<Rightarrow>
             run_checks [ensure (\<not> at < ar_decided_at r) (TGE_InvalidApplication ''application predates its decision''),
                         ensure (hash \<noteq> zero_bytes 32)
                           (TGE_InvalidApplication ''resulting configuration hash cannot be zero'')]
         | AP_Failed at code \<Rightarrow>
             run_checks [ensure (\<not> at < ar_decided_at r)
                           (TGE_InvalidApplication ''application failure predates its decision''),
                         ensure (code \<noteq> 0) (TGE_InvalidApplication ''application failure code cannot be zero'')])]"

end
