(* ===== verification/Token_Ballots.thy ===== *)
theory Token_Ballots
  imports Token_Governance "HOL-Library.Multiset"
begin

section \<open>Ballot boxes count exactly\<close>

text \<open>
  The invariant of a ballot box under any sequence of ballots, accepted or refused, and what the tally
  of such a box is: no sum in it ever saturates, because full-strength multipliers keep the weight of
  10000 basis points of holding within 16 bits.
\<close>

subsection \<open>Sequences of ballots\<close>

type_synonym ballot_request = "address \<times> reputation_tier \<times> nat \<times> ballot_choice"

definition cast_or_keep :: "token_ballot_box \<Rightarrow> ballot_request \<Rightarrow> token_ballot_box" where
  "cast_or_keep bx r =
     (case r of (voter, tier, holding, choice) \<Rightarrow>
        case cast_ballot bx voter tier holding choice of Inl e \<Rightarrow> bx | Inr (bx', ballot) \<Rightarrow> bx')"

definition box_run :: "token_ballot_box \<Rightarrow> ballot_request list \<Rightarrow> token_ballot_box" where
  "box_run bx rs = foldl cast_or_keep bx rs"

fun cast_all :: "token_ballot_box \<Rightarrow> ballot_request list \<Rightarrow> (token_governance_error, token_ballot_box) result" where
  "cast_all bx [] = Inr bx"
| "cast_all bx ((voter, tier, holding, choice) # rs) =
     and_then (cast_ballot bx voter tier holding choice) (\<lambda>(bx', ballot). cast_all bx' rs)"

definition token_ballot_of :: "token_governance_policy \<Rightarrow> ballot_request \<Rightarrow> token_ballot" where
  "token_ballot_of policy r =
     (case r of (voter, tier, holding, choice) \<Rightarrow>
        \<lparr>tb_voter = voter, tb_tier = tier, tb_holding = holding,
         tb_effective = apply_multiplier holding (scaled_multiplier policy tier), tb_choice = choice\<rparr>)"

lemma token_ballot_of_fields [simp]:
  "tb_voter (token_ballot_of p r) = fst r"
  "tb_holding (token_ballot_of p r) = fst (snd (snd r))"
  by (simp_all add: token_ballot_of_def split: prod.splits)

definition admissible :: "token_ballot_box \<Rightarrow> ballot_request \<Rightarrow> bool" where
  "admissible bx r \<longleftrightarrow>
     (case r of (voter, tier, holding, choice) \<Rightarrow>
        holding \<le> 10000 \<and> bm_get (bx_ballots bx) voter = None \<and> tier_meets tier (minimum_tier (bx_policy bx)))"

definition receive :: "token_ballot_box \<Rightarrow> ballot_request \<Rightarrow> token_ballot_box" where
  "receive bx r =
     bx\<lparr>bx_ballots := bm_insert (fst r) (token_ballot_of (bx_policy bx) r) (bx_ballots bx),
        bx_participating := bx_participating bx + fst (snd (snd r))\<rparr>"

lemma receive_fields [simp]:
  "bx_ballots (receive bx r) = bm_insert (fst r) (token_ballot_of (bx_policy bx) r) (bx_ballots bx)"
  "bx_participating (receive bx r) = bx_participating bx + fst (snd (snd r))"
  "bx_policy (receive bx r) = bx_policy bx" "bx_eligible (receive bx r) = bx_eligible bx"
  by (simp_all add: receive_def)

lemma validate_normalized_ok [simp, check_simps]:
  "validate_normalized f v = Inr () \<longleftrightarrow> v \<le> 10000"
  by (simp add: validate_normalized_def NORMALIZED_WEIGHT_MAX_BPS_def)

lemma cast_ballot_ok:
  assumes "bx_eligible bx \<le> 10000"
  shows "cast_ballot bx voter tier holding choice = Inr (bx', ballot) \<longleftrightarrow>
     admissible bx (voter, tier, holding, choice) \<and> bx_participating bx + holding \<le> bx_eligible bx
     \<and> bx' = receive bx (voter, tier, holding, choice) \<and> ballot = token_ballot_of (bx_policy bx) (voter, tier, holding, choice)"
  using assms
  by (auto simp: cast_ballot_def admissible_def receive_def token_ballot_of_def checked_add_def u16_max_def ok_or_def Let_def)

subsection \<open>Weights\<close>

lemma raw_insert_mset:
  "k \<notin> fst ` set xs \<Longrightarrow> sum_list (map f (map snd (raw_insert k v xs))) = f v + sum_list (map f (map snd xs))"
  for f :: "'v \<Rightarrow> nat"
  by (induction k v xs rule: raw_insert.induct) auto

lemma values_insert_sum:
  "bm_get m k = None \<Longrightarrow>
     sum_list (map f (bm_values (bm_insert k v m))) = f v + sum_list (map f (bm_values m))"
  for f :: "'v \<Rightarrow> nat"
  using raw_insert_mset[of k "bm_entries m" f v]
  by (simp add: bm_values_def bm_entries_insert bm_get_map_of map_of_eq_None_iff)

definition weight :: "(token_ballot \<Rightarrow> nat) \<Rightarrow> token_ballot_box \<Rightarrow> nat" where
  "weight f bx = sum_list (map f (bm_values (bx_ballots bx)))"

text \<open>The weight of the ballots for one choice.\<close>

definition choice_weight :: "(token_ballot \<Rightarrow> nat) \<Rightarrow> ballot_choice \<Rightarrow> token_ballot_box \<Rightarrow> nat" where
  "choice_weight f c bx = weight (\<lambda>b. if tb_choice b = c then f b else 0) bx"

lemma choice_weights: "choice_weight f BC_Yes bx + choice_weight f BC_No bx + choice_weight f BC_Abstain bx = weight f bx"
proof -
  have "(\<Sum>b\<leftarrow>xs. if tb_choice b = BC_Yes then f b else 0) + (\<Sum>b\<leftarrow>xs. if tb_choice b = BC_No then f b else 0)
      + (\<Sum>b\<leftarrow>xs. if tb_choice b = BC_Abstain then f b else 0) = sum_list (map f xs)" for xs
  proof (induction xs)
    case (Cons b xs)
    then show ?case by (cases "tb_choice b") simp_all
  qed simp
  then show ?thesis by (simp add: choice_weight_def weight_def)
qed

definition policy_valid :: "token_governance_policy \<Rightarrow> bool" where
  "policy_valid p \<longleftrightarrow> quorum_bps p \<le> 10000 \<and> approval_bps p \<le> 10000 \<and> nature_tier_scale_bps p \<le> 10000"

lemma validate_token_policy_ok: "validate_token_policy p = Inr q \<longleftrightarrow> q = p \<and> policy_valid p"
  by (auto simp: validate_token_policy_def policy_valid_def)

definition box_inv :: "token_ballot_box \<Rightarrow> bool" where
  "box_inv bx \<longleftrightarrow> bx_participating bx = weight tb_holding bx \<and> bx_participating bx \<le> bx_eligible bx
     \<and> bx_eligible bx \<le> 10000 \<and> policy_valid (bx_policy bx)
     \<and> (\<forall>v b. bm_get (bx_ballots bx) v = Some b \<longrightarrow>
          tb_voter b = v \<and> tb_effective b = apply_multiplier (tb_holding b) (scaled_multiplier (bx_policy bx) (tb_tier b)))"

lemma new_box_inv: "BallotBox_new p s e pol = Inr bx \<Longrightarrow> box_inv bx"
  by (auto simp: BallotBox_new_def box_inv_def weight_def bm_values_def validate_token_policy_ok)

lemma receive_inv:
  assumes "box_inv bx" "admissible bx r" "bx_participating bx + fst (snd (snd r)) \<le> bx_eligible bx"
  shows "box_inv (receive bx r)"
proof -
  obtain voter tier holding choice where r: "r = (voter, tier, holding, choice)" by (cases r)
  have "weight tb_holding (receive bx r) = holding + weight tb_holding bx"
    using values_insert_sum[of "bx_ballots bx" voter tb_holding] assms(2) by (simp add: weight_def admissible_def r)
  then show ?thesis using assms unfolding box_inv_def by (auto simp: r token_ballot_of_def)
qed

lemma cast_cases:
  assumes "box_inv bx"
  obtains "cast_or_keep bx r = bx"
  | "cast_or_keep bx r = receive bx r" "admissible bx r" "bx_participating bx + fst (snd (snd r)) \<le> bx_eligible bx"
proof -
  obtain voter tier holding choice where r: "r = (voter, tier, holding, choice)" by (cases r)
  show ?thesis
  proof (cases "cast_ballot bx voter tier holding choice")
    case (Inl e)
    then show ?thesis using that(1) by (simp add: cast_or_keep_def r)
  next
    case (Inr p)
    obtain bx' ballot where p: "p = (bx', ballot)" by (cases p)
    have "admissible bx r \<and> bx_participating bx + holding \<le> bx_eligible bx \<and> bx' = receive bx r"
      using Inr cast_ballot_ok[of bx voter tier holding choice bx' ballot] assms by (auto simp: box_inv_def r p)
    then show ?thesis using that(2) Inr by (simp add: cast_or_keep_def r p)
  qed
qed

lemma cast_or_keep_inv: "box_inv bx \<Longrightarrow> box_inv (cast_or_keep bx r)"
  by (metis cast_cases receive_inv)

lemma box_run_inv: "box_inv bx \<Longrightarrow> box_inv (box_run bx rs)"
  unfolding box_run_def by (induction rs arbitrary: bx) (simp_all add: cast_or_keep_inv)

lemma cast_or_keep_keeps:
  assumes "box_inv bx"
  shows "bx_policy (cast_or_keep bx r) = bx_policy bx \<and> bx_eligible (cast_or_keep bx r) = bx_eligible bx
     \<and> (bm_get (bx_ballots bx) v = Some b \<longrightarrow> bm_get (bx_ballots (cast_or_keep bx r)) v = Some b)"
  using assms by (rule cast_cases[of bx r]) (auto simp: admissible_def)

lemma box_run_keeps:
  "box_inv bx \<Longrightarrow> bx_policy (box_run bx rs) = bx_policy bx \<and> bx_eligible (box_run bx rs) = bx_eligible bx
     \<and> (bm_get (bx_ballots bx) v = Some b \<longrightarrow> bm_get (bx_ballots (box_run bx rs)) v = Some b)"
  unfolding box_run_def
proof (induction rs arbitrary: bx)
  case (Cons r rs)
  then show ?case using cast_or_keep_inv[of bx r] cast_or_keep_keeps[of bx r] by simp
qed simp

subsection \<open>No sum saturates\<close>

lemma multiplier_bound: "interpolate_multiplier full scale \<le> u16_max"
  by (simp add: interpolate_multiplier_def Let_def u16_max_def)

lemma effective_bound:
  assumes "box_inv bx"
  shows "weight tb_effective bx \<le> u16_max"
proof -
  have each: "10000 * tb_effective b \<le> u16_max * tb_holding b" if b: "b \<in> set (bm_values (bx_ballots bx))" for b
  proof -
    define m where "m = scaled_multiplier (bx_policy bx) (tb_tier b)"
    have m: "m \<le> u16_max" by (simp add: m_def scaled_multiplier_def multiplier_bound)
    obtain v where "bm_get (bx_ballots bx) v = Some b" using b unfolding bm_values_iff by auto
    then have "tb_effective b \<le> tb_holding b * m div 10000"
      using assms by (simp add: box_inv_def apply_multiplier_def NORMALIZED_WEIGHT_MAX_BPS_def m_def)
    then have "10000 * tb_effective b \<le> tb_holding b * m" 
      by (rule order.trans[OF mult_le_mono2 times_div_less_eq_dividend])
    also have "\<dots> \<le> u16_max * tb_holding b" using m by (simp add: mult.commute mult_le_mono2)
    finally show ?thesis .
  qed
  have "10000 * weight tb_effective bx = sum_list (map (\<lambda>b. 10000 * tb_effective b) (bm_values (bx_ballots bx)))"
    by (simp add: weight_def sum_list_const_mult)
  also have "\<dots> \<le> sum_list (map (\<lambda>b. u16_max * tb_holding b) (bm_values (bx_ballots bx)))"
    by (rule sum_list_mono) (rule each)
  also have "\<dots> = u16_max * bx_participating bx"
    using assms by (simp add: weight_def sum_list_const_mult box_inv_def)
  also have "\<dots> \<le> u16_max * 10000" using assms by (intro mult_le_mono2) (simp add: box_inv_def)
  finally show ?thesis by simp
qed

definition sums :: "(token_ballot \<Rightarrow> nat) \<Rightarrow> ballot_choice \<Rightarrow> token_ballot list \<Rightarrow> nat" where
  "sums f c bs = sum_list (map (\<lambda>b. if tb_choice b = c then f b else 0) bs)"

lemma sums_simps [simp]:
  "sums f c [] = 0" "sums f c (b # bs) = (if tb_choice b = c then f b else 0) + sums f c bs"
  by (simp_all add: sums_def)

lemma sums_bound: "sums f c bs \<le> sum_list (map f bs)"
  by (induction bs) (auto intro: add_mono)

lemma tally_loop:
  assumes "gt_yes_holding t + sums tb_holding BC_Yes bs \<le> u16_max" "gt_no_holding t + sums tb_holding BC_No bs \<le> u16_max"
    "gt_abstain_holding t + sums tb_holding BC_Abstain bs \<le> u16_max"
    "gt_yes_effective t + sums tb_effective BC_Yes bs \<le> u16_max" "gt_no_effective t + sums tb_effective BC_No bs \<le> u16_max"
    "gt_abstain_effective t + sums tb_effective BC_Abstain bs \<le> u16_max"
  shows "fold tally_ballot bs t =
     t\<lparr>gt_yes_holding := gt_yes_holding t + sums tb_holding BC_Yes bs,
       gt_no_holding := gt_no_holding t + sums tb_holding BC_No bs,
       gt_abstain_holding := gt_abstain_holding t + sums tb_holding BC_Abstain bs,
       gt_yes_effective := gt_yes_effective t + sums tb_effective BC_Yes bs,
       gt_no_effective := gt_no_effective t + sums tb_effective BC_No bs,
       gt_abstain_effective := gt_abstain_effective t + sums tb_effective BC_Abstain bs\<rparr>"
  using assms
proof (induction bs arbitrary: t)
  case (Cons b bs)
  show ?case
  proof (cases "tb_choice b")
    case BC_Yes
    then show ?thesis using Cons.prems by (subst fold_simps, subst Cons.IH) (simp_all add: tally_ballot_def saturating_add_def)
  next
    case BC_No
    then show ?thesis using Cons.prems by (subst fold_simps, subst Cons.IH) (simp_all add: tally_ballot_def saturating_add_def)
  next
    case BC_Abstain
    then show ?thesis using Cons.prems by (subst fold_simps, subst Cons.IH) (simp_all add: tally_ballot_def saturating_add_def)
  qed
qed simp

lemma box_tally_exact:
  assumes "box_inv bx"
  shows "box_tally bx =
     \<lparr>gt_ballot_count = min (bm_len (bx_ballots bx)) u64_max,
      gt_yes_holding = choice_weight tb_holding BC_Yes bx, gt_no_holding = choice_weight tb_holding BC_No bx,
      gt_abstain_holding = choice_weight tb_holding BC_Abstain bx, gt_participating_holding = bx_participating bx,
      gt_yes_effective = choice_weight tb_effective BC_Yes bx, gt_no_effective = choice_weight tb_effective BC_No bx,
      gt_abstain_effective = choice_weight tb_effective BC_Abstain bx,
      gt_participating_effective = weight tb_effective bx\<rparr>"
proof -
  let ?bs = "bm_values (bx_ballots bx)"
  have hold: "bx_participating bx = weight tb_holding bx" "weight tb_holding bx \<le> u16_max"
    using assms by (simp_all add: box_inv_def u16_max_def)
  have eff: "weight tb_effective bx \<le> u16_max" by (rule effective_bound[OF assms])
  have le: "choice_weight f c bx \<le> weight f bx" for f c
    using sums_bound[of f c ?bs] by (simp add: choice_weight_def weight_def sums_def)
  have bounds: "sums tb_holding c ?bs \<le> u16_max" "sums tb_effective c ?bs \<le> u16_max" for c
    using le[of tb_holding c] le[of tb_effective c] hold eff
    by (simp_all add: choice_weight_def weight_def sums_def)
  have partial: "choice_weight f BC_Yes bx + choice_weight f BC_No bx \<le> weight f bx" for f
    using choice_weights[of f bx] by linarith
  have loop: "fold tally_ballot ?bs (tally_default n) =
     \<lparr>gt_ballot_count = n, gt_yes_holding = choice_weight tb_holding BC_Yes bx,
      gt_no_holding = choice_weight tb_holding BC_No bx, gt_abstain_holding = choice_weight tb_holding BC_Abstain bx,
      gt_participating_holding = 0, gt_yes_effective = choice_weight tb_effective BC_Yes bx,
      gt_no_effective = choice_weight tb_effective BC_No bx,
      gt_abstain_effective = choice_weight tb_effective BC_Abstain bx, gt_participating_effective = 0\<rparr>" for n
    using bounds by (subst tally_loop) (simp_all add: tally_default_def choice_weight_def weight_def sums_def)
  show ?thesis
    using partial[of tb_holding] partial[of tb_effective] hold eff choice_weights[of tb_holding bx] choice_weights[of tb_effective bx]
    by (simp add: box_tally_def loop saturating_add_def)
qed

subsection \<open>Outcomes\<close>

lemma ceil_reached: "v \<le> 10000 \<Longrightarrow> r \<le> 10000 \<Longrightarrow> ceil_basis_points v r \<le> p \<longleftrightarrow> v * r \<le> p * 10000"
proof -
  assume "v \<le> 10000" "r \<le> 10000"
  then have le: "v * r \<le> 10000 * 10000" by (rule mult_le_mono)
  then have "ceil_basis_points v r = (v * r + 9999) div 10000"
    by (simp add: ceil_basis_points_def saturating_add_def u64_max_def u16_max_def Let_def)
  moreover have "(n + 9999) div 10000 \<le> p \<longleftrightarrow> n \<le> p * 10000" for n :: nat by linarith
  ultimately show "ceil_basis_points v r \<le> p \<longleftrightarrow> v * r \<le> p * 10000" by simp
qed

lemma share_reached: "0 < d \<Longrightarrow> y \<le> d \<Longrightarrow> y * 10000 div d \<le> u16_max \<and> (a \<le> y * 10000 div d \<longleftrightarrow> a * d \<le> y * 10000)"
proof -
  assume d: "0 < d" "y \<le> d"
  have "y * 10000 div d \<le> d * 10000 div d" using d(2) by (intro div_le_mono mult_le_mono1)
  then have "y * 10000 div d \<le> u16_max" using d(1) by (simp add: u16_max_def)
  then show "y * 10000 div d \<le> u16_max \<and> (a \<le> y * 10000 div d \<longleftrightarrow> a * d \<le> y * 10000)"
    using d(1) by (simp add: less_eq_div_iff_mult_less_eq)
qed

subsection \<open>The order of ballots\<close>

lemma receives_get:
  "distinct (map fst rs) \<Longrightarrow> bm_get (bx_ballots (fold (\<lambda>r bx. receive bx r) rs bx)) v
     = (case map_of rs v of None \<Rightarrow> bm_get (bx_ballots bx) v | Some q \<Rightarrow> Some (token_ballot_of (bx_policy bx) (v, q)))"
proof (induction rs arbitrary: bx)
  case (Cons r rs)
  then have "map_of rs (fst r) = None" by (simp add: map_of_eq_None_iff)
  with Cons show ?case by (auto split: option.splits)
qed simp

lemma receives_fields:
  "bx_participating (fold (\<lambda>r bx. receive bx r) rs bx) = bx_participating bx + sum_list (map (\<lambda>r. fst (snd (snd r))) rs)"
  "bx_policy (fold (\<lambda>r bx. receive bx r) rs bx) = bx_policy bx"
  "bx_eligible (fold (\<lambda>r bx. receive bx r) rs bx) = bx_eligible bx"
  "bx_proposal_id (fold (\<lambda>r bx. receive bx r) rs bx) = bx_proposal_id bx"
  "bx_subject (fold (\<lambda>r bx. receive bx r) rs bx) = bx_subject bx"
  by (induction rs arbitrary: bx) (simp_all add: receive_def)

text \<open>A sequence is accepted as a whole exactly when every ballot is admissible at the start, no address
  votes twice and the holdings fit.\<close>

lemma cast_all_ok:
  "box_inv bx \<Longrightarrow> cast_all bx rs = Inr bx' \<longleftrightarrow>
     (\<forall>r\<in>set rs. admissible bx r) \<and> distinct (map fst rs)
     \<and> bx_participating bx + sum_list (map (\<lambda>r. fst (snd (snd r))) rs) \<le> bx_eligible bx
     \<and> bx' = fold (\<lambda>r bx. receive bx r) rs bx"
proof (induction rs arbitrary: bx)
  case Nil
  then show ?case by (auto simp: box_inv_def)
next
  case (Cons r rs)
  obtain voter tier holding choice where r: "r = (voter, tier, holding, choice)" by (cases r)
  have step: "cast_all bx (r # rs) = Inr bx' \<longleftrightarrow>
      admissible bx r \<and> bx_participating bx + holding \<le> bx_eligible bx \<and> cast_all (receive bx r) rs = Inr bx'"
    using Cons.prems by (auto simp: r box_inv_def cast_ballot_ok split: prod.splits)
  have later: "(\<forall>q\<in>set rs. admissible (receive bx r) q) \<longleftrightarrow> (\<forall>q\<in>set rs. admissible bx q \<and> fst q \<noteq> voter)"
    by (auto simp: admissible_def r split: if_splits)
  show ?case
  proof (cases "admissible bx r \<and> bx_participating bx + holding \<le> bx_eligible bx")
    case True
    then have "box_inv (receive bx r)" using receive_inv[OF Cons.prems, of r] by (simp add: r)
    from Cons.IH[OF this] show ?thesis unfolding step later using True by (auto simp: r)
  next
    case False
    then show ?thesis unfolding step by (auto simp: r)
  qed
qed

lemma cast_all_permute:
  assumes "box_inv bx" "cast_all bx rs = Inr bx'" "mset rs' = mset rs"
  shows "cast_all bx rs' = Inr bx'"
proof -
  have ok: "\<forall>r\<in>set rs. admissible bx r" "distinct (map fst rs)"
    "bx_participating bx + sum_list (map (\<lambda>r. fst (snd (snd r))) rs) \<le> bx_eligible bx"
    "bx' = fold (\<lambda>r bx. receive bx r) rs bx"
    using assms(2) unfolding cast_all_ok[OF assms(1)] by auto
  have same: "set rs' = set rs" using assms(3) by (rule mset_eq_setD)
  have dist: "distinct (map fst rs')" using ok(2) assms(3) by (metis mset_eq_imp_distinct_iff mset_map)
  have sums: "sum_list (map (\<lambda>r. fst (snd (snd r))) rs') = sum_list (map (\<lambda>r. fst (snd (snd r))) rs)"
    by (simp only: sum_mset_sum_list[symmetric] mset_map assms(3))
  have "map_of rs' = map_of rs" using dist ok(2) same by (metis map_of_inject_set)
  then have "fold (\<lambda>r bx. receive bx r) rs' bx = bx'"
    unfolding ok(4) using sums
    by (intro token_ballot_box.equality bm_eqI) (simp_all add: receives_fields receives_get dist ok(2))
  with ok dist same sums show ?thesis unfolding cast_all_ok[OF assms(1)] by simp
qed

end
