(* ===== verification/Token_Properties.thy ===== *)
theory Token_Properties
  imports Token_Transport Token_View Token_Ballots
begin

section \<open>Amounts, tiers and ballots\<close>

text \<open>
  What the token view and the token-weighted ballot box promise: amounts are numbers, tiers are counts,
  an operation is only allowed on a current read, and the outcome of a ballot is exact and independent
  of the order of the ballots.
\<close>

text \<open>
  C40: Amounts are exact numbers below \<open>2 ^ 256\<close>.  The byte-wise comparison orders them as numbers.
  Multiplying by a 64-bit factor gives the product or, exactly when it does not fit, nothing; taking
  basis points and dividing by powers of ten round down; narrowing to 64 bits saturates or, exactly
  when the number does not fit, refuses.\<close>

theorem amounts_exact:
  assumes "u256_wf a" "u256_wf b" "m \<le> u64_max" "bps \<le> u16_max"
  shows "(a \<le> b) = (u256_value a \<le> u256_value b)
     \<and> map_option u256_value (U256_checked_mul_u64 a m)
           = (if u256_value a * m < 2 ^ 256 then Some (u256_value a * m) else None)
     \<and> map_option u256_value (U256_checked_mul_basis_points a bps)
           = (if u256_value a * bps < 2 ^ 256 then Some (u256_value a * bps div 10000) else None)
     \<and> U256_whole_units a n = min (u256_value a div 10 ^ n) u64_max
     \<and> U256_checked_to_u64 a = (if u256_value a \<le> u64_max then Some (u256_value a) else None)
     \<and> map_option u256_value (U256_power_of_ten n) = (if (10 :: nat) ^ n < 2 ^ 256 then Some (10 ^ n) else None)"
proof (intro conjI)
  show "(a \<le> b) = (u256_value a \<le> u256_value b)" by (rule u256_order(2)[OF assms(1,2)])
  have below: "u256_wf c \<Longrightarrow> u256_value c < 2 ^ 256" for c by (rule u256_bound)
  show "map_option u256_value (U256_checked_mul_u64 a m)
      = (if u256_value a * m < 2 ^ 256 then Some (u256_value a * m) else None)"
    using checked_mul_u64_value[OF assms(1,3)] below by (cases "U256_checked_mul_u64 a m") fastforce+
  show "map_option u256_value (U256_checked_mul_basis_points a bps)
      = (if u256_value a * bps < 2 ^ 256 then Some (u256_value a * bps div 10000) else None)"
    using mul_basis_points_value[OF assms(1,4)] checked_mul_u64_value[OF assms(1), of bps] assms(4) below
    unfolding U256_checked_mul_basis_points_def u16_max_def u64_max_def
    by (cases "U256_checked_mul_u64 a bps") fastforce+
  show "U256_whole_units a n = min (u256_value a div 10 ^ n) u64_max" by (rule whole_units_value[OF assms(1)])
  show "U256_checked_to_u64 a = (if u256_value a \<le> u64_max then Some (u256_value a) else None)"
    by (rule checked_to_u64_value[OF assms(1)])
  show "map_option u256_value (U256_power_of_ten n) = (if (10 :: nat) ^ n < 2 ^ 256 then Some (10 ^ n) else None)"
    using power_of_ten_value[of n] below by (cases "U256_power_of_ten n") fastforce+
qed

theorem amounts_exact_witness:
  "map_option u256_value (U256_checked_mul_u64 (U256_from_u64 7) 6) = Some 42"
  using amounts_exact[of "U256_from_u64 7" "U256_from_u64 7" 6 0 0] from_u64_value[of 7]
  by (simp add: u64_max_def u16_max_def)

text \<open>Quantities are canonical.  A string is read as an amount exactly when it is \<open>0x\<close> followed by
  one to 64 hexadecimal digits without a needless leading zero, and then as the number the digits
  denote; printing an amount gives such a string, which is read as the amount again, and so are the
  32-byte words of the contract interface.\<close>

theorem quantity_round_trip:
  assumes "u256_wf a"
  shows "(U256_from_quantity s = Inr a \<longleftrightarrow>
      (\<exists>ds. s = ''0x'' @ ds \<and> canonical_digits ds \<and> right_value (rev ds) = u256_value a))
     \<and> U256_from_quantity (U256_to_quantity a) = Inr a
     \<and> U256_from_abi_word (U256_to_abi_word a) = Inr a"
  using assms from_to_quantity abi_word_round_trip by (auto simp: from_quantity_value)

theorem quantity_round_trip_witness:
  "U256_from_quantity (U256_to_quantity (U256_from_u64 1000)) = Inr (U256_from_u64 1000)"
  using quantity_round_trip[of "U256_from_u64 1000"] from_u64_value[of 1000] by (simp add: u64_max_def)

text \<open>
  C38: Tiers are counted.  Whatever reads land, fail, are recorded, forgotten or interleaved, the tier
  of a holder is the one its last recorded balance has by counting holders: none without a balance,
  Initiate below the minimum, Whale or Elder when the recorded holders at or above the minimum are
  enough to have such a percentile and those strictly richer are fewer than it, otherwise Acolyte.  So
  equal balances have equal tiers and a richer holder never has a lower one.\<close>

theorem tiers_counted:
  assumes "s = eye_run (Observance_with_policy interval policy) es"
  shows "(\<forall>h. tier_for s h = (case recorded es h of None \<Rightarrow> RT_Unproven
           | Some (b, at) \<Rightarrow> counted_tier (eye_policy s) (\<lambda>h. map_option fst (recorded es h)) b))
     \<and> (\<forall>h h' b at b' at'. recorded es h = Some (b, at) \<and> recorded es h' = Some (b', at')
           \<and> u256_wf b \<and> u256_wf b' \<and> b \<le> b' \<longrightarrow> tier_meets (tier_for s h') (tier_for s h))"
proof -
  have knows: "knows s (recorded es)" unfolding assms by (rule run_knows)
  have tier: "tier_for s h = (case recorded es h of None \<Rightarrow> RT_Unproven
           | Some (b, at) \<Rightarrow> counted_tier (eye_policy s) (\<lambda>h. map_option fst (recorded es h)) b)" for h
    by (rule run_tier[OF knows])
  then have "tier_meets (tier_for s h') (tier_for s h)"
    if "recorded es h = Some (b, at)" "recorded es h' = Some (b', at')" "u256_wf b" "u256_wf b'" "b \<le> b'" for h h' b at b' at'
    using counted_tier_mono[OF finite_recorded[OF knows], of b b' "eye_policy s"] that by simp
  with tier show ?thesis by blast
qed

theorem tiers_counted_witness:
  "tier_for (eye_run (Observance_with_policy 0 TierPolicy_default)
      [Land (Address (zero_bytes 20)) 5 (Inr (U256_from_u64 1))]) (Address (zero_bytes 20)) = RT_Initiate"
proof -
  have "U256_from_u64 1 \<noteq> U256_ZERO" "U256_from_u64 1 < U256_from_u64 1000000000000000000"
    using from_u64_value[of 1] from_u64_value[of 1000000000000000000] zero_value u256_order(1) u256_order(3)
    by (simp_all add: u64_max_def)
  then show ?thesis
    using tiers_counted[OF refl, of 0 TierPolicy_default "[Land (Address (zero_bytes 20)) 5 (Inr (U256_from_u64 1))]",
        THEN conjunct1, THEN spec, of "Address (zero_bytes 20)"]
    by (simp add: recorded_def eye_run_def apply_refresh_def record_balance_def Let_def Observance_with_policy_def
        counted_tier_def TierPolicy_default_def)
qed

text \<open>
  C37: Only current reads authorise.  After any interleaving of reads and of other operations, what the
  first section of an observation answers is operational exactly when the holder's last recorded
  balance is younger than the interval, and then it is that balance; what the second section answers is
  operational exactly when this read succeeded, and then it is the balance just read.  A failed read is
  never operational, whatever is remembered.\<close>

theorem operational_current:
  assumes "s = eye_run (Observance_with_policy interval policy) es"
  shows "((\<exists>ob. snd (eye_step s (Look h now)) = Some ob \<and> require_operational ob = Inr p) \<longleftrightarrow>
       (\<exists>b at. recorded es h = Some (b, at) \<and> from_secs (now - at) < eye_interval s
          \<and> p = \<lparr>oo_holder = h, oo_balance = b, oo_observed_at = at, oo_tier = tier_for s h, oo_freshness = OF_Cached\<rparr>))
     \<and> ((\<exists>ob. snd (eye_step s (Land h now outcome)) = Some ob \<and> require_operational ob = Inr p) \<longleftrightarrow>
       (\<exists>b. outcome = Inr b \<and> p = \<lparr>oo_holder = h, oo_balance = b, oo_observed_at = now,
          oo_tier = tier_for (fst (eye_step s (Land h now outcome))) h, oo_freshness = OF_Fresh\<rparr>))"
  using look_operational[OF run_knows, of interval policy es h now p] land_operational[of s h now outcome p]
  by (auto simp: assms split: prod.splits)

theorem operational_current_witness:
  "\<exists>ob p. snd (eye_step (eye_run (Observance_with_policy (from_secs 60) TierPolicy_default)
        [Land (Address (zero_bytes 20)) 5 (Inr (U256_from_u64 9)), Land (Address (zero_bytes 20)) 6 (Inl (EYE_Http ''down''))])
        (Look (Address (zero_bytes 20)) 7)) = Some ob
     \<and> require_operational ob = Inr p \<and> oo_balance p = U256_from_u64 9 \<and> oo_observed_at p = 5"
proof -
  let ?h = "Address (zero_bytes 20)"
  let ?es = "[Land ?h 5 (Inr (U256_from_u64 9)), Land ?h 6 (Inl (EYE_Http ''down''))]"
  let ?s = "eye_run (Observance_with_policy (from_secs 60) TierPolicy_default) ?es"
  have "recorded ?es ?h = Some (U256_from_u64 9, 5)" by (simp add: recorded_def)
  moreover have "eye_interval ?s = from_secs 60"
    by (simp add: eye_run_def apply_refresh_def record_balance_def Let_def Observance_with_policy_def)
  ultimately show ?thesis
    using operational_current[OF refl, of "from_secs 60" TierPolicy_default ?es ?h 7
        "\<lparr>oo_holder = ?h, oo_balance = U256_from_u64 9, oo_observed_at = 5, oo_tier = tier_for ?s ?h, oo_freshness = OF_Cached\<rparr>"]
    by (force simp: from_secs_def)
qed

lemma from_quantity_wf: "U256_from_quantity q = Inr n \<Longrightarrow> u256_wf n"
  unfolding from_quantity_value by blast

text \<open>
  A balance comes from the expected chain.  A transport bound to a chain answers a balance exactly
  when the endpoint, asked first, names that chain in a well-formed answer to that very question, and
  then answers the question for the holder's balance with one well-formed word; any error, missing
  result or answer to another question refuses.\<close>

theorem balance_bound_to_chain:
  assumes "tr_expected_chain t = Some chain" "tr_next_id t \<le> u64_max"
    and "i = tr_next_id t" "j = (i + 1) mod (u64_max + 1)"
  shows "snd (rpc_balance_of post decode as_u64 t contract holder) = Inr a \<longleftrightarrow>
     (\<exists>body r q n. post (chain_id_rpc_request i) = Inr body \<and> decode body = Some r \<and> rs_jsonrpc r = ''2.0''
        \<and> as_u64 (rs_id r) = Some i \<and> rs_error r = None \<and> rs_result r = Some q
        \<and> U256_from_quantity q = Inr n \<and> u256_value n = chain)
     \<and> chain \<le> u64_max
     \<and> (\<exists>body r w. post (balance_of_rpc_request j contract holder) = Inr body \<and> decode body = Some r
        \<and> rs_jsonrpc r = ''2.0'' \<and> as_u64 (rs_id r) = Some j \<and> rs_error r = None \<and> rs_result r = Some w
        \<and> U256_from_abi_word w = Inr a)"
proof -
  have "U256_from_quantity q = Inr n \<and> U256_checked_to_u64 n = Some chain
      \<longleftrightarrow> U256_from_quantity q = Inr n \<and> u256_value n = chain \<and> chain \<le> u64_max" for q n
    using checked_to_u64_value[of n] from_quantity_wf[of q n] by (auto split: if_splits)
  then show ?thesis
    unfolding rpc_balance_ok[OF assms(1,2)] parse_chain_ok parse_balance_ok Let_def assms(3)[symmetric] assms(4)[symmetric]
    by blast
qed

definition honest_endpoint :: "rpc_request \<Rightarrow> (token_eye_error, nat rpc_response) result" where
  "honest_endpoint rq =
     (case rq_params rq of
        NoParams \<Rightarrow> Inr \<lparr>rs_jsonrpc = ''2.0'', rs_id = rq_id rq,
                         rs_result = Some (U256_to_quantity (U256_from_u64 8453)), rs_error = None\<rparr>
      | EthCall to_contract call block \<Rightarrow> Inr \<lparr>rs_jsonrpc = ''2.0'', rs_id = rq_id rq,
                         rs_result = Some (U256_to_abi_word (U256_from_u64 5)), rs_error = None\<rparr>)"

theorem balance_bound_to_chain_witness:
  "snd (rpc_balance_of honest_endpoint Some Some \<lparr>tr_next_id = 1, tr_expected_chain = Some 8453\<rparr>
      (Address (zero_bytes 20)) (Address (zero_bytes 20))) = Inr (U256_from_u64 5)"
  using balance_bound_to_chain[of "\<lparr>tr_next_id = 1, tr_expected_chain = Some 8453\<rparr>" 8453 1 2 honest_endpoint Some Some
      "Address (zero_bytes 20)" "Address (zero_bytes 20)" "U256_from_u64 5"]
    from_to_quantity[of "U256_from_u64 8453"] from_u64_value[of 8453] from_u64_value[of 5]
    abi_word_round_trip[of "U256_from_u64 5"]
  by (simp add: honest_endpoint_def chain_id_rpc_request_def balance_of_rpc_request_def u64_max_def)

text \<open>
  Tallies are exact.  In a ballot box that was opened and then offered any ballots, accepted or
  refused, the weights of the tally are the sums over the ballots it holds, without saturation, and all
  of them together fit in 16 bits; the participating holding is their sum and stays within the eligible
  weight; and a ballot once accepted is never replaced.\<close>

theorem tally_exact:
  assumes "BallotBox_new proposal subject eligible policy = Inr bx" "bx' = box_run bx rs"
  shows "box_tally bx' =
      \<lparr>gt_ballot_count = min (bm_len (bx_ballots bx')) u64_max,
       gt_yes_holding = choice_weight tb_holding BC_Yes bx',
       gt_no_holding = choice_weight tb_holding BC_No bx',
       gt_abstain_holding = choice_weight tb_holding BC_Abstain bx',
       gt_participating_holding = weight tb_holding bx',
       gt_yes_effective = choice_weight tb_effective BC_Yes bx',
       gt_no_effective = choice_weight tb_effective BC_No bx',
       gt_abstain_effective = choice_weight tb_effective BC_Abstain bx',
       gt_participating_effective = weight tb_effective bx'\<rparr>
     \<and> weight tb_holding bx' \<le> eligible \<and> weight tb_effective bx' \<le> u16_max
     \<and> (\<forall>v b qs. bm_get (bx_ballots bx') v = Some b \<longrightarrow> bm_get (bx_ballots (box_run bx' qs)) v = Some b)"
proof -
  have start: "box_inv bx" by (rule new_box_inv[OF assms(1)])
  have inv: "box_inv bx'" unfolding assms(2) by (rule box_run_inv[OF start])
  have "bx_eligible bx' = eligible"
    using box_run_keeps[OF start] assms by (auto simp: BallotBox_new_def)
  then show ?thesis
    using box_tally_exact[OF inv] effective_bound[OF inv] box_run_keeps[OF inv] inv by (simp add: box_inv_def)
qed

definition sample_box :: token_ballot_box where
  "sample_box = \<lparr>bx_proposal_id = TokenProposalId (zero_bytes 32), bx_subject = SUB_SpawnPolicy, bx_eligible = 10000,
     bx_policy = TokenGovernancePolicy_default, bx_ballots = bm_empty, bx_participating = 0\<rparr>"

lemma sample_box_new:
  "BallotBox_new (TokenProposalId (zero_bytes 32)) SUB_SpawnPolicy 10000 TokenGovernancePolicy_default = Inr sample_box"
  by (simp add: BallotBox_new_def validate_token_policy_ok policy_valid_def TokenGovernancePolicy_default_def
      NORMALIZED_WEIGHT_MAX_BPS_def sample_box_def validate_normalized_def validate_token_policy_def)

theorem tally_exact_witness:
  "weight tb_effective (box_run sample_box [(Address (zero_bytes 20), RT_Whale, 6000, BC_Yes)]) \<le> u16_max"
  using tally_exact[OF sample_box_new refl] by blast

text \<open>
  C39: Outcomes are exact.  The outcome of a ballot box is decided without any rounding: there is no
  quorum exactly when the participating holding is less than the quorum's share of the eligible weight;
  otherwise, with no weight for or against, nothing is decided; otherwise it is approved exactly when
  the weight in favour reaches the required share of the weight for and against.  Only an approved
  outcome asks for an application.\<close>

theorem outcome_exact:
  assumes "BallotBox_new proposal subject eligible policy = Inr bx" "bx' = box_run bx rs"
    and "yes = choice_weight tb_effective BC_Yes bx'" "no = choice_weight tb_effective BC_No bx'"
  shows "gr_outcome (box_result bx') =
      (if weight tb_holding bx' * 10000 < eligible * quorum_bps policy then GO_QuorumNotMet
       else if yes + no = 0 then GO_NoDecisiveWeight
       else if approval_bps policy * (yes + no) \<le> yes * 10000 then GO_Approved
       else GO_Rejected)
     \<and> (requires_application (box_result bx') \<longleftrightarrow> gr_outcome (box_result bx') = GO_Approved)"
proof (intro conjI)
  have start: "box_inv bx" by (rule new_box_inv[OF assms(1)])
  have inv: "box_inv bx'" unfolding assms(2) by (rule box_run_inv[OF start])
  have fields: "bx_eligible bx' = eligible" "bx_policy bx' = policy"
    using box_run_keeps[OF start] assms(1) by (auto simp: BallotBox_new_def validate_token_policy_ok assms(2))
  have small: "eligible \<le> 10000" "quorum_bps policy \<le> 10000" using inv by (simp_all add: box_inv_def policy_valid_def fields)
  have sum: "yes + no \<le> u16_max"
    using choice_weights[of tb_effective bx'] effective_bound[OF inv] assms(3,4) by linarith
  have quorum: "bx_participating bx' < ceil_basis_points eligible (quorum_bps policy)
      \<longleftrightarrow> weight tb_holding bx' * 10000 < eligible * quorum_bps policy"
    using ceil_reached[OF small, of "bx_participating bx'"] inv by (simp add: box_inv_def not_le[symmetric])
  show "gr_outcome (box_result bx') =
      (if weight tb_holding bx' * 10000 < eligible * quorum_bps policy then GO_QuorumNotMet
       else if yes + no = 0 then GO_NoDecisiveWeight
       else if approval_bps policy * (yes + no) \<le> yes * 10000 then GO_Approved
       else GO_Rejected)"
    using sum share_reached[of "yes + no" yes "approval_bps policy"]
    by (simp add: box_result_def box_tally_exact[OF inv] fields Let_def saturating_add_def quorum[symmetric]
        assms(3,4)[symmetric] not_less)
  show "requires_application (box_result bx') \<longleftrightarrow> gr_outcome (box_result bx') = GO_Approved"
    by (simp add: requires_application_def box_result_def Let_def split: governance_outcome.split)
qed

theorem outcome_exact_witness:
  "gr_outcome (box_result (box_run sample_box [])) = GO_NoDecisiveWeight"
  using outcome_exact[OF sample_box_new refl refl refl, of "[]"]
  by (simp add: box_run_def choice_weight_def weight_def sample_box_def bm_values_def TokenGovernancePolicy_default_def)

text \<open>
  Ballots commute.  If a sequence of ballots is accepted as a whole by a box reached from a new
  one, it is accepted in every order, and the box, hence the tally and the result, is the same.\<close>

theorem ballot_order_irrelevant:
  assumes "BallotBox_new proposal subject eligible policy = Inr bx"
    and "cast_all (box_run bx rs) qs = Inr bx'" "mset qs' = mset qs"
  shows "cast_all (box_run bx rs) qs' = Inr bx'"
  by (rule cast_all_permute[OF box_run_inv[OF new_box_inv[OF assms(1)]] assms(2,3)])

definition two_ballots :: "ballot_request list" where
  "two_ballots = [(Address (zero_bytes 20), RT_Whale, 3000, BC_Yes), (Address (replicate 20 1), RT_Elder, 2000, BC_No)]"

theorem ballot_order_irrelevant_witness:
  "\<exists>bx'. cast_all sample_box (rev two_ballots) = Inr bx'"
proof -
  have "Address (zero_bytes 20) \<noteq> Address (replicate 20 1)" by (simp add: zero_bytes_def)
  then have "cast_all sample_box two_ballots = Inr (fold (\<lambda>r bx. receive bx r) two_ballots sample_box)"
    unfolding cast_all_ok[OF new_box_inv[OF sample_box_new]]
    by (simp add: two_ballots_def admissible_def sample_box_def TokenGovernancePolicy_default_def tier_meets_def)
  from ballot_order_irrelevant[OF sample_box_new, of "[]", unfolded box_run_def foldl_Nil, OF this, of "rev two_ballots"]
  show ?thesis by simp
qed

end
