(* ===== verification/Lineage_Types.thy ===== *)
theory Lineage_Types
  imports Bot_Nature
begin

section \<open>Lineage: data and checks (cthuwu: evolution.rs)\<close>

text \<open>
  The nodes and records of one local projection of the lineage of Tentacles, and the checks of
  identifiers and digests that lineage and lifecycle share.  Times are milliseconds.
\<close>

datatype evolution_error =
    EV_Invalid string
  | EV_Unauthorized string
  | EV_NotFound string
  | EV_Conflict string
  | EV_Limit string
  | EV_Nature string
  | EV_Io string
  | EV_Json string

fun ev_message :: "evolution_error \<Rightarrow> string" where
  "ev_message (EV_Invalid m) = ''invalid lineage: '' @ m"
| "ev_message (EV_Unauthorized m) = ''lineage authorization failed: '' @ m"
| "ev_message (EV_NotFound i) = ''unknown Tentacle '' @ i"
| "ev_message (EV_Conflict m) = ''lineage conflict: '' @ m"
| "ev_message (EV_Limit n) = ''lineage '' @ n @ '' limit exceeded''"
| "ev_message (EV_Nature m) = ''nature inheritance failed: '' @ m"
| "ev_message (EV_Io e) = ''lineage state I/O failed: '' @ e"
| "ev_message (EV_Json e) = ''lineage state JSON is invalid: '' @ e"

definition LINEAGE_SCHEMA_VERSION :: nat where
  "LINEAGE_SCHEMA_VERSION = 1"

definition MAX_ABSORBED_KNOWLEDGE_HASHES :: nat where
  "MAX_ABSORBED_KNOWLEDGE_HASHES = 256"

definition EV_MAX_ID_BYTES :: nat where
  "EV_MAX_ID_BYTES = 128"

subsection \<open>Checks\<close>

definition id_byte :: "char \<Rightarrow> bool" where
  "id_byte c \<longleftrightarrow> is_ascii_alphanumeric c \<or> c \<in> {CHR ''-'', CHR ''_'', CHR ''.'', CHR '':''}"

definition ev_validate_id :: "string \<Rightarrow> string \<Rightarrow> (evolution_error, unit) result" where
  "ev_validate_id value description =
     (if value = [] \<or> length value > EV_MAX_ID_BYTES \<or> \<not> list_all id_byte value
      then Inl (EV_Invalid (description @ '' is empty, oversized, or contains unsafe characters''))
      else Inr ())"

definition is_sha256_text :: "string \<Rightarrow> bool" where
  "is_sha256_text value \<longleftrightarrow> length value = 64 \<and> list_all is_lower_hex value"

definition ev_validate_sha256 :: "string \<Rightarrow> string \<Rightarrow> (evolution_error, unit) result" where
  "ev_validate_sha256 value description =
     (if \<not> is_sha256_text value then Inl (EV_Invalid (description @ '' must be lowercase SHA-256 hex'')) else Inr ())"

fun hashes_loop :: "string bset \<Rightarrow> string list \<Rightarrow> (evolution_error, unit) result" where
  "hashes_loop seen [] = Inr ()"
| "hashes_loop seen (h # hs) =
     (if \<not> is_sha256_text h then Inl (EV_Invalid ''knowledge hashes must be lowercase SHA-256 hex'')
      else if bs_member seen h then Inl (EV_Invalid ''duplicate knowledge hash'')
      else hashes_loop (bs_insert h seen) hs)"

definition validate_hashes :: "string list \<Rightarrow> (evolution_error, unit) result" where
  "validate_hashes hashes =
     (if length hashes > MAX_ABSORBED_KNOWLEDGE_HASHES then Inl (EV_Limit ''knowledge hash'')
      else hashes_loop bs_empty hashes)"

definition ev_validate_nature :: "tentacle_nature \<Rightarrow> (evolution_error, unit) result" where
  "ev_validate_nature nature = map_err EV_Nature (validate_nature nature)"

subsection \<open>Nodes and records\<close>

datatype lifecycle_status = LC_Active | LC_Absorbed string nat

record lineage_node =
  ln_tentacle_id :: string
  ln_parent_id :: "string option"
  ln_generation :: nat
  ln_nature :: tentacle_nature
  ln_spawned_at :: nat
  ln_children :: "string list"
  ln_lifecycle :: lifecycle_status

record spawn_record =
  sw_parent_id :: string
  sw_parent_nature_id :: string
  sw_child_id :: string
  sw_child_nature_id :: string
  sw_judgment_id :: string
  sw_operator_id :: string
  sw_event_sha256 :: string
  sw_generation :: nat
  sw_at :: nat

record spawn_authorization =
  sa_judgment_id :: string
  sa_operator_id :: string
  sa_event_sha256 :: string

record absorption_record =
  ab_source_id :: string
  ab_target_id :: string
  ab_at :: nat
  ab_hashes :: "string list"
  ab_operator_confirmed :: bool

record lineage_state =
  lg_schema_version :: nat
  lg_revision :: nat
  lg_root_id :: string
  lg_external_parent :: "string option"
  lg_nodes :: "(string, lineage_node) bmap"
  lg_spawns :: "spawn_record list"
  lg_absorptions :: "absorption_record list"

record family =
  fm_parent :: "string option"
  fm_children :: "string list"
  fm_siblings :: "string list"

datatype lifecycle_signal = SIG_Healthy | SIG_Starving | SIG_Death

datatype lifecycle_decision = LD_Continue | LD_Warn | LD_BeginDeath "string list"

subsection \<open>What the checks accept\<close>

definition id_text :: "string \<Rightarrow> bool" where
  "id_text s \<longleftrightarrow> s \<noteq> [] \<and> length s \<le> EV_MAX_ID_BYTES \<and> list_all id_byte s"

lemma ev_validate_id_ok [simp]: "ev_validate_id v d = Inr () \<longleftrightarrow> id_text v"
  by (auto simp: ev_validate_id_def id_text_def)

lemma ev_validate_sha256_ok [simp]: "ev_validate_sha256 v d = Inr () \<longleftrightarrow> is_sha256_text v"
  by (simp add: ev_validate_sha256_def)

lemma ev_validate_nature_ok [simp]: "ev_validate_nature n = Inr () \<longleftrightarrow> validate_nature n = Inr ()"
  by (cases "validate_nature n") (auto simp: ev_validate_nature_def)

lemma hashes_loop_ok:
  "hashes_loop seen hs = Inr () \<longleftrightarrow> (\<forall>h\<in>set hs. is_sha256_text h \<and> \<not> bs_member seen h) \<and> distinct hs"
  by (induction hs arbitrary: seen) auto

lemma validate_hashes_ok [simp]:
  "validate_hashes hs = Inr () \<longleftrightarrow> length hs \<le> MAX_ABSORBED_KNOWLEDGE_HASHES \<and> list_all is_sha256_text hs \<and> distinct hs"
  by (auto simp: validate_hashes_def hashes_loop_ok list_all_iff)

end
