(* ===== verification/Bot_Lineage.thy ===== *)
theory Bot_Lineage
  imports Lineage_Types
begin

section \<open>Lineage: operations (cthuwu: evolution.rs)\<close>

text \<open>
  Founding, spawning, absorbing and what is read off the tree.  The two absorption operations change
  the state before their last check, so they return the state beside the result.
\<close>

definition founder_node :: "string \<Rightarrow> tentacle_nature \<Rightarrow> nat \<Rightarrow> nat \<Rightarrow> lineage_node" where
  "founder_node i nature generation at =
     \<lparr>ln_tentacle_id = i, ln_parent_id = None, ln_generation = generation, ln_nature = nature,
      ln_spawned_at = at, ln_children = [], ln_lifecycle = LC_Active\<rparr>"

definition rooted_state :: "string \<Rightarrow> string option \<Rightarrow> lineage_node \<Rightarrow> lineage_state" where
  "rooted_state i external node =
     \<lparr>lg_schema_version = LINEAGE_SCHEMA_VERSION, lg_revision = 0, lg_root_id = i,
      lg_external_parent = external, lg_nodes = bm_insert i node bm_empty, lg_spawns = [], lg_absorptions = []\<rparr>"

definition Lineage_new :: "string \<Rightarrow> tentacle_nature \<Rightarrow> nat \<Rightarrow> (evolution_error, lineage_state) result" where
  "Lineage_new founder nature at =
     and_then (run_checks
       [ev_validate_id founder ''founder ID'',
        ev_validate_nature nature,
        ensure (\<not> (na_generation nature \<noteq> 0 \<or> na_parent_id nature \<noteq> None))
          (EV_Invalid ''a lineage founder must have generation zero and no parent nature'')])
       (\<lambda>_. Inr (rooted_state founder None (founder_node founder nature 0 at)))"

definition Lineage_new_child_root ::
  "string \<Rightarrow> string \<Rightarrow> tentacle_nature \<Rightarrow> nat \<Rightarrow> (evolution_error, lineage_state) result" where
  "Lineage_new_child_root i external nature at =
     and_then (run_checks
       [ev_validate_id i ''child root ID'',
        ev_validate_id external ''external parent ID'',
        ensure (i \<noteq> external) (EV_Conflict ''an inherited root cannot be its own external parent''),
        ev_validate_nature nature,
        ensure (\<not> (na_generation nature = 0 \<or> na_parent_id nature = None))
          (EV_Invalid ''an inherited root requires nonzero generation and parent Nature metadata'')])
       (\<lambda>_. Inr (rooted_state i (Some external) (founder_node i nature (na_generation nature) at)))"

definition update_root_nature ::
  "lineage_state \<Rightarrow> string \<Rightarrow> string \<Rightarrow> tentacle_nature \<Rightarrow> (evolution_error, lineage_state) result" where
  "update_root_nature s authenticated claimed nature =
     and_then (run_checks
       [ensure (authenticated = claimed)
          (EV_Unauthorized ''authenticated Tentacle does not match the Nature update claim''),
        ensure (authenticated = lg_root_id s)
          (EV_Unauthorized ''only the lineage root Nature can be reconciled locally''),
        ev_validate_nature nature]) (\<lambda>_.
     and_then (ok_or (EV_NotFound authenticated) (bm_get (lg_nodes s) authenticated)) (\<lambda>root.
     and_then (run_checks
       [ensure (\<not> (lg_external_parent s = None \<and> (na_generation nature \<noteq> 0 \<or> na_parent_id nature \<noteq> None)))
          (EV_Invalid ''the founder root must retain founder metadata''),
        ensure (\<not> (lg_external_parent s \<noteq> None
                   \<and> (na_generation nature \<noteq> ln_generation root \<or> na_parent_id nature = None)))
          (EV_Invalid ''an inherited root must retain its generation and parent Nature metadata''),
        ensure (\<not> list_ex (\<lambda>(i, node). i \<noteq> authenticated \<and> na_id (ln_nature node) = na_id nature)
                   (bm_entries (lg_nodes s)))
          (EV_Conflict ''updated root Nature ID already exists in the lineage'')]) (\<lambda>_.
     Inr (s\<lparr>lg_nodes := bm_insert authenticated (root\<lparr>ln_nature := nature\<rparr>) (lg_nodes s)\<rparr>))))"

definition plan_child_nature ::
  "lineage_state \<Rightarrow> string \<Rightarrow> bytes \<Rightarrow> (evolution_error, tentacle_nature \<times> bytes) result" where
  "plan_child_nature s parent_id rng =
     and_then (ok_or (EV_NotFound parent_id) (bm_get (lg_nodes s) parent_id)) (\<lambda>parent.
     if ln_lifecycle parent \<noteq> LC_Active then Inl (EV_Conflict ''an absorbed Tentacle cannot spawn'')
     else and_then (map_err EV_Nature (nature_inherit (ln_nature parent) rng))
            (\<lambda>((nature, mode), rng). Inr (nature, rng)))"

definition record_provisioned_child ::
  "lineage_state \<Rightarrow> string \<Rightarrow> string \<Rightarrow> string \<Rightarrow> tentacle_nature \<Rightarrow> nat \<Rightarrow> spawn_authorization
     \<Rightarrow> (evolution_error, lineage_state \<times> lineage_node) result" where
  "record_provisioned_child s authenticated claimed child_id nature at auth =
     and_then (run_checks
       [ensure (authenticated = claimed)
          (EV_Unauthorized ''authenticated parent does not match the spawn claim''),
        ev_validate_id authenticated ''parent ID'',
        ev_validate_id child_id ''child ID'',
        ev_validate_sha256 (sa_judgment_id auth) ''authorization judgment ID'',
        ev_validate_id (sa_operator_id auth) ''authorization operator ID'',
        ev_validate_sha256 (sa_event_sha256 auth) ''authorization event ID digest'',
        ensure (authenticated \<noteq> child_id) (EV_Conflict ''a Tentacle cannot be its own child''),
        ensure (\<not> bm_contains (lg_nodes s) child_id)
          (EV_Conflict (''Tentacle '' @ child_id @ '' already exists''))]) (\<lambda>_.
     and_then (ok_or (EV_NotFound authenticated) (bm_get (lg_nodes s) authenticated)) (\<lambda>parent.
     and_then (run_checks
       [ensure (ln_lifecycle parent = LC_Active) (EV_Conflict ''an absorbed Tentacle cannot spawn''),
        ensure (\<not> at < ln_spawned_at parent) (EV_Invalid ''a child cannot predate its parent'')]) (\<lambda>_.
     and_then (ok_or (EV_Limit ''generation'') (checked_add u64_max (ln_generation parent) 1)) (\<lambda>generation.
     and_then (run_checks
       [ev_validate_nature nature,
        ensure (\<not> (na_generation nature \<noteq> generation \<or> na_parent_id nature \<noteq> Some (na_id (ln_nature parent))))
          (EV_Nature ''inherited Nature has inconsistent lineage metadata''),
        ensure (\<not> list_ex (\<lambda>node. na_id (ln_nature node) = na_id nature) (bm_values (lg_nodes s)))
          (EV_Conflict ''inherited Nature ID already exists'')]) (\<lambda>_.
     and_then (ok_or (EV_Limit ''revision'') (checked_add u64_max (lg_revision s) 1)) (\<lambda>revision.
       let node = \<lparr>ln_tentacle_id = child_id, ln_parent_id = Some authenticated, ln_generation = generation,
                   ln_nature = nature, ln_spawned_at = at, ln_children = [], ln_lifecycle = LC_Active\<rparr>;
           spawn = \<lparr>sw_parent_id = authenticated, sw_parent_nature_id = na_id (ln_nature parent),
                    sw_child_id = child_id, sw_child_nature_id = na_id nature,
                    sw_judgment_id = sa_judgment_id auth, sw_operator_id = sa_operator_id auth,
                    sw_event_sha256 = sa_event_sha256 auth, sw_generation = generation, sw_at = at\<rparr>
       in Inr (s\<lparr>lg_nodes := bm_insert child_id node
                   (bm_insert authenticated (parent\<lparr>ln_children := ln_children parent @ [child_id]\<rparr>) (lg_nodes s)),
                 lg_spawns := lg_spawns s @ [spawn], lg_revision := revision\<rparr>, node)))))))"

definition spawn_child ::
  "lineage_state \<Rightarrow> string \<Rightarrow> string \<Rightarrow> string \<Rightarrow> nat \<Rightarrow> spawn_authorization \<Rightarrow> bytes
     \<Rightarrow> (evolution_error, lineage_state \<times> lineage_node) result" where
  "spawn_child s authenticated claimed child_id at auth rng =
     (if authenticated \<noteq> claimed
      then Inl (EV_Unauthorized ''authenticated parent does not match the spawn claim'')
      else and_then (plan_child_nature s authenticated rng) (\<lambda>(nature, rng).
           record_provisioned_child s authenticated claimed child_id nature at auth))"

subsection \<open>Absorption\<close>

definition spawned_after :: "lineage_state \<Rightarrow> lineage_node \<Rightarrow> nat \<Rightarrow> bool" where
  "spawned_after s source at =
     list_ex (\<lambda>child. case bm_get (lg_nodes s) child of None \<Rightarrow> False | Some node \<Rightarrow> ln_spawned_at node > at)
       (ln_children source)"

definition not_chronological :: "lineage_state \<Rightarrow> nat \<Rightarrow> bool" where
  "not_chronological s at = (lg_absorptions s \<noteq> [] \<and> ab_at (last (lg_absorptions s)) > at)"

text \<open>The change both operations end with.\<close>

definition absorb_into ::
  "lineage_state \<Rightarrow> lineage_node \<Rightarrow> absorption_record
     \<Rightarrow> (evolution_error, absorption_record) result \<times> lineage_state" where
  "absorb_into s source r =
     (let s' = s\<lparr>lg_nodes := bm_insert (ab_source_id r)
                   (source\<lparr>ln_lifecycle := LC_Absorbed (ab_target_id r) (ab_at r)\<rparr>) (lg_nodes s),
                 lg_absorptions := lg_absorptions s @ [r]\<rparr> in
      case checked_add u64_max (lg_revision s') 1 of
        None \<Rightarrow> (Inl (EV_Limit ''revision''), s')
      | Some revision \<Rightarrow> (Inr r, s'\<lparr>lg_revision := revision\<rparr>))"

definition absorption_checks ::
  "lineage_state \<Rightarrow> string \<Rightarrow> string \<Rightarrow> string \<Rightarrow> nat \<Rightarrow> string list \<Rightarrow> (evolution_error, lineage_node) result" where
  "absorption_checks s authenticated claimed source_id at hashes =
     and_then (run_checks
       [ensure (authenticated = claimed)
          (EV_Unauthorized ''authenticated target does not match the absorption claim''),
        ev_validate_id authenticated ''target ID'',
        ev_validate_id source_id ''source ID'',
        ensure (authenticated \<noteq> source_id) (EV_Conflict ''a Tentacle cannot absorb itself''),
        validate_hashes hashes,
        ensure (\<not> not_chronological s at) (EV_Invalid ''absorption records must be chronological'')]) (\<lambda>_.
     and_then (ok_or (EV_NotFound authenticated) (bm_get (lg_nodes s) authenticated)) (\<lambda>target.
     and_then (ok_or (EV_NotFound source_id) (bm_get (lg_nodes s) source_id)) (\<lambda>source.
     and_then (run_checks
       [ensure (ln_lifecycle target = LC_Active)
          (EV_Conflict ''knowledge cannot be absorbed into an inactive Tentacle''),
        ensure (ln_lifecycle source = LC_Active) (EV_Conflict ''the source Tentacle was already absorbed''),
        ensure (\<not> (at < ln_spawned_at target \<or> at < ln_spawned_at source))
          (EV_Invalid ''an absorption cannot predate either Tentacle''),
        ensure (\<not> spawned_after s source at)
          (EV_Invalid ''an absorption cannot predate an existing child spawn'')]) (\<lambda>_. Inr source))))"

definition record_absorption ::
  "lineage_state \<Rightarrow> string \<Rightarrow> string \<Rightarrow> string \<Rightarrow> nat \<Rightarrow> string list \<Rightarrow> bool
     \<Rightarrow> (evolution_error, absorption_record) result \<times> lineage_state" where
  "record_absorption s authenticated claimed source_id at hashes operator_confirmed =
     (case absorption_checks s authenticated claimed source_id at hashes of
        Inl e \<Rightarrow> (Inl e, s)
      | Inr source \<Rightarrow> absorb_into s source
          \<lparr>ab_source_id = source_id, ab_target_id = authenticated, ab_at = at, ab_hashes = hashes,
           ab_operator_confirmed = operator_confirmed\<rparr>)"

definition external_checks ::
  "lineage_state \<Rightarrow> string \<Rightarrow> string \<Rightarrow> nat \<Rightarrow> string list \<Rightarrow> (evolution_error, lineage_node) result" where
  "external_checks s source_id target_id at hashes =
     and_then (run_checks
       [ev_validate_id source_id ''external absorption source ID'',
        ev_validate_id target_id ''external absorption target ID'',
        validate_hashes hashes,
        ensure (\<not> (source_id \<noteq> lg_root_id s \<or> lg_external_parent s \<noteq> Some target_id))
          (EV_Unauthorized ''external absorption target is not this inherited root's recorded parent''),
        ensure (\<not> not_chronological s at) (EV_Invalid ''absorption records must be chronological'')]) (\<lambda>_.
     and_then (ok_or (EV_NotFound source_id) (bm_get (lg_nodes s) source_id)) (\<lambda>source.
     and_then (run_checks
       [ensure (ln_lifecycle source = LC_Active) (EV_Conflict ''the source Tentacle was already absorbed''),
        ensure (\<not> (at < ln_spawned_at source \<or> spawned_after s source at))
          (EV_Invalid ''external-parent absorption predates the source or one of its children'')]) (\<lambda>_. Inr source)))"

definition record_external_parent_absorption ::
  "lineage_state \<Rightarrow> string \<Rightarrow> string \<Rightarrow> nat \<Rightarrow> string list
     \<Rightarrow> (evolution_error, absorption_record) result \<times> lineage_state" where
  "record_external_parent_absorption s source_id target_id at hashes =
     (case external_checks s source_id target_id at hashes of
        Inl e \<Rightarrow> (Inl e, s)
      | Inr source \<Rightarrow> absorb_into s source
          \<lparr>ab_source_id = source_id, ab_target_id = target_id, ab_at = at, ab_hashes = hashes,
           ab_operator_confirmed = False\<rparr>)"

subsection \<open>Reading the tree\<close>

definition lineage_family :: "lineage_state \<Rightarrow> string \<Rightarrow> (evolution_error, family) result" where
  "lineage_family s i =
     and_then (ok_or (EV_NotFound i) (bm_get (lg_nodes s) i)) (\<lambda>node.
       let siblings = (case Option.bind (ln_parent_id node) (bm_get (lg_nodes s)) of
                         None \<Rightarrow> []
                       | Some parent \<Rightarrow> filter (\<lambda>candidate. candidate \<noteq> i) (ln_children parent))
       in Inr \<lparr>fm_parent = (case ln_parent_id node of
                             Some p \<Rightarrow> Some p
                           | None \<Rightarrow> if i = lg_root_id s then lg_external_parent s else None),
               fm_children = ln_children node, fm_siblings = siblings\<rparr>)"

text \<open>Climbing from parent to parent may go on for ever in a state that was not validated.\<close>

partial_function (option) ancestors_loop ::
  "lineage_state \<Rightarrow> lineage_node \<Rightarrow> string list \<Rightarrow> (evolution_error, lineage_node \<times> string list) result option" where
  "ancestors_loop s current acc =
     (case ln_parent_id current of
        None \<Rightarrow> Some (Inr (current, acc))
      | Some parent \<Rightarrow>
          (case bm_get (lg_nodes s) parent of
             None \<Rightarrow> Some (Inl (EV_Invalid (''missing parent '' @ parent)))
           | Some node \<Rightarrow> ancestors_loop s node (acc @ [parent])))"

definition lineage_ancestors :: "lineage_state \<Rightarrow> string \<Rightarrow> (evolution_error, string list) result option" where
  "lineage_ancestors s i =
     (case bm_get (lg_nodes s) i of
        None \<Rightarrow> Some (Inl (EV_NotFound i))
      | Some node \<Rightarrow>
          map_option (\<lambda>r. and_then r (\<lambda>(top, acc).
              Inr (if ln_tentacle_id top = lg_root_id s
                   then (case lg_external_parent s of None \<Rightarrow> acc | Some p \<Rightarrow> acc @ [p]) else acc)))
            (ancestors_loop s node []))"

definition lineage_decision ::
  "lineage_state \<Rightarrow> string \<Rightarrow> lifecycle_signal \<Rightarrow> (evolution_error, lifecycle_decision) result" where
  "lineage_decision s i signal =
     and_then (ok_or (EV_NotFound i) (bm_get (lg_nodes s) i)) (\<lambda>node.
     if ln_lifecycle node \<noteq> LC_Active
     then Inl (EV_Conflict ''an inactive Tentacle has no pending lifecycle decision'')
     else (case signal of
       SIG_Healthy \<Rightarrow> Inr LD_Continue
     | SIG_Starving \<Rightarrow> Inr LD_Warn
     | SIG_Death \<Rightarrow>
         and_then (lineage_family s i) (\<lambda>fam.
           let candidates = fold bs_insert (fm_children fam)
                 (fold bs_insert (fm_siblings fam)
                   (case fm_parent fam of None \<Rightarrow> bs_empty | Some p \<Rightarrow> bs_insert p bs_empty))
           in Inr (LD_BeginDeath (filter (\<lambda>c.
                (i = lg_root_id s \<and> lg_external_parent s = Some c)
                \<or> (case bm_get (lg_nodes s) c of None \<Rightarrow> False | Some n \<Rightarrow> ln_lifecycle n = LC_Active))
              (bs_elems candidates))))))"

end
