(* ===== verification/Lineage_Check.thy ===== *)
theory Lineage_Check
  imports Bot_Lineage
begin

section \<open>Lineage: validation of persisted state (cthuwu: evolution.rs)\<close>

text \<open>
  The checks a lineage passes when it is saved or loaded: its root, every node, every edge in both
  directions, the walk from the root, the spawn records and the replay of the absorptions.
\<close>

definition check_root :: "lineage_state \<Rightarrow> (evolution_error, unit) result" where
  "check_root s =
     and_then (ok_or (EV_Invalid ''root ID does not reference a node'') (bm_get (lg_nodes s) (lg_root_id s))) (\<lambda>root.
     run_checks
       [ensure (ln_parent_id root = None)
          (EV_Invalid ''local root must not reference a parent node inside its projection''),
        (case lg_external_parent s of
           None \<Rightarrow> ensure (\<not> (ln_generation root \<noteq> 0 \<or> na_parent_id (ln_nature root) \<noteq> None))
                     (EV_Invalid ''founder root must have generation zero and no parent Nature'')
         | Some parent \<Rightarrow> run_checks
             [ev_validate_id parent ''external parent ID'',
              ensure (\<not> (parent = lg_root_id s \<or> ln_generation root = 0 \<or> na_parent_id (ln_nature root) = None))
                (EV_Invalid ''inherited root has invalid external-parent metadata'')])])"

fun children_loop :: "string bset \<Rightarrow> string list \<Rightarrow> (evolution_error, unit) result" where
  "children_loop seen [] = Inr ()"
| "children_loop seen (c # cs) =
     and_then (ev_validate_id c ''child ID'') (\<lambda>_.
     if bs_member seen c then Inl (EV_Invalid ''duplicate child edge'')
     else children_loop (bs_insert c seen) cs)"

definition check_lifecycle :: "lineage_node \<Rightarrow> (evolution_error, unit) result" where
  "check_lifecycle node =
     (case ln_lifecycle node of
        LC_Active \<Rightarrow> Inr ()
      | LC_Absorbed into at \<Rightarrow> run_checks
          [ev_validate_id into ''absorption target ID'',
           ensure (\<not> at < ln_spawned_at node) (EV_Invalid ''absorption predates the source spawn'')])"

fun nodes_loop :: "string bset \<Rightarrow> (string \<times> lineage_node) list \<Rightarrow> (evolution_error, unit) result" where
  "nodes_loop seen [] = Inr ()"
| "nodes_loop seen ((key, node) # rest) =
     and_then (run_checks
       [ev_validate_id key ''node key'',
        ev_validate_id (ln_tentacle_id node) ''Tentacle ID'',
        ensure (key = ln_tentacle_id node) (EV_Invalid ''node map key does not match its Tentacle ID''),
        ev_validate_nature (ln_nature node),
        ensure (na_generation (ln_nature node) = ln_generation node)
          (EV_Invalid ''node and Nature generations disagree''),
        ensure (\<not> bs_member seen (na_id (ln_nature node))) (EV_Invalid ''duplicate Nature ID in lineage''),
        children_loop bs_empty (ln_children node),
        check_lifecycle node])
       (\<lambda>_. nodes_loop (bs_insert (na_id (ln_nature node)) seen) rest)"

definition check_parent_edge :: "lineage_state \<Rightarrow> lineage_node \<Rightarrow> (evolution_error, unit) result" where
  "check_parent_edge s node =
     (case ln_parent_id node of
        None \<Rightarrow>
          if ln_tentacle_id node \<noteq> lg_root_id s then Inl (EV_Invalid ''only the root may omit its parent'')
          else ensure (\<not> (ln_tentacle_id node = lg_root_id s \<and> lg_external_parent s = None
                        \<and> na_parent_id (ln_nature node) \<noteq> None))
                 (EV_Invalid ''root Nature unexpectedly has a parent'')
      | Some parent_id \<Rightarrow>
          and_then (ok_or (EV_Invalid (''missing parent '' @ parent_id)) (bm_get (lg_nodes s) parent_id)) (\<lambda>parent.
          and_then (run_checks
            [ensure (parent_id \<noteq> ln_tentacle_id node) (EV_Invalid ''self-parent cycle''),
             ensure (ln_tentacle_id node \<in> set (ln_children parent))
               (EV_Invalid ''parent is missing the reverse child edge''),
             ensure (ln_generation node = saturating_add u64_max (ln_generation parent) 1)
               (EV_Invalid ''child generation is inconsistent''),
             ensure (\<not> ln_spawned_at node < ln_spawned_at parent) (EV_Invalid ''child predates its parent'')]) (\<lambda>_.
          and_then (ok_or (EV_Invalid ''child is missing its immutable spawn record'')
            (find (\<lambda>r. sw_child_id r = ln_tentacle_id node) (lg_spawns s))) (\<lambda>spawn.
          run_checks
            [ensure (\<not> (sw_parent_id spawn \<noteq> parent_id
                       \<or> na_parent_id (ln_nature node) \<noteq> Some (sw_parent_nature_id spawn)))
               (EV_Invalid ''child Nature does not reference its parent Nature at spawn''),
             (case ln_lifecycle parent of
                LC_Active \<Rightarrow> Inr ()
              | LC_Absorbed into at \<Rightarrow>
                  ensure (\<not> ln_spawned_at node > at)
                    (EV_Invalid ''child was spawned after its parent was absorbed''))]))))"

definition check_child_edge :: "lineage_state \<Rightarrow> lineage_node \<Rightarrow> string \<Rightarrow> (evolution_error, unit) result" where
  "check_child_edge s node child_id =
     and_then (ok_or (EV_Invalid (''missing child '' @ child_id)) (bm_get (lg_nodes s) child_id)) (\<lambda>child.
       ensure (ln_parent_id child = Some (ln_tentacle_id node))
         (EV_Invalid ''child edge does not point back to its parent''))"

definition check_edges :: "lineage_state \<Rightarrow> lineage_node \<Rightarrow> (evolution_error, unit) result" where
  "check_edges s node =
     run_checks (check_parent_edge s node # map (check_child_edge s node) (ln_children node))"

text \<open>
  The walk from a node.  \<open>fuel\<close> bounds the depth of the calls; without fuel the walk has no result,
  and as many calls as there are nodes, plus one, are always enough.
\<close>

type_synonym visits = "string bset \<times> string bset"

fun visit_lineage :: "nat \<Rightarrow> lineage_state \<Rightarrow> string \<Rightarrow> visits \<Rightarrow> (evolution_error, visits) result option"
  and visit_children :: "nat \<Rightarrow> lineage_state \<Rightarrow> string list \<Rightarrow> visits \<Rightarrow> (evolution_error, visits) result option" where
  "visit_lineage 0 s i v = None"
| "visit_lineage (Suc fuel) s i (visiting, visited) =
     (if bs_member visited i then Some (Inr (visiting, visited))
      else if bs_member visiting i then Some (Inl (EV_Invalid ''lineage cycle detected''))
      else (case bm_get (lg_nodes s) i of
              None \<Rightarrow> Some (Inl (EV_Invalid (''missing node '' @ i)))
            | Some node \<Rightarrow>
                map_option (\<lambda>r. and_then r (\<lambda>(visiting, visited). Inr (bs_remove i visiting, bs_insert i visited)))
                  (visit_children fuel s (ln_children node) (bs_insert i visiting, visited))))"
| "visit_children fuel s [] v = Some (Inr v)"
| "visit_children fuel s (c # cs) v =
     (case visit_lineage fuel s c v of
        None \<Rightarrow> None
      | Some (Inl e) \<Rightarrow> Some (Inl e)
      | Some (Inr v) \<Rightarrow> visit_children fuel s cs v)"

definition check_connected :: "lineage_state \<Rightarrow> (evolution_error, unit) result" where
  "check_connected s =
     (case visit_lineage (Suc (bm_len (lg_nodes s))) s (lg_root_id s) (bs_empty, bs_empty) of
        None \<Rightarrow> Inl (EV_Limit ''visit'')
      | Some r \<Rightarrow> and_then r (\<lambda>(visiting, visited).
          ensure (bs_len visited = bm_len (lg_nodes s))
            (EV_Invalid ''lineage contains a disconnected node or cycle'')))"

definition check_spawn :: "lineage_state \<Rightarrow> spawn_record \<Rightarrow> (evolution_error, unit) result" where
  "check_spawn s r =
     and_then (ok_or (EV_Invalid ''spawn record references a missing child'') (bm_get (lg_nodes s) (sw_child_id r))) (\<lambda>child.
       ensure (\<not> (ln_parent_id child \<noteq> Some (sw_parent_id r) \<or> ln_generation child \<noteq> sw_generation r
                 \<or> ln_spawned_at child \<noteq> sw_at r \<or> na_id (ln_nature child) \<noteq> sw_child_nature_id r
                 \<or> na_parent_id (ln_nature child) \<noteq> Some (sw_parent_nature_id r)))
         (EV_Invalid ''spawn record disagrees with its child node''))"

fun spawns_loop :: "lineage_state \<Rightarrow> string bset \<Rightarrow> spawn_record list \<Rightarrow> (evolution_error, unit) result" where
  "spawns_loop s seen [] = Inr ()"
| "spawns_loop s seen (r # rs) =
     and_then (run_checks
       [ev_validate_id (sw_parent_id r) ''spawn parent ID'',
        ev_validate_id (sw_child_id r) ''spawn child ID'',
        ev_validate_sha256 (sw_judgment_id r) ''spawn authorization judgment ID'',
        ev_validate_id (sw_operator_id r) ''spawn authorization operator ID'',
        ev_validate_sha256 (sw_event_sha256 r) ''spawn authorization event ID digest'',
        ensure (\<not> (bs_member seen (sw_child_id r) \<or> sw_child_id r = lg_root_id s))
          (EV_Invalid ''duplicate or root child in spawn records''),
        check_spawn s r])
       (\<lambda>_. spawns_loop s (bs_insert (sw_child_id r) seen) rs)"

text \<open>The replay: the active nodes, the time of the last record and what was absorbed when.\<close>

fun absorptions_loop ::
  "lineage_state \<Rightarrow> string bset \<Rightarrow> nat \<Rightarrow> (string, string \<times> nat) bmap \<Rightarrow> absorption_record list
     \<Rightarrow> (evolution_error, (string, string \<times> nat) bmap) result" where
  "absorptions_loop s active previous absorbed [] = Inr absorbed"
| "absorptions_loop s active previous absorbed (r # rs) =
     and_then (run_checks
       [ev_validate_id (ab_source_id r) ''absorption source ID'',
        ev_validate_id (ab_target_id r) ''absorption target ID'',
        validate_hashes (ab_hashes r),
        ensure (ab_source_id r \<noteq> ab_target_id r) (EV_Invalid ''self-absorption is not permitted''),
        ensure (\<not> ab_at r < previous) (EV_Invalid ''absorption records are not chronological'')]) (\<lambda>_.
     and_then (ok_or (EV_Invalid ''absorption source is missing'') (bm_get (lg_nodes s) (ab_source_id r))) (\<lambda>source.
     let target = bm_get (lg_nodes s) (ab_target_id r) in
     and_then (run_checks
       [ensure (\<not> (target = None
                  \<and> \<not> (ab_source_id r = lg_root_id s \<and> lg_external_parent s = Some (ab_target_id r))))
          (EV_Invalid ''absorption target is neither local nor the root's external parent''),
        ensure (\<not> (ab_at r < ln_spawned_at source
                  \<or> (case target of None \<Rightarrow> False | Some node \<Rightarrow> ab_at r < ln_spawned_at node)))
          (EV_Invalid ''absorption predates a referenced Tentacle''),
        ensure (\<not> (\<not> bs_member active (ab_source_id r)
                  \<or> target \<noteq> None \<and> \<not> bs_member (bs_remove (ab_source_id r) active) (ab_target_id r)))
          (EV_Invalid ''absorption source or target was already inactive'')]) (\<lambda>_.
     absorptions_loop s (bs_remove (ab_source_id r) active) (ab_at r)
       (bm_insert (ab_source_id r) (ab_target_id r, ab_at r) absorbed) rs)))"

definition check_absorbed :: "(string, string \<times> nat) bmap \<Rightarrow> lineage_node \<Rightarrow> (evolution_error, unit) result" where
  "check_absorbed absorbed node =
     (case (ln_lifecycle node, bm_get absorbed (ln_tentacle_id node)) of
        (LC_Active, None) \<Rightarrow> Inr ()
      | (LC_Absorbed into at, Some (target, recorded_at)) \<Rightarrow>
          ensure (into = target \<and> at = recorded_at) (EV_Invalid ''node lifecycle disagrees with absorption records'')
      | _ \<Rightarrow> Inl (EV_Invalid ''node lifecycle disagrees with absorption records''))"

definition validate_absorptions :: "lineage_state \<Rightarrow> (evolution_error, unit) result" where
  "validate_absorptions s =
     and_then (absorptions_loop s (bs_of_list (bm_keys (lg_nodes s))) 0 bm_empty (lg_absorptions s)) (\<lambda>absorbed.
       run_checks (map (check_absorbed absorbed) (bm_values (lg_nodes s))))"

definition validate_lineage_state :: "lineage_state \<Rightarrow> (evolution_error, unit) result" where
  "validate_lineage_state s =
     run_checks
       ([ensure (lg_schema_version s = LINEAGE_SCHEMA_VERSION)
           (EV_Invalid (''unsupported schema version '' @ decimal (lg_schema_version s))),
         ev_validate_id (lg_root_id s) ''root ID'',
         ensure (lg_nodes s \<noteq> bm_empty) (EV_Invalid ''lineage must contain its root node''),
         ensure (length (lg_spawns s) = bm_len (lg_nodes s) - 1)
           (EV_Invalid ''spawn records must describe every non-root node exactly once''),
         (case checked_add u64_max (length (lg_spawns s)) (length (lg_absorptions s)) of
            None \<Rightarrow> Inl (EV_Limit ''revision'')
          | Some expected \<Rightarrow>
              ensure (lg_revision s = expected) (EV_Invalid ''revision does not match the mutation log'')),
         check_root s,
         nodes_loop bs_empty (bm_entries (lg_nodes s))]
        @ map (check_edges s) (bm_values (lg_nodes s))
        @ [check_connected s, spawns_loop s bs_empty (lg_spawns s), validate_absorptions s])"

definition Lineage_from_state :: "lineage_state \<Rightarrow> (evolution_error, lineage_state) result" where
  "Lineage_from_state s = and_then (validate_lineage_state s) (\<lambda>_. Inr s)"

end
