(* ===== verification/Lineage_Walk.thy ===== *)
theory Lineage_Walk
  imports Lineage_Check
begin

section \<open>Lineage: walking the tree\<close>

text \<open>
  What the walk from the root establishes, that it always has the fuel it needs, and that climbing
  from any node of a validated lineage ends at the root.
\<close>

abbreviation node_of :: "lineage_state \<Rightarrow> string \<Rightarrow> lineage_node option" where
  "node_of s i \<equiv> bm_get (lg_nodes s) i"

definition known :: "lineage_state \<Rightarrow> string set" where
  "known s = {i. node_of s i \<noteq> None}"

lemma finite_known [simp]: "finite (known s)"
  unfolding known_def by (rule finite_bm_dom)

lemma values_all: "(\<forall>v\<in>set (bm_values m). P v) \<longleftrightarrow> (\<forall>k v. bm_get m k = Some v \<longrightarrow> P v)"
  unfolding Ball_def bm_values_iff by blast

definition members :: "string bset \<Rightarrow> string set" where
  "members b = {x. bs_member b x}"

lemma members_simps [simp]:
  "x \<in> members b \<longleftrightarrow> bs_member b x"
  "members bs_empty = {}"
  "members (bs_insert x b) = insert x (members b)"
  "members (bs_remove x b) = members b - {x}"
  by (auto simp: members_def)

lemma members_card: "bs_len b = card (members b)"
  by (simp add: bs_len_elems members_def distinct_card[symmetric] bs_elems_set[symmetric])

lemma members_finite [simp]: "finite (members b)"
  by (simp add: members_def bs_elems_set[symmetric])

lemma bs_remove_insert: "\<not> bs_member b x \<Longrightarrow> bs_remove x (bs_insert x b) = b"
  by (rule bs_eqI) auto

text \<open>The descent along child edges between nodes.\<close>

inductive descends :: "lineage_state \<Rightarrow> string \<Rightarrow> string \<Rightarrow> bool" for s where
  here: "i \<in> known s \<Longrightarrow> descends s i i"
| down: "descends s i j \<Longrightarrow> node_of s j = Some node \<Longrightarrow> c \<in> set (ln_children node) \<Longrightarrow> c \<in> known s \<Longrightarrow> descends s i c"

lemma descends_up:
  "descends s j k \<Longrightarrow> node_of s i = Some node \<Longrightarrow> j \<in> set (ln_children node) \<Longrightarrow> descends s i k"
proof (induction rule: descends.induct)
  case (here j)
  then show ?case using descends.down[OF descends.here, of i s node j] by (simp add: known_def)
next
  case (down j node' c)
  then show ?case using descends.down by blast
qed

subsection \<open>The walk\<close>

lemma visit_sound:
  "visit_lineage fuel s i (vg, vd) = Some (Inr (vg', vd')) \<Longrightarrow>
     vg' = vg \<and> members vd \<subseteq> members vd' \<and> i \<in> members vd' \<and> (\<forall>x\<in>members vd'. x \<in> members vd \<or> descends s i x)"
  "visit_children fuel s cs (vg, vd) = Some (Inr (vg', vd')) \<Longrightarrow>
     vg' = vg \<and> members vd \<subseteq> members vd' \<and> set cs \<subseteq> members vd'
     \<and> (\<forall>x\<in>members vd'. x \<in> members vd \<or> (\<exists>c\<in>set cs. descends s c x))"
proof (induction fuel s i "(vg, vd)" and fuel s cs "(vg, vd)" arbitrary: vg vd vg' vd' and vg vd vg' vd'
    rule: visit_lineage_visit_children.induct)
  case (2 fuel s i vg vd)
  show ?case
  proof (cases "bs_member vd i")
    case True
    then show ?thesis using 2(2) by auto
  next
    case False
    then obtain node where node: "node_of s i = Some node" and fresh: "\<not> bs_member vg i"
      using 2(2) by (auto split: if_splits option.splits)
    then obtain wg wd where w: "visit_children fuel s (ln_children node) (bs_insert i vg, vd) = Some (Inr (wg, wd))"
      "vg' = bs_remove i wg" "vd' = bs_insert i wd"
      using 2(2) False by auto
    note ih = 2(1)[OF False fresh node w(1)]
    have up: "descends s i x" if "c \<in> set (ln_children node)" "descends s c x" for c x
      using descends_up[OF that(2) node that(1)] .
    have self: "descends s i i" using node by (intro descends.here) (simp add: known_def)
    have "x \<in> members vd \<or> descends s i x" if "x \<in> members vd'" for x
    proof (cases "x = i")
      case False
      with that have "x \<in> members wd" by (simp add: w(3))
      then show ?thesis using ih up by blast
    qed (simp add: self)
    moreover have "vg' = vg" using ih fresh by (simp add: w(2) bs_remove_insert)
    ultimately show ?thesis using ih by (auto simp: w(3))
  qed
next
  case (4 fuel s c cs vg vd)
  obtain wg wd where w: "visit_lineage fuel s c (vg, vd) = Some (Inr (wg, wd))"
    "visit_children fuel s cs (wg, wd) = Some (Inr (vg', vd'))"
    using 4(3) by (auto split: option.splits sum.splits)
  have first: "wg = vg" "members vd \<subseteq> members wd" "c \<in> members wd"
    "\<forall>x\<in>members wd. x \<in> members vd \<or> descends s c x"
    using 4(1)[OF w(1)] by auto
  have rest: "vg' = wg" "members wd \<subseteq> members vd'" "set cs \<subseteq> members vd'"
    "\<forall>x\<in>members vd'. x \<in> members wd \<or> (\<exists>c\<in>set cs. descends s c x)"
    using 4(2)[OF w(1) refl w(2)] by auto
  have "x \<in> members vd \<or> (\<exists>c\<in>set (c # cs). descends s c x)" if "x \<in> members vd'" for x
    using rest(4) first(4) that unfolding list.set by blast
  then show ?case using first rest by auto
qed simp_all

text \<open>The walk never lacks fuel when it starts with one more call than there are nodes.\<close>

lemma visit_total:
  "members vg \<subseteq> known s \<Longrightarrow> card (known s) < fuel + card (members vg) \<Longrightarrow> visit_lineage fuel s i (vg, vd) \<noteq> None"
  "members vg \<subseteq> known s \<Longrightarrow> card (known s) < fuel + card (members vg) \<Longrightarrow> visit_children fuel s cs (vg, vd) \<noteq> None"
proof (induction fuel s i "(vg, vd)" and fuel s cs "(vg, vd)" arbitrary: vg vd and vg vd
    rule: visit_lineage_visit_children.induct)
  case (1 s i vg vd)
  then show ?case using card_mono[OF finite_known 1(1)] by simp
next
  case (2 fuel s i vg vd)
  show ?case
  proof (cases "bs_member vd i \<or> bs_member vg i \<or> node_of s i = None")
    case True
    then show ?thesis by auto
  next
    case False
    then obtain node where node: "node_of s i = Some node" by auto
    have "members (bs_insert i vg) \<subseteq> known s" using 2(2) node by (auto simp: known_def)
    moreover have "card (known s) < fuel + card (members (bs_insert i vg))" using 2(3) False by simp
    ultimately show ?thesis using 2(1)[of node] False node by auto
  qed
next
  case (4 fuel s c cs vg vd)
  then obtain r where r: "visit_lineage fuel s c (vg, vd) = Some r" by blast
  show ?case
  proof (cases r)
    case (Inr w)
    obtain wg wd where w: "w = (wg, wd)" by (cases w)
    then have "wg = vg" using visit_sound(1)[of fuel s c vg vd wg wd] r Inr by simp
    then show ?thesis using 4(2)[OF r Inr[unfolded w]] 4(3,4) r Inr w by simp
  qed (simp add: r)
qed simp_all

lemma card_known: "bm_len (lg_nodes s) = card (known s)"
  by (simp add: bm_len_card known_def)

lemma check_connected_fuel: "visit_lineage (Suc (bm_len (lg_nodes s))) s i (bs_empty, bs_empty) \<noteq> None"
  by (rule visit_total) (simp_all add: card_known)

subsection \<open>Trees\<close>

text \<open>What the two directions of the edges say, with generations that grow along them.\<close>

definition tree_inv :: "lineage_state \<Rightarrow> bool" where
  "tree_inv s \<longleftrightarrow>
     (\<forall>i n. node_of s i = Some n \<longrightarrow> ln_tentacle_id n = i)
     \<and> (\<exists>r. node_of s (lg_root_id s) = Some r \<and> ln_parent_id r = None)
     \<and> (\<forall>i n. node_of s i = Some n \<and> i \<noteq> lg_root_id s \<longrightarrow>
          (\<exists>p m. ln_parent_id n = Some p \<and> node_of s p = Some m \<and> i \<in> set (ln_children m)))
     \<and> (\<forall>i n c. node_of s i = Some n \<and> c \<in> set (ln_children n) \<longrightarrow>
          (\<exists>m. node_of s c = Some m \<and> ln_parent_id m = Some i \<and> ln_generation m = Suc (ln_generation n)))"

definition generation_of :: "lineage_state \<Rightarrow> string \<Rightarrow> nat" where
  "generation_of s i = (case node_of s i of None \<Rightarrow> 0 | Some n \<Rightarrow> ln_generation n)"

lemma tree_root: "tree_inv s \<Longrightarrow> \<exists>r. node_of s (lg_root_id s) = Some r \<and> ln_parent_id r = None"
  by (simp add: tree_inv_def)

lemma tree_parent:
  "tree_inv s \<Longrightarrow> node_of s i = Some n \<Longrightarrow> i \<noteq> lg_root_id s \<Longrightarrow>
     \<exists>p m. ln_parent_id n = Some p \<and> node_of s p = Some m \<and> i \<in> set (ln_children m)"
  by (simp add: tree_inv_def)

lemma tree_child:
  "tree_inv s \<Longrightarrow> node_of s i = Some n \<Longrightarrow> c \<in> set (ln_children n) \<Longrightarrow>
     \<exists>m. node_of s c = Some m \<and> ln_parent_id m = Some i \<and> ln_generation m = Suc (ln_generation n)"
  by (simp add: tree_inv_def)

lemma child_generation:
  assumes "tree_inv s" "node_of s i = Some n" "c \<in> set (ln_children n)"
  shows "c \<in> known s" "generation_of s c = Suc (generation_of s i)"
  using tree_child[OF assms] assms(2) by (auto simp: known_def generation_of_def)

definition closed_under :: "lineage_state \<Rightarrow> string set \<Rightarrow> bool" where
  "closed_under s X \<longleftrightarrow> X \<subseteq> known s \<and> (\<forall>i\<in>X. \<forall>n. node_of s i = Some n \<longrightarrow> set (ln_children n) \<subseteq> X)"

lemma closed_under_insert:
  assumes "closed_under s X" "node_of s i = Some node" "set (ln_children node) \<subseteq> X"
  shows "closed_under s (insert i X)"
  unfolding closed_under_def
proof (intro conjI ballI allI impI)
  show "insert i X \<subseteq> known s" using assms(1,2) unfolding closed_under_def known_def by blast
  fix x n assume x: "x \<in> insert i X" and n: "node_of s x = Some n"
  show "set (ln_children n) \<subseteq> insert i X"
  proof (cases "x = i")
    case True then show ?thesis using assms(2,3) n by auto
  next
    case False then show ?thesis using assms(1) x n unfolding closed_under_def by blast
  qed
qed

lemma visit_tree:
  "tree_inv s \<Longrightarrow> members vg \<subseteq> known s \<Longrightarrow> card (known s) < fuel + card (members vg) \<Longrightarrow> closed_under s (members vd) \<Longrightarrow>
     i \<in> known s \<Longrightarrow> \<forall>v\<in>members vg. generation_of s v < generation_of s i \<Longrightarrow>
     \<exists>vd'. visit_lineage fuel s i (vg, vd) = Some (Inr (vg, vd')) \<and> members vd \<subseteq> members vd' \<and> i \<in> members vd'
       \<and> closed_under s (members vd')"
  "tree_inv s \<Longrightarrow> members vg \<subseteq> known s \<Longrightarrow> card (known s) < fuel + card (members vg) \<Longrightarrow> closed_under s (members vd) \<Longrightarrow>
     set cs \<subseteq> known s \<Longrightarrow> \<forall>c\<in>set cs. \<forall>v\<in>members vg. generation_of s v < generation_of s c \<Longrightarrow>
     \<exists>vd'. visit_children fuel s cs (vg, vd) = Some (Inr (vg, vd')) \<and> members vd \<subseteq> members vd' \<and> set cs \<subseteq> members vd'
       \<and> closed_under s (members vd')"
proof (induction fuel s i "(vg, vd)" and fuel s cs "(vg, vd)" arbitrary: vg vd and vg vd
    rule: visit_lineage_visit_children.induct)
  case (1 s i vg vd)
  then show ?case using card_mono[OF finite_known 1(2)] by simp
next
  case (2 fuel s i vg vd)
  show ?case
  proof (cases "bs_member vd i")
    case True
    then show ?thesis using 2(5) by auto
  next
    case False
    obtain node where node: "node_of s i = Some node" using 2(6) by (auto simp: known_def)
    have fresh: "\<not> bs_member vg i" using 2(7) by auto
    have kids: "c \<in> known s \<and> generation_of s c = Suc (generation_of s i)" if "c \<in> set (ln_children node)" for c
      using child_generation[OF 2(2) node that] by simp
    have inside: "members (bs_insert i vg) \<subseteq> known s" and fuelled: "card (known s) < fuel + card (members (bs_insert i vg))"
      using 2(3,4,6) fresh by auto
    have cs: "set (ln_children node) \<subseteq> known s" using kids by blast
    have gens: "\<forall>c\<in>set (ln_children node). \<forall>v\<in>members (bs_insert i vg). generation_of s v < generation_of s c"
      using kids 2(7) by (auto intro: less_SucI)
    obtain wd where wd: "visit_children fuel s (ln_children node) (bs_insert i vg, vd) = Some (Inr (bs_insert i vg, wd))"
      "members vd \<subseteq> members wd" "set (ln_children node) \<subseteq> members wd" "closed_under s (members wd)"
      using 2(1)[OF False fresh node 2(2) inside fuelled 2(5) cs gens] by blast
    have "closed_under s (members (bs_insert i wd))"
      using closed_under_insert[OF wd(4) node wd(3)] by simp
    then show ?thesis
      using wd False fresh node by (intro exI[of _ "bs_insert i wd"]) (auto simp: bs_remove_insert)
  qed
next
  case (3 fuel s vg vd)
  then show ?case by auto
next
  case (4 fuel s c cs vg vd)
  obtain wd where wd: "visit_lineage fuel s c (vg, vd) = Some (Inr (vg, wd))" "members vd \<subseteq> members wd"
    "c \<in> members wd" "closed_under s (members wd)"
    using 4(1)[OF 4(3,4,5,6)] 4(7,8) by auto
  obtain vd' where vd': "visit_children fuel s cs (vg, wd) = Some (Inr (vg, vd'))" "members wd \<subseteq> members vd'"
    "set cs \<subseteq> members vd'" "closed_under s (members vd')"
    using 4(2)[OF wd(1) refl 4(3,4,5) wd(4)] 4(7,8) by auto
  then show ?case using wd by (intro exI[of _ vd']) auto
qed

lemma tree_closed_all:
  assumes "tree_inv s" "closed_under s X" "lg_root_id s \<in> X" "i \<in> known s"
  shows "i \<in> X"
  using assms(4)
proof (induction "generation_of s i" arbitrary: i rule: less_induct)
  case less
  show ?case
  proof (cases "i = lg_root_id s")
    case False
    then obtain n p m where p: "node_of s i = Some n" "node_of s p = Some m" "i \<in> set (ln_children m)"
      using tree_parent[OF assms(1) _ False] less(2) by (auto simp: known_def)
    then have "generation_of s p < generation_of s i"
      using child_generation(2)[OF assms(1) p(2,3)] by simp
    then have "p \<in> X" using less(1) p(2) by (simp add: known_def)
    then show ?thesis using assms(2) p(2,3) by (auto simp: closed_under_def)
  qed (simp add: assms(3))
qed

lemma check_connected_tree:
  assumes "tree_inv s"
  shows "check_connected s = Inr ()"
proof -
  have root: "lg_root_id s \<in> known s" using assms by (auto simp: tree_inv_def known_def)
  obtain vd where vd: "visit_lineage (Suc (bm_len (lg_nodes s))) s (lg_root_id s) (bs_empty, bs_empty) = Some (Inr (bs_empty, vd))"
    "lg_root_id s \<in> members vd" "closed_under s (members vd)"
    using visit_tree(1)[OF assms _ _ _ root, of bs_empty "Suc (bm_len (lg_nodes s))" bs_empty]
    by (auto simp: card_known closed_under_def)
  have "members vd = known s"
    using tree_closed_all[OF assms vd(3,2)] vd(3) by (auto simp: closed_under_def)
  then show ?thesis unfolding check_connected_def vd(1) by (simp add: members_card card_known)
qed

end
