(* ===== verification/Lineage_Invariant.thy ===== *)
theory Lineage_Invariant
  imports Lineage_Walk
begin

section \<open>Lineage: what every reachable state satisfies\<close>

text \<open>
  The invariant of the operations, in the vocabulary of the tree, and that a state with it passes
  every check of the validator.
\<close>

definition node_ok :: "string \<Rightarrow> lineage_node \<Rightarrow> bool" where
  "node_ok i n \<longleftrightarrow>
     id_text i \<and> ln_tentacle_id n = i \<and> validate_nature (ln_nature n) = Inr ()
     \<and> na_generation (ln_nature n) = ln_generation n \<and> distinct (ln_children n) \<and> list_all id_text (ln_children n)
     \<and> (case ln_lifecycle n of LC_Active \<Rightarrow> True | LC_Absorbed into at \<Rightarrow> id_text into \<and> ln_spawned_at n \<le> at)"

lemma children_loop_ok:
  "children_loop seen cs = Inr () \<longleftrightarrow> list_all id_text cs \<and> distinct cs \<and> (\<forall>c\<in>set cs. \<not> bs_member seen c)"
  by (induction cs arbitrary: seen) auto

lemma check_lifecycle_ok:
  "check_lifecycle n = Inr () \<longleftrightarrow>
     (case ln_lifecycle n of LC_Active \<Rightarrow> True | LC_Absorbed into at \<Rightarrow> id_text into \<and> ln_spawned_at n \<le> at)"
  by (auto simp: check_lifecycle_def run_checks.simps(1) split: lifecycle_status.splits)

definition nature_of :: "string \<times> lineage_node \<Rightarrow> string" where
  "nature_of e = na_id (ln_nature (snd e))"

lemma nodes_loop_ok:
  "nodes_loop seen es = Inr () \<longleftrightarrow>
     (\<forall>e\<in>set es. node_ok (fst e) (snd e) \<and> \<not> bs_member seen (nature_of e)) \<and> distinct (map nature_of es)"
proof (induction es arbitrary: seen)
  case (Cons e es)
  obtain k n where e: "e = (k, n)" by (cases e)
  have nat: "nature_of (k, n) = na_id (ln_nature n)" by (simp add: nature_of_def)
  have head: "run_checks
       [ev_validate_id k ''node key'',
        ev_validate_id (ln_tentacle_id n) ''Tentacle ID'',
        ensure (k = ln_tentacle_id n) (EV_Invalid ''node map key does not match its Tentacle ID''),
        ev_validate_nature (ln_nature n),
        ensure (na_generation (ln_nature n) = ln_generation n)
          (EV_Invalid ''node and Nature generations disagree''),
        ensure (\<not> bs_member seen (na_id (ln_nature n))) (EV_Invalid ''duplicate Nature ID in lineage''),
        children_loop bs_empty (ln_children n),
        check_lifecycle n] = Inr u \<longleftrightarrow> node_ok k n \<and> \<not> bs_member seen (nature_of e)" for u
    by (auto simp: node_ok_def children_loop_ok check_lifecycle_ok nat e run_checks.simps(1))
  show ?case
    unfolding e nodes_loop.simps and_then_eq_Inr head Cons.IH
    by (auto simp: nat[symmetric] e image_iff)
qed simp

definition edge_ok :: "lineage_state \<Rightarrow> lineage_node \<Rightarrow> lineage_node \<Rightarrow> bool" where
  "edge_ok s child parent \<longleftrightarrow>
     ln_generation child \<le> u64_max \<and> ln_spawned_at parent \<le> ln_spawned_at child
     \<and> (case ln_lifecycle parent of LC_Active \<Rightarrow> True | LC_Absorbed into at \<Rightarrow> ln_spawned_at child \<le> at)"

definition spawn_ok :: "lineage_state \<Rightarrow> spawn_record \<Rightarrow> bool" where
  "spawn_ok s r \<longleftrightarrow>
     id_text (sw_parent_id r) \<and> id_text (sw_child_id r) \<and> is_sha256_text (sw_judgment_id r)
     \<and> id_text (sw_operator_id r) \<and> is_sha256_text (sw_event_sha256 r) \<and> sw_child_id r \<noteq> lg_root_id s
     \<and> (\<exists>n. node_of s (sw_child_id r) = Some n \<and> ln_parent_id n = Some (sw_parent_id r)
          \<and> ln_generation n = sw_generation r \<and> ln_spawned_at n = sw_at r
          \<and> na_id (ln_nature n) = sw_child_nature_id r \<and> na_parent_id (ln_nature n) = Some (sw_parent_nature_id r))"

lemma spawns_loop_ok:
  "spawns_loop s seen rs = Inr () \<longleftrightarrow>
     (\<forall>r\<in>set rs. spawn_ok s r \<and> \<not> bs_member seen (sw_child_id r)) \<and> distinct (map sw_child_id rs)"
proof (induction rs arbitrary: seen)
  case (Cons r rs)
  have head: "run_checks
       [ev_validate_id (sw_parent_id r) ''spawn parent ID'',
        ev_validate_id (sw_child_id r) ''spawn child ID'',
        ev_validate_sha256 (sw_judgment_id r) ''spawn authorization judgment ID'',
        ev_validate_id (sw_operator_id r) ''spawn authorization operator ID'',
        ev_validate_sha256 (sw_event_sha256 r) ''spawn authorization event ID digest'',
        ensure (\<not> (bs_member seen (sw_child_id r) \<or> sw_child_id r = lg_root_id s))
          (EV_Invalid ''duplicate or root child in spawn records''),
        check_spawn s r] = Inr u \<longleftrightarrow> spawn_ok s r \<and> \<not> bs_member seen (sw_child_id r)" for u
    by (auto simp: spawn_ok_def check_spawn_def run_checks.simps(1))
  show ?case unfolding spawns_loop.simps and_then_eq_Inr head Cons.IH by (auto simp: image_iff)
qed simp

subsection \<open>The replay of the absorptions\<close>

definition record_ok :: "lineage_state \<Rightarrow> absorption_record \<Rightarrow> bool" where
  "record_ok s r \<longleftrightarrow>
     id_text (ab_source_id r) \<and> id_text (ab_target_id r) \<and> validate_hashes (ab_hashes r) = Inr ()
     \<and> ab_source_id r \<noteq> ab_target_id r
     \<and> (\<exists>n. node_of s (ab_source_id r) = Some n \<and> ln_spawned_at n \<le> ab_at r)
     \<and> (case node_of s (ab_target_id r) of
          None \<Rightarrow> ab_source_id r = lg_root_id s \<and> lg_external_parent s = Some (ab_target_id r)
        | Some n \<Rightarrow> ln_spawned_at n \<le> ab_at r)"

fun replay_ok :: "lineage_state \<Rightarrow> string set \<Rightarrow> nat \<Rightarrow> absorption_record list \<Rightarrow> bool" where
  "replay_ok s active previous [] = True"
| "replay_ok s active previous (r # rs) =
     (record_ok s r \<and> previous \<le> ab_at r \<and> ab_source_id r \<in> active
      \<and> (node_of s (ab_target_id r) \<noteq> None \<longrightarrow> ab_target_id r \<in> active)
      \<and> replay_ok s (active - {ab_source_id r}) (ab_at r) rs)"

definition absorbed_map :: "absorption_record list \<Rightarrow> (string, string \<times> nat) bmap \<Rightarrow> (string, string \<times> nat) bmap" where
  "absorbed_map rs m = fold (\<lambda>r. bm_insert (ab_source_id r) (ab_target_id r, ab_at r)) rs m"

lemma absorbed_map_simps [simp]:
  "absorbed_map [] m = m"
  "absorbed_map (r # rs) m = absorbed_map rs (bm_insert (ab_source_id r) (ab_target_id r, ab_at r) m)"
  "absorbed_map (rs @ [r]) m = bm_insert (ab_source_id r) (ab_target_id r, ab_at r) (absorbed_map rs m)"
  by (simp_all add: absorbed_map_def)

lemma absorptions_loop_replay:
  "replay_ok s (members active) previous rs \<Longrightarrow> absorptions_loop s active previous m rs = Inr (absorbed_map rs m)"
proof (induction rs arbitrary: active previous m)
  case (Cons r rs)
  have rok: "record_ok s r" and at: "previous \<le> ab_at r" and src: "bs_member active (ab_source_id r)"
    and tgt: "node_of s (ab_target_id r) \<noteq> None \<longrightarrow> bs_member active (ab_target_id r)"
    and rest: "replay_ok s (members (bs_remove (ab_source_id r) active)) (ab_at r) rs"
    using Cons.prems by auto
  obtain n where n: "node_of s (ab_source_id r) = Some n" "ln_spawned_at n \<le> ab_at r"
    using rok by (auto simp: record_ok_def)
  have first: "run_checks
       [ev_validate_id (ab_source_id r) ''absorption source ID'',
        ev_validate_id (ab_target_id r) ''absorption target ID'',
        validate_hashes (ab_hashes r),
        ensure (ab_source_id r \<noteq> ab_target_id r) (EV_Invalid ''self-absorption is not permitted''),
        ensure (\<not> ab_at r < previous) (EV_Invalid ''absorption records are not chronological'')] = Inr ()"
    using rok at by (auto simp: record_ok_def run_checks.simps(1))
  show ?case
    unfolding absorptions_loop.simps first n(1)
    using Cons.IH[OF rest] rok src tgt n
    by (auto simp: record_ok_def Let_def run_checks.simps(1) ensure_def split: option.splits)
qed simp

definition sources :: "absorption_record list \<Rightarrow> string set" where
  "sources rs = ab_source_id ` set rs"

definition last_at :: "nat \<Rightarrow> absorption_record list \<Rightarrow> nat" where
  "last_at previous rs = (if rs = [] then previous else ab_at (last rs))"

lemma replay_ok_snoc:
  "replay_ok s active previous (rs @ [r]) \<longleftrightarrow>
     replay_ok s active previous rs \<and> record_ok s r \<and> last_at previous rs \<le> ab_at r
     \<and> ab_source_id r \<in> active - sources rs
     \<and> (node_of s (ab_target_id r) \<noteq> None \<longrightarrow> ab_target_id r \<in> active - sources rs)"
  by (induction rs arbitrary: active previous) (auto simp: last_at_def sources_def)

lemma replay_ok_mono:
  assumes "\<And>r. r \<in> set rs \<Longrightarrow> record_ok s r \<Longrightarrow> record_ok s' r"
    and "\<And>r. r \<in> set rs \<Longrightarrow> node_of s' (ab_target_id r) \<noteq> None \<Longrightarrow> node_of s (ab_target_id r) \<noteq> None"
    and "active \<subseteq> active'"
  shows "replay_ok s active previous rs \<Longrightarrow> replay_ok s' active' previous rs"
  using assms
proof (induction rs arbitrary: active active' previous)
  case (Cons r rs)
  have "replay_ok s' (active' - {ab_source_id r}) (ab_at r) rs"
    using Cons.prems by (intro Cons.IH[of "active - {ab_source_id r}"]) auto
  then show ?case using Cons.prems by auto
qed simp

lemma absorbed_map_get:
  "bm_get (absorbed_map rs bm_empty) i = None \<longleftrightarrow> i \<notin> sources rs"
  by (induction rs rule: rev_induct) (auto simp: sources_def)

subsection \<open>The invariant\<close>

definition root_ok :: "lineage_state \<Rightarrow> bool" where
  "root_ok s \<longleftrightarrow>
     lg_schema_version s = LINEAGE_SCHEMA_VERSION \<and> id_text (lg_root_id s)
     \<and> (\<exists>r. node_of s (lg_root_id s) = Some r
          \<and> (case lg_external_parent s of
               None \<Rightarrow> ln_generation r = 0 \<and> na_parent_id (ln_nature r) = None
             | Some p \<Rightarrow> id_text p \<and> node_of s p = None \<and> ln_generation r \<noteq> 0 \<and> na_parent_id (ln_nature r) \<noteq> None))"

definition nodes_inv :: "lineage_state \<Rightarrow> bool" where
  "nodes_inv s \<longleftrightarrow> (\<forall>i n. node_of s i = Some n \<longrightarrow> node_ok i n)"

definition natures_apart :: "lineage_state \<Rightarrow> bool" where
  "natures_apart s \<longleftrightarrow>
     (\<forall>i j n m. node_of s i = Some n \<longrightarrow> node_of s j = Some m \<longrightarrow> na_id (ln_nature n) = na_id (ln_nature m) \<longrightarrow> i = j)"

definition edges_inv :: "lineage_state \<Rightarrow> bool" where
  "edges_inv s \<longleftrightarrow>
     (\<forall>i n p m. node_of s i = Some n \<longrightarrow> ln_parent_id n = Some p \<longrightarrow> node_of s p = Some m \<longrightarrow> edge_ok s n m)"

definition spawns_inv :: "lineage_state \<Rightarrow> bool" where
  "spawns_inv s \<longleftrightarrow>
     (\<forall>r\<in>set (lg_spawns s). spawn_ok s r) \<and> distinct (map sw_child_id (lg_spawns s))
     \<and> sw_child_id ` set (lg_spawns s) = known s - {lg_root_id s}"

definition lifecycles_inv :: "lineage_state \<Rightarrow> bool" where
  "lifecycles_inv s \<longleftrightarrow>
     (\<forall>i n. node_of s i = Some n \<longrightarrow> check_absorbed (absorbed_map (lg_absorptions s) bm_empty) n = Inr ())"

definition lineage_inv :: "lineage_state \<Rightarrow> bool" where
  "lineage_inv s \<longleftrightarrow>
     root_ok s \<and> tree_inv s \<and> nodes_inv s \<and> natures_apart s \<and> edges_inv s \<and> spawns_inv s
     \<and> replay_ok s (known s) 0 (lg_absorptions s) \<and> lifecycles_inv s
     \<and> lg_revision s = length (lg_spawns s) + length (lg_absorptions s)"

lemma lineage_inv_parts:
  assumes "lineage_inv s"
  shows "root_ok s" "tree_inv s" "nodes_inv s" "natures_apart s" "edges_inv s" "spawns_inv s"
    "replay_ok s (known s) 0 (lg_absorptions s)" "lifecycles_inv s"
    "lg_revision s = length (lg_spawns s) + length (lg_absorptions s)"
  using assms by (simp_all add: lineage_inv_def)

lemma inv_node_ok: "lineage_inv s \<Longrightarrow> node_of s i = Some n \<Longrightarrow> node_ok i n"
  by (simp add: lineage_inv_def nodes_inv_def)

lemma inv_nature_id:
  "lineage_inv s \<Longrightarrow> node_of s i = Some n \<Longrightarrow> node_of s j = Some m \<Longrightarrow> na_id (ln_nature n) = na_id (ln_nature m) \<Longrightarrow> i = j"
  unfolding lineage_inv_def natures_apart_def by blast

lemma inv_edge_ok:
  "lineage_inv s \<Longrightarrow> node_of s i = Some n \<Longrightarrow> ln_parent_id n = Some p \<Longrightarrow> node_of s p = Some m \<Longrightarrow> edge_ok s n m"
  unfolding lineage_inv_def edges_inv_def by blast

lemma inv_root:
  assumes "lineage_inv s"
  shows "check_root s = Inr ()"
proof -
  obtain r where r: "node_of s (lg_root_id s) = Some r" "ln_parent_id r = None"
    using tree_root[OF lineage_inv_parts(2)[OF assms]] by blast
  show ?thesis
    using lineage_inv_parts(1)[OF assms] r
    by (cases "lg_external_parent s") (auto simp: check_root_def root_ok_def run_checks.simps(1))
qed

lemma inv_nodes:
  assumes "lineage_inv s"
  shows "nodes_loop bs_empty (bm_entries (lg_nodes s)) = Inr ()"
proof -
  have entry: "node_of s (fst e) = Some (snd e)" if "e \<in> set (bm_entries (lg_nodes s))" for e
    using that bm_entries_iff[of "fst e" "snd e" "lg_nodes s"] by simp
  have "inj_on nature_of (set (bm_entries (lg_nodes s)))"
  proof (rule inj_onI)
    fix e f assume ef: "e \<in> set (bm_entries (lg_nodes s))" "f \<in> set (bm_entries (lg_nodes s))" "nature_of e = nature_of f"
    have "fst e = fst f"
      using inv_nature_id[OF assms entry[OF ef(1)] entry[OF ef(2)]] ef(3) by (simp add: nature_of_def)
    then show "e = f" using entry[OF ef(1)] entry[OF ef(2)] by (simp add: prod_eq_iff)
  qed
  moreover have "distinct (bm_entries (lg_nodes s))"
    using bm_keys_distinct[of "lg_nodes s"] by (simp add: bm_keys_def distinct_map)
  ultimately show ?thesis
    unfolding nodes_loop_ok using inv_node_ok[OF assms entry] by (simp add: distinct_map)
qed

lemma inv_spawn_record:
  assumes "lineage_inv s" "node_of s i = Some n" "i \<noteq> lg_root_id s"
  obtains r where "find (\<lambda>r. sw_child_id r = i) (lg_spawns s) = Some r" "ln_parent_id n = Some (sw_parent_id r)"
    "na_parent_id (ln_nature n) = Some (sw_parent_nature_id r)"
proof -
  have spawns: "spawns_inv s" using lineage_inv_parts(6)[OF assms(1)] .
  then have "i \<in> sw_child_id ` set (lg_spawns s)" using assms(2,3) by (simp add: spawns_inv_def known_def)
  then have "find (\<lambda>r. sw_child_id r = i) (lg_spawns s) \<noteq> None" by (auto simp: find_None_iff)
  then obtain r where r: "find (\<lambda>r. sw_child_id r = i) (lg_spawns s) = Some r" by blast
  have "r \<in> set (lg_spawns s)" "sw_child_id r = i" using r by (auto simp: find_Some_iff)
  then have "spawn_ok s r" "sw_child_id r = i" using spawns by (simp_all add: spawns_inv_def)
  then show thesis using that[OF r] assms(2) by (simp add: spawn_ok_def)
qed

lemma inv_edges:
  assumes inv: "lineage_inv s" and n: "node_of s i = Some n"
  shows "check_edges s n = Inr ()"
proof -
  note tree = lineage_inv_parts(2)[OF inv]
  have id: "ln_tentacle_id n = i" using inv_node_ok[OF inv n] by (simp add: node_ok_def)
  have child: "check_child_edge s n c = Inr ()" if "c \<in> set (ln_children n)" for c
    using tree_child[OF tree n that] by (auto simp: check_child_edge_def id)
  have "check_parent_edge s n = Inr ()"
  proof (cases "i = lg_root_id s")
    case True
    have "ln_parent_id n = None" using tree_root[OF tree] n True by simp
    moreover have "lg_external_parent s = None \<longrightarrow> na_parent_id (ln_nature n) = None"
      using lineage_inv_parts(1)[OF inv] n True by (auto simp: root_ok_def)
    ultimately show ?thesis by (cases "lg_external_parent s") (simp_all add: check_parent_edge_def id True)
  next
    case False
    obtain p m where p: "ln_parent_id n = Some p" "node_of s p = Some m" "i \<in> set (ln_children m)"
      using tree_parent[OF tree n False] by blast
    have gen: "ln_generation n = Suc (ln_generation m)" using tree_child[OF tree p(2,3)] n by simp
    have edge: "edge_ok s n m" using inv_edge_ok[OF inv n p(1,2)] .
    obtain r where r: "find (\<lambda>r. sw_child_id r = i) (lg_spawns s) = Some r" "sw_parent_id r = p"
      "na_parent_id (ln_nature n) = Some (sw_parent_nature_id r)"
      using inv_spawn_record[OF inv n False] p(1) by auto
    have apart: "p \<noteq> i" using gen p(2) n by auto
    have life: "(case ln_lifecycle m of LC_Active \<Rightarrow> Inr ()
        | LC_Absorbed into at \<Rightarrow> ensure (\<not> ln_spawned_at n > at)
            (EV_Invalid ''child was spawned after its parent was absorbed'')) = Inr ()"
      using edge by (auto simp: edge_ok_def split: lifecycle_status.splits)
    show ?thesis
      using p r gen edge apart life
      by (simp add: check_parent_edge_def id edge_ok_def saturating_add_def run_checks.simps(1))
  qed
  then show ?thesis using child by (simp add: check_edges_def)
qed

lemma inv_count:
  assumes "lineage_inv s"
  shows "length (lg_spawns s) = bm_len (lg_nodes s) - 1"
proof -
  have "lg_root_id s \<in> known s" using tree_root[OF lineage_inv_parts(2)[OF assms]] by (auto simp: known_def)
  moreover have "length (lg_spawns s) = card (known s - {lg_root_id s})"
    using lineage_inv_parts(6)[OF assms] distinct_card[of "map sw_child_id (lg_spawns s)"] by (simp add: spawns_inv_def)
  ultimately show ?thesis by (simp add: card_known)
qed

lemma inv_absorptions:
  assumes "lineage_inv s"
  shows "validate_absorptions s = Inr ()"
proof -
  have "members (bs_of_list (bm_keys (lg_nodes s))) = known s"
    by (auto simp: bm_key_set known_def)
  then have "absorptions_loop s (bs_of_list (bm_keys (lg_nodes s))) 0 bm_empty (lg_absorptions s)
      = Inr (absorbed_map (lg_absorptions s) bm_empty)"
    using absorptions_loop_replay[of s "bs_of_list (bm_keys (lg_nodes s))"] lineage_inv_parts(7)[OF assms] by simp
  moreover have "\<forall>n\<in>set (bm_values (lg_nodes s)). check_absorbed (absorbed_map (lg_absorptions s) bm_empty) n = Inr ()"
    unfolding values_all using lineage_inv_parts(8)[OF assms] by (simp add: lifecycles_inv_def)
  ultimately show ?thesis by (simp add: validate_absorptions_def)
qed

lemma inv_validates:
  assumes "lineage_inv s" "lg_revision s \<le> u64_max"
  shows "validate_lineage_state s = Inr ()"
proof -
  have nonempty: "lg_nodes s \<noteq> bm_empty" using lineage_inv_parts(1)[OF assms(1)] by (auto simp: root_ok_def)
  have "\<forall>n\<in>set (bm_values (lg_nodes s)). check_edges s n = Inr ()"
    unfolding values_all using inv_edges[OF assms(1)] by simp
  then have edges: "run_checks (map (check_edges s) (bm_values (lg_nodes s))) = Inr ()" by simp
  have spawns: "spawns_loop s bs_empty (lg_spawns s) = Inr ()"
    using lineage_inv_parts(6)[OF assms(1)] by (simp add: spawns_loop_ok spawns_inv_def)
  have sum: "lg_revision s = length (lg_spawns s) + length (lg_absorptions s)" using lineage_inv_parts(9)[OF assms(1)] .
  have revision: "(case checked_add u64_max (length (lg_spawns s)) (length (lg_absorptions s)) of
        None \<Rightarrow> Inl (EV_Limit ''revision'')
      | Some expected \<Rightarrow> ensure (lg_revision s = expected) (EV_Invalid ''revision does not match the mutation log''))
      = Inr ()" using assms(2) unfolding sum checked_add_def by simp
  show ?thesis
    unfolding validate_lineage_state_def run_checks_append_ok edges run_checks_Cons_ok revision
    using inv_root[OF assms(1)] inv_nodes[OF assms(1)] check_connected_tree[OF lineage_inv_parts(2)[OF assms(1)]]
      spawns inv_absorptions[OF assms(1)] inv_count[OF assms(1)] nonempty lineage_inv_parts(1)[OF assms(1)]
    by (simp add: root_ok_def run_checks.simps(1))
qed

end
