(* ===== verification/Lineage_Steps.thy ===== *)
theory Lineage_Steps
  imports Lineage_Invariant
begin

section \<open>Lineage: the operations keep the invariant\<close>

lemma last_at_chronological: "\<not> not_chronological s at \<longleftrightarrow> last_at 0 (lg_absorptions s) \<le> at"
  by (auto simp: not_chronological_def last_at_def)

subsection \<open>Founding\<close>

lemma lone_inv:
  assumes node: "\<And>j. node_of s j = (if j = i then Some n else None)"
    and state: "lg_root_id s = i" "lg_spawns s = []" "lg_absorptions s = []" "lg_schema_version s = LINEAGE_SCHEMA_VERSION"
      "lg_revision s = 0"
    and n: "ln_tentacle_id n = i" "ln_parent_id n = None" "ln_children n = []" "ln_lifecycle n = LC_Active"
      "na_generation (ln_nature n) = ln_generation n" "validate_nature (ln_nature n) = Inr ()" "id_text i"
    and external: "case lg_external_parent s of None \<Rightarrow> ln_generation n = 0 \<and> na_parent_id (ln_nature n) = None
      | Some p \<Rightarrow> id_text p \<and> p \<noteq> i \<and> ln_generation n \<noteq> 0 \<and> na_parent_id (ln_nature n) \<noteq> None"
  shows "lineage_inv s"
proof -
  have known: "known s = {i}" by (auto simp: known_def node)
  have root: "root_ok s"
    using external by (cases "lg_external_parent s") (simp_all add: root_ok_def state node n)
  have tree: "tree_inv s" by (simp add: tree_inv_def node state n)
  have nodes: "nodes_inv s" by (simp add: nodes_inv_def node node_ok_def n)
  have apart: "natures_apart s" by (auto simp: natures_apart_def node split: if_splits)
  have edges: "edges_inv s" by (auto simp: edges_inv_def node n split: if_splits)
  have lives: "lifecycles_inv s" by (auto simp: lifecycles_inv_def node n state check_absorbed_def split: if_splits)
  show ?thesis
    unfolding lineage_inv_def using root tree nodes apart edges lives by (simp add: spawns_inv_def state known)
qed

lemma rooted_inv:
  assumes "id_text i" "validate_nature nature = Inr ()" "na_generation nature = generation"
    "case external of None \<Rightarrow> generation = 0 \<and> na_parent_id nature = None
     | Some p \<Rightarrow> id_text p \<and> p \<noteq> i \<and> generation \<noteq> 0 \<and> na_parent_id nature \<noteq> None"
  shows "lineage_inv (rooted_state i external (founder_node i nature generation at))"
  by (rule lone_inv[where i = i and n = "founder_node i nature generation at"])
    (use assms in \<open>cases external; simp add: rooted_state_def founder_node_def\<close>)+

lemma Lineage_new_inv: "Lineage_new founder nature at = Inr s \<Longrightarrow> lineage_inv s"
  by (auto simp: Lineage_new_def run_checks.simps(1) intro!: rooted_inv)

lemma Lineage_new_child_root_inv: "Lineage_new_child_root i external nature at = Inr s \<Longrightarrow> lineage_inv s"
  by (auto simp: Lineage_new_child_root_def run_checks.simps(1) intro!: rooted_inv)

subsection \<open>Changes that keep the shape\<close>

definition same_shape :: "lineage_node \<Rightarrow> lineage_node \<Rightarrow> bool" where
  "same_shape n n' \<longleftrightarrow>
     ln_tentacle_id n' = ln_tentacle_id n \<and> ln_parent_id n' = ln_parent_id n \<and> ln_generation n' = ln_generation n
     \<and> ln_children n' = ln_children n \<and> ln_spawned_at n' = ln_spawned_at n"

text \<open>\<open>s'\<close> is \<open>s\<close> with the node of \<open>k\<close> replaced by one of the same shape.\<close>

definition replaces :: "lineage_state \<Rightarrow> string \<Rightarrow> lineage_node \<Rightarrow> lineage_node \<Rightarrow> lineage_state \<Rightarrow> bool" where
  "replaces s k n n' s' \<longleftrightarrow>
     node_of s k = Some n \<and> same_shape n n' \<and> lg_nodes s' = bm_insert k n' (lg_nodes s)
     \<and> lg_root_id s' = lg_root_id s \<and> lg_external_parent s' = lg_external_parent s
     \<and> lg_schema_version s' = lg_schema_version s \<and> lg_spawns s' = lg_spawns s"

lemma replaces_node:
  assumes "replaces s k n n' s'"
  shows "node_of s' i = (if i = k then Some n' else node_of s i)"
  using assms by (simp add: replaces_def)

lemma replaces_back:
  assumes "replaces s k n n' s'" "node_of s' i = Some m'"
  obtains m where "node_of s i = Some m" "same_shape m m'" "i \<noteq> k \<Longrightarrow> m' = m" "i = k \<Longrightarrow> m = n \<and> m' = n'"
  using assms by (auto simp: replaces_def same_shape_def split: if_splits)

lemma replaces_known: "replaces s k n n' s' \<Longrightarrow> known s' = known s"
  by (auto simp: replaces_def known_def)

lemma replaces_forth:
  assumes "replaces s k n n' s'" "node_of s i = Some m"
  obtains m' where "node_of s' i = Some m'" "same_shape m m'"
  using assms by (cases "i = k") (auto simp: replaces_def same_shape_def)

lemma replaces_tree:
  assumes r: "replaces s k n n' s'" and t: "tree_inv s"
  shows "tree_inv s'"
proof -
  have root_id: "lg_root_id s' = lg_root_id s" using r by (simp add: replaces_def)
  have ids: "ln_tentacle_id m' = i" if m': "node_of s' i = Some m'" for i m'
  proof -
    obtain m where "node_of s i = Some m" "same_shape m m'" using replaces_back[OF r m'] by blast
    then show ?thesis using t by (simp add: tree_inv_def same_shape_def)
  qed
  moreover have "\<exists>q. node_of s' (lg_root_id s') = Some q \<and> ln_parent_id q = None"
  proof -
    obtain q where q: "node_of s (lg_root_id s) = Some q" "ln_parent_id q = None" using tree_root[OF t] by blast
    then show ?thesis using replaces_forth[OF r q(1)] by (auto simp: root_id same_shape_def)
  qed
  moreover have "\<exists>p q. ln_parent_id m' = Some p \<and> node_of s' p = Some q \<and> i \<in> set (ln_children q)"
    if m': "node_of s' i = Some m'" and i: "i \<noteq> lg_root_id s'" for i m'
  proof -
    obtain m where m: "node_of s i = Some m" "same_shape m m'" using replaces_back[OF r m'] by blast
    then obtain p q where p: "ln_parent_id m = Some p" "node_of s p = Some q" "i \<in> set (ln_children q)"
      using tree_parent[OF t m(1)] i by (auto simp: root_id)
    obtain q' where "node_of s' p = Some q'" "same_shape q q'" using replaces_forth[OF r p(2)] by blast
    then show ?thesis using m(2) p by (auto simp: same_shape_def)
  qed
  moreover have "\<exists>q. node_of s' c = Some q \<and> ln_parent_id q = Some i \<and> ln_generation q = Suc (ln_generation m')"
    if m': "node_of s' i = Some m'" and c: "c \<in> set (ln_children m')" for i m' c
  proof -
    obtain m where m: "node_of s i = Some m" "same_shape m m'" using replaces_back[OF r m'] by blast
    then obtain q where q: "node_of s c = Some q" "ln_parent_id q = Some i" "ln_generation q = Suc (ln_generation m)"
      using tree_child[OF t m(1)] c by (auto simp: same_shape_def)
    obtain q' where "node_of s' c = Some q'" "same_shape q q'" using replaces_forth[OF r q(1)] by blast
    then show ?thesis using m(2) q by (auto simp: same_shape_def)
  qed
  ultimately show ?thesis unfolding tree_inv_def by blast
qed

lemma replaces_record:
  assumes r: "replaces s k n n' s'"
  shows "record_ok s' x = record_ok s x"
proof -
  have spawned: "(\<exists>m. node_of s' i = Some m \<and> ln_spawned_at m \<le> at) \<longleftrightarrow> (\<exists>m. node_of s i = Some m \<and> ln_spawned_at m \<le> at)" for i at
    using r by (auto simp: replaces_def same_shape_def)
  have target: "(case node_of s' i of None \<Rightarrow> P | Some m \<Rightarrow> ln_spawned_at m \<le> at) =
      (case node_of s i of None \<Rightarrow> P | Some m \<Rightarrow> ln_spawned_at m \<le> at)" for i P at
    using r by (auto simp: replaces_def same_shape_def)
  have "lg_root_id s' = lg_root_id s" "lg_external_parent s' = lg_external_parent s" using r by (simp_all add: replaces_def)
  then show ?thesis unfolding record_ok_def spawned target by (simp only:)
qed

lemma replaces_replay:
  assumes r: "replaces s k n n' s'" and ok: "replay_ok s active previous rs"
  shows "replay_ok s' active previous rs"
proof (rule replay_ok_mono[OF _ _ subset_refl ok])
  fix x assume "record_ok s x" then show "record_ok s' x" by (simp only: replaces_record[OF r])
next
  fix x assume "node_of s' (ab_target_id x) \<noteq> None"
  then show "node_of s (ab_target_id x) \<noteq> None" using replaces_back[OF r] by blast
qed

lemma same_shape_upd [simp]:
  "same_shape n (n\<lparr>ln_nature := x\<rparr>)" "same_shape n (n\<lparr>ln_lifecycle := y\<rparr>)"
  by (simp_all add: same_shape_def)

text \<open>What a replacement has to bring along for the invariant to hold after it.\<close>

lemma replaces_inv:
  assumes inv: "lineage_inv s" and r: "replaces s k n n' s'"
    and ok: "node_ok k n'"
    and root: "k = lg_root_id s \<Longrightarrow> (case lg_external_parent s of
        None \<Rightarrow> na_parent_id (ln_nature n') = None | Some p \<Rightarrow> na_parent_id (ln_nature n') \<noteq> None)"
    and fresh: "\<And>j m. node_of s j = Some m \<Longrightarrow> na_id (ln_nature m) = na_id (ln_nature n') \<Longrightarrow> j = k"
    and nature: "ln_nature n' = ln_nature n \<or> k = lg_root_id s"
    and children: "\<And>c m. node_of s c = Some m \<Longrightarrow> ln_parent_id m = Some k \<Longrightarrow>
        (case ln_lifecycle n' of LC_Active \<Rightarrow> True | LC_Absorbed into at \<Rightarrow> ln_spawned_at m \<le> at)"
    and replay: "replay_ok s (known s) 0 (lg_absorptions s')"
    and lives: "lifecycles_inv s'"
    and revision: "lg_revision s' = length (lg_spawns s) + length (lg_absorptions s')"
  shows "lineage_inv s'"
proof -
  have state: "lg_root_id s' = lg_root_id s" "lg_external_parent s' = lg_external_parent s" "lg_spawns s' = lg_spawns s"
    "lg_schema_version s' = lg_schema_version s" "known s' = known s"
    using r replaces_known[OF r] by (simp_all add: replaces_def)
  have shape: "same_shape n n'" and k: "node_of s k = Some n" using r by (simp_all add: replaces_def)
  have node: "node_of s' i = (if i = k then Some n' else node_of s i)" for i using replaces_node[OF r] .
  have root_inv: "root_ok s'"
    using lineage_inv_parts(1)[OF inv] root shape k
    by (cases "lg_external_parent s") (auto simp: root_ok_def state node same_shape_def)
  have nodes: "nodes_inv s'"
    using ok inv_node_ok[OF inv] by (simp add: nodes_inv_def node)
  have apart: "natures_apart s'"
    unfolding natures_apart_def node using fresh inv_nature_id[OF inv] by (metis option.inject)
  have edges: "edges_inv s'"
    unfolding edges_inv_def
  proof (intro allI impI)
    fix i m' p q' assume m': "node_of s' i = Some m'" and p: "ln_parent_id m' = Some p" and q': "node_of s' p = Some q'"
    obtain m where m: "node_of s i = Some m" "same_shape m m'" using replaces_back[OF r m'] by blast
    obtain q where q: "node_of s p = Some q" "same_shape q q'" using replaces_back[OF r q'] by blast
    have parent: "ln_parent_id m = Some p" using m(2) p by (simp add: same_shape_def)
    have "edge_ok s m q" using inv_edge_ok[OF inv m(1) parent q(1)] .
    moreover have "(case ln_lifecycle q' of LC_Active \<Rightarrow> True | LC_Absorbed into at \<Rightarrow> ln_spawned_at m \<le> at)"
    proof (cases "p = k")
      case True
      then show ?thesis using children[OF m(1)] parent q' by (simp add: node)
    next
      case False
      then have "q' = q" using q' q(1) by (simp add: node)
      then show ?thesis using \<open>edge_ok s m q\<close> by (simp add: edge_ok_def)
    qed
    ultimately show "edge_ok s' m' q'"
      using m(2) q(2) by (cases "ln_lifecycle q'") (auto simp: edge_ok_def same_shape_def)
  qed
  have spawn: "spawn_ok s' x" if "spawn_ok s x" for x
  proof (cases "sw_child_id x = k")
    case True
    then have "k \<noteq> lg_root_id s" using that by (simp add: spawn_ok_def)
    then have "ln_nature n' = ln_nature n" using nature by blast
    then show ?thesis using that shape k True by (simp add: spawn_ok_def state node same_shape_def)
  next
    case False
    then show ?thesis using that by (simp add: spawn_ok_def state node)
  qed
  have spawns: "spawns_inv s'"
    using lineage_inv_parts(6)[OF inv] spawn by (simp add: spawns_inv_def state)
  show ?thesis
    unfolding lineage_inv_def state
    using root_inv replaces_tree[OF r lineage_inv_parts(2)[OF inv]] nodes apart edges spawns
      replaces_replay[OF r replay] lives revision by simp
qed

lemma check_absorbed_same:
  "ln_lifecycle n' = ln_lifecycle n \<Longrightarrow> ln_tentacle_id n' = ln_tentacle_id n \<Longrightarrow> check_absorbed m n' = check_absorbed m n"
  by (simp add: check_absorbed_def)

subsection \<open>Rerolling the root\<close>

lemma update_root_nature_inv:
  assumes inv: "lineage_inv s" and step: "update_root_nature s a c nature = Inr s'"
  shows "lineage_inv s'"
proof -
  obtain root where root: "node_of s a = Some root" "a = lg_root_id s" "validate_nature nature = Inr ()"
    "lg_external_parent s = None \<Longrightarrow> na_generation nature = 0 \<and> na_parent_id nature = None"
    "lg_external_parent s \<noteq> None \<Longrightarrow> na_generation nature = ln_generation root \<and> na_parent_id nature \<noteq> None"
    and fresh: "\<not> list_ex (\<lambda>(i, node). i \<noteq> a \<and> na_id (ln_nature node) = na_id nature) (bm_entries (lg_nodes s))"
    and s': "s' = s\<lparr>lg_nodes := bm_insert a (root\<lparr>ln_nature := nature\<rparr>) (lg_nodes s)\<rparr>"
    using step by (auto simp: update_root_nature_def run_checks.simps(1))
  have r: "replaces s a root (root\<lparr>ln_nature := nature\<rparr>) s'" using root by (simp add: replaces_def s')
  have generation: "na_generation nature = ln_generation root"
    using root lineage_inv_parts(1)[OF inv] by (cases "lg_external_parent s") (auto simp: root_ok_def)
  show ?thesis
  proof (rule replaces_inv[OF inv r])
    show "node_ok a (root\<lparr>ln_nature := nature\<rparr>)"
      using inv_node_ok[OF inv root(1)] root(3) generation by (cases "ln_lifecycle root") (simp_all add: node_ok_def)
    show "j = a" if "node_of s j = Some m" "na_id (ln_nature m) = na_id (ln_nature (root\<lparr>ln_nature := nature\<rparr>))" for j m
      using fresh that by (fastforce simp: list_ex_iff bm_entries_iff)
    show "case ln_lifecycle (root\<lparr>ln_nature := nature\<rparr>) of LC_Active \<Rightarrow> True | LC_Absorbed into at \<Rightarrow> ln_spawned_at m \<le> at"
      if "node_of s c = Some m" "ln_parent_id m = Some a" for c m
      using inv_edge_ok[OF inv that root(1)] by (simp add: edge_ok_def)
    show "lifecycles_inv s'"
      using lineage_inv_parts(8)[OF inv] root(1) check_absorbed_same[of "root\<lparr>ln_nature := nature\<rparr>" root]
      by (simp add: lifecycles_inv_def s')
    show "replay_ok s (known s) 0 (lg_absorptions s')" using lineage_inv_parts(7)[OF inv] by (simp add: s')
    show "lg_revision s' = length (lg_spawns s) + length (lg_absorptions s')"
      using lineage_inv_parts(9)[OF inv] by (simp add: s')
  qed (use root in \<open>auto split: option.splits\<close>)
qed

subsection \<open>Absorbing\<close>

lemma active_source:
  assumes "lineage_inv s" "node_of s i = Some n" "ln_lifecycle n = LC_Active"
  shows "i \<notin> sources (lg_absorptions s)"
proof -
  have "check_absorbed (absorbed_map (lg_absorptions s) bm_empty) n = Inr ()" "ln_tentacle_id n = i"
    using lineage_inv_parts(8)[OF assms(1)] inv_node_ok[OF assms(1,2)] assms(2)
    by (simp_all add: lifecycles_inv_def node_ok_def)
  then have "bm_get (absorbed_map (lg_absorptions s) bm_empty) i = None"
    using assms(3) by (auto simp: check_absorbed_def split: option.splits)
  then show ?thesis by (simp add: absorbed_map_get)
qed

lemma spawned_after_children:
  assumes inv: "lineage_inv s" and n: "node_of s k = Some n" and before: "\<not> spawned_after s n at"
    and c: "node_of s c = Some m" "ln_parent_id m = Some k"
  shows "ln_spawned_at m \<le> at"
proof -
  have tree: "tree_inv s" using lineage_inv_parts(2)[OF inv] .
  have "c \<noteq> lg_root_id s" using tree_root[OF tree] c by auto
  then have "c \<in> set (ln_children n)" using tree_parent[OF tree c(1)] c(2) n by auto
  then show ?thesis using before c(1) by (auto simp: spawned_after_def list_ex_iff)
qed

lemma absorb_into_inv:
  assumes inv: "lineage_inv s" and n: "node_of s (ab_source_id r) = Some n" "ln_lifecycle n = LC_Active"
    and r: "record_ok s r" "\<not> not_chronological s (ab_at r)" "\<not> spawned_after s n (ab_at r)"
    and target: "\<And>m. node_of s (ab_target_id r) = Some m \<Longrightarrow> ln_lifecycle m = LC_Active"
    and room: "lg_revision s < u64_max"
  shows "lineage_inv (snd (absorb_into s n r))"
proof -
  let ?k = "ab_source_id r"
  let ?n = "n\<lparr>ln_lifecycle := LC_Absorbed (ab_target_id r) (ab_at r)\<rparr>"
  let ?s = "s\<lparr>lg_nodes := bm_insert ?k ?n (lg_nodes s), lg_absorptions := lg_absorptions s @ [r],
              lg_revision := lg_revision s + 1\<rparr>"
  have snd: "snd (absorb_into s n r) = ?s" using room by (simp add: absorb_into_def Let_def checked_add_def)
  have rep: "replaces s ?k n ?n ?s" using n by (simp add: replaces_def)
  have spawned: "ln_spawned_at n \<le> ab_at r" using r(1) n by (simp add: record_ok_def)
  show ?thesis
    unfolding snd
  proof (rule replaces_inv[OF inv rep])
    show "node_ok ?k ?n" using inv_node_ok[OF inv n(1)] r(1) spawned by (simp add: node_ok_def record_ok_def)
    show "case lg_external_parent s of None \<Rightarrow> na_parent_id (ln_nature ?n) = None
        | Some p \<Rightarrow> na_parent_id (ln_nature ?n) \<noteq> None" if "?k = lg_root_id s"
      using lineage_inv_parts(1)[OF inv] n(1) that by (cases "lg_external_parent s") (auto simp: root_ok_def)
    show "j = ?k" if "node_of s j = Some m" "na_id (ln_nature m) = na_id (ln_nature ?n)" for j m
      using inv_nature_id[OF inv that(1) n(1)] that(2) by simp
    show "case ln_lifecycle ?n of LC_Active \<Rightarrow> True | LC_Absorbed into at \<Rightarrow> ln_spawned_at m \<le> at"
      if "node_of s c = Some m" "ln_parent_id m = Some ?k" for c m
      using spawned_after_children[OF inv n(1) r(3) that] by simp
    show "replay_ok s (known s) 0 (lg_absorptions ?s)"
      using lineage_inv_parts(7)[OF inv] r(1,2) active_source[OF inv n] active_source[OF inv _ target] n(1)
      by (auto simp: replay_ok_snoc last_at_chronological known_def)
    show "lifecycles_inv ?s"
      using lineage_inv_parts(8)[OF inv] inv_node_ok[OF inv]
      by (auto simp: lifecycles_inv_def check_absorbed_def node_ok_def n split: lifecycle_status.splits)
    show "lg_revision ?s = length (lg_spawns s) + length (lg_absorptions ?s)"
      using lineage_inv_parts(9)[OF inv] by simp
  qed simp
qed

lemma record_absorption_inv:
  assumes inv: "lineage_inv s" and room: "lg_revision s < u64_max"
  shows "lineage_inv (snd (record_absorption s a c source_id at hashes confirmed))"
proof (cases "absorption_checks s a c source_id at hashes")
  case (Inr source)
  then obtain target where t: "node_of s a = Some target" "ln_lifecycle target = LC_Active" "ln_spawned_at target \<le> at"
    and n: "node_of s source_id = Some source" "ln_lifecycle source = LC_Active" "ln_spawned_at source \<le> at"
    and ok: "id_text a" "id_text source_id" "a \<noteq> source_id" "validate_hashes hashes = Inr ()"
      "\<not> not_chronological s at" "\<not> spawned_after s source at"
    by (auto simp: absorption_checks_def run_checks.simps(1))
  show ?thesis
    unfolding record_absorption_def Inr sum.case
    by (rule absorb_into_inv[OF inv]) (use t n ok room in \<open>auto simp: record_ok_def\<close>)
qed (simp add: record_absorption_def inv)

lemma record_external_inv:
  assumes inv: "lineage_inv s" and room: "lg_revision s < u64_max"
  shows "lineage_inv (snd (record_external_parent_absorption s source_id target_id at hashes))"
proof (cases "external_checks s source_id target_id at hashes")
  case (Inr source)
  then have n: "node_of s source_id = Some source" "ln_lifecycle source = LC_Active" "ln_spawned_at source \<le> at"
    and ok: "id_text target_id" "id_text source_id" "validate_hashes hashes = Inr ()"
      "\<not> not_chronological s at" "\<not> spawned_after s source at"
      "source_id = lg_root_id s" "lg_external_parent s = Some target_id"
    by (auto simp: external_checks_def run_checks.simps(1))
  have none: "node_of s target_id = None" "target_id \<noteq> source_id"
    using lineage_inv_parts(1)[OF inv] ok(6,7) n(1) by (auto simp: root_ok_def)
  show ?thesis
    unfolding record_external_parent_absorption_def Inr sum.case
    by (rule absorb_into_inv[OF inv]) (use n ok none room in \<open>auto simp: record_ok_def\<close>)
qed (simp add: record_external_parent_absorption_def inv)

subsection \<open>Spawning\<close>

text \<open>\<open>s'\<close> is \<open>s\<close> with the active child \<open>c\<close> of \<open>a\<close> added.\<close>

definition adds_child :: "lineage_state \<Rightarrow> string \<Rightarrow> lineage_node \<Rightarrow> string \<Rightarrow> lineage_node \<Rightarrow> lineage_state \<Rightarrow> bool" where
  "adds_child s a pn c nd s' \<longleftrightarrow>
     node_of s a = Some pn \<and> node_of s c = None \<and> id_text c \<and> ln_lifecycle pn = LC_Active
     \<and> ln_tentacle_id nd = c \<and> ln_parent_id nd = Some a \<and> ln_generation nd = Suc (ln_generation pn)
     \<and> ln_generation nd \<le> u64_max \<and> ln_children nd = [] \<and> ln_lifecycle nd = LC_Active
     \<and> ln_spawned_at pn \<le> ln_spawned_at nd \<and> validate_nature (ln_nature nd) = Inr ()
     \<and> na_generation (ln_nature nd) = ln_generation nd \<and> na_parent_id (ln_nature nd) = Some (na_id (ln_nature pn))
     \<and> (\<forall>j m. node_of s j = Some m \<longrightarrow> na_id (ln_nature m) \<noteq> na_id (ln_nature nd))
     \<and> lg_nodes s' = bm_insert c nd (bm_insert a (pn\<lparr>ln_children := ln_children pn @ [c]\<rparr>) (lg_nodes s))
     \<and> lg_root_id s' = lg_root_id s \<and> lg_external_parent s' = lg_external_parent s
     \<and> lg_schema_version s' = lg_schema_version s \<and> lg_absorptions s' = lg_absorptions s
     \<and> (\<exists>r. lg_spawns s' = lg_spawns s @ [r] \<and> spawn_ok s' r \<and> sw_child_id r = c)
     \<and> lg_revision s' = Suc (lg_revision s)"

definition extends_node :: "lineage_state \<Rightarrow> string \<Rightarrow> lineage_node \<Rightarrow> lineage_node \<Rightarrow> bool" where
  "extends_node s c m m' \<longleftrightarrow>
     ln_tentacle_id m' = ln_tentacle_id m \<and> ln_parent_id m' = ln_parent_id m \<and> ln_generation m' = ln_generation m
     \<and> ln_nature m' = ln_nature m \<and> ln_spawned_at m' = ln_spawned_at m \<and> ln_lifecycle m' = ln_lifecycle m
     \<and> set (ln_children m) \<subseteq> set (ln_children m') \<and> set (ln_children m') \<subseteq> insert c (set (ln_children m))"

lemma adds_node:
  assumes "adds_child s a pn c nd s'"
  shows "node_of s' i = (if i = c then Some nd
           else if i = a then Some (pn\<lparr>ln_children := ln_children pn @ [c]\<rparr>) else node_of s i)"
  using assms by (simp add: adds_child_def)

lemma adds_back:
  assumes "adds_child s a pn c nd s'" "node_of s' i = Some m'" "i \<noteq> c"
  obtains m where "node_of s i = Some m" "extends_node s c m m'" "c \<in> set (ln_children m') \<longrightarrow> i = a \<or> c \<in> set (ln_children m)"
proof (cases "i = a")
  case True
  then show ?thesis using that[of pn] assms by (auto simp: adds_child_def extends_node_def subset_insertI)
next
  case False
  then show ?thesis using that[of m'] assms by (auto simp: adds_child_def extends_node_def subset_insertI)
qed

lemma adds_forth:
  assumes "adds_child s a pn c nd s'" "node_of s i = Some m"
  obtains m' where "node_of s' i = Some m'" "extends_node s c m m'" "i \<noteq> c"
proof -
  have ic: "i \<noteq> c" using assms by (auto simp: adds_child_def)
  show ?thesis
  proof (cases "i = a")
    case True
    then show ?thesis
      using that[of "pn\<lparr>ln_children := ln_children pn @ [c]\<rparr>"] assms ic
      by (auto simp: adds_child_def extends_node_def subset_insertI)
  next
    case False
    then show ?thesis using that[of m] assms ic by (auto simp: adds_child_def extends_node_def subset_insertI)
  qed
qed

lemma adds_known: "adds_child s a pn c nd s' \<Longrightarrow> known s' = insert c (known s)"
  by (auto simp: adds_child_def known_def)

lemma adds_tree:
  assumes r: "adds_child s a pn c nd s'" and t: "tree_inv s"
  shows "tree_inv s'"
proof -
  have state: "lg_root_id s' = lg_root_id s" and new: "node_of s' c = Some nd" "ln_tentacle_id nd = c" "ln_parent_id nd = Some a"
    "ln_children nd = []" "ln_generation nd = Suc (ln_generation pn)" "node_of s c = None" and pn: "node_of s a = Some pn"
    using r adds_node[OF r, of c] by (simp_all add: adds_child_def)
  have ids: "ln_tentacle_id m' = i" if m': "node_of s' i = Some m'" for i m'
  proof (cases "i = c")
    case False
    obtain m where "node_of s i = Some m" "extends_node s c m m'" using adds_back[OF r m' False] by blast
    then show ?thesis using t by (simp add: tree_inv_def extends_node_def)
  qed (use new m' in simp)
  moreover have "\<exists>q. node_of s' (lg_root_id s') = Some q \<and> ln_parent_id q = None"
  proof -
    obtain q where q: "node_of s (lg_root_id s) = Some q" "ln_parent_id q = None" using tree_root[OF t] by blast
    obtain q' where "node_of s' (lg_root_id s) = Some q'" "extends_node s c q q'" using adds_forth[OF r q(1)] by blast
    then show ?thesis using q(2) by (simp add: state extends_node_def)
  qed
  moreover have "\<exists>p q. ln_parent_id m' = Some p \<and> node_of s' p = Some q \<and> i \<in> set (ln_children q)"
    if m': "node_of s' i = Some m'" and i: "i \<noteq> lg_root_id s'" for i m'
  proof (cases "i = c")
    case True
    then show ?thesis using m' new r adds_node[OF r, of a] pn by (auto simp: adds_child_def)
  next
    case False
    obtain m where m: "node_of s i = Some m" "extends_node s c m m'" using adds_back[OF r m' False] by blast
    then obtain p q where p: "ln_parent_id m = Some p" "node_of s p = Some q" "i \<in> set (ln_children q)"
      using tree_parent[OF t m(1)] i by (auto simp: state)
    obtain q' where q': "node_of s' p = Some q'" "extends_node s c q q'" using adds_forth[OF r p(2)] by blast
    then have "i \<in> set (ln_children q')" using p(3) unfolding extends_node_def by blast
    then show ?thesis using m(2) p(1) q'(1) by (simp add: extends_node_def)
  qed
  moreover have "\<exists>q. node_of s' d = Some q \<and> ln_parent_id q = Some i \<and> ln_generation q = Suc (ln_generation m')"
    if m': "node_of s' i = Some m'" and d: "d \<in> set (ln_children m')" for i m' d
  proof -
    have i: "i \<noteq> c" using m' d new by auto
    obtain m where m: "node_of s i = Some m" "extends_node s c m m'"
      "c \<in> set (ln_children m') \<longrightarrow> i = a \<or> c \<in> set (ln_children m)" using adds_back[OF r m' i] by blast
    show ?thesis
    proof (cases "d \<in> set (ln_children m)")
      case True
      obtain q where q: "node_of s d = Some q" "ln_parent_id q = Some i" "ln_generation q = Suc (ln_generation m)"
        using tree_child[OF t m(1) True] by blast
      obtain q' where "node_of s' d = Some q'" "extends_node s c q q'" using adds_forth[OF r q(1)] by blast
      then show ?thesis using m(2) q by (simp add: extends_node_def)
    next
      case False
      then have "d = c" using d m(2) unfolding extends_node_def by blast
      then have "i = a" using m(3) d False by blast
      then show ?thesis using new m pn \<open>d = c\<close> by (simp add: extends_node_def)
    qed
  qed
  ultimately show ?thesis unfolding tree_inv_def by blast
qed

lemma adds_record:
  assumes r: "adds_child s a pn c nd s'" and external: "lg_external_parent s \<noteq> Some c" and ok: "record_ok s x"
  shows "record_ok s' x" "node_of s' (ab_target_id x) \<noteq> None \<Longrightarrow> node_of s (ab_target_id x) \<noteq> None"
proof -
  have state: "lg_root_id s' = lg_root_id s" "lg_external_parent s' = lg_external_parent s"
    using r by (simp_all add: adds_child_def)
  obtain n where n: "node_of s (ab_source_id x) = Some n" "ln_spawned_at n \<le> ab_at x"
    using ok by (auto simp: record_ok_def)
  obtain n' where n': "node_of s' (ab_source_id x) = Some n'" "ln_spawned_at n' \<le> ab_at x"
    using adds_forth[OF r n(1)] n(2) by (metis extends_node_def)
  have target: "case node_of s' (ab_target_id x) of
      None \<Rightarrow> ab_source_id x = lg_root_id s \<and> lg_external_parent s = Some (ab_target_id x)
    | Some m \<Rightarrow> ln_spawned_at m \<le> ab_at x"
    and none: "node_of s (ab_target_id x) = None \<Longrightarrow> node_of s' (ab_target_id x) = None"
  proof -
    show none: "node_of s (ab_target_id x) = None \<Longrightarrow> node_of s' (ab_target_id x) = None"
      using ok external r by (auto simp: record_ok_def adds_child_def)
    show "case node_of s' (ab_target_id x) of
      None \<Rightarrow> ab_source_id x = lg_root_id s \<and> lg_external_parent s = Some (ab_target_id x)
    | Some m \<Rightarrow> ln_spawned_at m \<le> ab_at x"
    proof (cases "node_of s (ab_target_id x)")
      case None
      then show ?thesis using none ok by (simp add: record_ok_def)
    next
      case (Some m)
      obtain m' where "node_of s' (ab_target_id x) = Some m'" "extends_node s c m m'" using adds_forth[OF r Some] by blast
      then show ?thesis using ok Some by (simp add: record_ok_def extends_node_def)
    qed
  qed
  show "record_ok s' x" unfolding record_ok_def state using ok n' target by (simp add: record_ok_def)
  show "node_of s (ab_target_id x) \<noteq> None" if "node_of s' (ab_target_id x) \<noteq> None" using none that by blast
qed

lemma adds_inv:
  assumes inv: "lineage_inv s" and r: "adds_child s a pn c nd s'" and external: "lg_external_parent s \<noteq> Some c"
  shows "lineage_inv s'"
proof -
  have state: "lg_root_id s' = lg_root_id s" "lg_external_parent s' = lg_external_parent s"
    "lg_schema_version s' = lg_schema_version s" "lg_absorptions s' = lg_absorptions s" "lg_revision s' = Suc (lg_revision s)"
    and nd: "ln_tentacle_id nd = c" "ln_lifecycle nd = LC_Active" "ln_children nd = []" "id_text c" "node_of s c = None"
      "ln_parent_id nd = Some a" "ln_generation nd \<le> u64_max" "ln_spawned_at pn \<le> ln_spawned_at nd"
      "validate_nature (ln_nature nd) = Inr ()" "na_generation (ln_nature nd) = ln_generation nd"
    and pn: "node_of s a = Some pn" "ln_lifecycle pn = LC_Active"
    and apart: "\<And>j m. node_of s j = Some m \<Longrightarrow> na_id (ln_nature m) \<noteq> na_id (ln_nature nd)"
    using r by (simp_all add: adds_child_def)
  have new: "node_of s' c = Some nd" using adds_node[OF r, of c] by simp
  obtain x where x: "lg_spawns s' = lg_spawns s @ [x]" "spawn_ok s' x" "sw_child_id x = c"
    using r by (auto simp: adds_child_def)
  have "root_ok s'"
  proof -
    obtain q where q: "node_of s (lg_root_id s) = Some q" using tree_root[OF lineage_inv_parts(2)[OF inv]] by blast
    obtain q' where q': "node_of s' (lg_root_id s) = Some q'" "extends_node s c q q'" using adds_forth[OF r q] by blast
    have "node_of s' p = None" if "lg_external_parent s = Some p" for p
    proof -
      have "node_of s p = None" using lineage_inv_parts(1)[OF inv] q that by (simp add: root_ok_def)
      then show ?thesis using adds_node[OF r, of p] external that pn(1) by auto
    qed
    then show ?thesis
      using lineage_inv_parts(1)[OF inv] q q'
      by (cases "lg_external_parent s") (simp_all add: root_ok_def state extends_node_def)
  qed
  moreover have "nodes_inv s'"
    unfolding nodes_inv_def
  proof (intro allI impI)
    fix i m' assume m': "node_of s' i = Some m'"
    show "node_ok i m'"
    proof (cases "i = c")
      case True
      then show ?thesis using m' new nd by (simp add: node_ok_def)
    next
      case ic: False
      show ?thesis
      proof (cases "i = a")
        case True
        have "c \<notin> set (ln_children pn)"
          using tree_child[OF lineage_inv_parts(2)[OF inv] pn(1)] nd(5) by fastforce
        then show ?thesis
          using True ic m' inv_node_ok[OF inv pn(1)] nd(4) pn(2) by (auto simp: adds_node[OF r] node_ok_def)
      next
        case False
        then show ?thesis using ic m' inv_node_ok[OF inv] by (simp add: adds_node[OF r])
      qed
    qed
  qed
  moreover have "natures_apart s'"
    unfolding natures_apart_def
  proof (intro allI impI)
    fix i j n' m' assume n': "node_of s' i = Some n'" and m': "node_of s' j = Some m'"
      and same: "na_id (ln_nature n') = na_id (ln_nature m')"
    have old: "\<exists>k. node_of s h = Some k \<and> ln_nature k = ln_nature k'" if k': "node_of s' h = Some k'" "h \<noteq> c" for h k'
      using adds_back[OF r k'] by (metis extends_node_def)
    show "i = j"
    proof (cases "i = c"; cases "j = c")
      assume "i = c" "j \<noteq> c"
      then show ?thesis using old[OF m'] n' new same apart by fastforce
    next
      assume "i \<noteq> c" "j = c"
      then show ?thesis using old[OF n'] m' new same apart by fastforce
    next
      assume "i \<noteq> c" "j \<noteq> c"
      then obtain n m where "node_of s i = Some n" "ln_nature n = ln_nature n'" "node_of s j = Some m" "ln_nature m = ln_nature m'"
        using old[OF n'] old[OF m'] by blast
      then show ?thesis using inv_nature_id[OF inv] same by metis
    qed simp
  qed
  moreover have "edges_inv s'"
    unfolding edges_inv_def
  proof (intro allI impI)
    fix i m' p q' assume m': "node_of s' i = Some m'" and p: "ln_parent_id m' = Some p" and q': "node_of s' p = Some q'"
    show "edge_ok s' m' q'"
    proof (cases "i = c")
      case True
      then have "m' = nd" "p = a" using m' new p nd(6) by auto
      moreover obtain q where "q' = q" "ln_spawned_at q = ln_spawned_at pn" "ln_lifecycle q = ln_lifecycle pn"
        using q' adds_forth[OF r pn(1)] \<open>p = a\<close> by (metis extends_node_def option.inject)
      ultimately show ?thesis using nd pn by (simp add: edge_ok_def)
    next
      case False
      obtain m where m: "node_of s i = Some m" "extends_node s c m m'" using adds_back[OF r m' False] by blast
      have pm: "ln_parent_id m = Some p" using m(2) p by (simp add: extends_node_def)
      have "i \<noteq> lg_root_id s" using tree_root[OF lineage_inv_parts(2)[OF inv]] m(1) pm by auto
      then obtain q where q: "node_of s p = Some q" using tree_parent[OF lineage_inv_parts(2)[OF inv] m(1)] pm by auto
      obtain q2 where "node_of s' p = Some q2" "extends_node s c q q2" using adds_forth[OF r q] by blast
      then show ?thesis
        using inv_edge_ok[OF inv m(1) pm q] m(2) q' by (cases "ln_lifecycle q") (auto simp: edge_ok_def extends_node_def)
    qed
  qed
  moreover have "spawns_inv s'"
  proof -
    have old: "spawn_ok s' y" if y: "spawn_ok s y" for y
    proof -
      obtain n where n: "node_of s (sw_child_id y) = Some n" using y by (auto simp: spawn_ok_def)
      obtain n' where "node_of s' (sw_child_id y) = Some n'" "extends_node s c n n'" using adds_forth[OF r n] by blast
      then show ?thesis using y n by (simp add: spawn_ok_def state extends_node_def)
    qed
    have "c \<notin> sw_child_id ` set (lg_spawns s)" "c \<noteq> lg_root_id s"
      using lineage_inv_parts(6)[OF inv] nd(5) tree_root[OF lineage_inv_parts(2)[OF inv]] by (auto simp: spawns_inv_def known_def)
    then show ?thesis
      using lineage_inv_parts(6)[OF inv] x old by (auto simp: spawns_inv_def state adds_known[OF r])
  qed
  moreover have "replay_ok s' (known s') 0 (lg_absorptions s')"
    unfolding state
  proof (rule replay_ok_mono[OF _ _ _ lineage_inv_parts(7)[OF inv]])
    have all: "replay_ok s active previous rs \<Longrightarrow> y \<in> set rs \<Longrightarrow> record_ok s y" for active previous rs y
      by (induction rs arbitrary: active previous) auto
    fix y assume y: "y \<in> set (lg_absorptions s)"
    have ok: "record_ok s y" using all[OF lineage_inv_parts(7)[OF inv] y] .
    show "record_ok s' y" using adds_record(1)[OF r external ok] .
    show "node_of s (ab_target_id y) \<noteq> None" if "node_of s' (ab_target_id y) \<noteq> None"
      using adds_record(2)[OF r external ok that] .
  qed (simp add: adds_known[OF r] subset_insertI)
  moreover have "lifecycles_inv s'"
    unfolding lifecycles_inv_def state
  proof (intro allI impI)
    fix i m' assume m': "node_of s' i = Some m'"
    show "check_absorbed (absorbed_map (lg_absorptions s) bm_empty) m' = Inr ()"
    proof (cases "i = c")
      case True
      have "bm_get (absorbed_map (lg_absorptions s) bm_empty) c = None"
      proof -
        have known: "replay_ok s active previous rs \<Longrightarrow> i \<in> sources rs \<Longrightarrow> node_of s i \<noteq> None" for active previous rs i
          by (induction rs arbitrary: active previous) (auto simp: sources_def record_ok_def)
        show ?thesis using known[OF lineage_inv_parts(7)[OF inv], of c] nd(5) by (auto simp: absorbed_map_get)
      qed
      then show ?thesis using True m' new nd by (simp add: check_absorbed_def)
    next
      case False
      obtain m where m: "node_of s i = Some m" "extends_node s c m m'" using adds_back[OF r m' False] by blast
      then have "check_absorbed (absorbed_map (lg_absorptions s) bm_empty) m' = check_absorbed (absorbed_map (lg_absorptions s) bm_empty) m"
        by (intro check_absorbed_same) (simp_all add: extends_node_def)
      then show ?thesis using lineage_inv_parts(8)[OF inv] m(1) by (simp add: lifecycles_inv_def)
    qed
  qed
  moreover have "lg_revision s' = length (lg_spawns s') + length (lg_absorptions s')"
    using lineage_inv_parts(9)[OF inv] x(1) by (simp add: state)
  ultimately show ?thesis
    using adds_tree[OF r lineage_inv_parts(2)[OF inv]] by (simp add: lineage_inv_def)
qed

definition provisioned_node :: "string \<Rightarrow> string \<Rightarrow> tentacle_nature \<Rightarrow> nat \<Rightarrow> lineage_node \<Rightarrow> lineage_node" where
  "provisioned_node parent child nature at pn =
     \<lparr>ln_tentacle_id = child, ln_parent_id = Some parent, ln_generation = ln_generation pn + 1,
      ln_nature = nature, ln_spawned_at = at, ln_children = [], ln_lifecycle = LC_Active\<rparr>"

definition provisioned_record ::
  "string \<Rightarrow> string \<Rightarrow> tentacle_nature \<Rightarrow> nat \<Rightarrow> spawn_authorization \<Rightarrow> lineage_node \<Rightarrow> spawn_record" where
  "provisioned_record parent child nature at auth pn =
     \<lparr>sw_parent_id = parent, sw_parent_nature_id = na_id (ln_nature pn), sw_child_id = child,
      sw_child_nature_id = na_id nature, sw_judgment_id = sa_judgment_id auth, sw_operator_id = sa_operator_id auth,
      sw_event_sha256 = sa_event_sha256 auth, sw_generation = ln_generation pn + 1, sw_at = at\<rparr>"

lemma provisioned_ok:
  assumes step: "record_provisioned_child s parent claimed child nature at auth = Inr (s', nd)"
  shows "\<exists>pn. bm_get (lg_nodes s) parent = Some pn \<and> ln_lifecycle pn = LC_Active
    \<and> id_text parent \<and> id_text child \<and> is_sha256_text (sa_judgment_id auth) \<and> id_text (sa_operator_id auth)
    \<and> is_sha256_text (sa_event_sha256 auth) \<and> parent \<noteq> child \<and> bm_get (lg_nodes s) child = None
    \<and> \<not> at < ln_spawned_at pn \<and> ln_generation pn + 1 \<le> u64_max \<and> validate_nature nature = Inr ()
    \<and> na_generation nature = ln_generation pn + 1 \<and> na_parent_id nature = Some (na_id (ln_nature pn))
    \<and> \<not> list_ex (\<lambda>node. na_id (ln_nature node) = na_id nature) (bm_values (lg_nodes s))
    \<and> nd = provisioned_node parent child nature at pn
    \<and> s' = s\<lparr>lg_nodes := bm_insert child (provisioned_node parent child nature at pn)
           (bm_insert parent (pn\<lparr>ln_children := ln_children pn @ [child]\<rparr>) (lg_nodes s)),
         lg_spawns := lg_spawns s @ [provisioned_record parent child nature at auth pn],
         lg_revision := lg_revision s + 1\<rparr>"
  using step unfolding record_provisioned_child_def provisioned_node_def provisioned_record_def
  apply (simp only: and_then_eq_Inr ok_or_eq_Inr run_checks_Cons_ok ensure_eq_Inr ev_validate_id_ok ev_validate_sha256_ok
    ev_validate_nature_ok checked_add_eq_Some bm_contains_iff Let_def sum.inject prod.inject de_Morgan_disj not_not run_checks.simps(1))
  apply (elim exE conjE)
  apply (intro exI conjI)
  apply (assumption | simp only:)+
  done

lemma provisioned_adds:
  assumes inv: "lineage_inv s"
    and step: "record_provisioned_child s parent claimed child nature at auth = Inr (s', nd)"
  obtains pn where "adds_child s parent pn child nd s'"
proof -
  obtain pn where pn: "node_of s parent = Some pn" "ln_lifecycle pn = LC_Active"
    and ids: "id_text parent" "id_text child" "is_sha256_text (sa_judgment_id auth)" "id_text (sa_operator_id auth)"
      "is_sha256_text (sa_event_sha256 auth)" "parent \<noteq> child" "node_of s child = None"
    and nature: "\<not> at < ln_spawned_at pn" "ln_generation pn + 1 \<le> u64_max" "validate_nature nature = Inr ()"
      "na_generation nature = ln_generation pn + 1" "na_parent_id nature = Some (na_id (ln_nature pn))"
      "\<not> list_ex (\<lambda>node. na_id (ln_nature node) = na_id nature) (bm_values (lg_nodes s))"
    and nd: "nd = provisioned_node parent child nature at pn"
    and s': "s' = s\<lparr>lg_nodes := bm_insert child (provisioned_node parent child nature at pn)
           (bm_insert parent (pn\<lparr>ln_children := ln_children pn @ [child]\<rparr>) (lg_nodes s)),
         lg_spawns := lg_spawns s @ [provisioned_record parent child nature at auth pn],
         lg_revision := lg_revision s + 1\<rparr>"
    using provisioned_ok[OF step] by (elim exE conjE)
  have apart: "\<forall>j m. node_of s j = Some m \<longrightarrow> na_id (ln_nature m) \<noteq> na_id nature"
    using nature(6) unfolding list_ex_iff values_all[symmetric] by blast
  have "child \<noteq> lg_root_id s" using ids(7) tree_root[OF lineage_inv_parts(2)[OF inv]] by auto
  then have "adds_child s parent pn child nd s'"
    using pn ids nature apart
    by (simp add: adds_child_def nd s' spawn_ok_def provisioned_node_def provisioned_record_def)
  then show thesis by (rule that)
qed

end
