(* ===== verification/Lineage_Properties.thy ===== *)
theory Lineage_Properties
  imports Lineage_Steps
begin

section \<open>Lineage: properties\<close>

text \<open>
  The operations as steps of one local lineage, what survives every run of them, that what they leave
  can be loaded again, and that climbing from any node of a loaded lineage ends at its root.
\<close>

datatype lineage_op =
    LO_Reroll string string tentacle_nature
  | LO_Provisioned string string string tentacle_nature nat spawn_authorization
  | LO_Spawn string string string nat spawn_authorization bytes
  | LO_Absorb string string string nat "string list" bool
  | LO_AbsorbExternal string string nat "string list"

definition or_same :: "lineage_state \<Rightarrow> (evolution_error, lineage_state) result \<Rightarrow> lineage_state" where
  "or_same s r = (case r of Inl e \<Rightarrow> s | Inr s' \<Rightarrow> s')"

fun lineage_step :: "lineage_op \<Rightarrow> lineage_state \<Rightarrow> lineage_state" where
  "lineage_step (LO_Reroll a c nature) s = or_same s (update_root_nature s a c nature)"
| "lineage_step (LO_Provisioned a c child nature at auth) s =
     or_same s (map_sum id fst (record_provisioned_child s a c child nature at auth))"
| "lineage_step (LO_Spawn a c child at auth rng) s = or_same s (map_sum id fst (spawn_child s a c child at auth rng))"
| "lineage_step (LO_Absorb a c source at hashes confirmed) s = snd (record_absorption s a c source at hashes confirmed)"
| "lineage_step (LO_AbsorbExternal source target at hashes) s =
     snd (record_external_parent_absorption s source target at hashes)"

definition lineage_run :: "lineage_op list \<Rightarrow> lineage_state \<Rightarrow> lineage_state" where
  "lineage_run ops s = fold lineage_step ops s"

fun spawned_id :: "lineage_op \<Rightarrow> string option" where
  "spawned_id (LO_Provisioned a c child nature at auth) = Some child"
| "spawned_id (LO_Spawn a c child at auth rng) = Some child"
| "spawned_id _ = None"

definition lineage_founded :: "lineage_state \<Rightarrow> bool" where
  "lineage_founded s \<longleftrightarrow>
     (\<exists>i nature at. Lineage_new i nature at = Inr s)
     \<or> (\<exists>i external nature at. Lineage_new_child_root i external nature at = Inr s)"

lemma lineage_run_simps [simp]:
  "lineage_run [] s = s"
  "lineage_run (op # ops) s = lineage_run ops (lineage_step op s)"
  by (simp_all add: lineage_run_def)

lemma spawn_child_provisioned:
  "spawn_child s a c child at auth rng = Inr r \<Longrightarrow> \<exists>nature. record_provisioned_child s a c child nature at auth = Inr r"
  by (auto simp: spawn_child_def split: if_splits prod.splits)

subsection \<open>One step\<close>

definition step_spawn :: "lineage_state \<Rightarrow> lineage_state \<Rightarrow> string \<Rightarrow> bool" where
  "step_spawn s s' child \<longleftrightarrow>
     s' = s \<or> (\<exists>a c nature at auth nd. record_provisioned_child s a c child nature at auth = Inr (s', nd))"

lemma step_spawn_provisioned:
  "step_spawn s (or_same s (map_sum id fst (record_provisioned_child s a c child nature at auth))) child"
  by (cases "record_provisioned_child s a c child nature at auth") (auto simp: or_same_def step_spawn_def)

lemma step_spawn_drawn:
  "step_spawn s (or_same s (map_sum id fst (spawn_child s a c child at auth rng))) child"
proof (cases "spawn_child s a c child at auth rng")
  case (Inr r)
  then show ?thesis
    using spawn_child_provisioned[OF Inr] by (cases r) (auto simp: or_same_def step_spawn_def)
qed (simp add: or_same_def step_spawn_def)

lemma step_cases:
  obtains (spawn) child where "spawned_id op = Some child" "step_spawn s (lineage_step op s) child"
  | (other) "spawned_id op = None"
  by (cases op) (auto intro: step_spawn_provisioned step_spawn_drawn)

lemma absorb_into_state:
  "lg_revision (snd (absorb_into s n r)) = (if lg_revision s < u64_max then Suc (lg_revision s) else lg_revision s)"
  "lg_external_parent (snd (absorb_into s n r)) = lg_external_parent s"
  by (simp_all add: absorb_into_def Let_def checked_add_def)

lemma lineage_step_state:
  "lg_external_parent (lineage_step op s) = lg_external_parent s" (is ?E)
  "lg_revision s \<le> lg_revision (lineage_step op s)" (is ?R)
proof -
  have spawned: "lg_external_parent s' = lg_external_parent s \<and> lg_revision s \<le> lg_revision s'"
    if "step_spawn s s' child" for s' child
    using that provisioned_ok[of s _ _ child _ _ _ s'] by (fastforce simp: step_spawn_def)
  have "?E \<and> ?R"
  proof (cases rule: step_cases[of op s])
    case (spawn child)
    then show ?thesis using spawned by blast
  next
    case other
    then show ?thesis
      by (cases op) (auto simp: or_same_def update_root_nature_def run_checks.simps(1) record_absorption_def
        record_external_parent_absorption_def absorb_into_state split: sum.splits)
  qed
  then show ?E ?R by simp_all
qed

lemma lineage_step_inv:
  assumes inv: "lineage_inv s" and room: "lg_revision (lineage_step op s) < u64_max"
    and fresh: "lg_external_parent s = None \<or> spawned_id op \<noteq> lg_external_parent s"
  shows "lineage_inv (lineage_step op s)"
proof (cases rule: step_cases[of op s])
  case (spawn child)
  have child: "lg_external_parent s \<noteq> Some child" using fresh spawn(1) by auto
  show ?thesis
  proof (cases "lineage_step op s = s")
    case False
    then obtain a c nature at auth nd where
      step: "record_provisioned_child s a c child nature at auth = Inr (lineage_step op s, nd)"
      using spawn(2) by (auto simp: step_spawn_def)
    obtain pn where "adds_child s a pn child nd (lineage_step op s)" using provisioned_adds[OF inv step] .
    then show ?thesis using adds_inv[OF inv _ child] by blast
  qed (simp add: inv)
next
  case other
  have room': "lg_revision s < u64_max" using lineage_step_state(2)[where s = s and op = op] room by linarith
  show ?thesis
    using other record_absorption_inv[OF inv room'] record_external_inv[OF inv room'] update_root_nature_inv[OF inv]
    by (cases op) (auto simp: or_same_def inv split: sum.splits)
qed

lemma lineage_step_revision: "lg_revision (lineage_step op s) \<le> Suc (lg_revision s)"
proof (cases rule: step_cases[of op s])
  case (spawn child)
  then show ?thesis
    using provisioned_ok[of s _ _ child _ _ _ "lineage_step op s"] by (fastforce simp: step_spawn_def)
next
  case other
  then show ?thesis
    by (cases op) (auto simp: or_same_def update_root_nature_def run_checks.simps(1) record_absorption_def
      record_external_parent_absorption_def absorb_into_state split: sum.splits)
qed

lemma lineage_run_inv:
  "lineage_inv s \<Longrightarrow> lg_revision s + length ops < u64_max \<Longrightarrow>
   \<forall>op\<in>set ops. lg_external_parent s = None \<or> spawned_id op \<noteq> lg_external_parent s \<Longrightarrow>
   lineage_inv (lineage_run ops s) \<and> lg_revision (lineage_run ops s) < u64_max"
proof (induction ops arbitrary: s)
  case (Cons op ops)
  have le: "lg_revision (lineage_step op s) \<le> Suc (lg_revision s)" by (rule lineage_step_revision)
  have room: "lg_revision (lineage_step op s) < u64_max" using le Cons.prems(2) by simp
  have "lineage_inv (lineage_step op s)" using lineage_step_inv[OF Cons.prems(1) room] Cons.prems(3) by simp
  then show ?case
    using Cons.IH[of "lineage_step op s"] Cons.prems(2,3) le lineage_step_state(1)[where s = s and op = op] by simp
qed simp

lemma founded_inv: "lineage_founded s \<Longrightarrow> lineage_inv s \<and> lg_revision s = 0"
  using Lineage_new_inv Lineage_new_child_root_inv
  by (fastforce simp: lineage_founded_def Lineage_new_def Lineage_new_child_root_def rooted_state_def)

subsection \<open>What is loaded\<close>

definition sample_nature :: "nat \<Rightarrow> char option \<Rightarrow> char \<Rightarrow> tentacle_nature" where
  "sample_nature generation parent c =
     \<lparr>na_schema_version = 1, na_id = replicate 32 c, na_generation = generation,
      na_parent_id = map_option (replicate 32) parent, na_engagement = 50, na_growth = 30, na_wealth = 0,
      na_influence = 20, na_cooperation = 50, na_stability = 50, na_transparency = 50, na_sacred_ban = Profit\<rparr>"

definition sample_grant :: spawn_authorization where
  "sample_grant = \<lparr>sa_judgment_id = replicate 64 CHR ''0'', sa_operator_id = ''operator'',
     sa_event_sha256 = replicate 64 CHR ''1''\<rparr>"

text \<open>An inherited root with the external parent \<open>elder\<close>.\<close>

definition sample_root :: lineage_state where
  "sample_root = rooted_state ''root'' (Some ''elder'') (founder_node ''root'' (sample_nature 1 (Some CHR ''a'') CHR ''b'') 1 5)"

lemma sample_nature_valid:
  "validate_nature (sample_nature 1 (Some CHR ''a'') CHR ''b'') = Inr ()"
  "validate_nature (sample_nature 2 (Some CHR ''b'') CHR ''c'') = Inr ()"
  by code_simp+

lemma kin_ids: "id_text ''root''" "id_text ''elder''" "id_text ''child''"
  by code_simp+

lemma sample_root_founded: "lineage_founded sample_root"
proof -
  have "Lineage_new_child_root ''root'' ''elder'' (sample_nature 1 (Some CHR ''a'') CHR ''b'') 5 = Inr sample_root"
    using kin_ids sample_nature_valid
    by (simp add: Lineage_new_child_root_def run_checks.simps(1) sample_root_def sample_nature_def)
  then show ?thesis unfolding lineage_founded_def by blast
qed

definition sample_spawn :: lineage_op where
  "sample_spawn = LO_Provisioned ''root'' ''root'' ''child'' (sample_nature 2 (Some CHR ''b'') CHR ''c'') 10 sample_grant"

definition sample_absorb :: lineage_op where
  "sample_absorb = LO_AbsorbExternal ''root'' ''elder'' 15 []"

text \<open>
  C22: what a lineage becomes can be loaded.  Founded in either way, after any number of operations
  below the limit of the revision counter, refused ones included, a lineage passes the validation of
  its store, unless some operation asked for a child with the ID of the external parent.
\<close>

theorem lineage_reload:
  assumes "lineage_founded s" "length ops < u64_max"
    "\<forall>op\<in>set ops. lg_external_parent s = None \<or> spawned_id op \<noteq> lg_external_parent s"
  shows "Lineage_from_state (lineage_run ops s) = Inr (lineage_run ops s)"
proof -
  have "lineage_inv (lineage_run ops s) \<and> lg_revision (lineage_run ops s) < u64_max"
    using lineage_run_inv founded_inv[OF assms(1)] assms(2,3) by simp
  then show ?thesis using inv_validates by (simp add: Lineage_from_state_def)
qed

lemma sample_external: "lg_external_parent sample_root = Some ''elder''"
  by (simp add: sample_root_def rooted_state_def)

theorem lineage_reload_witness:
  "Lineage_from_state (lineage_run [sample_spawn, sample_absorb] sample_root)
     = Inr (lineage_run [sample_spawn, sample_absorb] sample_root)"
  by (rule lineage_reload[OF sample_root_founded])
    (simp_all add: u64_max_def sample_external sample_spawn_def sample_absorb_def)

subsection \<open>A child of an inherited root\<close>

definition first_child :: tentacle_nature where "first_child = sample_nature 2 (Some CHR ''b'') CHR ''c''"
definition second_child :: tentacle_nature where "second_child = sample_nature 3 (Some CHR ''c'') CHR ''d''"

lemma provisioned_intro:
  assumes "bm_get (lg_nodes s) parent = Some pn" "ln_lifecycle pn = LC_Active"
    "id_text parent" "id_text child" "is_sha256_text (sa_judgment_id auth)" "id_text (sa_operator_id auth)"
    "is_sha256_text (sa_event_sha256 auth)" "parent \<noteq> child" "bm_get (lg_nodes s) child = None"
    "\<not> at < ln_spawned_at pn" "ln_generation pn + 1 \<le> u64_max" "validate_nature nature = Inr ()"
    "na_generation nature = ln_generation pn + 1" "na_parent_id nature = Some (na_id (ln_nature pn))"
    "\<forall>k n. bm_get (lg_nodes s) k = Some n \<longrightarrow> na_id (ln_nature n) \<noteq> na_id nature" "lg_revision s + 1 \<le> u64_max"
  shows "record_provisioned_child s parent parent child nature at auth
    = Inr (s\<lparr>lg_nodes := bm_insert child (provisioned_node parent child nature at pn)
           (bm_insert parent (pn\<lparr>ln_children := ln_children pn @ [child]\<rparr>) (lg_nodes s)),
         lg_spawns := lg_spawns s @ [provisioned_record parent child nature at auth pn],
         lg_revision := lg_revision s + 1\<rparr>, provisioned_node parent child nature at pn)"
proof -
  have "\<not> list_ex (\<lambda>node. na_id (ln_nature node) = na_id nature) (bm_values (lg_nodes s))"
    using assms(15) unfolding list_ex_iff values_all[symmetric] by blast
  then show ?thesis
    unfolding record_provisioned_child_def
    using assms by (simp add: run_checks.simps(1) Let_def checked_add_def provisioned_node_def provisioned_record_def)
qed

lemma usurping_valid:
  "validate_nature first_child = Inr ()" "validate_nature second_child = Inr ()" "is_sha256_text (sa_judgment_id sample_grant)"
  "is_sha256_text (sa_event_sha256 sample_grant)" "id_text (sa_operator_id sample_grant)"
  by code_simp+

lemma usurping_fields:
  "na_generation first_child = 2" "na_parent_id first_child = Some (replicate 32 CHR ''b'')"
  "na_id first_child = replicate 32 CHR ''c''" "na_generation second_child = 3"
  "na_parent_id second_child = Some (replicate 32 CHR ''c'')" "na_id second_child = replicate 32 CHR ''d''"
  "na_id (sample_nature g p c) = replicate 32 c"
  by (simp_all add: first_child_def second_child_def sample_nature_def)

text \<open>The inherited root with a first child.\<close>

definition sample_grown :: lineage_state where
  "sample_grown =
     lineage_step (LO_Provisioned ''root'' ''root'' ''child'' first_child 10 sample_grant) sample_root"

lemma sample_grown_eq:
  fixes root child
  defines "root \<equiv> founder_node ''root'' (sample_nature 1 (Some CHR ''a'') CHR ''b'') 1 5"
    and "child \<equiv> provisioned_node ''root'' ''child'' first_child 10
      (founder_node ''root'' (sample_nature 1 (Some CHR ''a'') CHR ''b'') 1 5)"
  shows "sample_grown = sample_root\<lparr>lg_nodes := bm_insert ''child'' child (bm_insert ''root'' (root\<lparr>ln_children := ln_children root @ [''child'']\<rparr>) (lg_nodes sample_root)),
         lg_spawns := lg_spawns sample_root @ [provisioned_record ''root'' ''child'' first_child 10 sample_grant root],
         lg_revision := lg_revision sample_root + 1\<rparr>"
proof -
  have "record_provisioned_child sample_root ''root'' ''root'' ''child'' first_child 10 sample_grant = Inr
      (sample_root\<lparr>lg_nodes := bm_insert ''child'' child (bm_insert ''root'' (root\<lparr>ln_children := ln_children root @ [''child'']\<rparr>) (lg_nodes sample_root)),
         lg_spawns := lg_spawns sample_root @ [provisioned_record ''root'' ''child'' first_child 10 sample_grant root],
         lg_revision := lg_revision sample_root + 1\<rparr>, child)"
    unfolding root_def child_def
    by (rule provisioned_intro)
      (simp_all add: usurping_valid kin_ids sample_root_def rooted_state_def founder_node_def u64_max_def usurping_fields)
  then show ?thesis by (simp add: sample_grown_def or_same_def)
qed

lemma sample_grown_nodes:
  "\<exists>c. bm_get (lg_nodes sample_grown) ''child'' = Some c \<and> ln_parent_id c = Some ''root''"
  "\<exists>r. bm_get (lg_nodes sample_grown) ''root'' = Some r \<and> ln_parent_id r = None"
  "lg_external_parent sample_grown = Some ''elder''" "lg_root_id sample_grown = ''root''"
  by (simp_all add: sample_grown_eq provisioned_node_def founder_node_def sample_root_def rooted_state_def)

lemma sample_grown_validated: "validate_lineage_state sample_grown = Inr ()"
proof -
  have grown: "sample_grown = lineage_run [LO_Provisioned ''root'' ''root'' ''child'' first_child 10 sample_grant] sample_root"
    by (simp add: sample_grown_def del: lineage_step.simps)
  have "lineage_inv sample_grown \<and> lg_revision sample_grown < u64_max"
    unfolding grown
    by (rule lineage_run_inv)
      (simp_all add: u64_max_def founded_inv[OF sample_root_founded] sample_external del: lineage_step.simps)
  then show ?thesis using inv_validates by simp
qed

subsection \<open>Climbing\<close>

inductive climbs :: "lineage_state \<Rightarrow> string \<Rightarrow> string list \<Rightarrow> bool" for s where
  top: "node_of s i = Some n \<Longrightarrow> ln_parent_id n = None \<Longrightarrow> climbs s i []"
| up: "node_of s i = Some n \<Longrightarrow> ln_parent_id n = Some p \<Longrightarrow> climbs s p chain \<Longrightarrow> climbs s i (p # chain)"

inductive_cases climbs_NilE: "climbs s i []"
inductive_cases climbs_ConsE: "climbs s i (p # chain)"

lemma climbs_unique: "climbs s i chain \<Longrightarrow> climbs s i chain' \<Longrightarrow> chain = chain'"
proof (induction arbitrary: chain' rule: climbs.induct)
  case (top i n)
  then show ?case by (auto elim: climbs.cases)
next
  case (up i n p chain)
  show ?case
  proof (cases chain')
    case Nil
    then show ?thesis using up.prems up.hyps(1,2) by (auto elim: climbs_NilE)
  next
    case (Cons q rest)
    have "climbs s i (q # rest)" using up.prems Cons by simp
    then have "q = p" "climbs s p rest" using up.hyps(1,2) by (auto elim: climbs_ConsE)
    then show ?thesis using up.IH Cons by simp
  qed
qed

lemma climbs_suffix: "climbs s i chain \<Longrightarrow> j \<in> set chain \<Longrightarrow> \<exists>rest. climbs s j rest \<and> length rest < length chain"
proof (induction rule: climbs.induct)
  case (up i n p chain)
  show ?case
  proof (cases "j = p")
    case True
    then show ?thesis using up.hyps(3) by (intro exI[of _ chain]) simp
  next
    case False
    then obtain rest where "climbs s j rest" "length rest < length chain" using up.IH up.prems by auto
    then show ?thesis by (intro exI[of _ rest]) simp
  qed
qed simp

lemma climbs_distinct: "climbs s i chain \<Longrightarrow> distinct (i # chain)"
proof (induction rule: climbs.induct)
  case (up i n p chain)
  have "i \<notin> set (p # chain)"
    using climbs_suffix[OF climbs.up[OF up(1,2,3)]] climbs_unique[OF climbs.up[OF up(1,2,3)]] by blast
  then show ?case using up by simp
qed simp

lemma climbs_loop:
  "climbs s i chain \<Longrightarrow> node_of s i = Some n \<Longrightarrow>
     \<exists>top. ancestors_loop s n acc = Some (Inr (top, acc @ chain)) \<and> node_of s (last (i # chain)) = Some top
       \<and> ln_parent_id top = None"
proof (induction arbitrary: n acc rule: climbs.induct)
  case (top i m)
  then show ?case by (subst ancestors_loop.simps) simp
next
  case (up i m p chain)
  obtain q where q: "node_of s p = Some q" using up(3) by (auto elim: climbs.cases)
  obtain top where "ancestors_loop s q (acc @ [p]) = Some (Inr (top, (acc @ [p]) @ chain))"
    "node_of s (last (p # chain)) = Some top" "ln_parent_id top = None"
    using up.IH[OF q] by blast
  then show ?case using up.hyps(1,2) up.prems q by (subst ancestors_loop.simps) simp
qed

lemma climbs_parents:
  "climbs s i chain \<Longrightarrow> k < length chain \<Longrightarrow>
     \<exists>n. node_of s ((i # chain) ! k) = Some n \<and> ln_parent_id n = Some (chain ! k)"
proof (induction arbitrary: k rule: climbs.induct)
  case (up i n p chain)
  then show ?case by (cases k) auto
qed simp

text \<open>What validation says of the tree.\<close>

lemma validated_facts:
  assumes "validate_lineage_state s = Inr ()"
  shows "\<exists>r. node_of s (lg_root_id s) = Some r \<and> ln_parent_id r = None"
    and "node_of s i = Some n \<Longrightarrow> ln_tentacle_id n = i"
    and "node_of s i = Some n \<Longrightarrow> check_edges s n = Inr ()"
    and "check_connected s = Inr ()"
proof -
  have parts: "check_root s = Inr ()" "nodes_loop bs_empty (bm_entries (lg_nodes s)) = Inr ()"
    "\<forall>n\<in>set (bm_values (lg_nodes s)). check_edges s n = Inr ()" "check_connected s = Inr ()"
    using assms by (simp_all add: validate_lineage_state_def run_checks.simps(1))
  show "\<exists>r. node_of s (lg_root_id s) = Some r \<and> ln_parent_id r = None"
    using parts(1) by (auto simp: check_root_def)
  show "node_of s i = Some n \<Longrightarrow> ln_tentacle_id n = i"
    using parts(2) by (auto simp: nodes_loop_ok node_ok_def bm_entries_iff[symmetric] dest!: bspec)
  show "node_of s i = Some n \<Longrightarrow> check_edges s n = Inr ()"
    using parts(3) unfolding values_all by blast
  show "check_connected s = Inr ()" by (rule parts(4))
qed

lemma descends_known: "descends s i j \<Longrightarrow> j \<in> known s"
  by (induction rule: descends.induct) auto

lemma validated_descends:
  assumes "validate_lineage_state s = Inr ()" "j \<in> known s"
  shows "descends s (lg_root_id s) j"
proof -
  obtain vg vd where v: "visit_lineage (Suc (bm_len (lg_nodes s))) s (lg_root_id s) (bs_empty, bs_empty) = Some (Inr (vg, vd))"
    "bs_len vd = bm_len (lg_nodes s)"
    using validated_facts(4)[OF assms(1)] by (auto simp: check_connected_def split: option.splits)
  have all: "\<forall>x\<in>members vd. descends s (lg_root_id s) x" using visit_sound(1)[OF v(1)] by simp
  then have "members vd \<subseteq> known s" using descends_known by blast
  then have "members vd = known s"
    using v(2) by (intro card_subset_eq) (simp_all add: members_card card_known)
  then show ?thesis using all assms(2) by blast
qed

lemma validated_climbs:
  assumes valid: "validate_lineage_state s = Inr ()"
  shows "descends s i j \<Longrightarrow> i = lg_root_id s \<Longrightarrow> \<exists>chain. climbs s j chain"
proof (induction rule: descends.induct)
  case (here i)
  then show ?case using validated_facts(1)[OF valid] climbs.top by blast
next
  case (down i j node c)
  obtain chain where chain: "climbs s j chain" using down.IH down.prems by blast
  have "check_child_edge s node c = Inr ()"
    using validated_facts(3)[OF valid down.hyps(2)] down.hyps(3) by (simp add: check_edges_def)
  then obtain child where "node_of s c = Some child" "ln_parent_id child = Some j"
    using validated_facts(2)[OF valid down.hyps(2)] by (auto simp: check_child_edge_def)
  then show ?case using climbs.up[OF _ _ chain] by blast
qed

text \<open>
  C23: climbing ends at the root.  In a lineage that passed validation, the loop that collects the
  ancestors of a Tentacle terminates for every node; the chain starts at its parent, follows parent
  references without a repetition and ends at the root, and the external parent of the root, if there
  is one, comes last.
\<close>

theorem lineage_climb:
  assumes "validate_lineage_state s = Inr ()" "bm_get (lg_nodes s) i = Some n"
  shows "\<exists>chain. lineage_ancestors s i
           = Some (Inr (chain @ (case lg_external_parent s of None \<Rightarrow> [] | Some p \<Rightarrow> [p])))
         \<and> distinct (i # chain) \<and> last (i # chain) = lg_root_id s
         \<and> (\<forall>k<length chain. \<exists>m. bm_get (lg_nodes s) ((i # chain) ! k) = Some m \<and> ln_parent_id m = Some (chain ! k))"
proof -
  have "i \<in> known s" using assms(2) by (simp add: known_def)
  then obtain chain where chain: "climbs s i chain"
    using validated_climbs[OF assms(1) validated_descends[OF assms(1)]] by blast
  obtain top where top: "ancestors_loop s n [] = Some (Inr (top, chain))" "node_of s (last (i # chain)) = Some top"
    "ln_parent_id top = None" using climbs_loop[OF chain assms(2), of "[]"] by auto
  have id: "ln_tentacle_id top = last (i # chain)" using validated_facts(2)[OF assms(1) top(2)] .
  have "check_parent_edge s top = Inr ()" using validated_facts(3)[OF assms(1) top(2)] by (simp add: check_edges_def)
  then have "ln_tentacle_id top = lg_root_id s" using top(3) by (auto simp: check_parent_edge_def split: if_splits)
  then have "lineage_ancestors s i
      = Some (Inr (chain @ (case lg_external_parent s of None \<Rightarrow> [] | Some p \<Rightarrow> [p])))" "last (i # chain) = lg_root_id s"
    using assms(2) top(1) id by (auto simp: lineage_ancestors_def split: option.splits)
  then show ?thesis using climbs_distinct[OF chain] climbs_parents[OF chain] by blast
qed

theorem lineage_climb_witness: "lineage_ancestors sample_grown ''child'' = Some (Inr [''root'', ''elder''])"
proof -
  obtain c where c: "bm_get (lg_nodes sample_grown) ''child'' = Some c" "ln_parent_id c = Some ''root''"
    using sample_grown_nodes(1) by blast
  obtain r where r: "bm_get (lg_nodes sample_grown) ''root'' = Some r" "ln_parent_id r = None"
    using sample_grown_nodes(2) by blast
  obtain chain where chain: "lineage_ancestors sample_grown ''child'' = Some (Inr (chain @ [''elder'']))"
    "last (''child'' # chain) = ''root''"
    "\<forall>k<length chain. \<exists>m. bm_get (lg_nodes sample_grown) ((''child'' # chain) ! k) = Some m \<and> ln_parent_id m = Some (chain ! k)"
    using lineage_climb[OF sample_grown_validated c(1)] by (auto simp: sample_grown_nodes)
  have "chain \<noteq> []" using chain(2) by auto
  then obtain p rest where p: "chain = p # rest" by (cases chain) auto
  then have "p = ''root''" using chain(3)[rule_format, of 0] c by simp
  moreover have "rest = []"
    using chain(3)[rule_format, of 1] r p \<open>p = ''root''\<close> by (cases rest) auto
  ultimately show ?thesis using chain(1) p by simp
qed

subsection \<open>What no operation changes\<close>

text \<open>The past of \<open>s\<close> is part of \<open>s'\<close>: its records, and of each node all that is not the reroll of the root or a new child.\<close>

definition node_endures :: "lineage_state \<Rightarrow> string \<Rightarrow> lineage_node \<Rightarrow> lineage_node \<Rightarrow> bool" where
  "node_endures s i n n' \<longleftrightarrow>
     ln_parent_id n' = ln_parent_id n \<and> ln_generation n' = ln_generation n \<and> ln_spawned_at n' = ln_spawned_at n
     \<and> (\<exists>cs. ln_children n' = ln_children n @ cs) \<and> (i \<noteq> lg_root_id s \<longrightarrow> ln_nature n' = ln_nature n)
     \<and> (ln_lifecycle n \<noteq> LC_Active \<longrightarrow> ln_lifecycle n' = ln_lifecycle n \<and> ln_children n' = ln_children n)"

definition past_endures :: "lineage_state \<Rightarrow> lineage_state \<Rightarrow> bool" where
  "past_endures s s' \<longleftrightarrow>
     lg_root_id s' = lg_root_id s
     \<and> (\<exists>xs. lg_spawns s' = lg_spawns s @ xs) \<and> (\<exists>ys. lg_absorptions s' = lg_absorptions s @ ys)
     \<and> (\<forall>i n. node_of s i = Some n \<longrightarrow> (\<exists>n'. node_of s' i = Some n' \<and> node_endures s i n n'))"

lemma node_endures_refl: "node_endures s i n n"
  by (simp add: node_endures_def)

lemma past_endures_refl: "past_endures s s"
  by (simp add: past_endures_def node_endures_refl)

lemma node_endures_trans:
  assumes "node_endures s i n m" "node_endures s' i m k" "lg_root_id s' = lg_root_id s"
  shows "node_endures s i n k"
  using assms by (auto simp: node_endures_def)

lemma past_endures_trans:
  assumes "past_endures s t" "past_endures t u"
  shows "past_endures s u"
proof -
  have "\<exists>k. node_of u i = Some k \<and> node_endures s i n k" if n: "node_of s i = Some n" for i n
  proof -
    obtain m where m: "node_of t i = Some m" "node_endures s i n m" using assms(1) n unfolding past_endures_def by blast
    obtain k where k: "node_of u i = Some k" "node_endures t i m k" using assms(2) m(1) unfolding past_endures_def by blast
    have "lg_root_id t = lg_root_id s" using assms(1) by (simp add: past_endures_def)
    then show ?thesis using node_endures_trans[OF m(2) k(2)] k(1) by blast
  qed
  then show ?thesis using assms unfolding past_endures_def by (metis append.assoc)
qed

lemma past_endures_update:
  assumes "node_of s k = Some n" "node_endures s k n n'" "lg_nodes s' = bm_insert k n' (lg_nodes s)"
    "lg_root_id s' = lg_root_id s" "lg_spawns s' = lg_spawns s" "lg_absorptions s' = lg_absorptions s @ ys"
  shows "past_endures s s'"
  using assms by (auto simp: past_endures_def node_endures_refl)

lemma absorb_into_endures:
  assumes "node_of s (ab_source_id r) = Some n" "ln_lifecycle n = LC_Active"
  shows "past_endures s (snd (absorb_into s n r))"
  by (rule past_endures_update[OF assms(1), where n' = "n\<lparr>ln_lifecycle := LC_Absorbed (ab_target_id r) (ab_at r)\<rparr>" and ys = "[r]"])
    (simp_all add: absorb_into_def Let_def checked_add_def node_endures_def assms(2))

lemma lineage_step_endures: "past_endures s (lineage_step op s)"
proof (cases rule: step_cases[of op s])
  case (spawn child)
  show ?thesis
  proof (cases "lineage_step op s = s")
    case False
    then obtain a c nature at auth nd where
      step: "record_provisioned_child s a c child nature at auth = Inr (lineage_step op s, nd)"
      using spawn(2) by (auto simp: step_spawn_def)
    obtain pn where pn: "node_of s a = Some pn" "ln_lifecycle pn = LC_Active" "node_of s child = None"
      and s': "lineage_step op s = s\<lparr>lg_nodes := bm_insert child (provisioned_node a child nature at pn)
           (bm_insert a (pn\<lparr>ln_children := ln_children pn @ [child]\<rparr>) (lg_nodes s)),
         lg_spawns := lg_spawns s @ [provisioned_record a child nature at auth pn],
         lg_revision := lg_revision s + 1\<rparr>"
      using provisioned_ok[OF step] by (elim exE conjE)
    show ?thesis unfolding s' using pn by (auto simp: past_endures_def node_endures_def)
  qed (simp add: past_endures_refl)
next
  case other
  have reroll: "past_endures s s'" if "update_root_nature s a c nature = Inr s'" for a c nature s'
    using that by (auto simp: update_root_nature_def run_checks.simps(1) past_endures_def node_endures_def)
  have absorb: "past_endures s (snd (record_absorption s a c source at hashes confirmed))" for a c source at hashes confirmed
  proof (cases "absorption_checks s a c source at hashes")
    case (Inr n)
    then have "node_of s source = Some n" "ln_lifecycle n = LC_Active"
      by (auto simp: absorption_checks_def run_checks.simps(1))
    then show ?thesis using absorb_into_endures[of s] by (simp add: record_absorption_def Inr)
  qed (simp add: record_absorption_def past_endures_refl)
  have external: "past_endures s (snd (record_external_parent_absorption s source target at hashes))" for source target at hashes
  proof (cases "external_checks s source target at hashes")
    case (Inr n)
    then have "node_of s source = Some n" "ln_lifecycle n = LC_Active"
      by (auto simp: external_checks_def run_checks.simps(1))
    then show ?thesis using absorb_into_endures[of s] by (simp add: record_external_parent_absorption_def Inr)
  qed (simp add: record_external_parent_absorption_def past_endures_refl)
  show ?thesis
    using other reroll absorb external by (cases op) (auto simp: or_same_def past_endures_refl split: sum.splits)
qed

text \<open>
  the past endures.  Whatever is asked of a lineage, in any state: no record of a spawn or an
  absorption is changed or removed, no node changes its parent, generation or time of spawning, only
  the root ever changes its Nature, and a Tentacle that was absorbed stays absorbed into the same
  target and spawns no more.
\<close>

theorem lineage_past: "past_endures s (lineage_run ops s)"
proof (induction ops arbitrary: s)
  case (Cons op ops)
  show ?case using past_endures_trans[OF lineage_step_endures Cons.IH] by simp
qed (simp add: past_endures_refl)

subsection \<open>A child with the ID of the external parent\<close>

definition usurping_ops :: "lineage_op list" where
  "usurping_ops =
     [LO_Provisioned ''root'' ''root'' ''child'' first_child 10 sample_grant,
      LO_Provisioned ''child'' ''child'' ''elder'' second_child 20 sample_grant]"

lemma usurping_nodes:
  defines "s \<equiv> lineage_run usurping_ops sample_root"
  shows "\<exists>r c e. bm_get (lg_nodes s) ''root'' = Some r \<and> ln_lifecycle r = LC_Active \<and> ln_spawned_at r = 5
      \<and> ln_children r = [''child''] \<and> bm_get (lg_nodes s) ''child'' = Some c \<and> ln_spawned_at c = 10
      \<and> bm_get (lg_nodes s) ''elder'' = Some e \<and> ln_spawned_at e = 20"
    "lg_root_id s = ''root''" "lg_external_parent s = Some ''elder''" "lg_absorptions s = []" "lg_revision s = 2"
proof -
  let ?root = "founder_node ''root'' (sample_nature 1 (Some CHR ''a'') CHR ''b'') 1 5"
  let ?child = "provisioned_node ''root'' ''child'' first_child 10 ?root"
  define t where "t = sample_grown"
  note t = sample_grown_eq[folded t_def]
  have two: "record_provisioned_child t ''child'' ''child'' ''elder'' second_child 20 sample_grant = Inr
      (t\<lparr>lg_nodes := bm_insert ''elder'' (provisioned_node ''child'' ''elder'' second_child 20 ?child)
           (bm_insert ''child'' (?child\<lparr>ln_children := ln_children ?child @ [''elder'']\<rparr>) (lg_nodes t)),
         lg_spawns := lg_spawns t @ [provisioned_record ''child'' ''elder'' second_child 20 sample_grant ?child],
         lg_revision := lg_revision t + 1\<rparr>, provisioned_node ''child'' ''elder'' second_child 20 ?child)"
    by (rule provisioned_intro)
      (simp_all add: usurping_valid kin_ids t provisioned_node_def sample_root_def rooted_state_def founder_node_def u64_max_def
        usurping_fields)
  have s: "s = t\<lparr>lg_nodes := bm_insert ''elder'' (provisioned_node ''child'' ''elder'' second_child 20 ?child)
           (bm_insert ''child'' (?child\<lparr>ln_children := ln_children ?child @ [''elder'']\<rparr>) (lg_nodes t)),
         lg_spawns := lg_spawns t @ [provisioned_record ''child'' ''elder'' second_child 20 sample_grant ?child],
         lg_revision := lg_revision t + 1\<rparr>"
  proof -
    have "s = lineage_step (LO_Provisioned ''child'' ''child'' ''elder'' second_child 20 sample_grant) t"
      by (simp add: s_def t_def sample_grown_def usurping_ops_def del: lineage_step.simps)
    then show ?thesis by (simp add: two or_same_def)
  qed
  show "\<exists>r c e. bm_get (lg_nodes s) ''root'' = Some r \<and> ln_lifecycle r = LC_Active \<and> ln_spawned_at r = 5
      \<and> ln_children r = [''child''] \<and> bm_get (lg_nodes s) ''child'' = Some c \<and> ln_spawned_at c = 10
      \<and> bm_get (lg_nodes s) ''elder'' = Some e \<and> ln_spawned_at e = 20"
    by (simp add: s t provisioned_node_def founder_node_def)
  show "lg_root_id s = ''root''" "lg_external_parent s = Some ''elder''" "lg_absorptions s = []" "lg_revision s = 2"
    by (simp_all add: s t sample_root_def rooted_state_def)
qed

text \<open>
  a usurped parent ID breaks the store.  The operations accept a descendant with the ID of the
  external parent of the root, and then the absorption of the root by that parent; the lineage they
  leave is refused by the validation of its store.
\<close>

theorem usurped_parent_breaks_reload:
  "\<exists>r. record_external_parent_absorption (lineage_run usurping_ops sample_root) ''root'' ''elder'' 15 []
         = (Inr r, lineage_step sample_absorb (lineage_run usurping_ops sample_root))
     \<and> (\<exists>e. Lineage_from_state (lineage_step sample_absorb (lineage_run usurping_ops sample_root)) = Inl e)"
proof -
  define s where "s = lineage_run usurping_ops sample_root"
  obtain r c e where nodes: "bm_get (lg_nodes s) ''root'' = Some r" "ln_lifecycle r = LC_Active" "ln_spawned_at r = 5"
    "ln_children r = [''child'']" "bm_get (lg_nodes s) ''child'' = Some c" "ln_spawned_at c = 10"
    "bm_get (lg_nodes s) ''elder'' = Some e" "ln_spawned_at e = 20"
    using usurping_nodes(1) unfolding s_def by blast
  have state: "lg_root_id s = ''root''" "lg_external_parent s = Some ''elder''" "lg_absorptions s = []" "lg_revision s = 2"
    unfolding s_def by (rule usurping_nodes)+
  let ?r = "\<lparr>ab_source_id = ''root'', ab_target_id = ''elder'', ab_at = 15, ab_hashes = [], ab_operator_confirmed = False\<rparr>"
  let ?s = "s\<lparr>lg_nodes := bm_insert ''root'' (r\<lparr>ln_lifecycle := LC_Absorbed ''elder'' 15\<rparr>) (lg_nodes s),
              lg_absorptions := [?r], lg_revision := 3\<rparr>"
  have ids: "ev_validate_id ''root'' d = Inr ()" "ev_validate_id ''elder'' d = Inr ()" for d using kin_ids by simp_all
  have step: "record_external_parent_absorption s ''root'' ''elder'' 15 [] = (Inr ?r, ?s)"
    using nodes state
    by (simp add: ids record_external_parent_absorption_def external_checks_def run_checks.simps(1) not_chronological_def
      spawned_after_def absorb_into_def checked_add_def u64_max_def ensure_def MAX_ABSORBED_KNOWLEDGE_HASHES_def validate_hashes_def)
  have "validate_absorptions ?s \<noteq> Inr ()"
    using nodes state by (auto simp: validate_absorptions_def Let_def)
  then have "validate_lineage_state ?s \<noteq> Inr ()" by (simp add: validate_lineage_state_def)
  then have "\<exists>e. Lineage_from_state ?s = Inl e" by (cases "validate_lineage_state ?s") (simp_all add: Lineage_from_state_def)
  then show ?thesis unfolding s_def[symmetric] sample_absorb_def by (simp add: step)
qed

end
