(* ===== verification/Lifecycle_Types.thy ===== *)
theory Lifecycle_Types
  imports Lineage_Types
begin

section \<open>Lifecycle: actions, receipts and their checks (cthuwu: evolution.rs)\<close>

text \<open>
  The actions a Tentacle intends, the receipts that end them, the exact token amounts they carry and
  the checks of all three.  An amount is stored as decimal text of base units.  Addresses and
  configuration identities are byte strings; their widths are those of the source's arrays.  The
  encoder of \<open>serde_json\<close> and SHA-256 are parameters.
\<close>

definition MAX_EXECUTION_DETAIL_BYTES :: nat where "MAX_EXECUTION_DETAIL_BYTES = 1024"
definition LIFECYCLE_SCHEMA_VERSION :: nat where "LIFECYCLE_SCHEMA_VERSION = 1"
definition DEATH_GRACE_PERIOD_MS :: nat where "DEATH_GRACE_PERIOD_MS = 24 * 60 * 60 * 1000"
definition LIFECYCLE_RECEIPT_CLOCK_SKEW_MS :: nat where "LIFECYCLE_RECEIPT_CLOCK_SKEW_MS = 30000"

definition ZERO_ADDRESS :: bytes where "ZERO_ADDRESS = zero_bytes 20"
definition ZERO_IDENTITY :: bytes where "ZERO_IDENTITY = zero_bytes 32"

subsection \<open>Amounts\<close>

record exact_token_amount =
  xa_total_supply_whole :: nat
  xa_token_decimals :: nat
  xa_basis_points :: nat
  xa_raw_amount :: string

record whole_token_amount =
  wa_whole_tokens :: nat
  wa_token_decimals :: nat
  wa_raw_amount :: string

definition EV_U256_MAX_DECIMAL :: string where
  "EV_U256_MAX_DECIMAL = ''115792089237316195423570985008687907853269984665640564039457584007913129639935''"

definition ev_u128_max :: nat where
  "ev_u128_max = 340282366920938463463374607431768211455"

text \<open>Whether decimal text is above the largest 256-bit number: longer, or as long and later.\<close>

definition above_u256 :: "string \<Rightarrow> bool" where
  "above_u256 raw \<longleftrightarrow>
     length raw > length EV_U256_MAX_DECIMAL \<or> (length raw = length EV_U256_MAX_DECIMAL \<and> raw > EV_U256_MAX_DECIMAL)"

definition exact_whole_token_amount :: "nat \<Rightarrow> nat \<Rightarrow> (evolution_error, string) result" where
  "exact_whole_token_amount whole_tokens token_decimals =
     (if whole_tokens = 0 \<or> token_decimals > 77
      then Inl (EV_Invalid ''whole-token amount requires positive units and decimals <= 77'')
      else let raw = decimal whole_tokens @ replicate token_decimals CHR ''0'' in
        if above_u256 raw then Inl (EV_Limit ''whole-token transfer amount'') else Inr raw)"

definition exact_raw_token_amount :: "nat \<Rightarrow> nat \<Rightarrow> nat \<Rightarrow> (evolution_error, string) result" where
  "exact_raw_token_amount total_supply_whole token_decimals basis_points =
     (if total_supply_whole = 0 \<or> token_decimals > 77 \<or> \<not> (1 \<le> basis_points \<and> basis_points \<le> 10000)
      then Inl (EV_Invalid ''raw token amount requires positive supply, decimals <= 77, and 1..=10000 basis points'')
      else if total_supply_whole * basis_points > ev_u128_max then Inl (EV_Limit ''survival token amount'')
      else let numerator = total_supply_whole * basis_points;
               raw = (if token_decimals \<ge> 4 then decimal numerator @ replicate (token_decimals - 4) CHR ''0''
                      else decimal (numerator div 10 ^ (4 - token_decimals))) in
        if raw = ''0'' then Inl (EV_Invalid ''survival burn formula rounds to zero base units'')
        else if above_u256 raw then Inl (EV_Limit ''survival token amount'')
        else Inr raw)"

definition validate_whole_token_amount :: "whole_token_amount \<Rightarrow> (evolution_error, unit) result" where
  "validate_whole_token_amount amount =
     (if wa_whole_tokens amount = 0 \<or> wa_token_decimals amount > 77
      then Inl (EV_Invalid ''whole-token transfer amount requires positive units and decimals <= 77'')
      else and_then (exact_whole_token_amount (wa_whole_tokens amount) (wa_token_decimals amount)) (\<lambda>expected.
        ensure (wa_raw_amount amount = expected)
          (EV_Invalid ''whole-token transfer amount does not match its canonical base-unit formula'')))"

definition validate_exact_token_amount :: "exact_token_amount \<Rightarrow> (evolution_error, unit) result" where
  "validate_exact_token_amount amount =
     (if xa_total_supply_whole amount = 0 \<or> xa_token_decimals amount > 77 \<or> xa_basis_points amount = 0
         \<or> xa_basis_points amount > 10000
      then Inl (EV_Invalid ''exact token amount formula has invalid supply, decimals, or basis points'')
      else and_then (exact_raw_token_amount (xa_total_supply_whole amount) (xa_token_decimals amount)
                       (xa_basis_points amount)) (\<lambda>expected.
        ensure (xa_raw_amount amount = expected)
          (EV_Invalid ''exact token amount does not match its canonical base-unit formula'')))"

subsection \<open>Actions\<close>

record pending_death =
  pd_judgment_id :: string
  pd_scheduled_at :: nat
  pd_grace_ends_at :: nat

record survival_binding =
  sb_basis_points :: nat
  sb_chain_id :: nat
  sb_token_contract :: bytes
  sb_treasury_address :: bytes
  sb_configuration_identity :: bytes
  sb_exact_amount :: exact_token_amount

datatype contribution_kind = CK_Name | CK_Hopes | CK_Resources | CK_Needs | CK_MissionIdea

record survival_spend =
  ss_tentacle_id :: string
  ss_judgment_id :: string
  ss_attempt :: nat
  ss_grace_ends_at :: nat
  ss_basis_points :: nat
  ss_chain_id :: nat
  ss_token_contract :: bytes
  ss_treasury_address :: bytes
  ss_burn_destination :: bytes
  ss_configuration_identity :: bytes
  ss_exact_amount :: exact_token_amount

text \<open>The fields the two rewards share; both transfer whole tokens to an acolyte.\<close>

record token_reward =
  tr_tentacle_id :: string
  tr_event_sha256 :: string
  tr_chain_id :: nat
  tr_token_contract :: bytes
  tr_treasury_address :: bytes
  tr_acolyte_address :: bytes
  tr_configuration_identity :: bytes
  tr_exact_amount :: whole_token_amount

record spawn_plan =
  sn_parent_id :: string
  sn_child_id :: string
  sn_judgment_id :: string
  sn_child_nature :: tentacle_nature
  sn_actor_id :: string
  sn_event_sha256 :: string

datatype lifecycle_action =
    SpendForSurvival survival_spend
  | RewardVeniceKey token_reward
  | RewardAcolyteContribution contribution_kind nat token_reward
  | Absorb string string string
  | Spawn spawn_plan
  | Shutdown string string "string option"

definition is_absorb :: "lifecycle_action \<Rightarrow> bool" where
  "is_absorb a = (case a of Absorb source target judgment \<Rightarrow> True | _ \<Rightarrow> False)"

definition is_spawn :: "lifecycle_action \<Rightarrow> bool" where
  "is_spawn a = (case a of Spawn p \<Rightarrow> True | _ \<Rightarrow> False)"

definition is_shutdown :: "lifecycle_action \<Rightarrow> bool" where
  "is_shutdown a = (case a of Shutdown i judgment dependency \<Rightarrow> True | _ \<Rightarrow> False)"

definition is_reward :: "lifecycle_action \<Rightarrow> bool" where
  "is_reward a = (case a of RewardVeniceKey r \<Rightarrow> True | RewardAcolyteContribution k h r \<Rightarrow> True | _ \<Rightarrow> False)"

text \<open>The judgment a survival spend, an absorption or a shutdown answers to.\<close>

definition spends_for :: "string \<Rightarrow> lifecycle_action \<Rightarrow> bool" where
  "spends_for judgment a = (case a of SpendForSurvival p \<Rightarrow> ss_judgment_id p = judgment | _ \<Rightarrow> False)"

definition absorbs_for :: "string \<Rightarrow> lifecycle_action \<Rightarrow> bool" where
  "absorbs_for judgment a = (case a of Absorb source target j \<Rightarrow> j = judgment | _ \<Rightarrow> False)"

definition shuts_down_for :: "string \<Rightarrow> lifecycle_action \<Rightarrow> bool" where
  "shuts_down_for judgment a = (case a of Shutdown i j dependency \<Rightarrow> j = judgment | _ \<Rightarrow> False)"

lemmas action_kinds = is_absorb_def is_spawn_def is_shutdown_def is_reward_def spends_for_def absorbs_for_def shuts_down_for_def

definition unbound_reward :: "token_reward \<Rightarrow> bool" where
  "unbound_reward r \<longleftrightarrow>
     tr_chain_id r \<noteq> 8453 \<or> tr_token_contract r = ZERO_ADDRESS \<or> tr_treasury_address r = ZERO_ADDRESS
     \<or> tr_acolyte_address r = ZERO_ADDRESS \<or> tr_treasury_address r = tr_acolyte_address r
     \<or> tr_configuration_identity r = ZERO_IDENTITY"

fun validate_lifecycle_action :: "lifecycle_action \<Rightarrow> (evolution_error, unit) result" where
  "validate_lifecycle_action (SpendForSurvival p) =
     run_checks
       [ev_validate_id (ss_tentacle_id p) ''survival Tentacle ID'',
        ev_validate_sha256 (ss_judgment_id p) ''survival judgment ID'',
        ensure (\<not> (ss_basis_points p = 0 \<or> ss_basis_points p > 10000))
          (EV_Invalid ''survival expenditure must be within 1..=10000 basis points''),
        ensure (\<not> (ss_chain_id p = 0 \<or> ss_token_contract p = ZERO_ADDRESS \<or> ss_treasury_address p = ZERO_ADDRESS
                  \<or> ss_configuration_identity p = ZERO_IDENTITY \<or> ss_grace_ends_at p = 0))
          (EV_Invalid ''survival spend is missing its bound chain, token, treasury, or configuration''),
        ensure (ss_burn_destination p = ZERO_ADDRESS)
          (EV_Invalid ''survival burn destination must be the canonical zero address''),
        validate_exact_token_amount (ss_exact_amount p),
        ensure (xa_basis_points (ss_exact_amount p) = ss_basis_points p)
          (EV_Invalid ''survival spend amount disagrees with its expenditure basis points'')]"
| "validate_lifecycle_action (RewardVeniceKey r) =
     run_checks
       [ev_validate_id (tr_tentacle_id r) ''Venice-key reward Tentacle ID'',
        ev_validate_sha256 (tr_event_sha256 r) ''Venice-key provision event ID digest'',
        ensure (\<not> unbound_reward r)
          (EV_Invalid ''Venice-key reward is missing its exact Base token, treasury, acolyte, or configuration binding''),
        validate_whole_token_amount (tr_exact_amount r)]"
| "validate_lifecycle_action (RewardAcolyteContribution k hunger r) =
     run_checks
       [ev_validate_id (tr_tentacle_id r) ''contribution reward Tentacle ID'',
        ev_validate_sha256 (tr_event_sha256 r) ''contribution event ID digest'',
        ensure (\<not> (hunger < 10 \<or> hunger > 100))
          (EV_Invalid ''contribution reward hunger must be between 0.1% and 1%''),
        ensure (\<not> unbound_reward r)
          (EV_Invalid ''contribution reward is missing its exact Base token, treasury, acolyte, or configuration binding''),
        validate_whole_token_amount (tr_exact_amount r)]"
| "validate_lifecycle_action (Absorb source target judgment) =
     run_checks
       [ev_validate_id source ''absorption source ID'',
        ev_validate_id target ''absorption target ID'',
        ev_validate_sha256 judgment ''absorption death judgment ID'',
        ensure (source \<noteq> target) (EV_Conflict ''a Tentacle cannot absorb itself'')]"
| "validate_lifecycle_action (Spawn p) =
     run_checks
       [ev_validate_id (sn_parent_id p) ''spawn parent ID'',
        ev_validate_id (sn_child_id p) ''spawn child ID'',
        ev_validate_sha256 (sn_judgment_id p) ''spawn judgment ID'',
        ev_validate_id (sn_actor_id p) ''spawn authorization actor ID'',
        ev_validate_sha256 (sn_event_sha256 p) ''spawn authorization event ID digest'',
        ev_validate_nature (sn_child_nature p),
        ensure (\<not> (na_parent_id (sn_child_nature p) = None \<or> na_generation (sn_child_nature p) = 0))
          (EV_Invalid ''spawn action child Nature must contain inherited lineage metadata'')]"
| "validate_lifecycle_action (Shutdown i judgment after) =
     run_checks
       [ev_validate_id i ''shutdown Tentacle ID'',
        ev_validate_sha256 judgment ''shutdown death judgment ID'',
        (case after of None \<Rightarrow> Inr () | Some a \<Rightarrow> ev_validate_sha256 a ''shutdown dependency action ID'')]"

subsection \<open>Intents and receipts\<close>

record lifecycle_intent =
  in_action_id :: string
  in_created_at :: nat
  in_action :: lifecycle_action

datatype receipt_status = RS_Succeeded | RS_Failed | RS_Blocked

datatype spend_operation = Burn

record transfer_receipt =
  tx_chain_id :: nat
  tx_transaction_hash :: string
  tx_block_number :: nat
  tx_block_timestamp :: nat
  tx_token_contract :: bytes
  tx_from_address :: bytes
  tx_to_address :: bytes
  tx_configuration_identity :: bytes
  tx_exact_amount :: whole_token_amount

record chain_receipt =
  cx_chain_id :: nat
  cx_transaction_hash :: string
  cx_block_number :: nat
  cx_block_timestamp :: nat
  cx_token_contract :: bytes
  cx_from_address :: bytes
  cx_burn_destination :: bytes
  cx_configuration_identity :: bytes
  cx_exact_amount :: exact_token_amount
  cx_operation :: spend_operation

record provision_receipt =
  pv_child_id :: string
  pv_child_fingerprint :: string
  pv_manifest_sha256 :: string

record lifecycle_receipt =
  rc_action_id :: string
  rc_completed_at :: nat
  rc_status :: receipt_status
  rc_external_reference :: "string option"
  rc_detail :: "string option"
  rc_chain :: "chain_receipt option"
  rc_transfer :: "transfer_receipt option"
  rc_provision :: "provision_receipt option"

record evolution_libs =
  el_encode :: "lifecycle_action \<Rightarrow> (string, bytes) result"
  el_crypto :: nature_crypto

definition lifecycle_action_id :: "evolution_libs \<Rightarrow> lifecycle_action \<Rightarrow> (evolution_error, string) result" where
  "lifecycle_action_id L action =
     and_then (map_err EV_Json (el_encode L action)) (\<lambda>canonical.
       Inr (encode_hex (nc_sha256 (el_crypto L) (text_bytes ''cthuwu-lifecycle-action-v1'' @ 0 # canonical))))"

definition validate_execution_text :: "string option \<Rightarrow> string \<Rightarrow> (evolution_error, unit) result" where
  "validate_execution_text value description =
     (case value of
        None \<Rightarrow> Inr ()
      | Some v \<Rightarrow> ensure (\<not> (v = [] \<or> length v > MAX_EXECUTION_DETAIL_BYTES \<or> has_control v))
          (EV_Invalid (description @ '' is empty, oversized, or contains control characters'')))"

definition transaction_hash_text :: "string \<Rightarrow> bool" where
  "transaction_hash_text h \<longleftrightarrow> length h = 66 \<and> take 2 h = ''0x'' \<and> list_all is_lower_hex (drop 2 h)"

definition validate_chain_receipt :: "chain_receipt \<Rightarrow> (evolution_error, unit) result" where
  "validate_chain_receipt r =
     run_checks
       [ensure (\<not> (cx_chain_id r = 0 \<or> cx_block_number r = 0 \<or> cx_block_timestamp r = 0))
          (EV_Invalid ''confirmed chain receipt requires nonzero chain, block, and block timestamp''),
        ensure (transaction_hash_text (cx_transaction_hash r))
          (EV_Invalid ''confirmed transaction hash must be lowercase 0x-prefixed 32-byte hex''),
        ensure (\<not> (cx_token_contract r = ZERO_ADDRESS \<or> cx_from_address r = ZERO_ADDRESS
                  \<or> cx_configuration_identity r = ZERO_IDENTITY \<or> cx_burn_destination r \<noteq> ZERO_ADDRESS))
          (EV_Invalid ''confirmed token burn receipt has invalid token, source, destination, or configuration binding''),
        validate_exact_token_amount (cx_exact_amount r)]"

definition validate_transfer_receipt :: "transfer_receipt \<Rightarrow> (evolution_error, unit) result" where
  "validate_transfer_receipt r =
     run_checks
       [ensure (\<not> (tx_chain_id r \<noteq> 8453 \<or> tx_block_number r = 0 \<or> tx_block_timestamp r = 0
                  \<or> tx_token_contract r = ZERO_ADDRESS \<or> tx_from_address r = ZERO_ADDRESS
                  \<or> tx_to_address r = ZERO_ADDRESS \<or> tx_from_address r = tx_to_address r
                  \<or> tx_configuration_identity r = ZERO_IDENTITY))
          (EV_Invalid ''confirmed Venice-key reward receipt has invalid chain, token, address, block, or configuration binding''),
        ensure (transaction_hash_text (tx_transaction_hash r))
          (EV_Invalid ''confirmed transfer hash must be lowercase 0x-prefixed 32-byte hex''),
        validate_whole_token_amount (tx_exact_amount r)]"

definition validate_provision_receipt :: "provision_receipt \<Rightarrow> (evolution_error, unit) result" where
  "validate_provision_receipt r =
     run_checks
       [ev_validate_id (pv_child_id r) ''provisioned child ID'',
        ev_validate_sha256 (pv_child_fingerprint r) ''provisioned child Nature fingerprint'',
        ev_validate_sha256 (pv_manifest_sha256 r) ''provisioning manifest digest'']"

text \<open>What the receipt of a successful action must prove, one equation for each kind of action.\<close>

definition receipt_ms :: "nat \<Rightarrow> nat" where
  "receipt_ms seconds = saturating_mul u64_max seconds 1000"

definition check_transfer ::
  "string \<Rightarrow> string \<Rightarrow> token_reward \<Rightarrow> nat \<Rightarrow> lifecycle_receipt \<Rightarrow> (evolution_error, unit) result" where
  "check_transfer missing mismatch p created_at receipt =
     and_then (ok_or (EV_Invalid missing) (rc_transfer receipt)) (\<lambda>c.
       ensure (\<not> (tx_chain_id c \<noteq> tr_chain_id p \<or> tx_token_contract c \<noteq> tr_token_contract p
                 \<or> tx_from_address c \<noteq> tr_treasury_address p \<or> tx_to_address c \<noteq> tr_acolyte_address p
                 \<or> tx_configuration_identity c \<noteq> tr_configuration_identity p
                 \<or> tx_exact_amount c \<noteq> tr_exact_amount p \<or> receipt_ms (tx_block_timestamp c) < created_at))
         (EV_Invalid mismatch))"

fun check_evidence ::
  "evolution_libs \<Rightarrow> lifecycle_action \<Rightarrow> nat \<Rightarrow> lifecycle_receipt \<Rightarrow> (evolution_error, unit) result" where
  "check_evidence L (SpendForSurvival p) created_at receipt =
     and_then (ok_or (EV_Invalid ''successful survival spend lacks confirmed chain evidence'') (rc_chain receipt)) (\<lambda>c.
       ensure (\<not> (cx_chain_id c \<noteq> ss_chain_id p \<or> cx_token_contract c \<noteq> ss_token_contract p
                 \<or> cx_from_address c \<noteq> ss_treasury_address p \<or> cx_burn_destination c \<noteq> ss_burn_destination p
                 \<or> cx_configuration_identity c \<noteq> ss_configuration_identity p
                 \<or> cx_exact_amount c \<noteq> ss_exact_amount p \<or> cx_operation c \<noteq> Burn
                 \<or> receipt_ms (cx_block_timestamp c) < created_at
                 \<or> receipt_ms (cx_block_timestamp c) > ss_grace_ends_at p))
         (EV_Invalid ''survival receipt does not match the exact burn action''))"
| "check_evidence L (RewardVeniceKey p) created_at receipt =
     check_transfer ''successful Venice-key reward lacks confirmed transfer evidence''
       ''Venice-key reward receipt does not match the exact transfer action'' p created_at receipt"
| "check_evidence L (RewardAcolyteContribution k hunger p) created_at receipt =
     check_transfer ''successful contribution reward lacks confirmed transfer evidence''
       ''contribution reward receipt does not match the exact transfer action'' p created_at receipt"
| "check_evidence L (Absorb source target judgment) created_at receipt =
     and_then (ok_or (EV_Invalid ''successful absorption lacks a transfer-manifest digest'')
       (rc_external_reference receipt)) (\<lambda>reference.
     ev_validate_sha256 reference ''absorption transfer-manifest digest'')"
| "check_evidence L (Spawn p) created_at receipt =
     and_then (ok_or (EV_Invalid ''successful spawn lacks structured provision evidence'') (rc_provision receipt)) (\<lambda>provision.
     and_then (map_err EV_Nature (nature_fingerprint (el_crypto L) (sn_child_nature p))) (\<lambda>fingerprint.
       ensure (\<not> (pv_child_id provision \<noteq> sn_child_id p \<or> pv_child_fingerprint provision \<noteq> fingerprint))
         (EV_Invalid ''provision receipt does not match the planned child'')))"
| "check_evidence L (Shutdown i judgment after) created_at receipt =
     ensure (rc_external_reference receipt \<noteq> None)
       (EV_Invalid ''successful shutdown lacks a process-controller acknowledgement'')"

definition validate_lifecycle_receipt ::
  "evolution_libs \<Rightarrow> lifecycle_intent \<Rightarrow> lifecycle_receipt \<Rightarrow> (evolution_error, unit) result" where
  "validate_lifecycle_receipt L i receipt =
     run_checks
       [validate_execution_text (rc_external_reference receipt) ''external reference'',
        validate_execution_text (rc_detail receipt) ''execution detail'',
        ensure (\<not> rc_completed_at receipt < in_created_at i) (EV_Invalid ''lifecycle receipt predates its intent''),
        (case rc_chain receipt of None \<Rightarrow> Inr () | Some c \<Rightarrow> validate_chain_receipt c),
        (case rc_transfer receipt of None \<Rightarrow> Inr () | Some t \<Rightarrow> validate_transfer_receipt t),
        (case rc_provision receipt of None \<Rightarrow> Inr () | Some p \<Rightarrow> validate_provision_receipt p),
        (if rc_status receipt \<noteq> RS_Succeeded then Inr ()
         else check_evidence L (in_action i) (in_created_at i) receipt)]"

end
