(* ===== verification/Bot_Lifecycle.thy ===== *)
theory Bot_Lifecycle
  imports Lifecycle_Types
begin

section \<open>Lifecycle: state and operations (cthuwu: evolution.rs)\<close>

text \<open>
  The outbox of a Tentacle: what it intends, what was acknowledged, what was canceled and the pending
  death.  An operation may change the state before a later step of it fails, so every operation
  returns the state beside its result, and the steps are sequenced with \<open>lc_then\<close>.
\<close>

record spawn_projection =
  sp_completed_at :: nat
  sp_period_started_at :: int

record lifecycle_state =
  lf_schema_version :: nat
  lf_revision :: nat
  lf_tentacle_id :: string
  lf_auto_spawn :: bool
  lf_pending_death :: "pending_death option"
  lf_shutdown_at :: "nat option"
  lf_intents :: "(string, lifecycle_intent) bmap"
  lf_receipts :: "lifecycle_receipt list"
  lf_canceled :: "string bset"
  lf_pending_projections :: "string bset"
  lf_absorption_projections :: "(string, nat) bmap"
  lf_spawn_projections :: "(string, spawn_projection) bmap"

type_synonym 'a lifecycle_result = "(evolution_error, 'a) result \<times> lifecycle_state"

definition lc_then ::
  "'a lifecycle_result \<Rightarrow> ('a \<Rightarrow> lifecycle_state \<Rightarrow> 'b lifecycle_result) \<Rightarrow> 'b lifecycle_result" where
  "lc_then r f = (case r of (Inl e, s) \<Rightarrow> (Inl e, s) | (Inr x, s) \<Rightarrow> f x s)"

text \<open>A check that leaves the state alone.\<close>

definition lc_check ::
  "(evolution_error, 'a) result \<Rightarrow> lifecycle_state \<Rightarrow> ('a \<Rightarrow> 'b lifecycle_result) \<Rightarrow> 'b lifecycle_result" where
  "lc_check r s f = (case r of Inl e \<Rightarrow> (Inl e, s) | Inr x \<Rightarrow> f x)"

definition Lifecycle_new :: "string \<Rightarrow> bool \<Rightarrow> (evolution_error, lifecycle_state) result" where
  "Lifecycle_new i auto_spawn =
     and_then (ev_validate_id i ''lifecycle Tentacle ID'') (\<lambda>_.
       Inr \<lparr>lf_schema_version = LIFECYCLE_SCHEMA_VERSION, lf_revision = 0, lf_tentacle_id = i,
            lf_auto_spawn = auto_spawn, lf_pending_death = None, lf_shutdown_at = None, lf_intents = bm_empty,
            lf_receipts = [], lf_canceled = bs_empty, lf_pending_projections = bs_empty,
            lf_absorption_projections = bm_empty, lf_spawn_projections = bm_empty\<rparr>)"

definition bump_revision :: "lifecycle_state \<Rightarrow> unit lifecycle_result" where
  "bump_revision s =
     (case checked_add u64_max (lf_revision s) 1 of
        None \<Rightarrow> (Inl (EV_Limit ''lifecycle revision''), s)
      | Some revision \<Rightarrow> (Inr (), s\<lparr>lf_revision := revision\<rparr>))"

definition receipt_of :: "lifecycle_state \<Rightarrow> string \<Rightarrow> lifecycle_receipt option" where
  "receipt_of s i = find (\<lambda>r. rc_action_id r = i) (lf_receipts s)"

definition action_succeeded :: "lifecycle_state \<Rightarrow> string \<Rightarrow> bool" where
  "action_succeeded s i = (case receipt_of s i of None \<Rightarrow> False | Some r \<Rightarrow> rc_status r = RS_Succeeded)"

definition death_pending :: "lifecycle_state \<Rightarrow> bool" where
  "death_pending s = (lf_pending_death s \<noteq> None)"

definition set_auto_spawn_enabled :: "bool \<Rightarrow> lifecycle_state \<Rightarrow> bool lifecycle_result" where
  "set_auto_spawn_enabled enabled s =
     (if lf_auto_spawn s = enabled then (Inr False, s)
      else lc_then (bump_revision (s\<lparr>lf_auto_spawn := enabled\<rparr>)) (\<lambda>_ s. (Inr True, s)))"

text \<open>The action IDs of the intents that satisfy a condition, in the order of the map.\<close>

definition ids_where :: "(lifecycle_intent \<Rightarrow> bool) \<Rightarrow> lifecycle_state \<Rightarrow> string list" where
  "ids_where P s = map in_action_id (filter P (bm_values (lf_intents s)))"

definition insert_intent :: "evolution_libs \<Rightarrow> nat \<Rightarrow> lifecycle_action \<Rightarrow> lifecycle_state \<Rightarrow> lifecycle_intent lifecycle_result" where
  "insert_intent L created_at action s =
     lc_check (validate_lifecycle_action action) s (\<lambda>_.
     lc_check (lifecycle_action_id L action) s (\<lambda>i.
       case bm_get (lf_intents s) i of
         Some existing \<Rightarrow> (Inr existing, s)
       | None \<Rightarrow>
           let inserted = \<lparr>in_action_id = i, in_created_at = created_at, in_action = action\<rparr> in
           lc_then (bump_revision (s\<lparr>lf_intents := bm_insert i inserted (lf_intents s)\<rparr>)) (\<lambda>_ s. (Inr inserted, s))))"

definition enqueue_venice_key_reward ::
  "evolution_libs \<Rightarrow> nat \<Rightarrow> lifecycle_action \<Rightarrow> lifecycle_state \<Rightarrow> lifecycle_intent lifecycle_result" where
  "enqueue_venice_key_reward L created_at action s =
     (case action of
        RewardVeniceKey r \<Rightarrow> insert_intent L created_at action s
      | _ \<Rightarrow> (Inl (EV_Invalid ''Venice-key reward enqueue requires its exact action type''), s))"

definition enqueue_acolyte_contribution_reward ::
  "evolution_libs \<Rightarrow> nat \<Rightarrow> lifecycle_action \<Rightarrow> lifecycle_state \<Rightarrow> lifecycle_intent lifecycle_result" where
  "enqueue_acolyte_contribution_reward L created_at action s =
     (case action of
        RewardAcolyteContribution k hunger r \<Rightarrow> insert_intent L created_at action s
      | _ \<Rightarrow> (Inl (EV_Invalid ''acolyte contribution reward enqueue requires its exact action type''), s))"

definition enqueue_spawn ::
  "evolution_libs \<Rightarrow> nat \<Rightarrow> spawn_plan \<Rightarrow> lifecycle_state \<Rightarrow> lifecycle_intent lifecycle_result" where
  "enqueue_spawn L created_at p s = insert_intent L created_at (Spawn p) s"

definition enqueue_absorption ::
  "evolution_libs \<Rightarrow> nat \<Rightarrow> string \<Rightarrow> string \<Rightarrow> string \<Rightarrow> lifecycle_state \<Rightarrow> lifecycle_intent lifecycle_result" where
  "enqueue_absorption L created_at source target judgment s = insert_intent L created_at (Absorb source target judgment) s"

subsection \<open>Deaths\<close>

definition unreceipted_spend :: "lifecycle_state \<Rightarrow> string \<Rightarrow> lifecycle_intent \<Rightarrow> bool" where
  "unreceipted_spend s judgment i = (spends_for judgment (in_action i) \<and> receipt_of s (in_action_id i) = None)"

definition same_binding :: "nat \<Rightarrow> survival_binding \<Rightarrow> lifecycle_action \<Rightarrow> bool" where
  "same_binding grace_ends_at b a =
     (case a of
        SpendForSurvival p \<Rightarrow>
          ss_grace_ends_at p = grace_ends_at \<and> ss_basis_points p = sb_basis_points b \<and> ss_chain_id p = sb_chain_id b
          \<and> ss_token_contract p = sb_token_contract b \<and> ss_treasury_address p = sb_treasury_address b
          \<and> ss_configuration_identity p = sb_configuration_identity b \<and> ss_exact_amount p = sb_exact_amount b
      | _ \<Rightarrow> False)"

definition spend_attempts :: "lifecycle_state \<Rightarrow> string \<Rightarrow> nat list" where
  "spend_attempts s judgment =
     List.map_filter (\<lambda>i. case in_action i of
         SpendForSurvival p \<Rightarrow> if ss_judgment_id p = judgment then Some (ss_attempt p) else None
       | _ \<Rightarrow> None) (bm_values (lf_intents s))"

definition next_attempt :: "lifecycle_state \<Rightarrow> string \<Rightarrow> nat" where
  "next_attempt s judgment =
     (case spend_attempts s judgment of
        [] \<Rightarrow> 0
      | a # as \<Rightarrow> saturating_add u32_max (foldl max a as) 1)"

definition survival_action :: "lifecycle_state \<Rightarrow> string \<Rightarrow> nat \<Rightarrow> survival_binding \<Rightarrow> lifecycle_action" where
  "survival_action s judgment grace_ends_at b =
     SpendForSurvival
       \<lparr>ss_tentacle_id = lf_tentacle_id s, ss_judgment_id = judgment, ss_attempt = next_attempt s judgment,
        ss_grace_ends_at = grace_ends_at, ss_basis_points = sb_basis_points b, ss_chain_id = sb_chain_id b,
        ss_token_contract = sb_token_contract b, ss_treasury_address = sb_treasury_address b,
        ss_burn_destination = ZERO_ADDRESS, ss_configuration_identity = sb_configuration_identity b,
        ss_exact_amount = sb_exact_amount b\<rparr>"

definition enqueue_survival_spend ::
  "evolution_libs \<Rightarrow> string \<Rightarrow> nat \<Rightarrow> survival_binding \<Rightarrow> lifecycle_state \<Rightarrow> bool lifecycle_result" where
  "enqueue_survival_spend L judgment created_at b s =
     lc_check (ok_or (EV_Conflict ''no pending death can receive a survival spend'') (lf_pending_death s)) s (\<lambda>pending.
     if pd_judgment_id pending \<noteq> judgment \<or> created_at > pd_grace_ends_at pending
     then (Inl (EV_Conflict ''survival spend is outside its exact pending death grace period''), s)
     else (case find (unreceipted_spend s judgment) (bm_values (lf_intents s)) of
         Some existing \<Rightarrow>
           if same_binding (pd_grace_ends_at pending) b (in_action existing)
           then (if bs_member (lf_canceled s) (in_action_id existing)
                 then lc_then (bump_revision (s\<lparr>lf_canceled := bs_remove (in_action_id existing) (lf_canceled s)\<rparr>))
                        (\<lambda>_ s. (Inr True, s))
                 else (Inr False, s))
           else (Inl (EV_Conflict ''an unreceipted survival burn must be reconciled on-chain before its binding can change''), s)
       | None \<Rightarrow>
           lc_then (insert_intent L created_at (survival_action s judgment (pd_grace_ends_at pending) b) s)
             (\<lambda>_ s'. (Inr (bm_len (lf_intents s') \<noteq> bm_len (lf_intents s)), s'))))"

definition schedule_death ::
  "evolution_libs \<Rightarrow> string \<Rightarrow> nat \<Rightarrow> nat \<Rightarrow> survival_binding option \<Rightarrow> lifecycle_state \<Rightarrow> bool lifecycle_result" where
  "schedule_death L judgment scheduled_at grace_period spend s =
     lc_check (ev_validate_sha256 judgment ''death judgment ID'') s (\<lambda>_.
     case lf_pending_death s of
       Some existing \<Rightarrow>
         if pd_judgment_id existing = judgment then (Inr False, s)
         else (Inl (EV_Conflict ''a death grace period is already active''), s)
     | None \<Rightarrow>
         lc_check (ok_or (EV_Limit ''death grace timestamp'') (checked_add u64_max scheduled_at grace_period)) s (\<lambda>grace_ends_at.
         lc_then (bump_revision (s\<lparr>lf_pending_death := Some \<lparr>pd_judgment_id = judgment,
                    pd_scheduled_at = scheduled_at, pd_grace_ends_at = grace_ends_at\<rparr>\<rparr>)) (\<lambda>_ s.
         case spend of
           None \<Rightarrow> (Inr True, s)
         | Some b \<Rightarrow>
             if sb_basis_points b > 0
             then lc_then (enqueue_survival_spend L judgment scheduled_at b s) (\<lambda>_ s. (Inr True, s))
             else (Inr True, s))))"

definition cancel_all :: "string list \<Rightarrow> lifecycle_state \<Rightarrow> lifecycle_state" where
  "cancel_all ids s = s\<lparr>lf_canceled := fold bs_insert ids (lf_canceled s)\<rparr>"

text \<open>Whether some insertion of the list was new.\<close>

definition cancels_any :: "string list \<Rightarrow> lifecycle_state \<Rightarrow> bool" where
  "cancels_any ids s = list_ex (\<lambda>i. \<not> bs_member (lf_canceled s) i) ids"

definition cancel_pending_survival_spends :: "string \<Rightarrow> lifecycle_state \<Rightarrow> bool lifecycle_result" where
  "cancel_pending_survival_spends judgment s =
     lc_check (ev_validate_sha256 judgment ''survival judgment ID'') s (\<lambda>_.
       let ids = ids_where (unreceipted_spend s judgment) s; changed = cancels_any ids s in
       if changed then lc_then (bump_revision (cancel_all ids s)) (\<lambda>_ s. (Inr True, s))
       else (Inr False, s))"

definition own_absorption :: "lifecycle_state \<Rightarrow> string \<Rightarrow> lifecycle_intent \<Rightarrow> bool" where
  "own_absorption s judgment i =
     (case in_action i of Absorb source target j \<Rightarrow> source = lf_tentacle_id s \<and> j = judgment | _ \<Rightarrow> False)"

definition reconcile_expired_death ::
  "evolution_libs \<Rightarrow> nat \<Rightarrow> string option \<Rightarrow> lifecycle_state \<Rightarrow> bool lifecycle_result" where
  "reconcile_expired_death L now absorption_target s =
     (case lf_pending_death s of
        None \<Rightarrow> (Inr False, s)
      | Some pending \<Rightarrow>
          if now < pd_grace_ends_at pending then (Inr False, s)
          else
            let judgment = pd_judgment_id pending;
                ids = ids_where (unreceipted_spend s judgment) s;
                canceled = cancels_any ids s;
                s = cancel_all ids s in
            lc_then
              (case absorption_target of
                 None \<Rightarrow> (Inr canceled, s)
               | Some target \<Rightarrow>
                   if list_ex (own_absorption s judgment) (bm_values (lf_intents s)) then (Inr canceled, s)
                   else lc_then (enqueue_absorption L now (lf_tentacle_id s) target judgment s) (\<lambda>_ s. (Inr True, s)))
              (\<lambda>changed s.
                 lc_then (insert_intent L now
                            (Shutdown (lf_tentacle_id s) judgment
                              (map_option in_action_id (find (own_absorption s judgment) (bm_values (lf_intents s))))) s)
                   (\<lambda>_ s'.
                      let grown = bm_len (lf_intents s') \<noteq> bm_len (lf_intents s) in
                      if changed then lc_then (bump_revision s') (\<lambda>_ s'. (Inr True, s'))
                      else (Inr grown, s'))))"

subsection \<open>Projections\<close>

definition succeeded_absorption :: "lifecycle_state \<Rightarrow> string \<Rightarrow> lifecycle_receipt \<Rightarrow> bool" where
  "succeeded_absorption s judgment r =
     (rc_status r = RS_Succeeded
      \<and> (case bm_get (lf_intents s) (rc_action_id r) of None \<Rightarrow> False | Some i \<Rightarrow> absorbs_for judgment (in_action i)))"

text \<open>Whether the receipt ends an absorption of the pending death that was not canceled or projected.\<close>

definition unapplied_absorption :: "lifecycle_state \<Rightarrow> lifecycle_receipt \<Rightarrow> bool" where
  "unapplied_absorption s r =
     (case lf_pending_death s of
        None \<Rightarrow> False
      | Some pending \<Rightarrow>
          succeeded_absorption s (pd_judgment_id pending) r
          \<and> \<not> bm_contains (lf_absorption_projections s) (rc_action_id r)
          \<and> (case bm_get (lf_intents s) (rc_action_id r) of
               None \<Rightarrow> False | Some i \<Rightarrow> \<not> bs_member (lf_canceled s) (in_action_id i)))"

definition has_unapplied_absorption_projection :: "lifecycle_state \<Rightarrow> bool" where
  "has_unapplied_absorption_projection s = list_ex (unapplied_absorption s) (lf_receipts s)"

definition has_mandatory_recovery_work :: "lifecycle_state \<Rightarrow> bool" where
  "has_mandatory_recovery_work s =
     (lf_shutdown_at s \<noteq> None \<or> lf_pending_death s \<noteq> None \<or> has_unapplied_absorption_projection s
      \<or> list_ex (\<lambda>i. receipt_of s (in_action_id i) = None \<and> \<not> bs_member (lf_canceled s) (in_action_id i)
           \<and> (is_absorb (in_action i) \<or> is_shutdown (in_action i))) (bm_values (lf_intents s)))"

definition retire_legacy_death_as_dormancy :: "lifecycle_state \<Rightarrow> bool lifecycle_result" where
  "retire_legacy_death_as_dormancy s =
     (case lf_pending_death s of
        None \<Rightarrow> (Inr False, s)
      | Some pending \<Rightarrow>
          if list_ex (succeeded_absorption s (pd_judgment_id pending)) (lf_receipts s)
             \<or> has_unapplied_absorption_projection s
          then (Inl (EV_Conflict ''legacy Death already completed external absorption and cannot be revived locally''), s)
          else
            let ids = ids_where (\<lambda>i. receipt_of s (in_action_id i) = None
                   \<and> (spends_for (pd_judgment_id pending) (in_action i) \<or> absorbs_for (pd_judgment_id pending) (in_action i)
                      \<or> shuts_down_for (pd_judgment_id pending) (in_action i))) s in
            lc_then (bump_revision ((cancel_all ids s)\<lparr>lf_pending_death := None, lf_shutdown_at := None\<rparr>))
              (\<lambda>_ s. (Inr True, s)))"

definition awaits_projection :: "lifecycle_state \<Rightarrow> lifecycle_intent \<Rightarrow> bool" where
  "awaits_projection s i =
     (case lf_pending_death s of
        None \<Rightarrow> False
      | Some pending \<Rightarrow>
          absorbs_for (pd_judgment_id pending) (in_action i) \<and> \<not> bs_member (lf_canceled s) (in_action_id i)
          \<and> \<not> bm_contains (lf_absorption_projections s) (in_action_id i))"

definition expected_projections :: "lifecycle_state \<Rightarrow> string list" where
  "expected_projections s =
     List.map_filter (\<lambda>r. case bm_get (lf_intents s) (rc_action_id r) of
         None \<Rightarrow> None
       | Some i \<Rightarrow> if awaits_projection s i then Some (in_action_id i) else None)
       (filter (\<lambda>r. rc_status r = RS_Succeeded) (lf_receipts s))"

definition reconcile_absorption_projection_tracking :: "lifecycle_state \<Rightarrow> bool lifecycle_result" where
  "reconcile_absorption_projection_tracking s =
     (let tracked = fold bs_insert (expected_projections s) (lf_pending_projections s);
          s' = s\<lparr>lf_pending_projections := tracked\<rparr> in
      if bs_len tracked = bs_len (lf_pending_projections s) then (Inr False, s')
      else lc_then (bump_revision s') (\<lambda>_ s. (Inr True, s)))"

definition record_absorption_projection :: "string \<Rightarrow> nat \<Rightarrow> lifecycle_state \<Rightarrow> bool lifecycle_result" where
  "record_absorption_projection i projected_at s =
     lc_check (ev_validate_sha256 i ''absorption projection action ID'') s (\<lambda>_.
     lc_check (ok_or (EV_NotFound i) (bm_get (lf_intents s) i)) s (\<lambda>intent.
     if \<not> is_absorb (in_action intent)
     then (Inl (EV_Conflict ''only an absorption action can receive an absorption projection marker''), s)
     else lc_check (ok_or (EV_Conflict ''absorption projection requires a terminal executor receipt'') (receipt_of s i)) s (\<lambda>receipt.
     if rc_status receipt \<noteq> RS_Succeeded
        \<or> rc_completed_at receipt > saturating_add u64_max projected_at LIFECYCLE_RECEIPT_CLOCK_SKEW_MS
     then (Inl (EV_Conflict ''absorption projection must follow its successful executor receipt''), s)
     else (case bm_get (lf_absorption_projections s) i of
         Some existing \<Rightarrow>
           if existing = projected_at then (Inr False, s)
           else (Inl (EV_Conflict ''absorption action already has a different lineage projection''), s)
       | None \<Rightarrow>
           lc_then (bump_revision (s\<lparr>lf_pending_projections := bs_remove i (lf_pending_projections s),
                      lf_absorption_projections := bm_insert i projected_at (lf_absorption_projections s)\<rparr>))
             (\<lambda>_ s. (Inr True, s))))))"

definition record_spawn_projection :: "string \<Rightarrow> nat \<Rightarrow> int \<Rightarrow> lifecycle_state \<Rightarrow> bool lifecycle_result" where
  "record_spawn_projection i completed_at period_started_at s =
     lc_check (ev_validate_sha256 i ''spawn projection action ID'') s (\<lambda>_.
     lc_check (ok_or (EV_NotFound i) (bm_get (lf_intents s) i)) s (\<lambda>intent.
     if \<not> is_spawn (in_action intent)
     then (Inl (EV_Invalid ''only a Spawn action can receive a spawn projection marker''), s)
     else lc_check (ok_or (EV_Conflict ''spawn projection requires a successful provisioning receipt'') (receipt_of s i)) s (\<lambda>receipt.
     if rc_status receipt \<noteq> RS_Succeeded \<or> rc_completed_at receipt \<noteq> completed_at \<or> period_started_at < 0
     then (Inl (EV_Conflict ''spawn projection does not match its provisioning receipt or metrics period''), s)
     else
       let projection = \<lparr>sp_completed_at = completed_at, sp_period_started_at = period_started_at\<rparr> in
       (case bm_get (lf_spawn_projections s) i of
         Some existing \<Rightarrow>
           if existing = projection then (Inr False, s)
           else (Inl (EV_Conflict ''spawn action already projects into a different metrics period''), s)
       | None \<Rightarrow>
           lc_then (bump_revision (s\<lparr>lf_spawn_projections := bm_insert i projection (lf_spawn_projections s)\<rparr>))
             (\<lambda>_ s. (Inr True, s))))))"

subsection \<open>Acknowledgement\<close>

definition consumed_by_other :: "lifecycle_state \<Rightarrow> lifecycle_receipt \<Rightarrow> string \<Rightarrow> bool" where
  "consumed_by_other s receipt hash =
     list_ex (\<lambda>existing. rc_action_id existing \<noteq> rc_action_id receipt \<and> rc_status existing = RS_Succeeded
        \<and> (case rc_chain existing of None \<Rightarrow> False | Some c \<Rightarrow> cx_transaction_hash c = hash)) (lf_receipts s)"

text \<open>Whether a survival cancels the action: it answers to the same judgment, and a shutdown that waits waits for one of its absorptions.\<close>

definition same_death :: "lifecycle_state \<Rightarrow> string \<Rightarrow> lifecycle_action \<Rightarrow> bool" where
  "same_death s judgment a =
     (case a of
        SpendForSurvival p \<Rightarrow> ss_judgment_id p = judgment
      | Absorb source target j \<Rightarrow> j = judgment
      | Shutdown i j after \<Rightarrow>
          j = judgment
          \<and> (case after of None \<Rightarrow> True
                | Some d \<Rightarrow> d \<in> set (ids_where (\<lambda>r. absorbs_for judgment (in_action r)) s))
      | _ \<Rightarrow> False)"

definition survive :: "lifecycle_state \<Rightarrow> lifecycle_intent \<Rightarrow> string \<Rightarrow> lifecycle_state" where
  "survive s intent judgment =
     (let canceled = ids_where (\<lambda>r. same_death s judgment (in_action r) \<and> in_action_id r \<noteq> in_action_id intent
                        \<and> receipt_of s (in_action_id r) = None) s;
          completed = ids_where (\<lambda>r. absorbs_for judgment (in_action r) \<and> action_succeeded s (in_action_id r)) s in
      s\<lparr>lf_pending_death := None,
        lf_canceled := fold bs_insert canceled (bs_remove (in_action_id intent) (lf_canceled s)),
        lf_pending_projections := fold bs_remove completed (lf_pending_projections s)\<rparr>)"

definition settle_survival ::
  "lifecycle_state \<Rightarrow> lifecycle_intent \<Rightarrow> lifecycle_receipt \<Rightarrow> (evolution_error, lifecycle_state) result" where
  "settle_survival s intent receipt =
     (case in_action intent of
        SpendForSurvival p \<Rightarrow>
          if rc_status receipt = RS_Succeeded
          then and_then (ensure (\<not> (case rc_chain receipt of None \<Rightarrow> False
                  | Some c \<Rightarrow> consumed_by_other s receipt (cx_transaction_hash c)))
                 (EV_Conflict ''confirmed survival transaction was already consumed by another death'')) (\<lambda>_.
               and_then (ok_or (EV_Conflict ''no pending death remains to cancel'') (lf_pending_death s)) (\<lambda>pending.
               and_then (ensure (\<not> (pd_judgment_id pending \<noteq> ss_judgment_id p \<or> pd_grace_ends_at pending \<noteq> ss_grace_ends_at p))
                 (EV_Conflict ''survival expenditure did not complete within the matching death grace period'')) (\<lambda>_.
               Inr (survive s intent (ss_judgment_id p)))))
          else Inr s
      | _ \<Rightarrow> Inr s)"

text \<open>The receipt is appended, and a shutdown or a pending absorption it completes is recorded.\<close>

definition receipted :: "lifecycle_state \<Rightarrow> lifecycle_intent \<Rightarrow> lifecycle_receipt \<Rightarrow> bool \<Rightarrow> lifecycle_state" where
  "receipted s intent receipt was_canceled =
     (let succeeded = (rc_status receipt = RS_Succeeded);
          tracks = (succeeded \<and> \<not> was_canceled
                \<and> (case lf_pending_death s of None \<Rightarrow> False
                   | Some pending \<Rightarrow> absorbs_for (pd_judgment_id pending) (in_action intent)));
          s = (if is_shutdown (in_action intent) \<and> succeeded \<and> \<not> was_canceled
               then s\<lparr>lf_shutdown_at := Some (rc_completed_at receipt)\<rparr> else s);
          s = s\<lparr>lf_receipts := lf_receipts s @ [receipt]\<rparr>
      in if tracks then s\<lparr>lf_pending_projections := bs_insert (in_action_id intent) (lf_pending_projections s)\<rparr> else s)"

definition acknowledge_action ::
  "evolution_libs \<Rightarrow> lifecycle_receipt \<Rightarrow> lifecycle_state \<Rightarrow> (lifecycle_action \<times> bool) lifecycle_result" where
  "acknowledge_action L receipt s =
     lc_check (ok_or (EV_NotFound (rc_action_id receipt)) (bm_get (lf_intents s) (rc_action_id receipt))) s (\<lambda>intent.
     lc_check (validate_lifecycle_receipt L intent receipt) s (\<lambda>_.
     case receipt_of s (rc_action_id receipt) of
       Some existing \<Rightarrow>
         if existing = receipt then (Inr (in_action intent, False), s)
         else (Inl (EV_Conflict ''lifecycle action already has a different terminal receipt''), s)
     | None \<Rightarrow>
         lc_check (settle_survival s intent receipt) s (\<lambda>t.
           lc_then (bump_revision (receipted t intent receipt (bs_member (lf_canceled s) (rc_action_id receipt))))
             (\<lambda>_ s. (Inr (in_action intent, True), s)))))"

subsection \<open>What is due\<close>

fun action_rank :: "lifecycle_action \<Rightarrow> nat" where
  "action_rank (Absorb source target judgment) = 0"
| "action_rank (Shutdown i judgment after) = 1"
| "action_rank (SpendForSurvival p) = 2"
| "action_rank (RewardVeniceKey r) = 3"
| "action_rank (RewardAcolyteContribution k hunger r) = 3"
| "action_rank (Spawn p) = 4"

definition is_due :: "string bset \<Rightarrow> lifecycle_state \<Rightarrow> lifecycle_intent \<Rightarrow> bool" where
  "is_due excluded s i =
     (if receipt_of s (in_action_id i) \<noteq> None then False
      else if bs_member (lf_canceled s) (in_action_id i) \<or> bs_member excluded (in_action_id i) then False
      else if is_spawn (in_action i) \<and> death_pending s then False
      else if is_reward (in_action i) \<and> death_pending s then False
      else (case in_action i of
              Shutdown t judgment (Some dependency) \<Rightarrow> receipt_of s dependency \<noteq> None \<or> bs_member excluded dependency
            | _ \<Rightarrow> True))"

definition due_key :: "lifecycle_intent \<Rightarrow> nat \<times> nat" where
  "due_key i = (action_rank (in_action i), in_created_at i)"

text \<open>\<open>min_by_key\<close>: the first of the least.\<close>

fun min_by_due_key :: "lifecycle_intent list \<Rightarrow> lifecycle_intent option" where
  "min_by_due_key [] = None"
| "min_by_due_key (i # is) =
     (case min_by_due_key is of
        None \<Rightarrow> Some i
      | Some j \<Rightarrow> if due_key j < due_key i then Some j else Some i)"

definition next_due_action_excluding :: "string bset \<Rightarrow> lifecycle_state \<Rightarrow> lifecycle_intent option" where
  "next_due_action_excluding excluded s = min_by_due_key (filter (is_due excluded s) (bm_values (lf_intents s)))"

definition next_due_action :: "lifecycle_state \<Rightarrow> lifecycle_intent option" where
  "next_due_action s = next_due_action_excluding bs_empty s"

end
