(* ===== verification/Lifecycle_Check.thy ===== *)
theory Lifecycle_Check
  imports Bot_Lifecycle
begin

section \<open>Lifecycle: validation of persisted state (cthuwu: evolution.rs)\<close>

text \<open>
  The checks a lifecycle state passes whenever it is saved or loaded, in the order of the source: the
  pending death, every intent, the receipts with the token transactions they consume, the canceled
  actions, the projections, the shutdown and the revision.
\<close>

definition check_death :: "pending_death option \<Rightarrow> (evolution_error, unit) result" where
  "check_death d =
     (case d of
        None \<Rightarrow> Inr ()
      | Some death \<Rightarrow> run_checks
          [ev_validate_sha256 (pd_judgment_id death) ''pending-death judgment ID'',
           ensure (\<not> pd_grace_ends_at death < pd_scheduled_at death)
             (EV_Invalid ''death grace period ends before it begins'')])"

definition absorbs_exactly :: "string \<Rightarrow> string \<Rightarrow> lifecycle_action \<Rightarrow> bool" where
  "absorbs_exactly source judgment a =
     (case a of Absorb s t j \<Rightarrow> s = source \<and> j = judgment | _ \<Rightarrow> False)"

definition check_dependency :: "lifecycle_state \<Rightarrow> lifecycle_action \<Rightarrow> (evolution_error, unit) result" where
  "check_dependency s a =
     (case a of
        Shutdown t judgment (Some d) \<Rightarrow>
          and_then (ok_or (EV_Invalid ''shutdown references a missing absorption action'') (bm_get (lf_intents s) d)) (\<lambda>dependency.
            ensure (absorbs_exactly t judgment (in_action dependency))
              (EV_Invalid ''shutdown dependency is not the exact matching death absorption''))
      | _ \<Rightarrow> Inr ())"

definition check_intent ::
  "evolution_libs \<Rightarrow> lifecycle_state \<Rightarrow> string \<times> lifecycle_intent \<Rightarrow> (evolution_error, unit) result" where
  "check_intent L s e =
     (case e of (key, i) \<Rightarrow>
        and_then (run_checks
          [ev_validate_sha256 key ''lifecycle action ID'',
           ensure (key = in_action_id i) (EV_Invalid ''lifecycle intent map key disagrees with its action ID''),
           validate_lifecycle_action (in_action i)]) (\<lambda>_.
        and_then (lifecycle_action_id L (in_action i)) (\<lambda>canonical.
        run_checks
          [ensure (canonical = key) (EV_Invalid ''lifecycle action ID is not canonical''),
           check_dependency s (in_action i)])))"

text \<open>The hash of the token transaction a successful receipt consumes.\<close>

definition consumed_hash :: "lifecycle_intent \<Rightarrow> lifecycle_receipt \<Rightarrow> string option" where
  "consumed_hash i r =
     (if rc_status r \<noteq> RS_Succeeded then None
      else (case in_action i of
              SpendForSurvival p \<Rightarrow> map_option cx_transaction_hash (rc_chain r)
            | RewardVeniceKey p \<Rightarrow> map_option tx_transaction_hash (rc_transfer r)
            | RewardAcolyteContribution k hunger p \<Rightarrow> map_option tx_transaction_hash (rc_transfer r)
            | _ \<Rightarrow> None))"

definition twice_consumed :: "lifecycle_action \<Rightarrow> string" where
  "twice_consumed a =
     (case a of SpendForSurvival p \<Rightarrow> ''survival transaction is consumed by more than one death''
      | _ \<Rightarrow> ''one token transaction cannot satisfy more than one lifecycle action'')"

fun receipts_loop ::
  "evolution_libs \<Rightarrow> lifecycle_state \<Rightarrow> string bset \<Rightarrow> string bset \<Rightarrow> lifecycle_receipt list
     \<Rightarrow> (evolution_error, unit) result" where
  "receipts_loop L s seen consumed [] = Inr ()"
| "receipts_loop L s seen consumed (r # rs) =
     and_then (ev_validate_sha256 (rc_action_id r) ''lifecycle receipt action ID'') (\<lambda>_.
     and_then (ok_or (EV_Invalid ''lifecycle receipt references a missing intent'') (bm_get (lf_intents s) (rc_action_id r))) (\<lambda>i.
     and_then (run_checks
       [ensure (\<not> bs_member seen (rc_action_id r)) (EV_Invalid ''lifecycle action has more than one terminal receipt''),
        validate_lifecycle_receipt L i r]) (\<lambda>_.
     (case consumed_hash i r of
        None \<Rightarrow> receipts_loop L s (bs_insert (rc_action_id r) seen) consumed rs
      | Some h \<Rightarrow>
          if bs_member consumed h then Inl (EV_Invalid (twice_consumed (in_action i)))
          else receipts_loop L s (bs_insert (rc_action_id r) seen) (bs_insert h consumed) rs))))"

definition check_canceled :: "lifecycle_state \<Rightarrow> string \<Rightarrow> (evolution_error, unit) result" where
  "check_canceled s i =
     run_checks
       [ev_validate_sha256 i ''canceled lifecycle action ID'',
        ensure (bm_contains (lf_intents s) i) (EV_Invalid ''canceled lifecycle action references a missing intent'')]"

definition pending_judgment :: "lifecycle_state \<Rightarrow> string \<Rightarrow> bool" where
  "pending_judgment s j = (case lf_pending_death s of None \<Rightarrow> False | Some p \<Rightarrow> pd_judgment_id p = j)"

definition absorbs_pending :: "lifecycle_state \<Rightarrow> lifecycle_action \<Rightarrow> bool" where
  "absorbs_pending s a = (case a of Absorb source target j \<Rightarrow> pending_judgment s j | _ \<Rightarrow> False)"

definition check_pending_projection :: "lifecycle_state \<Rightarrow> string \<Rightarrow> (evolution_error, unit) result" where
  "check_pending_projection s i =
     and_then (ev_validate_sha256 i ''pending absorption projection action ID'') (\<lambda>_.
     and_then (ok_or (EV_Invalid ''pending absorption projection references a missing intent'') (bm_get (lf_intents s) i)) (\<lambda>intent.
     and_then (ok_or (EV_Invalid ''pending absorption projection has no terminal receipt'') (receipt_of s i)) (\<lambda>receipt.
       ensure (\<not> (\<not> absorbs_pending s (in_action intent) \<or> rc_status receipt \<noteq> RS_Succeeded
                 \<or> bm_contains (lf_absorption_projections s) i))
         (EV_Invalid ''pending absorption projection is not an unprojected successful absorption''))))"

definition check_absorption_projection :: "lifecycle_state \<Rightarrow> string \<times> nat \<Rightarrow> (evolution_error, unit) result" where
  "check_absorption_projection s e =
     (case e of (i, projected_at) \<Rightarrow>
        and_then (ev_validate_sha256 i ''absorption projection action ID'') (\<lambda>_.
        and_then (ok_or (EV_Invalid ''absorption projection references a missing intent'') (bm_get (lf_intents s) i)) (\<lambda>intent.
        and_then (ok_or (EV_Invalid ''absorption projection has no terminal receipt'') (receipt_of s i)) (\<lambda>receipt.
          ensure (\<not> (\<not> is_absorb (in_action intent) \<or> rc_status receipt \<noteq> RS_Succeeded
                    \<or> rc_completed_at receipt > saturating_add u64_max projected_at LIFECYCLE_RECEIPT_CLOCK_SKEW_MS
                    \<or> bs_member (lf_pending_projections s) i))
            (EV_Invalid ''absorption projection does not match its successful executor receipt'')))))"

definition check_spawn_projection :: "lifecycle_state \<Rightarrow> string \<times> spawn_projection \<Rightarrow> (evolution_error, unit) result" where
  "check_spawn_projection s e =
     (case e of (i, projection) \<Rightarrow>
        and_then (ev_validate_sha256 i ''spawn projection action ID'') (\<lambda>_.
        and_then (ok_or (EV_Invalid ''spawn projection references a missing lifecycle intent'') (bm_get (lf_intents s) i)) (\<lambda>intent.
        and_then (ensure (is_spawn (in_action intent)) (EV_Invalid ''spawn projection references a non-spawn action'')) (\<lambda>_.
        and_then (ok_or (EV_Invalid ''spawn projection has no terminal provisioning receipt'') (receipt_of s i)) (\<lambda>receipt.
          ensure (\<not> (rc_status receipt \<noteq> RS_Succeeded \<or> sp_completed_at projection \<noteq> rc_completed_at receipt
                    \<or> sp_completed_at projection < in_created_at intent \<or> sp_period_started_at projection < 0))
            (EV_Invalid ''spawn projection does not match its successful provisioning receipt''))))))"

definition has_shutdown_receipt :: "lifecycle_state \<Rightarrow> bool" where
  "has_shutdown_receipt s =
     list_ex (\<lambda>r. rc_status r = RS_Succeeded
        \<and> (case bm_get (lf_intents s) (rc_action_id r) of None \<Rightarrow> False | Some i \<Rightarrow> is_shutdown (in_action i)))
       (lf_receipts s)"

text \<open>The sum of the durable mutations; a step of it above \<open>u64\<close> is an error.\<close>

definition expected_revision :: "lifecycle_state \<Rightarrow> nat option" where
  "expected_revision s =
     Option.bind (checked_add u64_max (bm_len (lf_intents s)) (length (lf_receipts s))) (\<lambda>n.
     Option.bind (checked_add u64_max n (bm_len (lf_spawn_projections s))) (\<lambda>n.
     Option.bind (checked_add u64_max n (bm_len (lf_absorption_projections s))) (\<lambda>n.
     checked_add u64_max n (if lf_pending_death s \<noteq> None then 1 else 0))))"

definition validate_lifecycle :: "evolution_libs \<Rightarrow> lifecycle_state \<Rightarrow> (evolution_error, unit) result" where
  "validate_lifecycle L s =
     run_checks
       ([ensure (lf_schema_version s = LIFECYCLE_SCHEMA_VERSION)
           (EV_Invalid (''unsupported lifecycle schema version '' @ decimal (lf_schema_version s))),
         ev_validate_id (lf_tentacle_id s) ''lifecycle Tentacle ID'',
         check_death (lf_pending_death s)]
        @ map (check_intent L s) (bm_entries (lf_intents s))
        @ [receipts_loop L s bs_empty bs_empty (lf_receipts s)]
        @ map (check_canceled s) (bs_elems (lf_canceled s))
        @ map (check_pending_projection s) (bs_elems (lf_pending_projections s))
        @ map (check_absorption_projection s) (bm_entries (lf_absorption_projections s))
        @ map (check_spawn_projection s) (bm_entries (lf_spawn_projections s))
        @ [ensure (\<not> (lf_shutdown_at s \<noteq> None \<and> \<not> has_shutdown_receipt s))
             (EV_Invalid ''terminal shutdown state has no successful shutdown receipt''),
           (case expected_revision s of
              None \<Rightarrow> Inl (EV_Limit ''lifecycle revision'')
            | Some expected \<Rightarrow>
                ensure (\<not> lf_revision s < expected)
                  (EV_Invalid ''lifecycle revision predates its durable mutation log''))])"

end
