(* ===== verification/Lifecycle_Invariant.thy ===== *)
theory Lifecycle_Invariant
  imports Lifecycle_Check
begin

section \<open>Lifecycle: what every reachable state satisfies\<close>

text \<open>
  The invariant in terms of the components of the state, and that it is what the validator checks,
  except for the token transactions: these are consumed once only.
\<close>

type_synonym intent_map = "(string, lifecycle_intent) bmap"

definition receipt_in :: "lifecycle_receipt list \<Rightarrow> string \<Rightarrow> lifecycle_receipt option" where
  "receipt_in rs i = find (\<lambda>r. rc_action_id r = i) rs"

lemma receipt_of_in: "receipt_of s i = receipt_in (lf_receipts s) i"
  by (simp add: receipt_of_def receipt_in_def)

definition dependency_ok :: "intent_map \<Rightarrow> lifecycle_action \<Rightarrow> bool" where
  "dependency_ok ints a =
     (case a of
        Shutdown t judgment (Some d) \<Rightarrow>
          (case bm_get ints d of None \<Rightarrow> False | Some i \<Rightarrow> absorbs_exactly t judgment (in_action i))
      | _ \<Rightarrow> True)"

definition intents_ok :: "evolution_libs \<Rightarrow> intent_map \<Rightarrow> bool" where
  "intents_ok L ints \<longleftrightarrow>
     (\<forall>k i. bm_get ints k = Some i \<longrightarrow>
        is_sha256_text k \<and> in_action_id i = k \<and> validate_lifecycle_action (in_action i) = Inr ()
        \<and> lifecycle_action_id L (in_action i) = Inr k \<and> dependency_ok ints (in_action i))"

definition receipts_ok :: "evolution_libs \<Rightarrow> intent_map \<Rightarrow> lifecycle_receipt list \<Rightarrow> bool" where
  "receipts_ok L ints rs \<longleftrightarrow>
     distinct (map rc_action_id rs)
     \<and> (\<forall>r\<in>set rs. \<exists>i. bm_get ints (rc_action_id r) = Some i \<and> validate_lifecycle_receipt L i r = Inr ())"

definition canceled_ok :: "intent_map \<Rightarrow> string bset \<Rightarrow> bool" where
  "canceled_ok ints cs \<longleftrightarrow> (\<forall>i. bs_member cs i \<longrightarrow> bm_get ints i \<noteq> None)"

definition ended_absorb :: "intent_map \<Rightarrow> lifecycle_receipt list \<Rightarrow> string \<Rightarrow> string \<Rightarrow> bool" where
  "ended_absorb ints rs judgment i \<longleftrightarrow>
     (\<exists>intent r. bm_get ints i = Some intent \<and> absorbs_for judgment (in_action intent)
        \<and> receipt_in rs i = Some r \<and> rc_status r = RS_Succeeded)"

definition pending_ok ::
  "pending_death option \<Rightarrow> intent_map \<Rightarrow> lifecycle_receipt list \<Rightarrow> (string, nat) bmap \<Rightarrow> string bset \<Rightarrow> bool" where
  "pending_ok death ints rs projs pend \<longleftrightarrow>
     (\<forall>i. bs_member pend i \<longrightarrow> bm_get projs i = None
        \<and> (\<exists>p. death = Some p \<and> ended_absorb ints rs (pd_judgment_id p) i))"

definition absorptions_ok :: "intent_map \<Rightarrow> lifecycle_receipt list \<Rightarrow> (string, nat) bmap \<Rightarrow> bool" where
  "absorptions_ok ints rs projs \<longleftrightarrow>
     (\<forall>i at. bm_get projs i = Some at \<longrightarrow>
        (\<exists>intent r. bm_get ints i = Some intent \<and> is_absorb (in_action intent) \<and> receipt_in rs i = Some r
           \<and> rc_status r = RS_Succeeded
           \<and> rc_completed_at r \<le> saturating_add u64_max at LIFECYCLE_RECEIPT_CLOCK_SKEW_MS))"

definition spawns_ok :: "intent_map \<Rightarrow> lifecycle_receipt list \<Rightarrow> (string, spawn_projection) bmap \<Rightarrow> bool" where
  "spawns_ok ints rs projs \<longleftrightarrow>
     (\<forall>i p. bm_get projs i = Some p \<longrightarrow>
        (\<exists>intent r. bm_get ints i = Some intent \<and> is_spawn (in_action intent) \<and> receipt_in rs i = Some r
           \<and> rc_status r = RS_Succeeded \<and> sp_completed_at p = rc_completed_at r
           \<and> in_created_at intent \<le> sp_completed_at p \<and> 0 \<le> sp_period_started_at p))"

definition shutdown_ok :: "intent_map \<Rightarrow> lifecycle_receipt list \<Rightarrow> nat option \<Rightarrow> bool" where
  "shutdown_ok ints rs at \<longleftrightarrow>
     (at \<noteq> None \<longrightarrow> (\<exists>r\<in>set rs. rc_status r = RS_Succeeded
        \<and> (\<exists>i. bm_get ints (rc_action_id r) = Some i \<and> is_shutdown (in_action i))))"

definition death_ok :: "pending_death option \<Rightarrow> bool" where
  "death_ok d \<longleftrightarrow> (\<forall>p. d = Some p \<longrightarrow> is_sha256_text (pd_judgment_id p) \<and> pd_scheduled_at p \<le> pd_grace_ends_at p)"

definition life_core :: "evolution_libs \<Rightarrow> lifecycle_state \<Rightarrow> bool" where
  "life_core L s \<longleftrightarrow>
     lf_schema_version s = LIFECYCLE_SCHEMA_VERSION \<and> id_text (lf_tentacle_id s) \<and> death_ok (lf_pending_death s)
     \<and> intents_ok L (lf_intents s) \<and> receipts_ok L (lf_intents s) (lf_receipts s)
     \<and> canceled_ok (lf_intents s) (lf_canceled s)
     \<and> pending_ok (lf_pending_death s) (lf_intents s) (lf_receipts s) (lf_absorption_projections s) (lf_pending_projections s)
     \<and> absorptions_ok (lf_intents s) (lf_receipts s) (lf_absorption_projections s)
     \<and> spawns_ok (lf_intents s) (lf_receipts s) (lf_spawn_projections s)
     \<and> shutdown_ok (lf_intents s) (lf_receipts s) (lf_shutdown_at s)"

definition mutations :: "lifecycle_state \<Rightarrow> nat" where
  "mutations s = bm_len (lf_intents s) + length (lf_receipts s) + bm_len (lf_spawn_projections s)
     + bm_len (lf_absorption_projections s) + (if lf_pending_death s \<noteq> None then 1 else 0)"

text \<open>The counter covers the mutations, or it has reached its end.\<close>

definition counted :: "lifecycle_state \<Rightarrow> bool" where
  "counted s \<longleftrightarrow> mutations s \<le> lf_revision s \<or> lf_revision s = u64_max"

definition life_inv :: "evolution_libs \<Rightarrow> lifecycle_state \<Rightarrow> bool" where
  "life_inv L s \<longleftrightarrow> life_core L s \<and> counted s \<and> lf_revision s \<le> u64_max"

definition consumed_hashes :: "lifecycle_state \<Rightarrow> string list" where
  "consumed_hashes s =
     List.map_filter (\<lambda>r. case bm_get (lf_intents s) (rc_action_id r) of None \<Rightarrow> None | Some i \<Rightarrow> consumed_hash i r)
       (lf_receipts s)"

lemma life_coreD:
  assumes "life_core L s"
  shows "lf_schema_version s = LIFECYCLE_SCHEMA_VERSION" "id_text (lf_tentacle_id s)" "death_ok (lf_pending_death s)"
    "intents_ok L (lf_intents s)" "receipts_ok L (lf_intents s) (lf_receipts s)"
    "canceled_ok (lf_intents s) (lf_canceled s)"
    "pending_ok (lf_pending_death s) (lf_intents s) (lf_receipts s) (lf_absorption_projections s) (lf_pending_projections s)"
    "absorptions_ok (lf_intents s) (lf_receipts s) (lf_absorption_projections s)"
    "spawns_ok (lf_intents s) (lf_receipts s) (lf_spawn_projections s)"
    "shutdown_ok (lf_intents s) (lf_receipts s) (lf_shutdown_at s)"
  using assms unfolding life_core_def by blast+

lemma intent_okD:
  assumes "intents_ok L ints" "bm_get ints k = Some i"
  shows "is_sha256_text k" "in_action_id i = k" "validate_lifecycle_action (in_action i) = Inr ()"
    "lifecycle_action_id L (in_action i) = Inr k" "dependency_ok ints (in_action i)"
  using assms unfolding intents_ok_def by blast+

subsection \<open>The invariant passes the checks\<close>

lemma check_dependency_ok: "check_dependency s a = Inr () \<longleftrightarrow> dependency_ok (lf_intents s) a"
  by (auto simp: check_dependency_def dependency_ok_def split: lifecycle_action.splits option.splits)

lemma checked_intents:
  assumes "intents_ok L (lf_intents s)"
  shows "run_checks (map (check_intent L s) (bm_entries (lf_intents s))) = Inr ()"
proof -
  have "check_intent L s (k, i) = Inr ()" if "bm_get (lf_intents s) k = Some i" for k i
    using intent_okD[OF assms that] by (simp add: check_intent_def run_checks.simps(1) check_dependency_ok)
  then show ?thesis by (simp add: bm_entries_all_iff)
qed

definition hashes_in :: "intent_map \<Rightarrow> lifecycle_receipt list \<Rightarrow> string list" where
  "hashes_in ints rs =
     List.map_filter (\<lambda>r. case bm_get ints (rc_action_id r) of None \<Rightarrow> None | Some i \<Rightarrow> consumed_hash i r) rs"

lemma hashes_in_simps:
  "hashes_in ints [] = []"
  "bm_get ints (rc_action_id r) = Some i \<Longrightarrow>
     hashes_in ints (r # rs) = (case consumed_hash i r of None \<Rightarrow> hashes_in ints rs | Some h \<Rightarrow> h # hashes_in ints rs)"
  by (simp_all add: hashes_in_def map_filter_simps split: option.splits)

lemma consumed_hashes_in: "consumed_hashes s = hashes_in (lf_intents s) (lf_receipts s)"
  by (simp add: consumed_hashes_def hashes_in_def)

lemma checked_receipts:
  assumes "intents_ok L (lf_intents s)"
    and "\<forall>r\<in>set rs. \<not> bs_member seen (rc_action_id r)
      \<and> (\<exists>i. bm_get (lf_intents s) (rc_action_id r) = Some i \<and> validate_lifecycle_receipt L i r = Inr ())"
    and "distinct (map rc_action_id rs)"
  shows "receipts_loop L s seen consumed rs = Inr ()
     \<longleftrightarrow> distinct (hashes_in (lf_intents s) rs) \<and> (\<forall>h\<in>set (hashes_in (lf_intents s) rs). \<not> bs_member consumed h)"
  using assms(2,3)
proof (induction rs arbitrary: seen consumed)
  case (Cons r rs)
  obtain i where i: "bm_get (lf_intents s) (rc_action_id r) = Some i" "validate_lifecycle_receipt L i r = Inr ()"
    "\<not> bs_member seen (rc_action_id r)" using Cons.prems(1) by auto
  have sha: "is_sha256_text (rc_action_id r)" using intent_okD(1)[OF assms(1) i(1)] .
  have ids: "ev_validate_sha256 (rc_action_id r) d = Inr ()" for d using sha by simp
  have rest: "\<forall>x\<in>set rs. \<not> bs_member (bs_insert (rc_action_id r) seen) (rc_action_id x)
      \<and> (\<exists>i. bm_get (lf_intents s) (rc_action_id x) = Some i \<and> validate_lifecycle_receipt L i x = Inr ())"
  proof
    fix x assume x: "x \<in> set rs"
    have "rc_action_id x \<noteq> rc_action_id r" using Cons.prems(2) x by (auto simp: image_iff)
    then show "\<not> bs_member (bs_insert (rc_action_id r) seen) (rc_action_id x)
      \<and> (\<exists>i. bm_get (lf_intents s) (rc_action_id x) = Some i \<and> validate_lifecycle_receipt L i x = Inr ())"
      using Cons.prems(1) x by simp
  qed
  have dist: "distinct (map rc_action_id rs)" using Cons.prems(2) by simp
  show ?case
    using Cons.IH[OF rest dist]
    by (cases "consumed_hash i r") (auto simp: i ids hashes_in_simps(2)[OF i(1)] ensure_def)
qed (simp add: hashes_in_simps)

lemma checked_pending:
  assumes "life_core L s" "bs_member (lf_pending_projections s) i"
  shows "check_pending_projection s i = Inr ()"
proof -
  obtain p intent r where p: "lf_pending_death s = Some p" "bm_get (lf_absorption_projections s) i = None"
    "bm_get (lf_intents s) i = Some intent" "absorbs_for (pd_judgment_id p) (in_action intent)"
    "receipt_in (lf_receipts s) i = Some r" "rc_status r = RS_Succeeded"
    using life_coreD(7)[OF assms(1)] assms(2) unfolding pending_ok_def ended_absorb_def by blast
  have "absorbs_pending s (in_action intent)"
    using p(1,4) by (auto simp: absorbs_pending_def pending_judgment_def absorbs_for_def split: lifecycle_action.splits)
  then show ?thesis
    using p intent_okD(1)[OF life_coreD(4)[OF assms(1)] p(3)]
    by (simp add: check_pending_projection_def receipt_of_in)
qed

lemma checked_absorption:
  assumes "life_core L s" "bm_get (lf_absorption_projections s) i = Some at"
  shows "check_absorption_projection s (i, at) = Inr ()"
proof -
  obtain intent r where r: "bm_get (lf_intents s) i = Some intent" "is_absorb (in_action intent)"
    "receipt_in (lf_receipts s) i = Some r" "rc_status r = RS_Succeeded"
    "rc_completed_at r \<le> saturating_add u64_max at LIFECYCLE_RECEIPT_CLOCK_SKEW_MS"
    using life_coreD(8)[OF assms(1)] assms(2) unfolding absorptions_ok_def by blast
  have "\<not> bs_member (lf_pending_projections s) i"
    using life_coreD(7)[OF assms(1)] assms(2) by (auto simp: pending_ok_def)
  then show ?thesis
    using r intent_okD(1)[OF life_coreD(4)[OF assms(1)] r(1)]
    by (simp add: check_absorption_projection_def receipt_of_in)
qed

lemma checked_spawn:
  assumes "life_core L s" "bm_get (lf_spawn_projections s) i = Some p"
  shows "check_spawn_projection s (i, p) = Inr ()"
proof -
  obtain intent r where r: "bm_get (lf_intents s) i = Some intent" "is_spawn (in_action intent)"
    "receipt_in (lf_receipts s) i = Some r" "rc_status r = RS_Succeeded" "sp_completed_at p = rc_completed_at r"
    "in_created_at intent \<le> sp_completed_at p" "0 \<le> sp_period_started_at p"
    using life_coreD(9)[OF assms(1)] assms(2) unfolding spawns_ok_def by blast
  then show ?thesis
    using intent_okD(1)[OF life_coreD(4)[OF assms(1)] r(1)] by (simp add: check_spawn_projection_def receipt_of_in)
qed

lemma checked_revision:
  assumes "mutations s \<le> lf_revision s" "lf_revision s \<le> u64_max"
  shows "expected_revision s = Some (mutations s)"
  using assms by (simp add: expected_revision_def mutations_def checked_add_def)

lemma inv_validate_iff:
  assumes core: "life_core L s" and rev: "mutations s \<le> lf_revision s" "lf_revision s \<le> u64_max"
  shows "validate_lifecycle L s = Inr () \<longleftrightarrow> distinct (consumed_hashes s)"
proof -
  have death: "check_death (lf_pending_death s) = Inr ()"
    using life_coreD(3)[OF core]
    by (cases "lf_pending_death s") (auto simp: check_death_def death_ok_def run_checks.simps(1))
  have canceled: "run_checks (map (check_canceled s) (bs_elems (lf_canceled s))) = Inr ()"
    using life_coreD(4,6)[OF core] intent_okD(1)
    by (fastforce simp: bs_elems_iff check_canceled_def canceled_ok_def run_checks.simps(1))
  have pend: "run_checks (map (check_pending_projection s) (bs_elems (lf_pending_projections s))) = Inr ()"
    using checked_pending[OF core] by (simp add: bs_elems_iff)
  have absorb: "run_checks (map (check_absorption_projection s) (bm_entries (lf_absorption_projections s))) = Inr ()"
    using checked_absorption[OF core] by (simp add: bm_entries_all_iff)
  have spawn: "run_checks (map (check_spawn_projection s) (bm_entries (lf_spawn_projections s))) = Inr ()"
    using checked_spawn[OF core] by (simp add: bm_entries_all_iff)
  have shutdown: "lf_shutdown_at s = None \<or> has_shutdown_receipt s"
    using life_coreD(10)[OF core] by (fastforce simp: shutdown_ok_def has_shutdown_receipt_def list_ex_iff)
  have receipts: "receipts_loop L s bs_empty bs_empty (lf_receipts s) = Inr () \<longleftrightarrow> distinct (consumed_hashes s)"
    using checked_receipts[OF life_coreD(4)[OF core]] life_coreD(5)[OF core]
    by (simp add: receipts_ok_def consumed_hashes_in)
  show ?thesis
    unfolding validate_lifecycle_def run_checks_append_ok checked_intents[OF life_coreD(4)[OF core]] canceled pend absorb spawn
      checked_revision[OF rev] option.case
    using death shutdown receipts life_coreD(1,2)[OF core] rev(1)
    by (simp add: run_checks.simps(1))
qed

end
