(* ===== verification/Lifecycle_Steps.thy ===== *)
theory Lifecycle_Steps
  imports Lifecycle_Invariant
begin

section \<open>Lifecycle: the operations keep the invariant\<close>

text \<open>
  The operations change the state through a few kinds of update; each is treated once.  An update that
  adds a durable mutation is followed by an increment of the revision, which fails only at its end.
\<close>

definition sha_bytes :: "evolution_libs \<Rightarrow> bool" where
  "sha_bytes L \<longleftrightarrow> (\<forall>m. length (nc_sha256 (el_crypto L) m) = 32)"

subsection \<open>Sequencing\<close>

lemma lc_then_simps [simp]:
  "lc_then (Inl e, s) f = (Inl e, s)"
  "lc_then (Inr x, s) f = f x s"
  by (simp_all add: lc_then_def)

lemma lc_check_simps [simp]:
  "lc_check (Inl e) s f = (Inl e, s)"
  "lc_check (Inr x) s f = f x"
  by (simp_all add: lc_check_def)

lemma snd_lc_then_ret [simp]: "snd (lc_then r (\<lambda>x s. (Inr (f x), s))) = snd r"
  by (cases r; cases "fst r") auto

lemma lc_check_inv:
  "life_inv L s \<Longrightarrow> (\<And>x. r = Inr x \<Longrightarrow> life_inv L (snd (f x))) \<Longrightarrow> life_inv L (snd (lc_check r s f))"
  by (cases r) auto

lemma lc_then_inv:
  assumes "life_inv L (snd r)" "\<And>x s'. r = (Inr x, s') \<Longrightarrow> life_inv L s' \<Longrightarrow> life_inv L (snd (f x s'))"
  shows "life_inv L (snd (lc_then r f))"
  using assms by (cases r; cases "fst r") auto

lemma life_core_revision [simp]: "life_core L (s\<lparr>lf_revision := r\<rparr>) = life_core L s"
  by (simp add: life_core_def)

lemma mutations_revision [simp]: "mutations (s\<lparr>lf_revision := r\<rparr>) = mutations s"
  by (simp add: mutations_def)

lemma bump_inv:
  assumes "life_core L s" "mutations s \<le> Suc (lf_revision s) \<or> lf_revision s = u64_max" "lf_revision s \<le> u64_max"
  shows "life_inv L (snd (bump_revision s))"
  using assms by (cases "lf_revision s < u64_max") (auto simp: bump_revision_def checked_add_def life_inv_def counted_def)

lemma bump_after:
  assumes "life_inv L s" "life_core L s'" "mutations s' \<le> Suc (mutations s)" "lf_revision s' = lf_revision s"
  shows "life_inv L (snd (bump_revision s'))"
  using assms by (intro bump_inv) (auto simp: life_inv_def counted_def)

lemma bump_fields:
  "snd (bump_revision s) = s\<lparr>lf_revision := min u64_max (lf_revision s + 1)\<rparr>" if "lf_revision s \<le> u64_max"
  using that by (simp add: bump_revision_def checked_add_def)

subsection \<open>More intents\<close>

definition grows :: "intent_map \<Rightarrow> intent_map \<Rightarrow> bool" where
  "grows ints ints' \<longleftrightarrow> (\<forall>k i. bm_get ints k = Some i \<longrightarrow> bm_get ints' k = Some i)"

lemma growsD: "grows ints ints' \<Longrightarrow> bm_get ints k = Some i \<Longrightarrow> bm_get ints' k = Some i"
  by (simp add: grows_def)

lemma dependency_ok_grows: "grows ints ints' \<Longrightarrow> dependency_ok ints a \<Longrightarrow> dependency_ok ints' a"
  by (auto simp: dependency_ok_def grows_def split: lifecycle_action.splits option.splits)

lemma receipts_ok_grows: "grows ints ints' \<Longrightarrow> receipts_ok L ints rs \<Longrightarrow> receipts_ok L ints' rs"
  unfolding receipts_ok_def using growsD by blast

lemma canceled_ok_grows: "grows ints ints' \<Longrightarrow> canceled_ok ints cs \<Longrightarrow> canceled_ok ints' cs"
  unfolding canceled_ok_def grows_def by blast

lemma ended_absorb_grows: "grows ints ints' \<Longrightarrow> ended_absorb ints rs j i \<Longrightarrow> ended_absorb ints' rs j i"
  unfolding ended_absorb_def using growsD by blast

lemma pending_ok_grows: "grows ints ints' \<Longrightarrow> pending_ok d ints rs projs pend \<Longrightarrow> pending_ok d ints' rs projs pend"
  unfolding pending_ok_def by (meson ended_absorb_grows)

lemma absorptions_ok_grows: "grows ints ints' \<Longrightarrow> absorptions_ok ints rs projs \<Longrightarrow> absorptions_ok ints' rs projs"
  unfolding absorptions_ok_def using growsD by blast

lemma spawns_ok_grows: "grows ints ints' \<Longrightarrow> spawns_ok ints rs projs \<Longrightarrow> spawns_ok ints' rs projs"
  unfolding spawns_ok_def using growsD by blast

lemma shutdown_ok_grows: "grows ints ints' \<Longrightarrow> shutdown_ok ints rs at \<Longrightarrow> shutdown_ok ints' rs at"
  unfolding shutdown_ok_def grows_def by meson

lemmas core_grows = receipts_ok_grows canceled_ok_grows pending_ok_grows absorptions_ok_grows spawns_ok_grows shutdown_ok_grows

lemma action_id_text: "sha_bytes L \<Longrightarrow> lifecycle_action_id L a = Inr i \<Longrightarrow> is_sha256_text i"
  using encode_hex_text[of _ 32] by (auto simp: lifecycle_action_id_def sha_bytes_def lower_hex_text_def is_sha256_text_def)

lemma core_insert:
  assumes sha: "sha_bytes L" and core: "life_core L s" and new: "bm_get (lf_intents s) i = None"
    and ok: "validate_lifecycle_action action = Inr ()" "lifecycle_action_id L action = Inr i" "dependency_ok (lf_intents s) action"
  shows "life_core L (s\<lparr>lf_intents := bm_insert i \<lparr>in_action_id = i, in_created_at = t, in_action = action\<rparr> (lf_intents s)\<rparr>)"
proof -
  let ?i = "\<lparr>in_action_id = i, in_created_at = t, in_action = action\<rparr>"
  let ?ints = "bm_insert i ?i (lf_intents s)"
  have grows: "grows (lf_intents s) ?ints" using new by (auto simp: grows_def)
  have "intents_ok L ?ints"
    unfolding intents_ok_def
  proof (intro allI impI)
    fix k j assume j: "bm_get ?ints k = Some j"
    show "is_sha256_text k \<and> in_action_id j = k \<and> validate_lifecycle_action (in_action j) = Inr ()
        \<and> lifecycle_action_id L (in_action j) = Inr k \<and> dependency_ok ?ints (in_action j)"
    proof (cases "k = i")
      case True
      then have "j = ?i" using j by simp
      then show ?thesis
        using True ok action_id_text[OF sha ok(2)] dependency_ok_grows[OF grows ok(3)] by simp
    next
      case False
      then have "bm_get (lf_intents s) k = Some j" using j by simp
      then show ?thesis
        using intent_okD[OF life_coreD(4)[OF core]] dependency_ok_grows[OF grows] by blast
    qed
  qed
  then show ?thesis
    using core_grows[OF grows] life_coreD[OF core] by (simp add: life_core_def)
qed

lemma insert_intent_inv:
  assumes sha: "sha_bytes L" and inv: "life_inv L s" and dep: "dependency_ok (lf_intents s) action"
  shows "life_inv L (snd (insert_intent L t action s))"
  unfolding insert_intent_def
proof (intro lc_check_inv)
  fix u i assume ok: "validate_lifecycle_action action = Inr u" "lifecycle_action_id L action = Inr i"
  show "life_inv L (snd (case bm_get (lf_intents s) i of
         Some existing \<Rightarrow> (Inr existing, s)
       | None \<Rightarrow>
           let inserted = \<lparr>in_action_id = i, in_created_at = t, in_action = action\<rparr> in
           lc_then (bump_revision (s\<lparr>lf_intents := bm_insert i inserted (lf_intents s)\<rparr>)) (\<lambda>_ s. (Inr inserted, s))))"
  proof (cases "bm_get (lf_intents s) i")
    case None
    let ?s = "s\<lparr>lf_intents := bm_insert i \<lparr>in_action_id = i, in_created_at = t, in_action = action\<rparr> (lf_intents s)\<rparr>"
    have "life_core L ?s" using core_insert[OF sha _ None _ ok(2) dep] inv ok(1) by (simp add: life_inv_def)
    moreover have "mutations ?s \<le> Suc (mutations s)" using None by (simp add: mutations_def)
    ultimately show ?thesis using bump_after[OF inv, of ?s] by (simp add: None Let_def)
  qed (simp add: inv)
qed (simp_all add: inv)

subsection \<open>Canceled actions\<close>

lemma ids_where_iff:
  assumes "intents_ok L (lf_intents s)"
  shows "i \<in> set (ids_where P s) \<longleftrightarrow> (\<exists>intent. bm_get (lf_intents s) i = Some intent \<and> P intent)"
proof -
  have "i \<in> set (ids_where P s) \<longleftrightarrow> (\<exists>k intent. bm_get (lf_intents s) k = Some intent \<and> P intent \<and> in_action_id intent = i)"
    unfolding ids_where_def set_map set_filter image_iff mem_Collect_eq bm_values_iff Bex_def by blast
  then show ?thesis using intent_okD(2)[OF assms] by metis
qed

lemma canceled_ok_fold:
  "canceled_ok ints cs \<Longrightarrow> \<forall>i\<in>set ids. bm_get ints i \<noteq> None \<Longrightarrow> canceled_ok ints (fold bs_insert ids cs)"
  by (auto simp: canceled_ok_def fold_bs_insert_member)

lemma canceled_ok_remove: "canceled_ok ints cs \<Longrightarrow> canceled_ok ints (bs_remove i cs)"
  by (simp add: canceled_ok_def)

lemma cancel_all_fields [simp]:
  "lf_intents (cancel_all ids s) = lf_intents s" "lf_receipts (cancel_all ids s) = lf_receipts s"
  "lf_revision (cancel_all ids s) = lf_revision s" "lf_tentacle_id (cancel_all ids s) = lf_tentacle_id s"
  "lf_pending_death (cancel_all ids s) = lf_pending_death s"
  "lf_spawn_projections (cancel_all ids s) = lf_spawn_projections s"
  "lf_absorption_projections (cancel_all ids s) = lf_absorption_projections s" "mutations (cancel_all ids s) = mutations s"
  by (simp_all add: cancel_all_def mutations_def)

lemma core_canceled:
  assumes "life_core L s" "canceled_ok (lf_intents s) cs"
  shows "life_core L (s\<lparr>lf_canceled := cs\<rparr>)"
  using life_coreD[OF assms(1)] assms(2) by (simp add: life_core_def)

lemma cancel_all_core:
  assumes "life_core L s"
  shows "life_core L (cancel_all (ids_where P s) s)"
  unfolding cancel_all_def
  by (rule core_canceled[OF assms canceled_ok_fold[OF life_coreD(6)[OF assms]]])
    (use ids_where_iff[OF life_coreD(4)[OF assms]] in blast)

lemma cancel_all_inv: "life_inv L s \<Longrightarrow> life_inv L (cancel_all (ids_where P s) s)"
  using cancel_all_core by (simp add: life_inv_def counted_def)

lemma set_auto_spawn_inv:
  assumes "life_inv L s"
  shows "life_inv L (snd (set_auto_spawn_enabled enabled s))"
proof -
  have "life_core L (s\<lparr>lf_auto_spawn := enabled\<rparr>)"
    using assms unfolding life_inv_def life_core_def by simp
  moreover have "mutations (s\<lparr>lf_auto_spawn := enabled\<rparr>) = mutations s" by (simp add: mutations_def)
  ultimately show ?thesis
    using assms bump_after[OF assms, of "s\<lparr>lf_auto_spawn := enabled\<rparr>"] by (simp add: set_auto_spawn_enabled_def)
qed

lemma cancel_pending_inv:
  assumes "life_inv L s"
  shows "life_inv L (snd (cancel_pending_survival_spends j s))"
  unfolding cancel_pending_survival_spends_def Let_def
proof (rule lc_check_inv[OF assms])
  fix u
  let ?s = "cancel_all (ids_where (unreceipted_spend s j) s) s"
  have "life_core L ?s" using assms cancel_all_core by (simp add: life_inv_def)
  then have "life_inv L (snd (bump_revision ?s))" by (rule bump_after[OF assms]) simp_all
  then show "life_inv L (snd (if cancels_any (ids_where (unreceipted_spend s j) s) s
      then lc_then (bump_revision ?s) (\<lambda>_ s. (Inr True, s)) else (Inr False, s)))"
    using assms by simp
qed

subsection \<open>Survival spends and deaths\<close>

lemma survival_dependency: "dependency_ok ints (survival_action s j g b)"
  by (simp add: dependency_ok_def survival_action_def)

lemma enqueue_survival_inv:
  assumes sha: "sha_bytes L" and inv: "life_inv L s"
  shows "life_inv L (snd (enqueue_survival_spend L j t b s))"
  unfolding enqueue_survival_spend_def
proof (rule lc_check_inv[OF inv])
  fix pending
  have remove: "life_inv L (snd (bump_revision (s\<lparr>lf_canceled := bs_remove i (lf_canceled s)\<rparr>)))" for i
    using inv core_canceled[of L s] canceled_ok_remove life_coreD(6)
    by (intro bump_after[OF inv]) (auto simp: life_inv_def mutations_def)
  have insert: "life_inv L (snd (lc_then (insert_intent L t (survival_action s j g b) s)
      (\<lambda>_ s'. (Inr (bm_len (lf_intents s') \<noteq> bm_len (lf_intents s)), s'))))" for g
    by (rule lc_then_inv) (simp_all add: insert_intent_inv[OF sha inv survival_dependency])
  show "life_inv L (snd (if pd_judgment_id pending \<noteq> j \<or> t > pd_grace_ends_at pending
     then (Inl (EV_Conflict ''survival spend is outside its exact pending death grace period''), s)
     else (case find (unreceipted_spend s j) (bm_values (lf_intents s)) of
         Some existing \<Rightarrow>
           if same_binding (pd_grace_ends_at pending) b (in_action existing)
           then (if bs_member (lf_canceled s) (in_action_id existing)
                 then lc_then (bump_revision (s\<lparr>lf_canceled := bs_remove (in_action_id existing) (lf_canceled s)\<rparr>))
                        (\<lambda>_ s. (Inr True, s))
                 else (Inr False, s))
           else (Inl (EV_Conflict ''an unreceipted survival burn must be reconciled on-chain before its binding can change''), s)
       | None \<Rightarrow>
           lc_then (insert_intent L t (survival_action s j (pd_grace_ends_at pending) b) s)
             (\<lambda>_ s'. (Inr (bm_len (lf_intents s') \<noteq> bm_len (lf_intents s)), s')))))"
    using inv remove insert by (auto split: option.split)
qed

lemma pending_empty: "pending_ok None ints rs projs pend \<Longrightarrow> \<not> bs_member pend i"
  by (simp add: pending_ok_def)

lemma core_death:
  assumes "life_core L s" "lf_pending_death s = None" "death_ok (Some p)"
  shows "life_core L (s\<lparr>lf_pending_death := Some p\<rparr>)"
proof -
  have "\<not> bs_member (lf_pending_projections s) i" for i
    using life_coreD(7)[OF assms(1)] assms(2) pending_empty by simp
  then show ?thesis using life_coreD[OF assms(1)] assms(3) by (simp add: life_core_def pending_ok_def)
qed

lemma schedule_death_inv:
  assumes sha: "sha_bytes L" and inv: "life_inv L s"
  shows "life_inv L (snd (schedule_death L j at grace spend s))"
proof (cases "lf_pending_death s")
  case None
  have step: "life_inv L (snd (lc_then (bump_revision (s\<lparr>lf_pending_death := Some \<lparr>pd_judgment_id = j,
        pd_scheduled_at = at, pd_grace_ends_at = at + grace\<rparr>\<rparr>)) (\<lambda>_ s.
      case spend of
        None \<Rightarrow> (Inr True, s)
      | Some b \<Rightarrow>
          if sb_basis_points b > 0
          then lc_then (enqueue_survival_spend L j at b s) (\<lambda>_ s. (Inr True, s))
          else (Inr True, s))))" if j: "is_sha256_text j"
  proof (rule lc_then_inv)
    let ?s = "s\<lparr>lf_pending_death := Some \<lparr>pd_judgment_id = j, pd_scheduled_at = at, pd_grace_ends_at = at + grace\<rparr>\<rparr>"
    have "life_core L ?s" using inv None j by (intro core_death) (simp_all add: life_inv_def death_ok_def)
    then show "life_inv L (snd (bump_revision ?s))"
      using None by (intro bump_after[OF inv]) (simp_all add: mutations_def)
  next
    fix u s' assume "life_inv L s'"
    then show "life_inv L (snd (case spend of
        None \<Rightarrow> (Inr True, s')
      | Some b \<Rightarrow>
          if sb_basis_points b > 0
          then lc_then (enqueue_survival_spend L j at b s') (\<lambda>_ s. (Inr True, s))
          else (Inr True, s')))"
      using enqueue_survival_inv[OF sha] by (auto split: option.split)
  qed
  show ?thesis
    unfolding schedule_death_def None option.case
    by (intro lc_check_inv[OF inv]) (use step in simp)
next
  case (Some p)
  show ?thesis
    unfolding schedule_death_def Some option.case
    by (rule lc_check_inv[OF inv]) (simp add: inv)
qed

subsection \<open>The end of a death\<close>

lemma succeeded_absorption_ended:
  assumes ints: "intents_ok L (lf_intents s)" and ended: "ended_absorb (lf_intents s) (lf_receipts s) j i"
  shows "list_ex (succeeded_absorption s j) (lf_receipts s)"
proof -
  obtain intent r where r: "bm_get (lf_intents s) i = Some intent" "absorbs_for j (in_action intent)"
    "receipt_in (lf_receipts s) i = Some r" "rc_status r = RS_Succeeded"
    using ended by (auto simp: ended_absorb_def)
  have "r \<in> set (lf_receipts s)" "rc_action_id r = i" using r(3) by (auto simp: receipt_in_def find_Some_iff)
  then show ?thesis using r by (auto simp: list_ex_iff succeeded_absorption_def)
qed

lemma core_no_death:
  assumes "life_core L s" "\<And>i. \<not> bs_member pend i"
  shows "life_core L (s\<lparr>lf_pending_death := None, lf_pending_projections := pend\<rparr>)"
  using life_coreD[OF assms(1)] assms(2) by (simp add: life_core_def pending_ok_def death_ok_def)

lemma core_no_shutdown: "life_core L s \<Longrightarrow> life_core L (s\<lparr>lf_shutdown_at := None\<rparr>)"
  by (simp add: life_core_def shutdown_ok_def)

lemma retire_inv:
  assumes inv: "life_inv L s"
  shows "life_inv L (snd (retire_legacy_death_as_dormancy s))"
proof (cases "lf_pending_death s")
  case (Some p)
  have core: "life_core L s" using inv by (simp add: life_inv_def)
  show ?thesis
  proof (cases "list_ex (succeeded_absorption s (pd_judgment_id p)) (lf_receipts s) \<or> has_unapplied_absorption_projection s")
    case False
    define ids where "ids = ids_where (\<lambda>i. receipt_of s (in_action_id i) = None
                   \<and> (spends_for (pd_judgment_id p) (in_action i) \<or> absorbs_for (pd_judgment_id p) (in_action i)
                      \<or> shuts_down_for (pd_judgment_id p) (in_action i))) s"
    have none: "\<not> bs_member (lf_pending_projections s) i" for i
      using life_coreD(4,7)[OF core] False succeeded_absorption_ended[of L s] Some by (auto simp: pending_ok_def)
    have canceled: "life_core L (cancel_all ids s)" unfolding ids_def by (rule cancel_all_core[OF core])
    have pend: "lf_pending_projections (cancel_all ids s) = lf_pending_projections s" by (simp add: cancel_all_def)
    have "life_core L ((cancel_all ids s)\<lparr>lf_pending_death := None, lf_pending_projections := lf_pending_projections s\<rparr>)"
      using core_no_death[OF canceled none] .
    then have "life_core L ((cancel_all ids s)\<lparr>lf_pending_death := None, lf_pending_projections := lf_pending_projections s,
        lf_shutdown_at := None\<rparr>)" by (rule core_no_shutdown)
    moreover have "(cancel_all ids s)\<lparr>lf_pending_death := None, lf_pending_projections := lf_pending_projections s,
        lf_shutdown_at := None\<rparr> = (cancel_all ids s)\<lparr>lf_pending_death := None, lf_shutdown_at := None\<rparr>"
      by (simp add: cancel_all_def)
    ultimately have "life_core L ((cancel_all ids s)\<lparr>lf_pending_death := None, lf_shutdown_at := None\<rparr>)" by simp
    then have "life_inv L (snd (bump_revision ((cancel_all ids s)\<lparr>lf_pending_death := None, lf_shutdown_at := None\<rparr>)))"
      by (intro bump_after[OF inv]) (simp_all add: mutations_def)
    then show ?thesis
      using False by (simp add: retire_legacy_death_as_dormancy_def Some Let_def ids_def)
  qed (simp add: retire_legacy_death_as_dormancy_def Some inv)
qed (simp add: retire_legacy_death_as_dormancy_def inv)

lemma own_absorption_dependency:
  assumes ints: "intents_ok L (lf_intents s)"
  shows "dependency_ok (lf_intents s) (Shutdown (lf_tentacle_id s) j
    (map_option in_action_id (find (own_absorption s j) (bm_values (lf_intents s)))))"
proof (cases "find (own_absorption s j) (bm_values (lf_intents s))")
  case (Some i)
  then have "i \<in> set (bm_values (lf_intents s))" "own_absorption s j i" by (auto simp: find_Some_iff)
  then obtain k where k: "bm_get (lf_intents s) k = Some i" unfolding bm_values_iff by blast
  have "in_action_id i = k" using intent_okD(2)[OF ints k] .
  then show ?thesis
    using Some k \<open>own_absorption s j i\<close>
    by (auto simp: dependency_ok_def own_absorption_def absorbs_exactly_def split: lifecycle_action.splits)
qed (simp add: dependency_ok_def)

lemma reconcile_expired_inv:
  assumes sha: "sha_bytes L" and inv: "life_inv L s"
  shows "life_inv L (snd (reconcile_expired_death L now target s))"
proof (cases "lf_pending_death s")
  case (Some p)
  define j where "j = pd_judgment_id p"
  define ids where "ids = ids_where (unreceipted_spend s j) s"
  define t where "t = cancel_all ids s"
  have inv_t: "life_inv L t" unfolding t_def ids_def by (rule cancel_all_inv[OF inv])
  define first where "first = (case target of
                 None \<Rightarrow> (Inr (cancels_any ids s), t)
               | Some x \<Rightarrow>
                   if list_ex (own_absorption t j) (bm_values (lf_intents t)) then (Inr (cancels_any ids s), t)
                   else lc_then (enqueue_absorption L now (lf_tentacle_id t) x j t) (\<lambda>_ s. (Inr True, s)))"
  have inv_first: "life_inv L (snd first)"
    using inv_t insert_intent_inv[OF sha inv_t]
    by (auto simp: first_def enqueue_absorption_def dependency_ok_def split: option.split)
  have rest: "life_inv L (snd (lc_then first (\<lambda>changed u.
                 lc_then (insert_intent L now
                            (Shutdown (lf_tentacle_id u) j
                              (map_option in_action_id (find (own_absorption u j) (bm_values (lf_intents u))))) u)
                   (\<lambda>_ s'.
                      let grown = bm_len (lf_intents s') \<noteq> bm_len (lf_intents u) in
                      if changed then lc_then (bump_revision s') (\<lambda>_ s'. (Inr True, s'))
                      else (Inr grown, s')))))"
  proof (rule lc_then_inv[OF inv_first])
    fix changed u assume u: "life_inv L u"
    have ints: "intents_ok L (lf_intents u)" using u life_coreD(4) by (simp add: life_inv_def)
    show "life_inv L (snd (lc_then (insert_intent L now
                            (Shutdown (lf_tentacle_id u) j
                              (map_option in_action_id (find (own_absorption u j) (bm_values (lf_intents u))))) u)
                   (\<lambda>_ s'.
                      let grown = bm_len (lf_intents s') \<noteq> bm_len (lf_intents u) in
                      if changed then lc_then (bump_revision s') (\<lambda>_ s'. (Inr True, s'))
                      else (Inr grown, s'))))"
    proof (rule lc_then_inv[OF insert_intent_inv[OF sha u own_absorption_dependency[OF ints]]])
      fix x s' assume s': "life_inv L s'"
      have "life_inv L (snd (bump_revision s'))"
        by (rule bump_after[OF s']) (use s' in \<open>simp_all add: life_inv_def\<close>)
      then show "life_inv L (snd (let grown = bm_len (lf_intents s') \<noteq> bm_len (lf_intents u) in
                      if changed then lc_then (bump_revision s') (\<lambda>_ s'. (Inr True, s'))
                      else (Inr grown, s')))" using s' by (simp add: Let_def)
    qed
  qed
  show ?thesis
    using inv rest unfolding first_def t_def ids_def j_def
    by (simp add: reconcile_expired_death_def Some Let_def)
qed (simp add: reconcile_expired_death_def inv)

subsection \<open>Projections\<close>

lemma receipt_in_Some: "receipt_in rs i = Some r \<Longrightarrow> r \<in> set rs \<and> rc_action_id r = i"
  by (auto simp: receipt_in_def find_Some_iff)

lemma receipt_in_distinct:
  "distinct (map rc_action_id rs) \<Longrightarrow> r \<in> set rs \<Longrightarrow> receipt_in rs (rc_action_id r) = Some r"
proof (induction rs)
  case (Cons x rs)
  then show ?case by (cases "x = r") (auto simp: receipt_in_def image_iff)
qed simp

lemma expected_projections_sound:
  assumes core: "life_core L s" and i: "i \<in> set (expected_projections s)"
  shows "bm_get (lf_absorption_projections s) i = None
     \<and> (\<exists>p. lf_pending_death s = Some p \<and> ended_absorb (lf_intents s) (lf_receipts s) (pd_judgment_id p) i)"
proof -
  obtain r intent where r: "r \<in> set (lf_receipts s)" "rc_status r = RS_Succeeded"
    "bm_get (lf_intents s) (rc_action_id r) = Some intent" "awaits_projection s intent" "in_action_id intent = i"
    using i by (auto simp: expected_projections_def map_filter_def split: option.splits if_splits)
  have id: "rc_action_id r = i" using intent_okD(2)[OF life_coreD(4)[OF core] r(3)] r(5) by simp
  have "receipt_in (lf_receipts s) i = Some r"
    using receipt_in_distinct[OF _ r(1)] life_coreD(5)[OF core] id by (simp add: receipts_ok_def)
  then show ?thesis
    using r id by (auto simp: awaits_projection_def ended_absorb_def split: option.splits)
qed

lemma core_pending:
  assumes "life_core L s"
    "pending_ok (lf_pending_death s) (lf_intents s) (lf_receipts s) (lf_absorption_projections s) pend"
  shows "life_core L (s\<lparr>lf_pending_projections := pend\<rparr>)"
  using life_coreD[OF assms(1)] assms(2) by (simp add: life_core_def)

lemma tracking_inv:
  assumes inv: "life_inv L s"
  shows "life_inv L (snd (reconcile_absorption_projection_tracking s))"
proof -
  let ?s = "s\<lparr>lf_pending_projections := fold bs_insert (expected_projections s) (lf_pending_projections s)\<rparr>"
  have core: "life_core L s" using inv by (simp add: life_inv_def)
  have "life_core L ?s"
  proof (rule core_pending[OF core])
    show "pending_ok (lf_pending_death s) (lf_intents s) (lf_receipts s) (lf_absorption_projections s)
      (fold bs_insert (expected_projections s) (lf_pending_projections s))"
      using life_coreD(7)[OF core] expected_projections_sound[OF core]
      unfolding pending_ok_def fold_bs_insert_member by blast
  qed
  moreover have "mutations ?s = mutations s" by (simp add: mutations_def)
  ultimately show ?thesis
    using inv bump_after[OF inv, of ?s]
    by (simp add: reconcile_absorption_projection_tracking_def Let_def life_inv_def counted_def)
qed

lemma record_absorption_projection_inv:
  assumes inv: "life_inv L s"
  shows "life_inv L (snd (record_absorption_projection i at s))"
proof -
  have core: "life_core L s" using inv by (simp add: life_inv_def)
  let ?s = "s\<lparr>lf_pending_projections := bs_remove i (lf_pending_projections s),
             lf_absorption_projections := bm_insert i at (lf_absorption_projections s)\<rparr>"
  have step: "life_inv L (snd (bump_revision ?s))"
    if new: "bm_get (lf_absorption_projections s) i = None"
      and r: "bm_get (lf_intents s) i = Some intent" "is_absorb (in_action intent)" "receipt_of s i = Some r"
        "rc_status r = RS_Succeeded" "rc_completed_at r \<le> saturating_add u64_max at LIFECYCLE_RECEIPT_CLOCK_SKEW_MS"
    for intent r
  proof (rule bump_after[OF inv])
    have pend: "pending_ok (lf_pending_death s) (lf_intents s) (lf_receipts s) (bm_insert i at (lf_absorption_projections s))
        (bs_remove i (lf_pending_projections s))"
      using life_coreD(7)[OF core] by (simp add: pending_ok_def)
    have projs: "absorptions_ok (lf_intents s) (lf_receipts s) (bm_insert i at (lf_absorption_projections s))"
      using life_coreD(8)[OF core] r by (auto simp: absorptions_ok_def receipt_of_in)
    show "life_core L ?s" using life_coreD[OF core] pend projs by (simp add: life_core_def)
    show "mutations ?s \<le> Suc (mutations s)" using new by (simp add: mutations_def)
  qed simp
  show ?thesis
    unfolding record_absorption_projection_def
    apply (intro lc_check_inv[OF inv])
    using inv step by (auto intro!: lc_check_inv split: option.split)
qed

lemma record_spawn_projection_inv:
  assumes inv: "life_inv L s"
  shows "life_inv L (snd (record_spawn_projection i at period s))"
proof -
  have core: "life_core L s" using inv by (simp add: life_inv_def)
  let ?s = "s\<lparr>lf_spawn_projections := bm_insert i \<lparr>sp_completed_at = at, sp_period_started_at = period\<rparr> (lf_spawn_projections s)\<rparr>"
  have step: "life_inv L (snd (bump_revision ?s))"
    if new: "bm_get (lf_spawn_projections s) i = None"
      and r: "bm_get (lf_intents s) i = Some intent" "is_spawn (in_action intent)" "receipt_of s i = Some r"
        "rc_status r = RS_Succeeded" "rc_completed_at r = at" "\<not> period < 0"
    for intent r
  proof (rule bump_after[OF inv])
    obtain j where j: "bm_get (lf_intents s) (rc_action_id r) = Some j" "validate_lifecycle_receipt L j r = Inr ()"
      "rc_action_id r = i" using life_coreD(5)[OF core] r(3)
      by (metis receipt_in_Some receipt_of_in receipts_ok_def)
    have "in_created_at intent \<le> at"
      using j r(1,5) by (simp add: validate_lifecycle_receipt_def run_checks.simps(1))
    then have "spawns_ok (lf_intents s) (lf_receipts s)
        (bm_insert i \<lparr>sp_completed_at = at, sp_period_started_at = period\<rparr> (lf_spawn_projections s))"
      using life_coreD(9)[OF core] r by (auto simp: spawns_ok_def receipt_of_in)
    then show "life_core L ?s" using life_coreD[OF core] by (simp add: life_core_def)
    show "mutations ?s \<le> Suc (mutations s)" using new by (simp add: mutations_def)
  qed simp
  show ?thesis
    unfolding record_spawn_projection_def
    apply (intro lc_check_inv[OF inv])
    using inv step by (auto intro!: lc_check_inv simp: Let_def split: option.split)
qed

subsection \<open>Acknowledgement\<close>

lemma fold_bs_remove_member: "bs_member (fold bs_remove xs b) x \<longleftrightarrow> bs_member b x \<and> x \<notin> set xs"
  by (induction xs arbitrary: b) auto

lemma survive_pending:
  assumes core: "life_core L s" and p: "lf_pending_death s = Some p" "pd_judgment_id p = j"
  shows "\<not> bs_member (lf_pending_projections (survive s intent j)) i"
proof
  assume "bs_member (lf_pending_projections (survive s intent j)) i"
  then have i: "bs_member (lf_pending_projections s) i"
    and out: "i \<notin> set (ids_where (\<lambda>r. absorbs_for j (in_action r) \<and> action_succeeded s (in_action_id r)) s)"
    by (auto simp: survive_def Let_def fold_bs_remove_member)
  have "ended_absorb (lf_intents s) (lf_receipts s) j i"
    using life_coreD(7)[OF core] i p by (auto simp: pending_ok_def)
  then obtain a r where a: "bm_get (lf_intents s) i = Some a" "absorbs_for j (in_action a)"
    "receipt_in (lf_receipts s) i = Some r" "rc_status r = RS_Succeeded"
    by (auto simp: ended_absorb_def)
  then have "action_succeeded s (in_action_id a)"
    using intent_okD(2)[OF life_coreD(4)[OF core] a(1)] by (simp add: action_succeeded_def receipt_of_in)
  then show False using out a(1,2) ids_where_iff[OF life_coreD(4)[OF core]] by blast
qed

lemma survive_core:
  assumes core: "life_core L s" and p: "lf_pending_death s = Some p" "pd_judgment_id p = j"
  shows "life_core L (survive s intent j)"
proof -
  have "canceled_ok (lf_intents s) (fold bs_insert (ids_where P s) (bs_remove k (lf_canceled s)))" for P k
    by (rule canceled_ok_fold[OF canceled_ok_remove[OF life_coreD(6)[OF core]]])
      (use ids_where_iff[OF life_coreD(4)[OF core]] in blast)
  then have canceled: "canceled_ok (lf_intents s) (lf_canceled (survive s intent j))"
    by (simp add: survive_def Let_def)
  have "survive s intent j = s\<lparr>lf_canceled := lf_canceled (survive s intent j),
      lf_pending_death := None, lf_pending_projections := lf_pending_projections (survive s intent j)\<rparr>"
    by (simp add: survive_def Let_def)
  moreover have "life_core L (s\<lparr>lf_canceled := lf_canceled (survive s intent j),
      lf_pending_death := None, lf_pending_projections := lf_pending_projections (survive s intent j)\<rparr>)"
    using core_no_death[OF core_canceled[OF core canceled] survive_pending[OF core p]] .
  ultimately show ?thesis by simp
qed

lemma survive_fields [simp]:
  "lf_intents (survive s intent j) = lf_intents s" "lf_receipts (survive s intent j) = lf_receipts s"
  "lf_revision (survive s intent j) = lf_revision s" "lf_pending_death (survive s intent j) = None"
  "lf_spawn_projections (survive s intent j) = lf_spawn_projections s"
  "lf_absorption_projections (survive s intent j) = lf_absorption_projections s"
  "lf_tentacle_id (survive s intent j) = lf_tentacle_id s"
  by (simp_all add: survive_def Let_def)

lemma settle_cases:
  assumes "settle_survival s intent receipt = Inr s'"
  obtains (same) "s' = s" "\<forall>p. in_action intent = SpendForSurvival p \<longrightarrow> rc_status receipt \<noteq> RS_Succeeded"
  | (survived) p d where "in_action intent = SpendForSurvival p" "rc_status receipt = RS_Succeeded"
      "lf_pending_death s = Some d" "pd_judgment_id d = ss_judgment_id p" "pd_grace_ends_at d = ss_grace_ends_at p"
      "s' = survive s intent (ss_judgment_id p)"
      "\<forall>c. rc_chain receipt = Some c \<longrightarrow> \<not> consumed_by_other s receipt (cx_transaction_hash c)"
proof (cases "in_action intent")
  case (SpendForSurvival p)
  show ?thesis
  proof (cases "rc_status receipt = RS_Succeeded")
    case True
    then show ?thesis using assms survived[of p] by (auto simp: settle_survival_def SpendForSurvival split: option.splits)
  next
    case False
    then show ?thesis using assms same by (simp add: settle_survival_def SpendForSurvival)
  qed
qed (use assms same in \<open>simp_all add: settle_survival_def\<close>)

lemma receipt_in_append:
  "receipt_in (rs @ [r]) i = (case receipt_in rs i of Some x \<Rightarrow> Some x | None \<Rightarrow> if rc_action_id r = i then Some r else None)"
  by (induction rs) (auto simp: receipt_in_def)

lemma receipt_in_grows: "receipt_in rs i = Some x \<Longrightarrow> receipt_in (rs @ [r]) i = Some x"
  by (simp add: receipt_in_append)

lemma receipt_in_None: "receipt_in rs i = None \<longleftrightarrow> i \<notin> rc_action_id ` set rs"
  by (auto simp: receipt_in_def find_None_iff)

lemma receipted_core:
  assumes core: "life_core L s" and intent: "bm_get (lf_intents s) (rc_action_id r) = Some intent"
    and ok: "validate_lifecycle_receipt L intent r = Inr ()" and new: "receipt_of s (rc_action_id r) = None"
  shows "life_core L (receipted s intent r was_canceled)"
proof -
  let ?rs = "lf_receipts s @ [r]"
  have new': "receipt_in (lf_receipts s) (rc_action_id r) = None" using new by (simp add: receipt_of_in)
  have id: "in_action_id intent = rc_action_id r" using intent_okD(2)[OF life_coreD(4)[OF core] intent] .
  have receipts: "receipts_ok L (lf_intents s) ?rs"
    using life_coreD(5)[OF core] new' intent ok by (auto simp: receipts_ok_def receipt_in_None)
  have ended: "ended_absorb (lf_intents s) ?rs j i" if "ended_absorb (lf_intents s) (lf_receipts s) j i" for j i
    using that receipt_in_grows unfolding ended_absorb_def by blast
  have pend: "pending_ok (lf_pending_death s) (lf_intents s) ?rs (lf_absorption_projections s) (lf_pending_projections s)"
    using life_coreD(7)[OF core] ended unfolding pending_ok_def by blast
  have projs: "absorptions_ok (lf_intents s) ?rs (lf_absorption_projections s)"
    using life_coreD(8)[OF core] receipt_in_grows unfolding absorptions_ok_def by blast
  have spawns: "spawns_ok (lf_intents s) ?rs (lf_spawn_projections s)"
    using life_coreD(9)[OF core] receipt_in_grows unfolding spawns_ok_def by blast
  have shut: "shutdown_ok (lf_intents s) ?rs (lf_shutdown_at s)"
    using life_coreD(10)[OF core] by (auto simp: shutdown_ok_def)
  have shut_new: "shutdown_ok (lf_intents s) ?rs (Some (rc_completed_at r))"
    if "is_shutdown (in_action intent)" "rc_status r = RS_Succeeded"
    using that intent by (auto simp: shutdown_ok_def)
  have tracked: "pending_ok (lf_pending_death s) (lf_intents s) ?rs (lf_absorption_projections s)
      (bs_insert (rc_action_id r) (lf_pending_projections s))"
    if "rc_status r = RS_Succeeded" "lf_pending_death s = Some p" "absorbs_for (pd_judgment_id p) (in_action intent)" for p
  proof -
    have "ended_absorb (lf_intents s) ?rs (pd_judgment_id p) (rc_action_id r)"
      using that intent new' by (simp add: ended_absorb_def receipt_in_append)
    moreover have "bm_get (lf_absorption_projections s) (rc_action_id r) = None"
      using life_coreD(8)[OF core] new' by (cases "bm_get (lf_absorption_projections s) (rc_action_id r)") (fastforce simp: absorptions_ok_def)+
    ultimately show ?thesis using pend that(2) by (simp add: pending_ok_def)
  qed
  show ?thesis
    using life_coreD[OF core] receipts pend projs spawns shut shut_new tracked
    by (auto simp: life_core_def receipted_def Let_def id split: option.splits)
qed

lemma receipted_fields:
  "lf_intents (receipted s i r c) = lf_intents s" "lf_receipts (receipted s i r c) = lf_receipts s @ [r]"
  "lf_revision (receipted s i r c) = lf_revision s" "lf_pending_death (receipted s i r c) = lf_pending_death s"
  "lf_canceled (receipted s i r c) = lf_canceled s" "mutations (receipted s i r c) = Suc (mutations s)"
  "lf_tentacle_id (receipted s i r c) = lf_tentacle_id s"
  by (simp_all add: receipted_def Let_def mutations_def)

lemma acknowledge_action_inv:
  assumes inv: "life_inv L s"
  shows "life_inv L (snd (acknowledge_action L receipt s))"
  unfolding acknowledge_action_def
proof (intro lc_check_inv[OF inv])
  fix intent u
  assume intent: "ok_or (EV_NotFound (rc_action_id receipt)) (bm_get (lf_intents s) (rc_action_id receipt)) = Inr intent"
    and ok: "validate_lifecycle_receipt L intent receipt = Inr u"
  have core: "life_core L s" using inv by (simp add: life_inv_def)
  have step: "life_inv L (snd (bump_revision (receipted t intent receipt c)))"
    if t: "settle_survival s intent receipt = Inr t" and new: "receipt_of s (rc_action_id receipt) = None" for t c
    using t
  proof (cases rule: settle_cases)
    case same
    show ?thesis
      unfolding same(1)
      by (rule bump_after[OF inv receipted_core[OF core _ _ new]]) (use intent ok in \<open>simp_all add: receipted_fields\<close>)
  next
    case (survived p d)
    have "life_core L t" unfolding survived(6) by (rule survive_core[OF core survived(3,4)])
    then have "life_core L (receipted t intent receipt c)"
      by (rule receipted_core) (use intent ok new survived(6) in \<open>simp_all add: receipt_of_in\<close>)
    moreover have "mutations t \<le> mutations s" by (simp add: survived(6) mutations_def)
    ultimately show ?thesis
      by (intro bump_after[OF inv]) (simp_all add: receipted_fields survived(6))
  qed
  show "life_inv L (snd (case receipt_of s (rc_action_id receipt) of
       Some existing \<Rightarrow>
         if existing = receipt then (Inr (in_action intent, False), s)
         else (Inl (EV_Conflict ''lifecycle action already has a different terminal receipt''), s)
     | None \<Rightarrow>
         lc_check (settle_survival s intent receipt) s (\<lambda>t.
           lc_then (bump_revision (receipted t intent receipt (bs_member (lf_canceled s) (rc_action_id receipt))))
             (\<lambda>_ s. (Inr (in_action intent, True), s)))))"
    using inv step by (auto intro!: lc_check_inv split: option.split)
qed

subsection \<open>Runs\<close>

datatype life_op =
    OP_AutoSpawn bool
  | OP_VeniceReward nat lifecycle_action
  | OP_ContributionReward nat lifecycle_action
  | OP_Spawn nat spawn_plan
  | OP_Absorb nat string string string
  | OP_SurvivalSpend string nat survival_binding
  | OP_ScheduleDeath string nat nat "survival_binding option"
  | OP_CancelSpends string
  | OP_ReconcileExpired nat "string option"
  | OP_Retire
  | OP_Track
  | OP_AbsorptionProjection string nat
  | OP_SpawnProjection string nat int
  | OP_Acknowledge lifecycle_receipt

fun life_step :: "evolution_libs \<Rightarrow> life_op \<Rightarrow> lifecycle_state \<Rightarrow> lifecycle_state" where
  "life_step L (OP_AutoSpawn enabled) s = snd (set_auto_spawn_enabled enabled s)"
| "life_step L (OP_VeniceReward t a) s = snd (enqueue_venice_key_reward L t a s)"
| "life_step L (OP_ContributionReward t a) s = snd (enqueue_acolyte_contribution_reward L t a s)"
| "life_step L (OP_Spawn t p) s = snd (enqueue_spawn L t p s)"
| "life_step L (OP_Absorb t source target j) s = snd (enqueue_absorption L t source target j s)"
| "life_step L (OP_SurvivalSpend j t b) s = snd (enqueue_survival_spend L j t b s)"
| "life_step L (OP_ScheduleDeath j at grace spend) s = snd (schedule_death L j at grace spend s)"
| "life_step L (OP_CancelSpends j) s = snd (cancel_pending_survival_spends j s)"
| "life_step L (OP_ReconcileExpired now target) s = snd (reconcile_expired_death L now target s)"
| "life_step L OP_Retire s = snd (retire_legacy_death_as_dormancy s)"
| "life_step L OP_Track s = snd (reconcile_absorption_projection_tracking s)"
| "life_step L (OP_AbsorptionProjection i at) s = snd (record_absorption_projection i at s)"
| "life_step L (OP_SpawnProjection i at period) s = snd (record_spawn_projection i at period s)"
| "life_step L (OP_Acknowledge receipt) s = snd (acknowledge_action L receipt s)"

definition life_run :: "evolution_libs \<Rightarrow> life_op list \<Rightarrow> lifecycle_state \<Rightarrow> lifecycle_state" where
  "life_run L ops s = fold (life_step L) ops s"

lemma life_run_simps [simp]:
  "life_run L [] s = s"
  "life_run L (op # ops) s = life_run L ops (life_step L op s)"
  "life_run L (ops @ [op]) s = life_step L op (life_run L ops s)"
  by (simp_all add: life_run_def)

end
