(* ===== verification/Lifecycle_Amounts.thy ===== *)
theory Lifecycle_Amounts
  imports Lifecycle_Types
begin

section \<open>Lifecycle: exact token amounts\<close>

text \<open>
  The decimal text of an amount is that of the number it stands for, and the comparison of texts with
  the largest 256-bit number is the comparison of the numbers.
\<close>

lemma digit_char_less: "d < 10 \<Longrightarrow> e < 10 \<Longrightarrow> digit_char d < digit_char e \<longleftrightarrow> d < e"
  using byte_digit_char[of d] byte_digit_char[of e] unfolding less_char_def byte_def by linarith

lemma digit_char_eq: "d < 10 \<Longrightarrow> e < 10 \<Longrightarrow> digit_char d = digit_char e \<longleftrightarrow> d = e"
  using byte_digit_char[of d] byte_digit_char[of e] by (metis add_left_cancel)

lemma snoc_less:
  fixes x y :: "'a :: linorder"
  shows "length xs = length ys \<Longrightarrow> xs @ [x] < ys @ [y] \<longleftrightarrow> xs < ys \<or> xs = ys \<and> x < y"
  by (induction xs ys rule: list_induct2) auto

lemma decimal_small: "n < 10 \<Longrightarrow> decimal n = [digit_char n]"
  by (subst decimal.simps) simp

lemma decimal_large: "n \<ge> 10 \<Longrightarrow> decimal n = decimal (n div 10) @ [digit_char (n mod 10)]"
  by (subst decimal.simps) simp

lemma decimal_snoc: "v > 0 \<Longrightarrow> d < 10 \<Longrightarrow> decimal (10 * v + d) = decimal v @ [digit_char d]"
  by (subst decimal_large) auto

lemma decimal_foldl:
  "v > 0 \<Longrightarrow> \<forall>d\<in>set ds. d < 10 \<Longrightarrow> decimal (foldl (\<lambda>v d. 10 * v + d) v ds) = decimal v @ map digit_char ds"
  by (induction ds arbitrary: v) (simp_all add: decimal_snoc)

definition u256_digits :: "nat list" where
  "u256_digits = [1,5,7,9,2,0,8,9,2,3,7,3,1,6,1,9,5,4,2,3,5,7,0,9,8,5,0,0,8,6,8,7,9,0,7,8,5,3,2,6,9,9,8,4,6,6,5,6,4,0,5,6,4,0,3,9,4,5,7,5,8,4,0,0,7,9,1,3,1,2,9,6,3,9,9,3,5]"

lemma u256_digits_value: "foldl (\<lambda>v d. 10 * v + d) 1 u256_digits = 2 ^ 256 - 1"
  by (simp add: u256_digits_def)

lemma digit_chars:
  "digit_char 0 = CHR ''0''" "digit_char 1 = CHR ''1''" "digit_char 2 = CHR ''2''" "digit_char 3 = CHR ''3''" "digit_char 4 = CHR ''4''" "digit_char 5 = CHR ''5''" "digit_char 6 = CHR ''6''" "digit_char 7 = CHR ''7''" "digit_char 8 = CHR ''8''" "digit_char 9 = CHR ''9''"
  by code_simp+

lemma u256_digits_text: "EV_U256_MAX_DECIMAL = CHR ''1'' # map digit_char u256_digits"
  by (simp add: EV_U256_MAX_DECIMAL_def u256_digits_def digit_chars digit_chars(1)[simplified] digit_chars(2)[simplified])

lemma U256_MAX_text: "EV_U256_MAX_DECIMAL = decimal (2 ^ 256 - 1)"
proof -
  have "\<forall>d\<in>set u256_digits. d < 10" by (simp add: u256_digits_def)
  then have "decimal (2 ^ 256 - 1) = decimal 1 @ map digit_char u256_digits"
    using decimal_foldl[of 1 u256_digits] unfolding u256_digits_value by simp
  then show ?thesis by (simp add: u256_digits_text decimal_small digit_chars(2)[simplified])
qed

lemma decimal_zeros: "n > 0 \<Longrightarrow> decimal (n * 10 ^ k) = decimal n @ replicate k CHR ''0''"
proof (induction k)
  case (Suc k)
  have "decimal (n * 10 ^ Suc k) = decimal (10 * (n * 10 ^ k) + 0)" by (simp add: ac_simps)
  also have "\<dots> = decimal (n * 10 ^ k) @ [digit_char 0]" using Suc.prems by (intro decimal_snoc) simp_all
  finally show ?case using Suc by (simp add: digit_chars(1) replicate_append_same[symmetric])
qed simp

text \<open>Longer means larger, and texts of one length are ordered as their numbers.\<close>

lemma decimal_length_mono: "a \<le> b \<Longrightarrow> length (decimal a) \<le> length (decimal b)"
proof (induction b arbitrary: a rule: less_induct)
  case (less b)
  show ?case
  proof (cases "a < 10")
    case True
    then show ?thesis using decimal_nonempty[of b] by (cases "decimal b") (simp_all add: decimal_small)
  next
    case False
    then have "length (decimal (a div 10)) \<le> length (decimal (b div 10))"
      using less.prems by (intro less.IH) (simp_all add: div_le_mono)
    then show ?thesis using False less.prems by (simp add: decimal_large)
  qed
qed

lemma decimal_less:
  "length (decimal a) = length (decimal b) \<Longrightarrow> a < b \<Longrightarrow> decimal a < decimal b"
proof (induction b arbitrary: a rule: less_induct)
  case (less b)
  show ?case
  proof (cases "b < 10")
    case True
    then show ?thesis using less.prems by (simp add: decimal_small digit_char_less)
  next
    case False
    have "a \<ge> 10"
    proof (rule ccontr)
      assume "\<not> a \<ge> 10"
      then have "decimal (b div 10) = []" using less.prems(1) False by (simp add: decimal_small decimal_large)
      then show False by simp
    qed
    then have len: "length (decimal (a div 10)) = length (decimal (b div 10))"
      using less.prems(1) False by (simp add: decimal_large)
    have "a div 10 < b div 10 \<or> a div 10 = b div 10 \<and> a mod 10 < b mod 10"
      using less.prems(2) div_le_mono[of a b 10] by (metis div_mult_mod_eq le_less less_imp_le_nat nat_add_left_cancel_less)
    then have "decimal (a div 10) < decimal (b div 10)
        \<or> decimal (a div 10) = decimal (b div 10) \<and> digit_char (a mod 10) < digit_char (b mod 10)"
      using less.IH[of "b div 10" "a div 10"] False len by (auto simp: digit_char_less)
    then show ?thesis using \<open>a \<ge> 10\<close> False len by (simp add: decimal_large snoc_less)
  qed
qed

lemma above_u256_decimal: "above_u256 (decimal v) \<longleftrightarrow> 2 ^ 256 \<le> v"
proof -
  have "above_u256 (decimal v) \<longleftrightarrow> 2 ^ 256 - 1 < v"
  proof (cases "2 ^ 256 - 1 < v")
    case True
    then have "length (decimal (2 ^ 256 - 1)) \<le> length (decimal v)" by (intro decimal_length_mono) simp
    then show ?thesis using True decimal_less[of "2 ^ 256 - 1" v] unfolding above_u256_def U256_MAX_text by auto
  next
    case False
    then have "length (decimal v) \<le> length (decimal (2 ^ 256 - 1))" by (intro decimal_length_mono) simp
    moreover have "decimal v \<le> decimal (2 ^ 256 - 1)" if "length (decimal v) = length (decimal (2 ^ 256 - 1))"
      using decimal_less[OF that] False by (cases "v = 2 ^ 256 - 1") auto
    ultimately show ?thesis using False unfolding above_u256_def U256_MAX_text by auto
  qed
  then show ?thesis by auto
qed

lemma decimal_zero: "decimal v = ''0'' \<longleftrightarrow> v = 0"
proof
  assume v: "decimal v = ''0''"
  have "v < 10"
  proof (rule ccontr)
    assume "\<not> v < 10"
    then show False using v by (simp add: decimal_large)
  qed
  then show "v = 0" using v digit_char_eq[of v 0] by (simp add: decimal_small digit_chars(1)[symmetric])
qed (simp add: decimal_small digit_chars(1))

subsection \<open>The formulas\<close>

lemma exact_raw_value:
  assumes "supply > 0" "supply \<le> u64_max" "decimals \<le> 77" "1 \<le> bp" "bp \<le> 10000"
  shows "exact_raw_token_amount supply decimals bp =
    (let v = supply * 10 ^ decimals * bp div 10000 in
     if v = 0 then Inl (EV_Invalid ''survival burn formula rounds to zero base units'')
     else if 2 ^ 256 \<le> v then Inl (EV_Limit ''survival token amount'') else Inr (decimal v))"
proof -
  let ?n = "supply * bp"
  have fits: "\<not> ?n > ev_u128_max"
    using mult_le_mono[OF assms(2,5)] by (simp add: u64_max_def ev_u128_max_def)
  have raw: "(if decimals \<ge> 4 then decimal ?n @ replicate (decimals - 4) CHR ''0'' else decimal (?n div 10 ^ (4 - decimals)))
      = decimal (supply * 10 ^ decimals * bp div 10000)"
  proof (cases "decimals \<ge> 4")
    case True
    then obtain k where k: "decimals = 4 + k" using le_Suc_ex by blast
    have "supply * 10 ^ decimals * bp = ?n * 10 ^ k * 10000" by (simp add: k power_add)
    then have "supply * 10 ^ decimals * bp div 10000 = ?n * 10 ^ k" by (simp only:)
    then show ?thesis using True assms decimal_zeros[of ?n k] by (simp add: k)
  next
    case False
    then obtain k where k: "4 = decimals + k" using le_Suc_ex by (metis nat_le_linear)
    then have rest: "4 - decimals = k" by simp
    have "(10000 :: nat) = 10 ^ decimals * 10 ^ k" by (simp flip: power_add k)
    then have "supply * 10 ^ decimals * bp div 10000 = (10 ^ decimals * ?n) div (10 ^ decimals * 10 ^ k)"
      by (simp add: ac_simps)
    also have "\<dots> = ?n div 10 ^ k" by simp
    finally show ?thesis using False unfolding rest by simp
  qed
  show ?thesis
    unfolding exact_raw_token_amount_def Let_def raw using assms fits
    by (simp add: decimal_zero above_u256_decimal)
qed

lemma exact_whole_value:
  assumes "whole > 0" "decimals \<le> 77"
  shows "exact_whole_token_amount whole decimals =
    (if 2 ^ 256 \<le> whole * 10 ^ decimals then Inl (EV_Limit ''whole-token transfer amount'')
     else Inr (decimal (whole * 10 ^ decimals)))"
  using assms by (simp add: exact_whole_token_amount_def decimal_zeros[symmetric] above_u256_decimal)

end
