(* ===== verification/Lifecycle_Samples.thy ===== *)
theory Lifecycle_Samples
  imports Lifecycle_Steps Lifecycle_Amounts
begin

section \<open>Lifecycle: sample runs\<close>

text \<open>
  Small runs of the outbox computed step by step, with an encoder and a digest that tell the kinds of
  actions apart: a death that is survived, a death that is not, and two rewards.
\<close>

fun action_code :: "lifecycle_action \<Rightarrow> nat" where
  "action_code (SpendForSurvival p) = 1"
| "action_code (RewardVeniceKey r) = 2"
| "action_code (RewardAcolyteContribution k hunger r) = 3"
| "action_code (Absorb source target judgment) = 4"
| "action_code (Spawn p) = 5"
| "action_code (Shutdown i judgment after) = 6"

definition outbox_libs :: evolution_libs where
  "outbox_libs = \<lparr>el_encode = (\<lambda>a. Inr (replicate (action_code a) 0)),
     el_crypto = \<lparr>nc_canonical = (\<lambda>n. text_bytes (na_id n)), nc_envelope = (\<lambda>v a n. text_bytes (a @ na_id n)),
       nc_sha256 = (\<lambda>m. replicate 32 (word_of_nat (length m))), nc_hmac = (\<lambda>k m. replicate 32 0)\<rparr>\<rparr>"

lemma sample_sha: "sha_bytes outbox_libs"
  by (simp add: sha_bytes_def outbox_libs_def)

definition sample_id :: "nat \<Rightarrow> string" where
  "sample_id n = encode_hex (replicate 32 (word_of_nat (27 + n)))"

lemma sample_action_id: "lifecycle_action_id outbox_libs a = Inr (sample_id (action_code a))"
proof -
  have "length (text_bytes ''cthuwu-lifecycle-action-v1'') = 26" by (simp add: text_bytes_def)
  then show ?thesis by (simp add: lifecycle_action_id_def outbox_libs_def sample_id_def)
qed

lemma outbox_ids:
  "sample_id 2 \<noteq> sample_id 3" "sample_id 4 \<noteq> sample_id 6" "sample_id 2 < sample_id 3" "sample_id 4 < sample_id 6"
  by code_simp+

definition sample_judgment :: string where "sample_judgment = replicate 64 CHR ''a''"
definition sample_hash :: string where "sample_hash = ''0x'' @ replicate 64 CHR ''b''"

lemma sample_texts:
  "is_sha256_text sample_judgment" "id_text ''root''" "id_text ''sibling''" "transaction_hash_text sample_hash"
  "replicate 20 (2 :: 8 word) \<noteq> ZERO_ADDRESS" "replicate 20 (3 :: 8 word) \<noteq> ZERO_ADDRESS"
  "replicate 20 (5 :: 8 word) \<noteq> ZERO_ADDRESS" "replicate 20 (3 :: 8 word) \<noteq> replicate 20 5"
  "replicate 32 (4 :: 8 word) \<noteq> ZERO_IDENTITY"
  by code_simp+

definition sample_outbox :: lifecycle_state where
  "sample_outbox =
     \<lparr>lf_schema_version = LIFECYCLE_SCHEMA_VERSION, lf_revision = 0, lf_tentacle_id = ''root'',
      lf_auto_spawn = True, lf_pending_death = None, lf_shutdown_at = None, lf_intents = bm_empty,
      lf_receipts = [], lf_canceled = bs_empty, lf_pending_projections = bs_empty,
      lf_absorption_projections = bm_empty, lf_spawn_projections = bm_empty\<rparr>"

lemma sample_outbox_new: "Lifecycle_new ''root'' True = Inr sample_outbox"
proof -
  have "ev_validate_id ''root'' d = Inr ()" for d using sample_texts by simp
  then show ?thesis by (simp add: Lifecycle_new_def sample_outbox_def)
qed

subsection \<open>Steps that go through\<close>

lemma insert_intent_new:
  assumes "validate_lifecycle_action a = Inr ()" "lifecycle_action_id L a = Inr i" "bm_get (lf_intents s) i = None"
    "lf_revision s < u64_max"
  shows "insert_intent L t a s = (Inr \<lparr>in_action_id = i, in_created_at = t, in_action = a\<rparr>,
     s\<lparr>lf_intents := bm_insert i \<lparr>in_action_id = i, in_created_at = t, in_action = a\<rparr> (lf_intents s),
       lf_revision := lf_revision s + 1\<rparr>)"
  using assms by (simp add: insert_intent_def Let_def bump_revision_def checked_add_def)

lemma acknowledge_new:
  assumes "bm_get (lf_intents s) (rc_action_id r) = Some intent" "validate_lifecycle_receipt L intent r = Inr ()"
    "receipt_of s (rc_action_id r) = None" "settle_survival s intent r = Inr t" "lf_revision t < u64_max"
  shows "acknowledge_action L r s = (Inr (in_action intent, True),
    (receipted t intent r (bs_member (lf_canceled s) (rc_action_id r)))\<lparr>lf_revision := lf_revision t + 1\<rparr>)"
  using assms by (simp add: acknowledge_action_def bump_revision_def receipted_fields checked_add_def)

lemma insert_nonempty: "bm_insert k v m \<noteq> bm_empty"
  by (metis bm_get_empty bm_get_insert option.distinct(1))

lemma one_value: "bm_values (bm_insert k v bm_empty) = [v]"
  by (simp add: bm_values_def store_simps)

lemma two_values: "k < l \<Longrightarrow> bm_values (bm_insert l w (bm_insert k v bm_empty)) = [v, w]"
  by (auto simp: bm_values_def store_simps)

subsection \<open>A death that is survived\<close>

definition sample_amount :: exact_token_amount where
  "sample_amount = \<lparr>xa_total_supply_whole = 1000, xa_token_decimals = 2, xa_basis_points = 500, xa_raw_amount = ''5000''\<rparr>"

lemma sample_amount_valid: "validate_exact_token_amount sample_amount = Inr ()"
  by (simp add: validate_exact_token_amount_def sample_amount_def exact_raw_value Let_def u64_max_def
    decimal_large decimal_small digit_chars digit_chars(1)[simplified])

definition sample_binding :: survival_binding where
  "sample_binding = \<lparr>sb_basis_points = 500, sb_chain_id = 8453, sb_token_contract = replicate 20 2,
     sb_treasury_address = replicate 20 3, sb_configuration_identity = replicate 32 4, sb_exact_amount = sample_amount\<rparr>"

definition sample_spend :: survival_spend where
  "sample_spend = \<lparr>ss_tentacle_id = ''root'', ss_judgment_id = sample_judgment, ss_attempt = 0, ss_grace_ends_at = 9000,
     ss_basis_points = 500, ss_chain_id = 8453, ss_token_contract = replicate 20 2, ss_treasury_address = replicate 20 3,
     ss_burn_destination = ZERO_ADDRESS, ss_configuration_identity = replicate 32 4, ss_exact_amount = sample_amount\<rparr>"

lemma sample_spend_valid: "validate_lifecycle_action (SpendForSurvival sample_spend) = Inr ()"
  using sample_texts sample_amount_valid
  by (simp add: sample_spend_def run_checks.simps(1)) (simp add: sample_amount_def)

definition sample_burn :: lifecycle_receipt where
  "sample_burn = \<lparr>rc_action_id = sample_id 1, rc_completed_at = 7000, rc_status = RS_Succeeded,
     rc_external_reference = None, rc_detail = None,
     rc_chain = Some \<lparr>cx_chain_id = 8453, cx_transaction_hash = sample_hash, cx_block_number = 1, cx_block_timestamp = 5,
       cx_token_contract = replicate 20 2, cx_from_address = replicate 20 3, cx_burn_destination = ZERO_ADDRESS,
       cx_configuration_identity = replicate 32 4, cx_exact_amount = sample_amount, cx_operation = Burn\<rparr>,
     rc_transfer = None, rc_provision = None\<rparr>"

definition sample_schedule :: life_op where
  "sample_schedule = OP_ScheduleDeath sample_judgment 1000 8000 (Some sample_binding)"

definition sample_spend_intent :: lifecycle_intent where
  "sample_spend_intent = \<lparr>in_action_id = sample_id 1, in_created_at = 1000, in_action = SpendForSurvival sample_spend\<rparr>"

definition doomed_outbox :: lifecycle_state where
  "doomed_outbox = sample_outbox\<lparr>lf_pending_death := Some \<lparr>pd_judgment_id = sample_judgment, pd_scheduled_at = 1000,
       pd_grace_ends_at = 9000\<rparr>, lf_revision := 2, lf_intents := bm_insert (sample_id 1) sample_spend_intent bm_empty\<rparr>"

lemma sample_scheduled: "life_run outbox_libs [sample_schedule] sample_outbox = doomed_outbox"
proof -
  have sha: "ev_validate_sha256 sample_judgment d = Inr ()" for d using sample_texts by simp
  let ?s = "sample_outbox\<lparr>lf_pending_death := Some \<lparr>pd_judgment_id = sample_judgment, pd_scheduled_at = 1000,
       pd_grace_ends_at = 9000\<rparr>, lf_revision := 1\<rparr>"
  have action: "survival_action ?s sample_judgment 9000 sample_binding = SpendForSurvival sample_spend"
    by (simp add: survival_action_def sample_spend_def sample_binding_def next_attempt_def spend_attempts_def sample_outbox_def
      bm_values_def map_filter_simps)
  have insert: "insert_intent outbox_libs 1000 (SpendForSurvival sample_spend) ?s
      = (Inr sample_spend_intent, ?s\<lparr>lf_intents := bm_insert (sample_id 1) sample_spend_intent (lf_intents ?s), lf_revision := lf_revision ?s + 1\<rparr>)"
    using insert_intent_new[OF sample_spend_valid, of outbox_libs "sample_id 1" ?s 1000]
    by (simp add: sample_action_id sample_spend_intent_def sample_outbox_def u64_max_def)
  have "enqueue_survival_spend outbox_libs sample_judgment 1000 sample_binding ?s = (Inr True, doomed_outbox)"
    using action insert
    by (simp add: enqueue_survival_spend_def sample_outbox_def bm_values_def doomed_outbox_def insert_nonempty)
  then show ?thesis
    by (simp add: sample_schedule_def schedule_death_def sha bump_revision_def checked_add_def sample_outbox_def
      u64_max_def sample_binding_def)
qed

lemma sample_burn_valid: "validate_lifecycle_receipt outbox_libs sample_spend_intent sample_burn = Inr ()"
  using sample_texts sample_amount_valid
  by (simp add: validate_lifecycle_receipt_def sample_spend_intent_def sample_burn_def validate_execution_text_def
    validate_chain_receipt_def run_checks.simps(1) sample_spend_def receipt_ms_def saturating_mul_def u64_max_def)

definition survived_outbox :: lifecycle_state where
  "survived_outbox = snd (acknowledge_action outbox_libs sample_burn doomed_outbox)"

lemma sample_survived:
  "acknowledge_action outbox_libs sample_burn doomed_outbox = (Inr (SpendForSurvival sample_spend, True), survived_outbox)"
  "lf_receipts survived_outbox = [sample_burn]" "lf_intents survived_outbox = bm_insert (sample_id 1) sample_spend_intent bm_empty"
  "lf_revision survived_outbox = 3"
proof -
  have get: "bm_get (lf_intents doomed_outbox) (rc_action_id sample_burn) = Some sample_spend_intent"
    by (simp add: doomed_outbox_def sample_burn_def)
  have none: "receipt_of doomed_outbox (rc_action_id sample_burn) = None"
    by (simp add: receipt_of_def doomed_outbox_def sample_outbox_def)
  have settle: "settle_survival doomed_outbox sample_spend_intent sample_burn
      = Inr (survive doomed_outbox sample_spend_intent sample_judgment)"
    by (simp add: settle_survival_def sample_spend_intent_def sample_burn_def doomed_outbox_def consumed_by_other_def
      sample_outbox_def sample_spend_def ensure_def)
  have rev: "lf_revision (survive doomed_outbox sample_spend_intent sample_judgment) < u64_max"
    by (simp add: doomed_outbox_def u64_max_def)
  note ack = acknowledge_new[OF get sample_burn_valid none settle rev]
  show "acknowledge_action outbox_libs sample_burn doomed_outbox = (Inr (SpendForSurvival sample_spend, True), survived_outbox)"
    unfolding survived_outbox_def ack by (simp add: sample_spend_intent_def)
  show "lf_receipts survived_outbox = [sample_burn]" "lf_intents survived_outbox = bm_insert (sample_id 1) sample_spend_intent bm_empty"
    "lf_revision survived_outbox = 3"
    unfolding survived_outbox_def ack by (simp_all add: receipted_fields doomed_outbox_def sample_outbox_def)
qed

subsection \<open>A death that is not survived\<close>

definition sample_transfer_failed :: lifecycle_receipt where
  "sample_transfer_failed = \<lparr>rc_action_id = sample_id 4, rc_completed_at = 9500, rc_status = RS_Failed,
     rc_external_reference = None, rc_detail = None, rc_chain = None, rc_transfer = None, rc_provision = None\<rparr>"

definition dying_ops :: "life_op list" where
  "dying_ops = [OP_ScheduleDeath sample_judgment 1000 8000 None, OP_ReconcileExpired 9000 (Some ''sibling''),
     OP_Acknowledge sample_transfer_failed]"

definition sample_absorption :: lifecycle_intent where
  "sample_absorption = \<lparr>in_action_id = sample_id 4, in_created_at = 9000, in_action = Absorb ''root'' ''sibling'' sample_judgment\<rparr>"

definition sample_shutdown :: lifecycle_intent where
  "sample_shutdown = \<lparr>in_action_id = sample_id 6, in_created_at = 9000,
     in_action = Shutdown ''root'' sample_judgment (Some (sample_id 4))\<rparr>"

lemma sample_id_text: "is_sha256_text (sample_id n)"
  using encode_hex_text[of "replicate 32 (word_of_nat (27 + n))" 32]
  by (simp add: sample_id_def lower_hex_text_def is_sha256_text_def)

lemma sample_dying_due: "next_due_action (life_run outbox_libs dying_ops sample_outbox) = Some sample_shutdown"
proof -
  have checks: "ev_validate_sha256 sample_judgment d = Inr ()" "ev_validate_id ''root'' d = Inr ()"
    "ev_validate_id ''sibling'' d = Inr ()" "ev_validate_sha256 (sample_id n) d = Inr ()" for d n
    using sample_texts sample_id_text by simp_all
  let ?p = "\<lparr>pd_judgment_id = sample_judgment, pd_scheduled_at = 1000, pd_grace_ends_at = 9000\<rparr>"
  define s1 where "s1 = sample_outbox\<lparr>lf_pending_death := Some ?p, lf_revision := 1\<rparr>"
  have s1: "life_step outbox_libs (OP_ScheduleDeath sample_judgment 1000 8000 None) sample_outbox = s1"
    by (simp add: s1_def schedule_death_def checks bump_revision_def checked_add_def sample_outbox_def u64_max_def)
  define s2 where "s2 = s1\<lparr>lf_intents := bm_insert (sample_id 4) sample_absorption bm_empty, lf_revision := 2\<rparr>"
  have i2: "insert_intent outbox_libs 9000 (Absorb ''root'' ''sibling'' sample_judgment) s1 = (Inr sample_absorption, s2)"
    using insert_intent_new[of "Absorb ''root'' ''sibling'' sample_judgment" outbox_libs "sample_id 4" s1 9000]
    by (simp add: checks sample_action_id s2_def s1_def sample_outbox_def sample_absorption_def u64_max_def run_checks.simps(1))
  define s3 where "s3 = s2\<lparr>lf_intents := bm_insert (sample_id 6) sample_shutdown (lf_intents s2), lf_revision := 3\<rparr>"
  have i3: "insert_intent outbox_libs 9000 (Shutdown ''root'' sample_judgment (Some (sample_id 4))) s2 = (Inr sample_shutdown, s3)"
    using insert_intent_new[of "Shutdown ''root'' sample_judgment (Some (sample_id 4))" outbox_libs "sample_id 6" s2 9000] outbox_ids(2)
    by (simp add: checks sample_action_id s3_def s2_def s1_def sample_outbox_def sample_shutdown_def u64_max_def run_checks.simps(1))
  define s4 where "s4 = s3\<lparr>lf_revision := 4\<rparr>"
  have vals1: "bm_values (lf_intents s1) = []" and vals2: "bm_values (lf_intents s2) = [sample_absorption]"
    by (simp_all add: s1_def s2_def sample_outbox_def one_value) (simp add: bm_values_def)
  have own: "own_absorption s2 sample_judgment sample_absorption"
    by (simp add: own_absorption_def sample_absorption_def s2_def s1_def sample_outbox_def)
  have fields: "lf_pending_death s1 = Some ?p" "lf_tentacle_id s1 = ''root''" "lf_tentacle_id s2 = ''root''" "cancel_all [] s1 = s1"
    by (simp_all add: s1_def s2_def sample_outbox_def cancel_all_def)
  have grown: "bm_len (lf_intents s3) \<noteq> bm_len (lf_intents s2)"
    using outbox_ids(2) by (simp add: s3_def s2_def)
  have s4: "life_step outbox_libs (OP_ReconcileExpired 9000 (Some ''sibling'')) s1 = s4"
    using i2 i3 own
    by (simp add: reconcile_expired_death_def fields Let_def ids_where_def vals1 vals2 cancels_any_def enqueue_absorption_def
      sample_absorption_def bump_revision_def checked_add_def s4_def) (simp add: s3_def s2_def u64_max_def)
  have get: "bm_get (lf_intents s4) (sample_id 4) = Some sample_absorption"
    using outbox_ids(2) by (simp add: s4_def s3_def s2_def)
  have ack: "acknowledge_action outbox_libs sample_transfer_failed s4
      = (Inr (in_action sample_absorption, True), (receipted s4 sample_absorption sample_transfer_failed False)\<lparr>lf_revision := 5\<rparr>)"
    using acknowledge_new[of s4 sample_transfer_failed sample_absorption outbox_libs s4] get
    by (simp add: sample_transfer_failed_def validate_lifecycle_receipt_def validate_execution_text_def run_checks.simps(1)
      sample_absorption_def receipt_of_def settle_survival_def s4_def s3_def s2_def s1_def sample_outbox_def u64_max_def)
  define s5 where "s5 = s4\<lparr>lf_receipts := [sample_transfer_failed], lf_revision := 5\<rparr>"
  have step5: "life_step outbox_libs (OP_Acknowledge sample_transfer_failed) s4 = s5"
    unfolding life_step.simps ack snd_conv receipted_def Let_def
    by (simp add: s5_def sample_transfer_failed_def) (simp add: s4_def s3_def s2_def s1_def sample_outbox_def)
  have run: "life_run outbox_libs dying_ops sample_outbox = s5"
    unfolding dying_ops_def life_run_simps s1 s4 step5 ..
  have vals: "bm_values (lf_intents s5) = [sample_absorption, sample_shutdown]"
    by (simp add: s5_def s4_def s3_def s2_def two_values outbox_ids)
  have "\<not> is_due bs_empty s5 sample_absorption" "is_due bs_empty s5 sample_shutdown"
    using outbox_ids(2)
    by (simp_all add: is_due_def receipt_of_def s5_def sample_transfer_failed_def sample_absorption_def sample_shutdown_def
      is_spawn_def is_reward_def s4_def s3_def s2_def s1_def sample_outbox_def)
  then show ?thesis by (simp add: run next_due_action_def next_due_action_excluding_def vals)
qed

subsection \<open>Two rewards paid once\<close>

definition sample_whole :: whole_token_amount where
  "sample_whole = \<lparr>wa_whole_tokens = 5, wa_token_decimals = 0, wa_raw_amount = ''5''\<rparr>"

definition sample_reward :: token_reward where
  "sample_reward = \<lparr>tr_tentacle_id = ''root'', tr_event_sha256 = sample_judgment, tr_chain_id = 8453,
     tr_token_contract = replicate 20 2, tr_treasury_address = replicate 20 3, tr_acolyte_address = replicate 20 5,
     tr_configuration_identity = replicate 32 4, tr_exact_amount = sample_whole\<rparr>"

definition paid_receipt :: "nat \<Rightarrow> lifecycle_receipt" where
  "paid_receipt n = \<lparr>rc_action_id = sample_id n, rc_completed_at = 700, rc_status = RS_Succeeded,
     rc_external_reference = None, rc_detail = None, rc_chain = None,
     rc_transfer = Some \<lparr>tx_chain_id = 8453, tx_transaction_hash = sample_hash, tx_block_number = 1, tx_block_timestamp = 5,
       tx_token_contract = replicate 20 2, tx_from_address = replicate 20 3, tx_to_address = replicate 20 5,
       tx_configuration_identity = replicate 32 4, tx_exact_amount = sample_whole\<rparr>,
     rc_provision = None\<rparr>"

definition venice_reward :: lifecycle_intent where
  "venice_reward = \<lparr>in_action_id = sample_id 2, in_created_at = 500, in_action = RewardVeniceKey sample_reward\<rparr>"

definition name_reward :: lifecycle_intent where
  "name_reward = \<lparr>in_action_id = sample_id 3, in_created_at = 500, in_action = RewardAcolyteContribution CK_Name 50 sample_reward\<rparr>"

definition reward_ops :: "life_op list" where
  "reward_ops = [OP_VeniceReward 500 (RewardVeniceKey sample_reward),
     OP_ContributionReward 500 (RewardAcolyteContribution CK_Name 50 sample_reward),
     OP_Acknowledge (paid_receipt 2)]"

definition rewarded_outbox :: lifecycle_state where
  "rewarded_outbox = sample_outbox\<lparr>lf_intents := bm_insert (sample_id 3) name_reward (bm_insert (sample_id 2) venice_reward bm_empty),
     lf_receipts := [paid_receipt 2], lf_revision := 3\<rparr>"

lemma sample_whole_valid: "validate_whole_token_amount sample_whole = Inr ()"
  by (simp add: validate_whole_token_amount_def sample_whole_def exact_whole_value decimal_small digit_chars)

lemma sample_reward_valid:
  "validate_lifecycle_action (RewardVeniceKey sample_reward) = Inr ()"
  "validate_lifecycle_action (RewardAcolyteContribution CK_Name 50 sample_reward) = Inr ()"
proof -
  have "\<not> unbound_reward sample_reward" using sample_texts by (simp add: unbound_reward_def sample_reward_def)
  then show "validate_lifecycle_action (RewardVeniceKey sample_reward) = Inr ()"
    "validate_lifecycle_action (RewardAcolyteContribution CK_Name 50 sample_reward) = Inr ()"
    using sample_texts sample_whole_valid by (simp_all add: run_checks.simps(1) sample_reward_def)
qed

lemma paid_receipt_valid:
  "validate_lifecycle_receipt outbox_libs venice_reward (paid_receipt n) = Inr ()"
  "validate_lifecycle_receipt outbox_libs name_reward (paid_receipt n) = Inr ()"
  using sample_texts sample_whole_valid
  by (simp_all add: validate_lifecycle_receipt_def venice_reward_def name_reward_def paid_receipt_def validate_execution_text_def
    validate_transfer_receipt_def run_checks.simps(1) check_transfer_def sample_reward_def receipt_ms_def saturating_mul_def u64_max_def)

lemma sample_rewarded: "life_run outbox_libs reward_ops sample_outbox = rewarded_outbox"
proof -
  define s1 where "s1 = sample_outbox\<lparr>lf_intents := bm_insert (sample_id 2) venice_reward bm_empty, lf_revision := 1\<rparr>"
  have s1: "life_step outbox_libs (OP_VeniceReward 500 (RewardVeniceKey sample_reward)) sample_outbox = s1"
    using insert_intent_new[OF sample_reward_valid(1), of outbox_libs "sample_id 2" sample_outbox 500]
    by (simp add: enqueue_venice_key_reward_def sample_action_id s1_def venice_reward_def sample_outbox_def u64_max_def)
  define s2 where "s2 = s1\<lparr>lf_intents := bm_insert (sample_id 3) name_reward (lf_intents s1), lf_revision := 2\<rparr>"
  have s2: "life_step outbox_libs (OP_ContributionReward 500 (RewardAcolyteContribution CK_Name 50 sample_reward)) s1 = s2"
    using insert_intent_new[OF sample_reward_valid(2), of outbox_libs "sample_id 3" s1 500] outbox_ids(1)
    by (simp add: enqueue_acolyte_contribution_reward_def sample_action_id s2_def s1_def name_reward_def sample_outbox_def u64_max_def)
  have get: "bm_get (lf_intents s2) (rc_action_id (paid_receipt 2)) = Some venice_reward"
    using outbox_ids(1) by (simp add: s2_def s1_def paid_receipt_def)
  have "life_step outbox_libs (OP_Acknowledge (paid_receipt 2)) s2 = rewarded_outbox"
    using acknowledge_new[OF get paid_receipt_valid(1), of s2]
    by (simp add: receipt_of_def settle_survival_def venice_reward_def s2_def s1_def sample_outbox_def u64_max_def
      receipted_def Let_def is_shutdown_def rewarded_outbox_def)
  then show ?thesis unfolding reward_ops_def life_run_simps s1 s2 .
qed

lemma sample_paid_twice:
  "acknowledge_action outbox_libs (paid_receipt 3) rewarded_outbox
     = (Inr (in_action name_reward, True), rewarded_outbox\<lparr>lf_receipts := [paid_receipt 2, paid_receipt 3], lf_revision := 4\<rparr>)"
proof -
  have get: "bm_get (lf_intents rewarded_outbox) (rc_action_id (paid_receipt 3)) = Some name_reward"
    by (simp add: rewarded_outbox_def paid_receipt_def)
  show ?thesis
    using acknowledge_new[OF get paid_receipt_valid(2), of rewarded_outbox] outbox_ids(1)
    by (simp add: receipt_of_def settle_survival_def name_reward_def rewarded_outbox_def sample_outbox_def u64_max_def
      receipted_def Let_def is_shutdown_def) (simp add: paid_receipt_def)
qed

end
