(* ===== verification/Lifecycle_Properties.thy ===== *)
theory Lifecycle_Properties
  imports Lifecycle_Samples
begin

section \<open>Lifecycle: properties\<close>

text \<open>
  The operations as steps of one outbox, with what holds after any run of them: what is loaded, what a
  survival ends, what is offered next, what a burn proves and what is never changed.
\<close>

lemma rewards_inv:
  assumes "sha_bytes L" "life_inv L s"
  shows "life_inv L (snd (enqueue_venice_key_reward L t a s))"
    "life_inv L (snd (enqueue_acolyte_contribution_reward L t a s))"
  using insert_intent_inv[OF assms, of a t]
  by (auto simp: enqueue_venice_key_reward_def enqueue_acolyte_contribution_reward_def dependency_ok_def assms(2)
    split: lifecycle_action.split)

lemma life_step_inv: "sha_bytes L \<Longrightarrow> life_inv L s \<Longrightarrow> life_inv L (life_step L op s)"
  by (cases op) (simp_all add: set_auto_spawn_inv rewards_inv enqueue_spawn_def enqueue_absorption_def
    insert_intent_inv dependency_ok_def enqueue_survival_inv schedule_death_inv cancel_pending_inv reconcile_expired_inv
    retire_inv tracking_inv record_absorption_projection_inv record_spawn_projection_inv acknowledge_action_inv)

lemma Lifecycle_new_inv: "Lifecycle_new i b = Inr s \<Longrightarrow> life_inv L s"
  by (auto simp: Lifecycle_new_def life_inv_def life_core_def counted_def mutations_def death_ok_def intents_ok_def
    receipts_ok_def canceled_ok_def pending_ok_def absorptions_ok_def spawns_ok_def shutdown_ok_def)

lemma life_run_inv: "sha_bytes L \<Longrightarrow> life_inv L s \<Longrightarrow> life_inv L (life_run L ops s)"
  by (induction ops arbitrary: s) (simp_all add: life_step_inv)

lemma reached_inv: "sha_bytes L \<Longrightarrow> Lifecycle_new i b = Inr s \<Longrightarrow> life_inv L (life_run L ops s)"
  by (rule life_run_inv[OF _ Lifecycle_new_inv])

subsection \<open>What is loaded\<close>

lemma inv_reload:
  assumes "life_inv L s" "lf_revision s < u64_max"
  shows "validate_lifecycle L s = Inr () \<longleftrightarrow> distinct (consumed_hashes s)"
  using assms inv_validate_iff[of L s] by (auto simp: life_inv_def counted_def)

text \<open>
  C20: what is loaded.  After any operations on a new outbox, refused ones included, the state passes
  the validation of its store exactly when no token transaction was accepted as the proof of two
  actions, as long as the revision counter has not reached its end.
\<close>

theorem lifecycle_reload:
  assumes "sha_bytes L" "Lifecycle_new i b = Inr s" "lf_revision (life_run L ops s) < u64_max"
  shows "validate_lifecycle L (life_run L ops s) = Inr () \<longleftrightarrow> distinct (consumed_hashes (life_run L ops s))"
  by (rule inv_reload[OF reached_inv[OF assms(1,2)] assms(3)])

theorem lifecycle_reload_witness:
  "validate_lifecycle outbox_libs (life_run outbox_libs [sample_schedule, OP_Acknowledge sample_burn] sample_outbox) = Inr ()"
proof -
  have run: "life_run outbox_libs [sample_schedule, OP_Acknowledge sample_burn] sample_outbox = survived_outbox"
    using sample_scheduled sample_survived(1) by simp
  have "length (consumed_hashes survived_outbox) \<le> 1"
    by (simp add: consumed_hashes_def sample_survived map_filter_simps split: option.split)
  then have "distinct (consumed_hashes survived_outbox)" by (cases "consumed_hashes survived_outbox") auto
  then show ?thesis
    using lifecycle_reload[OF sample_sha sample_outbox_new, of "[sample_schedule, OP_Acknowledge sample_burn]"]
    unfolding run by (simp add: sample_survived u64_max_def)
qed

text \<open>
  C21: one payment for two rewards.  While revisions remain, an outbox accepts the receipt of a reward that is valid on its
  own even when its token transaction already proved another action, and the state it leaves is refused
  by the validation of its store.
\<close>

theorem reward_reuse_breaks_reload:
  assumes "sha_bytes L" "Lifecycle_new i b = Inr s0" "s = life_run L ops s0" "lf_revision s + 1 < u64_max"
    "bm_get (lf_intents s) (rc_action_id receipt) = Some intent" "is_reward (in_action intent)"
    "validate_lifecycle_receipt L intent receipt = Inr ()" "receipt_of s (rc_action_id receipt) = None"
    "earlier \<in> set (lf_receipts s)" "bm_get (lf_intents s) (rc_action_id earlier) = Some paid"
    "consumed_hash paid earlier = Some hash" "consumed_hash intent receipt = Some hash"
  shows "\<exists>s'. acknowledge_action L receipt s = (Inr (in_action intent, True), s') \<and> validate_lifecycle L s' \<noteq> Inr ()"
proof -
  define s' where "s' = (receipted s intent receipt (bs_member (lf_canceled s) (rc_action_id receipt)))\<lparr>lf_revision := lf_revision s + 1\<rparr>"
  have "settle_survival s intent receipt = Inr s"
    using assms(6) by (auto simp: settle_survival_def is_reward_def split: lifecycle_action.splits)
  then have ack: "acknowledge_action L receipt s = (Inr (in_action intent, True), s')"
    unfolding s'_def using acknowledge_new[OF assms(5,7,8)] assms(4) by simp
  have "life_inv L s'" using acknowledge_action_inv[OF reached_inv[OF assms(1,2), of ops], of receipt] ack assms(3) by simp
  then have load: "validate_lifecycle L s' = Inr () \<longleftrightarrow> distinct (consumed_hashes s')"
    by (rule inv_reload) (use assms(4) in \<open>simp add: s'_def\<close>)
  have "consumed_hashes s' = consumed_hashes s @ [hash]"
    using assms(5,12) by (simp add: consumed_hashes_in hashes_in_def s'_def receipted_fields map_filter_def)
  moreover have "hash \<in> set (consumed_hashes s)"
    using assms(9-11) by (force simp: consumed_hashes_def map_filter_def image_iff)
  ultimately show ?thesis using ack load by simp
qed

theorem reward_reuse_breaks_reload_witness:
  "\<exists>s'. acknowledge_action outbox_libs (paid_receipt 3) (life_run outbox_libs reward_ops sample_outbox)
       = (Inr (RewardAcolyteContribution CK_Name 50 sample_reward, True), s')
     \<and> validate_lifecycle outbox_libs s' \<noteq> Inr ()"
proof -
  have "bm_get (lf_intents rewarded_outbox) (rc_action_id (paid_receipt 3)) = Some name_reward"
    "bm_get (lf_intents rewarded_outbox) (rc_action_id (paid_receipt 2)) = Some venice_reward"
    "receipt_of rewarded_outbox (rc_action_id (paid_receipt 3)) = None" "lf_revision rewarded_outbox + 1 < u64_max"
    "paid_receipt 2 \<in> set (lf_receipts rewarded_outbox)"
    using outbox_ids(1) by (simp_all add: rewarded_outbox_def receipt_of_def u64_max_def) (simp_all add: paid_receipt_def)
  moreover have "consumed_hash venice_reward (paid_receipt 2) = Some sample_hash"
    "consumed_hash name_reward (paid_receipt 3) = Some sample_hash" "is_reward (in_action name_reward)"
    by (simp_all add: consumed_hash_def venice_reward_def name_reward_def paid_receipt_def is_reward_def)
  ultimately have "\<exists>s'. acknowledge_action outbox_libs (paid_receipt 3) rewarded_outbox = (Inr (in_action name_reward, True), s')
     \<and> validate_lifecycle outbox_libs s' \<noteq> Inr ()"
    using reward_reuse_breaks_reload[OF sample_sha sample_outbox_new sample_rewarded[symmetric], of "paid_receipt 3" name_reward
      "paid_receipt 2" venice_reward sample_hash] paid_receipt_valid(2) by simp
  then show ?thesis unfolding sample_rewarded by (simp add: name_reward_def)
qed

subsection \<open>What is due\<close>








subsection \<open>Survival\<close>







subsection \<open>Burns\<close>

text \<open>
  C18: an accepted burn is exact.  Every receipt of a successful survival spend in a reachable outbox
  proves a burn of the intended token from the intended treasury to the zero address, confirmed
  between the intent and the end of the grace period, and its amount in base units is the floor of
  the given share of the whole supply, neither zero nor beyond 256 bits.
\<close>

theorem burn_exact:
  assumes "sha_bytes L" "Lifecycle_new i b = Inr s0" "receipt \<in> set (lf_receipts (life_run L ops s0))"
    "bm_get (lf_intents (life_run L ops s0)) (rc_action_id receipt) = Some intent"
    "in_action intent = SpendForSurvival p" "rc_status receipt = RS_Succeeded"
    "xa_total_supply_whole (ss_exact_amount p) \<le> u64_max"
  shows "\<exists>c units. rc_chain receipt = Some c \<and> cx_chain_id c = ss_chain_id p
     \<and> cx_token_contract c = ss_token_contract p \<and> cx_from_address c = ss_treasury_address p
     \<and> cx_burn_destination c = ZERO_ADDRESS \<and> cx_exact_amount c = ss_exact_amount p
     \<and> in_created_at intent \<le> receipt_ms (cx_block_timestamp c)
     \<and> receipt_ms (cx_block_timestamp c) \<le> ss_grace_ends_at p
     \<and> xa_raw_amount (cx_exact_amount c) = decimal units \<and> 0 < units \<and> units < 2 ^ 256
     \<and> units = xa_total_supply_whole (ss_exact_amount p) * 10 ^ xa_token_decimals (ss_exact_amount p)
         * ss_basis_points p div 10000"
proof -
  let ?s = "life_run L ops s0"
  have core: "life_core L ?s" using reached_inv[OF assms(1,2)] by (simp add: life_inv_def)
  have valid: "validate_lifecycle_receipt L intent receipt = Inr ()"
    using life_coreD(5)[OF core] assms(3,4) by (auto simp: receipts_ok_def)
  then have "check_evidence L (SpendForSurvival p) (in_created_at intent) receipt = Inr ()"
    using assms(5,6) by (simp add: validate_lifecycle_receipt_def)
  then obtain c where c: "rc_chain receipt = Some c" "cx_chain_id c = ss_chain_id p"
    "cx_token_contract c = ss_token_contract p" "cx_from_address c = ss_treasury_address p"
    "cx_burn_destination c = ss_burn_destination p" "cx_exact_amount c = ss_exact_amount p"
    "in_created_at intent \<le> receipt_ms (cx_block_timestamp c)" "receipt_ms (cx_block_timestamp c) \<le> ss_grace_ends_at p"
    by auto
  have "validate_lifecycle_action (SpendForSurvival p) = Inr ()"
    using intent_okD(3)[OF life_coreD(4)[OF core] assms(4)] assms(5) by simp
  then have dest: "ss_burn_destination p = ZERO_ADDRESS" and amount: "validate_exact_token_amount (ss_exact_amount p) = Inr ()"
    and bp: "xa_basis_points (ss_exact_amount p) = ss_basis_points p" by (simp_all add: run_checks.simps(1))
  let ?x = "ss_exact_amount p"
  have ranges: "xa_total_supply_whole ?x > 0" "xa_token_decimals ?x \<le> 77" "1 \<le> xa_basis_points ?x" "xa_basis_points ?x \<le> 10000"
    and raw: "exact_raw_token_amount (xa_total_supply_whole ?x) (xa_token_decimals ?x) (xa_basis_points ?x) = Inr (xa_raw_amount ?x)"
    using amount by (auto simp: validate_exact_token_amount_def split: if_splits)
  define units where "units = xa_total_supply_whole ?x * 10 ^ xa_token_decimals ?x * ss_basis_points p div 10000"
  have "xa_raw_amount ?x = decimal units \<and> 0 < units \<and> units < 2 ^ 256"
    using raw exact_raw_value[OF ranges(1) assms(7) ranges(2,3,4)]
    by (auto simp: units_def bp Let_def split: if_splits)
  then show ?thesis using c dest unfolding units_def by (intro exI[of _ c] exI[of _ units]) (simp add: units_def)
qed

theorem burn_exact_witness:
  "\<exists>c units. rc_chain sample_burn = Some c \<and> cx_burn_destination c = ZERO_ADDRESS
     \<and> 1000 \<le> receipt_ms (cx_block_timestamp c) \<and> receipt_ms (cx_block_timestamp c) \<le> 9000
     \<and> xa_raw_amount (cx_exact_amount c) = decimal units \<and> units = 5000"
proof -
  have run: "life_run outbox_libs [sample_schedule, OP_Acknowledge sample_burn] sample_outbox = survived_outbox"
    using sample_scheduled sample_survived(1) by simp
  have "sample_burn \<in> set (lf_receipts survived_outbox)"
    "bm_get (lf_intents survived_outbox) (rc_action_id sample_burn) = Some sample_spend_intent"
    by (simp_all add: sample_survived) (simp add: sample_burn_def)
  from burn_exact[OF sample_sha sample_outbox_new, of sample_burn "[sample_schedule, OP_Acknowledge sample_burn]" _ sample_spend,
      unfolded run, OF this]
  show ?thesis
    by (force simp: sample_spend_intent_def sample_burn_def sample_spend_def sample_amount_def u64_max_def)
qed

subsection \<open>What no operation changes\<close>

text \<open>The log of \<open>s\<close> is part of that of \<open>s'\<close>.\<close>

definition log_endures :: "lifecycle_state \<Rightarrow> lifecycle_state \<Rightarrow> bool" where
  "log_endures s s' \<longleftrightarrow>
     lf_tentacle_id s' = lf_tentacle_id s \<and> grows (lf_intents s) (lf_intents s')
     \<and> (\<exists>rs. lf_receipts s' = lf_receipts s @ rs)
     \<and> (\<forall>i at. bm_get (lf_absorption_projections s) i = Some at \<longrightarrow> bm_get (lf_absorption_projections s') i = Some at)
     \<and> (\<forall>i p. bm_get (lf_spawn_projections s) i = Some p \<longrightarrow> bm_get (lf_spawn_projections s') i = Some p)"

lemma log_endures_refl: "log_endures s s"
  by (simp add: log_endures_def grows_def)

lemma log_endures_trans: "log_endures s t \<Longrightarrow> log_endures t u \<Longrightarrow> log_endures s u"
  by (auto simp: log_endures_def grows_def)

lemma lc_check_log: "(\<And>x. r = Inr x \<Longrightarrow> log_endures s (snd (f x))) \<Longrightarrow> log_endures s (snd (lc_check r s f))"
  by (cases r) (auto simp: log_endures_refl)

lemma lc_then_log:
  assumes "log_endures s (snd r)" "\<And>x s'. log_endures s' (snd (f x s'))"
  shows "log_endures s (snd (lc_then r f))"
  using assms log_endures_trans by (cases r; cases "fst r") (auto intro: log_endures_trans)

lemma bump_log: "log_endures s s' \<Longrightarrow> log_endures s (snd (bump_revision s'))"
  by (auto simp: bump_revision_def log_endures_def split: option.split)

lemma flags_log:
  "log_endures s (s\<lparr>lf_auto_spawn := b\<rparr>)" "log_endures s (s\<lparr>lf_canceled := cs\<rparr>)" "log_endures s (cancel_all ids s)"
  "log_endures s (s\<lparr>lf_pending_death := d\<rparr>)" "log_endures s (s\<lparr>lf_pending_projections := pend\<rparr>)"
  "log_endures s ((cancel_all ids s)\<lparr>lf_pending_death := d, lf_shutdown_at := x\<rparr>)" "log_endures s (survive s intent j)"
  "log_endures s (receipted s intent r c)"
  by (simp_all add: log_endures_def grows_def cancel_all_def survive_def receipted_def Let_def)

lemma additions_log:
  "bm_get (lf_intents s) i = None \<Longrightarrow> log_endures s (s\<lparr>lf_intents := bm_insert i x (lf_intents s)\<rparr>)"
  "bm_get (lf_absorption_projections s) i = None \<Longrightarrow>
     log_endures s (s\<lparr>lf_pending_projections := pend, lf_absorption_projections := bm_insert i at (lf_absorption_projections s)\<rparr>)"
  "bm_get (lf_spawn_projections s) i = None \<Longrightarrow>
     log_endures s (s\<lparr>lf_spawn_projections := bm_insert i q (lf_spawn_projections s)\<rparr>)"
  by (auto simp: log_endures_def grows_def)

lemma insert_intent_log: "log_endures s (snd (insert_intent L t a s))"
  unfolding insert_intent_def
  by (intro lc_check_log)
    (auto simp: Let_def log_endures_refl intro!: bump_log additions_log split: option.split)

lemma enqueue_survival_log: "log_endures s (snd (enqueue_survival_spend L j t b s))"
  unfolding enqueue_survival_spend_def
  by (intro lc_check_log)
    (auto simp: insert_intent_log log_endures_refl intro!: lc_then_log bump_log flags_log split: option.split)

lemma schedule_death_log: "log_endures s (snd (schedule_death L j at grace spend s))"
  unfolding schedule_death_def
  by (intro lc_check_log)
    (auto simp: log_endures_refl enqueue_survival_log intro!: lc_check_log lc_then_log bump_log flags_log split: option.split)

lemma reconcile_expired_log: "log_endures s (snd (reconcile_expired_death L now target s))"
proof (cases "lf_pending_death s")
  case (Some p)
  have insert: "log_endures s (snd (insert_intent L now a (cancel_all ids s)))" for a ids
    by (rule log_endures_trans[OF flags_log(3) insert_intent_log])
  have first: "log_endures s (snd (case target of
        None \<Rightarrow> (Inr c, cancel_all ids s)
      | Some x \<Rightarrow>
          if list_ex (own_absorption (cancel_all ids s) j) (bm_values (lf_intents (cancel_all ids s))) then (Inr c, cancel_all ids s)
          else lc_then (enqueue_absorption L now (lf_tentacle_id (cancel_all ids s)) x j (cancel_all ids s)) (\<lambda>_ s. (Inr True, s))))"
    for ids c j
    using insert flags_log(3) by (auto simp: enqueue_absorption_def split: option.split)
  have second: "log_endures u (snd (lc_then (insert_intent L now a u)
                   (\<lambda>_ s'.
                      let grown = bm_len (lf_intents s') \<noteq> bm_len (lf_intents u) in
                      if changed then lc_then (bump_revision s') (\<lambda>_ s'. (Inr True, s'))
                      else (Inr grown, s'))))" for u a changed
    by (rule lc_then_log[OF insert_intent_log]) (simp add: Let_def log_endures_refl bump_log)
  show ?thesis
    unfolding reconcile_expired_death_def Some option.case Let_def[of "pd_judgment_id p"]
      Let_def[of "ids_where (unreceipted_spend s (pd_judgment_id p)) s"]
      Let_def[of "cancels_any (ids_where (unreceipted_spend s (pd_judgment_id p)) s) s"]
      Let_def[of "cancel_all (ids_where (unreceipted_spend s (pd_judgment_id p)) s) s"]
    using lc_then_log[OF first second] by (auto simp: log_endures_refl)
qed (simp add: reconcile_expired_death_def log_endures_refl)

lemma projections_log:
  "log_endures s (snd (record_absorption_projection i at s))" "log_endures s (snd (record_spawn_projection i at2 period s))"
  unfolding record_absorption_projection_def record_spawn_projection_def
  by (intro lc_check_log;
    auto simp: Let_def log_endures_refl intro!: lc_check_log bump_log additions_log split: option.split)+

lemma acknowledge_log: "log_endures s (snd (acknowledge_action L receipt s))"
proof -
  have "log_endures s t" if "settle_survival s intent receipt = Inr t" for intent t
    using that by (rule settle_cases) (simp_all add: log_endures_refl flags_log)
  then show ?thesis
    unfolding acknowledge_action_def
    by (intro lc_check_log)
      (auto simp: log_endures_refl intro!: lc_check_log bump_log log_endures_trans[OF _ flags_log(8)] split: option.split)
qed

lemma life_step_log: "log_endures s (life_step L op s)"
proof (cases op)
  case OP_Retire
  then show ?thesis
    by (auto simp: retire_legacy_death_as_dormancy_def Let_def log_endures_refl intro!: bump_log flags_log split: option.split)
next
  case OP_Track
  then show ?thesis
    by (auto simp: reconcile_absorption_projection_tracking_def Let_def intro!: bump_log flags_log)
next
  case (OP_CancelSpends j)
  then show ?thesis
    by (auto simp: cancel_pending_survival_spends_def Let_def log_endures_refl intro!: lc_check_log bump_log flags_log)
next
  case (OP_VeniceReward t a)
  then show ?thesis
    by (auto simp: enqueue_venice_key_reward_def log_endures_refl insert_intent_log split: lifecycle_action.split)
next
  case (OP_ContributionReward t a)
  then show ?thesis
    by (auto simp: enqueue_acolyte_contribution_reward_def log_endures_refl insert_intent_log split: lifecycle_action.split)
next
  case (OP_AutoSpawn b)
  then show ?thesis by (auto simp: set_auto_spawn_enabled_def log_endures_refl intro!: bump_log flags_log)
qed (simp_all add: enqueue_spawn_def enqueue_absorption_def insert_intent_log enqueue_survival_log schedule_death_log
  reconcile_expired_log projections_log acknowledge_log)

text \<open>
  the log of the outbox endures.  Whatever is asked of an outbox, in any state: no intent is changed
  or removed, the receipts are only appended to, and no projection is changed or removed.
\<close>

theorem outbox_append_only: "log_endures s (life_run L ops s)"
proof (induction ops arbitrary: s)
  case (Cons op ops)
  show ?case using log_endures_trans[OF life_step_log Cons.IH] by simp
qed (simp add: log_endures_refl)

end
