(* ===== verification/Spec2Isabelle.thy ===== *)
theory Spec2Isabelle
  imports
    Protocol_Payload
    Protocol_Envelope
    Council_Liveness
    Council_Routing
    Council_Lease
    Council_Rendezvous
    Council_Transport
    Governance_Properties
    Propagation_Properties
    Registry_Properties
    Economics_Properties
    Nature_Properties
    History_Properties
    Token_Properties
    Lineage_Properties
    Lifecycle_Properties
begin

text \<open>
  A verification development for CthUwU: the wire protocol and the coordination engines of the
  Rust crates \<^verbatim>\<open>cthuwu-protocol\<close> and \<^verbatim>\<open>cthuwu-council\<close> (under
  \<^verbatim>\<open>cthuwu/crates/\<close>), and of the bot (\<^verbatim>\<open>cthuwu/src\<close>) the modules that decide how a Tentacle
  evolves: its Nature, its token economics, its scales and their judgments, the balances it observes,
  the token-weighted ballots, its lineage and the outbox of its lifecycle.

  \<^bold>\<open>The program.\<close>  A Cthulhu is an identity that owns Tentacles, the processes that answer users.
  Cthulhus form a Council and exchange signed JSON envelopes.  An envelope arrives as bytes, is
  parsed and validated (\<^verbatim>\<open>envelope.rs\<close>, \<^verbatim>\<open>messages.rs\<close> and the modules below them), passes the
  transport's sender check, rate limit and replay guard (\<^verbatim>\<open>transport.rs\<close>), and is numbered and
  kept for subscribers.  Tentacles announce themselves and send heartbeats to a liveness tracker
  (\<^verbatim>\<open>liveness.rs\<close>), whose records become candidates of the routing engine (\<^verbatim>\<open>routing.rs\<close>).  A
  rendezvous (\<^verbatim>\<open>rendezvous.rs\<close>) routes a user's request and grants a lease (\<^verbatim>\<open>lease.rs\<close>) that binds
  the session to the selected Tentacle incarnation; leases carry a generation per session, which
  fences off every earlier assignee.  A registry (\<^verbatim>\<open>registry.rs\<close>) associates Tentacles with their
  XMTP inboxes.  Within the bot a Tentacle has a signed Nature (\<^verbatim>\<open>personality.rs\<close>), which it inherits
  with mutations; over each evaluation period it records metrics, weighed by the appetites of its
  Nature and by provenance-bound token economics (\<^verbatim>\<open>economics.rs\<close>), and the judgment of the period
  (\<^verbatim>\<open>scales.rs\<close>) enters an append-only history.  Holders' balances are read from the chain through a
  local view (\<^verbatim>\<open>token_eye.rs\<close>), which ranks them into tiers; the tiers weigh the ballots of token
  governance (\<^verbatim>\<open>token_gov.rs\<close>).  A judgment may let a Tentacle spawn a child or begin its death
  (\<^verbatim>\<open>evolution.rs\<close>): the lineage records who descends from whom and who was absorbed, and the lifecycle
  keeps an outbox of actions (burns that avert a death, absorptions, shutdowns, rewards, spawns) that an
  executor carries out and answers with receipts.

  \<^bold>\<open>Correspondence.\<close>  A Rust struct is a record, an enum a datatype, \<open>Result\<close> a sum whose left side
  is the module's error, \<open>?\<close> is \<open>and_then\<close>, \<open>BTreeMap\<close> and \<open>BTreeSet\<close> are the ordered maps of
  \<open>Ordered_Map\<close>.  A method that takes \<open>&mut self\<close> returns the new state; where it may fail after
  a change it returns the pair of result and state, so that atomicity is a theorem.  Machine
  integers are \<open>int\<close> or \<open>nat\<close> with their bound written out by the checked, saturating and capped
  operations of \<open>Prelude\<close> (\<open>u64_max\<close>, \<open>i64_max\<close>), used exactly where the code uses them.
  Strings are their UTF-8 bytes, as in Rust, so lengths count bytes; \<open>Rust_Text\<close> decodes them where the
  code looks at characters.

  \<^bold>\<open>The theories.\<close>
  \<^item> \<open>Prelude\<close>: integer limits, checked arithmetic, results, validation chains.
  \<^item> \<open>Ordered_Map\<close>: \<open>BTreeMap\<close> and \<open>BTreeSet\<close> as sorted association lists with their laws.
  \<^item> \<open>Rust_Text\<close>: trimming, ASCII classes, byte lengths, decimal printing and parsing.
  \<^item> \<open>Protocol_Validation\<close> (\<^verbatim>\<open>validation.rs\<close>, \<^verbatim>\<open>error.rs\<close>): bounded text and slugs; the byte loop
    decides exactly the slug grammar.
  \<^item> \<open>Protocol_Ids\<close> (\<^verbatim>\<open>ids.rs\<close>): identifiers, hashes, inbox and registry references; the namespaces
    are disjoint.
  \<^item> \<open>Protocol_Time\<close> (\<^verbatim>\<open>time.rs\<close>): timestamps and versions; versions round-trip.
  \<^item> \<open>Protocol_Capability\<close>, \<open>Protocol_Tentacle\<close>, \<open>Protocol_Identity\<close> (\<^verbatim>\<open>capability.rs\<close>,
    \<^verbatim>\<open>tentacle.rs\<close>, \<^verbatim>\<open>identity.rs\<close>): manifests; Tentacle records, their lifecycle graph and the
    fencing of updates; identities, personas and policy positions.
  \<^item> \<open>Protocol_Messages\<close>, \<open>Protocol_Payload\<close> (\<^verbatim>\<open>messages.rs\<close>): the 28 payloads, their validation and
    their binding to the sender; provenance chains.
  \<^item> \<open>Protocol_Signing\<close>, \<open>Protocol_Envelope\<close> (\<^verbatim>\<open>signing.rs\<close>, \<^verbatim>\<open>envelope.rs\<close>): the signer interface
    (locale \<open>council_signing\<close>, interpreted on the deterministic signer), the envelope, its
    acceptance from bytes, signatures and the replay guard.
  \<^item> \<open>Council_Liveness\<close> (\<^verbatim>\<open>clock.rs\<close>, \<^verbatim>\<open>liveness.rs\<close>): the clock interface (locale \<open>clock_source\<close>)
    and the tracker.
  \<^item> \<open>Council_Routing\<close> (\<^verbatim>\<open>routing.rs\<close>): hard requirements, score, selection.
  \<^item> \<open>Council_Lease\<close> (\<^verbatim>\<open>lease.rs\<close>): grants, renewals, failover, expiry, authorisation and the
    revalidation of persisted state.
  \<^item> \<open>Council_Rendezvous\<close> (\<^verbatim>\<open>rendezvous.rs\<close>): the service (locale \<open>rendezvous_service\<close>, interpreted
    on the local one) that composes routing and leases.
  \<^item> \<open>Council_Transport\<close> (\<^verbatim>\<open>transport.rs\<close>): publishing, rate windows, paging.
  \<^item> \<open>Council_Documents\<close>, \<open>Council_Governance\<close> (\<^verbatim>\<open>governance.rs\<close>): the documents of governance and
    their hashes; the engine with every operation.  \<open>Governance_Invariant\<close> holds its step relation
    \<open>gov_step\<close> and the invariant \<open>gov_inv\<close>; \<open>Governance_Assembly\<close> an abstract assembly (electorate,
    ballots, decisions, the current constitution and agenda) and the simulation of the engine by it;
    \<open>Governance_Properties\<close> the theorems.
  \<^item> \<open>Propagation_Types\<close>, \<open>Council_Propagation\<close>, \<open>Propagation_Reload\<close> (\<^verbatim>\<open>propagation.rs\<close>): payloads,
    policies, items and provenance; the engine's operations; the revalidation of persisted state.
    \<open>Propagation_Invariant\<close> and \<open>Propagation_Steps\<close> state what items satisfy, what is never rewritten
    and the invariant \<open>prop_inv\<close> of the step relation \<open>prop_step\<close>; \<open>Propagation_Reachable\<close> shows that
    every operation preserves it; \<open>Propagation_Loading\<close> characterises the states that reload;
    \<open>Propagation_History\<close> reads paths and rules off a run, and \<open>Propagation_Properties\<close> holds the
    theorems.
  \<^item> \<open>Hex_Text\<close>: bytes as words and their lowercase hexadecimal text.
  \<^item> \<open>Registry_Types\<close>, \<open>Council_Registry\<close>, \<open>Registry_Chain\<close> (\<^verbatim>\<open>registry.rs\<close>): addresses and agent
    identifiers, the local registry with its wire formats and migration, the read-only ERC-8004
    adapter.  The locale \<open>agent_registry\<close> is the trait \<^verbatim>\<open>AgentRegistry\<close>, interpreted on both.
    \<open>Registry_Invariant\<close> shows that every inbox has one owner; \<open>Registry_Properties\<close> holds the theorems.
  \<^item> \<open>Bot_Base\<close>: the errors of the bot (texts) and its helpers.
  \<^item> \<open>Bot_Economics\<close>, \<open>Economics_Properties\<close> (\<^verbatim>\<open>economics.rs\<close>): observations, policies, effects,
    transaction records, revenue shares, and their theorems.
  \<^item> \<open>Bot_Nature\<close>, \<open>Nature_Properties\<close> (\<^verbatim>\<open>personality.rs\<close>): the Nature and its inheritance, with the
    random bytes as an argument; the signed envelope; their theorems.
  \<^item> \<open>Scales_Metrics\<close>, \<open>Scales_Judgment\<close>, \<open>Scales_History\<close> (\<^verbatim>\<open>scales.rs\<close>): the metrics of a period and
    the operations that record them; weights, scores, evidence and judgments; history records, the
    catalog and the journal.  \<open>Scales_Weights\<close> shows that weights are apportioned by largest
    remainders, \<open>Scales_Soundness\<close> that metrics stay valid and when an evaluation gives a judgment;
    \<open>Scales_Properties\<close> and \<open>History_Properties\<close> hold the theorems.
  \<^item> \<open>Token_Units\<close>, \<open>Token_Observance\<close>, \<open>Token_Transport\<close> (\<^verbatim>\<open>token_eye.rs\<close>): addresses and 256-bit amounts
    as byte arrays; the local view of balances, its critical sections as events; the JSON-RPC
    questions and answers.  \<open>Token_Arithmetic\<close> shows that amounts are numbers, \<open>Token_Text\<close> what their
    texts denote, \<open>Token_View\<close> that the view is what the log of events says and tiers are counts.
  \<^item> \<open>Token_Governance\<close>, \<open>Token_Ballots\<close> (\<^verbatim>\<open>token_gov.rs\<close>): policies, ballot boxes, outcomes and their
    application; no sum of a tally saturates.  \<open>Token_Properties\<close> holds the theorems of both modules.
  \<^item> \<open>Lineage_Types\<close>, \<open>Bot_Lineage\<close>, \<open>Lineage_Check\<close> (\<^verbatim>\<open>evolution.rs\<close>, \<^verbatim>\<open>Lineage\<close>): the state of a lineage and
    the validators of identifiers and hashes; founding, planning and spawning children, rerolls of the root,
    absorptions, families and ancestors; the validation of a loaded state with its walk from the root.
    \<open>Lineage_Walk\<close> shows that the walk decides whether the edges form a tree, \<open>Lineage_Invariant\<close> holds
    the invariant \<open>lineage_inv\<close> that implies the validation, \<open>Lineage_Steps\<close> that every operation keeps it,
    and \<open>Lineage_Properties\<close> the theorems.
  \<^item> \<open>Lifecycle_Types\<close>, \<open>Bot_Lifecycle\<close>, \<open>Lifecycle_Check\<close> (\<^verbatim>\<open>evolution.rs\<close>, \<^verbatim>\<open>LifecycleState\<close>): actions, exact
    token amounts and receipts with their validators; the outbox with every operation; the validation of a
    loaded outbox.  \<open>Lifecycle_Amounts\<close> shows what number an exact amount denotes, \<open>Lifecycle_Invariant\<close> holds
    the invariant \<open>life_inv\<close> and what the validation asks beyond it, \<open>Lifecycle_Steps\<close> that every operation
    keeps it, \<open>Lifecycle_Samples\<close> computes three small runs, and \<open>Lifecycle_Properties\<close> holds the theorems.

  \<^bold>\<open>What is shown.\<close>  For each state machine a step relation is the union of its operations; the
  properties hold for everything reachable: fencing by generation and incarnation, one live lease
  per session, atomic failover, a faithful numbered log, a per-sender rate bound, a governance
  engine that refines an abstract assembly and whose decisions are final and justified, deliveries
  that form a tree from the campaign's root and respect consent, fan-out and rates, and credit that
  stays within its caps.  Every evaluation of valid metrics gives a judgment that validates and can
  be recorded, and the journal accepts it once.  Only a current read of a balance authorises an
  operation, however reads interleave, and the outcome of a ballot is exact and independent of the
  order of the ballots.  Whatever is asked of a lineage, its past endures and what it becomes can be
  loaded, as long as no child takes the ID of the external parent; climbing it ends at its root.  An accepted burn has exactly
  the intended amount, a survival ends its death for good, a shutdown waits for its absorption, and nothing
  is ever removed from the outbox.  An envelope is accepted in one interval of time.  Validators are characterised exactly (accepted if
  and only if the stated conditions hold).  Where the code does not do what it means to, a theorem
  exhibits it: a renewal can extend a lease so far that the persisted state is refused on reload, the
  reload check does not restore the generation fence, registry status does not outrank reputation, a
  revocation in the second of a delivery leaves a propagation state that is never loaded again, the
  migration of an empty registry makes a registry that cannot be saved and loaded once it is used,
  an emergency requirement is called fully funded when the expenditure cannot cover the shortfall,
  a token observation enables scales that had been restricted for the period, a child may take the ID of
  the external parent of its lineage, after which an absorption leaves a state that is refused on reload, and
  one token transaction is accepted for two rewards, which leaves an outbox that is refused on reload.

  \<^bold>\<open>Parameters.\<close>  Code outside the repository enters as arguments: \<open>digest\<close> for SHA-256, \<open>libs\<close>
  (digest and the serde encoder of an envelope), \<open>gov_libs\<close> (SHA-256 as lowercase hexadecimal text
  and the serde encoder of a document), \<open>prop_libs\<close> (the same for payloads, profiles and provenance
  chains), \<open>json_reader\<close> (the serde parser) and verifiers, \<open>erc8004_backend\<close> (what a read of the
  chain returns), \<open>nature_crypto\<close> (SHA-256, HMAC and the serde encodings of a Nature),
  \<open>post\<close>, \<open>decode\<close> and \<open>as_u64\<close> (the HTTP client and the JSON reader of the token transport),
  \<open>evolution_libs\<close> (the serde encoding of an action and the functions of \<open>nature_crypto\<close>),
  \<open>history_codec\<close> (SHA-256, the canonical encoding of a history record and the length of its line),
  and for the draws of the operating system's generator the bytes it returns.
  What is assumed of them is stated in the theorem that uses it, and a witness instantiates it.

  \<^bold>\<open>Bounds and fuel.\<close>  Only the definition \<open>drain\<close> of \<open>Council_Transport\<close>, which models a client
  that pages through a subscription, takes fuel; more fuel than there are retained messages is
  enough, and the theorem says so.  The two-pointer loop of the rate check is a function with a
  termination proof, and so is the rejection loop of \<^verbatim>\<open>secure_uniform\<close>, which ends when the
  random bytes do.  The recursive walk \<open>visit_lineage\<close> takes as fuel the depth of its calls; it is called
  with one more than there are nodes, and never runs out.  The climb \<open>ancestors_loop\<close> is a partial
  function, since it does not end on a cycle; on a validated lineage it returns (\<open>lineage_climb\<close>).  All other loops of the code are structural recursions here.  The hash maps of
  \<^verbatim>\<open>propagation.rs\<close> are iterated in key order, on which only the choice among several errors of a
  corrupt state depends.

  \<^bold>\<open>Not modelled.\<close>  The file persistence and the simulator of \<^verbatim>\<open>cthuwu-council\<close>, the other modules of
  the bot (conversation flow, the executors of lifecycle actions and the supervisor in
  \<^verbatim>\<open>evolution_runtime.rs\<close>, chain transactions, configuration and storage), the
  TypeScript agent and web client and the Solidity contracts.  Of the modelled modules of the bot,
  file access is left out, that of the lineage and lifecycle stores included: a journal is the list of the records its lines decode to.  Of
  \<^verbatim>\<open>token_eye.rs\<close> the HTTP client and the parsing of endpoint URLs are left out.  Locks are
  taken to succeed, so the poisoned-mutex error of the transport does not occur; the \<open>Display\<close> texts of errors are modelled only where the protocol
  prints them.
\<close>

end
